(* ===== verification/Prelude.thy ===== *)
theory Prelude
  imports Main "HOL-Library.AList" "HOL-Library.Word" "HOL-Library.Sublist"
begin

text \<open>
  What every component shares.
  \<^item> Rust strings: a \<open>String\<close> is its UTF-8 byte sequence, a \<^typ>\<open>string\<close>
    whose \<^typ>\<open>char\<close>s are the bytes; \<open>len()\<close> is \<^const>\<open>length\<close>.
  \<^item> \<open>str::trim\<close>, ASCII case folding, splitting and joining.
  \<^item> \<open>usize\<close> counters that saturate.
  \<^item> \<open>HashMap\<close> and \<open>IndexMap\<close> as association lists with distinct keys, with the
    map interface they promise stated as a locale and interpreted on them.
\<close>

named_theorems rust_simps \<open>unfolding rules for the small standard-library helpers\<close>

section \<open>Integers\<close>

type_synonym u8 = "8 word"
type_synonym u16 = "16 word"
type_synonym u32 = "32 word"
type_synonym u64 = "64 word"

text \<open>\<open>usize\<close> is 64 bits wide on the supported targets.\<close>

definition usize_max :: nat where
  "usize_max = 2 ^ 64 - 1"

definition sat_add :: "nat \<Rightarrow> nat \<Rightarrow> nat" where
  "sat_add a b = min (a + b) usize_max"

lemma sat_add_le_max: "sat_add a b \<le> usize_max"
  by (simp add: sat_add_def)

lemma sat_add_pos [simp]: "0 < sat_add a b \<longleftrightarrow> 0 < a + b"
  by (simp add: sat_add_def usize_max_def)

lemma sat_add_mono: "a \<le> usize_max \<Longrightarrow> a \<le> sat_add a b"
  by (simp add: sat_add_def)

section \<open>Strings as UTF-8 byte sequences\<close>

text \<open>
  The encodings of the code points with the Unicode property \<open>White_Space\<close>, which is
  what \<open>str::trim\<close> strips. UTF-8 is self-synchronising, so on a valid string an encoding is
  a prefix (suffix) of the bytes exactly when the code point is the first (last) one.
\<close>

definition white_space :: "string list" where
  "white_space =
     [[CHR 0x20], [CHR 0x09], [CHR 0x0A], [CHR 0x0B], [CHR 0x0C], [CHR 0x0D],
      [CHR 0xC2, CHR 0x85], [CHR 0xC2, CHR 0xA0],
      [CHR 0xE1, CHR 0x9A, CHR 0x80],
      [CHR 0xE2, CHR 0x80, CHR 0x80], [CHR 0xE2, CHR 0x80, CHR 0x81],
      [CHR 0xE2, CHR 0x80, CHR 0x82], [CHR 0xE2, CHR 0x80, CHR 0x83],
      [CHR 0xE2, CHR 0x80, CHR 0x84], [CHR 0xE2, CHR 0x80, CHR 0x85],
      [CHR 0xE2, CHR 0x80, CHR 0x86], [CHR 0xE2, CHR 0x80, CHR 0x87],
      [CHR 0xE2, CHR 0x80, CHR 0x88], [CHR 0xE2, CHR 0x80, CHR 0x89],
      [CHR 0xE2, CHR 0x80, CHR 0x8A], [CHR 0xE2, CHR 0x80, CHR 0xA8],
      [CHR 0xE2, CHR 0x80, CHR 0xA9], [CHR 0xE2, CHR 0x80, CHR 0xAF],
      [CHR 0xE2, CHR 0x81, CHR 0x9F], [CHR 0xE3, CHR 0x80, CHR 0x80]]"

definition leading :: "'a list list \<Rightarrow> 'a list \<Rightarrow> 'a list option" where
  "leading ws s = find (\<lambda>w. w \<noteq> [] \<and> take (length w) s = w) ws"

function strip_leading :: "'a list list \<Rightarrow> 'a list \<Rightarrow> 'a list" where
  "strip_leading ws s =
     (case leading ws s of None \<Rightarrow> s | Some w \<Rightarrow> strip_leading ws (drop (length w) s))"
  by pat_completeness auto
termination
proof (relation "measure (\<lambda>(ws, s). length s)", goal_cases)
  case (2 ws s w)
  then have "w \<noteq> []" and "take (length w) s = w"
    by (auto simp: leading_def find_Some_iff)
  then show ?case by (cases s) auto
qed simp

declare strip_leading.simps [simp del]

definition trim_start :: "string \<Rightarrow> string" where
  "trim_start s = strip_leading white_space s"

definition trim_end :: "string \<Rightarrow> string" where
  "trim_end s = rev (strip_leading (map rev white_space) (rev s))"

definition trim :: "string \<Rightarrow> string" where
  "trim s = trim_end (trim_start s)"

lemma strip_leading_suffix: "suffix (strip_leading ws s) s"
proof (induction ws s rule: strip_leading.induct)
  case (1 ws s)
  then show ?case
    by (subst strip_leading.simps) (auto split: option.split intro: suffix_order.trans suffix_drop)
qed

lemma leading_strip_leading: "leading ws (strip_leading ws s) = None"
proof (induction ws s rule: strip_leading.induct)
  case (1 ws s)
  then show ?case
    by (subst strip_leading.simps) (auto split: option.split)
qed

lemma strip_leading_id: "leading ws s = None \<Longrightarrow> strip_leading ws s = s"
  by (subst strip_leading.simps) simp

lemma leading_prefix:
  assumes "leading ws s = None" and "prefix p s"
  shows "leading ws p = None"
  unfolding leading_def find_None_iff
proof clarify
  fix w assume w: "w \<in> set ws" "w \<noteq> []" "take (length w) p = w"
  then have "length w \<le> length p"
    by (metis length_take min.cobounded1)
  then have "take (length w) s = w"
    using assms(2) w(3) by (auto simp: prefix_def)
  with w(1,2) assms(1) show False
    unfolding leading_def find_None_iff by metis
qed

lemma trim_end_prefix: "prefix (trim_end s) s"
  using strip_leading_suffix [of "map rev white_space" "rev s"]
  by (simp add: trim_end_def suffix_to_prefix)

lemma trim_start_trim [simp]: "trim_start (trim s) = trim s"
proof -
  have "leading white_space (trim_start s) = None"
    by (simp add: trim_start_def leading_strip_leading)
  then have "leading white_space (trim s) = None"
    unfolding trim_def by (rule leading_prefix) (rule trim_end_prefix)
  then show ?thesis by (simp add: trim_start_def strip_leading_id)
qed

lemma trim_end_idem [simp]: "trim_end (trim_end s) = trim_end s"
  by (simp add: trim_end_def strip_leading_id leading_strip_leading)

lemma trim_trim [simp]: "trim (trim s) = trim s"
  by (subst trim_def) (simp, simp add: trim_def)

lemma trim_Nil [simp]: "trim [] = []"
  by (simp add: trim_def trim_end_def trim_start_def strip_leading.simps leading_def
      white_space_def)

text \<open>ASCII helpers of \<open>char\<close> and \<open>str\<close>.\<close>

definition byte :: "char \<Rightarrow> nat" where
  "byte c = of_char c"

definition is_ascii_lowercase :: "char \<Rightarrow> bool" where
  "is_ascii_lowercase c \<longleftrightarrow> 97 \<le> byte c \<and> byte c \<le> 122"

definition is_ascii_uppercase :: "char \<Rightarrow> bool" where
  "is_ascii_uppercase c \<longleftrightarrow> 65 \<le> byte c \<and> byte c \<le> 90"

definition is_ascii_digit :: "char \<Rightarrow> bool" where
  "is_ascii_digit c \<longleftrightarrow> 48 \<le> byte c \<and> byte c \<le> 57"

definition is_ascii_alphabetic :: "char \<Rightarrow> bool" where
  "is_ascii_alphabetic c \<longleftrightarrow> is_ascii_lowercase c \<or> is_ascii_uppercase c"

definition is_ascii_alphanumeric :: "char \<Rightarrow> bool" where
  "is_ascii_alphanumeric c \<longleftrightarrow> is_ascii_alphabetic c \<or> is_ascii_digit c"

definition ascii_lower :: "char \<Rightarrow> char" where
  "ascii_lower c = (if is_ascii_uppercase c then char_of (byte c + 32) else c)"

definition to_ascii_lowercase :: "string \<Rightarrow> string" where
  "to_ascii_lowercase s = map ascii_lower s"

definition eq_ignore_ascii_case :: "string \<Rightarrow> string \<Rightarrow> bool" where
  "eq_ignore_ascii_case s t \<longleftrightarrow> to_ascii_lowercase s = to_ascii_lowercase t"

definition starts_with :: "string \<Rightarrow> string \<Rightarrow> bool" where
  "starts_with s p \<longleftrightarrow> take (length p) s = p"

definition strip_prefix :: "string \<Rightarrow> string \<Rightarrow> string option" where
  "strip_prefix s p = (if starts_with s p then Some (drop (length p) s) else None)"

fun split_char :: "char \<Rightarrow> string \<Rightarrow> string list" where
  "split_char c [] = [[]]"
| "split_char c (x # xs) =
     (if x = c then [] # split_char c xs
      else (case split_char c xs of [] \<Rightarrow> [[x]] | p # ps \<Rightarrow> (x # p) # ps))"

fun join :: "string \<Rightarrow> string list \<Rightarrow> string" where
  "join sep [] = []"
| "join sep [s] = s"
| "join sep (s # t # ts) = s @ sep @ join sep (t # ts)"

definition ends_with :: "string \<Rightarrow> string \<Rightarrow> bool" where
  "ends_with s p \<longleftrightarrow> length p \<le> length s \<and> drop (length s - length p) s = p"

text \<open>\<open>str::split_once\<close> on a character.\<close>

fun split_once :: "char \<Rightarrow> string \<Rightarrow> (string \<times> string) option" where
  "split_once c [] = None"
| "split_once c (x # xs) = (if x = c then Some ([], xs)
     else map_option (\<lambda>(a, b). (x # a, b)) (split_once c xs))"

text \<open>\<open>str::contains\<close> with a string pattern.\<close>

fun str_contains :: "string \<Rightarrow> string \<Rightarrow> bool" where
  "str_contains [] p \<longleftrightarrow> p = []"
| "str_contains (c # cs) p \<longleftrightarrow> take (length p) (c # cs) = p \<or> str_contains cs p"

text \<open>\<open>str::find\<close> with a string pattern.\<close>

fun str_find :: "'a list \<Rightarrow> 'a list \<Rightarrow> nat option" where
  "str_find pat [] = (if pat = [] then Some 0 else None)"
| "str_find pat (c # cs) = (if prefix pat (c # cs) then Some 0 else map_option Suc (str_find pat cs))"

text \<open>\<open>str::parse\<close> for an unsigned integer type with maximum \<open>m\<close>: an optional plus sign, then digits.\<close>

definition digits_value :: "string \<Rightarrow> nat" where
  "digits_value ds = foldl (\<lambda>acc d. acc * 10 + (byte d - 48)) 0 ds"

definition parse_uint :: "int \<Rightarrow> string \<Rightarrow> nat option" where
  "parse_uint m s =
     (let ds = (case s of [] \<Rightarrow> [] | c # cs \<Rightarrow> if c = CHR ''+'' then cs else s) in
      if ds = [] \<or> \<not> list_all is_ascii_digit ds \<or> m < int (digits_value ds) then None
      else Some (digits_value ds))"

lemma split_once_Some: "split_once c s = Some (a, b) \<Longrightarrow> s = a @ c # b \<and> c \<notin> set a"
  by (induction s arbitrary: a) (auto split: if_splits)

lemma split_once_append: "c \<notin> set a \<Longrightarrow> split_once c (a @ c # b) = Some (a, b)"
  by (induction a) auto

lemma str_find_prefix: "str_find pat s = Some i \<Longrightarrow> prefix pat (drop i s)"
  by (induction s arbitrary: i) (auto split: if_splits)

lemma str_find_bound: "str_find pat s = Some i \<Longrightarrow> i + length pat \<le> length s"
proof (induction s arbitrary: i)
  case (Cons c cs)
  then show ?case using prefix_length_le [of pat "c # cs"] by (auto split: if_splits)
qed (auto split: if_splits)

text \<open>\<open>str::cmp\<close>: bytewise lexicographic.\<close>

datatype ordering = Less | Equal | Greater

fun then_cmp :: "ordering \<Rightarrow> ordering \<Rightarrow> ordering" where
  "then_cmp Equal o2 = o2"
| "then_cmp o1 _ = o1"

definition cmp_nat :: "nat \<Rightarrow> nat \<Rightarrow> ordering" where
  "cmp_nat a b = (if a < b then Less else if a = b then Equal else Greater)"

fun str_cmp :: "string \<Rightarrow> string \<Rightarrow> ordering" where
  "str_cmp [] [] = Equal"
| "str_cmp [] (_ # _) = Less"
| "str_cmp (_ # _) [] = Greater"
| "str_cmp (x # xs) (y # ys) = then_cmp (cmp_nat (byte x) (byte y)) (str_cmp xs ys)"

text \<open>\<open>Iterator::max_by\<close>: of elements that compare equal the last one wins.\<close>

fun max_by :: "('a \<Rightarrow> 'a \<Rightarrow> ordering) \<Rightarrow> 'a list \<Rightarrow> 'a option" where
  "max_by cmp [] = None"
| "max_by cmp (x # xs) = Some (fold (\<lambda>y best. if cmp best y = Greater then best else y) xs x)"

lemma max_by_in:
  assumes "max_by cmp xs = Some m"
  shows "m \<in> set xs"
proof -
  have "fold (\<lambda>y best. if cmp best y = Greater then best else y) ys x \<in> insert x (set ys)" for x ys
    by (induction ys arbitrary: x) auto
  with assms show ?thesis by (cases xs) auto
qed

lemma max_by_None: "max_by cmp xs = None \<longleftrightarrow> xs = []"
  by (cases xs) simp_all

text \<open>\<open>slice::sort_by\<close>: a stable sort.\<close>

fun insert_by :: "('a \<Rightarrow> 'a \<Rightarrow> ordering) \<Rightarrow> 'a \<Rightarrow> 'a list \<Rightarrow> 'a list" where
  "insert_by cmp x [] = [x]"
| "insert_by cmp x (y # ys) = (if cmp x y = Greater then y # insert_by cmp x ys else x # y # ys)"

definition sort_by :: "('a \<Rightarrow> 'a \<Rightarrow> ordering) \<Rightarrow> 'a list \<Rightarrow> 'a list" where
  "sort_by cmp xs = foldr (insert_by cmp) xs []"

lemma set_insert_by: "set (insert_by cmp x ys) = insert x (set ys)"
  by (induction ys) auto

lemma set_sort_by: "set (sort_by cmp xs) = set xs"
  by (induction xs) (simp_all add: sort_by_def set_insert_by)

lemmas ascii_simps [rust_simps] =
  byte_def is_ascii_lowercase_def is_ascii_uppercase_def is_ascii_digit_def
  is_ascii_alphabetic_def is_ascii_alphanumeric_def ascii_lower_def
  to_ascii_lowercase_def eq_ignore_ascii_case_def starts_with_def strip_prefix_def

lemma strip_prefix_Some: "strip_prefix s p = Some r \<longleftrightarrow> s = p @ r"
  unfolding strip_prefix_def starts_with_def
  by (metis append_take_drop_id append_eq_conv_conj option.inject option.distinct(1))

lemma split_char_nonempty [simp]: "split_char c s \<noteq> []"
  by (cases s) (auto split: list.split)

text \<open>\<open>split\<close> and \<open>join\<close> on the same separator are inverse.\<close>

lemma join_split_char: "join [c] (split_char c s) = s"
proof (induction s)
  case (Cons x xs)
  obtain p ps where p: "split_char c xs = p # ps"
    by (cases "split_char c xs") auto
  show ?case
  proof (cases "x = c")
    case True
    with p Cons show ?thesis by simp
  next
    case False
    with p Cons show ?thesis by (cases ps) auto
  qed
qed simp

text \<open>\<open>str::is_char_boundary\<close>: a UTF-8 continuation byte never starts a character.\<close>

definition is_char_boundary :: "string \<Rightarrow> nat \<Rightarrow> bool" where
  "is_char_boundary s i \<longleftrightarrow>
     i = length s \<or> i < length s \<and> \<not> (128 \<le> byte (s ! i) \<and> byte (s ! i) \<le> 191)"

text \<open>\<open>str::replace\<close> with a nonempty pattern: matches are taken from the left and do not overlap.\<close>

function str_replace :: "string \<Rightarrow> string \<Rightarrow> string \<Rightarrow> string" where
  "str_replace pat rep s =
     (case s of [] \<Rightarrow> []
      | c # cs \<Rightarrow>
          (if pat \<noteq> [] \<and> starts_with s pat then rep @ str_replace pat rep (drop (length pat) s)
           else c # str_replace pat rep cs))"
  by pat_completeness auto
termination
  by (relation "measure (\<lambda>(_, _, s). length s)") auto

declare str_replace.simps [simp del]

section \<open>Loops\<close>

text \<open>A loop over \<open>iter_mut().rev()\<close> that threads a state, from the last element to the first.\<close>

fun walk_rev :: "('a \<Rightarrow> 's \<Rightarrow> 'a \<times> 's) \<Rightarrow> 'a list \<Rightarrow> 's \<Rightarrow> 'a list \<times> 's" where
  "walk_rev f [] s = ([], s)"
| "walk_rev f (x # xs) s = (let (xs', s1) = walk_rev f xs s; (x', s2) = f x s1 in (x' # xs', s2))"

lemma walk_rev_append:
  "walk_rev f (xs @ ys) s = (let (ys', s1) = walk_rev f ys s; (xs', s2) = walk_rev f xs s1 in (xs' @ ys', s2))"
  by (induction xs) (simp_all add: split_beta Let_def)

lemma length_walk_rev [simp]: "length (fst (walk_rev f xs s)) = length xs"
  by (induction xs) (simp_all add: split_beta Let_def)

section \<open>State machines\<close>

text \<open>
  A component with an initial state, operations and an invariant every operation keeps: the
  invariant holds after any sequence of operations, and along the way.
\<close>

locale machine =
  fixes step :: "'op \<Rightarrow> 's \<Rightarrow> 's" and init :: 's and inv :: "'s \<Rightarrow> bool"
  assumes inv_init: "inv init"
    and inv_step: "inv s \<Longrightarrow> inv (step op s)"
begin

lemma inv_run_from: "inv s \<Longrightarrow> inv (fold step ops s)"
  by (induction ops arbitrary: s) (simp_all add: inv_step)

lemma inv_run: "inv (fold step ops init)"
  by (rule inv_run_from) (rule inv_init)

end

text \<open>The same for operations that meet a condition.\<close>

locale guarded_machine =
  fixes step :: "'op \<Rightarrow> 's \<Rightarrow> 's" and good_op :: "'op \<Rightarrow> bool" and good_init :: "'s \<Rightarrow> bool"
    and inv :: "'s \<Rightarrow> bool"
  assumes good_init: "good_init s \<Longrightarrow> inv s"
    and good_step: "inv s \<Longrightarrow> good_op op \<Longrightarrow> inv (step op s)"
begin

lemma run_from: "inv s \<Longrightarrow> list_all good_op ops \<Longrightarrow> inv (fold step ops s)"
  by (induction ops arbitrary: s) (simp_all add: good_step)

lemma run: "good_init s \<Longrightarrow> list_all good_op ops \<Longrightarrow> inv (fold step ops s)"
  by (rule run_from) (rule good_init)

end

text \<open>
  An invariant that loosens with the number of steps, such as a bound on accumulated rounding, kept
  by at most \<open>N\<close> steps. A step may be allowed only in some states.
\<close>

fun allowed_run :: "('op \<Rightarrow> 's \<Rightarrow> bool) \<Rightarrow> ('op \<Rightarrow> 's \<Rightarrow> 's) \<Rightarrow> 'op list \<Rightarrow> 's \<Rightarrow> bool" where
  "allowed_run allowed step [] s \<longleftrightarrow> True"
| "allowed_run allowed step (op # ops) s \<longleftrightarrow> allowed op s \<and> allowed_run allowed step ops (step op s)"

lemma allowed_run_all: "allowed_run (\<lambda>op _. P op) step ops s \<longleftrightarrow> list_all P ops"
  by (induction ops arbitrary: s) simp_all

locale counted_machine =
  fixes step :: "'op \<Rightarrow> 's \<Rightarrow> 's" and allowed :: "'op \<Rightarrow> 's \<Rightarrow> bool" and N :: nat
    and inv :: "nat \<Rightarrow> 's \<Rightarrow> bool"
  assumes counted_step: "inv n s \<Longrightarrow> n < N \<Longrightarrow> allowed op s \<Longrightarrow> inv (Suc n) (step op s)"
begin

lemma counted_run:
  "inv n s \<Longrightarrow> allowed_run allowed step ops s \<Longrightarrow> n + length ops \<le> N \<Longrightarrow> inv (n + length ops) (fold step ops s)"
proof (induction ops arbitrary: n s)
  case (Cons op ops)
  then have "inv (Suc n) (step op s)" by (intro counted_step) simp_all
  with Cons show ?case using Cons.IH [of "Suc n" "step op s"] by simp
qed simp

end

sublocale machine \<subseteq> guarded: guarded_machine step "\<lambda>_. True" "\<lambda>s. s = init" inv
  by unfold_locales (simp_all add: inv_init inv_step)

section \<open>Maps\<close>

text \<open>
  A \<open>HashMap\<close>, a \<open>BTreeMap\<close> used without its order, or an \<open>IndexMap\<close> is an
  association list with distinct keys. An insertion keeps the place of a present key and
  appends a new one, which is \<open>IndexMap\<close>'s order; for a \<open>HashMap\<close>, whose order is
  unspecified, every statement holds for whatever order the list has.
\<close>

type_synonym ('k, 'v) hmap = "('k \<times> 'v) list"

abbreviation hm_get :: "('k, 'v) hmap \<Rightarrow> 'k \<Rightarrow> 'v option" where
  "hm_get m k \<equiv> map_of m k"

abbreviation hm_insert :: "'k \<Rightarrow> 'v \<Rightarrow> ('k, 'v) hmap \<Rightarrow> ('k, 'v) hmap" where
  "hm_insert k v m \<equiv> AList.update k v m"

abbreviation hm_remove :: "'k \<Rightarrow> ('k, 'v) hmap \<Rightarrow> ('k, 'v) hmap" where
  "hm_remove k m \<equiv> AList.delete k m"

definition hm_retain :: "('k \<Rightarrow> 'v \<Rightarrow> bool) \<Rightarrow> ('k, 'v) hmap \<Rightarrow> ('k, 'v) hmap" where
  "hm_retain P m = filter (\<lambda>(k, v). P k v) m"

definition hm_contains :: "('k, 'v) hmap \<Rightarrow> 'k \<Rightarrow> bool" where
  "hm_contains m k \<longleftrightarrow> map_of m k \<noteq> None"

definition hm_wf :: "('k, 'v) hmap \<Rightarrow> bool" where
  "hm_wf m \<longleftrightarrow> distinct (map fst m)"

definition hm_keys :: "('k, 'v) hmap \<Rightarrow> 'k set" where
  "hm_keys m = fst ` set m"

lemma hm_contains_keys: "hm_contains m k \<longleftrightarrow> k \<in> hm_keys m"
  by (simp add: hm_contains_def hm_keys_def map_of_eq_None_iff)

lemma hm_keys_simps [simp]:
  "hm_keys [] = {}"
  "hm_keys (hm_insert k v m) = insert k (hm_keys m)"
  "hm_keys (hm_remove k m) = hm_keys m - {k}"
  by (auto simp: hm_keys_def dom_update delete_keys image_iff AList.delete_eq)

lemma hm_keys_retain: "hm_keys (hm_retain P m) \<subseteq> hm_keys m"
  by (auto simp: hm_keys_def hm_retain_def)

lemma hm_keys_retain_key: "hm_keys (hm_retain (\<lambda>k _. P k) m) = {k \<in> hm_keys m. P k}"
  by (auto simp: hm_keys_def hm_retain_def image_iff split_beta)

lemma hm_wf_simps [simp]:
  "hm_wf []"
  "hm_wf m \<Longrightarrow> hm_wf (hm_insert k v m)"
  "hm_wf m \<Longrightarrow> hm_wf (hm_remove k m)"
  by (simp_all add: hm_wf_def distinct_update distinct_delete)

lemma hm_wf_retain [simp]: "hm_wf m \<Longrightarrow> hm_wf (hm_retain P m)"
  by (simp add: hm_wf_def hm_retain_def distinct_map_filter)

lemma hm_length_keys: "hm_wf m \<Longrightarrow> length m = card (hm_keys m)"
  by (metis distinct_card hm_keys_def hm_wf_def length_map list.set_map)

lemma hm_length_insert:
  "length (hm_insert k v m) = (if k \<in> hm_keys m then length m else Suc (length m))"
  by (induction m) (auto simp: hm_keys_def)

lemma hm_get_retain:
  "hm_wf m \<Longrightarrow> hm_get (hm_retain P m) k
     = (case hm_get m k of None \<Rightarrow> None | Some v \<Rightarrow> if P k v then Some v else None)"
  by (induction m) (auto simp: hm_wf_def hm_retain_def map_of_eq_None_iff image_iff
      split: option.splits dest: map_of_SomeD)

lemma hm_get_in_keys: "hm_get m k = Some v \<Longrightarrow> k \<in> hm_keys m"
  by (force simp: hm_keys_def dest: map_of_SomeD)

lemma hm_get_None_iff: "hm_get m k = None \<longleftrightarrow> k \<notin> hm_keys m"
  by (simp add: hm_keys_def map_of_eq_None_iff)

text \<open>The interface the components rely on, and that it is provided.\<close>

locale finite_kv =
  fixes get :: "'m \<Rightarrow> 'k \<Rightarrow> 'v option"
    and ins :: "'k \<Rightarrow> 'v \<Rightarrow> 'm \<Rightarrow> 'm"
    and del :: "'k \<Rightarrow> 'm \<Rightarrow> 'm"
    and size_of :: "'m \<Rightarrow> nat"
    and keys_of :: "'m \<Rightarrow> 'k set"
    and wf :: "'m \<Rightarrow> bool"
  assumes get_ins: "get (ins k v m) = (get m)(k \<mapsto> v)"
    and get_del: "get (del k m) = (get m)(k := None)"
    and keys_get: "k \<in> keys_of m \<longleftrightarrow> get m k \<noteq> None"
    and fin_keys: "finite (keys_of m)"
    and size_keys: "wf m \<Longrightarrow> size_of m = card (keys_of m)"
    and wf_ins: "wf m \<Longrightarrow> wf (ins k v m)"
    and wf_del: "wf m \<Longrightarrow> wf (del k m)"
begin

lemma keys_ins: "keys_of (ins k v m) = insert k (keys_of m)"
  by (auto simp: keys_get get_ins split: if_splits)

lemma keys_del: "keys_of (del k m) = keys_of m - {k}"
  by (auto simp: keys_get get_del split: if_splits)

lemma size_ins: "wf m \<Longrightarrow> size_of (ins k v m) \<le> Suc (size_of m)"
  by (simp add: size_keys wf_ins keys_ins card_insert_le_m1 fin_keys card_insert_if)

lemma size_replace: "wf m \<Longrightarrow> k \<in> keys_of m \<Longrightarrow> size_of (ins k v m) = size_of m"
  by (simp add: size_keys wf_ins keys_ins insert_absorb)

lemma size_del: "wf m \<Longrightarrow> k \<in> keys_of m \<Longrightarrow> Suc (size_of (del k m)) = size_of m"
  by (metis card_Suc_Diff1 fin_keys keys_del size_keys wf_del)

text \<open>Making room before an insertion keeps the size under a bound.\<close>

lemma size_evict_ins:
  assumes "wf m" and "old \<in> keys_of m" and "size_of m \<le> n"
  shows "size_of (ins k v (del old m)) \<le> n"
  using size_ins [of "del old m" k v] size_del [OF assms(1,2)] assms(3) wf_del [OF assms(1)]
  by simp

end

interpretation hm: finite_kv
  "\<lambda>m k. hm_get m k" "\<lambda>k v m. hm_insert k v m" "\<lambda>k m. hm_remove k m" length hm_keys hm_wf
proof unfold_locales
  fix m :: "('a, 'b) hmap" and k :: 'a and v :: 'b
  show "map_of (hm_insert k v m) = (map_of m)(k \<mapsto> v)" by (simp add: update_conv')
  show "map_of (hm_remove k m) = (map_of m)(k := None)" by (simp add: delete_conv')
  show "(k \<in> hm_keys m) = (map_of m k \<noteq> None)" by (simp add: hm_get_None_iff)
  show "finite (hm_keys m)" by (simp add: hm_keys_def)
  show "hm_wf m \<Longrightarrow> length m = card (hm_keys m)" by (rule hm_length_keys)
  show "hm_wf m \<Longrightarrow> hm_wf (hm_insert k v m)" by simp
  show "hm_wf m \<Longrightarrow> hm_wf (hm_remove k m)" by simp
qed

section \<open>Lists\<close>

lemma find_in: "find P xs = Some x \<Longrightarrow> x \<in> set xs \<and> P x"
  by (auto simp: find_Some_iff)

lemma filter_neq_id [simp]: "x \<notin> set xs \<Longrightarrow> filter (\<lambda>y. y \<noteq> x) xs = xs"
  by (induction xs) auto

lemma count_list_map_filter: "count_list (map f (filter P xs)) y \<le> count_list (map f xs) y"
  by (induction xs) auto

lemma distinct_count_list: "distinct xs \<longleftrightarrow> (\<forall>x. count_list xs x \<le> 1)"
proof (induction xs)
  case (Cons x xs)
  have zero: "count_list xs x = 0 \<longleftrightarrow> x \<notin> set xs"
    by (simp add: count_list_0_iff)
  show ?case
  proof
    assume "distinct (x # xs)"
    with Cons zero show "\<forall>y. count_list (x # xs) y \<le> 1" by simp
  next
    assume all: "\<forall>y. count_list (x # xs) y \<le> 1"
    then have "count_list (x # xs) x \<le> 1" ..
    then have "x \<notin> set xs" using zero by simp
    moreover have "count_list xs y \<le> 1" for y
      using all [THEN spec, of y] by (simp split: if_splits)
    ultimately show "distinct (x # xs)" using Cons by simp
  qed
qed simp

text \<open>Keeping only elements whose image occurs once leaves distinct images.\<close>

lemma distinct_map_filter_unique:
  assumes "\<And>x. x \<in> set xs \<Longrightarrow> P x \<Longrightarrow> count_list (map f xs) (f x) \<le> 1"
  shows "distinct (map f (filter P xs))"
  unfolding distinct_count_list
proof
  fix y
  show "count_list (map f (filter P xs)) y \<le> 1"
  proof (cases "y \<in> set (map f (filter P xs))")
    case True
    then obtain x where "x \<in> set xs" "P x" "y = f x" by auto
    with assms have "count_list (map f xs) y \<le> 1" by simp
    then show ?thesis using count_list_map_filter [of f P xs y] by simp
  next
    case False
    then show ?thesis by (metis count_notin le0)
  qed
qed

end
