(* ===== verification/Rounding.thy ===== *)
theory Rounding
  imports Complex_Main "HOL-Library.Log_Nat"
begin

text \<open>
  Rounding to \<open>binary64\<close>: to the nearest number with 53 significant bits and an exponent of at
  least -1074, ties to the even one. \<open>binary64\<close> gives None where the rounded value leaves the
  range of the finite numbers.
\<close>

section \<open>The rounding function\<close>

text \<open>The exponent of the leading bit of a positive rational.\<close>

definition binade :: "rat \<Rightarrow> int" where
  "binade r = (let (p, q) = quotient_of r; k = bitlen p - bitlen q in if 2 powi k \<le> r then k else k - 1)"

definition round_half_even :: "rat \<Rightarrow> int" where
  "round_half_even r = (let f = \<lfloor>r\<rfloor>; d = r - of_int f in if d < 1/2 \<or> d = 1/2 \<and> even f then f else f + 1)"

text \<open>The weight of the last bit that is kept.\<close>

definition last_bit :: "rat \<Rightarrow> rat" where
  "last_bit r = 2 powi (max (binade \<bar>r\<bar> - 52) (- 1074))"

definition round_bits :: "rat \<Rightarrow> rat" where
  "round_bits r = of_int (round_half_even (r / last_bit r)) * last_bit r"

definition binary64 :: "rat \<Rightarrow> rat option" where
  "binary64 r = (if r = 0 then Some 0 else if \<bar>round_bits r\<bar> < 2 ^ 1024 then Some (round_bits r) else None)"

section \<open>The error of one rounding\<close>

lemma bitlen_range:
  assumes "0 < p"
  shows "2 powi (bitlen p - 1) \<le> (of_int p :: rat)" "(of_int p :: rat) < 2 powi bitlen p"
proof -
  have b: "2 ^ nat (bitlen p - 1) \<le> p" "p < 2 ^ nat (bitlen p)"
    using bitlen_bounds [OF assms] by auto
  then have pos: "0 < bitlen p" using assms by (cases "0 < bitlen p") auto
  have "(of_int (2 ^ nat (bitlen p - 1)) :: rat) \<le> of_int p" using b(1) by (simp only: of_int_le_iff)
  then show "2 powi (bitlen p - 1) \<le> (of_int p :: rat)" using pos by (simp add: power_int_def)
  have "of_int p < (of_int (2 ^ nat (bitlen p)) :: rat)" using b(2) by (simp only: of_int_less_iff)
  then show "(of_int p :: rat) < 2 powi bitlen p" using pos by (simp add: power_int_def)
qed

lemma binade_range:
  assumes "0 < r"
  shows "2 powi binade r \<le> r" "r < 2 * 2 powi binade r"
proof -
  obtain p q where pq: "quotient_of r = (p, q)" by force
  then have r: "r = of_int p / of_int q" and q: "0 < q"
    by (simp_all add: quotient_of_div quotient_of_denom_pos)
  with assms have p: "0 < p" by (simp add: zero_less_divide_iff)
  let ?k = "bitlen p - bitlen q"
  note bp = bitlen_range [OF p] and bq = bitlen_range [OF q]
  have q0: "(0::rat) < of_int q" using q by simp
  have "(2::rat) powi (?k - 1) * of_int q \<le> 2 powi (?k - 1) * 2 powi bitlen q"
    using bq(2) by (intro mult_left_mono) simp_all
  also have "\<dots> = 2 powi (bitlen p - 1)" by (simp flip: power_int_add)
  also have "\<dots> \<le> of_int p" by (rule bp(1))
  finally have low: "2 powi (?k - 1) \<le> r" using q0 by (simp add: r pos_le_divide_eq)
  have "of_int p < (2::rat) powi bitlen p" by (rule bp(2))
  also have "\<dots> = 2 powi (?k + 1) * 2 powi (bitlen q - 1)" by (simp flip: power_int_add)
  also have "\<dots> \<le> 2 powi (?k + 1) * of_int q"
    using bq(1) by (intro mult_left_mono) simp_all
  finally have high: "r < 2 powi (?k + 1)" using q0 by (simp add: r pos_divide_less_eq)
  have two: "2 powi (?k + 1) = (2::rat) * 2 powi ?k" "(2::rat) powi ?k = 2 * 2 powi (?k - 1)"
    using power_int_add_1 [of "2::rat" ?k] power_int_add_1 [of "2::rat" "?k - 1"] by simp_all
  have bin: "binade r = (if 2 powi ?k \<le> r then ?k else ?k - 1)"
    unfolding binade_def pq by simp
  show "2 powi binade r \<le> r" unfolding bin using low by simp
  show "r < 2 * 2 powi binade r" unfolding bin using high two by (auto simp: not_le)
qed

lemma round_half_even_near: "\<bar>of_int (round_half_even r) - r\<bar> \<le> 1/2"
  using floor_correct [of r] by (auto simp: round_half_even_def Let_def abs_le_iff)

lemma round_half_even_int [simp]: "round_half_even (of_int n) = n"
  by (simp add: round_half_even_def)

lemma round_half_even_ge: "of_int n \<le> r \<Longrightarrow> n \<le> round_half_even r"
  using le_floor_iff [of n r] by (auto simp: round_half_even_def Let_def)

lemma round_half_even_le: "r \<le> of_int n \<Longrightarrow> round_half_even r \<le> n"
  using floor_correct [of r] floor_le_iff [of r n]
  by (cases "\<lfloor>r\<rfloor> = n") (auto simp: round_half_even_def Let_def)

lemma last_bit_pos: "0 < last_bit r"
  by (simp add: last_bit_def)

lemma round_bits_near: "\<bar>round_bits r - r\<bar> \<le> last_bit r / 2"
proof -
  have "round_bits r - r = (of_int (round_half_even (r / last_bit r)) - r / last_bit r) * last_bit r"
    using last_bit_pos [of r] by (simp add: round_bits_def left_diff_distrib)
  then have "\<bar>round_bits r - r\<bar> = \<bar>of_int (round_half_even (r / last_bit r)) - r / last_bit r\<bar> * last_bit r"
    using last_bit_pos [of r] by (simp add: abs_mult)
  also have "\<dots> \<le> 1/2 * last_bit r"
    using round_half_even_near last_bit_pos [of r] by (intro mult_right_mono) simp_all
  finally show ?thesis by simp
qed

lemma round_bits_nonneg: "0 \<le> r \<Longrightarrow> 0 \<le> round_bits r"
  using round_half_even_ge [of 0 "r / last_bit r"] last_bit_pos [of r]
  by (simp add: round_bits_def)

text \<open>The last bit that is kept of a number above the subnormals, against the number and what it
  is rounded to.\<close>

lemma last_bit_le: "r \<noteq> 0 \<Longrightarrow> last_bit r \<le> max (2 powi (- 1074)) (\<bar>r\<bar> / 2 ^ 52)"
proof -
  assume "r \<noteq> 0"
  then have "2 powi binade \<bar>r\<bar> \<le> \<bar>r\<bar>" using binade_range(1) [of "\<bar>r\<bar>"] by simp
  then have "2 powi (binade \<bar>r\<bar> - 52) \<le> \<bar>r\<bar> / 2 ^ 52"
    by (simp add: power_int_diff divide_right_mono)
  then show ?thesis by (auto simp: last_bit_def max_def)
qed

lemma last_bit_le_rounded: "r \<noteq> 0 \<Longrightarrow> last_bit r \<le> max (2 powi (- 1074)) (\<bar>round_bits r\<bar> / 2 ^ 52)"
proof -
  assume r: "r \<noteq> 0"
  show ?thesis
  proof (cases "binade \<bar>r\<bar> - 52 < - 1074")
    case False
    then have e: "last_bit r = 2 powi (binade \<bar>r\<bar> - 52)" by (simp add: last_bit_def)
    have "2 powi binade \<bar>r\<bar> \<le> \<bar>r\<bar>" using r binade_range(1) [of "\<bar>r\<bar>"] by simp
    then have "2 ^ 52 * last_bit r \<le> \<bar>r\<bar>" by (simp add: e power_int_diff)
    then have "(2 ^ 52 :: rat) \<le> \<bar>r / last_bit r\<bar>"
      using last_bit_pos [of r] by (simp add: pos_le_divide_eq abs_divide)
    then have "of_int (2 ^ 52) \<le> r / last_bit r \<or> r / last_bit r \<le> of_int (- (2 ^ 52))" by (auto simp: abs_if split: if_splits)
    then have "2 ^ 52 \<le> round_half_even (r / last_bit r) \<or> round_half_even (r / last_bit r) \<le> - (2 ^ 52)"
      using round_half_even_ge round_half_even_le by blast
    then have "(2 ^ 52 :: int) \<le> \<bar>round_half_even (r / last_bit r)\<bar>" by auto
    then have "(of_int (2 ^ 52) :: rat) \<le> of_int \<bar>round_half_even (r / last_bit r)\<bar>" by (simp only: of_int_le_iff)
    then have "2 ^ 52 * last_bit r \<le> \<bar>of_int (round_half_even (r / last_bit r))\<bar> * last_bit r"
      using last_bit_pos [of r] by (intro mult_right_mono) simp_all
    also have "\<dots> = \<bar>round_bits r\<bar>"
      using last_bit_pos [of r] by (simp add: round_bits_def abs_mult)
    finally show ?thesis by (simp add: pos_le_divide_eq max.coboundedI2)
  qed (simp add: last_bit_def max_def)
qed

lemma tiny: "(2::rat) powi (- 1074) \<le> 1 / 2 ^ 52"
proof -
  have "(2::rat) powi (- 1074) \<le> 2 powi (- 52)" by (rule power_int_increasing) simp_all
  moreover have "(2::rat) powi (- 52) = 1 / 2 ^ 52" by (simp add: power_int_minus inverse_eq_divide)
  ultimately show ?thesis by (simp only:)
qed

text \<open>
  The error of a rounding, against a bound on the exact value or on the rounded one that is at
  least 1: at most one part in \<open>2^53\<close> of the bound.
\<close>

lemma round_bits_error:
  assumes "1 \<le> M" and "\<bar>r\<bar> \<le> M \<or> \<bar>round_bits r\<bar> \<le> M" and "r \<noteq> 0"
  shows "\<bar>round_bits r - r\<bar> \<le> M / 2 ^ 53"
proof -
  have "(1::rat) / 2 ^ 52 \<le> M / 2 ^ 52" using assms(1) by (simp add: divide_right_mono)
  moreover have "\<bar>r\<bar> / 2 ^ 52 \<le> M / 2 ^ 52 \<or> \<bar>round_bits r\<bar> / 2 ^ 52 \<le> M / 2 ^ 52"
    using assms(2) by (auto simp: divide_right_mono)
  ultimately have "last_bit r \<le> M / 2 ^ 52"
    using last_bit_le [OF assms(3)] last_bit_le_rounded [OF assms(3)] tiny by linarith
  then show ?thesis using round_bits_near [of r] by simp
qed

lemma binary64_error:
  assumes "binary64 r = Some x" and "1 \<le> M" and "\<bar>r\<bar> \<le> M \<or> \<bar>x\<bar> \<le> M"
  shows "\<bar>x - r\<bar> \<le> M / 2 ^ 53"
  using assms round_bits_error [of M r] by (auto simp: binary64_def split: if_splits)

lemma binary64_nonneg: "binary64 r = Some x \<Longrightarrow> 0 \<le> r \<Longrightarrow> 0 \<le> x"
  using round_bits_nonneg [of r] by (auto simp: binary64_def split: if_splits)

lemma binary64_finite:
  assumes "\<bar>r\<bar> \<le> M" and "1 \<le> M" and "M \<le> 2 ^ 1000"
  shows "\<exists>x. binary64 r = Some x"
proof (cases "r = 0")
  case False
  have "\<bar>round_bits r - r\<bar> \<le> M / 2 ^ 53" using False assms by (intro round_bits_error) auto
  moreover have "M / 2 ^ 53 \<le> M" using assms(2) by (simp add: divide_le_eq mult_le_cancel_left1)
  moreover have "(2::rat) ^ 1000 + 2 ^ 1000 < 2 ^ 1024" by simp
  ultimately have "\<bar>round_bits r\<bar> < 2 ^ 1024" using assms(1,3) by linarith
  then show ?thesis by (simp add: binary64_def False)
qed (simp add: binary64_def)

section \<open>Numbers that are not rounded\<close>

lemma binary64_0 [simp]: "binary64 0 = Some 0"
  by (simp add: binary64_def)

lemma binary64_int:
  assumes "\<bar>n\<bar> < 2 ^ 53"
  shows "binary64 (of_int n) = Some (of_int n)"
proof (cases "n = 0")
  case False
  let ?r = "of_int n :: rat"
  have n: "(0::rat) < \<bar>?r\<bar>" "\<bar>?r\<bar> < 2 ^ 53"
    using False assms of_int_less_iff [of "\<bar>n\<bar>" "2 ^ 53", where ?'a = rat] by simp_all
  have "(2::rat) powi binade \<bar>?r\<bar> < 2 powi 53"
    using binade_range(1) [OF n(1)] n(2) by simp
  then have "binade \<bar>?r\<bar> < 53" using power_int_increasing [of 53 "binade \<bar>?r\<bar>" "2::rat"] by linarith
  then have "max (binade \<bar>?r\<bar> - 52) (- 1074) \<le> 0" by simp
  then obtain k where "max (binade \<bar>?r\<bar> - 52) (- 1074) = - int k" by (metis nonpos_int_cases)
  then have k: "last_bit ?r = 1 / 2 ^ k" by (simp add: last_bit_def power_int_minus inverse_eq_divide)
  have "?r / last_bit ?r = of_int (n * 2 ^ k)" by (simp add: k)
  then have "round_bits ?r = ?r" unfolding round_bits_def by (simp only: round_half_even_int) (simp add: k)
  moreover have "(2::rat) ^ 53 < 2 ^ 1024" by simp
  ultimately show ?thesis using n(2) by (simp add: binary64_def)
qed simp

lemma binary64_numeral [simp]: "numeral k < (2 ^ 53 :: int) \<Longrightarrow> binary64 (numeral k) = Some (numeral k)"
  using binary64_int [of "numeral k"] by simp

lemma binary64_1 [simp]: "binary64 1 = Some 1"
  using binary64_int [of 1] by simp

end
