(* ===== verification/Values.thy ===== *)
theory Values
  imports Complex_Main Prelude Rounding
begin

text \<open>
  The value types the components exchange: \<open>f64\<close> and \<open>serde_json::Value\<close>.

  A finite \<open>f64\<close> is the rational it denotes and the infinities and NaN are explicit, so
  every comparison, \<open>max\<close>, \<open>min\<close> and \<open>clamp\<close> behaves as IEEE 754 says.
  Sums and differences, of which the running totals are made, are rounded to binary64, to nearest
  with ties to even, and overflow to infinity. Products and quotients, which only make scores,
  percentages and shares, are exact; the sign of zero is outside the model.
\<close>

section \<open>Floating point\<close>

datatype f64 = Fin rat | PosInf | NegInf | NaN

fun is_finite :: "f64 \<Rightarrow> bool" where
  "is_finite (Fin _) = True"
| "is_finite _ = False"

fun f_lt :: "f64 \<Rightarrow> f64 \<Rightarrow> bool" where
  "f_lt NaN _ = False"
| "f_lt _ NaN = False"
| "f_lt (Fin a) (Fin b) = (a < b)"
| "f_lt (Fin _) PosInf = True"
| "f_lt (Fin _) NegInf = False"
| "f_lt NegInf NegInf = False"
| "f_lt NegInf _ = True"
| "f_lt PosInf _ = False"

fun f_le :: "f64 \<Rightarrow> f64 \<Rightarrow> bool" where
  "f_le NaN _ = False"
| "f_le _ NaN = False"
| "f_le (Fin a) (Fin b) = (a \<le> b)"
| "f_le (Fin _) PosInf = True"
| "f_le (Fin _) NegInf = False"
| "f_le NegInf _ = True"
| "f_le PosInf PosInf = True"
| "f_le PosInf _ = False"

abbreviation f_gt :: "f64 \<Rightarrow> f64 \<Rightarrow> bool" where
  "f_gt a b \<equiv> f_lt b a"

abbreviation f_ge :: "f64 \<Rightarrow> f64 \<Rightarrow> bool" where
  "f_ge a b \<equiv> f_le b a"

fun f_neg :: "f64 \<Rightarrow> f64" where
  "f_neg (Fin a) = Fin (- a)"
| "f_neg PosInf = NegInf"
| "f_neg NegInf = PosInf"
| "f_neg NaN = NaN"

text \<open>The sum of two finite numbers is rounded.\<close>

definition f_round :: "rat \<Rightarrow> f64" where
  "f_round r = (case binary64 r of Some x \<Rightarrow> Fin x | None \<Rightarrow> if 0 < r then PosInf else NegInf)"

fun f_add :: "f64 \<Rightarrow> f64 \<Rightarrow> f64" where
  "f_add NaN _ = NaN"
| "f_add _ NaN = NaN"
| "f_add (Fin a) (Fin b) = f_round (a + b)"
| "f_add (Fin _) y = y"
| "f_add x (Fin _) = x"
| "f_add PosInf PosInf = PosInf"
| "f_add NegInf NegInf = NegInf"
| "f_add _ _ = NaN"

definition f_sub :: "f64 \<Rightarrow> f64 \<Rightarrow> f64" where
  "f_sub a b = f_add a (f_neg b)"

text \<open>\<open>f64::max\<close> and \<open>f64::min\<close> return the other operand when one is NaN.\<close>

definition f_max :: "f64 \<Rightarrow> f64 \<Rightarrow> f64" where
  "f_max a b = (if a = NaN then b else if b = NaN then a else if f_lt a b then b else a)"

definition f_min :: "f64 \<Rightarrow> f64 \<Rightarrow> f64" where
  "f_min a b = (if a = NaN then b else if b = NaN then a else if f_lt b a then b else a)"

text \<open>\<open>f64::clamp\<close> keeps NaN.\<close>

definition f_clamp :: "f64 \<Rightarrow> f64 \<Rightarrow> f64 \<Rightarrow> f64" where
  "f_clamp x lo hi = (if f_lt x lo then lo else if f_lt hi x then hi else x)"

fun f_sgn :: "f64 \<Rightarrow> rat" where
  "f_sgn (Fin a) = sgn a"
| "f_sgn PosInf = 1"
| "f_sgn NegInf = -1"
| "f_sgn NaN = 0"

definition f_inf :: "rat \<Rightarrow> f64" where
  "f_inf s = (if 0 < s then PosInf else if s < 0 then NegInf else NaN)"

fun f_mul :: "f64 \<Rightarrow> f64 \<Rightarrow> f64" where
  "f_mul NaN _ = NaN"
| "f_mul _ NaN = NaN"
| "f_mul (Fin a) (Fin b) = Fin (a * b)"
| "f_mul x y = f_inf (f_sgn x * f_sgn y)"

text \<open>The cast \<open>as u64\<close>: it truncates and saturates, and NaN becomes 0.\<close>

fun f64_as_u64 :: "f64 \<Rightarrow> nat" where
  "f64_as_u64 (Fin r) = min usize_max (nat \<lfloor>r\<rfloor>)"
| "f64_as_u64 PosInf = usize_max"
| "f64_as_u64 _ = 0"

fun f_div :: "f64 \<Rightarrow> f64 \<Rightarrow> f64" where
  "f_div NaN _ = NaN"
| "f_div _ NaN = NaN"
| "f_div (Fin a) (Fin b) = (if b = 0 then f_inf (sgn a) else Fin (a / b))"
| "f_div (Fin _) _ = Fin 0"
| "f_div x (Fin b) = f_inf (f_sgn x * (if b < 0 then -1 else 1))"
| "f_div _ _ = NaN"

lemma f_round_0 [simp]: "f_round 0 = Fin 0"
  by (simp add: f_round_def)

lemma f_round_1 [simp]: "f_round 1 = Fin 1"
  by (simp add: f_round_def)

lemma f_round_numeral [simp]: "numeral k < (2 ^ 53 :: int) \<Longrightarrow> f_round (numeral k) = Fin (numeral k)"
  by (simp add: f_round_def)

lemma f_round_not_NaN [simp]: "f_round r \<noteq> NaN"
  by (simp add: f_round_def split: option.split)

text \<open>Rounding a number within a bound, and what the rounded number says of the exact one.\<close>

lemma f_round_near:
  assumes "\<bar>r\<bar> \<le> M" and "1 \<le> M" and "M \<le> 2 ^ 1000"
  obtains x where "f_round r = Fin x" "\<bar>x - r\<bar> \<le> M / 2 ^ 53" "0 \<le> r \<Longrightarrow> 0 \<le> x"
  using binary64_finite [OF assms] binary64_error [OF _ assms(2)] assms(1) binary64_nonneg
  by (auto simp: f_round_def)

lemma f_round_back:
  assumes "f_round r = Fin x" and "\<bar>x\<bar> \<le> M" and "1 \<le> M"
  shows "\<bar>x - r\<bar> \<le> M / 2 ^ 53"
  using assms binary64_error [of r x M] by (auto simp: f_round_def split: option.splits if_splits)

lemma f_round_nonneg: "f_round r = Fin x \<Longrightarrow> 0 \<le> r \<Longrightarrow> 0 \<le> x"
  by (auto simp: f_round_def dest: binary64_nonneg split: option.splits if_splits)

lemma f_round_nonneg_or_inf: "0 \<le> r \<Longrightarrow> (\<exists>x. f_round r = Fin x) \<or> f_round r = PosInf"
  by (cases "r = 0") (auto simp: f_round_def split: option.split)

lemma f_le_trans: "f_le a b \<Longrightarrow> f_le b c \<Longrightarrow> f_le a c"
  by (cases a; cases b; cases c) auto

lemma f_lt_le_trans: "f_lt a b \<Longrightarrow> f_le b c \<Longrightarrow> f_lt a c"
  by (cases a; cases b; cases c) auto

lemma f_le_lt_trans: "f_le a b \<Longrightarrow> f_lt b c \<Longrightarrow> f_lt a c"
  by (cases a; cases b; cases c) auto

lemma f_not_lt: "a \<noteq> NaN \<Longrightarrow> b \<noteq> NaN \<Longrightarrow> \<not> f_lt a b \<longleftrightarrow> f_le b a"
  by (cases a; cases b) auto

lemma f_not_le: "a \<noteq> NaN \<Longrightarrow> b \<noteq> NaN \<Longrightarrow> \<not> f_le a b \<longleftrightarrow> f_lt b a"
  by (cases a; cases b) auto

lemma f_max_ge: "a \<noteq> NaN \<Longrightarrow> f_le a (f_max a b)"
  by (cases a; cases b) (auto simp: f_max_def)

lemma f_max_ge2: "b \<noteq> NaN \<Longrightarrow> f_le b (f_max a b)"
  by (cases a; cases b) (auto simp: f_max_def)

lemma f_min_le: "a \<noteq> NaN \<Longrightarrow> f_le (f_min a b) a"
  by (cases a; cases b) (auto simp: f_min_def)

lemma f_min_le2: "b \<noteq> NaN \<Longrightarrow> f_le (f_min a b) b"
  by (cases a; cases b) (auto simp: f_min_def)

lemma f_max_Fin [simp]: "f_max (Fin a) (Fin b) = Fin (max a b)"
  by (auto simp: f_max_def)

lemma f_min_Fin [simp]: "f_min (Fin a) (Fin b) = Fin (min a b)"
  by (auto simp: f_min_def)

lemma f_sub_Fin [simp]: "f_sub (Fin a) (Fin b) = f_round (a - b)"
  by (simp add: f_sub_def)

lemma f_clamp_range:
  "x \<noteq> NaN \<Longrightarrow> lo \<noteq> NaN \<Longrightarrow> hi \<noteq> NaN \<Longrightarrow> f_le lo hi \<Longrightarrow>
     f_le lo (f_clamp x lo hi) \<and> f_le (f_clamp x lo hi) hi"
  by (cases x; cases lo; cases hi) (auto simp: f_clamp_def)

section \<open>JSON values\<close>

datatype json_number = PosInt u64 | NegInt u64 | Float f64

datatype json =
    JNull
  | JBool bool
  | JNumber json_number
  | JString string
  | JArray "json list"
  | JObject "(string \<times> json) list"

text \<open>\<open>Value::get\<close> with a string index, and the \<open>as_*\<close> and \<open>is_*\<close> accessors.\<close>

fun v_get :: "json \<Rightarrow> string \<Rightarrow> json option" where
  "v_get (JObject m) k = map_of m k"
| "v_get _ _ = None"

fun as_str :: "json \<Rightarrow> string option" where
  "as_str (JString s) = Some s"
| "as_str _ = None"

fun as_bool :: "json \<Rightarrow> bool option" where
  "as_bool (JBool b) = Some b"
| "as_bool _ = None"

fun as_u64 :: "json \<Rightarrow> nat option" where
  "as_u64 (JNumber (PosInt n)) = Some (unat n)"
| "as_u64 _ = None"

fun as_array :: "json \<Rightarrow> json list option" where
  "as_array (JArray xs) = Some xs"
| "as_array _ = None"

fun is_object :: "json \<Rightarrow> bool" where
  "is_object (JObject _) = True"
| "is_object _ = False"

fun is_null :: "json \<Rightarrow> bool" where
  "is_null JNull = True"
| "is_null _ = False"

definition get_str :: "json \<Rightarrow> string \<Rightarrow> string option" where
  "get_str v k = Option.bind (v_get v k) as_str"

text \<open>\<open>Value::pointer\<close> along object keys.\<close>

fun v_pointer :: "string list \<Rightarrow> json \<Rightarrow> json option" where
  "v_pointer [] v = Some v"
| "v_pointer (k # ks) v = Option.bind (v_get v k) (v_pointer ks)"

section \<open>Option chains\<close>

definition or_else :: "'a option \<Rightarrow> 'a option \<Rightarrow> 'a option" where
  "or_else a b = (case a of Some x \<Rightarrow> Some x | None \<Rightarrow> b)"

definition unwrap_or :: "'a option \<Rightarrow> 'a \<Rightarrow> 'a" where
  "unwrap_or a d = (case a of Some x \<Rightarrow> x | None \<Rightarrow> d)"

definition opt_filter :: "('a \<Rightarrow> bool) \<Rightarrow> 'a option \<Rightarrow> 'a option" where
  "opt_filter P a = (case a of Some x \<Rightarrow> if P x then Some x else None | None \<Rightarrow> None)"

fun find_map :: "('a \<Rightarrow> 'b option) \<Rightarrow> 'a list \<Rightarrow> 'b option" where
  "find_map f [] = None"
| "find_map f (x # xs) = (case f x of Some y \<Rightarrow> Some y | None \<Rightarrow> find_map f xs)"

lemma or_else_simps [simp]:
  "or_else (Some x) b = Some x"
  "or_else None b = b"
  by (simp_all add: or_else_def)

lemma unwrap_or_simps [simp]:
  "unwrap_or (Some x) d = x"
  "unwrap_or None d = d"
  by (simp_all add: unwrap_or_def)

lemma opt_filter_simps [simp]:
  "opt_filter P None = None"
  "opt_filter P (Some x) = (if P x then Some x else None)"
  by (simp_all add: opt_filter_def)

lemma find_map_Some: "find_map f xs = Some y \<Longrightarrow> \<exists>x \<in> set xs. f x = Some y"
  by (induction xs) (auto split: option.splits)

end
