(* ===== verification/KiroProtocol.thy ===== *)
theory KiroProtocol
  imports Values
begin

text \<open>
  The Kiro request payload of \<open>crates/kproxy-translate/src/protocol.rs\<close>: the records the
  translation layer fills in and the last-mile repair of tool histories rewrites. Field names
  carry a prefix that names their struct.
\<close>

datatype kiro_image = KiroImage (ki_format: string) (ki_bytes: string)

datatype kiro_document =
  KiroDocument (kd_format: string) (kd_name: string) (kd_bytes: string)
    (kd_citations_enabled: "bool option")

datatype kiro_cache_point = KiroCachePoint (cp_type: string)

definition kiro_cache_point_new :: kiro_cache_point where
  "kiro_cache_point_new = KiroCachePoint ''default''"

datatype kiro_env_state =
  KiroEnvState (es_current_working_directory: "string option") (es_operating_system: "string option")

record kiro_tool_result =
  tr_content :: "string list"
  tr_status :: string
  tr_tool_use_id :: string

record kiro_tool_specification =
  ts_name :: string
  ts_description :: string
  ts_input_schema :: json

datatype kiro_tool =
    Specification kiro_tool_specification
  | CachePoint kiro_cache_point

fun tool_specification :: "kiro_tool \<Rightarrow> kiro_tool_specification option" where
  "tool_specification (Specification s) = Some s"
| "tool_specification (CachePoint _) = None"

record kiro_message_context =
  mc_tool_results :: "kiro_tool_result list"
  mc_tools :: "kiro_tool list"
  mc_env_state :: "kiro_env_state option"

definition message_context_default :: kiro_message_context where
  "message_context_default = \<lparr>mc_tool_results = [], mc_tools = [], mc_env_state = None\<rparr>"

record kiro_user_input_message =
  um_content :: string
  um_model_id :: string
  um_origin :: string
  um_images :: "kiro_image list"
  um_documents :: "kiro_document list"
  um_cache_point :: "kiro_cache_point option"
  um_client_cache_config :: "json option"
  um_context :: "kiro_message_context option"

record kiro_tool_use =
  tu_tool_use_id :: string
  tu_name :: string
  tu_input :: json

record kiro_assistant_message =
  am_content :: string
  am_cache_point :: "kiro_cache_point option"
  am_tool_uses :: "kiro_tool_use list"

record kiro_history_message =
  hx_user_input_message :: "kiro_user_input_message option"
  hx_assistant_response_message :: "kiro_assistant_message option"

record kiro_conversation_state =
  cs_agent_continuation_id :: "string option"
  cs_agent_task_type :: "string option"
  cs_chat_trigger_type :: string
  cs_conversation_id :: string
  cs_current_message :: kiro_user_input_message
  cs_history :: "kiro_history_message list"

record thinking_config =
  tc_type :: string
  tc_budget_tokens :: "u32 option"
  tc_display :: "string option"

record model_request_intent =
  mi_requested_model :: string
  mi_thinking :: "thinking_config option"
  mi_effort :: "string option"
  mi_automatic_history_truncation :: bool

record kiro_inference_config =
  ic_max_tokens :: "u32 option"
  ic_temperature :: "f64 option"
  ic_top_p :: "f64 option"

record kiro_payload =
  kp_conversation_state :: kiro_conversation_state
  kp_profile_arn :: "string option"
  kp_inference_config :: "kiro_inference_config option"
  kp_additional_model_request_fields :: "json option"
  kp_model_request_intent :: "model_request_intent option"
  kp_protected_history_messages :: nat

abbreviation kp_history :: "kiro_payload \<Rightarrow> kiro_history_message list" where
  "kp_history p \<equiv> cs_history (kp_conversation_state p)"

definition with_history :: "kiro_history_message list \<Rightarrow> kiro_payload \<Rightarrow> kiro_payload" where
  "with_history h p =
     p\<lparr>kp_conversation_state := (kp_conversation_state p)\<lparr>cs_history := h\<rparr>\<rparr>"

lemma kp_history_with_history [simp]: "kp_history (with_history h p) = h"
  by (simp add: with_history_def)

lemma with_history_other [simp]:
  "kp_protected_history_messages (with_history h p) = kp_protected_history_messages p"
  "cs_current_message (kp_conversation_state (with_history h p))
     = cs_current_message (kp_conversation_state p)"
  by (simp_all add: with_history_def)

section \<open>Operations of the payload\<close>

definition max_output_tokens :: "kiro_payload \<Rightarrow> u32 option" where
  "max_output_tokens p = Option.bind (kp_inference_config p) ic_max_tokens"

definition thinking_summary_omitted :: "kiro_payload \<Rightarrow> bool" where
  "thinking_summary_omitted p \<longleftrightarrow>
     Option.bind (Option.bind (kp_model_request_intent p) mi_thinking) tc_display
       = Some ''omitted''"

definition thinking_enabled :: "kiro_payload \<Rightarrow> bool" where
  "thinking_enabled p = (case kp_additional_model_request_fields p of
       None \<Rightarrow> False
     | Some flds \<Rightarrow>
         (case Option.bind (v_get flds ''thinking'') (\<lambda>v. get_str v ''type'') of
            Some t \<Rightarrow> t = ''adaptive'' \<or> t = ''enabled'' | None \<Rightarrow> False)
         \<or> (case Option.bind (v_get flds ''reasoning'') (\<lambda>v. get_str v ''effort'') of
              Some effort \<Rightarrow> effort \<noteq> ''none'' | None \<Rightarrow> False))"

definition protected_history_len :: "kiro_payload \<Rightarrow> nat" where
  "protected_history_len p = min (kp_protected_history_messages p) (length (kp_history p))"

definition retain_protected_history :: "kiro_payload \<Rightarrow> kiro_payload" where
  "retain_protected_history p = with_history (take (protected_history_len p) (kp_history p)) p"

definition truncate_history_preserving_protected_prefix :: "nat \<Rightarrow> kiro_payload \<Rightarrow> kiro_payload" where
  "truncate_history_preserving_protected_prefix maximum p =
     (let history_len = length (kp_history p) in
      if history_len \<le> maximum then p
      else
        let prot = protected_history_len p;
            recent_capacity = maximum - prot;
            recent_start = max (history_len - recent_capacity) prot;
            recent = drop recent_start (kp_history p);
            front = take recent_start (kp_history p)
        in with_history (take prot front @ recent) p)"

text \<open>
  The bound keeps the proxy-owned prefix and the newest turns, and never more than the bound
  unless the protected prefix alone exceeds it.
\<close>

lemma truncate_history_shape:
  fixes maximum p
  defines "h \<equiv> kp_history p" and "k \<equiv> protected_history_len p"
  defines "h' \<equiv> kp_history (truncate_history_preserving_protected_prefix maximum p)"
  shows "take k h' = take k h"
    and "\<exists>n. h' = take k h @ drop n h \<and> k \<le> n"
    and "length h' = min (length h) (max maximum k)"
proof -
  have kle: "k \<le> length h" by (simp add: k_def h_def protected_history_len_def)
  have cases: "h' = (if length h \<le> maximum then h
      else take k h @ drop (max (length h - (maximum - k)) k) h)"
    using kle by (simp add: h'_def h_def k_def truncate_history_preserving_protected_prefix_def
        Let_def min_absorb1)
  show "take k h' = take k h"
    using kle by (simp add: cases)
  show "\<exists>n. h' = take k h @ drop n h \<and> k \<le> n"
    unfolding cases by (cases "length h \<le> maximum") (auto intro: exI [of _ k])
  show "length h' = min (length h) (max maximum k)"
    using kle by (auto simp: cases min_def max_def)
qed

lemma with_history_back [simp]:
  "with_history (kp_history p) (with_history h p) = p"
  "with_history (kp_history p) p = p"
  by (simp_all add: with_history_def)

lemma truncate_history_closed:
  "truncate_history_preserving_protected_prefix maximum p =
     with_history (take (protected_history_len p) (kp_history p)
       @ drop (max (protected_history_len p)
           (length (kp_history p) - (maximum - protected_history_len p))) (kp_history p)) p"
proof (cases "length (kp_history p) \<le> maximum")
  case True
  then have "max (protected_history_len p) (length (kp_history p) - (maximum - protected_history_len p))
      = protected_history_len p"
    by simp
  then show ?thesis using True
    by (simp add: truncate_history_preserving_protected_prefix_def)
next
  case False
  then show ?thesis
    by (simp add: truncate_history_preserving_protected_prefix_def protected_history_len_def
        Let_def max.commute min_def)
qed

text \<open>Truncating a history keeps the protected prefix, drops only a contiguous block of the
  oldest unprotected messages, and leaves exactly \<open>min len (max maximum protected)\<close>
  messages; everything else of the payload is untouched.\<close>

theorem truncate_keeps_prefix_and_newest:
  "kp_history (truncate_history_preserving_protected_prefix maximum p)
     = take (protected_history_len p) (kp_history p)
       @ drop (max (protected_history_len p)
           (length (kp_history p) - (maximum - protected_history_len p))) (kp_history p)
   \<and> length (kp_history (truncate_history_preserving_protected_prefix maximum p))
     = min (length (kp_history p)) (max maximum (protected_history_len p))
   \<and> with_history (kp_history p) (truncate_history_preserving_protected_prefix maximum p) = p"
  by (simp add: truncate_history_shape) (simp add: truncate_history_closed)

end
