(* ===== verification/ToolHistory.thy ===== *)
theory ToolHistory
  imports KiroProtocol
begin

text \<open>
  \<open>crates/kproxy-translate/src/tool_history.rs\<close>: the last-mile repair of a payload's tool
  history (\<open>sanitize_kiro_tool_history\<close>) and the checker of Kiro's contract
  (\<open>validate_kiro_tool_history\<close>). The two passes of \<open>repair_tool_pairs\<close> and the
  output loop of \<open>normalize_roles\<close> are recursions over the message list with the loops'
  mutable variables as arguments. Serialising an archived record is \<open>serde_json\<close>'s
  \<open>to_string\<close>, the parameter \<open>to_json\<close>.
\<close>

section \<open>Data\<close>

record kiro_tool_history_stats =
  flattened_tool_uses :: nat
  flattened_tool_results :: nat
  normalized_tool_uses :: nat
  removed_invalid_tool_uses :: nat
  relocated_tool_results :: nat
  synthesized_tool_results :: nat
  normalized_tool_results :: nat
  removed_historical_tool_definitions :: nat
  removed_duplicate_tool_definitions :: nat
  inserted_messages :: nat

definition stats_default :: kiro_tool_history_stats where
  "stats_default =
     \<lparr>flattened_tool_uses = 0, flattened_tool_results = 0, normalized_tool_uses = 0,
      removed_invalid_tool_uses = 0, relocated_tool_results = 0, synthesized_tool_results = 0,
      normalized_tool_results = 0, removed_historical_tool_definitions = 0,
      removed_duplicate_tool_definitions = 0, inserted_messages = 0\<rparr>"

definition has_structured_tool_repair :: "kiro_tool_history_stats \<Rightarrow> bool" where
  "has_structured_tool_repair st \<longleftrightarrow>
     0 < flattened_tool_uses st \<or> 0 < flattened_tool_results st \<or> 0 < normalized_tool_uses st
     \<or> 0 < removed_invalid_tool_uses st \<or> 0 < relocated_tool_results st
     \<or> 0 < synthesized_tool_results st \<or> 0 < normalized_tool_results st
     \<or> 0 < removed_historical_tool_definitions st \<or> 0 < removed_duplicate_tool_definitions st"

definition repaired :: "kiro_tool_history_stats \<Rightarrow> bool" where
  "repaired st \<longleftrightarrow> has_structured_tool_repair st \<or> 0 < inserted_messages st"

datatype conversation_message =
    User kiro_user_input_message
  | Assistant kiro_assistant_message

record sourced_result =
  source_index :: nat
  result :: "kiro_tool_result option"

section \<open>Small helpers\<close>

definition missing_result_text :: string where
  "missing_result_text = ''The historical tool execution result is unavailable because the conversation history was incomplete.''"

definition missing_result :: "string \<Rightarrow> kiro_tool_result" where
  "missing_result tool_use_id =
     \<lparr>tr_content = [missing_result_text], tr_status = ''error'', tr_tool_use_id = tool_use_id\<rparr>"

definition normalize_result :: "kiro_tool_result \<Rightarrow> kiro_tool_result \<times> bool" where
  "normalize_result r =
     (let normalized_status = (if eq_ignore_ascii_case (tr_status r) ''success''
            then ''success'' else ''error'');
          changed1 = (tr_status r \<noteq> normalized_status);
          r1 = r\<lparr>tr_status := normalized_status\<rparr>
      in if tr_content r1 = [] then (r1\<lparr>tr_content := [''(empty tool result)'']\<rparr>, True)
         else (r1, changed1))"

definition synthetic_user ::
  "kiro_user_input_message \<Rightarrow> string \<Rightarrow> kiro_tool_result list \<Rightarrow> kiro_user_input_message" where
  "synthetic_user template content results =
     \<lparr>um_content = content, um_model_id = um_model_id template, um_origin = um_origin template,
      um_images = [], um_documents = [], um_cache_point = None, um_client_cache_config = None,
      um_context = (if results \<noteq> []
        then Some \<lparr>mc_tool_results = results, mc_tools = [], mc_env_state = None\<rparr> else None)\<rparr>"

definition synthetic_assistant :: kiro_assistant_message where
  "synthetic_assistant = \<lparr>am_content = ''Continue.'', am_cache_point = None, am_tool_uses = []\<rparr>"

definition render_tool_use :: "(json \<Rightarrow> string) \<Rightarrow> kiro_tool_use \<Rightarrow> string" where
  "render_tool_use to_json u =
     to_json (JObject [(''record_type'', JString ''archived_tool_call''),
       (''untrusted'', JBool True), (''tool_use_id'', JString (tu_tool_use_id u)),
       (''tool_name'', JString (tu_name u)), (''input'', tu_input u)])"

definition render_tool_result :: "(json \<Rightarrow> string) \<Rightarrow> kiro_tool_result \<Rightarrow> string" where
  "render_tool_result to_json r =
     to_json (JObject [(''record_type'', JString ''archived_tool_result''),
       (''untrusted'', JBool True), (''tool_use_id'', JString (tr_tool_use_id r)),
       (''status'', JString (tr_status r)),
       (''content'', JArray (map JString (tr_content r)))])"

definition append_text :: "string \<Rightarrow> string \<Rightarrow> string" where
  "append_text target addition =
     (if trim target \<noteq> [] then target @ [CHR 0x0A, CHR 0x0A] else target) @ addition"

definition take_tool_results ::
  "kiro_user_input_message \<Rightarrow> kiro_tool_result list \<times> kiro_user_input_message" where
  "take_tool_results user = (case um_context user of
       None \<Rightarrow> ([], user)
     | Some context \<Rightarrow>
         let results = mc_tool_results context;
             context' = context\<lparr>mc_tool_results := []\<rparr>
         in (results,
             user\<lparr>um_context := (if mc_tools context' = [] \<and> mc_env_state context' = None
               then None else Some context')\<rparr>))"

definition add_tool_results ::
  "kiro_user_input_message \<Rightarrow> kiro_tool_result list \<Rightarrow> kiro_user_input_message" where
  "add_tool_results user results =
     (if results = [] then user
      else let context = (case um_context user of
                 None \<Rightarrow> message_context_default | Some c \<Rightarrow> c)
           in user\<lparr>um_context :=
                Some (context\<lparr>mc_tool_results := mc_tool_results context @ results\<rparr>)\<rparr>)"

section \<open>Tool definitions of the current message\<close>

fun retain_tools ::
  "kiro_tool list \<Rightarrow> string set \<Rightarrow> kiro_tool_history_stats
     \<Rightarrow> kiro_tool list \<times> string set \<times> kiro_tool_history_stats" where
  "retain_tools [] names st = ([], names, st)"
| "retain_tools (CachePoint c # ts) names st =
     (let (ts', names', st') = retain_tools ts names st in (CachePoint c # ts', names', st'))"
| "retain_tools (Specification spec # ts) names st =
     (let name = trim (ts_name spec) in
      if name \<noteq> [] \<and> name \<notin> names
      then (let (ts', names', st') = retain_tools ts (insert name names) st
            in (Specification (spec\<lparr>ts_name := name\<rparr>) # ts', names', st'))
      else retain_tools ts names
             (st\<lparr>removed_duplicate_tool_definitions :=
                sat_add (removed_duplicate_tool_definitions st) 1\<rparr>))"

definition sanitize_current_tool_definitions ::
  "kiro_message_context option \<Rightarrow> kiro_tool_history_stats
     \<Rightarrow> kiro_message_context option \<times> string set \<times> kiro_tool_history_stats" where
  "sanitize_current_tool_definitions context st = (case context of
       None \<Rightarrow> (None, {}, st)
     | Some c \<Rightarrow> (let (ts, names, st') = retain_tools (mc_tools c) {} st
                  in (Some (c\<lparr>mc_tools := ts\<rparr>), names, st')))"

section \<open>Pairing calls with results\<close>

text \<open>First pass: take every result out of its user message, remembering where it was.\<close>

fun collect_results ::
  "nat \<Rightarrow> conversation_message list \<Rightarrow> sourced_result list \<Rightarrow> (string, nat list) hmap
     \<Rightarrow> conversation_message list \<times> sourced_result list \<times> (string, nat list) hmap" where
  "collect_results i [] results indexes = ([], results, indexes)"
| "collect_results i (Assistant a # ms) results indexes =
     (let (ms', results', indexes') = collect_results (Suc i) ms results indexes
      in (Assistant a # ms', results', indexes'))"
| "collect_results i (User u # ms) results indexes =
     (let (taken, u') = take_tool_results u;
          (results1, indexes1) = fold (\<lambda>r (rs, ix).
             (let key = trim (tr_tool_use_id r);
                  queue = (case hm_get ix key of None \<Rightarrow> [] | Some q \<Rightarrow> q)
              in (rs @ [\<lparr>source_index = i, result = Some r\<rparr>],
                  hm_insert key (queue @ [length rs]) ix))) taken (results, indexes);
          (ms', results', indexes') = collect_results (Suc i) ms results1 indexes1
      in (User u' # ms', results', indexes'))"

fun all_tool_uses :: "conversation_message list \<Rightarrow> kiro_tool_use list" where
  "all_tool_uses [] = []"
| "all_tool_uses (User _ # ms) = all_tool_uses ms"
| "all_tool_uses (Assistant a # ms) = am_tool_uses a @ all_tool_uses ms"

definition tool_use_id_counts :: "conversation_message list \<Rightarrow> string \<Rightarrow> nat" where
  "tool_use_id_counts ms key =
     count_list (filter (\<lambda>x. x \<noteq> []) (map (\<lambda>u. trim (tu_tool_use_id u)) (all_tool_uses ms))) key"

text \<open>Second pass: the variables of the loop over one assistant's calls.\<close>

record repair_state =
  rs_results :: "sourced_result list"
  rs_indexes :: "(string, nat list) hmap"
  rs_scheduled :: "(nat, kiro_tool_result list) hmap"
  rs_stats :: kiro_tool_history_stats

definition match_result ::
  "nat \<Rightarrow> string \<Rightarrow> repair_state \<Rightarrow> nat option \<times> repair_state" where
  "match_result assistant_index key rs = (case hm_get (rs_indexes rs) key of
       None \<Rightarrow> (None, rs)
     | Some queue \<Rightarrow>
         (case dropWhile (\<lambda>j. source_index (rs_results rs ! j) \<le> assistant_index) queue of
            [] \<Rightarrow> (None, rs\<lparr>rs_indexes := hm_insert key [] (rs_indexes rs)\<rparr>)
          | j # rest \<Rightarrow> (Some j, rs\<lparr>rs_indexes := hm_insert key rest (rs_indexes rs)\<rparr>)))"

definition upd_stats ::
  "(kiro_tool_history_stats \<Rightarrow> kiro_tool_history_stats) \<Rightarrow> repair_state \<Rightarrow> repair_state" where
  "upd_stats f rs = rs\<lparr>rs_stats := f (rs_stats rs)\<rparr>"

definition bump_flattened_uses :: "kiro_tool_history_stats \<Rightarrow> kiro_tool_history_stats" where
  "bump_flattened_uses st = st\<lparr>flattened_tool_uses := sat_add (flattened_tool_uses st) 1\<rparr>"

definition bump_invalid :: "kiro_tool_history_stats \<Rightarrow> kiro_tool_history_stats" where
  "bump_invalid st = st\<lparr>removed_invalid_tool_uses := sat_add (removed_invalid_tool_uses st) 1\<rparr>"

definition bump_normalized_uses :: "kiro_tool_history_stats \<Rightarrow> kiro_tool_history_stats" where
  "bump_normalized_uses st = st\<lparr>normalized_tool_uses := sat_add (normalized_tool_uses st) 1\<rparr>"

definition bump_relocated :: "kiro_tool_history_stats \<Rightarrow> kiro_tool_history_stats" where
  "bump_relocated st = st\<lparr>relocated_tool_results := sat_add (relocated_tool_results st) 1\<rparr>"

definition bump_normalized_results :: "kiro_tool_history_stats \<Rightarrow> kiro_tool_history_stats" where
  "bump_normalized_results st =
     st\<lparr>normalized_tool_results := sat_add (normalized_tool_results st) 1\<rparr>"

definition bump_synthesized :: "kiro_tool_history_stats \<Rightarrow> kiro_tool_history_stats" where
  "bump_synthesized st =
     st\<lparr>synthesized_tool_results := sat_add (synthesized_tool_results st) 1\<rparr>"

definition bump_flattened_results :: "kiro_tool_history_stats \<Rightarrow> kiro_tool_history_stats" where
  "bump_flattened_results st =
     st\<lparr>flattened_tool_results := sat_add (flattened_tool_results st) 1\<rparr>"

definition bump_inserted :: "kiro_tool_history_stats \<Rightarrow> kiro_tool_history_stats" where
  "bump_inserted st = st\<lparr>inserted_messages := sat_add (inserted_messages st) 1\<rparr>"

definition take_matched ::
  "nat option \<Rightarrow> repair_state \<Rightarrow> (nat \<times> kiro_tool_result) option \<times> repair_state" where
  "take_matched matching rs = (case matching of
       None \<Rightarrow> (None, rs)
     | Some j \<Rightarrow>
         (let candidate = rs_results rs ! j in
          (map_option (\<lambda>r. (source_index candidate, r)) (result candidate),
           rs\<lparr>rs_results := (rs_results rs)[j := candidate\<lparr>result := None\<rparr>]\<rparr>)))"

text \<open>The result scheduled for a kept call: the matching one, normalised, or a synthetic one.\<close>

definition result_for_use ::
  "nat \<Rightarrow> string \<Rightarrow> repair_state \<Rightarrow> kiro_tool_result \<times> repair_state" where
  "result_for_use assistant_index use_id rs =
     (let (matching, rs1) = match_result assistant_index use_id rs;
          (taken, rs2) = take_matched matching rs1
      in case taken of
           None \<Rightarrow> (missing_result use_id, upd_stats bump_synthesized rs2)
         | Some (source, r) \<Rightarrow>
             (let rs3 = (if source \<noteq> sat_add assistant_index 1
                         then upd_stats bump_relocated rs2 else rs2);
                  (r1, normalized1) = normalize_result r;
                  normalized = (normalized1 \<or> tr_tool_use_id r1 \<noteq> use_id);
                  r2 = r1\<lparr>tr_tool_use_id := use_id\<rparr>
              in (r2, if normalized then upd_stats bump_normalized_results rs3 else rs3)))"

definition malformed_use :: "(string \<Rightarrow> nat) \<Rightarrow> kiro_tool_use \<Rightarrow> bool" where
  "malformed_use counts u \<longleftrightarrow>
     (let trimmed_name = trim (tu_name u); trimmed_id = trim (tu_tool_use_id u);
          duplicate_id = (trimmed_id \<noteq> [] \<and> 1 < counts trimmed_id)
      in trimmed_name = [] \<or> trimmed_id = [] \<or> duplicate_id \<or> \<not> is_object (tu_input u))"

definition undefined_use :: "string set \<Rightarrow> kiro_tool_use \<Rightarrow> bool" where
  "undefined_use active u \<longleftrightarrow> trim (tu_name u) \<noteq> [] \<and> trim (tu_name u) \<notin> active"

definition trim_use :: "kiro_tool_use \<Rightarrow> kiro_tool_use" where
  "trim_use u = u\<lparr>tu_name := trim (tu_name u), tu_tool_use_id := trim (tu_tool_use_id u)\<rparr>"

fun repair_uses ::
  "(json \<Rightarrow> string) \<Rightarrow> string set \<Rightarrow> (string \<Rightarrow> nat) \<Rightarrow> nat \<Rightarrow> kiro_tool_use list
     \<Rightarrow> string \<Rightarrow> repair_state \<Rightarrow> string \<times> kiro_tool_use list \<times> repair_state" where
  "repair_uses to_json active counts i [] content rs = (content, [], rs)"
| "repair_uses to_json active counts i (u # us) content rs =
     (if malformed_use counts u \<or> undefined_use active u
      then (let content' = append_text content (render_tool_use to_json u);
                rs1 = upd_stats bump_flattened_uses rs;
                rs2 = (if malformed_use counts u then upd_stats bump_invalid rs1 else rs1)
            in repair_uses to_json active counts i us content' rs2)
      else (let u' = trim_use u;
                rs1 = (if tu_name u' \<noteq> tu_name u \<or> tu_tool_use_id u' \<noteq> tu_tool_use_id u
                       then upd_stats bump_normalized_uses rs else rs);
                (r, rs2) = result_for_use i (tu_tool_use_id u') rs1;
                queue = (case hm_get (rs_scheduled rs2) i of None \<Rightarrow> [] | Some q \<Rightarrow> q);
                rs3 = rs2\<lparr>rs_scheduled := hm_insert i (queue @ [r]) (rs_scheduled rs2)\<rparr>;
                (content', us', rs4) = repair_uses to_json active counts i us content rs3
            in (content', u' # us', rs4)))"

fun repair_assistants ::
  "(json \<Rightarrow> string) \<Rightarrow> string set \<Rightarrow> (string \<Rightarrow> nat) \<Rightarrow> nat \<Rightarrow> conversation_message list
     \<Rightarrow> repair_state \<Rightarrow> conversation_message list \<times> repair_state" where
  "repair_assistants to_json active counts i [] rs = ([], rs)"
| "repair_assistants to_json active counts i (User u # ms) rs =
     (let (ms', rs') = repair_assistants to_json active counts (Suc i) ms rs
      in (User u # ms', rs'))"
| "repair_assistants to_json active counts i (Assistant a # ms) rs =
     (let (content, uses, rs1) =
            repair_uses to_json active counts i (am_tool_uses a) (am_content a) rs;
          (ms', rs') = repair_assistants to_json active counts (Suc i) ms rs1
      in (Assistant (a\<lparr>am_content := content, am_tool_uses := uses\<rparr>) # ms', rs'))"

text \<open>Results no call claimed are archived in the text of the message they came from.\<close>

fun archive_results ::
  "(json \<Rightarrow> string) \<Rightarrow> sourced_result list \<Rightarrow> conversation_message list
     \<Rightarrow> kiro_tool_history_stats \<Rightarrow> conversation_message list \<times> kiro_tool_history_stats" where
  "archive_results to_json [] ms st = (ms, st)"
| "archive_results to_json (c # cs) ms st = (case result c of
       None \<Rightarrow> archive_results to_json cs ms st
     | Some r \<Rightarrow>
         (if source_index c < length ms
          then (case ms ! source_index c of
                  User u \<Rightarrow> archive_results to_json cs
                    (ms[source_index c := User (u\<lparr>um_content :=
                       append_text (um_content u) (render_tool_result to_json r)\<rparr>)])
                    (bump_flattened_results st)
                | Assistant _ \<Rightarrow> archive_results to_json cs ms st)
          else archive_results to_json cs ms st))"

definition repair_tool_pairs ::
  "(json \<Rightarrow> string) \<Rightarrow> conversation_message list \<Rightarrow> string set \<Rightarrow> kiro_tool_history_stats
     \<Rightarrow> conversation_message list \<times> (nat, kiro_tool_result list) hmap \<times> kiro_tool_history_stats"
where
  "repair_tool_pairs to_json messages active st =
     (let (ms1, results, indexes) = collect_results 0 messages [] [];
          counts = tool_use_id_counts ms1;
          (ms2, rs) = repair_assistants to_json active counts 0 ms1
            \<lparr>rs_results = results, rs_indexes = indexes, rs_scheduled = [], rs_stats = st\<rparr>;
          (ms3, st') = archive_results to_json (rs_results rs) ms2 (rs_stats rs)
      in (ms3, rs_scheduled rs, st'))"

section \<open>Alternating roles\<close>

fun is_user :: "conversation_message \<Rightarrow> bool" where
  "is_user (User _) = True"
| "is_user (Assistant _) = False"

fun user_of :: "conversation_message \<Rightarrow> kiro_user_input_message option" where
  "user_of (User u) = Some u"
| "user_of (Assistant _) = None"

definition role_template :: "conversation_message list \<Rightarrow> kiro_user_input_message" where
  "role_template ms = unwrap_or (find_map user_of (rev ms))
     \<lparr>um_content = ''Continue.'', um_model_id = [], um_origin = [], um_images = [],
      um_documents = [], um_cache_point = None, um_client_cache_config = None,
      um_context = None\<rparr>"

fun normalize_loop ::
  "kiro_user_input_message \<Rightarrow> nat \<Rightarrow> conversation_message list
     \<Rightarrow> (nat, kiro_tool_result list) hmap \<Rightarrow> conversation_message list \<Rightarrow> kiro_tool_result list
     \<Rightarrow> kiro_tool_history_stats
     \<Rightarrow> conversation_message list \<times> kiro_tool_result list \<times> kiro_tool_history_stats" where
  "normalize_loop template i [] scheduled out pending st = (out, pending, st)"
| "normalize_loop template i (User user # ms) scheduled out pending st =
     (let (out1, st1) = (if out \<noteq> [] \<and> is_user (last out)
            then (out @ [Assistant synthetic_assistant], bump_inserted st) else (out, st));
          user1 = (if pending \<noteq> [] then add_tool_results user pending else user)
      in normalize_loop template (Suc i) ms scheduled (out1 @ [User user1]) [] st1)"
| "normalize_loop template i (Assistant a # ms) scheduled out pending st =
     (let (out1, st1) = (if out = [] \<or> \<not> is_user (last out)
            then (out @ [User (synthetic_user template
                    (if out = [] then ''Begin conversation.''
                     else ''Continue after the previous tool call.'') pending)],
                  bump_inserted st)
            else (out, st));
          pending1 = (case hm_get scheduled i of None \<Rightarrow> [] | Some q \<Rightarrow> q)
      in normalize_loop template (Suc i) ms (hm_remove i scheduled)
           (out1 @ [Assistant a]) pending1 st1)"

definition normalize_roles ::
  "conversation_message list \<Rightarrow> (nat, kiro_tool_result list) hmap \<Rightarrow> kiro_tool_history_stats
     \<Rightarrow> conversation_message list \<times> kiro_tool_history_stats" where
  "normalize_roles messages scheduled st =
     (let template = role_template messages;
          (out, pending, st1) = normalize_loop template 0 messages scheduled [] [] st
      in if out = [] \<or> \<not> is_user (last out)
         then (out @ [User (synthetic_user template ''Continue.'' pending)], bump_inserted st1)
         else (out, st1))"

section \<open>The whole repair\<close>

definition strip_history_user ::
  "kiro_user_input_message \<Rightarrow> kiro_tool_history_stats
     \<Rightarrow> kiro_user_input_message \<times> kiro_tool_history_stats" where
  "strip_history_user user st = (case um_context user of
       None \<Rightarrow> (user, st)
     | Some context \<Rightarrow>
         (let st' = st\<lparr>removed_historical_tool_definitions :=
                sat_add (removed_historical_tool_definitions st) (length (mc_tools context))\<rparr>;
              context' = context\<lparr>mc_tools := [], mc_env_state := None\<rparr>
          in (user\<lparr>um_context :=
                (if mc_tool_results context' = [] then None else Some context')\<rparr>, st')))"

fun flatten_history ::
  "kiro_history_message list \<Rightarrow> kiro_tool_history_stats
     \<Rightarrow> conversation_message list \<times> kiro_tool_history_stats" where
  "flatten_history [] st = ([], st)"
| "flatten_history (item # items) st =
     (let (users, st1) = (case hx_user_input_message item of
            None \<Rightarrow> ([], st)
          | Some user \<Rightarrow> (let (user', st') = strip_history_user user st in ([User user'], st')));
          assistants = (case hx_assistant_response_message item of
            None \<Rightarrow> [] | Some a \<Rightarrow> [Assistant a]);
          (rest, st2) = flatten_history items st1
      in (users @ assistants @ rest, st2))"

fun to_history :: "conversation_message \<Rightarrow> kiro_history_message" where
  "to_history (User u) =
     \<lparr>hx_user_input_message = Some u, hx_assistant_response_message = None\<rparr>"
| "to_history (Assistant a) =
     \<lparr>hx_user_input_message = None, hx_assistant_response_message = Some a\<rparr>"

definition sanitize_kiro_tool_history ::
  "(json \<Rightarrow> string) \<Rightarrow> kiro_payload \<Rightarrow> kiro_payload \<times> kiro_tool_history_stats" where
  "sanitize_kiro_tool_history to_json payload =
     (let state = kp_conversation_state payload;
          current0 = cs_current_message state;
          (context, active, st1) =
            sanitize_current_tool_definitions (um_context current0) stats_default;
          current = current0\<lparr>um_context := context\<rparr>;
          (hist, st2) = flatten_history (cs_history state) st1;
          messages = hist @ [User current];
          (ms1, scheduled, st3) = repair_tool_pairs to_json messages active st2;
          (ms2, st4) = normalize_roles ms1 scheduled st3;
          (front, current', st5) =
            (case rev ms2 of
               User u # back \<Rightarrow> (rev back, u, st4)
             | Assistant a # back \<Rightarrow>
                 (rev back, synthetic_user current ''Continue.'' [], bump_inserted st4)
             | [] \<Rightarrow> ([], synthetic_user current ''Continue.'' [], bump_inserted st4))
      in (payload\<lparr>kp_conversation_state :=
            state\<lparr>cs_current_message := current', cs_history := map to_history front\<rparr>\<rparr>, st5))"

section \<open>The contract checker\<close>

datatype history_error =
    EmptyToolName
  | DuplicateToolNames
  | RepeatsUser nat
  | HistoryToolDefinitions nat
  | RepeatsAssistant nat
  | NotOneRole nat
  | InconsistentState
  | CurrentRepeatsUser
  | UnnamedToolCall
  | NonObjectInput string
  | UndefinedTool string string
  | DuplicateToolUseId string
  | ResultCountMismatch nat nat
  | ResultWithoutId
  | InvalidStatus string string
  | EmptyResult string
  | OrphanResult string
  | DuplicateResult string

fun validate_uses ::
  "kiro_tool_use list \<Rightarrow> string set \<Rightarrow> string set \<Rightarrow> string list
     \<Rightarrow> history_error + string list \<times> string set" where
  "validate_uses [] active all_ids ids = Inr (ids, all_ids)"
| "validate_uses (u # us) active all_ids ids =
     (if trim (tu_tool_use_id u) = [] \<or> trim (tu_name u) = [] then Inl UnnamedToolCall
      else if \<not> is_object (tu_input u) then Inl (NonObjectInput (tu_tool_use_id u))
      else if tu_name u \<notin> active then Inl (UndefinedTool (tu_tool_use_id u) (tu_name u))
      else if tu_tool_use_id u \<in> all_ids then Inl (DuplicateToolUseId (tu_tool_use_id u))
      else validate_uses us active (insert (tu_tool_use_id u) all_ids)
             (ids @ [tu_tool_use_id u]))"

definition validate_assistant_uses ::
  "kiro_assistant_message \<Rightarrow> string set \<Rightarrow> string set
     \<Rightarrow> history_error + string list \<times> string set" where
  "validate_assistant_uses a active all_ids = validate_uses (am_tool_uses a) active all_ids []"

fun validate_results ::
  "kiro_tool_result list \<Rightarrow> string set \<Rightarrow> string set \<Rightarrow> history_error + string set" where
  "validate_results [] expected all_ids = Inr all_ids"
| "validate_results (r # rs) expected all_ids =
     (if trim (tr_tool_use_id r) = [] then Inl ResultWithoutId
      else if tr_status r \<noteq> ''success'' \<and> tr_status r \<noteq> ''error''
        then Inl (InvalidStatus (tr_tool_use_id r) (tr_status r))
      else if tr_content r = [] then Inl (EmptyResult (tr_tool_use_id r))
      else if tr_tool_use_id r \<notin> expected then Inl (OrphanResult (tr_tool_use_id r))
      else if tr_tool_use_id r \<in> all_ids then Inl (DuplicateResult (tr_tool_use_id r))
      else validate_results rs expected (insert (tr_tool_use_id r) all_ids))"

definition user_results :: "kiro_user_input_message \<Rightarrow> kiro_tool_result list" where
  "user_results u = (case um_context u of None \<Rightarrow> [] | Some c \<Rightarrow> mc_tool_results c)"

definition user_tools :: "kiro_user_input_message \<Rightarrow> kiro_tool list" where
  "user_tools u = (case um_context u of None \<Rightarrow> [] | Some c \<Rightarrow> mc_tools c)"

definition validate_user_results ::
  "kiro_user_input_message \<Rightarrow> string list \<Rightarrow> string set \<Rightarrow> history_error + string set" where
  "validate_user_results u expected all_ids =
     (if length (user_results u) \<noteq> length expected
      then Inl (ResultCountMismatch (length (user_results u)) (length expected))
      else validate_results (user_results u) (set expected) all_ids)"

text \<open>The mutable variables of the checker's loop over the history.\<close>

record check_state =
  ck_previous_was_user :: bool
  ck_previous_uses :: "string list"
  ck_use_ids :: "string set"
  ck_result_ids :: "string set"

definition check_init :: check_state where
  "check_init = \<lparr>ck_previous_was_user = False, ck_previous_uses = [], ck_use_ids = {},
     ck_result_ids = {}\<rparr>"

definition check_item ::
  "string set \<Rightarrow> nat \<Rightarrow> kiro_history_message \<Rightarrow> check_state \<Rightarrow> history_error + check_state" where
  "check_item active index item ck =
     (case (hx_user_input_message item, hx_assistant_response_message item) of
        (Some user, None) \<Rightarrow>
          (if ck_previous_was_user ck then Inl (RepeatsUser index)
           else if user_tools user \<noteq> [] then Inl (HistoryToolDefinitions index)
           else (case validate_user_results user (ck_previous_uses ck) (ck_result_ids ck) of
                   Inl e \<Rightarrow> Inl e
                 | Inr ids \<Rightarrow> Inr (ck\<lparr>ck_result_ids := ids, ck_previous_uses := [],
                     ck_previous_was_user := True\<rparr>)))
      | (None, Some a) \<Rightarrow>
          (if index = 0 \<or> \<not> ck_previous_was_user ck then Inl (RepeatsAssistant index)
           else (case validate_assistant_uses a active (ck_use_ids ck) of
                   Inl e \<Rightarrow> Inl e
                 | Inr (ids, all_ids) \<Rightarrow> Inr (ck\<lparr>ck_previous_uses := ids, ck_use_ids := all_ids,
                     ck_previous_was_user := False\<rparr>)))
      | _ \<Rightarrow> Inl (NotOneRole index))"

fun check_history ::
  "string set \<Rightarrow> nat \<Rightarrow> kiro_history_message list \<Rightarrow> check_state
     \<Rightarrow> history_error + check_state" where
  "check_history active index [] ck = Inr ck"
| "check_history active index (item # items) ck =
     (case check_item active index item ck of
        Inl e \<Rightarrow> Inl e
      | Inr ck' \<Rightarrow> check_history active (Suc index) items ck')"

definition current_tool_names :: "kiro_user_input_message \<Rightarrow> string list" where
  "current_tool_names u = map ts_name (List.map_filter tool_specification (user_tools u))"

definition validate_kiro_tool_history :: "kiro_payload \<Rightarrow> history_error + unit" where
  "validate_kiro_tool_history payload =
     (let state = kp_conversation_state payload;
          current = cs_current_message state;
          names = current_tool_names current;
          active = set names
      in if \<exists>name \<in> active. trim name = [] then Inl EmptyToolName
         else if length names \<noteq> card active then Inl DuplicateToolNames
         else (case check_history active 0 (cs_history state) check_init of
                 Inl e \<Rightarrow> Inl e
               | Inr ck \<Rightarrow>
                   (let uses = (if \<not> ck_previous_was_user ck \<and> cs_history state = []
                                then [] else ck_previous_uses ck)
                    in if ck_previous_was_user ck \<and> uses \<noteq> [] then Inl InconsistentState
                       else if cs_history state \<noteq> [] \<and> ck_previous_was_user ck
                         then Inl CurrentRepeatsUser
                       else (case validate_user_results current uses (ck_result_ids ck) of
                               Inl e \<Rightarrow> Inl e
                             | Inr _ \<Rightarrow> Inr ()))))"

end
