(* ===== verification/ToolHistoryCorrect.thy ===== *)
theory ToolHistoryCorrect
  imports ToolHistory "HOL-Library.Multiset"
begin

text \<open>
  The repaired history satisfies the checker. The invariants follow the passes: after
  \<open>collect_results\<close> no user message holds a result; \<open>repair_assistants\<close> keeps
  exactly the well-formed, defined, unambiguous calls and schedules one good result for each;
  \<open>normalize_loop\<close> builds an output that the checker accepts at every moment.
\<close>

section \<open>What the passes keep\<close>

fun tools_of :: "conversation_message \<Rightarrow> kiro_tool list option" where
  "tools_of (User u) = Some (user_tools u)"
| "tools_of (Assistant _) = None"

fun uses_of :: "conversation_message \<Rightarrow> kiro_tool_use list" where
  "uses_of (Assistant a) = am_tool_uses a"
| "uses_of (User _) = []"

fun results_of :: "conversation_message \<Rightarrow> kiro_tool_result list" where
  "results_of (User u) = user_results u"
| "results_of (Assistant _) = []"

definition use_ids :: "conversation_message \<Rightarrow> string list" where
  "use_ids m = map tu_tool_use_id (uses_of m)"

lemma all_tool_uses_conv: "all_tool_uses ms = concat (map uses_of ms)"
  by (induction ms rule: all_tool_uses.induct) auto

lemma take_tool_results_props:
  assumes "take_tool_results u = (rs, u')"
  shows "user_results u' = []" and "user_tools u' = user_tools u" and "rs = user_results u"
  using assms
  by (auto simp: take_tool_results_def user_results_def user_tools_def Let_def
      split: option.splits if_splits)

lemma collect_results_keeps:
  "collect_results i ms rs ix = (ms', rs', ix') \<Longrightarrow>
     map tools_of ms' = map tools_of ms \<and> map uses_of ms' = map uses_of ms
     \<and> list_all (\<lambda>m. results_of m = []) ms'"
proof (induction i ms rs ix arbitrary: ms' rs' ix' rule: collect_results.induct)
  case (3 i u ms rs ix)
  obtain taken u' where tk: "take_tool_results u = (taken, u')" by (cases "take_tool_results u")
  show ?case
    using 3 tk take_tool_results_props [OF tk]
    by (auto simp: Let_def split: prod.splits)
qed (auto simp: Let_def split: prod.splits)

section \<open>Good calls and good results\<close>

definition good_use :: "string set \<Rightarrow> kiro_tool_use \<Rightarrow> bool" where
  "good_use active u \<longleftrightarrow>
     trim (tu_tool_use_id u) \<noteq> [] \<and> trim (tu_name u) \<noteq> [] \<and> is_object (tu_input u)
     \<and> tu_name u \<in> active"

definition good_result :: "kiro_tool_result \<Rightarrow> bool" where
  "good_result r \<longleftrightarrow>
     trim (tr_tool_use_id r) \<noteq> [] \<and> (tr_status r = ''success'' \<or> tr_status r = ''error'')
     \<and> tr_content r \<noteq> []"

definition kept_use :: "string set \<Rightarrow> (string \<Rightarrow> nat) \<Rightarrow> kiro_tool_use \<Rightarrow> bool" where
  "kept_use active counts u \<longleftrightarrow> \<not> malformed_use counts u \<and> \<not> undefined_use active u"

lemma kept_use_good: "kept_use active counts u \<Longrightarrow> good_use active (trim_use u)"
  by (auto simp: kept_use_def malformed_use_def undefined_use_def good_use_def trim_use_def Let_def)

lemma missing_result_good [simp]: "trim i \<noteq> [] \<Longrightarrow> good_result (missing_result i)"
  by (simp add: good_result_def missing_result_def)

lemma normalize_result_good:
  assumes "normalize_result r = (r', b)"
  shows "tr_content r' \<noteq> []" and "tr_status r' = ''success'' \<or> tr_status r' = ''error''"
  using assms by (auto simp: normalize_result_def Let_def split: if_splits)

definition sched :: "repair_state \<Rightarrow> nat \<Rightarrow> kiro_tool_result list" where
  "sched rs i = (case hm_get (rs_scheduled rs) i of None \<Rightarrow> [] | Some q \<Rightarrow> q)"

lemma upd_stats_simps [simp]:
  "rs_scheduled (upd_stats f rs) = rs_scheduled rs"
  "rs_results (upd_stats f rs) = rs_results rs"
  "rs_indexes (upd_stats f rs) = rs_indexes rs"
  "sched (upd_stats f rs) = sched rs"
  by (simp_all add: upd_stats_def sched_def fun_eq_iff)

lemma match_result_scheduled:
  "match_result i k rs = (j, rs') \<Longrightarrow> rs_scheduled rs' = rs_scheduled rs"
  by (auto simp: match_result_def split: option.splits list.splits)

lemma take_matched_scheduled:
  "take_matched j rs = (t, rs') \<Longrightarrow> rs_scheduled rs' = rs_scheduled rs"
  by (auto simp: take_matched_def Let_def split: option.splits)

lemma result_for_use_props:
  assumes "result_for_use i k rs = (r, rs')" and "trim k \<noteq> []"
  shows "good_result r" and "tr_tool_use_id r = k" and "rs_scheduled rs' = rs_scheduled rs"
proof -
  obtain j rs1 where m: "match_result i k rs = (j, rs1)" by (cases "match_result i k rs")
  obtain t rs2 where t: "take_matched j rs1 = (t, rs2)" by (cases "take_matched j rs1")
  have sch: "rs_scheduled rs2 = rs_scheduled rs"
    using match_result_scheduled [OF m] take_matched_scheduled [OF t] by simp
  have all: "good_result r \<and> tr_tool_use_id r = k \<and> rs_scheduled rs' = rs_scheduled rs"
  proof (cases t)
    case None
    with assms m t sch show ?thesis
      by (auto simp: result_for_use_def missing_result_def good_result_def)
  next
    case (Some sr)
    obtain s r0 where sr: "sr = (s, r0)" by (cases sr)
    obtain r1 b where n: "normalize_result r0 = (r1, b)" by (cases "normalize_result r0")
    from assms m t Some sr n sch normalize_result_good [OF n] show ?thesis
      by (auto simp: result_for_use_def Let_def good_result_def split: if_splits)
  qed
  then show "good_result r" and "tr_tool_use_id r = k" and "rs_scheduled rs' = rs_scheduled rs"
    by simp_all
qed

definition uses_post ::
  "string set \<Rightarrow> (string \<Rightarrow> nat) \<Rightarrow> nat \<Rightarrow> kiro_tool_use list \<Rightarrow> repair_state
     \<Rightarrow> kiro_tool_use list \<Rightarrow> repair_state \<Rightarrow> bool" where
  "uses_post active counts i us rs us' rs' \<longleftrightarrow>
     us' = map trim_use (filter (kept_use active counts) us)
     \<and> (\<forall>j. j \<noteq> i \<longrightarrow> sched rs' j = sched rs j)
     \<and> (\<exists>new. sched rs' i = sched rs i @ new
          \<and> map tr_tool_use_id new = map tu_tool_use_id us' \<and> list_all good_result new)"

lemma uses_post_skip:
  "\<not> kept_use active counts u \<Longrightarrow> sched rs1 = sched rs \<Longrightarrow>
     uses_post active counts i us rs1 us' rs' \<Longrightarrow> uses_post active counts i (u # us) rs us' rs'"
  by (auto simp: uses_post_def)

lemma uses_post_keep:
  assumes "kept_use active counts u" and "sched rs3 i = sched rs i @ [r]"
    and "\<And>j. j \<noteq> i \<Longrightarrow> sched rs3 j = sched rs j"
    and "good_result r" and "tr_tool_use_id r = tu_tool_use_id (trim_use u)"
    and "uses_post active counts i us rs3 us' rs'"
  shows "uses_post active counts i (u # us) rs (trim_use u # us') rs'"
proof -
  from assms(6) obtain new where
    "sched rs' i = sched rs3 i @ new" "map tr_tool_use_id new = map tu_tool_use_id us'"
    "list_all good_result new"
    unfolding uses_post_def by blast
  then have "sched rs' i = sched rs i @ (r # new)"
    "map tr_tool_use_id (r # new) = map tu_tool_use_id (trim_use u # us')"
    "list_all good_result (r # new)"
    using assms(2,4,5) by simp_all
  moreover have "\<forall>j. j \<noteq> i \<longrightarrow> sched rs' j = sched rs j"
    and "trim_use u # us' = map trim_use (filter (kept_use active counts) (u # us))"
    using assms(1,3,6) by (simp_all add: uses_post_def)
  ultimately show ?thesis unfolding uses_post_def by blast
qed

lemma repair_uses_post:
  "repair_uses tj active counts i us c rs = (c', us', rs') \<Longrightarrow>
     uses_post active counts i us rs us' rs'"
proof (induction us arbitrary: c rs c' us' rs')
  case Nil
  then show ?case by (auto simp: uses_post_def)
next
  case (Cons u us)
  show ?case
  proof (cases "kept_use active counts u")
    case False
    then have flat: "malformed_use counts u \<or> undefined_use active u"
      by (auto simp: kept_use_def)
    define rs1 where "rs1 = (if malformed_use counts u
        then upd_stats bump_invalid (upd_stats bump_flattened_uses rs)
        else upd_stats bump_flattened_uses rs)"
    have "sched rs1 = sched rs" by (simp add: rs1_def)
    moreover have
      "repair_uses tj active counts i us (append_text c (render_tool_use tj u)) rs1 = (c', us', rs')"
      using Cons.prems flat by (simp add: Let_def rs1_def)
    ultimately show ?thesis using False Cons.IH uses_post_skip by blast
  next
    case True
    then have kept: "\<not> (malformed_use counts u \<or> undefined_use active u)"
      by (auto simp: kept_use_def)
    let ?k = "tu_tool_use_id (trim_use u)"
    let ?rs1 = "if tu_name (trim_use u) \<noteq> tu_name u \<or> ?k \<noteq> tu_tool_use_id u
                then upd_stats bump_normalized_uses rs else rs"
    obtain r rs2 where r: "result_for_use i ?k ?rs1 = (r, rs2)"
      by (cases "result_for_use i ?k ?rs1")
    define rs3 where "rs3 = rs2\<lparr>rs_scheduled := hm_insert i (sched rs2 i @ [r]) (rs_scheduled rs2)\<rparr>"
    obtain us1 where rec: "repair_uses tj active counts i us c rs3 = (c', us1, rs')"
      and us': "us' = trim_use u # us1"
      using Cons.prems kept r unfolding rs3_def sched_def
      by (auto simp: Let_def split: prod.splits)
    have nonempty: "trim ?k \<noteq> []"
      using kept_use_good [OF True] by (simp add: good_use_def)
    note res = result_for_use_props [OF r nonempty]
    have s2: "sched rs2 = sched rs" using res(3) by (simp add: sched_def fun_eq_iff)
    have s3: "sched rs3 i = sched rs i @ [r]" "\<And>j. j \<noteq> i \<Longrightarrow> sched rs3 j = sched rs j"
      using s2 by (simp_all add: rs3_def sched_def update_conv' fun_eq_iff)
    show ?thesis
      unfolding us' by (rule uses_post_keep [OF True s3 res(1,2) Cons.IH [OF rec]])
  qed
qed

text \<open>What the second pass leaves for the message at each index.\<close>

definition scheduled_ok :: "nat \<Rightarrow> conversation_message list \<Rightarrow> (nat \<Rightarrow> kiro_tool_result list) \<Rightarrow> bool"
where
  "scheduled_ok i ms sch \<longleftrightarrow>
     (\<forall>k < length ms. map tr_tool_use_id (sch (i + k)) = use_ids (ms ! k)
        \<and> list_all good_result (sch (i + k)))"

lemma scheduled_ok_Nil [simp]: "scheduled_ok i [] sch"
  by (simp add: scheduled_ok_def)

lemma scheduled_ok_Cons:
  "scheduled_ok i (m # ms) sch \<longleftrightarrow>
     map tr_tool_use_id (sch i) = use_ids m \<and> list_all good_result (sch i)
     \<and> scheduled_ok (Suc i) ms sch"
  unfolding scheduled_ok_def
  by (auto simp: nth_Cons less_Suc_eq_0_disj split: nat.splits)

definition pass_post ::
  "string set \<Rightarrow> (string \<Rightarrow> nat) \<Rightarrow> nat \<Rightarrow> conversation_message list \<Rightarrow> repair_state
     \<Rightarrow> conversation_message list \<Rightarrow> repair_state \<Rightarrow> bool" where
  "pass_post active counts i ms rs ms' rs' \<longleftrightarrow>
     map tools_of ms' = map tools_of ms \<and> map results_of ms' = map results_of ms
     \<and> map uses_of ms' = map (\<lambda>m. map trim_use (filter (kept_use active counts) (uses_of m))) ms
     \<and> (\<forall>j < i. sched rs' j = sched rs j) \<and> scheduled_ok i ms' (sched rs')"

lemma repair_assistants_post:
  "repair_assistants tj active counts i ms rs = (ms', rs') \<Longrightarrow> \<forall>j \<ge> i. sched rs j = [] \<Longrightarrow>
     pass_post active counts i ms rs ms' rs'"
proof (induction ms arbitrary: i rs ms' rs')
  case Nil
  then show ?case by (simp add: pass_post_def)
next
  case (Cons m ms)
  show ?case
  proof (cases m)
    case (User u)
    then obtain ms1 where rec: "repair_assistants tj active counts (Suc i) ms rs = (ms1, rs')"
      and ms': "ms' = User u # ms1"
      using Cons.prems(1) by (auto split: prod.splits)
    have "pass_post active counts (Suc i) ms rs ms1 rs'"
      using Cons.IH [OF rec] Cons.prems(2) by simp
    moreover from this have "sched rs' i = []"
      using Cons.prems(2) by (simp add: pass_post_def)
    ultimately show ?thesis
      using User ms' by (simp add: pass_post_def scheduled_ok_Cons use_ids_def)
  next
    case (Assistant a)
    obtain c us rs0 where ru: "repair_uses tj active counts i (am_tool_uses a) (am_content a) rs
        = (c, us, rs0)"
      by (cases "repair_uses tj active counts i (am_tool_uses a) (am_content a) rs")
    obtain ms1 where rec: "repair_assistants tj active counts (Suc i) ms rs0 = (ms1, rs')"
      and ms': "ms' = Assistant (a\<lparr>am_content := c, am_tool_uses := us\<rparr>) # ms1"
      using Cons.prems(1) Assistant ru by (auto split: prod.splits)
    have up: "uses_post active counts i (am_tool_uses a) rs us rs0"
      by (rule repair_uses_post [OF ru])
    then have pp: "pass_post active counts (Suc i) ms rs0 ms1 rs'"
      using Cons.IH [OF rec] Cons.prems(2) by (simp add: uses_post_def)
    have "sched rs' i = sched rs0 i" using pp by (simp add: pass_post_def)
    moreover obtain new where "sched rs0 i = sched rs i @ new"
      "map tr_tool_use_id new = map tu_tool_use_id us" "list_all good_result new"
      using up unfolding uses_post_def by blast
    ultimately have si: "map tr_tool_use_id (sched rs' i) = map tu_tool_use_id us"
      "list_all good_result (sched rs' i)" using Cons.prems(2) by auto
    show ?thesis
      using pp up si Assistant ms'
      by (simp add: pass_post_def uses_post_def scheduled_ok_Cons use_ids_def)
  qed
qed

lemma archive_results_keeps:
  "archive_results tj cs ms st = (ms', st') \<Longrightarrow>
     map tools_of ms' = map tools_of ms \<and> map results_of ms' = map results_of ms
     \<and> map uses_of ms' = map uses_of ms"
proof (induction tj cs ms st arbitrary: ms' st' rule: archive_results.induct)
  case (2 tj c cs ms st)
  have upd: "map f (ms[k := User (u\<lparr>um_content := x\<rparr>)]) = map f ms"
    if "k < length ms" "ms ! k = User u" "\<And>y. f (User (u\<lparr>um_content := y\<rparr>)) = f (User u)"
    for f :: "conversation_message \<Rightarrow> 'b" and k u x
    using that by (metis list_update_id map_update nth_map)
  show ?case
    using 2 by (auto simp: upd user_tools_def user_results_def
        split: option.splits if_splits conversation_message.splits)
qed simp

section \<open>The checker on the output of the role loop\<close>

lemma check_history_append:
  "check_history active i (xs @ ys) ck = (case check_history active i xs ck of
     Inl e \<Rightarrow> Inl e | Inr ck' \<Rightarrow> check_history active (i + length xs) ys ck')"
  by (induction xs arbitrary: i ck) (auto split: sum.split)

lemma validate_results_ok:
  "list_all good_result rs \<Longrightarrow> set (map tr_tool_use_id rs) \<subseteq> expected \<Longrightarrow>
     distinct (map tr_tool_use_id rs) \<Longrightarrow> set (map tr_tool_use_id rs) \<inter> seen = {} \<Longrightarrow>
     validate_results rs expected seen = Inr (seen \<union> set (map tr_tool_use_id rs))"
  by (induction rs arbitrary: seen) (auto simp: good_result_def)

lemma validate_user_results_ok:
  assumes "list_all good_result (user_results u)"
    and "map tr_tool_use_id (user_results u) = expected"
    and "distinct expected" and "set expected \<inter> seen = {}"
  shows "validate_user_results u expected seen = Inr (seen \<union> set expected)"
  using assms validate_results_ok [of "user_results u" "set expected" seen]
  by (auto simp: validate_user_results_def)

lemma validate_uses_ok:
  "list_all (good_use active) us \<Longrightarrow> distinct (map tu_tool_use_id us) \<Longrightarrow>
     set (map tu_tool_use_id us) \<inter> seen = {} \<Longrightarrow>
     validate_uses us active seen ids =
       Inr (ids @ map tu_tool_use_id us, seen \<union> set (map tu_tool_use_id us))"
  by (induction us arbitrary: seen ids) (auto simp: good_use_def)

text \<open>
  The invariant of the output loop: the checker accepts the output so far, and its memory of
  the last assistant's calls is the list of results still to be delivered.
\<close>

definition loop_inv ::
  "string set \<Rightarrow> conversation_message list \<Rightarrow> kiro_tool_result list \<Rightarrow> check_state \<Rightarrow> bool" where
  "loop_inv active out pending ck \<longleftrightarrow>
     check_history active 0 (map to_history out) check_init = Inr ck
     \<and> ck_previous_was_user ck = (out \<noteq> [] \<and> is_user (last out))
     \<and> ck_previous_uses ck = map tr_tool_use_id pending
     \<and> list_all good_result pending \<and> distinct (map tr_tool_use_id pending)
     \<and> ck_result_ids ck \<inter> set (map tr_tool_use_id pending) = {}
     \<and> ck_result_ids ck \<union> set (map tr_tool_use_id pending) = ck_use_ids ck
     \<and> (out = [] \<or> is_user (last out) \<longrightarrow> pending = [])"

lemma loop_inv_init: "loop_inv active [] [] check_init"
  by (simp add: loop_inv_def check_init_def)

lemma push_user:
  assumes inv: "loop_inv active out pending ck" and last: "out = [] \<or> \<not> is_user (last out)"
    and u: "user_tools u = []" "user_results u = pending"
  obtains ck' where "loop_inv active (out @ [User u]) [] ck'" "ck_use_ids ck' = ck_use_ids ck"
proof -
  let ?ids = "map tr_tool_use_id pending"
  have v: "validate_user_results u ?ids (ck_result_ids ck) = Inr (ck_result_ids ck \<union> set ?ids)"
    using inv u by (intro validate_user_results_ok) (auto simp: loop_inv_def)
  let ?ck = "ck\<lparr>ck_result_ids := ck_result_ids ck \<union> set ?ids, ck_previous_uses := [],
     ck_previous_was_user := True\<rparr>"
  have "\<not> ck_previous_was_user ck" and "ck_previous_uses ck = ?ids"
    using inv last by (auto simp: loop_inv_def)
  then have "check_item active (length out) (to_history (User u)) ck = Inr ?ck"
    using u v by (simp add: check_item_def)
  then have "loop_inv active (out @ [User u]) [] ?ck"
    using inv by (auto simp: loop_inv_def check_history_append)
  then show ?thesis by (rule that) simp
qed

lemma push_assistant:
  assumes inv: "loop_inv active out [] ck" and last: "out \<noteq> []" "is_user (last out)"
    and a: "list_all (good_use active) (am_tool_uses a)"
      "distinct (map tu_tool_use_id (am_tool_uses a))"
      "set (map tu_tool_use_id (am_tool_uses a)) \<inter> ck_use_ids ck = {}"
    and pend: "map tr_tool_use_id pending = map tu_tool_use_id (am_tool_uses a)"
      "list_all good_result pending"
  obtains ck' where "loop_inv active (out @ [Assistant a]) pending ck'"
    "ck_use_ids ck' = ck_use_ids ck \<union> set (map tu_tool_use_id (am_tool_uses a))"
proof -
  let ?ids = "map tu_tool_use_id (am_tool_uses a)"
  have v: "validate_assistant_uses a active (ck_use_ids ck) = Inr (?ids, ck_use_ids ck \<union> set ?ids)"
    using validate_uses_ok [OF a, of "[]"] by (simp add: validate_assistant_uses_def)
  let ?ck = "ck\<lparr>ck_previous_uses := ?ids, ck_use_ids := ck_use_ids ck \<union> set ?ids,
     ck_previous_was_user := False\<rparr>"
  have "ck_previous_was_user ck" using inv last by (simp add: loop_inv_def)
  then have "check_item active (length out) (to_history (Assistant a)) ck = Inr ?ck"
    using v last by (simp add: check_item_def)
  then have "loop_inv active (out @ [Assistant a]) pending ?ck"
    using inv pend a(2,3) by (auto simp: loop_inv_def check_history_append)
  then show ?thesis by (rule that) simp
qed

text \<open>What the loop needs of the messages still to come.\<close>

definition incoming_ok ::
  "string set \<Rightarrow> nat \<Rightarrow> conversation_message list \<Rightarrow> (nat \<Rightarrow> kiro_tool_result list) \<Rightarrow> bool" where
  "incoming_ok active i ms sch \<longleftrightarrow>
     list_all (\<lambda>m. results_of m = [] \<and> list_all (good_use active) (uses_of m)) ms
     \<and> list_all (\<lambda>m. tools_of m \<in> {None, Some []}) ms
     \<and> distinct (concat (map use_ids ms)) \<and> scheduled_ok i ms sch"

definition sched_of :: "(nat, kiro_tool_result list) hmap \<Rightarrow> nat \<Rightarrow> kiro_tool_result list" where
  "sched_of m i = (case hm_get m i of None \<Rightarrow> [] | Some q \<Rightarrow> q)"

lemma scheduled_ok_cong:
  "\<forall>j \<ge> i. sch j = sch' j \<Longrightarrow> scheduled_ok i ms sch = scheduled_ok i ms sch'"
  by (simp add: scheduled_ok_def)

lemma user_tools_synthetic [simp]: "user_tools (synthetic_user t c rs) = []"
  by (simp add: user_tools_def synthetic_user_def)

lemma user_results_synthetic [simp]: "user_results (synthetic_user t c rs) = rs"
  by (simp add: user_results_def synthetic_user_def)

lemma user_add_tool_results:
  "user_results (add_tool_results u rs) = user_results u @ rs"
  "user_tools (add_tool_results u rs) = user_tools u"
  by (auto simp: user_results_def user_tools_def add_tool_results_def message_context_default_def
      Let_def split: option.split)

lemma incoming_ok_Cons:
  "incoming_ok active i (m # ms) sch \<longleftrightarrow>
     results_of m = [] \<and> list_all (good_use active) (uses_of m) \<and> tools_of m \<in> {None, Some []}
     \<and> distinct (use_ids m) \<and> set (use_ids m) \<inter> set (concat (map use_ids ms)) = {}
     \<and> map tr_tool_use_id (sch i) = use_ids m \<and> list_all good_result (sch i)
     \<and> incoming_ok active (Suc i) ms sch"
  by (auto simp: incoming_ok_def scheduled_ok_Cons)

lemma incoming_ok_remove:
  "incoming_ok active (Suc i) ms (sched_of (hm_remove i sch))
     = incoming_ok active (Suc i) ms (sched_of sch)"
proof -
  have "\<forall>j \<ge> Suc i. sched_of (hm_remove i sch) j = sched_of sch j"
    by (simp add: sched_of_def delete_conv')
  then have "scheduled_ok (Suc i) ms (sched_of (hm_remove i sch))
      = scheduled_ok (Suc i) ms (sched_of sch)"
    by (rule scheduled_ok_cong)
  then show ?thesis by (simp add: incoming_ok_def)
qed

text \<open>Before a message is pushed, a placeholder of the other role keeps the alternation.\<close>

lemma before_user:
  assumes inv: "loop_inv active out pending ck"
  defines "out1 \<equiv> if out \<noteq> [] \<and> is_user (last out)
     then out @ [Assistant synthetic_assistant] else out"
  obtains ck1 where "loop_inv active out1 pending ck1" "ck_use_ids ck1 = ck_use_ids ck"
    "out1 = [] \<or> \<not> is_user (last out1)"
proof (cases "out \<noteq> [] \<and> is_user (last out)")
  case True
  then have "pending = []" using inv by (simp add: loop_inv_def)
  with True inv push_assistant [of active out ck synthetic_assistant pending] that
  show ?thesis by (auto simp: synthetic_assistant_def out1_def)
next
  case False
  with inv that show ?thesis by (auto simp: out1_def)
qed

lemma before_assistant:
  assumes inv: "loop_inv active out pending ck"
    and u: "user_tools u = []" "user_results u = pending"
  defines "out1 \<equiv> if out = [] \<or> \<not> is_user (last out) then out @ [User u] else out"
  obtains ck1 where "loop_inv active out1 [] ck1" "ck_use_ids ck1 = ck_use_ids ck"
    "out1 \<noteq> []" "is_user (last out1)"
proof (cases "out = [] \<or> \<not> is_user (last out)")
  case True
  obtain ck1 where "loop_inv active (out @ [User u]) [] ck1" "ck_use_ids ck1 = ck_use_ids ck"
    using push_user [OF inv True u] by metis
  with True that show ?thesis by (auto simp: out1_def)
next
  case False
  moreover have "pending = []" using False inv by (simp add: loop_inv_def)
  ultimately show ?thesis using inv that by (auto simp: out1_def)
qed

text \<open>One turn of the loop keeps the invariant, whichever role the message has.\<close>

lemma user_turn:
  assumes inv: "loop_inv active out pending ck"
    and u: "user_tools u = []" "user_results u = []"
  defines "out1 \<equiv> if out \<noteq> [] \<and> is_user (last out)
     then out @ [Assistant synthetic_assistant] else out"
  defines "u1 \<equiv> if pending \<noteq> [] then add_tool_results u pending else u"
  obtains ck' where "loop_inv active (out1 @ [User u1]) [] ck'" "ck_use_ids ck' = ck_use_ids ck"
proof -
  obtain ck1 where c1: "loop_inv active out1 pending ck1" "ck_use_ids ck1 = ck_use_ids ck"
    "out1 = [] \<or> \<not> is_user (last out1)"
    using before_user [OF inv] unfolding out1_def by metis
  have "user_tools u1 = []" "user_results u1 = pending"
    using u by (auto simp: u1_def user_add_tool_results)
  with push_user [OF c1(1,3)] c1(2) that show ?thesis by metis
qed

lemma assistant_turn:
  fixes t :: kiro_user_input_message and c :: string
  assumes inv: "loop_inv active out pending ck"
    and a: "list_all (good_use active) (am_tool_uses a)"
      "distinct (map tu_tool_use_id (am_tool_uses a))"
      "set (map tu_tool_use_id (am_tool_uses a)) \<inter> ck_use_ids ck = {}"
    and p: "map tr_tool_use_id new = map tu_tool_use_id (am_tool_uses a)"
      "list_all good_result new"
  defines "out1 \<equiv> if out = [] \<or> \<not> is_user (last out)
     then out @ [User (synthetic_user t c pending)] else out"
  obtains ck' where "loop_inv active (out1 @ [Assistant a]) new ck'"
    "ck_use_ids ck' = ck_use_ids ck \<union> set (map tu_tool_use_id (am_tool_uses a))"
proof -
  obtain ck1 where c1: "loop_inv active out1 [] ck1" "ck_use_ids ck1 = ck_use_ids ck"
    "out1 \<noteq> []" "is_user (last out1)"
    using before_assistant [OF inv user_tools_synthetic user_results_synthetic, of t c]
    unfolding out1_def by metis
  show ?thesis
    using push_assistant [OF c1(1,3,4) a(1,2) _ p] a(3) c1(2) that by metis
qed

lemma normalize_loop_inv:
  "normalize_loop t i ms sch out pending st = (out', pending', st') \<Longrightarrow>
     loop_inv active out pending ck \<Longrightarrow> incoming_ok active i ms (sched_of sch) \<Longrightarrow>
     set (concat (map use_ids ms)) \<inter> ck_use_ids ck = {} \<Longrightarrow>
     \<exists>ck'. loop_inv active out' pending' ck'"
proof (induction ms arbitrary: i sch out pending st ck)
  case Nil
  then show ?case by auto
next
  case (Cons m ms)
  show ?case
  proof (cases m)
    case (User u)
    let ?out1 = "if out \<noteq> [] \<and> is_user (last out)
      then out @ [Assistant synthetic_assistant] else out"
    let ?u1 = "if pending \<noteq> [] then add_tool_results u pending else u"
    obtain st1 where rec: "normalize_loop t (Suc i) ms sch (?out1 @ [User ?u1]) [] st1
        = (out', pending', st')"
      using Cons.prems(1) User by (auto simp: Let_def split: if_splits)
    obtain ck2 where c2: "loop_inv active (?out1 @ [User ?u1]) [] ck2"
      "ck_use_ids ck2 = ck_use_ids ck"
      using user_turn [OF Cons.prems(2), of u] Cons.prems(3) User
      by (auto simp: incoming_ok_Cons)
    show ?thesis
      using Cons.IH [OF rec c2(1)] Cons.prems(3,4) c2(2) by (auto simp: incoming_ok_Cons)
  next
    case (Assistant a)
    let ?c = "if out = [] then ''Begin conversation.''
      else ''Continue after the previous tool call.''"
    let ?out1 = "if out = [] \<or> \<not> is_user (last out)
      then out @ [User (synthetic_user t ?c pending)] else out"
    obtain st1 where rec: "normalize_loop t (Suc i) ms (hm_remove i sch) (?out1 @ [Assistant a])
        (sched_of sch i) st1 = (out', pending', st')"
      using Cons.prems(1) Assistant by (auto simp: Let_def sched_of_def split: if_splits)
    have p: "list_all (good_use active) (am_tool_uses a)"
      "distinct (map tu_tool_use_id (am_tool_uses a))"
      "set (map tu_tool_use_id (am_tool_uses a)) \<inter> ck_use_ids ck = {}"
      "map tr_tool_use_id (sched_of sch i) = map tu_tool_use_id (am_tool_uses a)"
      "list_all good_result (sched_of sch i)"
      using Cons.prems(3,4) Assistant by (auto simp: incoming_ok_Cons use_ids_def)
    obtain ck2 where c2: "loop_inv active (?out1 @ [Assistant a]) (sched_of sch i) ck2"
      "ck_use_ids ck2 = ck_use_ids ck \<union> set (map tu_tool_use_id (am_tool_uses a))"
      using assistant_turn [OF Cons.prems(2) p, of t ?c] by metis
    have "set (concat (map use_ids ms)) \<inter> ck_use_ids ck2 = {}"
      using Cons.prems(3,4) c2(2) Assistant unfolding incoming_ok_Cons use_ids_def
      by (simp add: Int_Un_distrib Int_Un_distrib2 Int_commute)
    then show ?thesis
      using Cons.IH [OF rec c2(1)] Cons.prems(3)
      by (simp add: incoming_ok_Cons incoming_ok_remove)
  qed
qed

section \<open>Tool definitions and the flattened history\<close>

definition spec_names :: "kiro_tool list \<Rightarrow> string list" where
  "spec_names ts = map ts_name (List.map_filter tool_specification ts)"

lemma spec_names_simps [simp]:
  "spec_names [] = []"
  "spec_names (CachePoint c # ts) = spec_names ts"
  "spec_names (Specification sp # ts) = ts_name sp # spec_names ts"
  by (simp_all add: spec_names_def map_filter_simps)

lemma retain_tools_names:
  "retain_tools ts names st = (ts', names', st') \<Longrightarrow>
     distinct (spec_names ts') \<and> set (spec_names ts') \<inter> names = {}
     \<and> names' = names \<union> set (spec_names ts')
     \<and> list_all (\<lambda>n. trim n = n \<and> n \<noteq> []) (spec_names ts')"
proof (induction ts arbitrary: names st ts' names' st')
  case (Cons t ts)
  show ?case
  proof (cases t)
    case (Specification sp)
    show ?thesis
    proof (cases "trim (ts_name sp) \<noteq> [] \<and> trim (ts_name sp) \<notin> names")
      case True
      then obtain ts1 where rec:
        "retain_tools ts (insert (trim (ts_name sp)) names) st = (ts1, names', st')"
        and ts': "ts' = Specification (sp\<lparr>ts_name := trim (ts_name sp)\<rparr>) # ts1"
        using Cons.prems Specification by (auto simp: Let_def split: prod.splits)
      from Cons.IH [OF rec] True ts' show ?thesis by auto
    next
      case False
      then show ?thesis using Cons.prems Specification by (auto simp: Let_def dest!: Cons.IH)
    qed
  next
    case (CachePoint c)
    then show ?thesis using Cons.prems by (auto split: prod.splits dest!: Cons.IH)
  qed
qed simp

lemma sanitize_current_names:
  assumes "sanitize_current_tool_definitions (um_context u) st = (c, active, st')"
  shows "distinct (spec_names (user_tools (u\<lparr>um_context := c\<rparr>)))"
    and "active = set (spec_names (user_tools (u\<lparr>um_context := c\<rparr>)))"
    and "list_all (\<lambda>n. trim n = n \<and> n \<noteq> []) (spec_names (user_tools (u\<lparr>um_context := c\<rparr>)))"
  using assms retain_tools_names
  by (fastforce simp: sanitize_current_tool_definitions_def user_tools_def
      split: option.splits prod.splits)+

lemma flatten_history_tools:
  "flatten_history items st = (ms, st') \<Longrightarrow> list_all (\<lambda>m. tools_of m \<in> {None, Some []}) ms"
  by (induction items arbitrary: st ms st')
     (auto simp: strip_history_user_def user_tools_def Let_def split: prod.splits option.splits)

section \<open>After the repair of the pairs\<close>

lemma unique_kept_ids:
  fixes ms :: "conversation_message list"
  defines "uses \<equiv> all_tool_uses ms" and "counts \<equiv> tool_use_id_counts ms"
  shows "distinct (map (\<lambda>u. trim (tu_tool_use_id u)) (filter (kept_use active counts) uses))"
proof (rule distinct_map_filter_unique)
  fix u assume "kept_use active counts u"
  then have ne: "trim (tu_tool_use_id u) \<noteq> []" and le: "counts (trim (tu_tool_use_id u)) \<le> 1"
    by (auto simp: kept_use_def malformed_use_def Let_def)
  have "count_list (filter (\<lambda>x. x \<noteq> []) xs) y = count_list xs y" if "y \<noteq> []"
    for xs :: "string list" and y
    using that by (induction xs) auto
  with ne le show "count_list (map (\<lambda>u. trim (tu_tool_use_id u)) uses) (trim (tu_tool_use_id u)) \<le> 1"
    by (simp add: counts_def tool_use_id_counts_def uses_def)
qed

lemma concat_use_ids_pass:
  assumes "map uses_of ms' = map (\<lambda>m. map trim_use (filter K (uses_of m))) ms"
  shows "concat (map use_ids ms')
    = map (\<lambda>u. trim (tu_tool_use_id u)) (filter K (all_tool_uses ms))"
proof -
  have "concat (map use_ids ms') = map tu_tool_use_id (concat (map uses_of ms'))"
    by (simp add: use_ids_def [abs_def] map_concat comp_def)
  also have "\<dots> = map tu_tool_use_id (concat (map (\<lambda>m. map trim_use (filter K (uses_of m))) ms))"
    by (simp only: assms)
  also have "\<dots> = map (\<lambda>u. trim (tu_tool_use_id u)) (filter K (all_tool_uses ms))"
    by (induction ms) (auto simp: all_tool_uses_conv trim_use_def)
  finally show ?thesis .
qed

text \<open>Everything the role loop needs, except that the last message may carry definitions.\<close>

lemma repair_tool_pairs_ok:
  assumes "repair_tool_pairs tj ms active st = (ms', scheduled, st')"
  shows "map tools_of ms' = map tools_of ms"
    and "list_all (\<lambda>m. results_of m = [] \<and> list_all (good_use active) (uses_of m)) ms'"
    and "distinct (concat (map use_ids ms'))"
    and "scheduled_ok 0 ms' (sched_of scheduled)"
proof -
  obtain ms1 rs ix where c: "collect_results 0 ms [] [] = (ms1, rs, ix)"
    by (cases "collect_results 0 ms [] []")
  let ?counts = "tool_use_id_counts ms1"
  let ?rs = "\<lparr>rs_results = rs, rs_indexes = ix, rs_scheduled = [], rs_stats = st\<rparr>"
  obtain ms2 rs2 where r: "repair_assistants tj active ?counts 0 ms1 ?rs = (ms2, rs2)"
    by (cases "repair_assistants tj active ?counts 0 ms1 ?rs")
  have a: "archive_results tj (rs_results rs2) ms2 (rs_stats rs2) = (ms', st')"
    and sch: "scheduled = rs_scheduled rs2"
    using assms c r by (auto simp: repair_tool_pairs_def split: prod.splits)
  have post: "pass_post active ?counts 0 ms1 ?rs ms2 rs2"
    by (rule repair_assistants_post [OF r]) (simp add: sched_def)
  note keeps = collect_results_keeps [OF c] archive_results_keeps [OF a]
  have len: "length ms' = length ms2" using keeps by (metis length_map)
  show "map tools_of ms' = map tools_of ms"
    using keeps post by (simp add: pass_post_def)
  have uses: "map uses_of ms' = map (\<lambda>m. map trim_use (filter (kept_use active ?counts) (uses_of m))) ms1"
    using keeps post by (simp add: pass_post_def)
  have "map results_of ms' = map results_of ms1" using keeps post by (simp add: pass_post_def)
  then have "list_all (\<lambda>m. results_of m = []) ms'"
    using keeps by (metis (mono_tags, lifting) list.pred_map comp_def list.pred_mono_strong)
  moreover have "list_all (list_all (good_use active)) (map uses_of ms')"
    unfolding uses by (auto simp: list_all_iff dest: kept_use_good)
  ultimately show "list_all (\<lambda>m. results_of m = [] \<and> list_all (good_use active) (uses_of m)) ms'"
    by (simp add: list_all_iff)
  show "distinct (concat (map use_ids ms'))"
    unfolding concat_use_ids_pass [OF uses] by (rule unique_kept_ids)
  have ids: "use_ids (ms' ! k) = use_ids (ms2 ! k)" if "k < length ms'" for k
    using keeps that len by (metis nth_map use_ids_def)
  have "scheduled_ok 0 ms2 (sched rs2)" using post by (simp add: pass_post_def)
  moreover have "sched rs2 = sched_of scheduled"
    by (simp add: sch sched_def sched_of_def fun_eq_iff)
  ultimately show "scheduled_ok 0 ms' (sched_of scheduled)"
    using len ids by (simp add: scheduled_ok_def)
qed

text \<open>A last user message is delivered after the loop over the messages before it.\<close>

lemma normalize_loop_snoc_user:
  "normalize_loop t i (ms @ [User u]) sch out pending st =
     (case normalize_loop t i ms sch out pending st of
        (out1, pending1, st1) \<Rightarrow> normalize_loop t 0 [User u] [] out1 pending1 st1)"
proof (induction ms arbitrary: i sch out pending st)
  case Nil
  then show ?case by (simp add: Let_def)
next
  case (Cons m ms)
  then show ?case by (cases m) (auto simp: Let_def)
qed

definition before_current :: "conversation_message list \<Rightarrow> conversation_message list" where
  "before_current out =
     (if out \<noteq> [] \<and> is_user (last out) then out @ [Assistant synthetic_assistant] else out)"

text \<open>The roles come out as an accepted history followed by the current message.\<close>

lemma normalize_roles_ok:
  assumes run: "normalize_roles (hist @ [User u]) scheduled st = (ms', st')"
    and inc: "incoming_ok active 0 hist (sched_of scheduled)"
  obtains front pending ck where
    "ms' = front @ [User (if pending \<noteq> [] then add_tool_results u pending else u)]"
    "loop_inv active front pending ck" "front = [] \<or> \<not> is_user (last front)"
proof -
  let ?t = "role_template (hist @ [User u])"
  obtain out1 pending1 st1 where
    l: "normalize_loop ?t 0 hist scheduled [] [] st = (out1, pending1, st1)"
    by (cases "normalize_loop ?t 0 hist scheduled [] [] st")
  obtain ck where "loop_inv active out1 pending1 ck"
    using normalize_loop_inv [OF l loop_inv_init inc] by (auto simp: check_init_def)
  then obtain ck1 where ck1: "loop_inv active (before_current out1) pending1 ck1"
    "before_current out1 = [] \<or> \<not> is_user (last (before_current out1))"
    using before_user [of active out1 pending1 ck] unfolding before_current_def by metis
  have "ms' = before_current out1
      @ [User (if pending1 \<noteq> [] then add_tool_results u pending1 else u)]"
    using run l
    by (auto simp: normalize_roles_def normalize_loop_snoc_user before_current_def Let_def
        split: if_splits)
  then show ?thesis using ck1 that by blast
qed

section \<open>The repair satisfies the contract\<close>

lemma validate_accepts:
  assumes inv: "loop_inv active front pending ck"
    and last: "front = [] \<or> \<not> is_user (last front)"
    and cur: "user_results cur = pending"
    and names: "active = set (spec_names (user_tools cur))" "distinct (spec_names (user_tools cur))"
      "list_all (\<lambda>n. trim n = n \<and> n \<noteq> []) (spec_names (user_tools cur))"
    and state: "cs_history state = map to_history front" "cs_current_message state = cur"
  shows "validate_kiro_tool_history (p\<lparr>kp_conversation_state := state\<rparr>) = Inr ()"
proof -
  let ?ids = "map tr_tool_use_id pending"
  have pu: "\<not> ck_previous_was_user ck" "ck_previous_uses ck = ?ids"
    using inv last by (auto simp: loop_inv_def)
  have empty: "front = [] \<Longrightarrow> pending = []" using inv by (simp add: loop_inv_def)
  have "validate_user_results cur ?ids (ck_result_ids ck) = Inr (ck_result_ids ck \<union> set ?ids)"
    using inv cur by (intro validate_user_results_ok) (auto simp: loop_inv_def)
  moreover have "\<not> (\<exists>name \<in> active. trim name = [])" "length (spec_names (user_tools cur)) = card active"
    using names by (auto simp: list_all_iff distinct_card)
  moreover have "check_history active 0 (map to_history front) check_init = Inr ck"
    using inv by (simp add: loop_inv_def)
  ultimately show ?thesis
    using pu empty names(1) state
    by (auto simp: validate_kiro_tool_history_def current_tool_names_def spec_names_def Let_def)
qed

lemma sanitize_validates:
  "validate_kiro_tool_history (fst (sanitize_kiro_tool_history tj p)) = Inr ()"
proof -
  let ?state = "kp_conversation_state p"
  let ?u = "cs_current_message ?state"
  obtain c active st1 where d:
    "sanitize_current_tool_definitions (um_context ?u) stats_default = (c, active, st1)"
    by (cases "sanitize_current_tool_definitions (um_context ?u) stats_default")
  obtain hist st2 where f: "flatten_history (cs_history ?state) st1 = (hist, st2)"
    by (cases "flatten_history (cs_history ?state) st1")
  let ?cur = "?u\<lparr>um_context := c\<rparr>"
  obtain ms1 sch st3 where r: "repair_tool_pairs tj (hist @ [User ?cur]) active st2 = (ms1, sch, st3)"
    by (cases "repair_tool_pairs tj (hist @ [User ?cur]) active st2")
  obtain ms2 st4 where n: "normalize_roles ms1 sch st3 = (ms2, st4)"
    by (cases "normalize_roles ms1 sch st3")
  note ok = repair_tool_pairs_ok [OF r] and names = sanitize_current_names [OF d]
  obtain hist1 m where ms1: "ms1 = hist1 @ [m]" and tools: "map tools_of hist1 = map tools_of hist"
    "tools_of m = Some (user_tools ?cur)"
    using ok(1) by (auto simp: map_eq_append_conv)
  then obtain u1 where m: "m = User u1" "user_tools u1 = user_tools ?cur" by (cases m) auto
  have "list_all (\<lambda>x. x \<in> {None, Some []}) (map tools_of hist1)"
    unfolding tools(1) using flatten_history_tools [OF f] by (simp add: list.pred_map comp_def)
  then have inc: "incoming_ok active 0 hist1 (sched_of sch)"
    using ok(2-4) by (auto simp: incoming_ok_def ms1 scheduled_ok_def nth_append list.pred_map comp_def)
  obtain front pending ck where fr:
    "ms2 = front @ [User (if pending \<noteq> [] then add_tool_results u1 pending else u1)]"
    "loop_inv active front pending ck" "front = [] \<or> \<not> is_user (last front)"
    using normalize_roles_ok [OF n [unfolded ms1 m(1)] inc] by metis
  define cur where "cur = (if pending \<noteq> [] then add_tool_results u1 pending else u1)"
  have cur: "user_results cur = pending" "user_tools cur = user_tools ?cur"
    using ok(2) m ms1 by (auto simp: cur_def user_add_tool_results)
  have "fst (sanitize_kiro_tool_history tj p) = p\<lparr>kp_conversation_state :=
      ?state\<lparr>cs_current_message := cur, cs_history := map to_history front\<rparr>\<rparr>"
    using d f r n fr(1) unfolding cur_def by (simp add: sanitize_kiro_tool_history_def Let_def)
  then show ?thesis
    using validate_accepts [OF fr(2,3) cur(1)] names cur(2) by simp
qed

section \<open>What the checker accepts\<close>

text \<open>
  The contract, without the checker's bookkeeping: user and assistant turns alternate and the
  current message is the last user turn; only the current message defines tools, under distinct
  non-blank names; every call is well formed, names a defined tool and has an id of its own in the
  whole conversation; and every user turn answers exactly the calls of the turn before it.
\<close>

definition item_uses :: "kiro_history_message \<Rightarrow> kiro_tool_use list" where
  "item_uses item = (case hx_assistant_response_message item of
     None \<Rightarrow> [] | Some a \<Rightarrow> am_tool_uses a)"

definition item_use_ids :: "kiro_history_message \<Rightarrow> string list" where
  "item_use_ids item = map tu_tool_use_id (item_uses item)"

definition answers :: "string list \<Rightarrow> kiro_tool_result list \<Rightarrow> bool" where
  "answers ids rs \<longleftrightarrow> list_all good_result rs \<and> mset (map tr_tool_use_id rs) = mset ids"

definition calls_before :: "kiro_history_message list \<Rightarrow> nat \<Rightarrow> string list" where
  "calls_before items i = (if i = 0 then [] else item_use_ids (items ! (i - 1)))"

definition turn_ok :: "string set \<Rightarrow> kiro_history_message list \<Rightarrow> nat \<Rightarrow> bool" where
  "turn_ok active items i \<longleftrightarrow>
     (if even i
      then \<exists>u. items ! i = to_history (User u) \<and> user_tools u = []
             \<and> answers (calls_before items i) (user_results u)
      else \<exists>a. items ! i = to_history (Assistant a) \<and> list_all (good_use active) (am_tool_uses a))"

definition turns_ok :: "string set \<Rightarrow> kiro_history_message list \<Rightarrow> bool" where
  "turns_ok active items \<longleftrightarrow>
     (\<forall>i < length items. turn_ok active items i) \<and> distinct (concat (map item_use_ids items))"

definition kiro_tool_contract :: "kiro_payload \<Rightarrow> bool" where
  "kiro_tool_contract p \<longleftrightarrow>
     (let current = cs_current_message (kp_conversation_state p);
          items = kp_history p;
          names = current_tool_names current
      in distinct names \<and> list_all (\<lambda>n. trim n \<noteq> []) names
         \<and> even (length items) \<and> turns_ok (set names) items
         \<and> answers (calls_before items (length items)) (user_results current))"

text \<open>The checker's variables after an accepted history, as functions of the history.\<close>

definition item_result_ids :: "kiro_history_message \<Rightarrow> string list" where
  "item_result_ids item = (case hx_user_input_message item of
     None \<Rightarrow> [] | Some u \<Rightarrow> map tr_tool_use_id (user_results u))"

definition checked :: "kiro_history_message list \<Rightarrow> check_state" where
  "checked items =
     \<lparr>ck_previous_was_user = odd (length items),
      ck_previous_uses = calls_before items (length items),
      ck_use_ids = set (concat (map item_use_ids items)),
      ck_result_ids = set (concat (map item_result_ids items))\<rparr>"

lemma to_history_fields [simp]:
  "hx_user_input_message (to_history (User u)) = Some u"
  "hx_assistant_response_message (to_history (User u)) = None"
  "hx_user_input_message (to_history (Assistant a)) = None"
  "hx_assistant_response_message (to_history (Assistant a)) = Some a"
  by simp_all

lemma to_history_inject [simp]:
  "to_history (User u) = to_history (User u') \<longleftrightarrow> u = u'"
  "to_history (Assistant a) = to_history (Assistant a') \<longleftrightarrow> a = a'"
  "to_history (User u) \<noteq> to_history (Assistant a)"
  "to_history (Assistant a) \<noteq> to_history (User u)"
  by simp_all

declare to_history.simps [simp del]

lemma item_simps [simp]:
  "item_use_ids (to_history (User u)) = []"
  "item_use_ids (to_history (Assistant a)) = map tu_tool_use_id (am_tool_uses a)"
  "item_result_ids (to_history (User u)) = map tr_tool_use_id (user_results u)"
  "item_result_ids (to_history (Assistant a)) = []"
  by (simp_all add: item_use_ids_def item_uses_def item_result_ids_def)

lemma validate_uses_iff:
  "validate_uses us active seen ids = Inr r \<longleftrightarrow>
     list_all (good_use active) us \<and> distinct (map tu_tool_use_id us)
     \<and> set (map tu_tool_use_id us) \<inter> seen = {}
     \<and> r = (ids @ map tu_tool_use_id us, seen \<union> set (map tu_tool_use_id us))"
  by (induction us arbitrary: seen ids) (auto simp: good_use_def)

lemma validate_results_iff:
  "validate_results rs expected seen = Inr r \<longleftrightarrow>
     list_all good_result rs \<and> set (map tr_tool_use_id rs) \<subseteq> expected
     \<and> distinct (map tr_tool_use_id rs) \<and> set (map tr_tool_use_id rs) \<inter> seen = {}
     \<and> r = seen \<union> set (map tr_tool_use_id rs)"
  by (induction rs arbitrary: seen) (auto simp: good_result_def)

lemma mset_eq_distinct:
  assumes "distinct ys" and "length xs = length ys" and "distinct xs" and "set xs \<subseteq> set ys"
  shows "mset xs = mset ys"
proof -
  have "card (set xs) = card (set ys)" using assms by (simp add: distinct_card)
  then have "set xs = set ys" using assms(4) by (simp add: card_subset_eq)
  then show ?thesis using assms by (simp add: set_eq_iff_mset_eq_distinct)
qed

lemma validate_user_results_iff:
  assumes "distinct expected" and "set expected \<inter> seen = {}"
  shows "validate_user_results u expected seen = Inr r \<longleftrightarrow>
     answers expected (user_results u)
     \<and> r = seen \<union> set (map tr_tool_use_id (user_results u))"
proof -
  let ?ids = "map tr_tool_use_id (user_results u)"
  have "mset ?ids = mset expected \<longleftrightarrow>
      length ?ids = length expected \<and> set ?ids \<subseteq> set expected \<and> distinct ?ids"
    using assms(1) mset_eq_distinct [of expected ?ids]
    by (metis mset_eq_imp_distinct_iff mset_eq_length mset_eq_setD order_refl)
  then show ?thesis
    using assms(2) by (auto simp: validate_user_results_def answers_def validate_results_iff)
qed

lemma validate_user_results_Inl:
  assumes "validate_user_results u expected seen = Inl e"
    and "distinct expected" and "set expected \<inter> seen = {}"
  shows "\<not> answers expected (user_results u)"
  using validate_user_results_iff [OF assms(2,3)] assms(1) by (metis sum.distinct(1))

lemma calls_before_snoc [simp]: "i \<le> length items \<Longrightarrow> calls_before (items @ [x]) i = calls_before items i"
  by (cases i) (simp_all add: calls_before_def nth_append)

lemma calls_before_end [simp]: "calls_before (items @ [x]) (Suc (length items)) = item_use_ids x"
  by (simp add: calls_before_def)

lemma calls_before_subset:
  "i \<le> length items \<Longrightarrow> set (calls_before items i) \<subseteq> set (concat (map item_use_ids items))"
  by (cases i) (auto simp: calls_before_def Suc_le_eq intro: nth_mem)

lemma turns_ok_snoc:
  "turns_ok active (items @ [x]) \<longleftrightarrow>
     turns_ok active items
     \<and> distinct (item_use_ids x) \<and> set (item_use_ids x) \<inter> set (concat (map item_use_ids items)) = {}
     \<and> (if even (length items)
        then \<exists>u. x = to_history (User u) \<and> user_tools u = []
               \<and> answers (calls_before items (length items)) (user_results u)
        else \<exists>a. x = to_history (Assistant a) \<and> list_all (good_use active) (am_tool_uses a))"
proof -
  have "turn_ok active (items @ [x]) i = turn_ok active items i" if "i < length items" for i
    using that by (simp add: turn_ok_def nth_append)
  then show ?thesis
    unfolding turns_ok_def
    by (simp add: All_less_Suc turn_ok_def [of active "items @ [x]" "length items"]) blast
qed

text \<open>Every answered id was asked before, and never by the calls still open.\<close>

lemma answered_subset:
  assumes "turns_ok active items"
  shows "set (concat (map item_result_ids items)) \<subseteq> set (concat (map item_use_ids items))
    \<and> set (calls_before items (length items)) \<inter> set (concat (map item_result_ids items)) = {}
    \<and> distinct (calls_before items (length items))"
  using assms
proof (induction items rule: rev_induct)
  case Nil
  then show ?case by (simp add: calls_before_def)
next
  case (snoc x items)
  then have IH: "set (concat (map item_result_ids items)) \<subseteq> set (concat (map item_use_ids items))"
    by (simp add: turns_ok_snoc)
  have before: "set (calls_before items (length items)) \<subseteq> set (concat (map item_use_ids items))"
    by (rule calls_before_subset) simp
  show ?case
  proof (cases "even (length items)")
    case True
    with snoc.prems obtain u where u: "x = to_history (User u)"
      "answers (calls_before items (length items)) (user_results u)"
      by (auto simp: turns_ok_snoc)
    then have "set (map tr_tool_use_id (user_results u)) = set (calls_before items (length items))"
      unfolding answers_def by (metis mset_eq_setD)
    with u IH before show ?thesis by auto
  next
    case False
    with snoc.prems obtain a where "x = to_history (Assistant a)" by (auto simp: turns_ok_snoc)
    with snoc.prems IH show ?thesis by (auto simp: turns_ok_snoc)
  qed
qed

lemma check_item_iff:
  assumes "turns_ok active items"
  shows "check_item active (length items) x (checked items) = Inr ck \<longleftrightarrow>
     turns_ok active (items @ [x]) \<and> ck = checked (items @ [x])"
proof (cases "hx_user_input_message x")
  case (Some u)
  note user = Some
  show ?thesis
  proof (cases "hx_assistant_response_message x")
    case None
    then have x: "x = to_history (User u)" using user by (simp add: to_history.simps)
    note sub = answered_subset [OF assms]
    show ?thesis
      using assms sub unfolding x
      by (auto simp: check_item_def checked_def turns_ok_snoc validate_user_results_iff
          split: sum.splits dest: validate_user_results_Inl)
  next
    case (Some a)
    with user show ?thesis
      by (auto simp: check_item_def turns_ok_snoc)
  qed
next
  case None
  note nouser = None
  show ?thesis
  proof (cases "hx_assistant_response_message x")
    case None
    with nouser show ?thesis by (auto simp: check_item_def turns_ok_snoc)
  next
    case (Some a)
    then have x: "x = to_history (Assistant a)" using nouser by (simp add: to_history.simps)
    show ?thesis
      using assms unfolding x
      by (auto simp: check_item_def checked_def turns_ok_snoc validate_assistant_uses_def
          validate_uses_iff validate_uses_ok split: sum.splits)
  qed
qed

lemma check_history_iff:
  "check_history active 0 items check_init = Inr ck \<longleftrightarrow> turns_ok active items \<and> ck = checked items"
proof (induction items arbitrary: ck rule: rev_induct)
  case Nil
  then show ?case by (auto simp: check_init_def checked_def turns_ok_def calls_before_def)
next
  case (snoc x items)
  show ?case
  proof (cases "check_history active 0 items check_init")
    case (Inl e)
    then have "\<not> turns_ok active items" using snoc [of "checked items"] by auto
    then show ?thesis using Inl by (simp add: check_history_append turns_ok_snoc)
  next
    case (Inr ck0)
    then have "turns_ok active items" "ck0 = checked items" using snoc [of ck0] by auto
    then show ?thesis
      using Inr check_item_iff [of active items x ck]
      by (cases "check_item active (length items) x (checked items)")
         (auto simp: check_history_append)
  qed
qed

lemma validate_iff_contract:
  "validate_kiro_tool_history p = Inr () \<longleftrightarrow> kiro_tool_contract p"
proof -
  let ?items = "kp_history p"
  let ?cur = "cs_current_message (kp_conversation_state p)"
  let ?names = "current_tool_names ?cur"
  have final: "(case validate_user_results ?cur (calls_before ?items (length ?items))
         (ck_result_ids (checked ?items)) of Inl e \<Rightarrow> Inl e | Inr _ \<Rightarrow> Inr ()) = Inr ()
      \<longleftrightarrow> answers (calls_before ?items (length ?items)) (user_results ?cur)"
    if "turns_ok (set ?names) ?items"
    using answered_subset [OF that]
    by (auto simp: checked_def validate_user_results_iff split: sum.splits
        dest: validate_user_results_Inl)
  have names: "length ?names = card (set ?names) \<longleftrightarrow> distinct ?names"
    by (metis card_distinct distinct_card)
  have odd: "calls_before ?items (length ?items) = []"
    if "turns_ok (set ?names) ?items" "odd (length ?items)"
    using that by (cases ?items rule: rev_cases) (auto simp: turns_ok_snoc)
  have zero: "calls_before ?items 0 = []" by (simp add: calls_before_def)
  have fields: "ck_previous_was_user (checked ?items) = odd (length ?items)"
    "ck_previous_uses (checked ?items) = calls_before ?items (length ?items)"
    by (simp_all add: checked_def)
  show ?thesis
  proof (cases "check_history (set ?names) 0 ?items check_init")
    case (Inl e)
    then have "\<not> turns_ok (set ?names) ?items" by (metis check_history_iff sum.distinct(1))
    then show ?thesis using Inl
      by (auto simp: validate_kiro_tool_history_def kiro_tool_contract_def Let_def)
  next
    case (Inr ck)
    then have ok: "turns_ok (set ?names) ?items" "ck = checked ?items"
      by (simp_all add: check_history_iff)
    then show ?thesis using Inr final [OF ok(1)] names odd [OF ok(1)] zero
      by (auto simp: validate_kiro_tool_history_def kiro_tool_contract_def Let_def fields list_all_iff)
  qed
qed

section \<open>Properties\<close>

text \<open>C1: The repaired payload always satisfies Kiro's tool-history contract: whatever history a
  client sends (missing, orphaned, duplicated or misplaced results, malformed or undefined calls,
  repeated roles), the checker accepts what the sanitizer returns.\<close>

theorem sanitize_then_validate_accepts:
  "validate_kiro_tool_history (fst (sanitize_kiro_tool_history to_json payload)) = Inr ()"
  by (rule sanitize_validates)

text \<open>C25: The checker accepts a payload exactly when it meets the declarative contract: distinct
  nonblank tool names, strictly alternating turns that start with a user and end with an assistant,
  no tool definitions in the history, globally distinct well-formed calls of active tools, and every
  call answered once, by a well-formed result, in the very next user message.\<close>

theorem validator_decides_contract:
  "validate_kiro_tool_history payload = Inr () \<longleftrightarrow> kiro_tool_contract payload"
  by (rule validate_iff_contract)

end
