(* ===== verification/EventStream.thy ===== *)
theory EventStream
  imports Values
begin

text \<open>
  \<open>crates/kproxy-kiro/src/event_stream.rs\<close>: the AWS event-stream decoder, and the loop of
  \<open>KiroClient::collect_events\<close> (\<open>client.rs\<close>) that feeds it. A buffer is a list of
  bytes; \<open>decode\<close> returns the event and the rest of the buffer. Code outside the
  repository is a parameter: \<open>crc\<close> is \<open>crc32fast::hash\<close>, \<open>parse\<close> is
  \<open>serde_json::from_slice\<close> and \<open>to_json\<close> is \<open>Value::to_string\<close>.
\<close>

section \<open>Bytes and UTF-8\<close>

definition be_nat :: "u8 list \<Rightarrow> nat" where
  "be_nat bs = foldl (\<lambda>acc b. acc * 256 + unat b) 0 bs"

definition slice :: "'a list \<Rightarrow> nat \<Rightarrow> nat \<Rightarrow> 'a list" where
  "slice xs from to = take (to - from) (drop from xs)"

text \<open>Well-formed UTF-8 byte sequences (Unicode, table 3-7), the check of \<open>str::from_utf8\<close>.\<close>

abbreviation cont :: "nat \<Rightarrow> bool" where
  "cont b \<equiv> 128 \<le> b \<and> b \<le> 191"

fun utf8_valid :: "nat list \<Rightarrow> bool" where
  "utf8_valid [] = True"
| "utf8_valid (a # bs) =
     (if a \<le> 127 then utf8_valid bs
      else if 194 \<le> a \<and> a \<le> 223 then
        (case bs of b # cs \<Rightarrow> cont b \<and> utf8_valid cs | _ \<Rightarrow> False)
      else if 224 \<le> a \<and> a \<le> 239 then
        (case bs of b # c # ds \<Rightarrow>
             (if a = 224 then 160 \<le> b \<and> b \<le> 191 else if a = 237 then 128 \<le> b \<and> b \<le> 159 else cont b)
             \<and> cont c \<and> utf8_valid ds
         | _ \<Rightarrow> False)
      else if 240 \<le> a \<and> a \<le> 244 then
        (case bs of b # c # d # es \<Rightarrow>
             (if a = 240 then 144 \<le> b \<and> b \<le> 191 else if a = 244 then 128 \<le> b \<and> b \<le> 143 else cont b)
             \<and> cont c \<and> cont d \<and> utf8_valid es
         | _ \<Rightarrow> False)
      else False)"

definition from_utf8 :: "u8 list \<Rightarrow> string option" where
  "from_utf8 bs =
     (if utf8_valid (map unat bs) then Some (map (\<lambda>b. char_of (unat b)) bs) else None)"

section \<open>Events\<close>

record kiro_citation =
  kc_text :: "string option"
  kc_link :: string
  kc_target :: json
  kc_kind :: string

datatype kiro_event =
    AssistantResponse string
  | ToolUse (tool_id: string) (tool_name: string) (input_delta: string) (tool_stop: bool)
  | Reasoning string "string option" "string option"
  | Citations "kiro_citation list"
  | MessageMetadata json
  | UsageReport json
  | ErrorEvent string string
  | OtherEvent string json

datatype stream_error =
    InvalidLength nat
  | InvalidHeadersLength nat nat
  | PreludeCrcMismatch
  | MessageCrcMismatch
  | TruncatedHeaderName
  | HeaderNameNotUtf8
  | TruncatedStringHeader
  | TruncatedStringValue
  | HeaderNotUtf8
  | TruncatedByteArray
  | UnknownHeaderType nat
  | TruncatedHeaderValue
  | InvalidJson
  | IncompleteMessage nat

section \<open>Frames\<close>

definition MIN_FRAME_LENGTH :: nat where
  "MIN_FRAME_LENGTH = 16"

definition MAX_FRAME_LENGTH :: nat where
  "MAX_FRAME_LENGTH = 50 * 1024 * 1024"

definition validate_crc :: "(u8 list \<Rightarrow> u32) \<Rightarrow> u8 list \<Rightarrow> stream_error + unit" where
  "validate_crc crc frame =
     (let prelude_expected = be_nat (slice frame 8 12);
          crc_offset = length frame - 4;
          message_expected = be_nat (slice frame crc_offset (crc_offset + 4))
      in if prelude_expected \<noteq> 0 \<and> unat (crc (take 8 frame)) \<noteq> prelude_expected
         then Inl PreludeCrcMismatch
         else if message_expected \<noteq> 0 \<and> unat (crc (take crc_offset frame)) \<noteq> message_expected
         then Inl MessageCrcMismatch
         else Inr ())"

text \<open>The value of a header: its text when it is a string, and the offset after it.\<close>

definition header_value :: "u8 list \<Rightarrow> nat \<Rightarrow> nat \<Rightarrow> stream_error + string option \<times> nat" where
  "header_value bytes kind offset =
     (if kind = 7 then
        (if length bytes < offset + 2 then Inl TruncatedStringHeader
         else let len = be_nat (slice bytes offset (offset + 2)); offset1 = offset + 2 in
           if length bytes < offset1 + len then Inl TruncatedStringValue
           else (case from_utf8 (slice bytes offset1 (offset1 + len)) of
                   None \<Rightarrow> Inl HeaderNotUtf8
                 | Some v \<Rightarrow> Inr (Some v, offset1 + len)))
      else if kind = 0 \<or> kind = 1 then Inr (None, offset)
      else if kind = 2 then Inr (None, offset + 1)
      else if kind = 3 then Inr (None, offset + 2)
      else if kind = 4 then Inr (None, offset + 4)
      else if kind = 5 \<or> kind = 8 then Inr (None, offset + 8)
      else if kind = 6 then
        (if length bytes < offset + 2 then Inl TruncatedByteArray
         else Inr (None, offset + 2 + be_nat (slice bytes offset (offset + 2))))
      else if kind = 9 then Inr (None, offset + 16)
      else Inl (UnknownHeaderType kind))"

lemma header_value_advances: "header_value bytes kind offset = Inr (v, offset') \<Longrightarrow> offset \<le> offset'"
  by (auto simp: header_value_def Let_def split: if_splits option.splits)

function parse_headers_loop ::
  "u8 list \<Rightarrow> nat \<Rightarrow> (string, string) hmap \<Rightarrow> stream_error + (string, string) hmap" where
  "parse_headers_loop bytes offset headers =
     (if offset < length bytes then
        (let name_len = unat (bytes ! offset); offset1 = offset + 1 in
         if length bytes < offset1 + name_len + 1 then Inl TruncatedHeaderName
         else (case from_utf8 (slice bytes offset1 (offset1 + name_len)) of
             None \<Rightarrow> Inl HeaderNameNotUtf8
           | Some name \<Rightarrow>
               (case header_value bytes (unat (bytes ! (offset1 + name_len))) (offset1 + name_len + 1) of
                  Inl e \<Rightarrow> Inl e
                | Inr (value, offset2) \<Rightarrow>
                    (if length bytes < offset2 then Inl TruncatedHeaderValue
                     else parse_headers_loop bytes offset2
                       (case value of None \<Rightarrow> headers | Some v \<Rightarrow> hm_insert name v headers)))))
      else Inr headers)"
  by pat_completeness auto
termination
  by (relation "measure (\<lambda>(bytes, offset, _). length bytes - offset)")
     (auto dest!: header_value_advances)

declare parse_headers_loop.simps [simp del]

definition parse_headers :: "u8 list \<Rightarrow> stream_error + (string, string) hmap" where
  "parse_headers bytes = parse_headers_loop bytes 0 []"

section \<open>Classifying an event\<close>

definition event_type_names :: "string list" where
  "event_type_names =
     [''assistantResponseEvent'', ''toolUseEvent'', ''reasoningContentEvent'',
      ''messageMetadataEvent'', ''metadataEvent'', ''usageEvent'', ''meteringEvent'',
      ''supplementaryWebLinksEvent'', ''codeReferenceEvent'', ''followupPromptEvent'',
      ''citationEvent'', ''contextUsageEvent'', ''invalidStateEvent'']"

definition detected_event_type :: "json \<Rightarrow> string option" where
  "detected_event_type value =
     or_else (find (\<lambda>key. v_get value key \<noteq> None) event_type_names)
       (if v_get value ''citationLink'' \<noteq> None then Some ''citationEvent'' else None)"

definition nested_str :: "json \<Rightarrow> string \<Rightarrow> string \<Rightarrow> string option" where
  "nested_str value wrapper key = get_str (unwrap_or (v_get value wrapper) value) key"

definition value_text :: "(json \<Rightarrow> string) \<Rightarrow> json \<Rightarrow> string" where
  "value_text to_json value = unwrap_or (as_str value) (to_json value)"

definition nonblank_field :: "json \<Rightarrow> string \<Rightarrow> string option" where
  "nonblank_field item field = opt_filter (\<lambda>s. s \<noteq> []) (map_option trim (get_str item field))"

definition citation_of :: "string \<Rightarrow> json \<Rightarrow> kiro_citation option" where
  "citation_of kind item =
     (let link = find_map (nonblank_field item) [''citationLink'', ''url'', ''repository''];
          text = find_map (nonblank_field item)
            [''citationText'', ''title'', ''licenseName'', ''snippet'', ''content'']
      in if link = None \<and> text = None then None
         else Some \<lparr>kc_text = text, kc_link = unwrap_or link [],
           kc_target = unwrap_or (or_else (v_get item ''target'')
             (v_get item ''recommendationContentSpan'')) (JObject []),
           kc_kind = kind\<rparr>)"

definition citation_event :: "json \<Rightarrow> string \<Rightarrow> string \<Rightarrow> string \<Rightarrow> kiro_event" where
  "citation_event value wrapper list kind =
     (let body = unwrap_or (v_get value wrapper) value;
          listed = unwrap_or (Option.bind (v_get body list) as_array) [];
          items = (if listed = [] then [body] else listed);
          citations = List.map_filter (citation_of kind) items
      in if citations = [] then OtherEvent wrapper value else Citations citations)"

definition nonempty_field :: "json \<Rightarrow> string \<Rightarrow> string option" where
  "nonempty_field body field = opt_filter (\<lambda>s. s \<noteq> []) (get_str body field)"

definition classified_event ::
  "(json \<Rightarrow> string) \<Rightarrow> string \<Rightarrow> json \<Rightarrow> kiro_event" where
  "classified_event to_json event_type value =
     (if event_type = ''assistantResponseEvent'' then
        AssistantResponse (unwrap_or (or_else (nested_str value ''assistantResponseEvent'' ''content'')
          (get_str value ''content'')) [])
      else if event_type = ''toolUseEvent'' then
        (let body = unwrap_or (v_get value ''toolUseEvent'') value in
         ToolUse (unwrap_or (get_str body ''toolUseId'') []) (unwrap_or (get_str body ''name'') [])
           (unwrap_or (map_option (value_text to_json)
              (or_else (v_get body ''input'') (v_get body ''inputDelta''))) [])
           (unwrap_or (Option.bind (v_get body ''stop'') as_bool) False))
      else if event_type = ''reasoningContentEvent'' then
        (let body = unwrap_or (v_get value ''reasoningContentEvent'') value in
         Reasoning (unwrap_or (or_else (get_str body ''text'') (get_str body ''content'')) [])
           (nonempty_field body ''signature'')
           (opt_filter (\<lambda>s. s \<noteq> []) (or_else (get_str body ''redactedContent'')
              (get_str body ''redacted_content''))))
      else if event_type = ''messageMetadataEvent'' \<or> event_type = ''metadataEvent'' then
        MessageMetadata value
      else if event_type = ''usageEvent'' \<or> event_type = ''usage'' \<or> event_type = ''meteringEvent'' then
        UsageReport value
      else if event_type = ''supplementaryWebLinksEvent'' then
        citation_event value ''supplementaryWebLinksEvent'' ''supplementaryWebLinks'' ''web''
      else if event_type = ''codeReferenceEvent'' then
        citation_event value ''codeReferenceEvent'' ''references'' ''code''
      else if event_type = ''citationEvent'' then
        citation_event value ''citationEvent'' ''citations'' ''document''
      else if event_type = ''invalidStateEvent'' then
        (let body = unwrap_or (v_get value ''invalidStateEvent'') value in
         ErrorEvent
           (unwrap_or (find_map (nonempty_field body) [''reason'', ''code'', ''state'']) ''INVALID_STATE'')
           (unwrap_or (find_map (nonempty_field body) [''message'', ''detail''])
              ''Kiro reported an invalid conversation state''))
      else if event_type = ''followupPromptEvent'' then
        (let body = unwrap_or (v_get value ''followupPromptEvent'') value;
             prompt = unwrap_or (v_get body ''followupPrompt'') body;
             suggestion = Option.bind (or_else (v_get prompt ''content'') (v_get prompt ''userIntent''))
               as_str
         in case suggestion of
              Some s \<Rightarrow> AssistantResponse ([CHR 0x0A, CHR 0x0A] @ ''**Suggested follow-up:** '' @ s)
            | None \<Rightarrow> OtherEvent event_type value)
      else OtherEvent event_type value)"

definition to_event ::
  "(json \<Rightarrow> string) \<Rightarrow> (string, string) hmap \<Rightarrow> json \<Rightarrow> kiro_event" where
  "to_event to_json headers value =
     (let message_type = hm_get headers '':message-type'';
          exception_type = hm_get headers '':exception-type'';
          event_type = unwrap_or (or_else
            (opt_filter (\<lambda>s. s \<noteq> []) (hm_get headers '':event-type''))
            (detected_event_type value)) []
      in if message_type = Some ''exception'' \<or> exception_type \<noteq> None then
           ErrorEvent (unwrap_or exception_type event_type)
             (unwrap_or (or_else (get_str value ''message'') (get_str value ''Message''))
                ''Unknown stream error'')
         else (case opt_filter (\<lambda>s. s \<noteq> []) (or_else (get_str value ''__type'') (get_str value ''_type'')) of
             Some kind \<Rightarrow> ErrorEvent kind (unwrap_or (get_str value ''message'') ''Unknown stream error'')
           | None \<Rightarrow>
               (case opt_filter (\<lambda>e. \<not> is_null e) (v_get value ''error'') of
                  Some error \<Rightarrow> ErrorEvent ''upstream_error''
                    (unwrap_or (or_else (get_str error ''message'') (as_str error)) ''Unknown stream error'')
                | None \<Rightarrow> classified_event to_json event_type value)))"

section \<open>The decoder\<close>

definition decode ::
  "(u8 list \<Rightarrow> u32) \<Rightarrow> (u8 list \<Rightarrow> json option) \<Rightarrow> (json \<Rightarrow> string) \<Rightarrow> u8 list
     \<Rightarrow> stream_error + kiro_event option \<times> u8 list" where
  "decode crc parse to_json source =
     (if length source < MIN_FRAME_LENGTH then Inr (None, source)
      else
        let total_length = be_nat (slice source 0 4);
            headers_length = be_nat (slice source 4 8)
        in if \<not> (MIN_FRAME_LENGTH \<le> total_length \<and> total_length \<le> MAX_FRAME_LENGTH)
           then Inl (InvalidLength total_length)
           else if total_length - MIN_FRAME_LENGTH < headers_length
           then Inl (InvalidHeadersLength headers_length total_length)
           else if length source < total_length then Inr (None, source)
           else (case validate_crc crc (take total_length source) of
               Inl e \<Rightarrow> Inl e
             | Inr _ \<Rightarrow>
                 (case parse_headers (slice source 12 (12 + headers_length)) of
                    Inl e \<Rightarrow> Inl e
                  | Inr headers \<Rightarrow>
                      (case parse (slice source (12 + headers_length) (total_length - 4)) of
                         None \<Rightarrow> Inl InvalidJson
                       | Some value \<Rightarrow>
                           Inr (Some (to_event to_json headers value), drop total_length source)))))"

definition decode_eof ::
  "(u8 list \<Rightarrow> u32) \<Rightarrow> (u8 list \<Rightarrow> json option) \<Rightarrow> (json \<Rightarrow> string) \<Rightarrow> u8 list
     \<Rightarrow> stream_error + kiro_event option \<times> u8 list" where
  "decode_eof crc parse to_json source =
     (case decode crc parse to_json source of
        Inl e \<Rightarrow> Inl e
      | Inr (Some event, rest) \<Rightarrow> Inr (Some event, rest)
      | Inr (None, rest) \<Rightarrow>
          (if rest = [] then Inr (None, rest) else Inl (IncompleteMessage (length rest))))"

lemma decode_consumes:
  "decode crc parse tj s = Inr (Some ev, rest) \<Longrightarrow> length rest < length s"
  by (auto simp: decode_def Let_def MIN_FRAME_LENGTH_def split: if_splits sum.splits option.splits)

lemma decode_eof_consumes:
  "decode_eof crc parse tj s = Inr (Some ev, rest) \<Longrightarrow> length rest < length s"
  by (auto simp: decode_eof_def split: sum.splits option.splits if_splits dest: decode_consumes)

section \<open>Collecting the events of a response\<close>

datatype collect_error = TransportError string | DecodeError stream_error | StreamError string string

function drain ::
  "(u8 list \<Rightarrow> stream_error + kiro_event option \<times> u8 list) \<Rightarrow> u8 list \<Rightarrow> kiro_event list
     \<Rightarrow> collect_error + kiro_event list \<times> u8 list" where
  "drain step buffer out =
     (case step buffer of
        Inl e \<Rightarrow> Inl (DecodeError e)
      | Inr (None, rest) \<Rightarrow> Inr (out, rest)
      | Inr (Some event, rest) \<Rightarrow>
          (case event of
             ErrorEvent kind message \<Rightarrow> Inl (StreamError kind message)
           | _ \<Rightarrow> if length rest < length buffer then drain step rest (out @ [event])
                  else Inr (out @ [event], rest)))"
  by pat_completeness auto
termination
  by (relation "measure (\<lambda>(_, buffer, _). length buffer)") auto

declare drain.simps [simp del]

fun collect_chunks ::
  "(u8 list \<Rightarrow> u32) \<Rightarrow> (u8 list \<Rightarrow> json option) \<Rightarrow> (json \<Rightarrow> string) \<Rightarrow> (string + u8 list) list
     \<Rightarrow> u8 list \<Rightarrow> kiro_event list \<Rightarrow> collect_error + kiro_event list" where
  "collect_chunks crc parse to_json [] buffer out =
     (case drain (decode_eof crc parse to_json) buffer out of
        Inl e \<Rightarrow> Inl e | Inr (out', _) \<Rightarrow> Inr out')"
| "collect_chunks crc parse to_json (Inl e # chunks) buffer out = Inl (TransportError e)"
| "collect_chunks crc parse to_json (Inr chunk # chunks) buffer out =
     (case drain (decode crc parse to_json) (buffer @ chunk) out of
        Inl e \<Rightarrow> Inl e
      | Inr (out', buffer') \<Rightarrow> collect_chunks crc parse to_json chunks buffer' out')"

definition collect_events ::
  "(u8 list \<Rightarrow> u32) \<Rightarrow> (u8 list \<Rightarrow> json option) \<Rightarrow> (json \<Rightarrow> string) \<Rightarrow> (string + u8 list) list
     \<Rightarrow> collect_error + kiro_event list" where
  "collect_events crc parse to_json chunks = collect_chunks crc parse to_json chunks [] []"

end
