(* ===== verification/EventStreamCorrect.thy ===== *)
theory EventStreamCorrect
  imports EventStream
begin

text \<open>
  Correctness of the event-stream decoder and of the loop that collects a response's events.
  The decoder's contract with its client loop is the locale \<open>frame_decoder\<close>: an error or
  an event found at the front of the buffer stays found when more bytes arrive, and an
  incomplete frame leaves the buffer as it is. The loop's independence of how the transport
  splits the bytes into chunks is proved from that contract alone.
\<close>

section \<open>The contract of an incremental decoder\<close>

locale frame_decoder =
  fixes step :: "u8 list \<Rightarrow> stream_error + kiro_event option \<times> u8 list"
  assumes step_error: "step s = Inl e \<Longrightarrow> step (s @ t) = Inl e"
    and step_event: "step s = Inr (Some ev, r) \<Longrightarrow> step (s @ t) = Inr (Some ev, r @ t)"
    and step_wait: "step s = Inr (None, r) \<Longrightarrow> r = s"
    and step_progress: "step s = Inr (Some ev, r) \<Longrightarrow> length r < length s"
    and step_empty: "step [] = Inr (None, [])"
begin

lemma drain_wait: "step s = Inr (None, r) \<Longrightarrow> drain step s out = Inr (out, s)"
  by (subst drain.simps) (simp add: step_wait)

lemma drain_step:
  "step s = Inr (Some ev, r) \<Longrightarrow> drain step s out =
     (case ev of ErrorEvent k m \<Rightarrow> Inl (StreamError k m) | _ \<Rightarrow> drain step r (out @ [ev]))"
  by (subst drain.simps) (simp add: step_progress split: kiro_event.split)

lemma drain_fail: "step s = Inl e \<Longrightarrow> drain step s out = Inl (DecodeError e)"
  by (subst drain.simps) simp

text \<open>What remains in the buffer is an incomplete frame.\<close>

lemma drain_rest: "drain step s out = Inr (out', s') \<Longrightarrow> step s' = Inr (None, s')"
proof (induction "length s" arbitrary: s out rule: less_induct)
  case less
  show ?case
  proof (cases "step s")
    case (Inl e)
    with less.prems show ?thesis by (simp add: drain_fail)
  next
    case (Inr er)
    then obtain eo r where er: "step s = Inr (eo, r)" by (cases er) auto
    show ?thesis
    proof (cases eo)
      case None
      with er less.prems show ?thesis by (auto simp: drain_wait dest: step_wait)
    next
      case (Some ev)
      with er less.prems less.hyps [of r "out @ [ev]"] show ?thesis
        by (auto simp: drain_step step_progress split: kiro_event.splits)
    qed
  qed
qed

text \<open>Draining in two instalments is draining at once.\<close>

lemma drain_append:
  "drain step (s @ t) out =
     (case drain step s out of Inl e \<Rightarrow> Inl e | Inr (out', s') \<Rightarrow> drain step (s' @ t) out')"
proof (induction "length s" arbitrary: s out rule: less_induct)
  case less
  show ?case
  proof (cases "step s")
    case (Inl e)
    then show ?thesis by (simp add: drain_fail step_error)
  next
    case (Inr er)
    then obtain eo r where er: "step s = Inr (eo, r)" by (cases er) auto
    show ?thesis
    proof (cases eo)
      case None
      with er show ?thesis by (simp add: drain_wait)
    next
      case (Some ev)
      with er less.hyps [of r "out @ [ev]"] show ?thesis
        by (cases ev) (simp_all add: drain_step step_event step_progress)
    qed
  qed
qed

lemma drain_idle: "step s = Inr (None, s) \<Longrightarrow> drain step (s @ []) out = Inr (out, s)"
  by (simp add: drain_wait)

text \<open>Feeding the chunks one by one is draining their concatenation.\<close>

lemma drain_chunks:
  assumes "step b = Inr (None, b)"
  shows "foldl (\<lambda>acc c. case acc of Inl e \<Rightarrow> Inl e | Inr (out', b') \<Rightarrow> drain step (b' @ c) out')
           (Inr (out, b)) cs = drain step (b @ concat cs) out"
  using assms
proof (induction cs arbitrary: b out)
  case Nil
  then show ?case by (simp add: drain_wait)
next
  case (Cons c cs)
  have stuck: "foldl (\<lambda>acc c. case acc of Inl e \<Rightarrow> Inl e
      | Inr (out', b') \<Rightarrow> drain step (b' @ c) out') (Inl e) ds = Inl e" for e ds
    by (induction ds) simp_all
  have app: "drain step (b @ concat (c # cs)) out = (case drain step (b @ c) out of
      Inl e \<Rightarrow> Inl e | Inr (out', s') \<Rightarrow> drain step (s' @ concat cs) out')"
    using drain_append [of "b @ c" "concat cs" out] by simp
  show ?case
  proof (cases "drain step (b @ c) out")
    case (Inl e)
    then show ?thesis by (simp add: app stuck del: concat.simps)
  next
    case (Inr p)
    then obtain out' s' where p: "drain step (b @ c) out = Inr (out', s')" by (cases p) auto
    with drain_rest [OF this] Cons.IH [of s' out'] show ?thesis
      by (simp add: app del: concat.simps)
  qed
qed

end

section \<open>The decoder meets the contract\<close>

lemma slice_append: "to \<le> length xs \<Longrightarrow> slice (xs @ ys) from to = slice xs from to"
  by (auto simp: slice_def)

lemma decode_complete:
  assumes "MIN_FRAME_LENGTH \<le> length s" and "be_nat (slice s 0 4) \<le> length s"
  shows "decode crc parse tj (s @ t) = (case decode crc parse tj s of
     Inl e \<Rightarrow> Inl e | Inr (None, r) \<Rightarrow> Inr (None, r @ t) | Inr (Some ev, r) \<Rightarrow> Inr (Some ev, r @ t))"
proof -
  have sl: "slice (s @ t) 0 4 = slice s 0 4" "slice (s @ t) 4 8 = slice s 4 8"
    using assms(1) by (simp_all add: slice_append MIN_FRAME_LENGTH_def)
  let ?n = "be_nat (slice s 0 4)" and ?h = "be_nat (slice s 4 8)"
  show ?thesis
  proof (cases "MIN_FRAME_LENGTH \<le> ?n \<and> ?n \<le> MAX_FRAME_LENGTH \<and> \<not> ?n - MIN_FRAME_LENGTH < ?h")
    case True
    then have "12 + ?h \<le> length s" "?n - 4 \<le> length s"
      using assms(2) by (auto simp: MIN_FRAME_LENGTH_def)
    then have "slice (s @ t) 12 (12 + ?h) = slice s 12 (12 + ?h)"
      "slice (s @ t) (12 + ?h) (?n - 4) = slice s (12 + ?h) (?n - 4)"
      by (simp_all only: slice_append)
    with True assms show ?thesis
      by (simp add: decode_def Let_def sl split: sum.split option.split)
  next
    case False
    with assms show ?thesis by (auto simp: decode_def Let_def sl)
  qed
qed

lemma decode_error_append:
  assumes "decode crc parse tj s = Inl e"
  shows "decode crc parse tj (s @ t) = Inl e"
proof (cases "be_nat (slice s 0 4) \<le> length s \<and> MIN_FRAME_LENGTH \<le> length s")
  case True
  with assms show ?thesis by (simp add: decode_complete)
next
  case False
  have "MIN_FRAME_LENGTH \<le> length s"
    using assms by (auto simp: decode_def Let_def split: if_splits)
  moreover from this have "slice (s @ t) 0 4 = slice s 0 4" "slice (s @ t) 4 8 = slice s 4 8"
    by (simp_all add: slice_append MIN_FRAME_LENGTH_def)
  ultimately show ?thesis using assms False
    by (auto simp: decode_def Let_def split: if_splits)
qed

lemma decode_event_append:
  assumes "decode crc parse tj s = Inr (Some ev, r)"
  shows "decode crc parse tj (s @ t) = Inr (Some ev, r @ t)"
proof -
  have "be_nat (slice s 0 4) \<le> length s" "MIN_FRAME_LENGTH \<le> length s"
    using assms by (auto simp: decode_def Let_def split: if_splits)
  with assms show ?thesis by (simp add: decode_complete)
qed

lemma decode_wait: "decode crc parse tj s = Inr (None, r) \<Longrightarrow> r = s"
  by (auto simp: decode_def Let_def split: if_splits sum.splits option.splits)

interpretation es: frame_decoder "decode crc parse tj"
proof unfold_locales
  show "decode crc parse tj [] = Inr (None, [])"
    by (simp add: decode_def MIN_FRAME_LENGTH_def)
qed (auto intro: decode_error_append decode_event_append decode_consumes dest: decode_wait)

section \<open>Chunks\<close>

definition finish_stream ::
  "(u8 list \<Rightarrow> u32) \<Rightarrow> (u8 list \<Rightarrow> json option) \<Rightarrow> (json \<Rightarrow> string)
     \<Rightarrow> collect_error + kiro_event list \<times> u8 list \<Rightarrow> collect_error + kiro_event list" where
  "finish_stream crc parse tj acc = (case acc of Inl e \<Rightarrow> Inl e
     | Inr (out, b) \<Rightarrow> collect_chunks crc parse tj [] b out)"

lemma collect_chunks_foldl:
  "collect_chunks crc parse tj (map Inr cs) b out = finish_stream crc parse tj
     (foldl (\<lambda>acc c. case acc of Inl e \<Rightarrow> Inl e
        | Inr (out', b') \<Rightarrow> drain (decode crc parse tj) (b' @ c) out') (Inr (out, b)) cs)"
proof (induction cs arbitrary: b out)
  case (Cons c cs)
  have "foldl (\<lambda>acc c. case acc of Inl e \<Rightarrow> Inl e
      | Inr (out', b') \<Rightarrow> drain (decode crc parse tj) (b' @ c) out') (Inl e) ds = Inl e" for e ds
    by (induction ds) simp_all
  with Cons show ?case
    by (cases "drain (decode crc parse tj) (b @ c) out") (auto simp: finish_stream_def)
qed (simp add: finish_stream_def)

lemma collect_whole:
  "collect_events crc parse tj (map Inr cs) =
     finish_stream crc parse tj (drain (decode crc parse tj) (concat cs) [])"
  using es.drain_chunks [OF es.step_empty, of crc parse tj "[]" cs]
  by (simp add: collect_events_def collect_chunks_foldl)

text \<open>C7: The events of a response do not depend on how the transport cuts it into chunks: any
  sequence of chunks gives the same events, or the same error, as the whole body in one chunk.\<close>

theorem collect_events_chunk_independent:
  "collect_events crc parse to_json (map Inr chunks)
     = collect_events crc parse to_json [Inr (concat chunks)]"
  using collect_whole [of crc parse to_json chunks] collect_whole [of crc parse to_json "[concat chunks]"]
  by simp


section \<open>A reference encoder and the round trip\<close>

text \<open>The frame format of the AWS documentation, for string headers.\<close>

definition be32 :: "nat \<Rightarrow> u8 list" where
  "be32 n = [of_nat (n div 256 div 256 div 256), of_nat (n div 256 div 256), of_nat (n div 256), of_nat n]"

definition be16 :: "nat \<Rightarrow> u8 list" where
  "be16 n = [of_nat (n div 256), of_nat n]"

definition str_bytes :: "string \<Rightarrow> u8 list" where
  "str_bytes s = map (\<lambda>c. of_nat (of_char c)) s"

definition encode_header :: "string \<times> string \<Rightarrow> u8 list" where
  "encode_header h = of_nat (length (fst h)) # str_bytes (fst h) @ [7]
     @ be16 (length (snd h)) @ str_bytes (snd h)"

definition encode_headers :: "(string \<times> string) list \<Rightarrow> u8 list" where
  "encode_headers hs = concat (map encode_header hs)"

definition encode_frame :: "(u8 list \<Rightarrow> u32) \<Rightarrow> (string \<times> string) list \<Rightarrow> u8 list \<Rightarrow> u8 list" where
  "encode_frame crc hs payload =
     (let h = encode_headers hs;
          prelude = be32 (16 + length h + length payload) @ be32 (length h);
          front = prelude @ be32 (unat (crc prelude)) @ h @ payload
      in front @ be32 (unat (crc front)))"

definition header_ok :: "string \<times> string \<Rightarrow> bool" where
  "header_ok h \<longleftrightarrow> length (fst h) \<le> 255 \<and> length (snd h) < 65536
     \<and> utf8_valid (map of_char (fst h)) \<and> utf8_valid (map of_char (snd h))"

definition header_map :: "(string \<times> string) list \<Rightarrow> (string, string) hmap" where
  "header_map hs = fold (\<lambda>h m. hm_insert (fst h) (snd h) m) hs []"

lemma unat_of_nat_u8: "unat (of_nat n :: u8) = n mod 256"
  by (simp add: unat_of_nat)

lemma length_be [simp]: "length (be32 n) = 4" "length (be16 n) = 2"
  by (simp_all add: be32_def be16_def)

lemma be16_nat: "n < 65536 \<Longrightarrow> be_nat (be16 n) = n"
  by (simp add: be_nat_def be16_def unat_of_nat_u8 mod_less)

lemma be32_nat:
  assumes "n < 2 ^ 32"
  shows "be_nat (be32 n) = n"
proof -
  have "n div 256 div 256 div 256 < 256"
    using assms by (simp add: div_mult2_eq [symmetric] less_mult_imp_div_less)
  then show ?thesis
    by (simp add: be_nat_def be32_def unat_of_nat_u8)
qed

lemma str_bytes_simps [simp]: "length (str_bytes s) = length s" "str_bytes [] = []"
  by (simp_all add: str_bytes_def)

lemma unat_str_byte: "unat (of_nat (of_char c) :: u8) = of_char c"
  by (simp add: unat_of_nat_u8 of_char_mod_256)

lemma from_utf8_str_bytes:
  assumes "utf8_valid (map of_char s)"
  shows "from_utf8 (str_bytes s) = Some s"
proof -
  have "map unat (str_bytes s) = map of_char s"
    by (simp add: str_bytes_def unat_str_byte)
  moreover have "map (\<lambda>b. char_of (unat b)) (str_bytes s) = s"
    by (simp add: str_bytes_def unat_str_byte comp_def)
  ultimately show ?thesis using assms by (simp add: from_utf8_def)
qed

lemma slice_mid: "length a = from \<Longrightarrow> from + length b = to \<Longrightarrow> slice (a @ b @ c) from to = b"
  by (auto simp: slice_def)

lemma parse_headers_loop_string:
  assumes "off < length bs" and "unat (bs ! off) = nl" and "p = off + 1" and "q = p + nl + 1"
    and "q \<le> length bs" and "from_utf8 (slice bs p (p + nl)) = Some name"
    and "header_value bs (unat (bs ! (p + nl))) q = Inr (Some v, r)" and "r \<le> length bs"
  shows "parse_headers_loop bs off acc = parse_headers_loop bs r (hm_insert name v acc)"
  by (subst parse_headers_loop.simps) (use assms in \<open>simp add: Let_def\<close>)

lemma parse_header_step:
  assumes "header_ok h"
  shows "parse_headers_loop (pre @ encode_header h @ post) (length pre) acc
    = parse_headers_loop (pre @ encode_header h @ post) (length (pre @ encode_header h))
        (hm_insert (fst h) (snd h) acc)"
proof -
  obtain n v where h: "h = (n, v)" by (cases h)
  have ok: "length n \<le> 255" "length v < 65536"
    and u: "utf8_valid (map of_char n)" "utf8_valid (map of_char v)"
    using assms by (simp_all add: header_ok_def h)
  define bs where "bs = pre @ encode_header h @ post"
  define o1 where "o1 = length pre + 1"
  define o2 where "o2 = o1 + length n + 1"
  have bs: "bs = pre @ of_nat (length n) # str_bytes n @ 7 # be16 (length v) @ str_bytes v @ post"
    by (simp add: bs_def encode_header_def h)
  have len: "length bs = o2 + 2 + length v + length post" "length pre < length bs"
    by (simp_all add: bs o1_def o2_def)
  have name_len: "unat (bs ! length pre) = length n"
    using ok by (simp add: bs nth_append unat_of_nat_u8)
  have name: "slice bs o1 (o1 + length n) = str_bytes n"
    using slice_mid [of "pre @ [of_nat (length n)]" o1 "str_bytes n" "o1 + length n"
        "7 # be16 (length v) @ str_bytes v @ post"] by (simp add: bs o1_def)
  have kind: "unat (bs ! (o1 + length n)) = 7"
    by (simp add: bs o1_def nth_append)
  have vlen: "slice bs o2 (o2 + 2) = be16 (length v)"
    using slice_mid [of "pre @ of_nat (length n) # str_bytes n @ [7]" o2 "be16 (length v)" "o2 + 2"
        "str_bytes v @ post"] by (simp add: bs o1_def o2_def)
  have val: "slice bs (o2 + 2) (o2 + 2 + length v) = str_bytes v"
    using slice_mid [of "pre @ of_nat (length n) # str_bytes n @ 7 # be16 (length v)" "o2 + 2"
        "str_bytes v" "o2 + 2 + length v" post] by (simp add: bs o1_def o2_def)
  have hv: "header_value bs 7 o2 = Inr (Some v, o2 + 2 + length v)"
    using len val ok by (simp add: header_value_def vlen be16_nat from_utf8_str_bytes u Let_def
        del: add_2_eq_Suc add_2_eq_Suc')
  have fin: "length (pre @ encode_header h) = o2 + 2 + length v"
    by (simp add: encode_header_def h o1_def o2_def)
  have "parse_headers_loop bs (length pre) acc
      = parse_headers_loop bs (o2 + 2 + length v) (hm_insert n v acc)"
    by (rule parse_headers_loop_string [where nl = "length n" and p = o1 and q = o2])
      (use len kind hv name name_len in \<open>simp_all add: o1_def o2_def from_utf8_str_bytes u\<close>)
  then show ?thesis
    unfolding fin [symmetric] by (simp only: bs_def h fst_conv snd_conv)
qed

lemma parse_headers_loop_encode:
  assumes "\<And>h. h \<in> set hs \<Longrightarrow> header_ok h"
  shows "parse_headers_loop (pre @ encode_headers hs) (length pre) acc
    = Inr (fold (\<lambda>h m. hm_insert (fst h) (snd h) m) hs acc)"
  using assms
proof (induction hs arbitrary: pre acc)
  case Nil
  then show ?case by (subst parse_headers_loop.simps) (simp add: encode_headers_def)
next
  case (Cons h hs)
  have "parse_headers_loop (pre @ encode_headers (h # hs)) (length pre) acc
    = parse_headers_loop ((pre @ encode_header h) @ encode_headers hs) (length (pre @ encode_header h))
        (hm_insert (fst h) (snd h) acc)"
    using parse_header_step [of h pre "encode_headers hs" acc] Cons.prems
    by (simp add: encode_headers_def)
  also have "\<dots> = Inr (fold (\<lambda>h m. hm_insert (fst h) (snd h) m) (h # hs) acc)"
    using Cons.IH [of "pre @ encode_header h" "hm_insert (fst h) (snd h) acc"] Cons.prems by simp
  finally show ?case .
qed

lemma parse_headers_encode:
  "(\<And>h. h \<in> set hs \<Longrightarrow> header_ok h) \<Longrightarrow> parse_headers (encode_headers hs) = Inr (header_map hs)"
  using parse_headers_loop_encode [of hs "[]" "[]"]
  by (simp add: parse_headers_def header_map_def)


lemma length_encode_frame:
  "length (encode_frame crc hs payload) = 16 + length (encode_headers hs) + length payload"
  by (simp add: encode_frame_def Let_def)

text \<open>The fields of an encoded frame, whatever follows it in the buffer.\<close>

lemma encode_frame_fields:
  fixes crc hs payload rest
  defines "h \<equiv> encode_headers hs" and "s \<equiv> encode_frame crc hs payload @ rest"
  assumes "16 + length h + length payload < 2 ^ 32"
  shows "be_nat (slice s 0 4) = 16 + length h + length payload"
    and "be_nat (slice s 4 8) = length h"
    and "slice s 12 (12 + length h) = h"
    and "slice s (12 + length h) (16 + length h + length payload - 4) = payload"
    and "validate_crc crc (take (16 + length h + length payload) s) = Inr ()"
proof -
  define prelude where "prelude = be32 (16 + length h + length payload) @ be32 (length h)"
  define front where "front = prelude @ be32 (unat (crc prelude)) @ h @ payload"
  have s: "s = front @ be32 (unat (crc front)) @ rest"
    by (simp add: s_def encode_frame_def h_def front_def prelude_def Let_def)
  have lens: "length prelude = 8" "length front = 12 + length h + length payload"
    by (simp_all add: prelude_def front_def)
  show "be_nat (slice s 0 4) = 16 + length h + length payload"
    using assms(3) slice_mid [of "[]" 0 "be32 (16 + length h + length payload)" 4]
    by (simp add: s front_def prelude_def be32_nat)
  show "be_nat (slice s 4 8) = length h"
    using assms(3) slice_mid [of "be32 (16 + length h + length payload)" 4 "be32 (length h)" 8]
    by (simp add: s front_def prelude_def be32_nat)
  show "slice s 12 (12 + length h) = h"
    using slice_mid [of "prelude @ be32 (unat (crc prelude))" 12 h "12 + length h"] lens
    by (simp add: s front_def)
  show "slice s (12 + length h) (16 + length h + length payload - 4) = payload"
    using slice_mid [of "prelude @ be32 (unat (crc prelude)) @ h" "12 + length h" payload
        "12 + length h + length payload"] lens
    by (simp add: s front_def add.assoc)
  have fr: "take (16 + length h + length payload) s = front @ be32 (unat (crc front))"
    using lens by (simp add: s)
  have u: "be_nat (be32 (unat c)) = unat c" for c :: u32
    by (rule be32_nat) (use unsigned_less [of c] in simp)
  have "slice (front @ be32 (unat (crc front))) 8 12 = be32 (unat (crc prelude))"
    using slice_mid [of prelude 8 "be32 (unat (crc prelude))" 12] lens
    by (simp add: front_def)
  moreover have "slice (front @ be32 (unat (crc front))) (length front) (length front + 4)
      = be32 (unat (crc front))"
    using slice_mid [of front "length front" "be32 (unat (crc front))" "length front + 4" "[]"]
    by simp
  moreover have "take 8 (front @ be32 (unat (crc front))) = prelude"
    using lens by (simp add: front_def)
  ultimately show "validate_crc crc (take (16 + length h + length payload) s) = Inr ()"
    unfolding fr validate_crc_def by (simp add: Let_def u)
qed

definition frame_ok ::
  "(u8 list \<Rightarrow> json option) \<Rightarrow> (string \<times> string) list \<times> u8 list \<Rightarrow> bool" where
  "frame_ok parse f \<longleftrightarrow> list_all header_ok (fst f)
     \<and> 16 + length (encode_headers (fst f)) + length (snd f) \<le> MAX_FRAME_LENGTH
     \<and> parse (snd f) \<noteq> None"

definition frame_event ::
  "(u8 list \<Rightarrow> json option) \<Rightarrow> (json \<Rightarrow> string) \<Rightarrow> (string \<times> string) list \<times> u8 list \<Rightarrow> kiro_event" where
  "frame_event parse tj f = to_event tj (header_map (fst f)) (the (parse (snd f)))"

lemma decode_encoded:
  assumes "frame_ok parse (hs, payload)"
  shows "decode crc parse tj (encode_frame crc hs payload @ rest)
    = Inr (Some (frame_event parse tj (hs, payload)), rest)"
proof -
  let ?n = "16 + length (encode_headers hs) + length payload"
  obtain v where v: "parse payload = Some v" using assms by (auto simp: frame_ok_def)
  have n: "?n \<le> MAX_FRAME_LENGTH" and hs: "\<And>h. h \<in> set hs \<Longrightarrow> header_ok h"
    using assms by (auto simp: frame_ok_def list_all_iff)
  from n have "?n < 2 ^ 32" by (simp add: MAX_FRAME_LENGTH_def)
  note fl = encode_frame_fields [OF this, of crc rest]
  have len: "length (encode_frame crc hs payload @ rest) = ?n + length rest"
    by (simp add: length_encode_frame)
  have d: "drop ?n (encode_frame crc hs payload @ rest) = rest"
    by (simp add: length_encode_frame)
  show ?thesis
    unfolding decode_def Let_def fl len
    using n d by (simp add: fl parse_headers_encode [OF hs] v frame_event_def
        MIN_FRAME_LENGTH_def del: drop_append)
qed


section \<open>Streams of frames\<close>

definition is_error_event :: "kiro_event \<Rightarrow> bool" where
  "is_error_event ev = (case ev of ErrorEvent _ _ \<Rightarrow> True | _ \<Rightarrow> False)"

definition encode_stream ::
  "(u8 list \<Rightarrow> u32) \<Rightarrow> ((string \<times> string) list \<times> u8 list) list \<Rightarrow> u8 list" where
  "encode_stream crc frames = concat (map (\<lambda>f. encode_frame crc (fst f) (snd f)) frames)"

lemma drain_encoded:
  assumes "list_all (frame_ok parse) frames"
    and "list_all (\<lambda>f. \<not> is_error_event (frame_event parse tj f)) frames"
  shows "drain (decode crc parse tj) (encode_stream crc frames @ rest) out
    = drain (decode crc parse tj) rest (out @ map (frame_event parse tj) frames)"
  using assms
proof (induction frames arbitrary: out)
  case Nil
  then show ?case by (simp add: encode_stream_def)
next
  case (Cons f fs)
  have "drain (decode crc parse tj) (encode_frame crc (fst f) (snd f) @ encode_stream crc fs @ rest) out
    = drain (decode crc parse tj) (encode_stream crc fs @ rest) (out @ [frame_event parse tj f])"
    using Cons.prems decode_encoded [of parse "fst f" "snd f" crc tj]
    by (subst es.drain_step) (auto simp: is_error_event_def split: kiro_event.splits)
  with Cons show ?case by (simp add: encode_stream_def)
qed

lemma drain_eof_rest:
  assumes "decode crc parse tj rest = Inr (None, rest)"
  shows "drain (decode_eof crc parse tj) rest out
    = (if rest = [] then Inr (out, []) else Inl (DecodeError (IncompleteMessage (length rest))))"
  by (subst drain.simps) (simp add: decode_eof_def assms)

text \<open>An incomplete frame at the front of the buffer is waited for.\<close>

lemma decode_prefix_waits:
  assumes "frame_ok parse (hs, payload)" and "encode_frame crc hs payload = s @ t" and "t \<noteq> []"
  shows "decode crc parse tj s = Inr (None, s)"
proof -
  let ?n = "16 + length (encode_headers hs) + length payload"
  from assms(1) have n: "?n < 2 ^ 32" "?n \<le> MAX_FRAME_LENGTH"
    by (simp_all add: frame_ok_def MAX_FRAME_LENGTH_def)
  have "length s + length t = ?n"
    using assms(2) length_encode_frame [of crc hs payload] by simp
  moreover have "length t > 0" using assms(3) by simp
  ultimately have short: "length s < ?n" by linarith
  note fl = encode_frame_fields(1,2) [OF n(1), of crc "[]"]
  have "slice s 0 4 = slice (s @ t) 0 4" "slice s 4 8 = slice (s @ t) 4 8" if "16 \<le> length s"
    using that by (simp_all add: slice_append)
  with fl short n(2) show ?thesis
    unfolding decode_def Let_def MIN_FRAME_LENGTH_def
    by (auto simp: assms(2) append_Nil2)
qed

text \<open>A concrete checksum, JSON parser and response for the witnesses.\<close>

definition demo_crc :: "u8 list \<Rightarrow> u32" where
  "demo_crc bs = of_nat (length bs)"

definition demo_parse :: "u8 list \<Rightarrow> json option" where
  "demo_parse bs = (if bs = [1] then Some (JObject [(''content'', JString ''hi'')])
     else if bs = [2] then Some (JObject [(''__type'', JString ''Throttled''), (''message'', JString ''slow down'')])
     else None)"

definition demo_frame :: "(string \<times> string) list \<times> u8 list" where
  "demo_frame = ([('':event-type'', ''assistantResponseEvent'')], [1])"

definition demo_bad :: "(string \<times> string) list \<times> u8 list" where
  "demo_bad = ([], [2])"

lemma demo_ok:
  "frame_ok demo_parse demo_frame" "frame_ok demo_parse demo_bad"
  "frame_event demo_parse tj demo_frame = AssistantResponse ''hi''"
  "frame_event demo_parse tj demo_bad = ErrorEvent ''Throttled'' ''slow down''"
  by (simp_all add: frame_ok_def demo_frame_def demo_bad_def demo_parse_def header_ok_def
      encode_headers_def encode_header_def MAX_FRAME_LENGTH_def frame_event_def header_map_def
      to_event_def classified_event_def nested_str_def get_str_def of_char_def)

lemma encode_frame_nonempty: "encode_frame crc hs payload \<noteq> []"
  using length_encode_frame [of crc hs payload] by auto



text \<open>C35: The first error frame ends the stream: if well-formed frames without an error precede it, their events are dropped, nothing after
  the error frame is looked at, whatever it is, and the caller gets the frame's kind and message, for every chunking.\<close>

theorem collect_events_stops_at_error:
  assumes "list_all (frame_ok parse) frames"
    and "list_all (\<lambda>f. \<not> is_error_event (frame_event parse to_json f)) frames"
    and "frame_ok parse bad" and "frame_event parse to_json bad = ErrorEvent kind message"
    and "concat chunks = encode_stream crc frames @ encode_frame crc (fst bad) (snd bad) @ rest"
  shows "collect_events crc parse to_json (map Inr chunks) = Inl (StreamError kind message)"
proof -
  have "decode crc parse to_json (encode_frame crc (fst bad) (snd bad) @ rest)
      = Inr (Some (ErrorEvent kind message), rest)"
    using decode_encoded [of parse "fst bad" "snd bad" crc to_json rest] assms(3,4) by simp
  then show ?thesis
    by (simp add: collect_whole finish_stream_def assms(5) drain_encoded [OF assms(1,2)] es.drain_step)
qed

theorem collect_events_stops_at_error_witness:
  "collect_events demo_crc demo_parse (\<lambda>_. []) (map Inr [encode_stream demo_crc [demo_frame]
       @ encode_frame demo_crc (fst demo_bad) (snd demo_bad) @ [9, 9]])
     = Inl (StreamError ''Throttled'' ''slow down'')"
  by (rule collect_events_stops_at_error [where frames = "[demo_frame]" and bad = demo_bad and rest = "[9, 9]"])
    (simp_all add: demo_ok is_error_event_def encode_stream_def)

section \<open>Error frames\<close>

lemma citation_event_no_error [simp]: "\<not> is_error_event (citation_event v w l k)"
  by (simp add: citation_event_def is_error_event_def Let_def)

lemma classified_event_error:
  "is_error_event (classified_event tj t v) \<longleftrightarrow> t = ''invalidStateEvent''"
  unfolding classified_event_def Let_def
  by (simp add: is_error_event_def citation_event_no_error [unfolded is_error_event_def]
      split: option.split)

text \<open>A frame passes as an ordinary event exactly when its headers mark no exception, its body
  has no nonempty \<open>__type\<close> or \<open>_type\<close> and no non-null \<open>error\<close>, and its event type (from the
  headers, else detected from the body) is not \<open>invalidStateEvent\<close>; every other frame is an error
  event, which ends the stream.\<close>

theorem to_event_ordinary_iff:
  "\<not> is_error_event (to_event to_json headers value) \<longleftrightarrow>
     hm_get headers '':message-type'' \<noteq> Some ''exception''
     \<and> hm_get headers '':exception-type'' = None
     \<and> opt_filter (\<lambda>s. s \<noteq> []) (or_else (get_str value ''__type'') (get_str value ''_type'')) = None
     \<and> opt_filter (\<lambda>e. \<not> is_null e) (v_get value ''error'') = None
     \<and> unwrap_or (or_else (opt_filter (\<lambda>s. s \<noteq> []) (hm_get headers '':event-type''))
          (detected_event_type value)) [] \<noteq> ''invalidStateEvent''"
  unfolding to_event_def Let_def
  by (cases "opt_filter (\<lambda>s. s \<noteq> []) (or_else (get_str value ''__type'') (get_str value ''_type''))";
      cases "opt_filter (\<lambda>e. \<not> is_null e) (v_get value ''error'')")
    (simp_all add: classified_event_error, auto simp: is_error_event_def)

end
