(* ===== verification/Account.thy ===== *)
theory Account
  imports Values
begin

text \<open>
  The account model of \<open>crates/kproxy-core/src/account.rs\<close> and the provider identifiers of
  \<open>provider.rs\<close>. Unix times are \<open>i64\<close>, kept as integers with the saturation the code
  asks for.
\<close>

section \<open>Saturating 64-bit arithmetic\<close>

definition i64_min :: int where "i64_min = - (2 ^ 63)"

definition i64_max :: int where "i64_max = 2 ^ 63 - 1"

definition i64_saturating_sub :: "int \<Rightarrow> int \<Rightarrow> int" where
  "i64_saturating_sub a b = max i64_min (min i64_max (a - b))"

definition i64_saturating_add :: "int \<Rightarrow> int \<Rightarrow> int" where
  "i64_saturating_add a b = max i64_min (min i64_max (a + b))"

definition is_i64 :: "int \<Rightarrow> bool" where
  "is_i64 x \<longleftrightarrow> i64_min \<le> x \<and> x \<le> i64_max"

section \<open>Accounts\<close>

datatype auth_method = Idc | Social | ApiKey

datatype subscription_kind = Free | Pro | ProPlus | Power | Enterprise | Teams | UnknownKind

record credentials =
  cr_access_token :: string
  cr_refresh_token :: "string option"
  cr_client_id :: "string option"
  cr_client_secret :: "string option"
  cr_region :: string
  cr_expires_at :: int
  cr_auth_method :: auth_method

record usage =
  us_current :: f64
  us_limit :: f64
  us_overage_cap :: "f64 option"
  us_percent_used :: f64
  us_next_reset_date :: "string option"
  us_updated_at :: int

definition limit_without_overage :: "usage \<Rightarrow> f64" where
  "limit_without_overage u =
     f_max (f_sub (us_limit u) (unwrap_or (us_overage_cap u) (Fin 0))) (Fin 0)"

record subscription =
  sb_kind :: subscription_kind
  sb_title :: "string option"
  sb_raw_type :: "string option"
  sb_expires_at :: "int option"
  sb_days_remaining :: "int option"

record account =
  ac_id :: string
  ac_email :: string
  ac_label :: "string option"
  ac_enabled :: bool
  ac_machine_id :: string
  ac_profile_arn :: "string option"
  ac_upstream_user_id :: "string option"
  ac_credentials :: credentials
  ac_usage :: "usage option"
  ac_subscription :: "subscription option"
  ac_tags :: "string list"
  ac_created_at :: int
  ac_credit_exhausted :: bool

definition display_name :: "account \<Rightarrow> string" where
  "display_name a =
     unwrap_or (opt_filter (\<lambda>l. l \<noteq> []) (map_option trim (ac_label a))) (ac_email a)"

definition is_token_expiring :: "account \<Rightarrow> int \<Rightarrow> int \<Rightarrow> bool" where
  "is_token_expiring a now before_secs \<longleftrightarrow>
     cr_auth_method (ac_credentials a) \<noteq> ApiKey
     \<and> i64_saturating_sub (cr_expires_at (ac_credentials a)) now \<le> before_secs"

lemma limit_without_overage_nonneg: "f_le (Fin 0) (limit_without_overage u)"
  unfolding limit_without_overage_def by (rule f_max_ge2) simp

text \<open>The saturation never changes the answer: for \<open>i64\<close> inputs the comparison is exact.\<close>

lemma is_token_expiring_exact:
  assumes "is_i64 before_secs"
  shows "is_token_expiring a now before_secs \<longleftrightarrow>
     cr_auth_method (ac_credentials a) \<noteq> ApiKey
     \<and> (cr_expires_at (ac_credentials a) - now \<le> before_secs \<or> before_secs = i64_max)"
  using assms by (auto simp: is_token_expiring_def i64_saturating_sub_def is_i64_def min_def max_def
      i64_min_def i64_max_def)

section \<open>Provider identifiers\<close>

definition ALL_PROVIDERS :: string where
  "ALL_PROVIDERS = ''all''"

datatype provider_id_error = ReservedId | BadLength | BadFirstCharacter | BadCharacter

fun provider_id_parse :: "string \<Rightarrow> provider_id_error + string" where
  "provider_id_parse value =
     (if value = ALL_PROVIDERS then Inl ReservedId
      else if value = [] \<or> 64 < length value then Inl BadLength
      else case value of [] \<Rightarrow> Inl BadFirstCharacter
        | first # rest \<Rightarrow>
            if \<not> is_ascii_lowercase first then Inl BadFirstCharacter
            else if \<not> list_all (\<lambda>b. is_ascii_lowercase b \<or> is_ascii_digit b \<or> b = CHR ''-'') rest
            then Inl BadCharacter
            else Inr value)"

declare provider_id_parse.simps [simp del]

text \<open>The documented language of identifiers: \<open>^[a-z][a-z0-9-]{0,63}$\<close>, without \<open>all\<close>.\<close>

definition provider_id_language :: "string \<Rightarrow> bool" where
  "provider_id_language s \<longleftrightarrow> (\<exists>c cs. s = c # cs \<and> is_ascii_lowercase c \<and> length cs \<le> 63
     \<and> (\<forall>b \<in> set cs. is_ascii_lowercase b \<or> is_ascii_digit b \<or> b = CHR ''-'')) \<and> s \<noteq> ''all''"

text \<open>Parsing a provider identifier accepts exactly the documented language, returns the input
  unchanged, and so never yields the reserved selector \<open>all\<close> or a string with a path separator.\<close>

theorem provider_id_parse_language:
  "provider_id_parse s = Inr r \<longleftrightarrow> r = s \<and> provider_id_language s"
  by (cases s) (auto simp: provider_id_parse.simps provider_id_language_def ALL_PROVIDERS_def
      list_all_iff split: if_splits)

end
