(* ===== verification/Catalog.thy ===== *)
theory Catalog
  imports Account
begin

text \<open>
  \<open>crates/kproxy-kiro/src/catalog.rs\<close>: the built-in model catalog and the tier matrix used
  while dynamic model discovery has no answer. Slicing a string at a byte offset that is not a
  character boundary panics in Rust; the functions that slice return \<^const>\<open>None\<close> there.
\<close>

record token_limits =
  tl_max_input_tokens :: "u32 option"
  tl_max_output_tokens :: "u32 option"

record model_info =
  mo_model_id :: string
  mo_model_name :: string
  mo_description :: string
  mo_rate_multiplier :: "f64 option"
  mo_token_limits :: "token_limits option"
  mo_additional_schema :: "json option"

record static_model =
  sm_id :: string
  sm_name :: string
  sm_description :: string
  sm_rate_multiplier :: f64
  sm_free_tier :: bool

definition mk_static_model :: "string \<Rightarrow> string \<Rightarrow> rat \<Rightarrow> bool \<Rightarrow> static_model" where
  "mk_static_model i n rate free =
     \<lparr>sm_id = i, sm_name = n, sm_description = ''Kiro upstream model (static fallback)'',
      sm_rate_multiplier = Fin rate, sm_free_tier = free\<rparr>"

definition STATIC_MODEL_CATALOG :: "static_model list" where
  "STATIC_MODEL_CATALOG =
     [mk_static_model ''gpt-5.6-sol'' ''GPT-5.6 Sol'' (24/10) False,
      mk_static_model ''gpt-5.6-terra'' ''GPT-5.6 Terra'' 1 False,
      mk_static_model ''gpt-5.6-luna'' ''GPT-5.6 Luna'' (1/10) False,
      mk_static_model ''claude-opus-5'' ''Claude Opus 5'' (22/10) False,
      mk_static_model ''claude-opus-4.8'' ''Claude Opus 4.8'' (22/10) False,
      mk_static_model ''claude-opus-4.7'' ''Claude Opus 4.7'' (22/10) False,
      mk_static_model ''claude-opus-4.6'' ''Claude Opus 4.6'' (22/10) False,
      mk_static_model ''claude-opus-4.5'' ''Claude Opus 4.5'' (22/10) False,
      mk_static_model ''claude-sonnet-5'' ''Claude Sonnet 5'' (13/10) False,
      mk_static_model ''claude-sonnet-4.6'' ''Claude Sonnet 4.6'' (13/10) False,
      mk_static_model ''claude-sonnet-4.5'' ''Claude Sonnet 4.5'' (13/10) True,
      mk_static_model ''claude-sonnet-4'' ''Claude Sonnet 4'' (13/10) True,
      mk_static_model ''auto'' ''Auto'' 1 True,
      mk_static_model ''claude-haiku-4.5'' ''Claude Haiku 4.5'' (4/10) False,
      mk_static_model ''deepseek-3.2'' ''DeepSeek 3.2'' (25/100) True,
      mk_static_model ''minimax-m2.5'' ''MiniMax M2.5'' (25/100) True,
      mk_static_model ''glm-5'' ''GLM-5'' (5/10) True,
      mk_static_model ''minimax-m2.1'' ''MiniMax M2.1'' (15/100) True,
      mk_static_model ''qwen3-coder-next'' ''Qwen3 Coder Next'' (5/100) True]"

definition static_models :: "model_info list" where
  "static_models = map (\<lambda>m.
     \<lparr>mo_model_id = sm_id m, mo_model_name = sm_name m, mo_description = sm_description m,
      mo_rate_multiplier = Some (sm_rate_multiplier m), mo_token_limits = None,
      mo_additional_schema = None\<rparr>) STATIC_MODEL_CATALOG"

definition normalize_model :: "string \<Rightarrow> string" where
  "normalize_model model =
     join ''-'' (filter (\<lambda>part. part \<noteq> []) (split_char (CHR ''-'')
       (map (\<lambda>c. if c = CHR ''.'' \<or> c = CHR ''_'' then CHR ''-'' else c)
         (to_ascii_lowercase (trim model)))))"

text \<open>\<open>suffix[..8]\<close> panics (\<^const>\<open>None\<close>) unless byte 8 is a character boundary.\<close>

definition dated_version_suffix :: "string \<Rightarrow> string \<Rightarrow> bool option" where
  "dated_version_suffix requested catalog_id =
     (case Option.bind (strip_prefix requested catalog_id) (\<lambda>s. strip_prefix s ''-'') of
        None \<Rightarrow> Some False
      | Some version \<Rightarrow>
          if starts_with version ''v'' then Some True
          else if length version < 8 then Some False
          else if \<not> is_char_boundary version 8 then None
          else Some (list_all is_ascii_digit (take 8 version)))"

definition model_matches :: "string \<Rightarrow> string \<Rightarrow> bool option" where
  "model_matches requested candidate =
     (if requested = candidate then Some True else dated_version_suffix requested candidate)"

text \<open>\<open>Iterator::any\<close> over a predicate that may panic.\<close>

fun any_opt :: "('a \<Rightarrow> bool option) \<Rightarrow> 'a list \<Rightarrow> bool option" where
  "any_opt P [] = Some False"
| "any_opt P (x # xs) = (case P x of None \<Rightarrow> None | Some True \<Rightarrow> Some True
     | Some False \<Rightarrow> any_opt P xs)"

fun paid :: "subscription_kind option \<Rightarrow> bool" where
  "paid (Some k) \<longleftrightarrow> k = Pro \<or> k = ProPlus \<or> k = Power \<or> k = Enterprise \<or> k = Teams"
| "paid None \<longleftrightarrow> False"

definition static_subscription_can_serve :: "subscription_kind option \<Rightarrow> string \<Rightarrow> bool option" where
  "static_subscription_can_serve subscr requested_model =
     (if paid subscr then Some True
      else let requested = normalize_model requested_model in
        any_opt (\<lambda>m. if sm_free_tier m then model_matches requested (normalize_model (sm_id m))
                     else Some False) STATIC_MODEL_CATALOG)"

text \<open>\<open>Iterator::filter\<close> over a predicate that may panic.\<close>

fun filter_opt :: "('a \<Rightarrow> bool option) \<Rightarrow> 'a list \<Rightarrow> 'a list option" where
  "filter_opt P [] = Some []"
| "filter_opt P (x # xs) = (case P x of None \<Rightarrow> None
     | Some b \<Rightarrow> map_option (\<lambda>ys. if b then x # ys else ys) (filter_opt P xs))"

definition static_models_for_subscription :: "subscription_kind option \<Rightarrow> model_info list option" where
  "static_models_for_subscription subscr =
     filter_opt (\<lambda>m. static_subscription_can_serve subscr (mo_model_id m)) static_models"

definition static_models_for_account :: "account \<Rightarrow> model_info list option" where
  "static_models_for_account a =
     (if cr_auth_method (ac_credentials a) = ApiKey then Some static_models
      else static_models_for_subscription (map_option sb_kind (ac_subscription a)))"

section \<open>What the tier matrix grants\<close>

lemma any_opt_True: "any_opt P xs = Some True \<Longrightarrow> \<exists>x \<in> set xs. P x = Some True"
  by (induction xs) (auto split: option.splits bool.splits)

lemma any_opt_no_panic: "(\<And>x. x \<in> set xs \<Longrightarrow> P x \<noteq> None) \<Longrightarrow> any_opt P xs \<noteq> None"
  by (induction xs) (auto split: option.splits bool.splits)

definition ascii :: "string \<Rightarrow> bool" where
  "ascii s \<longleftrightarrow> (\<forall>c \<in> set s. byte c < 128)"

text \<open>A dated or versioned name of a catalog entry: the entry, \<open>-\<close>, then \<open>v...\<close> or eight digits.\<close>

definition names_model :: "string \<Rightarrow> string \<Rightarrow> bool" where
  "names_model requested candidate \<longleftrightarrow> requested = candidate
     \<or> (\<exists>version. requested = candidate @ ''-'' @ version
          \<and> (take 1 version = ''v'' \<or> 8 \<le> length version \<and> list_all is_ascii_digit (take 8 version)))"

lemma strip_dash:
  "Option.bind (strip_prefix s p) (\<lambda>s. strip_prefix s ''-'') = Some v \<longleftrightarrow> s = p @ ''-'' @ v"
  by (auto simp: bind_eq_Some_conv strip_prefix_Some)

lemma model_matches_ascii:
  assumes "ascii requested"
  shows "model_matches requested m = Some (names_model requested m)"
proof (cases "Option.bind (strip_prefix requested m) (\<lambda>s. strip_prefix s ''-'')")
  case None
  then have "requested \<noteq> m @ ''-'' @ v" for v by (metis option.distinct(1) strip_dash)
  with None show ?thesis
    by (simp add: model_matches_def dated_version_suffix_def names_model_def)
next
  case (Some v)
  then have r: "requested = m @ ''-'' @ v" by (simp add: strip_dash)
  have "is_char_boundary v 8" if "8 \<le> length v"
  proof (cases "length v = 8")
    case False
    with that have "v ! 8 \<in> set requested" by (simp add: r)
    with assms have "byte (v ! 8) < 128" by (simp add: ascii_def)
    with that False show ?thesis by (simp add: is_char_boundary_def)
  qed (simp add: is_char_boundary_def)
  then have "dated_version_suffix requested m
      = Some (take 1 v = ''v'' \<or> 8 \<le> length v \<and> list_all is_ascii_digit (take 8 v))"
    by (auto simp: dated_version_suffix_def Some starts_with_def)
  then show ?thesis
    by (simp add: model_matches_def names_model_def r)
qed

lemma any_opt_total:
  "(\<And>x. x \<in> set xs \<Longrightarrow> P x = Some (Q x)) \<Longrightarrow> any_opt P xs = Some (\<exists>x \<in> set xs. Q x)"
  by (induction xs) (auto split: bool.split)

lemma filter_opt_total:
  "(\<And>x. x \<in> set xs \<Longrightarrow> P x = Some (Q x)) \<Longrightarrow> filter_opt P xs = Some (filter Q xs)"
  by (induction xs) auto

lemma set_join: "set (join sep ss) \<subseteq> set sep \<union> \<Union> (set ` set ss)"
  by (induction sep ss rule: join.induct) auto

lemma set_split_char: "p \<in> set (split_char c s) \<Longrightarrow> set p \<subseteq> set s"
  by (induction s arbitrary: p) (fastforce split: list.splits if_splits)+

lemma set_trim: "set (trim s) \<subseteq> set s"
proof -
  have "set (trim_end t) \<subseteq> set t" "set (trim_start t) \<subseteq> set t" for t
    using set_mono_suffix [OF strip_leading_suffix [of "map rev white_space" "rev t"]]
      set_mono_suffix [OF strip_leading_suffix [of white_space t]]
    by (simp_all add: trim_end_def trim_start_def)
  then show ?thesis unfolding trim_def by blast
qed

lemma ascii_lower_ascii: "byte c < 128 \<Longrightarrow> byte (ascii_lower c) < 128"
  by (auto simp: ascii_lower_def is_ascii_uppercase_def byte_def)

lemma normalize_model_ascii:
  assumes "ascii s"
  shows "ascii (normalize_model s)"
proof -
  let ?f = "\<lambda>c. if c = CHR ''.'' \<or> c = CHR ''_'' then CHR ''-'' else c"
  let ?t = "map ?f (to_ascii_lowercase (trim s))"
  let ?parts = "filter (\<lambda>part. part \<noteq> []) (split_char (CHR ''-'') ?t)"
  have sub: "set (normalize_model s) \<subseteq> {CHR ''-''} \<union> set ?t"
    using set_join [of "''-''" ?parts] set_split_char [of _ "CHR ''-''" ?t]
    unfolding normalize_model_def by (fastforce simp: subset_iff)
  have t: "byte c < 128" if c: "c \<in> set ?t" for c
  proof -
    from c obtain d where d: "d \<in> set (trim s)" "c = ?f (ascii_lower d)"
      by (auto simp: to_ascii_lowercase_def)
    then have "byte (ascii_lower d) < 128"
      using assms set_trim [of s] by (auto simp: ascii_def intro: ascii_lower_ascii)
    with d(2) show ?thesis by (simp add: byte_def)
  qed
  have dash: "byte (CHR ''-'') < 128" by (simp add: byte_def)
  have "byte c < 128" if "c \<in> set (normalize_model s)" for c
    using that sub t [of c] dash by blast
  then show ?thesis by (simp add: ascii_def)
qed

lemma can_serve_ascii:
  assumes "ascii m"
  shows "static_subscription_can_serve k m = Some (paid k \<or>
    (\<exists>sm \<in> set STATIC_MODEL_CATALOG.
       sm_free_tier sm \<and> names_model (normalize_model m) (normalize_model (sm_id sm))))"
  using any_opt_total [of STATIC_MODEL_CATALOG "\<lambda>sm. if sm_free_tier sm
      then model_matches (normalize_model m) (normalize_model (sm_id sm)) else Some False"
      "\<lambda>sm. sm_free_tier sm \<and> names_model (normalize_model m) (normalize_model (sm_id sm))"]
  by (auto simp: static_subscription_can_serve_def Let_def
      model_matches_ascii [OF normalize_model_ascii [OF assms]])

text \<open>For every ASCII model name the tier matrix answers, and grants a model exactly when the
  subscription is paid or the normalised name is a free-tier catalog entry or a dated version of one:
  a Free or unknown subscription never reaches a premium or unknown model.\<close>

theorem free_subscription_only_free_models:
  assumes "ascii m"
  shows "static_subscription_can_serve k m = Some (paid k \<or>
    (\<exists>sm \<in> set STATIC_MODEL_CATALOG.
       sm_free_tier sm \<and> names_model (normalize_model m) (normalize_model (sm_id sm))))"
  using assms by (rule can_serve_ascii)

theorem free_subscription_only_free_models_witness:
  "static_subscription_can_serve (Some Free) ''auto-v2'' = Some (paid (Some Free) \<or>
    (\<exists>sm \<in> set STATIC_MODEL_CATALOG.
       sm_free_tier sm \<and> names_model (normalize_model ''auto-v2'') (normalize_model (sm_id sm))))"
  by (rule free_subscription_only_free_models) (simp add: ascii_def byte_def)

text \<open>A model name outside ASCII can crash the request: the eight-byte slice of the version
  suffix is taken without checking that it ends on a character boundary.\<close>

theorem dated_suffix_slice_panics:
  "static_subscription_can_serve (Some Free) (''auto-1234567'' @ [CHR 0xC3, CHR 0xA9]) = None"
  by code_simp

end
