(* ===== verification/OrderedCache.thy ===== *)
theory OrderedCache
  imports Prelude
begin

text \<open>
  The bounded map that several caches of the proxy keep: a \<open>HashMap\<close> beside a
  \<open>VecDeque\<close> of its keys, oldest first. \<open>evict_oldest\<close> is the
  "remove the front key when full" step the code writes out at each use.
\<close>

definition evict_oldest :: "nat \<Rightarrow> ('k, 'v) hmap \<times> 'k list \<Rightarrow> ('k, 'v) hmap \<times> 'k list" where
  "evict_oldest n mo = (let (m, order) = mo in
     if n \<le> length m
     then (case order of [] \<Rightarrow> (m, order) | k # ks \<Rightarrow> (hm_remove k m, ks))
     else (m, order))"

definition touch :: "'k \<Rightarrow> 'k list \<Rightarrow> 'k list" where
  "touch k order = filter (\<lambda>k'. k' \<noteq> k) order @ [k]"

text \<open>The map and the queue hold the same keys, each once, and no more than the bound.\<close>

definition indexed :: "('k, 'v) hmap \<Rightarrow> 'k list \<Rightarrow> bool" where
  "indexed m order \<longleftrightarrow> hm_wf m \<and> distinct order \<and> set order = hm_keys m"

definition oc_wf :: "nat \<Rightarrow> ('k, 'v) hmap \<Rightarrow> 'k list \<Rightarrow> bool" where
  "oc_wf n m order \<longleftrightarrow> indexed m order \<and> length m \<le> n"

lemma indexed_length: "indexed m order \<Longrightarrow> length order = length m"
  by (metis distinct_card hm_length_keys indexed_def)

lemma oc_wf_empty [simp]: "oc_wf n [] []"
  by (simp add: oc_wf_def indexed_def)

lemma evict_oldest_cases:
  "evict_oldest n (m, order) = (m, order) \<or>
     (\<exists>k ks. order = k # ks \<and> evict_oldest n (m, order) = (hm_remove k m, ks))"
  by (cases order) (auto simp: evict_oldest_def)

lemma evict_oldest_indexed:
  "indexed m order \<Longrightarrow> evict_oldest n (m, order) = (m', order') \<Longrightarrow> indexed m' order'"
  using evict_oldest_cases [of n m order] by (auto simp: indexed_def)

lemma evict_oldest_room:
  assumes "oc_wf n m order" and "0 < n" and "evict_oldest n (m, order) = (m', order')"
  shows "length m' < n"
proof (cases "n \<le> length m")
  case True
  with assms have len: "length m = n" and idx: "indexed m order" by (auto simp: oc_wf_def)
  then obtain k ks where o: "order = k # ks"
    using assms(2) indexed_length [OF idx] by (cases order) auto
  with True assms(3) have "m' = hm_remove k m" by (simp add: evict_oldest_def)
  moreover have "k \<in> hm_keys m" using idx o by (auto simp: indexed_def)
  ultimately show ?thesis
    using idx len hm.size_del [of m k] by (simp add: indexed_def)
next
  case False
  with assms(3) show ?thesis by (simp add: evict_oldest_def)
qed

lemma evict_oldest_keys:
  "evict_oldest n (m, order) = (m', order') \<Longrightarrow> hm_keys m' \<subseteq> hm_keys m"
  using evict_oldest_cases [of n m order] by auto

lemma evict_oldest_get:
  "evict_oldest n (m, order) = (m', order') \<Longrightarrow> hm_get m' k = Some v \<Longrightarrow> hm_get m k = Some v"
  using evict_oldest_cases [of n m order] by (auto simp: delete_conv' split: if_splits)

lemma indexed_touch_insert:
  "indexed m order \<Longrightarrow> indexed (hm_insert k v m) (touch k order)"
  by (auto simp: indexed_def touch_def)

lemma oc_wf_put:
  assumes "oc_wf n m order" and "0 < n"
    and "(m', order') = (if hm_contains m k then (m, order) else evict_oldest n (m, order))"
  shows "oc_wf n (hm_insert k v m') (touch k order')"
proof (cases "hm_contains m k")
  case True
  with assms show ?thesis
    by (simp add: oc_wf_def indexed_touch_insert hm_length_insert hm_contains_keys)
next
  case False
  with assms(3) have e: "evict_oldest n (m, order) = (m', order')" by simp
  have "length m' < n" by (rule evict_oldest_room [OF assms(1,2) e])
  moreover have "indexed m' order'"
    using assms(1) evict_oldest_indexed [OF _ e] by (simp add: oc_wf_def)
  ultimately show ?thesis
    by (simp add: oc_wf_def indexed_touch_insert hm_length_insert)
qed

lemma oc_wf_remove:
  "oc_wf n m order \<Longrightarrow> oc_wf n (hm_remove k m) (filter (\<lambda>k'. k' \<noteq> k) order)"
  using length_delete_le [of k m] by (auto simp: oc_wf_def indexed_def)

lemma hm_length_retain: "length (hm_retain P m) \<le> length m"
  by (simp add: hm_retain_def)

lemma oc_wf_retain:
  assumes "oc_wf n m order"
  shows "oc_wf n (hm_retain (\<lambda>k _. P k) m) (filter P order)"
proof -
  have "indexed (hm_retain (\<lambda>k _. P k) m) (filter P order)"
    using assms by (auto simp: oc_wf_def indexed_def hm_keys_retain_key)
  then show ?thesis
    using assms hm_length_retain [of "\<lambda>k _. P k" m] by (simp add: oc_wf_def)
qed

lemma oc_wf_update:
  "oc_wf n m order \<Longrightarrow> k \<in> hm_keys m \<Longrightarrow> oc_wf n (hm_insert k v m) order"
  by (auto simp: oc_wf_def indexed_def hm_length_insert)

end
