(* ===== verification/Endpoint.thy ===== *)
theory Endpoint
  imports Account OrderedCache
begin

text \<open>
  \<open>crates/kproxy-kiro/src/endpoint.rs\<close>: endpoint definitions, the API region of an account,
  and the bounded cache of endpoint successes and failures. Every method of the cache holds its
  mutex throughout, so it is one step on the state. The monotonic clock is an argument, read once
  per operation; an \<open>Instant\<close> is a number of ticks.
\<close>

section \<open>Endpoints and regions\<close>

datatype endpoint_key = Codewhisperer | Amazonq | Runtime

datatype endpoint_purpose = Generation | Models

record endpoint_definition =
  ed_key :: endpoint_key
  ed_url :: string
  ed_origin :: string
  ed_amz_target :: string
  ed_name :: string

record endpoint_overrides =
  eo_codewhisperer_url :: "string option"
  eo_amazonq_url :: "string option"
  eo_mcp_url :: "string option"
  eo_runtime_url :: "string option"
  eo_management_url :: "string option"

record kiro_error =
  ke_status :: "nat option"
  ke_endpoint :: string
  ke_message :: string

definition CODEWHISPERER_URL :: string where
  "CODEWHISPERER_URL = ''https://codewhisperer.us-east-1.amazonaws.com/generateAssistantResponse''"

definition AMAZONQ_URL :: string where
  "AMAZONQ_URL = ''https://q.us-east-1.amazonaws.com/generateAssistantResponse''"

definition streaming_target :: string where
  "streaming_target = ''AmazonCodeWhispererStreamingService.GenerateAssistantResponse''"

fun for_key :: "endpoint_key \<Rightarrow> endpoint_overrides \<Rightarrow> endpoint_definition" where
  "for_key Codewhisperer ov = \<lparr>ed_key = Codewhisperer,
     ed_url = unwrap_or (eo_codewhisperer_url ov) CODEWHISPERER_URL, ed_origin = ''AI_EDITOR'',
     ed_amz_target = streaming_target, ed_name = ''CodeWhisperer''\<rparr>"
| "for_key Amazonq ov = \<lparr>ed_key = Amazonq,
     ed_url = unwrap_or (eo_amazonq_url ov) AMAZONQ_URL, ed_origin = ''AI_EDITOR'',
     ed_amz_target = [], ed_name = ''AmazonQ''\<rparr>"
| "for_key Runtime ov = \<lparr>ed_key = Runtime,
     ed_url = unwrap_or (eo_runtime_url ov) ''https://runtime.us-east-1.kiro.dev/'',
     ed_origin = ''KIRO_CLI'', ed_amz_target = streaming_target, ed_name = ''KiroRuntime''\<rparr>"

definition region_syntax :: "string \<Rightarrow> bool" where
  "region_syntax r \<longleftrightarrow> r \<noteq> [] \<and> list_all (\<lambda>b. is_ascii_alphanumeric b \<or> b = CHR ''-'') r"

definition invalid_region :: kiro_error where
  "invalid_region = \<lparr>ke_status = Some 400, ke_endpoint = ''region'',
     ke_message = ''account has an invalid API region''\<rparr>"

definition profile_region :: "account \<Rightarrow> string option" where
  "profile_region a = Option.bind (ac_profile_arn a) (\<lambda>arn.
     let parts = split_char (CHR '':'') arn in
     if 6 \<le> length parts \<and> parts ! 0 = ''arn'' \<and> (parts ! 1 = ''aws'' \<or> parts ! 1 = ''aws-us-gov'')
        \<and> parts ! 2 = ''codewhisperer''
     then Some (parts ! 3) else None)"

definition account_api_region :: "account \<Rightarrow> kiro_error + string" where
  "account_api_region a =
     (let credential_region = trim (cr_region (ac_credentials a)) in
      if \<not> region_syntax credential_region then Inl invalid_region
      else
        let region =
          (if starts_with credential_region ''us-gov-''
              \<or> cr_auth_method (ac_credentials a) = ApiKey
           then credential_region
           else unwrap_or (profile_region a)
             (if starts_with credential_region ''eu-'' then ''eu-central-1'' else ''us-east-1''))
        in if \<not> region_syntax region then Inl invalid_region else Inr region)"

definition for_account ::
  "endpoint_key \<Rightarrow> endpoint_overrides \<Rightarrow> account \<Rightarrow> kiro_error + endpoint_definition" where
  "for_account key ov a = (case account_api_region a of
       Inl e \<Rightarrow> Inl e
     | Inr region \<Rightarrow>
         (let url = (case key of
                Codewhisperer \<Rightarrow> unwrap_or (eo_codewhisperer_url ov)
                  (''https://codewhisperer.'' @ region @ ''.amazonaws.com/generateAssistantResponse'')
              | Amazonq \<Rightarrow> unwrap_or (eo_amazonq_url ov)
                  (''https://q.'' @ region @ ''.amazonaws.com/generateAssistantResponse'')
              | Runtime \<Rightarrow> unwrap_or (eo_runtime_url ov)
                  (''https://runtime.'' @ region @ ''.kiro.dev/''))
          in Inr ((for_key key ov)\<lparr>ed_url := str_replace ''{region}'' region url\<rparr>)))"

fun endpoint_for_auth :: "auth_method \<Rightarrow> endpoint_key" where
  "endpoint_for_auth Idc = Amazonq"
| "endpoint_for_auth Social = Codewhisperer"
| "endpoint_for_auth ApiKey = Runtime"

fun other :: "endpoint_key \<Rightarrow> endpoint_key" where
  "other Codewhisperer = Amazonq"
| "other Amazonq = Codewhisperer"
| "other Runtime = Amazonq"

section \<open>The cache\<close>

definition MAX_ENDPOINT_CACHE_SIZE :: nat where
  "MAX_ENDPOINT_CACHE_SIZE = 500"

type_synonym purpose_key = "string \<times> endpoint_purpose"

record endpoint_cache_state =
  ec_preferred :: "(purpose_key, endpoint_key) hmap"
  ec_preferred_order :: "purpose_key list"
  ec_disabled :: "(purpose_key, (endpoint_key, nat) hmap) hmap"
  ec_disabled_order :: "purpose_key list"
  ec_revisions :: "(string, u64) hmap"
  ec_revision_order :: "string list"

definition cache_default :: endpoint_cache_state where
  "cache_default = \<lparr>ec_preferred = [], ec_preferred_order = [], ec_disabled = [],
     ec_disabled_order = [], ec_revisions = [], ec_revision_order = []\<rparr>"

definition clear_endpoint_failure ::
  "purpose_key \<Rightarrow> endpoint_key \<Rightarrow> endpoint_cache_state \<Rightarrow> endpoint_cache_state" where
  "clear_endpoint_failure cache_key endpoint s = (case hm_get (ec_disabled s) cache_key of
       None \<Rightarrow> s
     | Some failures \<Rightarrow>
         (let failures' = hm_remove endpoint failures in
          if failures' = []
          then s\<lparr>ec_disabled := hm_remove cache_key (ec_disabled s),
                 ec_disabled_order := filter (\<lambda>k. k \<noteq> cache_key) (ec_disabled_order s)\<rparr>
          else s\<lparr>ec_disabled := hm_insert cache_key failures' (ec_disabled s)\<rparr>))"

definition is_disabled ::
  "nat \<Rightarrow> purpose_key \<Rightarrow> endpoint_key \<Rightarrow> endpoint_cache_state \<Rightarrow> bool \<times> endpoint_cache_state" where
  "is_disabled now cache_key endpoint s =
     (case Option.bind (hm_get (ec_disabled s) cache_key) (\<lambda>failures. hm_get failures endpoint) of
        None \<Rightarrow> (False, s)
      | Some until \<Rightarrow>
          if now < until then (True, s) else (False, clear_endpoint_failure cache_key endpoint s))"

definition evict_oldest_preferred_if_full :: "endpoint_cache_state \<Rightarrow> endpoint_cache_state" where
  "evict_oldest_preferred_if_full s =
     (let (m, ord) = evict_oldest MAX_ENDPOINT_CACHE_SIZE (ec_preferred s, ec_preferred_order s)
      in s\<lparr>ec_preferred := m, ec_preferred_order := ord\<rparr>)"

definition evict_oldest_disabled_if_full :: "endpoint_cache_state \<Rightarrow> endpoint_cache_state" where
  "evict_oldest_disabled_if_full s =
     (let (m, ord) = evict_oldest MAX_ENDPOINT_CACHE_SIZE (ec_disabled s, ec_disabled_order s)
      in s\<lparr>ec_disabled := m, ec_disabled_order := ord\<rparr>)"

definition revision_locked :: "endpoint_cache_state \<Rightarrow> string \<Rightarrow> u64" where
  "revision_locked s account_id = unwrap_or (hm_get (ec_revisions s) account_id) 0"

definition bump_revision :: "string \<Rightarrow> endpoint_cache_state \<Rightarrow> endpoint_cache_state" where
  "bump_revision account_id s =
     (let s1 = (if \<not> hm_contains (ec_revisions s) account_id
                then (let (m, ord) = evict_oldest MAX_ENDPOINT_CACHE_SIZE
                            (ec_revisions s, ec_revision_order s)
                      in s\<lparr>ec_revisions := m, ec_revision_order := ord @ [account_id]\<rparr>)
                else s)
      in s1\<lparr>ec_revisions := hm_insert account_id (revision_locked s1 account_id + 1)
              (ec_revisions s1)\<rparr>)"

definition remove_failures :: "string \<Rightarrow> endpoint_cache_state \<Rightarrow> endpoint_cache_state" where
  "remove_failures account_id s =
     s\<lparr>ec_disabled := hm_retain (\<lambda>k _. fst k \<noteq> account_id) (ec_disabled s),
       ec_disabled_order := filter (\<lambda>k. fst k \<noteq> account_id) (ec_disabled_order s)\<rparr>"

definition mark_success_locked ::
  "string \<Rightarrow> endpoint_purpose \<Rightarrow> endpoint_key \<Rightarrow> endpoint_cache_state \<Rightarrow> endpoint_cache_state" where
  "mark_success_locked account_id purpose endpoint s =
     (let cache_key = (account_id, purpose);
          s1 = clear_endpoint_failure cache_key endpoint s;
          s2 = (if hm_contains (ec_preferred s1) cache_key then s1
                else evict_oldest_preferred_if_full s1)
      in s2\<lparr>ec_preferred_order := touch cache_key (ec_preferred_order s2),
            ec_preferred := hm_insert cache_key endpoint (ec_preferred s2)\<rparr>)"

definition mark_disabled_locked ::
  "nat \<Rightarrow> nat \<Rightarrow> string \<Rightarrow> endpoint_purpose \<Rightarrow> endpoint_key \<Rightarrow> endpoint_cache_state
     \<Rightarrow> endpoint_cache_state" where
  "mark_disabled_locked now disabled_ttl account_id purpose endpoint s =
     (let cache_key = (account_id, purpose);
          s1 = (if hm_contains (ec_disabled s) cache_key then s else evict_oldest_disabled_if_full s);
          failures = unwrap_or (hm_get (ec_disabled s1) cache_key) [];
          s2 = s1\<lparr>ec_disabled_order := touch cache_key (ec_disabled_order s1),
                 ec_disabled := hm_insert cache_key
                   (hm_insert endpoint (now + disabled_ttl) failures) (ec_disabled s1)\<rparr>
      in if hm_get (ec_preferred s2) cache_key = Some endpoint
         then s2\<lparr>ec_preferred := hm_remove cache_key (ec_preferred s2),
                 ec_preferred_order := filter (\<lambda>k. k \<noteq> cache_key) (ec_preferred_order s2)\<rparr>
         else s2)"

section \<open>The public operations\<close>

fun push_candidates ::
  "nat \<Rightarrow> purpose_key \<Rightarrow> endpoint_key list \<Rightarrow> endpoint_key list \<Rightarrow> endpoint_cache_state
     \<Rightarrow> endpoint_key list \<times> endpoint_cache_state" where
  "push_candidates now cache_key [] order s = (order, s)"
| "push_candidates now cache_key (c # cs) order s =
     (if c \<in> set order then push_candidates now cache_key cs order s
      else (let (disabled, s') = is_disabled now cache_key c s in
            push_candidates now cache_key cs (if disabled then order else order @ [c]) s'))"

definition runtime_only :: "account \<Rightarrow> bool" where
  "runtime_only a \<longleftrightarrow> cr_auth_method (ac_credentials a) = ApiKey
     \<or> (case account_api_region a of Inr region \<Rightarrow> starts_with region ''us-gov-'' | Inl _ \<Rightarrow> False)"

definition order_candidates :: "account \<Rightarrow> endpoint_key option \<Rightarrow> endpoint_key option \<Rightarrow> endpoint_key list" where
  "order_candidates a explicit cached =
     (let inferred = endpoint_for_auth (cr_auth_method (ac_credentials a));
          fallback = other inferred
      in List.map_filter id [explicit, if explicit = None then cached else None,
           Some inferred, Some fallback])"

definition order ::
  "nat \<Rightarrow> account \<Rightarrow> endpoint_key option \<Rightarrow> endpoint_purpose \<Rightarrow> endpoint_cache_state
     \<Rightarrow> endpoint_key list \<times> endpoint_cache_state" where
  "order now a explicit purpose s =
     (let cache_key = (ac_id a, purpose);
          cached = hm_get (ec_preferred s) cache_key
      in if runtime_only a
         then (let (disabled, s') = is_disabled now cache_key Runtime s
               in (if disabled then [] else [Runtime], s'))
         else push_candidates now cache_key (order_candidates a explicit cached) [] s)"

definition preferred :: "string \<Rightarrow> endpoint_purpose \<Rightarrow> endpoint_cache_state \<Rightarrow> endpoint_key option" where
  "preferred account_id purpose s = hm_get (ec_preferred s) (account_id, purpose)"

definition mark_success_if_revision ::
  "string \<Rightarrow> endpoint_purpose \<Rightarrow> endpoint_key \<Rightarrow> u64 \<Rightarrow> endpoint_cache_state
     \<Rightarrow> bool \<times> endpoint_cache_state" where
  "mark_success_if_revision account_id purpose endpoint expected_revision s =
     (if revision_locked s account_id \<noteq> expected_revision then (False, s)
      else (True, mark_success_locked account_id purpose endpoint s))"

definition mark_disabled_if_revision ::
  "nat \<Rightarrow> nat \<Rightarrow> string \<Rightarrow> endpoint_purpose \<Rightarrow> endpoint_key \<Rightarrow> u64 \<Rightarrow> endpoint_cache_state
     \<Rightarrow> bool \<times> endpoint_cache_state" where
  "mark_disabled_if_revision now ttl account_id purpose endpoint expected_revision s =
     (if revision_locked s account_id \<noteq> expected_revision then (False, s)
      else (True, mark_disabled_locked now ttl account_id purpose endpoint s))"

definition clear_failures :: "string \<Rightarrow> endpoint_cache_state \<Rightarrow> endpoint_cache_state" where
  "clear_failures account_id s = remove_failures account_id (bump_revision account_id s)"

definition clear_account :: "string \<Rightarrow> endpoint_cache_state \<Rightarrow> endpoint_cache_state" where
  "clear_account account_id s =
     (let s1 = bump_revision account_id s;
          s2 = s1\<lparr>ec_preferred := hm_retain (\<lambda>k _. fst k \<noteq> account_id) (ec_preferred s1),
                 ec_preferred_order := filter (\<lambda>k. fst k \<noteq> account_id) (ec_preferred_order s1)\<rparr>
      in remove_failures account_id s2)"

text \<open>The operations of the shared cache, in any order.\<close>

datatype cache_op =
    Order nat account "endpoint_key option" endpoint_purpose
  | MarkSuccess string endpoint_purpose endpoint_key
  | MarkSuccessIf string endpoint_purpose endpoint_key u64
  | MarkDisabled nat string endpoint_purpose endpoint_key
  | MarkDisabledIf nat string endpoint_purpose endpoint_key u64
  | ClearFailures string
  | ClearAccount string

fun cache_step :: "nat \<Rightarrow> cache_op \<Rightarrow> endpoint_cache_state \<Rightarrow> endpoint_cache_state" where
  "cache_step ttl (Order now a explicit p) s = snd (order now a explicit p s)"
| "cache_step ttl (MarkSuccess i p e) s = mark_success_locked i p e s"
| "cache_step ttl (MarkSuccessIf i p e r) s = snd (mark_success_if_revision i p e r s)"
| "cache_step ttl (MarkDisabled now i p e) s = mark_disabled_locked now ttl i p e s"
| "cache_step ttl (MarkDisabledIf now i p e r) s = snd (mark_disabled_if_revision now ttl i p e r s)"
| "cache_step ttl (ClearFailures i) s = clear_failures i s"
| "cache_step ttl (ClearAccount i) s = clear_account i s"

end
