(* ===== verification/EndpointCorrect.thy ===== *)
theory EndpointCorrect
  imports Endpoint
begin

text \<open>
  The endpoint cache: its invariant under every operation, what \<open>order\<close> offers, the
  rejection of stale writes, and the region an account's requests are sent to.
\<close>

section \<open>The invariant\<close>

definition failed_until :: "endpoint_cache_state \<Rightarrow> purpose_key \<Rightarrow> endpoint_key \<Rightarrow> nat option" where
  "failed_until s k e = Option.bind (hm_get (ec_disabled s) k) (\<lambda>f. hm_get f e)"

definition disabled_wf :: "(purpose_key, (endpoint_key, nat) hmap) hmap \<Rightarrow> bool" where
  "disabled_wf m \<longleftrightarrow> (\<forall>k f. hm_get m k = Some f \<longrightarrow> f \<noteq> [] \<and> hm_wf f)"

definition cache_inv :: "endpoint_cache_state \<Rightarrow> bool" where
  "cache_inv s \<longleftrightarrow>
     oc_wf MAX_ENDPOINT_CACHE_SIZE (ec_preferred s) (ec_preferred_order s)
     \<and> oc_wf MAX_ENDPOINT_CACHE_SIZE (ec_disabled s) (ec_disabled_order s)
     \<and> oc_wf MAX_ENDPOINT_CACHE_SIZE (ec_revisions s) (ec_revision_order s)
     \<and> disabled_wf (ec_disabled s)
     \<and> (\<forall>k e. hm_get (ec_preferred s) k = Some e \<longrightarrow> failed_until s k e = None)"

lemma max_size_pos [simp]: "0 < MAX_ENDPOINT_CACHE_SIZE"
  by (simp add: MAX_ENDPOINT_CACHE_SIZE_def)

lemma cache_inv_init: "cache_inv cache_default"
  by (simp add: cache_inv_def cache_default_def disabled_wf_def)

lemma disabled_wf_remove: "disabled_wf m \<Longrightarrow> disabled_wf (hm_remove k m)"
  by (auto simp: disabled_wf_def delete_conv' split: if_splits)

lemma disabled_wf_insert: "disabled_wf m \<Longrightarrow> f \<noteq> [] \<Longrightarrow> hm_wf f \<Longrightarrow> disabled_wf (hm_insert k f m)"
  by (auto simp: disabled_wf_def update_conv' split: if_splits)

lemma disabled_wf_evict:
  "disabled_wf m \<Longrightarrow> evict_oldest n (m, ord) = (m', ord') \<Longrightarrow> disabled_wf m'"
  unfolding disabled_wf_def using evict_oldest_get by metis

section \<open>Each operation keeps it\<close>

lemma failed_until_clear:
  "failed_until (clear_endpoint_failure k e s) k' e'
     = (if k' = k \<and> e' = e then None else failed_until s k' e')"
proof (cases "hm_get (ec_disabled s) k")
  case None
  then show ?thesis by (auto simp: clear_endpoint_failure_def failed_until_def)
next
  case (Some f)
  have "hm_get (hm_remove e f) e' = (if e' = e then None else hm_get f e')" for e'
    by (simp add: delete_conv')
  moreover from this have "hm_get f e' = None" if "hm_remove e f = []" "e' \<noteq> e" for e'
    using that by (metis map_of.simps(1))
  ultimately show ?thesis using Some
    by (auto simp: clear_endpoint_failure_def failed_until_def Let_def delete_conv' update_conv')
qed

lemma clear_endpoint_failure_other [simp]:
  "ec_preferred (clear_endpoint_failure k e s) = ec_preferred s"
  "ec_preferred_order (clear_endpoint_failure k e s) = ec_preferred_order s"
  "ec_revisions (clear_endpoint_failure k e s) = ec_revisions s"
  "ec_revision_order (clear_endpoint_failure k e s) = ec_revision_order s"
  by (auto simp: clear_endpoint_failure_def Let_def split: option.split)

lemma clear_endpoint_failure_inv:
  assumes "cache_inv s"
  shows "cache_inv (clear_endpoint_failure k e s)"
proof (cases "hm_get (ec_disabled s) k")
  case None
  with assms show ?thesis by (simp add: clear_endpoint_failure_def)
next
  case (Some f)
  have wf: "hm_wf f" using assms Some unfolding cache_inv_def disabled_wf_def by blast
  have k: "k \<in> hm_keys (ec_disabled s)" using Some by (rule hm_get_in_keys)
  have "oc_wf MAX_ENDPOINT_CACHE_SIZE (ec_disabled (clear_endpoint_failure k e s))
      (ec_disabled_order (clear_endpoint_failure k e s))"
    "disabled_wf (ec_disabled (clear_endpoint_failure k e s))"
    using assms Some wf k
    by (simp_all add: cache_inv_def clear_endpoint_failure_def Let_def oc_wf_remove oc_wf_update
        disabled_wf_remove disabled_wf_insert)
  with assms show ?thesis by (auto simp: cache_inv_def failed_until_clear)
qed

lemma is_disabled_cases:
  "is_disabled now k e s = (case failed_until s k e of
     None \<Rightarrow> (False, s)
   | Some until \<Rightarrow> if now < until then (True, s) else (False, clear_endpoint_failure k e s))"
  by (simp add: is_disabled_def failed_until_def)

lemma is_disabled_inv: "cache_inv s \<Longrightarrow> cache_inv (snd (is_disabled now k e s))"
  by (auto simp: is_disabled_cases clear_endpoint_failure_inv split: option.split)

lemma push_candidates_inv:
  "cache_inv s \<Longrightarrow> cache_inv (snd (push_candidates now k cs ord s))"
proof (induction cs arbitrary: ord s)
  case (Cons c cs)
  then show ?case
    using is_disabled_inv [OF Cons.prems, of now k c] by (auto split: prod.split)
qed simp

lemma order_inv: "cache_inv s \<Longrightarrow> cache_inv (snd (order now a explicit p s))"
  using is_disabled_inv [of s now "(ac_id a, p)" Runtime]
  by (auto simp: order_def Let_def push_candidates_inv split: prod.split)

lemma mark_success_inv:
  assumes "cache_inv s"
  shows "cache_inv (mark_success_locked i p e s)"
proof -
  let ?k = "(i, p)"
  let ?s1 = "clear_endpoint_failure ?k e s"
  have inv1: "cache_inv ?s1" by (rule clear_endpoint_failure_inv [OF assms])
  define s2 where "s2 = (if hm_contains (ec_preferred ?s1) ?k then ?s1
      else evict_oldest_preferred_if_full ?s1)"
  have put: "(ec_preferred s2, ec_preferred_order s2) =
      (if hm_contains (ec_preferred ?s1) ?k then (ec_preferred ?s1, ec_preferred_order ?s1)
       else evict_oldest MAX_ENDPOINT_CACHE_SIZE (ec_preferred ?s1, ec_preferred_order ?s1))"
    by (auto simp: s2_def evict_oldest_preferred_if_full_def split: prod.split)
  have same: "ec_disabled s2 = ec_disabled ?s1" "ec_disabled_order s2 = ec_disabled_order ?s1"
    "ec_revisions s2 = ec_revisions ?s1" "ec_revision_order s2 = ec_revision_order ?s1"
    by (auto simp: s2_def evict_oldest_preferred_if_full_def split: prod.split)
  have old: "hm_get (ec_preferred s2) k = Some v \<Longrightarrow> hm_get (ec_preferred ?s1) k = Some v" for k v
    using put evict_oldest_get by (metis prod.collapse prod.inject)
  have "oc_wf MAX_ENDPOINT_CACHE_SIZE (hm_insert ?k e (ec_preferred s2)) (touch ?k (ec_preferred_order s2))"
    using inv1 by (intro oc_wf_put [OF _ _ put]) (simp_all add: cache_inv_def)
  moreover have "failed_until ?s1 ?k e = None" by (simp add: failed_until_clear)
  moreover have "mark_success_locked i p e s
      = s2\<lparr>ec_preferred_order := touch ?k (ec_preferred_order s2),
           ec_preferred := hm_insert ?k e (ec_preferred s2)\<rparr>"
    by (simp add: mark_success_locked_def s2_def Let_def)
  ultimately show ?thesis using inv1 old
    by (auto simp: cache_inv_def same failed_until_def update_conv' split: if_splits)
qed

lemma mark_disabled_inv:
  assumes "cache_inv s"
  shows "cache_inv (mark_disabled_locked now ttl i p e s)"
proof -
  let ?k = "(i, p)"
  define s1 where "s1 = (if hm_contains (ec_disabled s) ?k then s else evict_oldest_disabled_if_full s)"
  have put: "(ec_disabled s1, ec_disabled_order s1) =
      (if hm_contains (ec_disabled s) ?k then (ec_disabled s, ec_disabled_order s)
       else evict_oldest MAX_ENDPOINT_CACHE_SIZE (ec_disabled s, ec_disabled_order s))"
    by (auto simp: s1_def evict_oldest_disabled_if_full_def split: prod.split)
  have same: "ec_preferred s1 = ec_preferred s" "ec_preferred_order s1 = ec_preferred_order s"
    "ec_revisions s1 = ec_revisions s" "ec_revision_order s1 = ec_revision_order s"
    by (auto simp: s1_def evict_oldest_disabled_if_full_def split: prod.split)
  have old: "hm_get (ec_disabled s1) k = Some v \<Longrightarrow> hm_get (ec_disabled s) k = Some v" for k v
    using put evict_oldest_get by (metis prod.collapse prod.inject)
  then have dw: "disabled_wf (ec_disabled s1)"
    using assms unfolding cache_inv_def disabled_wf_def by blast
  define f where "f = hm_insert e (now + ttl) (unwrap_or (hm_get (ec_disabled s1) ?k) [])"
  have f: "f \<noteq> []" "hm_wf f"
    using dw by (auto simp: f_def disabled_wf_def unwrap_or_def update_nonempty split: option.split)
  define s2 where "s2 = s1\<lparr>ec_disabled_order := touch ?k (ec_disabled_order s1),
      ec_disabled := hm_insert ?k f (ec_disabled s1)\<rparr>"
  have oc: "oc_wf MAX_ENDPOINT_CACHE_SIZE (hm_insert ?k f (ec_disabled s1)) (touch ?k (ec_disabled_order s1))"
    using assms by (intro oc_wf_put [OF _ _ put]) (simp_all add: cache_inv_def)
  have "mark_disabled_locked now ttl i p e s =
      (if hm_get (ec_preferred s2) ?k = Some e
       then s2\<lparr>ec_preferred := hm_remove ?k (ec_preferred s2),
               ec_preferred_order := filter (\<lambda>k. k \<noteq> ?k) (ec_preferred_order s2)\<rparr> else s2)"
    by (simp add: mark_disabled_locked_def s1_def s2_def f_def Let_def)
  moreover have "failed_until s2 k' e' = None"
    if "hm_get (ec_preferred s) k' = Some e'" "k' \<noteq> ?k \<or> e' \<noteq> e" for k' e'
  proof -
    have n: "failed_until s k' e' = None" using assms that(1) unfolding cache_inv_def by blast
    then have "failed_until s1 k' e' = None"
      using old [of k'] by (cases "hm_get (ec_disabled s1) k'") (simp_all add: failed_until_def)
    with that(2) show ?thesis
      by (cases "hm_get (ec_disabled s1) ?k")
        (auto simp: failed_until_def s2_def f_def update_conv' split: if_splits)
  qed
  ultimately show ?thesis
    using assms oc f dw
    by (auto simp: cache_inv_def same s2_def disabled_wf_insert oc_wf_remove delete_conv'
        failed_until_def split: if_splits)
qed


lemma bump_revision_other [simp]:
  "ec_preferred (bump_revision i s) = ec_preferred s"
  "ec_preferred_order (bump_revision i s) = ec_preferred_order s"
  "ec_disabled (bump_revision i s) = ec_disabled s"
  "ec_disabled_order (bump_revision i s) = ec_disabled_order s"
  by (auto simp: bump_revision_def Let_def split: prod.split)

lemma oc_wf_append_new:
  assumes "oc_wf n m ord" and "0 < n" and "k \<notin> hm_keys m" and "evict_oldest n (m, ord) = (m', ord')"
  shows "oc_wf n (hm_insert k v m') (ord' @ [k])"
proof -
  have k: "k \<notin> hm_keys m'" using evict_oldest_keys [OF assms(4)] assms(3) by blast
  have "indexed m' ord'" using assms(1) evict_oldest_indexed [OF _ assms(4)] by (simp add: oc_wf_def)
  moreover have "length m' < n" by (rule evict_oldest_room [OF assms(1,2,4)])
  ultimately show ?thesis using k
    by (auto simp: oc_wf_def indexed_def hm_length_insert)
qed

lemma bump_revision_inv:
  assumes "cache_inv s"
  shows "cache_inv (bump_revision i s)"
proof -
  obtain m ord where e: "evict_oldest MAX_ENDPOINT_CACHE_SIZE (ec_revisions s, ec_revision_order s) = (m, ord)"
    by (cases "evict_oldest MAX_ENDPOINT_CACHE_SIZE (ec_revisions s, ec_revision_order s)")
  have r: "oc_wf MAX_ENDPOINT_CACHE_SIZE (ec_revisions s) (ec_revision_order s)"
    using assms by (simp add: cache_inv_def)
  have "oc_wf MAX_ENDPOINT_CACHE_SIZE (ec_revisions (bump_revision i s)) (ec_revision_order (bump_revision i s))"
  proof (cases "hm_contains (ec_revisions s) i")
    case True
    then show ?thesis
      using oc_wf_update [OF r] by (simp add: bump_revision_def Let_def hm_contains_keys)
  next
    case False
    then show ?thesis
      using oc_wf_append_new [OF r max_size_pos _ e]
      by (simp add: bump_revision_def Let_def hm_contains_keys e)
  qed
  with assms show ?thesis
    unfolding cache_inv_def failed_until_def by simp
qed

lemma failed_until_remove_failures:
  "cache_inv s \<Longrightarrow> failed_until (remove_failures i s) k e
     = (if fst k = i then None else failed_until s k e)"
  by (cases "hm_get (ec_disabled s) k")
    (simp_all add: failed_until_def remove_failures_def hm_get_retain cache_inv_def oc_wf_def indexed_def)

lemma remove_failures_inv:
  assumes "cache_inv s"
  shows "cache_inv (remove_failures i s)"
proof -
  have wf: "hm_wf (ec_disabled s)" using assms by (simp add: cache_inv_def oc_wf_def indexed_def)
  have "disabled_wf (ec_disabled (remove_failures i s))"
    using assms hm_get_retain [OF wf]
    by (auto simp: cache_inv_def disabled_wf_def remove_failures_def split: option.splits if_splits)
  moreover have "failed_until (remove_failures i s) k e = None"
    if "hm_get (ec_preferred s) k = Some e" for k e
    using assms that failed_until_remove_failures [OF assms, of i k e]
    unfolding cache_inv_def by (metis (full_types))
  ultimately show ?thesis
    using assms by (simp add: cache_inv_def remove_failures_def oc_wf_retain)
qed

lemma clear_failures_inv: "cache_inv s \<Longrightarrow> cache_inv (clear_failures i s)"
  by (simp add: clear_failures_def remove_failures_inv bump_revision_inv)

lemma clear_account_inv:
  assumes "cache_inv s"
  shows "cache_inv (clear_account i s)"
proof -
  let ?s1 = "bump_revision i s"
  let ?s2 = "?s1\<lparr>ec_preferred := hm_retain (\<lambda>k _. fst k \<noteq> i) (ec_preferred ?s1),
      ec_preferred_order := filter (\<lambda>k. fst k \<noteq> i) (ec_preferred_order ?s1)\<rparr>"
  have inv1: "cache_inv ?s1" by (rule bump_revision_inv [OF assms])
  have wf: "hm_wf (ec_preferred s)" using assms by (simp add: cache_inv_def oc_wf_def indexed_def)
  have "hm_get (hm_retain (\<lambda>k _. fst k \<noteq> i) (ec_preferred s)) k = Some e \<Longrightarrow>
      hm_get (ec_preferred s) k = Some e" for k e
    by (simp add: hm_get_retain [OF wf] split: option.splits if_splits)
  with inv1 have "cache_inv ?s2"
    unfolding cache_inv_def failed_until_def by (simp add: oc_wf_retain)
  then show ?thesis
    unfolding clear_account_def Let_def by (rule remove_failures_inv)
qed

lemma cache_step_inv: "cache_inv s \<Longrightarrow> cache_inv (cache_step ttl op s)"
  by (cases op)
    (simp_all add: order_inv mark_success_inv mark_disabled_inv clear_failures_inv clear_account_inv
      mark_success_if_revision_def mark_disabled_if_revision_def)

interpretation cache: machine "cache_step ttl" cache_default cache_inv
  by unfold_locales (rule cache_inv_init, rule cache_step_inv)

text \<open>C22: After any sequence of operations by any clients, each of the cache's three maps holds at
  most 500 entries, its queue lists exactly its keys, once each, and no endpoint is at once
  preferred and marked failed for the same account and purpose.\<close>

theorem endpoint_cache_bounded_and_consistent:
  "cache_inv (fold (cache_step ttl) ops cache_default)"
  by (rule cache.inv_run)


section \<open>What is offered\<close>

lemma is_disabled_fst: "fst (is_disabled now k e s) \<longleftrightarrow>
    (case failed_until s k e of None \<Rightarrow> False | Some until \<Rightarrow> now < until)"
  by (auto simp: is_disabled_cases split: option.split)

text \<open>Dropping an expired failure changes no answer at the same time.\<close>

lemma failed_after_is_disabled:
  "(case failed_until (snd (is_disabled now k e s)) k e' of None \<Rightarrow> False | Some until \<Rightarrow> now < until)
     = (case failed_until s k e' of None \<Rightarrow> False | Some until \<Rightarrow> now < until)"
  by (auto simp: is_disabled_cases failed_until_clear split: option.splits)

definition usable :: "nat \<Rightarrow> endpoint_cache_state \<Rightarrow> purpose_key \<Rightarrow> endpoint_key \<Rightarrow> bool" where
  "usable now s k e \<longleftrightarrow> \<not> (case failed_until s k e of None \<Rightarrow> False | Some until \<Rightarrow> now < until)"

text \<open>First occurrences, in order.\<close>

fun dedup :: "'a list \<Rightarrow> 'a list \<Rightarrow> 'a list" where
  "dedup [] seen = []"
| "dedup (x # xs) seen = (if x \<in> set seen then dedup xs seen else x # dedup xs (seen @ [x]))"

lemma push_candidates_spec:
  "fst (push_candidates now k cs ord s) = ord @ dedup (filter (usable now s k) cs) ord"
proof (induction cs arbitrary: ord s)
  case (Cons c cs)
  obtain d s' where d: "is_disabled now k c s = (d, s')" by (cases "is_disabled now k c s")
  have same: "usable now s' k = usable now s k"
    using failed_after_is_disabled [of now k c s] by (intro ext) (simp add: usable_def d)
  have "d \<longleftrightarrow> \<not> usable now s k c"
    using is_disabled_fst [of now k c s] by (simp add: usable_def d)
  then show ?case
    using Cons.IH by (auto simp: d same)
qed simp

lemma set_dedup: "set (dedup xs seen) = set xs - set seen"
  by (induction xs arbitrary: seen) auto

lemma distinct_dedup: "distinct (dedup xs seen)"
  by (induction xs arbitrary: seen) (auto simp: set_dedup)

lemma order_spec:
  "fst (order now a explicit p s) =
     (let k = (ac_id a, p) in
      dedup (filter (usable now s k)
        (if runtime_only a then [Runtime]
         else order_candidates a explicit (hm_get (ec_preferred s) k))) [])"
  by (auto simp: order_def Let_def push_candidates_spec usable_def is_disabled_fst [symmetric]
      split: prod.split)

lemma order_candidates_set:
  "set (order_candidates a explicit cached) = set_option explicit
     \<union> (if explicit = None then set_option cached else {})
     \<union> {endpoint_for_auth (cr_auth_method (ac_credentials a)),
        other (endpoint_for_auth (cr_auth_method (ac_credentials a)))}"
  by (cases explicit; cases cached) (auto simp: order_candidates_def map_filter_def Let_def)

text \<open>The endpoints offered for a request are distinct, none of them is within its failure
  window, and they are exactly the usable ones among the explicit choice (or else the remembered
  one), the one inferred from the login method and its fallback; an API-key or GovCloud account is
  offered the runtime endpoint only, so it never falls back to a commercial endpoint.\<close>

theorem order_offers_usable_endpoints:
  "distinct (fst (order now a explicit p s))
   \<and> set (fst (order now a explicit p s)) = {e. usable now s (ac_id a, p) e
       \<and> (if runtime_only a then e = Runtime
          else e \<in> set_option explicit
            \<union> (if explicit = None then set_option (hm_get (ec_preferred s) (ac_id a, p)) else {})
            \<union> {endpoint_for_auth (cr_auth_method (ac_credentials a)),
               other (endpoint_for_auth (cr_auth_method (ac_credentials a)))})}"
  by (auto simp: order_spec Let_def distinct_dedup set_dedup order_candidates_set split: if_splits)

section \<open>Successes and failures\<close>

lemma mark_success_preferred:
  "hm_get (ec_preferred (mark_success_locked i p e s)) (i, p) = Some e"
  by (simp add: mark_success_locked_def Let_def update_conv')

lemma mark_success_failed:
  "failed_until (mark_success_locked i p e s) k e' = failed_until (clear_endpoint_failure (i, p) e s) k e'"
  by (auto simp: mark_success_locked_def Let_def failed_until_def evict_oldest_preferred_if_full_def
      split: prod.split)

text \<open>An endpoint that just succeeded for an ordinary account is offered first by the next
  request that names no endpoint, whatever failure was recorded for it before.\<close>

theorem success_is_offered_first:
  assumes "\<not> runtime_only a"
  shows "\<exists>rest. fst (order now a None p (mark_success_locked (ac_id a) p e s)) = e # rest"
proof -
  let ?s = "mark_success_locked (ac_id a) p e s" and ?k = "(ac_id a, p)"
  have "usable now ?s ?k e"
    by (simp add: usable_def mark_success_failed failed_until_clear)
  then show ?thesis
    using assms
    by (simp add: order_spec Let_def mark_success_preferred order_candidates_def map_filter_def)
qed


definition demo_account :: "auth_method \<Rightarrow> string \<Rightarrow> account" where
  "demo_account method region = \<lparr>ac_id = ''acc_1'', ac_email = ''a@example.com'', ac_label = None,
     ac_enabled = True, ac_machine_id = [], ac_profile_arn = None, ac_upstream_user_id = None,
     ac_credentials = \<lparr>cr_access_token = ''t'', cr_refresh_token = None, cr_client_id = None,
       cr_client_secret = None, cr_region = region, cr_expires_at = 0, cr_auth_method = method\<rparr>,
     ac_usage = None, ac_subscription = None, ac_tags = [], ac_created_at = 0,
     ac_credit_exhausted = False\<rparr>"

lemma trim_id: "leading white_space s = None \<Longrightarrow> leading (map rev white_space) (rev s) = None \<Longrightarrow> trim s = s"
  by (simp add: trim_def trim_start_def trim_end_def strip_leading_id)

lemma demo_regions:
  "trim ''us-east-1'' = ''us-east-1''" "trim ''us-gov-west-1'' = ''us-gov-west-1''"
  by (rule trim_id; simp add: leading_def white_space_def)+

lemma demo_not_runtime_only: "\<not> runtime_only (demo_account Idc ''us-east-1'')"
  by (simp add: runtime_only_def demo_account_def account_api_region_def demo_regions profile_region_def
      starts_with_def Let_def split: if_splits)

theorem success_is_offered_first_witness:
  "\<exists>rest. fst (order 5 (demo_account Idc ''us-east-1'') None Generation
     (mark_success_locked (ac_id (demo_account Idc ''us-east-1'')) Generation Codewhisperer
       cache_default)) = Codewhisperer # rest"
  by (rule success_is_offered_first) (rule demo_not_runtime_only)

section \<open>Revisions\<close>

fun cleared :: "cache_op \<Rightarrow> string option" where
  "cleared (ClearFailures i) = Some i"
| "cleared (ClearAccount i) = Some i"
| "cleared _ = None"

definition clears :: "string \<Rightarrow> cache_op list \<Rightarrow> nat" where
  "clears i ops = length (filter (\<lambda>op. cleared op = Some i) ops)"

definition cleared_accounts :: "cache_op list \<Rightarrow> string set" where
  "cleared_accounts ops = {i. \<exists>op \<in> set ops. cleared op = Some i}"

lemma revisions_unchanged [simp]:
  "ec_revisions (snd (is_disabled now k e s)) = ec_revisions s"
  "ec_revisions (mark_success_locked i p e s) = ec_revisions s"
  "ec_revisions (mark_disabled_locked now ttl i p e s) = ec_revisions s"
  "ec_revisions (remove_failures i s) = ec_revisions s"
  by (auto simp: is_disabled_cases mark_success_locked_def mark_disabled_locked_def remove_failures_def
      evict_oldest_preferred_if_full_def evict_oldest_disabled_if_full_def Let_def
      split: option.split prod.split)

lemma push_candidates_revisions [simp]:
  "ec_revisions (snd (push_candidates now k cs ord s)) = ec_revisions s"
proof (induction cs arbitrary: ord s)
  case (Cons c cs)
  obtain d s' where d: "is_disabled now k c s = (d, s')" by (cases "is_disabled now k c s")
  then have "ec_revisions s' = ec_revisions s" by (metis revisions_unchanged(1) snd_conv)
  with Cons show ?case by (simp add: d)
qed simp

lemma cache_step_revisions:
  "ec_revisions (cache_step ttl op s) = (case cleared op of
     None \<Rightarrow> ec_revisions s | Some i \<Rightarrow> ec_revisions (bump_revision i s))"
  by (cases op)
    (auto simp: order_def mark_success_if_revision_def mark_disabled_if_revision_def
      clear_failures_def clear_account_def Let_def split: prod.split
      dest: arg_cong [where f = "\<lambda>x. ec_revisions (snd x)"])

lemma finite_cleared: "finite (cleared_accounts ops)"
proof -
  have "cleared_accounts ops \<subseteq> the ` cleared ` set ops"
    by (force simp: cleared_accounts_def)
  then show ?thesis by (rule finite_subset) simp
qed

lemma bump_revision_room:
  assumes "i \<in> hm_keys (ec_revisions s) \<or> length (ec_revisions s) < MAX_ENDPOINT_CACHE_SIZE"
  shows "hm_keys (ec_revisions (bump_revision i s)) = insert i (hm_keys (ec_revisions s))"
    and "hm_get (ec_revisions (bump_revision i s)) j
      = (if j = i then Some (revision_locked s i + 1) else hm_get (ec_revisions s) j)"
  using assms
  by (auto simp: bump_revision_def Let_def hm_contains_keys evict_oldest_def update_conv'
      revision_locked_def)

text \<open>While at most 500 accounts were ever cleared, a revision counts the account's clears.\<close>

lemma revisions_count:
  assumes "card (cleared_accounts ops) \<le> MAX_ENDPOINT_CACHE_SIZE"
  shows "hm_keys (ec_revisions (fold (cache_step ttl) ops cache_default)) = cleared_accounts ops
    \<and> (\<forall>i. revision_locked (fold (cache_step ttl) ops cache_default) i = of_nat (clears i ops))"
  using assms
proof (induction ops rule: rev_induct)
  case Nil
  then show ?case
    by (simp add: cache_default_def cleared_accounts_def revision_locked_def clears_def)
next
  case (snoc op ops)
  let ?s = "fold (cache_step ttl) ops cache_default"
  have sub: "cleared_accounts ops \<subseteq> cleared_accounts (ops @ [op])"
    by (auto simp: cleared_accounts_def)
  have le: "card (cleared_accounts ops) \<le> MAX_ENDPOINT_CACHE_SIZE"
    using card_mono [OF finite_cleared sub] snoc.prems by linarith
  note IH = snoc.IH [OF le]
  show ?case
  proof (cases "cleared op")
    case None
    then have "cleared_accounts (ops @ [op]) = cleared_accounts ops" "clears i (ops @ [op]) = clears i ops" for i
      by (auto simp: cleared_accounts_def clears_def)
    with None IH show ?thesis
      by (simp add: cache_step_revisions revision_locked_def)
  next
    case (Some i)
    have ca: "cleared_accounts (ops @ [op]) = insert i (cleared_accounts ops)"
      using Some by (auto simp: cleared_accounts_def)
    have wf: "hm_wf (ec_revisions ?s)"
      using cache.inv_run [of ttl ops] by (simp add: cache_inv_def oc_wf_def indexed_def)
    have room: "i \<in> hm_keys (ec_revisions ?s) \<or> length (ec_revisions ?s) < MAX_ENDPOINT_CACHE_SIZE"
      using IH ca snoc.prems hm_length_keys [OF wf] finite_cleared [of ops]
      by (cases "i \<in> cleared_accounts ops") auto
    show ?thesis
      using bump_revision_room [OF room] IH Some ca
      by (auto simp: cache_step_revisions revision_locked_def clears_def)
  qed
qed

lemma revision_guard:
  assumes "card (cleared_accounts (before @ since)) \<le> MAX_ENDPOINT_CACHE_SIZE"
    and "clears i (before @ since) < 2 ^ 64"
  shows "revision_locked (fold (cache_step ttl) (before @ since) cache_default) i
      = revision_locked (fold (cache_step ttl) before cache_default) i \<longleftrightarrow> clears i since = 0"
proof -
  let ?s = "fold (cache_step ttl) (before @ since) cache_default"
  let ?old = "fold (cache_step ttl) before cache_default"
  have "cleared_accounts before \<subseteq> cleared_accounts (before @ since)"
    by (auto simp: cleared_accounts_def)
  then have "card (cleared_accounts before) \<le> MAX_ENDPOINT_CACHE_SIZE"
    using assms(1) card_mono [OF finite_cleared] le_trans by blast
  then have seen: "revision_locked ?old i = of_nat (clears i before)"
    using revisions_count by blast
  have now: "revision_locked ?s i = of_nat (clears i (before @ since))"
    using revisions_count [OF assms(1)] by blast
  have sum: "clears i (before @ since) = clears i before + clears i since"
    by (simp add: clears_def)
  show ?thesis
  proof
    assume "revision_locked ?s i = revision_locked ?old i"
    then have "unat (of_nat (clears i (before @ since)) :: u64) = unat (of_nat (clears i before) :: u64)"
      by (simp only: now seen)
    then have "clears i (before @ since) mod 2 ^ 64 = clears i before mod 2 ^ 64"
      by (simp only: unat_of_nat word_size len_of_numeral_defs) simp
    then show "clears i since = 0"
      using assms(2) sum by simp
  qed (simp only: now seen sum add_0_right)
qed

text \<open>A guarded write carries the revision its request read. As long as at most 500 accounts
  have had their state cleared, the write is accepted exactly when the account was not cleared in
  the meantime, and a rejected write leaves the cache as it was.\<close>

theorem stale_writes_rejected:
  assumes "card (cleared_accounts (before @ since)) \<le> MAX_ENDPOINT_CACHE_SIZE"
    and "clears i (before @ since) < 2 ^ 64"
    and "s = fold (cache_step ttl) (before @ since) cache_default"
    and "seen = revision_locked (fold (cache_step ttl) before cache_default) i"
  shows "mark_success_if_revision i p e seen s =
      (if clears i since = 0 then (True, mark_success_locked i p e s) else (False, s))
    \<and> mark_disabled_if_revision now ttl i p e seen s =
      (if clears i since = 0 then (True, mark_disabled_locked now ttl i p e s) else (False, s))"
  using revision_guard [OF assms(1,2), of ttl] unfolding assms(3,4)
  by (simp add: mark_success_if_revision_def mark_disabled_if_revision_def)

theorem stale_writes_rejected_witness:
  "mark_success_if_revision ''a'' Models Runtime 0 (cache_step 600 (ClearAccount ''a'') cache_default)
     = (False, cache_step 600 (ClearAccount ''a'') cache_default)"
  using stale_writes_rejected [of "[]" "[ClearAccount ''a'']" "''a''"
      "cache_step 600 (ClearAccount ''a'') cache_default" 600 0 Models Runtime]
  by (simp add: cleared_accounts_def clears_def MAX_ENDPOINT_CACHE_SIZE_def revision_locked_def
      cache_default_def)

text \<open>
  Past the bound the guard is void: clearing 500 other accounts evicts the revision of the first
  one, whose count restarts from zero.
\<close>

definition other_id :: "nat \<Rightarrow> string" where
  "other_id n = replicate (Suc n) (CHR ''x'')"

lemma bump_revision_new:
  assumes "i \<notin> hm_keys (ec_revisions s)"
  shows "ec_revision_order (bump_revision i s) =
     (if MAX_ENDPOINT_CACHE_SIZE \<le> length (ec_revisions s)
      then drop 1 (ec_revision_order s) else ec_revision_order s) @ [i]"
  using assms
  by (cases "ec_revision_order s") (auto simp: bump_revision_def Let_def hm_contains_keys evict_oldest_def)

lemma clear_account_order [simp]:
  "ec_revision_order (clear_account i s) = ec_revision_order (bump_revision i s)"
  by (simp add: clear_account_def Let_def remove_failures_def)

lemma run_order:
  "distinct ids \<Longrightarrow> length ids \<le> MAX_ENDPOINT_CACHE_SIZE \<Longrightarrow>
     ec_revision_order (fold (cache_step ttl) (map ClearAccount ids) cache_default) = ids"
proof (induction ids rule: rev_induct)
  case Nil
  then show ?case by (simp add: cache_default_def)
next
  case (snoc i ids)
  let ?s = "fold (cache_step ttl) (map ClearAccount ids) cache_default"
  have "cache_inv ?s" by (rule cache.inv_run)
  then have ix: "indexed (ec_revisions ?s) (ec_revision_order ?s)"
    by (simp add: cache_inv_def oc_wf_def)
  then have "i \<notin> hm_keys (ec_revisions ?s)" "length (ec_revisions ?s) = length ids"
    using snoc indexed_length [OF ix] by (auto simp: indexed_def)
  with snoc show ?case by (simp add: bump_revision_new)
qed

text \<open>The 500-entry bound defeats the guard: after an account is cleared and 500 others are,
  its revision is zero again, and a write carrying the revision read before the account was cleared
  is accepted.\<close>

theorem revision_reset_accepts_stale_write:
  "\<exists>ops. clears ''a'' ops = 1 \<and>
     fst (mark_success_if_revision ''a'' p e (revision_locked cache_default ''a'')
       (fold (cache_step ttl) ops cache_default))"
proof -
  define ids where "ids = ''a'' # map other_id [0..<499]"
  define ops where "ops = map ClearAccount (ids @ [other_id 499])"
  define s where "s = fold (cache_step ttl) (map ClearAccount ids) cache_default"
  define t where "t = fold (cache_step ttl) ops cache_default"
  have inj: "inj other_id" by (rule injI) (metis length_replicate nat.inject other_id_def)
  have notin: "''a'' \<noteq> other_id n" for n by (simp add: other_id_def)
  have "other_id 499 \<notin> other_id ` {0..<499}"
    using inj by (simp add: inj_image_mem_iff)
  then have new: "other_id 499 \<notin> set ids"
    using notin [of 499] by (simp add: ids_def)
  have dist: "distinct ids"
    using inj_on_subset [OF inj] notin by (auto simp: distinct_map ids_def)
  have ord: "ec_revision_order s = ids"
    unfolding s_def by (rule run_order [OF dist]) (simp add: MAX_ENDPOINT_CACHE_SIZE_def ids_def)
  have ix: "indexed (ec_revisions s) (ec_revision_order s)"
    using cache.inv_run [of ttl "map ClearAccount ids"] by (simp add: cache_inv_def oc_wf_def s_def)
  have len: "length (ec_revisions s) = 500"
    using indexed_length [OF ix] by (simp add: ord ids_def)
  have fresh: "other_id 499 \<notin> hm_keys (ec_revisions s)"
    using ix ord new by (simp add: indexed_def)
  have t: "t = clear_account (other_id 499) s" by (simp add: t_def ops_def s_def)
  have "ec_revision_order t = map other_id [0..<499] @ [other_id 499]"
    using fresh len unfolding t
    by (simp add: bump_revision_new MAX_ENDPOINT_CACHE_SIZE_def ord ids_def del: upt_Suc)
  moreover have "indexed (ec_revisions t) (ec_revision_order t)"
    using cache.inv_run [of ttl ops] by (simp add: cache_inv_def oc_wf_def t_def)
  ultimately have "''a'' \<notin> hm_keys (ec_revisions t)"
    using notin by (auto simp: indexed_def)
  then have "revision_locked t ''a'' = revision_locked cache_default ''a''"
    by (simp add: revision_locked_def cache_default_def hm_get_None_iff [symmetric])
  moreover have "filter (\<lambda>op. cleared op = Some ''a'') (map ClearAccount (map other_id [0..<499])) = []"
    using notin [symmetric] by (auto simp: filter_empty_conv)
  then have "clears ''a'' ops = 1"
    using notin [of 499] by (simp add: clears_def ops_def ids_def del: map_map)
  ultimately show ?thesis
    unfolding mark_success_if_revision_def t_def by (intro exI [of _ ops]) simp
qed

section \<open>Regions\<close>

text \<open>The region an account's requests go to is a nonempty string of letters, digits and hyphens
  (so it cannot change the host or path of the URL it is put into), and a GovCloud account is never
  routed out of its own region, whatever its profile ARN says.\<close>

theorem api_region_safe:
  assumes "account_api_region a = Inr region"
  shows "region_syntax region
    \<and> (starts_with (trim (cr_region (ac_credentials a))) ''us-gov-''
         \<longrightarrow> region = trim (cr_region (ac_credentials a)) \<and> runtime_only a)"
  using assms by (auto simp: account_api_region_def runtime_only_def Let_def split: if_splits)

theorem api_region_safe_witness:
  "region_syntax ''us-gov-west-1'' \<and> runtime_only (demo_account Idc ''us-gov-west-1'')"
proof -
  have "account_api_region (demo_account Idc ''us-gov-west-1'') = Inr ''us-gov-west-1''"
    by (simp add: account_api_region_def demo_account_def demo_regions region_syntax_def starts_with_def
        is_ascii_alphanumeric_def is_ascii_alphabetic_def is_ascii_lowercase_def is_ascii_uppercase_def
        is_ascii_digit_def byte_def Let_def)
  moreover have "starts_with (trim (cr_region (ac_credentials (demo_account Idc ''us-gov-west-1'')))) ''us-gov-''"
    by (simp add: demo_account_def demo_regions starts_with_def)
  ultimately show ?thesis using api_region_safe by blast
qed

end
