(* ===== verification/Model.thy ===== *)
theory Model
  imports KiroProtocol
begin

text \<open>
  \<open>crates/kproxy-translate/src/model.rs\<close>: resolving a client's model name against the ids an
  account offers, the model-mapping rules with their schedules, and the adaptive-thinking
  controls. The clock, \<open>localtime_r\<close> and \<open>rand\<close>'s weighted choice are parameters.
\<close>

section \<open>Names\<close>

fun split_where :: "(char \<Rightarrow> bool) \<Rightarrow> string \<Rightarrow> string list" where
  "split_where P [] = [[]]"
| "split_where P (x # xs) =
     (if P x then [] # split_where P xs
      else (case split_where P xs of [] \<Rightarrow> [[x]] | p # ps \<Rightarrow> (x # p) # ps))"

definition model_tokens :: "string \<Rightarrow> string list" where
  "model_tokens model =
     filter (\<lambda>token. token \<noteq> [] \<and> token \<noteq> ''latest'' \<and> token \<noteq> ''model'')
       (split_where (\<lambda>c. \<not> is_ascii_alphanumeric c) (to_ascii_lowercase model))"

definition claude_families :: "string list" where
  "claude_families = [''opus'', ''sonnet'', ''haiku'']"

definition token_model_match :: "string \<Rightarrow> string \<Rightarrow> bool" where
  "token_model_match requested candidate =
     (let requested = model_tokens requested; candidate = model_tokens candidate in
      if requested = [] \<or> \<not> list_all (\<lambda>token. token \<in> set candidate) requested then False
      else list_all (\<lambda>family. (family \<in> set requested) = (family \<in> set candidate)) claude_families)"

definition claude_discovery_model_id :: "string \<Rightarrow> string" where
  "claude_discovery_model_id model =
     (let lower = to_ascii_lowercase model in
      if str_contains lower ''claude'' \<or> str_contains lower ''anthropic'' then model
      else ''anthropic.'' @ model)"

definition strip_discovery_prefix :: "string \<Rightarrow> string" where
  "strip_discovery_prefix model =
     (if 10 \<le> length model \<and> is_char_boundary model 10
         \<and> eq_ignore_ascii_case (take 10 model) ''anthropic.''
      then drop 10 model else model)"

definition dash_parts :: "string \<Rightarrow> string" where
  "dash_parts s = join ''-'' (filter (\<lambda>part. part \<noteq> []) (split_char (CHR ''-'') s))"

fun expand_family :: "string list \<Rightarrow> string \<Rightarrow> string option" where
  "expand_family [] alias = None"
| "expand_family (family # families) alias =
     (case strip_prefix alias family of
        None \<Rightarrow> expand_family families alias
      | Some version0 \<Rightarrow>
          (let version = unwrap_or (strip_prefix version0 ''-'') version0 in
           if version = []
              \<or> \<not> list_all (\<lambda>c. is_ascii_digit c \<or> c = CHR ''-'' \<or> c = CHR ''.'') version
              \<or> \<not> list_ex is_ascii_digit version
           then None
           else Some (''claude-'' @ family @ ''-''
             @ dash_parts (map (\<lambda>c. if c = CHR ''.'' then CHR ''-'' else c) version))))"

definition expand_compact_claude_alias :: "string \<Rightarrow> string option" where
  "expand_compact_claude_alias normalized =
     (let alias = unwrap_or (or_else (strip_prefix normalized ''claude-'')
            (strip_prefix normalized ''claude'')) normalized
      in expand_family claude_families alias)"

definition normalize_model_name :: "string \<Rightarrow> string" where
  "normalize_model_name model =
     (let normalized = dash_parts (map (\<lambda>c. if c = CHR ''_'' \<or> c = CHR ''.'' then CHR ''-'' else c)
            (to_ascii_lowercase (trim model)))
      in unwrap_or (expand_compact_claude_alias normalized) normalized)"

definition prefix_version_match :: "string \<Rightarrow> string \<Rightarrow> bool" where
  "prefix_version_match longer shorter = (case strip_prefix longer shorter of
       None \<Rightarrow> False
     | Some rest \<Rightarrow> rest = [] \<or> (case strip_prefix rest ''-'' of
           Some (next # _) \<Rightarrow> is_ascii_digit next | _ \<Rightarrow> False))"

definition first_digit :: "string \<Rightarrow> bool" where
  "first_digit part = (case part of [] \<Rightarrow> False | c # _ \<Rightarrow> is_ascii_digit c)"

definition u32_max :: int where "u32_max = 2 ^ 32 - 1"

definition model_family :: "string \<Rightarrow> (string \<times> nat list) option" where
  "model_family model =
     (let parts = split_char (CHR ''-'') (normalize_model_name model);
          family_parts = takeWhile (\<lambda>part. \<not> first_digit part) parts;
          version_parts = dropWhile (\<lambda>part. \<not> first_digit part) parts
      in if version_parts = [] \<or> family_parts = [] then None
         else let family = join ''-'' family_parts;
                  version = List.map_filter (parse_uint u32_max)
                    (takeWhile (list_all is_ascii_digit) version_parts)
              in if version \<noteq> [] then Some (family, version) else None)"

fun compare_version :: "nat list \<Rightarrow> nat list \<Rightarrow> ordering" where
  "compare_version [] [] = Equal"
| "compare_version (x # xs) [] = then_cmp (cmp_nat x 0) (compare_version xs [])"
| "compare_version [] (y # ys) = then_cmp (cmp_nat 0 y) (compare_version [] ys)"
| "compare_version (x # xs) (y # ys) = then_cmp (cmp_nat x y) (compare_version xs ys)"

definition compare_token_matches :: "string \<Rightarrow> string \<Rightarrow> ordering" where
  "compare_token_matches left right =
     (let by_length = then_cmp (cmp_nat (length right) (length left)) (str_cmp left right) in
      case (model_family left, model_family right) of
        (Some (lf, lv), Some (rf, rv)) \<Rightarrow>
          (if lf = rf then then_cmp (compare_version lv rv) by_length else by_length)
      | _ \<Rightarrow> by_length)"

definition compare_prefixed :: "string \<Rightarrow> string \<Rightarrow> ordering" where
  "compare_prefixed left right =
     (let by_name = str_cmp (normalize_model_name left) (normalize_model_name right) in
      case (model_family left, model_family right) of
        (Some (lf, lv), Some (rf, rv)) \<Rightarrow> (if lf = rf then compare_version lv rv else by_name)
      | _ \<Rightarrow> by_name)"

definition family_candidates :: "string \<Rightarrow> string list \<Rightarrow> (nat list \<times> string) list" where
  "family_candidates family available = List.map_filter (\<lambda>candidate.
     case model_family candidate of
       None \<Rightarrow> None
     | Some (f, version) \<Rightarrow> if f = family then Some (version, candidate) else None) available"

definition resolve_dynamic_model :: "string \<Rightarrow> string list \<Rightarrow> string option" where
  "resolve_dynamic_model model0 available =
     (if available = [] then None
      else case find (\<lambda>c. eq_ignore_ascii_case c model0) available of
        Some exact \<Rightarrow> Some exact
      | None \<Rightarrow>
          (let model = strip_discovery_prefix model0; requested = normalize_model_name model in
           case find (\<lambda>c. normalize_model_name c = requested) available of
             Some exact \<Rightarrow> Some exact
           | None \<Rightarrow>
               (case max_by compare_prefixed (filter (\<lambda>c.
                      let normalized = normalize_model_name c in
                      prefix_version_match requested normalized
                      \<or> prefix_version_match normalized requested) available) of
                  Some candidate \<Rightarrow> Some candidate
                | None \<Rightarrow>
                    (case max_by compare_token_matches (filter (token_model_match model) available) of
                       Some candidate \<Rightarrow> Some candidate
                     | None \<Rightarrow>
                         (case model_family model of
                            None \<Rightarrow> None
                          | Some (family, _) \<Rightarrow>
                              map_option snd (max_by (\<lambda>l r. compare_version (fst l) (fst r))
                                (family_candidates family available)))))))"

definition can_resolve_dynamic_model :: "string \<Rightarrow> string list \<Rightarrow> bool" where
  "can_resolve_dynamic_model model available \<longleftrightarrow> resolve_dynamic_model model available \<noteq> None"

section \<open>Mapping rules\<close>

record model_mapping_schedule =
  sc_mode :: string
  sc_days_of_week :: "nat list option"
  sc_days :: "string list option"
  sc_start_minutes :: "nat option"
  sc_start :: "string option"
  sc_end_minutes :: "nat option"
  sc_end :: "string option"
  sc_start_at :: "int option"
  sc_end_at :: "int option"

record model_mapping_rule =
  ru_name :: string
  ru_enabled :: bool
  ru_kind :: string
  ru_source_models :: "string list"
  ru_target_models :: "string list"
  ru_providers :: "string list"
  ru_service_ids :: "string list"
  ru_priority :: int
  ru_weights :: "nat list option"
  ru_max_remaining_credit_percent :: "f64 option"
  ru_api_key_ids :: "string list option"
  ru_schedule :: "model_mapping_schedule option"

record model_route =
  mr_original :: string
  mr_mapped :: string
  mr_rule :: "string option"
  mr_rule_index :: "nat option"

record model_mapping_context =
  cx_provider_id :: string
  cx_service_id :: "string option"
  cx_api_key_id :: "string option"
  cx_remaining_percent :: "f64 option"

definition glob :: "string \<Rightarrow> string \<Rightarrow> bool" where
  "glob pattern value =
     (if pattern = ''*'' then True
      else case split_once (CHR ''*'') pattern of
        Some (pre, suf) \<Rightarrow> starts_with value pre \<and> ends_with value suf
      | None \<Rightarrow> eq_ignore_ascii_case pattern value)"

definition model_glob_matches :: "string \<Rightarrow> string \<Rightarrow> bool" where
  "model_glob_matches pattern model = glob pattern model"

definition u16_max :: int where "u16_max = 2 ^ 16 - 1"

definition parse_clock :: "string \<Rightarrow> nat option" where
  "parse_clock value = Option.bind (split_once (CHR '':'') value) (\<lambda>(h, m).
     Option.bind (parse_uint u16_max h) (\<lambda>hour.
     Option.bind (parse_uint u16_max m) (\<lambda>minute.
       if hour < 24 \<and> minute < 60 then Some (hour * 60 + minute) else None)))"

definition parse_weekday :: "string \<Rightarrow> nat option" where
  "parse_weekday value =
     (let v = to_ascii_lowercase (trim value) in
      if v \<in> set [''sun'', ''sunday''] then Some 0
      else if v \<in> set [''mon'', ''monday''] then Some 1
      else if v \<in> set [''tue'', ''tues'', ''tuesday''] then Some 2
      else if v \<in> set [''wed'', ''wednesday''] then Some 3
      else if v \<in> set [''thu'', ''thur'', ''thurs'', ''thursday''] then Some 4
      else if v \<in> set [''fri'', ''friday''] then Some 5
      else if v \<in> set [''sat'', ''saturday''] then Some 6
      else None)"

definition schedule_mode :: "model_mapping_schedule \<Rightarrow> string" where
  "schedule_mode s =
     (if sc_mode s = ''always'' \<and> (sc_start s \<noteq> None \<or> sc_end s \<noteq> None
          \<or> sc_start_minutes s \<noteq> None \<or> sc_end_minutes s \<noteq> None \<or> sc_days s \<noteq> None
          \<or> sc_days_of_week s \<noteq> None)
      then ''daily''
      else if sc_mode s = ''always'' \<and> (sc_start_at s \<noteq> None \<or> sc_end_at s \<noteq> None) then ''range''
      else sc_mode s)"

definition in_window :: "nat option \<Rightarrow> nat option \<Rightarrow> nat \<Rightarrow> bool" where
  "in_window start until minutes = (case (start, until) of
       (Some s, Some e) \<Rightarrow> if s \<le> e then s \<le> minutes \<and> minutes < e else s \<le> minutes \<or> minutes < e
     | _ \<Rightarrow> True)"

definition schedule_active_at :: "model_mapping_schedule \<Rightarrow> int \<Rightarrow> nat \<Rightarrow> nat \<Rightarrow> bool" where
  "schedule_active_at s timestamp_ms day minutes =
     (let mode = schedule_mode s in
      if mode = ''range'' then
        (case sc_start_at s of None \<Rightarrow> True | Some start \<Rightarrow> start \<le> timestamp_ms)
        \<and> (case sc_end_at s of None \<Rightarrow> True | Some until \<Rightarrow> timestamp_ms \<le> until)
      else if mode = ''daily'' then
        (let configured_days = or_else (sc_days_of_week s)
               (map_option (List.map_filter parse_weekday) (sc_days s))
         in if (case configured_days of None \<Rightarrow> False | Some days \<Rightarrow> days \<noteq> [] \<and> day \<notin> set days)
            then False
            else in_window
              (or_else (sc_start_minutes s) (Option.bind (sc_start s) parse_clock))
              (or_else (sc_end_minutes s) (Option.bind (sc_end s) parse_clock)) minutes)
      else True)"

definition utc_day_and_minutes :: "int \<Rightarrow> nat \<times> nat" where
  "utc_day_and_minutes timestamp =
     (nat ((timestamp div 86400 + 4) mod 7), nat (timestamp mod 86400 div 60))"

definition clamp_int :: "int \<Rightarrow> int \<Rightarrow> int \<Rightarrow> int" where
  "clamp_int x lo hi = (if x < lo then lo else if hi < x then hi else x)"

text \<open>\<open>localtime_r\<close> returns weekday, hour and minute, or fails.\<close>

definition local_day_and_minutes :: "(int \<Rightarrow> (int \<times> int \<times> int) option) \<Rightarrow> int \<Rightarrow> nat \<times> nat" where
  "local_day_and_minutes localtime timestamp = (case localtime timestamp of
       None \<Rightarrow> utc_day_and_minutes timestamp
     | Some (wday, hour, minute) \<Rightarrow>
         (nat (clamp_int wday 0 6), nat (clamp_int hour 0 23 * 60 + clamp_int minute 0 59)))"

definition schedule_active ::
  "(int \<Rightarrow> (int \<times> int \<times> int) option) \<Rightarrow> int \<Rightarrow> model_mapping_schedule option \<Rightarrow> bool" where
  "schedule_active localtime now schedule = (case schedule of
       None \<Rightarrow> True
     | Some s \<Rightarrow> (let (day, minutes) = local_day_and_minutes localtime (now div 1000)
                  in schedule_active_at s now day minutes))"

text \<open>\<open>sample\<close> is the weighted choice, \<^const>\<open>None\<close> when the weights are rejected.\<close>

definition choose_target :: "(nat list \<Rightarrow> nat option) \<Rightarrow> model_mapping_rule \<Rightarrow> string option" where
  "choose_target sample rule =
     (if ru_target_models rule = [] then None
      else if ru_kind rule \<noteq> ''loadbalance'' \<or> length (ru_target_models rule) = 1
      then Some (hd (ru_target_models rule))
      else
        let weights = unwrap_or (opt_filter (\<lambda>ws. length ws = length (ru_target_models rule))
              (ru_weights rule)) (replicate (length (ru_target_models rule)) 1)
        in map_option (\<lambda>i. ru_target_models rule ! i) (sample weights))"

text \<open>The conditions a rule is skipped for, in the order of the loop body.\<close>

definition rule_applies ::
  "(int \<Rightarrow> (int \<times> int \<times> int) option) \<Rightarrow> int \<Rightarrow> string \<Rightarrow> model_mapping_context
     \<Rightarrow> model_mapping_rule \<Rightarrow> bool" where
  "rule_applies localtime now model cx rule \<longleftrightarrow>
     (if ru_providers rule = [] then cx_provider_id cx = ''kiro''
      else cx_provider_id cx \<in> set (ru_providers rule))
     \<and> (ru_service_ids rule = [] \<or> (case cx_service_id cx of None \<Rightarrow> False
          | Some service \<Rightarrow> service \<in> set (ru_service_ids rule)))
     \<and> schedule_active localtime now (ru_schedule rule)
     \<and> list_ex (\<lambda>pattern. glob pattern model \<or> glob pattern (strip_discovery_prefix model))
         (ru_source_models rule)
     \<and> (case ru_api_key_ids rule of None \<Rightarrow> True
        | Some ids \<Rightarrow> ids = [] \<or> (case cx_api_key_id cx of None \<Rightarrow> False | Some i \<Rightarrow> i \<in> set ids))
     \<and> (case ru_max_remaining_credit_percent rule of None \<Rightarrow> True
        | Some maximum \<Rightarrow> (case cx_remaining_percent cx of None \<Rightarrow> False
            | Some value \<Rightarrow> \<not> f_ge value maximum))"

definition strip_provider :: "string \<Rightarrow> string \<Rightarrow> string" where
  "strip_provider provider mapped = (case split_once (CHR ''/'') mapped of
       Some (p, model) \<Rightarrow> if p = provider then model else mapped
     | None \<Rightarrow> mapped)"

fun first_route ::
  "(nat \<Rightarrow> nat list \<Rightarrow> nat option) \<Rightarrow> (int \<Rightarrow> (int \<times> int \<times> int) option) \<Rightarrow> int \<Rightarrow> string
     \<Rightarrow> model_mapping_context \<Rightarrow> (nat \<times> model_mapping_rule) list \<Rightarrow> model_route option" where
  "first_route sample localtime now model cx [] = None"
| "first_route sample localtime now model cx ((rule_index, rule) # rules) =
     (if \<not> rule_applies localtime now model cx rule
      then first_route sample localtime now model cx rules
      else case choose_target (sample rule_index) rule of
          None \<Rightarrow> first_route sample localtime now model cx rules
        | Some mapped \<Rightarrow> Some \<lparr>mr_original = model,
            mr_mapped = strip_provider (cx_provider_id cx) mapped,
            mr_rule = Some (ru_name rule), mr_rule_index = Some rule_index\<rparr>)"

definition ordered_rules :: "model_mapping_rule list \<Rightarrow> (nat \<times> model_mapping_rule) list" where
  "ordered_rules rules = sort_key (\<lambda>(_, rule). ru_priority rule)
     (filter (\<lambda>(_, rule). ru_enabled rule) (List.enumerate 0 rules))"

definition map_model_for_provider ::
  "(nat \<Rightarrow> nat list \<Rightarrow> nat option) \<Rightarrow> (int \<Rightarrow> (int \<times> int \<times> int) option) \<Rightarrow> int \<Rightarrow> string
     \<Rightarrow> model_mapping_rule list \<Rightarrow> model_mapping_context \<Rightarrow> string \<Rightarrow> model_route" where
  "map_model_for_provider sample localtime now model rules cx default_model =
     (case first_route sample localtime now model cx (ordered_rules rules) of
        Some route \<Rightarrow> route
      | None \<Rightarrow> \<lparr>mr_original = model,
          mr_mapped = (if trim default_model = [] then strip_discovery_prefix model else default_model),
          mr_rule = None, mr_rule_index = None\<rparr>)"

definition map_model ::
  "(nat \<Rightarrow> nat list \<Rightarrow> nat option) \<Rightarrow> (int \<Rightarrow> (int \<times> int \<times> int) option) \<Rightarrow> int \<Rightarrow> string
     \<Rightarrow> model_mapping_rule list \<Rightarrow> string option \<Rightarrow> f64 option \<Rightarrow> string \<Rightarrow> model_route" where
  "map_model sample localtime now model rules api_key_id remaining_percent default_model =
     map_model_for_provider sample localtime now model rules
       \<lparr>cx_provider_id = ''kiro'', cx_service_id = None, cx_api_key_id = api_key_id,
        cx_remaining_percent = remaining_percent\<rparr> default_model"

section \<open>Thinking controls\<close>

datatype thinking_reason = ClientDisabled | ModelDisabled | ModelControlsUnavailable | Standard

definition should_enable_thinking :: "bool \<Rightarrow> bool \<Rightarrow> bool \<times> thinking_reason" where
  "should_enable_thinking client_enabled model_enabled =
     (if \<not> client_enabled then (False, ClientDisabled)
      else if \<not> model_enabled then (False, ModelDisabled)
      else (True, Standard))"

record thinking_decision =
  td_enabled :: bool
  td_reason :: thinking_reason
  td_effort :: "string option"

text \<open>The \<open>BTreeMap\<close> of modes is given as its entries in key order.\<close>

definition thinking_enabled_for_model :: "string \<Rightarrow> (string \<times> bool) list \<Rightarrow> bool" where
  "thinking_enabled_for_model model modes =
     unwrap_or (map_option snd (find (\<lambda>(key, _). eq_ignore_ascii_case model key
       \<or> starts_with (to_ascii_lowercase model) (to_ascii_lowercase key @ ''-'')) modes)) True"

definition effort_values :: "json option \<Rightarrow> string list" where
  "effort_values schema =
     filter (\<lambda>v. trim v \<noteq> []) (List.map_filter as_str (unwrap_or
       (Option.bind (Option.bind (Option.bind (Option.bind schema
          (\<lambda>s. v_get s ''properties'')) (\<lambda>s. v_get s ''effort'')) (\<lambda>s. v_get s ''enum'')) as_array) []))"

definition select_effort :: "string \<Rightarrow> string list \<Rightarrow> string" where
  "select_effort requested allowed =
     (if requested \<in> set allowed then requested
      else if allowed = [] then ''high''
      else if last allowed \<noteq> [] then last allowed else ''high'')"

definition budget_to_effort :: "u32 \<Rightarrow> string" where
  "budget_to_effort budget =
     (if budget \<le> 4000 then ''low'' else if budget \<le> 16000 then ''medium''
      else if budget \<le> 64000 then ''high'' else ''xhigh'')"

definition requested_effort :: "thinking_config option \<Rightarrow> string option \<Rightarrow> string" where
  "requested_effort thinking explicit_effort =
     unwrap_or (or_else (map_option to_ascii_lowercase explicit_effort)
       (map_option budget_to_effort
         (Option.bind (opt_filter (\<lambda>t. tc_type t = ''enabled'') thinking) tc_budget_tokens))) ''high''"

fun thinking_fields_for ::
  "string list \<Rightarrow> thinking_config option \<Rightarrow> string option \<Rightarrow> json option
     \<Rightarrow> (json \<times> string) option" where
  "thinking_fields_for [] thinking explicit_effort schema = None"
| "thinking_fields_for (path # paths) thinking explicit_effort schema =
     (let allowed = effort_values (Option.bind (Option.bind schema
            (\<lambda>s. v_get s ''properties'')) (\<lambda>s. v_get s path))
      in if allowed = [] then thinking_fields_for paths thinking explicit_effort schema
         else let effort = select_effort (requested_effort thinking explicit_effort) allowed in
           Some (if path = ''output_config''
             then JObject [(''output_config'', JObject [(''effort'', JString effort)]),
                    (''thinking'', JObject [(''display'', JString ''summarized''),
                       (''type'', JString ''adaptive'')])]
             else JObject [(''reasoning'', JObject [(''effort'', JString effort)])], effort))"

definition native_thinking_fields ::
  "thinking_config option \<Rightarrow> string option \<Rightarrow> json option \<Rightarrow> (json \<times> string) option" where
  "native_thinking_fields thinking explicit_effort schema =
     thinking_fields_for [''output_config'', ''reasoning''] thinking explicit_effort schema"

definition intent_default :: model_request_intent where
  "intent_default = \<lparr>mi_requested_model = [], mi_thinking = None, mi_effort = None,
     mi_automatic_history_truncation = False\<rparr>"

definition client_wants_thinking :: "model_request_intent \<Rightarrow> bool" where
  "client_wants_thinking intent \<longleftrightarrow>
     \<not> (case mi_thinking intent of None \<Rightarrow> False
        | Some t \<Rightarrow> eq_ignore_ascii_case (tc_type t) ''disabled'')
     \<and> (case mi_effort intent of Some _ \<Rightarrow> True | None \<Rightarrow>
          (case mi_thinking intent of None \<Rightarrow> False
           | Some t \<Rightarrow> to_ascii_lowercase (tc_type t) \<in> set [''enabled'', ''adaptive'']))"

definition apply_adaptive_thinking ::
  "kiro_payload \<Rightarrow> json option \<Rightarrow> bool \<Rightarrow> thinking_decision \<times> kiro_payload" where
  "apply_adaptive_thinking payload schema model_enabled =
     (let intent = unwrap_or (kp_model_request_intent payload) intent_default;
          (enabled, reason) = should_enable_thinking (client_wants_thinking intent) model_enabled
      in if \<not> enabled
         then (\<lparr>td_enabled = enabled, td_reason = reason, td_effort = None\<rparr>,
               payload\<lparr>kp_additional_model_request_fields := None\<rparr>)
         else (case native_thinking_fields (mi_thinking intent) (mi_effort intent) schema of
             None \<Rightarrow>
               (\<lparr>td_enabled = False, td_reason = ModelControlsUnavailable, td_effort = None\<rparr>,
                payload\<lparr>kp_additional_model_request_fields := None\<rparr>)
           | Some (flds, effort) \<Rightarrow>
               (\<lparr>td_enabled = True, td_reason = reason, td_effort = Some effort\<rparr>,
                payload\<lparr>kp_additional_model_request_fields := Some flds\<rparr>)))"

end
