(* ===== verification/ModelCorrect.thy ===== *)
theory ModelCorrect
  imports Model
begin

text \<open>
  Correctness of model resolution, of the mapping rules and of the thinking controls.
\<close>

section \<open>Resolution\<close>

lemma family_candidates_in:
  "(v, c) \<in> set (family_candidates f xs) \<longleftrightarrow> c \<in> set xs \<and> model_family c = Some (f, v)"
  by (induction xs) (auto simp: family_candidates_def List.map_filter_simps split: option.splits)

lemma resolve_in_available:
  "resolve_dynamic_model model available = Some m \<Longrightarrow> m \<in> set available"
  by (auto simp: resolve_dynamic_model_def Let_def family_candidates_in dest!: find_in max_by_in
      split: if_splits option.splits)

text \<open>A resolved model is always one of the ids the account offers; an id that equals the
  request up to ASCII case wins over every looser match, and the first such id is taken.\<close>

theorem resolve_offers_only_available:
  "(\<forall>m. resolve_dynamic_model model available = Some m \<longrightarrow> m \<in> set available)
   \<and> (\<forall>c. find (\<lambda>c. eq_ignore_ascii_case c model) available = Some c
        \<longrightarrow> resolve_dynamic_model model available = Some c)"
  using resolve_in_available by (auto simp: resolve_dynamic_model_def)

theorem resolve_offers_only_available_witness:
  "resolve_dynamic_model ''AUTO'' [''glm-5'', ''auto''] = Some ''auto''"
proof -
  have "find (\<lambda>c. eq_ignore_ascii_case c ''AUTO'') [''glm-5'', ''auto''] = Some ''auto''"
    by code_simp
  then show ?thesis using resolve_offers_only_available [of "''AUTO''" "[''glm-5'', ''auto'']"] by blast
qed

section \<open>Versions\<close>

fun flip_ordering :: "ordering \<Rightarrow> ordering" where
  "flip_ordering Less = Greater"
| "flip_ordering Equal = Equal"
| "flip_ordering Greater = Less"

text \<open>The numerals of a version, padded with zeros.\<close>

definition component :: "nat list \<Rightarrow> nat \<Rightarrow> nat" where
  "component v i = (if i < length v then v ! i else 0)"

lemma component_simps [simp]:
  "component [] i = 0"
  "component (x # xs) 0 = x"
  "component (x # xs) (Suc i) = component xs i"
  by (simp_all add: component_def)

lemma first_diff_shift:
  fixes f g :: "nat \<Rightarrow> nat"
  assumes "f 0 = g 0"
  shows "(\<exists>i. f i < g i \<and> (\<forall>j < i. f j = g j)) \<longleftrightarrow>
     (\<exists>i. f (Suc i) < g (Suc i) \<and> (\<forall>j < i. f (Suc j) = g (Suc j)))"
proof
  assume "\<exists>i. f i < g i \<and> (\<forall>j < i. f j = g j)"
  then obtain i where i: "f i < g i" "\<forall>j < i. f j = g j" by blast
  with assms obtain k where "i = Suc k" by (cases i) auto
  with i show "\<exists>i. f (Suc i) < g (Suc i) \<and> (\<forall>j < i. f (Suc j) = g (Suc j))" by auto
next
  assume "\<exists>i. f (Suc i) < g (Suc i) \<and> (\<forall>j < i. f (Suc j) = g (Suc j))"
  then obtain i where i: "f (Suc i) < g (Suc i)" "\<forall>j < i. f (Suc j) = g (Suc j)" by blast
  with assms have "\<forall>j < Suc i. f j = g j" by (auto simp: less_Suc_eq_0_disj)
  with i show "\<exists>i. f i < g i \<and> (\<forall>j < i. f j = g j)" by blast
qed

lemma first_diff_here:
  fixes f g :: "nat \<Rightarrow> nat"
  assumes "f 0 \<noteq> g 0"
  shows "(\<exists>i. f i < g i \<and> (\<forall>j < i. f j = g j)) \<longleftrightarrow> f 0 < g 0"
proof
  assume "\<exists>i. f i < g i \<and> (\<forall>j < i. f j = g j)"
  then obtain i where "f i < g i" "\<forall>j < i. f j = g j" by blast
  with assms show "f 0 < g 0" by (cases i) auto
qed auto

text \<open>The first differing component decides.\<close>

lemma compare_version_Less:
  "compare_version l r = Less \<longleftrightarrow>
     (\<exists>i. component l i < component r i \<and> (\<forall>j < i. component l j = component r j))"
proof (induction l r rule: compare_version.induct)
  case (2 x xs)
  then show ?case by (auto simp: cmp_nat_def)
next
  case (3 y ys)
  then show ?case
    using first_diff_shift [of "component []" "component (y # ys)"]
      first_diff_here [of "component []" "component (y # ys)"]
    by (cases "y = 0") (simp_all add: cmp_nat_def)
next
  case (4 x xs y ys)
  then show ?case
    using first_diff_shift [of "component (x # xs)" "component (y # ys)"]
      first_diff_here [of "component (x # xs)" "component (y # ys)"]
    by (cases "x = y") (simp_all add: cmp_nat_def)
qed simp

lemma compare_version_flip: "compare_version r l = flip_ordering (compare_version l r)"
  by (induction l r rule: compare_version.induct) (auto simp: cmp_nat_def)

lemma compare_version_not_Greater:
  "compare_version l r \<noteq> Greater \<longleftrightarrow> \<not> (\<exists>i. component r i < component l i
     \<and> (\<forall>j < i. component r j = component l j))"
proof -
  have "compare_version l r \<noteq> Greater \<longleftrightarrow> compare_version r l \<noteq> Less"
    using compare_version_flip [of l r] by (cases "compare_version r l") auto
  then show ?thesis by (simp only: compare_version_Less)
qed

lemma lex_trans:
  fixes f g h :: "nat \<Rightarrow> nat"
  assumes "\<exists>i. f i < h i \<and> (\<forall>j < i. f j = h j)"
  shows "(\<exists>i. f i < g i \<and> (\<forall>j < i. f j = g j)) \<or> (\<exists>i. g i < h i \<and> (\<forall>j < i. g j = h j))"
proof -
  obtain i where i: "f i < h i" "\<forall>j < i. f j = h j" using assms by blast
  show ?thesis
  proof (cases "\<forall>j \<le> i. f j = g j")
    case True
    with i show ?thesis by (metis le_refl less_imp_le_nat)
  next
    case False
    define k where "k = (LEAST k. f k \<noteq> g k)"
    obtain j where j: "j \<le> i" "f j \<noteq> g j" using False by blast
    have k1: "f k \<noteq> g k"
      unfolding k_def by (rule LeastI [of "\<lambda>k. f k \<noteq> g k", OF j(2)])
    have k2: "\<forall>j < k. f j = g j"
      unfolding k_def using not_less_Least [of _ "\<lambda>k. f k \<noteq> g k"] by blast
    have "k \<le> j" unfolding k_def by (rule Least_le [of "\<lambda>k. f k \<noteq> g k", OF j(2)])
    then have k3: "k \<le> i" using j(1) by simp
    note k = k1 k2 k3
    show ?thesis
    proof (cases "f k < g k")
      case True
      with k(2) show ?thesis by blast
    next
      case less: False
      with k(1) have "g k < f k" by simp
      moreover have "f k \<le> h k" using i k(3) by (cases "k = i") auto
      ultimately have "g k < h k" by linarith
      moreover have "\<forall>j < k. g j = h j" using i(2) k(2,3) by (metis less_le_trans)
      ultimately show ?thesis by blast
    qed
  qed
qed

text \<open>Orders that \<open>max_by\<close> is used with, and what it then returns.\<close>

locale comparator =
  fixes cmp :: "'a \<Rightarrow> 'a \<Rightarrow> ordering"
  assumes flip: "cmp y x = flip_ordering (cmp x y)"
    and trans: "cmp x y \<noteq> Greater \<Longrightarrow> cmp y z \<noteq> Greater \<Longrightarrow> cmp x z \<noteq> Greater"
begin

lemma refl: "cmp x x = Equal"
  using flip [of x x] by (cases "cmp x x") auto

lemma fold_max_ge:
  "x \<in> insert b (set xs) \<Longrightarrow>
     cmp x (fold (\<lambda>y best. if cmp best y = Greater then best else y) xs b) \<noteq> Greater"
proof (induction xs arbitrary: b x)
  case Nil
  then show ?case by (simp add: refl)
next
  case (Cons y ys)
  define b' where "b' = (if cmp b y = Greater then b else y)"
  have "cmp b b' \<noteq> Greater" "cmp y b' \<noteq> Greater"
    using flip [of y b] by (auto simp: b'_def refl)
  with Cons.IH [of _ b'] Cons.prems trans show ?case
    by (auto simp: b'_def [symmetric])
qed

lemma max_by_ge: "max_by cmp xs = Some m \<Longrightarrow> x \<in> set xs \<Longrightarrow> cmp x m \<noteq> Greater"
  by (cases xs) (auto simp: fold_max_ge)

end

lemma compare_version_trans:
  "compare_version x y \<noteq> Greater \<Longrightarrow> compare_version y z \<noteq> Greater \<Longrightarrow> compare_version x z \<noteq> Greater"
  unfolding compare_version_not_Greater using lex_trans [of "component z" "component x" "component y"]
  by blast

interpretation versioned: comparator "\<lambda>l r. compare_version (fst l) (fst r)"
  by unfold_locales (rule compare_version_flip, rule compare_version_trans)

text \<open>No offered id matches the request exactly, after normalisation, by version prefix or by tokens.\<close>

definition no_closer_match :: "string \<Rightarrow> string list \<Rightarrow> bool" where
  "no_closer_match model available \<longleftrightarrow>
     (let stripped = strip_discovery_prefix model; requested = normalize_model_name stripped in
      list_all (\<lambda>c. \<not> eq_ignore_ascii_case c model \<and> normalize_model_name c \<noteq> requested
        \<and> \<not> prefix_version_match requested (normalize_model_name c)
        \<and> \<not> prefix_version_match (normalize_model_name c) requested
        \<and> \<not> token_model_match stripped c) available)"

lemma resolve_by_family:
  assumes "no_closer_match model available" and "available \<noteq> []"
    and "model_family (strip_discovery_prefix model) = Some (family, requested_version)"
  shows "resolve_dynamic_model model available =
     map_option snd (max_by (\<lambda>l r. compare_version (fst l) (fst r)) (family_candidates family available))"
proof -
  let ?m = "strip_discovery_prefix model"
  have n: "\<And>c. c \<in> set available \<Longrightarrow> \<not> eq_ignore_ascii_case c model
      \<and> normalize_model_name c \<noteq> normalize_model_name ?m
      \<and> \<not> prefix_version_match (normalize_model_name ?m) (normalize_model_name c)
      \<and> \<not> prefix_version_match (normalize_model_name c) (normalize_model_name ?m)
      \<and> \<not> token_model_match ?m c"
    using assms(1) by (simp add: no_closer_match_def Let_def list_all_iff)
  have "find (\<lambda>c. eq_ignore_ascii_case c model) available = None"
    "find (\<lambda>c. normalize_model_name c = normalize_model_name ?m) available = None"
    using n by (auto simp: find_None_iff)
  moreover have "filter (\<lambda>c. prefix_version_match (normalize_model_name ?m) (normalize_model_name c)
      \<or> prefix_version_match (normalize_model_name c) (normalize_model_name ?m)) available = []"
    "filter (token_model_match ?m) available = []"
    using n by (auto simp: filter_empty_conv)
  ultimately show ?thesis
    using assms(2,3) by (simp add: resolve_dynamic_model_def Let_def)
qed

text \<open>When no closer match exists, the fallback stays inside the requested model family and picks
  a highest version of it: it returns some offered id of the family, and no offered id of the family
  has a greater version.\<close>

theorem family_fallback_is_highest_version:
  assumes "no_closer_match model available"
    and "model_family (strip_discovery_prefix model) = Some (family, requested_version)"
    and "c \<in> set available" and "model_family c = Some (family, v)"
  shows "\<exists>m version. resolve_dynamic_model model available = Some m \<and> m \<in> set available
    \<and> model_family m = Some (family, version) \<and> compare_version v version \<noteq> Greater"
proof -
  have ne: "available \<noteq> []" using assms(3) by auto
  have vc: "(v, c) \<in> set (family_candidates family available)"
    using assms(3,4) by (simp add: family_candidates_in)
  then obtain b where b: "max_by (\<lambda>l r. compare_version (fst l) (fst r)) (family_candidates family available) = Some b"
    by (metis list.set_cases max_by_None option.exhaust list.distinct(1))
  have "compare_version (fst (v, c)) (fst b) \<noteq> Greater"
    by (rule versioned.max_by_ge [OF b vc])
  moreover have "snd b \<in> set available \<and> model_family (snd b) = Some (family, fst b)"
    using max_by_in [OF b] family_candidates_in [of "fst b" "snd b"] by simp
  ultimately show ?thesis
    using resolve_by_family [OF assms(1) ne assms(2)] b by auto
qed

theorem family_fallback_is_highest_version_witness:
  "\<exists>m version. resolve_dynamic_model ''claude-opus-9'' [''claude-opus-4.5'', ''claude-opus-4.8''] = Some m
    \<and> m \<in> set [''claude-opus-4.5'', ''claude-opus-4.8'']
    \<and> model_family m = Some (''claude-opus'', version) \<and> compare_version [4, 8] version \<noteq> Greater"
proof (rule family_fallback_is_highest_version)
  show "no_closer_match ''claude-opus-9'' [''claude-opus-4.5'', ''claude-opus-4.8'']" by code_simp
  show "model_family (strip_discovery_prefix ''claude-opus-9'') = Some (''claude-opus'', [9])" by code_simp
  show "model_family ''claude-opus-4.8'' = Some (''claude-opus'', [4, 8])" by code_simp
qed simp

section \<open>Mapping rules\<close>

text \<open>A stable sort orders by key, then by the order the elements came in.\<close>

lemma sorted_wrt_stable:
  assumes "sorted (map f ys)" and "\<And>k. sorted_wrt R (filter (\<lambda>y. f y = k) ys)"
  shows "sorted_wrt (\<lambda>a b. f a < f b \<or> f a = f b \<and> R a b) ys"
  using assms
proof (induction ys)
  case (Cons y ys)
  have "sorted_wrt R (filter (\<lambda>y. f y = k) ys)" for k
    using Cons.prems(2) [of k] by (auto split: if_splits)
  moreover have "f y < f z \<or> f y = f z \<and> R y z" if "z \<in> set ys" for z
  proof (cases "f y = f z")
    case True
    then show ?thesis using Cons.prems(2) [of "f y"] that by auto
  next
    case False
    then show ?thesis using Cons.prems(1) that by force
  qed
  ultimately show ?case using Cons by simp
qed simp

lemma ordered_rules_sorted:
  "sorted_wrt (\<lambda>a b. ru_priority (snd a) < ru_priority (snd b)
     \<or> ru_priority (snd a) = ru_priority (snd b) \<and> fst a < fst b) (ordered_rules rules)"
proof -
  let ?xs = "filter (\<lambda>(_, rule). ru_enabled rule) (List.enumerate 0 rules)"
  have f: "(\<lambda>(_, rule). ru_priority rule) = (\<lambda>x. ru_priority (snd x))" by auto
  have "sorted_wrt (\<lambda>a b. fst a < fst b) (List.enumerate 0 rules)"
    by (simp add: enumerate_eq_zip sorted_wrt_iff_nth_less)
  then have "sorted_wrt (\<lambda>a b. fst a < fst b) (filter (\<lambda>y. ru_priority (snd y) = k) ?xs)" for k
    by (intro sorted_wrt_filter)
  then have "sorted_wrt (\<lambda>a b. fst a < fst b)
      (filter (\<lambda>y. ru_priority (snd y) = k) (sort_key (\<lambda>x. ru_priority (snd x)) ?xs))" for k
    by (simp add: sort_key_stable)
  then show ?thesis
    unfolding ordered_rules_def f by (intro sorted_wrt_stable) (auto simp: sorted_sort_key)
qed

lemma in_ordered_rules:
  "(i, r) \<in> set (ordered_rules rules) \<longleftrightarrow> i < length rules \<and> rules ! i = r \<and> ru_enabled r"
  by (auto simp: ordered_rules_def in_set_enumerate_eq)

lemma first_route_None:
  "first_route sample lt now model cx rs = None \<longleftrightarrow>
     (\<forall>(i, r) \<in> set rs. rule_applies lt now model cx r \<longrightarrow> choose_target (sample i) r = None)"
proof (induction rs)
  case (Cons x rs)
  obtain i r where x: "x = (i, r)" by (cases x)
  show ?case
    using Cons.IH by (cases "choose_target (sample i) r") (auto simp: x)
qed simp

lemma first_route_Some:
  assumes "first_route sample lt now model cx rs = Some route"
  shows "\<exists>before i r after t. rs = before @ (i, r) # after
    \<and> rule_applies lt now model cx r \<and> choose_target (sample i) r = Some t
    \<and> (\<forall>(j, q) \<in> set before. rule_applies lt now model cx q \<longrightarrow> choose_target (sample j) q = None)
    \<and> route = \<lparr>mr_original = model, mr_mapped = strip_provider (cx_provider_id cx) t,
         mr_rule = Some (ru_name r), mr_rule_index = Some i\<rparr>"
  using assms
proof (induction rs)
  case (Cons x rs)
  obtain i r where x: "x = (i, r)" by (cases x)
  show ?case
  proof (cases "rule_applies lt now model cx r \<and> choose_target (sample i) r \<noteq> None")
    case True
    then have "\<exists>t. x # rs = [] @ (i, r) # rs \<and> rule_applies lt now model cx r
        \<and> choose_target (sample i) r = Some t
        \<and> route = \<lparr>mr_original = model, mr_mapped = strip_provider (cx_provider_id cx) t,
             mr_rule = Some (ru_name r), mr_rule_index = Some i\<rparr>"
      using Cons.prems by (auto simp: x)
    then show ?thesis by fastforce
  next
    case False
    then have "first_route sample lt now model cx rs = Some route"
      using Cons.prems by (auto simp: x split: if_splits)
    from Cons.IH [OF this] obtain before j q after t where
      "rs = before @ (j, q) # after" "rule_applies lt now model cx q" "choose_target (sample j) q = Some t"
      "\<forall>(j, q) \<in> set before. rule_applies lt now model cx q \<longrightarrow> choose_target (sample j) q = None"
      "route = \<lparr>mr_original = model, mr_mapped = strip_provider (cx_provider_id cx) t,
         mr_rule = Some (ru_name q), mr_rule_index = Some j\<rparr>"
      by blast
    then show ?thesis
      using False by (intro exI [of _ "x # before"] exI [of _ j] exI [of _ q] exI [of _ after] exI [of _ t])
        (auto simp: x)
  qed
qed simp

text \<open>A rule that is enabled, applies to the request and has a target to offer.\<close>

definition eligible_rule ::
  "(nat \<Rightarrow> nat list \<Rightarrow> nat option) \<Rightarrow> (int \<Rightarrow> (int \<times> int \<times> int) option) \<Rightarrow> int \<Rightarrow> string
     \<Rightarrow> model_mapping_context \<Rightarrow> model_mapping_rule list \<Rightarrow> nat \<Rightarrow> bool" where
  "eligible_rule sample lt now model cx rules i \<longleftrightarrow> i < length rules \<and> ru_enabled (rules ! i)
     \<and> rule_applies lt now model cx (rules ! i) \<and> choose_target (sample i) (rules ! i) \<noteq> None"

text \<open>The route comes from the eligible rule of smallest priority, the earliest in the
  configuration among equals: it carries that rule's name, index and target (without the provider
  prefix). With no eligible rule the default model is used, or the client's own name when there is
  no default.\<close>

theorem map_model_uses_best_rule:
  "case mr_rule_index (map_model_for_provider sample lt now model rules cx fallback) of
     Some i \<Rightarrow> eligible_rule sample lt now model cx rules i
       \<and> map_model_for_provider sample lt now model rules cx fallback =
           \<lparr>mr_original = model, mr_mapped = strip_provider (cx_provider_id cx)
              (the (choose_target (sample i) (rules ! i))),
            mr_rule = Some (ru_name (rules ! i)), mr_rule_index = Some i\<rparr>
       \<and> {j. eligible_rule sample lt now model cx rules j}
           \<subseteq> {j. ru_priority (rules ! i) < ru_priority (rules ! j)
                \<or> ru_priority (rules ! i) = ru_priority (rules ! j) \<and> i \<le> j}
   | None \<Rightarrow> {j. eligible_rule sample lt now model cx rules j} = {}
       \<and> mr_mapped (map_model_for_provider sample lt now model rules cx fallback)
           = (if trim fallback = [] then strip_discovery_prefix model else fallback)"
proof (cases "first_route sample lt now model cx (ordered_rules rules)")
  case None
  then show ?thesis
    using first_route_None [of sample lt now model cx "ordered_rules rules"]
    by (auto simp: map_model_for_provider_def eligible_rule_def in_ordered_rules)
next
  case (Some route)
  from first_route_Some [OF Some] obtain before i r after t where
    sp: "ordered_rules rules = before @ (i, r) # after" and ap: "rule_applies lt now model cx r"
    and t: "choose_target (sample i) r = Some t"
    and bf: "\<forall>(j, q) \<in> set before. rule_applies lt now model cx q \<longrightarrow> choose_target (sample j) q = None"
    and ro: "route = \<lparr>mr_original = model, mr_mapped = strip_provider (cx_provider_id cx) t,
         mr_rule = Some (ru_name r), mr_rule_index = Some i\<rparr>"
    by blast
  have ir: "i < length rules" "rules ! i = r" "ru_enabled r"
    using in_ordered_rules [of i r rules] sp by auto
  have best: "ru_priority r < ru_priority (rules ! j) \<or> ru_priority r = ru_priority (rules ! j) \<and> i \<le> j"
    if "eligible_rule sample lt now model cx rules j" for j
  proof -
    have "(j, rules ! j) \<in> set (ordered_rules rules)" "(j, rules ! j) \<notin> set before"
      using that bf by (auto simp: eligible_rule_def in_ordered_rules)
    then have "(j, rules ! j) = (i, r) \<or> (j, rules ! j) \<in> set after" by (auto simp: sp)
    then show ?thesis
      using ordered_rules_sorted [of rules] unfolding sp by (auto simp: sorted_wrt_append)
  qed
  have el: "eligible_rule sample lt now model cx rules i"
    using ir ap t by (simp add: eligible_rule_def)
  have mp: "map_model_for_provider sample lt now model rules cx fallback = route"
    by (simp add: map_model_for_provider_def Some)
  have "{j. eligible_rule sample lt now model cx rules j}
      \<subseteq> {j. ru_priority (rules ! i) < ru_priority (rules ! j)
           \<or> ru_priority (rules ! i) = ru_priority (rules ! j) \<and> i \<le> j}"
    using best ir(2) by blast
  with el show ?thesis
    using ir(2) t by (simp add: mp ro)
qed

text \<open>A wildcard pattern is meant to match a name that has the pattern's prefix and suffix around
  something; the check lets them overlap, so a name too short to hold both is still matched.\<close>

theorem glob_prefix_and_suffix_may_overlap:
  "glob ''claude-*-4'' ''claude-4'' \<and> (\<nexists>mid. ''claude-4'' = ''claude-'' @ mid @ ''-4'')"
proof
  show "glob ''claude-*-4'' ''claude-4''" by code_simp
  show "\<nexists>mid. ''claude-4'' = ''claude-'' @ mid @ ''-4''"
  proof
    assume "\<exists>mid. ''claude-4'' = ''claude-'' @ mid @ ''-4''"
    then obtain mid where "''claude-4'' = ''claude-'' @ mid @ ''-4''" by blast
    then have "length ''claude-4'' = length (''claude-'' @ mid @ ''-4'')" by (rule arg_cong)
    then show False by simp
  qed
qed

section \<open>Thinking\<close>

lemma select_effort_allowed:
  assumes "effort_values schema \<noteq> []"
  shows "select_effort requested (effort_values schema) \<in> set (effort_values schema)"
proof -
  have "[] \<notin> set (effort_values schema)" by (simp add: effort_values_def)
  then have "last (effort_values schema) \<noteq> []" using last_in_set [OF assms] by metis
  with assms show ?thesis by (simp add: select_effort_def)
qed

text \<open>Thinking controls are sent only when the client asks for thinking, the operator allows it and
  the model's schema advertises effort values, and the effort sent is one of those advertised. The
  client's intent is kept, so applying the controls for another model starts from it again: the
  result of a second application does not depend on the first.\<close>

theorem thinking_controls_are_advertised:
  assumes "apply_adaptive_thinking p schema enabled = (d, p')"
  shows "kp_model_request_intent p' = kp_model_request_intent p
    \<and> (kp_additional_model_request_fields p' = None \<longleftrightarrow> \<not> td_enabled d)
    \<and> (td_enabled d \<longrightarrow> enabled
        \<and> client_wants_thinking (unwrap_or (kp_model_request_intent p) intent_default)
        \<and> (\<exists>path e. path \<in> {''output_config'', ''reasoning''} \<and> td_effort d = Some e
             \<and> e \<in> set (effort_values (Option.bind (Option.bind schema
                 (\<lambda>s. v_get s ''properties'')) (\<lambda>s. v_get s path)))))
    \<and> apply_adaptive_thinking p' schema' enabled' = apply_adaptive_thinking p schema' enabled'"
proof -
  let ?i = "unwrap_or (kp_model_request_intent p) intent_default"
  let ?ev = "\<lambda>path. effort_values (Option.bind (Option.bind schema (\<lambda>s. v_get s ''properties''))
      (\<lambda>s. v_get s path))"
  have p': "\<exists>x. p' = p\<lparr>kp_additional_model_request_fields := x\<rparr>"
    using assms by (auto simp: apply_adaptive_thinking_def Let_def should_enable_thinking_def
        split: if_splits option.splits)
  have "\<exists>path \<in> {''output_config'', ''reasoning''}. e \<in> set (?ev path)"
    if "native_thinking_fields (mi_thinking ?i) (mi_effort ?i) schema = Some (f, e)" for f e
    using that select_effort_allowed
    by (auto simp: native_thinking_fields_def Let_def split: if_splits)
  then have "td_enabled d \<Longrightarrow> \<exists>path e. path \<in> {''output_config'', ''reasoning''} \<and> td_effort d = Some e
      \<and> e \<in> set (?ev path)"
    using assms by (fastforce simp: apply_adaptive_thinking_def Let_def should_enable_thinking_def
        split: if_splits option.splits)
  moreover have "(kp_additional_model_request_fields p' = None \<longleftrightarrow> \<not> td_enabled d)
      \<and> (td_enabled d \<longrightarrow> enabled \<and> client_wants_thinking ?i)"
    using assms by (auto simp: apply_adaptive_thinking_def Let_def should_enable_thinking_def
        split: if_splits option.splits)
  moreover have "apply_adaptive_thinking p' schema' enabled' = apply_adaptive_thinking p schema' enabled'"
    using p' by (auto simp: apply_adaptive_thinking_def Let_def split: option.split prod.split)
  ultimately show ?thesis using p' by auto
qed

definition demo_thinking_payload :: kiro_payload where
  "demo_thinking_payload = \<lparr>kp_conversation_state = \<lparr>cs_agent_continuation_id = None,
     cs_agent_task_type = None, cs_chat_trigger_type = ''MANUAL'', cs_conversation_id = ''c'',
     cs_current_message = \<lparr>um_content = ''hi'', um_model_id = ''m'', um_origin = ''o'', um_images = [],
       um_documents = [], um_cache_point = None, um_client_cache_config = None, um_context = None\<rparr>,
     cs_history = []\<rparr>, kp_profile_arn = None, kp_inference_config = None,
     kp_additional_model_request_fields = None,
     kp_model_request_intent = Some (intent_default\<lparr>mi_effort := Some ''high''\<rparr>),
     kp_protected_history_messages = 0\<rparr>"

definition demo_schema :: json where
  "demo_schema = JObject [(''properties'', JObject [(''reasoning'', JObject [(''properties'',
     JObject [(''effort'', JObject [(''enum'', JArray [JString ''low'', JString ''high''])])])])])]"

lemma demo_trims: "trim ''low'' = ''low''" "trim ''high'' = ''high''"
  by (simp_all add: trim_def trim_start_def trim_end_def leading_def white_space_def strip_leading_id)

theorem thinking_controls_are_advertised_witness:
  "td_enabled (fst (apply_adaptive_thinking demo_thinking_payload (Some demo_schema) True))
   \<and> apply_adaptive_thinking (snd (apply_adaptive_thinking demo_thinking_payload (Some demo_schema) True))
       None True = apply_adaptive_thinking demo_thinking_payload None True"
proof -
  obtain d p' where a: "apply_adaptive_thinking demo_thinking_payload (Some demo_schema) True = (d, p')"
    by (cases "apply_adaptive_thinking demo_thinking_payload (Some demo_schema) True")
  have "td_enabled d"
    using a by (simp add: apply_adaptive_thinking_def demo_thinking_payload_def intent_default_def
        client_wants_thinking_def should_enable_thinking_def native_thinking_fields_def effort_values_def
        demo_schema_def demo_trims map_filter_def Let_def) auto
  then show ?thesis
    using thinking_controls_are_advertised [OF a, of None True] by (simp add: a)
qed

end
