(* ===== verification/Pool.thy ===== *)
theory Pool
  imports Catalog Model
begin

text \<open>
  \<open>crates/kproxy-pool/src/state.rs\<close> and \<open>pool.rs\<close>: the account pool. An
  \<open>Arc<AccountState>\<close> is a reference into a store of account states, because a lease keeps
  the state of an account alive after the account was removed from the pool, and an account
  removed and added again gets a fresh one. Live leases and waiting requests are part of the
  system's state. Instants and durations are in milliseconds. A panic of the catalog lookup
  (\<^const>\<open>static_subscription_can_serve\<close>) is \<^const>\<open>None\<close>.
\<close>

section \<open>Configuration\<close>

record balance_config =
  bc_weight_active :: f64
  bc_weight_credit :: f64
  bc_weight_idle :: f64
  bc_idle_window_ms :: nat

record cooldown_config =
  cd_max_error_count :: nat
  cd_cooldown_ms :: nat
  cd_error_cooldown_ms :: nat
  cd_quota_reset_ms :: nat
  cd_quota_error_window_ms :: nat
  cd_quota_error_threshold :: nat

record pool_config =
  pc_max_concurrent_per_account :: nat
  pc_max_queue_size :: nat
  pc_max_queue_wait_ms :: nat
  pc_queue_full_wait_ms :: nat
  pc_low_credit_min_remaining :: f64
  pc_enable_overage :: bool
  pc_max_overage_credits_per_account :: "f64 option"
  pc_daily_credit_limit :: f64
  pc_credit_estimate_per_1k_tokens :: f64
  pc_credit_estimate_output_token_cap :: nat
  pc_auto_switch_on_quota_exhausted :: bool
  pc_balance :: balance_config
  pc_cooldown :: cooldown_config

section \<open>Account states\<close>

datatype account_health = Available | Cooling | Exhausted | Banned | Refreshing

record account_state =
  as_account :: account
  as_active :: nat
  as_health :: account_health
  as_last_used_ms :: nat
  as_consecutive_errors :: nat
  as_cooling_until :: "nat option"
  as_quota_errors :: "nat list"
  as_supported_models :: "string list option"

definition account_state_new :: "account \<Rightarrow> account_state" where
  "account_state_new a = \<lparr>as_account = a, as_active = 0, as_health = Available, as_last_used_ms = 0,
     as_consecutive_errors = 0, as_cooling_until = None, as_quota_errors = [],
     as_supported_models = None\<rparr>"

definition set_health :: "account_health \<Rightarrow> account_state \<Rightarrow> account_state" where
  "set_health h s = s\<lparr>as_health := h\<rparr>"

text \<open>A compare-and-exchange: only a state that is still refreshing is restored.\<close>

definition restore_health_after_refresh :: "account_health \<Rightarrow> account_state \<Rightarrow> account_state" where
  "restore_health_after_refresh previous s =
     (let restored = (if previous = Cooling \<or> previous = Exhausted then previous else Available)
      in if as_health s = Refreshing then set_health restored s else s)"

definition try_acquire_slot :: "nat \<Rightarrow> account_state \<Rightarrow> account_state option" where
  "try_acquire_slot maximum s =
     (let maximum = (if maximum = 0 then usize_max else maximum) in
      if as_active s < maximum then Some (s\<lparr>as_active := as_active s + 1\<rparr>) else None)"

definition release_slot :: "account_state \<Rightarrow> account_state" where
  "release_slot s = s\<lparr>as_active := as_active s - 1\<rparr>"

definition mark_used_now :: "nat \<Rightarrow> account_state \<Rightarrow> account_state" where
  "mark_used_now now_ms s = s\<lparr>as_last_used_ms := now_ms\<rparr>"

definition state_reset_health :: "account_state \<Rightarrow> account_state" where
  "state_reset_health s = s\<lparr>as_health := Available, as_consecutive_errors := 0,
     as_cooling_until := None, as_quota_errors := [],
     as_account := (as_account s)\<lparr>ac_credit_exhausted := False\<rparr>\<rparr>"

text \<open>The model cache is a \<open>HashSet\<close>: its members, each once, in iteration order.\<close>

definition set_supported_models :: "string list \<Rightarrow> account_state \<Rightarrow> account_state" where
  "set_supported_models models s = s\<lparr>as_supported_models := Some (remdups models)\<rparr>"

definition supported_models :: "account_state \<Rightarrow> string list" where
  "supported_models s = sort_by str_cmp (unwrap_or (as_supported_models s) [])"

definition has_model_cache :: "account_state \<Rightarrow> bool" where
  "has_model_cache s \<longleftrightarrow> as_supported_models s \<noteq> None"

definition resolve_model :: "string \<Rightarrow> account_state \<Rightarrow> string option" where
  "resolve_model model s = Option.bind (as_supported_models s) (resolve_dynamic_model model)"

definition cooling_expired :: "nat \<Rightarrow> account_state \<Rightarrow> bool" where
  "cooling_expired now s \<longleftrightarrow> as_health s = Cooling
     \<and> (case as_cooling_until s of None \<Rightarrow> False | Some until \<Rightarrow> until \<le> now)"

definition cool_for :: "nat \<Rightarrow> nat \<Rightarrow> account_state \<Rightarrow> account_state" where
  "cool_for now duration s = (set_health Cooling s)\<lparr>as_cooling_until := Some (now + duration)\<rparr>"

section \<open>Credit\<close>

datatype account_credit_state = CreditAvailable | CreditProtected | CreditExhausted

definition effective_credit_limit :: "usage \<Rightarrow> pool_config \<Rightarrow> f64" where
  "effective_credit_limit u config =
     (let base = limit_without_overage u in
      if \<not> pc_enable_overage config then base
      else case (us_overage_cap u, pc_max_overage_credits_per_account config) of
          (Some upstream_cap, Some local_cap) \<Rightarrow> f_add base (f_min upstream_cap local_cap)
        | _ \<Rightarrow> us_limit u)"

definition remaining_credit_percent :: "usage \<Rightarrow> pool_config \<Rightarrow> f64 option" where
  "remaining_credit_percent u config =
     (let limit = effective_credit_limit u config in
      if f_gt limit (Fin 0)
      then Some (f_clamp (f_mul (f_div (f_sub limit (us_current u)) limit) (Fin 100)) (Fin 0) (Fin 100))
      else None)"

definition usage_credit_exhausted :: "usage \<Rightarrow> pool_config \<Rightarrow> bool" where
  "usage_credit_exhausted u config =
     (let limit = effective_credit_limit u config in
      f_gt limit (Fin 0) \<and> f_ge (us_current u) limit
      \<or> f_le limit (Fin 0) \<and> us_overage_cap u \<noteq> None)"

definition account_credit_state :: "account \<Rightarrow> pool_config \<Rightarrow> account_credit_state" where
  "account_credit_state a config =
     (if pc_enable_overage config then
        (if pc_max_overage_credits_per_account config \<noteq> None
            \<and> (case ac_usage a of None \<Rightarrow> False | Some u \<Rightarrow> usage_credit_exhausted u config)
         then CreditExhausted else CreditAvailable)
      else if ac_credit_exhausted a then CreditExhausted
      else case ac_usage a of
          None \<Rightarrow> CreditAvailable
        | Some u \<Rightarrow>
            (let limit = limit_without_overage u in
             if f_le limit (Fin 0) \<and> us_overage_cap u \<noteq> None then CreditExhausted
             else if f_le limit (Fin 0) then CreditAvailable
             else let remaining = f_max (f_sub limit (us_current u)) (Fin 0) in
               if f_le remaining (Fin 0) then CreditExhausted
               else if f_gt (pc_low_credit_min_remaining config) (Fin 0)
                       \<and> f_le remaining (pc_low_credit_min_remaining config)
               then CreditProtected else CreditAvailable))"

section \<open>The pool\<close>

datatype pool_error = NoAvailableAccount string | QueueFull | QueueTimeout | CreditsExhausted

record waiter =
  wt_model :: string
  wt_prefer_ids :: "string list"
  wt_deadline :: nat

record pool =
  pl_states :: "account_state list"
  pl_accounts :: "(string, nat) hmap"
  pl_config :: pool_config
  pl_queued :: nat
  pl_leases :: "nat list"
  pl_waiters :: "waiter list"

definition update_state :: "nat \<Rightarrow> (account_state \<Rightarrow> account_state) \<Rightarrow> pool \<Rightarrow> pool" where
  "update_state r f p = p\<lparr>pl_states := (pl_states p)[r := f (pl_states p ! r)]\<rparr>"

definition add_account :: "account \<Rightarrow> pool \<Rightarrow> pool" where
  "add_account a p = p\<lparr>pl_states := pl_states p @ [account_state_new a],
     pl_accounts := hm_insert (ac_id a) (length (pl_states p)) (pl_accounts p)\<rparr>"

definition pool_new :: "account list \<Rightarrow> pool_config \<Rightarrow> pool" where
  "pool_new accounts config = fold add_account accounts
     \<lparr>pl_states = [], pl_accounts = [], pl_config = config, pl_queued = 0, pl_leases = [],
      pl_waiters = []\<rparr>"

definition pool_get :: "string \<Rightarrow> pool \<Rightarrow> nat option" where
  "pool_get account_id p = hm_get (pl_accounts p) account_id"

definition snapshot :: "pool \<Rightarrow> account list" where
  "snapshot p = map (\<lambda>(_, r). as_account (pl_states p ! r)) (pl_accounts p)"

definition matching_account_ids :: "(account \<Rightarrow> bool) \<Rightarrow> pool \<Rightarrow> string set" where
  "matching_account_ids matches p = ac_id ` set (filter matches (snapshot p))"

subsection \<open>Selecting an account\<close>

definition can_serve_subscription :: "account \<Rightarrow> string \<Rightarrow> bool option" where
  "can_serve_subscription a model =
     (if cr_auth_method (ac_credentials a) = ApiKey then Some True
      else static_subscription_can_serve (map_option sb_kind (ac_subscription a)) model)"

definition serves_model :: "account_state \<Rightarrow> string \<Rightarrow> bool option" where
  "serves_model s model =
     (if model = [] then Some True
      else case as_supported_models s of
          Some models \<Rightarrow> Some (can_resolve_dynamic_model model models)
        | None \<Rightarrow> can_serve_subscription (as_account s) model)"

text \<open>The first step of \<open>eligible\<close> and of the counting: an expired cooldown ends.\<close>

definition wake :: "nat \<Rightarrow> account_state \<Rightarrow> account_state" where
  "wake now s = (if cooling_expired now s then set_health Available s else s)"

definition eligible :: "nat \<Rightarrow> pool_config \<Rightarrow> string \<Rightarrow> account_state \<Rightarrow> bool option \<times> account_state" where
  "eligible now config model s0 =
     (let s = wake now s0 in
      (if as_health s \<noteq> Available then Some False
       else if \<not> ac_enabled (as_account s) then Some False
       else if account_credit_state (as_account s) config \<noteq> CreditAvailable then Some False
       else serves_model s model, s))"

definition f_of_nat :: "nat \<Rightarrow> f64" where
  "f_of_nat n = Fin (of_nat n)"

record score_explanation =
  se_account_id :: string
  se_score :: f64
  se_active_factor :: f64
  se_credit_factor :: f64
  se_idle_factor :: f64
  se_eligible :: bool
  se_reason :: string

definition score :: "nat \<Rightarrow> pool_config \<Rightarrow> account_state \<Rightarrow> score_explanation" where
  "score now_ms config s =
     (let active_divisor = (if pc_max_concurrent_per_account config = 0 then Fin 10
            else f_of_nat (pc_max_concurrent_per_account config));
          active_factor = f_min (f_div (f_of_nat (as_active s)) active_divisor) (Fin 1);
          credit_factor = (case ac_usage (as_account s) of None \<Rightarrow> Fin 0
            | Some u \<Rightarrow> (let limit = effective_credit_limit u config in
                if f_gt limit (Fin 0) then f_clamp (f_div (us_current u) limit) (Fin 0) (Fin 1)
                else Fin 0));
          idle_ms = now_ms - as_last_used_ms s;
          idle_factor = f_sub (Fin 1) (f_min (f_div (f_of_nat idle_ms)
            (f_of_nat (max (bc_idle_window_ms (pc_balance config)) 1))) (Fin 1));
          total = f_add (f_add (f_mul (bc_weight_active (pc_balance config)) active_factor)
            (f_mul (bc_weight_credit (pc_balance config)) credit_factor))
            (f_mul (bc_weight_idle (pc_balance config)) idle_factor)
      in \<lparr>se_account_id = ac_id (as_account s), se_score = total, se_active_factor = active_factor,
          se_credit_factor = credit_factor, se_idle_factor = idle_factor, se_eligible = True,
          se_reason = ''available''\<rparr>)"

text \<open>The loop of \<open>candidates\<close>; \<open>jitter\<close> is the random summand of each entry.\<close>

fun scan_candidates ::
  "(nat \<Rightarrow> f64) \<Rightarrow> nat \<Rightarrow> nat \<Rightarrow> string \<Rightarrow> string list \<Rightarrow> nat list \<Rightarrow> (f64 \<times> nat) list \<Rightarrow> pool
     \<Rightarrow> (f64 \<times> nat) list option \<times> pool" where
  "scan_candidates jitter now now_ms model prefer_ids [] out p = (Some out, p)"
| "scan_candidates jitter now now_ms model prefer_ids (r # rs) out p =
     (if prefer_ids \<noteq> [] \<and> ac_id (as_account (pl_states p ! r)) \<notin> set prefer_ids
      then scan_candidates jitter now now_ms model prefer_ids rs out p
      else (case eligible now (pl_config p) model (pl_states p ! r) of
          (None, s) \<Rightarrow> (None, update_state r (\<lambda>_. s) p)
        | (Some ok, s) \<Rightarrow>
            (let p' = update_state r (\<lambda>_. s) p;
                 out' = (if ok then out @ [(f_add (se_score (score now_ms (pl_config p) s)) (jitter r), r)]
                         else out)
             in scan_candidates jitter now now_ms model prefer_ids rs out' p')))"

definition candidates ::
  "(nat \<Rightarrow> f64) \<Rightarrow> nat \<Rightarrow> nat \<Rightarrow> string \<Rightarrow> string list \<Rightarrow> pool
     \<Rightarrow> (f64 \<times> nat) list option \<times> pool" where
  "candidates jitter now now_ms model prefer_ids p =
     scan_candidates jitter now now_ms model prefer_ids (map snd (pl_accounts p)) [] p"

text \<open>\<open>partial_cmp(..).unwrap_or(Equal)\<close>.\<close>

definition score_cmp :: "f64 \<Rightarrow> f64 \<Rightarrow> ordering" where
  "score_cmp a b = (if f_lt a b then Less else if f_lt b a then Greater else Equal)"

fun take_first_slot :: "nat \<Rightarrow> nat \<Rightarrow> nat list \<Rightarrow> pool \<Rightarrow> nat option \<times> pool" where
  "take_first_slot now_ms maximum [] p = (None, p)"
| "take_first_slot now_ms maximum (r # rs) p =
     (case try_acquire_slot maximum (pl_states p ! r) of
        None \<Rightarrow> take_first_slot now_ms maximum rs p
      | Some s \<Rightarrow> (Some r, (update_state r (\<lambda>_. mark_used_now now_ms s) p)
          \<lparr>pl_leases := r # pl_leases p\<rparr>))"

text \<open>The result of an attempt: a panic, no free account, or a lease on a state.\<close>

definition try_acquire ::
  "(nat \<Rightarrow> f64) \<Rightarrow> nat \<Rightarrow> nat \<Rightarrow> string \<Rightarrow> string list \<Rightarrow> pool \<Rightarrow> nat option option \<times> pool" where
  "try_acquire jitter now now_ms model prefer_ids p =
     (case candidates jitter now now_ms model prefer_ids p of
        (None, p') \<Rightarrow> (None, p')
      | (Some cs, p') \<Rightarrow>
          (let sorted_cs = sort_by (\<lambda>l r. score_cmp (fst l) (fst r)) cs;
               (lease, p'') = take_first_slot now_ms (pc_max_concurrent_per_account (pl_config p'))
                 (map snd sorted_cs) p'
           in (Some lease, p'')))"

datatype acquire_outcome = Acquired nat | Failed pool_error | Waiting waiter | Panicked

text \<open>
  Entering the queue reads the position and counts the request in; every exit drops the guard and
  counts it out.
\<close>

definition enter_queue :: "nat \<Rightarrow> string \<Rightarrow> string list \<Rightarrow> pool \<Rightarrow> acquire_outcome \<times> pool" where
  "enter_queue now model prefer_ids p =
     (let config = pl_config p; queue_position = pl_queued p;
          queue_disabled = (pc_max_queue_size config = 0);
          overflow = (queue_disabled \<or> pc_max_queue_size config \<le> queue_position)
      in if overflow \<and> pc_queue_full_wait_ms config = 0 then (Failed QueueFull, p)
         else
           let wait = (if queue_disabled then 0
                 else if overflow then pc_queue_full_wait_ms config
                 else pc_max_queue_wait_ms config)
           in if wait = 0
              then (Failed (if overflow then QueueFull else NoAvailableAccount model), p)
              else
                let w = \<lparr>wt_model = model, wt_prefer_ids = prefer_ids, wt_deadline = now + wait\<rparr>
                in (Waiting w, p\<lparr>pl_queued := pl_queued p + 1, pl_waiters := w # pl_waiters p\<rparr>))"

text \<open>
  \<open>acquire\<close> up to its first wait, when no other task comes between its two scans and the
  queue; the scans, the slot loop and the queue are also steps of their own.
\<close>

definition acquire ::
  "(nat \<Rightarrow> f64) \<Rightarrow> nat \<Rightarrow> nat \<Rightarrow> string \<Rightarrow> string list \<Rightarrow> pool \<Rightarrow> acquire_outcome \<times> pool" where
  "acquire jitter now now_ms model prefer_ids p =
     (case candidates jitter now now_ms model prefer_ids p of
        (None, p1) \<Rightarrow> (Panicked, p1)
      | (Some [], p1) \<Rightarrow> (Failed (NoAvailableAccount model), p1)
      | (Some _, p1) \<Rightarrow>
          (case try_acquire jitter now now_ms model prefer_ids p1 of
             (None, p2) \<Rightarrow> (Panicked, p2)
           | (Some (Some r), p2) \<Rightarrow> (Acquired r, p2)
           | (Some None, p2) \<Rightarrow> enter_queue now model prefer_ids p2))"

definition leave_queue :: "waiter \<Rightarrow> pool \<Rightarrow> pool" where
  "leave_queue w p = p\<lparr>pl_queued := pl_queued p - 1, pl_waiters := remove1 w (pl_waiters p)\<rparr>"

text \<open>One turn of the waiting loop, at a notification or at the deadline.\<close>

definition acquire_wake ::
  "(nat \<Rightarrow> f64) \<Rightarrow> nat \<Rightarrow> nat \<Rightarrow> waiter \<Rightarrow> pool \<Rightarrow> acquire_outcome \<times> pool" where
  "acquire_wake jitter now now_ms w p =
     (if wt_deadline w \<le> now then (Failed QueueTimeout, leave_queue w p)
      else (case try_acquire jitter now now_ms (wt_model w) (wt_prefer_ids w) p of
          (None, p') \<Rightarrow> (Panicked, leave_queue w p')
        | (Some (Some r), p') \<Rightarrow> (Acquired r, leave_queue w p')
        | (Some None, p') \<Rightarrow> (Waiting w, p')))"

definition acquire_excluding ::
  "(nat \<Rightarrow> f64) \<Rightarrow> nat \<Rightarrow> nat \<Rightarrow> string \<Rightarrow> string set \<Rightarrow> pool \<Rightarrow> acquire_outcome \<times> pool" where
  "acquire_excluding jitter now now_ms model excluded_ids p =
     (let candidate_ids = map ac_id (filter (\<lambda>a. ac_id a \<notin> excluded_ids) (snapshot p)) in
      if candidate_ids = [] then (Failed (NoAvailableAccount model), p)
      else acquire jitter now now_ms model candidate_ids p)"

definition acquire_scoped_excluding ::
  "(nat \<Rightarrow> f64) \<Rightarrow> nat \<Rightarrow> nat \<Rightarrow> string \<Rightarrow> string list \<Rightarrow> string set \<Rightarrow> pool
     \<Rightarrow> acquire_outcome \<times> pool" where
  "acquire_scoped_excluding jitter now now_ms model allowed_ids excluded_ids p =
     (let candidate_ids = filter (\<lambda>i. i \<notin> excluded_ids) allowed_ids in
      if candidate_ids = [] then (Failed (NoAvailableAccount model), p)
      else acquire jitter now now_ms model candidate_ids p)"

text \<open>Dropping a lease.\<close>

definition drop_lease :: "nat \<Rightarrow> nat \<Rightarrow> pool \<Rightarrow> pool" where
  "drop_lease now_ms r p =
     (update_state r (\<lambda>s. mark_used_now now_ms (release_slot s)) p)
       \<lparr>pl_leases := remove1 r (pl_leases p)\<rparr>"

definition settle_usage :: "int option \<Rightarrow> f64 \<Rightarrow> usage \<Rightarrow> usage" where
  "settle_usage now_secs actual u =
     (let optimistic = f_add (us_current u) actual;
          current = (if f_gt (us_limit u) (Fin 0) then f_min optimistic (us_limit u) else optimistic)
      in u\<lparr>us_current := current,
           us_percent_used := (if f_gt (us_limit u) (Fin 0)
             then f_clamp (f_mul (f_div current (us_limit u)) (Fin 100)) (Fin 0) (Fin 100) else Fin 0),
           us_updated_at := unwrap_or now_secs (us_updated_at u)\<rparr>)"

definition settle_credits :: "int option \<Rightarrow> nat \<Rightarrow> f64 \<Rightarrow> pool \<Rightarrow> pool" where
  "settle_credits now_secs r actual p =
     (if \<not> is_finite actual \<or> f_le actual (Fin 0) then p
      else update_state r (\<lambda>s. s\<lparr>as_account := (as_account s)\<lparr>ac_usage :=
             map_option (settle_usage now_secs actual) (ac_usage (as_account s))\<rparr>\<rparr>) p)"

subsection \<open>Recording results\<close>

definition with_account :: "string \<Rightarrow> (account_state \<Rightarrow> account_state) \<Rightarrow> pool \<Rightarrow> pool" where
  "with_account account_id f p = (case pool_get account_id p of
       None \<Rightarrow> p | Some r \<Rightarrow> update_state r f p)"

definition success_on :: "account_state \<Rightarrow> account_state" where
  "success_on s =
     (let s1 = s\<lparr>as_consecutive_errors := 0\<rparr>
      in if as_health s1 = Cooling then set_health Available s1 else s1)"

definition record_success :: "string \<Rightarrow> pool \<Rightarrow> pool" where
  "record_success account_id p = with_account account_id success_on p"

text \<open>The error counter is an \<open>AtomicU32\<close>: it wraps.\<close>

definition error_on :: "nat \<Rightarrow> cooldown_config \<Rightarrow> account_state \<Rightarrow> account_state" where
  "error_on now config s =
     (let count = (as_consecutive_errors s + 1) mod 2 ^ 32;
          duration = (if cd_max_error_count config \<le> count then cd_cooldown_ms config
                      else cd_error_cooldown_ms config)
      in cool_for now duration (s\<lparr>as_consecutive_errors := count\<rparr>))"

definition record_error :: "nat \<Rightarrow> string \<Rightarrow> pool \<Rightarrow> pool" where
  "record_error now account_id p = with_account account_id (error_on now (pc_cooldown (pl_config p))) p"

definition quota_error_on :: "nat \<Rightarrow> cooldown_config \<Rightarrow> account_state \<Rightarrow> account_state" where
  "quota_error_on now config s =
     (let errors = dropWhile (\<lambda>time. cd_quota_error_window_ms config < now - time) (as_quota_errors s)
            @ [now];
          s1 = s\<lparr>as_quota_errors := errors\<rparr>
      in if cd_quota_error_threshold config \<le> length errors mod 2 ^ 32
         then (set_health Exhausted s1)\<lparr>as_account := (as_account s1)\<lparr>ac_credit_exhausted := True\<rparr>\<rparr>
         else cool_for now (cd_error_cooldown_ms config) s1)"

definition record_quota_error :: "nat \<Rightarrow> string \<Rightarrow> pool \<Rightarrow> pool" where
  "record_quota_error now account_id p =
     with_account account_id (quota_error_on now (pc_cooldown (pl_config p))) p"

definition mark_banned :: "string \<Rightarrow> pool \<Rightarrow> pool" where
  "mark_banned account_id p = with_account account_id (set_health Banned) p"

definition reset_health :: "string \<Rightarrow> pool \<Rightarrow> bool \<times> pool" where
  "reset_health account_id p = (case pool_get account_id p of
       None \<Rightarrow> (False, p) | Some r \<Rightarrow> (True, update_state r state_reset_health p))"

subsection \<open>Configuration and summaries\<close>

text \<open>\<open>replace_accounts\<close> reads the old map throughout and installs the new one at the end.\<close>

fun replace_loop ::
  "(string, nat) hmap \<Rightarrow> account list \<Rightarrow> (string, nat) hmap \<Rightarrow> account_state list
     \<Rightarrow> (string, nat) hmap \<times> account_state list" where
  "replace_loop current [] next states = (next, states)"
| "replace_loop current (a # as) next states = (case hm_get current (ac_id a) of
       Some r \<Rightarrow> replace_loop current as (hm_insert (ac_id a) r next)
         (states[r := (states ! r)\<lparr>as_account := a\<rparr>])
     | None \<Rightarrow> replace_loop current as (hm_insert (ac_id a) (length states) next)
         (states @ [account_state_new a]))"

definition replace_accounts :: "account list \<Rightarrow> pool \<Rightarrow> pool" where
  "replace_accounts accounts p =
     (let (next, states) = replace_loop (pl_accounts p) accounts [] (pl_states p)
      in p\<lparr>pl_accounts := next, pl_states := states\<rparr>)"

definition update_config :: "pool_config \<Rightarrow> pool \<Rightarrow> pool" where
  "update_config config p = p\<lparr>pl_config := config\<rparr>"

definition pool_active :: "pool \<Rightarrow> nat" where
  "pool_active p = sum_list (map (\<lambda>(_, r). as_active (pl_states p ! r)) (pl_accounts p))"

record account_pool_counts =
  ct_total :: nat
  ct_enabled :: nat
  ct_available :: nat
  ct_protected :: nat
  ct_cooling :: nat
  ct_exhausted :: nat
  ct_banned :: nat
  ct_refreshing :: nat
  ct_disabled :: nat

definition counts_default :: account_pool_counts where
  "counts_default = \<lparr>ct_total = 0, ct_enabled = 0, ct_available = 0, ct_protected = 0, ct_cooling = 0,
     ct_exhausted = 0, ct_banned = 0, ct_refreshing = 0, ct_disabled = 0\<rparr>"

definition count_account ::
  "pool_config \<Rightarrow> account_state \<Rightarrow> account_pool_counts \<Rightarrow> account_pool_counts" where
  "count_account config s c0 =
     (let c1 = c0\<lparr>ct_total := ct_total c0 + 1\<rparr> in
      if \<not> ac_enabled (as_account s) then c1\<lparr>ct_disabled := ct_disabled c1 + 1\<rparr>
      else let c = c1\<lparr>ct_enabled := ct_enabled c1 + 1\<rparr> in
        case account_credit_state (as_account s) config of
          CreditProtected \<Rightarrow> c\<lparr>ct_protected := ct_protected c + 1\<rparr>
        | CreditExhausted \<Rightarrow> c\<lparr>ct_exhausted := ct_exhausted c + 1\<rparr>
        | CreditAvailable \<Rightarrow> (case as_health s of
              Available \<Rightarrow> c\<lparr>ct_available := ct_available c + 1\<rparr>
            | Cooling \<Rightarrow> c\<lparr>ct_cooling := ct_cooling c + 1\<rparr>
            | Exhausted \<Rightarrow> c\<lparr>ct_exhausted := ct_exhausted c + 1\<rparr>
            | Banned \<Rightarrow> c\<lparr>ct_banned := ct_banned c + 1\<rparr>
            | Refreshing \<Rightarrow> c\<lparr>ct_refreshing := ct_refreshing c + 1\<rparr>))"

definition in_scope :: "string set option \<Rightarrow> account \<Rightarrow> bool" where
  "in_scope allowed_ids a = (case allowed_ids of None \<Rightarrow> True | Some ids \<Rightarrow> ac_id a \<in> ids)"

fun count_loop ::
  "nat \<Rightarrow> string set option \<Rightarrow> nat list \<Rightarrow> account_pool_counts \<Rightarrow> pool
     \<Rightarrow> account_pool_counts \<times> pool" where
  "count_loop now allowed_ids [] c p = (c, p)"
| "count_loop now allowed_ids (r # rs) c p =
     (let p' = update_state r (wake now) p; s = pl_states p' ! r
      in count_loop now allowed_ids rs
           (if in_scope allowed_ids (as_account s) then count_account (pl_config p) s c else c) p')"

definition scheduling_counts_in ::
  "nat \<Rightarrow> string set option \<Rightarrow> pool \<Rightarrow> account_pool_counts \<times> pool" where
  "scheduling_counts_in now allowed_ids p =
     count_loop now allowed_ids (map snd (pl_accounts p)) counts_default p"

fun exhausted_loop ::
  "pool_config \<Rightarrow> string \<Rightarrow> string set option \<Rightarrow> account_state list \<Rightarrow> bool \<Rightarrow> bool option" where
  "exhausted_loop config model allowed_ids [] matched = Some matched"
| "exhausted_loop config model allowed_ids (s # ss) matched =
     (if \<not> in_scope allowed_ids (as_account s) \<or> \<not> ac_enabled (as_account s)
      then exhausted_loop config model allowed_ids ss matched
      else (case serves_model s model of
          None \<Rightarrow> None
        | Some False \<Rightarrow> exhausted_loop config model allowed_ids ss matched
        | Some True \<Rightarrow>
            if as_health s \<noteq> Exhausted \<and> account_credit_state (as_account s) config = CreditAvailable
            then Some False
            else exhausted_loop config model allowed_ids ss True))"

definition all_matching_credit_exhausted_in :: "string \<Rightarrow> string set option \<Rightarrow> pool \<Rightarrow> bool option" where
  "all_matching_credit_exhausted_in model allowed_ids p =
     exhausted_loop (pl_config p) model allowed_ids
       (map (\<lambda>(_, r). pl_states p ! r) (pl_accounts p)) False"

definition all_enabled_credit_exhausted :: "pool \<Rightarrow> bool" where
  "all_enabled_credit_exhausted p =
     (let enabled = filter (\<lambda>s. ac_enabled (as_account s))
            (map (\<lambda>(_, r). pl_states p ! r) (pl_accounts p))
      in enabled \<noteq> [] \<and> list_all (\<lambda>s. as_health s = Exhausted
           \<or> account_credit_state (as_account s) (pl_config p) = CreditExhausted) enabled)"

fun health_name :: "account_health \<Rightarrow> string" where
  "health_name Available = ''available''"
| "health_name Cooling = ''cooling''"
| "health_name Exhausted = ''exhausted''"
| "health_name Banned = ''banned''"
| "health_name Refreshing = ''refreshing''"

definition ineligible_reason :: "pool_config \<Rightarrow> account_state \<Rightarrow> string" where
  "ineligible_reason config s =
     (if \<not> ac_enabled (as_account s) then ''disabled''
      else if as_health s = Cooling \<or> as_health s = Banned \<or> as_health s = Refreshing
      then health_name (as_health s)
      else (case account_credit_state (as_account s) config of
          CreditExhausted \<Rightarrow> ''exhausted''
        | CreditProtected \<Rightarrow> ''low_credit''
        | CreditAvailable \<Rightarrow> if as_health s \<noteq> Available then health_name (as_health s)
            else ''model_unavailable''))"

fun explain_loop ::
  "nat \<Rightarrow> nat \<Rightarrow> string \<Rightarrow> nat list \<Rightarrow> score_explanation list \<Rightarrow> pool
     \<Rightarrow> score_explanation list option \<times> pool" where
  "explain_loop now now_ms model [] out p = (Some out, p)"
| "explain_loop now now_ms model (r # rs) out p =
     (case eligible now (pl_config p) model (pl_states p ! r) of
        (None, s) \<Rightarrow> (None, update_state r (\<lambda>_. s) p)
      | (Some ok, s) \<Rightarrow>
          explain_loop now now_ms model rs
            (out @ [if ok then score now_ms (pl_config p) s
              else \<lparr>se_account_id = ac_id (as_account s), se_score = PosInf, se_active_factor = Fin 0,
                    se_credit_factor = Fin 0, se_idle_factor = Fin 0, se_eligible = False,
                    se_reason = ineligible_reason (pl_config p) s\<rparr>])
            (update_state r (\<lambda>_. s) p))"

definition explain :: "nat \<Rightarrow> nat \<Rightarrow> string \<Rightarrow> pool \<Rightarrow> score_explanation list option \<times> pool" where
  "explain now now_ms model p =
     (let (out, p') = explain_loop now now_ms model (map snd (pl_accounts p)) [] p
      in (map_option (sort_by (\<lambda>l r. score_cmp (se_score l) (se_score r))) out, p'))"

end
