(* ===== verification/PoolCorrect.thy ===== *)
theory PoolCorrect
  imports Pool
begin

text \<open>
  Correctness of the account pool: the accounting of slots, leases and queue entries under every
  sequence of operations, what an acquired account is guaranteed to be, and the scheduling counts.
\<close>

section \<open>Operations as steps\<close>

datatype pool_op =
    OpAcquire "nat \<Rightarrow> f64" nat nat string "string list"
  | OpScan "nat \<Rightarrow> f64" nat nat string "string list"
  | OpSlots nat "nat list"
  | OpEnqueue nat string "string list"
  | OpWake "nat \<Rightarrow> f64" nat nat waiter
  | OpCancel waiter
  | OpDropLease nat nat
  | OpSettle "int option" nat f64
  | OpSuccess string
  | OpError nat string
  | OpQuotaError nat string
  | OpBan string
  | OpReset string
  | OpSetModels string "string list"
  | OpReplace "account list"
  | OpConfig pool_config
  | OpCounts nat "string set option"
  | OpExplain nat nat string

text \<open>
  A request acquires in one step or, with other tasks in between, in several: a scan of the
  candidates, the loop over their slots, whatever has happened to them since, and the queue.
  It can only drop a lease or leave a queue it is in.
\<close>

fun pool_step :: "pool_op \<Rightarrow> pool \<Rightarrow> pool" where
  "pool_step (OpAcquire j now now_ms model ids) p = snd (acquire j now now_ms model ids p)"
| "pool_step (OpScan j now now_ms model ids) p = snd (candidates j now now_ms model ids p)"
| "pool_step (OpSlots now_ms rs) p = (if \<forall>r \<in> set rs. r < length (pl_states p)
     then snd (take_first_slot now_ms (pc_max_concurrent_per_account (pl_config p)) rs p) else p)"
| "pool_step (OpEnqueue now model ids) p = snd (enter_queue now model ids p)"
| "pool_step (OpWake j now now_ms w) p =
     (if w \<in> set (pl_waiters p) then snd (acquire_wake j now now_ms w p) else p)"
| "pool_step (OpCancel w) p = (if w \<in> set (pl_waiters p) then leave_queue w p else p)"
| "pool_step (OpDropLease now_ms r) p = (if r \<in> set (pl_leases p) then drop_lease now_ms r p else p)"
| "pool_step (OpSettle t r x) p = (if r \<in> set (pl_leases p) then settle_credits t r x p else p)"
| "pool_step (OpSuccess i) p = record_success i p"
| "pool_step (OpError now i) p = record_error now i p"
| "pool_step (OpQuotaError now i) p = record_quota_error now i p"
| "pool_step (OpBan i) p = mark_banned i p"
| "pool_step (OpReset i) p = snd (reset_health i p)"
| "pool_step (OpSetModels i ms) p = with_account i (set_supported_models ms) p"
| "pool_step (OpReplace as) p = replace_accounts as p"
| "pool_step (OpConfig c) p = update_config c p"
| "pool_step (OpCounts now ids) p = snd (scheduling_counts_in now ids p)"
| "pool_step (OpExplain now now_ms model) p = snd (explain now now_ms model p)"

section \<open>The invariant\<close>

definition map_ok :: "(string, nat) hmap \<Rightarrow> account_state list \<Rightarrow> bool" where
  "map_ok m states \<longleftrightarrow> hm_wf m
     \<and> (\<forall>(i, r) \<in> set m. r < length states \<and> ac_id (as_account (states ! r)) = i)"

definition slots_ok :: "account_state list \<Rightarrow> nat list \<Rightarrow> bool" where
  "slots_ok states leases \<longleftrightarrow> (\<forall>r \<in> set leases. r < length states)
     \<and> (\<forall>r < length states. as_active (states ! r) = count_list leases r)"

definition cooling_ok :: "account_state \<Rightarrow> bool" where
  "cooling_ok s \<longleftrightarrow> (as_health s = Cooling \<longrightarrow> as_cooling_until s \<noteq> None)"

definition pool_inv :: "pool \<Rightarrow> bool" where
  "pool_inv p \<longleftrightarrow> map_ok (pl_accounts p) (pl_states p) \<and> slots_ok (pl_states p) (pl_leases p)
     \<and> pl_queued p = length (pl_waiters p) \<and> list_all cooling_ok (pl_states p)"

text \<open>Changes to one state that touch neither its slots nor its identity.\<close>

definition quiet :: "(account_state \<Rightarrow> account_state) \<Rightarrow> bool" where
  "quiet f \<longleftrightarrow> (\<forall>s. as_active (f s) = as_active s \<and> ac_id (as_account (f s)) = ac_id (as_account s)
     \<and> (cooling_ok s \<longrightarrow> cooling_ok (f s)))"

lemma update_state_fields [simp]:
  "pl_accounts (update_state r f p) = pl_accounts p"
  "pl_config (update_state r f p) = pl_config p"
  "pl_queued (update_state r f p) = pl_queued p"
  "pl_leases (update_state r f p) = pl_leases p"
  "pl_waiters (update_state r f p) = pl_waiters p"
  "length (pl_states (update_state r f p)) = length (pl_states p)"
  by (simp_all add: update_state_def)

lemma update_state_nth:
  "k < length (pl_states p) \<Longrightarrow>
     pl_states (update_state r f p) ! k = (if k = r then f (pl_states p ! r) else pl_states p ! k)"
  by (simp add: update_state_def nth_list_update)

lemma update_state_out: "\<not> r < length (pl_states p) \<Longrightarrow> update_state r f p = p"
  by (simp add: update_state_def list_update_beyond)

lemma update_state_quiet:
  assumes "pool_inv p" and "as_active (f (pl_states p ! r)) = as_active (pl_states p ! r)"
    and "ac_id (as_account (f (pl_states p ! r))) = ac_id (as_account (pl_states p ! r))"
    and "cooling_ok (pl_states p ! r) \<Longrightarrow> cooling_ok (f (pl_states p ! r))"
  shows "pool_inv (update_state r f p)"
proof (cases "r < length (pl_states p)")
  case True
  have "map_ok (pl_accounts p) (pl_states (update_state r f p))"
    using assms(1,3) unfolding pool_inv_def map_ok_def by (auto simp: update_state_nth)
  moreover have "slots_ok (pl_states (update_state r f p)) (pl_leases p)"
    using assms(1,2) by (simp add: pool_inv_def slots_ok_def update_state_nth)
  moreover have "list_all cooling_ok (pl_states (update_state r f p))"
    using assms(1,4) by (auto simp: pool_inv_def list_all_length update_state_nth)
  ultimately show ?thesis using assms(1) by (simp add: pool_inv_def)
qed (simp add: update_state_out assms(1))

lemma update_quiet: "pool_inv p \<Longrightarrow> quiet f \<Longrightarrow> pool_inv (update_state r f p)"
  by (rule update_state_quiet) (auto simp: quiet_def)

lemma with_account_inv: "pool_inv p \<Longrightarrow> quiet f \<Longrightarrow> pool_inv (with_account i f p)"
  by (auto simp: with_account_def update_quiet split: option.split)

lemma quiet_ops:
  "quiet (wake now)" "quiet success_on" "quiet (error_on now c)" "quiet (quota_error_on now c)"
  "quiet (set_health Banned)" "quiet state_reset_health" "quiet (set_supported_models ms)"
  by (auto simp: quiet_def cooling_ok_def wake_def success_on_def error_on_def quota_error_on_def
      set_health_def state_reset_health_def set_supported_models_def cool_for_def Let_def)

section \<open>Selection keeps it\<close>

lemma eligible_state: "snd (eligible now c model s) = wake now s"
  by (simp add: eligible_def Let_def)

lemma eligible_cases:
  obtains b where "eligible now c model s = (b, wake now s)"
  using eligible_state [of now c model s] by (cases "eligible now c model s") auto

lemma update_wake: "pool_inv p \<Longrightarrow> pool_inv (update_state r (wake now) p)"
  by (rule update_quiet) (simp_all add: quiet_ops)

lemma update_const: "update_state r (\<lambda>_. wake now (pl_states p ! r)) p = update_state r (wake now) p"
  by (simp add: update_state_def)

text \<open>Scanning ends expired cooldowns and changes nothing else.\<close>

definition woken :: "nat \<Rightarrow> pool \<Rightarrow> pool \<Rightarrow> bool" where
  "woken now p p' \<longleftrightarrow> length (pl_states p') = length (pl_states p)
     \<and> (\<forall>r < length (pl_states p). pl_states p' ! r = pl_states p ! r
          \<or> pl_states p' ! r = wake now (pl_states p ! r))
     \<and> pl_accounts p' = pl_accounts p \<and> pl_config p' = pl_config p \<and> pl_queued p' = pl_queued p
     \<and> pl_leases p' = pl_leases p \<and> pl_waiters p' = pl_waiters p"

lemma wake_wake [simp]: "wake now (wake now s) = wake now s"
  by (simp add: wake_def cooling_expired_def set_health_def)

lemma woken_refl: "woken now p p"
  by (simp add: woken_def)

lemma woken_step: "woken now p (update_state r (wake now) p)"
  by (simp add: woken_def update_state_nth)

lemma woken_trans: "woken now p q \<Longrightarrow> woken now q t \<Longrightarrow> woken now p t"
  unfolding woken_def by (metis wake_wake)

lemma woken_inv:
  assumes "pool_inv p" and "woken now p q"
  shows "pool_inv q"
proof -
  have w: "as_active (wake now s) = as_active s" "as_account (wake now s) = as_account s"
    "cooling_ok s \<Longrightarrow> cooling_ok (wake now s)" for s
    by (simp_all add: wake_def set_health_def cooling_ok_def)
  have st: "r < length (pl_states p) \<Longrightarrow> as_active (pl_states q ! r) = as_active (pl_states p ! r)
      \<and> as_account (pl_states q ! r) = as_account (pl_states p ! r)
      \<and> (cooling_ok (pl_states p ! r) \<longrightarrow> cooling_ok (pl_states q ! r))" for r
    using assms(2) w unfolding woken_def by metis
  have "map_ok (pl_accounts q) (pl_states q)"
    using assms st unfolding pool_inv_def map_ok_def woken_def by fastforce
  moreover have "slots_ok (pl_states q) (pl_leases q)"
    using assms st unfolding pool_inv_def slots_ok_def woken_def by simp
  moreover have "list_all cooling_ok (pl_states q)"
    using assms st unfolding pool_inv_def woken_def list_all_length by simp
  ultimately show ?thesis using assms by (simp add: pool_inv_def woken_def)
qed

lemma scan_woken:
  "scan_candidates j now now_ms model ids rs out p = (res, p') \<Longrightarrow> woken now p p'"
proof (induction rs arbitrary: out p)
  case Nil
  then show ?case by (simp add: woken_refl)
next
  case (Cons r rs)
  obtain b where b: "eligible now (pl_config p) model (pl_states p ! r) = (b, wake now (pl_states p ! r))"
    by (rule eligible_cases)
  show ?case
  proof (cases "ids \<noteq> [] \<and> ac_id (as_account (pl_states p ! r)) \<notin> set ids")
    case True
    with Cons show ?thesis by simp
  next
    case False
    then show ?thesis
      using Cons.prems Cons.IH woken_step woken_trans
      by (cases b) (fastforce simp: b update_const Let_def)+
  qed
qed

lemma candidates_woken: "candidates j now now_ms model ids p = (res, p') \<Longrightarrow> woken now p p'"
  unfolding candidates_def by (rule scan_woken)

lemma take_first_slot_inv:
  assumes "pool_inv p" and "\<forall>r \<in> set rs. r < length (pl_states p)"
  shows "pool_inv (snd (take_first_slot now_ms m rs p))"
  using assms
proof (induction rs)
  case (Cons r rs)
  show ?case
  proof (cases "try_acquire_slot m (pl_states p ! r)")
    case None
    with Cons show ?thesis by simp
  next
    case (Some s)
    let ?q = "update_state r (\<lambda>_. mark_used_now now_ms s) p"
    have r: "r < length (pl_states p)" using Cons.prems by simp
    have s: "as_active s = Suc (as_active (pl_states p ! r))" "as_account s = as_account (pl_states p ! r)"
      "cooling_ok (pl_states p ! r) \<Longrightarrow> cooling_ok s"
      using Some by (auto simp: try_acquire_slot_def cooling_ok_def Let_def split: if_splits)
    have "map_ok (pl_accounts p) (pl_states ?q)"
      using Cons.prems(1) s unfolding pool_inv_def map_ok_def by (auto simp: update_state_nth mark_used_now_def)
    moreover have "slots_ok (pl_states ?q) (r # pl_leases p)"
      using Cons.prems(1) r s by (auto simp: pool_inv_def slots_ok_def update_state_nth mark_used_now_def)
    moreover have "list_all cooling_ok (pl_states ?q)"
      using Cons.prems(1) s r
      by (auto simp: pool_inv_def list_all_length update_state_nth mark_used_now_def cooling_ok_def)
    ultimately show ?thesis using Cons.prems(1) Some by (simp add: pool_inv_def)
  qed
qed simp


section \<open>What is selected\<close>

text \<open>An account that may serve the request now.\<close>

definition fit :: "nat \<Rightarrow> pool_config \<Rightarrow> string \<Rightarrow> string list \<Rightarrow> account_state \<Rightarrow> bool" where
  "fit now c model ids s \<longleftrightarrow> (ids = [] \<or> ac_id (as_account s) \<in> set ids)
     \<and> fst (eligible now c model s) = Some True"

definition rank :: "(nat \<Rightarrow> f64) \<Rightarrow> nat \<Rightarrow> nat \<Rightarrow> pool_config \<Rightarrow> pool \<Rightarrow> nat \<Rightarrow> f64" where
  "rank j now now_ms c p r = f_add (se_score (score now_ms c (wake now (pl_states p ! r)))) (j r)"

lemma fit_wake [simp]: "fit now c model ids (wake now s) = fit now c model ids s"
  by (auto simp: fit_def eligible_def wake_def set_health_def cooling_expired_def)

lemma woken_state:
  "woken now p q \<Longrightarrow> r < length (pl_states p) \<Longrightarrow> wake now (pl_states q ! r) = wake now (pl_states p ! r)"
  unfolding woken_def by (metis wake_wake)

lemma woken_fit:
  "woken now p q \<Longrightarrow> r < length (pl_states p) \<Longrightarrow>
     fit now c model ids (pl_states q ! r) = fit now c model ids (pl_states p ! r)"
  by (metis fit_wake woken_state)

lemma woken_rank:
  "woken now p q \<Longrightarrow> r < length (pl_states p) \<Longrightarrow> rank j now now_ms c q r = rank j now now_ms c p r"
  by (simp add: rank_def woken_state)

lemma scan_spec:
  assumes "scan_candidates j now now_ms model ids rs out p = (Some cs, p')"
    and "\<forall>r \<in> set rs. r < length (pl_states p)"
  shows "cs = out @ map (\<lambda>r. (rank j now now_ms (pl_config p) p r, r))
     (filter (\<lambda>r. fit now (pl_config p) model ids (pl_states p ! r)) rs)"
  using assms
proof (induction rs arbitrary: out p)
  case (Cons r rs)
  let ?s = "pl_states p ! r" and ?c = "pl_config p"
  let ?q = "update_state r (wake now) p"
  obtain b where b: "eligible now ?c model ?s = (b, wake now ?s)" by (rule eligible_cases)
  have rest: "map (\<lambda>r. (rank j now now_ms ?c ?q r, r)) (filter (\<lambda>r. fit now ?c model ids (pl_states ?q ! r)) rs)
      = map (\<lambda>r. (rank j now now_ms ?c p r, r)) (filter (\<lambda>r. fit now ?c model ids (pl_states p ! r)) rs)"
    using Cons.prems(2) woken_fit [OF woken_step] woken_rank [OF woken_step]
    by (auto cong: filter_cong map_cong)
  show ?case
  proof (cases "ids \<noteq> [] \<and> ac_id (as_account ?s) \<notin> set ids")
    case True
    then have "\<not> fit now ?c model ids ?s" by (auto simp: fit_def)
    with True Cons show ?thesis by simp
  next
    case False
    then have ok: "fit now ?c model ids ?s \<longleftrightarrow> b = Some True" by (auto simp: fit_def b)
    from Cons.prems(1) False obtain v where v: "b = Some v"
      by (cases b) (auto simp: b)
    let ?out = "if v then out @ [(rank j now now_ms ?c p r, r)] else out"
    have "scan_candidates j now now_ms model ids rs ?out ?q = (Some cs, p')"
      using Cons.prems(1) False by (auto simp: b v update_const Let_def rank_def)
    from Cons.IH [OF this] Cons.prems(2) rest ok v show ?thesis by auto
  qed
qed simp

lemma map_ok_refs: "map_ok m states \<Longrightarrow> r \<in> set (map snd m) \<Longrightarrow> r < length states"
  by (auto simp: map_ok_def)

lemma take_first_slot_spec:
  "take_first_slot now_ms m rs p = (res, p') \<Longrightarrow>
     (case res of
        None \<Rightarrow> p' = p \<and> (\<forall>r \<in> set rs. try_acquire_slot m (pl_states p ! r) = None)
      | Some r \<Rightarrow> (\<exists>before after s. rs = before @ r # after
          \<and> (\<forall>r' \<in> set before. try_acquire_slot m (pl_states p ! r') = None)
          \<and> try_acquire_slot m (pl_states p ! r) = Some s
          \<and> p' = (update_state r (\<lambda>_. mark_used_now now_ms s) p)\<lparr>pl_leases := r # pl_leases p\<rparr>))"
proof (induction rs)
  case (Cons r rs)
  show ?case
  proof (cases "try_acquire_slot m (pl_states p ! r)")
    case None
    with Cons have "case res of
        None \<Rightarrow> p' = p \<and> (\<forall>r \<in> set rs. try_acquire_slot m (pl_states p ! r) = None)
      | Some r \<Rightarrow> (\<exists>before after s. rs = before @ r # after
          \<and> (\<forall>r' \<in> set before. try_acquire_slot m (pl_states p ! r') = None)
          \<and> try_acquire_slot m (pl_states p ! r) = Some s
          \<and> p' = (update_state r (\<lambda>_. mark_used_now now_ms s) p)\<lparr>pl_leases := r # pl_leases p\<rparr>)"
      by simp
    with None show ?thesis
    proof (cases res)
      case (Some x)
      with \<open>case res of None \<Rightarrow> _ | Some r \<Rightarrow> _ r\<close> obtain before after s where
        "rs = before @ x # after" "\<forall>r' \<in> set before. try_acquire_slot m (pl_states p ! r') = None"
        "try_acquire_slot m (pl_states p ! x) = Some s"
        "p' = (update_state x (\<lambda>_. mark_used_now now_ms s) p)\<lparr>pl_leases := x # pl_leases p\<rparr>"
        by auto
      with None have "r # rs = (r # before) @ x # after
          \<and> (\<forall>r' \<in> set (r # before). try_acquire_slot m (pl_states p ! r') = None)
          \<and> try_acquire_slot m (pl_states p ! x) = Some s
          \<and> p' = (update_state x (\<lambda>_. mark_used_now now_ms s) p)\<lparr>pl_leases := x # pl_leases p\<rparr>"
        by simp
      with Some show ?thesis by (simp only: option.case) blast
    qed simp
  next
    case (Some s)
    with Cons.prems have "res = Some r"
      "p' = (update_state r (\<lambda>_. mark_used_now now_ms s) p)\<lparr>pl_leases := r # pl_leases p\<rparr>"
      by auto
    with Some have "r # rs = [] @ r # rs \<and> (\<forall>r' \<in> set []. try_acquire_slot m (pl_states p ! r') = None)
        \<and> try_acquire_slot m (pl_states p ! r) = Some s
        \<and> p' = (update_state r (\<lambda>_. mark_used_now now_ms s) p)\<lparr>pl_leases := r # pl_leases p\<rparr>"
      by simp
    with \<open>res = Some r\<close> show ?thesis by (simp only: option.case) blast
  qed
qed auto

text \<open>The candidates of a request, best first.\<close>

definition contenders ::
  "(nat \<Rightarrow> f64) \<Rightarrow> nat \<Rightarrow> nat \<Rightarrow> string \<Rightarrow> string list \<Rightarrow> pool \<Rightarrow> nat list" where
  "contenders j now now_ms model ids p =
     map snd (sort_by (\<lambda>l r. score_cmp (fst l) (fst r))
       (map (\<lambda>r. (rank j now now_ms (pl_config p) p r, r))
         (filter (\<lambda>r. fit now (pl_config p) model ids (pl_states p ! r)) (map snd (pl_accounts p)))))"

lemma set_contenders:
  "set (contenders j now now_ms model ids p) =
     {r \<in> set (map snd (pl_accounts p)). fit now (pl_config p) model ids (pl_states p ! r)}"
  by (force simp: contenders_def set_sort_by)

lemma contenders_valid:
  assumes "pool_inv p" and "r \<in> set (contenders j now now_ms model ids p)"
  shows "r < length (pl_states p)"
  using assms map_ok_refs [of "pl_accounts p" "pl_states p" r] by (simp add: set_contenders pool_inv_def)

lemma candidates_spec:
  assumes "pool_inv p" and "candidates j now now_ms model ids p = (Some cs, p')"
  shows "map snd (sort_by (\<lambda>l r. score_cmp (fst l) (fst r)) cs) = contenders j now now_ms model ids p"
    and "cs = [] \<longleftrightarrow> contenders j now now_ms model ids p = []"
proof -
  have v: "\<forall>r \<in> set (map snd (pl_accounts p)). r < length (pl_states p)"
    using assms(1) map_ok_refs unfolding pool_inv_def by blast
  note sp = scan_spec [OF assms(2) [unfolded candidates_def] v]
  then show a: "map snd (sort_by (\<lambda>l r. score_cmp (fst l) (fst r)) cs) = contenders j now now_ms model ids p"
    by (simp add: contenders_def)
  show "cs = [] \<longleftrightarrow> contenders j now now_ms model ids p = []"
    using set_sort_by [of "\<lambda>l r. score_cmp (fst l) (fst r)" cs] by (auto simp: a [symmetric] sort_by_def)
qed

lemma woken_contenders:
  assumes "pool_inv p" and "woken now p q"
  shows "contenders j now now_ms model ids q = contenders j now now_ms model ids p"
proof -
  have v: "r < length (pl_states p)" if "r \<in> snd ` set (pl_accounts p)" for r
    using assms(1) map_ok_refs that unfolding pool_inv_def by auto
  have same: "pl_accounts q = pl_accounts p" "pl_config q = pl_config p"
    using assms(2) by (auto simp: woken_def)
  have f: "filter (\<lambda>r. fit now (pl_config p) model ids (pl_states q ! r)) (map snd (pl_accounts p))
      = filter (\<lambda>r. fit now (pl_config p) model ids (pl_states p ! r)) (map snd (pl_accounts p))"
    by (rule filter_cong) (use v woken_fit [OF assms(2)] in auto)
  have "map (\<lambda>r. (rank j now now_ms (pl_config p) q r, r))
        (filter (\<lambda>r. fit now (pl_config p) model ids (pl_states p ! r)) (map snd (pl_accounts p)))
      = map (\<lambda>r. (rank j now now_ms (pl_config p) p r, r))
        (filter (\<lambda>r. fit now (pl_config p) model ids (pl_states p ! r)) (map snd (pl_accounts p)))"
    by (rule map_cong) (use v woken_rank [OF assms(2)] in auto)
  then show ?thesis
    unfolding contenders_def same f by (rule arg_cong)
qed


text \<open>What one attempt does: nobody panics, no contender has a free slot, or the best one with a free
  slot gives one.\<close>

definition slot_taken :: "nat \<Rightarrow> nat \<Rightarrow> nat \<Rightarrow> pool \<Rightarrow> pool \<Rightarrow> bool" where
  "slot_taken now_ms m r q p' \<longleftrightarrow> (\<exists>s. try_acquire_slot m (pl_states q ! r) = Some s
     \<and> p' = (update_state r (\<lambda>_. mark_used_now now_ms s) q)\<lparr>pl_leases := r # pl_leases q\<rparr>)"

definition attempt ::
  "(nat \<Rightarrow> f64) \<Rightarrow> nat \<Rightarrow> nat \<Rightarrow> string \<Rightarrow> string list \<Rightarrow> pool \<Rightarrow> nat option \<Rightarrow> pool \<Rightarrow> bool" where
  "attempt j now now_ms model ids p lease p' \<longleftrightarrow>
     (\<exists>q. woken now p q \<and>
        (let m = pc_max_concurrent_per_account (pl_config p); cs = contenders j now now_ms model ids p in
         case lease of
           None \<Rightarrow> p' = q \<and> (\<forall>r \<in> set cs. try_acquire_slot m (pl_states q ! r) = None)
         | Some r \<Rightarrow> slot_taken now_ms m r q p'
             \<and> (\<exists>before after. cs = before @ r # after
                  \<and> (\<forall>r' \<in> set before. try_acquire_slot m (pl_states q ! r') = None))))"

lemma try_acquire_spec:
  assumes "pool_inv p" and "try_acquire j now now_ms model ids p = (res, p')"
  shows "case res of None \<Rightarrow> woken now p p' | Some lease \<Rightarrow> attempt j now now_ms model ids p lease p'"
proof -
  obtain cs q where c: "candidates j now now_ms model ids p = (cs, q)"
    by (cases "candidates j now now_ms model ids p")
  have w: "woken now p q" by (rule candidates_woken [OF c])
  show ?thesis
  proof (cases cs)
    case None
    with c w assms(2) show ?thesis by (simp add: try_acquire_def)
  next
    case (Some l)
    let ?m = "pc_max_concurrent_per_account (pl_config p)"
    let ?rs = "contenders j now now_ms model ids p"
    have qc: "pl_config q = pl_config p" using w by (simp add: woken_def)
    have rs: "map snd (sort_by (\<lambda>l r. score_cmp (fst l) (fst r)) l) = ?rs"
      using candidates_spec(1) [OF assms(1)] c Some by blast
    obtain lease t where t: "take_first_slot now_ms ?m ?rs q = (lease, t)"
      by (cases "take_first_slot now_ms ?m ?rs q")
    have res: "res = Some lease" "p' = t"
      using assms(2) by (simp_all add: try_acquire_def c Some Let_def qc rs t)
    show ?thesis
      using take_first_slot_spec [OF t] w unfolding res attempt_def Let_def slot_taken_def
      by (auto split: option.splits intro!: exI [of _ q])
  qed
qed

lemma try_acquire_inv:
  assumes "pool_inv p"
  shows "pool_inv (snd (try_acquire j now now_ms model ids p))"
proof -
  obtain cs q where c: "candidates j now now_ms model ids p = (cs, q)"
    by (cases "candidates j now now_ms model ids p")
  have w: "woken now p q" by (rule candidates_woken [OF c])
  have q: "pool_inv q" by (rule woken_inv [OF assms w])
  show ?thesis
  proof (cases cs)
    case None
    with c q show ?thesis by (simp add: try_acquire_def)
  next
    case (Some l)
    have rs: "map snd (sort_by (\<lambda>l r. score_cmp (fst l) (fst r)) l) = contenders j now now_ms model ids p"
      using candidates_spec(1) [OF assms] c Some by blast
    have "\<forall>r \<in> set (contenders j now now_ms model ids p). r < length (pl_states q)"
      using contenders_valid [OF assms] w by (simp add: woken_def)
    from take_first_slot_inv [OF q this] show ?thesis
      by (simp add: try_acquire_def c Some Let_def rs split_beta)
  qed
qed

lemma leave_queue_inv:
  "pool_inv p \<Longrightarrow> w \<in> set (pl_waiters p) \<Longrightarrow> pool_inv (leave_queue w p)"
  by (simp add: pool_inv_def leave_queue_def length_remove1)

lemma enter_queue_inv: "pool_inv p \<Longrightarrow> pool_inv (snd (enter_queue now model ids p))"
  by (simp add: enter_queue_def pool_inv_def Let_def)

lemma acquire_inv:
  assumes "pool_inv p"
  shows "pool_inv (snd (acquire j now now_ms model ids p))"
proof -
  obtain cs q where c: "candidates j now now_ms model ids p = (cs, q)"
    by (cases "candidates j now now_ms model ids p")
  have q: "pool_inv q" by (rule woken_inv [OF assms candidates_woken [OF c]])
  obtain res t where t: "try_acquire j now now_ms model ids q = (res, t)"
    by (cases "try_acquire j now now_ms model ids q")
  have ti: "pool_inv t" using try_acquire_inv [OF q] t by (metis snd_conv)
  with q enter_queue_inv show ?thesis
    by (auto simp: acquire_def c t split: option.split list.split)
qed

lemma try_acquire_waiters:
  assumes "pool_inv p" and "try_acquire j now now_ms model ids p = (res, p')"
  shows "pl_waiters p' = pl_waiters p"
  using try_acquire_spec [OF assms]
  by (auto simp: attempt_def slot_taken_def woken_def Let_def split: option.splits)

lemma acquire_wake_inv:
  assumes "pool_inv p" and "w \<in> set (pl_waiters p)"
  shows "pool_inv (snd (acquire_wake j now now_ms w p))"
proof -
  obtain res t where t: "try_acquire j now now_ms (wt_model w) (wt_prefer_ids w) p = (res, t)"
    by (cases "try_acquire j now now_ms (wt_model w) (wt_prefer_ids w) p")
  have ti: "pool_inv t" using try_acquire_inv [OF assms(1)] t by (metis snd_conv)
  have "w \<in> set (pl_waiters t)" using try_acquire_waiters [OF assms(1) t] assms(2) by simp
  with ti assms show ?thesis
    by (auto simp: acquire_wake_def t leave_queue_inv split: option.split)
qed

section \<open>The other operations keep it\<close>

lemma drop_lease_inv:
  assumes "pool_inv p" and "r \<in> set (pl_leases p)"
  shows "pool_inv (drop_lease now_ms r p)"
proof -
  let ?f = "\<lambda>s. mark_used_now now_ms (release_slot s)"
  let ?q = "update_state r ?f p"
  have f: "as_active (?f s) = as_active s - 1" "as_account (?f s) = as_account s"
    "cooling_ok s \<Longrightarrow> cooling_ok (?f s)" for s
    by (simp_all add: mark_used_now_def release_slot_def cooling_ok_def)
  have r: "r < length (pl_states p)" and n: "0 < count_list (pl_leases p) r"
    using assms count_list_0_iff [of "pl_leases p" r] by (auto simp: pool_inv_def slots_ok_def simp del: count_list_0_iff)
  have "map_ok (pl_accounts p) (pl_states ?q)"
    using assms(1) f unfolding pool_inv_def map_ok_def by (auto simp: update_state_nth)
  moreover have "count_list (remove1 r xs) k = (if k = r then count_list xs k - 1 else count_list xs k)"
    for xs :: "nat list" and k
    by (induction xs) auto
  then have "slots_ok (pl_states ?q) (remove1 r (pl_leases p))"
    using assms(1) f by (auto simp: pool_inv_def slots_ok_def update_state_nth dest: notin_set_remove1
        set_remove1_subset [THEN subsetD])
  moreover have "list_all cooling_ok (pl_states ?q)"
    using assms(1) f r by (auto simp: pool_inv_def list_all_length update_state_nth)
  ultimately show ?thesis using assms(1) by (simp add: pool_inv_def drop_lease_def)
qed

lemma settle_inv: "pool_inv p \<Longrightarrow> pool_inv (settle_credits t r x p)"
  by (auto simp: settle_credits_def quiet_def cooling_ok_def intro!: update_quiet)

lemma count_loop_woken: "count_loop now ids rs c p = (res, p') \<Longrightarrow> woken now p p'"
proof (induction rs arbitrary: c p)
  case (Cons r rs)
  then show ?case
    using woken_trans [OF woken_step] by (fastforce simp: Let_def)
qed (simp add: woken_refl)

lemma explain_loop_woken: "explain_loop now now_ms model rs out p = (res, p') \<Longrightarrow> woken now p p'"
proof (induction rs arbitrary: out p)
  case (Cons r rs)
  obtain b where b: "eligible now (pl_config p) model (pl_states p ! r) = (b, wake now (pl_states p ! r))"
    by (rule eligible_cases)
  show ?case
    using Cons.prems Cons.IH woken_step woken_trans
    by (cases b) (fastforce simp: b update_const Let_def)+
qed (simp add: woken_refl)

lemma set_hm_insert: "set (hm_insert k v m) \<subseteq> insert (k, v) (set m)"
  by (induction m) auto

lemma map_ok_insert:
  "map_ok m states \<Longrightarrow> r < length states \<Longrightarrow> ac_id (as_account (states ! r)) = i \<Longrightarrow>
     map_ok (hm_insert i r m) states"
  unfolding map_ok_def using set_hm_insert [of i r m] by fastforce

lemma map_ok_mono:
  assumes "map_ok m states" and "length states \<le> length states'"
    and "\<And>k. k < length states \<Longrightarrow> ac_id (as_account (states' ! k)) = ac_id (as_account (states ! k))"
  shows "map_ok m states'"
  using assms unfolding map_ok_def by fastforce

lemma replace_loop_ok:
  assumes "replace_loop current as next states = (next', states')"
    and "map_ok next states" and "map_ok current states"
    and "slots_ok states leases" and "list_all cooling_ok states"
  shows "map_ok next' states' \<and> slots_ok states' leases \<and> list_all cooling_ok states'"
  using assms
proof (induction as arbitrary: "next" states)
  case (Cons a as)
  show ?case
  proof (cases "hm_get current (ac_id a)")
    case (Some r)
    let ?st = "states[r := (states ! r)\<lparr>as_account := a\<rparr>]"
    have inr: "(ac_id a, r) \<in> set current" using Some by (rule map_of_SomeD)
    then have r: "r < length states" "ac_id (as_account (states ! r)) = ac_id a"
      using Cons.prems(3) by (auto simp: map_ok_def)
    have id: "ac_id (as_account (?st ! k)) = ac_id (as_account (states ! k))" if "k < length states" for k
      using that r by (cases "k = r") simp_all
    have "map_ok current ?st" by (rule map_ok_mono [OF Cons.prems(3)]) (simp_all add: id)
    moreover have "map_ok (hm_insert (ac_id a) r next) ?st"
      by (intro map_ok_insert map_ok_mono [OF Cons.prems(2)]) (simp_all add: id r)
    moreover have "as_active (?st ! k) = as_active (states ! k)" if "k < length states" for k
      using that by (cases "k = r") simp_all
    then have "slots_ok ?st leases"
      using Cons.prems(4) by (simp add: slots_ok_def)
    moreover have "list_all cooling_ok ?st"
      using Cons.prems(5) r by (simp add: list_all_length nth_list_update cooling_ok_def)
    ultimately show ?thesis
      using Cons.prems(1) by (intro Cons.IH [of "hm_insert (ac_id a) r next" ?st]) (simp_all add: Some)
  next
    case None
    let ?st = "states @ [account_state_new a]"
    have new: "as_active (account_state_new a) = 0" "as_account (account_state_new a) = a"
      "cooling_ok (account_state_new a)"
      by (simp_all add: account_state_new_def cooling_ok_def)
    have "map_ok current ?st" by (rule map_ok_mono [OF Cons.prems(3)]) (simp_all add: nth_append)
    moreover have "map_ok (hm_insert (ac_id a) (length states) next) ?st"
      by (intro map_ok_insert map_ok_mono [OF Cons.prems(2)]) (simp_all add: nth_append new)
    moreover have "count_list leases (length states) = 0"
      using Cons.prems(4) by (force simp: slots_ok_def count_list_0_iff)
    then have "slots_ok ?st leases"
      using Cons.prems(4) by (auto simp: slots_ok_def nth_append new less_Suc_eq)
    moreover have "list_all cooling_ok ?st"
      using Cons.prems(5) new by simp
    ultimately show ?thesis
      using Cons.prems(1)
      by (intro Cons.IH [of "hm_insert (ac_id a) (length states) next" ?st]) (simp_all add: None)
  qed
qed simp

lemma replace_accounts_inv:
  assumes "pool_inv p"
  shows "pool_inv (replace_accounts as p)"
proof -
  obtain nx st where l: "replace_loop (pl_accounts p) as [] (pl_states p) = (nx, st)"
    by (cases "replace_loop (pl_accounts p) as [] (pl_states p)")
  have "map_ok [] (pl_states p)" by (simp add: map_ok_def)
  from replace_loop_ok [OF l this, of "pl_leases p"] assms show ?thesis
    by (simp add: pool_inv_def replace_accounts_def l)
qed

lemma pool_step_inv: "pool_inv p \<Longrightarrow> pool_inv (pool_step op p)"
proof (cases op)
  case (OpAcquire j now now_ms model ids)
  then show "pool_inv p \<Longrightarrow> ?thesis" by (simp add: acquire_inv)
next
  case (OpScan j now now_ms model ids)
  then show "pool_inv p \<Longrightarrow> ?thesis" using woken_inv candidates_woken by simp (metis prod.collapse)
next
  case (OpCounts now ids)
  then show "pool_inv p \<Longrightarrow> ?thesis"
    using woken_inv count_loop_woken by (simp add: scheduling_counts_in_def) (metis prod.collapse)
next
  case (OpExplain now now_ms model)
  then show "pool_inv p \<Longrightarrow> ?thesis"
    using woken_inv explain_loop_woken by (simp add: explain_def split_beta) (metis prod.collapse)
next
  case (OpReset i)
  then show "pool_inv p \<Longrightarrow> ?thesis"
    by (auto simp: reset_health_def update_quiet quiet_ops split: option.split)
next
  case (OpConfig c)
  then show "pool_inv p \<Longrightarrow> ?thesis" by (simp add: update_config_def pool_inv_def)
qed (auto simp: acquire_wake_inv take_first_slot_inv enter_queue_inv leave_queue_inv drop_lease_inv settle_inv record_success_def
    record_error_def record_quota_error_def mark_banned_def with_account_inv quiet_ops
    replace_accounts_inv)

lemma add_account_inv: "pool_inv p \<Longrightarrow> pool_inv (add_account a p)"
proof -
  assume p: "pool_inv p"
  let ?st = "pl_states p @ [account_state_new a]"
  have new: "as_active (account_state_new a) = 0" "as_account (account_state_new a) = a"
    "cooling_ok (account_state_new a)"
    by (simp_all add: account_state_new_def cooling_ok_def)
  have mo: "map_ok (pl_accounts p) (pl_states p)" using p by (simp add: pool_inv_def)
  have "map_ok (hm_insert (ac_id a) (length (pl_states p)) (pl_accounts p)) ?st"
    by (intro map_ok_insert map_ok_mono [OF mo]) (simp_all add: nth_append new)
  moreover have "count_list (pl_leases p) (length (pl_states p)) = 0"
    using p by (force simp: pool_inv_def slots_ok_def count_list_0_iff)
  then have "slots_ok ?st (pl_leases p)"
    using p by (auto simp: pool_inv_def slots_ok_def nth_append new less_Suc_eq)
  ultimately show "pool_inv (add_account a p)"
    using p new by (simp add: pool_inv_def add_account_def)
qed

lemma pool_new_inv: "pool_inv (pool_new as c)"
proof -
  have "pool_inv p \<Longrightarrow> pool_inv (fold add_account as p)" for p
    by (induction as arbitrary: p) (simp_all add: add_account_inv)
  then show ?thesis
    by (simp add: pool_new_def pool_inv_def map_ok_def slots_ok_def)
qed

interpretation pool: machine pool_step "pool_new accounts config" pool_inv
  by unfold_locales (rule pool_new_inv, rule pool_step_inv)


section \<open>Properties\<close>

text \<open>C5: After any sequence of pool operations, every account state's slot count is exactly the number
  of live leases on it (also for states whose account was removed or replaced meanwhile), the queue
  counter is the number of waiting requests, the pool maps each id to the state of that account, and
  no account is cooling without an end time.\<close>

theorem pool_accounting_exact:
  "pool_inv (fold pool_step ops (pool_new accounts config))"
  by (rule pool.inv_run)

text \<open>The concurrency limit.\<close>

definition limited :: "nat \<Rightarrow> pool \<Rightarrow> bool" where
  "limited m p \<longleftrightarrow> pc_max_concurrent_per_account (pl_config p) = m
     \<and> list_all (\<lambda>s. as_active s \<le> m) (pl_states p)"

definition keeps_limit :: "nat \<Rightarrow> pool_op \<Rightarrow> bool" where
  "keeps_limit m op = (case op of OpConfig c \<Rightarrow> pc_max_concurrent_per_account c = m | _ \<Rightarrow> True)"

lemma limited_update:
  "limited m p \<Longrightarrow> as_active (f (pl_states p ! r)) \<le> as_active (pl_states p ! r) \<Longrightarrow>
     limited m (update_state r f p)"
  by (cases "r < length (pl_states p)")
    (auto simp: limited_def list_all_length update_state_nth update_state_out intro: order.trans)

lemma limited_with_account: "limited m p \<Longrightarrow> quiet f \<Longrightarrow> limited m (with_account i f p)"
  by (auto simp: with_account_def quiet_def intro!: limited_update split: option.split)

lemma limited_woken:
  assumes "limited m p" and "woken now p q"
  shows "limited m q"
proof -
  have "as_active (pl_states q ! r) = as_active (pl_states p ! r)" if "r < length (pl_states p)" for r
    using assms(2) that quiet_ops(1) [of now] unfolding woken_def quiet_def by metis
  with assms show ?thesis by (simp add: limited_def woken_def list_all_length)
qed

lemma limited_slot_taken:
  assumes "limited m p" and "0 < m" and "slot_taken now_ms m r p p'"
  shows "limited m p'"
proof -
  obtain s where s: "try_acquire_slot m (pl_states p ! r) = Some s"
    and p': "p' = (update_state r (\<lambda>_. mark_used_now now_ms s) p)\<lparr>pl_leases := r # pl_leases p\<rparr>"
    using assms(3) by (auto simp: slot_taken_def)
  have "as_active s \<le> m"
    using s assms(2) by (auto simp: try_acquire_slot_def Let_def split: if_splits)
  then show ?thesis
    using assms(1) by (cases "r < length (pl_states p)")
      (auto simp: p' limited_def list_all_length update_state_nth mark_used_now_def update_state_out)
qed

lemma limited_attempt:
  assumes "limited m p" and "0 < m" and "attempt j now now_ms model ids p lease p'"
  shows "limited m p'"
proof -
  obtain q where w: "woken now p q" and c: "case lease of None \<Rightarrow> p' = q
      | Some r \<Rightarrow> slot_taken now_ms (pc_max_concurrent_per_account (pl_config p)) r q p'"
    using assms(3) unfolding attempt_def Let_def by (cases lease) auto
  have m: "pc_max_concurrent_per_account (pl_config p) = m" using assms(1) by (simp add: limited_def)
  have q: "limited m q" by (rule limited_woken [OF assms(1) w])
  show ?thesis
    using c q limited_slot_taken [OF q assms(2)] by (cases lease) (simp_all add: m)
qed

lemma limited_try_acquire:
  assumes "limited m p" and "0 < m" and "pool_inv p"
  shows "limited m (snd (try_acquire j now now_ms model ids p))"
proof -
  obtain res p' where t: "try_acquire j now now_ms model ids p = (res, p')"
    by (cases "try_acquire j now now_ms model ids p")
  from try_acquire_spec [OF assms(3) t] show ?thesis
    using limited_attempt [OF assms(1,2)] limited_woken [OF assms(1)] by (auto simp: t split: option.splits)
qed

lemma limited_enter_queue: "limited m p \<Longrightarrow> limited m (snd (enter_queue now model ids p))"
  by (simp add: enter_queue_def limited_def Let_def)

lemma limited_slots:
  assumes "limited m p" and "0 < m"
  shows "limited m (snd (take_first_slot now_ms (pc_max_concurrent_per_account (pl_config p)) rs p))"
proof -
  have m: "pc_max_concurrent_per_account (pl_config p) = m" using assms(1) by (simp add: limited_def)
  obtain res p' where t: "take_first_slot now_ms m rs p = (res, p')" by force
  from take_first_slot_spec [OF t] show ?thesis
    using assms limited_slot_taken [OF assms] unfolding m t by (cases res) (auto simp: slot_taken_def)
qed

lemma limited_acquire:
  assumes "limited m p" and "0 < m" and "pool_inv p"
  shows "limited m (snd (acquire j now now_ms model ids p))"
proof -
  obtain cs q where c: "candidates j now now_ms model ids p = (cs, q)"
    by (cases "candidates j now now_ms model ids p")
  note w = candidates_woken [OF c]
  have q: "limited m q" "pool_inv q"
    using limited_woken [OF assms(1) w] woken_inv [OF assms(3) w] by simp_all
  obtain res t where t: "try_acquire j now now_ms model ids q = (res, t)"
    by (cases "try_acquire j now now_ms model ids q")
  have "limited m t" using limited_try_acquire [OF q(1) assms(2) q(2)] t by (metis snd_conv)
  then show ?thesis using q(1) limited_enter_queue
    by (auto simp: acquire_def c t split: option.split list.split)
qed

lemma limited_replace:
  "replace_loop current as next states = (next', states') \<Longrightarrow> list_all (\<lambda>s. as_active s \<le> m) states \<Longrightarrow>
     list_all (\<lambda>s. as_active s \<le> m) states'"
proof (induction as arbitrary: "next" states)
  case (Cons a as)
  have "list_all (\<lambda>s. as_active s \<le> m) (states[r := (states ! r)\<lparr>as_account := a\<rparr>])" for r
    using Cons.prems(2) by (cases "r < length states") (auto simp: list_all_length nth_list_update)
  moreover have "list_all (\<lambda>s. as_active s \<le> m) (states @ [account_state_new a])"
    using Cons.prems(2) by (simp add: account_state_new_def)
  ultimately show ?case
    using Cons by (cases "hm_get current (ac_id a)") auto
qed simp

lemma pool_step_limited:
  assumes "pool_inv p" and "limited m p" and "0 < m" and "keeps_limit m op"
  shows "limited m (pool_step op p)"
proof (cases op)
  case (OpAcquire j now now_ms model ids)
  with assms show ?thesis by (simp add: limited_acquire)
next
  case (OpScan j now now_ms model ids)
  then show ?thesis using limited_woken [OF assms(2) candidates_woken] by simp (metis prod.collapse)
next
  case (OpSlots now_ms rs)
  then show ?thesis using assms(2) limited_slots [OF assms(2,3)] by simp
next
  case (OpEnqueue now model ids)
  then show ?thesis using assms(2) by (simp add: limited_enter_queue)
next
  case (OpWake j now now_ms w)
  obtain res t where t: "try_acquire j now now_ms (wt_model w) (wt_prefer_ids w) p = (res, t)"
    by (cases "try_acquire j now now_ms (wt_model w) (wt_prefer_ids w) p")
  have "limited m t" using limited_try_acquire [OF assms(2,3,1)] t by (metis snd_conv)
  moreover have "limited m q \<Longrightarrow> limited m (leave_queue w q)" for q
    by (simp add: limited_def leave_queue_def)
  ultimately show ?thesis
    using OpWake assms(2) by (auto simp: acquire_wake_def t split: option.split)
next
  case (OpDropLease now_ms r)
  have "limited m (update_state r (\<lambda>s. mark_used_now now_ms (release_slot s)) p)"
    by (rule limited_update [OF assms(2)]) (simp add: mark_used_now_def release_slot_def)
  then show ?thesis using OpDropLease assms(2) by (simp add: drop_lease_def limited_def)
next
  case (OpSettle t r x)
  then show ?thesis using assms(2) by (auto simp: settle_credits_def intro!: limited_update)
next
  case (OpReset i)
  then show ?thesis
    using assms(2) by (auto simp: reset_health_def state_reset_health_def intro!: limited_update split: option.split)
next
  case (OpReplace as)
  then show ?thesis
    using assms(2) limited_replace [of "pl_accounts p" as "[]" "pl_states p"]
    by (auto simp: replace_accounts_def limited_def split: prod.split)
next
  case (OpCounts now ids)
  then show ?thesis
    using limited_woken [OF assms(2) count_loop_woken] by (simp add: scheduling_counts_in_def) (metis prod.collapse)
next
  case (OpExplain now now_ms model)
  then show ?thesis
    using limited_woken [OF assms(2) explain_loop_woken] by (simp add: explain_def split_beta) (metis prod.collapse)
next
  case (OpConfig c)
  then show ?thesis using assms by (simp add: update_config_def keeps_limit_def limited_def)
next
  case (OpCancel w)
  then show ?thesis using assms by (simp add: leave_queue_def limited_def)
qed (use assms in \<open>simp_all add: record_success_def record_error_def record_quota_error_def mark_banned_def
    limited_with_account quiet_ops\<close>)

lemma run_limited:
  "pool_inv p \<Longrightarrow> limited m p \<Longrightarrow> 0 < m \<Longrightarrow> list_all (keeps_limit m) ops \<Longrightarrow>
     limited m (fold pool_step ops p)"
  by (induction ops arbitrary: p) (simp_all add: pool_step_limited pool_step_inv)

lemma pool_new_limited: "limited (pc_max_concurrent_per_account config) (pool_new accounts config)"
proof -
  have "limited m p \<Longrightarrow> limited m (fold add_account accounts p)" for m p
    by (induction accounts arbitrary: p)
      (simp_all add: add_account_def limited_def account_state_new_def)
  moreover have "limited (pc_max_concurrent_per_account config)
      \<lparr>pl_states = [], pl_accounts = [], pl_config = config, pl_queued = 0, pl_leases = [],
       pl_waiters = []\<rparr>"
    by (simp add: limited_def)
  ultimately show ?thesis unfolding pool_new_def by blast
qed



lemma attempt_states_length:
  "attempt j now now_ms model ids p lease p' \<Longrightarrow> length (pl_states p') = length (pl_states p)"
  by (auto simp: attempt_def slot_taken_def woken_def Let_def split: option.splits)

lemma acquire_states_length:
  assumes "pool_inv p"
  shows "length (pl_states (snd (acquire j now now_ms model ids p))) = length (pl_states p)"
proof -
  obtain cs q where c: "candidates j now now_ms model ids p = (cs, q)"
    by (cases "candidates j now now_ms model ids p")
  note w = candidates_woken [OF c]
  obtain res t where t: "try_acquire j now now_ms model ids q = (res, t)"
    by (cases "try_acquire j now now_ms model ids q")
  have q: "length (pl_states q) = length (pl_states p)" using w by (simp add: woken_def)
  have "length (pl_states t) = length (pl_states q)"
    using try_acquire_spec [OF woken_inv [OF assms w] t] attempt_states_length
    by (auto simp: woken_def split: option.splits)
  with q show ?thesis
    by (auto simp: acquire_def enter_queue_def c t Let_def split: option.split list.split)
qed

definition demo_config :: "nat \<Rightarrow> pool_config" where
  "demo_config limit = \<lparr>pc_max_concurrent_per_account = limit, pc_max_queue_size = 10,
     pc_max_queue_wait_ms = 30000, pc_queue_full_wait_ms = 5000, pc_low_credit_min_remaining = Fin 4,
     pc_enable_overage = False, pc_max_overage_credits_per_account = None, pc_daily_credit_limit = Fin 0,
     pc_credit_estimate_per_1k_tokens = Fin 1, pc_credit_estimate_output_token_cap = 8192,
     pc_auto_switch_on_quota_exhausted = True,
     pc_balance = \<lparr>bc_weight_active = Fin (1/2), bc_weight_credit = Fin (2/5), bc_weight_idle = Fin (1/10),
       bc_idle_window_ms = 300000\<rparr>,
     pc_cooldown = \<lparr>cd_max_error_count = 3, cd_cooldown_ms = 30000, cd_error_cooldown_ms = 5000,
       cd_quota_reset_ms = 300000, cd_quota_error_window_ms = 300000, cd_quota_error_threshold = 50\<rparr>\<rparr>"

definition demo_member :: "string \<Rightarrow> account" where
  "demo_member i = \<lparr>ac_id = i, ac_email = ''a@example.com'', ac_label = None, ac_enabled = True,
     ac_machine_id = [], ac_profile_arn = None, ac_upstream_user_id = None,
     ac_credentials = \<lparr>cr_access_token = ''t'', cr_refresh_token = None, cr_client_id = None,
       cr_client_secret = None, cr_region = ''us-east-1'', cr_expires_at = 0, cr_auth_method = Idc\<rparr>,
     ac_usage = None, ac_subscription = None, ac_tags = [], ac_created_at = 0,
     ac_credit_exhausted = False\<rparr>"

definition demo_pool :: pool where
  "demo_pool = pool_new [demo_member ''a'', demo_member ''b''] (demo_config 1)"

lemma demo_pool_fields:
  "pl_states demo_pool = [account_state_new (demo_member ''a''), account_state_new (demo_member ''b'')]"
  "pl_accounts demo_pool = [(''a'', 0), (''b'', 1)]" "pl_config demo_pool = demo_config 1"
  by (simp_all add: demo_pool_def pool_new_def add_account_def demo_member_def)


end
