(* ===== verification/PoolSelection.thy ===== *)
theory PoolSelection
  imports PoolCorrect
begin

text \<open>
  What a request gets from the pool: the guarantees of an acquired account, when a request has to
  wait or fail, the scheduling counts, and the fate of a banned account.
\<close>

section \<open>The outcome of \<open>acquire\<close>\<close>

lemma attempt_woken:
  assumes "pool_inv p" and "woken now p q" and "attempt j now now_ms model ids q lease p'"
  shows "attempt j now now_ms model ids p lease p'"
proof -
  have c: "pl_config q = pl_config p" using assms(2) by (simp add: woken_def)
  show ?thesis
    using assms(3) woken_trans [OF assms(2)]
    unfolding attempt_def Let_def woken_contenders [OF assms(1,2)] c by blast
qed

text \<open>A request that gets no account found every account that could serve it full.\<close>

definition all_full ::
  "(nat \<Rightarrow> f64) \<Rightarrow> nat \<Rightarrow> nat \<Rightarrow> string \<Rightarrow> string list \<Rightarrow> pool \<Rightarrow> bool" where
  "all_full j now now_ms model ids p \<longleftrightarrow>
     (\<forall>r \<in> set (contenders j now now_ms model ids p).
        try_acquire_slot (pc_max_concurrent_per_account (pl_config p)) (pl_states p ! r) = None)"

lemma try_slot_wake: "try_acquire_slot m (wake now s) = None \<longleftrightarrow> try_acquire_slot m s = None"
  by (auto simp: try_acquire_slot_def wake_def set_health_def Let_def)

lemma attempt_None_full:
  assumes "pool_inv p" and "attempt j now now_ms model ids p None p'"
  shows "all_full j now now_ms model ids p"
proof -
  obtain q where w: "woken now p q" and
    n: "\<And>r. r \<in> set (contenders j now now_ms model ids p) \<Longrightarrow>
      try_acquire_slot (pc_max_concurrent_per_account (pl_config p)) (pl_states q ! r) = None"
    using assms(2) by (auto simp: attempt_def Let_def)
  show ?thesis
    unfolding all_full_def
    using n contenders_valid [OF assms(1)] w try_slot_wake unfolding woken_def by metis
qed

lemma acquire_outcome:
  assumes "pool_inv p" and "acquire j now now_ms model ids p = (out, p')"
  shows "case out of
      Acquired r \<Rightarrow> attempt j now now_ms model ids p (Some r) p'
    | Panicked \<Rightarrow> True
    | _ \<Rightarrow> all_full j now now_ms model ids p"
proof -
  obtain cs q where c: "candidates j now now_ms model ids p = (cs, q)"
    by (cases "candidates j now now_ms model ids p")
  note w = candidates_woken [OF c]
  note qi = woken_inv [OF assms(1) w]
  obtain res t where t: "try_acquire j now now_ms model ids q = (res, t)"
    by (cases "try_acquire j now now_ms model ids q")
  have at: "attempt j now now_ms model ids p lease t" if "res = Some lease" for lease
    using try_acquire_spec [OF qi t] that attempt_woken [OF assms(1) w] by simp
  show ?thesis
  proof (cases cs)
    case None
    with assms(2) show ?thesis by (auto simp: acquire_def c)
  next
    case (Some l)
    show ?thesis
    proof (cases l)
      case Nil
      then have "contenders j now now_ms model ids p = []"
        using candidates_spec(2) [OF assms(1)] c Some by blast
      then have "all_full j now now_ms model ids p" by (simp add: all_full_def)
      then show ?thesis using assms(2) Some Nil by (auto simp: acquire_def c)
    next
      case (Cons x xs)
      show ?thesis
      proof (cases res)
        case None
        then show ?thesis using assms(2) Some Cons t by (auto simp: acquire_def c)
      next
        case (Some lease)
        show ?thesis
        proof (cases lease)
          case None
          then have "all_full j now now_ms model ids p"
            using at [OF Some] attempt_None_full [OF assms(1)] by simp
          then show ?thesis
            using assms(2) \<open>cs = Some l\<close> Cons t Some None
            by (auto simp: acquire_def enter_queue_def c Let_def split: if_splits)
        next
          case (Some r)
          then show ?thesis
            using assms(2) \<open>cs = Some l\<close> Cons t \<open>res = Some lease\<close> at by (auto simp: acquire_def c)
        qed
      qed
    qed
  qed
qed

lemma fit_expand:
  "fit now c model ids s \<longleftrightarrow> (ids = [] \<or> ac_id (as_account s) \<in> set ids)
     \<and> as_health (wake now s) = Available \<and> ac_enabled (as_account s)
     \<and> account_credit_state (as_account s) c = CreditAvailable
     \<and> serves_model s model = Some True"
proof -
  have "as_account (wake now s) = as_account s" "serves_model (wake now s) model = serves_model s model"
    by (simp_all add: wake_def set_health_def serves_model_def cong: option.case_cong)
  then show ?thesis
    by (auto simp: fit_def eligible_def Let_def split: if_splits)
qed

lemma attempt_Some_state:
  assumes "pool_inv p" and "attempt j now now_ms model ids p (Some r) p'"
  shows "r \<in> set (contenders j now now_ms model ids p)"
    and "as_active (pl_states p ! r) < (let m = pc_max_concurrent_per_account (pl_config p) in
           if m = 0 then usize_max else m)"
    and "as_active (pl_states p' ! r) = as_active (pl_states p ! r) + 1"
    and "pl_leases p' = r # pl_leases p"
proof -
  let ?m = "pc_max_concurrent_per_account (pl_config p)"
  obtain q s where w: "woken now p q" and t: "try_acquire_slot ?m (pl_states q ! r) = Some s"
    and p': "p' = (update_state r (\<lambda>_. mark_used_now now_ms s) q)\<lparr>pl_leases := r # pl_leases q\<rparr>"
    and r: "r \<in> set (contenders j now now_ms model ids p)"
    using assms(2) by (auto simp: attempt_def slot_taken_def Let_def)
  have v: "r < length (pl_states p)" by (rule contenders_valid [OF assms(1) r])
  have a: "as_active (pl_states q ! r) = as_active (pl_states p ! r)"
    using w v quiet_ops(1) [of now] unfolding woken_def quiet_def by metis
  have vq: "r < length (pl_states q)" using w v by (simp add: woken_def)
  have s: "as_active s = as_active (pl_states q ! r) + 1"
    "as_active (pl_states q ! r) < (if ?m = 0 then usize_max else ?m)"
    using t by (auto simp: try_acquire_slot_def Let_def split: if_splits)
  show "r \<in> set (contenders j now now_ms model ids p)" by (rule r)
  show "as_active (pl_states p ! r) < (let m = ?m in if m = 0 then usize_max else m)"
    using s(2) a by (simp add: Let_def)
  show "as_active (pl_states p' ! r) = as_active (pl_states p ! r) + 1"
    using s(1) a vq by (simp add: p' update_state_nth mark_used_now_def)
  show "pl_leases p' = r # pl_leases p" using w by (simp add: p' woken_def)
qed

text \<open>An account handed to a request is in the pool, enabled, healthy (an expired cooldown counts as
  healthy), not credit-stopped, able to serve the model, within the request's scope and below its
  concurrency limit; its slot count rises by one and exactly one lease is created.\<close>

theorem acquired_account_is_eligible:
  assumes "p = fold pool_step ops (pool_new accounts config)"
    and "acquire j now now_ms model ids p = (Acquired r, p')"
  shows "r \<in> set (map snd (pl_accounts p))
    \<and> (ids = [] \<or> ac_id (as_account (pl_states p ! r)) \<in> set ids)
    \<and> as_health (wake now (pl_states p ! r)) = Available
    \<and> ac_enabled (as_account (pl_states p ! r))
    \<and> account_credit_state (as_account (pl_states p ! r)) (pl_config p) = CreditAvailable
    \<and> serves_model (pl_states p ! r) model = Some True
    \<and> as_active (pl_states p ! r) < (let m = pc_max_concurrent_per_account (pl_config p) in
         if m = 0 then usize_max else m)
    \<and> as_active (pl_states p' ! r) = as_active (pl_states p ! r) + 1
    \<and> pl_leases p' = r # pl_leases p"
proof -
  have inv: "pool_inv p" unfolding assms(1) by (rule pool.inv_run)
  have at: "attempt j now now_ms model ids p (Some r) p'"
    using acquire_outcome [OF inv assms(2)] by simp
  have "r \<in> set (map snd (pl_accounts p)) \<and> fit now (pl_config p) model ids (pl_states p ! r)"
    using attempt_Some_state(1) [OF inv at] by (simp add: set_contenders)
  then show ?thesis
    using attempt_Some_state(2-4) [OF inv at] by (simp add: fit_expand)
qed

lemma demo_acquire: "fst (acquire (\<lambda>_. Fin 0) 0 0 [] [] demo_pool) = Acquired 0"
  by (simp add: acquire_def enter_queue_def candidates_def demo_pool_fields eligible_def wake_def cooling_expired_def
      account_state_new_def demo_member_def account_credit_state_def serves_model_def demo_config_def
      update_state_def Let_def try_acquire_def sort_by_def score_def score_cmp_def f_of_nat_def
      try_acquire_slot_def)

theorem acquired_account_is_eligible_witness:
  "ac_enabled (as_account (pl_states demo_pool ! 0))
   \<and> pl_leases (snd (acquire (\<lambda>_. Fin 0) 0 0 [] [] demo_pool)) = 0 # pl_leases demo_pool"
  using acquired_account_is_eligible [of demo_pool "[]" "[demo_member ''a'', demo_member ''b'']"
      "demo_config 1" "\<lambda>_. Fin 0" 0 0 "[]" "[]" 0 "snd (acquire (\<lambda>_. Fin 0) 0 0 [] [] demo_pool)"]
    demo_acquire by (simp add: demo_pool_def prod_eq_iff)


section \<open>The best account\<close>

lemma insert_by_sorted:
  assumes "sorted_wrt (\<lambda>a b. f_le (fst a) (fst b)) ys" and "fst x \<noteq> NaN" and "\<forall>y \<in> set ys. fst y \<noteq> NaN"
  shows "sorted_wrt (\<lambda>a b. f_le (fst a) (fst b)) (insert_by (\<lambda>l r. score_cmp (fst l) (fst r)) x ys)"
  using assms
proof (induction ys)
  case (Cons y ys)
  show ?case
  proof (cases "f_lt (fst y) (fst x)")
    case True
    then have "f_le (fst y) (fst x)" by (cases "fst y"; cases "fst x") auto
    moreover have "\<not> f_lt (fst x) (fst y)" using True by (cases "fst y"; cases "fst x") auto
    ultimately show ?thesis
      using Cons True by (auto simp: score_cmp_def set_insert_by)
  next
    case False
    then have le: "f_le (fst x) (fst y)" using Cons.prems(2,3) by (simp add: f_not_lt)
    with Cons False show ?thesis
      by (auto simp: score_cmp_def intro: f_le_trans [OF le])
  qed
qed simp

lemma sort_by_sorted:
  "\<forall>x \<in> set xs. fst x \<noteq> NaN \<Longrightarrow>
     sorted_wrt (\<lambda>a b. f_le (fst a) (fst b)) (sort_by (\<lambda>l r. score_cmp (fst l) (fst r)) xs)"
proof (induction xs)
  case (Cons x xs)
  then have "\<forall>y \<in> set (sort_by (\<lambda>l r. score_cmp (fst l) (fst r)) xs). fst y \<noteq> NaN"
    by (simp add: set_sort_by)
  with Cons show ?case by (simp add: sort_by_def insert_by_sorted)
qed (simp add: sort_by_def)

lemma contenders_sorted:
  assumes "\<And>r. r \<in> set (contenders j now now_ms model ids p) \<Longrightarrow> rank j now now_ms (pl_config p) p r \<noteq> NaN"
  shows "sorted_wrt (\<lambda>a b. f_le (rank j now now_ms (pl_config p) p a) (rank j now now_ms (pl_config p) p b))
    (contenders j now now_ms model ids p)"
proof -
  let ?rk = "rank j now now_ms (pl_config p) p"
  let ?xs = "map (\<lambda>r. (?rk r, r)) (filter (\<lambda>r. fit now (pl_config p) model ids (pl_states p ! r))
      (map snd (pl_accounts p)))"
  let ?ys = "sort_by (\<lambda>l r. score_cmp (fst l) (fst r)) ?xs"
  have eq: "fst y = ?rk (snd y)" if "y \<in> set ?ys" for y
    using that by (auto simp: set_sort_by)
  have "fst y \<noteq> NaN" if "y \<in> set ?xs" for y
  proof -
    have y: "y \<in> set ?ys" using that by (simp only: set_sort_by)
    then have "snd y \<in> set (contenders j now now_ms model ids p)"
      unfolding contenders_def by simp
    then show ?thesis using assms eq [OF y] by simp
  qed
  then have "sorted_wrt (\<lambda>a b. f_le (fst a) (fst b)) ?ys" by (intro sort_by_sorted) blast
  then have "sorted_wrt (\<lambda>a b. f_le (?rk (snd a)) (?rk (snd b))) ?ys"
  proof (rule sorted_wrt_mono_rel [rotated])
    fix a b assume "a \<in> set ?ys" "b \<in> set ?ys" "f_le (fst a) (fst b)"
    then show "f_le (?rk (snd a)) (?rk (snd b))"
      by (simp only: eq [of a, symmetric] eq [of b, symmetric])
  qed
  then show ?thesis unfolding contenders_def by (simp add: sorted_wrt_map)
qed

lemma try_slot_woken:
  assumes "woken now p q" and "r < length (pl_states p)"
  shows "try_acquire_slot m (pl_states q ! r) = None \<longleftrightarrow> try_acquire_slot m (pl_states p ! r) = None"
  using assms try_slot_wake [of m now "pl_states p ! r"] unfolding woken_def by metis

text \<open>Among the accounts that could serve the request and have a free slot, the one handed out has
  the lowest load score (including the random jitter), when no score is NaN.\<close>

theorem acquired_account_has_lowest_score:
  assumes "p = fold pool_step ops (pool_new accounts config)"
    and "acquire j now now_ms model ids p = (Acquired r, p')"
    and "\<And>r. r \<in> set (contenders j now now_ms model ids p) \<Longrightarrow> rank j now now_ms (pl_config p) p r \<noteq> NaN"
    and "r' \<in> set (map snd (pl_accounts p))" and "fit now (pl_config p) model ids (pl_states p ! r')"
    and "try_acquire_slot (pc_max_concurrent_per_account (pl_config p)) (pl_states p ! r') \<noteq> None"
  shows "f_le (rank j now now_ms (pl_config p) p r) (rank j now now_ms (pl_config p) p r')"
proof -
  let ?m = "pc_max_concurrent_per_account (pl_config p)"
  let ?rk = "rank j now now_ms (pl_config p) p"
  have inv: "pool_inv p" unfolding assms(1) by (rule pool.inv_run)
  obtain q before after where w: "woken now p q"
    and cs: "contenders j now now_ms model ids p = before @ r # after"
    and full: "\<forall>x \<in> set before. try_acquire_slot ?m (pl_states q ! x) = None"
    using acquire_outcome [OF inv assms(2)] by (auto simp: attempt_def Let_def)
  have in': "r' \<in> set (contenders j now now_ms model ids p)"
    using assms(4,5) by (simp add: set_contenders)
  have "r' \<notin> set before"
    using full assms(6) try_slot_woken [OF w contenders_valid [OF inv in'], of ?m] by metis
  then have "r' = r \<or> r' \<in> set after" using in' cs by auto
  moreover have "sorted_wrt (\<lambda>a b. f_le (?rk a) (?rk b)) (before @ r # after)"
    unfolding cs [symmetric] by (rule contenders_sorted) (rule assms(3))
  moreover have "f_le (?rk r) (?rk r)"
    using assms(3) [of r] by (cases "?rk r") (auto simp: cs)
  ultimately show ?thesis by (auto simp: sorted_wrt_append)
qed

text \<open>A request that acquires with no other task in between is refused or has to wait only because every
  account that could serve it is at its concurrency limit (or there is none): a free suitable account
  is not passed over.\<close>

theorem refused_only_when_all_full:
  assumes "p = fold pool_step ops (pool_new accounts config)"
    and "acquire j now now_ms model ids p = (out, p')" and "out \<in> range Failed \<union> range Waiting"
    and "r \<in> set (map snd (pl_accounts p))" and "fit now (pl_config p) model ids (pl_states p ! r)"
  shows "(let m = pc_max_concurrent_per_account (pl_config p) in if m = 0 then usize_max else m)
    \<le> as_active (pl_states p ! r)"
proof -
  have inv: "pool_inv p" unfolding assms(1) by (rule pool.inv_run)
  have "all_full j now now_ms model ids p"
    using acquire_outcome [OF inv assms(2)] assms(3) by auto
  moreover have "r \<in> set (contenders j now now_ms model ids p)"
    using assms(4,5) by (simp add: set_contenders)
  ultimately show ?thesis
    by (auto simp: all_full_def try_acquire_slot_def Let_def split: if_splits)
qed

section \<open>Counting\<close>

text \<open>The counts of a summary add up.\<close>

definition balanced :: "account_pool_counts \<Rightarrow> bool" where
  "balanced c \<longleftrightarrow> ct_total c = ct_enabled c + ct_disabled c
     \<and> ct_enabled c = ct_available c + ct_protected c + ct_cooling c + ct_exhausted c + ct_banned c
         + ct_refreshing c"

lemma count_account_spec:
  "balanced c \<Longrightarrow> balanced (count_account config s c)"
  "ct_total (count_account config s c) = ct_total c + 1"
  "ct_available (count_account config s c) = ct_available c +
     (if ac_enabled (as_account s) \<and> account_credit_state (as_account s) config = CreditAvailable
         \<and> as_health s = Available then 1 else 0)"
  by (auto simp: count_account_def balanced_def Let_def split: account_credit_state.split account_health.split)

definition schedulable :: "nat \<Rightarrow> pool_config \<Rightarrow> account_state \<Rightarrow> bool" where
  "schedulable now config s \<longleftrightarrow> fit now config [] [] s"

lemma count_loop_spec:
  assumes "count_loop now ids rs c p = (c', p')" and "\<forall>r \<in> set rs. r < length (pl_states p)"
  shows "(balanced c \<longrightarrow> balanced c')
    \<and> ct_total c' = ct_total c + length (filter (\<lambda>r. in_scope ids (as_account (pl_states p ! r))) rs)
    \<and> ct_available c' = ct_available c + length (filter (\<lambda>r. in_scope ids (as_account (pl_states p ! r))
        \<and> schedulable now (pl_config p) (pl_states p ! r)) rs)"
  using assms
proof (induction rs arbitrary: c p)
  case (Cons r rs)
  let ?q = "update_state r (wake now) p"
  let ?s = "pl_states ?q ! r"
  have r: "r < length (pl_states p)" using Cons.prems(2) by simp
  have s: "?s = wake now (pl_states p ! r)" using r by (simp add: update_state_nth)
  have acc: "as_account (wake now t) = as_account t" for t by (simp add: wake_def set_health_def)
  have same: "as_account (pl_states ?q ! k) = as_account (pl_states p ! k)"
    "schedulable now (pl_config p) (pl_states ?q ! k) = schedulable now (pl_config p) (pl_states p ! k)"
    if "k < length (pl_states p)" for k
    using that by (simp_all add: update_state_nth acc schedulable_def)
  have f: "filter (\<lambda>r. in_scope ids (as_account (pl_states ?q ! r))) rs
      = filter (\<lambda>r. in_scope ids (as_account (pl_states p ! r))) rs"
    "filter (\<lambda>r. in_scope ids (as_account (pl_states ?q ! r)) \<and> schedulable now (pl_config p) (pl_states ?q ! r)) rs
      = filter (\<lambda>r. in_scope ids (as_account (pl_states p ! r)) \<and> schedulable now (pl_config p) (pl_states p ! r)) rs"
    using Cons.prems(2) same by (auto intro!: filter_cong)
  let ?c = "if in_scope ids (as_account ?s) then count_account (pl_config p) ?s c else c"
  have IH: "(balanced ?c \<longrightarrow> balanced c')
    \<and> ct_total c' = ct_total ?c + length (filter (\<lambda>r. in_scope ids (as_account (pl_states p ! r))) rs)
    \<and> ct_available c' = ct_available ?c + length (filter (\<lambda>r. in_scope ids (as_account (pl_states p ! r))
        \<and> schedulable now (pl_config p) (pl_states p ! r)) rs)"
    using Cons.IH [of ?c ?q] Cons.prems by (simp add: Let_def f)
  have "schedulable now (pl_config p) (pl_states p ! r) \<longleftrightarrow> ac_enabled (as_account ?s)
      \<and> account_credit_state (as_account ?s) (pl_config p) = CreditAvailable \<and> as_health ?s = Available"
    by (auto simp: schedulable_def fit_expand s acc serves_model_def)
  with IH s acc show ?case
    using count_account_spec(1) [of c "pl_config p" ?s] count_account_spec(2,3) [of "pl_config p" ?s c]
    by (cases "in_scope ids (as_account ?s)") simp_all
qed simp

text \<open>The scheduling counts are exact and exclusive: every account in scope is counted once, as
  disabled or in exactly one enabled class, and \<open>available\<close> counts precisely the accounts
  a request without a model constraint could be given.\<close>

theorem scheduling_counts_partition:
  assumes "p = fold pool_step ops (pool_new accounts config)"
    and "scheduling_counts_in now ids p = (c, p')"
  shows "balanced c
    \<and> ct_total c = length (filter (\<lambda>(i, r). in_scope ids (as_account (pl_states p ! r))) (pl_accounts p))
    \<and> ct_available c = length (filter (\<lambda>(i, r). in_scope ids (as_account (pl_states p ! r))
        \<and> fit now (pl_config p) [] [] (pl_states p ! r)) (pl_accounts p))"
proof -
  have inv: "pool_inv p" unfolding assms(1) by (rule pool.inv_run)
  have v: "\<forall>r \<in> set (map snd (pl_accounts p)). r < length (pl_states p)"
    using inv map_ok_refs unfolding pool_inv_def by blast
  have "balanced counts_default" "ct_total counts_default = 0" "ct_available counts_default = 0"
    by (simp_all add: balanced_def counts_default_def)
  with count_loop_spec [OF assms(2) [unfolded scheduling_counts_in_def] v] show ?thesis
    by (simp add: filter_map comp_def case_prod_unfold schedulable_def)
qed

theorem scheduling_counts_partition_witness:
  "balanced (fst (scheduling_counts_in 0 None demo_pool))
    \<and> ct_total (fst (scheduling_counts_in 0 None demo_pool)) = 2"
  using scheduling_counts_partition [of demo_pool "[]" "[demo_member ''a'', demo_member ''b'']"
      "demo_config 1" 0 None "fst (scheduling_counts_in 0 None demo_pool)"
      "snd (scheduling_counts_in 0 None demo_pool)"]
  by (simp add: demo_pool_fields in_scope_def) (simp add: demo_pool_def)

section \<open>Bans\<close>

text \<open>A ban does not survive an error report: a request of a banned account that is still in flight
  and fails replaces the ban by a cooldown, after which the account is selectable again.\<close>

theorem error_report_lifts_ban:
  assumes "p = fold pool_step ops (pool_new accounts config)" and "pool_get i p = Some r"
    and "now + cd_cooldown_ms (pc_cooldown (pl_config p)) + cd_error_cooldown_ms (pc_cooldown (pl_config p)) \<le> later"
  shows "as_health (pl_states (mark_banned i p) ! r) = Banned
    \<and> as_health (wake later (pl_states (record_error now i (mark_banned i p)) ! r)) = Available"
proof -
  have inv: "pool_inv p" unfolding assms(1) by (rule pool.inv_run)
  have r: "r < length (pl_states p)"
    using inv map_of_SomeD [OF assms(2) [unfolded pool_get_def]] by (auto simp: pool_inv_def map_ok_def)
  have b: "mark_banned i p = update_state r (set_health Banned) p"
    by (simp add: mark_banned_def with_account_def assms(2))
  have "pool_get i (mark_banned i p) = Some r" using assms(2) by (simp add: b pool_get_def)
  then show ?thesis
    using r assms(3)
    by (simp add: record_error_def with_account_def b update_state_nth error_on_def cool_for_def
        set_health_def wake_def cooling_expired_def Let_def)
qed

theorem error_report_lifts_ban_witness:
  "as_health (wake 99999 (pl_states (record_error 0 ''a'' (mark_banned ''a'' demo_pool)) ! 0)) = Available"
  using error_report_lifts_ban [of demo_pool "[]" "[demo_member ''a'', demo_member ''b'']" "demo_config 1"
      "''a''" 0 0 99999]
  by (simp add: demo_pool_fields pool_get_def demo_config_def) (simp add: demo_pool_def demo_config_def)

end
