(* ===== verification/Calendar.thy ===== *)
theory Calendar
  imports Values
begin

text \<open>
  The calendar of \<open>crates/kproxyd/src/meter.rs\<close> (\<open>civil_from_days\<close>, \<open>utc_day\<close>): the
  day a usage record is booked on. The conversion is proved to be the proleptic Gregorian calendar.
  An \<open>i64\<close> timestamp divided by 86400 leaves every intermediate value far inside 64 bits,
  so the arithmetic is on integers; Rust's \<open>/\<close> truncates towards zero.
\<close>

section \<open>Definitions\<close>

definition i64_div :: "int \<Rightarrow> int \<Rightarrow> int" where
  "i64_div a b = sgn a * sgn b * (\<bar>a\<bar> div \<bar>b\<bar>)"

definition civil_from_days :: "int \<Rightarrow> int \<times> int \<times> int" where
  "civil_from_days days =
     (let z = days + 719468;
          era = i64_div (if z \<ge> 0 then z else z - 146096) 146097;
          day_of_era = z - era * 146097;
          year_of_era = i64_div (day_of_era - i64_div day_of_era 1460 + i64_div day_of_era 36524
            - i64_div day_of_era 146096) 365;
          year = year_of_era + era * 400;
          day_of_year = day_of_era - (365 * year_of_era + i64_div year_of_era 4 - i64_div year_of_era 100);
          month_prime = i64_div (5 * day_of_year + 2) 153;
          day = day_of_year - i64_div (153 * month_prime + 2) 5 + 1;
          month = month_prime + (if month_prime < 10 then 3 else -9)
      in (year + (if month \<le> 2 then 1 else 0), month, day))"

text \<open>\<open>{n:0w}\<close>: decimal, padded with zeros to the width, the sign included.\<close>

fun decimal :: "nat \<Rightarrow> string" where
  "decimal n = (if n < 10 then [char_of (48 + n)] else decimal (n div 10) @ [char_of (48 + n mod 10)])"

declare decimal.simps [simp del]

definition pad_zero :: "nat \<Rightarrow> int \<Rightarrow> string" where
  "pad_zero w n = (let ds = decimal (nat \<bar>n\<bar>); sign = (if n < 0 then ''-'' else [])
     in sign @ replicate (w - length sign - length ds) (CHR ''0'') @ ds)"

definition utc_day :: "int \<Rightarrow> string" where
  "utc_day timestamp =
     (let days = timestamp div 86400; (year, month, day) = civil_from_days days
      in pad_zero 4 year @ ''-'' @ pad_zero 2 month @ ''-'' @ pad_zero 2 day)"

section \<open>The Gregorian calendar\<close>

definition leap_year :: "int \<Rightarrow> bool" where
  "leap_year y \<longleftrightarrow> y mod 4 = 0 \<and> (y mod 100 \<noteq> 0 \<or> y mod 400 = 0)"

definition days_in_month :: "int \<Rightarrow> int \<Rightarrow> int" where
  "days_in_month y m =
     (if m = 2 then (if leap_year y then 29 else 28)
      else if m \<in> {4, 6, 9, 11} then 30 else 31)"

definition next_date :: "int \<times> int \<times> int \<Rightarrow> int \<times> int \<times> int" where
  "next_date = (\<lambda>(y, m, d).
     if d < days_in_month y m then (y, m, d + 1)
     else if m < 12 then (y, m + 1, 1)
     else (y + 1, 1, 1))"

section \<open>The conversion\<close>

text \<open>
  Years of an era run from March to February, so a leap day is the last day of its year. A day is
  located by its era, the century, four-year block and year within it, and the day of the year.
\<close>

definition long_year :: "int \<Rightarrow> int \<Rightarrow> int \<Rightarrow> bool" where
  "long_year c q k \<longleftrightarrow> k = 3 \<and> (q \<noteq> 24 \<or> c = 3)"

definition in_era :: "int \<Rightarrow> int \<Rightarrow> int \<Rightarrow> int \<Rightarrow> bool" where
  "in_era c q k doy \<longleftrightarrow> 0 \<le> c \<and> c \<le> 3 \<and> 0 \<le> q \<and> q \<le> 24 \<and> 0 \<le> k \<and> k \<le> 3
     \<and> 0 \<le> doy \<and> doy \<le> (if long_year c q k then 365 else 364)"

definition era_day :: "int \<Rightarrow> int \<Rightarrow> int \<Rightarrow> int \<Rightarrow> int" where
  "era_day c q k doy = 36524 * c + 1461 * q + 365 * k + doy"

definition march_date :: "int \<Rightarrow> int \<times> int" where
  "march_date doy = (let mp = (5 * doy + 2) div 153 in
     (mp + (if mp < 10 then 3 else -9), doy - (153 * mp + 2) div 5 + 1))"

lemma i64_div_pos: "0 \<le> a \<Longrightarrow> 0 < b \<Longrightarrow> i64_div a b = a div b"
  by (cases "a = 0") (simp_all add: i64_div_def)

lemma div_eqI: "b * q \<le> a \<Longrightarrow> a < b * q + b \<Longrightarrow> a div b = q" for a b q :: int
  by (rule int_div_pos_eq [of a b q "a - b * q"]) auto

lemma era_div: "i64_div (if z \<ge> 0 then z else z - 146096) 146097 = z div 146097"
proof (cases "z \<ge> 0")
  case False
  have z: "z = 146097 * (z div 146097) + z mod 146097" "0 \<le> z mod 146097" "z mod 146097 < 146097"
    by simp_all
  have "(146096 - z) div 146097 = - (z div 146097)"
    by (rule div_eqI) (use z in linarith)+
  then show ?thesis using False by (simp add: i64_div_def)
qed (simp add: i64_div_pos)

lemma era_day_range: "in_era c q k doy \<Longrightarrow> 0 \<le> era_day c q k doy \<and> era_day c q k doy < 146097"
  by (auto simp: in_era_def era_day_def long_year_def split: if_splits)

lemma era_day_ex:
  assumes "0 \<le> d" and "d < 146097"
  obtains c q k doy where "in_era c q k doy" and "d = era_day c q k doy"
proof -
  define c where "c = min 3 (d div 36524)"
  define r where "r = d - 36524 * c"
  define q where "q = r div 1461"
  define t where "t = r mod 1461"
  define k where "k = min 3 (t div 365)"
  have c: "0 \<le> c" "c \<le> 3" "0 \<le> r" "c = 3 \<or> r < 36524" "r \<le> 36524"
    using assms unfolding c_def r_def by linarith+
  have q: "r = 1461 * q + t" "0 \<le> t" "t < 1461" by (simp_all add: q_def t_def)
  have k: "0 \<le> k" "k \<le> 3" "0 \<le> t - 365 * k" "k = 3 \<or> t - 365 * k < 365"
    using q(2,3) unfolding k_def by linarith+
  have "in_era c q k (t - 365 * k)"
    using c q k by (auto simp: in_era_def long_year_def)
  moreover have "d = era_day c q k (t - 365 * k)"
    using q(1) by (simp add: era_day_def r_def)
  ultimately show thesis by (rule that)
qed

lemma era_day_divs:
  assumes "in_era c q k doy" and "d = era_day c q k doy"
  shows "(d - d div 1460 + d div 36524 - d div 146096) div 365 = 100 * c + 4 * q + k"
proof (cases "d = 146096")
  case True
  then have "c = 3 \<and> q = 24 \<and> k = 3"
    using assms by (auto simp: in_era_def era_day_def long_year_def split: if_splits)
  with True show ?thesis by simp
next
  case False
  define t where "t = 365 * k + doy"
  define b :: int where "b = (if 1460 \<le> 24 * c + q + t then 1 else 0)"
  have d: "d = 36524 * c + 1461 * q + t" using assms(2) by (simp add: era_day_def t_def)
  have r: "0 \<le> c" "c \<le> 3" "0 \<le> q" "q \<le> 24" "0 \<le> k" "k \<le> 3" "0 \<le> doy" "doy \<le> 365"
    "k = 3 \<or> doy \<le> 364" "1461 * q + t < 36524"
    using assms False d unfolding in_era_def long_year_def t_def by (auto split: if_splits)
  have "d div 146096 = 0" by (rule div_eqI) (use d r in \<open>simp_all add: t_def\<close>)
  moreover have "d div 36524 = c" by (rule div_eqI) (use d r in \<open>simp_all add: t_def\<close>)
  moreover have "d div 1460 = 25 * c + q + b"
    by (rule div_eqI) (use d r in \<open>auto simp: t_def b_def\<close>)
  moreover have "(36500 * c + 1460 * q + t - b) div 365 = 100 * c + 4 * q + k"
    by (rule div_eqI) (use r in \<open>auto simp: t_def b_def\<close>)
  ultimately show ?thesis using d by (simp add: algebra_simps)
qed

lemma civil_in_era:
  assumes "in_era c q k doy"
  shows "civil_from_days (146097 * e + era_day c q k doy - 719468) =
    (let (m, d) = march_date doy in (400 * e + 100 * c + 4 * q + k + (if m \<le> 2 then 1 else 0), m, d))"
proof -
  define doe where "doe = era_day c q k doy"
  define y where "y = 100 * c + 4 * q + k"
  have doe: "0 \<le> doe" "doe < 146097" using era_day_range [OF assms] by (simp_all add: doe_def)
  have e: "(146097 * e + doe) div 146097 = e" by (rule div_eqI) (use doe in simp_all)
  have y0: "0 \<le> y" using assms by (simp add: in_era_def y_def)
  have doy: "0 \<le> doy" using assms by (simp add: in_era_def)
  have y4: "y div 4 = 25 * c + q" and y100: "y div 100 = c"
    by (rule div_eqI; use assms in \<open>simp add: in_era_def y_def\<close>)+
  have pos: "0 \<le> doe - doe div 1460 + doe div 36524 - doe div 146096" using doe by linarith
  have yoe: "(doe - doe div 1460 + doe div 36524 - doe div 146096) div 365 = y"
    unfolding y_def by (rule era_day_divs [OF assms doe_def])
  have d: "doe - (365 * y + y div 4 - y div 100) = doy"
    unfolding y4 y100 by (simp add: doe_def era_day_def y_def)
  define mp where "mp = (5 * doy + 2) div 153"
  have mp: "0 \<le> mp" using doy by (simp add: mp_def)
  have era: "146097 * e + doe - e * 146097 = doe" by simp
  have day: "146097 * e + doe - 719468 + 719468 = 146097 * e + doe" by simp
  have divs: "i64_div doe 1460 = doe div 1460" "i64_div doe 36524 = doe div 36524"
    "i64_div doe 146096 = doe div 146096" "i64_div y 4 = y div 4" "i64_div y 100 = y div 100"
    "i64_div (5 * doy + 2) 153 = mp" "i64_div (153 * mp + 2) 5 = (153 * mp + 2) div 5"
    "i64_div (doe - doe div 1460 + doe div 36524 - doe div 146096) 365 = y"
    using doe y0 doy mp pos by (simp_all add: i64_div_pos mp_def yoe)
  show ?thesis
    unfolding doe_def [symmetric] civil_from_days_def Let_def era_div day e era divs d
    by (simp add: march_date_def Let_def mp_def [symmetric] y_def)
qed

text \<open>The months of a March year.\<close>

lemma march_month:
  assumes "153 * mp \<le> 5 * doy + 2" and "5 * doy + 2 < 153 * mp + 153"
  shows "march_date doy = (mp + (if mp < 10 then 3 else -9), doy - (153 * mp + 2) div 5 + 1)"
  using div_eqI [OF assms] by (simp add: march_date_def Let_def)

text \<open>The dates of a March year follow each other; the end of February depends on the year.\<close>

lemma march_cases:
  fixes doy :: int
  assumes "0 \<le> doy" and "doy < 366"
  obtains mp where "mp \<in> {0, 1, 2, 3, 4, 5, 6, 7, 8, 9, 10, 11}"
    and "153 * mp \<le> 5 * doy + 2" and "5 * doy + 2 < 153 * mp + 153"
proof -
  define mp where "mp = (5 * doy + 2) div 153"
  have "5 * doy + 2 = 153 * mp + (5 * doy + 2) mod 153" by (simp add: mp_def)
  moreover have "0 \<le> (5 * doy + 2) mod 153" "(5 * doy + 2) mod 153 < 153" by simp_all
  ultimately have mp: "153 * mp \<le> 5 * doy + 2" "5 * doy + 2 < 153 * mp + 153" by linarith+
  moreover have "mp \<in> {0, 1, 2, 3, 4, 5, 6, 7, 8, 9, 10, 11}"
  proof -
    have "0 \<le> mp" "mp \<le> 11" using mp assms by linarith+
    then show ?thesis unfolding insert_iff empty_iff by presburger
  qed
  ultimately show thesis by (intro that)
qed

lemma march_next:
  assumes "0 \<le> doy" and "doy < 365" and "march_date doy = (m, d)"
  shows "march_date (doy + 1) =
    (if d < (if m = 2 then 29 else if m \<in> {4, 6, 9, 11} then 30 else 31) then (m, d + 1)
     else (if m < 12 then m + 1 else 1, 1))"
proof -
  have "doy < 366" using assms(2) by simp
  with assms(1) obtain mp where mp: "mp \<in> {0, 1, 2, 3, 4, 5, 6, 7, 8, 9, 10, 11}"
    "153 * mp \<le> 5 * doy + 2" "5 * doy + 2 < 153 * mp + 153" by (rule march_cases)
  have n: "march_date (doy + 1) = (if 5 * (doy + 1) + 2 < 153 * mp + 153
      then (mp + (if mp < 10 then 3 else -9), doy + 1 - (153 * mp + 2) div 5 + 1)
      else (mp + 1 + (if mp + 1 < 10 then 3 else -9), doy + 1 - (153 * (mp + 1) + 2) div 5 + 1))"
    using march_month [of mp "doy + 1"] march_month [of "mp + 1" "doy + 1"] mp(2,3) by auto
  have md: "m = mp + (if mp < 10 then 3 else -9)" "d = doy - (153 * mp + 2) div 5 + 1"
    using march_month [OF mp(2,3)] assms(3) by simp_all
  show ?thesis
    unfolding n md using mp(1) mp(2,3) assms(2) by (elim insertE emptyE; simp)
qed

lemma march_date_month:
  assumes "0 \<le> doy" and "doy < 366" and "march_date doy = (m, d)"
  shows "m \<le> 12 \<and> (m \<le> 2 \<longleftrightarrow> 306 \<le> doy) \<and> (m = 2 \<longleftrightarrow> 337 \<le> doy) \<and> (m = 2 \<longrightarrow> d = doy - 336)
    \<and> (m = 12 \<longleftrightarrow> 275 \<le> doy \<and> doy < 306)"
proof -
  from assms(1,2) obtain mp where mp: "mp \<in> {0, 1, 2, 3, 4, 5, 6, 7, 8, 9, 10, 11}"
    "153 * mp \<le> 5 * doy + 2" "5 * doy + 2 < 153 * mp + 153" by (rule march_cases)
  have md: "m = mp + (if mp < 10 then 3 else -9)" "d = doy - (153 * mp + 2) div 5 + 1"
    using march_month [OF mp(2,3)] assms(3) by simp_all
  show ?thesis
    unfolding md using mp assms(1,2) by (elim insertE emptyE; simp; linarith?)
qed

lemma leap_era_year:
  assumes "in_era c q k doy"
  shows "leap_year (400 * e + 100 * c + 4 * q + k + 1) \<longleftrightarrow> long_year c q k"
proof -
  have k: "k \<in> {0, 1, 2, 3}" and c: "c \<in> {0, 1, 2, 3}"
    using assms by (auto simp: in_era_def)
  have r: "0 \<le> q" "q \<le> 24" using assms by (simp_all add: in_era_def)
  let ?y = "400 * e + 100 * c + 4 * q + k + 1"
  have "?y = k + 1 + (100 * e + 25 * c + q) * 4" "?y = 4 * q + k + 1 + (4 * e + c) * 100"
    "?y = 100 * c + 4 * q + k + 1 + e * 400"
    by simp_all
  then have m4: "?y mod 4 = (k + 1) mod 4" and m100: "?y mod 100 = (4 * q + k + 1) mod 100"
    and m400: "?y mod 400 = (100 * c + 4 * q + k + 1) mod 400"
    by (metis mod_mult_self1)+
  show ?thesis
  proof (cases "k = 3")
    case False
    then have "(k + 1) mod 4 \<noteq> 0" using k by auto
    with False show ?thesis by (simp add: leap_year_def long_year_def m4)
  next
    case True
    have "(4 * q + k + 1) mod 100 = 0 \<longleftrightarrow> q = 24"
    proof (cases "q = 24")
      case False
      then have "4 * q + k + 1 < 100" "0 < 4 * q + k + 1" using r True by linarith+
      then show ?thesis using False by (simp only: mod_pos_pos_trivial) simp
    qed (simp add: True)
    moreover have "(100 * c + 4 * q + k + 1) mod 400 = 0 \<longleftrightarrow> c = 3" if "q = 24"
      using c by (elim insertE emptyE) (simp_all add: that True)
    ultimately show ?thesis
      using True unfolding leap_year_def long_year_def m4 m100 m400
      by (cases "q = 24") (simp_all only: simp_thms, simp_all)
  qed
qed

text \<open>Within a year the next day follows; after its last day comes March 1st of the next.\<close>

lemma civil_next_day:
  assumes "in_era c q k (doy + 1)" and "0 \<le> doy"
  shows "civil_from_days (146097 * e + era_day c q k (doy + 1) - 719468)
    = next_date (civil_from_days (146097 * e + era_day c q k doy - 719468))"
proof -
  obtain m d where md: "march_date doy = (m, d)" by force
  obtain m' d' where md': "march_date (doy + 1) = (m', d')" by force
  have here: "in_era c q k doy" using assms by (auto simp: in_era_def split: if_splits)
  have doy: "doy < 365" "doy < 366" "doy + 1 < 366"
    using assms by (auto simp: in_era_def split: if_splits)
  note nx = march_next [OF assms(2) doy(1) md, unfolded md']
  note mm = march_date_month [OF assms(2) doy(2) md]
  have feb: "m = 2 \<Longrightarrow> d < 29 \<longleftrightarrow> d < days_in_month (400 * e + 100 * c + 4 * q + k + 1) m"
    using mm assms(1) leap_era_year [OF here, of e]
    by (auto simp: days_in_month_def in_era_def split: if_splits)
  define y where "y = 400 * e + 100 * c + 4 * q + k"
  have "(y + (if m' \<le> 2 then 1 else 0), m', d') = next_date (y + (if m \<le> 2 then 1 else 0), m, d)"
  proof (cases "m = 2")
    case True
    with nx feb show ?thesis using mm doy by (simp add: next_date_def y_def)
  next
    case False
    have "m \<le> 12" using mm by simp
    with nx False show ?thesis by (auto simp: days_in_month_def next_date_def split: if_splits)
  qed
  then show ?thesis
    unfolding civil_in_era [OF assms(1)] civil_in_era [OF here] md md' Let_def prod.case y_def .
qed

lemma civil_next_year:
  assumes "in_era c q k doy" and "\<not> in_era c q k (doy + 1)"
  shows "next_date (civil_from_days (146097 * e + era_day c q k doy - 719468))
    = (400 * e + 100 * c + 4 * q + k + 1, 3, 1)"
proof -
  obtain m d where md: "march_date doy = (m, d)" by force
  have doy: "0 \<le> doy" "doy < 366" "doy = (if long_year c q k then 365 else 364)"
    using assms by (auto simp: in_era_def split: if_splits)
  note mm = march_date_month [OF doy(1,2) md]
  have "m = 2" using mm doy(3) by (auto split: if_splits)
  moreover have "d = days_in_month (400 * e + 100 * c + 4 * q + k + 1) m"
    using mm doy(3) \<open>m = 2\<close> leap_era_year [OF assms(1), of e] by (simp add: days_in_month_def)
  ultimately show ?thesis
    unfolding civil_in_era [OF assms(1)] md Let_def prod.case next_date_def by simp
qed

text \<open>The first day of a year, wherever it starts.\<close>

lemma march_first: "march_date 0 = (3, 1)"
  by (simp add: march_date_def)

lemma civil_year_start:
  assumes "in_era c q k 0"
  shows "civil_from_days (146097 * e + era_day c q k 0 - 719468) = (400 * e + 100 * c + 4 * q + k, 3, 1)"
  unfolding civil_in_era [OF assms] march_first by simp

lemma next_year_start:
  assumes "in_era c q k doy" and "\<not> in_era c q k (doy + 1)"
  shows "civil_from_days (146097 * e + era_day c q k doy + 1 - 719468)
    = (400 * e + 100 * c + 4 * q + k + 1, 3, 1)"
proof -
  have doy: "doy = (if long_year c q k then 365 else 364)"
    using assms by (auto simp: in_era_def split: if_splits)
  consider "k < 3" | "k = 3" "q < 24" | "k = 3" "q = 24" "c < 3" | "k = 3" "q = 24" "c = 3"
    using assms(1) unfolding in_era_def by linarith
  then show ?thesis
  proof cases
    case 1
    then have "in_era c q (k + 1) 0" "era_day c q (k + 1) 0 = era_day c q k doy + 1"
      using assms(1) doy by (auto simp: in_era_def era_day_def long_year_def)
    with civil_year_start [of c q "k + 1" e] show ?thesis by (simp add: add.assoc)
  next
    case 2
    then have "in_era c (q + 1) 0 0" "era_day c (q + 1) 0 0 = era_day c q k doy + 1"
      using assms(1) doy by (auto simp: in_era_def era_day_def long_year_def)
    with civil_year_start [of c "q + 1" 0 e] 2 show ?thesis by (simp add: add.assoc)
  next
    case 3
    then have "in_era (c + 1) 0 0 0" "era_day (c + 1) 0 0 0 = era_day c q k doy + 1"
      using assms(1) doy by (auto simp: in_era_def era_day_def long_year_def)
    with civil_year_start [of "c + 1" 0 0 e] 3 show ?thesis by (simp add: add.assoc)
  next
    case 4
    then have "in_era 0 0 0 0" "146097 * (e + 1) + era_day 0 0 0 0 = 146097 * e + era_day c q k doy + 1"
      using doy by (auto simp: in_era_def era_day_def long_year_def)
    then show ?thesis using civil_year_start [of 0 0 0 "e + 1"] 4 by (simp only:) simp
  qed
qed

text \<open>The day number to date conversion is the Gregorian calendar: day 0 is January 1st, 1970,
  and every day's date is the calendar successor of the date of the day before, in both directions of
  time.\<close>

theorem civil_from_days_gregorian:
  "civil_from_days 0 = (1970, 1, 1) \<and> (\<forall>day. civil_from_days (day + 1) = next_date (civil_from_days day))"
proof
  have "in_era 3 17 1 306" by (simp add: in_era_def)
  from civil_in_era [OF this, of 4] show "civil_from_days 0 = (1970, 1, 1)"
    by (simp add: era_day_def march_date_def)
  show "\<forall>day. civil_from_days (day + 1) = next_date (civil_from_days day)"
  proof
    fix day :: int
    define e where "e = (day + 719468) div 146097"
    obtain c q k doy where era: "in_era c q k doy" "(day + 719468) mod 146097 = era_day c q k doy"
      by (rule era_day_ex [of "(day + 719468) mod 146097"]) simp_all
    have day: "day = 146097 * e + era_day c q k doy - 719468"
      using era(2) by (metis add_diff_cancel_right' e_def mult_div_mod_eq)
    show "civil_from_days (day + 1) = next_date (civil_from_days day)"
    proof (cases "in_era c q k (doy + 1)")
      case True
      have "0 \<le> doy" using era(1) by (simp add: in_era_def)
      from civil_next_day [OF True this, of e] show ?thesis
        by (simp add: day era_day_def add.assoc)
    next
      case False
      from civil_next_year [OF era(1) False, of e] next_year_start [OF era(1) False, of e]
      show ?thesis by (simp add: day add.assoc)
    qed
  qed
qed

end
