(* ===== verification/UsageLedger.thy ===== *)
theory UsageLedger
  imports Calendar
begin

text \<open>
  \<open>crates/kproxyd/src/meter.rs\<close>: the usage ledger of an API key. \<open>u64\<close> counters are
  64-bit words: \<open>+=\<close> wraps (a build with overflow checks panics instead), and
  \<open>saturating_add\<close> saturates. A \<open>BTreeMap\<close> is an association list in key order.
  \<open>entry(k).or_default()\<close> followed by a call on the entry is one update of the map, with the
  default value and the call as arguments.
\<close>

section \<open>Maps with entries\<close>

definition hm_entry :: "'v \<Rightarrow> ('v \<Rightarrow> 'v) \<Rightarrow> 'k \<Rightarrow> ('k, 'v) hmap \<Rightarrow> ('k, 'v) hmap" where
  "hm_entry z f k m = hm_insert k (f (unwrap_or (hm_get m k) z)) m"

fun bt_entry :: "'v \<Rightarrow> ('v \<Rightarrow> 'v) \<Rightarrow> string \<Rightarrow> (string, 'v) hmap \<Rightarrow> (string, 'v) hmap" where
  "bt_entry z f k [] = [(k, f z)]"
| "bt_entry z f k ((k', v) # m) = (case str_cmp k k' of
       Less \<Rightarrow> (k, f z) # (k', v) # m
     | Equal \<Rightarrow> (k', f v) # m
     | Greater \<Rightarrow> (k', v) # bt_entry z f k m)"

definition u64_saturating_add :: "u64 \<Rightarrow> u64 \<Rightarrow> u64" where
  "u64_saturating_add a b = (if a + b < a then - 1 else a + b)"

section \<open>Buckets\<close>

definition MAX_USAGE_DAYS :: nat where "MAX_USAGE_DAYS = 366"

definition MAX_USAGE_DIMENSION_KEYS :: nat where "MAX_USAGE_DIMENSION_KEYS = 256"

definition OTHER_USAGE_DIMENSION :: string where "OTHER_USAGE_DIMENSION = ''other''"

record usage_bucket =
  ub_requests :: u64
  ub_credits :: f64
  ub_input_tokens :: u64
  ub_output_tokens :: u64

definition bucket_default :: usage_bucket where
  "bucket_default = \<lparr>ub_requests = 0, ub_credits = Fin 0, ub_input_tokens = 0, ub_output_tokens = 0\<rparr>"

record provider_billing =
  pb_schema_version :: u32
  pb_source :: string
  pb_unit :: "string option"
  pb_amount :: "u64 option"
  pb_raw :: json

record usage_record =
  ur_timestamp :: int
  ur_provider_id :: string
  ur_model :: string
  ur_original_model :: "string option"
  ur_kiro_model :: "string option"
  ur_input_tokens :: u64
  ur_output_tokens :: u64
  ur_credits :: f64
  ur_cache_read_tokens :: "u64 option"
  ur_cache_write_tokens :: "u64 option"
  ur_reasoning_tokens :: "u64 option"
  ur_token_usage_source :: string
  ur_provider_billing :: "provider_billing option"
  ur_path :: string

definition bucket_add :: "usage_record \<Rightarrow> usage_bucket \<Rightarrow> usage_bucket" where
  "bucket_add record b = b\<lparr>ub_requests := ub_requests b + 1,
     ub_credits := f_add (ub_credits b) (ur_credits record),
     ub_input_tokens := ub_input_tokens b + ur_input_tokens record,
     ub_output_tokens := ub_output_tokens b + ur_output_tokens record\<rparr>"

definition bucket_merge :: "usage_bucket \<Rightarrow> usage_bucket \<Rightarrow> usage_bucket" where
  "bucket_merge other b = b\<lparr>ub_requests := u64_saturating_add (ub_requests b) (ub_requests other),
     ub_credits := f_add (ub_credits b) (ub_credits other),
     ub_input_tokens := u64_saturating_add (ub_input_tokens b) (ub_input_tokens other),
     ub_output_tokens := u64_saturating_add (ub_output_tokens b) (ub_output_tokens other)\<rparr>"

section \<open>Bounded dimensions\<close>

text \<open>The key an entry is booked under: a new one only while there is room for it.\<close>

definition bounded_key :: "string \<Rightarrow> (string, 'v) hmap \<Rightarrow> string" where
  "bounded_key key dimensions =
     (if hm_contains dimensions key
         \<or> key \<noteq> OTHER_USAGE_DIMENSION \<and> length dimensions < MAX_USAGE_DIMENSION_KEYS - 1
      then key else OTHER_USAGE_DIMENSION)"

definition usage_dimension_entry ::
  "(usage_bucket \<Rightarrow> usage_bucket) \<Rightarrow> string \<Rightarrow> (string, usage_bucket) hmap
     \<Rightarrow> (string, usage_bucket) hmap" where
  "usage_dimension_entry f key dimensions =
     hm_entry bucket_default f (bounded_key key dimensions) dimensions"

definition merge_usage_dimensions ::
  "(string, usage_bucket) hmap \<Rightarrow> (string, usage_bucket) hmap \<Rightarrow> (string, usage_bucket) hmap" where
  "merge_usage_dimensions source target =
     fold (\<lambda>(key, bucket). usage_dimension_entry (bucket_merge bucket) key) source target"

definition bound_usage_dimensions :: "(string, usage_bucket) hmap \<Rightarrow> (string, usage_bucket) hmap" where
  "bound_usage_dimensions dimensions =
     (if length dimensions < MAX_USAGE_DIMENSION_KEYS then dimensions
      else fold (\<lambda>(key, bucket). usage_dimension_entry (bucket_merge bucket) key) dimensions [])"

text \<open>\<open>while daily.len() > MAX_USAGE_DAYS { daily.pop_first(); }\<close>\<close>

definition trim_days :: "(string, 'v) hmap \<Rightarrow> (string, 'v) hmap" where
  "trim_days daily = drop (length daily - MAX_USAGE_DAYS) daily"

definition book_day :: "usage_record \<Rightarrow> (string, usage_bucket) hmap \<Rightarrow> (string, usage_bucket) hmap" where
  "book_day record daily =
     trim_days (bt_entry bucket_default (bucket_add record) (utc_day (ur_timestamp record)) daily)"

section \<open>Usage per provider\<close>

record provider_api_key_usage =
  pu_total :: usage_bucket
  pu_daily :: "(string, usage_bucket) hmap"
  pu_by_model :: "(string, usage_bucket) hmap"
  pu_by_original_model :: "(string, usage_bucket) hmap"
  pu_by_kiro_model :: "(string, usage_bucket) hmap"
  pu_by_path :: "(string, usage_bucket) hmap"

definition provider_usage_default :: provider_api_key_usage where
  "provider_usage_default = \<lparr>pu_total = bucket_default, pu_daily = [], pu_by_model = [],
     pu_by_original_model = [], pu_by_kiro_model = [], pu_by_path = []\<rparr>"

definition book_optional ::
  "usage_record \<Rightarrow> string option \<Rightarrow> (string, usage_bucket) hmap \<Rightarrow> (string, usage_bucket) hmap" where
  "book_optional record key dimensions = (case key of None \<Rightarrow> dimensions
     | Some model \<Rightarrow> usage_dimension_entry (bucket_add record) model dimensions)"

definition provider_usage_add ::
  "usage_record \<Rightarrow> provider_api_key_usage \<Rightarrow> provider_api_key_usage" where
  "provider_usage_add record u =
     u\<lparr>pu_total := bucket_add record (pu_total u),
       pu_daily := book_day record (pu_daily u),
       pu_by_model := usage_dimension_entry (bucket_add record) (ur_model record) (pu_by_model u),
       pu_by_original_model := book_optional record (ur_original_model record) (pu_by_original_model u),
       pu_by_kiro_model := book_optional record (ur_kiro_model record) (pu_by_kiro_model u),
       pu_by_path := usage_dimension_entry (bucket_add record) (ur_path record) (pu_by_path u)\<rparr>"

definition provider_usage_merge ::
  "provider_api_key_usage \<Rightarrow> provider_api_key_usage \<Rightarrow> provider_api_key_usage" where
  "provider_usage_merge other u =
     u\<lparr>pu_total := bucket_merge (pu_total other) (pu_total u),
       pu_daily := trim_days (fold (\<lambda>(day, bucket). bt_entry bucket_default (bucket_merge bucket) day)
         (pu_daily other) (pu_daily u)),
       pu_by_model := merge_usage_dimensions (pu_by_model other) (pu_by_model u),
       pu_by_original_model := merge_usage_dimensions (pu_by_original_model other) (pu_by_original_model u),
       pu_by_kiro_model := merge_usage_dimensions (pu_by_kiro_model other) (pu_by_kiro_model u),
       pu_by_path := merge_usage_dimensions (pu_by_path other) (pu_by_path u)\<rparr>"

definition provider_usage_bound :: "provider_api_key_usage \<Rightarrow> provider_api_key_usage" where
  "provider_usage_bound u =
     u\<lparr>pu_daily := trim_days (pu_daily u),
       pu_by_model := bound_usage_dimensions (pu_by_model u),
       pu_by_original_model := bound_usage_dimensions (pu_by_original_model u),
       pu_by_kiro_model := bound_usage_dimensions (pu_by_kiro_model u),
       pu_by_path := bound_usage_dimensions (pu_by_path u)\<rparr>"

definition provider_usage_entry ::
  "(provider_api_key_usage \<Rightarrow> provider_api_key_usage) \<Rightarrow> string
     \<Rightarrow> (string, provider_api_key_usage) hmap \<Rightarrow> (string, provider_api_key_usage) hmap" where
  "provider_usage_entry f provider dimensions =
     hm_entry provider_usage_default f (bounded_key provider dimensions) dimensions"

definition bound_provider_usage ::
  "(string, provider_api_key_usage) hmap \<Rightarrow> (string, provider_api_key_usage) hmap" where
  "bound_provider_usage dimensions =
     (if length dimensions < MAX_USAGE_DIMENSION_KEYS
      then map (\<lambda>(k, u). (k, provider_usage_bound u)) dimensions
      else map (\<lambda>(k, u). (k, provider_usage_bound u))
        (fold (\<lambda>(provider, u). provider_usage_entry (provider_usage_merge u) provider) dimensions []))"

section \<open>Usage of an API key\<close>

record api_key_usage =
  ku_total_requests :: u64
  ku_total_credits :: f64
  ku_total_input_tokens :: u64
  ku_total_output_tokens :: u64
  ku_daily :: "(string, usage_bucket) hmap"
  ku_by_provider :: "(string, usage_bucket) hmap"
  ku_provider_details :: "(string, provider_api_key_usage) hmap"
  ku_by_model :: "(string, usage_bucket) hmap"
  ku_by_original_model :: "(string, usage_bucket) hmap"
  ku_by_kiro_model :: "(string, usage_bucket) hmap"
  ku_by_path :: "(string, usage_bucket) hmap"
  ku_history :: "usage_record list"

definition usage_default :: api_key_usage where
  "usage_default = \<lparr>ku_total_requests = 0, ku_total_credits = Fin 0, ku_total_input_tokens = 0,
     ku_total_output_tokens = 0, ku_daily = [], ku_by_provider = [], ku_provider_details = [],
     ku_by_model = [], ku_by_original_model = [], ku_by_kiro_model = [], ku_by_path = [],
     ku_history = []\<rparr>"

definition migrate_legacy_kiro_dimensions :: "api_key_usage \<Rightarrow> api_key_usage" where
  "migrate_legacy_kiro_dimensions u =
     (if ku_total_requests u = 0 \<or> ku_by_provider u \<noteq> [] \<or> ku_provider_details u \<noteq> [] then u
      else
        let total = \<lparr>ub_requests = ku_total_requests u, ub_credits = ku_total_credits u,
              ub_input_tokens = ku_total_input_tokens u, ub_output_tokens = ku_total_output_tokens u\<rparr>
        in u\<lparr>ku_by_provider := hm_insert ''kiro'' total (ku_by_provider u),
             ku_provider_details := hm_insert ''kiro'' \<lparr>pu_total = total, pu_daily = ku_daily u,
               pu_by_model = ku_by_model u, pu_by_original_model = ku_by_original_model u,
               pu_by_kiro_model = ku_by_kiro_model u, pu_by_path = ku_by_path u\<rparr>
               (ku_provider_details u)\<rparr>)"

definition record_provider :: "usage_record \<Rightarrow> string" where
  "record_provider record = (if ur_provider_id record = [] then ''kiro'' else ur_provider_id record)"

text \<open>\<open>while history.len() > 100 { history.pop_front(); }\<close>\<close>

definition trim_history :: "usage_record list \<Rightarrow> usage_record list" where
  "trim_history history = drop (length history - 100) history"

definition usage_add :: "usage_record \<Rightarrow> api_key_usage \<Rightarrow> api_key_usage" where
  "usage_add record u =
     (let provider = record_provider record in
      u\<lparr>ku_total_requests := ku_total_requests u + 1,
        ku_total_credits := f_add (ku_total_credits u) (ur_credits record),
        ku_total_input_tokens := ku_total_input_tokens u + ur_input_tokens record,
        ku_total_output_tokens := ku_total_output_tokens u + ur_output_tokens record,
        ku_daily := book_day record (ku_daily u),
        ku_by_provider := usage_dimension_entry (bucket_add record) provider (ku_by_provider u),
        ku_provider_details := provider_usage_entry (provider_usage_add record) provider
          (ku_provider_details u),
        ku_by_model := usage_dimension_entry (bucket_add record) (ur_model record) (ku_by_model u),
        ku_by_original_model := book_optional record (ur_original_model record) (ku_by_original_model u),
        ku_by_kiro_model := book_optional record (ur_kiro_model record) (ku_by_kiro_model u),
        ku_by_path := usage_dimension_entry (bucket_add record) (ur_path record) (ku_by_path u),
        ku_history := trim_history (ku_history u @ [record])\<rparr>)"

definition usage_bound :: "api_key_usage \<Rightarrow> api_key_usage" where
  "usage_bound u =
     u\<lparr>ku_daily := trim_days (ku_daily u),
       ku_by_model := bound_usage_dimensions (ku_by_model u),
       ku_by_provider := bound_usage_dimensions (ku_by_provider u),
       ku_provider_details := bound_provider_usage (ku_provider_details u),
       ku_by_original_model := bound_usage_dimensions (ku_by_original_model u),
       ku_by_kiro_model := bound_usage_dimensions (ku_by_kiro_model u),
       ku_by_path := bound_usage_dimensions (ku_by_path u),
       ku_history := trim_history (ku_history u)\<rparr>"

definition retain_provider :: "string \<Rightarrow> api_key_usage \<Rightarrow> api_key_usage" where
  "retain_provider provider u =
     (let fallback = unwrap_or (hm_get (ku_by_provider u) provider) bucket_default;
          details = hm_get (ku_provider_details u) provider;
          total = (case details of None \<Rightarrow> fallback | Some d \<Rightarrow> pu_total d);
          u1 = u\<lparr>ku_total_requests := ub_requests total, ku_total_credits := ub_credits total,
                 ku_total_input_tokens := ub_input_tokens total,
                 ku_total_output_tokens := ub_output_tokens total,
                 ku_by_provider := hm_retain (\<lambda>candidate _. candidate = provider) (ku_by_provider u),
                 ku_provider_details :=
                   hm_retain (\<lambda>candidate _. candidate = provider) (ku_provider_details u)\<rparr>;
          u2 = (case details of
              Some d \<Rightarrow> u1\<lparr>ku_daily := pu_daily d, ku_by_model := pu_by_model d,
                ku_by_original_model := pu_by_original_model d, ku_by_kiro_model := pu_by_kiro_model d,
                ku_by_path := pu_by_path d\<rparr>
            | None \<Rightarrow> u1\<lparr>ku_daily := [], ku_by_model := [], ku_by_original_model := [],
                ku_by_kiro_model := [], ku_by_path := []\<rparr>)
      in u2\<lparr>ku_history := filter (\<lambda>record. record_provider record = provider) (ku_history u2)\<rparr>)"

end
