(* ===== verification/Meter.thy ===== *)
theory Meter
  imports UsageLedger
begin

text \<open>
  \<open>crates/kproxyd/src/meter.rs\<close>: the credit meter. Every method takes the mutexes
  \<open>service\<close> and \<open>keys\<close> one after the other, so a method is a sequence of atomic
  blocks (\<open>hold_service\<close>, \<open>hold_key\<close>, ...) and other requests run between them; the
  methods are defined by composing the blocks. The clock is the argument \<open>now\<close>, the SHA-256
  digest the parameter \<open>sha\<close>, and the outcome of writing the usage file the argument
  \<open>io\<close> (the error, if any). Iterating over a \<open>HashMap\<close> follows its list.
\<close>

section \<open>Data\<close>

datatype api_key_format = Sk | Simple | Token

record api_key_config =
  ck_id :: "string option"
  ck_name :: string
  ck_key :: string
  ck_format :: api_key_format
  ck_enabled :: bool
  ck_skip_user_agent_check :: bool
  ck_credits_limit :: "f64 option"
  ck_allowed_providers :: "string list"
  ck_allowed_models :: "string list"

datatype meter_error = Unauthorized | LimitExceeded | DailyLimitExceeded | PersistError string

record authenticated_api_key =
  au_id :: string
  au_skip_user_agent_check :: bool
  au_allowed_providers :: "string list"
  au_allowed_models :: "string list"

record api_key_view =
  av_id :: string
  av_name :: string
  av_enabled :: bool
  av_skip_user_agent_check :: bool
  av_credits_limit :: "f64 option"
  av_allowed_providers :: "string list"
  av_allowed_models :: "string list"
  av_reserved_credits :: f64
  av_usage :: api_key_usage

record key_state =
  ks_id :: string
  ks_config :: api_key_config
  ks_usage :: api_key_usage
  ks_reserved :: f64

record persisted =
  ps_api_keys :: "(string, api_key_usage) hmap"
  ps_day :: string
  ps_used :: f64

definition persisted_default :: persisted where
  "persisted_default = \<lparr>ps_api_keys = [], ps_day = [], ps_used = Fin 0\<rparr>"

record service_credit_state =
  sc_day :: string
  sc_used :: f64
  sc_reserved :: f64
  sc_limit :: f64

text \<open>\<open>mt_disk\<close> is the last usage file written by this meter.\<close>

record meter =
  mt_keys :: "(string, key_state) hmap"
  mt_service :: service_credit_state
  mt_recovery_error :: "string option"
  mt_disk :: "persisted option"

record credit_reservation =
  rv_key_id :: "string option"
  rv_estimate :: f64
  rv_settled :: bool

section \<open>Keys\<close>

definition hex_digit :: "nat \<Rightarrow> char" where
  "hex_digit n = (if n < 10 then char_of (48 + n) else char_of (87 + n))"

definition hex2 :: "u8 \<Rightarrow> string" where
  "hex2 b = [hex_digit (unat b div 16), hex_digit (unat b mod 16)]"

definition key_id :: "(string \<Rightarrow> u8 list) \<Rightarrow> string \<Rightarrow> string" where
  "key_id sha key = ''ak_'' @ concat (map hex2 (take 8 (sha key)))"

definition legacy_key_id :: "(string \<Rightarrow> u8 list) \<Rightarrow> string \<Rightarrow> string" where
  "legacy_key_id sha key = ''ak_'' @ hex2 (sha key ! 0) @ hex2 (sha key ! 1)"

definition config_id :: "(string \<Rightarrow> u8 list) \<Rightarrow> api_key_config \<Rightarrow> string" where
  "config_id sha config = unwrap_or (ck_id config) (key_id sha (ck_key config))"

unbundle bit_operations_syntax

text \<open>\<open>expected.get(index).copied().unwrap_or(0)\<close>\<close>

definition byte_at :: "string \<Rightarrow> nat \<Rightarrow> nat" where
  "byte_at s i = (if i < length s then byte (s ! i) else 0)"

definition constant_time_eq :: "string \<Rightarrow> string \<Rightarrow> bool" where
  "constant_time_eq expected presented \<longleftrightarrow>
     fold (\<lambda>index difference. difference OR (byte_at expected index XOR byte_at presented index))
       [0..<max (length expected) (length presented)]
       (length expected XOR length presented) = 0"

section \<open>Construction\<close>

definition fresh_key :: "string \<Rightarrow> api_key_config \<Rightarrow> api_key_usage \<Rightarrow> f64 \<Rightarrow> key_state" where
  "fresh_key i config u reserved = \<lparr>ks_id = i, ks_config = config, ks_usage = u, ks_reserved = reserved\<rparr>"

definition collect_keys ::
  "(string \<Rightarrow> u8 list) \<Rightarrow> (api_key_config \<Rightarrow> api_key_usage) \<Rightarrow> api_key_config list
     \<Rightarrow> (string, key_state) hmap" where
  "collect_keys sha usage_of configs =
     fold (\<lambda>config. hm_insert (config_id sha config)
       (fresh_key (config_id sha config) config (usage_of config) (Fin 0))) configs []"

definition fail_closed ::
  "(string \<Rightarrow> u8 list) \<Rightarrow> int \<Rightarrow> api_key_config list \<Rightarrow> string \<Rightarrow> meter" where
  "fail_closed sha now configs error =
     \<lparr>mt_keys = collect_keys sha (\<lambda>_. usage_default) configs,
      mt_service = \<lparr>sc_day = utc_day now, sc_used = Fin 0, sc_reserved = Fin 0, sc_limit = Fin 0\<rparr>,
      mt_recovery_error = Some error, mt_disk = None\<rparr>"

text \<open>What \<open>tokio::fs::read_to_string\<close> returned.\<close>

datatype file_read = FileText string | FileMissing | FileError string

definition read_persisted ::
  "(string \<Rightarrow> string + persisted) \<Rightarrow> string \<Rightarrow> file_read \<Rightarrow> meter_error + persisted" where
  "read_persisted parse path file = (case file of
       FileText raw \<Rightarrow>
         if trim raw \<noteq> []
         then (case parse raw of
             Inl error \<Rightarrow> Inl (PersistError (''parse '' @ path @ '': '' @ error))
           | Inr persisted \<Rightarrow> Inr persisted)
         else Inr persisted_default
     | FileMissing \<Rightarrow> Inr persisted_default
     | FileError error \<Rightarrow> Inl (PersistError (''read '' @ path @ '': '' @ error)))"

definition loaded_usage ::
  "(string \<Rightarrow> u8 list) \<Rightarrow> persisted \<Rightarrow> api_key_config \<Rightarrow> api_key_usage" where
  "loaded_usage sha persisted config =
     (let stored = (case hm_get (ps_api_keys persisted) (config_id sha config) of
            Some u \<Rightarrow> Some u
          | None \<Rightarrow> if ck_id config = None
              then hm_get (ps_api_keys persisted) (legacy_key_id sha (ck_key config)) else None)
      in usage_bound (migrate_legacy_kiro_dimensions (unwrap_or stored usage_default)))"

definition load ::
  "(string \<Rightarrow> u8 list) \<Rightarrow> (string \<Rightarrow> string + persisted) \<Rightarrow> int \<Rightarrow> string \<Rightarrow> file_read
     \<Rightarrow> api_key_config list \<Rightarrow> meter_error + meter" where
  "load sha parse now path file configs =
     (case read_persisted parse path file of
        Inl e \<Rightarrow> Inl e
      | Inr persisted \<Rightarrow>
          (let today = utc_day now;
               service_used = (if ps_day persisted = today then f_max (ps_used persisted) (Fin 0) else Fin 0)
           in Inr \<lparr>mt_keys = collect_keys sha (loaded_usage sha persisted) configs,
                mt_service = \<lparr>sc_day = today, sc_used = service_used, sc_reserved = Fin 0,
                  sc_limit = Fin 0\<rparr>,
                mt_recovery_error = None, mt_disk = None\<rparr>))"

section \<open>Service and keys\<close>

definition reset_service_day_if_needed :: "int \<Rightarrow> service_credit_state \<Rightarrow> service_credit_state" where
  "reset_service_day_if_needed now s =
     (let today = utc_day now in
      if sc_day s \<noteq> today then s\<lparr>sc_day := today, sc_used := Fin 0\<rparr> else s)"

definition set_daily_limit :: "f64 \<Rightarrow> meter \<Rightarrow> meter" where
  "set_daily_limit limit m = m\<lparr>mt_service := (mt_service m)\<lparr>sc_limit := f_max limit (Fin 0)\<rparr>\<rparr>"

definition daily_snapshot :: "meter \<Rightarrow> string \<times> f64 \<times> f64 \<times> f64" where
  "daily_snapshot m = (let s = mt_service m in (sc_day s, sc_used s, sc_reserved s, sc_limit s))"

definition recovery_message :: "string \<Rightarrow> meter_error" where
  "recovery_message error = PersistError (''metering is in fail-closed recovery mode: '' @ error)"

definition persist_snapshot :: "meter \<Rightarrow> persisted" where
  "persist_snapshot m = \<lparr>ps_api_keys = map (\<lambda>(i, state). (i, ks_usage state)) (mt_keys m),
     ps_day = sc_day (mt_service m), ps_used = sc_used (mt_service m)\<rparr>"

definition persist :: "string option \<Rightarrow> meter \<Rightarrow> meter_error option \<times> meter" where
  "persist io m = (case mt_recovery_error m of
       Some error \<Rightarrow> (Some (recovery_message error), m)
     | None \<Rightarrow> (case io of
           Some error \<Rightarrow> (Some (PersistError error), m)
         | None \<Rightarrow> (None, m\<lparr>mt_disk := Some (persist_snapshot m)\<rparr>)))"

definition reset_daily :: "int \<Rightarrow> string option \<Rightarrow> meter \<Rightarrow> meter_error option \<times> meter" where
  "reset_daily now io m =
     (let previous_recovery = mt_recovery_error m;
          m1 = m\<lparr>mt_recovery_error := None,
                 mt_service := (mt_service m)\<lparr>sc_day := utc_day now, sc_used := Fin 0\<rparr>\<rparr>;
          (result, m2) = persist io m1
      in case result of
           Some error \<Rightarrow> (Some error, case previous_recovery of
               Some previous \<Rightarrow> m2\<lparr>mt_recovery_error := Some previous\<rparr> | None \<Rightarrow> m2)
         | None \<Rightarrow> (None, m2))"

definition authenticate ::
  "string option \<Rightarrow> meter \<Rightarrow> meter_error + authenticated_api_key option" where
  "authenticate presented m =
     (if mt_keys m = [] then Inr None
      else case presented of
          None \<Rightarrow> Inl Unauthorized
        | Some presented \<Rightarrow>
            (case find (\<lambda>state. ck_enabled (ks_config state)
                   \<and> constant_time_eq (ck_key (ks_config state)) presented) (map snd (mt_keys m)) of
               None \<Rightarrow> Inl Unauthorized
             | Some state \<Rightarrow> Inr (Some \<lparr>au_id = ks_id state,
                 au_skip_user_agent_check = ck_skip_user_agent_check (ks_config state),
                 au_allowed_providers = ck_allowed_providers (ks_config state),
                 au_allowed_models = ck_allowed_models (ks_config state)\<rparr>)))"

definition view_of :: "key_state \<Rightarrow> api_key_view" where
  "view_of state = \<lparr>av_id = ks_id state, av_name = ck_name (ks_config state),
     av_enabled = ck_enabled (ks_config state),
     av_skip_user_agent_check = ck_skip_user_agent_check (ks_config state),
     av_credits_limit = ck_credits_limit (ks_config state),
     av_allowed_providers = ck_allowed_providers (ks_config state),
     av_allowed_models = ck_allowed_models (ks_config state),
     av_reserved_credits = ks_reserved state, av_usage = ks_usage state\<rparr>"

definition list_keys :: "meter \<Rightarrow> api_key_view list" where
  "list_keys m = sort_by (\<lambda>left right.
     then_cmp (then_cmp (str_cmp (to_ascii_lowercase (av_name left)) (to_ascii_lowercase (av_name right)))
         (str_cmp (av_name left) (av_name right)))
       (str_cmp (av_id left) (av_id right))) (map (view_of \<circ> snd) (mt_keys m))"

fun update_first :: "('v \<Rightarrow> bool) \<Rightarrow> ('v \<Rightarrow> 'v) \<Rightarrow> ('k, 'v) hmap \<Rightarrow> ('k, 'v) hmap option" where
  "update_first P f [] = None"
| "update_first P f ((k, v) # m) = (if P v then Some ((k, f v) # m)
     else map_option ((#) (k, v)) (update_first P f m))"

definition reset_usage :: "string option \<Rightarrow> string \<Rightarrow> meter \<Rightarrow> (meter_error + bool) \<times> meter" where
  "reset_usage io id_or_name m =
     (case update_first (\<lambda>state. ks_id state = id_or_name \<or> ck_name (ks_config state) = id_or_name)
        (\<lambda>state. state\<lparr>ks_usage := usage_default\<rparr>) (mt_keys m) of
        None \<Rightarrow> (Inr False, m)
      | Some keys \<Rightarrow>
          (case persist io (m\<lparr>mt_keys := keys\<rparr>) of
             (Some e, m') \<Rightarrow> (Inl e, m') | (None, m') \<Rightarrow> (Inr True, m')))"

fun replace_keys ::
  "(string \<Rightarrow> u8 list) \<Rightarrow> api_key_config list \<Rightarrow> (string, key_state) hmap
     \<Rightarrow> (string, key_state) hmap \<Rightarrow> (string, key_state) hmap" where
  "replace_keys sha [] keys next = next"
| "replace_keys sha (config # configs) keys next =
     (let i = config_id sha config;
          (u, reserved) = (case hm_get keys i of
              Some state \<Rightarrow> (ks_usage state, ks_reserved state) | None \<Rightarrow> (usage_default, Fin 0))
      in replace_keys sha configs (hm_remove i keys) (hm_insert i (fresh_key i config u reserved) next))"

definition replace_configs :: "(string \<Rightarrow> u8 list) \<Rightarrow> api_key_config list \<Rightarrow> meter \<Rightarrow> meter" where
  "replace_configs sha configs m = m\<lparr>mt_keys := replace_keys sha configs (mt_keys m) []\<rparr>"

section \<open>Reservations\<close>

text \<open>The service block of \<open>reserve\<close> and \<open>extend\<close>.\<close>

definition hold_service :: "int \<Rightarrow> f64 \<Rightarrow> meter \<Rightarrow> meter_error option \<times> meter" where
  "hold_service now amount m =
     (let service = reset_service_day_if_needed now (mt_service m) in
      if f_gt (sc_limit service) (Fin 0)
         \<and> f_gt (f_add (f_add (sc_used service) (sc_reserved service)) amount) (sc_limit service)
      then (Some DailyLimitExceeded, m\<lparr>mt_service := service\<rparr>)
      else (None, m\<lparr>mt_service := service\<lparr>sc_reserved := f_add (sc_reserved service) amount\<rparr>\<rparr>))"

definition release_service :: "f64 \<Rightarrow> meter \<Rightarrow> meter" where
  "release_service amount m = m\<lparr>mt_service := (mt_service m)
     \<lparr>sc_reserved := f_max (f_sub (sc_reserved (mt_service m)) amount) (Fin 0)\<rparr>\<rparr>"

text \<open>Their key block; a refusal gives the service's reservation back.\<close>

definition over_limit :: "f64 \<Rightarrow> key_state \<Rightarrow> bool" where
  "over_limit amount state = (case ck_credits_limit (ks_config state) of
       None \<Rightarrow> False
     | Some limit \<Rightarrow>
         f_gt (f_add (f_add (ku_total_credits (ks_usage state)) (ks_reserved state)) amount) limit)"

definition hold_key :: "string option \<Rightarrow> f64 \<Rightarrow> meter \<Rightarrow> meter_error option \<times> meter" where
  "hold_key key amount m = (case key of
       None \<Rightarrow> (None, m)
     | Some i \<Rightarrow> (case hm_get (mt_keys m) i of
           None \<Rightarrow> (Some Unauthorized, release_service amount m)
         | Some state \<Rightarrow>
             if over_limit amount state then (Some LimitExceeded, release_service amount m)
             else (None, m\<lparr>mt_keys := hm_insert i
               (state\<lparr>ks_reserved := f_add (ks_reserved state) amount\<rparr>) (mt_keys m)\<rparr>)))"

definition reserve ::
  "int \<Rightarrow> string option \<Rightarrow> f64 \<Rightarrow> meter \<Rightarrow> (meter_error + credit_reservation) \<times> meter" where
  "reserve now key estimate m = (case mt_recovery_error m of
       Some error \<Rightarrow> (Inl (recovery_message error), m)
     | None \<Rightarrow>
         (let amount = f_max estimate (Fin 0) in
          case hold_service now amount m of
            (Some e, m1) \<Rightarrow> (Inl e, m1)
          | (None, m1) \<Rightarrow> (case hold_key key amount m1 of
                (Some e, m2) \<Rightarrow> (Inl e, m2)
              | (None, m2) \<Rightarrow>
                  (Inr \<lparr>rv_key_id = key, rv_estimate = amount, rv_settled = False\<rparr>, m2))))"

definition extend ::
  "int \<Rightarrow> f64 \<Rightarrow> credit_reservation \<Rightarrow> meter
     \<Rightarrow> meter_error option \<times> credit_reservation \<times> meter" where
  "extend now additional rv m =
     (let amount = f_max additional (Fin 0) in
      if amount = Fin 0 then (None, rv, m)
      else case hold_service now amount m of
          (Some e, m1) \<Rightarrow> (Some e, rv, m1)
        | (None, m1) \<Rightarrow> (case hold_key (rv_key_id rv) amount m1 of
              (Some e, m2) \<Rightarrow> (Some e, rv, m2)
            | (None, m2) \<Rightarrow>
                (None, rv\<lparr>rv_estimate := f_add (rv_estimate rv) amount\<rparr>, m2)))"

definition settle_service :: "int \<Rightarrow> f64 \<Rightarrow> usage_record \<Rightarrow> meter \<Rightarrow> bool \<times> meter" where
  "settle_service now estimate record m =
     (let s = reset_service_day_if_needed now (mt_service m);
          s1 = s\<lparr>sc_reserved := f_max (f_sub (sc_reserved s) estimate) (Fin 0),
                 sc_used := f_add (sc_used s) (f_max (ur_credits record) (Fin 0))\<rparr>
      in (f_gt (sc_limit s1) (Fin 0), m\<lparr>mt_service := s1\<rparr>))"

definition release_key :: "f64 \<Rightarrow> key_state \<Rightarrow> key_state" where
  "release_key amount state = state\<lparr>ks_reserved := f_max (f_sub (ks_reserved state) amount) (Fin 0)\<rparr>"

definition settle_key :: "string option \<Rightarrow> f64 \<Rightarrow> usage_record \<Rightarrow> meter \<Rightarrow> bool \<times> meter" where
  "settle_key key estimate record m = (case key of
       None \<Rightarrow> (False, m)
     | Some i \<Rightarrow> (case hm_get (mt_keys m) i of
           None \<Rightarrow> (False, m)
         | Some state \<Rightarrow>
             (let state' = release_key estimate state;
                  state'' = state'\<lparr>ks_usage := usage_add record (ks_usage state')\<rparr>
              in (ck_credits_limit (ks_config state) \<noteq> None,
                  m\<lparr>mt_keys := hm_insert i state'' (mt_keys m)\<rparr>))))"

text \<open>
  \<open>settle\<close>: with a limit in force the usage is written at once, otherwise the background
  writer is woken; the result says which.
\<close>

datatype settlement = Written "meter_error option" | MarkedDirty

definition settle ::
  "int \<Rightarrow> string option \<Rightarrow> usage_record \<Rightarrow> credit_reservation \<Rightarrow> meter \<Rightarrow> settlement \<times> meter" where
  "settle now io record rv m =
     (let (durable1, m1) = settle_service now (rv_estimate rv) record m;
          (durable2, m2) = settle_key (rv_key_id rv) (rv_estimate rv) record m1
      in if durable1 \<or> durable2
         then (let (result, m3) = persist io m2 in (Written result, m3))
         else (MarkedDirty, m2))"

definition drop_key :: "string option \<Rightarrow> f64 \<Rightarrow> meter \<Rightarrow> meter" where
  "drop_key key estimate m = (case key of
       None \<Rightarrow> m
     | Some i \<Rightarrow> (case hm_get (mt_keys m) i of
           None \<Rightarrow> m
         | Some state \<Rightarrow> m\<lparr>mt_keys := hm_insert i (release_key estimate state) (mt_keys m)\<rparr>))"

definition drop_reservation :: "credit_reservation \<Rightarrow> meter \<Rightarrow> meter" where
  "drop_reservation rv m =
     (if rv_settled rv then m
      else drop_key (rv_key_id rv) (rv_estimate rv) (release_service (rv_estimate rv) m))"

end
