(* ===== verification/UsageLedgerCorrect.thy ===== *)
theory UsageLedgerCorrect
  imports UsageLedger
begin

text \<open>
  Correctness of the usage ledger: its maps stay within their bounds whatever is booked, no request
  is lost or counted twice in any dimension, and the view of one provider is the ledger of that
  provider's own requests.
\<close>

section \<open>Bounds\<close>

text \<open>A dimension has at most 255 keys, or 256 with the overflow key among them.\<close>

definition dim_ok :: "(string, 'v) hmap \<Rightarrow> bool" where
  "dim_ok m \<longleftrightarrow> length m < MAX_USAGE_DIMENSION_KEYS
     \<or> length m = MAX_USAGE_DIMENSION_KEYS \<and> hm_contains m OTHER_USAGE_DIMENSION"

definition provider_within :: "provider_api_key_usage \<Rightarrow> bool" where
  "provider_within u \<longleftrightarrow> length (pu_daily u) \<le> MAX_USAGE_DAYS \<and> dim_ok (pu_by_model u)
     \<and> dim_ok (pu_by_original_model u) \<and> dim_ok (pu_by_kiro_model u) \<and> dim_ok (pu_by_path u)"

definition usage_within :: "api_key_usage \<Rightarrow> bool" where
  "usage_within u \<longleftrightarrow> length (ku_daily u) \<le> MAX_USAGE_DAYS \<and> dim_ok (ku_by_provider u)
     \<and> dim_ok (ku_provider_details u) \<and> dim_ok (ku_by_model u) \<and> dim_ok (ku_by_original_model u)
     \<and> dim_ok (ku_by_kiro_model u) \<and> dim_ok (ku_by_path u) \<and> length (ku_history u) \<le> 100
     \<and> (\<forall>d \<in> snd ` set (ku_provider_details u). provider_within d)"

lemma hm_keys_entry [simp]: "hm_keys (hm_entry z f k m) = insert k (hm_keys m)"
  by (simp add: hm_entry_def)

lemma hm_entry_length: "length (hm_entry z f k m) = (if k \<in> hm_keys m then length m else Suc (length m))"
  by (simp add: hm_entry_def hm_length_insert)

lemma dim_ok_entry: "dim_ok m \<Longrightarrow> dim_ok (hm_entry z f (bounded_key k m) m)"
  by (auto simp: dim_ok_def bounded_key_def hm_entry_length hm_contains_keys MAX_USAGE_DIMENSION_KEYS_def)

lemma dim_ok_Nil [simp]: "dim_ok []"
  by (simp add: dim_ok_def MAX_USAGE_DIMENSION_KEYS_def)

lemma dim_ok_fold:
  "(\<And>kv m. dim_ok m \<Longrightarrow> dim_ok (g kv m)) \<Longrightarrow> dim_ok m \<Longrightarrow> dim_ok (fold g kvs m)"
  by (induction kvs arbitrary: m) auto

lemma dim_ok_dimension: "dim_ok m \<Longrightarrow> dim_ok (usage_dimension_entry f k m)"
  by (simp add: usage_dimension_entry_def dim_ok_entry)

lemma dim_ok_optional: "dim_ok m \<Longrightarrow> dim_ok (book_optional r k m)"
  by (simp add: book_optional_def dim_ok_dimension split: option.split)

lemma dim_ok_bound: "dim_ok (bound_usage_dimensions m)"
proof (cases "length m < MAX_USAGE_DIMENSION_KEYS")
  case False
  have "dim_ok (fold (\<lambda>(key, bucket). usage_dimension_entry (bucket_merge bucket) key) m [])"
    by (rule dim_ok_fold) (auto simp: dim_ok_dimension)
  with False show ?thesis by (simp add: bound_usage_dimensions_def)
qed (simp add: bound_usage_dimensions_def dim_ok_def)

lemma trim_days_length: "length (trim_days m) \<le> MAX_USAGE_DAYS"
  by (simp add: trim_days_def)

lemma trim_history_length: "length (trim_history h) \<le> 100"
  by (simp add: trim_history_def)

lemma provider_within_add: "provider_within u \<Longrightarrow> provider_within (provider_usage_add r u)"
  by (simp add: provider_within_def provider_usage_add_def book_day_def trim_days_length
      dim_ok_dimension dim_ok_optional)

lemma provider_within_default: "provider_within provider_usage_default"
  by (simp add: provider_within_def provider_usage_default_def)

lemma provider_within_bound: "provider_within (provider_usage_bound u)"
  by (simp add: provider_within_def provider_usage_bound_def trim_days_length dim_ok_bound)

lemma map_snd_get: "hm_get m k = Some v \<Longrightarrow> v \<in> snd ` set m"
  by (force dest: map_of_SomeD)

lemma values_insert: "snd ` set (hm_insert k v m) \<subseteq> insert v (snd ` set m)"
  by (induction m) (auto split: if_splits)

lemma details_within_entry:
  assumes "\<forall>d \<in> snd ` set m. provider_within d"
  shows "\<forall>d \<in> snd ` set (provider_usage_entry (provider_usage_add r) p m). provider_within d"
proof -
  let ?k = "bounded_key p m"
  have "provider_within (provider_usage_add r (unwrap_or (hm_get m ?k) provider_usage_default))"
    using assms map_snd_get [of m ?k]
    by (cases "hm_get m ?k") (auto intro!: provider_within_add provider_within_default)
  then show ?thesis
    using assms values_insert unfolding provider_usage_entry_def hm_entry_def by fastforce
qed

lemma usage_add_fields [simp]:
  "ku_total_requests (usage_add r u) = ku_total_requests u + 1"
  "ku_total_credits (usage_add r u) = f_add (ku_total_credits u) (ur_credits r)"
  "ku_total_input_tokens (usage_add r u) = ku_total_input_tokens u + ur_input_tokens r"
  "ku_total_output_tokens (usage_add r u) = ku_total_output_tokens u + ur_output_tokens r"
  "ku_daily (usage_add r u) = book_day r (ku_daily u)"
  "ku_by_provider (usage_add r u)
     = usage_dimension_entry (bucket_add r) (record_provider r) (ku_by_provider u)"
  "ku_provider_details (usage_add r u)
     = provider_usage_entry (provider_usage_add r) (record_provider r) (ku_provider_details u)"
  "ku_by_model (usage_add r u) = usage_dimension_entry (bucket_add r) (ur_model r) (ku_by_model u)"
  "ku_by_original_model (usage_add r u) = book_optional r (ur_original_model r) (ku_by_original_model u)"
  "ku_by_kiro_model (usage_add r u) = book_optional r (ur_kiro_model r) (ku_by_kiro_model u)"
  "ku_by_path (usage_add r u) = usage_dimension_entry (bucket_add r) (ur_path r) (ku_by_path u)"
  "ku_history (usage_add r u) = trim_history (ku_history u @ [r])"
  by (simp_all add: usage_add_def Let_def)

lemmas ledger_bounds = trim_days_length trim_history_length dim_ok_dimension dim_ok_optional dim_ok_entry

lemma usage_within_add:
  assumes "usage_within u"
  shows "usage_within (usage_add r u)"
proof -
  have "\<forall>d \<in> snd ` set (ku_provider_details u). provider_within d"
    using assms unfolding usage_within_def by blast
  note details = details_within_entry [OF this, of r "record_provider r"]
  from assms show ?thesis
    unfolding usage_within_def usage_add_fields book_day_def
    by (elim conjE, intro conjI details)
      (simp_all only: ledger_bounds provider_usage_entry_def)
qed

lemma dim_ok_map: "dim_ok (map (\<lambda>(k, u). (k, g u)) m) \<longleftrightarrow> dim_ok m"
  by (simp add: dim_ok_def hm_contains_keys hm_keys_def image_image case_prod_unfold)

lemma dim_ok_bound_provider: "dim_ok (bound_provider_usage m)"
proof (cases "length m < MAX_USAGE_DIMENSION_KEYS")
  case False
  have "dim_ok (fold (\<lambda>(provider, u). provider_usage_entry (provider_usage_merge u) provider) m [])"
    by (rule dim_ok_fold) (auto simp: provider_usage_entry_def dim_ok_entry)
  with False show ?thesis by (simp add: bound_provider_usage_def dim_ok_map)
qed (simp add: bound_provider_usage_def dim_ok_map, simp add: dim_ok_def)

lemma usage_within_bound: "usage_within (usage_bound u)"
  by (auto simp: usage_within_def usage_bound_def trim_days_length trim_history_length dim_ok_bound
      dim_ok_bound_provider) (auto simp: bound_provider_usage_def provider_within_bound split: if_splits)

interpretation ledger: machine usage_add "usage_bound u" usage_within for u
  by unfold_locales (simp_all add: usage_within_bound usage_within_add)

text \<open>Whatever usage is loaded from disk and however many requests are booked after that, the
  ledger of a key stays bounded: 366 days, 256 keys per dimension (at most 255 besides the overflow
  key), 256 providers each within the same bounds, and 100 history entries.\<close>

theorem usage_stays_bounded: "usage_within (fold usage_add records (usage_bound u))"
  by (rule ledger.inv_run)

section \<open>Conservation\<close>

definition dim_sum :: "('v \<Rightarrow> 'n::comm_monoid_add) \<Rightarrow> ('k, 'v) hmap \<Rightarrow> 'n" where
  "dim_sum g m = sum_list (map (\<lambda>(_, v). g v) m)"

text \<open>Adding \<open>c\<close> to one entry of a map adds it to the sum over the map.\<close>

lemma dim_sum_entry:
  assumes "\<And>v. g (f v) = g v + c" and "g z = 0"
  shows "dim_sum g (hm_entry z f k m) = dim_sum g m + c"
  unfolding hm_entry_def
proof (induction m)
  case (Cons kv m)
  then show ?case
    by (cases kv) (auto simp: dim_sum_def assms ac_simps)
qed (simp add: dim_sum_def assms)

definition balanced_with :: "api_key_usage \<Rightarrow> (string, 'v) hmap \<Rightarrow> ('v \<Rightarrow> usage_bucket) \<Rightarrow> bool" where
  "balanced_with u m bucket \<longleftrightarrow>
     dim_sum (\<lambda>v. ub_requests (bucket v)) m = ku_total_requests u
     \<and> dim_sum (\<lambda>v. ub_input_tokens (bucket v)) m = ku_total_input_tokens u
     \<and> dim_sum (\<lambda>v. ub_output_tokens (bucket v)) m = ku_total_output_tokens u"

lemma balanced_entry:
  assumes "balanced_with u m bucket" and "\<And>v. bucket (f v) = bucket_add r (bucket v)"
    and "bucket z = bucket_default"
  shows "balanced_with (usage_add r u) (hm_entry z f k m) bucket"
proof -
  note e = dim_sum_entry [where f = f and z = z and k = k and m = m]
  have "dim_sum (\<lambda>v. ub_requests (bucket v)) (hm_entry z f k m) = ku_total_requests u + 1"
    "dim_sum (\<lambda>v. ub_input_tokens (bucket v)) (hm_entry z f k m)
       = ku_total_input_tokens u + ur_input_tokens r"
    "dim_sum (\<lambda>v. ub_output_tokens (bucket v)) (hm_entry z f k m)
       = ku_total_output_tokens u + ur_output_tokens r"
    using assms(1) by (subst e; simp add: balanced_with_def assms(2,3) bucket_add_def bucket_default_def)+
  then show ?thesis by (simp add: balanced_with_def)
qed

definition books_balance :: "api_key_usage \<Rightarrow> bool" where
  "books_balance u \<longleftrightarrow> balanced_with u (ku_by_provider u) (\<lambda>b. b) \<and> balanced_with u (ku_by_model u) (\<lambda>b. b)
     \<and> balanced_with u (ku_by_path u) (\<lambda>b. b) \<and> balanced_with u (ku_provider_details u) pu_total"

lemma books_balance_default: "books_balance usage_default"
  by (simp add: books_balance_def balanced_with_def usage_default_def dim_sum_def)

lemma books_balance_add:
  assumes "books_balance u"
  shows "books_balance (usage_add r u)"
  using assms
  by (simp add: books_balance_def usage_dimension_entry_def provider_usage_entry_def balanced_entry
      provider_usage_add_def provider_usage_default_def)

interpretation books: machine usage_add usage_default books_balance
  by unfold_locales (simp_all add: books_balance_default books_balance_add)

lemma totals_of_records:
  "ku_total_requests (fold usage_add rs u) = ku_total_requests u + of_nat (length rs)"
  "ku_total_credits (fold usage_add rs u) = fold (\<lambda>r c. f_add c (ur_credits r)) rs (ku_total_credits u)"
  "ku_total_input_tokens (fold usage_add rs u) = ku_total_input_tokens u + sum_list (map ur_input_tokens rs)"
  "ku_total_output_tokens (fold usage_add rs u) = ku_total_output_tokens u + sum_list (map ur_output_tokens rs)"
  by (induction rs arbitrary: u) (simp_all add: ac_simps)

text \<open>No booked request is lost or counted twice: the totals are the number of requests, the
  floating-point sum of their credits in the order of booking and their tokens, and the requests and
  tokens in the buckets of every complete dimension (provider, provider details, model, path) add up
  to them, also after dimensions overflowed into the shared key. (The credits of the buckets are
  sums of the same numbers in another order, so they agree with the total only up to rounding.)\<close>

theorem usage_books_balance:
  "books_balance (fold usage_add records usage_default)
   \<and> ku_total_requests (fold usage_add records usage_default) = of_nat (length records)
   \<and> ku_total_credits (fold usage_add records usage_default) = fold (\<lambda>r c. f_add c (ur_credits r)) records (Fin 0)
   \<and> ku_total_input_tokens (fold usage_add records usage_default) = sum_list (map ur_input_tokens records)
   \<and> ku_total_output_tokens (fold usage_add records usage_default) = sum_list (map ur_output_tokens records)"
  using books.inv_run by (simp add: totals_of_records) (simp add: usage_default_def)

section \<open>The view of one provider\<close>

abbreviation own :: "string \<Rightarrow> usage_record list \<Rightarrow> usage_record list" where
  "own provider records \<equiv> filter (\<lambda>r. record_provider r = provider) records"

text \<open>The details of a provider follow the ledger that booked only its requests.\<close>

definition details_of :: "api_key_usage \<Rightarrow> provider_api_key_usage" where
  "details_of u = \<lparr>pu_total = \<lparr>ub_requests = ku_total_requests u, ub_credits = ku_total_credits u,
       ub_input_tokens = ku_total_input_tokens u, ub_output_tokens = ku_total_output_tokens u\<rparr>,
     pu_daily = ku_daily u, pu_by_model = ku_by_model u, pu_by_original_model = ku_by_original_model u,
     pu_by_kiro_model = ku_by_kiro_model u, pu_by_path = ku_by_path u\<rparr>"

lemma details_of_add: "details_of (usage_add r u) = provider_usage_add r (details_of u)"
  by (simp add: details_of_def provider_usage_add_def bucket_add_def)

lemma details_of_default: "details_of usage_default = provider_usage_default"
  by (simp add: details_of_def provider_usage_default_def usage_default_def bucket_default_def)

lemma details_of_fold: "details_of (fold usage_add rs u) = fold provider_usage_add rs (details_of u)"
  by (induction rs arbitrary: u) (simp_all add: details_of_add)

definition own_details :: "usage_record list \<Rightarrow> (string, provider_api_key_usage) hmap \<Rightarrow> bool" where
  "own_details rs m \<longleftrightarrow> hm_wf m \<and> hm_keys m = record_provider ` set rs
     \<and> (\<forall>p \<in> hm_keys m. hm_get m p = Some (fold provider_usage_add (own p rs) provider_usage_default))"

lemma own_details_snoc:
  assumes "own_details rs m" and "card (record_provider ` set (rs @ [r])) < MAX_USAGE_DIMENSION_KEYS"
  shows "own_details (rs @ [r]) (provider_usage_entry (provider_usage_add r) (record_provider r) m)"
proof -
  let ?p = "record_provider r"
  have m: "hm_wf m" "hm_keys m = record_provider ` set rs" using assms(1) by (simp_all add: own_details_def)
  have "?p \<in> hm_keys m \<or> length m < MAX_USAGE_DIMENSION_KEYS - 1"
    using assms(2) m by (auto simp: hm_length_keys card_insert_if)
  then have k: "bounded_key ?p m = ?p" by (auto simp: bounded_key_def hm_contains_keys)
  have none: "own ?p rs = []" if "?p \<notin> hm_keys m"
    using that unfolding m(2) filter_empty_conv by (metis imageI)
  have old: "unwrap_or (hm_get m ?p) provider_usage_default
      = fold provider_usage_add (own ?p rs) provider_usage_default"
    using assms(1) none hm_get_None_iff [of m ?p]
    by (cases "?p \<in> hm_keys m") (simp_all add: own_details_def)
  have "hm_wf (hm_entry provider_usage_default (provider_usage_add r) ?p m)"
    using m(1) by (simp add: hm_entry_def)
  then show ?thesis
    using assms(1) m(2) old
    by (auto simp: own_details_def provider_usage_entry_def k hm_entry_def update_conv')
qed

lemma own_details_run:
  assumes "card (record_provider ` set rs) < MAX_USAGE_DIMENSION_KEYS"
  shows "own_details rs (ku_provider_details (fold usage_add rs usage_default))"
  using assms
proof (induction rs rule: rev_induct)
  case (snoc r rs)
  have "card (record_provider ` set rs) \<le> card (record_provider ` set (rs @ [r]))"
    by (rule card_mono) auto
  with snoc show ?case by (simp add: own_details_snoc)
qed (simp add: own_details_def usage_default_def)

lemma history_of_records: "ku_history (fold usage_add rs usage_default) = drop (length rs - 100) rs"
proof (induction rs rule: rev_induct)
  case (snoc r rs)
  have "length rs - (length rs - 100 + 99) + (length rs - 100) = length rs - 99" by linarith
  with snoc show ?case by (simp add: trim_history_def)
qed (simp add: usage_default_def)

text \<open>The two maps over providers have the same keys in the same order.\<close>

lemma map_fst_insert: "map fst (hm_insert k v m) = (if k \<in> set (map fst m) then map fst m else map fst m @ [k])"
  by (induction m) auto

lemma bounded_key_keys: "map fst m = map fst m' \<Longrightarrow> bounded_key k m = bounded_key k m'"
  by (metis bounded_key_def hm_contains_keys hm_keys_def length_map list.set_map)

lemma provider_keys_agree:
  "map fst (ku_by_provider u) = map fst (ku_provider_details u) \<Longrightarrow>
   map fst (ku_by_provider (fold usage_add rs u)) = map fst (ku_provider_details (fold usage_add rs u))"
proof (induction rs arbitrary: u)
  case (Cons r rs)
  show ?case
    using Cons.prems bounded_key_keys [OF Cons.prems]
    by (simp, intro Cons.IH)
      (simp add: usage_dimension_entry_def provider_usage_entry_def hm_entry_def map_fst_insert)
qed simp

text \<open>While fewer than 256 providers were used, the view of one provider is the ledger of its own
  requests: totals, days, models and paths are what booking only that provider's requests would have
  given, and the history holds those of the last hundred requests that are the provider's.\<close>

theorem retain_provider_is_own_ledger:
  assumes "card (record_provider ` set records) < MAX_USAGE_DIMENSION_KEYS"
  shows "details_of (retain_provider p (fold usage_add records usage_default))
      = details_of (fold usage_add (own p records) usage_default)
    \<and> ku_history (retain_provider p (fold usage_add records usage_default))
      = own p (drop (length records - 100) records)"
proof -
  let ?u = "fold usage_add records usage_default"
  have d: "hm_get (ku_provider_details ?u) p = (if p \<in> record_provider ` set records
      then Some (fold provider_usage_add (own p records) provider_usage_default) else None)"
    using own_details_run [OF assms] hm_get_None_iff [of "ku_provider_details ?u" p]
    by (auto simp: own_details_def)
  have "map fst (ku_by_provider ?u) = map fst (ku_provider_details ?u)"
    by (rule provider_keys_agree) (simp add: usage_default_def)
  then have b: "hm_get (ku_by_provider ?u) p = None" if "hm_get (ku_provider_details ?u) p = None"
    using that by (metis hm_get_None_iff hm_keys_def list.set_map)
  have "details_of (retain_provider p ?u)
      = fold provider_usage_add (own p records) provider_usage_default"
  proof (cases "p \<in> record_provider ` set records")
    case True
    then show ?thesis using d by (simp add: retain_provider_def details_of_def Let_def)
  next
    case False
    then have "own p records = []" by (force simp: filter_empty_conv)
    moreover have "hm_get (ku_provider_details ?u) p = None" using d False by simp
    ultimately show ?thesis using b
      by (simp add: retain_provider_def details_of_def Let_def provider_usage_default_def bucket_default_def)
  qed
  moreover have "ku_history (retain_provider p ?u) = own p (ku_history ?u)"
    by (simp add: retain_provider_def Let_def split: option.split)
  ultimately show ?thesis
    by (simp add: details_of_fold details_of_default history_of_records)
qed

definition demo_usage :: "string \<Rightarrow> usage_record" where
  "demo_usage provider = \<lparr>ur_timestamp = 0, ur_provider_id = provider, ur_model = ''m'',
     ur_original_model = None, ur_kiro_model = None, ur_input_tokens = 3, ur_output_tokens = 4,
     ur_credits = Fin 1, ur_cache_read_tokens = None, ur_cache_write_tokens = None,
     ur_reasoning_tokens = None, ur_token_usage_source = ''upstream'', ur_provider_billing = None,
     ur_path = ''/v1/messages''\<rparr>"

theorem retain_provider_is_own_ledger_witness:
  "details_of (retain_provider ''kiro''
       (fold usage_add [demo_usage [], demo_usage ''copilot''] usage_default))
     = details_of (fold usage_add [demo_usage []] usage_default)"
proof -
  have "card (record_provider ` set [demo_usage [], demo_usage ''copilot'']) < MAX_USAGE_DIMENSION_KEYS"
    by (simp add: demo_usage_def record_provider_def MAX_USAGE_DIMENSION_KEYS_def)
  from retain_provider_is_own_ledger [OF this, of "''kiro''"] show ?thesis
    by (simp add: demo_usage_def record_provider_def)
qed

end
