(* ===== verification/MeterCorrect.thy ===== *)
theory MeterCorrect
  imports Meter UsageLedgerCorrect
begin

text \<open>
  Correctness of the credit meter. Requests run concurrently, and each of their operations is two
  atomic blocks, one on the service and one on the key. The system state is the meter together
  with what every request is in the middle of, and its steps are the blocks.
\<close>

section \<open>Comparing keys\<close>

unbundle bit_operations_syntax

lemma or_nat_0: "a OR b = 0 \<longleftrightarrow> a = 0 \<and> b = 0" for a b :: nat
  by (simp add: or_eq_0_iff)

lemma xor_nat_0: "a XOR b = 0 \<longleftrightarrow> a = b" for a b :: nat
  by (metis bit_eq_iff bit_xor_iff xor_self_eq)

lemma fold_or_0:
  "fold (\<lambda>i d. d OR f i) is d = 0 \<longleftrightarrow> d = 0 \<and> (\<forall>i \<in> set is. f i = 0)" for d :: nat
  by (induction "is" arbitrary: d) (auto simp: or_nat_0)

text \<open>The constant-time comparison decides equality, also for keys of different length.\<close>

lemma constant_time_eq_iff: "constant_time_eq expected presented \<longleftrightarrow> expected = presented"
proof
  assume "constant_time_eq expected presented"
  then have len: "length expected = length presented"
    and "\<forall>i < length expected. byte_at expected i = byte_at presented i"
    by (auto simp: constant_time_eq_def fold_or_0 xor_nat_0)
  then show "expected = presented"
    by (intro nth_equalityI) (auto simp: byte_at_def byte_def)
next
  assume "expected = presented"
  then show "constant_time_eq expected presented"
    unfolding constant_time_eq_def fold_or_0 xor_nat_0 by simp
qed

section \<open>The concurrent system\<close>

text \<open>
  What a request is in the middle of: it holds a reservation, or it has run the service block of
  an operation and not yet the key block.
\<close>

datatype flight =
    Held "string option" f64
  | Reserving "string option" f64
  | Extending "string option" f64 f64
  | Settling "string option" f64 usage_record
  | Dropping "string option" f64

record meter_sys =
  sy_meter :: meter
  sy_flights :: "flight list"

datatype meter_op =
    BeginReserve int "string option" f64
  | FinishReserve "string option" f64
  | BeginExtend int "string option" f64 f64
  | FinishExtend "string option" f64 f64
  | BeginSettle int "string option" f64 usage_record
  | FinishSettle "string option" f64 usage_record
  | BeginDrop "string option" f64
  | FinishDrop "string option" f64
  | SetLimit f64
  | ResetDaily int "string option"
  | Persist "string option"
  | ResetUsage "string option" string
  | ReplaceConfigs "string \<Rightarrow> u8 list" "api_key_config list"

definition advance :: "flight \<Rightarrow> flight list \<Rightarrow> meter \<Rightarrow> meter_sys \<Rightarrow> meter_sys" where
  "advance old new m s = \<lparr>sy_meter = m, sy_flights = new @ remove1 old (sy_flights s)\<rparr>"

fun meter_step :: "meter_op \<Rightarrow> meter_sys \<Rightarrow> meter_sys" where
  "meter_step (BeginReserve now key estimate) s =
     (if mt_recovery_error (sy_meter s) \<noteq> None then s
      else (case hold_service now (f_max estimate (Fin 0)) (sy_meter s) of
          (Some _, m) \<Rightarrow> s\<lparr>sy_meter := m\<rparr>
        | (None, m) \<Rightarrow> \<lparr>sy_meter = m,
            sy_flights = Reserving key (f_max estimate (Fin 0)) # sy_flights s\<rparr>))"
| "meter_step (FinishReserve key amount) s =
     (if Reserving key amount \<notin> set (sy_flights s) then s
      else (case hold_key key amount (sy_meter s) of
          (Some _, m) \<Rightarrow> advance (Reserving key amount) [] m s
        | (None, m) \<Rightarrow> advance (Reserving key amount) [Held key amount] m s))"
| "meter_step (BeginExtend now key amount additional) s =
     (if Held key amount \<notin> set (sy_flights s) \<or> f_max additional (Fin 0) = Fin 0 then s
      else (case hold_service now (f_max additional (Fin 0)) (sy_meter s) of
          (Some _, m) \<Rightarrow> s\<lparr>sy_meter := m\<rparr>
        | (None, m) \<Rightarrow> advance (Held key amount) [Extending key amount (f_max additional (Fin 0))] m s))"
| "meter_step (FinishExtend key amount additional) s =
     (if Extending key amount additional \<notin> set (sy_flights s) then s
      else (case hold_key key additional (sy_meter s) of
          (Some _, m) \<Rightarrow> advance (Extending key amount additional) [Held key amount] m s
        | (None, m) \<Rightarrow>
            advance (Extending key amount additional) [Held key (f_add amount additional)] m s))"
| "meter_step (BeginSettle now key amount record) s =
     (if Held key amount \<notin> set (sy_flights s) then s
      else advance (Held key amount) [Settling key amount record]
        (snd (settle_service now amount record (sy_meter s))) s)"
| "meter_step (FinishSettle key amount record) s =
     (if Settling key amount record \<notin> set (sy_flights s) then s
      else advance (Settling key amount record) [] (snd (settle_key key amount record (sy_meter s))) s)"
| "meter_step (BeginDrop key amount) s =
     (if Held key amount \<notin> set (sy_flights s) then s
      else advance (Held key amount) [Dropping key amount] (release_service amount (sy_meter s)) s)"
| "meter_step (FinishDrop key amount) s =
     (if Dropping key amount \<notin> set (sy_flights s) then s
      else advance (Dropping key amount) [] (drop_key key amount (sy_meter s)) s)"
| "meter_step (SetLimit limit) s = s\<lparr>sy_meter := set_daily_limit limit (sy_meter s)\<rparr>"
| "meter_step (ResetDaily now io) s = s\<lparr>sy_meter := snd (reset_daily now io (sy_meter s))\<rparr>"
| "meter_step (Persist io) s = s\<lparr>sy_meter := snd (persist io (sy_meter s))\<rparr>"
| "meter_step (ResetUsage io name) s = s\<lparr>sy_meter := snd (reset_usage io name (sy_meter s))\<rparr>"
| "meter_step (ReplaceConfigs sha configs) s = s\<lparr>sy_meter := replace_configs sha configs (sy_meter s)\<rparr>"

section \<open>Reservations are accounted for\<close>

fun amount_ok :: "f64 \<Rightarrow> bool" where
  "amount_ok (Fin a) \<longleftrightarrow> 0 \<le> a"
| "amount_ok _ \<longleftrightarrow> False"

fun rat_of :: "f64 \<Rightarrow> rat" where
  "rat_of (Fin a) = a"
| "rat_of _ = 0"

fun flight_ok :: "flight \<Rightarrow> bool" where
  "flight_ok (Held _ a) = amount_ok a"
| "flight_ok (Reserving _ a) = amount_ok a"
| "flight_ok (Extending _ a b) = (amount_ok a \<and> amount_ok b)"
| "flight_ok (Settling _ a _) = amount_ok a"
| "flight_ok (Dropping _ a) = amount_ok a"

text \<open>The share of the service's reservation, and of a key's, that belongs to a request.\<close>

fun service_held :: "flight \<Rightarrow> rat" where
  "service_held (Held _ a) = rat_of a"
| "service_held (Reserving _ a) = rat_of a"
| "service_held (Extending _ a b) = rat_of a + rat_of b"
| "service_held (Settling _ _ _) = 0"
| "service_held (Dropping _ _) = 0"

fun key_held :: "string \<Rightarrow> flight \<Rightarrow> rat" where
  "key_held i (Held k a) = (if k = Some i then rat_of a else 0)"
| "key_held i (Reserving _ _) = 0"
| "key_held i (Extending k a _) = (if k = Some i then rat_of a else 0)"
| "key_held i (Settling k a _) = (if k = Some i then rat_of a else 0)"
| "key_held i (Dropping k a) = (if k = Some i then rat_of a else 0)"

abbreviation sum_of :: "('a \<Rightarrow> rat) \<Rightarrow> 'a list \<Rightarrow> rat" where
  "sum_of h xs \<equiv> sum_list (map h xs)"

lemma amount_ok_cases: "amount_ok a \<Longrightarrow> (\<And>r. a = Fin r \<Longrightarrow> 0 \<le> r \<Longrightarrow> P) \<Longrightarrow> P"
  by (cases a) auto

lemma amount_ok_iff: "amount_ok a \<longleftrightarrow> (\<exists>r. a = Fin r \<and> 0 \<le> r)"
  by (cases a) auto

lemma amount_ok_max: "e \<noteq> PosInf \<Longrightarrow> amount_ok (f_max e (Fin 0))"
  by (cases e) (auto simp: f_max_def)

lemma service_held_nonneg: "flight_ok f \<Longrightarrow> 0 \<le> service_held f"
  by (cases f) (auto elim!: amount_ok_cases)

lemma key_held_nonneg: "flight_ok f \<Longrightarrow> 0 \<le> key_held i f"
  by (cases f) (auto elim!: amount_ok_cases)

lemma total_nonneg: "(\<And>x. x \<in> set xs \<Longrightarrow> 0 \<le> h x) \<Longrightarrow> 0 \<le> sum_of h xs"
  by (induction xs) auto

lemma total_remove1: "x \<in> set xs \<Longrightarrow> sum_of h (remove1 x xs) = sum_of h xs - h x"
  by (simp add: sum_list_map_remove1 [of x xs h])

text \<open>What one request holds is part of the total.\<close>

lemma held_le_total:
  assumes "x \<in> set xs" and "\<And>y. y \<in> set xs \<Longrightarrow> 0 \<le> h y"
  shows "h x \<le> sum_of h xs"
proof -
  have "0 \<le> sum_of h (remove1 x xs)"
    by (rule total_nonneg) (meson assms(2) in_mono set_remove1_subset)
  with assms(1) show ?thesis by (simp add: total_remove1)
qed

subsection \<open>What the blocks do to the reservations\<close>

definition svc :: "meter \<Rightarrow> f64" where
  "svc m = sc_reserved (mt_service m)"

definition kres :: "meter \<Rightarrow> string \<Rightarrow> f64 option" where
  "kres m i = map_option ks_reserved (hm_get (mt_keys m) i)"

definition freed :: "f64 \<Rightarrow> f64 \<Rightarrow> f64" where
  "freed r a = f_max (f_sub r a) (Fin 0)"

lemma reset_day_reserved [simp]: "sc_reserved (reset_service_day_if_needed now sv) = sc_reserved sv"
  and reset_day_limit [simp]: "sc_limit (reset_service_day_if_needed now sv) = sc_limit sv"
  by (simp_all add: reset_service_day_if_needed_def Let_def)

lemma hold_service_res:
  assumes "hold_service now a m = (r, m')"
  shows "svc m' = (if r = None then f_add (svc m) a else svc m)" and "kres m' = kres m"
  using assms by (auto simp: hold_service_def svc_def kres_def Let_def split: if_splits)

lemma release_service_res: "svc (release_service a m) = freed (svc m) a" "kres (release_service a m) = kres m"
  by (simp_all add: release_service_def svc_def kres_def freed_def fun_eq_iff)

lemma kres_insert:
  "kres (m\<lparr>mt_keys := hm_insert i st (mt_keys m)\<rparr>) = (kres m)(i \<mapsto> ks_reserved st)"
  by (auto simp: kres_def fun_eq_iff update_conv')

lemma hold_key_res:
  assumes "hold_key key a m = (res, m')"
  shows "svc m' = (if res = None then svc m else freed (svc m) a)"
    and "kres m' = (case key of None \<Rightarrow> kres m
      | Some i \<Rightarrow> if res = None then (kres m)(i := map_option (\<lambda>r. f_add r a) (kres m i)) else kres m)"
proof -
  show "svc m' = (if res = None then svc m else freed (svc m) a)"
    using assms by (auto simp: hold_key_def release_service_res split: option.splits if_splits)
      (auto simp: svc_def)
  show "kres m' = (case key of None \<Rightarrow> kres m
      | Some i \<Rightarrow> if res = None then (kres m)(i := map_option (\<lambda>r. f_add r a) (kres m i)) else kres m)"
    using assms by (auto simp: hold_key_def release_service_res kres_insert split: option.splits if_splits)
      (auto simp: kres_def)
qed

lemma settle_service_res:
  "svc (snd (settle_service now a rec m)) = freed (svc m) a" "kres (snd (settle_service now a rec m)) = kres m"
  by (simp_all add: settle_service_def svc_def kres_def freed_def fun_eq_iff Let_def)

definition free_key :: "string option \<Rightarrow> f64 \<Rightarrow> (string \<Rightarrow> f64 option) \<Rightarrow> string \<Rightarrow> f64 option" where
  "free_key key a k = (case key of None \<Rightarrow> k | Some i \<Rightarrow> k(i := map_option (\<lambda>r. freed r a) (k i)))"

lemma settle_key_res:
  "svc (snd (settle_key key a rec m)) = svc m" "kres (snd (settle_key key a rec m)) = free_key key a (kres m)"
proof -
  show "svc (snd (settle_key key a rec m)) = svc m"
    by (auto simp: settle_key_def svc_def Let_def split: option.split)
  show "kres (snd (settle_key key a rec m)) = free_key key a (kres m)"
    by (auto simp: settle_key_def free_key_def freed_def kres_insert release_key_def Let_def fun_eq_iff
        split: option.split) (auto simp: kres_def)
qed

lemma drop_key_res:
  "svc (drop_key key a m) = svc m" "kres (drop_key key a m) = free_key key a (kres m)"
proof -
  show "svc (drop_key key a m) = svc m"
    by (auto simp: drop_key_def svc_def split: option.split)
  show "kres (drop_key key a m) = free_key key a (kres m)"
    by (auto simp: drop_key_def free_key_def freed_def kres_insert release_key_def fun_eq_iff
        split: option.split) (auto simp: kres_def)
qed

lemma persist_keys [simp]:
  "mt_keys (snd (persist io m)) = mt_keys m" "mt_service (snd (persist io m)) = mt_service m"
  by (simp_all add: persist_def split: option.split)

lemma reset_daily_keys [simp]:
  "mt_keys (snd (reset_daily now io m)) = mt_keys m"
  "mt_service (snd (reset_daily now io m)) = (mt_service m)\<lparr>sc_day := utc_day now, sc_used := Fin 0\<rparr>"
  by (cases "mt_recovery_error m"; cases io; simp add: reset_daily_def persist_def Let_def)+

lemma admin_res:
  "svc (set_daily_limit l m) = svc m" "kres (set_daily_limit l m) = kres m"
  "svc (snd (persist io m)) = svc m" "kres (snd (persist io m)) = kres m"
  "svc (snd (reset_daily now io m)) = svc m" "kres (snd (reset_daily now io m)) = kres m"
  by (simp_all add: svc_def kres_def fun_eq_iff set_daily_limit_def)

lemma update_first_get:
  assumes "update_first P f m = Some m'" and "\<And>v. g (f v) = g v"
  shows "map_option g (hm_get m' i) = map_option g (hm_get m i)"
  using assms by (induction m arbitrary: m') (auto split: if_splits)

lemma reset_usage_snd:
  "snd (reset_usage io name m) =
     (case update_first (\<lambda>state. ks_id state = name \<or> ck_name (ks_config state) = name)
        (\<lambda>state. state\<lparr>ks_usage := usage_default\<rparr>) (mt_keys m) of
        None \<Rightarrow> m | Some keys \<Rightarrow> snd (persist io (m\<lparr>mt_keys := keys\<rparr>)))"
  by (auto simp: reset_usage_def split: option.split prod.split)

lemma reset_usage_res:
  "svc (snd (reset_usage io name m)) = svc m" "kres (snd (reset_usage io name m)) = kres m"
proof -
  show "svc (snd (reset_usage io name m)) = svc m"
    by (simp add: reset_usage_snd admin_res split: option.split) (simp add: svc_def)
  show "kres (snd (reset_usage io name m)) = kres m"
    by (auto simp: reset_usage_snd admin_res kres_def fun_eq_iff intro!: update_first_get split: option.split)
qed

text \<open>A configuration change keeps the reservations of the keys it keeps and starts the others at 0.\<close>

lemma replace_keys_res:
  assumes "hm_get (replace_keys sha configs keys next) i = Some st"
  shows "ks_reserved st = Fin 0 \<or> hm_get next i = Some st
    \<or> Some (ks_reserved st) = map_option ks_reserved (hm_get keys i)"
  using assms
proof (induction configs arbitrary: keys "next")
  case (Cons c cs)
  let ?i = "config_id sha c"
  from Cons.prems obtain u r where e: "hm_get (replace_keys sha cs (hm_remove ?i keys)
      (hm_insert ?i (fresh_key ?i c u r) next)) i = Some st"
    and r: "(case hm_get keys ?i of Some state \<Rightarrow> (ks_usage state, ks_reserved state)
      | None \<Rightarrow> (usage_default, Fin 0)) = (u, r)"
    by (auto simp: Let_def split: prod.splits)
  from Cons.IH [OF e] r show ?case
    by (auto simp: update_conv' delete_conv' fresh_key_def split: if_splits option.splits)
qed simp

lemma replace_configs_res:
  "svc (replace_configs sha configs m) = svc m"
  "kres (replace_configs sha configs m) i = Some r \<Longrightarrow> r = Fin 0 \<or> kres m i = Some r"
proof -
  show "svc (replace_configs sha configs m) = svc m" by (simp add: replace_configs_def svc_def)
  show "r = Fin 0 \<or> kres m i = Some r" if "kres (replace_configs sha configs m) i = Some r"
    using that replace_keys_res [of sha configs "mt_keys m" "[]" i]
    by (cases "hm_get (mt_keys m) i") (auto simp: replace_configs_def kres_def)
qed

subsection \<open>A counter and what it counts\<close>

text \<open>
  Every sum is rounded, so a counter follows the exact total of what it counts up to a drift. With
  totals of at most \<open>M\<close> one operation adds at most a grain.
\<close>

definition grain :: "rat \<Rightarrow> rat" where
  "grain M = M / 2 ^ 52"

definition credit_bound :: "rat \<Rightarrow> bool" where
  "credit_bound M \<longleftrightarrow> 1 \<le> M \<and> M \<le> 2 ^ 900"

definition tracks :: "rat \<Rightarrow> f64 \<Rightarrow> rat \<Rightarrow> bool" where
  "tracks d r t \<longleftrightarrow> amount_ok r \<and> \<bar>rat_of r - t\<bar> \<le> d"

definition covered :: "rat \<Rightarrow> f64 \<Rightarrow> rat \<Rightarrow> bool" where
  "covered d r t \<longleftrightarrow> amount_ok r \<and> rat_of r \<le> t + d"

lemma tracksD: "tracks d r t \<Longrightarrow> \<exists>x. r = Fin x \<and> 0 \<le> x \<and> \<bar>x - t\<bar> \<le> d"
  by (auto simp: tracks_def amount_ok_iff)

lemma coveredD: "covered d r t \<Longrightarrow> \<exists>x. r = Fin x \<and> 0 \<le> x \<and> x \<le> t + d"
  by (auto simp: covered_def amount_ok_iff)

lemma grain_nonneg: "credit_bound M \<Longrightarrow> 0 \<le> grain M"
  by (simp add: grain_def credit_bound_def)

lemma round_grain:
  assumes "credit_bound M" and "\<bar>r\<bar> \<le> 2 * M"
  obtains x where "f_round r = Fin x" "\<bar>x - r\<bar> \<le> grain M" "0 \<le> r \<Longrightarrow> 0 \<le> x"
proof -
  have "(2::rat) * 2 ^ 900 \<le> 2 ^ 1000" by simp
  then have "1 \<le> 2 * M" "2 * M \<le> 2 ^ 1000" using assms(1) unfolding credit_bound_def by linarith+
  then show ?thesis
    using f_round_near [OF assms(2)] that by (metis grain_def mult_divide_mult_cancel_left_if power_Suc
        power_add_numeral2 zero_neq_numeral eval_nat_numeral(3))
qed

lemma sum_near:
  assumes "credit_bound M" and "amount_ok a" and "amount_ok b" and "rat_of a + rat_of b \<le> 2 * M"
  shows "amount_ok (f_add a b) \<and> \<bar>rat_of (f_add a b) - (rat_of a + rat_of b)\<bar> \<le> grain M"
proof -
  obtain x y where xy: "a = Fin x" "b = Fin y" "0 \<le> x" "0 \<le> y" using assms(2,3) by (auto elim!: amount_ok_cases)
  then have "\<bar>x + y\<bar> \<le> 2 * M" using assms(4) by simp
  then obtain z where "f_round (x + y) = Fin z" "\<bar>z - (x + y)\<bar> \<le> grain M" "0 \<le> z"
    using xy(3,4) by (metis add_nonneg_nonneg round_grain [OF assms(1)])
  then show ?thesis using xy by simp
qed

lemma freed_near:
  assumes "credit_bound M" and "amount_ok r" and "amount_ok a" and "rat_of r \<le> 2 * M" and "rat_of a \<le> 2 * M"
  shows "amount_ok (freed r a) \<and> \<bar>rat_of (freed r a) - max (rat_of r - rat_of a) 0\<bar> \<le> grain M"
proof -
  obtain x y where xy: "r = Fin x" "a = Fin y" "0 \<le> x" "0 \<le> y" using assms(2,3) by (auto elim!: amount_ok_cases)
  then have "\<bar>x - y\<bar> \<le> 2 * M" using assms(4,5) by simp
  then obtain z where "f_round (x - y) = Fin z" "\<bar>z - (x - y)\<bar> \<le> grain M" by (rule round_grain [OF assms(1)])
  then show ?thesis using xy by (auto simp: freed_def)
qed

lemma tracks_loosen: "tracks d r t \<Longrightarrow> d \<le> d' \<Longrightarrow> tracks d' r t"
  by (simp add: tracks_def)

lemma covered_loosen: "covered d r t \<Longrightarrow> d \<le> d' \<Longrightarrow> covered d' r t"
  by (simp add: covered_def)

lemma tracks_add:
  assumes "credit_bound M" and "tracks d r t" and "amount_ok a" and "t + rat_of a \<le> M" and "d \<le> M"
  shows "tracks (d + grain M) (f_add r a) (t + rat_of a)"
proof -
  have "rat_of r + rat_of a \<le> 2 * M" using assms(2,4,5) by (auto simp: tracks_def)
  with assms(2,3) sum_near [OF assms(1), of r a] show ?thesis by (auto simp: tracks_def)
qed

lemma covered_add:
  assumes "credit_bound M" and "covered d r t" and "amount_ok a" and "t + rat_of a \<le> M" and "d \<le> M"
  shows "covered (d + grain M) (f_add r a) (t + rat_of a)"
proof -
  have "rat_of r + rat_of a \<le> 2 * M" using assms(2,4,5) by (auto simp: covered_def)
  with assms(2,3) sum_near [OF assms(1), of r a] show ?thesis by (auto simp: covered_def)
qed

lemma tracks_free:
  assumes "credit_bound M" and "tracks d r t" and "amount_ok a" and "rat_of a \<le> t" and "t \<le> M" and "d \<le> M"
  shows "tracks (d + grain M) (freed r a) (t - rat_of a)"
proof -
  have "rat_of r \<le> 2 * M" "rat_of a \<le> 2 * M"
    using assms by (auto simp: tracks_def credit_bound_def)
  with assms(2,3) freed_near [OF assms(1), of r a] have "amount_ok (freed r a)"
    "\<bar>rat_of (freed r a) - max (rat_of r - rat_of a) 0\<bar> \<le> grain M" by (simp_all add: tracks_def)
  moreover have "\<bar>max (rat_of r - rat_of a) 0 - (t - rat_of a)\<bar> \<le> d"
    using assms(2,4) by (auto simp: tracks_def)
  ultimately show ?thesis unfolding tracks_def by linarith
qed

lemma covered_free:
  assumes "credit_bound M" and "covered d r t" and "amount_ok a" and "rat_of a \<le> t" and "t \<le> M" and "d \<le> M" and "0 \<le> d"
  shows "covered (d + grain M) (freed r a) (t - rat_of a)"
proof -
  have "rat_of r \<le> 2 * M" "rat_of a \<le> 2 * M"
    using assms by (auto simp: covered_def credit_bound_def)
  with assms(2,3) freed_near [OF assms(1), of r a] have "amount_ok (freed r a)"
    "\<bar>rat_of (freed r a) - max (rat_of r - rat_of a) 0\<bar> \<le> grain M" by (simp_all add: covered_def)
  moreover have "max (rat_of r - rat_of a) 0 \<le> t - rat_of a + d"
    using assms(2,4,7) by (auto simp: covered_def)
  ultimately show ?thesis unfolding covered_def by linarith
qed

subsection \<open>The service\<close>

fun finite_op :: "meter_op \<Rightarrow> bool" where
  "finite_op (BeginReserve _ _ e) \<longleftrightarrow> e \<noteq> PosInf"
| "finite_op (BeginExtend _ _ _ e) \<longleftrightarrow> e \<noteq> PosInf"
| "finite_op _ \<longleftrightarrow> True"

abbreviation service_total :: "meter_sys \<Rightarrow> rat" where
  "service_total s \<equiv> sum_of service_held (sy_flights s)"

definition service_near :: "rat \<Rightarrow> meter_sys \<Rightarrow> bool" where
  "service_near d s \<longleftrightarrow> list_all flight_ok (sy_flights s) \<and> tracks d (svc (sy_meter s)) (service_total s)"

lemma sum_advance:
  "old \<in> set (sy_flights s) \<Longrightarrow> sum_of h (sy_flights (advance old new m s))
     = sum_of h new + (sum_of h (sy_flights s) - h old)"
  by (simp add: advance_def total_remove1)

lemma advance_meter [simp]: "sy_meter (advance old new m s) = m"
  by (simp add: advance_def)

lemma all_advance:
  "list_all P (sy_flights s) \<Longrightarrow> list_all P new \<Longrightarrow> list_all P (sy_flights (advance old new m s))"
  by (auto simp: advance_def list_all_iff dest: notin_set_remove1)

lemma service_near_flight:
  assumes "service_near d s" and "f \<in> set (sy_flights s)"
  shows "flight_ok f" "service_held f \<le> service_total s"
  using assms held_le_total [OF assms(2), of service_held]
  by (auto simp: service_near_def list_all_iff service_held_nonneg)

lemma service_advance:
  assumes "service_near d s" and "old \<in> set (sy_flights s)" and "list_all flight_ok new"
    and "tracks d' (svc m) (sum_of service_held new + (service_total s - service_held old))"
  shows "service_near d' (advance old new m s)"
  using assms by (simp add: service_near_def all_advance sum_advance)

lemma service_same:
  assumes "service_near d s" and "svc m = svc (sy_meter s)" and "d \<le> d'"
  shows "service_near d' (s\<lparr>sy_meter := m\<rparr>)"
  using assms by (auto simp: service_near_def intro: tracks_loosen)

lemma service_near_loosen: "service_near d s \<Longrightarrow> d \<le> d' \<Longrightarrow> service_near d' s"
  by (auto simp: service_near_def intro: tracks_loosen)

text \<open>A state from which one step may be taken.\<close>

definition service_ready :: "rat \<Rightarrow> rat \<Rightarrow> meter_sys \<Rightarrow> bool" where
  "service_ready M d s \<longleftrightarrow> service_near d s \<and> credit_bound M \<and> d \<le> M \<and> service_total s \<le> M"

lemma service_readyD:
  assumes "service_ready M d s"
  shows "service_near d s" "credit_bound M" "d \<le> M" "service_total s \<le> M" "0 \<le> grain M"
    "list_all flight_ok (sy_flights s)" "tracks d (svc (sy_meter s)) (service_total s)"
  using assms grain_nonneg by (simp_all add: service_ready_def service_near_def)

lemma service_kept: "service_ready M d s \<Longrightarrow> service_near (d + grain M) s"
  by (rule service_near_loosen) (auto dest: service_readyD)

lemma service_kept_meter:
  "service_ready M d s \<Longrightarrow> svc m = svc (sy_meter s) \<Longrightarrow> service_near (d + grain M) (s\<lparr>sy_meter := m\<rparr>)"
  by (rule service_same) (auto dest: service_readyD)

text \<open>Granting an amount, and giving one back.\<close>

lemma service_grant:
  assumes "service_ready M d s" and "hold_service now a (sy_meter s) = (None, m)" and "amount_ok a"
    and "service_total s + rat_of a \<le> M"
  shows "tracks (d + grain M) (svc m) (service_total s + rat_of a)"
proof -
  note r = service_readyD [OF assms(1)]
  show ?thesis using tracks_add [OF r(2,7) assms(3,4) r(3)] hold_service_res(1) [OF assms(2)] by simp
qed

lemma service_give_back:
  assumes "service_ready M d s" and "f \<in> set (sy_flights s)" and "amount_ok a"
    and "rat_of a \<le> service_held f" and "svc m = freed (svc (sy_meter s)) a"
  shows "tracks (d + grain M) (svc m) (service_total s - rat_of a)"
proof -
  note r = service_readyD [OF assms(1)]
  have "rat_of a \<le> service_total s" using service_near_flight(2) [OF r(1) assms(2)] assms(4) by simp
  with tracks_free [OF r(2,7) assms(3) _ r(4,3)] assms(5) show ?thesis by simp
qed

lemma service_begin_reserve:
  assumes "service_ready M d s" and "e \<noteq> PosInf" and "service_total (meter_step (BeginReserve now key e) s) \<le> M"
  shows "service_near (d + grain M) (meter_step (BeginReserve now key e) s)"
proof (cases "mt_recovery_error (sy_meter s)")
  case None
  let ?a = "f_max e (Fin 0)"
  have a: "amount_ok ?a" using assms(2) by (rule amount_ok_max)
  obtain r m where h: "hold_service now ?a (sy_meter s) = (r, m)" by force
  show ?thesis
  proof (cases r)
    case (Some err)
    then show ?thesis using None h hold_service_res(1) [OF h] service_kept_meter [OF assms(1), of m] by simp
  next
    case None': None
    then have "service_total s + rat_of ?a \<le> M" using None h assms(3) by (simp add: algebra_simps)
    from service_grant [OF assms(1) h [unfolded None'] a this]
    show ?thesis
      using service_readyD(6) [OF assms(1)] None None' h a by (simp add: service_near_def algebra_simps)
  qed
qed (simp add: service_kept [OF assms(1)])

lemma service_begin_extend:
  assumes "service_ready M d s" and "e \<noteq> PosInf" and "service_total (meter_step (BeginExtend now key b e) s) \<le> M"
  shows "service_near (d + grain M) (meter_step (BeginExtend now key b e) s)"
proof (cases "Held key b \<notin> set (sy_flights s) \<or> f_max e (Fin 0) = Fin 0")
  case False
  let ?a = "f_max e (Fin 0)"
  have held: "Held key b \<in> set (sy_flights s)" using False by simp
  have ok: "amount_ok ?a" "amount_ok b"
    using assms(2) service_near_flight(1) [OF service_readyD(1) [OF assms(1)] held] by (simp_all add: amount_ok_max)
  obtain r m where h: "hold_service now ?a (sy_meter s) = (r, m)" by force
  show ?thesis
  proof (cases r)
    case (Some err)
    then show ?thesis using False h hold_service_res(1) [OF h] service_kept_meter [OF assms(1), of m] by simp
  next
    case None
    then have "service_total s + rat_of ?a \<le> M" using False h assms(3) by (simp add: sum_advance algebra_simps)
    from service_grant [OF assms(1) h [unfolded None] ok(1) this]
    have "service_near (d + grain M) (advance (Held key b) [Extending key b ?a] m s)"
      using ok held by (intro service_advance [OF service_readyD(1) [OF assms(1)]]) (simp_all add: algebra_simps)
    then show ?thesis using False h None by simp
  qed
qed (auto simp: service_kept [OF assms(1)])

text \<open>A refused key block gives back what the service set aside; an extended reservation is a
  rounded sum.\<close>

lemma service_finish_reserve:
  assumes "service_ready M d s"
  shows "service_near (d + grain M) (meter_step (FinishReserve key a) s)"
proof (cases "Reserving key a \<in> set (sy_flights s)")
  case True
  note r = service_readyD [OF assms]
  have a: "amount_ok a" using service_near_flight(1) [OF r(1) True] by simp
  obtain res m where h: "hold_key key a (sy_meter s) = (res, m)" by force
  show ?thesis
  proof (cases res)
    case (Some err)
    then have "tracks (d + grain M) (svc m) (service_total s - rat_of a)"
      using hold_key_res(1) [OF h] by (intro service_give_back [OF assms True a]) simp_all
    then have "service_near (d + grain M) (advance (Reserving key a) [] m s)"
      by (intro service_advance [OF r(1) True]) simp_all
    then show ?thesis using True h Some by simp
  next
    case None
    then have "service_near (d + grain M) (advance (Reserving key a) [Held key a] m s)"
      using hold_key_res(1) [OF h] r(5,7) a
      by (intro service_advance [OF r(1) True]) (auto intro: tracks_loosen)
    then show ?thesis using True h None by simp
  qed
qed (simp add: service_kept [OF assms])

lemma service_finish_extend:
  assumes "service_ready M d s"
  shows "service_near (d + grain M) (meter_step (FinishExtend key a b) s)"
proof (cases "Extending key a b \<in> set (sy_flights s)")
  case True
  note r = service_readyD [OF assms]
  have ok: "amount_ok a" "amount_ok b" using service_near_flight(1) [OF r(1) True] by simp_all
  have le: "rat_of a + rat_of b \<le> M" using service_near_flight(2) [OF r(1) True] r(4) by simp
  have nn: "0 \<le> rat_of a" "0 \<le> rat_of b" using ok by (auto elim!: amount_ok_cases)
  obtain res m where h: "hold_key key b (sy_meter s) = (res, m)" by force
  show ?thesis
  proof (cases res)
    case (Some err)
    then have "tracks (d + grain M) (svc m) (service_total s - rat_of b)"
      using hold_key_res(1) [OF h] nn by (intro service_give_back [OF assms True ok(2)]) simp_all
    then have "service_near (d + grain M) (advance (Extending key a b) [Held key a] m s)"
      using ok by (intro service_advance [OF r(1) True]) (simp_all add: algebra_simps)
    then show ?thesis using True h Some by simp
  next
    case None
    have sum: "amount_ok (f_add a b)" "\<bar>rat_of (f_add a b) - (rat_of a + rat_of b)\<bar> \<le> grain M"
      using sum_near [OF r(2) ok] le nn by simp_all
    have "svc m = svc (sy_meter s)" using hold_key_res(1) [OF h] None by simp
    with sum r(7) have "tracks (d + grain M) (svc m) (rat_of (f_add a b) + (service_total s - (rat_of a + rat_of b)))"
      unfolding tracks_def by (auto simp: abs_le_iff algebra_simps)
    with sum have "service_near (d + grain M) (advance (Extending key a b) [Held key (f_add a b)] m s)"
      by (intro service_advance [OF r(1) True]) simp_all
    then show ?thesis using True h None by simp
  qed
qed (simp add: service_kept [OF assms])

text \<open>The service blocks of settling and dropping, and the key blocks after them.\<close>

lemma service_release:
  assumes "service_ready M d s" and "Held key a \<in> set (sy_flights s)"
    and "svc m = freed (svc (sy_meter s)) a" and "f \<in> {Settling key a rec, Dropping key a}"
  shows "service_near (d + grain M) (advance (Held key a) [f] m s)"
proof -
  note r = service_readyD [OF assms(1)]
  have a: "amount_ok a" using service_near_flight(1) [OF r(1) assms(2)] by simp
  have "tracks (d + grain M) (svc m) (service_total s - rat_of a)"
    by (rule service_give_back [OF assms(1,2) a _ assms(3)]) simp
  then show ?thesis using a assms(4) by (intro service_advance [OF r(1) assms(2)]) auto
qed

lemma service_forget:
  assumes "service_ready M d s" and "f \<in> set (sy_flights s)" and "service_held f = 0"
    and "svc m = svc (sy_meter s)"
  shows "service_near (d + grain M) (advance f [] m s)"
  using service_readyD [OF assms(1)] assms(2-4)
  by (intro service_advance) (auto intro: tracks_loosen)

lemma service_step:
  assumes "service_ready M d s" and "finite_op op" and "service_total (meter_step op s) \<le> M"
  shows "service_near (d + grain M) (meter_step op s)"
proof (cases op)
  case (BeginReserve now key e)
  then show ?thesis using assms service_begin_reserve by (simp del: meter_step.simps)
next
  case (BeginExtend now key a e)
  then show ?thesis using assms service_begin_extend by (simp del: meter_step.simps)
next
  case (FinishReserve key a)
  then show ?thesis using service_finish_reserve [OF assms(1)] by (simp del: meter_step.simps)
next
  case (FinishExtend key a b)
  then show ?thesis using service_finish_extend [OF assms(1)] by (simp del: meter_step.simps)
next
  case (BeginSettle now key a rec)
  then show ?thesis
    using service_kept [OF assms(1)] service_release [OF assms(1) _ settle_service_res(1), of key a "Settling key a rec" rec]
    by simp
next
  case (FinishSettle key a rec)
  then show ?thesis
    using service_kept [OF assms(1)] service_forget [OF assms(1) _ _ settle_key_res(1), of "Settling key a rec"] by simp
next
  case (BeginDrop key a)
  then show ?thesis
    using service_kept [OF assms(1)] service_release [OF assms(1) _ release_service_res(1), of key a "Dropping key a"]
    by simp
next
  case (FinishDrop key a)
  then show ?thesis
    using service_kept [OF assms(1)] service_forget [OF assms(1) _ _ drop_key_res(1), of "Dropping key a"] by simp
qed (simp_all add: service_kept_meter [OF assms(1)] admin_res reset_usage_res replace_configs_res(1))

subsection \<open>The keys\<close>

abbreviation key_total :: "string \<Rightarrow> meter_sys \<Rightarrow> rat" where
  "key_total i s \<equiv> sum_of (key_held i) (sy_flights s)"

definition keys_near :: "rat \<Rightarrow> meter_sys \<Rightarrow> bool" where
  "keys_near d s \<longleftrightarrow> (\<forall>i r. kres (sy_meter s) i = Some r \<longrightarrow> covered d r (key_total i s))"

lemma keys_near_loosen: "keys_near d s \<Longrightarrow> d \<le> d' \<Longrightarrow> keys_near d' s"
  unfolding keys_near_def by (meson covered_loosen)

definition keys_ready :: "rat \<Rightarrow> rat \<Rightarrow> meter_sys \<Rightarrow> bool" where
  "keys_ready M d s \<longleftrightarrow> keys_near d s \<and> credit_bound M \<and> 0 \<le> d \<and> d \<le> M \<and> list_all flight_ok (sy_flights s)
     \<and> (\<forall>i. key_total i s \<le> M)"

lemma keys_readyD:
  assumes "keys_ready M d s"
  shows "keys_near d s" "credit_bound M" "0 \<le> d" "d \<le> M" "list_all flight_ok (sy_flights s)"
    "key_total i s \<le> M" "0 \<le> grain M" "0 \<le> key_total i s"
  using assms grain_nonneg total_nonneg [of "sy_flights s" "key_held i"]
  by (auto simp: keys_ready_def list_all_iff key_held_nonneg)

text \<open>A step that changes no key and no share of one.\<close>

lemma keys_unchanged:
  assumes "keys_ready M d s" and "kres (sy_meter s') = kres (sy_meter s)"
    and "\<And>i. key_total i s' = key_total i s"
  shows "keys_near (d + 2 * grain M) s'"
proof (rule keys_near_loosen)
  show "keys_near d s'" using assms(2,3) keys_readyD(1) [OF assms(1)] by (simp add: keys_near_def)
qed (simp add: keys_readyD(7) [OF assms(1)])

lemma keys_advance_same:
  assumes "keys_ready M d s" and "old \<in> set (sy_flights s)" and "kres m = kres (sy_meter s)"
    and "\<And>i. sum_of (key_held i) new = key_held i old"
  shows "keys_near (d + 2 * grain M) (advance old new m s)"
  using assms by (intro keys_unchanged [OF assms(1)]) (simp_all add: sum_advance)

lemma keys_flight:
  assumes "keys_ready M d s" and "f \<in> set (sy_flights s)"
  shows "flight_ok f" "key_held i f \<le> key_total i s" "0 \<le> key_held i f"
  using keys_readyD(5) [OF assms(1)] held_le_total [OF assms(2), of "key_held i"] assms(2)
  by (auto simp: list_all_iff key_held_nonneg)

text \<open>Holding an amount of a key, and letting go of one.\<close>

lemma keys_hold:
  assumes "keys_ready M d s" and "hold_key key a (sy_meter s) = (None, m)" and "amount_ok a"
    and "kres m i = Some r" and "key = Some i \<Longrightarrow> key_total i s + rat_of a \<le> M"
  shows "covered (d + grain M) r (key_total i s + (if key = Some i then rat_of a else 0))"
proof (cases "key = Some i")
  case True
  note k = keys_readyD [OF assms(1)]
  from True obtain q where q: "kres (sy_meter s) i = Some q" "r = f_add q a"
    using assms(4) hold_key_res(2) [OF assms(2)] by auto
  then have "covered d q (key_total i s)" using k(1) by (simp add: keys_near_def)
  from covered_add [OF k(2) this assms(3) assms(5) [OF True] k(4)] True q(2) show ?thesis by simp
next
  case False
  then have "kres (sy_meter s) i = Some r"
    using assms(4) hold_key_res(2) [OF assms(2)] by (auto split: option.splits)
  then have "covered d r (key_total i s)" using keys_readyD(1) [OF assms(1)] by (simp add: keys_near_def)
  then show ?thesis
    using False covered_loosen [of d r _ "d + grain M"] keys_readyD(7) [OF assms(1)] by simp
qed

lemma keys_forget:
  assumes "keys_ready M d s" and "f \<in> set (sy_flights s)" and "f \<in> {Settling key a rec, Dropping key a}"
    and "kres m = free_key key a (kres (sy_meter s))"
  shows "keys_near (d + 2 * grain M) (advance f [] m s)"
  unfolding keys_near_def
proof (intro allI impI)
  fix i r assume r: "kres (sy_meter (advance f [] m s)) i = Some r"
  note k = keys_readyD [OF assms(1)]
  have a: "amount_ok a" "key_held i f = (if key = Some i then rat_of a else 0)"
    using keys_flight(1) [OF assms(1,2)] assms(3) by auto
  have t: "key_total i (advance f [] m s) = key_total i s - key_held i f"
    using assms(2) by (simp add: sum_advance)
  show "covered (d + 2 * grain M) r (key_total i (advance f [] m s))"
  proof (cases "key = Some i")
    case True
    then obtain q where q: "kres (sy_meter s) i = Some q" "r = freed q a"
      using r assms(4) by (auto simp: free_key_def)
    then have "covered d q (key_total i s)" using k(1) by (simp add: keys_near_def)
    then have "covered (d + grain M) r (key_total i s - rat_of a)"
      unfolding q(2) using keys_flight(2) [OF assms(1,2), of i] a True k(3,4,6)
      by (intro covered_free [OF k(2)]) simp_all
    then show ?thesis unfolding t using a(2) True k(7) by (auto intro: covered_loosen)
  next
    case False
    then have "kres (sy_meter s) i = Some r" using r assms(4) by (auto simp: free_key_def split: option.splits)
    then have "covered d r (key_total i s)" using k(1) by (simp add: keys_near_def)
    then show ?thesis unfolding t using a(2) False k(7) by (auto intro: covered_loosen)
  qed
qed

lemma keys_finish_reserve:
  assumes "keys_ready M d s" and "\<And>i. key_total i (meter_step (FinishReserve key a) s) \<le> M"
  shows "keys_near (d + 2 * grain M) (meter_step (FinishReserve key a) s)"
proof (cases "Reserving key a \<in> set (sy_flights s)")
  case True
  note k = keys_readyD [OF assms(1)]
  have a: "amount_ok a" using keys_flight(1) [OF assms(1) True] by simp
  obtain res m where h: "hold_key key a (sy_meter s) = (res, m)" by force
  show ?thesis
  proof (cases res)
    case (Some err)
    then have "kres m = kres (sy_meter s)" using hold_key_res(2) [OF h] by (simp split: option.splits)
    then have "keys_near (d + 2 * grain M) (advance (Reserving key a) [] m s)"
      by (intro keys_advance_same [OF assms(1) True]) simp_all
    then show ?thesis using True h Some by simp
  next
    case None
    let ?s = "advance (Reserving key a) [Held key a] m s"
    have t: "key_total i ?s = key_total i s + (if key = Some i then rat_of a else 0)" for i
      using True by (simp add: sum_advance)
    have "key_total i s + rat_of a \<le> M" if "key = Some i" for i
      using assms(2) [of i] True h None t [of i] that by simp
    then have "covered (d + grain M) r (key_total i ?s)" if "kres m i = Some r" for i r
      unfolding t using keys_hold [OF assms(1) h [unfolded None] a that] by simp
    then have "keys_near (d + grain M) ?s" by (simp add: keys_near_def)
    then have "keys_near (d + 2 * grain M) ?s" by (rule keys_near_loosen) (simp add: k(7))
    then show ?thesis using True h None by simp
  qed
qed (use assms(1) keys_unchanged [OF assms(1), of s] in simp)

lemma keys_finish_extend:
  assumes "keys_ready M d s" and "Extending key a b \<in> set (sy_flights s) \<Longrightarrow> rat_of a + rat_of b \<le> M"
    and "\<And>i. Extending (Some i) a b \<in> set (sy_flights s) \<Longrightarrow> key_total i s + rat_of b \<le> M"
  shows "keys_near (d + 2 * grain M) (meter_step (FinishExtend key a b) s)"
proof (cases "Extending key a b \<in> set (sy_flights s)")
  case True
  note k = keys_readyD [OF assms(1)]
  have ok: "amount_ok a" "amount_ok b" using keys_flight(1) [OF assms(1) True] by simp_all
  have nn: "0 \<le> rat_of a" "0 \<le> rat_of b" using ok by (auto elim!: amount_ok_cases)
  obtain res m where h: "hold_key key b (sy_meter s) = (res, m)" by force
  show ?thesis
  proof (cases res)
    case (Some err)
    then have "kres m = kres (sy_meter s)" using hold_key_res(2) [OF h] by (simp split: option.splits)
    then have "keys_near (d + 2 * grain M) (advance (Extending key a b) [Held key a] m s)"
      by (intro keys_advance_same [OF assms(1) True]) simp_all
    then show ?thesis using True h Some by simp
  next
    case None
    let ?s = "advance (Extending key a b) [Held key (f_add a b)] m s"
    have sum: "\<bar>rat_of (f_add a b) - (rat_of a + rat_of b)\<bar> \<le> grain M"
      using sum_near [OF k(2) ok] assms(2) [OF True] nn by simp
    have t: "key_total i ?s = key_total i s + (if key = Some i then rat_of (f_add a b) - rat_of a else 0)" for i
      using True by (simp add: sum_advance)
    have "covered (d + 2 * grain M) r (key_total i ?s)" if "kres m i = Some r" for i r
    proof -
      have "covered (d + grain M) r (key_total i s + (if key = Some i then rat_of b else 0))"
        using keys_hold [OF assms(1) h [unfolded None] ok(2) that] assms(3) [of i] True by auto
      with sum k(7) show ?thesis unfolding t covered_def by (auto simp: abs_le_iff)
    qed
    then have "keys_near (d + 2 * grain M) ?s" by (simp add: keys_near_def)
    then show ?thesis using True h None by simp
  qed
qed (use assms(1) keys_unchanged [OF assms(1), of s] in simp)

subsection \<open>The whole meter\<close>

text \<open>What the requests in flight hold together, in one block or the other.\<close>

fun flight_credits :: "flight \<Rightarrow> rat" where
  "flight_credits (Held _ a) = rat_of a"
| "flight_credits (Reserving _ a) = rat_of a"
| "flight_credits (Extending _ a b) = rat_of a + rat_of b"
| "flight_credits (Settling _ a _) = rat_of a"
| "flight_credits (Dropping _ a) = rat_of a"

definition in_flight :: "meter_sys \<Rightarrow> rat" where
  "in_flight s = sum_of flight_credits (sy_flights s)"

lemma flight_shares:
  "flight_ok f \<Longrightarrow> service_held f \<le> flight_credits f" "flight_ok f \<Longrightarrow> key_held i f \<le> flight_credits f"
  "flight_ok f \<Longrightarrow> 0 \<le> flight_credits f"
  by (cases f; auto elim!: amount_ok_cases)+

lemma sum_of_mono: "(\<And>x. x \<in> set xs \<Longrightarrow> h x \<le> g x) \<Longrightarrow> sum_of h xs \<le> sum_of g xs"
  by (induction xs) (auto intro: add_mono)

lemma in_flight_bounds:
  assumes "list_all flight_ok (sy_flights s)"
  shows "service_total s \<le> in_flight s" "key_total i s \<le> in_flight s"
  using assms by (auto simp: in_flight_def list_all_iff flight_shares intro!: sum_of_mono)

text \<open>A step that extends a reservation has both amounts in flight.\<close>

lemma extending_in_flight:
  assumes "list_all flight_ok (sy_flights s)" and "Extending key a b \<in> set (sy_flights s)"
  shows "rat_of a + rat_of b \<le> in_flight s" "key = Some i \<Longrightarrow> key_total i s + rat_of b \<le> in_flight s"
proof -
  let ?f = "Extending key a b"
  have ok: "\<And>f. f \<in> set (sy_flights s) \<Longrightarrow> flight_ok f" using assms(1) by (simp add: list_all_iff)
  have "flight_credits ?f \<le> in_flight s"
    unfolding in_flight_def using assms(2) ok by (intro held_le_total) (auto simp: flight_shares)
  then show "rat_of a + rat_of b \<le> in_flight s" by simp
  assume key: "key = Some i"
  have "sum_of (key_held i) (remove1 ?f (sy_flights s)) \<le> sum_of flight_credits (remove1 ?f (sy_flights s))"
    using ok by (intro sum_of_mono flight_shares) (auto dest: notin_set_remove1)
  then show "key_total i s + rat_of b \<le> in_flight s"
    using assms(2) key by (simp add: in_flight_def total_remove1)
qed

text \<open>No step leaves an amount that is not a finite, non-negative number.\<close>

lemma step_flights:
  assumes "service_ready M d s" and "finite_op op"
  shows "list_all flight_ok (sy_flights (meter_step op s))"
proof -
  note r = service_readyD [OF assms(1)]
  have ok: "\<And>f. f \<in> set (sy_flights s) \<Longrightarrow> flight_ok f" using r(6) by (simp add: list_all_iff)
  have sum: "amount_ok (f_add a b)" if "Extending key a b \<in> set (sy_flights s)" for key a b
    using that ok service_near_flight(2) [OF r(1) that] r(2,4) sum_near [OF r(2), of a b]
    by (fastforce simp: credit_bound_def)
  show ?thesis
    using assms(2) r(6) ok sum amount_ok_max
    by (cases op) (fastforce intro!: all_advance split: prod.split option.split)+
qed

definition light_op :: "rat \<Rightarrow> meter_op \<Rightarrow> meter_sys \<Rightarrow> bool" where
  "light_op M op s \<longleftrightarrow> finite_op op \<and> in_flight s \<le> M \<and> in_flight (meter_step op s) \<le> M"

lemma keys_step:
  assumes "keys_ready M d s" and "light_op M op s" and "list_all flight_ok (sy_flights (meter_step op s))"
  shows "keys_near (d + 2 * grain M) (meter_step op s)"
proof -
  note ok = keys_readyD(5) [OF assms(1)]
  have kept: "keys_near (d + 2 * grain M) s" by (rule keys_unchanged [OF assms(1)]) simp_all
  have after: "key_total i (meter_step op s) \<le> M" for i
    using in_flight_bounds(2) [OF assms(3), of i] assms(2) by (simp add: light_op_def)
  show ?thesis
  proof (cases op)
    case (BeginReserve now key e)
    then show ?thesis
      using kept hold_service_res(2) by (auto intro!: keys_unchanged [OF assms(1)] split: prod.split option.split)
  next
    case (BeginExtend now key a e)
    then show ?thesis
      using kept hold_service_res(2)
      by (auto intro!: keys_unchanged [OF assms(1)] simp: sum_advance split: prod.split option.split)
  next
    case (FinishReserve key a)
    then show ?thesis using keys_finish_reserve [OF assms(1)] after by (simp del: meter_step.simps)
  next
    case (FinishExtend key a b)
    then show ?thesis
      using keys_finish_extend [OF assms(1), of key a b] extending_in_flight [OF ok] assms(2)
      by (fastforce simp: light_op_def simp del: meter_step.simps)
  next
    case (BeginSettle now key a rec)
    then show ?thesis using kept settle_service_res(2) by (auto intro!: keys_advance_same [OF assms(1)])
  next
    case (FinishSettle key a rec)
    then show ?thesis
      using kept keys_forget [OF assms(1) _ _ settle_key_res(2), of "Settling key a rec" key a rec] by simp
  next
    case (BeginDrop key a)
    then show ?thesis using kept release_service_res(2) by (auto intro!: keys_advance_same [OF assms(1)])
  next
    case (FinishDrop key a)
    then show ?thesis using kept keys_forget [OF assms(1) _ _ drop_key_res(2), of "Dropping key a" key a] by simp
  next
    case (ReplaceConfigs sha configs)
    have "keys_near d (s\<lparr>sy_meter := replace_configs sha configs (sy_meter s)\<rparr>)"
      using keys_readyD(1,3,8) [OF assms(1)] replace_configs_res(2)
      by (fastforce simp: keys_near_def covered_def)
    then show ?thesis
      using ReplaceConfigs keys_readyD(7) [OF assms(1)] by (auto intro: keys_near_loosen)
  qed (auto intro!: keys_unchanged [OF assms(1)] simp: admin_res reset_usage_res)
qed

definition reserved_near :: "rat \<Rightarrow> nat \<Rightarrow> meter_sys \<Rightarrow> bool" where
  "reserved_near M n s \<longleftrightarrow> credit_bound M \<and> service_near (of_nat n * grain M) s
     \<and> keys_near (of_nat n * (2 * grain M)) s"

lemma drift_small:
  assumes "credit_bound M" and "n \<le> 2 ^ 50"
  shows "0 \<le> of_nat n * (2 * grain M)" "of_nat n * (2 * grain M) \<le> M / 2" "of_nat n * grain M \<le> M / 4"
proof -
  have n: "(of_nat n :: rat) \<le> 2 ^ 50" using assms(2) of_nat_le_iff [of n "2 ^ 50", where ?'a = rat] by simp
  have M: "0 \<le> M" using assms(1) by (simp add: credit_bound_def)
  show "0 \<le> of_nat n * (2 * grain M)" using grain_nonneg [OF assms(1)] by simp
  have "of_nat n * grain M \<le> 2 ^ 50 * grain M"
    using n grain_nonneg [OF assms(1)] by (intro mult_right_mono)
  also have "\<dots> = M / 4" by (simp add: grain_def)
  finally show "of_nat n * grain M \<le> M / 4" "of_nat n * (2 * grain M) \<le> M / 2" by simp_all
qed

lemma reserved_step:
  assumes "reserved_near M n s" and "n < 2 ^ 50" and "light_op M op s"
  shows "reserved_near M (Suc n) (meter_step op s)"
proof -
  have b: "credit_bound M" using assms(1) by (simp add: reserved_near_def)
  have M: "0 \<le> M" using b by (simp add: credit_bound_def)
  note small = drift_small [OF b less_imp_le [OF assms(2)]]
  have ok: "list_all flight_ok (sy_flights s)" using assms(1) by (simp add: reserved_near_def service_near_def)
  have before: "in_flight s \<le> M" and after: "in_flight (meter_step op s) \<le> M" and fin: "finite_op op"
    using assms(3) by (simp_all add: light_op_def)
  have ready: "service_ready M (of_nat n * grain M) s" "keys_ready M (of_nat n * (2 * grain M)) s"
    using assms(1) b small M in_flight_bounds [OF ok] before ok
    by (auto simp: reserved_near_def service_ready_def keys_ready_def intro: order_trans)
  have flights: "list_all flight_ok (sy_flights (meter_step op s))"
    by (rule step_flights [OF ready(1) fin])
  have "service_near (of_nat n * grain M + grain M) (meter_step op s)"
    using in_flight_bounds(1) [OF flights] after by (intro service_step [OF ready(1) fin]) simp
  moreover have "keys_near (of_nat n * (2 * grain M) + 2 * grain M) (meter_step op s)"
    by (rule keys_step [OF ready(2) assms(3) flights])
  ultimately show ?thesis using b by (simp add: reserved_near_def algebra_simps)
qed

interpretation reservations: counted_machine meter_step "light_op M" "2 ^ 50" "reserved_near M" for M
  by unfold_locales (rule reserved_step)

text \<open>A meter as \<open>load\<close> builds it: nothing is reserved.\<close>

definition fresh_system :: "meter_sys \<Rightarrow> bool" where
  "fresh_system s \<longleftrightarrow> sy_flights s = [] \<and> svc (sy_meter s) = Fin 0
     \<and> (\<forall>i r. kres (sy_meter s) i = Some r \<longrightarrow> r = Fin 0)"

lemma fresh_reserved: "fresh_system s \<Longrightarrow> credit_bound M \<Longrightarrow> reserved_near M 0 s"
proof -
  assume "fresh_system s" and b: "credit_bound M"
  then have f: "sy_flights s = []" "svc (sy_meter s) = Fin 0" "\<And>i r. kres (sy_meter s) i = Some r \<Longrightarrow> r = Fin 0"
    unfolding fresh_system_def by blast+
  have "keys_near 0 s" unfolding keys_near_def covered_def using f(1,3) by fastforce
  then show ?thesis using f(1,2) b by (simp add: reserved_near_def service_near_def tracks_def)
qed

text \<open>C6: Under any interleaving of reserving, extending, settling and dropping by concurrent requests
  with configuration changes, daily resets and usage resets, the credits the service has reserved are
  what the requests in flight still hold, and a key never has more reserved than the requests on that
  key hold, both up to the rounding of the sums: if the requests in flight never hold more than \<open>M\<close>
  credits together, \<open>n\<close> atomic blocks (at most \<open>2^50\<close>) shift the one by at most \<open>n * M / 2^52\<close>
  and the other by at most \<open>n * M / 2^51\<close>. No credit leaks and none is given back twice.\<close>

theorem reservations_accounted:
  assumes "fresh_system s0" and "1 \<le> M" and "M \<le> 2 ^ 900"
    and "allowed_run (light_op M) meter_step ops s0" and "length ops \<le> 2 ^ 50" and "s = fold meter_step ops s0"
  shows "(\<exists>r. sc_reserved (mt_service (sy_meter s)) = Fin r \<and> 0 \<le> r
      \<and> \<bar>r - sum_of service_held (sy_flights s)\<bar> \<le> of_nat (length ops) * (M / 2 ^ 52))
    \<and> (\<forall>i state. hm_get (mt_keys (sy_meter s)) i = Some state \<longrightarrow>
        (\<exists>r. ks_reserved state = Fin r \<and> 0 \<le> r
          \<and> r \<le> sum_of (key_held i) (sy_flights s) + of_nat (length ops) * (M / 2 ^ 51)))"
proof -
  have "reserved_near M 0 s0" using assms(1-3) by (intro fresh_reserved) (simp_all add: credit_bound_def)
  then have near: "reserved_near M (length ops) s"
    using reservations.counted_run [OF _ assms(4)] assms(5,6) by fastforce
  have g: "2 * grain M = M / 2 ^ 51" by (simp add: grain_def)
  from near have "tracks (of_nat (length ops) * (M / 2 ^ 52)) (svc (sy_meter s)) (service_total s)"
    by (simp add: reserved_near_def service_near_def grain_def)
  moreover from near have "covered (of_nat (length ops) * (M / 2 ^ 51)) (ks_reserved state) (key_total i s)"
    if "hm_get (mt_keys (sy_meter s)) i = Some state" for i state
    unfolding g [symmetric] using that by (auto simp: reserved_near_def keys_near_def kres_def)
  ultimately show ?thesis using tracksD coveredD unfolding svc_def by blast
qed

definition demo_config :: "string \<Rightarrow> api_key_config" where
  "demo_config key = \<lparr>ck_id = Some ''k'', ck_name = ''demo'', ck_key = key, ck_format = Sk, ck_enabled = True,
     ck_skip_user_agent_check = False, ck_credits_limit = Some (Fin 5), ck_allowed_providers = [],
     ck_allowed_models = []\<rparr>"

definition demo_system :: meter_sys where
  "demo_system = \<lparr>sy_meter = \<lparr>mt_keys = collect_keys (\<lambda>_. []) (\<lambda>_. usage_default) [demo_config ''secret''],
     mt_service = \<lparr>sc_day = utc_day 0, sc_used = Fin 0, sc_reserved = Fin 0, sc_limit = Fin 10\<rparr>,
     mt_recovery_error = None, mt_disk = None\<rparr>, sy_flights = []\<rparr>"

lemma demo_system_fields:
  "sy_flights demo_system = []" "mt_recovery_error (sy_meter demo_system) = None"
  "mt_keys (sy_meter demo_system) = [(''k'', fresh_key ''k'' (demo_config ''secret'') usage_default (Fin 0))]"
  "mt_service (sy_meter demo_system)
     = \<lparr>sc_day = utc_day 0, sc_used = Fin 0, sc_reserved = Fin 0, sc_limit = Fin 10\<rparr>"
  by (simp_all add: demo_system_def collect_keys_def config_id_def demo_config_def)

lemma demo_system_fresh: "fresh_system demo_system"
  by (auto simp: fresh_system_def demo_system_fields svc_def kres_def fresh_key_def split: if_splits)

theorem reservations_accounted_witness:
  "\<exists>r. sc_reserved (mt_service (sy_meter (fold meter_step
      [BeginReserve 0 (Some ''k'') (Fin 3), FinishReserve (Some ''k'') (Fin 3)] demo_system))) = Fin r
    \<and> \<bar>r - 3\<bar> \<le> 2 * (10 / 2 ^ 52)"
proof -
  let ?ops = "[BeginReserve 0 (Some ''k'') (Fin 3), FinishReserve (Some ''k'') (Fin 3)]"
  note run = demo_system_fields hold_service_def hold_key_def over_limit_def reset_service_day_if_needed_def
    fresh_key_def demo_config_def usage_default_def advance_def
  have "allowed_run (light_op 10) meter_step ?ops demo_system"
    by (simp add: light_op_def in_flight_def run Let_def)
  moreover have "sy_flights (fold meter_step ?ops demo_system) = [Held (Some ''k'') (Fin 3)]"
    by (simp add: run Let_def)
  ultimately show ?thesis
    using reservations_accounted [OF demo_system_fresh, of 10 ?ops "fold meter_step ?ops demo_system"]
    by (auto simp del: meter_step.simps fold_simps)
qed

end
