(* ===== verification/MeterBudget.thy ===== *)
theory MeterBudget
  imports MeterCorrect
begin

text \<open>
  The limits the meter enforces: the service's daily credit limit and the credit limit of a key hold
  at every moment up to the rounding of the sums, as long as no request settles for more than it
  reserved; and who is let in.
\<close>

section \<open>The daily limit\<close>

definition used :: "meter \<Rightarrow> f64" where
  "used m = sc_used (mt_service m)"

definition daily :: "meter \<Rightarrow> f64" where
  "daily m = sc_limit (mt_service m)"

text \<open>
  With a limit \<open>L\<close> no total exceeds \<open>2 L\<close>, so a grain is \<open>L / 2^51\<close>. What is used and
  what is held exceed the limit by at most one grain for every step.
\<close>

definition within_daily :: "rat \<Rightarrow> nat \<Rightarrow> meter_sys \<Rightarrow> bool" where
  "within_daily limit n s \<longleftrightarrow> 1 \<le> limit \<and> limit \<le> 2 ^ 800 \<and> daily (sy_meter s) = Fin limit
     \<and> service_near (of_nat n * grain (2 * limit)) s \<and> amount_ok (used (sy_meter s))
     \<and> rat_of (used (sy_meter s)) + service_total s \<le> limit + of_nat n * grain (2 * limit)"

text \<open>No request settles for more than it reserved, and the limit stays.\<close>

fun honest :: "rat \<Rightarrow> meter_op \<Rightarrow> bool" where
  "honest limit (BeginSettle _ _ a rec) \<longleftrightarrow> f_le (f_max (ur_credits rec) (Fin 0)) a"
| "honest limit (SetLimit l) \<longleftrightarrow> f_max l (Fin 0) = Fin limit"
| "honest limit op \<longleftrightarrow> finite_op op"

lemma reset_day_used: "sc_used (reset_service_day_if_needed now sv) \<in> {sc_used sv, Fin 0}"
  by (simp add: reset_service_day_if_needed_def Let_def)

text \<open>A check of a rounded sum against the limit, read as one of the exact sum.\<close>

lemma limit_check:
  assumes "1 \<le> limit" and "\<not> f_gt (f_add (f_add (Fin u) (Fin r)) (Fin a)) (Fin limit)" and "0 \<le> a" and "0 \<le> u" and "0 \<le> r"
  shows "u + r + a \<le> limit + grain (2 * limit)"
proof -
  obtain y where y: "f_round (u + r) = Fin y"
    using assms(2) f_round_nonneg_or_inf [of "u + r"] assms(4,5) by auto
  have "0 \<le> y" using f_round_nonneg [OF y] assms(4,5) by simp
  obtain z where z: "f_round (y + a) = Fin z" "z \<le> limit"
    using assms(2,3) y \<open>0 \<le> y\<close> f_round_nonneg_or_inf [of "y + a"] by auto
  have "0 \<le> z" using f_round_nonneg [OF z(1)] assms(3) \<open>0 \<le> y\<close> by simp
  have "\<bar>z - (y + a)\<bar> \<le> limit / 2 ^ 53"
    using f_round_back [OF z(1)] z(2) assms(1) \<open>0 \<le> z\<close> by simp
  moreover have "limit / 2 ^ 53 \<le> limit" using assms(1) by (simp add: divide_le_eq)
  ultimately have "y \<le> 2 * limit" using z(2) assms(1,3) by linarith
  then have "\<bar>y - (u + r)\<bar> \<le> 2 * limit / 2 ^ 53"
    using \<open>0 \<le> y\<close> assms(1) by (intro f_round_back [OF y]) simp_all
  moreover have "grain (2 * limit) = 4 * (limit / 2 ^ 53)" "2 * limit / 2 ^ 53 = 2 * (limit / 2 ^ 53)"
    by (simp_all add: grain_def)
  moreover have "0 \<le> limit / 2 ^ 53" using assms(1) by simp
  ultimately show ?thesis
    using \<open>\<bar>z - (y + a)\<bar> \<le> limit / 2 ^ 53\<close> z(2) by linarith
qed

lemma hold_service_daily:
  assumes "hold_service now a m = (r, m')" and "daily m = Fin limit" and "1 \<le> limit"
    and "amount_ok (used m)" and "amount_ok (svc m)" and "amount_ok a"
  shows "daily m' = daily m" "amount_ok (used m')" "rat_of (used m') \<le> rat_of (used m)"
    "r = None \<Longrightarrow> rat_of (used m') + rat_of (svc m) + rat_of a \<le> limit + grain (2 * limit)"
proof -
  let ?sv = "reset_service_day_if_needed now (mt_service m)"
  have m': "used m' = sc_used ?sv" "daily m' = daily m"
    using assms(1) by (auto simp: hold_service_def used_def daily_def Let_def split: if_splits)
  have u: "sc_used ?sv \<in> {used m, Fin 0}" using reset_day_used by (simp add: used_def)
  show "daily m' = daily m" by (rule m'(2))
  show ok: "amount_ok (used m')" using m'(1) u assms(4) by auto
  show "rat_of (used m') \<le> rat_of (used m)" using m'(1) u assms(4) by (auto elim!: amount_ok_cases)
  obtain x y z where xyz: "sc_used ?sv = Fin x" "svc m = Fin y" "a = Fin z" "0 \<le> x" "0 \<le> y" "0 \<le> z"
    using ok assms(5,6) m'(1) by (auto elim!: amount_ok_cases)
  show "rat_of (used m') + rat_of (svc m) + rat_of a \<le> limit + grain (2 * limit)" if "r = None"
  proof -
    have "\<not> f_gt (f_add (f_add (Fin x) (Fin y)) (Fin z)) (Fin limit)"
      using that assms(1,2,3) xyz
      by (auto simp: hold_service_def daily_def svc_def Let_def simp del: f_add.simps split: if_splits)
    from limit_check [OF assms(3) this xyz(6,4,5)] show ?thesis using m'(1) xyz by simp
  qed
qed

lemma key_blocks_daily [simp]:
  "used (snd (hold_key key a m)) = used m" "daily (snd (hold_key key a m)) = daily m"
  "used (snd (settle_key key a rec m)) = used m" "daily (snd (settle_key key a rec m)) = daily m"
  "used (drop_key key a m) = used m" "daily (drop_key key a m) = daily m"
  "used (release_service a m) = used m" "daily (release_service a m) = daily m"
  "used (replace_configs sha cs m) = used m" "daily (replace_configs sha cs m) = daily m"
  "used (snd (persist io m)) = used m" "daily (snd (persist io m)) = daily m"
  by (auto simp: used_def daily_def hold_key_def settle_key_def drop_key_def release_service_def
      replace_configs_def Let_def split: option.split)

lemma reset_usage_daily [simp]:
  "used (snd (reset_usage io name m)) = used m" "daily (snd (reset_usage io name m)) = daily m"
  by (simp_all add: reset_usage_snd split: option.split) (simp_all add: used_def daily_def)

lemma within_daily_facts:
  assumes "within_daily limit n s" and "n \<le> 2 ^ 49"
  shows "1 \<le> limit" "credit_bound (2 * limit)" "daily (sy_meter s) = Fin limit" "amount_ok (used (sy_meter s))"
    "0 \<le> grain (2 * limit)" "of_nat n * grain (2 * limit) \<le> limit / 4"
    "tracks (of_nat n * grain (2 * limit)) (svc (sy_meter s)) (service_total s)"
    "rat_of (used (sy_meter s)) + service_total s \<le> limit + of_nat n * grain (2 * limit)"
    "service_ready (2 * limit) (of_nat n * grain (2 * limit)) s"
proof -
  show l: "1 \<le> limit" using assms(1) by (simp add: within_daily_def)
  have "(2::rat) * 2 ^ 800 \<le> 2 ^ 900" by simp
  then show b: "credit_bound (2 * limit)"
    using assms(1) unfolding credit_bound_def within_daily_def by linarith
  show g: "0 \<le> grain (2 * limit)" by (rule grain_nonneg [OF b])
  have "(of_nat n :: rat) \<le> 2 ^ 49" using assms(2) of_nat_le_iff [of n "2 ^ 49", where ?'a = rat] by simp
  then have "of_nat n * grain (2 * limit) \<le> 2 ^ 49 * grain (2 * limit)" using g by (rule mult_right_mono)
  also have "\<dots> = limit / 4" by (simp add: grain_def)
  finally show small: "of_nat n * grain (2 * limit) \<le> limit / 4" .
  show "daily (sy_meter s) = Fin limit" "amount_ok (used (sy_meter s))"
    "tracks (of_nat n * grain (2 * limit)) (svc (sy_meter s)) (service_total s)"
    "rat_of (used (sy_meter s)) + service_total s \<le> limit + of_nat n * grain (2 * limit)"
    using assms(1) by (simp_all add: within_daily_def service_near_def)
  then have "service_total s \<le> 2 * limit" using small l by (auto elim!: amount_ok_cases)
  then show "service_ready (2 * limit) (of_nat n * grain (2 * limit)) s"
    using assms(1) b small l by (simp add: within_daily_def service_ready_def)
qed

text \<open>A step keeps the limit when what is used and held stays within one more grain.\<close>

lemma within_dailyI:
  assumes "within_daily limit n s" and "n < 2 ^ 49" and "finite_op op"
    and "daily (sy_meter (meter_step op s)) = daily (sy_meter s)" and "amount_ok (used (sy_meter (meter_step op s)))"
    and "rat_of (used (sy_meter (meter_step op s))) + service_total (meter_step op s)
      \<le> limit + of_nat (Suc n) * grain (2 * limit)"
  shows "within_daily limit (Suc n) (meter_step op s)"
proof -
  note w = within_daily_facts [OF assms(1) less_imp_le [OF assms(2)]]
  have "grain (2 * limit) \<le> limit" using w(1) by (simp add: grain_def divide_le_eq)
  then have "limit + of_nat (Suc n) * grain (2 * limit) \<le> 2 * limit + limit / 4"
    using w(6) by (simp add: algebra_simps)
  moreover have "0 \<le> rat_of (used (sy_meter (meter_step op s)))" using assms(5) by (auto elim!: amount_ok_cases)
  moreover have "service_total (meter_step op s) \<le> 2 * limit"
  proof -
    have "of_nat (Suc n) * grain (2 * limit) \<le> 2 ^ 49 * grain (2 * limit)"
      using assms(2) w(5) of_nat_le_iff [of "Suc n" "2 ^ 49", where ?'a = rat] by (intro mult_right_mono) simp_all
    also have "\<dots> = limit / 4" by (simp add: grain_def)
    finally show ?thesis using assms(6) w(1) \<open>0 \<le> rat_of (used (sy_meter (meter_step op s)))\<close> by linarith
  qed
  ultimately have "service_near (of_nat n * grain (2 * limit) + grain (2 * limit)) (meter_step op s)"
    by (intro service_step [OF w(9) assms(3)])
  then have "service_near (of_nat (Suc n) * grain (2 * limit)) (meter_step op s)" by (simp add: algebra_simps)
  then show ?thesis using assms w(3) by (simp add: within_daily_def)
qed

text \<open>In particular when they do not grow.\<close>

lemma within_daily_kept:
  assumes "within_daily limit n s" and "n < 2 ^ 49" and "finite_op op"
    and "daily (sy_meter (meter_step op s)) = daily (sy_meter s)" and "amount_ok (used (sy_meter (meter_step op s)))"
    and "rat_of (used (sy_meter (meter_step op s))) + service_total (meter_step op s)
      \<le> rat_of (used (sy_meter s)) + service_total s + grain (2 * limit)"
  shows "within_daily limit (Suc n) (meter_step op s)"
  using assms within_daily_facts(8) [OF assms(1) less_imp_le [OF assms(2)]]
  by (intro within_dailyI [OF assms(1-5)]) (simp add: algebra_simps)

lemma begin_reserve_daily:
  assumes "within_daily limit n s" and "n < 2 ^ 49" and "e \<noteq> PosInf"
  shows "within_daily limit (Suc n) (meter_step (BeginReserve now key e) s)"
proof (cases "mt_recovery_error (sy_meter s)")
  case None
  note w = within_daily_facts [OF assms(1) less_imp_le [OF assms(2)]]
  let ?a = "f_max e (Fin 0)"
  have a: "amount_ok ?a" using assms(3) by (rule amount_ok_max)
  have v: "amount_ok (svc (sy_meter s))" "\<bar>rat_of (svc (sy_meter s)) - service_total s\<bar> \<le> of_nat n * grain (2 * limit)"
    using w(7) by (simp_all add: tracks_def)
  obtain r m where Pair: "hold_service now ?a (sy_meter s) = (r, m)" by force
  note d = hold_service_daily [OF Pair w(3,1,4) v(1) a]
  show ?thesis
  proof (cases r)
    case (Some err)
    then show ?thesis
      using None Pair d w(5) assms(3) by (intro within_daily_kept [OF assms(1,2)]) simp_all
  next
    case None': None
    then show ?thesis
      using None Pair d(1,2) d(4) v(2) assms(3)
      by (intro within_dailyI [OF assms(1,2)]) (simp_all add: algebra_simps abs_le_iff)
  qed
next
  case (Some err)
  then show ?thesis
    using assms(3) within_daily_facts [OF assms(1) less_imp_le [OF assms(2)]]
    by (intro within_daily_kept [OF assms(1,2)]) simp_all
qed

lemma begin_extend_daily:
  assumes "within_daily limit n s" and "n < 2 ^ 49" and "e \<noteq> PosInf"
  shows "within_daily limit (Suc n) (meter_step (BeginExtend now key b e) s)"
proof (cases "Held key b \<notin> set (sy_flights s) \<or> f_max e (Fin 0) = Fin 0")
  case False
  note w = within_daily_facts [OF assms(1) less_imp_le [OF assms(2)]]
  let ?a = "f_max e (Fin 0)"
  have a: "amount_ok ?a" using assms(3) by (rule amount_ok_max)
  have v: "amount_ok (svc (sy_meter s))" "\<bar>rat_of (svc (sy_meter s)) - service_total s\<bar> \<le> of_nat n * grain (2 * limit)"
    using w(7) by (simp_all add: tracks_def)
  obtain r m where Pair: "hold_service now ?a (sy_meter s) = (r, m)" by force
  note d = hold_service_daily [OF Pair w(3,1,4) v(1) a]
  show ?thesis
  proof (cases r)
    case (Some err)
    then show ?thesis
      using False Pair d w(5) assms(3) by (intro within_daily_kept [OF assms(1,2)]) simp_all
  next
    case None
    then show ?thesis
      using False Pair d(1,2) d(4) v(2) assms(3)
      by (intro within_dailyI [OF assms(1,2)]) (simp_all add: sum_advance algebra_simps abs_le_iff)
  qed
next
  case True
  then have "meter_step (BeginExtend now key b e) s = s" by auto
  then show ?thesis
    using assms(3) within_daily_facts [OF assms(1) less_imp_le [OF assms(2)]]
    by (intro within_daily_kept [OF assms(1,2)]) (simp_all del: meter_step.simps)
qed

lemma begin_settle_daily:
  assumes "within_daily limit n s" and "n < 2 ^ 49" and "f_le (f_max (ur_credits rec) (Fin 0)) a"
  shows "within_daily limit (Suc n) (meter_step (BeginSettle now key a rec) s)"
proof (cases "Held key a \<in> set (sy_flights s)")
  case True
  note w = within_daily_facts [OF assms(1) less_imp_le [OF assms(2)]]
  let ?m = "snd (settle_service now a rec (sy_meter s))"
  let ?c = "f_max (ur_credits rec) (Fin 0)"
  let ?u = "sc_used (reset_service_day_if_needed now (mt_service (sy_meter s)))"
  note fl = service_near_flight [OF service_readyD(1) [OF w(9)] True]
  have a: "amount_ok a" "rat_of a \<le> service_total s" using fl by simp_all
  then have c: "amount_ok ?c" "rat_of ?c \<le> rat_of a"
    using assms(3) by (cases "ur_credits rec"; auto simp: f_max_def elim!: amount_ok_cases)+
  have u: "amount_ok ?u" "rat_of ?u \<le> rat_of (used (sy_meter s))"
    using reset_day_used [of now "mt_service (sy_meter s)"] w(4) by (auto simp: used_def elim!: amount_ok_cases)
  have "rat_of ?u + rat_of ?c \<le> 2 * (2 * limit)" using u(2) c(2) a(2) w(1,6,8) by linarith
  from sum_near [OF w(2) u(1) c(1) this]
  have s: "amount_ok (f_add ?u ?c)" "rat_of (f_add ?u ?c) \<le> rat_of ?u + rat_of ?c + grain (2 * limit)"
    by (auto simp: abs_le_iff)
  have "used ?m = f_add ?u ?c" "daily ?m = daily (sy_meter s)"
    by (simp_all add: used_def daily_def settle_service_def Let_def)
  then show ?thesis
    using True s u(2) c(2) by (intro within_daily_kept [OF assms(1,2)]) (simp_all add: sum_advance)
next
  case False
  then show ?thesis
    using within_daily_facts [OF assms(1) less_imp_le [OF assms(2)]]
    by (intro within_daily_kept [OF assms(1,2)]) simp_all
qed

text \<open>A key block never changes the service's figures; it adds at most the rounding of an extended
  reservation to what is held.\<close>

lemma finish_daily:
  assumes "within_daily limit n s" and "n < 2 ^ 49" and "op \<in> {FinishReserve key a, FinishExtend key a b,
    FinishSettle key a rec, BeginDrop key a, FinishDrop key a}"
  shows "within_daily limit (Suc n) (meter_step op s)"
proof -
  note w = within_daily_facts [OF assms(1) less_imp_le [OF assms(2)]]
  note ready = service_readyD [OF w(9)]
  have hk: "used m = used (sy_meter s)" "daily m = daily (sy_meter s)"
    if "hold_key key x (sy_meter s) = (r, m)" for key x r m
    using that key_blocks_daily(1,2) [of key x "sy_meter s"] by simp_all
  have ex: "0 \<le> rat_of a" "0 \<le> rat_of b" "rat_of (f_add a b) \<le> rat_of a + rat_of b + grain (2 * limit)"
    if "Extending key a b \<in> set (sy_flights s)"
  proof -
    have ok: "amount_ok a" "amount_ok b" using service_near_flight(1) [OF ready(1) that] by simp_all
    then show nn: "0 \<le> rat_of a" "0 \<le> rat_of b" by (auto elim!: amount_ok_cases)
    have "rat_of a + rat_of b \<le> 2 * (2 * limit)" using service_near_flight(2) [OF ready(1) that] ready(4) w(1) by simp
    from sum_near [OF w(2) ok this] show "rat_of (f_add a b) \<le> rat_of a + rat_of b + grain (2 * limit)"
      by (auto simp: abs_le_iff)
  qed
  have nr: "0 \<le> rat_of a" if "f \<in> set (sy_flights s)" "f = Reserving key a \<or> f = Held key a" for f
    using service_near_flight(1) [OF ready(1) that(1)] that(2) by (auto elim!: amount_ok_cases)
  have used: "used (sy_meter (meter_step op s)) = used (sy_meter s)"
    "daily (sy_meter (meter_step op s)) = daily (sy_meter s)"
    using assms(3) hk by (auto split: prod.splits option.splits)
  have "service_total (meter_step op s) \<le> service_total s + grain (2 * limit)"
    using assms(3) ex nr w(5) by (fastforce simp: sum_advance split: prod.splits option.splits)
  with used w(4) assms(3) show ?thesis
    by (intro within_daily_kept [OF assms(1,2)]) (auto simp del: meter_step.simps)
qed

lemma daily_step:
  assumes "within_daily limit n s" and "n < 2 ^ 49" and "honest limit op"
  shows "within_daily limit (Suc n) (meter_step op s)"
proof -
  note w = within_daily_facts [OF assms(1) less_imp_le [OF assms(2)]]
  have fin: "finite_op op" using assms(3) by (cases op) auto
  note kept = within_daily_kept [OF assms(1,2) fin]
  show ?thesis
  proof (cases op)
    case (SetLimit l)
    with assms(3) w show ?thesis by (intro kept) (simp_all add: set_daily_limit_def daily_def used_def)
  next
    case (ResetDaily now io)
    with w show ?thesis by (intro kept) (auto simp: used_def daily_def elim!: amount_ok_cases)
  next
    case (BeginReserve now key e)
    with assms show ?thesis by (simp add: begin_reserve_daily del: meter_step.simps)
  next
    case (BeginExtend now key a e)
    with assms show ?thesis by (simp add: begin_extend_daily del: meter_step.simps)
  next
    case (BeginSettle now key a rec)
    with assms show ?thesis by (simp add: begin_settle_daily del: meter_step.simps)
  next
    case (FinishReserve key a)
    with assms(1,2) show ?thesis by (auto intro!: finish_daily simp del: meter_step.simps)
  next
    case (FinishExtend key a b)
    with assms(1,2) show ?thesis by (auto intro!: finish_daily simp del: meter_step.simps)
  next
    case (FinishSettle key a rec)
    with assms(1,2) show ?thesis by (auto intro!: finish_daily simp del: meter_step.simps)
  next
    case (BeginDrop key a)
    with assms(1,2) show ?thesis by (auto intro!: finish_daily simp del: meter_step.simps)
  next
    case (FinishDrop key a)
    with assms(1,2) show ?thesis by (auto intro!: finish_daily simp del: meter_step.simps)
  next
    case (Persist io)
    with w show ?thesis by (intro kept) simp_all
  next
    case (ResetUsage io name)
    with w show ?thesis by (intro kept) simp_all
  next
    case (ReplaceConfigs sha cs)
    with w show ?thesis by (intro kept) simp_all
  qed
qed

interpretation daily_limit: counted_machine meter_step "\<lambda>op _. honest limit op" "2 ^ 49" "within_daily limit" for limit
  by unfold_locales (rule daily_step)

text \<open>C8: The service's daily credit limit holds at every moment, up to the rounding of the sums: if it
  is at least one credit, is not changed, and the usage the meter starts with is within it, then under
  any interleaving of concurrent requests the credits used today and the credits reserved together
  exceed it by at most one part in \<open>2^50\<close> for each of the (at most \<open>2^49\<close>) atomic blocks run, as
  long as no request settles for more than it reserved.\<close>

theorem daily_limit_holds:
  assumes "fresh_system s0" and "1 \<le> limit" and "limit \<le> 2 ^ 800" and "sc_limit (mt_service (sy_meter s0)) = Fin limit"
    and "sc_used (mt_service (sy_meter s0)) = Fin u0" and "0 \<le> u0" and "u0 \<le> limit"
    and "list_all (honest limit) ops" and "length ops \<le> 2 ^ 49" and "s = fold meter_step ops s0"
  shows "\<exists>u r. sc_used (mt_service (sy_meter s)) = Fin u \<and> sc_reserved (mt_service (sy_meter s)) = Fin r
    \<and> 0 \<le> u \<and> 0 \<le> r \<and> u + r \<le> limit + of_nat (length ops) * (limit / 2 ^ 50)"
proof -
  have f: "sy_flights s0 = []" "svc (sy_meter s0) = Fin 0" using assms(1) by (simp_all add: fresh_system_def)
  have "within_daily limit 0 s0"
    using assms(2-7) f by (simp add: within_daily_def daily_def used_def service_near_def tracks_def)
  then have w: "within_daily limit (length ops) s"
    using daily_limit.counted_run [of limit 0 s0 ops] assms(8,9) unfolding assms(10) by (simp add: allowed_run_all)
  note facts = within_daily_facts [OF w assms(9)]
  obtain r where r: "svc (sy_meter s) = Fin r" "0 \<le> r" "\<bar>r - service_total s\<bar> \<le> of_nat (length ops) * grain (2 * limit)"
    using tracksD [OF facts(7)] by auto
  obtain u where u: "used (sy_meter s) = Fin u" "0 \<le> u" using facts(4) by (auto elim!: amount_ok_cases)
  have "of_nat (length ops) * (limit / 2 ^ 50) = 2 * (of_nat (length ops) * grain (2 * limit))"
    by (simp add: grain_def)
  moreover have "u + service_total s \<le> limit + of_nat (length ops) * grain (2 * limit)" using facts(8) u(1) by simp
  ultimately have "u + r \<le> limit + of_nat (length ops) * (limit / 2 ^ 50)" using r(3) by linarith
  then show ?thesis using r u by (auto simp: used_def svc_def)
qed

theorem daily_limit_holds_witness:
  "\<exists>u r. sc_used (mt_service (sy_meter (fold meter_step [BeginReserve 0 (Some ''k'') (Fin 3)] demo_system))) = Fin u
    \<and> sc_reserved (mt_service (sy_meter (fold meter_step [BeginReserve 0 (Some ''k'') (Fin 3)] demo_system))) = Fin r
    \<and> 0 \<le> u \<and> 0 \<le> r \<and> u + r \<le> 10 + 10 / 2 ^ 50"
  using daily_limit_holds [OF demo_system_fresh, of 10 0 "[BeginReserve 0 (Some ''k'') (Fin 3)]"]
  by (simp add: demo_system_fields del: meter_step.simps)

section \<open>The limit of a key\<close>

text \<open>A key's reservation, the credits it used, and its limit.\<close>

definition kinfo :: "meter \<Rightarrow> string \<Rightarrow> (f64 \<times> f64 \<times> f64 option) option" where
  "kinfo m i = map_option (\<lambda>state. (ks_reserved state, ku_total_credits (ks_usage state),
     ck_credits_limit (ks_config state))) (hm_get (mt_keys m) i)"

fun honest_flight :: "string \<Rightarrow> flight \<Rightarrow> bool" where
  "honest_flight i (Settling k a rec) \<longleftrightarrow>
     k \<noteq> Some i \<or> amount_ok (ur_credits rec) \<and> rat_of (ur_credits rec) \<le> rat_of a"
| "honest_flight i _ \<longleftrightarrow> True"

fun flight_key :: "flight \<Rightarrow> string option" where
  "flight_key (Held k _) = k"
| "flight_key (Reserving k _) = k"
| "flight_key (Extending k _ _) = k"
| "flight_key (Settling k _ _) = k"
| "flight_key (Dropping k _) = k"

definition own_ok :: "string \<Rightarrow> flight \<Rightarrow> bool" where
  "own_ok i f \<longleftrightarrow> (flight_key f = Some i \<longrightarrow> flight_ok f) \<and> honest_flight i f"

text \<open>As for the service, with two roundings a step.\<close>

definition within_key :: "string \<Rightarrow> rat \<Rightarrow> nat \<Rightarrow> meter_sys \<Rightarrow> bool" where
  "within_key i limit n s \<longleftrightarrow> 1 \<le> limit \<and> limit \<le> 2 ^ 800 \<and> list_all (own_ok i) (sy_flights s)
     \<and> (\<exists>r c. kinfo (sy_meter s) i = Some (r, c, Some (Fin limit))
         \<and> tracks (of_nat n * (2 * grain (2 * limit))) r (key_total i s) \<and> amount_ok c
         \<and> rat_of c + key_total i s \<le> limit + of_nat n * (2 * grain (2 * limit)))"

text \<open>
  Settlements of the key stay within their reservation and configuration changes keep the key with
  its limit.
\<close>

fun honest_key :: "string \<Rightarrow> rat \<Rightarrow> meter_op \<Rightarrow> bool" where
  "honest_key i limit (BeginSettle _ k a rec) \<longleftrightarrow> honest_flight i (Settling k a rec)"
| "honest_key i limit (ReplaceConfigs sha configs) \<longleftrightarrow> distinct (map (config_id sha) configs)
     \<and> (\<exists>config \<in> set configs. config_id sha config = i \<and> ck_credits_limit config = Some (Fin limit))"
| "honest_key i limit op \<longleftrightarrow> finite_op op"

lemma same_keys_kinfo: "mt_keys m' = mt_keys m \<Longrightarrow> kinfo m' i = kinfo m i"
  by (simp add: kinfo_def)

lemma service_blocks_keys [simp]:
  "mt_keys (snd (hold_service now a m)) = mt_keys m" "mt_keys (release_service a m) = mt_keys m"
  "mt_keys (snd (settle_service now a rec m)) = mt_keys m" "mt_keys (set_daily_limit l m) = mt_keys m"
  by (simp_all add: hold_service_def release_service_def settle_service_def set_daily_limit_def Let_def)

lemma kinfo_insert:
  "kinfo (m\<lparr>mt_keys := hm_insert k st (mt_keys m)\<rparr>) i = (if k = i
     then Some (ks_reserved st, ku_total_credits (ks_usage st), ck_credits_limit (ks_config st))
     else kinfo m i)"
  by (auto simp: kinfo_def update_conv')

lemma hold_key_kinfo:
  assumes "hold_key key a m = (res, m')" and "kinfo m i = Some (r, c, l)"
  shows "kinfo m' i = (if res = None \<and> key = Some i then Some (f_add r a, c, l) else Some (r, c, l))"
    and "res = None \<Longrightarrow> key = Some i \<Longrightarrow> l = Some limit \<Longrightarrow> \<not> f_gt (f_add (f_add c r) a) limit"
proof -
  show "kinfo m' i = (if res = None \<and> key = Some i then Some (f_add r a, c, l) else Some (r, c, l))"
    using assms by (auto simp: hold_key_def kinfo_insert split: option.splits if_splits)
      (auto simp: kinfo_def)
  show "\<not> f_gt (f_add (f_add c r) a) limit" if "res = None" "key = Some i" "l = Some limit"
    using assms that by (auto simp: hold_key_def kinfo_def over_limit_def split: option.splits if_splits)
qed

lemma settle_key_kinfo:
  "kinfo m i = Some (r, c, l) \<Longrightarrow> kinfo (snd (settle_key key a rec m)) i
     = (if key = Some i then Some (freed r a, f_add c (ur_credits rec), l) else Some (r, c, l))"
  by (auto simp: settle_key_def kinfo_insert release_key_def freed_def Let_def split: option.splits)
    (auto simp: kinfo_def)

lemma drop_key_kinfo:
  "kinfo m i = Some (r, c, l) \<Longrightarrow> kinfo (drop_key key a m) i
     = (if key = Some i then Some (freed r a, c, l) else Some (r, c, l))"
  by (auto simp: drop_key_def kinfo_insert release_key_def freed_def split: option.splits)
    (auto simp: kinfo_def)

lemma update_first_at:
  "update_first P f m = Some m' \<Longrightarrow> hm_get m' i = hm_get m i \<or> hm_get m' i = map_option f (hm_get m i)"
  by (induction m arbitrary: m') (auto split: if_splits)

lemma reset_usage_kinfo:
  assumes "kinfo m i = Some (r, c, l)"
  shows "kinfo (snd (reset_usage io name m)) i \<in> {Some (r, c, l), Some (r, Fin 0, l)}"
  using assms update_first_at [of _ "\<lambda>state. state\<lparr>ks_usage := usage_default\<rparr>" "mt_keys m" _ i]
  by (fastforce simp: reset_usage_snd kinfo_def usage_default_def split: option.split)

lemma replace_keys_other:
  "i \<notin> set (map (config_id sha) configs) \<Longrightarrow> hm_get (replace_keys sha configs keys next) i = hm_get next i"
  by (induction configs arbitrary: keys "next") (auto simp: Let_def update_conv' split: prod.split)

lemma replace_keys_kept:
  assumes "distinct (map (config_id sha) configs)" and "config \<in> set configs"
    and "config_id sha config = i" and "hm_get keys i = Some state"
  shows "hm_get (replace_keys sha configs keys next) i
    = Some (fresh_key i config (ks_usage state) (ks_reserved state))"
  using assms
proof (induction configs arbitrary: keys "next")
  case (Cons c cs)
  show ?case
  proof (cases "config_id sha c = i")
    case True
    then have "i \<notin> set (map (config_id sha) cs)" "c = config"
      using Cons.prems(1,2,3) by (auto simp: image_iff)
    with True Cons.prems(4) show ?thesis by (simp add: Let_def replace_keys_other update_conv')
  next
    case False
    with Cons.prems have "config \<in> set cs" "hm_get (hm_remove (config_id sha c) keys) i = Some state"
      by (auto simp: delete_conv')
    with Cons.IH Cons.prems(1,3) show ?thesis by (auto simp: Let_def split: prod.split)
  qed
qed simp

lemma replace_configs_kinfo:
  assumes "honest_key i limit (ReplaceConfigs sha configs)" and "kinfo m i = Some (r, c, Some (Fin limit))"
  shows "kinfo (replace_configs sha configs m) i = kinfo m i"
proof -
  from assms(1) obtain config where "distinct (map (config_id sha) configs)" "config \<in> set configs"
    "config_id sha config = i" "ck_credits_limit config = Some (Fin limit)" by auto
  moreover from assms(2) obtain state where "hm_get (mt_keys m) i = Some state"
    by (auto simp: kinfo_def)
  ultimately show ?thesis
    using assms(2) by (auto simp: kinfo_def replace_configs_def replace_keys_kept fresh_key_def)
qed

lemma within_key_facts:
  assumes "within_key i limit n s" and "n \<le> 2 ^ 48"
  obtains r c where "1 \<le> limit" "credit_bound (2 * limit)" "0 \<le> grain (2 * limit)"
    "of_nat n * (2 * grain (2 * limit)) \<le> limit / 4" "list_all (own_ok i) (sy_flights s)"
    "kinfo (sy_meter s) i = Some (r, c, Some (Fin limit))"
    "tracks (of_nat n * (2 * grain (2 * limit))) r (key_total i s)" "amount_ok c"
    "rat_of c + key_total i s \<le> limit + of_nat n * (2 * grain (2 * limit))"
proof -
  have l: "1 \<le> limit" "limit \<le> 2 ^ 800" using assms(1) by (simp_all add: within_key_def)
  have "(2::rat) * 2 ^ 800 \<le> 2 ^ 900" by simp
  then have b: "credit_bound (2 * limit)" using l unfolding credit_bound_def by linarith
  have "(of_nat n :: rat) \<le> 2 ^ 48" using assms(2) of_nat_le_iff [of n "2 ^ 48", where ?'a = rat] by simp
  then have "of_nat n * (2 * grain (2 * limit)) \<le> 2 ^ 48 * (2 * grain (2 * limit))"
    using grain_nonneg [OF b] by (intro mult_right_mono) simp_all
  also have "\<dots> = limit / 4" by (simp add: grain_def)
  finally show ?thesis using assms(1) l b grain_nonneg [OF b] that unfolding within_key_def by blast
qed

lemma own_held: "own_ok i f \<Longrightarrow> 0 \<le> key_held i f"
  by (cases f) (auto simp: own_ok_def elim!: amount_ok_cases)

lemma own_flight:
  assumes "list_all (own_ok i) (sy_flights s)" and "f \<in> set (sy_flights s)"
  shows "own_ok i f" "key_held i f \<le> key_total i s"
  using assms held_le_total [OF assms(2), of "key_held i"] by (auto simp: list_all_iff own_held)

text \<open>A step that neither changes the key nor what is held of it.\<close>

definition keeps_key :: "string \<Rightarrow> meter_sys \<Rightarrow> meter_sys \<Rightarrow> bool" where
  "keeps_key i s s' \<longleftrightarrow> kinfo (sy_meter s') i = kinfo (sy_meter s) i \<and> key_total i s' = key_total i s
     \<and> (list_all (own_ok i) (sy_flights s) \<longrightarrow> list_all (own_ok i) (sy_flights s'))"

lemma keeps_key_within:
  assumes "within_key i limit n s" and "n < 2 ^ 48" and "keeps_key i s s'"
  shows "within_key i limit (Suc n) s'"
proof -
  from assms(1) obtain r c where w: "1 \<le> limit" "credit_bound (2 * limit)" "0 \<le> grain (2 * limit)"
    "list_all (own_ok i) (sy_flights s)" "kinfo (sy_meter s) i = Some (r, c, Some (Fin limit))"
    "tracks (of_nat n * (2 * grain (2 * limit))) r (key_total i s)" "amount_ok c"
    "rat_of c + key_total i s \<le> limit + of_nat n * (2 * grain (2 * limit))"
    by (rule within_key_facts) (use assms(2) in simp_all)
  let ?d = "of_nat (Suc n) * (2 * grain (2 * limit))"
  have d: "of_nat n * (2 * grain (2 * limit)) \<le> ?d" using w(3) by (simp add: algebra_simps)
  have "tracks ?d r (key_total i s)" by (rule tracks_loosen [OF w(6) d])
  moreover have "rat_of c + key_total i s \<le> limit + ?d" using w(8) d by linarith
  ultimately show ?thesis
    using assms(1,3) w unfolding within_key_def keeps_key_def by auto
qed

lemma keeps_key_refl: "keeps_key i s s"
  by (simp add: keeps_key_def)

lemma keeps_key_meter:
  "kinfo m i = kinfo (sy_meter s) i \<Longrightarrow> keeps_key i s (s\<lparr>sy_meter := m\<rparr>)"
  by (simp add: keeps_key_def)

lemma keeps_key_advance:
  assumes "kinfo m i = kinfo (sy_meter s) i" and "old \<in> set (sy_flights s)"
    and "sum_of (key_held i) new = key_held i old" and "own_ok i old \<Longrightarrow> list_all (own_ok i) new"
  shows "keeps_key i s (advance old new m s)"
proof -
  have "list_all (own_ok i) (sy_flights (advance old new m s))" if "list_all (own_ok i) (sy_flights s)"
    using assms(2,4) that own_flight(1) [OF that assms(2)] by (intro all_advance) simp_all
  then show ?thesis using assms by (simp add: keeps_key_def sum_advance)
qed

lemma hold_service_keys: "hold_service now x m = (r, m') \<Longrightarrow> kinfo m' i = kinfo m i"
  using service_blocks_keys(1) [of now x m] by (simp add: kinfo_def)

lemma begin_reserve_keeps:
  assumes "e \<noteq> PosInf"
  shows "keeps_key i s (meter_step (BeginReserve now key e) s)"
  using amount_ok_max [OF assms]
  by (auto simp: keeps_key_def own_ok_def hold_service_keys split: prod.split option.split)

lemma begin_extend_keeps:
  assumes "e \<noteq> PosInf"
  shows "keeps_key i s (meter_step (BeginExtend now key a e) s)"
  using amount_ok_max [OF assms]
  by (auto simp: own_ok_def hold_service_keys split: prod.split option.split
      intro!: keeps_key_refl keeps_key_meter keeps_key_advance)

lemma begin_settle_keeps:
  "honest_flight i (Settling key a rec) \<Longrightarrow> keeps_key i s (meter_step (BeginSettle now key a rec) s)"
  by (auto simp: own_ok_def kinfo_def intro!: keeps_key_refl keeps_key_advance)

lemma begin_drop_keeps: "keeps_key i s (meter_step (BeginDrop key a) s)"
  by (auto simp: own_ok_def kinfo_def intro!: keeps_key_refl keeps_key_advance)

text \<open>A key block that is granted: the check of the rounded sum bounds the exact one.\<close>

lemma key_grant:
  assumes "within_key i limit n s" and "n < 2 ^ 48" and "hold_key (Some i) a (sy_meter s) = (None, m)" and "amount_ok a"
  obtains r c where "kinfo m i = Some (r, c, Some (Fin limit))" "amount_ok c"
    "tracks (of_nat n * (2 * grain (2 * limit)) + grain (2 * limit)) r (key_total i s + rat_of a)"
    "rat_of c + key_total i s + rat_of a \<le> limit + of_nat n * (2 * grain (2 * limit)) + grain (2 * limit)"
proof -
  from assms(1) obtain q c where w: "1 \<le> limit" "credit_bound (2 * limit)" "0 \<le> grain (2 * limit)"
    "of_nat n * (2 * grain (2 * limit)) \<le> limit / 4" "list_all (own_ok i) (sy_flights s)"
    "kinfo (sy_meter s) i = Some (q, c, Some (Fin limit))"
    "tracks (of_nat n * (2 * grain (2 * limit))) q (key_total i s)" "amount_ok c"
    "rat_of c + key_total i s \<le> limit + of_nat n * (2 * grain (2 * limit))"
    by (rule within_key_facts) (use assms(2) in simp_all)
  note k = hold_key_kinfo [OF assms(3) w(6)]
  obtain x where x: "q = Fin x" "0 \<le> x" "\<bar>x - key_total i s\<bar> \<le> of_nat n * (2 * grain (2 * limit))"
    using tracksD [OF w(7)] by auto
  obtain y z where yz: "c = Fin y" "a = Fin z" "0 \<le> y" "0 \<le> z" using w(8) assms(4) by (auto elim!: amount_ok_cases)
  have "y + x + z \<le> limit + grain (2 * limit)"
    using k(2) [of "Fin limit"] x yz by (intro limit_check [OF w(1)]) (simp_all del: f_add.simps)
  then have sum: "rat_of c + key_total i s + rat_of a \<le> limit + of_nat n * (2 * grain (2 * limit)) + grain (2 * limit)"
    using x(3) yz by (simp add: abs_le_iff)
  have "grain (2 * limit) \<le> limit / 4" using w(1) by (simp add: grain_def divide_le_eq)
  then have "key_total i s + rat_of a \<le> 2 * limit" using sum w(1,4) yz by simp
  from tracks_add [OF w(2,7) assms(4) this] w(1,4)
  have "tracks (of_nat n * (2 * grain (2 * limit)) + grain (2 * limit)) (f_add q a) (key_total i s + rat_of a)" by simp
  then show ?thesis using that k(1) w(8) sum by simp
qed

lemma finish_reserve_key:
  assumes "within_key i limit n s" and "n < 2 ^ 48"
  shows "within_key i limit (Suc n) (meter_step (FinishReserve key a) s)"
proof (cases "Reserving key a \<in> set (sy_flights s)")
  case True
  have l: "1 \<le> limit" "limit \<le> 2 ^ 800" "list_all (own_ok i) (sy_flights s)"
    using assms(1) by (auto simp: within_key_def)
  have g: "0 \<le> grain (2 * limit)" using l by (simp add: grain_def)
  note own = own_flight [OF l(3) True]
  obtain res m where h: "hold_key key a (sy_meter s) = (res, m)" by force
  show ?thesis
  proof (cases "res = None \<and> key = Some i")
    case granted: True
    then have a: "amount_ok a" using own(1) by (simp add: own_ok_def)
    obtain r c where kg: "kinfo m i = Some (r, c, Some (Fin limit))" "amount_ok c"
      "tracks (of_nat n * (2 * grain (2 * limit)) + grain (2 * limit)) r (key_total i s + rat_of a)"
      "rat_of c + key_total i s + rat_of a \<le> limit + of_nat n * (2 * grain (2 * limit)) + grain (2 * limit)"
      by (rule key_grant [OF assms _ a]) (use h granted in auto)
    let ?s = "advance (Reserving key a) [Held key a] m s"
    have t: "key_total i ?s = key_total i s + rat_of a" using True granted by (simp add: sum_advance)
    have "list_all (own_ok i) (sy_flights ?s)" using l(3) a by (intro all_advance) (simp_all add: own_ok_def)
    moreover have "tracks (of_nat (Suc n) * (2 * grain (2 * limit))) r (key_total i ?s)"
      unfolding t by (rule tracks_loosen [OF kg(3)]) (use g in \<open>simp add: algebra_simps\<close>)
    moreover have "rat_of c + key_total i ?s \<le> limit + of_nat (Suc n) * (2 * grain (2 * limit))"
      unfolding t using kg(4) g by (simp add: algebra_simps)
    ultimately have "within_key i limit (Suc n) ?s" unfolding within_key_def using l kg(1,2) by auto
    then show ?thesis using True h granted by simp
  next
    case False
    then have "kinfo m i = kinfo (sy_meter s) i"
      using hold_key_kinfo(1) [OF h] assms(1) by (auto simp: within_key_def)
    then have "keeps_key i s (meter_step (FinishReserve key a) s)"
      using True h False by (auto simp: own_ok_def split: option.split intro!: keeps_key_advance)
    then show ?thesis by (rule keeps_key_within [OF assms])
  qed
qed (simp add: keeps_key_within [OF assms keeps_key_refl])

lemma finish_extend_key:
  assumes "within_key i limit n s" and "n < 2 ^ 48"
  shows "within_key i limit (Suc n) (meter_step (FinishExtend key b a) s)"
proof (cases "Extending key b a \<in> set (sy_flights s)")
  case True
  have l: "1 \<le> limit" "limit \<le> 2 ^ 800" "list_all (own_ok i) (sy_flights s)"
    using assms(1) by (auto simp: within_key_def)
  have bound: "credit_bound (2 * limit)" "of_nat n * (2 * grain (2 * limit)) \<le> limit / 4"
    using within_key_facts [OF assms(1)] assms(2) by (metis less_imp_le)+
  have g: "0 \<le> grain (2 * limit)" "grain (2 * limit) \<le> limit / 4" using l by (simp_all add: grain_def divide_le_eq)
  note own = own_flight [OF l(3) True]
  obtain res m where h: "hold_key key a (sy_meter s) = (res, m)" by force
  show ?thesis
  proof (cases "res = None \<and> key = Some i")
    case granted: True
    then have ok: "amount_ok b" "amount_ok a" using own(1) by (simp_all add: own_ok_def)
    obtain r c where kg: "kinfo m i = Some (r, c, Some (Fin limit))" "amount_ok c"
      "tracks (of_nat n * (2 * grain (2 * limit)) + grain (2 * limit)) r (key_total i s + rat_of a)"
      "rat_of c + key_total i s + rat_of a \<le> limit + of_nat n * (2 * grain (2 * limit)) + grain (2 * limit)"
      by (rule key_grant [OF assms _ ok(2)]) (use h granted in auto)
    have "0 \<le> rat_of c" "rat_of b \<le> key_total i s" using kg(2) own(2) granted by (auto elim!: amount_ok_cases)
    then have "rat_of b + rat_of a \<le> 2 * (2 * limit)" using kg(4) bound(2) g(2) l(1) by linarith
    from sum_near [OF bound(1) ok this]
    have sum: "amount_ok (f_add b a)" "\<bar>rat_of (f_add b a) - (rat_of b + rat_of a)\<bar> \<le> grain (2 * limit)" by simp_all
    let ?s = "advance (Extending key b a) [Held key (f_add b a)] m s"
    have t: "key_total i ?s = key_total i s + rat_of (f_add b a) - rat_of b" using True granted by (simp add: sum_advance)
    have "list_all (own_ok i) (sy_flights ?s)" using l(3) sum(1) by (intro all_advance) (simp_all add: own_ok_def)
    moreover have "tracks (of_nat (Suc n) * (2 * grain (2 * limit))) r (key_total i ?s)"
      using kg(3) sum(2) unfolding t tracks_def by (auto simp: abs_le_iff algebra_simps)
    moreover have "rat_of c + key_total i ?s \<le> limit + of_nat (Suc n) * (2 * grain (2 * limit))"
      using kg(4) sum(2) unfolding t by (simp add: abs_le_iff algebra_simps)
    ultimately have "within_key i limit (Suc n) ?s" unfolding within_key_def using l kg(1,2) by auto
    then show ?thesis using True h granted by simp
  next
    case False
    then have "kinfo m i = kinfo (sy_meter s) i"
      using hold_key_kinfo(1) [OF h] assms(1) by (auto simp: within_key_def)
    then have "keeps_key i s (meter_step (FinishExtend key b a) s)"
      using True h False by (auto simp: own_ok_def split: option.split intro!: keeps_key_advance)
    then show ?thesis by (rule keeps_key_within [OF assms])
  qed
qed (simp add: keeps_key_within [OF assms keeps_key_refl])

text \<open>The key blocks of settling and dropping.\<close>

lemma forget_key:
  assumes "within_key i limit n s" and "n < 2 ^ 48" and "f \<in> set (sy_flights s)"
    and "f \<in> {Settling key a rec, Dropping key a}"
    and "\<And>r c l. kinfo (sy_meter s) i = Some (r, c, l) \<Longrightarrow> kinfo m i =
      (if key = Some i then Some (freed r a, if f = Dropping key a then c else f_add c (ur_credits rec), l)
       else Some (r, c, l))"
  shows "within_key i limit (Suc n) (advance f [] m s)"
proof -
  from assms(1) obtain r c where w: "1 \<le> limit" "credit_bound (2 * limit)" "0 \<le> grain (2 * limit)"
    "of_nat n * (2 * grain (2 * limit)) \<le> limit / 4" "list_all (own_ok i) (sy_flights s)"
    "kinfo (sy_meter s) i = Some (r, c, Some (Fin limit))"
    "tracks (of_nat n * (2 * grain (2 * limit))) r (key_total i s)" "amount_ok c"
    "rat_of c + key_total i s \<le> limit + of_nat n * (2 * grain (2 * limit))"
    by (rule within_key_facts) (use assms(2) in simp_all)
  note own = own_flight [OF w(5) assms(3)]
  show ?thesis
  proof (cases "key = Some i")
    case True
    let ?s = "advance f [] m s" and ?d = "of_nat n * (2 * grain (2 * limit))"
    let ?c = "if f = Dropping key a then c else f_add c (ur_credits rec)"
    have a: "amount_ok a" "key_held i f = rat_of a" using own(1) assms(4) True by (auto simp: own_ok_def)
    have c0: "0 \<le> rat_of c" using w(8) by (auto elim!: amount_ok_cases)
    have t: "key_total i ?s = key_total i s - rat_of a" using assms(3) a(2) by (simp add: sum_advance)
    have le: "rat_of a \<le> key_total i s" "key_total i s \<le> 2 * limit" using own(2) a(2) w(1,4,9) c0 by linarith+
    have "tracks (?d + grain (2 * limit)) (freed r a) (key_total i s - rat_of a)"
      using le w(1,4) by (intro tracks_free [OF w(2,7) a(1)]) simp_all
    then have "tracks (of_nat (Suc n) * (2 * grain (2 * limit))) (freed r a) (key_total i ?s)"
      unfolding t by (rule tracks_loosen) (use w(3) in \<open>simp add: algebra_simps\<close>)
    moreover have "amount_ok ?c \<and> rat_of ?c \<le> rat_of c + rat_of a + grain (2 * limit)"
    proof (cases "f = Dropping key a")
      case False
      then have u: "amount_ok (ur_credits rec)" "rat_of (ur_credits rec) \<le> rat_of a"
        using own(1) assms(4) True by (auto simp: own_ok_def)
      have "rat_of c + rat_of (ur_credits rec) \<le> 2 * (2 * limit)" using u(2) le w(1,4,9) by linarith
      from sum_near [OF w(2,8) u(1) this] False u(2) show ?thesis by (auto simp: abs_le_iff)
    qed (use w(3,8) a in \<open>auto elim!: amount_ok_cases\<close>)
    moreover from this w(3,9) have "rat_of ?c + key_total i ?s \<le> limit + of_nat (Suc n) * (2 * grain (2 * limit))"
      unfolding t by (simp add: algebra_simps)
    moreover have "kinfo (sy_meter ?s) i = Some (freed r a, ?c, Some (Fin limit))"
      using assms(5) [OF w(6)] True by simp
    moreover have "list_all (own_ok i) (sy_flights ?s)" by (rule all_advance [OF w(5)]) simp
    ultimately show ?thesis using assms(1) unfolding within_key_def by blast
  next
    case False
    have "keeps_key i s (advance f [] m s)"
      using False assms(3,4) assms(5) [OF w(6)] w(6) by (intro keeps_key_advance) auto
    then show ?thesis by (rule keeps_key_within [OF assms(1,2)])
  qed
qed

lemma key_step:
  assumes "within_key i limit n s" and "n < 2 ^ 48" and "honest_key i limit op"
  shows "within_key i limit (Suc n) (meter_step op s)"
proof -
  obtain r c where k: "kinfo (sy_meter s) i = Some (r, c, Some (Fin limit))"
    using assms(1) by (auto simp: within_key_def)
  note kept = keeps_key_within [OF assms(1,2)]
  show ?thesis
  proof (cases op)
    case (BeginReserve now key e)
    then show ?thesis using kept begin_reserve_keeps assms(3) by (simp del: meter_step.simps)
  next
    case (BeginExtend now key a e)
    then show ?thesis using kept begin_extend_keeps assms(3) by (simp del: meter_step.simps)
  next
    case (BeginSettle now key a rec)
    then show ?thesis using kept begin_settle_keeps assms(3) by (simp del: meter_step.simps)
  next
    case (BeginDrop key a)
    then show ?thesis using kept begin_drop_keeps by (simp del: meter_step.simps)
  next
    case (FinishReserve key a)
    then show ?thesis using finish_reserve_key [OF assms(1,2)] by (simp del: meter_step.simps)
  next
    case (FinishExtend key a b)
    then show ?thesis using finish_extend_key [OF assms(1,2)] by (simp del: meter_step.simps)
  next
    case (FinishSettle key a rec)
    then show ?thesis
      using kept [OF keeps_key_refl] forget_key [OF assms(1,2), of "Settling key a rec"] settle_key_kinfo by auto
  next
    case (FinishDrop key a)
    then show ?thesis
      using kept [OF keeps_key_refl] forget_key [OF assms(1,2), of "Dropping key a"] drop_key_kinfo by auto
  next
    case (ResetUsage io name)
    have "within_key i limit n (meter_step op s)"
      using assms(1) reset_usage_kinfo [of "sy_meter s" i] ResetUsage unfolding within_key_def
      by (fastforce elim!: amount_ok_cases)
    then show ?thesis by (rule keeps_key_within [OF _ assms(2) keeps_key_refl])
  next
    case (ReplaceConfigs sha configs)
    then show ?thesis
      using replace_configs_kinfo [OF assms(3) [unfolded ReplaceConfigs] k] by (auto intro!: kept keeps_key_meter)
  qed (auto intro!: kept keeps_key_meter simp: kinfo_def)
qed

interpretation key_limit: counted_machine meter_step "\<lambda>op _. honest_key i limit op" "2 ^ 48" "within_key i limit"
  for i limit
  by unfold_locales (rule key_step)

text \<open>C31: The credit limit of an API key holds at every moment, up to the rounding of the sums: if it
  is at least one credit and the key starts within it, then under any interleaving of concurrent
  requests the credits the key has used and the credits reserved for it together exceed it by at most
  one part in \<open>2^49\<close> for each of the (at most \<open>2^48\<close>) atomic blocks run, as long as configuration
  changes keep the key and its limit and no request of the key settles for more than it reserved.\<close>

theorem key_limit_holds:
  assumes "fresh_system s0" and "hm_get (mt_keys (sy_meter s0)) i = Some state0"
    and "ck_credits_limit (ks_config state0) = Some (Fin limit)" and "1 \<le> limit" and "limit \<le> 2 ^ 800"
    and "ku_total_credits (ks_usage state0) = Fin c0" and "0 \<le> c0" and "c0 \<le> limit"
    and "list_all (honest_key i limit) ops" and "length ops \<le> 2 ^ 48" and "s = fold meter_step ops s0"
  shows "\<exists>state c r. hm_get (mt_keys (sy_meter s)) i = Some state \<and> ku_total_credits (ks_usage state) = Fin c
    \<and> ks_reserved state = Fin r \<and> 0 \<le> c \<and> 0 \<le> r \<and> c + r \<le> limit + of_nat (length ops) * (limit / 2 ^ 49)"
proof -
  have "sy_flights s0 = []" "ks_reserved state0 = Fin 0"
    using assms(1,2) unfolding fresh_system_def kres_def by auto
  then have "within_key i limit 0 s0"
    using assms(2-8) by (simp add: within_key_def kinfo_def tracks_def)
  then have "within_key i limit (length ops) s"
    using key_limit.counted_run [of i limit 0 s0 ops] assms(9,10) unfolding assms(11) by (simp add: allowed_run_all)
  then obtain r c where w: "kinfo (sy_meter s) i = Some (r, c, Some (Fin limit))"
    "tracks (of_nat (length ops) * (2 * grain (2 * limit))) r (key_total i s)" "amount_ok c"
    "rat_of c + key_total i s \<le> limit + of_nat (length ops) * (2 * grain (2 * limit))"
    by (rule within_key_facts) (use assms(10) in simp_all)
  obtain x where x: "r = Fin x" "0 \<le> x" "\<bar>x - key_total i s\<bar> \<le> of_nat (length ops) * (2 * grain (2 * limit))"
    using tracksD [OF w(2)] by auto
  obtain y where y: "c = Fin y" "0 \<le> y" using w(3) by (auto elim!: amount_ok_cases)
  have "of_nat (length ops) * (limit / 2 ^ 49) = 2 * (of_nat (length ops) * (2 * grain (2 * limit)))"
    by (simp add: grain_def)
  moreover have "y + key_total i s \<le> limit + of_nat (length ops) * (2 * grain (2 * limit))" using w(4) y(1) by simp
  ultimately have "y + x \<le> limit + of_nat (length ops) * (limit / 2 ^ 49)" using x(3) by linarith
  then show ?thesis using w(1) x y by (auto simp: kinfo_def)
qed

theorem key_limit_holds_witness:
  "\<exists>state c r. hm_get (mt_keys (sy_meter (fold meter_step
       [BeginReserve 0 (Some ''k'') (Fin 3), FinishReserve (Some ''k'') (Fin 3)] demo_system))) ''k'' = Some state
    \<and> ku_total_credits (ks_usage state) = Fin c \<and> ks_reserved state = Fin r \<and> 0 \<le> c \<and> 0 \<le> r
    \<and> c + r \<le> 5 + 2 * (5 / 2 ^ 49)"
  using key_limit_holds [OF demo_system_fresh, of "''k''"
        "fresh_key ''k'' (demo_config ''secret'') usage_default (Fin 0)" 5 0
        "[BeginReserve 0 (Some ''k'') (Fin 3), FinishReserve (Some ''k'') (Fin 3)]"]
  by (simp add: demo_system_fields fresh_key_def demo_config_def usage_default_def del: meter_step.simps)

section \<open>Authentication\<close>

text \<open>With no key configured everybody is let in without an identity. Otherwise a request is let in
  exactly when it presents the secret of an enabled key, and it gets the identity and the
  permissions of such a key.\<close>

theorem authenticate_exact:
  "(authenticate presented m = Inr None \<longleftrightarrow> mt_keys m = [])
   \<and> ((\<exists>au. authenticate presented m = Inr (Some au)) \<longleftrightarrow>
        (\<exists>state \<in> snd ` set (mt_keys m). ck_enabled (ks_config state) \<and> presented = Some (ck_key (ks_config state))))
   \<and> (\<forall>au. authenticate presented m = Inr (Some au) \<longrightarrow>
        (\<exists>state \<in> snd ` set (mt_keys m). ck_enabled (ks_config state) \<and> presented = Some (ck_key (ks_config state))
          \<and> au = \<lparr>au_id = ks_id state, au_skip_user_agent_check = ck_skip_user_agent_check (ks_config state),
                 au_allowed_providers = ck_allowed_providers (ks_config state),
                 au_allowed_models = ck_allowed_models (ks_config state)\<rparr>))"
proof (cases presented)
  case (Some key)
  let ?P = "\<lambda>state. ck_enabled (ks_config state) \<and> ck_key (ks_config state) = key"
  show ?thesis
  proof (cases "find ?P (map snd (mt_keys m))")
    case None
    then have "\<forall>state \<in> snd ` set (mt_keys m). \<not> ?P state" by (auto simp: find_None_iff)
    with Some None show ?thesis by (auto simp: authenticate_def constant_time_eq_iff)
  next
    case (Some state)
    then have "state \<in> snd ` set (mt_keys m)" "?P state" by (auto dest!: find_in)
    moreover from this(1) have "mt_keys m \<noteq> []" by auto
    ultimately show ?thesis
      using Some \<open>presented = Some key\<close> by (auto simp: authenticate_def constant_time_eq_iff)
  qed
qed (auto simp: authenticate_def)

theorem authenticate_exact_witness:
  "\<exists>au. authenticate (Some ''secret'') (sy_meter demo_system) = Inr (Some au)"
  using authenticate_exact [of "Some ''secret''" "sy_meter demo_system"]
  by (simp add: demo_system_fields fresh_key_def demo_config_def)

end
