(* ===== verification/MeterWriter.thy ===== *)
theory MeterWriter
  imports Meter "HOL-Library.Multiset"
begin

text \<open>
  The background writer of the meter (\<open>Meter::mark_dirty\<close> in
  \<open>crates/kproxyd/src/meter.rs\<close>). A request that changed the usage counts up
  \<open>dirty_generation\<close> and then tries to set \<open>persist_scheduled\<close>; who sets it spawns a
  writer task. Every atomic operation is one step, so requests and writers interleave in every way the
  hardware allows. A write covers everything counted up when its copy of the usage was taken, if it
  succeeds; a failed write is only logged. The generation is a \<open>u64\<close> that is compared for equality only;
  it is a natural number here, so a wrap of the whole counter between two reads is not modelled.
\<close>

section \<open>The steps\<close>

text \<open>
  Where a writer is: asleep, about to copy the usage with the generation it read, writing a copy that
  covers a second generation, after the write, after finding the generation unchanged, after clearing
  the flag, or about to take the flag again. Besides the atomics the state has the generation the file
  covers, the one the last attempt to write would have covered, and whether that attempt failed.
\<close>

datatype writer = Sleeping | Loaded nat | Writing nat nat | Saved nat | Unchanged nat | Cleared nat | Retry

record dirty =
  dt_generation :: nat
  dt_scheduled :: bool
  dt_marking :: nat
  dt_writers :: "writer multiset"
  dt_attempted :: nat
  dt_stored :: nat
  dt_failed :: bool

definition dirty_init :: dirty where
  "dirty_init = \<lparr>dt_generation = 0, dt_scheduled = False, dt_marking = 0, dt_writers = {#}, dt_attempted = 0,
     dt_stored = 0, dt_failed = False\<rparr>"

text \<open>A step of a writer, or the second half of \<open>mark_dirty\<close>.\<close>

inductive quiet_step :: "dirty \<Rightarrow> dirty \<Rightarrow> bool" where
  schedule: "dt_marking d = Suc n \<Longrightarrow> \<not> dt_scheduled d \<Longrightarrow> quiet_step d
     (d\<lparr>dt_marking := n, dt_scheduled := True, dt_writers := add_mset Sleeping (dt_writers d)\<rparr>)"
| scheduled: "dt_marking d = Suc n \<Longrightarrow> dt_scheduled d \<Longrightarrow> quiet_step d (d\<lparr>dt_marking := n\<rparr>)"
| wake_up: "dt_writers d = add_mset Sleeping ws \<Longrightarrow>
     quiet_step d (d\<lparr>dt_writers := add_mset (Loaded (dt_generation d)) ws\<rparr>)"
| copy: "dt_writers d = add_mset (Loaded g) ws \<Longrightarrow>
     quiet_step d (d\<lparr>dt_writers := add_mset (Writing g (dt_generation d)) ws\<rparr>)"
| store: "dt_writers d = add_mset (Writing g c) ws \<Longrightarrow>
     quiet_step d (d\<lparr>dt_writers := add_mset (Saved g) ws, dt_attempted := c, dt_stored := c, dt_failed := False\<rparr>)"
| store_failed: "dt_writers d = add_mset (Writing g c) ws \<Longrightarrow>
     quiet_step d (d\<lparr>dt_writers := add_mset (Saved g) ws, dt_attempted := c, dt_failed := True\<rparr>)"
| changed: "dt_writers d = add_mset (Saved g) ws \<Longrightarrow> dt_generation d \<noteq> g \<Longrightarrow>
     quiet_step d (d\<lparr>dt_writers := add_mset Sleeping ws\<rparr>)"
| unchanged: "dt_writers d = add_mset (Saved g) ws \<Longrightarrow> dt_generation d = g \<Longrightarrow>
     quiet_step d (d\<lparr>dt_writers := add_mset (Unchanged g) ws\<rparr>)"
| clear: "dt_writers d = add_mset (Unchanged g) ws \<Longrightarrow>
     quiet_step d (d\<lparr>dt_writers := add_mset (Cleared g) ws, dt_scheduled := False\<rparr>)"
| finish: "dt_writers d = add_mset (Cleared g) ws \<Longrightarrow> dt_generation d = g \<Longrightarrow>
     quiet_step d (d\<lparr>dt_writers := ws\<rparr>)"
| recheck: "dt_writers d = add_mset (Cleared g) ws \<Longrightarrow> dt_generation d \<noteq> g \<Longrightarrow>
     quiet_step d (d\<lparr>dt_writers := add_mset Retry ws\<rparr>)"
| retake: "dt_writers d = add_mset Retry ws \<Longrightarrow> \<not> dt_scheduled d \<Longrightarrow>
     quiet_step d (d\<lparr>dt_writers := add_mset Sleeping ws, dt_scheduled := True\<rparr>)"
| give_up: "dt_writers d = add_mset Retry ws \<Longrightarrow> dt_scheduled d \<Longrightarrow>
     quiet_step d (d\<lparr>dt_writers := ws\<rparr>)"

text \<open>The first half of \<open>mark_dirty\<close>, after the request changed the usage.\<close>

inductive dirty_step :: "dirty \<Rightarrow> dirty \<Rightarrow> bool" where
  mark: "dirty_step d (d\<lparr>dt_generation := Suc (dt_generation d), dt_marking := Suc (dt_marking d)\<rparr>)"
| quiet: "quiet_step d d' \<Longrightarrow> dirty_step d d'"

inductive dirty_reachable :: "dirty \<Rightarrow> bool" where
  init: "dirty_reachable dirty_init"
| step: "dirty_reachable d \<Longrightarrow> dirty_step d d' \<Longrightarrow> dirty_reachable d'"

section \<open>No change is forgotten\<close>

fun owner :: "writer \<Rightarrow> bool" where
  "owner (Cleared _) = False"
| "owner Retry = False"
| "owner _ = True"

definition owners :: "dirty \<Rightarrow> nat" where
  "owners d = size (filter_mset owner (dt_writers d))"

text \<open>
  Every writer holds a generation that was attempted, or may be: a copy is newer than the generation
  read before it and than the last attempt.
\<close>

fun writer_ok :: "nat \<Rightarrow> nat \<Rightarrow> writer \<Rightarrow> bool" where
  "writer_ok generation attempted (Loaded g) \<longleftrightarrow> g \<le> generation"
| "writer_ok generation attempted (Writing g c) \<longleftrightarrow> g \<le> c \<and> attempted \<le> c \<and> c \<le> generation"
| "writer_ok generation attempted (Saved g) \<longleftrightarrow> g \<le> attempted"
| "writer_ok generation attempted (Unchanged g) \<longleftrightarrow> g \<le> attempted"
| "writer_ok generation attempted (Cleared g) \<longleftrightarrow> g \<le> attempted"
| "writer_ok generation attempted _ \<longleftrightarrow> True"

lemma writer_ok_generation: "writer_ok n a w \<Longrightarrow> n \<le> n' \<Longrightarrow> writer_ok n' a w"
  by (cases w) auto

lemma writer_ok_attempted: "writer_ok n a w \<Longrightarrow> \<not> owner w \<Longrightarrow> a \<le> a' \<Longrightarrow> writer_ok n a' w"
  by (cases w) auto

text \<open>
  The flag is set exactly while one writer owns it, and while it is not set every unwritten change
  has somebody who will still look at it.
\<close>

definition watched :: "dirty \<Rightarrow> bool" where
  "watched d \<longleftrightarrow> dt_marking d > 0 \<or> Retry \<in># dt_writers d
     \<or> (\<exists>g. Cleared g \<in># dt_writers d \<and> g < dt_generation d)"

definition dirty_inv :: "dirty \<Rightarrow> bool" where
  "dirty_inv d \<longleftrightarrow> owners d = (if dt_scheduled d then 1 else 0) \<and> dt_attempted d \<le> dt_generation d
     \<and> (\<forall>w \<in># dt_writers d. writer_ok (dt_generation d) (dt_attempted d) w)
     \<and> (dt_attempted d < dt_generation d \<and> \<not> dt_scheduled d \<longrightarrow> watched d)
     \<and> dt_stored d \<le> dt_attempted d \<and> (\<not> dt_failed d \<longrightarrow> dt_stored d = dt_attempted d)"

text \<open>The end of a write: the writer that held the flag is the only one that writes.\<close>

lemma attempt_inv:
  assumes "dirty_inv d" and "dt_writers d = add_mset (Writing g c) ws"
    and "d' = d\<lparr>dt_writers := add_mset (Saved g) ws, dt_attempted := c, dt_stored := n, dt_failed := f\<rparr>"
    and "n \<le> c" and "\<not> f \<longrightarrow> n = c"
  shows "dirty_inv d'"
proof -
  have w: "g \<le> c" "dt_attempted d \<le> c" "c \<le> dt_generation d" using assms(1,2) by (auto simp: dirty_inv_def)
  have own: "dt_scheduled d" "filter_mset owner ws = {#}"
    using assms(1,2) by (auto simp: dirty_inv_def owners_def split: if_splits)
  have "writer_ok (dt_generation d) c v" if "v \<in># ws" for v
  proof (rule writer_ok_attempted [OF _ _ w(2)])
    show "writer_ok (dt_generation d) (dt_attempted d) v" using that assms(1,2) by (simp add: dirty_inv_def)
    show "\<not> owner v" using that own(2) by (auto dest!: multi_member_split)
  qed
  then show ?thesis
    using assms(3-5) w own assms(1) by (auto simp: dirty_inv_def owners_def)
qed

lemma quiet_step_inv:
  assumes "quiet_step d d'" and "dirty_inv d"
  shows "dirty_inv d'"
  using assms
proof induction
  case (store d g c ws)
  then show ?case by (intro attempt_inv [OF store(2,1) refl]) simp_all
next
  case (store_failed d g c ws)
  have "dt_stored d \<le> c" using store_failed by (auto simp: dirty_inv_def)
  from attempt_inv [OF store_failed(2,1) refl this, of True] show ?case by simp
qed (auto simp: dirty_inv_def owners_def watched_def split: if_splits)

lemma mark_inv:
  assumes "dirty_inv d"
  shows "dirty_inv (d\<lparr>dt_generation := Suc (dt_generation d), dt_marking := Suc (dt_marking d)\<rparr>)"
proof -
  have "\<forall>w \<in># dt_writers d. writer_ok (Suc (dt_generation d)) (dt_attempted d) w"
    using assms by (auto simp: dirty_inv_def intro: writer_ok_generation)
  with assms show ?thesis by (auto simp: dirty_inv_def owners_def watched_def)
qed

lemma dirty_reachable_inv: "dirty_reachable d \<Longrightarrow> dirty_inv d"
proof (induction rule: dirty_reachable.induct)
  case init
  show ?case by (simp add: dirty_inv_def dirty_init_def owners_def)
next
  case (step d d')
  from step(2,3) show ?case by cases (auto intro: mark_inv quiet_step_inv)
qed

definition quiescent :: "dirty \<Rightarrow> bool" where
  "quiescent d \<longleftrightarrow> dt_marking d = 0 \<and> dt_writers d = {#}"

lemma quiescent_covered:
  "dirty_inv d \<Longrightarrow> quiescent d \<Longrightarrow> dt_attempted d = dt_generation d \<and> (dt_failed d \<or> dt_stored d = dt_generation d)"
  by (auto simp: dirty_inv_def quiescent_def owners_def watched_def split: if_splits)

text \<open>C32: No change is forgotten by the handshake of requests and writers: whenever no writer is
  running and no request is inside \<open>mark_dirty\<close>, however they interleaved, the last attempt to
  write took its copy after every change, so the file covers every change unless that attempt failed;
  and the flag is free, so the next change starts a writer again. A failed attempt is not repeated
  before that.\<close>

theorem no_change_forgotten:
  assumes "dirty_reachable d" and "quiescent d"
  shows "dt_attempted d = dt_generation d \<and> (dt_failed d \<or> dt_stored d = dt_generation d) \<and> \<not> dt_scheduled d"
  using quiescent_covered [OF dirty_reachable_inv [OF assms(1)] assms(2)] dirty_reachable_inv [OF assms(1)] assms(2)
  by (auto simp: dirty_inv_def quiescent_def owners_def split: if_splits)

section \<open>The writer comes to rest\<close>

fun pending_work :: "nat \<Rightarrow> writer \<Rightarrow> nat" where
  "pending_work n Sleeping = 6"
| "pending_work n (Loaded g) = (if g = n then 5 else 12)"
| "pending_work n (Writing g c) = (if g = n then 4 else 11)"
| "pending_work n (Saved g) = (if g = n then 3 else 10)"
| "pending_work n (Unchanged g) = (if g = n then 2 else 9)"
| "pending_work n (Cleared g) = (if g = n then 1 else 8)"
| "pending_work n Retry = 7"

definition work :: "dirty \<Rightarrow> nat" where
  "work d = 7 * dt_marking d + (\<Sum>w \<in># dt_writers d. pending_work (dt_generation d) w)"

lemma quiet_step_work: "quiet_step d d' \<Longrightarrow> work d' < work d \<and> dt_generation d' = dt_generation d"
  by (induction rule: quiet_step.induct) (auto simp: work_def)

lemma quiet_progress:
  assumes "\<not> quiescent d"
  obtains d' where "quiet_step d d'"
proof (cases "dt_writers d")
  case empty
  then obtain n where "dt_marking d = Suc n" using assms by (cases "dt_marking d") (auto simp: quiescent_def)
  then show ?thesis by (cases "dt_scheduled d") (auto intro: that quiet_step.intros)
next
  case (add w ws)
  then show ?thesis
  proof (cases w)
    case Retry
    with add show ?thesis by (cases "dt_scheduled d") (auto intro: that quiet_step.intros)
  qed (cases "\<exists>g. (w = Saved g \<or> w = Cleared g) \<and> dt_generation d = g"; use add in \<open>auto intro: that quiet_step.intros\<close>)+
qed

lemma quiet_run:
  "quiet_step\<^sup>*\<^sup>* d d' \<Longrightarrow> dirty_reachable d \<Longrightarrow> dirty_reachable d' \<and> dt_generation d' = dt_generation d"
  by (induction rule: rtranclp_induct)
    (auto dest: quiet_step_work intro: dirty_reachable.step dirty_step.quiet)

text \<open>Once the requests stop changing the usage, the writers stop too: there is no infinite run of
  their steps, and where a run cannot go on, no writer is left and the file covers every change or the
  last write failed.\<close>

theorem writer_comes_to_rest:
  assumes "dirty_reachable d" and "quiet_step\<^sup>*\<^sup>* d d'" and "\<And>d''. \<not> quiet_step d' d''"
  shows "wf {(d2, d1). quiet_step d1 d2} \<and> quiescent d' \<and> (dt_failed d' \<or> dt_stored d' = dt_generation d)"
proof (intro conjI)
  show "wf {(d2, d1). quiet_step d1 d2}"
    by (rule wf_subset [OF wf_measure [of work]]) (auto dest: quiet_step_work)
  show q: "quiescent d'" using assms(3) quiet_progress by blast
  show "dt_failed d' \<or> dt_stored d' = dt_generation d"
    using quiet_run [OF assms(2,1)] quiescent_covered [OF _ q] by (simp add: dirty_reachable_inv)
qed

section \<open>Two runs\<close>

text \<open>One change and the writer it starts, whose write succeeds or fails.\<close>

definition demo_dirty :: "bool \<Rightarrow> nat \<Rightarrow> writer multiset \<Rightarrow> nat \<Rightarrow> nat \<Rightarrow> bool \<Rightarrow> dirty" where
  "demo_dirty sch marking ws att stored failed = \<lparr>dt_generation = 1, dt_scheduled = sch, dt_marking = marking,
     dt_writers = ws, dt_attempted = att, dt_stored = stored, dt_failed = failed\<rparr>"

lemma demo_marked: "dirty_reachable (demo_dirty False 1 {#} 0 0 False)"
  using dirty_reachable.step [OF dirty_reachable.init dirty_step.mark] by (simp add: dirty_init_def demo_dirty_def)

lemma demo_writing: "quiet_step\<^sup>*\<^sup>* (demo_dirty False 1 {#} 0 0 False) (demo_dirty True 0 {#Writing 1 1#} 0 0 False)"
proof -
  have "quiet_step (demo_dirty False 1 {#} 0 0 False) (demo_dirty True 0 {#Sleeping#} 0 0 False)"
    using quiet_step.schedule [of "demo_dirty False 1 {#} 0 0 False" 0] by (simp add: demo_dirty_def)
  moreover have "quiet_step (demo_dirty True 0 {#Sleeping#} 0 0 False) (demo_dirty True 0 {#Loaded 1#} 0 0 False)"
    using quiet_step.wake_up [of "demo_dirty True 0 {#Sleeping#} 0 0 False" "{#}"] by (simp add: demo_dirty_def)
  moreover have "quiet_step (demo_dirty True 0 {#Loaded 1#} 0 0 False) (demo_dirty True 0 {#Writing 1 1#} 0 0 False)"
    using quiet_step.copy [of "demo_dirty True 0 {#Loaded 1#} 0 0 False" 1 "{#}"] by (simp add: demo_dirty_def)
  ultimately show ?thesis by (meson converse_rtranclp_into_rtranclp rtranclp.rtrancl_refl)
qed

lemma demo_rest: "quiet_step\<^sup>*\<^sup>* (demo_dirty True 0 {#Saved 1#} 1 n f) (demo_dirty False 0 {#} 1 n f)"
proof -
  have "quiet_step (demo_dirty True 0 {#Saved 1#} 1 n f) (demo_dirty True 0 {#Unchanged 1#} 1 n f)"
    using quiet_step.unchanged [of "demo_dirty True 0 {#Saved 1#} 1 n f" 1 "{#}"] by (simp add: demo_dirty_def)
  moreover have "quiet_step (demo_dirty True 0 {#Unchanged 1#} 1 n f) (demo_dirty False 0 {#Cleared 1#} 1 n f)"
    using quiet_step.clear [of "demo_dirty True 0 {#Unchanged 1#} 1 n f" 1 "{#}"] by (simp add: demo_dirty_def)
  moreover have "quiet_step (demo_dirty False 0 {#Cleared 1#} 1 n f) (demo_dirty False 0 {#} 1 n f)"
    using quiet_step.finish [of "demo_dirty False 0 {#Cleared 1#} 1 n f" 1 "{#}"] by (simp add: demo_dirty_def)
  ultimately show ?thesis by (meson converse_rtranclp_into_rtranclp rtranclp.rtrancl_refl)
qed

lemma demo_run: "quiet_step\<^sup>*\<^sup>* (demo_dirty False 1 {#} 0 0 False) (demo_dirty False 0 {#} 1 1 False)"
proof -
  have "quiet_step (demo_dirty True 0 {#Writing 1 1#} 0 0 False) (demo_dirty True 0 {#Saved 1#} 1 1 False)"
    using quiet_step.store [of "demo_dirty True 0 {#Writing 1 1#} 0 0 False" 1 1 "{#}"] by (simp add: demo_dirty_def)
  with demo_writing demo_rest show ?thesis by (meson rtranclp.rtrancl_into_rtrancl rtranclp_trans)
qed

lemma demo_failed_run: "quiet_step\<^sup>*\<^sup>* (demo_dirty False 1 {#} 0 0 False) (demo_dirty False 0 {#} 1 0 True)"
proof -
  have "quiet_step (demo_dirty True 0 {#Writing 1 1#} 0 0 False) (demo_dirty True 0 {#Saved 1#} 1 0 True)"
    using quiet_step.store_failed [of "demo_dirty True 0 {#Writing 1 1#} 0 0 False" 1 1 "{#}"] by (simp add: demo_dirty_def)
  with demo_writing demo_rest show ?thesis by (meson rtranclp.rtrancl_into_rtrancl rtranclp_trans)
qed

theorem no_change_forgotten_witness:
  "dt_stored (demo_dirty False 0 {#} 1 1 False) = dt_generation (demo_dirty False 0 {#} 1 1 False)"
proof -
  have "dirty_reachable (demo_dirty False 0 {#} 1 1 False)" using quiet_run [OF demo_run demo_marked] ..
  from no_change_forgotten [OF this] show ?thesis by (simp add: quiescent_def demo_dirty_def)
qed

text \<open>A failed write is not repeated: the writer ends with a change that is not in the file.\<close>

lemma failed_write_not_repeated:
  "\<exists>d. dirty_reachable d \<and> quiescent d \<and> dt_stored d < dt_generation d"
proof -
  have "dirty_reachable (demo_dirty False 0 {#} 1 0 True)" using quiet_run [OF demo_failed_run demo_marked] ..
  then show ?thesis by (intro exI [of _ "demo_dirty False 0 {#} 1 0 True"]) (simp add: quiescent_def demo_dirty_def)
qed

end
