(* ===== verification/Decoded.thy ===== *)
theory Decoded
  imports KiroProtocol EventStream
begin

text \<open>
  \<open>DecodedResponse\<close> of \<open>crates/kproxyd/src/http/response.rs\<close>: the buffer that collects
  the events of one upstream answer, its clean-up, the usage counters read from loosely
  structured metadata, the repair of truncated tool input and the non-streaming Claude and OpenAI
  answers. Parameters stand for code outside the repository: \<open>parse\<close> is
  \<open>serde_json::from_str\<close>, \<open>to_json\<close> is \<open>Value::to_string\<close>,
  \<open>parse_f64\<close> is \<open>str::parse::<f64>\<close> and \<open>enc\<close> is
  \<open>WebSearchReplayCodec::try_encrypt\<close>, whose nonce is drawn per call and so may
  depend on the position of the call. Token counts are \<^typ>\<open>nat\<close> with \<open>u64\<close>'s saturation
  written out.
\<close>

section \<open>Ordered maps and JSON objects\<close>

text \<open>A \<open>BTreeMap\<close> with string keys is its entries in key order; \<open>serde_json::Map\<close> is one.\<close>

fun bt_insert :: "string \<Rightarrow> 'v \<Rightarrow> (string \<times> 'v) list \<Rightarrow> (string \<times> 'v) list" where
  "bt_insert k v [] = [(k, v)]"
| "bt_insert k v ((k', v') # m) =
     (case str_cmp k k' of
        Less \<Rightarrow> (k, v) # (k', v') # m
      | Equal \<Rightarrow> (k, v) # m
      | Greater \<Rightarrow> (k', v') # bt_insert k v m)"

definition jobj :: "(string \<times> json) list \<Rightarrow> json" where
  "jobj kvs = JObject (fold (\<lambda>(k, v). bt_insert k v) kvs [])"

text \<open>\<open>value[key] = v\<close> on an object.\<close>

fun v_set :: "string \<Rightarrow> json \<Rightarrow> json \<Rightarrow> json" where
  "v_set k v (JObject m) = JObject (bt_insert k v m)"
| "v_set k v other = other"

definition jnum :: "nat \<Rightarrow> json" where
  "jnum n = JNumber (PosInt (of_nat n))"

definition jopt :: "string option \<Rightarrow> json" where
  "jopt s = (case s of None \<Rightarrow> JNull | Some x \<Rightarrow> JString x)"

text \<open>\<open>chars().take(n).collect()\<close>: continuation bytes belong to the character before them.\<close>

fun take_chars :: "nat \<Rightarrow> string \<Rightarrow> string" where
  "take_chars n [] = []"
| "take_chars n (c # cs) =
     (if 128 \<le> byte c \<and> byte c \<le> 191 then c # take_chars n cs
      else case n of 0 \<Rightarrow> [] | Suc m \<Rightarrow> c # take_chars m cs)"

section \<open>Data\<close>

record openai_tool_identity =
  oi_kind :: string
  oi_name :: string

record compaction_iteration_usage =
  ci_input_tokens :: nat
  ci_output_tokens :: nat

record usage_info =
  ui_input_tokens :: nat
  ui_output_tokens :: nat
  ui_credits :: f64
  ui_cache_read_tokens :: nat
  ui_cache_write_tokens :: nat
  ui_reasoning_tokens :: nat

datatype claude_server_tool_emission = Complete | Pending | ResultOnly

record claude_server_tool_error =
  se_code :: string
  se_message :: string

record claude_tool_search_trace =
  tq_id :: string
  tq_name :: string
  tq_input :: json
  tq_references :: "string list"
  tq_error :: "claude_server_tool_error option"
  tq_requested_limit :: nat
  tq_matched_count :: nat
  tq_budget_truncated :: bool
  tq_emission :: claude_server_tool_emission

record web_search_result =
  wr_title :: string
  wr_url :: string
  wr_snippet :: string
  wr_published_date :: "int option"

record claude_web_search_trace =
  ws_id :: string
  ws_input :: json
  ws_results :: "web_search_result list"
  ws_error :: "claude_server_tool_error option"
  ws_emission :: claude_server_tool_emission
  ws_executed :: bool

datatype web_search_replay_error = ReplaySerialize string | ReplayInvalidKey | ReplayEncrypt

datatype claude_server_event =
    ToolSearch nat string
  | WebSearch nat string

record claude_context_edit_stats =
  ce_cleared_tool_results :: nat
  ce_cleared_tool_inputs :: nat
  ce_cleared_tool_input_tokens :: nat
  ce_cleared_thinking_turns :: nat
  ce_cleared_thinking_input_tokens :: nat
  ce_tool_edit_type :: "string option"
  ce_thinking_edit_type :: "string option"

definition edit_stats_default :: claude_context_edit_stats where
  "edit_stats_default = \<lparr>ce_cleared_tool_results = 0, ce_cleared_tool_inputs = 0,
     ce_cleared_tool_input_tokens = 0, ce_cleared_thinking_turns = 0,
     ce_cleared_thinking_input_tokens = 0, ce_tool_edit_type = None, ce_thinking_edit_type = None\<rparr>"

record tool_buffer =
  tb_id :: string
  tb_name :: string
  tb_input :: string
  tb_complete :: bool

record decoded_response =
  dr_text :: string
  dr_reasoning :: string
  dr_reasoning_signature :: "string option"
  dr_redacted_thinking :: string
  dr_citations :: "kiro_citation list"
  dr_tools :: "(string \<times> tool_buffer) list"
  dr_tool_searches :: "claude_tool_search_trace list"
  dr_web_searches :: "claude_web_search_trace list"
  dr_claude_server_events :: "claude_server_event list"
  dr_usage :: usage_info
  dr_stop_reason :: "string option"
  dr_stop_sequence :: "string option"

datatype thinking_output_format = OpenaiThinking | ClaudeThinking

definition usage_info_default :: usage_info where
  "usage_info_default = \<lparr>ui_input_tokens = 0, ui_output_tokens = 0, ui_credits = Fin 0,
     ui_cache_read_tokens = 0, ui_cache_write_tokens = 0, ui_reasoning_tokens = 0\<rparr>"

definition decoded_default :: decoded_response where
  "decoded_default = \<lparr>dr_text = [], dr_reasoning = [], dr_reasoning_signature = None,
     dr_redacted_thinking = [], dr_citations = [], dr_tools = [], dr_tool_searches = [],
     dr_web_searches = [], dr_claude_server_events = [], dr_usage = usage_info_default,
     dr_stop_reason = None, dr_stop_sequence = None\<rparr>"

definition MAX_CUMULATIVE_TOOL_INPUT_BYTES :: nat where
  "MAX_CUMULATIVE_TOOL_INPUT_BYTES = 16 * 1024 * 1024"

section \<open>Usage counters\<close>

fun is_number_or_string :: "json \<Rightarrow> bool" where
  "is_number_or_string (JNumber _) = True"
| "is_number_or_string (JString _) = True"
| "is_number_or_string _ = False"

text \<open>A key of this object that holds a number or a string, else the first child that has one.\<close>

fun find_numeric_value :: "string list \<Rightarrow> json \<Rightarrow> json option"
and find_numeric_fields :: "string list \<Rightarrow> (string \<times> json) list \<Rightarrow> json option"
and find_numeric_items :: "string list \<Rightarrow> json list \<Rightarrow> json option" where
  "find_numeric_value keys (JObject m) =
     (case find is_number_or_string (List.map_filter (map_of m) keys) of
        Some v \<Rightarrow> Some v
      | None \<Rightarrow> find_numeric_fields keys m)"
| "find_numeric_value keys (JArray xs) = find_numeric_items keys xs"
| "find_numeric_value keys _ = None"
| "find_numeric_fields keys [] = None"
| "find_numeric_fields keys ((_, v) # m) =
     (case find_numeric_value keys v of Some x \<Rightarrow> Some x | None \<Rightarrow> find_numeric_fields keys m)"
| "find_numeric_items keys [] = None"
| "find_numeric_items keys (v # vs) =
     (case find_numeric_value keys v of Some x \<Rightarrow> Some x | None \<Rightarrow> find_numeric_items keys vs)"

text \<open>\<open>Number::as_f64\<close>, and the saturating cast of a finite, non-negative \<open>f64\<close> to \<open>u64\<close>.\<close>

fun number_f64 :: "json_number \<Rightarrow> f64" where
  "number_f64 (PosInt n) = Fin (of_int (uint n))"
| "number_f64 (NegInt n) = Fin (of_int (sint n))"
| "number_f64 (Float x) = x"

fun f64_count :: "f64 \<Rightarrow> nat option" where
  "f64_count (Fin r) = (if 0 \<le> r then Some (min usize_max (nat \<lfloor>r\<rfloor>)) else None)"
| "f64_count _ = None"

fun number_count :: "json_number \<Rightarrow> nat option" where
  "number_count (PosInt n) = Some (unat n)"
| "number_count n = f64_count (number_f64 n)"

definition find_number :: "(string \<Rightarrow> f64 option) \<Rightarrow> json \<Rightarrow> string list \<Rightarrow> nat option" where
  "find_number parse_f64 value keys =
     (case find_numeric_value keys value of
        Some (JNumber n) \<Rightarrow> number_count n
      | Some (JString s) \<Rightarrow> Option.bind (parse_f64 s) f64_count
      | _ \<Rightarrow> None)"

definition find_float :: "(string \<Rightarrow> f64 option) \<Rightarrow> json \<Rightarrow> string list \<Rightarrow> f64 option" where
  "find_float parse_f64 value keys =
     (case find_numeric_value keys value of
        Some (JNumber n) \<Rightarrow> Some (number_f64 n)
      | Some (JString s) \<Rightarrow> parse_f64 s
      | _ \<Rightarrow> None)"

definition merge_usage :: "(string \<Rightarrow> f64 option) \<Rightarrow> json \<Rightarrow> usage_info \<Rightarrow> usage_info" where
  "merge_usage parse_f64 value u =
     (let num = find_number parse_f64 value;
          uncached = num [''uncachedInputTokens''];
          total_input = num [''inputTokens'', ''input_tokens''];
          cache_read = num [''cacheReadInputTokens'', ''cacheReadTokens'',
            ''cache_read_input_tokens'', ''cache_read_tokens''];
          cache_write = num [''cacheWriteInputTokens'', ''cacheWriteTokens'',
            ''cache_creation_input_tokens'', ''cache_write_tokens''];
          cache_tokens = sat_add (unwrap_or cache_read 0) (unwrap_or cache_write 0);
          input1 = (case uncached of
              Some x \<Rightarrow> sat_add x cache_tokens
            | None \<Rightarrow> (case total_input of
                Some input \<Rightarrow> max input cache_tokens
              | None \<Rightarrow> if 0 < cache_tokens then cache_tokens else ui_input_tokens u));
          outp = unwrap_or (num [''outputTokens'', ''output_tokens'']) (ui_output_tokens u);
          input2 = (if input1 = 0 then
              (case num [''totalTokens'', ''total_tokens''] of
                 Some all \<Rightarrow> all - outp | None \<Rightarrow> input1)
            else input1);
          credits = (if f_le (ui_credits u) (Fin 0) then
              unwrap_or (opt_filter (\<lambda>c. f_gt c (Fin 0)) (find_float parse_f64 value
                [''credits'', ''creditsConsumed'', ''creditsUsed'', ''creditUsage'',
                 ''billedCredits'', ''usedCredits'', ''charge'', ''cost'', ''meteredUsage'',
                 ''usage''])) (ui_credits u)
            else ui_credits u)
      in \<lparr>ui_input_tokens = input2, ui_output_tokens = outp, ui_credits = credits,
           ui_cache_read_tokens = unwrap_or cache_read (ui_cache_read_tokens u),
           ui_cache_write_tokens = unwrap_or cache_write (ui_cache_write_tokens u),
           ui_reasoning_tokens = unwrap_or (num [''reasoningTokens'', ''reasoning_tokens''])
             (ui_reasoning_tokens u)\<rparr>)"

section \<open>Collecting the events\<close>

definition tool_input_bytes :: "(string \<times> tool_buffer) list \<Rightarrow> nat" where
  "tool_input_bytes tools = sum_list (map (\<lambda>(_, t). length (tb_input t)) tools)"

definition decoded_push ::
  "(string \<Rightarrow> f64 option) \<Rightarrow> kiro_event \<Rightarrow> decoded_response \<Rightarrow> string + decoded_response" where
  "decoded_push parse_f64 event d =
     (case event of
        AssistantResponse content \<Rightarrow> Inr (d\<lparr>dr_text := dr_text d @ content\<rparr>)
      | Reasoning content signature redacted \<Rightarrow>
          Inr (d\<lparr>dr_reasoning := dr_reasoning d @ content,
             dr_reasoning_signature := (case signature of
                 None \<Rightarrow> dr_reasoning_signature d
               | Some s \<Rightarrow> Some (unwrap_or (dr_reasoning_signature d) [] @ s)),
             dr_redacted_thinking := dr_redacted_thinking d @ unwrap_or redacted []\<rparr>)
      | Citations cs \<Rightarrow> Inr (d\<lparr>dr_citations := dr_citations d @ cs\<rparr>)
      | ToolUse tid name delta stop \<Rightarrow>
          (if MAX_CUMULATIVE_TOOL_INPUT_BYTES
                < sat_add (tool_input_bytes (dr_tools d)) (length delta)
           then Inl ''tool input exceeded the 16 MiB response limit''
           else let tool = unwrap_or (map_of (dr_tools d) tid)
                      \<lparr>tb_id = tid, tb_name = name, tb_input = [], tb_complete = False\<rparr>;
                    tool' = tool\<lparr>tb_name := (if tb_name tool = [] then name else tb_name tool),
                      tb_input := tb_input tool @ delta, tb_complete := tb_complete tool \<or> stop\<rparr>
                in Inr (d\<lparr>dr_tools := bt_insert tid tool' (dr_tools d)\<rparr>))
      | MessageMetadata usage \<Rightarrow> Inr (d\<lparr>dr_usage := merge_usage parse_f64 usage (dr_usage d)\<rparr>)
      | UsageReport usage \<Rightarrow> Inr (d\<lparr>dr_usage := merge_usage parse_f64 usage (dr_usage d)\<rparr>)
      | ErrorEvent _ message \<Rightarrow> Inl message
      | OtherEvent _ _ \<Rightarrow> Inr d)"

definition stop_at_sequence :: "string \<Rightarrow> string \<Rightarrow> decoded_response \<Rightarrow> decoded_response" where
  "stop_at_sequence visible_text sequence d =
     d\<lparr>dr_text := visible_text, dr_tools := [], dr_stop_reason := Some ''stop_sequence'',
       dr_stop_sequence := Some sequence\<rparr>"

definition restore_tool_names :: "(string, string) hmap \<Rightarrow> decoded_response \<Rightarrow> decoded_response" where
  "restore_tool_names names d = d\<lparr>dr_tools := map (\<lambda>(k, tool).
     (k, case hm_get names (tb_name tool) of None \<Rightarrow> tool | Some original \<Rightarrow> tool\<lparr>tb_name := original\<rparr>))
     (dr_tools d)\<rparr>"

text \<open>The first tool whose input is not JSON is reported; the maps are visited in key order.\<close>

definition finalize_tool_inputs ::
  "(string \<Rightarrow> json option) \<Rightarrow> decoded_response \<Rightarrow> string + decoded_response" where
  "finalize_tool_inputs parse d =
     (case find (\<lambda>(_, tool). trim (tb_input tool) \<noteq> [] \<and> parse (tb_input tool) = None) (dr_tools d) of
        Some (_, tool) \<Rightarrow> Inl (''tool '' @ tb_name tool @ '' produced invalid JSON input'')
      | None \<Rightarrow> Inr (d\<lparr>dr_tools := map (\<lambda>(k, tool).
          (k, if trim (tb_input tool) = [] then tool\<lparr>tb_input := ''{}''\<rparr> else tool)) (dr_tools d)\<rparr>))"

section \<open>Repairing truncated tool input\<close>

text \<open>Raw control characters in strings are escaped and commas before a closing bracket dropped.\<close>

fun normalize_from :: "bool \<Rightarrow> bool \<Rightarrow> string \<Rightarrow> string" where
  "normalize_from in_string escaped [] = []"
| "normalize_from True escaped (c # cs) =
     (if c = CHR 0x0A then [CHR 0x5C, CHR ''n''] else if c = CHR 0x0D then [CHR 0x5C, CHR ''r'']
      else if c = CHR 0x09 then [CHR 0x5C, CHR ''t''] else [c]) @
     (if escaped then normalize_from True False cs
      else if c = CHR 0x5C then normalize_from True True cs
      else normalize_from (c \<noteq> CHR 0x22) False cs)"
| "normalize_from False escaped (c # cs) =
     (if c = CHR 0x22 then c # normalize_from True escaped cs
      else if c = CHR '','' \<and> (case trim_start cs of d # _ \<Rightarrow> d = CHR ''}'' \<or> d = CHR '']'' | [] \<Rightarrow> False)
      then normalize_from False escaped cs
      else c # normalize_from False escaped cs)"

definition normalize_partial_json :: "string \<Rightarrow> string" where
  "normalize_partial_json input = normalize_from False False input"

text \<open>The closing brackets that are missing, innermost first, and whether a string is open.\<close>

fun open_brackets :: "bool \<Rightarrow> bool \<Rightarrow> char list \<Rightarrow> string \<Rightarrow> bool \<times> char list" where
  "open_brackets in_string escaped stack [] = (in_string, stack)"
| "open_brackets True escaped stack (c # cs) =
     (if escaped then open_brackets True False stack cs
      else if c = CHR 0x5C then open_brackets True True stack cs
      else open_brackets (c \<noteq> CHR 0x22) escaped stack cs)"
| "open_brackets False escaped stack (c # cs) =
     (if c = CHR 0x22 then open_brackets True escaped stack cs
      else if c = CHR ''{'' then open_brackets False escaped (CHR ''}'' # stack) cs
      else if c = CHR ''['' then open_brackets False escaped (CHR '']'' # stack) cs
      else if (c = CHR ''}'' \<or> c = CHR '']'') \<and> (case stack of t # _ \<Rightarrow> t = c | [] \<Rightarrow> False)
      then open_brackets False escaped (tl stack) cs
      else open_brackets False escaped stack cs)"

definition close_brackets :: "string \<Rightarrow> string" where
  "close_brackets repaired =
     (let (in_string, stack) = open_brackets False False [] repaired;
          closed = trim_end (if in_string then repaired @ [CHR 0x22] else repaired)
      in (if ends_with closed '','' then butlast closed else closed) @ stack)"

definition repair_json :: "(string \<Rightarrow> json option) \<Rightarrow> string \<Rightarrow> json" where
  "repair_json parse input =
     (let trimmed = trim input in
      if trimmed = [] then jobj []
      else (case parse trimmed of
              Some v \<Rightarrow> v
            | None \<Rightarrow> (case parse (close_brackets (normalize_partial_json trimmed)) of
                  Some v \<Rightarrow> v | None \<Rightarrow> jobj [(''raw'', JString trimmed)])))"

definition custom_tool_input :: "(string \<Rightarrow> json option) \<Rightarrow> string \<Rightarrow> string" where
  "custom_tool_input parse input =
     (case repair_json parse input of
        JObject m \<Rightarrow> unwrap_or (or_else (Option.bind (map_of m ''input'') as_str)
          (case m of [(_, v)] \<Rightarrow> as_str v | _ \<Rightarrow> None)) input
      | JString v \<Rightarrow> v
      | _ \<Rightarrow> input)"

definition take_tool_uses_where ::
  "(string \<Rightarrow> json option) \<Rightarrow> (tool_buffer \<Rightarrow> bool) \<Rightarrow> decoded_response \<Rightarrow>
     kiro_tool_use list \<times> decoded_response" where
  "take_tool_uses_where parse selects d =
     (map (\<lambda>(_, tool). \<lparr>tu_tool_use_id = tb_id tool, tu_name = tb_name tool,
          tu_input = repair_json parse (tb_input tool)\<rparr>)
        (filter (\<lambda>(_, tool). selects tool) (dr_tools d)),
      d\<lparr>dr_tools := filter (\<lambda>(_, tool). \<not> selects tool) (dr_tools d)\<rparr>)"

section \<open>References and citations\<close>

definition kiro_citation_key :: "kiro_citation \<Rightarrow> string" where
  "kiro_citation_key c = kc_kind c @ [CHR 0x00] @ kc_link c @ [CHR 0x00] @ unwrap_or (kc_text c) []"

text \<open>\<open>filter(|x| seen.insert(key(x)))\<close>: the first of each key, and the keys seen then.\<close>

fun first_seen :: "('a \<Rightarrow> 'k) \<Rightarrow> 'k set \<Rightarrow> 'a list \<Rightarrow> 'a list \<times> 'k set" where
  "first_seen key seen [] = ([], seen)"
| "first_seen key seen (x # xs) =
     (if key x \<in> seen then first_seen key seen xs
      else let (ys, seen') = first_seen key (insert (key x) seen) xs in (x # ys, seen'))"

definition no_line_breaks :: "string \<Rightarrow> string \<Rightarrow> string" where
  "no_line_breaks sub s = concat (map (\<lambda>c. if c = CHR 0x0D \<or> c = CHR 0x0A then sub else [c]) s)"

definition reference_line :: "kiro_citation \<Rightarrow> string" where
  "reference_line c =
     (let default_label = (if kc_kind c = ''web'' then ''Web source''
            else if kc_kind c = ''code'' then ''Code reference''
            else if kc_kind c = ''document'' then ''Document source'' else ''Source'');
          label = trim (no_line_breaks '' '' (unwrap_or (kc_text c) default_label));
          link = trim (no_line_breaks [] (kc_link c))
      in ''- '' @ label @ (if label \<noteq> [] \<and> link \<noteq> [] then '': '' else []) @ link @ [CHR 0x0A])"

definition format_visible_references :: "kiro_citation list \<Rightarrow> string" where
  "format_visible_references citations =
     (if citations = [] then []
      else butlast ([CHR 0x0A, CHR 0x0A] @ ''References:'' @ [CHR 0x0A] @
        concat (map reference_line citations)))"

definition kiro_visible_references :: "kiro_citation list \<Rightarrow> string" where
  "kiro_visible_references citations =
     format_visible_references (take 20 (fst (first_seen kiro_citation_key {} citations)))"

text \<open>\<open>collect::<Result<Vec<_>, _>>()\<close> over calls of the codec: the first failure ends it.\<close>

fun seal_all ::
  "(nat \<Rightarrow> 'r \<Rightarrow> 'e + string) \<Rightarrow> ('r \<Rightarrow> string \<Rightarrow> json) \<Rightarrow> nat \<Rightarrow> 'r list \<Rightarrow> 'e + json list" where
  "seal_all enc render i [] = Inr []"
| "seal_all enc render i (r # rs) =
     (case enc i r of
        Inl e \<Rightarrow> Inl e
      | Inr sealed \<Rightarrow> (case seal_all enc render (i + 1) rs of
            Inl e \<Rightarrow> Inl e | Inr vs \<Rightarrow> Inr (render r sealed # vs)))"

type_synonym replay_codec = "nat \<Rightarrow> web_search_result \<Rightarrow> web_search_replay_error + string"

definition MAX_CITATIONS :: nat where
  "MAX_CITATIONS = 20"

definition citation_location :: "web_search_result \<Rightarrow> string \<Rightarrow> json" where
  "citation_location r sealed = jobj [(''type'', JString ''web_search_result_location''),
     (''url'', JString (wr_url r)), (''title'', JString (wr_title r)),
     (''encrypted_index'', JString sealed),
     (''cited_text'', JString (take_chars 150
        (if trim (wr_snippet r) = [] then wr_title r else wr_snippet r)))]"

definition web_search_citations ::
  "claude_web_search_trace list \<Rightarrow> string \<Rightarrow> replay_codec \<Rightarrow> web_search_replay_error + json list" where
  "web_search_citations searches answer_text enc =
     (let results = concat (map ws_results (filter (\<lambda>s. ws_emission s \<noteq> Pending) searches));
          cited = filter (\<lambda>r. str_contains answer_text (wr_url r)) results
      in seal_all enc citation_location 0 (take MAX_CITATIONS (fst (first_seen wr_url {} cited))))"

section \<open>The answer in one piece\<close>

definition tool_search_result :: "claude_tool_search_trace \<Rightarrow> json" where
  "tool_search_result search =
     (case tq_error search of
        Some e \<Rightarrow> jobj [(''type'', JString ''tool_search_tool_result_error''),
          (''error_code'', JString (se_code e)), (''error_message'', JString (se_message e))]
      | None \<Rightarrow> jobj [(''type'', JString ''tool_search_tool_search_result''),
          (''tool_references'', JArray (map (\<lambda>name. jobj [(''type'', JString ''tool_reference''),
             (''tool_name'', JString name)]) (tq_references search)))])"

definition tool_search_blocks :: "claude_tool_search_trace \<Rightarrow> json list" where
  "tool_search_blocks search =
     (if tq_emission search \<noteq> ResultOnly
      then [jobj [(''type'', JString ''server_tool_use''), (''id'', JString (tq_id search)),
              (''name'', JString (tq_name search)), (''input'', tq_input search)]] else []) @
     (if tq_emission search = Pending then []
      else [jobj [(''type'', JString ''tool_search_tool_result''),
              (''tool_use_id'', JString (tq_id search)), (''content'', tool_search_result search)]])"

definition web_search_item :: "web_search_result \<Rightarrow> string \<Rightarrow> json" where
  "web_search_item r sealed = jobj [(''type'', JString ''web_search_result''),
     (''url'', JString (wr_url r)), (''title'', JString (wr_title r)), (''page_age'', JNull),
     (''encrypted_content'', JString sealed)]"

definition web_search_content ::
  "replay_codec \<Rightarrow> claude_web_search_trace \<Rightarrow> web_search_replay_error + json" where
  "web_search_content enc search =
     (case ws_error search of
        Some e \<Rightarrow> Inr (jobj [(''type'', JString ''web_search_tool_result_error''),
          (''error_code'', JString (se_code e))])
      | None \<Rightarrow> (case seal_all enc web_search_item 0 (ws_results search) of
            Inl e \<Rightarrow> Inl e | Inr items \<Rightarrow> Inr (JArray items)))"

definition web_search_blocks ::
  "replay_codec \<Rightarrow> claude_web_search_trace \<Rightarrow> web_search_replay_error + json list" where
  "web_search_blocks enc search =
     (let uses = (if ws_emission search \<noteq> ResultOnly
            then [jobj [(''type'', JString ''server_tool_use''), (''id'', JString (ws_id search)),
               (''name'', JString ''web_search''), (''input'', ws_input search)]] else [])
      in if ws_emission search = Pending then Inr uses
         else (case web_search_content enc search of
            Inl e \<Rightarrow> Inl e
          | Inr result \<Rightarrow> Inr (uses @ [jobj [(''type'', JString ''web_search_tool_result''),
              (''tool_use_id'', JString (ws_id search)),
              (''caller'', jobj [(''type'', JString ''direct'')]), (''content'', result)]])))"

fun collect_blocks :: "('e + 'a list) list \<Rightarrow> 'e + 'a list" where
  "collect_blocks [] = Inr []"
| "collect_blocks (r # rs) = (case r of
       Inl e \<Rightarrow> Inl e
     | Inr xs \<Rightarrow> (case collect_blocks rs of Inl e \<Rightarrow> Inl e | Inr ys \<Rightarrow> Inr (xs @ ys)))"

definition text_block :: "string \<Rightarrow> json" where
  "text_block t = jobj [(''type'', JString ''text''), (''text'', JString t)]"

fun server_event_blocks ::
  "replay_codec \<Rightarrow> decoded_response \<Rightarrow> claude_server_event \<Rightarrow> web_search_replay_error + json list" where
  "server_event_blocks enc d (ToolSearch index preceding) =
     Inr ((if preceding \<noteq> [] then [text_block preceding] else []) @
       (if index < length (dr_tool_searches d) then tool_search_blocks (dr_tool_searches d ! index) else []))"
| "server_event_blocks enc d (WebSearch index preceding) =
     (case if index < length (dr_web_searches d) then web_search_blocks enc (dr_web_searches d ! index)
           else Inr [] of
        Inl e \<Rightarrow> Inl e
      | Inr blocks \<Rightarrow> Inr ((if preceding \<noteq> [] then [text_block preceding] else []) @ blocks))"

definition reasoning_blocks :: "decoded_response \<Rightarrow> json list" where
  "reasoning_blocks d =
     (case dr_reasoning_signature d of
        Some signature \<Rightarrow> [jobj [(''type'', JString ''thinking''),
          (''thinking'', JString (dr_reasoning d)), (''signature'', JString signature)]]
      | None \<Rightarrow> if dr_reasoning d \<noteq> []
          then [text_block (''<thinking>'' @ dr_reasoning d @ ''</thinking>'')] else []) @
     (if dr_redacted_thinking d \<noteq> []
      then [jobj [(''type'', JString ''redacted_thinking''),
              (''data'', JString (dr_redacted_thinking d))]] else [])"

definition answer_text :: "decoded_response \<Rightarrow> string" where
  "answer_text d = dr_text d @ kiro_visible_references (dr_citations d)"

definition tool_use_block :: "(string \<Rightarrow> json option) \<Rightarrow> tool_buffer \<Rightarrow> json" where
  "tool_use_block parse tool = jobj [(''type'', JString ''tool_use''), (''id'', JString (tb_id tool)),
     (''name'', JString (tb_name tool)), (''input'', repair_json parse (tb_input tool))]"

definition claude_content ::
  "(string \<Rightarrow> json option) \<Rightarrow> string option \<Rightarrow> replay_codec \<Rightarrow> decoded_response \<Rightarrow>
     web_search_replay_error + json list" where
  "claude_content parse compaction_summary enc d =
     (let lead = (case compaction_summary of
              None \<Rightarrow> []
            | Some s \<Rightarrow> [jobj [(''type'', JString ''compaction''), (''content'', JString s)]])
            @ reasoning_blocks d
      in case collect_blocks
           (if dr_claude_server_events d = []
            then map (\<lambda>s. Inr (tool_search_blocks s)) (dr_tool_searches d)
                 @ map (web_search_blocks enc) (dr_web_searches d)
            else map (server_event_blocks enc d) (dr_claude_server_events d)) of
           Inl e \<Rightarrow> Inl e
         | Inr server \<Rightarrow>
             (case web_search_citations (dr_web_searches d) (dr_text d) enc of
                Inl e \<Rightarrow> Inl e
              | Inr citations \<Rightarrow> Inr (lead @ server @
                  (if answer_text d = [] then []
                   else if citations = [] then [text_block (answer_text d)]
                   else [jobj [(''type'', JString ''text''), (''text'', JString (answer_text d)),
                           (''citations'', JArray citations)]]) @
                  map (\<lambda>(_, tool). tool_use_block parse tool) (dr_tools d))))"

definition claude_stop :: "decoded_response \<Rightarrow> nat option \<Rightarrow> nat \<Rightarrow> string" where
  "claude_stop d max_tokens current_round_output_tokens =
     (case dr_stop_reason d of
        Some reason \<Rightarrow> reason
      | None \<Rightarrow> if dr_tools d \<noteq> [] then ''tool_use''
          else if (case max_tokens of Some m \<Rightarrow> m \<le> current_round_output_tokens | None \<Rightarrow> False)
          then ''max_tokens'' else ''end_turn'')"

definition claude_usage ::
  "decoded_response \<Rightarrow> compaction_iteration_usage option \<Rightarrow> json" where
  "claude_usage d compaction =
     (let u = dr_usage d;
          base = jobj [(''input_tokens'', jnum (ui_input_tokens u - ui_cache_read_tokens u - ui_cache_write_tokens u)),
            (''output_tokens'', jnum (ui_output_tokens u)),
            (''cache_creation_input_tokens'', jnum (ui_cache_write_tokens u)),
            (''cache_read_input_tokens'', jnum (ui_cache_read_tokens u))];
          searched = (if dr_web_searches d = [] then base
            else v_set ''server_tool_use'' (jobj [(''web_search_requests'',
                   jnum (length (filter ws_executed (dr_web_searches d))))]) base)
      in case compaction of
           None \<Rightarrow> searched
         | Some c \<Rightarrow> v_set ''iterations'' (JArray [
             jobj [(''type'', JString ''compaction''), (''input_tokens'', jnum (ci_input_tokens c)),
               (''output_tokens'', jnum (ci_output_tokens c))],
             jobj [(''type'', JString ''message''), (''input_tokens'', jnum (ui_input_tokens u)),
               (''output_tokens'', jnum (ui_output_tokens u))]]) searched)"

definition applied_edits :: "claude_context_edit_stats \<Rightarrow> json list" where
  "applied_edits s =
     (if 0 < ce_cleared_thinking_turns s
      then [jobj [(''type'', JString (unwrap_or (ce_thinking_edit_type s) ''clear_thinking_20251015'')),
              (''cleared_thinking_turns'', jnum (ce_cleared_thinking_turns s)),
              (''cleared_input_tokens'', jnum (ce_cleared_thinking_input_tokens s))]] else []) @
     (if 0 < ce_cleared_tool_results s
      then [jobj [(''type'', JString (unwrap_or (ce_tool_edit_type s) ''clear_tool_uses_20250919'')),
              (''cleared_tool_uses'', jnum (ce_cleared_tool_results s)),
              (''cleared_input_tokens'', jnum (ce_cleared_tool_input_tokens s))]] else [])"

definition with_edits :: "claude_context_edit_stats \<Rightarrow> nat option \<Rightarrow> nat \<Rightarrow> json \<Rightarrow> json" where
  "with_edits stats original_input compacted_input v =
     (let edits = applied_edits stats @ (case original_input of
            None \<Rightarrow> []
          | Some n \<Rightarrow> [jobj [(''type'', JString ''compact_20260112''),
              (''reason'', JString ''model_mapping_overflow''), (''original_input_tokens'', jnum n),
              (''compacted_input_tokens'', jnum compacted_input)]])
      in if edits = [] then v
         else v_set ''context_management'' (jobj [(''applied_edits'', JArray edits)]) v)"

definition claude_json_with_context_management ::
  "(string \<Rightarrow> json option) \<Rightarrow> string \<Rightarrow> string \<Rightarrow> nat \<Rightarrow> nat \<Rightarrow> string option \<Rightarrow>
     compaction_iteration_usage option \<Rightarrow> nat option \<Rightarrow> nat \<Rightarrow> claude_context_edit_stats \<Rightarrow>
     replay_codec \<Rightarrow> decoded_response \<Rightarrow> web_search_replay_error + json" where
  "claude_json_with_context_management parse rid model max_tokens round_tokens summary compaction
     original_input effective_input stats enc d =
     (case claude_content parse summary enc d of
        Inl e \<Rightarrow> Inl e
      | Inr content \<Rightarrow> Inr (with_edits stats original_input effective_input
          (jobj [(''id'', JString rid), (''type'', JString ''message''), (''role'', JString ''assistant''),
             (''content'', JArray content), (''model'', JString model),
             (''stop_reason'', JString (claude_stop d (Some max_tokens) round_tokens)),
             (''stop_sequence'', jopt (dr_stop_sequence d)),
             (''usage'', claude_usage d compaction)])))"

definition openai_tool_call ::
  "(string \<Rightarrow> json option) \<Rightarrow> (json \<Rightarrow> string) \<Rightarrow> (string, openai_tool_identity) hmap \<Rightarrow> tool_buffer \<Rightarrow> json" where
  "openai_tool_call parse to_json identities tool =
     (let identity = hm_get identities (tb_name tool);
          name = (case identity of None \<Rightarrow> tb_name tool | Some i \<Rightarrow> oi_name i)
      in if (case identity of Some i \<Rightarrow> oi_kind i = ''custom'' | None \<Rightarrow> False)
         then jobj [(''id'', JString (tb_id tool)), (''type'', JString ''custom''),
           (''custom'', jobj [(''name'', JString name),
              (''input'', JString (custom_tool_input parse (tb_input tool)))])]
         else jobj [(''id'', JString (tb_id tool)), (''type'', JString ''function''),
           (''function'', jobj [(''name'', JString name),
              (''arguments'', JString (to_json (repair_json parse (tb_input tool))))])])"

definition openai_finish :: "decoded_response \<Rightarrow> nat option \<Rightarrow> nat \<Rightarrow> string" where
  "openai_finish d max_tokens current_round_output_tokens =
     (if dr_tools d \<noteq> [] then ''tool_calls''
      else if dr_stop_reason d = Some ''max_tokens'' \<or>
        (case max_tokens of Some m \<Rightarrow> m \<le> current_round_output_tokens | None \<Rightarrow> False)
      then ''length'' else ''stop'')"

definition openai_usage :: "usage_info \<Rightarrow> json" where
  "openai_usage u = jobj [(''prompt_tokens'', jnum (ui_input_tokens u)),
     (''completion_tokens'', jnum (ui_output_tokens u)),
     (''total_tokens'', jnum (ui_input_tokens u + ui_output_tokens u)),
     (''prompt_tokens_details'', jobj [(''cached_tokens'', jnum (ui_cache_read_tokens u))]),
     (''completion_tokens_details'', jobj [(''reasoning_tokens'', jnum (ui_reasoning_tokens u))])]"

definition openai_json ::
  "(string \<Rightarrow> json option) \<Rightarrow> (json \<Rightarrow> string) \<Rightarrow> string \<Rightarrow> string \<Rightarrow> int \<Rightarrow> nat option \<Rightarrow> nat \<Rightarrow>
     thinking_output_format \<Rightarrow> (string, openai_tool_identity) hmap \<Rightarrow> decoded_response \<Rightarrow> json" where
  "openai_json parse to_json rid model created max_tokens round_tokens fmt identities d =
     (let content = (if fmt = ClaudeThinking \<and> dr_reasoning d \<noteq> []
            then JString (''<thinking>'' @ dr_reasoning d @ ''</thinking>'' @ answer_text d)
            else if answer_text d = [] then JNull else JString (answer_text d));
          message = jobj [(''role'', JString ''assistant''), (''content'', content),
            (''tool_calls'', JArray (map (\<lambda>(_, t). openai_tool_call parse to_json identities t) (dr_tools d)))];
          message' = (if fmt = OpenaiThinking \<and> dr_reasoning d \<noteq> []
            then v_set ''reasoning_content'' (JString (dr_reasoning d)) message else message)
      in jobj [(''id'', JString rid), (''object'', JString ''chat.completion''),
           (''created'', JNumber (if 0 \<le> created then PosInt (of_int created) else NegInt (of_int created))),
           (''model'', JString model),
           (''choices'', JArray [jobj [(''index'', jnum 0), (''message'', message'),
              (''finish_reason'', JString (openai_finish d max_tokens round_tokens))]]),
           (''usage'', openai_usage (dr_usage d))])"

end
