(* ===== verification/StopFilter.thy ===== *)
theory StopFilter
  imports Values
begin

text \<open>
  \<open>StopSequenceFilter\<close> of \<open>crates/kproxyd/src/http/response.rs\<close>: the streaming filter that
  cuts an answer at the first stop sequence and never shows a part of one. Each sequence is matched
  by a Knuth-Morris-Pratt automaton. \<^const>\<open>None\<close> is a panic (an index out of range, a slice that is
  not at a character boundary) or a loop that does not end.
\<close>

section \<open>Definitions\<close>

record compiled_stop_sequence =
  cs_value :: string
  cs_failure :: "nat list"
  cs_state :: nat

text \<open>The inner loop: \<open>while state > 0 && byte != bytes[state] { state = failure[state - 1]; }\<close>\<close>

partial_function (option) fall_back :: "string \<Rightarrow> nat list \<Rightarrow> char \<Rightarrow> nat \<Rightarrow> nat option" where
  "fall_back bytes failure b state =
     (if state = 0 then Some 0
      else if \<not> state < length bytes then None
      else if b = bytes ! state then Some state
      else if \<not> state - 1 < length failure then None
      else fall_back bytes failure b (failure ! (state - 1)))"

text \<open>The whole step of the automaton: \<open>if byte == bytes[state] { state += 1; }\<close> after the loop.\<close>

definition kmp_next :: "string \<Rightarrow> nat list \<Rightarrow> char \<Rightarrow> nat \<Rightarrow> nat option" where
  "kmp_next bytes failure b state =
     (case fall_back bytes failure b state of
        None \<Rightarrow> None
      | Some s \<Rightarrow> if \<not> s < length bytes then None else Some (if b = bytes ! s then s + 1 else s))"

text \<open>The loop of \<open>CompiledStopSequence::new\<close> over the remaining indices.\<close>

fun build_failure :: "string \<Rightarrow> nat list \<Rightarrow> nat list \<Rightarrow> nat \<Rightarrow> nat list option" where
  "build_failure bytes [] failure pre = Some failure"
| "build_failure bytes (index # indices) failure pre =
     (case kmp_next bytes failure (bytes ! index) pre of
        None \<Rightarrow> None
      | Some pre' \<Rightarrow> build_failure bytes indices (failure[index := pre']) pre')"

definition compile_stop_sequence :: "string \<Rightarrow> compiled_stop_sequence option" where
  "compile_stop_sequence value = map_option
     (\<lambda>failure. \<lparr>cs_value = value, cs_failure = failure, cs_state = 0\<rparr>)
     (build_failure value [1..<length value] (replicate (length value) 0) 0)"

definition cs_advance :: "char \<Rightarrow> compiled_stop_sequence \<Rightarrow> (bool \<times> compiled_stop_sequence) option" where
  "cs_advance b q = map_option (\<lambda>s. (s = length (cs_value q), q\<lparr>cs_state := s\<rparr>))
     (kmp_next (cs_value q) (cs_failure q) b (cs_state q))"

record stop_filter =
  sf_sequences :: "compiled_stop_sequence list"
  sf_pending :: string
  sf_matched :: "string option"
  sf_visible_bytes :: nat

fun compile_all ::
  "string list \<Rightarrow> compiled_stop_sequence list \<Rightarrow> compiled_stop_sequence list option" where
  "compile_all [] compiled = Some compiled"
| "compile_all (q # qs) compiled =
     (if q = [] \<or> list_ex (\<lambda>candidate. cs_value candidate = q) compiled then compile_all qs compiled
      else (case compile_stop_sequence q of
          None \<Rightarrow> None | Some c \<Rightarrow> compile_all qs (compiled @ [c])))"

definition stop_filter_new :: "string list \<Rightarrow> stop_filter option" where
  "stop_filter_new sequences = map_option
     (\<lambda>compiled. \<lparr>sf_sequences = compiled, sf_pending = [], sf_matched = None, sf_visible_bytes = 0\<rparr>)
     (compile_all sequences [])"

text \<open>\<open>find_map\<close> stops at the first sequence that is complete.\<close>

fun advance_all ::
  "char \<Rightarrow> compiled_stop_sequence list \<Rightarrow> (nat option \<times> compiled_stop_sequence list) option" where
  "advance_all b [] = Some (None, [])"
| "advance_all b (q # qs) = (case cs_advance b q of
       None \<Rightarrow> None
     | Some (True, q') \<Rightarrow> Some (Some 0, q' # qs)
     | Some (False, q') \<Rightarrow> map_option (\<lambda>(i, qs'). (map_option Suc i, q' # qs')) (advance_all b qs))"

text \<open>\<open>value[..end]\<close>\<close>

definition str_slice_to :: "string \<Rightarrow> nat \<Rightarrow> string option" where
  "str_slice_to s n = (if n \<le> length s \<and> is_char_boundary s n then Some (take n s) else None)"

fun push_bytes :: "string \<Rightarrow> nat \<Rightarrow> stop_filter \<Rightarrow> (string \<times> stop_filter) option" where
  "push_bytes [] read f =
     (let retained = foldr max (map cs_state (sf_sequences f)) 0;
          split = length (sf_pending f) - retained
      in case str_slice_to (sf_pending f) split of
           None \<Rightarrow> None
         | Some visible \<Rightarrow> Some (visible, f\<lparr>sf_pending := drop split (sf_pending f),
             sf_visible_bytes := sat_add (sf_visible_bytes f) (length visible)\<rparr>))"
| "push_bytes (b # bs) read f = (case advance_all b (sf_sequences f) of
       None \<Rightarrow> None
     | Some (None, qs) \<Rightarrow> push_bytes bs (read + 1) (f\<lparr>sf_sequences := qs\<rparr>)
     | Some (Some i, qs) \<Rightarrow>
         (let match_end = read + 1; match_start = match_end - length (cs_value (qs ! i))
          in case str_slice_to (sf_pending f) match_start of
               None \<Rightarrow> None
             | Some visible \<Rightarrow> Some (visible, f\<lparr>sf_sequences := qs, sf_pending := [],
                 sf_matched := Some (cs_value (qs ! i)),
                 sf_visible_bytes := sat_add (sf_visible_bytes f) (length visible)\<rparr>)))"

definition stop_push :: "string \<Rightarrow> stop_filter \<Rightarrow> (string \<times> stop_filter) option" where
  "stop_push text f =
     (if sf_matched f \<noteq> None then Some ([], f)
      else if sf_sequences f = []
      then Some (text, f\<lparr>sf_visible_bytes := sat_add (sf_visible_bytes f) (length text)\<rparr>)
      else push_bytes text (length (sf_pending f)) (f\<lparr>sf_pending := sf_pending f @ text\<rparr>))"

definition stop_finish :: "stop_filter \<Rightarrow> string \<times> stop_filter" where
  "stop_finish f0 =
     (let f = f0\<lparr>sf_sequences := map (\<lambda>q. q\<lparr>cs_state := 0\<rparr>) (sf_sequences f0)\<rparr> in
      if sf_matched f \<noteq> None then ([], f\<lparr>sf_pending := []\<rparr>)
      else (sf_pending f, f\<lparr>sf_pending := [],
        sf_visible_bytes := sat_add (sf_visible_bytes f) (length (sf_pending f))\<rparr>))"

section \<open>The automaton\<close>

text \<open>The automaton's state is the length of the longest prefix of the pattern the text ends with.\<close>

definition fits :: "'a list \<Rightarrow> 'a list \<Rightarrow> nat \<Rightarrow> bool" where
  "fits w t k \<longleftrightarrow> k \<le> length w \<and> suffix (take k w) t"

definition is_state :: "'a list \<Rightarrow> 'a list \<Rightarrow> nat \<Rightarrow> bool" where
  "is_state w t s \<longleftrightarrow> fits w t s \<and> (\<forall>k. fits w t k \<longrightarrow> k \<le> s)"

definition table_ok :: "'a list \<Rightarrow> nat list \<Rightarrow> nat \<Rightarrow> bool" where
  "table_ok w f n \<longleftrightarrow> n \<le> length f \<and> (\<forall>j < n. is_state w (tl (take (j + 1) w)) (f ! j))"

lemma fits_snoc: "fits w (t @ [b]) k \<longleftrightarrow> k = 0 \<or> (\<exists>j. k = Suc j \<and> j < length w \<and> w ! j = b \<and> fits w t j)"
proof (cases k)
  case (Suc j)
  show ?thesis
  proof (cases "j < length w")
    case True
    then show ?thesis
      by (auto simp: Suc fits_def take_Suc_conv_app_nth)
  qed (auto simp: Suc fits_def)
qed (simp add: fits_def)

text \<open>Of two prefixes the text ends with, the shorter is an end of the longer.\<close>

lemma fits_shorter:
  assumes "fits w t s" and "k < s"
  shows "fits w t k \<longleftrightarrow> fits w (tl (take s w)) k"
proof -
  have s: "s \<le> length w" "suffix (take s w) t" using assms(1) by (simp_all add: fits_def)
  have len: "length (take k w) < length (take s w)" using assms(2) s(1) by simp
  obtain x xs where x: "take s w = x # xs" using assms(2) s(1) by (cases "take s w") auto
  have ne: "take k w \<noteq> x # xs" using len x by force
  have "suffix (take k w) t \<longleftrightarrow> suffix (take k w) (take s w)"
  proof
    assume "suffix (take k w) t"
    from suffix_length_suffix [OF this s(2)] len show "suffix (take k w) (take s w)" by linarith
  next
    assume "suffix (take k w) (take s w)"
    from suffix_order.trans [OF this s(2)] show "suffix (take k w) t" .
  qed
  also have "\<dots> \<longleftrightarrow> suffix (take k w) (tl (take s w))"
    unfolding x list.sel suffix_Cons using ne by blast
  finally show ?thesis using assms(2) s(1) unfolding fits_def by simp
qed

lemma is_stateI: "fits w t s \<Longrightarrow> (\<And>k. fits w t k \<Longrightarrow> k \<le> s) \<Longrightarrow> is_state w t s"
  by (simp add: is_state_def)

lemma fits_length: "fits w t k \<Longrightarrow> k \<le> length t"
  unfolding fits_def using suffix_length_le by fastforce

text \<open>The inner loop ends at the longest fitting prefix that the next byte extends.\<close>

lemma fall_back_spec:
  assumes "table_ok w f n" "s \<le> n" "s < length w" "fits w t s"
  shows "\<exists>r. fall_back w f b s = Some r \<and> r < length w \<and> fits w t r \<and> (r = 0 \<or> w ! r = b) \<and>
    (\<forall>k \<le> s. fits w t k \<and> w ! k = b \<longrightarrow> k \<le> r)"
  using assms(2-)
proof (induction s rule: less_induct)
  case (less s)
  show ?case
  proof (cases "s = 0 \<or> w ! s = b")
    case True
    then have "fall_back w f b s = Some s" using less.prems by (subst fall_back.simps) auto
    with True less.prems show ?thesis by blast
  next
    case False
    let ?j = "f ! (s - 1)"
    have j: "is_state w (tl (take s w)) ?j" and fl: "s - 1 < length f"
      using assms(1) less.prems(1) False unfolding table_ok_def by (auto dest!: spec [of _ "s - 1"])
    have "?j \<le> length (tl (take s w))" using j fits_length unfolding is_state_def by blast
    then have lt: "?j < s" using False less.prems(2) by (simp add: min_absorb2) linarith
    have step: "fall_back w f b s = fall_back w f b ?j"
      using False less.prems(2) fl by (subst fall_back.simps) auto
    have "fits w t ?j" using j fits_shorter [OF less.prems(3) lt] by (simp add: is_state_def)
    moreover have "?j \<le> n" "?j < length w" using lt less.prems by simp_all
    ultimately obtain r where r: "fall_back w f b ?j = Some r" "r < length w" "fits w t r" "r = 0 \<or> w ! r = b"
      "\<forall>k \<le> ?j. fits w t k \<and> w ! k = b \<longrightarrow> k \<le> r"
      using less.IH [OF lt] by blast
    have "k \<le> r" if "k \<le> s" "fits w t k" "w ! k = b" for k
    proof -
      have "k < s" using that(1,3) False by (metis le_neq_implies_less)
      then have "fits w (tl (take s w)) k" using fits_shorter [OF less.prems(3)] that(2) by blast
      then have "k \<le> ?j" using j by (simp add: is_state_def)
      with r(5) that show ?thesis by blast
    qed
    with r step show ?thesis by auto
  qed
qed

lemma kmp_next_spec:
  assumes "table_ok w f n" "s \<le> n" "s < length w" "is_state w t s"
  shows "\<exists>s'. kmp_next w f b s = Some s' \<and> is_state w (t @ [b]) s' \<and> s' \<le> s + 1"
proof -
  have fit: "fits w t s" and max: "\<And>k. fits w t k \<Longrightarrow> k \<le> s" using assms(4) by (simp_all add: is_state_def)
  obtain r where r: "fall_back w f b s = Some r" "r < length w" "fits w t r" "r = 0 \<or> w ! r = b"
      "\<forall>k \<le> s. fits w t k \<and> w ! k = b \<longrightarrow> k \<le> r"
    using fall_back_spec [OF assms(1-3) fit] by blast
  let ?s = "if b = w ! r then r + 1 else r"
  have "is_state w (t @ [b]) ?s"
  proof (rule is_stateI)
    show "fits w (t @ [b]) ?s" using r(2-4) by (auto simp: fits_snoc)
  next
    fix k assume "fits w (t @ [b]) k"
    then consider "k = 0" | j where "k = Suc j" "w ! j = b" "fits w t j" by (auto simp: fits_snoc)
    then show "k \<le> ?s"
    proof cases
      case 2
      then have "j \<le> r" using r(5) max by blast
      with 2 r(4) show ?thesis by auto
    qed simp
  qed
  moreover have "?s \<le> s + 1" using max [OF r(3)] by simp
  moreover have "kmp_next w f b s = Some ?s" using r(1,2) by (simp add: kmp_next_def)
  ultimately show ?thesis by blast
qed

text \<open>The failure table is the automaton run on the pattern's own tail.\<close>

lemma build_failure_ok:
  assumes "1 \<le> i" "i \<le> length w" "length f = length w" "table_ok w f i" "is_state w (tl (take i w)) pre"
  shows "\<exists>f'. build_failure w [i..<length w] f pre = Some f' \<and> table_ok w f' (length w)"
  using assms
proof (induction "length w - i" arbitrary: i f pre)
  case 0
  then have "i = length w" by simp
  with 0 show ?case by simp
next
  case (Suc m)
  then have i: "i < length w" by simp
  have "pre \<le> length (tl (take i w))" using Suc.prems(5) fits_length unfolding is_state_def by blast
  then have pre: "pre < i" using Suc.prems(1,2) by simp
  obtain s' where s': "kmp_next w f (w ! i) pre = Some s'" "is_state w (tl (take i w) @ [w ! i]) s'"
    using kmp_next_spec [OF Suc.prems(4) _ _ Suc.prems(5)] pre i by (meson less_imp_le less_trans)
  have tl: "tl (take i w) @ [w ! i] = tl (take (Suc i) w)"
    using i Suc.prems(1) by (cases "take i w") (auto simp: take_Suc_conv_app_nth)
  have st: "is_state w (tl (take (Suc i) w)) s'" using s'(2) tl by simp
  have "table_ok w (f[i := s']) (Suc i)"
    using Suc.prems(3,4) i st unfolding table_ok_def by (auto simp: nth_list_update less_Suc_eq)
  then have "\<exists>f'. build_failure w [Suc i..<length w] (f[i := s']) s' = Some f' \<and> table_ok w f' (length w)"
    using Suc.hyps(1) [of "Suc i" "f[i := s']" s'] Suc.hyps(2) Suc.prems(3) i st by simp
  then show ?case using i s'(1) by (simp add: upt_conv_Cons)
qed

lemma is_state_Nil [simp]: "is_state w [] s \<longleftrightarrow> s = 0"
  by (auto simp: is_state_def fits_def)

lemma compile_ok:
  assumes "w \<noteq> []"
  shows "\<exists>c. compile_stop_sequence w = Some c \<and> cs_value c = w \<and> cs_state c = 0 \<and>
    table_ok w (cs_failure c) (length w)"
proof -
  have l: "1 \<le> length w" using assms by (cases w) auto
  have "tl (take 1 w) = []" using assms by (cases w) auto
  moreover have "table_ok w (replicate (length w) 0) 1" using l assms by (auto simp: table_ok_def neq_Nil_conv)
  ultimately obtain f where "build_failure w [1..<length w] (replicate (length w) 0) 0 = Some f"
      "table_ok w f (length w)"
    using build_failure_ok [OF _ l, of "replicate (length w) 0" 0] by auto
  then show ?thesis by (simp add: compile_stop_sequence_def)
qed


section \<open>The filter against its specification\<close>

text \<open>
  The specification reads the whole text at once. The stop is the earliest position at which the
  text ends with one of the sequences; of several sequences that end there, the first of the list.
\<close>

definition ended_by :: "string list \<Rightarrow> string \<Rightarrow> string option" where
  "ended_by ws t = find (\<lambda>w. suffix w t) ws"

definition stop_spec :: "string list \<Rightarrow> string \<Rightarrow> string \<times> string option" where
  "stop_spec ws t =
     (case find (\<lambda>e. ended_by ws (take e t) \<noteq> None) [1..<Suc (length t)] of
        None \<Rightarrow> (t, None)
      | Some e \<Rightarrow> (case ended_by ws (take e t) of
            None \<Rightarrow> (t, None) | Some w \<Rightarrow> (take (e - length w) t, Some w)))"

text \<open>The client: a filter for the request's sequences, a push per chunk, and the end.\<close>

fun push_all :: "string list \<Rightarrow> stop_filter \<Rightarrow> (string \<times> stop_filter) option" where
  "push_all [] f = Some ([], f)"
| "push_all (c # cs) f = (case stop_push c f of
       None \<Rightarrow> None
     | Some (v, f') \<Rightarrow> map_option (\<lambda>(vs, g). (v @ vs, g)) (push_all cs f'))"

definition stop_stream :: "string list \<Rightarrow> string list \<Rightarrow> (string \<times> string option) option" where
  "stop_stream sequences chunks =
     (case stop_filter_new sequences of
        None \<Rightarrow> None
      | Some f \<Rightarrow> map_option (\<lambda>(v, g). (v @ fst (stop_finish g), sf_matched (snd (stop_finish g))))
          (push_all chunks f))"

text \<open>What the compiled sequences are after the text \<open>t\<close>, of which the last \<open>r\<close> bytes are held.\<close>

definition seq_ok :: "string \<Rightarrow> nat \<Rightarrow> compiled_stop_sequence \<Rightarrow> bool" where
  "seq_ok t r q \<longleftrightarrow> table_ok (cs_value q) (cs_failure q) (length (cs_value q)) \<and>
     is_state (cs_value q) t (cs_state q) \<and> cs_state q < length (cs_value q) \<and> cs_state q \<le> r"

lemma is_state_full:
  assumes "is_state w t s"
  shows "s = length w \<longleftrightarrow> suffix w t"
proof
  assume "suffix w t"
  then have "fits w t (length w)" by (simp add: fits_def)
  with assms show "s = length w" unfolding is_state_def fits_def by (meson le_antisym)
qed (use assms in \<open>auto simp: is_state_def fits_def\<close>)

lemma cs_advance_spec:
  assumes "seq_ok t r q"
  shows "\<exists>q'. cs_advance b q = Some (suffix (cs_value q) (t @ [b]), q') \<and> cs_value q' = cs_value q \<and>
    (suffix (cs_value q) (t @ [b]) \<longrightarrow> length (cs_value q) \<le> r + 1) \<and>
    (\<not> suffix (cs_value q) (t @ [b]) \<longrightarrow> seq_ok (t @ [b]) (r + 1) q')"
proof -
  have q: "table_ok (cs_value q) (cs_failure q) (length (cs_value q))" "is_state (cs_value q) t (cs_state q)"
      "cs_state q < length (cs_value q)" "cs_state q \<le> r"
    using assms by (simp_all add: seq_ok_def)
  obtain s where s: "kmp_next (cs_value q) (cs_failure q) b (cs_state q) = Some s"
      "is_state (cs_value q) (t @ [b]) s" "s \<le> cs_state q + 1"
    using kmp_next_spec [OF q(1) less_imp_le [OF q(3)] q(3) q(2)] by blast
  have full: "s = length (cs_value q) \<longleftrightarrow> suffix (cs_value q) (t @ [b])" by (rule is_state_full [OF s(2)])
  have "s \<le> length (cs_value q)" using s(2) by (simp add: is_state_def fits_def)
  then show ?thesis using q(1,4) s full by (auto simp: cs_advance_def seq_ok_def)
qed

lemma ended_by_simps [simp]:
  "ended_by [] t = None"
  "ended_by (w # ws) t = (if suffix w t then Some w else ended_by ws t)"
  by (simp_all add: ended_by_def)

lemma ended_byD: "ended_by ws t = Some w \<Longrightarrow> w \<in> set ws \<and> suffix w t"
  by (induction ws) (auto split: if_splits)

lemma advance_all_spec:
  assumes "\<forall>q \<in> set qs. seq_ok t r q"
  shows "case ended_by (map cs_value qs) (t @ [b]) of
      None \<Rightarrow> \<exists>qs'. advance_all b qs = Some (None, qs') \<and> map cs_value qs' = map cs_value qs \<and>
        (\<forall>q \<in> set qs'. seq_ok (t @ [b]) (r + 1) q)
    | Some w \<Rightarrow> \<exists>i qs'. advance_all b qs = Some (Some i, qs') \<and> i < length qs' \<and>
        cs_value (qs' ! i) = w \<and> length w \<le> r + 1"
  using assms
proof (induction qs)
  case (Cons q qs)
  obtain q' where q': "cs_advance b q = Some (suffix (cs_value q) (t @ [b]), q')" "cs_value q' = cs_value q"
      "suffix (cs_value q) (t @ [b]) \<Longrightarrow> length (cs_value q) \<le> r + 1"
      "\<not> suffix (cs_value q) (t @ [b]) \<Longrightarrow> seq_ok (t @ [b]) (r + 1) q'"
    using cs_advance_spec [of t r q b] Cons.prems by (auto simp del: suffix_snoc)
  show ?case
  proof (cases "suffix (cs_value q) (t @ [b])")
    case True
    then show ?thesis using q' by (simp del: suffix_snoc)
  next
    case False
    then have adv: "cs_advance b q = Some (False, q')" "seq_ok (t @ [b]) (r + 1) q'" using q' by simp_all
    show ?thesis
    proof (cases "ended_by (map cs_value qs) (t @ [b])")
      case None
      then obtain qs' where "advance_all b qs = Some (None, qs')" "map cs_value qs' = map cs_value qs"
          "\<forall>q \<in> set qs'. seq_ok (t @ [b]) (r + 1) q"
        using Cons by auto
      then show ?thesis using adv q'(2) False None by (simp del: suffix_snoc)
    next
      case (Some w)
      then obtain i qs' where "advance_all b qs = Some (Some i, qs')" "i < length qs'"
          "cs_value (qs' ! i) = w" "length w \<le> r + 1"
        using Cons by auto
      then show ?thesis using adv(1) False Some by (simp del: suffix_snoc)
    qed
  qed
qed simp

text \<open>A slice that starts where a sequence may start is at a character boundary.\<close>

definition starts_char :: "string \<Rightarrow> bool" where
  "starts_char w \<longleftrightarrow> (case w of [] \<Rightarrow> True | c # _ \<Rightarrow> byte c < 128 \<or> 191 < byte c)"

lemma slice_at:
  assumes "starts_char x" "x \<noteq> []"
  shows "str_slice_to (p @ x @ z) (length p) = Some p"
  using assms by (cases x) (auto simp: str_slice_to_def is_char_boundary_def starts_char_def nth_append)

lemma slice_before_prefix:
  assumes "suffix (take k w) s" "starts_char w" "k \<le> length w"
  shows "str_slice_to s (length s - k) = Some (take (length s - k) s)"
proof (cases "k = 0")
  case False
  then have x: "starts_char (take k w)" "take k w \<noteq> []"
    using assms(2,3) by (cases w; cases k; simp add: starts_char_def)+
  obtain p where s: "s = p @ take k w" using assms(1) by (auto simp: suffix_def)
  then show ?thesis using slice_at [OF x, of p "[]"] assms(3) by simp
qed (simp add: str_slice_to_def is_char_boundary_def)

lemma suffix_of_held:
  assumes "suffix x (v @ y)" "length x \<le> length y"
  shows "suffix x y"
  using suffix_length_suffix [OF assms(1) suffixI [OF refl] assms(2)] .


fun stop_from :: "string list \<Rightarrow> string \<Rightarrow> string \<Rightarrow> (nat \<times> string) option" where
  "stop_from ws t [] = None"
| "stop_from ws t (b # bs) = (case ended_by ws (t @ [b]) of
       Some w \<Rightarrow> Some (length t + 1, w)
     | None \<Rightarrow> stop_from ws (t @ [b]) bs)"

lemma stop_from_append:
  "stop_from ws t (bs @ cs) = (case stop_from ws t bs of
     Some r \<Rightarrow> Some r | None \<Rightarrow> stop_from ws (t @ bs) cs)"
  by (induction bs arbitrary: t) (auto split: option.splits)

lemma stop_from_bounds:
  "stop_from ws t bs = Some (e, w) \<Longrightarrow> e \<le> length t + length bs"
  by (induction bs arbitrary: t) (fastforce split: option.splits)+

lemma stop_from_eq_find:
  "stop_from ws t bs =
     map_option (\<lambda>e. (e, the (ended_by ws (take e (t @ bs)))))
       (find (\<lambda>e. ended_by ws (take e (t @ bs)) \<noteq> None) [Suc (length t)..<Suc (length t + length bs)])"
proof (induction bs arbitrary: t)
  case (Cons b bs)
  have up: "[Suc (length t)..<Suc (length t + length (b # bs))] =
      Suc (length t) # [Suc (length (t @ [b]))..<Suc (length (t @ [b]) + length bs)]"
    by (simp add: upt_conv_Cons del: upt_Suc)
  have tk: "take (Suc (length t)) (t @ b # bs) = t @ [b]" by simp
  show ?case unfolding up using Cons.IH [of "t @ [b]"] tk
    by (simp del: upt_Suc split: option.splits)
qed simp

lemma stop_spec_eq:
  "stop_spec ws t = (case stop_from ws [] t of
     None \<Rightarrow> (t, None) | Some (e, w) \<Rightarrow> (take (e - length w) t, Some w))"
proof -
  have "ended_by ws (take e t) \<noteq> None"
    if "find (\<lambda>e. ended_by ws (take e t) \<noteq> None) [1..<Suc (length t)] = Some e" for e
    using that unfolding find_Some_iff by auto
  then show ?thesis unfolding stop_spec_def stop_from_eq_find
    by (force simp del: upt_Suc not_None_eq split: option.split)
qed

lemma foldr_max_upper: "x \<in> set xs \<Longrightarrow> x \<le> foldr max xs (0 :: nat)"
  by (induction xs) auto

lemma foldr_max_attained: "foldr max xs (0 :: nat) = 0 \<or> foldr max xs 0 \<in> set xs"
  by (induction xs) (auto simp: max_def)

text \<open>
  A filter that has read \<open>t\<close> and shown \<open>v\<close> holds back exactly the longest end of \<open>t\<close> that a sequence
  starts with.
\<close>

definition filter_ok :: "string list \<Rightarrow> string \<Rightarrow> string \<Rightarrow> stop_filter \<Rightarrow> bool" where
  "filter_ok ws t v f \<longleftrightarrow> map cs_value (sf_sequences f) = ws \<and> sf_matched f = None \<and>
     t = v @ sf_pending f \<and> (\<forall>q \<in> set (sf_sequences f). seq_ok t (length (sf_pending f)) q) \<and>
     length (sf_pending f) = foldr max (map cs_state (sf_sequences f)) 0"

lemma push_end_spec:
  assumes "\<forall>q \<in> set (sf_sequences f). seq_ok t (length (sf_pending f)) q"
    "t = v @ sf_pending f" "sf_matched f = None"
    "\<forall>q \<in> set (sf_sequences f). starts_char (cs_value q)"
  shows "\<exists>x f'. push_bytes [] r f = Some (x, f') \<and> filter_ok (map cs_value (sf_sequences f)) t (v @ x) f'"
proof -
  let ?p = "sf_pending f" and ?m = "foldr max (map cs_state (sf_sequences f)) 0"
  have m: "?m \<le> length ?p \<and> str_slice_to ?p (length ?p - ?m) = Some (take (length ?p - ?m) ?p)"
  proof (cases "?m = 0")
    case False
    then obtain q where q: "q \<in> set (sf_sequences f)" "?m = cs_state q"
      using foldr_max_attained [of "map cs_state (sf_sequences f)"] by auto
    then have ok: "seq_ok t (length ?p) q" and sc: "starts_char (cs_value q)" using assms(1,4) by auto
    then have le: "cs_state q \<le> length ?p" "cs_state q \<le> length (cs_value q)"
        and sx: "suffix (take (cs_state q) (cs_value q)) (v @ ?p)"
      using assms(2) by (auto simp: seq_ok_def is_state_def fits_def)
    have "suffix (take (cs_state q) (cs_value q)) ?p"
      using suffix_of_held [OF sx] le by simp
    from slice_before_prefix [OF this sc le(2)] le(1) show ?thesis unfolding q(2) by simp
  qed (simp add: str_slice_to_def is_char_boundary_def)
  have "seq_ok t ?m q" if "q \<in> set (sf_sequences f)" for q
    using assms(1) that foldr_max_upper [of "cs_state q" "map cs_state (sf_sequences f)"]
    by (auto simp: seq_ok_def)
  then show ?thesis using m assms(2,3) by (simp add: Let_def filter_ok_def)
qed

lemma push_bytes_spec:
  assumes "\<forall>q \<in> set (sf_sequences f). seq_ok t r q" "t = v @ y" "sf_pending f = y @ bs" "length y = r"
    "sf_matched f = None" "map cs_value (sf_sequences f) = ws" "\<forall>w \<in> set ws. starts_char w"
  shows "\<exists>x f'. push_bytes bs r f = Some (x, f') \<and>
    (case stop_from ws t bs of
       None \<Rightarrow> filter_ok ws (t @ bs) (v @ x) f'
     | Some (e, w) \<Rightarrow> sf_matched f' = Some w \<and> v @ x = take (e - length w) (t @ bs))"
  using assms(1-6)
proof (induction bs arbitrary: t r f y)
  case Nil
  then show ?case using push_end_spec [of f t v r] assms(7) by auto
next
  case (Cons b bs)
  note adv = advance_all_spec [OF Cons.prems(1), of b, unfolded Cons.prems(6)]
  show ?case
  proof (cases "ended_by ws (t @ [b])")
    case None
    then obtain qs where qs: "advance_all b (sf_sequences f) = Some (None, qs)" "map cs_value qs = ws"
        "\<forall>q \<in> set qs. seq_ok (t @ [b]) (r + 1) q"
      using adv by auto
    have "\<exists>x f'. push_bytes bs (r + 1) (f\<lparr>sf_sequences := qs\<rparr>) = Some (x, f') \<and>
      (case stop_from ws (t @ [b]) bs of
       None \<Rightarrow> filter_ok ws ((t @ [b]) @ bs) (v @ x) f'
     | Some (e, w) \<Rightarrow> sf_matched f' = Some w \<and> v @ x = take (e - length w) ((t @ [b]) @ bs))"
      by (rule Cons.IH [of _ "t @ [b]" _ "y @ [b]"]) (use Cons.prems(2-5) qs in simp_all)
    then show ?thesis unfolding append_assoc append_Cons append_Nil using qs(1) None by simp
  next
    case (Some w)
    then obtain i qs where qs: "advance_all b (sf_sequences f) = Some (Some i, qs)"
        "cs_value (qs ! i) = w" "length w \<le> r + 1"
      using adv by auto
    have w: "w \<in> set ws" "suffix w (t @ [b])" using ended_byD [OF Some] by simp_all
    then obtain q where "q \<in> set (sf_sequences f)" "cs_value q = w" using Cons.prems(6) by auto
    then have sc: "starts_char w" "w \<noteq> []"
      using assms(7) w(1) Cons.prems(1) unfolding seq_ok_def by (blast, fastforce)
    have "suffix w (y @ [b])"
      using suffix_of_held [of w v "y @ [b]"] w(2) qs(3) Cons.prems(2,4) by simp
    then obtain p where p: "y @ [b] = p @ w" by (auto simp: suffix_def)
    have rest: "y @ b # bs = p @ w @ bs" using p by simp
    have "length y + 1 = length p + length w" using arg_cong [OF p, of length] by simp
    then have len: "r + 1 - length w = length p" "length (v @ y) + 1 - length w = length (v @ p)"
      using Cons.prems(4) by simp_all
    have "push_bytes (b # bs) r f = Some (p, f\<lparr>sf_sequences := qs, sf_pending := [],
        sf_matched := Some w, sf_visible_bytes := sat_add (sf_visible_bytes f) (length p)\<rparr>)"
      using qs(1,2) len(1) slice_at [OF sc, of p bs] Cons.prems(3) rest by (simp add: Let_def)
    moreover have whole: "t @ b # bs = (v @ p) @ w @ bs" using rest Cons.prems(2) by simp
    have start: "length t + 1 - length w = length (v @ p)" using len(2) Cons.prems(2) by simp
    have "v @ p = take (length t + 1 - length w) (t @ b # bs)" unfolding whole start by simp
    ultimately show ?thesis using Some by simp
  qed
qed


lemma stop_push_spec:
  assumes "filter_ok ws t v f" "\<forall>w \<in> set ws. starts_char w"
  shows "\<exists>x f'. stop_push c f = Some (x, f') \<and>
    (case stop_from ws t c of
       None \<Rightarrow> filter_ok ws (t @ c) (v @ x) f'
     | Some (e, w) \<Rightarrow> sf_matched f' = Some w \<and> v @ x = take (e - length w) (t @ c))"
proof (cases "sf_sequences f = []")
  case True
  then have ws: "ws = []" "sf_pending f = []" using assms(1) by (auto simp: filter_ok_def)
  have "stop_from [] t c = None" for t by (induction c arbitrary: t) auto
  then show ?thesis using assms(1) True ws by (auto simp: stop_push_def filter_ok_def)
next
  case False
  have f: "map cs_value (sf_sequences f) = ws" "sf_matched f = None" "t = v @ sf_pending f"
      "\<forall>q \<in> set (sf_sequences f). seq_ok t (length (sf_pending f)) q"
    using assms(1) unfolding filter_ok_def by blast+
  have "stop_push c f = push_bytes c (length (sf_pending f)) (f\<lparr>sf_pending := sf_pending f @ c\<rparr>)"
    using False f(2) by (simp add: stop_push_def)
  with push_bytes_spec [of "f\<lparr>sf_pending := sf_pending f @ c\<rparr>" t _ v "sf_pending f" c ws] f assms(2)
  show ?thesis by simp
qed

lemma push_all_matched: "sf_matched f = Some w \<Longrightarrow> push_all cs f = Some ([], f)"
  by (induction cs) (simp_all add: stop_push_def)

lemma push_all_spec:
  assumes "filter_ok ws t v f" "\<forall>w \<in> set ws. starts_char w"
  shows "\<exists>x f'. push_all cs f = Some (x, f') \<and>
    (case stop_from ws t (concat cs) of
       None \<Rightarrow> filter_ok ws (t @ concat cs) (v @ x) f'
     | Some (e, w) \<Rightarrow> sf_matched f' = Some w \<and> v @ x = take (e - length w) (t @ concat cs))"
  using assms(1)
proof (induction cs arbitrary: t v f)
  case (Cons c cs)
  obtain x f' where push: "stop_push c f = Some (x, f')" and
    r: "case stop_from ws t c of
       None \<Rightarrow> filter_ok ws (t @ c) (v @ x) f'
     | Some (e, w) \<Rightarrow> sf_matched f' = Some w \<and> v @ x = take (e - length w) (t @ c)"
    using stop_push_spec [OF Cons.prems assms(2)] by blast
  show ?case
  proof (cases "stop_from ws t c")
    case None
    with r have "filter_ok ws (t @ c) (v @ x) f'" by simp
    from Cons.IH [OF this] obtain y g where "push_all cs f' = Some (y, g)"
      "case stop_from ws (t @ c) (concat cs) of
         None \<Rightarrow> filter_ok ws ((t @ c) @ concat cs) ((v @ x) @ y) g
       | Some (e, w) \<Rightarrow> sf_matched g = Some w \<and> (v @ x) @ y = take (e - length w) ((t @ c) @ concat cs)"
      by blast
    then show ?thesis using push None by (simp add: stop_from_append cong: option.case_cong)
  next
    case (Some ew)
    obtain e w where ew: "ew = (e, w)" by (cases ew)
    have "e \<le> length t + length c" using stop_from_bounds Some ew by blast
    then show ?thesis using r Some ew push push_all_matched [of f' w cs] by (simp add: stop_from_append)
  qed
qed simp

text \<open>Dropping repeated sequences does not change which one ends a text.\<close>

lemma ended_by_append: "ended_by (us @ ws) t = (case ended_by us t of None \<Rightarrow> ended_by ws t | Some w \<Rightarrow> Some w)"
  by (induction us) auto

lemma ended_by_miss: "\<not> suffix q t \<Longrightarrow> ended_by (us @ q # ws) t = ended_by (us @ ws) t"
  by (induction us) auto

lemma ended_by_repeat: "q \<in> set us \<Longrightarrow> ended_by (us @ q # ws) t = ended_by (us @ ws) t"
  by (induction us) (auto simp: ended_by_miss)

lemma compile_all_spec:
  assumes "\<forall>c \<in> set acc. seq_ok [] 0 c"
  shows "\<exists>cs. compile_all qs acc = Some cs \<and> (\<forall>c \<in> set cs. seq_ok [] 0 c) \<and>
    (\<forall>t. ended_by (map cs_value cs) t = ended_by (map cs_value acc @ filter (\<lambda>q. q \<noteq> []) qs) t) \<and>
    set (map cs_value cs) = set (map cs_value acc) \<union> set (filter (\<lambda>q. q \<noteq> []) qs)"
  using assms
proof (induction qs arbitrary: acc)
  case (Cons q qs)
  show ?case
  proof (cases "q = [] \<or> q \<in> set (map cs_value acc)")
    case True
    then have same: "compile_all (q # qs) acc = compile_all qs acc"
      "\<And>t. ended_by (map cs_value acc @ filter (\<lambda>q. q \<noteq> []) (q # qs)) t =
        ended_by (map cs_value acc @ filter (\<lambda>q. q \<noteq> []) qs) t"
      using ended_by_repeat [of q "map cs_value acc"] by (auto simp: list_ex_iff)
    have "set (map cs_value acc) \<union> set (filter (\<lambda>q. q \<noteq> []) (q # qs)) =
        set (map cs_value acc) \<union> set (filter (\<lambda>q. q \<noteq> []) qs)"
      using True by auto
    then show ?thesis unfolding same using Cons.IH [OF Cons.prems] by presburger
  next
    case False
    then obtain c where c: "compile_stop_sequence q = Some c" "cs_value c = q" "cs_state c = 0"
        "table_ok q (cs_failure c) (length q)"
      using compile_ok by blast
    then have "seq_ok [] 0 c" using False by (simp add: seq_ok_def)
    then have "\<forall>d \<in> set (acc @ [c]). seq_ok [] 0 d" using Cons.prems by simp
    note ih = Cons.IH [OF this]
    have "compile_all (q # qs) acc = compile_all qs (acc @ [c])"
      using False c(1) by (auto simp: list_ex_iff)
    moreover have "set (map cs_value (acc @ [c])) \<union> set (filter (\<lambda>q. q \<noteq> []) qs) =
        set (map cs_value acc) \<union> set (filter (\<lambda>q. q \<noteq> []) (q # qs))"
      using False c(2) by auto
    moreover have "map cs_value (acc @ [c]) @ filter (\<lambda>q. q \<noteq> []) qs =
        map cs_value acc @ filter (\<lambda>q. q \<noteq> []) (q # qs)"
      using False c(2) by simp
    ultimately show ?thesis using ih by presburger
  qed
qed simp

lemma stop_from_cong: "(\<And>t. ended_by us t = ended_by ws t) \<Longrightarrow> stop_from us t bs = stop_from ws t bs"
  by (induction bs arbitrary: t) (simp_all cong: option.case_cong)

lemma stop_filter_new_ok:
  assumes "\<forall>q \<in> set sequences. starts_char q"
  obtains f ws where "stop_filter_new sequences = Some f" "filter_ok ws [] [] f"
    "\<And>t. ended_by ws t = ended_by (filter (\<lambda>q. q \<noteq> []) sequences) t"
    "set ws = set (filter (\<lambda>q. q \<noteq> []) sequences)"
proof -
  obtain cs where cs: "compile_all sequences [] = Some cs" "\<forall>c \<in> set cs. seq_ok [] 0 c"
      "\<And>t. ended_by (map cs_value cs) t = ended_by (filter (\<lambda>q. q \<noteq> []) sequences) t"
      "set (map cs_value cs) = set (filter (\<lambda>q. q \<noteq> []) sequences)"
    using compile_all_spec [of "[]" sequences] by auto
  let ?f = "\<lparr>sf_sequences = cs, sf_pending = [], sf_matched = None, sf_visible_bytes = 0\<rparr>"
  have "foldr max (map cs_state cs) 0 = 0" using foldr_max_attained [of "map cs_state cs"] cs(2)
    by (auto simp: seq_ok_def)
  then have "filter_ok (map cs_value cs) [] [] ?f" using cs(2) by (simp add: filter_ok_def)
  moreover have "stop_filter_new sequences = Some ?f" using cs(1) by (simp add: stop_filter_new_def)
  ultimately show ?thesis using that cs(3,4) by blast
qed

lemma stop_run_spec:
  assumes "\<forall>q \<in> set sequences. starts_char q"
  obtains f x g us where "stop_filter_new sequences = Some f" "push_all chunks f = Some (x, g)"
    "set us = set (filter (\<lambda>q. q \<noteq> []) sequences)"
    "case stop_from (filter (\<lambda>q. q \<noteq> []) sequences) [] (concat chunks) of
       None \<Rightarrow> filter_ok us (concat chunks) x g
     | Some (e, w) \<Rightarrow> sf_matched g = Some w \<and> x = take (e - length w) (concat chunks)"
proof -
  obtain f ws where f: "stop_filter_new sequences = Some f" "filter_ok ws [] [] f"
    "\<And>t. ended_by ws t = ended_by (filter (\<lambda>q. q \<noteq> []) sequences) t"
    "set ws = set (filter (\<lambda>q. q \<noteq> []) sequences)"
    using stop_filter_new_ok [OF assms] by blast
  have "\<forall>w \<in> set ws. starts_char w" using f(4) assms by simp
  from push_all_spec [OF f(2) this, of chunks] show ?thesis
    unfolding stop_from_cong [OF f(3)] append_Nil using that [OF f(1) _ f(4)] by blast
qed

lemma stop_run_finish:
  assumes "\<forall>q \<in> set sequences. starts_char q"
  obtains f x g where "stop_filter_new sequences = Some f" "push_all chunks f = Some (x, g)"
    "(x @ fst (stop_finish g), sf_matched (snd (stop_finish g))) =
       stop_spec (filter (\<lambda>q. q \<noteq> []) sequences) (concat chunks)"
proof -
  let ?ws = "filter (\<lambda>q. q \<noteq> []) sequences"
  obtain f x g us where run: "stop_filter_new sequences = Some f" "push_all chunks f = Some (x, g)"
    "case stop_from ?ws [] (concat chunks) of
       None \<Rightarrow> filter_ok us (concat chunks) x g
     | Some (e, w) \<Rightarrow> sf_matched g = Some w \<and> x = take (e - length w) (concat chunks)"
    by (rule stop_run_spec [OF assms, of chunks])
  have "(x @ fst (stop_finish g), sf_matched (snd (stop_finish g))) = stop_spec ?ws (concat chunks)"
    using run(3) unfolding stop_spec_eq stop_finish_def filter_ok_def Let_def
    by (cases "stop_from ?ws [] (concat chunks)") auto
  with run(1,2) show ?thesis by (rule that)
qed

text \<open>C18: The stop filter is exact and does not depend on the chunks. For every list of stop
  sequences and every split of the text into chunks, nothing panics, the failure tables of the
  matching automata included, and what is shown, with what \<open>finish\<close> releases, is the text up to the
  earliest complete stop sequence, with the sequence that matched; the whole text when none occurs.
  The hypothesis holds of every Rust string: its first byte is not a UTF-8 continuation byte.\<close>

theorem stop_filter_exact:
  assumes "\<forall>q \<in> set sequences. starts_char q"
  shows "stop_stream sequences chunks =
    Some (stop_spec (filter (\<lambda>q. q \<noteq> []) sequences) (concat chunks))"
proof -
  obtain f x g where "stop_filter_new sequences = Some f" "push_all chunks f = Some (x, g)"
    "(x @ fst (stop_finish g), sf_matched (snd (stop_finish g))) =
       stop_spec (filter (\<lambda>q. q \<noteq> []) sequences) (concat chunks)"
    by (rule stop_run_finish [OF assms])
  then show ?thesis by (simp add: stop_stream_def)
qed

theorem stop_filter_exact_witness:
  "stop_stream [''END'', ''EN''] [''ab E'', ''EN'', ''D''] = Some (''ab E'', Some ''EN'')"
  using stop_filter_exact [of "[''END'', ''EN'']" "[''ab E'', ''EN'', ''D'']"]
  by (simp add: starts_char_def byte_def, code_simp)

text \<open>The stop filter never holds back more than it must. While no stop sequence is complete,
  the text read is the text shown followed by the held text; the held text is the longest end of
  what was read that some stop sequence starts with.\<close>

theorem stop_filter_holds_minimum:
  assumes "\<forall>q \<in> set sequences. starts_char q"
    and "snd (stop_spec (filter (\<lambda>q. q \<noteq> []) sequences) (concat chunks)) = None"
  shows "\<exists>f x g. stop_filter_new sequences = Some f \<and> push_all chunks f = Some (x, g) \<and>
    concat chunks = x @ sf_pending g \<and>
    (sf_pending g = [] \<or> (\<exists>q \<in> set sequences. strict_prefix (sf_pending g) q)) \<and>
    (\<forall>q \<in> set sequences. \<forall>k < length q.
       suffix (take k q) (concat chunks) \<longrightarrow> k \<le> length (sf_pending g))"
proof -
  let ?ws = "filter (\<lambda>q. q \<noteq> []) sequences" and ?t = "concat chunks"
  obtain f x g us where run: "stop_filter_new sequences = Some f" "push_all chunks f = Some (x, g)"
    "set us = set ?ws"
    "case stop_from ?ws [] ?t of
       None \<Rightarrow> filter_ok us ?t x g
     | Some (e, w) \<Rightarrow> sf_matched g = Some w \<and> x = take (e - length w) ?t"
    by (rule stop_run_spec [OF assms(1), of chunks])
  have "stop_from ?ws [] ?t = None" using assms(2) by (auto simp: stop_spec_eq split: option.splits)
  then have "filter_ok us ?t x g" using run(4) by simp
  then have g: "map cs_value (sf_sequences g) = us" "?t = x @ sf_pending g"
      "\<forall>q \<in> set (sf_sequences g). seq_ok ?t (length (sf_pending g)) q"
      "length (sf_pending g) = foldr max (map cs_state (sf_sequences g)) 0"
    unfolding filter_ok_def by blast+
  have "sf_pending g = [] \<or> (\<exists>q \<in> set sequences. strict_prefix (sf_pending g) q)"
  proof (cases "sf_pending g = []")
    case False
    then obtain q where q: "q \<in> set (sf_sequences g)" "length (sf_pending g) = cs_state q"
      using foldr_max_attained [of "map cs_state (sf_sequences g)"] g(4) by auto
    then have ok: "suffix (take (cs_state q) (cs_value q)) (x @ sf_pending g)"
        "cs_state q < length (cs_value q)"
      using g(2,3) by (auto simp: seq_ok_def is_state_def fits_def)
    from suffix_of_held [OF ok(1)] q(2)
    have "suffix (take (cs_state q) (cs_value q)) (sf_pending g)" by simp
    then have "take (cs_state q) (cs_value q) = sf_pending g" using q(2) ok(2) by (auto simp: suffix_def)
    then have "strict_prefix (sf_pending g) (cs_value q)"
      using ok(2) by (metis q(2) less_irrefl strict_prefixI take_is_prefix)
    moreover have "cs_value q \<in> set us" using g(1) q(1) by auto
    then have "cs_value q \<in> set sequences" using run(3) by simp
    ultimately show ?thesis by blast
  qed simp
  moreover have "k \<le> length (sf_pending g)"
    if k: "q \<in> set sequences" "k < length q" "suffix (take k q) ?t" for q k
  proof -
    have "q \<noteq> []" using k(2) by auto
    then have "q \<in> set us" unfolding run(3) using k(1) by simp
    then have "q \<in> cs_value ` set (sf_sequences g)" unfolding g(1) [symmetric] by simp
    then obtain c where c: "c \<in> set (sf_sequences g)" "cs_value c = q" by blast
    from c g(3) have ok: "seq_ok ?t (length (sf_pending g)) c" by blast
    have "fits (cs_value c) ?t k" using k(2,3) c(2) by (simp add: fits_def)
    then have "k \<le> cs_state c" using ok unfolding seq_ok_def is_state_def by blast
    also have "\<dots> \<le> length (sf_pending g)" using ok unfolding seq_ok_def by blast
    finally show ?thesis .
  qed
  ultimately show ?thesis using run(1,2) g(2) by blast
qed

theorem stop_filter_holds_minimum_witness:
  "\<exists>f x g. stop_filter_new [''STOP''] = Some f \<and> push_all [''a S'', ''T''] f = Some (x, g) \<and>
    ''a ST'' = x @ sf_pending g"
proof -
  have "snd (stop_spec [''STOP''] ''a ST'') = None" by code_simp
  then show ?thesis using stop_filter_holds_minimum [of "[''STOP'']" "[''a S'', ''T'']"]
    by (auto simp: starts_char_def byte_def)
qed

end
