(* ===== verification/ClaudeStream.thy ===== *)
theory ClaudeStream
  imports Decoded StopFilter
begin

text \<open>
  \<open>crates/kproxyd/src/http/stream.rs\<close>: the encoders that turn upstream events into the
  Claude and OpenAI server-sent events. A Claude operation returns the values it emits, in order,
  and the new state; \<open>sse\<close> prints each. \<open>enc\<close>, \<open>parse\<close> and \<open>to_json\<close> are the parameters of
  the previous theory.
\<close>

section \<open>State\<close>

record claude_state =
  cl_request_id :: string
  cl_model :: string
  cl_input_tokens :: nat
  cl_auto_compaction_original_input_tokens :: "nat option"
  cl_compaction_iteration :: "compaction_iteration_usage option"
  cl_compaction_in_start :: bool
  cl_context_edit_stats :: claude_context_edit_stats
  cl_message_started :: bool
  cl_block :: "(nat \<times> string) option"
  cl_next_index :: nat
  cl_tool_indices :: "(string, nat) hmap"
  cl_tools_with_input :: "string set"
  cl_openai_thinking_open :: bool
  cl_openai_include_usage :: bool
  cl_cache_creation_input_tokens :: nat
  cl_cache_read_input_tokens :: nat
  cl_visible_text :: string
  cl_emitted_citation_links :: "string set"

definition claude_state_new :: "string \<Rightarrow> string \<Rightarrow> nat \<Rightarrow> claude_state" where
  "claude_state_new request_id model input_tokens =
     \<lparr>cl_request_id = request_id, cl_model = model, cl_input_tokens = input_tokens,
      cl_auto_compaction_original_input_tokens = None, cl_compaction_iteration = None,
      cl_compaction_in_start = False, cl_context_edit_stats = edit_stats_default,
      cl_message_started = False, cl_block = None, cl_next_index = 0, cl_tool_indices = [],
      cl_tools_with_input = {}, cl_openai_thinking_open = False, cl_openai_include_usage = False,
      cl_cache_creation_input_tokens = 0, cl_cache_read_input_tokens = 0, cl_visible_text = [],
      cl_emitted_citation_links = {}\<rparr>"

definition set_prompt_cache_plan :: "claude_state \<Rightarrow> claude_state" where
  "set_prompt_cache_plan s =
     s\<lparr>cl_cache_creation_input_tokens := 0, cl_cache_read_input_tokens := 0\<rparr>"

section \<open>The events of the Claude protocol\<close>

definition message_start_event :: "claude_state \<Rightarrow> json" where
  "message_start_event s = jobj [(''type'', JString ''message_start''), (''message'', jobj [
     (''id'', JString (cl_request_id s)), (''type'', JString ''message''),
     (''role'', JString ''assistant''), (''content'', JArray []), (''model'', JString (cl_model s)),
     (''stop_reason'', JNull), (''stop_sequence'', JNull),
     (''usage'', jobj [
        (''input_tokens'', jnum (cl_input_tokens s - cl_cache_creation_input_tokens s
           - cl_cache_read_input_tokens s)),
        (''output_tokens'', jnum 0),
        (''cache_creation_input_tokens'', jnum (cl_cache_creation_input_tokens s)),
        (''cache_read_input_tokens'', jnum (cl_cache_read_input_tokens s))])])]"

definition block_start :: "nat \<Rightarrow> json \<Rightarrow> json" where
  "block_start index initial = jobj [(''type'', JString ''content_block_start''),
     (''index'', jnum index), (''content_block'', initial)]"

definition block_delta :: "nat \<Rightarrow> json \<Rightarrow> json" where
  "block_delta index delta = jobj [(''type'', JString ''content_block_delta''),
     (''index'', jnum index), (''delta'', delta)]"

definition block_stop :: "nat \<Rightarrow> json" where
  "block_stop index = jobj [(''type'', JString ''content_block_stop''), (''index'', jnum index)]"

definition ensure_message :: "claude_state \<Rightarrow> json list \<times> claude_state" where
  "ensure_message s =
     (if cl_message_started s then ([], s)
      else ([message_start_event s], s\<lparr>cl_message_started := True\<rparr>))"

definition open_block :: "string \<Rightarrow> json \<Rightarrow> claude_state \<Rightarrow> nat \<times> json list \<times> claude_state" where
  "open_block kind initial s =
     (let index = cl_next_index s in
      (index, [block_start index initial],
       s\<lparr>cl_next_index := index + 1, cl_block := Some (index, kind)\<rparr>))"

definition switch_block :: "string \<Rightarrow> json \<Rightarrow> claude_state \<Rightarrow> nat \<times> json list \<times> claude_state" where
  "switch_block kind initial s0 =
     (let (start, s) = ensure_message s0 in
      case cl_block s of
        Some (index, current) \<Rightarrow>
          (if current = kind \<and> kind \<noteq> ''tool_use'' then (index, start, s)
           else let (i, out, s') = open_block kind initial s in (i, start @ block_stop index # out, s'))
      | None \<Rightarrow> (let (i, out, s') = open_block kind initial s in (i, start @ out, s')))"

definition close_block :: "claude_state \<Rightarrow> claude_state" where
  "close_block s = s\<lparr>cl_block := None\<rparr>"

text \<open>A block that is opened, filled and closed at once.\<close>

definition whole_block :: "string \<Rightarrow> json \<Rightarrow> json list \<Rightarrow> claude_state \<Rightarrow> json list \<times> claude_state" where
  "whole_block kind initial deltas s =
     (let (index, out, s') = switch_block kind initial s
      in (out @ map (block_delta index) deltas @ [block_stop index], close_block s'))"

definition text_delta :: "string \<Rightarrow> json" where
  "text_delta t = jobj [(''type'', JString ''text_delta''), (''text'', JString t)]"

definition emit_text :: "string \<Rightarrow> claude_state \<Rightarrow> json list \<times> claude_state" where
  "emit_text content s0 =
     (let (index, out, s) = switch_block ''text'' (text_block [])
            (s0\<lparr>cl_visible_text := cl_visible_text s0 @ content\<rparr>)
      in (out @ [block_delta index (text_delta content)], s))"

definition emit_thinking :: "string \<Rightarrow> string option \<Rightarrow> claude_state \<Rightarrow> json list \<times> claude_state" where
  "emit_thinking content signature s0 =
     (if content = [] \<and> signature = None then ([], s0)
      else let (index, out, s) = switch_block ''thinking'' (jobj [(''type'', JString ''thinking''),
                 (''thinking'', JString []), (''signature'', JString [])]) s0
           in (out @ (if content = [] then []
                 else [block_delta index (jobj [(''type'', JString ''thinking_delta''),
                         (''thinking'', JString content)])])
               @ (case signature of None \<Rightarrow> []
                  | Some sg \<Rightarrow> [block_delta index (jobj [(''type'', JString ''signature_delta''),
                         (''signature'', JString sg)])]), s))"

definition emit_redacted :: "string option \<Rightarrow> claude_state \<Rightarrow> json list \<times> claude_state" where
  "emit_redacted redacted s =
     (case redacted of None \<Rightarrow> ([], s)
      | Some data \<Rightarrow> whole_block ''redacted_thinking'' (jobj [(''type'', JString ''redacted_thinking''),
           (''data'', JString data)]) [] s)"

definition tool_index :: "string \<Rightarrow> string \<Rightarrow> claude_state \<Rightarrow> nat \<times> json list \<times> claude_state" where
  "tool_index tid name s0 =
     (case hm_get (cl_tool_indices s0) tid of
        Some index \<Rightarrow> (index, [], s0)
      | None \<Rightarrow>
          (let (index, out, s) = switch_block ''tool_use'' (jobj [(''type'', JString ''tool_use''),
                 (''id'', JString tid), (''name'', JString name), (''input'', jobj [])]) s0
           in (index, out, s\<lparr>cl_tool_indices := hm_insert tid index (cl_tool_indices s)\<rparr>)))"

definition emit_tool :: "string \<Rightarrow> string \<Rightarrow> string \<Rightarrow> bool \<Rightarrow> claude_state \<Rightarrow> json list \<times> claude_state" where
  "emit_tool tid name delta stop s0 =
     (let (index, out, s1) = tool_index tid name s0;
          s2 = (if trim delta = [] then s1
            else s1\<lparr>cl_tools_with_input := insert tid (cl_tools_with_input s1)\<rparr>);
          deltas = (if delta \<noteq> [] \<and> tid \<in> cl_tools_with_input s2
            then [block_delta index (jobj [(''type'', JString ''input_json_delta''),
                    (''partial_json'', JString delta)])] else [])
      in if stop \<and> cl_block s2 = Some (index, ''tool_use'')
         then (out @ deltas @ [block_stop index], close_block s2)
         else (out @ deltas, s2))"

text \<open>The citations that were not shown yet.\<close>

definition fresh_references :: "kiro_citation list \<Rightarrow> claude_state \<Rightarrow> string \<times> claude_state" where
  "fresh_references citations s =
     (let (fresh, seen) = first_seen kiro_citation_key (cl_emitted_citation_links s) citations
      in (kiro_visible_references fresh, s\<lparr>cl_emitted_citation_links := seen\<rparr>))"

definition claude_event :: "kiro_event \<Rightarrow> claude_state \<Rightarrow> json list \<times> claude_state" where
  "claude_event event s =
     (case event of
        AssistantResponse content \<Rightarrow> emit_text content s
      | Reasoning content signature redacted \<Rightarrow>
          (let (out1, s1) = emit_thinking content signature s;
               (out2, s2) = emit_redacted redacted s1
           in (out1 @ out2, s2))
      | Citations citations \<Rightarrow>
          (let (fallback, s1) = fresh_references citations s
           in if fallback = [] then ([], s1) else emit_text fallback s1)
      | ToolUse tid name delta stop \<Rightarrow> emit_tool tid name delta stop s
      | _ \<Rightarrow> ([], s))"

definition compaction :: "string \<Rightarrow> claude_state \<Rightarrow> json list \<times> claude_state" where
  "compaction content s =
     whole_block ''compaction'' (jobj [(''type'', JString ''compaction''),
         (''content'', if cl_compaction_in_start s then JString content else JNull)])
       (if cl_compaction_in_start s then []
        else [jobj [(''type'', JString ''compaction_delta''), (''content'', JString content)]]) s"

definition server_tool_block ::
  "(json \<Rightarrow> string) \<Rightarrow> string \<Rightarrow> string \<Rightarrow> json \<Rightarrow> claude_state \<Rightarrow> json list \<times> claude_state" where
  "server_tool_block to_json tid name input =
     whole_block ''server_tool_use'' (jobj [(''type'', JString ''server_tool_use''),
         (''id'', JString tid), (''name'', JString name), (''input'', jobj [])])
       [jobj [(''type'', JString ''input_json_delta''), (''partial_json'', JString (to_json input))]]"

definition tool_search ::
  "(json \<Rightarrow> string) \<Rightarrow> claude_tool_search_trace \<Rightarrow> claude_state \<Rightarrow> json list \<times> claude_state" where
  "tool_search to_json search s0 =
     (let (out1, s1) = (if tq_emission search \<noteq> ResultOnly
            then server_tool_block to_json (tq_id search) (tq_name search) (tq_input search) s0
            else ([], s0))
      in if tq_emission search = Pending then (out1, s1)
         else let (out2, s2) = whole_block ''tool_search_tool_result''
                    (jobj [(''type'', JString ''tool_search_tool_result''),
                       (''tool_use_id'', JString (tq_id search)),
                       (''content'', tool_search_result search)]) [] s1
              in (out1 @ out2, s2))"

definition web_search ::
  "(json \<Rightarrow> string) \<Rightarrow> replay_codec \<Rightarrow> claude_web_search_trace \<Rightarrow> claude_state \<Rightarrow>
     (web_search_replay_error + json list) \<times> claude_state" where
  "web_search to_json enc search s0 =
     (let (out1, s1) = (if ws_emission search \<noteq> ResultOnly
            then server_tool_block to_json (ws_id search) ''web_search'' (ws_input search) s0
            else ([], s0))
      in if ws_emission search = Pending then (Inr out1, s1)
         else (case web_search_content enc search of
             Inl e \<Rightarrow> (Inl e, s1)
           | Inr result \<Rightarrow>
               (let (out2, s2) = whole_block ''web_search_tool_result''
                    (jobj [(''type'', JString ''web_search_tool_result''),
                       (''tool_use_id'', JString (ws_id search)), (''content'', result),
                       (''caller'', jobj [(''type'', JString ''direct'')])]) [] s1
                in (Inr (out1 @ out2), s2))))"

definition citation_events ::
  "replay_codec \<Rightarrow> claude_web_search_trace list \<Rightarrow> string \<Rightarrow> claude_state \<Rightarrow>
     (web_search_replay_error + json list) \<times> claude_state" where
  "citation_events enc searches answer s =
     (if \<not> (case cl_block s of Some (_, kind) \<Rightarrow> kind = ''text'' | None \<Rightarrow> False) then (Inr [], s)
      else (case web_search_citations searches answer enc of
          Inl e \<Rightarrow> (Inl e, s)
        | Inr [] \<Rightarrow> (Inr [], s)
        | Inr citations \<Rightarrow>
            (let (index, out, s') = switch_block ''text'' (jobj [(''type'', JString ''text''),
                   (''text'', JString []), (''citations'', JArray [])]) s
             in (Inr (out @ map (\<lambda>c. block_delta index (jobj [(''type'', JString ''citations_delta''),
                   (''citation'', c)])) citations), s'))))"

definition message_delta_event :: "decoded_response \<Rightarrow> nat option \<Rightarrow> nat \<Rightarrow> claude_state \<Rightarrow> json" where
  "message_delta_event d max_tokens round_tokens s =
     with_edits (cl_context_edit_stats s) (cl_auto_compaction_original_input_tokens s)
       (cl_input_tokens s)
       (jobj [(''type'', JString ''message_delta''),
          (''delta'', jobj [(''stop_reason'', JString (claude_stop d max_tokens round_tokens)),
             (''stop_sequence'', jopt (dr_stop_sequence d))]),
          (''usage'', claude_usage d (cl_compaction_iteration s))])"

definition claude_finish ::
  "decoded_response \<Rightarrow> nat option \<Rightarrow> nat \<Rightarrow> claude_state \<Rightarrow> json list \<times> claude_state" where
  "claude_finish d max_tokens round_tokens s0 =
     (let (start, s) = ensure_message s0
      in (start @ (case cl_block s of None \<Rightarrow> [] | Some (index, _) \<Rightarrow> [block_stop index]) @
            [message_delta_event d max_tokens round_tokens s,
             jobj [(''type'', JString ''message_stop'')]], close_block s))"

section \<open>The OpenAI encoder\<close>

definition openai_chunk :: "claude_state \<Rightarrow> int \<Rightarrow> string \<Rightarrow> bool \<Rightarrow> json list \<Rightarrow> json" where
  "openai_chunk s created model null_usage choices =
     (let chunk = jobj [(''id'', JString (cl_request_id s)), (''object'', JString ''chat.completion.chunk''),
            (''created'', JNumber (if 0 \<le> created then PosInt (of_int created) else NegInt (of_int created))),
            (''model'', JString model), (''choices'', JArray choices)]
      in if null_usage then v_set ''usage'' JNull chunk else chunk)"

definition openai_choice :: "json \<Rightarrow> json \<Rightarrow> json" where
  "openai_choice delta finish_reason =
     jobj [(''index'', jnum 0), (''delta'', delta), (''finish_reason'', finish_reason)]"

definition content_delta :: "string \<Rightarrow> json" where
  "content_delta t = jobj [(''content'', JString t)]"

text \<open>Text closes a \<open><thinking>\<close> tag that is still open.\<close>

definition openai_text :: "string \<Rightarrow> claude_state \<Rightarrow> json \<times> claude_state" where
  "openai_text content s =
     (content_delta ((if cl_openai_thinking_open s then ''</thinking>'' else []) @ content),
      s\<lparr>cl_visible_text := cl_visible_text s @ content, cl_openai_thinking_open := False\<rparr>)"

definition openai_reasoning ::
  "thinking_output_format \<Rightarrow> string \<Rightarrow> claude_state \<Rightarrow> json \<times> claude_state" where
  "openai_reasoning fmt content s =
     (case fmt of
        OpenaiThinking \<Rightarrow>
          (if content = [] then jobj [] else jobj [(''reasoning_content'', JString content)], s)
      | ClaudeThinking \<Rightarrow>
          (content_delta ((if cl_openai_thinking_open s then [] else ''<thinking>'') @ content),
           s\<lparr>cl_openai_thinking_open := True\<rparr>))"

definition openai_tool ::
  "(string \<Rightarrow> json option) \<Rightarrow> (string, openai_tool_identity) hmap \<Rightarrow>
     string \<Rightarrow> string \<Rightarrow> string \<Rightarrow> bool \<Rightarrow> claude_state \<Rightarrow> json \<times> claude_state" where
  "openai_tool parse identities tid name delta stop s0 =
     (let index = unwrap_or (hm_get (cl_tool_indices s0) tid) (length (cl_tool_indices s0));
          s = (if hm_contains (cl_tool_indices s0) tid then s0
            else s0\<lparr>cl_tool_indices := hm_insert tid index (cl_tool_indices s0)\<rparr>);
          identity = hm_get identities name;
          original = (case identity of None \<Rightarrow> name | Some i \<Rightarrow> oi_name i);
          call = (\<lambda>kind field. jobj [(''tool_calls'', JArray [jobj [(''index'', jnum index),
            (''id'', JString tid), (''type'', JString kind), (kind, field)]])])
      in if (case identity of Some i \<Rightarrow> oi_kind i = ''custom'' | None \<Rightarrow> False)
         then (call ''custom'' (jobj [(''name'', JString original),
                 (''input'', JString (if stop then custom_tool_input parse delta else delta))]),
               s\<lparr>cl_tools_with_input := insert tid (cl_tools_with_input s)\<rparr>)
         else let arguments = (if trim delta = [] \<and> tid \<notin> cl_tools_with_input s
                    then (if stop then ''{}'' else []) else delta)
              in (call ''function'' (jobj [(''name'', JString original), (''arguments'', JString arguments)]),
                  if trim arguments = [] then s
                  else s\<lparr>cl_tools_with_input := insert tid (cl_tools_with_input s)\<rparr>))"

definition openai_event ::
  "(string \<Rightarrow> json option) \<Rightarrow> int \<Rightarrow> string \<Rightarrow> thinking_output_format \<Rightarrow>
     (string, openai_tool_identity) hmap \<Rightarrow> kiro_event \<Rightarrow> claude_state \<Rightarrow> json list \<times> claude_state" where
  "openai_event parse created model fmt identities event s =
     (let emit = (\<lambda>(delta, s'). ([openai_chunk s' created model (cl_openai_include_usage s')
            [openai_choice delta JNull]], s'))
      in case event of
        AssistantResponse content \<Rightarrow> emit (openai_text content s)
      | Reasoning content _ _ \<Rightarrow> emit (openai_reasoning fmt content s)
      | Citations citations \<Rightarrow>
          (let (references, s1) = fresh_references citations s
           in if references = [] then ([], s1) else emit (openai_text references s1))
      | ToolUse tid name delta stop \<Rightarrow> emit (openai_tool parse identities tid name delta stop s)
      | _ \<Rightarrow> ([], s))"

text \<open>Calls that ended without any argument still need the empty object.\<close>

fun empty_calls :: "(string \<times> tool_buffer) list \<Rightarrow> claude_state \<Rightarrow> json list \<times> claude_state" where
  "empty_calls [] s = ([], s)"
| "empty_calls ((_, tool) # tools) s =
     (if tb_input tool \<noteq> ''{}'' \<or> tb_id tool \<in> cl_tools_with_input s then empty_calls tools s
      else case hm_get (cl_tool_indices s) (tb_id tool) of
        None \<Rightarrow> empty_calls tools s
      | Some index \<Rightarrow>
          (let (calls, s') = empty_calls tools
                 (s\<lparr>cl_tools_with_input := insert (tb_id tool) (cl_tools_with_input s)\<rparr>)
           in (jobj [(''index'', jnum index),
                 (''function'', jobj [(''arguments'', JString ''{}'')])] # calls, s')))"

definition openai_finish_chunks ::
  "decoded_response \<Rightarrow> int \<Rightarrow> string \<Rightarrow> nat option \<Rightarrow> nat \<Rightarrow> thinking_output_format \<Rightarrow> bool \<Rightarrow>
     claude_state \<Rightarrow> json list \<times> claude_state" where
  "openai_finish_chunks d created model max_tokens round_tokens fmt include_usage s0 =
     (let (calls, s1) = empty_calls (dr_tools d) s0;
          chunk = (\<lambda>delta finish. openai_chunk s0 created model include_usage [openai_choice delta finish]);
          closes = fmt = ClaudeThinking \<and> cl_openai_thinking_open s1;
          s2 = (if closes then s1\<lparr>cl_openai_thinking_open := False\<rparr> else s1)
      in ((if calls = [] then [] else [chunk (jobj [(''tool_calls'', JArray calls)]) JNull]) @
          (if closes then [chunk (content_delta ''</thinking>'') JNull] else []) @
          [chunk (jobj []) (JString (openai_finish d max_tokens round_tokens))] @
          (if include_usage
           then [v_set ''usage'' (openai_usage (dr_usage d)) (openai_chunk s0 created model False [])]
           else []), s2))"

section \<open>Both protocols\<close>

datatype stream_protocol = ClaudeProtocol | OpenAiProtocol

definition sse :: "(json \<Rightarrow> string) \<Rightarrow> json \<Rightarrow> string" where
  "sse to_json value = ''event: '' @ unwrap_or (get_str value ''type'') ''message'' @ [CHR 0x0A] @
     ''data: '' @ to_json value @ [CHR 0x0A, CHR 0x0A]"

definition data_line :: "(json \<Rightarrow> string) \<Rightarrow> json \<Rightarrow> string" where
  "data_line to_json chunk = ''data: '' @ to_json chunk @ [CHR 0x0A, CHR 0x0A]"

definition stream_event ::
  "(string \<Rightarrow> json option) \<Rightarrow> (json \<Rightarrow> string) \<Rightarrow> stream_protocol \<Rightarrow> kiro_event \<Rightarrow> int \<Rightarrow> string \<Rightarrow>
     thinking_output_format \<Rightarrow> (string, openai_tool_identity) hmap \<Rightarrow> claude_state \<Rightarrow>
     string list \<times> claude_state" where
  "stream_event parse to_json protocol event created model fmt identities s =
     (case protocol of
        ClaudeProtocol \<Rightarrow> (let (out, s') = claude_event event s in (map (sse to_json) out, s'))
      | OpenAiProtocol \<Rightarrow>
          (let (out, s') = openai_event parse created model fmt identities event s
           in (map (data_line to_json) out, s')))"

definition stream_finish ::
  "(json \<Rightarrow> string) \<Rightarrow> stream_protocol \<Rightarrow> decoded_response \<Rightarrow> int \<Rightarrow> string \<Rightarrow> nat option \<Rightarrow> nat \<Rightarrow>
     thinking_output_format \<Rightarrow> bool \<Rightarrow> claude_state \<Rightarrow> string list \<times> claude_state" where
  "stream_finish to_json protocol d created model max_tokens round_tokens fmt include_usage s =
     (case protocol of
        ClaudeProtocol \<Rightarrow>
          (let (out, s') = claude_finish d max_tokens round_tokens s in (map (sse to_json) out, s'))
      | OpenAiProtocol \<Rightarrow>
          (let (out, s') = openai_finish_chunks d created model max_tokens round_tokens fmt
                 include_usage s
           in (map (data_line to_json) out @ [''data: [DONE]'' @ [CHR 0x0A, CHR 0x0A]], s')))"

definition accumulate_usage :: "usage_info \<Rightarrow> usage_info \<Rightarrow> usage_info" where
  "accumulate_usage total_usage addition =
     \<lparr>ui_input_tokens = sat_add (ui_input_tokens total_usage) (ui_input_tokens addition),
      ui_output_tokens = sat_add (ui_output_tokens total_usage) (ui_output_tokens addition),
      ui_credits = f_add (ui_credits total_usage) (ui_credits addition),
      ui_cache_read_tokens = sat_add (ui_cache_read_tokens total_usage) (ui_cache_read_tokens addition),
      ui_cache_write_tokens = sat_add (ui_cache_write_tokens total_usage) (ui_cache_write_tokens addition),
      ui_reasoning_tokens = sat_add (ui_reasoning_tokens total_usage) (ui_reasoning_tokens addition)\<rparr>"

text \<open>The stop filter in front of the encoder; \<^const>\<open>None\<close> outside is its panic.\<close>

definition client_visible_event ::
  "kiro_event \<Rightarrow> stop_filter \<Rightarrow> (kiro_event option \<times> stop_filter) option" where
  "client_visible_event event f =
     (case event of
        AssistantResponse content \<Rightarrow>
          map_option (\<lambda>(visible, f'). (if visible = [] then None else Some (AssistantResponse visible), f'))
            (stop_push content f)
      | _ \<Rightarrow> Some (Some event, f))"

definition apply_stream_stop :: "stop_filter \<Rightarrow> decoded_response \<Rightarrow> decoded_response" where
  "apply_stream_stop f d =
     (case sf_matched f of
        None \<Rightarrow> d
      | Some sequence \<Rightarrow>
          stop_at_sequence (unwrap_or (str_slice_to (dr_text d) (sf_visible_bytes f)) (dr_text d)) sequence d)"

fun event_kind :: "kiro_event \<Rightarrow> string" where
  "event_kind (AssistantResponse _) = ''assistant_response''"
| "event_kind (ToolUse _ _ _ _) = ''tool_use''"
| "event_kind (Reasoning _ _ _) = ''reasoning''"
| "event_kind (Citations _) = ''citations''"
| "event_kind (MessageMetadata _) = ''message_metadata''"
| "event_kind (UsageReport _) = ''usage''"
| "event_kind (ErrorEvent _ _) = ''error''"
| "event_kind (OtherEvent _ _) = ''other''"

fun event_is_web_search :: "kiro_event \<Rightarrow> nat \<Rightarrow> bool" where
  "event_is_web_search (ToolUse _ name _ _) max_rounds \<longleftrightarrow> 0 < max_rounds \<and> name = ''web_search''"
| "event_is_web_search _ _ \<longleftrightarrow> False"

fun restore_web_tool_name :: "(string, string) hmap \<Rightarrow> kiro_event \<Rightarrow> kiro_event" where
  "restore_web_tool_name names (ToolUse tid name delta stop) =
     ToolUse tid (unwrap_or (hm_get names name) name) delta stop"
| "restore_web_tool_name names event = event"

fun restore_tool_event_name ::
  "(string, string) hmap \<Rightarrow> kiro_event \<Rightarrow> kiro_event \<times> (string, string) hmap" where
  "restore_tool_event_name names (ToolUse tid name delta stop) =
     (if name = [] then (ToolUse tid (unwrap_or (hm_get names tid) name) delta stop, names)
      else (ToolUse tid name delta stop,
            if hm_contains names tid then names else hm_insert tid name names))"
| "restore_tool_event_name names event = (event, names)"

fun should_buffer_tool_event :: "bool \<Rightarrow> (string, openai_tool_identity) hmap \<Rightarrow> kiro_event \<Rightarrow> bool" where
  "should_buffer_tool_event configured identities (ToolUse _ name _ _) \<longleftrightarrow>
     configured \<or> (case hm_get identities name of Some i \<Rightarrow> oi_kind i = ''custom'' | None \<Rightarrow> False)"
| "should_buffer_tool_event configured identities _ \<longleftrightarrow> False"

section \<open>The start of a stream\<close>

record stream_settings =
  sg_request_id :: string
  sg_model :: string
  sg_input_tokens :: nat
  sg_include_usage_chunk :: bool
  sg_auto_compaction_original_input_tokens :: "nat option"
  sg_compaction_iteration :: "compaction_iteration_usage option"
  sg_compaction_in_start :: bool
  sg_context_edit_stats :: claude_context_edit_stats

definition build_claude_state :: "stream_settings \<Rightarrow> claude_state" where
  "build_claude_state context =
     set_prompt_cache_plan
       ((claude_state_new (sg_request_id context) (sg_model context) (sg_input_tokens context))
        \<lparr>cl_openai_include_usage := sg_include_usage_chunk context,
         cl_auto_compaction_original_input_tokens := sg_auto_compaction_original_input_tokens context,
         cl_compaction_iteration := sg_compaction_iteration context,
         cl_compaction_in_start := sg_compaction_in_start context,
         cl_context_edit_stats := sg_context_edit_stats context\<rparr>)"

text \<open>The searches of a resumed turn; \<open>enc n\<close> is the codec at the \<open>n\<close>th of them.\<close>

fun resumed_events ::
  "(json \<Rightarrow> string) \<Rightarrow> (nat \<Rightarrow> replay_codec) \<Rightarrow> claude_tool_search_trace list \<Rightarrow> claude_web_search_trace list \<Rightarrow>
     nat \<Rightarrow> claude_server_event list \<Rightarrow> claude_state \<Rightarrow> (web_search_replay_error + json list) \<times> claude_state" where
  "resumed_events to_json enc searches web_searches n [] s = (Inr [], s)"
| "resumed_events to_json enc searches web_searches n (event # events) s =
     (case (case event of
         ToolSearch index _ \<Rightarrow>
           (if index < length searches
            then (let (out, s') = tool_search to_json (searches ! index) s in (Inr out, s')) else (Inr [], s))
       | WebSearch index _ \<Rightarrow>
           (if index < length web_searches then web_search to_json (enc n) (web_searches ! index) s
            else (Inr [], s))) of
        (Inl e, s') \<Rightarrow> (Inl e, s')
      | (Inr out, s') \<Rightarrow>
          (case resumed_events to_json enc searches web_searches (n + 1) events s' of
             (Inl e, s2) \<Rightarrow> (Inl e, s2)
           | (Inr rest, s2) \<Rightarrow> (Inr (out @ rest), s2)))"

definition claude_initial_events ::
  "(json \<Rightarrow> string) \<Rightarrow> (nat \<Rightarrow> replay_codec) \<Rightarrow> string option \<Rightarrow> claude_server_event list \<Rightarrow>
     claude_tool_search_trace list \<Rightarrow> claude_web_search_trace list \<Rightarrow> claude_state \<Rightarrow>
     (web_search_replay_error + json list) \<times> claude_state" where
  "claude_initial_events to_json enc summary resumed searches web_searches s =
     (let (out, s1) = (case summary of None \<Rightarrow> ([], s) | Some content \<Rightarrow> compaction content s)
      in case resumed_events to_json enc searches web_searches 0 resumed s1 of
           (Inl e, s2) \<Rightarrow> (Inl e, s2)
         | (Inr rest, s2) \<Rightarrow> (Inr (out @ rest), s2))"

definition prepend_pending_initial :: "'a list \<Rightarrow> 'a list \<Rightarrow> 'a list \<times> 'a list" where
  "prepend_pending_initial pending output =
     (if output = [] \<or> pending = [] then (output, pending) else (pending @ output, []))"

end
