(* ===== verification/DecodedCorrect.thy ===== *)
theory DecodedCorrect
  imports Decoded
begin

text \<open>
  The buffered answer: ordered maps and JSON objects, what the buffer holds after a sequence of
  events, the limit on tool input, and the final check of tool inputs.
\<close>

section \<open>Reading JSON objects\<close>

lemma str_cmp_Equal: "str_cmp a b = Equal \<longleftrightarrow> a = b"
proof (induction a b rule: str_cmp.induct)
  case (4 x xs y ys)
  have "cmp_nat (byte x) (byte y) = Equal \<longleftrightarrow> x = y" by (simp add: cmp_nat_def byte_def)
  then show ?case using 4 by (cases "cmp_nat (byte x) (byte y)") auto
qed simp_all

lemma map_of_bt_insert: "map_of (bt_insert k v m) = (map_of m)(k \<mapsto> v)"
proof (induction m)
  case (Cons p m)
  obtain k' v' where p: "p = (k', v')" by (cases p)
  show ?case using Cons str_cmp_Equal [of k k'] by (cases "str_cmp k k'") (auto simp: p fun_eq_iff)
qed (simp add: fun_eq_iff)

lemma map_of_fold_bt_insert: "map_of (fold (\<lambda>(k, v). bt_insert k v) kvs m) = map_of m ++ map_of (rev kvs)"
  by (induction kvs arbitrary: m) (auto simp: map_of_bt_insert map_add_def fun_eq_iff split: option.splits)

lemma v_get_jobj [simp]: "v_get (jobj kvs) k = map_of (rev kvs) k"
  by (simp add: jobj_def map_of_fold_bt_insert)

lemma v_get_v_set_other: "k \<noteq> k' \<Longrightarrow> v_get (v_set k' v j) k = v_get j k"
  by (cases j) (simp_all add: map_of_bt_insert)

section \<open>Ordered maps\<close>

lemma str_cmp_swap: "str_cmp a b = Greater \<longleftrightarrow> str_cmp b a = Less"
proof (induction a b rule: str_cmp.induct)
  case (4 x xs y ys)
  then show ?case by (auto simp: cmp_nat_def)
qed simp_all

lemma str_cmp_trans: "str_cmp a b = Less \<Longrightarrow> str_cmp b c = Less \<Longrightarrow> str_cmp a c = Less"
proof (induction a b arbitrary: c rule: str_cmp.induct)
  case (4 x xs y ys)
  then show ?case by (cases c) (auto simp: cmp_nat_def split: if_splits)
next
  case (2 y ys)
  then show ?case by (cases c) auto
qed simp_all

definition bt_ok :: "(string \<times> 'v) list \<Rightarrow> bool" where
  "bt_ok m \<longleftrightarrow> sorted_wrt (\<lambda>a b. str_cmp a b = Less) (map fst m)"

lemma fst_set_bt_insert: "fst ` set (bt_insert k v m) = insert k (fst ` set m)"
  by (induction k v m rule: bt_insert.induct) (auto simp: str_cmp_Equal split: ordering.splits)

lemma str_cmp_refl [simp]: "str_cmp a a = Equal"
  by (simp add: str_cmp_Equal)

lemma bt_ok_insert: "bt_ok m \<Longrightarrow> bt_ok (bt_insert k v m)"
proof (induction k v m rule: bt_insert.induct)
  case (2 k v k' v' m)
  have keys: "\<forall>x \<in> fst ` set m. str_cmp k' x = Less" "bt_ok m" using 2(2) by (simp_all add: bt_ok_def)
  show ?case
  proof (cases "str_cmp k k'")
    case Less
    then show ?thesis using 2(2) keys(1) str_cmp_trans by (auto simp: bt_ok_def)
  next
    case Equal
    then show ?thesis using 2(2) by (auto simp: bt_ok_def str_cmp_Equal)
  next
    case Greater
    then have "str_cmp k' k = Less" by (simp add: str_cmp_swap)
    then have "\<forall>x \<in> fst ` set (bt_insert k v m). str_cmp k' x = Less" using keys(1) by (simp add: fst_set_bt_insert)
    then show ?thesis using 2(1) [OF Greater keys(2)] Greater by (simp add: bt_ok_def)
  qed
qed (simp add: bt_ok_def)

lemma tool_input_bytes_insert:
  "bt_ok m \<Longrightarrow> tool_input_bytes (bt_insert k t m) + (case map_of m k of None \<Rightarrow> 0 | Some old \<Rightarrow> length (tb_input old))
     = tool_input_bytes m + length (tb_input t)"
proof (induction k t m rule: bt_insert.induct)
  case (2 k t k' t' m)
  have keys: "\<forall>x \<in> fst ` set m. str_cmp k' x = Less" "bt_ok m" using 2(2) by (simp_all add: bt_ok_def)
  show ?case
  proof (cases "str_cmp k k'")
    case Less
    have "k \<noteq> k'" using Less by auto
    moreover have "k \<notin> fst ` set m"
    proof
      assume "k \<in> fst ` set m"
      then have "str_cmp k' k = Less" using keys(1) by blast
      from str_cmp_trans [OF Less this] show False by simp
    qed
    then have "map_of m k = None" by (simp add: map_of_eq_None_iff)
    ultimately show ?thesis using Less by (simp add: tool_input_bytes_def)
  next
    case Equal
    then show ?thesis by (simp add: str_cmp_Equal tool_input_bytes_def)
  next
    case Greater
    then have "k \<noteq> k'" by auto
    then show ?thesis using 2(1) [OF Greater keys(2)] Greater by (simp add: tool_input_bytes_def)
  qed
qed (simp add: tool_input_bytes_def)

section \<open>What the buffer holds\<close>

fun decoded_run ::
  "(string \<Rightarrow> f64 option) \<Rightarrow> kiro_event list \<Rightarrow> decoded_response \<Rightarrow> string + decoded_response" where
  "decoded_run parse_f64 [] d = Inr d"
| "decoded_run parse_f64 (event # events) d = (case decoded_push parse_f64 event d of
       Inl e \<Rightarrow> Inl e | Inr d' \<Rightarrow> decoded_run parse_f64 events d')"

fun tool_part :: "string \<Rightarrow> kiro_event \<Rightarrow> string" where
  "tool_part tid (ToolUse t _ delta _) = (if t = tid then delta else [])"
| "tool_part tid _ = []"

fun tool_stops :: "string \<Rightarrow> kiro_event \<Rightarrow> bool" where
  "tool_stops tid (ToolUse t _ _ stop) \<longleftrightarrow> t = tid \<and> stop"
| "tool_stops tid _ \<longleftrightarrow> False"

fun is_call :: "string \<Rightarrow> kiro_event \<Rightarrow> bool" where
  "is_call tid (ToolUse t _ _ _) \<longleftrightarrow> t = tid"
| "is_call tid _ \<longleftrightarrow> False"

definition call_ok :: "kiro_event list \<Rightarrow> (string \<times> tool_buffer) list \<Rightarrow> string \<Rightarrow> bool" where
  "call_ok events tools tid \<longleftrightarrow>
     (case map_of tools tid of
        None \<Rightarrow> \<not> list_ex (is_call tid) events
      | Some t \<Rightarrow> list_ex (is_call tid) events \<and> tb_id t = tid \<and>
          tb_input t = concat (map (tool_part tid) events) \<and>
          (tb_complete t \<longleftrightarrow> list_ex (tool_stops tid) events))"

definition buffer_ok :: "kiro_event list \<Rightarrow> decoded_response \<Rightarrow> bool" where
  "buffer_ok events d \<longleftrightarrow> bt_ok (dr_tools d) \<and>
     tool_input_bytes (dr_tools d) \<le> MAX_CUMULATIVE_TOOL_INPUT_BYTES \<and> (\<forall>tid. call_ok events (dr_tools d) tid)"

lemma call_ok_other:
  "\<not> is_call tid event \<Longrightarrow> map_of tools' tid = map_of tools tid \<Longrightarrow>
     call_ok (events @ [event]) tools' tid = call_ok events tools tid"
  by (cases event) (simp_all add: call_ok_def cong: option.case_cong)

lemma not_call_parts:
  "\<not> list_ex (is_call tid) events \<Longrightarrow> concat (map (tool_part tid) events) = [] \<and> \<not> list_ex (tool_stops tid) events"
proof (induction events)
  case (Cons e es)
  then show ?case by (cases e) auto
qed simp

lemma buffer_ok_push:
  assumes "buffer_ok events d" "decoded_push parse_f64 event d = Inr d'"
  shows "buffer_ok (events @ [event]) d'"
proof (cases event)
  case (ToolUse tid name delta stop)
  let ?old = "map_of (dr_tools d) tid"
  obtain t' where t': "d' = d\<lparr>dr_tools := bt_insert tid t' (dr_tools d)\<rparr>"
      "tb_input t' = (case ?old of None \<Rightarrow> [] | Some t \<Rightarrow> tb_input t) @ delta"
      "tb_id t' = (case ?old of None \<Rightarrow> tid | Some t \<Rightarrow> tb_id t)"
      "tb_complete t' \<longleftrightarrow> (case ?old of None \<Rightarrow> False | Some t \<Rightarrow> tb_complete t) \<or> stop"
      "sat_add (tool_input_bytes (dr_tools d)) (length delta) \<le> MAX_CUMULATIVE_TOOL_INPUT_BYTES"
    using assms(2) ToolUse by (auto simp: decoded_push_def Let_def split: if_splits option.splits)
  have old: "call_ok events (dr_tools d) tid" using assms(1) by (simp add: buffer_ok_def)
  have ok: "bt_ok (dr_tools d)" using assms(1) by (simp add: buffer_ok_def)
  have "tool_input_bytes (dr_tools d') = tool_input_bytes (dr_tools d) + length delta"
    using tool_input_bytes_insert [OF ok, of tid t'] t'(1,2) by (auto split: option.splits)
  also have "\<dots> \<le> MAX_CUMULATIVE_TOOL_INPUT_BYTES"
    using t'(5) by (auto simp: sat_add_def usize_max_def MAX_CUMULATIVE_TOOL_INPUT_BYTES_def min_def split: if_splits)
  finally have bytes: "tool_input_bytes (dr_tools d') \<le> MAX_CUMULATIVE_TOOL_INPUT_BYTES" .
  have mine: "tb_id t' = tid \<and> tb_input t' = concat (map (tool_part tid) (events @ [event])) \<and>
      (tb_complete t' \<longleftrightarrow> list_ex (tool_stops tid) (events @ [event]))"
    using old t' not_call_parts [of tid events] ToolUse by (auto simp: call_ok_def split: option.splits)
  show ?thesis unfolding buffer_ok_def
  proof (intro conjI allI)
    show "bt_ok (dr_tools d')" using bt_ok_insert [OF ok] t'(1) by simp
    show "tool_input_bytes (dr_tools d') \<le> MAX_CUMULATIVE_TOOL_INPUT_BYTES" by (rule bytes)
  next
    fix x
    show "call_ok (events @ [event]) (dr_tools d') x"
    proof (cases "x = tid")
      case True
      then show ?thesis using mine t'(1) ToolUse by (simp add: call_ok_def map_of_bt_insert)
    next
      case False
      then show ?thesis using call_ok_other [of x event "dr_tools d'" "dr_tools d"] t'(1) assms(1) ToolUse
        by (simp add: buffer_ok_def map_of_bt_insert)
    qed
  qed
qed (use assms in \<open>auto simp: buffer_ok_def decoded_push_def call_ok_other\<close>)

lemma buffer_ok_run:
  "buffer_ok seen d \<Longrightarrow> decoded_run parse_f64 events d = Inr d' \<Longrightarrow> buffer_ok (seen @ events) d'"
proof (induction events arbitrary: seen d)
  case (Cons event events)
  then obtain d1 where "decoded_push parse_f64 event d = Inr d1" "decoded_run parse_f64 events d1 = Inr d'"
    by (auto split: sum.splits)
  then show ?case using Cons.IH [OF buffer_ok_push [OF Cons.prems(1)]] by fastforce
qed simp

lemma decoded_push_texts:
  "decoded_push parse_f64 event d = Inr d' \<Longrightarrow>
     dr_text d' = dr_text d @ (case event of AssistantResponse t \<Rightarrow> t | _ \<Rightarrow> [])"
  by (cases event) (auto simp: decoded_push_def Let_def split: if_splits)

lemma decoded_run_texts:
  "decoded_run parse_f64 events d = Inr d' \<Longrightarrow>
     dr_text d' = dr_text d @ concat (map (\<lambda>e. case e of AssistantResponse t \<Rightarrow> t | _ \<Rightarrow> []) events)"
  by (induction events arbitrary: d) (auto dest: decoded_push_texts split: sum.splits)

section \<open>Properties\<close>

text \<open>C33: The buffer holds exactly what was pushed, within the limit. After any events that were all
  accepted, the text is the concatenation of the text events; there is a tool buffer for exactly
  the announced calls, each with its own identifier, the concatenation of its fragments as input and
  its completion flag; the calls are in key order and their inputs together do not exceed 16 MiB.\<close>

theorem decoded_buffer_exact:
  assumes "decoded_run parse_f64 events decoded_default = Inr d"
  shows "dr_text d = concat (map (\<lambda>e. case e of AssistantResponse t \<Rightarrow> t | _ \<Rightarrow> []) events) \<and>
    (\<forall>tid. call_ok events (dr_tools d) tid) \<and> bt_ok (dr_tools d) \<and>
    sum_list (map (\<lambda>(_, t). length (tb_input t)) (dr_tools d)) \<le> 16 * 1024 * 1024"
proof -
  have "buffer_ok [] decoded_default"
    by (simp add: buffer_ok_def decoded_default_def bt_ok_def tool_input_bytes_def call_ok_def)
  from buffer_ok_run [OF this assms] decoded_run_texts [OF assms] show ?thesis
    by (simp add: buffer_ok_def tool_input_bytes_def MAX_CUMULATIVE_TOOL_INPUT_BYTES_def decoded_default_def)
qed

theorem decoded_buffer_exact_witness:
  "\<exists>d. decoded_run (\<lambda>_. None) [AssistantResponse ''a'', ToolUse ''t'' ''f'' ''{'' False, ToolUse ''t'' [] ''}'' True]
     decoded_default = Inr d \<and> dr_text d = ''a''"
proof -
  let ?es = "[AssistantResponse ''a'', ToolUse ''t'' ''f'' ''{'' False, ToolUse ''t'' [] ''}'' True]"
  obtain d where d: "decoded_run (\<lambda>_. None) ?es decoded_default = Inr d"
    by (simp add: decoded_push_def decoded_default_def Let_def tool_input_bytes_def
      MAX_CUMULATIVE_TOOL_INPUT_BYTES_def sat_add_def usize_max_def)
  with decoded_buffer_exact [OF d] show ?thesis by auto
qed

lemma trim_braces: "trim ''{}'' = ''{}''"
  by code_simp

text \<open>Finished tool inputs are never repaired. The final check fails exactly when some call's input
  is neither blank nor JSON. When it succeeds, what the answers show for each call is the parsed
  input itself, and the empty object for a blank one: the repair of truncated JSON is not reached.
  The hypothesis is that the JSON parser ignores white space around a value.\<close>

theorem finalized_inputs_not_repaired:
  assumes "\<And>s v. parse s = Some v \<Longrightarrow> parse (trim s) = Some v" and "parse ''{}'' = Some (JObject [])"
  shows "case finalize_tool_inputs parse d of
      Inl _ \<Rightarrow> \<exists>(_, t) \<in> set (dr_tools d). trim (tb_input t) \<noteq> [] \<and> parse (tb_input t) = None
    | Inr d' \<Rightarrow> list_all2 (\<lambda>(k, t) (k', t'). k' = k \<and> tb_id t' = tb_id t \<and> tb_name t' = tb_name t \<and>
        (if trim (tb_input t) = [] then repair_json parse (tb_input t') = JObject []
         else parse (tb_input t) = Some (repair_json parse (tb_input t'))))
        (dr_tools d) (dr_tools d')"
proof (cases "find (\<lambda>(_, t). trim (tb_input t) \<noteq> [] \<and> parse (tb_input t) = None) (dr_tools d)")
  case None
  have blank: "repair_json parse ''{}'' = JObject []"
    using assms(2) trim_braces by (simp add: repair_json_def Let_def)
  have full: "parse (tb_input t) = Some (repair_json parse (tb_input t))"
    if m: "(k, t) \<in> set (dr_tools d)" "trim (tb_input t) \<noteq> []" for k t
  proof -
    obtain v where "parse (tb_input t) = Some v" using None m by (auto simp: find_None_iff)
    then show ?thesis using assms(1) m(2) by (simp add: repair_json_def Let_def)
  qed
  have "finalize_tool_inputs parse d = Inr (d\<lparr>dr_tools := map (\<lambda>(k, t).
      (k, if trim (tb_input t) = [] then t\<lparr>tb_input := ''{}''\<rparr> else t)) (dr_tools d)\<rparr>)"
    using None by (simp add: finalize_tool_inputs_def)
  then show ?thesis by (auto simp: list.rel_map blank full intro!: list.rel_refl_strong)
next
  case (Some p)
  then show ?thesis by (cases p) (fastforce simp: finalize_tool_inputs_def dest: find_in)
qed


definition demo_parse :: "string \<Rightarrow> json option" where
  "demo_parse s = (if s = ''{}'' then Some (JObject []) else None)"

theorem finalized_inputs_not_repaired_witness:
  "finalize_tool_inputs demo_parse (decoded_default\<lparr>dr_tools :=
     [(''t'', \<lparr>tb_id = ''t'', tb_name = ''f'', tb_input = '' '', tb_complete = True\<rparr>)]\<rparr>) \<noteq> Inl [] \<and>
   repair_json demo_parse ''{}'' = JObject []"
proof -
  let ?d = "decoded_default\<lparr>dr_tools := [(''t'', \<lparr>tb_id = ''t'', tb_name = ''f'', tb_input = '' '', tb_complete = True\<rparr>)]\<rparr>"
  have blank: "trim '' '' = []" by code_simp
  have hyp: "demo_parse (trim s) = Some v" if "demo_parse s = Some v" for s v
    using that trim_braces by (auto simp: demo_parse_def split: if_splits)
  have fin: "finalize_tool_inputs demo_parse ?d = Inr (?d\<lparr>dr_tools :=
      [(''t'', \<lparr>tb_id = ''t'', tb_name = ''f'', tb_input = ''{}'', tb_complete = True\<rparr>)]\<rparr>)"
    using blank by (simp add: finalize_tool_inputs_def)
  have "demo_parse ''{}'' = Some (JObject [])" by (simp add: demo_parse_def)
  from finalized_inputs_not_repaired [OF hyp this, of ?d] fin blank show ?thesis by simp
qed

end
