(* ===== verification/ClaudeStreamCorrect.thy ===== *)
theory ClaudeStreamCorrect
  imports ClaudeStream DecodedCorrect
begin

text \<open>
  The Claude encoder against the streaming protocol. The specification is a client: it reads the
  emitted values one by one, rejects any that the protocol does not allow in its phase, and puts
  the blocks together. The encoder refines it: what a client assembles from the stream is what the
  buffered answer holds.
\<close>

section \<open>The client\<close>

datatype phase = NotStarted | Streaming | Delivered | Stopped

record cblock =
  cb_kind :: string
  cb_start :: json
  cb_body :: string
  cb_signature :: string

record client =
  ct_phase :: phase
  ct_open :: bool
  ct_blocks :: "cblock list"

definition client_init :: client where
  "client_init = \<lparr>ct_phase = NotStarted, ct_open = False, ct_blocks = []\<rparr>"

text \<open>Each kind of delta belongs to one kind of block.\<close>

definition apply_delta :: "json \<Rightarrow> cblock \<Rightarrow> cblock option" where
  "apply_delta d b =
     (let t = unwrap_or (get_str d ''type'') [] in
      if t = ''text_delta'' \<and> cb_kind b = ''text''
      then map_option (\<lambda>x. b\<lparr>cb_body := cb_body b @ x\<rparr>) (get_str d ''text'')
      else if t = ''citations_delta'' \<and> cb_kind b = ''text'' then Some b
      else if t = ''thinking_delta'' \<and> cb_kind b = ''thinking''
      then map_option (\<lambda>x. b\<lparr>cb_body := cb_body b @ x\<rparr>) (get_str d ''thinking'')
      else if t = ''signature_delta'' \<and> cb_kind b = ''thinking''
      then map_option (\<lambda>x. b\<lparr>cb_signature := cb_signature b @ x\<rparr>) (get_str d ''signature'')
      else if t = ''input_json_delta'' \<and> (cb_kind b = ''tool_use'' \<or> cb_kind b = ''server_tool_use'')
      then map_option (\<lambda>x. b\<lparr>cb_body := cb_body b @ x\<rparr>) (get_str d ''partial_json'')
      else if t = ''compaction_delta'' \<and> cb_kind b = ''compaction''
      then map_option (\<lambda>x. b\<lparr>cb_body := cb_body b @ x\<rparr>) (get_str d ''content'')
      else None)"

definition client_start :: "json \<Rightarrow> client \<Rightarrow> client option" where
  "client_start ev c =
     (case v_get ev ''content_block'' of
        None \<Rightarrow> None
      | Some initial \<Rightarrow> (case get_str initial ''type'' of
          None \<Rightarrow> None
        | Some kind \<Rightarrow>
            if ct_phase c = Streaming \<and> \<not> ct_open c \<and> v_get ev ''index'' = Some (jnum (length (ct_blocks c)))
            then Some (c\<lparr>ct_open := True, ct_blocks := ct_blocks c @
              [\<lparr>cb_kind = kind, cb_start = initial, cb_body = [], cb_signature = []\<rparr>]\<rparr>)
            else None))"

definition client_delta :: "json \<Rightarrow> client \<Rightarrow> client option" where
  "client_delta ev c =
     (if ct_phase c = Streaming \<and> ct_open c \<and> ct_blocks c \<noteq> [] \<and>
         v_get ev ''index'' = Some (jnum (length (ct_blocks c) - 1))
      then (case v_get ev ''delta'' of
          None \<Rightarrow> None
        | Some d \<Rightarrow> map_option (\<lambda>b. c\<lparr>ct_blocks := butlast (ct_blocks c) @ [b]\<rparr>)
            (apply_delta d (last (ct_blocks c))))
      else None)"

definition client_stop :: "json \<Rightarrow> client \<Rightarrow> client option" where
  "client_stop ev c =
     (if ct_phase c = Streaming \<and> ct_open c \<and> v_get ev ''index'' = Some (jnum (length (ct_blocks c) - 1))
      then Some (c\<lparr>ct_open := False\<rparr>) else None)"

definition client_step :: "json \<Rightarrow> client \<Rightarrow> client option" where
  "client_step ev c =
     (let t = unwrap_or (get_str ev ''type'') [] in
      if t = ''message_start''
      then (if ct_phase c = NotStarted then Some (c\<lparr>ct_phase := Streaming\<rparr>) else None)
      else if t = ''content_block_start'' then client_start ev c
      else if t = ''content_block_delta'' then client_delta ev c
      else if t = ''content_block_stop'' then client_stop ev c
      else if t = ''message_delta''
      then (if ct_phase c = Streaming \<and> \<not> ct_open c then Some (c\<lparr>ct_phase := Delivered\<rparr>) else None)
      else if t = ''message_stop''
      then (if ct_phase c = Delivered then Some (c\<lparr>ct_phase := Stopped\<rparr>) else None)
      else None)"

fun client_run :: "json list \<Rightarrow> client \<Rightarrow> client option" where
  "client_run [] c = Some c"
| "client_run (ev # evs) c = Option.bind (client_step ev c) (client_run evs)"

lemma client_run_append: "client_run (xs @ ys) c = Option.bind (client_run xs c) (client_run ys)"
  by (induction xs arbitrary: c) (auto split: Option.bind_splits)

section \<open>Single events\<close>

lemmas event_defs = block_start_def block_delta_def block_stop_def message_start_event_def

lemma client_step_block_start:
  assumes "ct_phase c = Streaming" "\<not> ct_open c" "get_str initial ''type'' = Some kind" "i = length (ct_blocks c)"
  shows "client_step (block_start i initial) c = Some (c\<lparr>ct_open := True, ct_blocks := ct_blocks c @
    [\<lparr>cb_kind = kind, cb_start = initial, cb_body = [], cb_signature = []\<rparr>]\<rparr>)"
  using assms by (simp add: client_step_def event_defs get_str_def client_start_def)

lemma client_step_block_delta:
  assumes "ct_phase c = Streaming" "ct_open c" "ct_blocks c = bs @ [b]" "i = length bs" "apply_delta d b = Some b'"
  shows "client_step (block_delta i d) c = Some (c\<lparr>ct_blocks := bs @ [b']\<rparr>)"
  using assms by (simp add: client_step_def event_defs get_str_def client_delta_def)

lemma client_step_block_stop:
  assumes "ct_phase c = Streaming" "ct_open c" "ct_blocks c \<noteq> []" "Suc i = length (ct_blocks c)"
  shows "client_step (block_stop i) c = Some (c\<lparr>ct_open := False\<rparr>)"
proof -
  have "i = length (ct_blocks c) - 1" using assms(4) by simp
  then show ?thesis using assms by (simp add: client_step_def event_defs get_str_def client_stop_def)
qed

lemma client_step_message_start:
  "ct_phase c = NotStarted \<Longrightarrow> client_step (message_start_event s) c = Some (c\<lparr>ct_phase := Streaming\<rparr>)"
  by (simp add: client_step_def event_defs get_str_def)


fun apply_deltas :: "json list \<Rightarrow> cblock \<Rightarrow> cblock option" where
  "apply_deltas [] b = Some b"
| "apply_deltas (d # ds) b = Option.bind (apply_delta d b) (apply_deltas ds)"

lemma apply_delta_start: "apply_delta d b = Some b' \<Longrightarrow> cb_kind b' = cb_kind b \<and> cb_start b' = cb_start b"
  by (auto simp: apply_delta_def Let_def split: if_splits)

lemma apply_deltas_start: "apply_deltas ds b = Some b' \<Longrightarrow> cb_kind b' = cb_kind b \<and> cb_start b' = cb_start b"
proof (induction ds arbitrary: b)
  case (Cons d ds)
  then obtain b1 where "apply_delta d b = Some b1" "apply_deltas ds b1 = Some b'"
    by (auto split: Option.bind_splits)
  then show ?case using Cons.IH apply_delta_start by metis
qed simp

lemma client_run_deltas:
  assumes "ct_phase c = Streaming" "ct_open c" "ct_blocks c = bs @ [b]" "i = length bs"
    "apply_deltas ds b = Some b'"
  shows "client_run (map (block_delta i) ds) c = Some (c\<lparr>ct_blocks := bs @ [b']\<rparr>)"
  using assms
proof (induction ds arbitrary: b c)
  case (Cons d ds)
  then obtain b1 where b1: "apply_delta d b = Some b1" "apply_deltas ds b1 = Some b'"
    by (auto split: Option.bind_splits)
  then have "client_step (block_delta i d) c = Some (c\<lparr>ct_blocks := bs @ [b1]\<rparr>)"
    using client_step_block_delta Cons.prems by blast
  then show ?case using Cons.IH [of "c\<lparr>ct_blocks := bs @ [b1]\<rparr>" b1] Cons.prems b1 by simp
qed simp

section \<open>The encoder in step with the client\<close>

definition synced :: "claude_state \<Rightarrow> client \<Rightarrow> bool" where
  "synced s c \<longleftrightarrow>
     ct_phase c = (if cl_message_started s then Streaming else NotStarted) \<and>
     cl_next_index s = length (ct_blocks c) \<and>
     (case cl_block s of
        None \<Rightarrow> \<not> ct_open c
      | Some (i, kind) \<Rightarrow> cl_message_started s \<and> ct_open c \<and>
          (\<exists>bs b. ct_blocks c = bs @ [b] \<and> i = length bs \<and> cb_kind b = kind))"

lemma synced_cong:
  "cl_message_started s' = cl_message_started s \<Longrightarrow> cl_next_index s' = cl_next_index s \<Longrightarrow>
     cl_block s' = cl_block s \<Longrightarrow> synced s' c = synced s c"
  by (simp add: synced_def cong: option.case_cong)

lemma synced_updates [simp]:
  "synced (s\<lparr>cl_visible_text := x\<rparr>) c = synced s c"
  "synced (s\<lparr>cl_tool_indices := m\<rparr>) c = synced s c"
  "synced (s\<lparr>cl_emitted_citation_links := ls\<rparr>) c = synced s c"
  by (rule synced_cong; simp)+

abbreviation fresh_block :: "string \<Rightarrow> json \<Rightarrow> cblock" where
  "fresh_block kind initial \<equiv> \<lparr>cb_kind = kind, cb_start = initial, cb_body = [], cb_signature = []\<rparr>"

abbreviation opened :: "nat \<Rightarrow> string \<Rightarrow> claude_state \<Rightarrow> claude_state" where
  "opened i kind s \<equiv> s\<lparr>cl_message_started := True, cl_block := Some (i, kind), cl_next_index := Suc i\<rparr>"

text \<open>
  After \<open>switch_block\<close> the client has an open last block of the wanted kind: the one that was open
  or a fresh one.
\<close>

definition at_block :: "string \<Rightarrow> json \<Rightarrow> client \<Rightarrow> client \<Rightarrow> cblock list \<Rightarrow> cblock \<Rightarrow> bool" where
  "at_block kind initial c c' bs b \<longleftrightarrow>
     ct_phase c' = Streaming \<and> ct_open c' \<and> ct_blocks c' = bs @ [b] \<and> cb_kind b = kind \<and>
     (ct_open c \<and> ct_blocks c = bs @ [b] \<and> kind \<noteq> ''tool_use'' \<or>
      ct_blocks c = bs \<and> b = fresh_block kind initial)"

lemma ensure_message_sim:
  assumes "synced s c" "ensure_message s = (out, s')"
  shows "\<exists>c'. client_run out c = Some c' \<and> synced s' c' \<and> s' = s\<lparr>cl_message_started := True\<rparr> \<and>
    ct_phase c' = Streaming \<and> ct_blocks c' = ct_blocks c \<and> ct_open c' = ct_open c"
proof (cases "cl_message_started s")
  case True
  then show ?thesis using assms by (auto simp: ensure_message_def synced_def)
next
  case False
  then have "client_run out c = Some (c\<lparr>ct_phase := Streaming\<rparr>)" "s' = s\<lparr>cl_message_started := True\<rparr>"
    using assms client_step_message_start [of c s] by (auto simp: ensure_message_def synced_def)
  with False assms(1) show ?thesis by (auto simp: synced_def split: option.splits)
qed

lemma open_block_sim:
  assumes "ct_phase c = Streaming" "\<not> ct_open c" "cl_next_index s = length (ct_blocks c)"
    "cl_message_started s" "get_str initial ''type'' = Some kind" "open_block kind initial s = (i, out, s')"
  shows "\<exists>c'. client_run out c = Some c' \<and> s' = opened i kind s \<and> i = length (ct_blocks c) \<and>
    at_block kind initial c c' (ct_blocks c) (fresh_block kind initial)"
proof -
  have "s' = opened i kind s" using assms(4,6) by (cases s) (auto simp: open_block_def Let_def)
  moreover have "i = length (ct_blocks c)" "out = [block_start i initial]"
    using assms(3,6) by (auto simp: open_block_def Let_def)
  ultimately show ?thesis
    using client_step_block_start [OF assms(1,2,5), of i] assms(1) by (simp add: at_block_def)
qed

lemma switch_block_sim:
  assumes "synced s c" "get_str initial ''type'' = Some kind" "switch_block kind initial s = (i, out, s')"
  shows "\<exists>c' bs b. client_run out c = Some c' \<and> s' = opened i kind s \<and> i = length bs \<and>
    at_block kind initial c c' bs b"
proof -
  obtain o1 s1 where e: "ensure_message s = (o1, s1)" by fastforce
  obtain c1 where c1: "client_run o1 c = Some c1" "synced s1 c1" "s1 = s\<lparr>cl_message_started := True\<rparr>"
      "ct_phase c1 = Streaming" "ct_blocks c1 = ct_blocks c" "ct_open c1 = ct_open c"
    using ensure_message_sim [OF assms(1) e] by blast
  obtain j o2 s2 where op: "open_block kind initial s1 = (j, o2, s2)" by (cases "open_block kind initial s1") auto
  have started: "cl_message_started s1" and ni: "cl_next_index s1 = length (ct_blocks c1)"
    using c1(2,3) by (simp_all add: synced_def)
  show ?thesis
  proof (cases "cl_block s1")
    case None
    then have cl: "\<not> ct_open c1" using c1(2) by (simp add: synced_def)
    have "(i, out, s') = (j, o1 @ o2, s2)" using assms(3) e op None by (simp add: switch_block_def)
    with open_block_sim [OF c1(4) cl ni started assms(2) op] c1 show ?thesis
      by (auto simp: client_run_append at_block_def)
  next
    case (Some bk)
    obtain k cur where bk: "bk = (k, cur)" by (cases bk)
    obtain bs b where b: "ct_blocks c1 = bs @ [b]" "k = length bs" "cb_kind b = cur" "ct_open c1"
      using c1(2) Some bk by (auto simp: synced_def)
    show ?thesis
    proof (cases "cur = kind \<and> kind \<noteq> ''tool_use''")
      case True
      then have "(i, out, s') = (k, o1, s1)" using assms(3) e Some bk by (simp add: switch_block_def)
      moreover have "s1 = opened k kind s" using c1(3) ni b(1,2) Some bk True by simp
      moreover have "at_block kind initial c c1 bs b" using c1 b True by (simp add: at_block_def)
      ultimately show ?thesis using c1(1) b(2) by blast
    next
      case False
      then have r: "(i, out, s') = (j, o1 @ block_stop k # o2, s2)"
        using assms(3) e op Some bk by (auto simp: switch_block_def)
      let ?c2 = "c1\<lparr>ct_open := False\<rparr>"
      have stop: "client_step (block_stop k) c1 = Some ?c2"
        using client_step_block_stop [OF c1(4) b(4)] b by simp
      obtain c3 where c3: "client_run o2 ?c2 = Some c3" "s2 = opened j kind s1" "j = length (ct_blocks ?c2)"
          "at_block kind initial ?c2 c3 (ct_blocks ?c2) (fresh_block kind initial)"
        using open_block_sim [of ?c2 s1 initial kind j o2 s2] c1(4) ni started assms(2) op by auto
      then show ?thesis using r stop c1 by (auto simp: client_run_append at_block_def)
    qed
  qed
qed


text \<open>The client's blocks after a block of the given kind took the deltas.\<close>

definition filled :: "string \<Rightarrow> json \<Rightarrow> json list \<Rightarrow> client \<Rightarrow> client \<Rightarrow> bool" where
  "filled kind initial ds c c' \<longleftrightarrow> (\<exists>bs b b'. apply_deltas ds b = Some b' \<and> ct_blocks c' = bs @ [b'] \<and>
     (ct_open c \<and> ct_blocks c = bs @ [b] \<and> cb_kind b = kind \<and> kind \<noteq> ''tool_use'' \<or>
      ct_blocks c = bs \<and> b = fresh_block kind initial))"

definition fits_kind :: "string \<Rightarrow> json list \<Rightarrow> bool" where
  "fits_kind kind ds \<longleftrightarrow> (\<forall>b. cb_kind b = kind \<longrightarrow> apply_deltas ds b \<noteq> None)"

lemma fill_block_sim:
  assumes "synced s c" "get_str initial ''type'' = Some kind" "fits_kind kind ds"
    "switch_block kind initial s = (i, out, s')"
  shows "\<exists>c'. client_run (out @ map (block_delta i) ds) c = Some c' \<and> synced s' c' \<and>
    s' = opened i kind s \<and> filled kind initial ds c c' \<and>
    client_step (block_stop i) c' = Some (c'\<lparr>ct_open := False\<rparr>) \<and> Suc i = length (ct_blocks c')"
proof -
  obtain c1 bs b where c1: "client_run out c = Some c1" "s' = opened i kind s" "i = length bs"
      and at: "at_block kind initial c c1 bs b"
    using switch_block_sim [OF assms(1,2,4)] by blast
  have open1: "ct_phase c1 = Streaming" "ct_open c1" "ct_blocks c1 = bs @ [b]" "cb_kind b = kind"
    using at by (simp_all add: at_block_def)
  obtain b' where b': "apply_deltas ds b = Some b'" using assms(3) open1(4) by (auto simp: fits_kind_def)
  let ?c' = "c1\<lparr>ct_blocks := bs @ [b']\<rparr>"
  have "client_run (map (block_delta i) ds) c1 = Some ?c'"
    using client_run_deltas [OF open1(1-3) c1(3) b'] .
  then have "client_run (out @ map (block_delta i) ds) c = Some ?c'" using c1(1) by (simp add: client_run_append)
  moreover have "cb_kind b' = kind" using apply_deltas_start [OF b'] open1(4) by simp
  then have "synced s' ?c'" using c1(2,3) open1 by (simp add: synced_def)
  moreover have "filled kind initial ds c ?c'" using at b' unfolding filled_def at_block_def by auto
  moreover have "client_step (block_stop i) ?c' = Some (?c'\<lparr>ct_open := False\<rparr>)"
    using client_step_block_stop [of ?c' i] open1 c1(3) by simp
  ultimately show ?thesis using c1(2,3) by auto
qed

lemma closed_synced:
  assumes "synced s c"
  shows "synced (close_block s) (c\<lparr>ct_open := False\<rparr>)"
  using assms by (simp add: synced_def close_block_def)

lemma filled_open [simp]: "filled kind initial ds c (c'\<lparr>ct_open := x\<rparr>) = filled kind initial ds c c'"
  by (simp add: filled_def)

lemma whole_block_sim:
  assumes "synced s c" "get_str initial ''type'' = Some kind" "fits_kind kind ds"
    "whole_block kind initial ds s = (out, s')"
  shows "\<exists>c' i. client_run out c = Some c' \<and> synced s' c' \<and> s' = close_block (opened i kind s) \<and>
    filled kind initial ds c c'"
proof -
  obtain i o1 s1 where sw: "switch_block kind initial s = (i, o1, s1)" by (cases "switch_block kind initial s") auto
  have w: "out = (o1 @ map (block_delta i) ds) @ [block_stop i]" "s' = close_block s1"
    using assms(4) sw by (auto simp: whole_block_def)
  obtain c1 where c1: "client_run (o1 @ map (block_delta i) ds) c = Some c1" "synced s1 c1"
      "s1 = opened i kind s" "filled kind initial ds c c1"
      "client_step (block_stop i) c1 = Some (c1\<lparr>ct_open := False\<rparr>)"
    using fill_block_sim [OF assms(1-3) sw] by blast
  have "client_run out c = Some (c1\<lparr>ct_open := False\<rparr>)"
    unfolding w(1) client_run_append [of "_ @ _"] c1(1) using c1(5) by simp
  then show ?thesis using closed_synced [OF c1(2)] c1(3,4) w(2)
    by (intro exI [where x = "c1\<lparr>ct_open := False\<rparr>"] exI [where x = i]) simp
qed

text \<open>The deltas the encoder sends fit the blocks it sends them to.\<close>

lemma fits_kind_simps [simp]:
  "fits_kind kind []"
  "fits_kind ''text'' [text_delta t]"
  "fits_kind ''text'' (map (\<lambda>c. jobj [(''type'', JString ''citations_delta''), (''citation'', c)]) cs)"
  "fits_kind ''thinking'' [jobj [(''type'', JString ''thinking_delta''), (''thinking'', JString t)]]"
  "fits_kind ''thinking'' [jobj [(''type'', JString ''signature_delta''), (''signature'', JString t)]]"
  "fits_kind ''thinking'' [jobj [(''type'', JString ''thinking_delta''), (''thinking'', JString t)],
     jobj [(''type'', JString ''signature_delta''), (''signature'', JString u)]]"
  "fits_kind ''server_tool_use'' [jobj [(''type'', JString ''input_json_delta''), (''partial_json'', JString t)]]"
  "fits_kind ''tool_use'' [jobj [(''type'', JString ''input_json_delta''), (''partial_json'', JString t)]]"
  "fits_kind ''compaction'' [jobj [(''type'', JString ''compaction_delta''), (''content'', JString t)]]"
proof -
  show "fits_kind ''text'' (map (\<lambda>c. jobj [(''type'', JString ''citations_delta''), (''citation'', c)]) cs)"
    unfolding fits_kind_def by (induction cs) (simp_all add: apply_delta_def get_str_def)
qed (simp_all add: fits_kind_def apply_delta_def get_str_def text_delta_def)


section \<open>The operations\<close>

lemma emit_text_sim:
  assumes "synced s c" "emit_text content s = (out, s')"
  shows "\<exists>c' i. client_run out c = Some c' \<and> synced s' c' \<and>
    s' = opened i ''text'' (s\<lparr>cl_visible_text := cl_visible_text s @ content\<rparr>) \<and>
    filled ''text'' (text_block []) [text_delta content] c c'"
proof -
  let ?s = "s\<lparr>cl_visible_text := cl_visible_text s @ content\<rparr>"
  obtain i o1 s1 where sw: "switch_block ''text'' (text_block []) ?s = (i, o1, s1)"
    by (cases "switch_block ''text'' (text_block []) ?s") auto
  have "synced ?s c" using assms(1) by simp
  from fill_block_sim [OF this _ fits_kind_simps(2) sw, of content] assms(2) sw
  show ?thesis by (auto simp: emit_text_def text_block_def get_str_def)
qed

definition thinking_deltas :: "string \<Rightarrow> string option \<Rightarrow> json list" where
  "thinking_deltas content signature =
     (if content = [] then [] else [jobj [(''type'', JString ''thinking_delta''), (''thinking'', JString content)]]) @
     (case signature of None \<Rightarrow> []
      | Some sg \<Rightarrow> [jobj [(''type'', JString ''signature_delta''), (''signature'', JString sg)]])"

lemma fits_thinking_deltas: "fits_kind ''thinking'' (thinking_deltas content signature)"
  by (cases signature) (simp_all add: thinking_deltas_def)

abbreviation thinking_start :: json where
  "thinking_start \<equiv> jobj [(''type'', JString ''thinking''), (''thinking'', JString []), (''signature'', JString [])]"

lemma emit_thinking_sim:
  assumes "synced s c" "emit_thinking content signature s = (out, s')"
  shows "content = [] \<and> signature = None \<and> out = [] \<and> s' = s \<or>
    (\<exists>c' i. client_run out c = Some c' \<and> synced s' c' \<and> s' = opened i ''thinking'' s \<and>
      filled ''thinking'' thinking_start (thinking_deltas content signature) c c')"
proof (cases "content = [] \<and> signature = None")
  case True
  then show ?thesis using assms(2) by (simp add: emit_thinking_def)
next
  case False
  obtain i o1 s1 where sw: "switch_block ''thinking'' thinking_start s = (i, o1, s1)"
    by (cases "switch_block ''thinking'' thinking_start s") auto
  have "out = o1 @ map (block_delta i) (thinking_deltas content signature)" "s' = s1"
    using assms(2) False sw by (auto simp: emit_thinking_def thinking_deltas_def split: option.splits)
  moreover have "get_str thinking_start ''type'' = Some ''thinking''" by (simp add: get_str_def)
  ultimately show ?thesis using fill_block_sim [OF assms(1) _ fits_thinking_deltas sw] by auto
qed

abbreviation redacted_start :: "string \<Rightarrow> json" where
  "redacted_start data \<equiv> jobj [(''type'', JString ''redacted_thinking''), (''data'', JString data)]"

lemma emit_redacted_sim:
  assumes "synced s c" "emit_redacted redacted s = (out, s')"
  shows "redacted = None \<and> out = [] \<and> s' = s \<or>
    (\<exists>data c' i. redacted = Some data \<and> client_run out c = Some c' \<and> synced s' c' \<and>
      s' = close_block (opened i ''redacted_thinking'' s) \<and>
      filled ''redacted_thinking'' (redacted_start data) [] c c')"
proof (cases redacted)
  case None
  then show ?thesis using assms(2) by (simp add: emit_redacted_def)
next
  case (Some data)
  have "get_str (redacted_start data) ''type'' = Some ''redacted_thinking''" by (simp add: get_str_def)
  from whole_block_sim [OF assms(1) this fits_kind_simps(1)] assms(2) Some
  show ?thesis by (auto simp: emit_redacted_def)
qed

abbreviation tool_start :: "string \<Rightarrow> string \<Rightarrow> json" where
  "tool_start tid name \<equiv> jobj [(''type'', JString ''tool_use''), (''id'', JString tid),
     (''name'', JString name), (''input'', jobj [])]"

abbreviation json_delta :: "string \<Rightarrow> json" where
  "json_delta delta \<equiv> jobj [(''type'', JString ''input_json_delta''), (''partial_json'', JString delta)]"

lemma apply_json_delta:
  "cb_kind b = ''tool_use'' \<Longrightarrow> apply_delta (json_delta delta) b = Some (b\<lparr>cb_body := cb_body b @ delta\<rparr>)"
  by (simp add: apply_delta_def get_str_def)

text \<open>The fragments of a call that carry input, and the state that remembers it.\<close>

definition input_deltas :: "string \<Rightarrow> string \<Rightarrow> claude_state \<Rightarrow> json list" where
  "input_deltas tid delta s =
     (if delta \<noteq> [] \<and> (trim delta \<noteq> [] \<or> tid \<in> cl_tools_with_input s) then [json_delta delta] else [])"

definition noted_input :: "string \<Rightarrow> string \<Rightarrow> claude_state \<Rightarrow> claude_state" where
  "noted_input tid delta s =
     (if trim delta = [] then s else s\<lparr>cl_tools_with_input := insert tid (cl_tools_with_input s)\<rparr>)"

lemma noted_input_simps [simp]:
  "cl_block (noted_input tid delta s) = cl_block s"
  "cl_message_started (noted_input tid delta s) = cl_message_started s"
  "cl_next_index (noted_input tid delta s) = cl_next_index s"
  "cl_tool_indices (noted_input tid delta s) = cl_tool_indices s"
  "cl_visible_text (noted_input tid delta s) = cl_visible_text s"
  by (simp_all add: noted_input_def)

lemma synced_noted [simp]: "synced (noted_input tid delta s) c = synced s c"
  by (rule synced_cong) simp_all

lemma emit_tool_unfold:
  assumes "tool_index tid name s0 = (index, o1, s1)"
  shows "emit_tool tid name delta stop s0 =
    (if stop \<and> cl_block s1 = Some (index, ''tool_use'')
     then (o1 @ map (block_delta index) (input_deltas tid delta s1) @ [block_stop index],
           close_block (noted_input tid delta s1))
     else (o1 @ map (block_delta index) (input_deltas tid delta s1), noted_input tid delta s1))"
  using assms unfolding emit_tool_def input_deltas_def noted_input_def by (auto simp: Let_def)

lemma fits_input_deltas: "fits_kind ''tool_use'' (input_deltas tid delta s)"
  by (simp add: input_deltas_def)

text \<open>A new call opens a block of its own.\<close>

lemma emit_tool_new_sim:
  assumes "synced s c" "hm_get (cl_tool_indices s) tid = None" "emit_tool tid name delta stop s = (out, s')"
  shows "\<exists>c' i. client_run out c = Some c' \<and> synced s' c' \<and> i = length (ct_blocks c) \<and>
    filled ''tool_use'' (tool_start tid name) (input_deltas tid delta s) c c' \<and>
    cl_tool_indices s' = hm_insert tid i (cl_tool_indices s) \<and>
    cl_tools_with_input s' = cl_tools_with_input (noted_input tid delta s) \<and>
    cl_block s' = (if stop then None else Some (i, ''tool_use'')) \<and> cl_visible_text s' = cl_visible_text s"
proof -
  obtain i o1 s1 where sw: "switch_block ''tool_use'' (tool_start tid name) s = (i, o1, s1)"
    by (cases "switch_block ''tool_use'' (tool_start tid name) s") auto
  let ?s1 = "s1\<lparr>cl_tool_indices := hm_insert tid i (cl_tool_indices s1)\<rparr>"
  have ti: "tool_index tid name s = (i, o1, ?s1)" using assms(2) sw by (simp add: tool_index_def)
  have ty: "get_str (tool_start tid name) ''type'' = Some ''tool_use''" by (simp add: get_str_def)
  obtain c1 where c1: "client_run (o1 @ map (block_delta i) (input_deltas tid delta s)) c = Some c1" "synced s1 c1"
      "s1 = opened i ''tool_use'' s" "filled ''tool_use'' (tool_start tid name) (input_deltas tid delta s) c c1"
      "client_step (block_stop i) c1 = Some (c1\<lparr>ct_open := False\<rparr>)" "Suc i = length (ct_blocks c1)"
    using fill_block_sim [OF assms(1) ty fits_input_deltas sw] by blast
  have i: "i = length (ct_blocks c)" using c1(4,6) by (auto simp: filled_def)
  have sy: "synced ?s1 c1" using c1(2) by simp
  have inp: "input_deltas tid delta ?s1 = input_deltas tid delta s" using c1(3) by (simp add: input_deltas_def)
  note unf = assms(3) [unfolded emit_tool_unfold [OF ti] inp]
  have run: "client_run ((o1 @ map (block_delta i) (input_deltas tid delta s)) @ [block_stop i]) c =
      Some (c1\<lparr>ct_open := False\<rparr>)"
    unfolding client_run_append [of "_ @ _"] c1(1) using c1(5) by simp
  have sel: "cl_block ?s1 = Some (i, ''tool_use'')" "cl_tool_indices ?s1 = hm_insert tid i (cl_tool_indices s)"
      "cl_tools_with_input (noted_input tid delta ?s1) = cl_tools_with_input (noted_input tid delta s)"
      "cl_visible_text ?s1 = cl_visible_text s"
    using c1(3) by (simp_all add: noted_input_def)
  show ?thesis
  proof (cases stop)
    case True
    then have "out = (o1 @ map (block_delta i) (input_deltas tid delta s)) @ [block_stop i]"
        "s' = close_block (noted_input tid delta ?s1)"
      using unf sel(1) by (simp_all del: map_append)
    then show ?thesis using run closed_synced [of "noted_input tid delta ?s1" c1] sy sel i c1(4) True
      by (intro exI [where x = "c1\<lparr>ct_open := False\<rparr>"] exI [where x = i]) (simp add: close_block_def)
  next
    case False
    then have "out = o1 @ map (block_delta i) (input_deltas tid delta s)" "s' = noted_input tid delta ?s1"
      using unf by simp_all
    then show ?thesis using c1(1,4) sy sel i False
      by (intro exI [where x = c1] exI [where x = i]) simp
  qed
qed


text \<open>A further fragment of a call goes to the block that is still open for it.\<close>

lemma emit_tool_known_sim:
  assumes "synced s c" "hm_get (cl_tool_indices s) tid = Some i" "emit_tool tid name delta stop s = (out, s')"
    "input_deltas tid delta s \<noteq> [] \<Longrightarrow> cl_block s = Some (i, ''tool_use'')"
  shows "\<exists>c'. client_run out c = Some c' \<and> synced s' c' \<and>
    (input_deltas tid delta s = [] \<and> ct_blocks c' = ct_blocks c \<or>
     input_deltas tid delta s \<noteq> [] \<and> (\<exists>bs b. ct_blocks c = bs @ [b] \<and> i = length bs \<and>
       cb_kind b = ''tool_use'' \<and> ct_blocks c' = bs @ [b\<lparr>cb_body := cb_body b @ delta\<rparr>])) \<and>
    cl_tool_indices s' = cl_tool_indices s \<and>
    cl_tools_with_input s' = cl_tools_with_input (noted_input tid delta s) \<and>
    cl_block s' = (if stop \<and> cl_block s = Some (i, ''tool_use'') then None else cl_block s) \<and>
    cl_visible_text s' = cl_visible_text s"
proof -
  have ti: "tool_index tid name s = (i, [], s)" using assms(2) by (simp add: tool_index_def)
  note unf = assms(3) [unfolded emit_tool_unfold [OF ti], simplified]
  show ?thesis
  proof (cases "cl_block s = Some (i, ''tool_use'')")
    case False
    then have "out = []" "s' = noted_input tid delta s" "input_deltas tid delta s = []"
      using unf assms(4) by auto
    with assms(1) False show ?thesis by auto
  next
    case True
    obtain bs b where b: "ct_blocks c = bs @ [b]" "i = length bs" "cb_kind b = ''tool_use''"
        "ct_open c" "cl_message_started s" "ct_phase c = Streaming"
      using assms(1) True by (auto simp: synced_def)
    define b' where "b' = (if input_deltas tid delta s = [] then b else b\<lparr>cb_body := cb_body b @ delta\<rparr>)"
    let ?c' = "c\<lparr>ct_blocks := bs @ [b']\<rparr>"
    have ds: "apply_deltas (input_deltas tid delta s) b = Some b'"
      using apply_json_delta [OF b(3)] by (auto simp: b'_def input_deltas_def)
    have run: "client_run (map (block_delta i) (input_deltas tid delta s)) c = Some ?c'"
      using client_run_deltas [OF b(6,4,1,2) ds] .
    have sy: "synced (noted_input tid delta s) ?c'"
      using assms(1) True b unfolding synced_noted by (auto simp: synced_def b'_def)
    have stp: "client_step (block_stop i) ?c' = Some (?c'\<lparr>ct_open := False\<rparr>)"
      using client_step_block_stop [of ?c' i] b by simp
    have sel: "cl_tools_with_input (close_block s) = cl_tools_with_input s" for s
      by (simp add: close_block_def)
    have blocks: "input_deltas tid delta s = [] \<and> bs @ [b'] = ct_blocks c \<or>
       input_deltas tid delta s \<noteq> [] \<and> (\<exists>bs' b2. ct_blocks c = bs' @ [b2] \<and> i = length bs' \<and>
       cb_kind b2 = ''tool_use'' \<and> bs @ [b'] = bs' @ [b2\<lparr>cb_body := cb_body b2 @ delta\<rparr>])"
      using b by (auto simp: b'_def)
    show ?thesis
    proof (cases stop)
      case st: True
      then have "out = map (block_delta i) (input_deltas tid delta s) @ [block_stop i]"
          "s' = close_block (noted_input tid delta s)"
        using unf True by simp_all
      then show ?thesis using run stp closed_synced [OF sy] blocks st True
        by (intro exI [where x = "?c'\<lparr>ct_open := False\<rparr>"])
           (simp add: client_run_append sel, simp add: close_block_def)
    next
      case False
      then have "out = map (block_delta i) (input_deltas tid delta s)" "s' = noted_input tid delta s"
        using unf by simp_all
      then show ?thesis using run sy blocks False by (intro exI [where x = ?c']) simp
    qed
  qed
qed

section \<open>Sequences of operations\<close>

text \<open>
  The interface of a refinement by streams: operations emit lists of values, a reader consumes
  them, and a relation between the emitter's state, a ghost state and the reader is kept by every
  operation that the ghost state allows.
\<close>

fun run_ops :: "('op \<Rightarrow> 's \<Rightarrow> ('e + 'o list) \<times> 's) \<Rightarrow> 'op list \<Rightarrow> 's \<Rightarrow> ('e + 'o list) \<times> 's" where
  "run_ops step [] s = (Inr [], s)"
| "run_ops step (op # ops) s = (case step op s of
       (Inl e, s') \<Rightarrow> (Inl e, s')
     | (Inr out, s') \<Rightarrow> (case run_ops step ops s' of
           (Inl e, s2) \<Rightarrow> (Inl e, s2) | (Inr rest, s2) \<Rightarrow> (Inr (out @ rest), s2)))"

fun admissible :: "('op \<Rightarrow> 'g \<Rightarrow> bool) \<Rightarrow> ('op \<Rightarrow> 'g \<Rightarrow> 'g) \<Rightarrow> 'g \<Rightarrow> 'op list \<Rightarrow> bool" where
  "admissible allowed track g [] = True"
| "admissible allowed track g (op # ops) \<longleftrightarrow> allowed op g \<and> admissible allowed track (track op g) ops"

locale stream_refinement =
  fixes step :: "'op \<Rightarrow> 's \<Rightarrow> ('e + 'o list) \<times> 's"
    and accept :: "'o list \<Rightarrow> 'c \<Rightarrow> 'c option"
    and allowed :: "'op \<Rightarrow> 'g \<Rightarrow> bool"
    and track :: "'op \<Rightarrow> 'g \<Rightarrow> 'g"
    and rel :: "'g \<Rightarrow> 's \<Rightarrow> 'c \<Rightarrow> bool"
  assumes accept_Nil: "accept [] c = Some c"
    and accept_append: "accept (xs @ ys) c = Option.bind (accept xs c) (accept ys)"
    and step_sim: "rel g s c \<Longrightarrow> allowed op g \<Longrightarrow> step op s = (Inr out, s') \<Longrightarrow>
      \<exists>c'. accept out c = Some c' \<and> rel (track op g) s' c'"
begin

lemma run_sim:
  "rel g s c \<Longrightarrow> admissible allowed track g ops \<Longrightarrow> run_ops step ops s = (Inr out, s') \<Longrightarrow>
     \<exists>c' g'. accept out c = Some c' \<and> rel g' s' c'"
proof (induction ops arbitrary: g s c out)
  case (Cons op ops)
  then obtain o1 s1 rest where st: "step op s = (Inr o1, s1)" "run_ops step ops s1 = (Inr rest, s')"
      "out = o1 @ rest"
    by (auto split: prod.splits sum.splits)
  obtain c1 where c1: "accept o1 c = Some c1" "rel (track op g) s1 c1"
    using step_sim [OF Cons.prems(1) _ st(1)] Cons.prems(2) by auto
  obtain c' g' where "accept rest c1 = Some c'" "rel g' s' c'"
    using Cons.IH [OF c1(2) _ st(2)] Cons.prems(2) by auto
  then show ?case using st(3) c1(1) by (auto simp: accept_append)
qed (auto simp: accept_Nil)

end

end
