(* ===== verification/ClaudeStreamRefines.thy ===== *)
theory ClaudeStreamRefines
  imports ClaudeStreamCorrect
begin

text \<open>
  The two refinements of the Claude encoder: every sequence of its operations in which the fragments
  of a tool call are not torn apart is a conversation that the protocol allows, and what a client
  assembles from it is the buffered answer.
\<close>

section \<open>Operations\<close>

datatype claude_op =
    Event kiro_event
  | CompactionOp string
  | ToolSearchOp claude_tool_search_trace
  | WebSearchOp replay_codec claude_web_search_trace
  | CitationsOp replay_codec "claude_web_search_trace list" string

fun claude_op_step ::
  "(json \<Rightarrow> string) \<Rightarrow> claude_op \<Rightarrow> claude_state \<Rightarrow> (web_search_replay_error + json list) \<times> claude_state" where
  "claude_op_step to_json (Event event) s = (let (out, s') = claude_event event s in (Inr out, s'))"
| "claude_op_step to_json (CompactionOp content) s = (let (out, s') = compaction content s in (Inr out, s'))"
| "claude_op_step to_json (ToolSearchOp search) s =
     (let (out, s') = tool_search to_json search s in (Inr out, s'))"
| "claude_op_step to_json (WebSearchOp enc search) s = web_search to_json enc search s"
| "claude_op_step to_json (CitationsOp enc searches answer) s = citation_events enc searches answer s"

text \<open>
  The discipline of tool fragments: a fragment with input of a call that was announced before comes
  while that call is the last one that was opened, with no other content in between.
\<close>

type_synonym tool_ghost = "string option \<times> string set"

fun event_track :: "kiro_event \<Rightarrow> tool_ghost \<Rightarrow> tool_ghost" where
  "event_track (ToolUse tid name delta stop) (cur, seen) =
     (if stop then None else if tid \<in> seen then cur else Some tid, insert tid seen)"
| "event_track (AssistantResponse _) (cur, seen) = (None, seen)"
| "event_track (Reasoning _ _ _) (cur, seen) = (None, seen)"
| "event_track (Citations _) (cur, seen) = (None, seen)"
| "event_track _ g = g"

fun event_allowed :: "kiro_event \<Rightarrow> tool_ghost \<Rightarrow> bool" where
  "event_allowed (ToolUse tid name delta stop) (cur, seen) \<longleftrightarrow> tid \<notin> seen \<or> cur = Some tid \<or> delta = []"
| "event_allowed _ _ \<longleftrightarrow> True"

fun op_track :: "claude_op \<Rightarrow> tool_ghost \<Rightarrow> tool_ghost" where
  "op_track (Event event) g = event_track event g"
| "op_track _ (cur, seen) = (None, seen)"

fun op_allowed :: "claude_op \<Rightarrow> tool_ghost \<Rightarrow> bool" where
  "op_allowed (Event event) g = event_allowed event g"
| "op_allowed _ _ = True"

section \<open>The protocol\<close>

definition protocol_rel :: "tool_ghost \<Rightarrow> claude_state \<Rightarrow> client \<Rightarrow> bool" where
  "protocol_rel g s c \<longleftrightarrow> synced s c \<and> hm_keys (cl_tool_indices s) = snd g \<and>
     (\<forall>tid. fst g = Some tid \<longrightarrow>
        (\<exists>i. hm_get (cl_tool_indices s) tid = Some i \<and> cl_block s = Some (i, ''tool_use'')))"

lemma protocol_rel_clear:
  "protocol_rel g s c \<Longrightarrow> synced s' c' \<Longrightarrow> cl_tool_indices s' = cl_tool_indices s \<Longrightarrow>
     protocol_rel (None, snd g) s' c'"
  by (simp add: protocol_rel_def)

lemma close_block_simps [simp]:
  "cl_tool_indices (close_block s) = cl_tool_indices s"
  "cl_visible_text (close_block s) = cl_visible_text s"
  "cl_tools_with_input (close_block s) = cl_tools_with_input s"
  "cl_block (close_block s) = None"
  by (simp_all add: close_block_def)

lemma fresh_references_frame:
  "fresh_references cs s = (refs, s') \<Longrightarrow> \<exists>seen. s' = s\<lparr>cl_emitted_citation_links := seen\<rparr>"
  by (auto simp: fresh_references_def split: prod.splits)

lemma claude_event_sim:
  assumes "protocol_rel g s c" "event_allowed event g" "claude_event event s = (out, s')"
  shows "\<exists>c'. client_run out c = Some c' \<and> protocol_rel (event_track event g) s' c'"
proof -
  obtain cur seen where g: "g = (cur, seen)" by (cases g)
  have sy: "synced s c" using assms(1) by (simp add: protocol_rel_def)
  note clear = protocol_rel_clear [OF assms(1)]
  show ?thesis
  proof (cases event)
    case (AssistantResponse content)
    then show ?thesis using emit_text_sim [OF sy, of content] assms(3) clear g
      by (fastforce simp: claude_event_def)
  next
    case (Reasoning content signature redacted)
    obtain o1 s1 o2 s2 where e: "emit_thinking content signature s = (o1, s1)" "emit_redacted redacted s1 = (o2, s2)"
      by fastforce
    then have r: "out = o1 @ o2" "s' = s2" using assms(3) Reasoning by (auto simp: claude_event_def)
    obtain c1 where c1: "client_run o1 c = Some c1" "synced s1 c1" "cl_tool_indices s1 = cl_tool_indices s"
      using emit_thinking_sim [OF sy e(1)] sy by fastforce
    obtain c2 where c2: "client_run o2 c1 = Some c2" "synced s2 c2" "cl_tool_indices s2 = cl_tool_indices s1"
      using emit_redacted_sim [OF c1(2) e(2)] c1(2) by fastforce
    show ?thesis using c1 c2 r clear [of s2 c2] g Reasoning by (simp add: client_run_append)
  next
    case (Citations cs)
    obtain refs s1 where f: "fresh_references cs s = (refs, s1)" by fastforce
    obtain links where s1: "s1 = s\<lparr>cl_emitted_citation_links := links\<rparr>" using fresh_references_frame [OF f] by blast
    have sy1: "synced s1 c" using sy s1 by simp
    show ?thesis
    proof (cases "refs = []")
      case True
      then show ?thesis using assms(3) Citations f clear [OF sy1] s1 g by (auto simp: claude_event_def)
    next
      case False
      then have "emit_text refs s1 = (out, s')" using assms(3) Citations f by (simp add: claude_event_def)
      from emit_text_sim [OF sy1 this] show ?thesis using clear [of s'] s1 g Citations by fastforce
    qed
  next
    case (ToolUse tid name delta stop)
    then have e: "emit_tool tid name delta stop s = (out, s')" using assms(3) by (simp add: claude_event_def)
    show ?thesis
    proof (cases "hm_get (cl_tool_indices s) tid")
      case None
      then have "tid \<notin> seen" using assms(1) g by (simp add: protocol_rel_def hm_get_None_iff)
      moreover obtain c' i where "client_run out c = Some c'" "synced s' c'"
          "cl_tool_indices s' = hm_insert tid i (cl_tool_indices s)"
          "cl_block s' = (if stop then None else Some (i, ''tool_use''))"
        using emit_tool_new_sim [OF sy None e] by blast
      ultimately show ?thesis using assms(1) g ToolUse by (simp add: protocol_rel_def update_conv')
    next
      case (Some i)
      then have seen: "tid \<in> seen" using assms(1) g hm_get_in_keys [OF Some] by (simp add: protocol_rel_def)
      have opn: "cur = Some tid \<Longrightarrow> cl_block s = Some (i, ''tool_use'')"
        using assms(1) g Some by (auto simp: protocol_rel_def)
      then have "input_deltas tid delta s \<noteq> [] \<Longrightarrow> cl_block s = Some (i, ''tool_use'')"
        using assms(2) ToolUse g seen by (auto simp: input_deltas_def)
      then obtain c' where "client_run out c = Some c'" "synced s' c'" "cl_tool_indices s' = cl_tool_indices s"
          "cl_block s' = (if stop \<and> cl_block s = Some (i, ''tool_use'') then None else cl_block s)"
        using emit_tool_known_sim [OF sy Some e] by blast
      then show ?thesis using assms(1) g ToolUse seen by (auto simp: protocol_rel_def)
    qed
  qed (use assms(1,3) in \<open>simp_all add: claude_event_def\<close>)
qed


text \<open>Blocks that are sent whole, one after the other.\<close>

lemma whole_block_keeps:
  assumes "synced s c" "get_str initial ''type'' = Some kind" "fits_kind kind ds"
    "whole_block kind initial ds s = (out, s')"
  shows "\<exists>c'. client_run out c = Some c' \<and> synced s' c' \<and> cl_tool_indices s' = cl_tool_indices s"
  using whole_block_sim [OF assms] by auto

lemma server_tool_block_keeps:
  assumes "synced s c" "server_tool_block to_json tid name input s = (out, s')"
  shows "\<exists>c'. client_run out c = Some c' \<and> synced s' c' \<and> cl_tool_indices s' = cl_tool_indices s"
proof -
  have "get_str (jobj [(''type'', JString ''server_tool_use''), (''id'', JString tid),
      (''name'', JString name), (''input'', jobj [])]) ''type'' = Some ''server_tool_use''"
    by (simp add: get_str_def)
  from whole_block_keeps [OF assms(1) this fits_kind_simps(7)] assms(2) show ?thesis
    unfolding server_tool_block_def by blast
qed

lemma compaction_keeps:
  assumes "synced s c" "compaction content s = (out, s')"
  shows "\<exists>c'. client_run out c = Some c' \<and> synced s' c' \<and> cl_tool_indices s' = cl_tool_indices s"
proof -
  have ty: "get_str (jobj [(''type'', JString ''compaction''), (''content'', v)]) ''type'' = Some ''compaction''" for v
    by (simp add: get_str_def)
  have "fits_kind ''compaction'' (if cl_compaction_in_start s then []
      else [jobj [(''type'', JString ''compaction_delta''), (''content'', JString content)]])" by simp
  from whole_block_keeps [OF assms(1) ty this] assms(2) show ?thesis unfolding compaction_def by blast
qed

text \<open>The call of a server tool, its result, or both.\<close>

lemma call_then_result_keeps:
  assumes "synced s c" "call = (if e \<noteq> ResultOnly then server_tool_block to_json tid name input s else ([], s))"
    "call = (o1, s1)" "get_str initial ''type'' = Some kind" "whole_block kind initial [] s1 = (o2, s2)"
  shows "(\<exists>c'. client_run o1 c = Some c' \<and> synced s1 c' \<and> cl_tool_indices s1 = cl_tool_indices s) \<and>
    (\<exists>c'. client_run (o1 @ o2) c = Some c' \<and> synced s2 c' \<and> cl_tool_indices s2 = cl_tool_indices s)"
proof -
  obtain c1 where c1: "client_run o1 c = Some c1" "synced s1 c1" "cl_tool_indices s1 = cl_tool_indices s"
  proof (cases "e = ResultOnly")
    case True
    then show ?thesis using that assms(1-3) by auto
  next
    case False
    then have "server_tool_block to_json tid name input s = (o1, s1)" using assms(2,3) by simp
    from server_tool_block_keeps [OF assms(1) this] show ?thesis using that by blast
  qed
  with whole_block_keeps [OF c1(2) assms(4) fits_kind_simps(1) assms(5)] show ?thesis
    by (auto simp: client_run_append)
qed

lemma tool_search_keeps:
  assumes "synced s c" "tool_search to_json search s = (out, s')"
  shows "\<exists>c'. client_run out c = Some c' \<and> synced s' c' \<and> cl_tool_indices s' = cl_tool_indices s"
proof -
  let ?r = "jobj [(''type'', JString ''tool_search_tool_result''),
    (''tool_use_id'', JString (tq_id search)), (''content'', tool_search_result search)]"
  obtain o1 s1 where call: "(if tq_emission search \<noteq> ResultOnly
      then server_tool_block to_json (tq_id search) (tq_name search) (tq_input search) s else ([], s)) = (o1, s1)"
    by fastforce
  obtain o2 s2 where res: "whole_block ''tool_search_tool_result'' ?r [] s1 = (o2, s2)" by fastforce
  have ty: "get_str ?r ''type'' = Some ''tool_search_tool_result''" by (simp add: get_str_def)
  from call_then_result_keeps [OF assms(1) refl call ty res] assms(2) call res show ?thesis
    by (auto simp: tool_search_def Let_def split: if_splits)
qed

lemma web_search_keeps:
  assumes "synced s c" "web_search to_json enc search s = (Inr out, s')"
  shows "\<exists>c'. client_run out c = Some c' \<and> synced s' c' \<and> cl_tool_indices s' = cl_tool_indices s"
proof -
  obtain o1 s1 where call: "(if ws_emission search \<noteq> ResultOnly
      then server_tool_block to_json (ws_id search) ''web_search'' (ws_input search) s else ([], s)) = (o1, s1)"
    by fastforce
  let ?r = "\<lambda>result. jobj [(''type'', JString ''web_search_tool_result''), (''tool_use_id'', JString (ws_id search)),
    (''content'', result), (''caller'', jobj [(''type'', JString ''direct'')])]"
  have ty: "get_str (?r result) ''type'' = Some ''web_search_tool_result''" for result by (simp add: get_str_def)
  have keeps: "(\<exists>c'. client_run o1 c = Some c' \<and> synced s1 c' \<and> cl_tool_indices s1 = cl_tool_indices s) \<and>
      (\<exists>c'. client_run (o1 @ o2) c = Some c' \<and> synced s2 c' \<and> cl_tool_indices s2 = cl_tool_indices s)"
    if "whole_block ''web_search_tool_result'' (?r result) [] s1 = (o2, s2)" for result o2 s2
    by (rule call_then_result_keeps [OF assms(1) refl call ty that])
  show ?thesis
  proof (cases "ws_emission search = Pending")
    case True
    obtain o2 s2 where "whole_block ''web_search_tool_result'' (?r JNull) [] s1 = (o2, s2)" by fastforce
    from keeps [OF this] True assms(2) call show ?thesis by (simp add: web_search_def)
  next
    case False
    then obtain result where w: "web_search_content enc search = Inr result"
      using assms(2) call by (auto simp: web_search_def split: sum.splits)
    obtain o2 s2 where res: "whole_block ''web_search_tool_result'' (?r result) [] s1 = (o2, s2)" by fastforce
    then have "out = o1 @ o2" "s' = s2" using assms(2) call False w by (simp_all add: web_search_def)
    with keeps [OF res] show ?thesis by simp
  qed
qed

lemma citation_events_keeps:
  assumes "synced s c" "citation_events enc searches answer s = (Inr out, s')"
  shows "\<exists>c'. client_run out c = Some c' \<and> synced s' c' \<and> cl_tool_indices s' = cl_tool_indices s"
proof -
  let ?r = "jobj [(''type'', JString ''text''), (''text'', JString []), (''citations'', JArray [])]"
  have ty: "get_str ?r ''type'' = Some ''text''" by (simp add: get_str_def)
  obtain i o1 s1 where sw: "switch_block ''text'' ?r s = (i, o1, s1)" by (cases "switch_block ''text'' ?r s") auto
  have "out = [] \<and> s' = s \<or> (\<exists>cs. web_search_citations searches answer enc = Inr cs \<and>
      out = o1 @ map (\<lambda>c. block_delta i (jobj [(''type'', JString ''citations_delta''), (''citation'', c)])) cs \<and>
      s' = s1)"
    using assms(2) sw by (auto simp: citation_events_def split: if_splits sum.splits list.splits)
  then show ?thesis
  proof (elim disjE exE conjE)
    fix cs
    assume "out = o1 @ map (\<lambda>c. block_delta i (jobj [(''type'', JString ''citations_delta''), (''citation'', c)])) cs"
      and "s' = s1"
    then show ?thesis using fill_block_sim [OF assms(1) ty fits_kind_simps(3) sw, of cs] by (auto simp: comp_def)
  qed (use assms(1) in simp)
qed

lemma claude_op_sim:
  assumes "protocol_rel g s c" "op_allowed op g" "claude_op_step to_json op s = (Inr out, s')"
  shows "\<exists>c'. client_run out c = Some c' \<and> protocol_rel (op_track op g) s' c'"
proof -
  have sy: "synced s c" using assms(1) by (simp add: protocol_rel_def)
  have keeps: "\<exists>c'. client_run out c = Some c' \<and> protocol_rel (None, snd g) s' c'"
    if "\<exists>c'. client_run out c = Some c' \<and> synced s' c' \<and> cl_tool_indices s' = cl_tool_indices s"
    using that protocol_rel_clear [OF assms(1)] by blast
  obtain cur seen where g: "g = (cur, seen)" by (cases g)
  show ?thesis
  proof (cases op)
    case (Event event)
    then show ?thesis using claude_event_sim [OF assms(1), of event] assms(2,3) by (auto split: prod.splits)
  next
    case (CompactionOp content)
    then show ?thesis using keeps compaction_keeps [OF sy] assms(3) g by (auto split: prod.splits)
  next
    case (ToolSearchOp search)
    then show ?thesis using keeps tool_search_keeps [OF sy] assms(3) g by (auto split: prod.splits)
  next
    case (WebSearchOp enc search)
    then show ?thesis using keeps web_search_keeps [OF sy] assms(3) g by auto
  next
    case (CitationsOp enc searches answer)
    then show ?thesis using keeps citation_events_keeps [OF sy] assms(3) g by auto
  qed
qed

interpretation protocol: stream_refinement "claude_op_step to_json" client_run op_allowed op_track protocol_rel
  for to_json
  by unfold_locales (simp_all add: client_run_append claude_op_sim)

lemma finish_sim:
  assumes "synced s c" "claude_finish d max_tokens round_tokens s = (out, s')"
  shows "\<exists>c'. client_run out c = Some c' \<and> ct_phase c' = Stopped \<and> ct_blocks c' = ct_blocks c \<and> \<not> ct_open c'"
proof -
  obtain o1 s1 where e: "ensure_message s = (o1, s1)" by fastforce
  obtain c1 where c1: "client_run o1 c = Some c1" "synced s1 c1" "ct_phase c1 = Streaming" "ct_blocks c1 = ct_blocks c"
    using ensure_message_sim [OF assms(1) e] by blast
  let ?c2 = "c1\<lparr>ct_open := False\<rparr>"
  have stop: "client_run (case cl_block s1 of None \<Rightarrow> [] | Some (index, _) \<Rightarrow> [block_stop index]) c1 = Some ?c2"
  proof (cases "cl_block s1")
    case None
    then show ?thesis using c1(2) by (cases c1) (simp add: synced_def)
  next
    case (Some bk)
    then show ?thesis using c1(2,3) client_step_block_stop [of c1] by (cases bk) (auto simp: synced_def)
  qed
  have "get_str (message_delta_event d max_tokens round_tokens s1) ''type'' = Some ''message_delta''"
    by (simp add: message_delta_event_def with_edits_def get_str_def Let_def v_get_v_set_other)
  then have "client_run [message_delta_event d max_tokens round_tokens s1, jobj [(''type'', JString ''message_stop'')]] ?c2 =
      Some (?c2\<lparr>ct_phase := Stopped\<rparr>)"
    using c1(3) by (simp add: client_step_def) (simp add: get_str_def)
  then have "client_run out c = Some (?c2\<lparr>ct_phase := Stopped\<rparr>)"
    using assms(2) e c1(1) stop by (auto simp: claude_finish_def client_run_append)
  then show ?thesis using c1(4) by simp
qed

lemma build_claude_state_simps [simp]:
  "cl_message_started (build_claude_state cx) = False"
  "cl_block (build_claude_state cx) = None"
  "cl_next_index (build_claude_state cx) = 0"
  "cl_tool_indices (build_claude_state cx) = []"
  "cl_tools_with_input (build_claude_state cx) = {}"
  "cl_visible_text (build_claude_state cx) = []"
  by (simp_all add: build_claude_state_def set_prompt_cache_plan_def claude_state_new_def)

lemma synced_init: "synced (build_claude_state cx) client_init"
  by (simp add: synced_def client_init_def)

lemma protocol_rel_init: "protocol_rel (None, {}) (build_claude_state cx) client_init"
  using synced_init by (simp add: protocol_rel_def)

text \<open>The start of a stream is a sequence of operations.\<close>

fun resumed_ops ::
  "(nat \<Rightarrow> replay_codec) \<Rightarrow> claude_tool_search_trace list \<Rightarrow> claude_web_search_trace list \<Rightarrow> nat \<Rightarrow>
     claude_server_event list \<Rightarrow> claude_op list" where
  "resumed_ops enc searches web_searches n [] = []"
| "resumed_ops enc searches web_searches n (ToolSearch index _ # events) =
     (if index < length searches then [ToolSearchOp (searches ! index)] else []) @
     resumed_ops enc searches web_searches (n + 1) events"
| "resumed_ops enc searches web_searches n (WebSearch index _ # events) =
     (if index < length web_searches then [WebSearchOp (enc n) (web_searches ! index)] else []) @
     resumed_ops enc searches web_searches (n + 1) events"

definition initial_ops ::
  "(nat \<Rightarrow> replay_codec) \<Rightarrow> string option \<Rightarrow> claude_server_event list \<Rightarrow> claude_tool_search_trace list \<Rightarrow>
     claude_web_search_trace list \<Rightarrow> claude_op list" where
  "initial_ops enc summary resumed searches web_searches =
     (case summary of None \<Rightarrow> [] | Some content \<Rightarrow> [CompactionOp content]) @
     resumed_ops enc searches web_searches 0 resumed"

lemma resumed_events_ops:
  "resumed_events to_json enc searches web_searches n events s =
     run_ops (claude_op_step to_json) (resumed_ops enc searches web_searches n events) s"
  by (induction enc searches web_searches n events arbitrary: s rule: resumed_ops.induct)
     (auto split: prod.splits sum.splits)

lemma initial_events_ops:
  "claude_initial_events to_json enc summary resumed searches web_searches s =
     run_ops (claude_op_step to_json) (initial_ops enc summary resumed searches web_searches) s"
  by (cases summary)
     (auto simp: claude_initial_events_def initial_ops_def resumed_events_ops split: prod.splits sum.splits)

lemma resumed_ops_admissible:
  "admissible op_allowed op_track (None, seen) (resumed_ops enc searches web_searches n events @ ops) =
     admissible op_allowed op_track (None, seen) ops"
  by (induction enc searches web_searches n events rule: resumed_ops.induct) auto

lemma initial_ops_admissible:
  "admissible op_allowed op_track (None, {}) (initial_ops enc summary resumed searches web_searches @ ops) =
     admissible op_allowed op_track (None, {}) ops"
  by (cases summary) (simp_all add: initial_ops_def resumed_ops_admissible)

lemma run_ops_append:
  "run_ops step ops1 s = (Inr out1, s1) \<Longrightarrow> run_ops step ops2 s1 = (Inr out2, s2) \<Longrightarrow>
     run_ops step (ops1 @ ops2) s = (Inr (out1 @ out2), s2)"
  by (induction ops1 arbitrary: s out1) (auto split: prod.splits sum.splits)

section \<open>The content\<close>

text \<open>What the client has put together from the blocks of a kind.\<close>

definition gather :: "(cblock \<Rightarrow> string) \<Rightarrow> client \<Rightarrow> string" where
  "gather f c = concat (map f (ct_blocks c))"

definition text_of :: "cblock \<Rightarrow> string" where
  "text_of b = (if cb_kind b = ''text'' then cb_body b else [])"

definition thinking_of :: "cblock \<Rightarrow> string" where
  "thinking_of b = (if cb_kind b = ''thinking'' then cb_body b else [])"

definition redacted_of :: "cblock \<Rightarrow> string" where
  "redacted_of b = (if cb_kind b = ''redacted_thinking'' then unwrap_or (get_str (cb_start b) ''data'') [] else [])"

lemmas of_defs = text_of_def thinking_of_def redacted_of_def

definition adds :: "(cblock \<Rightarrow> string) \<Rightarrow> string \<Rightarrow> json list \<Rightarrow> string \<Rightarrow> bool" where
  "adds f kind ds x \<longleftrightarrow> (\<forall>b b'. cb_kind b = kind \<longrightarrow> apply_deltas ds b = Some b' \<longrightarrow> f b' = f b @ x)"

lemma filled_gather:
  assumes "filled kind initial ds c c'" "adds f kind ds x" "f (fresh_block kind initial) = []"
  shows "gather f c' = gather f c @ x"
proof -
  obtain bs b b' where b: "apply_deltas ds b = Some b'" "ct_blocks c' = bs @ [b']" "cb_kind b = kind"
      "ct_blocks c = bs @ [b] \<or> ct_blocks c = bs \<and> b = fresh_block kind initial"
    using assms(1) unfolding filled_def by auto
  then have "f b' = f b @ x" using assms(2) by (simp add: adds_def)
  with b(2,4) assms(3) show ?thesis by (auto simp: gather_def)
qed

lemma filled_nth:
  assumes "filled kind initial ds c c'" "i < length (ct_blocks c)" "cb_kind (ct_blocks c ! i) = ''tool_use''"
  shows "i < length (ct_blocks c') \<and> ct_blocks c' ! i = ct_blocks c ! i"
  using assms unfolding filled_def by (auto simp: nth_append less_Suc_eq)

lemma adds_text [simp]:
  "adds text_of ''text'' [text_delta t] t" "adds thinking_of ''text'' [text_delta t] []"
  "adds cb_signature ''text'' [text_delta t] []" "adds redacted_of ''text'' [text_delta t] []"
  by (simp_all add: adds_def apply_delta_def get_str_def text_delta_def of_defs)

lemma adds_thinking [simp]:
  "adds text_of ''thinking'' (thinking_deltas t sg) []"
  "adds thinking_of ''thinking'' (thinking_deltas t sg) t"
  "adds cb_signature ''thinking'' (thinking_deltas t sg) (unwrap_or sg [])"
  "adds redacted_of ''thinking'' (thinking_deltas t sg) []"
  by (cases sg; simp add: adds_def apply_delta_def get_str_def thinking_deltas_def of_defs)+

lemma adds_tool [simp]:
  "adds text_of ''tool_use'' (input_deltas tid delta s) []"
  "adds thinking_of ''tool_use'' (input_deltas tid delta s) []"
  "adds cb_signature ''tool_use'' (input_deltas tid delta s) []"
  "adds redacted_of ''tool_use'' (input_deltas tid delta s) []"
  by (simp_all add: adds_def apply_delta_def get_str_def input_deltas_def of_defs)

definition tool_agrees :: "bool \<Rightarrow> string \<Rightarrow> tool_buffer \<Rightarrow> cblock \<Rightarrow> bool" where
  "tool_agrees with_input tid t b \<longleftrightarrow> cb_kind b = ''tool_use'' \<and> get_str (cb_start b) ''id'' = Some tid \<and>
     (\<exists>ws. tb_input t = concat ws @ cb_body b \<and> (\<forall>w \<in> set ws. trim w = [])) \<and>
     (\<not> with_input \<longrightarrow> cb_body b = [])"

definition agrees_at :: "claude_state \<Rightarrow> decoded_response \<Rightarrow> client \<Rightarrow> string \<Rightarrow> bool" where
  "agrees_at s d c tid \<longleftrightarrow>
     (case hm_get (cl_tool_indices s) tid of
        None \<Rightarrow> map_of (dr_tools d) tid = None
      | Some i \<Rightarrow> i < length (ct_blocks c) \<and> (\<exists>t. map_of (dr_tools d) tid = Some t \<and>
          tool_agrees (tid \<in> cl_tools_with_input s) tid t (ct_blocks c ! i)))"

definition tools_agree :: "claude_state \<Rightarrow> decoded_response \<Rightarrow> client \<Rightarrow> bool" where
  "tools_agree s d c \<longleftrightarrow> (\<forall>tid. agrees_at s d c tid)"

lemma agrees_atI:
  assumes "agrees_at s d c tid" "hm_get (cl_tool_indices s') tid = hm_get (cl_tool_indices s) tid"
    "tid \<in> cl_tools_with_input s' \<longleftrightarrow> tid \<in> cl_tools_with_input s"
    "map_of (dr_tools d') tid = map_of (dr_tools d) tid"
    "\<And>i. i < length (ct_blocks c) \<Longrightarrow> cb_kind (ct_blocks c ! i) = ''tool_use'' \<Longrightarrow>
       get_str (cb_start (ct_blocks c ! i)) ''id'' = Some tid \<Longrightarrow>
       i < length (ct_blocks c') \<and> ct_blocks c' ! i = ct_blocks c ! i"
  shows "agrees_at s' d' c' tid"
proof (cases "hm_get (cl_tool_indices s) tid")
  case None
  then show ?thesis using assms(1,2,4) by (simp add: agrees_at_def)
next
  case (Some i)
  then obtain t where t: "i < length (ct_blocks c)" "map_of (dr_tools d) tid = Some t"
      "tool_agrees (tid \<in> cl_tools_with_input s) tid t (ct_blocks c ! i)"
    using assms(1) by (auto simp: agrees_at_def)
  have "i < length (ct_blocks c') \<and> ct_blocks c' ! i = ct_blocks c ! i"
    using assms(5) [OF t(1)] t(3) by (simp add: tool_agrees_def)
  with Some t assms(2-4) show ?thesis by (simp add: agrees_at_def)
qed

definition texts_agree :: "decoded_response \<Rightarrow> client \<Rightarrow> bool" where
  "texts_agree d c \<longleftrightarrow> gather text_of c = dr_text d \<and> gather thinking_of c = dr_reasoning d \<and>
     gather cb_signature c = unwrap_or (dr_reasoning_signature d) [] \<and>
     gather redacted_of c = dr_redacted_thinking d"

text \<open>Blocks of other kinds leave the tools alone.\<close>

lemma tools_agree_filled:
  assumes "tools_agree s d c" "filled kind initial ds c c'"
    "cl_tool_indices s' = cl_tool_indices s" "cl_tools_with_input s' = cl_tools_with_input s" "dr_tools d' = dr_tools d"
  shows "tools_agree s' d' c'"
  unfolding tools_agree_def
proof
  fix tid
  show "agrees_at s' d' c' tid"
    by (rule agrees_atI [of s d c]) (use assms(1,3-5) filled_nth [OF assms(2)] in \<open>simp_all add: tools_agree_def\<close>)
qed

section \<open>One event, both answers\<close>

definition answer_step ::
  "(string \<Rightarrow> f64 option) \<Rightarrow> kiro_event \<Rightarrow> claude_state \<times> decoded_response \<Rightarrow>
     (string + json list) \<times> (claude_state \<times> decoded_response)" where
  "answer_step parse_f64 event = (\<lambda>(s, d). case decoded_push parse_f64 event d of
     Inl e \<Rightarrow> (Inl e, (s, d))
   | Inr d' \<Rightarrow> (let (out, s') = claude_event event s in (Inr out, (s', d'))))"

fun answer_allowed :: "kiro_event \<Rightarrow> tool_ghost \<Rightarrow> bool" where
  "answer_allowed (Citations _) g \<longleftrightarrow> False"
| "answer_allowed event g \<longleftrightarrow> event_allowed event g"

definition answer_rel :: "tool_ghost \<Rightarrow> claude_state \<times> decoded_response \<Rightarrow> client \<Rightarrow> bool" where
  "answer_rel g = (\<lambda>(s, d) c. protocol_rel g s c \<and> texts_agree d c \<and> tools_agree s d c \<and>
     (\<forall>i. cl_block s \<noteq> Some (i, ''redacted_thinking'')))"

lemma text_agrees:
  assumes "synced s c" "emit_text content s = (out, s')" "client_run out c = Some c'"
    "texts_agree d c" "tools_agree s d c"
  shows "texts_agree (d\<lparr>dr_text := dr_text d @ content\<rparr>) c' \<and> tools_agree s' (d\<lparr>dr_text := dr_text d @ content\<rparr>) c' \<and>
    (\<forall>i. cl_block s' \<noteq> Some (i, ''redacted_thinking''))"
proof -
  obtain i where f: "s' = opened i ''text'' (s\<lparr>cl_visible_text := cl_visible_text s @ content\<rparr>)"
      "filled ''text'' (text_block []) [text_delta content] c c'"
    using emit_text_sim [OF assms(1,2)] assms(3) by auto
  note gather = filled_gather [OF f(2)]
  have "texts_agree (d\<lparr>dr_text := dr_text d @ content\<rparr>) c'"
    using assms(4) gather [OF adds_text(1)] gather [OF adds_text(2)] gather [OF adds_text(3)] gather [OF adds_text(4)]
    by (simp add: texts_agree_def of_defs)
  moreover have "tools_agree s' (d\<lparr>dr_text := dr_text d @ content\<rparr>) c'"
    using tools_agree_filled [OF assms(5) f(2)] f(1) by simp
  ultimately show ?thesis using f(1) by simp
qed

lemma thinking_agrees:
  assumes "synced s c" "emit_thinking content signature s = (out, s')" "client_run out c = Some c'"
    "texts_agree d c" "tools_agree s d c" "\<forall>i. cl_block s \<noteq> Some (i, ''redacted_thinking'')"
    "d' = d\<lparr>dr_reasoning := dr_reasoning d @ content, dr_reasoning_signature := (case signature of
        None \<Rightarrow> dr_reasoning_signature d | Some s \<Rightarrow> Some (unwrap_or (dr_reasoning_signature d) [] @ s))\<rparr>"
  shows "texts_agree d' c' \<and> tools_agree s' d' c' \<and> (\<forall>i. cl_block s' \<noteq> Some (i, ''redacted_thinking''))"
proof (cases "content = [] \<and> signature = None")
  case True
  then have "out = []" "s' = s" using assms(2) by (simp_all add: emit_thinking_def)
  moreover have "d' = d" using True assms(7) by simp
  ultimately show ?thesis using assms(3-6) by simp
next
  case False
  then obtain i where f: "s' = opened i ''thinking'' s"
      "filled ''thinking'' thinking_start (thinking_deltas content signature) c c'"
    using emit_thinking_sim [OF assms(1,2)] assms(3) by auto
  note gather = filled_gather [OF f(2)]
  have "texts_agree d' c'"
    using assms(4,7) gather [OF adds_thinking(1)] gather [OF adds_thinking(2)] gather [OF adds_thinking(3)]
      gather [OF adds_thinking(4)]
    by (cases signature) (simp_all add: texts_agree_def of_defs)
  moreover have "tools_agree s' d' c'" using tools_agree_filled [OF assms(5) f(2)] f(1) assms(7) by simp
  ultimately show ?thesis using f(1) by simp
qed

lemma redacted_agrees:
  assumes "synced s c" "emit_redacted redacted s = (out, s')" "client_run out c = Some c'"
    "texts_agree d c" "tools_agree s d c" "\<forall>i. cl_block s \<noteq> Some (i, ''redacted_thinking'')"
    "d' = d\<lparr>dr_redacted_thinking := dr_redacted_thinking d @ unwrap_or redacted []\<rparr>"
  shows "texts_agree d' c' \<and> tools_agree s' d' c' \<and> (\<forall>i. cl_block s' \<noteq> Some (i, ''redacted_thinking''))"
proof (cases redacted)
  case None
  then have "out = []" "s' = s" using assms(2) by (simp_all add: emit_redacted_def)
  then show ?thesis using assms(3-7) None by simp
next
  case (Some data)
  then obtain i where f: "s' = close_block (opened i ''redacted_thinking'' s)"
      "filled ''redacted_thinking'' (redacted_start data) [] c c'"
    using emit_redacted_sim [OF assms(1,2)] assms(3) by auto
  have "\<not> (ct_open c \<and> (\<exists>bs b. ct_blocks c = bs @ [b] \<and> cb_kind b = ''redacted_thinking''))"
    using assms(1,6) by (auto simp: synced_def split: option.splits)
  then have "ct_blocks c' = ct_blocks c @ [fresh_block ''redacted_thinking'' (redacted_start data)]"
    using f(2) by (auto simp: filled_def)
  then have "texts_agree d' c'"
    using assms(4,7) Some by (simp add: texts_agree_def gather_def of_defs get_str_def)
  moreover have "tools_agree s' d' c'" using tools_agree_filled [OF assms(5) f(2)] f(1) assms(7) by simp
  ultimately show ?thesis using f(1) by simp
qed


lemma decoded_push_tool:
  assumes "decoded_push parse_f64 (ToolUse tid name delta stop) d = Inr d'"
  shows "\<exists>t'. d' = d\<lparr>dr_tools := bt_insert tid t' (dr_tools d)\<rparr> \<and>
    tb_input t' = (case map_of (dr_tools d) tid of None \<Rightarrow> [] | Some t \<Rightarrow> tb_input t) @ delta"
  using assms by (auto simp: decoded_push_def Let_def split: if_splits option.splits)

lemma texts_agree_tools [simp]: "texts_agree (d\<lparr>dr_tools := ts\<rparr>) c = texts_agree d c"
  by (simp add: texts_agree_def)

lemma agree_usage [simp]:
  "texts_agree (d\<lparr>dr_usage := u\<rparr>) c = texts_agree d c"
  "tools_agree s (d\<lparr>dr_usage := u\<rparr>) c = tools_agree s d c"
  by (simp_all add: texts_agree_def tools_agree_def agrees_at_def cong: option.case_cong)

lemma new_tool_agrees:
  assumes "synced s c" "hm_get (cl_tool_indices s) tid = None" "emit_tool tid name delta stop s = (out, s')"
    "client_run out c = Some c'" "texts_agree d c" "tools_agree s d c"
    "decoded_push parse_f64 (ToolUse tid name delta stop) d = Inr d'"
  shows "texts_agree d' c' \<and> tools_agree s' d' c'"
proof -
  have "agrees_at s d c tid" using assms(6) by (simp add: tools_agree_def)
  then have new: "map_of (dr_tools d) tid = None" using assms(2) by (simp add: agrees_at_def)
  obtain t' where t': "d' = d\<lparr>dr_tools := bt_insert tid t' (dr_tools d)\<rparr>" "tb_input t' = delta"
    using decoded_push_tool [OF assms(7)] new by auto
  obtain i where i: "i = length (ct_blocks c)" "filled ''tool_use'' (tool_start tid name) (input_deltas tid delta s) c c'"
      "cl_tool_indices s' = hm_insert tid i (cl_tool_indices s)"
      "cl_tools_with_input s' = cl_tools_with_input (noted_input tid delta s)"
    using emit_tool_new_sim [OF assms(1-3)] assms(4) by auto
  obtain b' where b': "apply_deltas (input_deltas tid delta s) (fresh_block ''tool_use'' (tool_start tid name)) = Some b'"
      "ct_blocks c' = ct_blocks c @ [b']"
    using i(2) by (auto simp: filled_def)
  note gather = filled_gather [OF i(2)]
  have "texts_agree d' c'"
    using assms(5) t'(1) gather [OF adds_tool(1)] gather [OF adds_tool(2)] gather [OF adds_tool(3)]
      gather [OF adds_tool(4)]
    by (simp add: texts_agree_def of_defs)
  moreover have "agrees_at s' d' c' x" for x
  proof (cases "x = tid")
    case True
    have "tool_agrees (tid \<in> cl_tools_with_input s') tid t' b'"
    proof (cases "input_deltas tid delta s = []")
      case True
      then have "b' = fresh_block ''tool_use'' (tool_start tid name)" "trim delta = []"
        using b'(1) by (auto simp: input_deltas_def split: if_splits)
      then show ?thesis using t'(2) by (auto simp: tool_agrees_def get_str_def intro!: exI [of _ "[delta]"])
    next
      case False
      then have "b' = (fresh_block ''tool_use'' (tool_start tid name))\<lparr>cb_body := delta\<rparr>"
          "tid \<in> cl_tools_with_input s'"
        using b'(1) i(4) apply_json_delta [of "fresh_block ''tool_use'' (tool_start tid name)" delta]
        by (auto simp: input_deltas_def noted_input_def split: if_splits)
      then show ?thesis using t'(2) by (auto simp: tool_agrees_def get_str_def intro!: exI [of _ "[]"])
    qed
    then show ?thesis using True i(1,3) b'(2) t'(1) by (simp add: agrees_at_def update_conv' map_of_bt_insert)
  next
    case False
    show ?thesis
      by (rule agrees_atI [of s d c])
         (use assms(6) False i(3,4) b'(2) t'(1) in
           \<open>simp_all add: tools_agree_def update_conv' map_of_bt_insert noted_input_def nth_append\<close>)
  qed
  ultimately show ?thesis by (simp add: tools_agree_def)
qed

lemma known_tool_agrees:
  assumes "synced s c" "hm_get (cl_tool_indices s) tid = Some i" "emit_tool tid name delta stop s = (out, s')"
    "client_run out c = Some c'" "texts_agree d c" "tools_agree s d c"
    "decoded_push parse_f64 (ToolUse tid name delta stop) d = Inr d'"
    "input_deltas tid delta s \<noteq> [] \<Longrightarrow> cl_block s = Some (i, ''tool_use'')"
  shows "texts_agree d' c' \<and> tools_agree s' d' c'"
proof -
  have "agrees_at s d c tid" using assms(6) by (simp add: tools_agree_def)
  then obtain t ws where t: "i < length (ct_blocks c)" "map_of (dr_tools d) tid = Some t"
      "cb_kind (ct_blocks c ! i) = ''tool_use''" "get_str (cb_start (ct_blocks c ! i)) ''id'' = Some tid"
      "tb_input t = concat ws @ cb_body (ct_blocks c ! i)" "\<forall>w \<in> set ws. trim w = []"
      "tid \<notin> cl_tools_with_input s \<Longrightarrow> cb_body (ct_blocks c ! i) = []"
    using assms(2) by (auto simp: agrees_at_def tool_agrees_def)
  obtain t' where t': "d' = d\<lparr>dr_tools := bt_insert tid t' (dr_tools d)\<rparr>" "tb_input t' = tb_input t @ delta"
    using decoded_push_tool [OF assms(7)] t(2) by auto
  obtain c2 where c2: "client_run out c = Some c2"
      "input_deltas tid delta s = [] \<and> ct_blocks c2 = ct_blocks c \<or>
       input_deltas tid delta s \<noteq> [] \<and> (\<exists>bs b. ct_blocks c = bs @ [b] \<and> i = length bs \<and>
         cb_kind b = ''tool_use'' \<and> ct_blocks c2 = bs @ [b\<lparr>cb_body := cb_body b @ delta\<rparr>])"
      "cl_tool_indices s' = cl_tool_indices s"
      "cl_tools_with_input s' = cl_tools_with_input (noted_input tid delta s)"
    using emit_tool_known_sim [OF assms(1-3,8)] by blast
  define body where "body = (if input_deltas tid delta s = [] then cb_body (ct_blocks c ! i)
      else cb_body (ct_blocks c ! i) @ delta)"
  have blocks: "ct_blocks c' = (ct_blocks c)[i := (ct_blocks c ! i)\<lparr>cb_body := body\<rparr>]"
    using c2(1,2) assms(4) t(1) unfolding body_def by (auto simp: list_update_append nth_append)
  have "gather f c' = gather f c" if "\<And>b x. cb_kind b = ''tool_use'' \<Longrightarrow> f (b\<lparr>cb_body := x\<rparr>) = f b" for f
    unfolding gather_def blocks map_update that [OF t(3)]
    by (metis list_update_id map_update)
  from this [of text_of] this [of thinking_of] this [of cb_signature] this [of redacted_of]
  have "texts_agree d' c'" using assms(5) t'(1) by (simp add: texts_agree_def of_defs)
  moreover have "agrees_at s' d' c' x" for x
  proof (cases "x = tid")
    case True
    have "tool_agrees (tid \<in> cl_tools_with_input s') tid t' ((ct_blocks c ! i)\<lparr>cb_body := body\<rparr>)"
    proof (cases "input_deltas tid delta s = []")
      case True
      then consider "delta = []" | "trim delta = []" "tid \<notin> cl_tools_with_input s"
        by (auto simp: input_deltas_def split: if_splits)
      then show ?thesis
      proof cases
        case 1
        then show ?thesis using t t'(2) True c2(4)
          by (auto simp: tool_agrees_def body_def noted_input_def intro!: exI [of _ ws])
      next
        case 2
        then show ?thesis using t t'(2) True by (auto simp: tool_agrees_def body_def intro!: exI [of _ "ws @ [delta]"])
      qed
    next
      case False
      then have "tid \<in> cl_tools_with_input s'"
        using c2(4) by (auto simp: input_deltas_def noted_input_def split: if_splits)
      then show ?thesis using t t'(2) False by (auto simp: tool_agrees_def body_def intro!: exI [of _ ws])
    qed
    then show ?thesis using True assms(2) c2(3) t(1) t'(1) by (simp add: agrees_at_def map_of_bt_insert blocks)
  next
    case False
    show ?thesis
    proof (rule agrees_atI [of s d c])
      fix j assume "j < length (ct_blocks c)" "get_str (cb_start (ct_blocks c ! j)) ''id'' = Some x"
      then show "j < length (ct_blocks c') \<and> ct_blocks c' ! j = ct_blocks c ! j"
        using t(4) False unfolding blocks by (cases "j = i") simp_all
    qed (use assms(6) False c2(3,4) t'(1) in \<open>simp_all add: tools_agree_def map_of_bt_insert noted_input_def\<close>)
  qed
  ultimately show ?thesis by (simp add: tools_agree_def)
qed


lemma answer_sim:
  assumes "answer_rel g p c" "answer_allowed event g" "answer_step parse_f64 event p = (Inr out, p')"
  shows "\<exists>c'. client_run out c = Some c' \<and> answer_rel (event_track event g) p' c'"
proof -
  obtain s d where p: "p = (s, d)" by (cases p)
  obtain d' s' where st: "decoded_push parse_f64 event d = Inr d'" "claude_event event s = (out, s')" "p' = (s', d')"
    using assms(3) p by (auto simp: answer_step_def split: sum.splits prod.splits)
  have rel: "protocol_rel g s c" and agree: "texts_agree d c" "tools_agree s d c"
      and red: "\<forall>i. cl_block s \<noteq> Some (i, ''redacted_thinking'')"
    using assms(1) p by (simp_all add: answer_rel_def)
  have sy: "synced s c" using rel by (simp add: protocol_rel_def)
  have al: "event_allowed event g" using assms(2) by (cases event) auto
  obtain c' where c': "client_run out c = Some c'" "protocol_rel (event_track event g) s' c'"
    using claude_event_sim [OF rel al st(2)] by blast
  have "texts_agree d' c' \<and> tools_agree s' d' c' \<and> (\<forall>i. cl_block s' \<noteq> Some (i, ''redacted_thinking''))"
  proof (cases event)
    case (AssistantResponse content)
    then have "emit_text content s = (out, s')" "d' = d\<lparr>dr_text := dr_text d @ content\<rparr>"
      using st by (simp_all add: claude_event_def decoded_push_def)
    with text_agrees [OF sy _ c'(1) agree] show ?thesis by blast
  next
    case (Reasoning content signature redacted)
    obtain o1 s1 o2 s2 where e: "emit_thinking content signature s = (o1, s1)" "emit_redacted redacted s1 = (o2, s2)"
      by fastforce
    then have r: "out = o1 @ o2" "s' = s2" using st(2) Reasoning by (auto simp: claude_event_def)
    obtain c1 where c1: "client_run o1 c = Some c1" "client_run o2 c1 = Some c'"
      using c'(1) r(1) by (auto simp: client_run_append split: Option.bind_splits)
    have sy1: "synced s1 c1" using emit_thinking_sim [OF sy e(1)] c1(1) sy by auto
    let ?d1 = "d\<lparr>dr_reasoning := dr_reasoning d @ content, dr_reasoning_signature := (case signature of
        None \<Rightarrow> dr_reasoning_signature d | Some s \<Rightarrow> Some (unwrap_or (dr_reasoning_signature d) [] @ s))\<rparr>"
    have t: "texts_agree ?d1 c1 \<and> tools_agree s1 ?d1 c1 \<and> (\<forall>i. cl_block s1 \<noteq> Some (i, ''redacted_thinking''))"
      by (rule thinking_agrees [OF sy e(1) c1(1) agree red refl])
    have "d' = ?d1\<lparr>dr_redacted_thinking := dr_redacted_thinking ?d1 @ unwrap_or redacted []\<rparr>"
      using st(1) Reasoning by (auto simp: decoded_push_def)
    with redacted_agrees [OF sy1 e(2) c1(2)] t r(2) show ?thesis by blast
  next
    case (Citations cs)
    then show ?thesis using assms(2) by simp
  next
    case (ToolUse tid name delta stop)
    then have e: "emit_tool tid name delta stop s = (out, s')" using st(2) by (simp add: claude_event_def)
    note push = st(1) [unfolded ToolUse]
    have "texts_agree d' c' \<and> tools_agree s' d' c' \<and>
        (cl_block s' = cl_block s \<or> (\<forall>i. cl_block s' \<noteq> Some (i, ''redacted_thinking'')))"
    proof (cases "hm_get (cl_tool_indices s) tid")
      case None
      moreover have "cl_block s' = None \<or> (\<exists>i. cl_block s' = Some (i, ''tool_use''))"
        using emit_tool_new_sim [OF sy None e] by (auto split: if_splits)
      ultimately show ?thesis using new_tool_agrees [OF sy None e c'(1) agree push] by auto
    next
      case (Some i)
      have "tid \<in> snd g" using rel hm_get_in_keys [OF Some] by (simp add: protocol_rel_def)
      then have opn: "input_deltas tid delta s \<noteq> [] \<Longrightarrow> cl_block s = Some (i, ''tool_use'')"
        using al rel ToolUse Some by (cases g) (auto simp: input_deltas_def protocol_rel_def)
      have "cl_block s' = None \<or> cl_block s' = cl_block s"
        using emit_tool_known_sim [OF sy Some e opn] by (auto split: if_splits)
      then show ?thesis using known_tool_agrees [OF sy Some e c'(1) agree push opn] by auto
    qed
    then show ?thesis using red by auto
  qed (use st c'(1) agree red in \<open>auto simp: claude_event_def decoded_push_def\<close>)
  then show ?thesis using c' st(3) by (simp add: answer_rel_def)
qed

interpretation answer: stream_refinement "answer_step parse_f64" client_run answer_allowed event_track answer_rel
  for parse_f64
  by unfold_locales (simp_all add: client_run_append answer_sim)

lemma answer_rel_init: "answer_rel (None, {}) (build_claude_state cx, decoded_default) client_init"
  using protocol_rel_init
  by (simp add: answer_rel_def texts_agree_def tools_agree_def agrees_at_def gather_def client_init_def decoded_default_def)

section \<open>Properties\<close>

text \<open>C2: The Claude stream follows the streaming protocol. Whatever the settings, the summary, the
  resumed searches and the later operations, as long as the fragments of a tool call are not torn
  apart and no replay record fails to encrypt, the client accepts the whole stream, the initial
  events and the final ones included: a single message start, blocks that are opened with
  consecutive indices, filled with deltas of their own kind only and closed before the next opens,
  then the message delta and the message stop.\<close>

theorem claude_stream_refines_protocol:
  assumes "claude_initial_events to_json enc summary resumed searches web_searches
      (build_claude_state cx) = (Inr out0, s0)"
    and "run_ops (claude_op_step to_json) ops s0 = (Inr out1, s1)"
    and "admissible op_allowed op_track (None, {}) ops"
  shows "\<exists>c. client_run (out0 @ out1 @ fst (claude_finish d max_tokens round_tokens s1)) client_init = Some c \<and>
    ct_phase c = Stopped \<and> \<not> ct_open c \<and> length (ct_blocks c) = cl_next_index s1"
proof -
  let ?ops = "initial_ops enc summary resumed searches web_searches @ ops"
  have "run_ops (claude_op_step to_json) ?ops (build_claude_state cx) = (Inr (out0 @ out1), s1)"
    by (rule run_ops_append [OF assms(1) [unfolded initial_events_ops] assms(2)])
  moreover have "admissible op_allowed op_track (None, {}) ?ops" using assms(3) by (simp add: initial_ops_admissible)
  ultimately obtain c1 g1 where c1: "client_run (out0 @ out1) client_init = Some c1" "protocol_rel g1 s1 c1"
    using protocol.run_sim [OF protocol_rel_init] by blast
  then have sy: "synced s1 c1" by (simp add: protocol_rel_def)
  obtain out2 s2 where f: "claude_finish d max_tokens round_tokens s1 = (out2, s2)" by fastforce
  obtain c2 where "client_run out2 c1 = Some c2" "ct_phase c2 = Stopped" "ct_blocks c2 = ct_blocks c1" "\<not> ct_open c2"
    using finish_sim [OF sy f] by blast
  then show ?thesis using c1(1) f sy client_run_append [of "out0 @ out1" out2]
    by (auto simp: synced_def)
qed


text \<open>C17: The streamed answer is the buffered answer. For an upstream answer that the buffer accepts, without citations, and in which
  the fragments of a tool call are not torn apart (once it ended or another block or call began, no further non-empty fragment of it follows), the
  client that reads the stream ends with exactly the text, the reasoning, the signature and the
  redacted reasoning that the buffer of the same events holds, and with a block for every tool call
  of the buffer whose input is the buffered one, up to blank fragments before it starts.\<close>

theorem claude_stream_equals_buffered_answer:
  assumes "run_ops (answer_step parse_f64) events (build_claude_state cx, decoded_default) = (Inr out, (s, d))"
    and "admissible answer_allowed event_track (None, {}) events"
  shows "\<exists>c. client_run (out @ fst (claude_finish d max_tokens round_tokens s)) client_init = Some c \<and>
    ct_phase c = Stopped \<and> gather text_of c = dr_text d \<and> gather thinking_of c = dr_reasoning d \<and>
    gather cb_signature c = unwrap_or (dr_reasoning_signature d) [] \<and>
    gather redacted_of c = dr_redacted_thinking d \<and>
    (\<forall>tid t. map_of (dr_tools d) tid = Some t \<longrightarrow>
       (\<exists>b \<in> set (ct_blocks c). cb_kind b = ''tool_use'' \<and> get_str (cb_start b) ''id'' = Some tid \<and>
          (\<exists>blanks. tb_input t = concat blanks @ cb_body b \<and> (\<forall>w \<in> set blanks. trim w = []))))"
proof -
  obtain c1 g1 where c1: "client_run out client_init = Some c1" "answer_rel g1 (s, d) c1"
    using answer.run_sim [OF answer_rel_init assms(2,1)] by blast
  then have rel: "synced s c1" "texts_agree d c1" "tools_agree s d c1"
    by (simp_all add: answer_rel_def protocol_rel_def)
  obtain out2 s2 where f: "claude_finish d max_tokens round_tokens s = (out2, s2)" by fastforce
  obtain c2 where c2: "client_run out2 c1 = Some c2" "ct_phase c2 = Stopped" "ct_blocks c2 = ct_blocks c1"
    using finish_sim [OF rel(1) f] by blast
  have tools: "\<exists>b \<in> set (ct_blocks c1). cb_kind b = ''tool_use'' \<and> get_str (cb_start b) ''id'' = Some tid \<and>
      (\<exists>blanks. tb_input t = concat blanks @ cb_body b \<and> (\<forall>w \<in> set blanks. trim w = []))"
    if "map_of (dr_tools d) tid = Some t" for tid t
  proof -
    have "agrees_at s d c1 tid" using rel(3) by (simp add: tools_agree_def)
    with that obtain i where "i < length (ct_blocks c1)"
        "tool_agrees (tid \<in> cl_tools_with_input s) tid t (ct_blocks c1 ! i)"
      by (auto simp: agrees_at_def split: option.splits)
    then show ?thesis unfolding tool_agrees_def using nth_mem by blast
  qed
  have "client_run (out @ out2) client_init = Some c2" using c1(1) c2(1) by (simp add: client_run_append)
  moreover have "gather g c2 = gather g c1" for g by (simp add: gather_def c2(3))
  ultimately show ?thesis using c2(2,3) rel(2) tools f by (auto simp: texts_agree_def)
qed


text \<open>A turn with text, reasoning and a tool call in two fragments.\<close>

definition demo_settings :: stream_settings where
  "demo_settings = \<lparr>sg_request_id = ''r'', sg_model = ''m'', sg_input_tokens = 3,
     sg_include_usage_chunk = False, sg_auto_compaction_original_input_tokens = None,
     sg_compaction_iteration = None, sg_compaction_in_start = False,
     sg_context_edit_stats = edit_stats_default\<rparr>"

definition demo_events :: "kiro_event list" where
  "demo_events = [Reasoning ''hm'' (Some ''s'') None, AssistantResponse ''a'', AssistantResponse ''b'',
     ToolUse ''t'' ''f'' '' '' False, ToolUse ''t'' [] ''{}'' True]"

lemma Inr_run: "\<not> isl (fst r) \<Longrightarrow> r = (Inr (projr (fst r)), snd r)"
  by (cases r) (auto simp: isl_def split: sum.splits)

definition demo_ops :: "claude_op list" where
  "demo_ops = map Event demo_events @ [CompactionOp ''c'']"

definition demo_start :: "(web_search_replay_error + json list) \<times> claude_state" where
  "demo_start = claude_initial_events (\<lambda>_. ''{}'') (\<lambda>_ _ _. Inl ReplayEncrypt) (Some ''sum'') [] [] []
     (build_claude_state demo_settings)"

definition demo_run :: "(web_search_replay_error + json list) \<times> claude_state" where
  "demo_run = run_ops (claude_op_step (\<lambda>_. ''{}'')) demo_ops (snd demo_start)"

theorem claude_stream_refines_protocol_witness:
  "\<exists>c. client_run (projr (fst demo_start) @ projr (fst demo_run) @
     fst (claude_finish decoded_default None 0 (snd demo_run))) client_init = Some c \<and> ct_phase c = Stopped"
proof -
  have "\<not> isl (fst demo_start)" "\<not> isl (fst demo_run)" by code_simp+
  note runs = this [THEN Inr_run]
  have "admissible op_allowed op_track (None, {}) demo_ops"
    by (simp add: demo_ops_def demo_events_def)
  from claude_stream_refines_protocol [OF runs(1) [unfolded demo_start_def] _ this] runs(2)
  show ?thesis unfolding demo_start_def demo_run_def by blast
qed

definition demo_answer :: "(string + json list) \<times> (claude_state \<times> decoded_response)" where
  "demo_answer = run_ops (answer_step (\<lambda>_. None)) demo_events (build_claude_state demo_settings, decoded_default)"

theorem claude_stream_equals_buffered_answer_witness:
  "\<exists>c. client_run (projr (fst demo_answer) @
     fst (claude_finish (snd (snd demo_answer)) None 0 (fst (snd demo_answer)))) client_init = Some c \<and>
     gather text_of c = ''ab''"
proof -
  have ok: "\<not> isl (fst demo_answer) \<and> dr_text (snd (snd demo_answer)) = ''ab''"
    by (simp add: demo_answer_def demo_events_def answer_step_def decoded_push_def decoded_default_def Let_def
      tool_input_bytes_def MAX_CUMULATIVE_TOOL_INPUT_BYTES_def sat_add_def usize_max_def cmp_nat_def split: prod.split)
  then have shown: "dr_text (snd (snd demo_answer)) = ''ab''" by simp
  note run = conjunct1 [OF ok, THEN Inr_run]
  have "admissible answer_allowed event_track (None, {}) demo_events" by (simp add: demo_events_def)
  from claude_stream_equals_buffered_answer [OF _ this, of "\<lambda>_. None" demo_settings "projr (fst demo_answer)"
      "fst (snd demo_answer)" "snd (snd demo_answer)" None 0] run shown
  show ?thesis unfolding demo_answer_def by auto
qed

text \<open>
  Without the discipline the protocol is broken: when two calls interleave, the later fragment of
  the first goes to a block that was closed.
\<close>

definition torn_events :: "kiro_event list" where
  "torn_events = [ToolUse ''a'' ''f'' ''{'' False, ToolUse ''b'' ''f'' ''{}'' True, ToolUse ''a'' ''f'' ''}'' True]"

lemma torn_tool_fragments_break_protocol:
  "client_run (concat (map fst (tl (fold (\<lambda>event trace. trace @ [claude_event event (snd (last trace))])
     torn_events [([], build_claude_state cx)])))) client_init = None"
proof -
  have trims: "trim ''{'' = ''{''" "trim ''{}'' = ''{}''" "trim ''}'' = ''}''" by code_simp+
  show ?thesis
    by (simp add: torn_events_def claude_event_def emit_tool_def tool_index_def switch_block_def ensure_message_def
      open_block_def close_block_def Let_def trims client_step_def client_start_def client_delta_def client_stop_def
      client_init_def message_start_event_def block_start_def block_delta_def block_stop_def get_str_def apply_delta_def
      jnum_def)
qed

end
