(* ===== verification/ThinkingFilter.thy ===== *)
theory ThinkingFilter
  imports EventStream
begin

text \<open>
  \<open>ThinkingContentFilter\<close> and \<open>MarkdownPosition\<close> of \<open>crates/kproxyd/src/http/response.rs\<close>: the
  filter that finds reasoning the upstream sends as tagged text, in chunks that may cut a tag
  anywhere, and hides or shows it. A tag inside Markdown code is ordinary text. The prefixes it takes
  end before or after a tag, which is ASCII, so they end at a character boundary.
\<close>

section \<open>Position in a Markdown text\<close>

record markdown_position =
  md_fence :: "(char \<times> nat) option"
  md_inline_ticks :: "nat option"
  md_pending_ticks :: nat
  md_indent :: nat
  md_whitespace :: bool
  md_run :: "(char \<times> nat) option"
  md_run_ended :: bool
  md_trailer_whitespace :: bool

definition md_default :: markdown_position where
  "md_default = \<lparr>md_fence = None, md_inline_ticks = None, md_pending_ticks = 0, md_indent = 0,
     md_whitespace = True, md_run = None, md_run_ended = False, md_trailer_whitespace = True\<rparr>"

definition in_code :: "markdown_position \<Rightarrow> bool" where
  "in_code p \<longleftrightarrow> md_fence p \<noteq> None \<or> md_inline_ticks p \<noteq> None \<or> 3 < md_indent p \<or>
     (case md_run p of Some (_, n) \<Rightarrow> 3 \<le> n | None \<Rightarrow> False)"

definition can_recover :: "markdown_position \<Rightarrow> bool" where
  "can_recover p \<longleftrightarrow> \<not> in_code p \<and> md_whitespace p"

definition finish_tick_run :: "markdown_position \<Rightarrow> markdown_position" where
  "finish_tick_run p0 =
     (let n = md_pending_ticks p0; p = p0\<lparr>md_pending_ticks := 0\<rparr> in
      if n = 0 then p
      else if md_run p = Some (CHR 0x60, n) \<and> 3 \<le> n \<and> \<not> md_run_ended p then p
      else (case md_inline_ticks p of
          Some opened \<Rightarrow> if opened = n then p\<lparr>md_inline_ticks := None\<rparr> else p
        | None \<Rightarrow> p\<lparr>md_inline_ticks := Some n\<rparr>))"

definition md_newline :: "markdown_position \<Rightarrow> markdown_position" where
  "md_newline p =
     md_default\<lparr>md_fence := (case md_run p of
         Some (marker, n) \<Rightarrow> if 3 \<le> n then (case md_fence p of
             None \<Rightarrow> Some (marker, n)
           | Some (opened, count) \<Rightarrow>
               if opened = marker \<and> count \<le> n \<and> md_trailer_whitespace p then None else md_fence p)
           else md_fence p
       | None \<Rightarrow> md_fence p),
       md_inline_ticks := md_inline_ticks p\<rparr>"

definition is_ascii_whitespace :: "char \<Rightarrow> bool" where
  "is_ascii_whitespace c \<longleftrightarrow> c \<in> {CHR 0x20, CHR 0x09, CHR 0x0A, CHR 0x0C, CHR 0x0D}"

definition md_byte :: "char \<Rightarrow> markdown_position \<Rightarrow> markdown_position" where
  "md_byte b p0 =
     (let p = (if b = CHR 0x60 \<and> md_fence p0 = None
            then p0\<lparr>md_pending_ticks := sat_add (md_pending_ticks p0) 1\<rparr> else finish_tick_run p0)
      in if b = CHR 0x0A then md_newline p
         else if md_whitespace p \<and> b \<in> {CHR 0x20, CHR 0x09, CHR 0x0D}
         then p\<lparr>md_indent := sat_add (md_indent p) (if b = CHR 0x09 then 4 else 1)\<rparr>
         else if md_whitespace p
         then (if md_indent p \<le> 3 \<and> md_inline_ticks p = None \<and> b \<in> {CHR 0x60, CHR 0x7E}
               then p\<lparr>md_whitespace := False, md_run := Some (b, 1)\<rparr> else p\<lparr>md_whitespace := False\<rparr>)
         else (case md_run p of
             None \<Rightarrow> p
           | Some (marker, n) \<Rightarrow>
               if \<not> md_run_ended p \<and> b = marker then p\<lparr>md_run := Some (marker, sat_add n 1)\<rparr>
               else p\<lparr>md_run_ended := True,
                      md_trailer_whitespace := md_trailer_whitespace p \<and> is_ascii_whitespace b\<rparr>))"

definition md_advance :: "string \<Rightarrow> markdown_position \<Rightarrow> markdown_position" where
  "md_advance t p = fold md_byte t p"

section \<open>The filter\<close>

definition THINKING_START_TAG :: string where
  "THINKING_START_TAG = ''<thinking>''"

definition THINKING_END_TAG :: string where
  "THINKING_END_TAG = ''</thinking>''"

definition safe_prefix_len :: "string \<Rightarrow> string \<Rightarrow> nat" where
  "safe_prefix_len value delimiter =
     (let max_retained = min (length value) (length delimiter - 1) in
      case find (\<lambda>retained. is_char_boundary value (length value - retained) \<and>
          prefix (drop (length value - retained) value) delimiter) (rev [1..<Suc max_retained]) of
        Some retained \<Rightarrow> length value - retained
      | None \<Rightarrow> length value)"

definition push_text :: "string \<Rightarrow> kiro_event list" where
  "push_text content = (if content = [] then [] else [AssistantResponse content])"

record thinking_filter =
  tf_enabled :: bool
  tf_omit_summary :: bool
  tf_pending :: string
  tf_in_tagged_thinking :: bool
  tf_position :: markdown_position

definition thinking_filter_new :: "bool \<Rightarrow> thinking_filter" where
  "thinking_filter_new enabled = \<lparr>tf_enabled = enabled, tf_omit_summary = False, tf_pending = [],
     tf_in_tagged_thinking = False, tf_position = md_default\<rparr>"

definition with_omitted_summary :: "bool \<Rightarrow> thinking_filter \<Rightarrow> thinking_filter" where
  "with_omitted_summary omit f = f\<lparr>tf_omit_summary := omit\<rparr>"

definition tagged_shown :: "thinking_filter \<Rightarrow> bool" where
  "tagged_shown f \<longleftrightarrow> tf_enabled f \<and> \<not> tf_omit_summary f"

definition shown_tagged :: "thinking_filter \<Rightarrow> string \<Rightarrow> kiro_event list" where
  "shown_tagged f content = (if tagged_shown f then push_text content else [])"

text \<open>The two bodies of the loop that find a tag.\<close>

definition end_tagged :: "nat \<Rightarrow> thinking_filter \<Rightarrow> kiro_event list \<times> thinking_filter" where
  "end_tagged k f =
     (let n = k + length THINKING_END_TAG in
      (shown_tagged f (take n (tf_pending f)),
       f\<lparr>tf_pending := drop n (tf_pending f), tf_in_tagged_thinking := False,
         tf_position := md_advance THINKING_END_TAG md_default\<rparr>))"

definition start_tagged :: "nat \<Rightarrow> thinking_filter \<Rightarrow> kiro_event list \<times> thinking_filter" where
  "start_tagged k f =
     (let content = take k (tf_pending f);
          tag = take (length THINKING_START_TAG) (drop k (tf_pending f));
          position = md_advance tag (md_advance content (tf_position f));
          rest = drop (length THINKING_START_TAG) (drop k (tf_pending f))
      in if in_code position
         then (push_text content @ push_text tag, f\<lparr>tf_pending := rest, tf_position := position\<rparr>)
         else (push_text content @ shown_tagged f tag,
               f\<lparr>tf_pending := rest, tf_position := position, tf_in_tagged_thinking := True\<rparr>))"

function drain_thinking :: "bool \<Rightarrow> thinking_filter \<Rightarrow> kiro_event list \<times> thinking_filter" where
  "drain_thinking finish f =
     (if tf_in_tagged_thinking f then
        (case str_find THINKING_END_TAG (tf_pending f) of
           Some k \<Rightarrow> (let (out, f') = end_tagged k f; (rest, g) = drain_thinking finish f' in (out @ rest, g))
         | None \<Rightarrow>
             (let split = (if finish then length (tf_pending f) else safe_prefix_len (tf_pending f) THINKING_END_TAG)
              in (shown_tagged f (take split (tf_pending f)),
                  f\<lparr>tf_pending := drop split (tf_pending f), tf_in_tagged_thinking := \<not> finish\<rparr>)))
      else
        (case str_find THINKING_START_TAG (tf_pending f) of
           Some k \<Rightarrow> (let (out, f') = start_tagged k f; (rest, g) = drain_thinking finish f' in (out @ rest, g))
         | None \<Rightarrow>
             (let split = (if finish then length (tf_pending f) else safe_prefix_len (tf_pending f) THINKING_START_TAG);
                  content = take split (tf_pending f)
              in if 0 < split
                 then (push_text content, f\<lparr>tf_pending := drop split (tf_pending f),
                        tf_position := md_advance content (tf_position f)\<rparr>)
                 else ([], f))))"
  by pat_completeness auto

termination
proof (relation "measure (\<lambda>(_, f). length (tf_pending f))")
  show "wf (measure (\<lambda>(_, f). length (tf_pending f)))" by simp
next
  fix finish f x k xa y
  assume "str_find THINKING_END_TAG (tf_pending f) = Some k" "xa = end_tagged k f" "(x, y) = xa"
  then show "((finish, y), finish, f) \<in> measure (\<lambda>(_, f). length (tf_pending f))"
    using str_find_bound [of THINKING_END_TAG "tf_pending f" k]
    by (auto simp: end_tagged_def Let_def THINKING_END_TAG_def)
next
  fix finish f x k xa y
  assume "str_find THINKING_START_TAG (tf_pending f) = Some k" "xa = start_tagged k f" "(x, y) = xa"
  then show "((finish, y), finish, f) \<in> measure (\<lambda>(_, f). length (tf_pending f))"
    using str_find_bound [of THINKING_START_TAG "tf_pending f" k]
    by (auto simp: start_tagged_def Let_def THINKING_START_TAG_def split: if_splits)
qed

declare drain_thinking.simps [simp del]

definition thinking_push :: "kiro_event \<Rightarrow> thinking_filter \<Rightarrow> kiro_event list \<times> thinking_filter" where
  "thinking_push event f =
     (case event of
        AssistantResponse content \<Rightarrow> drain_thinking False (f\<lparr>tf_pending := tf_pending f @ content\<rparr>)
      | Reasoning content0 signature redacted \<Rightarrow>
          (let (out, f') = drain_thinking False f;
               content = (if tf_omit_summary f' then [] else content0)
           in (if tf_enabled f' \<and> (content \<noteq> [] \<or> signature \<noteq> None \<or> redacted \<noteq> None)
               then out @ [Reasoning content signature redacted] else out, f'))
      | _ \<Rightarrow> (let (out, f') = drain_thinking False f in (out @ [event], f')))"

definition thinking_finish :: "thinking_filter \<Rightarrow> kiro_event list \<times> thinking_filter" where
  "thinking_finish f = drain_thinking True f"

end
