(* ===== verification/ThinkingFilterCorrect.thy ===== *)
theory ThinkingFilterCorrect
  imports ThinkingFilter
begin

text \<open>
  The thinking filter against a specification that reads the whole text: what a client sees does not
  depend on where the upstream cut the text, hidden reasoning never shows, and shown reasoning
  leaves the text as it is.
\<close>

section \<open>Searching\<close>

lemma str_find_first: "str_find pat s = Some i \<Longrightarrow> j < i \<Longrightarrow> \<not> prefix pat (drop j s)"
proof (induction s arbitrary: i j)
  case (Cons c cs)
  then show ?case by (cases j) (auto split: if_splits)
qed (auto split: if_splits)

lemma str_find_None: "str_find pat s = None \<Longrightarrow> pat \<noteq> [] \<Longrightarrow> \<not> prefix pat (drop j s)"
proof (induction s arbitrary: j)
  case (Cons c cs)
  then show ?case by (cases j) (auto split: if_splits)
qed auto

text \<open>No occurrence starts among the first \<open>n\<close> bytes: the search may start after them.\<close>

definition clear_of :: "'a list \<Rightarrow> nat \<Rightarrow> 'a list \<Rightarrow> bool" where
  "clear_of pat n s \<longleftrightarrow> n \<le> length s \<and> (\<forall>j < n. \<not> prefix pat (drop j s))"

lemma str_find_skip: "clear_of pat n s \<Longrightarrow> str_find pat s = map_option ((+) n) (str_find pat (drop n s))"
proof (induction n arbitrary: s)
  case 0
  show ?case by (simp add: option.map_id0 [unfolded id_def] cong: option.map_cong)
next
  case (Suc n)
  then obtain c cs where s: "s = c # cs" by (cases s) (auto simp: clear_of_def)
  have "clear_of pat n cs" using Suc.prems s unfolding clear_of_def by (auto dest!: spec [of _ "Suc _"])
  moreover have "\<not> prefix pat s" using Suc.prems by (auto simp: clear_of_def dest!: spec [of _ 0])
  ultimately show ?case using Suc.IH [of cs] s by (simp add: option.map_comp comp_def)
qed

lemma find_rev_upt: "P r \<Longrightarrow> 1 \<le> r \<Longrightarrow> r \<le> m \<Longrightarrow> \<exists>r'. find P (rev [1..<Suc m]) = Some r' \<and> r \<le> r'"
proof (induction m)
  case (Suc m)
  have "rev [1..<Suc (Suc m)] = Suc m # rev [1..<Suc m]" by simp
  then show ?case using Suc by (cases "r = Suc m") (simp_all del: upt_Suc)
qed simp

text \<open>What is not retained cannot be part of a tag, whatever comes next.\<close>

lemma safe_prefix_clear:
  assumes "str_find d s = None" "d \<noteq> []" "byte (hd d) < 128"
  shows "clear_of d (safe_prefix_len s d) (s @ t)"
proof -
  let ?P = "\<lambda>r. is_char_boundary s (length s - r) \<and> prefix (drop (length s - r) s) d"
  let ?m = "min (length s) (length d - 1)"
  have "\<not> prefix d (drop j (s @ t))" if j: "j < safe_prefix_len s d" for j
  proof
    assume p: "prefix d (drop j (s @ t))"
    have le: "safe_prefix_len s d \<le> length s" by (auto simp: safe_prefix_len_def Let_def split: option.splits)
    then have jl: "j < length s" using j by simp
    then have p2: "prefix d (drop j s @ t)" using p by simp
    let ?r = "length s - j"
    have "\<not> prefix d (drop j s)" by (rule str_find_None [OF assms(1,2)])
    then have "prefix (drop j s) d \<and> length (drop j s) < length d"
      using p2 prefix_same_cases [of "drop j s" "drop j s @ t" d] by (auto simp: prefix_def not_le)
    then have pr: "prefix (drop j s) d" and r: "1 \<le> ?r" "?r \<le> ?m" using jl by auto
    obtain x xs where x: "drop j s = x # xs" using jl by (cases "drop j s") auto
    then have "x = hd d" using pr assms(2) by (cases d) auto
    moreover have "s ! j = x" using x jl by (metis Cons_nth_drop_Suc list.inject)
    ultimately have "is_char_boundary s j" using assms(3) jl by (simp add: is_char_boundary_def)
    then have P: "?P ?r" using pr jl by simp
    then obtain r' where f: "find ?P (rev [1..<Suc ?m]) = Some r'" and "?r \<le> r'"
      using find_rev_upt [of ?P ?r ?m] r by blast
    then show False using j f by (simp add: safe_prefix_len_def Let_def del: upt_Suc)
  qed
  moreover have "safe_prefix_len s d \<le> length (s @ t)"
    by (auto simp: safe_prefix_len_def Let_def split: option.splits)
  ultimately show ?thesis by (simp add: clear_of_def)
qed


section \<open>The specification\<close>

text \<open>
  The text outside reasoning. A start tag in Markdown code is text; any other starts reasoning, which
  lasts until the end tag, or until the end of the text. After the end tag the position is that of a
  line that starts with the tag.
\<close>

function visible_text :: "markdown_position \<Rightarrow> string \<Rightarrow> string" where
  "visible_text p t =
     (case str_find THINKING_START_TAG t of
        None \<Rightarrow> t
      | Some i \<Rightarrow>
          (let before = take i t; rest = drop (i + length THINKING_START_TAG) t;
               p' = md_advance (before @ THINKING_START_TAG) p
           in if in_code p' then before @ THINKING_START_TAG @ visible_text p' rest
              else (case str_find THINKING_END_TAG rest of
                  None \<Rightarrow> before
                | Some e \<Rightarrow> before @ visible_text (md_advance THINKING_END_TAG md_default)
                    (drop (e + length THINKING_END_TAG) rest))))"
  by pat_completeness auto

termination
proof (relation "measure (\<lambda>(_, t). length t)")
  fix p t i x xa xb
  assume "str_find THINKING_START_TAG t = Some i" "xa = drop (i + length THINKING_START_TAG) t"
  then show "((xb, xa), p, t) \<in> measure (\<lambda>(_, t). length t)"
    using str_find_bound [of THINKING_START_TAG t i] by (simp add: THINKING_START_TAG_def)
next
  fix p t i x xa xb e
  assume "str_find THINKING_START_TAG t = Some i" "xa = drop (i + length THINKING_START_TAG) t"
  then show "((md_advance THINKING_END_TAG md_default, drop (e + length THINKING_END_TAG) xa), p, t)
      \<in> measure (\<lambda>(_, t). length t)"
    using str_find_bound [of THINKING_START_TAG t i] by (simp add: THINKING_START_TAG_def)
qed simp

declare visible_text.simps [simp del]

definition after_reasoning :: "string \<Rightarrow> string" where
  "after_reasoning t = (case str_find THINKING_END_TAG t of
     None \<Rightarrow> []
   | Some e \<Rightarrow> visible_text (md_advance THINKING_END_TAG md_default) (drop (e + length THINKING_END_TAG) t))"

lemma visible_text_unfold:
  "visible_text p t =
     (case str_find THINKING_START_TAG t of
        None \<Rightarrow> t
      | Some i \<Rightarrow>
          (let before = take i t; rest = drop (i + length THINKING_START_TAG) t;
               p' = md_advance THINKING_START_TAG (md_advance before p)
           in if in_code p' then before @ THINKING_START_TAG @ visible_text p' rest
              else before @ after_reasoning rest))"
  by (subst visible_text.simps)
     (simp add: after_reasoning_def md_advance_def Let_def split: option.split)

text \<open>Text before a tag can be shown at once.\<close>

lemma visible_text_skip:
  assumes "clear_of THINKING_START_TAG n t"
  shows "visible_text p t = take n t @ visible_text (md_advance (take n t) p) (drop n t)"
proof (cases "str_find THINKING_START_TAG (drop n t)")
  case None
  then have "str_find THINKING_START_TAG t = None" using str_find_skip [OF assms] by simp
  with None show ?thesis by (simp add: visible_text_unfold)
next
  case (Some i)
  then have f: "str_find THINKING_START_TAG t = Some (n + i)" using str_find_skip [OF assms] by simp
  have tk: "take (n + i) t = take n t @ take i (drop n t)" by (rule take_add)
  have dr: "drop (n + i + k) t = drop (i + k) (drop n t)" for k by (simp add: add.commute add.left_commute)
  show ?thesis unfolding visible_text_unfold [of _ t] visible_text_unfold [of _ "drop n t"] f Some
    by (simp add: Let_def tk dr md_advance_def)
qed

lemma after_reasoning_skip:
  assumes "clear_of THINKING_END_TAG n t"
  shows "after_reasoning t = after_reasoning (drop n t)"
  using str_find_skip [OF assms]
  by (cases "str_find THINKING_END_TAG (drop n t)") (simp_all add: after_reasoning_def ac_simps)

section \<open>One step of the filter\<close>

fun text_part :: "kiro_event \<Rightarrow> string" where
  "text_part (AssistantResponse t) = t"
| "text_part _ = []"

definition texts :: "kiro_event list \<Rightarrow> string" where
  "texts es = concat (map text_part es)"

lemma texts_simps [simp]:
  "texts [] = []" "texts (e # es) = text_part e @ texts es" "texts (xs @ ys) = texts xs @ texts ys"
  "texts (push_text t) = t" "texts (shown_tagged f t) = (if tagged_shown f then t else [])"
  by (simp_all add: texts_def push_text_def shown_tagged_def)

text \<open>What will be shown of the text that is held and of \<open>t\<close> after it.\<close>

definition to_show :: "thinking_filter \<Rightarrow> string \<Rightarrow> string" where
  "to_show f t =
     (if tagged_shown f then tf_pending f @ t
      else if tf_in_tagged_thinking f then after_reasoning (tf_pending f @ t)
      else visible_text (tf_position f) (tf_pending f @ t))"

lemma tags [simp]: "THINKING_START_TAG \<noteq> []" "THINKING_END_TAG \<noteq> []"
  "byte (hd THINKING_START_TAG) < 128" "byte (hd THINKING_END_TAG) < 128"
  by (simp_all add: THINKING_START_TAG_def THINKING_END_TAG_def byte_def)


lemma str_find_append: "str_find pat s = Some i \<Longrightarrow> str_find pat (s @ t) = Some i"
proof (induction s arbitrary: i)
  case (Cons c cs)
  show ?case
  proof (cases "prefix pat (c # cs)")
    case True
    from prefix_prefix [OF this, of t] have "prefix pat (c # (cs @ t))" by simp
    with True Cons.prems show ?thesis by simp
  next
    case False
    then obtain j where j: "str_find pat cs = Some j" "i = Suc j" using Cons.prems by auto
    have "\<not> prefix pat (c # (cs @ t))"
    proof
      assume "prefix pat (c # (cs @ t))"
      then have "prefix pat ((c # cs) @ t)" by simp
      then show False using False str_find_bound [OF j(1)] prefix_length_prefix [of pat "(c # cs) @ t" "c # cs"]
        by (auto simp: prefix_def)
    qed
    then show ?thesis using Cons.IH [OF j(1)] j(2) by simp
  qed
qed (cases t; auto split: if_splits)

lemma end_tagged_shows:
  assumes "tf_in_tagged_thinking f" "str_find THINKING_END_TAG (tf_pending f) = Some k" "end_tagged k f = (out, f')"
  shows "to_show f t = texts out @ to_show f' t \<and> tagged_shown f' = tagged_shown f"
proof -
  let ?n = "k + length THINKING_END_TAG"
  have n: "?n \<le> length (tf_pending f)" by (rule str_find_bound [OF assms(2)])
  have r: "out = shown_tagged f (take ?n (tf_pending f))" "tf_pending f' = drop ?n (tf_pending f)"
      "\<not> tf_in_tagged_thinking f'" "tf_position f' = md_advance THINKING_END_TAG md_default"
      "tagged_shown f' = tagged_shown f"
    using assms(3) by (auto simp: end_tagged_def Let_def tagged_shown_def)
  have "after_reasoning (tf_pending f @ t) = visible_text (md_advance THINKING_END_TAG md_default)
      (drop ?n (tf_pending f) @ t)"
    using str_find_append [OF assms(2), of t] n by (simp add: after_reasoning_def)
  then show ?thesis using assms(1) r by (simp add: to_show_def)
qed

lemma start_tagged_shows:
  assumes "\<not> tf_in_tagged_thinking f" "str_find THINKING_START_TAG (tf_pending f) = Some k" "start_tagged k f = (out, f')"
  shows "to_show f t = texts out @ to_show f' t \<and> tagged_shown f' = tagged_shown f"
proof -
  let ?p = "tf_pending f" and ?l = "length THINKING_START_TAG"
  have n: "k + ?l \<le> length ?p" by (rule str_find_bound [OF assms(2)])
  have tag: "take ?l (drop k ?p) = THINKING_START_TAG"
    using str_find_prefix [OF assms(2)] by (auto simp: prefix_def)
  then have split: "?p = take k ?p @ THINKING_START_TAG @ drop (k + ?l) ?p"
    by (metis append_take_drop_id drop_drop add.commute)
  have v: "visible_text (tf_position f) (?p @ t) =
      (let p' = md_advance THINKING_START_TAG (md_advance (take k ?p) (tf_position f)); rest = drop (k + ?l) ?p @ t
       in if in_code p' then take k ?p @ THINKING_START_TAG @ visible_text p' rest
          else take k ?p @ after_reasoning rest)"
    using str_find_append [OF assms(2), of t] n
    by (simp add: visible_text_unfold [of _ "?p @ t"] Let_def)
  have d: "drop ?l (drop k ?p) = drop (k + ?l) ?p" by (simp add: add.commute)
  show ?thesis
  proof (cases "tagged_shown f")
    case True
    have "to_show f t = take k ?p @ THINKING_START_TAG @ drop (k + ?l) ?p @ t"
      using True arg_cong [OF split, of "\<lambda>u. u @ t"] by (simp add: to_show_def)
    then show ?thesis using assms(3) True tag d
      by (auto simp: start_tagged_def Let_def to_show_def tagged_shown_def split: if_splits)
  next
    case False
    then show ?thesis using assms(1,3) v tag d
      by (auto simp: start_tagged_def Let_def to_show_def tagged_shown_def split: if_splits)
  qed
qed

lemma held_shows:
  assumes "\<not> tf_in_tagged_thinking f" "str_find THINKING_START_TAG (tf_pending f) = None"
    "n = safe_prefix_len (tf_pending f) THINKING_START_TAG"
    "f' = f\<lparr>tf_pending := drop n (tf_pending f), tf_position := md_advance (take n (tf_pending f)) (tf_position f)\<rparr>"
  shows "to_show f t = take n (tf_pending f) @ to_show f' t"
proof -
  have c: "clear_of THINKING_START_TAG n (tf_pending f @ u)" for u
    using safe_prefix_clear [OF assms(2)] assms(3) by simp
  then have n: "n \<le> length (tf_pending f)" using c [of "[]"] by (simp add: clear_of_def)
  show ?thesis
  proof (cases "tagged_shown f")
    case True
    then show ?thesis using assms(4) by (simp add: to_show_def tagged_shown_def)
  next
    case False
    then show ?thesis using assms(1,4) visible_text_skip [OF c, of "tf_position f" t] n
      by (auto simp: to_show_def tagged_shown_def)
  qed
qed

lemma held_reasoning_shows:
  assumes "tf_in_tagged_thinking f" "str_find THINKING_END_TAG (tf_pending f) = None"
    "n = safe_prefix_len (tf_pending f) THINKING_END_TAG" "f' = f\<lparr>tf_pending := drop n (tf_pending f)\<rparr>"
  shows "to_show f t = texts (shown_tagged f (take n (tf_pending f))) @ to_show f' t"
proof -
  have c: "clear_of THINKING_END_TAG n (tf_pending f @ u)" for u
    using safe_prefix_clear [OF assms(2)] assms(3) by simp
  then have n: "n \<le> length (tf_pending f)" using c [of "[]"] by (simp add: clear_of_def)
  show ?thesis
  proof (cases "tagged_shown f")
    case True
    then show ?thesis using assms(4) by (simp add: to_show_def tagged_shown_def)
  next
    case False
    then show ?thesis using assms(1,4) after_reasoning_skip [OF c, of t] n
      by (auto simp: to_show_def tagged_shown_def)
  qed
qed

lemma drain_shows:
  "drain_thinking False f = (out, g) \<Longrightarrow> to_show f t = texts out @ to_show g t \<and> tagged_shown g = tagged_shown f"
proof (induction "False" f arbitrary: out g rule: drain_thinking.induct)
  case (1 f)
  show ?case
  proof (cases "tf_in_tagged_thinking f")
    case tagged: True
    show ?thesis
    proof (cases "str_find THINKING_END_TAG (tf_pending f)")
      case None
      then have "out = shown_tagged f (take (safe_prefix_len (tf_pending f) THINKING_END_TAG) (tf_pending f))"
          "g = f\<lparr>tf_pending := drop (safe_prefix_len (tf_pending f) THINKING_END_TAG) (tf_pending f)\<rparr>"
        using 1(3) tagged by (subst (asm) drain_thinking.simps, cases f, simp add: Let_def)+
      with held_reasoning_shows [OF tagged None refl] show ?thesis by (simp add: tagged_shown_def)
    next
      case (Some k)
      obtain o1 f1 where e: "end_tagged k f = (o1, f1)" by fastforce
      obtain o2 where r: "drain_thinking False f1 = (o2, g)" "out = o1 @ o2"
        using 1(3) tagged Some e by (subst (asm) drain_thinking.simps) (auto split: prod.splits)
      from 1(1) [OF tagged Some e [symmetric] refl r(1)] end_tagged_shows [OF tagged Some e] r(2)
      show ?thesis by simp
    qed
  next
    case outside: False
    show ?thesis
    proof (cases "str_find THINKING_START_TAG (tf_pending f)")
      case None
      let ?n = "safe_prefix_len (tf_pending f) THINKING_START_TAG"
      let ?f = "f\<lparr>tf_pending := drop ?n (tf_pending f), tf_position := md_advance (take ?n (tf_pending f)) (tf_position f)\<rparr>"
      have "?n = 0 \<Longrightarrow> ?f = f" by (cases f) (simp add: md_advance_def)
      then have "texts out = take ?n (tf_pending f)" "g = ?f"
        using 1(3) outside None by (subst (asm) drain_thinking.simps, auto simp: Let_def split: if_splits)+
      with held_shows [OF outside None refl refl] show ?thesis by (simp add: tagged_shown_def)
    next
      case (Some k)
      obtain o1 f1 where e: "start_tagged k f = (o1, f1)" by fastforce
      obtain o2 where r: "drain_thinking False f1 = (o2, g)" "out = o1 @ o2"
        using 1(3) outside Some e by (subst (asm) drain_thinking.simps) (auto split: prod.splits)
      from 1(2) [OF outside Some e [symmetric] refl r(1)] start_tagged_shows [OF outside Some e] r(2)
      show ?thesis by simp
    qed
  qed
qed


lemma drain_finish_shows: "drain_thinking True f = (out, g) \<Longrightarrow> texts out = to_show f []"
proof (induction "True" f arbitrary: out g rule: drain_thinking.induct)
  case (1 f)
  show ?case
  proof (cases "tf_in_tagged_thinking f")
    case tagged: True
    show ?thesis
    proof (cases "str_find THINKING_END_TAG (tf_pending f)")
      case None
      then have "out = shown_tagged f (tf_pending f)"
        using 1(3) tagged by (subst (asm) drain_thinking.simps) (simp add: Let_def)
      then show ?thesis using tagged None by (simp add: to_show_def after_reasoning_def)
    next
      case (Some k)
      obtain o1 f1 where e: "end_tagged k f = (o1, f1)" by fastforce
      obtain o2 where r: "drain_thinking True f1 = (o2, g)" "out = o1 @ o2"
        using 1(3) tagged Some e by (subst (asm) drain_thinking.simps) (auto split: prod.splits)
      from 1(1) [OF tagged Some e [symmetric] refl r(1)] end_tagged_shows [OF tagged Some e, of "[]"] r(2)
      show ?thesis by simp
    qed
  next
    case outside: False
    show ?thesis
    proof (cases "str_find THINKING_START_TAG (tf_pending f)")
      case None
      then have "texts out = tf_pending f"
        using 1(3) outside by (subst (asm) drain_thinking.simps) (auto simp: Let_def split: if_splits)
      then show ?thesis using outside None by (simp add: to_show_def visible_text_unfold)
    next
      case (Some k)
      obtain o1 f1 where e: "start_tagged k f = (o1, f1)" by fastforce
      obtain o2 where r: "drain_thinking True f1 = (o2, g)" "out = o1 @ o2"
        using 1(3) outside Some e by (subst (asm) drain_thinking.simps) (auto split: prod.splits)
      from 1(2) [OF outside Some e [symmetric] refl r(1)] start_tagged_shows [OF outside Some e, of "[]"] r(2)
      show ?thesis by simp
    qed
  qed
qed

section \<open>Whole streams\<close>

fun is_text :: "kiro_event \<Rightarrow> bool" where
  "is_text (AssistantResponse _) = True"
| "is_text _ = False"

definition others :: "kiro_event list \<Rightarrow> kiro_event list" where
  "others es = filter (\<lambda>e. \<not> is_text e) es"

lemma others_simps [simp]:
  "others [] = []" "others (xs @ ys) = others xs @ others ys" "others (push_text t) = []"
  "others (shown_tagged f t) = []"
  by (simp_all add: others_def push_text_def shown_tagged_def)

definition same_settings :: "thinking_filter \<Rightarrow> thinking_filter \<Rightarrow> bool" where
  "same_settings f g \<longleftrightarrow> tf_enabled g = tf_enabled f \<and> tf_omit_summary g = tf_omit_summary f"

lemma drain_frame:
  "drain_thinking fin f = (out, g) \<Longrightarrow> others out = [] \<and> same_settings f g"
proof (induction fin f arbitrary: out g rule: drain_thinking.induct)
  case (1 fin f)
  show ?case
  proof (cases "tf_in_tagged_thinking f")
    case tagged: True
    show ?thesis
    proof (cases "str_find THINKING_END_TAG (tf_pending f)")
      case None
      then show ?thesis
        using 1(3) tagged by (subst (asm) drain_thinking.simps) (auto simp: Let_def same_settings_def)
    next
      case (Some k)
      obtain o1 f1 where e: "end_tagged k f = (o1, f1)" by fastforce
      obtain o2 where r: "drain_thinking fin f1 = (o2, g)" "out = o1 @ o2"
        using 1(3) tagged Some e by (subst (asm) drain_thinking.simps) (auto split: prod.splits)
      have "others o1 = []" "same_settings f f1" using e by (auto simp: end_tagged_def Let_def same_settings_def)
      with 1(1) [OF tagged Some e [symmetric] refl r(1)] r(2) show ?thesis by (simp add: same_settings_def)
    qed
  next
    case outside: False
    show ?thesis
    proof (cases "str_find THINKING_START_TAG (tf_pending f)")
      case None
      then show ?thesis
        using 1(3) outside by (subst (asm) drain_thinking.simps) (auto simp: Let_def same_settings_def split: if_splits)
    next
      case (Some k)
      obtain o1 f1 where e: "start_tagged k f = (o1, f1)" by fastforce
      obtain o2 where r: "drain_thinking fin f1 = (o2, g)" "out = o1 @ o2"
        using 1(3) outside Some e by (subst (asm) drain_thinking.simps) (auto split: prod.splits)
      have "others o1 = []" "same_settings f f1"
        using e by (auto simp: start_tagged_def Let_def same_settings_def split: if_splits)
      with 1(2) [OF outside Some e [symmetric] refl r(1)] r(2) show ?thesis by (simp add: same_settings_def)
    qed
  qed
qed

text \<open>What becomes of the events that are not text: native reasoning is dropped when thinking is off
  and stripped of its summary when that is omitted; everything else passes.\<close>

fun passes :: "bool \<Rightarrow> bool \<Rightarrow> kiro_event \<Rightarrow> kiro_event list" where
  "passes enabled omit (AssistantResponse _) = []"
| "passes enabled omit (Reasoning content signature redacted) =
     (let shown = (if omit then [] else content) in
      if enabled \<and> (shown \<noteq> [] \<or> signature \<noteq> None \<or> redacted \<noteq> None) then [Reasoning shown signature redacted] else [])"
| "passes enabled omit event = [event]"

lemma push_shows:
  assumes "thinking_push event f = (out, g)"
  shows "to_show f (text_part event @ t) = texts out @ to_show g t \<and> same_settings f g \<and>
    others out = passes (tf_enabled f) (tf_omit_summary f) event"
proof (cases event)
  case (AssistantResponse content)
  let ?f = "f\<lparr>tf_pending := tf_pending f @ content\<rparr>"
  have d: "drain_thinking False ?f = (out, g)" using assms AssistantResponse by (simp add: thinking_push_def)
  have "to_show ?f t = to_show f (content @ t)" by (simp add: to_show_def tagged_shown_def)
  then show ?thesis using drain_shows [OF d, of t] drain_frame [OF d] AssistantResponse
    by (simp add: same_settings_def)
next
  case (Reasoning content signature redacted)
  obtain o1 f1 where d: "drain_thinking False f = (o1, f1)" by fastforce
  then show ?thesis using assms Reasoning drain_shows [OF d, of t] drain_frame [OF d]
    by (auto simp: thinking_push_def Let_def same_settings_def others_def split: if_splits)
qed (use assms in \<open>auto simp: thinking_push_def same_settings_def others_def
       dest: drain_shows [of _ _ _ t] drain_frame split: prod.splits\<close>)


fun thinking_run :: "kiro_event list \<Rightarrow> thinking_filter \<Rightarrow> kiro_event list" where
  "thinking_run [] f = fst (thinking_finish f)"
| "thinking_run (event # events) f = (let (out, g) = thinking_push event f in out @ thinking_run events g)"

lemma thinking_run_shows:
  "texts (thinking_run events f) = to_show f (texts events) \<and>
   others (thinking_run events f) = concat (map (passes (tf_enabled f) (tf_omit_summary f)) events)"
proof (induction events arbitrary: f)
  case Nil
  obtain out g where d: "drain_thinking True f = (out, g)" by fastforce
  show ?case using drain_finish_shows [OF d] drain_frame [OF d] d by (simp add: thinking_finish_def)
next
  case (Cons event events)
  obtain out g where p: "thinking_push event f = (out, g)" by fastforce
  show ?case using push_shows [OF p, of "texts events"] Cons.IH [of g] p by (simp add: same_settings_def)
qed

text \<open>C20: The thinking filter is exact and does not depend on the chunks. For every sequence of events,
  wherever the upstream cut its text and whatever came in between, the text that leaves the filter is
  the upstream text itself when tagged reasoning is shown, and otherwise the text outside reasoning
  as the specification reads it from the whole text at once; the other events leave it in order,
  native reasoning only as the settings allow.\<close>

theorem thinking_filter_exact:
  "let out = thinking_run events (with_omitted_summary omit (thinking_filter_new enabled)) in
   texts out = (if enabled \<and> \<not> omit then texts events else visible_text md_default (texts events)) \<and>
   others out = concat (map (passes enabled omit) events)"
  using thinking_run_shows [of events "with_omitted_summary omit (thinking_filter_new enabled)"]
  by (simp add: Let_def to_show_def tagged_shown_def with_omitted_summary_def thinking_filter_new_def)

end
