(* ===== verification/Requests.thy ===== *)
theory Requests
  imports Decoded
begin

text \<open>
  \<open>crates/kproxy-translate/src/protocol.rs\<close>: the requests of the two client protocols, and how
  \<open>serde_json::to_value\<close> serialises a tool.
\<close>

definition matches_type_family :: "string \<Rightarrow> string \<Rightarrow> bool" where
  "matches_type_family kind base \<longleftrightarrow> kind = base \<or>
     (case strip_prefix kind base of Some rest \<Rightarrow> starts_with rest ''_'' | None \<Rightarrow> False)"

record claude_output_config =
  co_effort :: "string option"
  co_extra :: "(string \<times> json) list"

record claude_message =
  cm_role :: string
  cm_content :: json
  cm_cache_control :: "json option"
  cm_output_config :: "claude_output_config option"
  cm_extra :: "(string \<times> json) list"

record claude_tool =
  ct_type :: "string option"
  ct_name :: string
  ct_description :: string
  ct_input_schema :: json
  ct_cache_control :: "json option"
  ct_strict :: "bool option"
  ct_input_examples :: "json list option"
  ct_defer_loading :: bool
  ct_allowed_callers :: "string list option"
  ct_eager_input_streaming :: "bool option"
  ct_max_uses :: "u32 option"
  ct_allowed_domains :: "string list option"
  ct_blocked_domains :: "string list option"
  ct_user_location :: "json option"
  ct_response_inclusion :: "string option"
  ct_extra :: "(string \<times> json) list"

record claude_tool_choice =
  cc_type :: string
  cc_name :: "string option"
  cc_disable_parallel_tool_use :: bool

record claude_request =
  cq_model :: string
  cq_messages :: "claude_message list"
  cq_max_tokens :: u32
  cq_temperature :: "f64 option"
  cq_top_p :: "f64 option"
  cq_top_k :: "u32 option"
  cq_stop_sequences :: "string list"
  cq_stream :: bool
  cq_system :: "json option"
  cq_tools :: "claude_tool list"
  cq_tool_choice :: "claude_tool_choice option"
  cq_thinking :: "thinking_config option"
  cq_output_config :: "claude_output_config option"
  cq_cache_control :: "json option"
  cq_service_tier :: "string option"
  cq_metadata :: "json option"
  cq_conversation_id :: "string option"
  cq_context_management :: "json option"
  cq_extra :: "(string \<times> json) list"

record openai_message =
  om_role :: string
  om_content :: "json option"
  om_tool_calls :: "json list"
  om_tool_call_id :: "string option"
  om_reasoning_content :: "string option"
  om_refusal :: "string option"
  om_name :: "string option"
  om_cache_control :: "json option"

record openai_tool_entry =
  ot_type :: string
  ot_body :: json

record openai_request =
  oq_model :: string
  oq_messages :: "openai_message list"
  oq_temperature :: "f64 option"
  oq_top_p :: "f64 option"
  oq_max_tokens :: "u32 option"
  oq_max_completion_tokens :: "u32 option"
  oq_stream :: bool
  oq_stop :: "json option"
  oq_n :: "u32 option"
  oq_legacy_functions :: bool
  oq_stream_options :: "json option"
  oq_tools :: "openai_tool_entry list"
  oq_tool_choice :: "json option"
  oq_parallel_tool_calls :: bool
  oq_thinking :: "thinking_config option"
  oq_reasoning_effort :: "string option"
  oq_conversation_id :: "string option"
  oq_metadata :: "json option"
  oq_response_format :: "json option"

definition output_token_limit :: "openai_request \<Rightarrow> u32 option" where
  "output_token_limit r = or_else (oq_max_completion_tokens r) (oq_max_tokens r)"

definition request_stop_sequences :: "openai_request \<Rightarrow> string list" where
  "request_stop_sequences r =
     (case oq_stop r of
        Some (JString value) \<Rightarrow> [value]
      | Some (JArray values) \<Rightarrow> List.map_filter as_str values
      | _ \<Rightarrow> [])"

section \<open>Serialisation\<close>

text \<open>The derived \<open>Serialize\<close>: the fields in order, \<open>None\<close> as \<open>null\<close>, then the flattened entries.\<close>

definition j_opt :: "('a \<Rightarrow> json) \<Rightarrow> 'a option \<Rightarrow> json" where
  "j_opt f a = (case a of None \<Rightarrow> JNull | Some x \<Rightarrow> f x)"

definition j_strings :: "string list \<Rightarrow> json" where
  "j_strings xs = JArray (map JString xs)"

definition claude_tool_value :: "claude_tool \<Rightarrow> json" where
  "claude_tool_value t = jobj
     ([(''type'', j_opt JString (ct_type t)), (''name'', JString (ct_name t)),
       (''description'', JString (ct_description t)), (''input_schema'', ct_input_schema t),
       (''cache_control'', j_opt (\<lambda>v. v) (ct_cache_control t)), (''strict'', j_opt JBool (ct_strict t)),
       (''input_examples'', j_opt JArray (ct_input_examples t)), (''defer_loading'', JBool (ct_defer_loading t)),
       (''allowed_callers'', j_opt j_strings (ct_allowed_callers t)),
       (''eager_input_streaming'', j_opt JBool (ct_eager_input_streaming t)),
       (''max_uses'', j_opt (\<lambda>n. jnum (unat n)) (ct_max_uses t)), (''allowed_domains'', j_opt j_strings (ct_allowed_domains t)),
       (''blocked_domains'', j_opt j_strings (ct_blocked_domains t)),
       (''user_location'', j_opt (\<lambda>v. v) (ct_user_location t)),
       (''response_inclusion'', j_opt JString (ct_response_inclusion t))] @ ct_extra t)"

text \<open>A flattened value must be an object, or \<open>null\<close>, which adds nothing.\<close>

definition openai_tool_value :: "openai_tool_entry \<Rightarrow> json option" where
  "openai_tool_value t =
     (case ot_body t of
        JObject m \<Rightarrow> Some (jobj ((''type'', JString (ot_type t)) # m))
      | JNull \<Rightarrow> Some (jobj [(''type'', JString (ot_type t))])
      | _ \<Rightarrow> None)"

end
