(* ===== verification/ReplayCache.thy ===== *)
theory ReplayCache
  imports DecodedCorrect Requests
begin

text \<open>
  \<open>crates/kproxyd/src/http/compaction_replay.rs\<close>: the bounded store of compaction checkpoints for
  clients that do not send a returned \<open>compaction\<close> block back. \<open>sha\<close> is SHA-256 and \<open>to_json\<close> is
  \<open>serde_json::to_writer\<close> on a list of messages, None where it fails. Time is in nanoseconds; \<open>find\<close> takes the lock twice, so its two halves are separate steps.
\<close>

section \<open>Definitions\<close>

type_synonym digest_fun = "claude_message list \<Rightarrow> u8 list option"

definition REPLAY_TTL :: int where
  "REPLAY_TTL = 60 * 60 * 1000000000"

definition MAX_REPLAY_ENTRIES :: nat where
  "MAX_REPLAY_ENTRIES = 256"

definition MAX_CHECKPOINT_BYTES :: nat where
  "MAX_CHECKPOINT_BYTES = 128 * 1024"

definition REPLAY_DOMAIN :: string where
  "REPLAY_DOMAIN = ''kproxy-compaction-replay-v1'' @ [CHR 0x00]"

definition digest_messages :: "(string \<Rightarrow> u8 list) \<Rightarrow> (claude_message list \<Rightarrow> string option) \<Rightarrow> digest_fun" where
  "digest_messages sha to_json messages = map_option (\<lambda>json. sha (REPLAY_DOMAIN @ json)) (to_json messages)"

record compaction_replay_source =
  rs_message_count :: nat
  rs_digest :: "u8 list"

definition capture :: "digest_fun \<Rightarrow> claude_message list \<Rightarrow> compaction_replay_source option" where
  "capture digest messages =
     map_option (\<lambda>d. \<lparr>rs_message_count = length messages, rs_digest = d\<rparr>) (digest messages)"

record compaction_replay =
  cr_source_message_count :: nat
  cr_incoming_message_count :: nat
  cr_checkpoint :: string

record compaction_replay_applied =
  ra_source_message_count :: nat
  ra_incoming_message_count :: nat
  ra_checkpoint_bytes :: nat

record replay_entry =
  re_source :: compaction_replay_source
  re_checkpoint :: string
  re_expires_at :: int
  re_last_used_at :: int

type_synonym replay_tracker = "(string, replay_entry) hmap"

definition prune_replays :: "int \<Rightarrow> replay_tracker \<Rightarrow> replay_tracker" where
  "prune_replays now entries = hm_retain (\<lambda>_ e. now < re_expires_at e) entries"

text \<open>\<open>min_by_key\<close>: the first of the least.\<close>

fun min_by_key :: "('a \<Rightarrow> int) \<Rightarrow> 'a list \<Rightarrow> 'a option" where
  "min_by_key key [] = None"
| "min_by_key key (x # xs) = (case min_by_key key xs of
     None \<Rightarrow> Some x | Some y \<Rightarrow> Some (if key x \<le> key y then x else y))"

lemma min_by_key_in: "min_by_key key xs = Some x \<Longrightarrow> x \<in> set xs"
  by (induction xs arbitrary: x) (auto split: option.splits if_splits)

lemma min_by_key_None: "min_by_key key xs = None \<longleftrightarrow> xs = []"
  by (cases xs) (auto split: option.splits)

lemma hm_remove_shorter: "(k, v) \<in> set m \<Longrightarrow> length (hm_remove k m) < length m"
  by (simp add: AList.delete_eq length_filter_less)

function evict_replays :: "replay_tracker \<Rightarrow> replay_tracker" where
  "evict_replays entries =
     (if length entries \<le> MAX_REPLAY_ENTRIES then entries
      else case min_by_key (\<lambda>(_, e). re_last_used_at e) entries of
          None \<Rightarrow> entries
        | Some (scope, _) \<Rightarrow> evict_replays (hm_remove scope entries))"
  by pat_completeness auto

termination
  by (relation "measure length") (auto dest!: min_by_key_in simp: hm_remove_shorter)

declare evict_replays.simps [simp del]

definition remember ::
  "int \<Rightarrow> string \<Rightarrow> compaction_replay_source \<Rightarrow> string \<Rightarrow> replay_tracker \<Rightarrow> bool \<times> replay_tracker" where
  "remember now scope source checkpoint entries =
     (if checkpoint = [] \<or> MAX_CHECKPOINT_BYTES < length checkpoint then (False, entries)
      else (True, evict_replays (hm_insert scope
        \<lparr>re_source = source, re_checkpoint = checkpoint, re_expires_at = now + REPLAY_TTL, re_last_used_at = now\<rparr>
        (prune_replays now entries))))"

definition has_completed_compaction :: "json \<Rightarrow> bool" where
  "has_completed_compaction content =
     (case as_array content of
        None \<Rightarrow> False
      | Some blocks \<Rightarrow> list_ex (\<lambda>b. get_str b ''type'' = Some ''compaction'' \<and>
          (case get_str b ''content'' of Some c \<Rightarrow> c \<noteq> [] | None \<Rightarrow> False)) blocks)"

text \<open>The halves of \<open>find\<close>: the lookup under the first lock, the check of the request, and the renewal
  under the second.\<close>

definition find_entry :: "int \<Rightarrow> string \<Rightarrow> replay_tracker \<Rightarrow> replay_entry option \<times> replay_tracker" where
  "find_entry now scope entries = (let entries' = prune_replays now entries in (hm_get entries' scope, entries'))"

definition replay_fits :: "digest_fun \<Rightarrow> claude_message list \<Rightarrow> replay_entry \<Rightarrow> bool" where
  "replay_fits digest messages entry =
     (let n = rs_message_count (re_source entry) in
      n < length messages \<and> cm_role (messages ! n) = ''assistant'' \<and>
      \<not> has_completed_compaction (cm_content (messages ! n)) \<and>
      digest (take n messages) = Some (rs_digest (re_source entry)))"

definition renew :: "int \<Rightarrow> string \<Rightarrow> replay_entry \<Rightarrow> replay_tracker \<Rightarrow> replay_tracker" where
  "renew now scope entry entries =
     (case hm_get entries scope of
        None \<Rightarrow> entries
      | Some current \<Rightarrow>
          if rs_digest (re_source current) = rs_digest (re_source entry)
          then hm_insert scope (current\<lparr>re_last_used_at := now, re_expires_at := now + REPLAY_TTL\<rparr>) entries
          else entries)"

definition replay_of :: "claude_message list \<Rightarrow> replay_entry \<Rightarrow> compaction_replay" where
  "replay_of messages entry = \<lparr>cr_source_message_count = rs_message_count (re_source entry),
     cr_incoming_message_count = length messages, cr_checkpoint = re_checkpoint entry\<rparr>"

definition find_replay ::
  "digest_fun \<Rightarrow> int \<Rightarrow> string \<Rightarrow> claude_message list \<Rightarrow> replay_tracker \<Rightarrow> compaction_replay option \<times> replay_tracker" where
  "find_replay digest now scope messages entries =
     (case find_entry now scope entries of
        (None, entries') \<Rightarrow> (None, entries')
      | (Some entry, entries') \<Rightarrow>
          if replay_fits digest messages entry
          then (Some (replay_of messages entry), renew now scope entry entries')
          else (None, entries'))"

definition prepend_compaction :: "string \<Rightarrow> json \<Rightarrow> json option" where
  "prepend_compaction checkpoint content =
     (let boundary = jobj [(''type'', JString ''compaction''), (''content'', JString checkpoint)] in
      case content of
        JArray blocks \<Rightarrow> Some (JArray (boundary # blocks))
      | JString t \<Rightarrow> Some (JArray (if t = [] then [boundary]
          else [boundary, jobj [(''type'', JString ''text''), (''text'', JString t)]]))
      | _ \<Rightarrow> None)"

definition apply_to ::
  "compaction_replay \<Rightarrow> claude_message list \<Rightarrow> (compaction_replay_applied \<times> claude_message list) option" where
  "apply_to r messages =
     (let n = cr_source_message_count r in
      if length messages \<le> n then None
      else if cm_role (messages ! n) \<noteq> ''assistant'' \<or> has_completed_compaction (cm_content (messages ! n)) then None
      else map_option (\<lambda>content.
          (\<lparr>ra_source_message_count = n, ra_incoming_message_count = cr_incoming_message_count r,
             ra_checkpoint_bytes = length (cr_checkpoint r)\<rparr>,
           messages[n := (messages ! n)\<lparr>cm_content := content\<rparr>]))
        (prepend_compaction (cr_checkpoint r) (cm_content (messages ! n))))"

definition apply_replay ::
  "digest_fun \<Rightarrow> int \<Rightarrow> string \<Rightarrow> claude_message list \<Rightarrow> replay_tracker \<Rightarrow>
     (compaction_replay_applied \<times> claude_message list) option \<times> replay_tracker" where
  "apply_replay digest now scope messages entries =
     (let (r, entries') = find_replay digest now scope messages entries
      in (Option.bind r (\<lambda>r. apply_to r messages), entries'))"

section \<open>The store under concurrent requests\<close>

text \<open>
  The steps are the critical sections. A request captures its messages and, once it has a checkpoint,
  remembers it for them; where the capture failed it remembers nothing. A renewal may come at any later
  time, with whatever entry its request saw. The record keeps, per scope, the last checkpoint that was
  accepted and the messages it was made for.
\<close>

datatype replay_op =
    Remember int string "claude_message list" string
  | Lookup int string
  | Renew int string replay_entry

fun replay_step :: "digest_fun \<Rightarrow> replay_op \<Rightarrow> replay_tracker \<Rightarrow> replay_tracker" where
  "replay_step digest (Remember now scope messages checkpoint) entries =
     (case capture digest messages of
        None \<Rightarrow> entries
      | Some source \<Rightarrow> snd (remember now scope source checkpoint entries))"
| "replay_step digest (Lookup now scope) entries = snd (find_entry now scope entries)"
| "replay_step digest (Renew now scope entry) entries = renew now scope entry entries"

type_synonym replay_record = "string \<rightharpoonup> claude_message list \<times> string"

fun note_op :: "digest_fun \<Rightarrow> replay_op \<Rightarrow> replay_record \<Rightarrow> replay_record" where
  "note_op digest (Remember now scope messages checkpoint) past =
     (case capture digest messages of
        None \<Rightarrow> past
      | Some source \<Rightarrow>
          if fst (remember now scope source checkpoint []) then past(scope \<mapsto> (messages, checkpoint)) else past)"
| "note_op digest _ past = past"

definition entry_ok :: "digest_fun \<Rightarrow> replay_record \<Rightarrow> string \<Rightarrow> replay_entry \<Rightarrow> bool" where
  "entry_ok digest past scope e \<longleftrightarrow>
     (\<exists>messages. past scope = Some (messages, re_checkpoint e) \<and> capture digest messages = Some (re_source e)) \<and>
     re_checkpoint e \<noteq> [] \<and> length (re_checkpoint e) \<le> MAX_CHECKPOINT_BYTES \<and>
     re_expires_at e = re_last_used_at e + REPLAY_TTL"

definition replay_inv :: "digest_fun \<Rightarrow> replay_tracker \<times> replay_record \<Rightarrow> bool" where
  "replay_inv digest = (\<lambda>(entries, past). hm_wf entries \<and> length entries \<le> MAX_REPLAY_ENTRIES \<and>
     (\<forall>scope e. hm_get entries scope = Some e \<longrightarrow> entry_ok digest past scope e))"

definition logged_step where
  "logged_step digest op = (\<lambda>(entries, past). (replay_step digest op entries, note_op digest op past))"

lemma evict_replays_spec:
  "hm_wf entries \<Longrightarrow> hm_wf (evict_replays entries) \<and> length (evict_replays entries) \<le> MAX_REPLAY_ENTRIES \<and>
     (\<forall>k e. hm_get (evict_replays entries) k = Some e \<longrightarrow> hm_get entries k = Some e)"
proof (induction entries rule: evict_replays.induct)
  case (1 entries)
  show ?case
  proof (cases "length entries \<le> MAX_REPLAY_ENTRIES")
    case True
    then show ?thesis using 1(2) by (simp add: evict_replays.simps)
  next
    case False
    then obtain scope e where m: "min_by_key (\<lambda>(_, e). re_last_used_at e) entries = Some (scope, e)"
      using min_by_key_None [of _ entries] by (cases "min_by_key (\<lambda>(_, e). re_last_used_at e) entries") auto
    have "evict_replays entries = evict_replays (hm_remove scope entries)"
      using False m by (subst evict_replays.simps) simp
    moreover have "hm_wf (hm_remove scope entries)" using 1(2) by simp
    moreover have "hm_get entries k = Some e" if "hm_get (hm_remove scope entries) k = Some e" for k e
      using that by (auto simp: delete_conv' split: if_splits)
    ultimately show ?thesis using 1(1) [OF False m refl] by simp
  qed
qed

lemma prune_replays_get:
  "hm_wf entries \<Longrightarrow> hm_get (prune_replays now entries) k =
     opt_filter (\<lambda>e. now < re_expires_at e) (hm_get entries k)"
  unfolding prune_replays_def by (simp add: hm_get_retain opt_filter_def split: option.splits)

lemma prune_replays_shrinks:
  "hm_wf entries \<Longrightarrow> hm_wf (prune_replays now entries) \<and> length (prune_replays now entries) \<le> length entries"
  by (simp add: prune_replays_def hm_retain_def hm_wf_def distinct_map_filter)

lemma replay_inv_step: "replay_inv digest p \<Longrightarrow> replay_inv digest (logged_step digest op p)"
proof -
  assume inv: "replay_inv digest p"
  obtain entries past where p: "p = (entries, past)" by (cases p)
  have wf: "hm_wf entries" and len: "length entries \<le> MAX_REPLAY_ENTRIES"
      and ok: "\<And>scope e. hm_get entries scope = Some e \<Longrightarrow> entry_ok digest past scope e"
    using inv p by (auto simp: replay_inv_def)
  show ?thesis
  proof (cases op)
    case (Remember now scope messages checkpoint)
    show ?thesis
    proof (cases "capture digest messages = None \<or> checkpoint = [] \<or> MAX_CHECKPOINT_BYTES < length checkpoint")
      case True
      then show ?thesis using Remember p inv by (auto simp: logged_step_def remember_def split: option.split)
    next
      case False
      then obtain source where c: "capture digest messages = Some source" by auto
      let ?e = "\<lparr>re_source = source, re_checkpoint = checkpoint, re_expires_at = now + REPLAY_TTL, re_last_used_at = now\<rparr>"
      let ?m = "hm_insert scope ?e (prune_replays now entries)" and ?past = "past(scope \<mapsto> (messages, checkpoint))"
      have step: "logged_step digest op p = (evict_replays ?m, ?past)"
        using Remember False c p by (simp add: logged_step_def remember_def)
      have wfm: "hm_wf ?m" using prune_replays_shrinks [OF wf] by simp
      have "entry_ok digest ?past k e" if "hm_get ?m k = Some e" for k e
      proof (cases "k = scope")
        case True
        then show ?thesis using that False c by (auto simp: update_conv' entry_ok_def)
      next
        case other: False
        then have "hm_get entries k = Some e"
          using that prune_replays_get [OF wf] by (auto simp: update_conv' opt_filter_def split: option.splits if_splits)
        then show ?thesis using ok other by (simp add: entry_ok_def)
      qed
      then show ?thesis using evict_replays_spec [OF wfm] by (auto simp: replay_inv_def step)
    qed
  next
    case (Lookup now scope)
    then show ?thesis using p ok prune_replays_shrinks [OF wf, of now] prune_replays_get [OF wf] len
      by (auto simp: replay_inv_def logged_step_def find_entry_def Let_def opt_filter_def split: option.splits if_splits)
  next
    case (Renew now scope entry)
    have "hm_get entries scope = Some cur \<Longrightarrow>
        length (hm_insert scope cur' entries) = length entries" for cur cur'
      using hm_get_in_keys by (auto simp: hm_length_insert)
    then show ?thesis using p ok wf len Renew
      by (auto simp: replay_inv_def logged_step_def renew_def entry_ok_def update_conv' split: option.splits if_splits)
  qed
qed

interpretation replays: machine "logged_step digest" "([], Map.empty)" "replay_inv digest" for digest
  by unfold_locales (simp_all add: replay_inv_step, simp add: replay_inv_def hm_wf_def)

lemma replay_run_inv:
  "replay_inv digest (fold (replay_step digest) ops [], fold (note_op digest) ops Map.empty)"
proof -
  have "fold (logged_step digest) ops (entries, past)
      = (fold (replay_step digest) ops entries, fold (note_op digest) ops past)" for entries past
    by (induction ops arbitrary: entries past) (simp_all add: logged_step_def)
  then show ?thesis using replays.inv_run [of digest ops] by simp
qed

fun remembered_messages :: "replay_op \<Rightarrow> claude_message list list" where
  "remembered_messages (Remember now scope messages checkpoint) = [messages]"
| "remembered_messages _ = []"

text \<open>The histories whose digests are compared: those remembered and the beginnings of the request's.\<close>

definition compared_histories :: "replay_op list \<Rightarrow> claude_message list \<Rightarrow> claude_message list set" where
  "compared_histories ops messages =
     set (concat (map remembered_messages ops)) \<union> (\<lambda>n. take n messages) ` {..length messages}"

lemma noted_messages:
  "fold (note_op digest) ops past scope = Some (ms, c) \<Longrightarrow>
     past scope = Some (ms, c) \<or> ms \<in> set (concat (map remembered_messages ops))"
proof (induction ops arbitrary: past)
  case (Cons op ops)
  then have "note_op digest op past scope = Some (ms, c) \<or> ms \<in> set (concat (map remembered_messages ops))" by simp
  then show ?case by (cases op) (auto split: option.splits if_splits)
qed simp

text \<open>Equal digests of two histories that neither SHA-256 nor the JSON text confuses.\<close>

lemma digest_messages_inj:
  assumes "inj_on sha ((\<lambda>ms. REPLAY_DOMAIN @ the (to_json ms)) ` H)" and "inj_on to_json H" and "a \<in> H" and "b \<in> H"
    and "digest_messages sha to_json a = Some d" and "digest_messages sha to_json b = Some d"
  shows "a = b"
proof -
  obtain x y where xy: "to_json a = Some x" "to_json b = Some y" "sha (REPLAY_DOMAIN @ x) = d" "sha (REPLAY_DOMAIN @ y) = d"
    using assms(5,6) by (auto simp: digest_messages_def)
  have "sha (REPLAY_DOMAIN @ the (to_json a)) = sha (REPLAY_DOMAIN @ the (to_json b))" using xy by simp
  from inj_onD [OF assms(1) this imageI [OF assms(3)] imageI [OF assms(4)]] have "x = y" using xy(1,2) by simp
  then show ?thesis using xy by (intro inj_onD [OF assms(2) _ assms(3,4)]) simp
qed

section \<open>Properties\<close>

text \<open>C36: A replayed checkpoint belongs to the request. After any interleaving of the critical sections
  of concurrent requests, the store holds at most 256 checkpoints. If SHA-256 does not collide on the
  histories compared and their JSON texts differ where they do, a checkpoint that is offered to a request
  is the last one accepted for its scope, and the messages it was made for are exactly the first messages
  of the request; it is not empty and not larger than 128 KiB, and the message after them is an assistant
  message without a completed compaction.\<close>

theorem replay_belongs_to_request:
  fixes sha to_json
  defines "digest \<equiv> digest_messages sha to_json"
  assumes "inj_on sha ((\<lambda>ms. REPLAY_DOMAIN @ the (to_json ms)) ` compared_histories ops messages)"
    and "inj_on to_json (compared_histories ops messages)"
    and "find_replay digest now scope messages (fold (replay_step digest) ops []) = (Some r, entries')"
  shows "length (fold (replay_step digest) ops []) \<le> 256 \<and>
    fold (note_op digest) ops Map.empty scope = Some (take (cr_source_message_count r) messages, cr_checkpoint r) \<and>
    cr_checkpoint r \<noteq> [] \<and> length (cr_checkpoint r) \<le> 128 * 1024 \<and>
    cr_source_message_count r < length messages \<and>
    cm_role (messages ! cr_source_message_count r) = ''assistant'' \<and>
    \<not> has_completed_compaction (cm_content (messages ! cr_source_message_count r))"
proof -
  let ?m = "fold (replay_step digest) ops []" and ?past = "fold (note_op digest) ops Map.empty"
  have inv: "hm_wf ?m" "length ?m \<le> 256" "\<And>k e. hm_get ?m k = Some e \<Longrightarrow> entry_ok digest ?past k e"
    using replay_run_inv [of digest ops] by (auto simp: replay_inv_def MAX_REPLAY_ENTRIES_def)
  obtain e where e: "hm_get (prune_replays now ?m) scope = Some e" "replay_fits digest messages e" "r = replay_of messages e"
    using assms(4) by (auto simp: find_replay_def find_entry_def Let_def split: option.splits if_splits)
  have "hm_get ?m scope = Some e"
    using e(1) prune_replays_get [OF inv(1)] by (auto simp: opt_filter_def split: option.splits if_splits)
  from inv(3) [OF this] obtain ms where ms: "?past scope = Some (ms, re_checkpoint e)" "capture digest ms = Some (re_source e)"
    and ok: "re_checkpoint e \<noteq> []" "length (re_checkpoint e) \<le> MAX_CHECKPOINT_BYTES"
    by (auto simp: entry_ok_def)
  let ?n = "rs_message_count (re_source e)"
  have d: "digest ms = Some (rs_digest (re_source e))" "?n = length ms"
    using ms(2) unfolding capture_def by (metis (no_types, lifting) compaction_replay_source.simps(1,2) map_option_eq_Some)+
  have fit: "?n < length messages" "digest (take ?n messages) = Some (rs_digest (re_source e))"
    "cm_role (messages ! ?n) = ''assistant''" "\<not> has_completed_compaction (cm_content (messages ! ?n))"
    using e(2) by (auto simp: replay_fits_def Let_def)
  have "ms \<in> compared_histories ops messages" "take ?n messages \<in> compared_histories ops messages"
    using noted_messages [OF ms(1)] fit(1) by (auto simp: compared_histories_def)
  then have "ms = take ?n messages"
    using digest_messages_inj [OF assms(2,3)] d(1) fit(2) unfolding digest_def by blast
  then show ?thesis
    using inv(2) ms(1) ok fit unfolding e(3) by (simp add: replay_of_def MAX_CHECKPOINT_BYTES_def)
qed

text \<open>Applying a checkpoint marks the boundary once. It succeeds exactly at an assistant message with
  text or block content and no completed compaction; it changes only that message, whose content then
  starts with the checkpoint; applying it again does nothing.\<close>

theorem apply_to_once:
  assumes "cr_checkpoint r \<noteq> []" and "apply_to r messages = Some (applied, messages')"
  shows "length messages' = length messages \<and>
    (\<forall>i < length messages. i \<noteq> cr_source_message_count r \<longrightarrow> messages' ! i = messages ! i) \<and>
    (\<exists>blocks. cm_content (messages' ! cr_source_message_count r) = JArray (jobj [(''type'', JString ''compaction''),
       (''content'', JString (cr_checkpoint r))] # blocks)) \<and>
    apply_to r messages' = None"
proof -
  let ?n = "cr_source_message_count r"
  let ?b = "jobj [(''type'', JString ''compaction''), (''content'', JString (cr_checkpoint r))]"
  obtain content where c: "?n < length messages" "prepend_compaction (cr_checkpoint r) (cm_content (messages ! ?n)) = Some content"
      "messages' = messages[?n := (messages ! ?n)\<lparr>cm_content := content\<rparr>]"
    using assms(2) by (auto simp: apply_to_def Let_def not_le split: if_splits)
  obtain blocks where b: "content = JArray (?b # blocks)"
    using c(2) by (auto simp: prepend_compaction_def Let_def split: json.splits if_splits)
  have "has_completed_compaction content"
    using assms(1) by (simp add: b has_completed_compaction_def get_str_def)
  then show ?thesis using c b by (simp add: apply_to_def Let_def)
qed

definition demo_messages :: "claude_message list" where
  "demo_messages = map (\<lambda>(role, t). \<lparr>cm_role = role, cm_content = JString t, cm_cache_control = None,
     cm_output_config = None, cm_extra = []\<rparr>) [(''user'', ''q''), (''assistant'', ''a''), (''user'', ''r'')]"

definition replay_demo_json :: "claude_message list \<Rightarrow> string option" where
  "replay_demo_json ms = Some (concat (map (\<lambda>m. cm_role m @ '':'' @ (case cm_content m of JString t \<Rightarrow> t | _ \<Rightarrow> []) @ '';'') ms))"

definition replay_demo_sha :: "string \<Rightarrow> u8 list" where
  "replay_demo_sha = map (\<lambda>c. of_nat (of_char c))"

theorem replay_belongs_to_request_witness:
  "\<exists>r entries'. find_replay (digest_messages replay_demo_sha replay_demo_json) 1 ''s'' demo_messages
     (fold (replay_step (digest_messages replay_demo_sha replay_demo_json)) [Remember 0 ''s'' (take 1 demo_messages) ''sum''] []) = (Some r, entries') \<and>
     take (cr_source_message_count r) demo_messages = take 1 demo_messages \<and> cr_checkpoint r = ''sum''"
proof -
  let ?d = "digest_messages replay_demo_sha replay_demo_json" and ?ops = "[Remember 0 ''s'' (take 1 demo_messages) ''sum'']"
  obtain r entries' where f: "find_replay ?d 1 ''s'' demo_messages (fold (replay_step ?d) ?ops []) = (Some r, entries')"
    by (simp add: find_replay_def find_entry_def remember_def evict_replays.simps prune_replays_def hm_retain_def
      MAX_CHECKPOINT_BYTES_def MAX_REPLAY_ENTRIES_def REPLAY_TTL_def replay_fits_def demo_messages_def
      has_completed_compaction_def capture_def digest_messages_def replay_demo_json_def)
  have "inj replay_demo_sha"
    unfolding replay_demo_sha_def
    by (intro inj_mapI injI) (simp add: word_of_nat_eq_iff take_bit_eq_mod of_char_mod_256)
  have "{..length demo_messages} = {0, 1, 2, 3}" by (auto simp: demo_messages_def)
  then have "compared_histories ?ops demo_messages = (\<lambda>n. take n demo_messages) ` {0, 1, 2, 3}"
    by (auto simp: compared_histories_def)
  then have "inj_on replay_demo_json (compared_histories ?ops demo_messages)"
    by (simp add: replay_demo_json_def demo_messages_def inj_on_def)
  note this = replay_belongs_to_request [OF inj_on_subset [OF \<open>inj replay_demo_sha\<close> subset_UNIV] this f]
  moreover have "fold (note_op ?d) ?ops Map.empty ''s'' = Some (take 1 demo_messages, ''sum'')"
    by (simp add: capture_def digest_messages_def replay_demo_json_def remember_def MAX_CHECKPOINT_BYTES_def)
  ultimately have "Some (take 1 demo_messages, ''sum'') = Some (take (cr_source_message_count r) demo_messages, cr_checkpoint r)"
    by simp
  then show ?thesis using f by (intro exI conjI) auto
qed

theorem apply_to_once_witness:
  "\<exists>applied messages'. apply_to \<lparr>cr_source_message_count = 1, cr_incoming_message_count = 3, cr_checkpoint = ''sum''\<rparr>
     demo_messages = Some (applied, messages') \<and>
   apply_to \<lparr>cr_source_message_count = 1, cr_incoming_message_count = 3, cr_checkpoint = ''sum''\<rparr> messages' = None"
proof -
  let ?r = "\<lparr>cr_source_message_count = 1, cr_incoming_message_count = 3, cr_checkpoint = ''sum''\<rparr>"
  obtain applied messages' where a: "apply_to ?r demo_messages = Some (applied, messages')"
    by (simp add: apply_to_def demo_messages_def has_completed_compaction_def prepend_compaction_def)
  with apply_to_once [OF _ a] show ?thesis by auto
qed

end
