(* ===== verification/PromptCache.thy ===== *)
theory PromptCache
  imports ReplayCache Meter
begin

text \<open>
  \<open>crates/kproxyd/src/http/prompt_cache.rs\<close>: the prompt-cache breakpoints of each account. Parameters:
  \<open>to_json\<close> is \<open>Value::to_string\<close>, \<open>sha\<close> is SHA-256, \<open>count\<close> is the tokenizer,
  which may fail. Time is in nanoseconds; \<open>plan\<close> and \<open>commit\<close> each hold the lock throughout, so each
  is one step, and \<open>apply\<close> is two.
\<close>

section \<open>Profiles\<close>

definition DEFAULT_TTL :: int where
  "DEFAULT_TTL = 5 * 60 * 1000000000"

definition ONE_HOUR_TTL :: int where
  "ONE_HOUR_TTL = 60 * 60 * 1000000000"

definition MAX_CACHE_RATIO :: f64 where
  "MAX_CACHE_RATIO = Fin (85 / 100)"

definition MAX_ENTRIES_PER_ACCOUNT :: nat where
  "MAX_ENTRIES_PER_ACCOUNT = 200"

record prompt_cache_profile =
  pp_fingerprint :: string
  pp_tokens :: nat
  pp_ttl :: int

record cache_block =
  cb_value :: json
  cb_ttl :: "int option"

definition cache_ttl :: "json \<Rightarrow> int option" where
  "cache_ttl value =
     (case v_get value ''cache_control'' of
        None \<Rightarrow> None
      | Some control \<Rightarrow>
          if get_str control ''type'' \<noteq> Some ''ephemeral'' then None
          else (case v_get control ''ttl'' of
              Some (JString t) \<Rightarrow> if t = ''5m'' then Some DEFAULT_TTL
                else if t = ''1h'' then Some ONE_HOUR_TTL else Some DEFAULT_TTL
            | _ \<Rightarrow> Some DEFAULT_TTL))"

text \<open>What \<open>append_value\<close> and \<open>append_owned\<close> add to the output.\<close>

fun append_value :: "json \<Rightarrow> cache_block list" where
  "append_value (JArray items) = concat (map append_value items)"
| "append_value value = [\<lparr>cb_value = value, cb_ttl = cache_ttl value\<rparr>]"

definition append_opt :: "json option \<Rightarrow> cache_block list" where
  "append_opt value = (case value of None \<Rightarrow> [] | Some v \<Rightarrow> append_value v)"

fun stable_json :: "(json \<Rightarrow> string) \<Rightarrow> json \<Rightarrow> string" where
  "stable_json to_json (JObject m) =
     ''{'' @ join '','' (map (\<lambda>(key, value). to_json (JString key) @ '':'' @ value)
       (sort_by (\<lambda>a b. str_cmp (fst a) (fst b)) (map (\<lambda>(key, value). (key, stable_json to_json value)) m))) @ ''}''"
| "stable_json to_json (JArray values) = ''['' @ join '','' (map (stable_json to_json) values) @ '']''"
| "stable_json to_json value = to_json value"

text \<open>\<open>Iterator::rposition\<close>.\<close>

fun rposition :: "('a \<Rightarrow> bool) \<Rightarrow> 'a list \<Rightarrow> nat option" where
  "rposition P [] = None"
| "rposition P (x # xs) = (case rposition P xs of
     Some i \<Rightarrow> Some (Suc i) | None \<Rightarrow> if P x then Some 0 else None)"

text \<open>\<open>usize::to_le_bytes\<close>.\<close>

definition le_bytes :: "nat \<Rightarrow> string" where
  "le_bytes n = map (\<lambda>i. char_of (n div 256 ^ i)) [0..<8]"

definition hash_input :: "(json \<Rightarrow> string) \<Rightarrow> cache_block list \<Rightarrow> string" where
  "hash_input to_json cacheable =
     concat (map (\<lambda>block. let encoded = stable_json to_json (cb_value block) in le_bytes (length encoded) @ encoded) cacheable)"

definition build_profile_with_tokens ::
  "(json \<Rightarrow> string) \<Rightarrow> (string \<Rightarrow> u8 list) \<Rightarrow> cache_block list \<Rightarrow> nat \<Rightarrow> nat \<Rightarrow> string \<Rightarrow> prompt_cache_profile option" where
  "build_profile_with_tokens to_json sha blocks total_tokens cacheable_tokens model =
     (case rposition (\<lambda>b. cb_ttl b \<noteq> None) blocks of
        None \<Rightarrow> None
      | Some last_breakpoint \<Rightarrow>
          (let cacheable = take (Suc last_breakpoint) blocks;
               tokens = min cacheable_tokens (f64_as_u64 (f_mul (Fin (of_nat total_tokens)) MAX_CACHE_RATIO));
               minimum = (if str_contains (to_ascii_lowercase model) ''opus'' then 4096 else 1024)
           in if tokens < minimum then None
              else Some \<lparr>pp_fingerprint = concat (map hex2 (sha (hash_input to_json cacheable))),
                pp_tokens = tokens,
                pp_ttl = (case rev (List.map_filter cb_ttl cacheable) of [] \<Rightarrow> DEFAULT_TTL | ttl # _ \<Rightarrow> ttl)\<rparr>))"

definition block_chars :: "(json \<Rightarrow> string) \<Rightarrow> cache_block list \<Rightarrow> nat" where
  "block_chars to_json blocks = sum_list (map (\<lambda>b. length (to_json (cb_value b))) blocks)"

definition build_profile ::
  "(json \<Rightarrow> string) \<Rightarrow> (string \<Rightarrow> u8 list) \<Rightarrow> cache_block list \<Rightarrow> nat \<Rightarrow> string \<Rightarrow> prompt_cache_profile option" where
  "build_profile to_json sha blocks total_tokens model =
     (case rposition (\<lambda>b. cb_ttl b \<noteq> None) blocks of
        None \<Rightarrow> None
      | Some last_breakpoint \<Rightarrow>
          (let cacheable_chars = block_chars to_json (take (Suc last_breakpoint) blocks);
               all_chars = max (block_chars to_json blocks) 1;
               estimated = f64_as_u64 (f_div (f_mul (Fin (of_nat total_tokens)) (Fin (of_nat cacheable_chars)))
                 (Fin (of_nat all_chars)))
           in build_profile_with_tokens to_json sha blocks total_tokens estimated model))"

definition claude_blocks :: "claude_request \<Rightarrow> cache_block list" where
  "claude_blocks request =
     append_opt (cq_system request)
     @ concat (map (\<lambda>tool. append_value (claude_tool_value tool))
         (filter (\<lambda>tool. \<not> ct_defer_loading tool) (cq_tools request)))
     @ concat (map (\<lambda>message. append_value (cm_content message)) (cq_messages request))"

definition claude_profile ::
  "(json \<Rightarrow> string) \<Rightarrow> (string \<Rightarrow> u8 list) \<Rightarrow> claude_request \<Rightarrow> nat \<Rightarrow> prompt_cache_profile option" where
  "claude_profile to_json sha request total_tokens =
     build_profile to_json sha (claude_blocks request) total_tokens (cq_model request)"

definition claude_compacted_profile ::
  "(json \<Rightarrow> string) \<Rightarrow> (string \<Rightarrow> u8 list) \<Rightarrow> (string \<Rightarrow> nat option) \<Rightarrow> claude_request \<Rightarrow> nat \<Rightarrow>
     prompt_cache_profile option" where
  "claude_compacted_profile to_json sha count request total_tokens =
     (let blocks = append_opt (cq_system request) in
      case rposition (\<lambda>b. cb_ttl b \<noteq> None) blocks of
        None \<Rightarrow> None
      | Some last_breakpoint \<Rightarrow>
          (let cacheable_text = join [CHR 0x0A]
                 (map (\<lambda>b. stable_json to_json (cb_value b)) (take (Suc last_breakpoint) blocks))
           in case count cacheable_text of
                None \<Rightarrow> None
              | Some cacheable_tokens \<Rightarrow>
                  build_profile_with_tokens to_json sha blocks total_tokens cacheable_tokens (cq_model request)))"

definition openai_blocks :: "openai_request \<Rightarrow> cache_block list" where
  "openai_blocks request =
     concat (map (\<lambda>tool. append_opt (openai_tool_value tool)) (oq_tools request))
     @ concat (map (\<lambda>message. append_opt (om_content message)) (oq_messages request))"

definition openai_profile ::
  "(json \<Rightarrow> string) \<Rightarrow> (string \<Rightarrow> u8 list) \<Rightarrow> openai_request \<Rightarrow> nat \<Rightarrow> prompt_cache_profile option" where
  "openai_profile to_json sha request total_tokens =
     build_profile to_json sha (openai_blocks request) total_tokens (oq_model request)"

section \<open>The tracker\<close>

record prompt_cache_plan =
  pl_profile :: "prompt_cache_profile option"
  pl_cache_read_tokens :: nat

record cache_entry =
  en_expires_at :: int
  en_ttl :: int

type_synonym account_entries = "(string, cache_entry) hmap"
type_synonym prompt_cache = "(string, account_entries) hmap"

definition prune_cache :: "int \<Rightarrow> prompt_cache \<Rightarrow> prompt_cache" where
  "prune_cache now entries =
     filter (\<lambda>(_, account). account \<noteq> [])
       (map (\<lambda>(a, account). (a, hm_retain (\<lambda>_ e. now < en_expires_at e) account)) entries)"

definition plan_cache ::
  "int \<Rightarrow> string \<Rightarrow> prompt_cache_profile option \<Rightarrow> prompt_cache \<Rightarrow> prompt_cache_plan \<times> prompt_cache" where
  "plan_cache now account_id profile entries =
     (case profile of
        None \<Rightarrow> (\<lparr>pl_profile = None, pl_cache_read_tokens = 0\<rparr>, entries)
      | Some p \<Rightarrow>
          (let entries' = prune_cache now entries;
               cache_hit = (case hm_get entries' account_id of
                 None \<Rightarrow> False | Some account \<Rightarrow> hm_contains account (pp_fingerprint p))
           in (\<lparr>pl_profile = Some p, pl_cache_read_tokens = (if cache_hit then pp_tokens p else 0)\<rparr>, entries')))"

definition commit_entry :: "int \<Rightarrow> prompt_cache_profile \<Rightarrow> nat \<Rightarrow> account_entries \<Rightarrow> account_entries" where
  "commit_entry now p cache_read_tokens account =
     (let fresh = hm_insert (pp_fingerprint p) \<lparr>en_expires_at = now + pp_ttl p, en_ttl = pp_ttl p\<rparr> account in
      if 0 < cache_read_tokens
      then case hm_get account (pp_fingerprint p) of
          Some e \<Rightarrow> hm_insert (pp_fingerprint p) (e\<lparr>en_expires_at := now + en_ttl e\<rparr>) account
        | None \<Rightarrow> fresh
      else fresh)"

definition evict_soonest :: "account_entries \<Rightarrow> account_entries" where
  "evict_soonest account =
     (if MAX_ENTRIES_PER_ACCOUNT < length account
      then case min_by_key (\<lambda>(_, e). en_expires_at e) account of
          Some (fingerprint, _) \<Rightarrow> hm_remove fingerprint account
        | None \<Rightarrow> account
      else account)"

definition commit_cache ::
  "int \<Rightarrow> string \<Rightarrow> prompt_cache_plan \<Rightarrow> usage_info \<Rightarrow> prompt_cache \<Rightarrow> usage_info \<times> prompt_cache" where
  "commit_cache now account_id plan usage entries =
     (case pl_profile plan of
        None \<Rightarrow> (usage, entries)
      | Some p \<Rightarrow>
          (let entries' = prune_cache now entries;
               account = unwrap_or (hm_get entries' account_id) []
           in (usage, hm_insert account_id
                 (evict_soonest (commit_entry now p (pl_cache_read_tokens plan) account)) entries')))"

definition apply_cache ::
  "int \<Rightarrow> int \<Rightarrow> string \<Rightarrow> prompt_cache_profile option \<Rightarrow> usage_info \<Rightarrow> prompt_cache \<Rightarrow> usage_info \<times> prompt_cache" where
  "apply_cache planned committed account_id profile usage entries =
     (let (plan, entries') = plan_cache planned account_id profile entries
      in commit_cache committed account_id plan usage entries')"

end
