(* ===== verification/PromptCacheCorrect.thy ===== *)
theory PromptCacheCorrect
  imports PromptCache
begin

text \<open>
  The prompt-cache tracker holds only what its own account committed, within its bound, and the
  fingerprint of a profile identifies the prefix up to the last breakpoint.
\<close>

section \<open>Pruning\<close>

lemma prune_cache_wf: "hm_wf entries \<Longrightarrow> hm_wf (prune_cache now entries)"
  by (simp add: prune_cache_def hm_wf_def distinct_map_filter comp_def split_beta)

lemma prune_cache_get:
  "hm_wf entries \<Longrightarrow> hm_get (prune_cache now entries) a =
     Option.bind (hm_get entries a)
       (\<lambda>account. opt_filter (\<lambda>m. m \<noteq> []) (Some (hm_retain (\<lambda>_ e. now < en_expires_at e) account)))"
proof (induction entries)
  case (Cons x entries)
  obtain k account where x: "x = (k, account)" by (cases x)
  have ih: "hm_get (prune_cache now entries) a = Option.bind (hm_get entries a)
       (\<lambda>account. opt_filter (\<lambda>m. m \<noteq> []) (Some (hm_retain (\<lambda>_ e. now < en_expires_at e) account)))"
    and new: "k \<notin> fst ` set entries"
    using Cons x by (simp_all add: hm_wf_def)
  then have "hm_get entries k = None" by (simp add: map_of_eq_None_iff)
  then show ?case using ih x by (auto simp: prune_cache_def opt_filter_def)
qed (simp add: prune_cache_def)

section \<open>What the tracker holds\<close>

datatype cache_op = Plan int string "prompt_cache_profile option" | Commit int string prompt_cache_plan usage_info

fun cache_step :: "cache_op \<Rightarrow> prompt_cache \<Rightarrow> prompt_cache" where
  "cache_step (Plan now a profile) entries = snd (plan_cache now a profile entries)"
| "cache_step (Commit now a plan usage) entries = snd (commit_cache now a plan usage entries)"

text \<open>The commits so far: the time, the account and the profile.\<close>

fun commits_of :: "cache_op \<Rightarrow> (int \<times> string \<times> prompt_cache_profile) list" where
  "commits_of (Commit now a plan usage) = (case pl_profile plan of Some p \<Rightarrow> [(now, a, p)] | None \<Rightarrow> [])"
| "commits_of _ = []"

definition entry_backed ::
  "(int \<times> string \<times> prompt_cache_profile) list \<Rightarrow> string \<Rightarrow> string \<Rightarrow> cache_entry \<Rightarrow> bool" where
  "entry_backed past a fingerprint e \<longleftrightarrow>
     (\<exists>t p q t'. (t, a, p) \<in> set past \<and> (t', a, q) \<in> set past \<and> pp_fingerprint p = fingerprint \<and>
        pp_fingerprint q = fingerprint \<and> en_expires_at e = t + pp_ttl q \<and> en_ttl e = pp_ttl q)"

definition account_inv :: "(int \<times> string \<times> prompt_cache_profile) list \<Rightarrow> string \<Rightarrow> account_entries \<Rightarrow> bool" where
  "account_inv past a account \<longleftrightarrow> hm_wf account \<and> length account \<le> MAX_ENTRIES_PER_ACCOUNT \<and>
     (\<forall>k e. hm_get account k = Some e \<longrightarrow> entry_backed past a k e)"

definition cache_inv :: "prompt_cache \<times> (int \<times> string \<times> prompt_cache_profile) list \<Rightarrow> bool" where
  "cache_inv = (\<lambda>(entries, past). hm_wf entries \<and>
     (\<forall>a account. hm_get entries a = Some account \<longrightarrow> account_inv past a account))"

definition cache_logged where
  "cache_logged op = (\<lambda>(entries, past). (cache_step op entries, past @ commits_of op))"

lemma entry_backed_mono: "entry_backed past a k e \<Longrightarrow> entry_backed (past @ later) a k e"
  unfolding entry_backed_def by fastforce

lemma account_inv_mono: "account_inv past a m \<Longrightarrow> account_inv (past @ later) a m"
  by (simp add: account_inv_def entry_backed_mono)

lemma account_inv_retain: "account_inv past a m \<Longrightarrow> account_inv past a (hm_retain P m)"
  using length_filter_le [of _ m]
  by (auto simp: account_inv_def hm_get_retain intro: order_trans split: option.splits if_splits)
     (simp add: hm_retain_def, meson length_filter_le order_trans)

lemma cache_inv_prune: "cache_inv (entries, past) \<Longrightarrow> cache_inv (prune_cache now entries, past)"
  by (auto simp: cache_inv_def prune_cache_wf prune_cache_get opt_filter_def account_inv_retain
      split: bind_splits if_splits)

lemma evict_soonest_spec:
  assumes "hm_wf m" and "length m \<le> Suc MAX_ENTRIES_PER_ACCOUNT"
  shows "hm_wf (evict_soonest m) \<and> length (evict_soonest m) \<le> MAX_ENTRIES_PER_ACCOUNT \<and>
    (\<forall>k e. hm_get (evict_soonest m) k = Some e \<longrightarrow> hm_get m k = Some e)"
proof (cases "min_by_key (\<lambda>(_, e). en_expires_at e) m")
  case None
  then show ?thesis using assms by (auto simp: evict_soonest_def min_by_key_None)
next
  case (Some x)
  obtain k e where x: "x = (k, e)" by (cases x)
  have "length (hm_remove k m) < length m" using min_by_key_in [OF Some] x by (auto intro: hm_remove_shorter)
  then show ?thesis using assms Some x by (auto simp: evict_soonest_def delete_conv' split: if_splits)
qed

lemma commit_entry_inv:
  assumes "account_inv past a m"
  shows "account_inv (past @ [(now, a, p)]) a (evict_soonest (commit_entry now p n m))"
proof -
  let ?m = "commit_entry now p n m" and ?past = "past @ [(now, a, p)]"
  have wf: "hm_wf ?m" and len: "length ?m \<le> Suc MAX_ENTRIES_PER_ACCOUNT"
    using assms by (auto simp: commit_entry_def Let_def account_inv_def hm_length_insert split: option.splits)
  have "entry_backed ?past a k e" if "hm_get ?m k = Some e" for k e
  proof (cases "k = pp_fingerprint p")
    case False
    then have "hm_get m k = Some e"
      using that by (auto simp: commit_entry_def Let_def update_conv' split: option.splits if_splits)
    then show ?thesis using assms by (simp add: account_inv_def entry_backed_mono)
  next
    case True
    show ?thesis
    proof (cases "0 < n \<and> hm_get m k \<noteq> None")
      case False
      then have "e = \<lparr>en_expires_at = now + pp_ttl p, en_ttl = pp_ttl p\<rparr>"
        using that True by (auto simp: commit_entry_def Let_def update_conv' split: option.splits if_splits)
      then show ?thesis using True by (auto simp: entry_backed_def)
    next
      case hit: True
      then obtain e0 where e0: "hm_get m k = Some e0" by auto
      then have e: "e = e0\<lparr>en_expires_at := now + en_ttl e0\<rparr>"
        using that True hit by (auto simp: commit_entry_def Let_def update_conv')
      from e0 assms obtain q t' where "(t', a, q) \<in> set past" "pp_fingerprint q = k" "en_ttl e0 = pp_ttl q"
        unfolding account_inv_def entry_backed_def by blast
      then show ?thesis using True e unfolding entry_backed_def by fastforce
    qed
  qed
  then show ?thesis using evict_soonest_spec [OF wf len] by (auto simp: account_inv_def)
qed

lemma cache_inv_step: "cache_inv s \<Longrightarrow> cache_inv (cache_logged op s)"
proof -
  assume inv: "cache_inv s"
  obtain entries past where s: "s = (entries, past)" by (cases s)
  note pruned = cache_inv_prune [OF inv [unfolded s]]
  show ?thesis
  proof (cases op)
    case (Plan now a profile)
    then show ?thesis using inv pruned by (simp add: s cache_logged_def plan_cache_def Let_def split: option.split)
  next
    case (Commit now a plan usage)
    show ?thesis
    proof (cases "pl_profile plan")
      case None
      then show ?thesis using inv Commit by (simp add: s cache_logged_def commit_cache_def)
    next
      case (Some p)
      let ?old = "unwrap_or (hm_get (prune_cache now entries) a) []"
      have "account_inv past a ?old" using pruned [of now]
        by (auto simp: cache_inv_def unwrap_or_def account_inv_def split: option.splits)
      from commit_entry_inv [OF this] pruned [of now] Commit Some show ?thesis
        by (auto simp: s cache_logged_def commit_cache_def Let_def cache_inv_def update_conv' account_inv_mono
            split: if_splits)
    qed
  qed
qed

interpretation prompt_cache: machine cache_logged "([], [])" cache_inv
  by unfold_locales (simp_all add: cache_inv_step, simp add: cache_inv_def)

lemma cache_run_inv: "cache_inv (fold cache_step ops [], concat (map commits_of ops))"
proof -
  have "fold cache_logged ops (entries, past) = (fold cache_step ops entries, past @ concat (map commits_of ops))"
    for entries past
    by (induction ops arbitrary: entries past) (simp_all add: cache_logged_def)
  then show ?thesis using prompt_cache.inv_run [of ops] by simp
qed

lemma plan_reads:
  assumes "hm_wf entries" and "\<And>m. hm_get entries a = Some m \<Longrightarrow> hm_wf m"
  shows "pl_cache_read_tokens (fst (plan_cache now a (Some p) entries)) =
    (if \<exists>m e. hm_get entries a = Some m \<and> hm_get m (pp_fingerprint p) = Some e \<and> now < en_expires_at e
     then pp_tokens p else 0)"
proof (cases "hm_get entries a")
  case None
  then show ?thesis using assms(1) by (simp add: plan_cache_def Let_def prune_cache_get)
next
  case (Some m)
  let ?live = "hm_retain (\<lambda>_ e. now < en_expires_at e) m"
  have "hm_get ?live (pp_fingerprint p) = opt_filter (\<lambda>e. now < en_expires_at e) (hm_get m (pp_fingerprint p))"
    using assms(2) [OF Some] by (simp add: hm_get_retain opt_filter_def split: option.split)
  then have "hm_contains ?live (pp_fingerprint p) \<longleftrightarrow> (\<exists>e. hm_get m (pp_fingerprint p) = Some e \<and> now < en_expires_at e)"
    by (auto simp: hm_contains_def opt_filter_def split: option.splits if_splits)
  moreover have "\<not> hm_contains ?live (pp_fingerprint p)" if "?live = []" using that by (simp add: hm_contains_def)
  ultimately show ?thesis using Some assms(1)
    by (auto simp: plan_cache_def Let_def prune_cache_get opt_filter_def split: if_splits)
qed

lemma commit_new_get:
  assumes "length (unwrap_or (hm_get (prune_cache now entries) a) []) < MAX_ENTRIES_PER_ACCOUNT"
  shows "\<exists>m. hm_get (snd (commit_cache now a \<lparr>pl_profile = Some p, pl_cache_read_tokens = 0\<rparr> usage entries)) a = Some m \<and>
    hm_get m (pp_fingerprint p) = Some \<lparr>en_expires_at = now + pp_ttl p, en_ttl = pp_ttl p\<rparr>"
  using assms
  by (simp add: commit_cache_def commit_entry_def evict_soonest_def Let_def update_conv' hm_length_insert)

text \<open>
  Steps that leave an entry of the account \<open>a\<close>, committed at \<open>t0\<close> for the profile \<open>p\<close>, in place: they
  come before its end; a commit of the account finds fewer than 200 entries alive, and one for the same
  fingerprint asks for no shorter lifetime.
\<close>

definition undisturbed :: "string \<Rightarrow> prompt_cache_profile \<Rightarrow> int \<Rightarrow> cache_op \<Rightarrow> prompt_cache \<Rightarrow> bool" where
  "undisturbed a p t0 op entries \<longleftrightarrow> (case op of
     Plan t b profile \<Rightarrow> t < t0 + pp_ttl p
   | Commit t b plan usage \<Rightarrow> t0 \<le> t \<and> t < t0 + pp_ttl p \<and>
       (b = a \<longrightarrow> length (unwrap_or (hm_get (prune_cache t entries) a) []) < 200 \<and>
         (case pl_profile plan of None \<Rightarrow> True
          | Some q \<Rightarrow> pp_fingerprint q = pp_fingerprint p \<longrightarrow> pp_ttl p \<le> pp_ttl q)))"

definition entry_alive :: "string \<Rightarrow> prompt_cache_profile \<Rightarrow> int \<Rightarrow> prompt_cache \<Rightarrow> bool" where
  "entry_alive a p t0 entries \<longleftrightarrow> (\<exists>m e. hm_get entries a = Some m \<and> hm_get m (pp_fingerprint p) = Some e \<and>
     t0 + pp_ttl p \<le> en_expires_at e \<and> pp_ttl p \<le> en_ttl e)"

lemma entry_alive_prune:
  assumes "entry_alive a p t0 entries" and "hm_wf entries" and "\<And>m. hm_get entries a = Some m \<Longrightarrow> hm_wf m"
    and "t < t0 + pp_ttl p"
  shows "entry_alive a p t0 (prune_cache t entries)"
proof -
  obtain m e where m: "hm_get entries a = Some m" "hm_get m (pp_fingerprint p) = Some e"
    "t0 + pp_ttl p \<le> en_expires_at e" "pp_ttl p \<le> en_ttl e"
    using assms(1) by (auto simp: entry_alive_def)
  let ?live = "hm_retain (\<lambda>_ e. t < en_expires_at e) m"
  have e: "hm_get ?live (pp_fingerprint p) = Some e"
    using m assms(3) [OF m(1)] assms(4) by (simp add: hm_get_retain)
  then have "?live \<noteq> []" by auto
  then have "hm_get (prune_cache t entries) a = Some ?live"
    using m(1) by (simp add: prune_cache_get [OF assms(2)] opt_filter_def)
  with e m(3,4) show ?thesis unfolding entry_alive_def by blast
qed

lemma entry_alive_commit:
  assumes "entry_alive a p t0 entries" and "length (unwrap_or (hm_get entries a) []) < 200" and "t0 \<le> t"
    and "pp_fingerprint q = pp_fingerprint p \<Longrightarrow> pp_ttl p \<le> pp_ttl q"
  shows "entry_alive a p t0 (hm_insert a (evict_soonest (commit_entry t q n (unwrap_or (hm_get entries a) []))) entries)"
proof -
  obtain m e where m: "hm_get entries a = Some m" "hm_get m (pp_fingerprint p) = Some e"
    "t0 + pp_ttl p \<le> en_expires_at e" "pp_ttl p \<le> en_ttl e"
    using assms(1) by (auto simp: entry_alive_def)
  have "length (commit_entry t q n m) \<le> MAX_ENTRIES_PER_ACCOUNT"
    using assms(2) m(1) by (auto simp: commit_entry_def Let_def hm_length_insert MAX_ENTRIES_PER_ACCOUNT_def split: option.split)
  then have "evict_soonest (commit_entry t q n m) = commit_entry t q n m" by (simp add: evict_soonest_def)
  moreover have "\<exists>e'. hm_get (commit_entry t q n m) (pp_fingerprint p) = Some e' \<and>
      t0 + pp_ttl p \<le> en_expires_at e' \<and> pp_ttl p \<le> en_ttl e'"
    using m(2-4) assms(3,4) by (auto simp: commit_entry_def Let_def update_conv' split: option.split)
  ultimately show ?thesis using m(1) by (simp add: entry_alive_def update_conv')
qed

lemma entry_alive_step:
  assumes "cache_inv (entries, past)" and "entry_alive a p t0 entries" and "undisturbed a p t0 op entries"
  shows "entry_alive a p t0 (cache_step op entries)"
proof -
  have wf: "hm_wf entries" "\<And>m. hm_get entries a = Some m \<Longrightarrow> hm_wf m"
    using assms(1) by (simp_all add: cache_inv_def account_inv_def)
  have pruned: "entry_alive a p t0 (prune_cache t entries)" if "t < t0 + pp_ttl p" for t
    using entry_alive_prune [OF assms(2) wf(1) _ that] wf(2) by blast
  show ?thesis
  proof (cases op)
    case (Plan t b profile)
    then show ?thesis
      using assms(2,3) pruned [of t] by (auto simp: undisturbed_def plan_cache_def Let_def split: option.split)
  next
    case (Commit t b plan usage)
    then have t: "t0 \<le> t" "t < t0 + pp_ttl p" using assms(3) by (simp_all add: undisturbed_def)
    show ?thesis
    proof (cases "pl_profile plan")
      case None
      then show ?thesis using Commit assms(2) by (simp add: commit_cache_def)
    next
      case (Some q)
      then have step: "cache_step op entries = hm_insert b (evict_soonest (commit_entry t q (pl_cache_read_tokens plan)
          (unwrap_or (hm_get (prune_cache t entries) b) []))) (prune_cache t entries)"
        using Commit by (simp add: commit_cache_def Let_def)
      show ?thesis
      proof (cases "b = a")
        case True
        then show ?thesis
          unfolding step using assms(3) Commit Some t by (auto simp: undisturbed_def intro!: entry_alive_commit pruned)
      next
        case False
        then show ?thesis unfolding step using pruned [OF t(2)] by (simp add: entry_alive_def update_conv')
      qed
    qed
  qed
qed

lemma entry_alive_run:
  assumes "cache_inv (entries, past)" and "entry_alive a p t0 entries" and "allowed_run (undisturbed a p t0) cache_step later entries"
  shows "entry_alive a p t0 (fold cache_step later entries) \<and> (\<exists>past'. cache_inv (fold cache_step later entries, past'))"
  using assms
proof (induction later arbitrary: entries past)
  case (Cons op later)
  have "cache_inv (cache_step op entries, past @ commits_of op)"
    using cache_inv_step [OF Cons.prems(1), of op] by (simp add: cache_logged_def)
  moreover have "entry_alive a p t0 (cache_step op entries)"
    using Cons.prems by (intro entry_alive_step) simp_all
  ultimately show ?case using Cons.IH Cons.prems(3) by simp
qed auto

lemma entry_alive_reads:
  assumes "cache_inv (entries, past)" and "entry_alive a p t0 entries" and "now < t0 + pp_ttl p"
  shows "pl_cache_read_tokens (fst (plan_cache now a (Some p) entries)) = pp_tokens p"
proof -
  have wf: "hm_wf entries" "\<And>m. hm_get entries a = Some m \<Longrightarrow> hm_wf m"
    using assms(1) by (simp_all add: cache_inv_def account_inv_def)
  have "\<exists>m e. hm_get entries a = Some m \<and> hm_get m (pp_fingerprint p) = Some e \<and> now < en_expires_at e"
    using assms(2,3) by (fastforce simp: entry_alive_def)
  then show ?thesis using plan_reads [of entries a now p] wf by simp
qed

section \<open>What a fingerprint stands for\<close>

definition cacheable_prefix :: "cache_block list \<Rightarrow> cache_block list" where
  "cacheable_prefix blocks = rev (dropWhile (\<lambda>b. cb_ttl b = None) (rev blocks))"

lemma rposition_spec:
  "rposition P xs = (if filter P xs = [] then None else Some (length (rev (dropWhile (Not \<circ> P) (rev xs))) - 1))"
proof (induction xs)
  case (Cons x xs)
  have "dropWhile (Not \<circ> P) (rev xs) = [] \<longleftrightarrow> filter P xs = []"
    by (auto simp: dropWhile_eq_Nil_conv filter_empty_conv)
  then show ?case using Cons by (auto simp: dropWhile_append filter_empty_conv)
qed simp

lemma rposition_cacheable:
  assumes "rposition (\<lambda>b. cb_ttl b \<noteq> None) blocks = Some i"
  shows "take (Suc i) blocks = cacheable_prefix blocks \<and> cacheable_prefix blocks \<noteq> [] \<and>
    cb_ttl (last (cacheable_prefix blocks)) \<noteq> None"
proof -
  let ?p = "rev (dropWhile (\<lambda>b. cb_ttl b = None) (rev blocks))"
  have eq: "blocks = ?p @ rev (takeWhile (\<lambda>b. cb_ttl b = None) (rev blocks))"
    by (metis rev_append rev_rev_ident takeWhile_dropWhile_id)
  have i: "i = length ?p - 1" and some: "\<exists>b \<in> set blocks. cb_ttl b \<noteq> None"
    using assms by (auto simp: rposition_spec comp_def filter_empty_conv split: if_splits)
  then have ne: "?p \<noteq> []" by (auto simp: dropWhile_eq_Nil_conv)
  then have "take (Suc i) blocks = ?p" using i eq by (metis Suc_pred' append_eq_conv_conj length_greater_0_conv)
  moreover have "cb_ttl (last ?p) \<noteq> None" using ne hd_dropWhile [of "\<lambda>b. cb_ttl b = None" "rev blocks"] by (simp add: last_rev)
  ultimately show ?thesis using ne by (simp add: cacheable_prefix_def)
qed

text \<open>The digest's input is uniquely decodable: every block is preceded by its length.\<close>

lemma length_le_bytes [simp]: "length (le_bytes n) = 8"
  by (simp add: le_bytes_def)

lemma digits_determine:
  "(\<And>i. i < k \<Longrightarrow> m div 256 ^ i mod 256 = n div 256 ^ i mod (256::nat)) \<Longrightarrow> m mod 256 ^ k = n mod 256 ^ k"
  by (induction k) (simp_all add: power_Suc2 mod_mult2_eq del: power_Suc)

lemma le_bytes_inj:
  assumes "m < 2 ^ 64" "n < 2 ^ 64" "le_bytes m = le_bytes n"
  shows "m = n"
proof -
  have "m div 256 ^ i mod 256 = n div 256 ^ i mod 256" if "i < 8" for i
  proof -
    have "char_of (m div 256 ^ i) = (char_of (n div 256 ^ i) :: char)"
      using assms(3) that by (simp add: le_bytes_def map_eq_conv del: upt_Suc)
    from arg_cong [OF this, of byte] show ?thesis by (simp add: byte_def)
  qed
  then have "m mod 256 ^ 8 = n mod 256 ^ 8" by (rule digits_determine)
  then show ?thesis using assms(1,2) by simp
qed

lemma hash_input_inj:
  assumes "\<forall>b \<in> set xs \<union> set ys. length (stable_json to_json (cb_value b)) < 2 ^ 64"
    and "hash_input to_json xs = hash_input to_json ys"
  shows "map (\<lambda>b. stable_json to_json (cb_value b)) xs = map (\<lambda>b. stable_json to_json (cb_value b)) ys"
  using assms
proof (induction xs arbitrary: ys)
  case Nil
  then show ?case by (cases ys) (auto simp: hash_input_def Let_def le_bytes_def)
next
  case (Cons x xs)
  obtain y ys' where ys: "ys = y # ys'"
    using Cons.prems(2) by (cases ys) (auto simp: hash_input_def Let_def le_bytes_def)
  let ?e = "\<lambda>b. stable_json to_json (cb_value b)"
  have eq: "le_bytes (length (?e x)) @ ?e x @ hash_input to_json xs = le_bytes (length (?e y)) @ ?e y @ hash_input to_json ys'"
    using Cons.prems(2) ys by (simp add: hash_input_def Let_def)
  then have "le_bytes (length (?e x)) = le_bytes (length (?e y))" and rest: "?e x @ hash_input to_json xs = ?e y @ hash_input to_json ys'"
    by (simp_all add: append_eq_append_conv)
  then have "length (?e x) = length (?e y)" using Cons.prems(1) ys by (intro le_bytes_inj) auto
  with rest have "?e x = ?e y" "hash_input to_json xs = hash_input to_json ys'" by (simp_all add: append_eq_append_conv)
  then show ?case using Cons.IH [of ys'] Cons.prems(1) ys by simp
qed

lemma hash_input_cong:
  assumes "map (\<lambda>b. stable_json to_json (cb_value b)) xs = map (\<lambda>b. stable_json to_json (cb_value b)) ys"
  shows "hash_input to_json xs = hash_input to_json ys"
proof -
  have "hash_input to_json zs = concat (map (\<lambda>e. le_bytes (length e) @ e) (map (\<lambda>b. stable_json to_json (cb_value b)) zs))"
    for zs by (simp add: hash_input_def Let_def comp_def)
  then show ?thesis using assms by (simp only:)
qed

lemma hex_digit_inj: "m < 16 \<Longrightarrow> n < 16 \<Longrightarrow> hex_digit m = hex_digit n \<Longrightarrow> m = n"
  by (drule arg_cong [of _ _ byte]) (simp add: byte_def hex_digit_def split: if_splits)

lemma hex2_inj: "hex2 a = hex2 b \<Longrightarrow> a = b"
proof -
  assume "hex2 a = hex2 b"
  moreover have "unat a < 256" "unat b < 256" using unsigned_less [of a] unsigned_less [of b] by simp_all
  ultimately have "unat a div 16 = unat b div 16" "unat a mod 16 = unat b mod 16"
    by (auto simp: hex2_def intro!: hex_digit_inj)
  then show "a = b" by (metis div_mult_mod_eq word_unat_eq_iff)
qed

lemma hex_inj: "concat (map hex2 xs) = concat (map hex2 ys) \<Longrightarrow> xs = ys"
proof (induction xs arbitrary: ys)
  case (Cons x xs)
  obtain y ys' where ys: "ys = y # ys'" using Cons.prems by (cases ys) (auto simp: hex2_def)
  have "hex2 x = hex2 y" "concat (map hex2 xs) = concat (map hex2 ys')"
    using Cons.prems append_eq_append_conv [of "hex2 x" "hex2 y"] by (simp_all add: ys hex2_def [of x] hex2_def [of y])
  then show ?case using Cons.IH hex2_inj ys by simp
next
  case Nil
  then show ?case by (cases ys) (auto simp: hex2_def)
qed

lemma share_bound: "f64_as_u64 (f_mul (Fin (of_nat n)) MAX_CACHE_RATIO) * 100 \<le> 85 * n"
proof -
  have "of_nat (nat \<lfloor>of_nat n * (85 / 100 :: rat)\<rfloor>) \<le> of_nat n * (85 / 100 :: rat)"
    by (intro of_nat_floor) simp
  then have "of_nat (nat \<lfloor>of_nat n * (85 / 100 :: rat)\<rfloor> * 100) \<le> (of_nat (85 * n) :: rat)"
    by simp
  then have "nat \<lfloor>of_nat n * (85 / 100 :: rat)\<rfloor> * 100 \<le> 85 * n" by (simp only: of_nat_le_iff)
  then show ?thesis by (simp add: MAX_CACHE_RATIO_def min_def)
qed

lemma build_profile_Some:
  assumes "build_profile to_json sha blocks n model = Some p"
  shows "pp_fingerprint p = concat (map hex2 (sha (hash_input to_json (cacheable_prefix blocks)))) \<and>
    1024 \<le> pp_tokens p \<and> pp_tokens p * 100 \<le> 85 * n \<and> cacheable_prefix blocks \<noteq> [] \<and>
    cb_ttl (last (cacheable_prefix blocks)) = Some (pp_ttl p)"
proof -
  obtain i k where i: "rposition (\<lambda>b. cb_ttl b \<noteq> None) blocks = Some i"
    and b: "build_profile_with_tokens to_json sha blocks n k model = Some p"
    using assms by (auto simp: build_profile_def Let_def split: option.splits)
  let ?c = "cacheable_prefix blocks"
  have c: "take (Suc i) blocks = ?c" "?c \<noteq> []" "cb_ttl (last ?c) \<noteq> None" using rposition_cacheable [OF i] by auto
  have p: "pp_fingerprint p = concat (map hex2 (sha (hash_input to_json ?c)))" "1024 \<le> pp_tokens p"
    "pp_tokens p \<le> f64_as_u64 (f_mul (Fin (of_nat n)) MAX_CACHE_RATIO)"
    "pp_ttl p = (case rev (List.map_filter cb_ttl ?c) of [] \<Rightarrow> DEFAULT_TTL | ttl # _ \<Rightarrow> ttl)"
    using b i c(1) by (auto simp: build_profile_with_tokens_def Let_def min_def split: if_splits)
  have "List.map_filter cb_ttl (butlast ?c @ [last ?c]) = List.map_filter cb_ttl (butlast ?c) @ [the (cb_ttl (last ?c))]"
    using c(3) by (auto simp: map_filter_def)
  then have "cb_ttl (last ?c) = Some (pp_ttl p)" using c(2,3) p(4) by (simp add: append_butlast_last_id)
  with p c show ?thesis using share_bound [of n] by (meson le_trans mult_le_mono1)
qed

section \<open>Properties\<close>

text \<open>C37: The tracker remembers exactly what an account committed. After any sequence of plans and commits
  at any times, no account has more than 200 entries. A plan that expects a cache read rests on a commit
  of the same fingerprint by the same account whose lifetime, one that this account committed for the
  fingerprint, is not over; nothing another account committed counts. A commit that starts a new entry, made
  while fewer than 200 entries of the account are alive, is found again by every plan of that account within
  its lifetime, whatever plans and commits of any accounts come in between before its end, as long as
  the account's own commits among them also find fewer than 200 entries alive and those of the same
  fingerprint ask for no shorter lifetime. The usage the upstream reported is never touched.\<close>

theorem prompt_cache_hits_own_commits:
  fixes ops a p now usage
  defines "entries \<equiv> fold cache_step ops []" and "past \<equiv> concat (map commits_of ops)"
    and "committed \<equiv> cache_step (Commit now a \<lparr>pl_profile = Some p, pl_cache_read_tokens = 0\<rparr> usage) (fold cache_step ops [])"
  shows "(hm_get entries b = Some account \<longrightarrow> length account \<le> 200) \<and>
    (0 < pl_cache_read_tokens (fst (plan_cache now a (Some p) entries)) \<longrightarrow>
      (\<exists>t q t' q'. (t, a, q) \<in> set past \<and> (t', a, q') \<in> set past \<and> pp_fingerprint q = pp_fingerprint p \<and>
        pp_fingerprint q' = pp_fingerprint p \<and> now < t + pp_ttl q')) \<and>
    (length (unwrap_or (hm_get (prune_cache now entries) a) []) < 200
      \<and> allowed_run (undisturbed a p now) cache_step later committed \<and> now' < now + pp_ttl p \<longrightarrow>
      pl_cache_read_tokens (fst (plan_cache now' a (Some p) (fold cache_step later committed))) = pp_tokens p) \<and>
    fst (commit_cache now a plan usage entries) = usage"
proof -
  have inv: "cache_inv (entries, past)" unfolding entries_def past_def by (rule cache_run_inv)
  then have bounded: "hm_get entries b = Some account \<Longrightarrow> length account \<le> 200" for b account
    by (simp add: cache_inv_def account_inv_def MAX_ENTRIES_PER_ACCOUNT_def)
  have wf: "hm_wf entries" "\<And>m. hm_get entries a = Some m \<Longrightarrow> hm_wf m"
    using inv by (simp_all add: cache_inv_def account_inv_def)
  have hits: "\<exists>t q t' q'. (t, a, q) \<in> set past \<and> (t', a, q') \<in> set past \<and> pp_fingerprint q = pp_fingerprint p \<and>
      pp_fingerprint q' = pp_fingerprint p \<and> now < t + pp_ttl q'"
    if hit: "0 < pl_cache_read_tokens (fst (plan_cache now a (Some p) entries))"
  proof -
    obtain m e where m: "hm_get entries a = Some m" "hm_get m (pp_fingerprint p) = Some e" "now < en_expires_at e"
      using hit by (auto simp: plan_reads [OF wf] split: if_splits)
    with inv have "entry_backed past a (pp_fingerprint p) e" by (auto simp: cache_inv_def account_inv_def)
    then show ?thesis using m(3) unfolding entry_backed_def by fastforce
  qed
  have next_inv: "\<exists>past'. cache_inv (committed, past')"
    using cache_inv_step [OF inv, of "Commit now a \<lparr>pl_profile = Some p, pl_cache_read_tokens = 0\<rparr> usage"]
    unfolding committed_def entries_def by (auto simp: cache_logged_def)
  have found: "pl_cache_read_tokens (fst (plan_cache now' a (Some p) (fold cache_step later committed))) = pp_tokens p"
    if c: "length (unwrap_or (hm_get (prune_cache now entries) a) []) < 200"
      "allowed_run (undisturbed a p now) cache_step later committed" "now' < now + pp_ttl p"
  proof -
    have "entry_alive a p now committed"
      using commit_new_get [of now entries a p usage] c(1) unfolding committed_def entries_def
      by (auto simp: entry_alive_def MAX_ENTRIES_PER_ACCOUNT_def)
    then show ?thesis using entry_alive_run [OF _ _ c(2)] entry_alive_reads [OF _ _ c(3)] next_inv by blast
  qed
  have "fst (commit_cache now a plan usage entries) = usage"
    by (simp add: commit_cache_def Let_def split: option.split)
  with bounded hits found show ?thesis by blast
qed

text \<open>C38: The fingerprint of a cache profile stands for the request's prefix. A profile exists only with a
  breakpoint; it counts at least 1024 and at most 85 per cent of the request's tokens and lives as long as
  the last breakpoint says. If SHA-256 does not collide on the two inputs, two requests have the same
  fingerprint exactly when their blocks up to the last breakpoint have the same stable encodings, block
  by block: no two different divisions into blocks are confused, and nothing after the breakpoint counts.\<close>

theorem fingerprint_identifies_prefix:
  fixes r r' to_json
  defines "prefix_of \<equiv> \<lambda>r. cacheable_prefix (claude_blocks r)"
    and "encodings \<equiv> map (\<lambda>b. stable_json to_json (cb_value b))"
  assumes "claude_profile to_json sha r n = Some p" and "claude_profile to_json sha r' n' = Some p'"
    and "\<forall>e \<in> set (encodings (prefix_of r) @ encodings (prefix_of r')). length e < 2 ^ 64"
    and "sha (hash_input to_json (prefix_of r)) = sha (hash_input to_json (prefix_of r')) \<longrightarrow>
      hash_input to_json (prefix_of r) = hash_input to_json (prefix_of r')"
  shows "(pp_fingerprint p = pp_fingerprint p' \<longleftrightarrow> encodings (prefix_of r) = encodings (prefix_of r')) \<and>
    1024 \<le> pp_tokens p \<and> pp_tokens p * 100 \<le> 85 * n \<and> cb_ttl (last (prefix_of r)) = Some (pp_ttl p)"
proof -
  note p = build_profile_Some [OF assms(3) [unfolded claude_profile_def]]
  note p' = build_profile_Some [OF assms(4) [unfolded claude_profile_def]]
  have "encodings (prefix_of r) = encodings (prefix_of r')"
    if "hash_input to_json (prefix_of r) = hash_input to_json (prefix_of r')"
    unfolding encodings_def by (rule hash_input_inj) (use that assms(5) in \<open>auto simp: encodings_def\<close>)
  moreover have "hash_input to_json (prefix_of r) = hash_input to_json (prefix_of r')"
    if "encodings (prefix_of r) = encodings (prefix_of r')"
    by (rule hash_input_cong) (use that in \<open>simp add: encodings_def\<close>)
  ultimately show ?thesis using p p' hex_inj assms(6) unfolding prefix_of_def by metis
qed

section \<open>Witnesses\<close>

definition demo_profile :: prompt_cache_profile where
  "demo_profile = \<lparr>pp_fingerprint = ''ab'', pp_tokens = 2000, pp_ttl = DEFAULT_TTL\<rparr>"

definition other_profile :: prompt_cache_profile where
  "other_profile = \<lparr>pp_fingerprint = ''cd'', pp_tokens = 3000, pp_ttl = DEFAULT_TTL\<rparr>"

theorem prompt_cache_hits_own_commits_witness:
  "pl_cache_read_tokens (fst (plan_cache 100 ''me'' (Some demo_profile)
     (fold cache_step [Commit 20 ''me'' \<lparr>pl_profile = Some other_profile, pl_cache_read_tokens = 0\<rparr> usage_info_default,
         Plan 50 ''you'' (Some demo_profile)]
       (cache_step (Commit 7 ''me'' \<lparr>pl_profile = Some demo_profile, pl_cache_read_tokens = 0\<rparr> usage_info_default)
         (fold cache_step [Plan 3 ''me'' (Some demo_profile)] []))))) = 2000"
proof -
  let ?committed = "cache_step (Commit 7 ''me'' \<lparr>pl_profile = Some demo_profile, pl_cache_read_tokens = 0\<rparr> usage_info_default)
    (fold cache_step [Plan 3 ''me'' (Some demo_profile)] [])"
  let ?later = "[Commit 20 ''me'' \<lparr>pl_profile = Some other_profile, pl_cache_read_tokens = 0\<rparr> usage_info_default,
         Plan 50 ''you'' (Some demo_profile)]"
  have "allowed_run (undisturbed ''me'' demo_profile 7) cache_step ?later ?committed"
    by (simp add: undisturbed_def plan_cache_def commit_cache_def commit_entry_def evict_soonest_def prune_cache_def
        unwrap_or_def demo_profile_def other_profile_def DEFAULT_TTL_def MAX_ENTRIES_PER_ACCOUNT_def hm_retain_def Let_def)
  moreover have "length (unwrap_or (hm_get (prune_cache 7 (fold cache_step [Plan 3 ''me'' (Some demo_profile)] [])) ''me'') []) < 200"
    by (simp add: plan_cache_def prune_cache_def unwrap_or_def)
  moreover have "100 < 7 + pp_ttl demo_profile" by (simp add: demo_profile_def DEFAULT_TTL_def)
  ultimately have "pl_cache_read_tokens (fst (plan_cache 100 ''me'' (Some demo_profile) (fold cache_step ?later ?committed)))
      = pp_tokens demo_profile"
    using prompt_cache_hits_own_commits [where ops = "[Plan 3 ''me'' (Some demo_profile)]" and p = demo_profile and now = 7
        and now' = 100 and a = "''me''" and usage = usage_info_default and later = ?later] by blast
  then show ?thesis by (simp only: demo_profile_def prompt_cache_profile.simps)
qed

definition demo_to_json :: "json \<Rightarrow> string" where
  "demo_to_json v = (case v of JString t \<Rightarrow> t | _ \<Rightarrow> ''0'')"

definition demo_sha :: "string \<Rightarrow> u8 list" where
  "demo_sha t = map (\<lambda>c. of_nat (byte c)) t"

definition demo_claude :: "string \<Rightarrow> claude_request" where
  "demo_claude t = \<lparr>cq_model = ''claude-sonnet-4'', cq_messages = [], cq_max_tokens = 128, cq_temperature = None, cq_top_p = None,
     cq_top_k = None, cq_stop_sequences = [], cq_stream = False,
     cq_system = Some (JArray [JObject [(''cache_control'', JObject [(''type'', JString ''ephemeral'')]), (''text'', JString t)]]),
     cq_tools = [], cq_tool_choice = None, cq_thinking = None, cq_output_config = None, cq_cache_control = None,
     cq_service_tier = None, cq_metadata = None, cq_conversation_id = None, cq_context_management = None, cq_extra = []\<rparr>"

lemma demo_model: "cq_model (demo_claude t) = ''claude-sonnet-4''"
  by (simp add: demo_claude_def)

lemma demo_blocks:
  "claude_blocks (demo_claude t) = [\<lparr>cb_value = JObject [(''cache_control'', JObject [(''type'', JString ''ephemeral'')]), (''text'', JString t)],
     cb_ttl = Some DEFAULT_TTL\<rparr>]"
  by (simp add: claude_blocks_def demo_claude_def append_opt_def cache_ttl_def get_str_def)

lemma demo_profile_of:
  "claude_profile demo_to_json demo_sha (demo_claude t) 8000 =
     Some \<lparr>pp_fingerprint = concat (map hex2 (demo_sha (hash_input demo_to_json (claude_blocks (demo_claude t))))),
       pp_tokens = 6800, pp_ttl = DEFAULT_TTL\<rparr>"
  by (simp add: claude_profile_def build_profile_def build_profile_with_tokens_def demo_blocks block_chars_def demo_to_json_def
      MAX_CACHE_RATIO_def usize_max_def map_filter_def demo_model ascii_simps)

theorem fingerprint_identifies_prefix_witness:
  "pp_fingerprint (the (claude_profile demo_to_json demo_sha (demo_claude ''a'') 8000)) \<noteq>
     pp_fingerprint (the (claude_profile demo_to_json demo_sha (demo_claude ''b'') 8000))"
proof -
  let ?enc = "\<lambda>t. map (\<lambda>b. stable_json demo_to_json (cb_value b)) (cacheable_prefix (claude_blocks (demo_claude t)))"
  have enc: "?enc t = [''{cache_control:{type:ephemeral},text:'' @ t @ ''}'']" for t
    by (simp add: cacheable_prefix_def demo_blocks sort_by_def demo_to_json_def ascii_simps cmp_nat_def)
  have "inj (\<lambda>c. of_nat (byte c) :: u8)"
  proof (rule injI)
    fix x y assume "(of_nat (byte x) :: u8) = of_nat (byte y)"
    then have "unat (of_nat (byte x) :: u8) = unat (of_nat (byte y) :: u8)" by simp
    then have "byte x = byte y" by (simp add: unat_of_nat byte_def)
    then show "x = y" by (simp add: byte_def)
  qed
  then have "inj demo_sha" unfolding demo_sha_def [abs_def] by (rule inj_mapI)
  then show ?thesis
    using fingerprint_identifies_prefix [OF demo_profile_of [of "''a''"] demo_profile_of [of "''b''"]]
    unfolding enc demo_profile_of by (auto dest: injD)
qed

end
