(* ===== verification/ContextEdits.thy ===== *)
theory ContextEdits
  imports Requests
begin

text \<open>
  \<open>crates/kproxy-translate/src/context.rs\<close>: Claude's context management, applied before translation.
  \<open>encoded_len\<close> is the length of \<open>serde_json::to_vec\<close> of a request, which may fail. A loop over
  \<open>iter_mut().rev()\<close> is \<^const>\<open>walk_rev\<close>.
\<close>

definition DEFAULT_COMPACT_TRIGGER_TOKENS :: nat where
  "DEFAULT_COMPACT_TRIGGER_TOKENS = 150000"

definition DEFAULT_TOOL_CLEAR_TRIGGER_TOKENS :: nat where
  "DEFAULT_TOOL_CLEAR_TRIGGER_TOKENS = 100000"

definition DEFAULT_TOOL_USES_TO_KEEP :: nat where
  "DEFAULT_TOOL_USES_TO_KEEP = 3"

definition CLEARED_TOOL_RESULT_TEXT :: string where
  "CLEARED_TOOL_RESULT_TEXT = ''[Older tool result omitted by Claude context management.]''"

definition edits_changed :: "claude_context_edit_stats \<Rightarrow> bool" where
  "edits_changed s \<longleftrightarrow> 0 < ce_cleared_tool_results s \<or> 0 < ce_cleared_tool_inputs s \<or> 0 < ce_cleared_thinking_turns s"

definition cleared_input_tokens :: "claude_context_edit_stats \<Rightarrow> nat" where
  "cleared_input_tokens s = sat_add (ce_cleared_tool_input_tokens s) (ce_cleared_thinking_input_tokens s)"

text \<open>\<open>div_ceil(4)\<close>\<close>

definition estimate_context_management_input_tokens :: "(claude_request \<Rightarrow> nat option) \<Rightarrow> claude_request \<Rightarrow> nat" where
  "estimate_context_management_input_tokens encoded_len request =
     max 1 (case encoded_len request of Some n \<Rightarrow> (n + 3) div 4 | None \<Rightarrow> 1)"

definition is_compact_edit_type :: "string \<Rightarrow> bool" where
  "is_compact_edit_type edit_type = starts_with edit_type ''compact_''"

section \<open>Plans\<close>

definition block_type :: "json \<Rightarrow> string option" where
  "block_type b = get_str b ''type''"

definition edits_of :: "json option \<Rightarrow> json list option" where
  "edits_of context_management =
     Option.bind context_management (\<lambda>v. Option.bind (v_get v ''edits'') as_array)"

definition find_edit :: "(string \<Rightarrow> bool) \<Rightarrow> json option \<Rightarrow> json option" where
  "find_edit P context_management =
     Option.bind (edits_of context_management) (find (\<lambda>edit. case block_type edit of Some kind \<Rightarrow> P kind | None \<Rightarrow> False))"

definition compact_trigger_tokens :: "json option \<Rightarrow> nat option" where
  "compact_trigger_tokens context_management =
     map_option (\<lambda>edit. unwrap_or (Option.bind (v_pointer [''trigger'', ''value''] edit) as_u64) DEFAULT_COMPACT_TRIGGER_TOKENS)
       (find_edit is_compact_edit_type context_management)"

definition has_context_management_edits :: "json option \<Rightarrow> bool" where
  "has_context_management_edits context_management =
     (case edits_of context_management of Some edits \<Rightarrow> edits \<noteq> [] | None \<Rightarrow> False)"

datatype clear_tool_inputs_plan = ClearNone | ClearAll | ClearSelected "string list"

fun plan_includes :: "clear_tool_inputs_plan \<Rightarrow> string option \<Rightarrow> bool" where
  "plan_includes ClearNone used_name = False"
| "plan_includes ClearAll used_name = True"
| "plan_includes (ClearSelected names) used_name = (case used_name of Some name \<Rightarrow> name \<in> set names | None \<Rightarrow> False)"

datatype clear_tool_uses_trigger = InputTokens nat | ToolUses nat

fun activated :: "clear_tool_uses_trigger \<Rightarrow> nat \<Rightarrow> nat \<Rightarrow> bool" where
  "activated (InputTokens value) input_tokens tool_uses \<longleftrightarrow> value \<le> input_tokens"
| "activated (ToolUses value) input_tokens tool_uses \<longleftrightarrow> value \<le> tool_uses"

record clear_tool_uses_plan =
  tu_edit_type :: string
  tu_trigger :: clear_tool_uses_trigger
  tu_keep :: nat
  tu_clear_at_least :: "nat option"
  tu_exclude_tools :: "string list"
  tu_clear_tool_inputs :: clear_tool_inputs_plan

record clear_thinking_plan =
  th_edit_type :: string
  th_keep :: "nat option"

definition tool_trigger :: "json \<Rightarrow> clear_tool_uses_trigger" where
  "tool_trigger edit =
     (let value = Option.bind (v_pointer [''trigger'', ''value''] edit) as_u64 in
      if Option.bind (v_pointer [''trigger'', ''type''] edit) as_str = Some ''tool_uses''
      then ToolUses (unwrap_or value 1)
      else InputTokens (unwrap_or value DEFAULT_TOOL_CLEAR_TRIGGER_TOKENS))"

definition tool_keep :: "json \<Rightarrow> nat" where
  "tool_keep edit =
     (if Option.bind (v_pointer [''keep'', ''type''] edit) as_str = Some ''tool_uses''
      then unwrap_or (Option.bind (v_pointer [''keep'', ''value''] edit) as_u64) DEFAULT_TOOL_USES_TO_KEEP
      else DEFAULT_TOOL_USES_TO_KEEP)"

definition plan_clear_tool_uses :: "json option \<Rightarrow> clear_tool_uses_plan option" where
  "plan_clear_tool_uses context_management =
     Option.bind (find_edit (\<lambda>kind. matches_type_family kind ''clear_tool_uses'') context_management) (\<lambda>edit.
     Option.bind (block_type edit) (\<lambda>edit_type.
       Some \<lparr>tu_edit_type = edit_type, tu_trigger = tool_trigger edit, tu_keep = tool_keep edit,
         tu_clear_at_least = Option.bind (v_pointer [''clear_at_least'', ''value''] edit) as_u64,
         tu_exclude_tools = List.map_filter as_str (unwrap_or (Option.bind (v_get edit ''exclude_tools'') as_array) []),
         tu_clear_tool_inputs = (case v_get edit ''clear_tool_inputs'' of
             Some (JBool True) \<Rightarrow> ClearAll
           | Some (JArray names) \<Rightarrow> ClearSelected (List.map_filter as_str names)
           | _ \<Rightarrow> ClearNone)\<rparr>))"

definition model_family_version_at_least :: "string \<Rightarrow> string \<Rightarrow> nat \<Rightarrow> nat \<Rightarrow> bool" where
  "model_family_version_at_least model family minimum_major minimum_minor =
     (let normalized = str_replace ''.'' ''-'' (to_ascii_lowercase model) in
      case str_find family normalized of
        None \<Rightarrow> False
      | Some index \<Rightarrow>
          (let rest = drop (index + length family) normalized;
               components = List.map_filter (parse_uint (2 ^ 64 - 1)) (split_char CHR ''-'' (dropWhile (\<lambda>c. c = CHR ''-'') rest))
           in case components of
                [] \<Rightarrow> False
              | major # others \<Rightarrow>
                  (let minor = (case others of value # _ \<Rightarrow> if value \<le> 99 then value else 0 | [] \<Rightarrow> 0)
                   in minimum_major < major \<or> minimum_major = major \<and> minimum_minor \<le> minor)))"

definition default_thinking_turns_to_keep :: "string \<Rightarrow> nat option" where
  "default_thinking_turns_to_keep model =
     (if model_family_version_at_least model ''opus'' 4 5 \<or> model_family_version_at_least model ''sonnet'' 4 6
      then None else Some 1)"

definition thinking_keep :: "string \<Rightarrow> json option \<Rightarrow> nat option" where
  "thinking_keep model keep =
     (case keep of
        None \<Rightarrow> default_thinking_turns_to_keep model
      | Some value \<Rightarrow>
          if value = JString ''all'' \<or> get_str value ''type'' = Some ''all'' then None
          else Option.bind (v_get value ''value'') as_u64)"

definition plan_clear_thinking :: "claude_request \<Rightarrow> clear_thinking_plan option" where
  "plan_clear_thinking request =
     Option.bind (find_edit (\<lambda>kind. matches_type_family kind ''clear_thinking'') (cq_context_management request)) (\<lambda>edit.
     Option.bind (block_type edit) (\<lambda>edit_type.
       Some \<lparr>th_edit_type = edit_type, th_keep = thinking_keep (cq_model request) (v_get edit ''keep'')\<rparr>))"

section \<open>Edits\<close>

definition message_blocks :: "claude_message \<Rightarrow> json list" where
  "message_blocks m = unwrap_or (as_array (cm_content m)) []"

definition request_blocks :: "claude_message list \<Rightarrow> json list" where
  "request_blocks messages = concat (map message_blocks messages)"

definition is_thinking :: "json \<Rightarrow> bool" where
  "is_thinking b \<longleftrightarrow> block_type b = Some ''thinking'' \<or> block_type b = Some ''redacted_thinking''"

definition clear_thinking_message :: "claude_message \<Rightarrow> nat \<times> nat \<Rightarrow> claude_message \<times> nat \<times> nat" where
  "clear_thinking_message m = (\<lambda>(remaining, cleared).
     if cm_role m \<noteq> ''assistant'' then (m, remaining, cleared)
     else case as_array (cm_content m) of
         None \<Rightarrow> (m, remaining, cleared)
       | Some blocks \<Rightarrow>
           if \<not> list_ex is_thinking blocks then (m, remaining, cleared)
           else if 0 < remaining then (m, remaining - 1, cleared)
           else (m\<lparr>cm_content := JArray (filter (\<lambda>b. \<not> is_thinking b) blocks)\<rparr>, remaining, cleared + 1))"

definition not_emptied :: "claude_message \<Rightarrow> bool" where
  "not_emptied m \<longleftrightarrow> cm_role m \<noteq> ''assistant'' \<or> as_array (cm_content m) \<noteq> Some []"

definition clear_thinking_turns :: "nat \<Rightarrow> claude_request \<Rightarrow> nat \<times> claude_request" where
  "clear_thinking_turns keep request =
     (let (messages, _, cleared) = walk_rev clear_thinking_message (cq_messages request) (keep, 0)
      in (cleared, request\<lparr>cq_messages := filter not_emptied messages\<rparr>))"

definition tool_result_is_cleared :: "json \<Rightarrow> bool" where
  "tool_result_is_cleared block \<longleftrightarrow> get_str block ''content'' = Some CLEARED_TOOL_RESULT_TEXT"

text \<open>Collecting pairs into a \<open>HashMap\<close>: the last name given to an identifier counts.\<close>

definition tool_names_of :: "claude_message list \<Rightarrow> (string, string) hmap" where
  "tool_names_of messages =
     fold (\<lambda>(k, v). hm_insert k v)
       (List.map_filter (\<lambda>b. if block_type b = Some ''tool_use''
          then Option.bind (get_str b ''id'') (\<lambda>i. map_option (\<lambda>n. (i, n)) (get_str b ''name'')) else None)
        (request_blocks messages)) []"

definition name_excluded :: "(string, string) hmap \<Rightarrow> string list \<Rightarrow> string \<Rightarrow> bool" where
  "name_excluded names excluded i = (case hm_get names i of Some name \<Rightarrow> name \<in> set excluded | None \<Rightarrow> False)"

definition count_clearable_tool_results :: "string list \<Rightarrow> claude_request \<Rightarrow> nat" where
  "count_clearable_tool_results excluded request =
     (let names = tool_names_of (cq_messages request) in
      length (filter (\<lambda>b. block_type b = Some ''tool_result'' \<and> \<not> tool_result_is_cleared b \<and>
          (case get_str b ''tool_use_id'' of Some i \<Rightarrow> \<not> name_excluded names excluded i | None \<Rightarrow> True))
        (request_blocks (cq_messages request))))"

definition clear_result_block ::
  "(string, string) hmap \<Rightarrow> string list \<Rightarrow> json \<Rightarrow> nat \<times> string list \<Rightarrow> json \<times> nat \<times> string list" where
  "clear_result_block names excluded block = (\<lambda>(remaining, cleared).
     if block_type block \<noteq> Some ''tool_result'' \<or> tool_result_is_cleared block then (block, remaining, cleared)
     else case get_str block ''tool_use_id'' of
         None \<Rightarrow> (block, remaining, cleared)
       | Some tool_use_id \<Rightarrow>
           if name_excluded names excluded tool_use_id then (block, remaining, cleared)
           else if 0 < remaining then (block, remaining - 1, cleared)
           else if is_object block
             then (v_set ''content'' (JString CLEARED_TOOL_RESULT_TEXT) block, remaining, List.insert tool_use_id cleared)
             else (block, remaining, cleared))"

definition on_blocks_rev :: "(json \<Rightarrow> 's \<Rightarrow> json \<times> 's) \<Rightarrow> claude_message \<Rightarrow> 's \<Rightarrow> claude_message \<times> 's" where
  "on_blocks_rev f m s =
     (case as_array (cm_content m) of
        None \<Rightarrow> (m, s)
      | Some blocks \<Rightarrow> (let (blocks', s') = walk_rev f blocks s in (m\<lparr>cm_content := JArray blocks'\<rparr>, s')))"

definition clears_input :: "clear_tool_inputs_plan \<Rightarrow> string list \<Rightarrow> json \<Rightarrow> bool" where
  "clears_input inputs cleared block \<longleftrightarrow>
     block_type block = Some ''tool_use'' \<and>
     (case get_str block ''id'' of Some i \<Rightarrow> i \<in> set cleared | None \<Rightarrow> False) \<and>
     plan_includes inputs (get_str block ''name'') \<and> is_object block"

definition on_blocks :: "(json \<Rightarrow> json) \<Rightarrow> claude_message \<Rightarrow> claude_message" where
  "on_blocks f m = (case as_array (cm_content m) of None \<Rightarrow> m | Some blocks \<Rightarrow> m\<lparr>cm_content := JArray (map f blocks)\<rparr>)"

definition clear_inputs ::
  "clear_tool_inputs_plan \<Rightarrow> string list \<Rightarrow> claude_message list \<Rightarrow> claude_message list \<times> nat" where
  "clear_inputs inputs cleared messages =
     (if cleared = [] then (messages, 0)
      else (map (on_blocks (\<lambda>b. if clears_input inputs cleared b then v_set ''input'' (JObject []) b else b)) messages,
            length (filter (clears_input inputs cleared) (request_blocks messages))))"

definition clear_thinking_edit ::
  "(claude_request \<Rightarrow> nat option) \<Rightarrow> claude_request \<Rightarrow> claude_request \<times> claude_context_edit_stats" where
  "clear_thinking_edit encoded_len request =
     (case plan_clear_thinking request of
        None \<Rightarrow> (request, edit_stats_default)
      | Some plan \<Rightarrow>
          (case th_keep plan of
             None \<Rightarrow> (request, edit_stats_default)
           | Some keep \<Rightarrow>
               (let before = estimate_context_management_input_tokens encoded_len request;
                    (cleared, request') = clear_thinking_turns keep request
                in (request',
                    if 0 < cleared
                    then edit_stats_default\<lparr>ce_cleared_thinking_turns := cleared, ce_thinking_edit_type := Some (th_edit_type plan),
                      ce_cleared_thinking_input_tokens := before - estimate_context_management_input_tokens encoded_len request'\<rparr>
                    else edit_stats_default))))"

definition clear_tool_uses_edit ::
  "(claude_request \<Rightarrow> nat option) \<Rightarrow> nat \<Rightarrow> claude_request \<Rightarrow> claude_context_edit_stats \<Rightarrow>
     claude_request \<times> claude_context_edit_stats" where
  "clear_tool_uses_edit encoded_len original_input_tokens request stats =
     (case plan_clear_tool_uses (cq_context_management request) of
        None \<Rightarrow> (request, stats)
      | Some plan \<Rightarrow>
          if \<not> activated (tu_trigger plan) original_input_tokens (count_clearable_tool_results (tu_exclude_tools plan) request)
          then (request, stats)
          else
            (let before_tokens = estimate_context_management_input_tokens encoded_len request;
                 names = tool_names_of (cq_messages request);
                 (messages, _, cleared) = walk_rev (on_blocks_rev (clear_result_block names (tu_exclude_tools plan)))
                   (cq_messages request) (tu_keep plan, []);
                 (messages', inputs) = clear_inputs (tu_clear_tool_inputs plan) cleared messages;
                 request' = request\<lparr>cq_messages := messages'\<rparr>;
                 cleared_tokens = before_tokens - estimate_context_management_input_tokens encoded_len request'
             in if (case tu_clear_at_least plan of Some minimum \<Rightarrow> cleared_tokens < minimum | None \<Rightarrow> False)
                then (request, stats)
                else (request',
                  if cleared = [] then stats
                  else stats\<lparr>ce_tool_edit_type := Some (tu_edit_type plan), ce_cleared_tool_results := length cleared,
                    ce_cleared_tool_inputs := inputs, ce_cleared_tool_input_tokens := cleared_tokens\<rparr>)))"

definition apply_context_management_edits ::
  "(claude_request \<Rightarrow> nat option) \<Rightarrow> nat \<Rightarrow> claude_request \<Rightarrow> claude_request \<times> claude_context_edit_stats" where
  "apply_context_management_edits encoded_len original_input_tokens request =
     (let (request', stats) = clear_thinking_edit encoded_len request
      in clear_tool_uses_edit encoded_len original_input_tokens request' stats)"

section \<open>Compaction boundaries\<close>

record compaction_normalization_stats =
  cn_boundary_applied :: bool
  cn_removed_noop_blocks :: nat
  cn_removed_noop_messages :: nat

definition is_completed_compaction :: "json \<Rightarrow> bool" where
  "is_completed_compaction b \<longleftrightarrow> block_type b = Some ''compaction'' \<and>
     (case get_str b ''content'' of Some content \<Rightarrow> content \<noteq> [] | None \<Rightarrow> False)"

definition find_boundary :: "claude_message list \<Rightarrow> (nat \<times> nat) option" where
  "find_boundary messages =
     find_map (\<lambda>(message_index, message).
         map_option (\<lambda>(block_index, _). (message_index, block_index))
           (Option.bind (as_array (cm_content message))
             (\<lambda>blocks. find (\<lambda>(_, block). is_completed_compaction block) (rev (List.enumerate 0 blocks)))))
       (filter (\<lambda>(_, message). cm_role message = ''assistant'') (rev (List.enumerate 0 messages)))"

definition persisting_effort :: "claude_message list \<Rightarrow> string option" where
  "persisting_effort messages =
     find_map (\<lambda>message. Option.bind (cm_output_config message) co_effort)
       (filter (\<lambda>message. cm_role message = ''system'') (rev messages))"

definition set_effort :: "string option \<Rightarrow> claude_request \<Rightarrow> claude_request" where
  "set_effort effort request =
     (case effort of
        None \<Rightarrow> request
      | Some e \<Rightarrow> request\<lparr>cq_output_config :=
          Some ((unwrap_or (cq_output_config request) \<lparr>co_effort = None, co_extra = []\<rparr>)\<lparr>co_effort := Some e\<rparr>)\<rparr>)"

definition drain_first :: "nat \<Rightarrow> claude_message list \<Rightarrow> claude_message list" where
  "drain_first block_index messages =
     (case messages of
        [] \<Rightarrow> []
      | message # rest \<Rightarrow>
          (case as_array (cm_content message) of
             None \<Rightarrow> messages
           | Some blocks \<Rightarrow> message\<lparr>cm_content := JArray (drop block_index blocks)\<rparr> # rest))"

definition apply_boundary :: "(nat \<times> nat) option \<Rightarrow> claude_request \<Rightarrow> claude_request" where
  "apply_boundary boundary request =
     (case boundary of
        None \<Rightarrow> request
      | Some (message_index, block_index) \<Rightarrow>
          (set_effort (persisting_effort (take message_index (cq_messages request))) request)
            \<lparr>cq_messages := drain_first block_index (drop message_index (cq_messages request))\<rparr>)"

definition is_noop_compaction :: "json \<Rightarrow> bool" where
  "is_noop_compaction b \<longleftrightarrow> block_type b = Some ''compaction'' \<and>
     (v_get b ''content'' = None \<or> v_get b ''content'' = Some JNull)"

text \<open>The message that is kept, if it is, with the number of blocks removed from it.\<close>

definition retain_message :: "claude_message \<Rightarrow> claude_message option \<times> nat" where
  "retain_message m =
     (if cm_role m \<noteq> ''assistant'' then (Some m, 0)
      else case as_array (cm_content m) of
          None \<Rightarrow> (Some m, 0)
        | Some blocks \<Rightarrow>
            (let kept = filter (\<lambda>b. \<not> is_noop_compaction b) blocks
             in (if blocks = [] \<or> kept \<noteq> [] then Some (m\<lparr>cm_content := JArray kept\<rparr>) else None,
                 length blocks - length kept)))"

definition normalize_compaction_boundary ::
  "claude_request \<Rightarrow> claude_request \<times> compaction_normalization_stats" where
  "normalize_compaction_boundary request =
     (let boundary = find_boundary (cq_messages request);
          request' = apply_boundary boundary request;
          retained = map retain_message (cq_messages request')
      in (request'\<lparr>cq_messages := List.map_filter fst retained\<rparr>,
          \<lparr>cn_boundary_applied = (boundary \<noteq> None),
           cn_removed_noop_blocks = sum_list (map snd retained),
           cn_removed_noop_messages = length (filter (\<lambda>(m, _). m = None) retained)\<rparr>))"

definition normalization_changed :: "compaction_normalization_stats \<Rightarrow> bool" where
  "normalization_changed s \<longleftrightarrow> cn_boundary_applied s \<or> 0 < cn_removed_noop_blocks s \<or> 0 < cn_removed_noop_messages s"

end
