(* ===== verification/ContextEditsCorrect.thy ===== *)
theory ContextEditsCorrect
  imports ContextEdits DecodedCorrect
begin

text \<open>
  Context edits against whole-request specifications: which tool results and which thinking are cleared,
  and the normal form a compaction boundary leaves.
\<close>

section \<open>Clearing all but the newest\<close>

text \<open>The specification: an element is changed when at least \<open>keep\<close> later ones qualify as well.\<close>

fun clear_older :: "nat \<Rightarrow> ('a \<Rightarrow> bool) \<Rightarrow> ('a \<Rightarrow> 'a) \<Rightarrow> 'a list \<Rightarrow> 'a list" where
  "clear_older keep P g [] = []"
| "clear_older keep P g (x # xs) =
     (if P x \<and> keep \<le> length (filter P xs) then g x else x) # clear_older keep P g xs"

definition keeping_step :: "('a \<Rightarrow> bool) \<Rightarrow> ('a \<Rightarrow> 'a) \<Rightarrow> ('a \<Rightarrow> 'b \<Rightarrow> 'b) \<Rightarrow> 'a \<Rightarrow> nat \<times> 'b \<Rightarrow> 'a \<times> nat \<times> 'b" where
  "keeping_step P g h x = (\<lambda>(n, acc).
     if P x then if 0 < n then (x, n - 1, acc) else (g x, n, h x acc) else (x, n, acc))"

fun older :: "nat \<Rightarrow> ('a \<Rightarrow> bool) \<Rightarrow> 'a list \<Rightarrow> 'a list" where
  "older keep P [] = []"
| "older keep P (x # xs) = (if P x \<and> keep \<le> length (filter P xs) then x # older keep P xs else older keep P xs)"

lemma walk_rev_keeping:
  "walk_rev (keeping_step P g h) xs (n, acc) =
     (clear_older n P g xs, n - length (filter P xs), foldr h (older n P xs) acc)"
proof (induction xs)
  case (Cons x xs)
  then show ?case by (cases "P x"; cases "n \<le> length (filter P xs)") (simp_all add: keeping_step_def)
qed simp

lemma length_older: "length (older n P xs) = length (filter P xs) - n"
  by (induction xs) auto

lemma set_older: "set (older n P xs) \<subseteq> {x \<in> set xs. P x}"
  by (induction xs) auto

lemma clear_older_id: "length (filter P xs) \<le> n \<Longrightarrow> clear_older n P g xs = xs"
  by (induction xs) auto

lemma clear_older_remaining:
  "(\<And>x. P x \<Longrightarrow> \<not> P (g x)) \<Longrightarrow> length (filter P (clear_older n P g xs)) = min n (length (filter P xs))"
  by (induction xs) auto

lemma length_clear_older [simp]: "length (clear_older n P g xs) = length xs"
  by (induction xs) auto

section \<open>Tool results\<close>

definition clearable :: "(string, string) hmap \<Rightarrow> string list \<Rightarrow> json \<Rightarrow> bool" where
  "clearable names excluded b \<longleftrightarrow> block_type b = Some ''tool_result'' \<and> \<not> tool_result_is_cleared b \<and>
     (case get_str b ''tool_use_id'' of Some i \<Rightarrow> \<not> name_excluded names excluded i | None \<Rightarrow> False)"

definition clear_content :: "json \<Rightarrow> json" where
  "clear_content b = v_set ''content'' (JString CLEARED_TOOL_RESULT_TEXT) b"

lemma get_str_object: "get_str b k = Some v \<Longrightarrow> is_object b"
  by (cases b) (auto simp: get_str_def)

lemma clear_result_block_keeping:
  "clear_result_block names excluded =
     keeping_step (clearable names excluded) clear_content (\<lambda>b. List.insert (the (get_str b ''tool_use_id'')))"
  by (intro ext) (auto simp: clear_result_block_def keeping_step_def clearable_def clear_content_def
      get_str_object split: option.splits)

lemma get_str_v_set: "is_object b \<Longrightarrow> get_str (v_set k v b) k' = (if k' = k then as_str v else get_str b k')"
  by (cases b) (auto simp: get_str_def map_of_bt_insert)

lemma clear_content_not_clearable: "clearable names excluded b \<Longrightarrow> \<not> clearable names excluded (clear_content b)"
  by (auto simp: clearable_def clear_content_def tool_result_is_cleared_def get_str_v_set block_type_def get_str_object)

lemma walk_blocks:
  "request_blocks (fst (walk_rev (on_blocks_rev f) ms s)) = fst (walk_rev f (request_blocks ms) s) \<and>
   snd (walk_rev (on_blocks_rev f) ms s) = snd (walk_rev f (request_blocks ms) s)"
  by (induction ms)
    (auto simp: request_blocks_def message_blocks_def walk_rev_append on_blocks_rev_def split_beta Let_def unwrap_or_def
      split: option.splits)

text \<open>Everything of the messages but the blocks in their content.\<close>

definition same_frame :: "claude_message list \<Rightarrow> claude_message list \<Rightarrow> bool" where
  "same_frame = list_all2 (\<lambda>m m'. m' = m\<lparr>cm_content := cm_content m'\<rparr> \<and>
     (case as_array (cm_content m) of
        None \<Rightarrow> cm_content m' = cm_content m
      | Some bs \<Rightarrow> (\<exists>bs'. cm_content m' = JArray bs' \<and> length bs' = length bs)))"

lemma walk_frame: "same_frame ms (fst (walk_rev (on_blocks_rev f) ms s))"
  by (induction ms)
    (auto simp: same_frame_def on_blocks_rev_def split_beta Let_def split: option.split)

lemma on_blocks_frame: "same_frame ms (map (on_blocks f) ms)"
  by (auto simp: same_frame_def on_blocks_def list_all2_conv_all_nth split: option.split)

lemma same_frame_trans: "same_frame a b \<Longrightarrow> same_frame b c \<Longrightarrow> same_frame a c"
  unfolding same_frame_def
  by (rule list_all2_trans [rotated]) (assumption | fastforce split: option.splits)+

lemma request_blocks_on_blocks: "request_blocks (map (on_blocks f) ms) = map f (request_blocks ms)"
  by (induction ms) (auto simp: request_blocks_def message_blocks_def on_blocks_def unwrap_or_def split: option.splits)

text \<open>The specification of the edit on the blocks of the whole request.\<close>

definition cleared_ids :: "clear_tool_uses_plan \<Rightarrow> claude_message list \<Rightarrow> string list" where
  "cleared_ids plan messages =
     foldr (\<lambda>b. List.insert (the (get_str b ''tool_use_id'')))
       (older (tu_keep plan) (clearable (tool_names_of messages) (tu_exclude_tools plan)) (request_blocks messages)) []"

definition edited_blocks :: "clear_tool_uses_plan \<Rightarrow> claude_message list \<Rightarrow> json list" where
  "edited_blocks plan messages =
     map (\<lambda>b. if clears_input (tu_clear_tool_inputs plan) (cleared_ids plan messages) b then v_set ''input'' (JObject []) b else b)
       (clear_older (tu_keep plan) (clearable (tool_names_of messages) (tu_exclude_tools plan)) clear_content (request_blocks messages))"

lemma clears_input_none: "\<not> clears_input inputs [] b"
  by (simp add: clears_input_def split: option.split)

lemma set_cleared_ids:
  "set (cleared_ids plan messages) = (\<lambda>b. the (get_str b ''tool_use_id'')) `
     set (older (tu_keep plan) (clearable (tool_names_of messages) (tu_exclude_tools plan)) (request_blocks messages))"
proof -
  have "set (foldr (\<lambda>b. List.insert (f b)) xs []) = f ` set xs" for f :: "json \<Rightarrow> string" and xs
    by (induction xs) auto
  then show ?thesis by (simp add: cleared_ids_def)
qed

lemma clear_walk:
  fixes plan messages
  defines "w \<equiv> walk_rev (on_blocks_rev (clear_result_block (tool_names_of messages) (tu_exclude_tools plan))) messages (tu_keep plan, [])"
  shows "request_blocks (fst (clear_inputs (tu_clear_tool_inputs plan) (snd (snd w)) (fst w))) = edited_blocks plan messages \<and>
    snd (snd w) = cleared_ids plan messages \<and> same_frame messages (fst (clear_inputs (tu_clear_tool_inputs plan) (snd (snd w)) (fst w)))"
proof -
  have w: "request_blocks (fst w) = clear_older (tu_keep plan) (clearable (tool_names_of messages) (tu_exclude_tools plan)) clear_content (request_blocks messages)"
    "snd (snd w) = cleared_ids plan messages"
    using walk_blocks [of "clear_result_block (tool_names_of messages) (tu_exclude_tools plan)" messages "(tu_keep plan, [])"]
    by (simp_all add: w_def clear_result_block_keeping walk_rev_keeping cleared_ids_def)
  have "same_frame messages (fst w)" unfolding w_def by (rule walk_frame)
  then show ?thesis using w
    by (auto simp: clear_inputs_def request_blocks_on_blocks edited_blocks_def clears_input_none intro: same_frame_trans on_blocks_frame)
qed

lemma edited_remaining:
  fixes plan messages
  defines "P \<equiv> clearable (tool_names_of messages) (tu_exclude_tools plan)"
  shows "length (filter P (edited_blocks plan messages)) = min (tu_keep plan) (length (filter P (request_blocks messages)))"
proof -
  have "P (v_set ''input'' (JObject []) b) \<longleftrightarrow> P b" if "clears_input inputs ids b" for inputs ids b
    using that by (auto simp: P_def clearable_def clears_input_def block_type_def get_str_v_set)
  then have "filter P (edited_blocks plan messages) = map (\<lambda>b. if clears_input (tu_clear_tool_inputs plan) (cleared_ids plan messages) b then v_set ''input'' (JObject []) b else b)
      (filter P (clear_older (tu_keep plan) P clear_content (request_blocks messages)))"
    by (simp add: edited_blocks_def filter_map comp_def P_def [symmetric] cong: filter_cong if_cong)
  then show ?thesis by (simp add: clear_older_remaining P_def clear_content_not_clearable)
qed

section \<open>Thinking\<close>

definition has_thinking :: "claude_message \<Rightarrow> bool" where
  "has_thinking m \<longleftrightarrow> cm_role m = ''assistant'' \<and> list_ex is_thinking (message_blocks m)"

definition drop_thinking :: "claude_message \<Rightarrow> claude_message" where
  "drop_thinking m = m\<lparr>cm_content := JArray (filter (\<lambda>b. \<not> is_thinking b) (message_blocks m))\<rparr>"

lemma clear_thinking_message_keeping:
  "clear_thinking_message = keeping_step has_thinking drop_thinking (\<lambda>_ n. n + 1)"
  by (intro ext) (auto simp: clear_thinking_message_def keeping_step_def has_thinking_def drop_thinking_def message_blocks_def
      unwrap_or_def split: option.splits)

lemma clear_thinking_turns_exact:
  "clear_thinking_turns keep r =
     (length (filter has_thinking (cq_messages r)) - keep,
      r\<lparr>cq_messages := filter not_emptied (clear_older keep has_thinking drop_thinking (cq_messages r))\<rparr>)"
proof -
  have "foldr (\<lambda>_ n. n + 1) xs (0::nat) = length xs" for xs :: "claude_message list" by (induction xs) auto
  then show ?thesis by (simp add: clear_thinking_turns_def clear_thinking_message_keeping walk_rev_keeping length_older)
qed

lemma drop_thinking_none: "\<not> has_thinking (drop_thinking m)"
  by (auto simp: has_thinking_def drop_thinking_def message_blocks_def unwrap_or_def list_ex_iff)

section \<open>Compaction boundaries\<close>

definition has_completed :: "claude_message \<Rightarrow> bool" where
  "has_completed m \<longleftrightarrow> cm_role m = ''assistant'' \<and> list_ex is_completed_compaction (message_blocks m)"

lemma as_array_Some [simp]: "as_array v = Some bs \<longleftrightarrow> v = JArray bs"
  by (cases v) auto

lemma find_last_None:
  "find (\<lambda>(_, b). P b) (rev (List.enumerate k bs)) = None \<longleftrightarrow> \<not> list_ex P bs"
  by (induction bs rule: rev_induct) (simp_all add: enumerate_append_eq)

lemma find_last_Some:
  "find (\<lambda>(_, b). P b) (rev (List.enumerate 0 bs)) = Some (j, c) \<Longrightarrow>
     \<exists>b1 b2. bs = b1 @ c # b2 \<and> j = length b1 \<and> P c \<and> \<not> list_ex P b2"
proof (induction bs rule: rev_induct)
  case (snoc b bs)
  show ?case
  proof (cases "P b")
    case True
    then have "c = b" "j = length bs" using snoc.prems by (simp_all add: enumerate_append_eq)
    then show ?thesis using True by (intro exI [of _ bs] exI [of _ "[]"]) simp
  next
    case False
    with snoc obtain b1 b2 where "bs = b1 @ c # b2" "j = length b1" "P c" "\<not> list_ex P b2"
      by (auto simp: enumerate_append_eq)
    then show ?thesis using False by (intro exI [of _ b1] exI [of _ "b2 @ [b]"]) auto
  qed
qed simp

lemma find_boundary_snoc:
  "find_boundary (ms @ [m]) = (if has_completed m
     then map_option (\<lambda>(j, _). (length ms, j)) (find (\<lambda>(_, b). is_completed_compaction b) (rev (List.enumerate 0 (message_blocks m))))
     else find_boundary ms)"
proof (cases "has_completed m")
  case True
  then obtain bs where bs: "cm_role m = ''assistant''" "cm_content m = JArray bs" "list_ex is_completed_compaction bs"
    by (auto simp: has_completed_def message_blocks_def unwrap_or_def split: option.splits)
  then obtain x where "find (\<lambda>(_, b). is_completed_compaction b) (rev (List.enumerate 0 bs)) = Some x"
    using find_last_None [of is_completed_compaction 0 bs] by auto
  then show ?thesis using True bs
    by (simp add: find_boundary_def enumerate_append_eq message_blocks_def unwrap_or_def split_beta)
next
  case False
  have "find (\<lambda>(_, b). is_completed_compaction b) (rev (List.enumerate 0 bs)) = None"
    if "cm_role m = ''assistant''" "cm_content m = JArray bs" for bs
    using False that by (simp add: find_last_None has_completed_def message_blocks_def unwrap_or_def)
  then show ?thesis using False
    by (cases "as_array (cm_content m)") (auto simp: find_boundary_def enumerate_append_eq)
qed

lemma find_boundary_None: "find_boundary ms = None \<longleftrightarrow> (\<forall>m \<in> set ms. \<not> has_completed m)"
proof (induction ms rule: rev_induct)
  case (snoc m ms)
  then show ?case by (auto simp: find_boundary_snoc find_last_None has_completed_def)
qed (simp add: find_boundary_def)

lemma find_boundary_Some:
  "find_boundary ms = Some (i, j) \<Longrightarrow> \<exists>pre m post b1 c b2. ms = pre @ m # post \<and> i = length pre \<and> j = length b1 \<and>
     cm_role m = ''assistant'' \<and> cm_content m = JArray (b1 @ c # b2) \<and> is_completed_compaction c \<and>
     \<not> list_ex is_completed_compaction b2 \<and> (\<forall>m' \<in> set post. \<not> has_completed m')"
proof (induction ms rule: rev_induct)
  case (snoc m ms)
  show ?case
  proof (cases "has_completed m")
    case True
    then obtain c where "find (\<lambda>(_, b). is_completed_compaction b) (rev (List.enumerate 0 (message_blocks m))) = Some (j, c)"
      and i: "i = length ms" using snoc.prems by (auto simp: find_boundary_snoc)
    from find_last_Some [OF this(1)] obtain b1 b2 where "message_blocks m = b1 @ c # b2" "j = length b1"
      "is_completed_compaction c" "\<not> list_ex is_completed_compaction b2" by blast
    then show ?thesis using True i
      by (intro exI [of _ ms] exI [of _ m] exI [of _ "[]"] exI [of _ b1] exI [of _ c] exI [of _ b2])
        (auto simp: has_completed_def message_blocks_def unwrap_or_def split: option.splits)
  next
    case False
    with snoc obtain pre m0 post b1 c b2 where "ms = pre @ m0 # post" "i = length pre" "j = length b1"
      "cm_role m0 = ''assistant''" "cm_content m0 = JArray (b1 @ c # b2)" "is_completed_compaction c"
      "\<not> list_ex is_completed_compaction b2" "\<forall>m' \<in> set post. \<not> has_completed m'"
      by (auto simp: find_boundary_snoc)
    then show ?thesis using False
      by (intro exI [of _ pre] exI [of _ m0] exI [of _ "post @ [m]"] exI [of _ b1] exI [of _ c] exI [of _ b2]) auto
  qed
qed (simp add: find_boundary_def)

lemma completed_not_noop: "is_completed_compaction b \<Longrightarrow> \<not> is_noop_compaction b"
  by (auto simp: is_completed_compaction_def is_noop_compaction_def get_str_def split: option.splits bind_splits)

definition retained :: "claude_message list \<Rightarrow> claude_message list" where
  "retained ms = List.map_filter (fst \<circ> retain_message) ms"

lemma retained_simps [simp]:
  "retained [] = []"
  "retained (m # ms) = (case fst (retain_message m) of None \<Rightarrow> retained ms | Some m' \<Rightarrow> m' # retained ms)"
  by (simp_all add: retained_def List.map_filter_simps cong: option.case_cong)

lemma retain_message_idem: "fst (retain_message m) = Some m' \<Longrightarrow> fst (retain_message m') = Some m'"
  by (auto simp: retain_message_def Let_def split: if_splits option.splits)

lemma retained_idem: "retained (retained ms) = retained ms"
proof (induction ms)
  case (Cons m ms)
  then show ?case by (cases "fst (retain_message m)") (simp_all add: retain_message_idem)
qed simp

lemma retain_message_completed: "fst (retain_message m) = Some m' \<Longrightarrow> has_completed m' \<longleftrightarrow> has_completed m"
  by (auto simp: retain_message_def Let_def has_completed_def message_blocks_def unwrap_or_def list_ex_iff
      split: if_splits option.splits) (metis completed_not_noop)

lemma retained_completed: "m' \<in> set (retained ms) \<Longrightarrow> has_completed m' \<Longrightarrow> \<exists>m \<in> set ms. has_completed m"
  by (induction ms) (auto simp: retain_message_completed split: option.splits)

lemma normalize_messages:
  "fst (normalize_compaction_boundary r) =
     (let r' = apply_boundary (find_boundary (cq_messages r)) r in r'\<lparr>cq_messages := retained (cq_messages r')\<rparr>)"
  by (simp add: normalize_compaction_boundary_def Let_def retained_def map_filter_def filter_map comp_def)

lemma retain_boundary_message:
  assumes "cm_role m = ''assistant''" "cm_content m = JArray (c # bs)" "is_completed_compaction c"
  shows "fst (retain_message m) = Some (m\<lparr>cm_content := JArray (c # filter (\<lambda>b. \<not> is_noop_compaction b) bs)\<rparr>)"
  using assms completed_not_noop [OF assms(3)] by (simp add: retain_message_def)

lemma find_boundary_first:
  assumes "cm_role m = ''assistant''" "cm_content m = JArray (c # bs)" "is_completed_compaction c"
    "\<not> list_ex is_completed_compaction bs" "\<forall>m' \<in> set ms. \<not> has_completed m'"
  shows "find_boundary (m # ms) = Some (0, 0)"
proof -
  have m: "has_completed m" using assms(1-3) by (simp add: has_completed_def message_blocks_def unwrap_or_def)
  then obtain i j where ij: "find_boundary (m # ms) = Some (i, j)"
    using find_boundary_None [of "m # ms"] by (cases "find_boundary (m # ms)") auto
  from find_boundary_Some [OF this] obtain pre m' post b1 c' b2 where
    d: "m # ms = pre @ m' # post" "i = length pre" "j = length b1" "cm_role m' = ''assistant''"
      "cm_content m' = JArray (b1 @ c' # b2)" "is_completed_compaction c'" by blast
  then have "has_completed m'" by (simp add: has_completed_def message_blocks_def unwrap_or_def)
  then have pre: "pre = []" using d(1) assms(5) by (cases pre) auto
  then have "c # bs = b1 @ c' # b2" using d assms(2) by simp
  then have "b1 = []" using assms(4) d(6) by (cases b1) (auto simp: list_ex_iff)
  then show ?thesis using ij d(2,3) pre by simp
qed

lemma apply_boundary_first: "apply_boundary (Some (0, 0)) r = r"
  by (auto simp: apply_boundary_def drain_first_def persisting_effort_def set_effort_def split: list.split option.split)

lemma retained_no_noop: "m \<in> set (retained ms) \<Longrightarrow> cm_role m = ''assistant'' \<Longrightarrow> \<not> list_ex is_noop_compaction (message_blocks m)"
  by (induction ms) (auto simp: retain_message_def Let_def message_blocks_def unwrap_or_def list_ex_iff split: option.splits if_splits)

section \<open>Properties\<close>

text \<open>Compaction boundaries. If an assistant message holds a completed compaction, everything before the
  last one is dropped, blocks and messages, and that compaction opens the conversation; the last effort
  a dropped system message set is carried over. Otherwise nothing is cut. Either way failed compactions disappear from the
  assistant messages, everything else stays, and normalising again changes nothing.\<close>

theorem compaction_boundary_normal_form:
  fixes r
  defines "r' \<equiv> fst (normalize_compaction_boundary r)"
  shows "fst (normalize_compaction_boundary r') = r' \<and>
    (\<forall>m \<in> set (cq_messages r'). cm_role m = ''assistant'' \<longrightarrow> \<not> list_ex is_noop_compaction (message_blocks m)) \<and>
    (if \<exists>m \<in> set (cq_messages r). has_completed m
     then \<exists>pre m post b1 c b2. cq_messages r = pre @ m # post \<and> cm_role m = ''assistant'' \<and>
       cm_content m = JArray (b1 @ c # b2) \<and> is_completed_compaction c \<and>
       \<not> list_ex is_completed_compaction b2 \<and> (\<forall>m' \<in> set post. \<not> has_completed m') \<and>
       r' = (set_effort (persisting_effort pre) r)\<lparr>cq_messages := retained (m\<lparr>cm_content := JArray (c # b2)\<rparr> # post)\<rparr>
     else r' = r\<lparr>cq_messages := retained (cq_messages r)\<rparr>)"
proof -
  note r' = r'_def [unfolded normalize_messages Let_def]
  have noop: "\<forall>m \<in> set (cq_messages r'). cm_role m = ''assistant'' \<longrightarrow> \<not> list_ex is_noop_compaction (message_blocks m)"
    using retained_no_noop by (simp add: r')
  show ?thesis
  proof (cases "find_boundary (cq_messages r)")
    case None
    then have free: "\<not> (\<exists>m \<in> set (cq_messages r). has_completed m)" by (simp add: find_boundary_None)
    have r'_eq: "r' = r\<lparr>cq_messages := retained (cq_messages r)\<rparr>" using None by (simp add: r' apply_boundary_def)
    then have "find_boundary (cq_messages r') = None" using free retained_completed by (auto simp: find_boundary_None)
    then have "fst (normalize_compaction_boundary r') = r'"
      by (simp add: normalize_messages apply_boundary_def r'_eq retained_idem)
    with noop free r'_eq show ?thesis by simp
  next
    case (Some ij)
    obtain i j where ij: "ij = (i, j)" by (cases ij)
    from find_boundary_Some [OF Some [unfolded ij]] obtain pre m post b1 c b2 where
      d: "cq_messages r = pre @ m # post" "i = length pre" "j = length b1" "cm_role m = ''assistant''"
        "cm_content m = JArray (b1 @ c # b2)" "is_completed_compaction c" "\<not> list_ex is_completed_compaction b2"
        "\<forall>m' \<in> set post. \<not> has_completed m'" by blast
    then have yes: "\<exists>m \<in> set (cq_messages r). has_completed m"
      by (auto simp: has_completed_def message_blocks_def unwrap_or_def)
    let ?m = "m\<lparr>cm_content := JArray (c # b2)\<rparr>"
    have r'_eq: "r' = (set_effort (persisting_effort pre) r)\<lparr>cq_messages := retained (?m # post)\<rparr>"
      unfolding r' Some ij using d by (simp add: apply_boundary_def drain_first_def)
    let ?m' = "?m\<lparr>cm_content := JArray (c # filter (\<lambda>b. \<not> is_noop_compaction b) b2)\<rparr>"
    have first: "retained (?m # post) = ?m' # retained post"
      using retain_boundary_message [of ?m c b2] d by simp
    have "find_boundary (?m' # retained post) = Some (0, 0)"
      using d retained_completed [of _ post] by (intro find_boundary_first [of _ c "filter (\<lambda>b. \<not> is_noop_compaction b) b2"]) (auto simp: list_ex_iff)
    then have "find_boundary (cq_messages r') = Some (0, 0)" by (simp add: r'_eq first del: retained_simps)
    moreover have "retained (cq_messages r') = cq_messages r'" by (simp add: r'_eq retained_idem del: retained_simps)
    ultimately have "fst (normalize_compaction_boundary r') = r'" by (simp add: normalize_messages apply_boundary_first)
    moreover have "\<exists>pre m post b1 c b2. cq_messages r = pre @ m # post \<and> cm_role m = ''assistant'' \<and>
       cm_content m = JArray (b1 @ c # b2) \<and> is_completed_compaction c \<and>
       \<not> list_ex is_completed_compaction b2 \<and> (\<forall>m' \<in> set post. \<not> has_completed m') \<and>
       r' = (set_effort (persisting_effort pre) r)\<lparr>cq_messages := retained (m\<lparr>cm_content := JArray (c # b2)\<rparr> # post)\<rparr>"
      using d(1,4-8) r'_eq by blast
    ultimately show ?thesis using noop yes by (simp only: if_True simp_thms)
  qed
qed

definition thinking_cleared :: "claude_request \<Rightarrow> claude_message list" where
  "thinking_cleared r =
     (case Option.bind (plan_clear_thinking r) th_keep of
        None \<Rightarrow> cq_messages r
      | Some keep \<Rightarrow> filter not_emptied (clear_older keep has_thinking drop_thinking (cq_messages r)))"

lemma clear_thinking_edit_exact:
  "\<exists>s. clear_thinking_edit encoded_len r = (r\<lparr>cq_messages := thinking_cleared r\<rparr>, s) \<and> ce_cleared_tool_results s = 0"
  by (auto simp: clear_thinking_edit_def thinking_cleared_def clear_thinking_turns_exact edit_stats_default_def split: option.split)

lemma same_frame_refl: "same_frame ms ms"
  by (auto simp: same_frame_def list_all2_conv_all_nth split: option.split)

lemma distinct_cleared_ids: "distinct (cleared_ids plan ms)"
proof -
  have "distinct (foldr (\<lambda>b. List.insert (f b)) xs [])" for f :: "json \<Rightarrow> string" and xs
    by (induction xs) auto
  then show ?thesis by (simp add: cleared_ids_def)
qed

text \<open>The input tokens an edit saves, by the estimate before and after it.\<close>

definition saved_tokens :: "(claude_request \<Rightarrow> nat option) \<Rightarrow> claude_request \<Rightarrow> claude_message list \<Rightarrow> nat" where
  "saved_tokens encoded_len r ms' = estimate_context_management_input_tokens encoded_len r
     - estimate_context_management_input_tokens encoded_len (r\<lparr>cq_messages := ms'\<rparr>)"

text \<open>What the tool edit returns, by its three outcomes.\<close>

lemma clear_tool_uses_edit_exact:
  assumes "plan_clear_tool_uses (cq_context_management r) = Some plan"
  shows "\<exists>ms' inputs. request_blocks ms' = edited_blocks plan (cq_messages r) \<and> same_frame (cq_messages r) ms' \<and>
    clear_tool_uses_edit encoded_len tokens r s =
     (if \<not> activated (tu_trigger plan) tokens (count_clearable_tool_results (tu_exclude_tools plan) r)
         \<or> (case tu_clear_at_least plan of Some minimum \<Rightarrow> saved_tokens encoded_len r ms' < minimum | None \<Rightarrow> False) then (r, s)
      else (r\<lparr>cq_messages := ms'\<rparr>,
        if cleared_ids plan (cq_messages r) = [] then s
        else s\<lparr>ce_tool_edit_type := Some (tu_edit_type plan), ce_cleared_tool_results := length (cleared_ids plan (cq_messages r)),
          ce_cleared_tool_inputs := inputs, ce_cleared_tool_input_tokens := saved_tokens encoded_len r ms'\<rparr>))"
proof -
  let ?w = "walk_rev (on_blocks_rev (clear_result_block (tool_names_of (cq_messages r)) (tu_exclude_tools plan))) (cq_messages r) (tu_keep plan, [])"
  obtain ms1 n ids where w: "?w = (ms1, n, ids)" by (cases ?w)
  obtain ms2 inputs where i: "clear_inputs (tu_clear_tool_inputs plan) ids ms1 = (ms2, inputs)" by fastforce
  have "request_blocks ms2 = edited_blocks plan (cq_messages r)" "same_frame (cq_messages r) ms2"
    and ids: "ids = cleared_ids plan (cq_messages r)"
    using clear_walk [of plan "cq_messages r"] by (simp_all add: w i)
  then show ?thesis
    unfolding saved_tokens_def
    by (intro exI [of _ ms2] exI [of _ inputs]) (use w i assms in \<open>simp add: clear_tool_uses_edit_def Let_def ids\<close>)
qed

text \<open>When the tool edit runs: its trigger is reached, and it saves the minimum if it has one.\<close>

definition tool_edit_runs ::
  "(claude_request \<Rightarrow> nat option) \<Rightarrow> clear_tool_uses_plan \<Rightarrow> nat \<Rightarrow> claude_request \<Rightarrow> claude_message list \<Rightarrow> bool" where
  "tool_edit_runs encoded_len plan tokens r ms' \<longleftrightarrow>
     activated (tu_trigger plan) tokens (count_clearable_tool_results (tu_exclude_tools plan) r)
     \<and> (\<forall>minimum. tu_clear_at_least plan = Some minimum \<longrightarrow> minimum \<le> saved_tokens encoded_len r ms')"

text \<open>C27: Context edits. Thinking is removed from every assistant turn but the newest ones the edit keeps. Then,
  of the tool results the tool edit may clear, exactly those with at least \<open>keep\<close> newer ones lose their
  content, and the calls they answer lose their input where the edit asks for it; every other block, the roles and the
  order stay. This happens exactly if the trigger is reached and, where the edit has a minimum, the estimate of the
  edited request is lower by at least that many tokens; otherwise the messages stay as they were and nothing is
  reported. An edit that happens leaves no more than \<open>keep\<close> results to clear and reports the identifiers cleared
  and the tokens saved.\<close>

theorem context_edits_exact:
  fixes r
  defines "ms \<equiv> thinking_cleared r"
  assumes "apply_context_management_edits encoded_len tokens r = (r', stats)"
  shows "r' = r\<lparr>cq_messages := cq_messages r'\<rparr> \<and>
    (case plan_clear_tool_uses (cq_context_management r) of
       None \<Rightarrow> cq_messages r' = ms
     | Some plan \<Rightarrow>
         (\<exists>edited. request_blocks edited = edited_blocks plan ms \<and> same_frame ms edited \<and>
           (if tool_edit_runs encoded_len plan tokens (r\<lparr>cq_messages := ms\<rparr>) edited
            then cq_messages r' = edited \<and>
              length (filter (clearable (tool_names_of ms) (tu_exclude_tools plan)) (request_blocks edited)) \<le> tu_keep plan \<and>
              ce_cleared_tool_results stats = card (set (cleared_ids plan ms)) \<and>
              (cleared_ids plan ms \<noteq> [] \<longrightarrow>
                ce_cleared_tool_input_tokens stats = saved_tokens encoded_len (r\<lparr>cq_messages := ms\<rparr>) edited)
            else cq_messages r' = ms \<and> ce_cleared_tool_results stats = 0)))"
proof -
  obtain s1 where t: "clear_thinking_edit encoded_len r = (r\<lparr>cq_messages := ms\<rparr>, s1)" "ce_cleared_tool_results s1 = 0"
    using clear_thinking_edit_exact [of encoded_len r] unfolding ms_def by blast
  let ?r1 = "r\<lparr>cq_messages := ms\<rparr>"
  have e: "clear_tool_uses_edit encoded_len tokens ?r1 s1 = (r', stats)"
    using assms(2) t(1) by (simp add: apply_context_management_edits_def)
  show ?thesis
  proof (cases "plan_clear_tool_uses (cq_context_management r)")
    case None
    then show ?thesis using e by (auto simp: clear_tool_uses_edit_def)
  next
    case (Some plan)
    then have p: "plan_clear_tool_uses (cq_context_management ?r1) = Some plan" by simp
    have m1: "cq_messages ?r1 = ms" by simp
    from clear_tool_uses_edit_exact [OF p, of encoded_len tokens s1, unfolded e m1] obtain edited inputs where
      ed: "request_blocks edited = edited_blocks plan ms" "same_frame ms edited"
      and out: "(r', stats) = (if \<not> activated (tu_trigger plan) tokens (count_clearable_tool_results (tu_exclude_tools plan) ?r1) \<or>
            (case tu_clear_at_least plan of Some minimum \<Rightarrow> saved_tokens encoded_len ?r1 edited < minimum | None \<Rightarrow> False) then (?r1, s1)
         else (?r1\<lparr>cq_messages := edited\<rparr>, if cleared_ids plan ms = [] then s1
           else s1\<lparr>ce_tool_edit_type := Some (tu_edit_type plan), ce_cleared_tool_results := length (cleared_ids plan ms),
             ce_cleared_tool_inputs := inputs, ce_cleared_tool_input_tokens := saved_tokens encoded_len ?r1 edited\<rparr>))"
      by (elim exE conjE) (rule that)
    have runs: "(\<not> activated (tu_trigger plan) tokens (count_clearable_tool_results (tu_exclude_tools plan) ?r1) \<or>
        (case tu_clear_at_least plan of Some minimum \<Rightarrow> saved_tokens encoded_len ?r1 edited < minimum | None \<Rightarrow> False))
        = (\<not> tool_edit_runs encoded_len plan tokens ?r1 edited)"
      by (auto simp: tool_edit_runs_def split: option.split)
    have card: "card (set (cleared_ids plan ms)) = length (cleared_ids plan ms)"
      by (rule distinct_card [OF distinct_cleared_ids])
    have keep: "length (filter (clearable (tool_names_of ms) (tu_exclude_tools plan)) (request_blocks edited)) \<le> tu_keep plan"
      if "tool_edit_runs encoded_len plan tokens ?r1 edited"
      using edited_remaining [of ms plan] ed(1) by simp
    show ?thesis
      using ed out t(2) card keep unfolding runs Some option.case
      by (intro conjI exI [of _ edited]) (auto split: if_splits)
  qed
qed

section \<open>Witnesses\<close>

definition demo_message :: "string \<Rightarrow> json list \<Rightarrow> claude_message" where
  "demo_message role blocks = \<lparr>cm_role = role, cm_content = JArray blocks, cm_cache_control = None, cm_output_config = None, cm_extra = []\<rparr>"

definition demo_request :: "claude_message list \<Rightarrow> json option \<Rightarrow> claude_request" where
  "demo_request messages management = \<lparr>cq_model = ''claude-sonnet-4'', cq_messages = messages, cq_max_tokens = 128, cq_temperature = None, cq_top_p = None,
     cq_top_k = None, cq_stop_sequences = [], cq_stream = False, cq_system = None,
     cq_tools = [], cq_tool_choice = None, cq_thinking = None, cq_output_config = None, cq_cache_control = None,
     cq_service_tier = None, cq_metadata = None, cq_conversation_id = None, cq_context_management = management, cq_extra = []\<rparr>"

definition demo_result :: "string \<Rightarrow> json" where
  "demo_result i = JObject [(''content'', JString ''out''), (''tool_use_id'', JString i), (''type'', JString ''tool_result'')]"

definition demo_edits :: "claude_request" where
  "demo_edits = demo_request [demo_message ''user'' [demo_result ''a'', demo_result ''b'']]
     (Some (JObject [(''edits'', JArray [JObject [(''keep'', JObject [(''type'', JString ''tool_uses''), (''value'', JNumber (PosInt 1))]),
        (''trigger'', JObject [(''type'', JString ''tool_uses''), (''value'', JNumber (PosInt 1))]),
        (''type'', JString ''clear_tool_uses_20250919'')]])]))"

theorem context_edits_exact_witness:
  "request_blocks (cq_messages (fst (apply_context_management_edits (\<lambda>_. Some 40) 0 demo_edits)))
     = [clear_content (demo_result ''a''), demo_result ''b'']"
proof -
  obtain r' stats where e: "apply_context_management_edits (\<lambda>_. Some 40) 0 demo_edits = (r', stats)" by fastforce
  let ?plan = "\<lparr>tu_edit_type = ''clear_tool_uses_20250919'', tu_trigger = ToolUses 1, tu_keep = 1,
      tu_clear_at_least = None, tu_exclude_tools = [], tu_clear_tool_inputs = ClearNone\<rparr>"
  have plan: "plan_clear_tool_uses (cq_context_management demo_edits) = Some ?plan" by code_simp
  have ms: "thinking_cleared demo_edits = cq_messages demo_edits" by code_simp
  have "activated (ToolUses 1) 0 (count_clearable_tool_results [] (demo_edits\<lparr>cq_messages := cq_messages demo_edits\<rparr>))"
    by code_simp
  then have "tool_edit_runs (\<lambda>_. Some 40) ?plan 0 (demo_edits\<lparr>cq_messages := cq_messages demo_edits\<rparr>) edited" for edited
    by (simp add: tool_edit_runs_def)
  then have "request_blocks (cq_messages r') = edited_blocks ?plan (cq_messages demo_edits)"
    using context_edits_exact [OF e] unfolding plan ms option.case by auto
  also have "\<dots> = [clear_content (demo_result ''a''), demo_result ''b'']" by code_simp
  finally show ?thesis by (simp add: e)
qed

definition demo_compacted :: "claude_request" where
  "demo_compacted = demo_request [demo_message ''user'' [JString ''old''],
     demo_message ''assistant'' [JObject [(''text'', JString ''x''), (''type'', JString ''text'')],
       JObject [(''content'', JString ''summary''), (''type'', JString ''compaction'')], JObject [(''content'', JNull), (''type'', JString ''compaction'')]],
     demo_message ''user'' [JString ''new'']] None"

theorem compaction_boundary_normal_form_witness:
  "fst (normalize_compaction_boundary demo_compacted) =
     demo_request [demo_message ''assistant'' [JObject [(''content'', JString ''summary''), (''type'', JString ''compaction'')]],
       demo_message ''user'' [JString ''new'']] None \<and>
   fst (normalize_compaction_boundary (fst (normalize_compaction_boundary demo_compacted))) = fst (normalize_compaction_boundary demo_compacted)"
proof -
  have "fst (normalize_compaction_boundary demo_compacted) =
     demo_request [demo_message ''assistant'' [JObject [(''content'', JString ''summary''), (''type'', JString ''compaction'')]],
       demo_message ''user'' [JString ''new'']] None" by code_simp
  then show ?thesis using compaction_boundary_normal_form [of demo_compacted] by blast
qed

end
