(* ===== verification/Continuation.thy ===== *)
theory Continuation
  imports ToolHistoryCorrect Decoded
begin

text \<open>
  \<open>crates/kproxy-translate/src/translate/auto_continue.rs\<close>: the payload of the next internal round, after
  a tool round that the proxy answers itself, and that it stays within the tool-history contract.
\<close>

section \<open>Definitions\<close>

record claude_tool_search_outcome =
  so_trace :: claude_tool_search_trace
  so_tools :: "kiro_tool list"
  so_documentation :: "string list"
  so_truncated :: bool

abbreviation kp_current :: "kiro_payload \<Rightarrow> kiro_user_input_message" where
  "kp_current p \<equiv> cs_current_message (kp_conversation_state p)"

definition with_current :: "kiro_user_input_message \<Rightarrow> kiro_payload \<Rightarrow> kiro_payload" where
  "with_current u p = p\<lparr>kp_conversation_state := (kp_conversation_state p)\<lparr>cs_current_message := u\<rparr>\<rparr>"

definition history_user_without_tools :: "kiro_user_input_message \<Rightarrow> kiro_user_input_message" where
  "history_user_without_tools message =
     (case um_context message of
        None \<Rightarrow> message
      | Some context \<Rightarrow> message\<lparr>um_context :=
          (if mc_tool_results context = [] then None else Some (context\<lparr>mc_tools := [], mc_env_state := None\<rparr>))\<rparr>)"

text \<open>\<open>chars().count()\<close> and \<open>chars().skip(n)\<close> on UTF-8.\<close>

definition char_count :: "string \<Rightarrow> nat" where
  "char_count s = length (filter (\<lambda>c. \<not> (128 \<le> byte c \<and> byte c \<le> 191)) s)"

definition tail_chars :: "string \<Rightarrow> nat \<Rightarrow> string" where
  "tail_chars value maximum =
     (if char_count value \<le> maximum then value
      else drop (length (take_chars (char_count value - maximum) value)) value)"

text \<open>The two turns a completed round adds to the history.\<close>

definition push_round :: "string \<Rightarrow> kiro_tool_use list \<Rightarrow> kiro_payload \<Rightarrow> kiro_payload" where
  "push_round assistant_content tool_uses p =
     with_history (kp_history p @
       [\<lparr>hx_user_input_message = Some (history_user_without_tools (kp_current p)), hx_assistant_response_message = None\<rparr>,
        \<lparr>hx_user_input_message = None, hx_assistant_response_message = Some
           \<lparr>am_content = tail_chars assistant_content 48000, am_cache_point = None, am_tool_uses = tool_uses\<rparr>\<rparr>]) p"

definition continue_with :: "string \<Rightarrow> kiro_tool_result list \<Rightarrow> kiro_tool list \<Rightarrow> kiro_payload \<Rightarrow> kiro_payload" where
  "continue_with content results tools p =
     with_current ((kp_current p)\<lparr>um_content := content, um_images := [], um_documents := [], um_cache_point := None,
       um_client_cache_config := None,
       um_context := Some \<lparr>mc_tool_results = results, mc_tools = tools,
         mc_env_state = Option.bind (um_context (kp_current p)) mc_env_state\<rparr>\<rparr>) p"

definition auto_continue_payload :: "kiro_payload \<Rightarrow> string \<Rightarrow> kiro_tool_use list \<Rightarrow> kiro_payload" where
  "auto_continue_payload payload assistant_content tool_uses =
     (let next = push_round assistant_content tool_uses payload;
          tools = user_tools (kp_current payload);
          results = map (\<lambda>tool. \<lparr>tr_content = [''Done. Continue with the next step.''], tr_status = ''success'',
            tr_tool_use_id = tu_tool_use_id tool\<rparr>) tool_uses
      in truncate_history_preserving_protected_prefix 30
           (continue_with ''Continue with the next step.'' results tools next))"

definition tool_search_kiro_result :: "kiro_tool_use \<Rightarrow> claude_tool_search_outcome \<Rightarrow> kiro_tool_result" where
  "tool_search_kiro_result tool_use outcome =
     (let (status, result) =
        (case tq_error (so_trace outcome) of
           Some error \<Rightarrow> (''error'', ''Tool Search failed ('' @ se_code error @ ''): '' @ se_message error)
         | None \<Rightarrow>
             if tq_references (so_trace outcome) = [] then (''success'', ''Tool Search found no matching tools.'')
             else (''success'', ''Tool Search loaded these tools: '' @ join '', '' (tq_references (so_trace outcome))
               @ ''. Their complete definitions are now available.''))
      in \<lparr>tr_content = [result], tr_status = status, tr_tool_use_id = tu_tool_use_id tool_use\<rparr>)"

fun load_tools :: "kiro_tool list \<Rightarrow> kiro_tool list \<Rightarrow> kiro_tool list" where
  "load_tools tools [] = tools"
| "load_tools tools (found # rest) =
     (case tool_specification found of
        None \<Rightarrow> load_tools tools rest
      | Some spec \<Rightarrow>
          if list_ex (\<lambda>existing. ts_name existing = ts_name spec)
               (List.map_filter tool_specification tools)
          then load_tools tools rest else load_tools (tools @ [found]) rest)"

definition tool_search_continue_payload_batch ::
  "kiro_payload \<Rightarrow> string \<Rightarrow> (kiro_tool_use \<times> claude_tool_search_outcome) list \<Rightarrow> kiro_payload" where
  "tool_search_continue_payload_batch payload assistant_content searches =
     (let next = push_round assistant_content (map fst searches) payload;
          tools = load_tools (user_tools (kp_current payload)) (concat (map (\<lambda>(_, outcome). so_tools outcome) searches));
          results = map (\<lambda>(tool_use, outcome). tool_search_kiro_result tool_use outcome) searches;
          documentation = concat (map (\<lambda>(_, outcome). so_documentation outcome) searches);
          content = (if documentation = [] then ''Continue using the Tool Search result.''
            else ''Continue using the Tool Search result.'' @ [CHR 0x0A, CHR 0x0A] @ join [CHR 0x0A, CHR 0x0A] documentation)
      in truncate_history_preserving_protected_prefix 30 (continue_with content results tools next))"

definition tool_search_continue_payload ::
  "kiro_payload \<Rightarrow> string \<Rightarrow> kiro_tool_use \<Rightarrow> claude_tool_search_outcome \<Rightarrow> kiro_payload" where
  "tool_search_continue_payload payload assistant_content tool_use outcome =
     tool_search_continue_payload_batch payload assistant_content [(tool_use, outcome)]"

definition resume_tool_search_payload ::
  "kiro_tool_use \<Rightarrow> claude_tool_search_outcome \<Rightarrow> kiro_payload \<Rightarrow> kiro_payload" where
  "resume_tool_search_payload tool_use outcome payload =
     (let current = kp_current payload;
          context = unwrap_or (um_context current) message_context_default;
          content = (if so_documentation outcome = [] then um_content current
            else um_content current @ [CHR 0x0A, CHR 0x0A] @ join [CHR 0x0A, CHR 0x0A] (so_documentation outcome))
      in with_current (current\<lparr>um_content := content,
           um_context := Some (context\<lparr>mc_tools := load_tools (mc_tools context) (so_tools outcome),
             mc_tool_results := mc_tool_results context @ [tool_search_kiro_result tool_use outcome]\<rparr>)\<rparr>) payload)"

section \<open>The contract\<close>

lemma kp_current_simps [simp]:
  "kp_current (with_current u p) = u" "kp_history (with_current u p) = kp_history p"
  "kp_current (push_round c us p) = kp_current p"
  by (simp_all add: with_current_def push_round_def)

lemma history_user_simps [simp]:
  "user_tools (history_user_without_tools u) = []"
  "user_results (history_user_without_tools u) = user_results u"
  by (auto simp: history_user_without_tools_def user_tools_def user_results_def split: option.split)

lemma kp_history_push_round:
  "kp_history (push_round c us p) = kp_history p @ [to_history (User (history_user_without_tools (kp_current p))),
     to_history (Assistant \<lparr>am_content = tail_chars c 48000, am_cache_point = None, am_tool_uses = us\<rparr>)]"
  by (simp add: push_round_def to_history.simps)

lemma continue_with_simps [simp]:
  "kp_history (continue_with t rs ts p) = kp_history p"
  "user_results (kp_current (continue_with t rs ts p)) = rs"
  "user_tools (kp_current (continue_with t rs ts p)) = ts"
  by (simp_all add: continue_with_def user_results_def user_tools_def)

definition tool_spec_names :: "kiro_tool list \<Rightarrow> string list" where
  "tool_spec_names ts = map ts_name (List.map_filter tool_specification ts)"

lemma turns_ok_mono: "turns_ok active h \<Longrightarrow> active \<subseteq> active' \<Longrightarrow> turns_ok active' h"
  unfolding turns_ok_def turn_ok_def by (fastforce simp: list_all_iff good_use_def)

text \<open>A completed round, its calls answered by the new current turn, extends a good history.\<close>

lemma continue_contract:
  assumes "kiro_tool_contract p"
    and us: "list_all (good_use (set (tool_spec_names ts))) us" "distinct (map tu_tool_use_id us)"
      "set (map tu_tool_use_id us) \<inter> set (concat (map item_use_ids (kp_history p))) = {}"
    and rs: "answers (map tu_tool_use_id us) rs"
    and ts: "distinct (tool_spec_names ts)" "list_all (\<lambda>n. trim n \<noteq> []) (tool_spec_names ts)"
      "set (current_tool_names (kp_current p)) \<subseteq> set (tool_spec_names ts)"
  shows "kiro_tool_contract (continue_with t rs ts (push_round c us p))"
proof -
  let ?h = "kp_history p" and ?u = "to_history (User (history_user_without_tools (kp_current p)))"
  let ?a = "to_history (Assistant \<lparr>am_content = tail_chars c 48000, am_cache_point = None, am_tool_uses = us\<rparr>)"
  have p: "even (length ?h)" "turns_ok (set (tool_spec_names ts)) ?h"
    "answers (calls_before ?h (length ?h)) (user_results (kp_current p))"
    using assms(1) ts(3) by (auto simp: kiro_tool_contract_def Let_def intro: turns_ok_mono)
  then have "turns_ok (set (tool_spec_names ts)) (?h @ [?u])" by (auto simp: turns_ok_snoc)
  then have "turns_ok (set (tool_spec_names ts)) ((?h @ [?u]) @ [?a])" using p(1) us by (subst turns_ok_snoc) auto
  moreover have "calls_before ((?h @ [?u]) @ [?a]) (Suc (length (?h @ [?u]))) = map tu_tool_use_id us"
    by (simp only: calls_before_end item_simps) simp
  ultimately show ?thesis using p(1) ts rs
    by (simp add: kiro_tool_contract_def Let_def kp_history_push_round current_tool_names_def tool_spec_names_def)
qed

text \<open>Cutting out whole turns keeps a good history when no call is answered across a cut.\<close>

lemma cut_turns_ok:
  assumes ok: "turns_ok active h" and kn: "even k" "even n" "k \<le> n" "n \<le> length h"
    and cut: "calls_before h k = []" "calls_before h n = []"
  shows "turns_ok active (take k h @ drop n h)"
proof -
  let ?h = "take k h @ drop n h"
  have "turn_ok active ?h i" if i: "i < length ?h" for i
  proof (cases "i < k")
    case True
    then have "?h ! i = h ! i" "calls_before ?h i = calls_before h i"
      using True kn by (auto simp: nth_append calls_before_def)
    then show ?thesis using ok True kn by (simp add: turn_ok_def turns_ok_def)
  next
    case False
    define j where "j = n + (i - k)"
    have j: "j < length h" "?h ! i = h ! j" "even i \<longleftrightarrow> even j" using i False kn by (auto simp: nth_append j_def)
    have "calls_before ?h i = calls_before h j"
    proof (cases "i = k")
      case True
      have "calls_before ?h k = calls_before h k" using kn by (simp add: calls_before_def nth_append)
      then show ?thesis using True cut by (simp add: j_def)
    next
      case ik: False
      then have "?h ! (i - 1) = h ! (j - 1)" using i False kn by (simp add: nth_append j_def)
      then show ?thesis using ik False by (simp add: calls_before_def j_def)
    qed
    moreover have "turn_ok active h j" using ok j(1) by (simp add: turns_ok_def)
    ultimately show ?thesis using j(2,3) by (simp add: turn_ok_def)
  qed
  moreover have "distinct (concat (map item_use_ids ?h))"
  proof -
    have "h = take k h @ take (n - k) (drop k h) @ drop n h"
      using kn by (metis append.assoc append_take_drop_id le_add_diff_inverse take_add)
    then have "distinct (concat (map item_use_ids (take k h @ take (n - k) (drop k h) @ drop n h)))"
      using ok by (simp add: turns_ok_def)
    then show ?thesis by (simp del: append_take_drop_id) blast
  qed
  ultimately show ?thesis by (simp add: turns_ok_def)
qed

definition no_answer_across :: "nat \<Rightarrow> kiro_payload \<Rightarrow> bool" where
  "no_answer_across maximum p \<longleftrightarrow>
     (let h = kp_history p; k = protected_history_len p; n = max k (length h - (maximum - k))
      in length h \<le> maximum \<or> even k \<and> calls_before h k = [] \<and> n < length h \<and> calls_before h n = [])"

lemma truncate_contract:
  assumes "kiro_tool_contract p" "even maximum" "no_answer_across maximum p"
  shows "kiro_tool_contract (truncate_history_preserving_protected_prefix maximum p)"
proof (cases "length (kp_history p) \<le> maximum")
  case True
  then show ?thesis using assms(1) by (simp add: truncate_history_preserving_protected_prefix_def)
next
  case False
  let ?h = "kp_history p" and ?k = "protected_history_len p"
  let ?n = "max ?k (length ?h - (maximum - ?k))"
  have c: "even ?k" "calls_before ?h ?k = []" "?n < length ?h" "calls_before ?h ?n = []"
    using assms(3) False by (auto simp: no_answer_across_def Let_def)
  have h: "even (length ?h)" "turns_ok (set (current_tool_names (kp_current p))) ?h"
    using assms(1) by (simp_all add: kiro_tool_contract_def Let_def)
  have n: "even ?n" using c(1) h(1) assms(2) False by (auto simp: max_def)
  have "turns_ok (set (current_tool_names (kp_current p))) (take ?k ?h @ drop ?n ?h)"
    using c n h by (intro cut_turns_ok) auto
  moreover have "calls_before (take ?k ?h @ drop ?n ?h) (length (take ?k ?h @ drop ?n ?h)) = calls_before ?h (length ?h)"
    using c(3) by (auto simp: calls_before_def nth_append)
  moreover have "even (length (take ?k ?h @ drop ?n ?h))"
    using c h n by (simp add: protected_history_len_def)
  ultimately show ?thesis using assms(1)
    by (simp add: truncate_history_closed kiro_tool_contract_def Let_def)
qed

lemma load_tools_names:
  assumes "distinct (tool_spec_names ts)" "list_all (\<lambda>n. trim n \<noteq> []) (tool_spec_names ts)"
    and "list_all (\<lambda>n. trim n \<noteq> []) (tool_spec_names fs)"
  shows "distinct (tool_spec_names (load_tools ts fs)) \<and> list_all (\<lambda>n. trim n \<noteq> []) (tool_spec_names (load_tools ts fs)) \<and>
    set (tool_spec_names ts) \<subseteq> set (tool_spec_names (load_tools ts fs))"
  using assms
proof (induction ts fs rule: load_tools.induct)
  case (2 ts f fs)
  show ?case
  proof (cases "tool_specification f")
    case None
    then show ?thesis using 2 by (simp add: tool_spec_names_def List.map_filter_simps)
  next
    case (Some spec)
    let ?n = "ts_name spec"
    have new: "tool_spec_names (ts @ [f]) = tool_spec_names ts @ [?n]" and found: "tool_spec_names (f # fs) = ?n # tool_spec_names fs"
      using Some by (simp_all add: tool_spec_names_def map_filter_def)
    have mem: "list_ex (\<lambda>existing. ts_name existing = ?n) (List.map_filter tool_specification ts) \<longleftrightarrow> ?n \<in> set (tool_spec_names ts)"
      by (simp add: tool_spec_names_def list_ex_iff image_iff) metis
    show ?thesis
    proof (cases "?n \<in> set (tool_spec_names ts)")
      case True
      then show ?thesis using 2 Some mem found by simp
    next
      case False
      have "distinct (tool_spec_names (ts @ [f]))" "list_all (\<lambda>n. trim n \<noteq> []) (tool_spec_names (ts @ [f]))"
        "list_all (\<lambda>n. trim n \<noteq> []) (tool_spec_names fs)"
        using 2(4-6) False by (simp_all add: new found)
      with 2(3) [OF Some] False mem show ?thesis using Some by (simp add: new)
    qed
  qed
qed simp

section \<open>Properties\<close>

text \<open>C26: An internal continuation stays within the tool-history contract. From a payload that meets the
  contract, a round whose calls are well formed, of tools that are offered, under fresh distinct identifiers, and in which no call is answered across the cut
  of the truncation to 30 turns, is continued with a payload that
  meets it again: each call has its answer in the new turn, tool definitions stay off the history, and the
  tools a search loaded, whose names are not blank, do not clash with those offered before.\<close>

theorem continuation_keeps_contract:
  assumes "kiro_tool_contract payload"
    and "list_all (good_use (set (current_tool_names (kp_current payload)))) uses" "distinct (map tu_tool_use_id uses)"
    and "set (map tu_tool_use_id uses) \<inter> set (concat (map item_use_ids (kp_history payload))) = {}"
    and "no_answer_across 30 (push_round content uses payload)"
  shows "kiro_tool_contract (auto_continue_payload payload content uses) \<and>
    (map fst searches = uses \<and> (\<forall>(_, outcome) \<in> set searches. list_all (\<lambda>n. trim n \<noteq> []) (tool_spec_names (so_tools outcome)))
      \<longrightarrow> kiro_tool_contract (tool_search_continue_payload_batch payload content searches))"
proof -
  let ?ts = "user_tools (kp_current payload)" and ?ids = "map tu_tool_use_id uses"
  have names: "current_tool_names (kp_current payload) = tool_spec_names ?ts"
    by (simp add: current_tool_names_def tool_spec_names_def)
  have ts: "distinct (tool_spec_names ?ts)" "list_all (\<lambda>n. trim n \<noteq> []) (tool_spec_names ?ts)"
    using assms(1) by (simp_all add: kiro_tool_contract_def Let_def names)
  have across: "no_answer_across 30 (continue_with t rs tools (push_round content uses payload))" for t rs tools
    using assms(5) by (simp add: no_answer_across_def protected_history_len_def continue_with_def with_current_def Let_def)
  have go: "kiro_tool_contract (truncate_history_preserving_protected_prefix 30 (continue_with t rs tools (push_round content uses payload)))"
    if "answers ?ids rs" "distinct (tool_spec_names tools)" "list_all (\<lambda>n. trim n \<noteq> []) (tool_spec_names tools)"
      "set (tool_spec_names ?ts) \<subseteq> set (tool_spec_names tools)" for t rs tools
  proof -
    have "list_all (good_use (set (tool_spec_names tools))) uses"
      using assms(2) that(4) by (auto simp: list_all_iff good_use_def names)
    with that assms(1,3,4) show ?thesis by (intro truncate_contract continue_contract across) (simp_all add: names)
  qed
  have blank: "trim (tu_tool_use_id u) \<noteq> []" if "u \<in> set uses" for u
    using assms(2) that by (auto simp: list_all_iff good_use_def)
  have "kiro_tool_contract (auto_continue_payload payload content uses)"
    unfolding auto_continue_payload_def Let_def
    by (rule go) (use blank ts in \<open>auto simp: answers_def list_all_iff good_result_def comp_def\<close>)
  moreover have "kiro_tool_contract (tool_search_continue_payload_batch payload content searches)"
    if s: "map fst searches = uses" and named: "\<forall>(_, outcome) \<in> set searches. list_all (\<lambda>n. trim n \<noteq> []) (tool_spec_names (so_tools outcome))"
  proof -
    have found: "list_all (\<lambda>n. trim n \<noteq> []) (tool_spec_names (concat (map (\<lambda>(_, outcome). so_tools outcome) searches)))"
      using named by (induction searches) (auto simp: tool_spec_names_def map_filter_def)
    have result: "tr_tool_use_id (tool_search_kiro_result u o') = tu_tool_use_id u \<and> (trim (tu_tool_use_id u) \<noteq> [] \<longrightarrow> good_result (tool_search_kiro_result u o'))"
      for u o' by (auto simp: tool_search_kiro_result_def good_result_def Let_def split: option.split)
    have "answers ?ids (map (\<lambda>(u, outcome). tool_search_kiro_result u outcome) searches)"
    proof -
      have "map tr_tool_use_id (map (\<lambda>(u, outcome). tool_search_kiro_result u outcome) searches) = ?ids"
        using result s by (auto simp: split_beta)
      moreover have "good_result (tool_search_kiro_result u outcome)" if "(u, outcome) \<in> set searches" for u outcome
        using result blank s that by force
      ultimately show ?thesis by (auto simp: answers_def list_all_iff)
    qed
    then show ?thesis unfolding tool_search_continue_payload_batch_def Let_def s
      using load_tools_names [OF ts found] by (intro go) auto
  qed
  ultimately show ?thesis by blast
qed

section \<open>Witness\<close>

definition demo_current :: kiro_user_input_message where
  "demo_current = \<lparr>um_content = ''go'', um_model_id = ''m'', um_origin = ''CLI'', um_images = [], um_documents = [],
     um_cache_point = None, um_client_cache_config = None,
     um_context = Some \<lparr>mc_tool_results = [], mc_tools = [Specification \<lparr>ts_name = ''run'', ts_description = ''d'', ts_input_schema = JObject []\<rparr>],
       mc_env_state = None\<rparr>\<rparr>"

definition demo_payload :: kiro_payload where
  "demo_payload = \<lparr>kp_conversation_state = \<lparr>cs_agent_continuation_id = None, cs_agent_task_type = None, cs_chat_trigger_type = ''MANUAL'',
     cs_conversation_id = ''c'', cs_current_message = demo_current, cs_history = []\<rparr>, kp_profile_arn = None, kp_inference_config = None,
     kp_additional_model_request_fields = None, kp_model_request_intent = None, kp_protected_history_messages = 0\<rparr>"

definition demo_use :: kiro_tool_use where
  "demo_use = \<lparr>tu_tool_use_id = ''t1'', tu_name = ''run'', tu_input = JObject []\<rparr>"

theorem continuation_keeps_contract_witness:
  "kiro_tool_contract (auto_continue_payload demo_payload ''done'' [demo_use]) \<and> length (kp_history (auto_continue_payload demo_payload ''done'' [demo_use])) = 2"
proof
  have trims: "trim ''run'' \<noteq> []" "trim ''t1'' \<noteq> []" by code_simp+
  have names: "current_tool_names demo_current = [''run'']"
    by (simp add: demo_current_def current_tool_names_def user_tools_def map_filter_def)
  have "kiro_tool_contract demo_payload"
    using trims by (simp add: kiro_tool_contract_def demo_payload_def names turns_ok_def answers_def calls_before_def)
      (simp add: demo_current_def user_results_def)
  then show "kiro_tool_contract (auto_continue_payload demo_payload ''done'' [demo_use])"
    using continuation_keeps_contract [of demo_payload "[demo_use]" "''done''" "[]"] trims
    by (simp add: demo_payload_def names demo_use_def good_use_def no_answer_across_def kp_history_push_round Let_def)
  show "length (kp_history (auto_continue_payload demo_payload ''done'' [demo_use])) = 2"
    by (simp add: auto_continue_payload_def truncate_history_preserving_protected_prefix_def kp_history_push_round demo_payload_def)
qed

end
