(* ===== verification/Refresh.thy ===== *)
theory Refresh
  imports Pool
begin

text \<open>
  \<open>crates/kproxy-pool/src/refresh.rs\<close>: token refresh with one refresh at a time per account, and the
  commit of the new credentials by \<open>crates/kproxyd/src/state.rs\<close>. Every \<open>await\<close> ends an atomic
  block, so a refresh is a sequence of blocks: it begins once it has the account's lock, the upstream
  answers, the stored credentials are read again, the new ones are committed. Requests of other tasks
  run in between. The answers of the upstream, the store and the clock are arguments of the blocks.
\<close>

section \<open>Data\<close>

datatype refresh_error =
    NotFound
  | NotRefreshable
  | UpstreamFailed string
  | Persistence string
  | CredentialReload string

record refreshed_credentials =
  rd_account_id :: string
  rd_credentials :: credentials
  rd_profile_arn :: "string option"

record reloaded_credentials =
  rl_credentials :: credentials
  rl_profile_arn :: "string option"

record refresh_outcome =
  ro_changed :: bool
  ro_persistence_error :: "string option"

definition outcome_unchanged :: refresh_outcome where
  "outcome_unchanged = \<lparr>ro_changed = False, ro_persistence_error = None\<rparr>"

definition outcome_changed :: refresh_outcome where
  "outcome_changed = \<lparr>ro_changed = True, ro_persistence_error = None\<rparr>"

definition outcome_persisted :: "refresh_outcome \<Rightarrow> bool" where
  "outcome_persisted o' \<longleftrightarrow> ro_persistence_error o' = None"

datatype refresh_request_failure = RequestNotRefreshable | RequestUpstream "nat option" string

fun failure_status :: "refresh_request_failure \<Rightarrow> nat option" where
  "failure_status RequestNotRefreshable = None"
| "failure_status (RequestUpstream status _) = status"

fun into_refresh_error :: "refresh_request_failure \<Rightarrow> refresh_error" where
  "into_refresh_error RequestNotRefreshable = NotRefreshable"
| "into_refresh_error (RequestUpstream _ message) = UpstreamFailed message"

record refresh_response =
  rr_access_token :: string
  rr_refresh_token :: "string option"
  rr_expires_in :: int
  rr_profile_arn :: "string option"

section \<open>The upstream request\<close>

definition IDE_VERSION :: string where
  "IDE_VERSION = ''1.0.437''"

definition ide_auth_user_agent :: "string \<Rightarrow> string" where
  "ide_auth_user_agent machine_id = ''KiroIDE-'' @ IDE_VERSION @ ''-'' @ machine_id"

datatype refresh_post =
    IdcPost (post_endpoint: string) (post_client_id: string) (post_client_secret: string) (post_refresh_token: string)
  | SocialPost (post_endpoint: string) (post_user_agent: string) (post_refresh_token: string)

definition refresh_post_of :: "string option \<Rightarrow> account \<Rightarrow> refresh_request_failure + refresh_post" where
  "refresh_post_of endpoint_override snap =
     (let c = ac_credentials snap in
      case cr_refresh_token c of
        None \<Rightarrow> Inl RequestNotRefreshable
      | Some refresh_token \<Rightarrow>
          (case cr_auth_method c of
             ApiKey \<Rightarrow> Inl RequestNotRefreshable
           | Idc \<Rightarrow>
               (case (cr_client_id c, cr_client_secret c) of
                  (Some client_id, Some client_secret) \<Rightarrow> Inr (IdcPost
                    (unwrap_or endpoint_override (''https://oidc.'' @ cr_region c @ ''.amazonaws.com/token''))
                    client_id client_secret refresh_token)
                | _ \<Rightarrow> Inl RequestNotRefreshable)
           | Social \<Rightarrow> Inr (SocialPost
               (unwrap_or endpoint_override (''https://prod.'' @ cr_region c @ ''.auth.desktop.kiro.dev/refreshToken''))
               (ide_auth_user_agent (ac_machine_id snap)) refresh_token)))"

text \<open>
  The answer to the request: a success status with its body parsed or not, another status with the
  first 500 characters of its body, or a transport error.
\<close>

datatype refresh_reply =
    ReplyOk nat "string + refresh_response"
  | ReplyStatus nat string string
  | ReplyTransport string

fun reply_result :: "refresh_reply \<Rightarrow> refresh_request_failure + refresh_response" where
  "reply_result (ReplyOk status (Inr tokens)) = Inr tokens"
| "reply_result (ReplyOk status (Inl message)) = Inl (RequestUpstream (Some status) message)"
| "reply_result (ReplyStatus status shown body) =
     Inl (RequestUpstream (Some status) (''HTTP '' @ shown @ '': '' @ body))"
| "reply_result (ReplyTransport message) = Inl (RequestUpstream None message)"

definition request_tokens ::
  "string option \<Rightarrow> refresh_reply \<Rightarrow> account \<Rightarrow> refresh_request_failure + refresh_response" where
  "request_tokens endpoint_override reply snap =
     (case refresh_post_of endpoint_override snap of Inl f \<Rightarrow> Inl f | Inr _ \<Rightarrow> reply_result reply)"

definition validate_refreshable :: "account \<Rightarrow> refresh_error + unit" where
  "validate_refreshable a =
     (let c = ac_credentials a in
      if cr_auth_method c = ApiKey \<or> cr_refresh_token c = None then Inl NotRefreshable
      else if cr_auth_method c = Idc \<and> (cr_client_id c = None \<or> cr_client_secret c = None) then Inl NotRefreshable
      else Inr ())"

definition refresh_inputs_changed :: "credentials \<Rightarrow> credentials \<Rightarrow> bool" where
  "refresh_inputs_changed previous reloaded \<longleftrightarrow>
     cr_refresh_token previous \<noteq> cr_refresh_token reloaded \<or> cr_client_id previous \<noteq> cr_client_id reloaded \<or>
     cr_client_secret previous \<noteq> cr_client_secret reloaded \<or> cr_region previous \<noteq> cr_region reloaded \<or>
     cr_auth_method previous \<noteq> cr_auth_method reloaded"

section \<open>The blocks of a refresh\<close>

record refresh_call =
  rc_force :: bool
  rc_rejected :: "string option"

datatype refresh_phase =
    Idle
  | Requesting account account_health bool
  | Reloading account account_health refresh_request_failure
  | Persisting account_health refreshed_credentials
  | Finished "refresh_error + refresh_outcome"
  | Cancelled

text \<open>\<open>i64\<close> addition as a release build does it.\<close>

definition i64_wrapping_add :: "int \<Rightarrow> int \<Rightarrow> int" where
  "i64_wrapping_add a b = (a + b + 2 ^ 63) mod 2 ^ 64 - 2 ^ 63"

definition set_credentials :: "credentials \<Rightarrow> string option \<Rightarrow> account_state \<Rightarrow> account_state" where
  "set_credentials c arn s = s\<lparr>as_account := (as_account s)\<lparr>ac_credentials := c, ac_profile_arn := arn\<rparr>\<rparr>"

definition refresh_begin ::
  "int \<Rightarrow> int \<Rightarrow> refresh_call \<Rightarrow> account_state \<Rightarrow> refresh_phase \<times> account_state" where
  "refresh_begin before_expiry now call s =
     (let snap = as_account s in
      if (case rc_rejected call of Some rejected \<Rightarrow> cr_access_token (ac_credentials snap) \<noteq> rejected | None \<Rightarrow> False)
      then (Finished (Inr outcome_unchanged), s)
      else if \<not> rc_force call \<and> \<not> is_token_expiring snap now before_expiry
      then (Finished (Inr outcome_unchanged), s)
      else case validate_refreshable snap of
          Inl e \<Rightarrow> (Finished (Inl e), s)
        | Inr _ \<Rightarrow> (Requesting snap (as_health s) False, set_health Refreshing s))"

definition refresh_failed ::
  "int \<Rightarrow> refresh_call \<Rightarrow> account \<Rightarrow> account_health \<Rightarrow> refresh_request_failure \<Rightarrow> account_state \<Rightarrow> refresh_phase \<times> account_state" where
  "refresh_failed now call snap health_before failure s =
     (Finished (Inl (into_refresh_error failure)),
      if rc_force call \<or> cr_expires_at (ac_credentials snap) \<le> now then set_health Banned s
      else restore_health_after_refresh health_before s)"

definition install_tokens :: "int \<Rightarrow> refresh_response \<Rightarrow> account_state \<Rightarrow> account_state" where
  "install_tokens now tokens s =
     (let c = ac_credentials (as_account s) in
      set_credentials
        (c\<lparr>cr_access_token := rr_access_token tokens,
           cr_refresh_token := or_else (rr_refresh_token tokens) (cr_refresh_token c),
           cr_expires_at := i64_wrapping_add now (rr_expires_in tokens)\<rparr>)
        (or_else (rr_profile_arn tokens) (ac_profile_arn (as_account s))) s)"

definition refresh_settle ::
  "int \<Rightarrow> refresh_call \<Rightarrow> account \<Rightarrow> account_health \<Rightarrow> refresh_request_failure + refresh_response \<Rightarrow>
     account_state \<Rightarrow> refresh_phase \<times> account_state" where
  "refresh_settle now call snap health_before result s =
     (case result of
        Inl failure \<Rightarrow> refresh_failed now call snap health_before failure s
      | Inr tokens \<Rightarrow>
          (let s' = install_tokens now tokens s
           in (Persisting health_before \<lparr>rd_account_id = ac_id (as_account s'), rd_credentials = ac_credentials (as_account s'),
                 rd_profile_arn = rr_profile_arn tokens\<rparr>, s')))"

definition refresh_answered ::
  "string option \<Rightarrow> int \<Rightarrow> refresh_call \<Rightarrow> refresh_reply \<Rightarrow> account \<Rightarrow> account_health \<Rightarrow> bool \<Rightarrow>
     account_state \<Rightarrow> refresh_phase \<times> account_state" where
  "refresh_answered endpoint_override now call reply snap health_before retried s =
     (case request_tokens endpoint_override reply snap of
        Inl failure \<Rightarrow>
          if \<not> retried \<and> cr_auth_method (ac_credentials snap) = Idc \<and> failure_status failure = Some 400
          then (Reloading snap health_before failure, s)
          else refresh_settle now call snap health_before (Inl failure) s
      | Inr tokens \<Rightarrow> refresh_settle now call snap health_before (Inr tokens) s)"

definition refresh_reloaded ::
  "int \<Rightarrow> refresh_call \<Rightarrow> string + reloaded_credentials option \<Rightarrow> account \<Rightarrow> account_health \<Rightarrow> refresh_request_failure \<Rightarrow>
     account_state \<Rightarrow> refresh_phase \<times> account_state" where
  "refresh_reloaded now call reloaded snap health_before failure s =
     (case reloaded of
        Inl error \<Rightarrow> (Finished (Inl (CredentialReload error)), set_health Banned s)
      | Inr None \<Rightarrow> refresh_settle now call snap health_before (Inl failure) s
      | Inr (Some r) \<Rightarrow>
          (let access_token_changed = (cr_access_token (rl_credentials r) \<noteq> cr_access_token (ac_credentials snap))
           in if access_token_changed \<or> refresh_inputs_changed (ac_credentials snap) (rl_credentials r)
              then (let s' = set_credentials (rl_credentials r) (rl_profile_arn r) s in
                    if access_token_changed then (Finished (Inr outcome_changed), restore_health_after_refresh health_before s')
                    else case validate_refreshable (as_account s') of
                        Inl error \<Rightarrow> (Finished (Inl error), set_health Banned s')
                      | Inr _ \<Rightarrow> (Requesting (as_account s') health_before True, s'))
              else refresh_settle now call snap health_before (Inl failure) s))"

text \<open>
  The commit: \<open>persist_refreshed_credentials\<close> writes the new credentials into the account again when it
  gets as far as holding the storage locks, whether or not the file is written after that.
\<close>

definition refresh_persisted ::
  "bool \<Rightarrow> string option \<Rightarrow> account_health \<Rightarrow> refreshed_credentials \<Rightarrow> account_state \<Rightarrow> refresh_phase \<times> account_state" where
  "refresh_persisted reasserted persistence_error health_before refreshed s =
     (let s' = (if reasserted
                then set_credentials (rd_credentials refreshed) (or_else (rd_profile_arn refreshed) (ac_profile_arn (as_account s))) s else s)
      in (Finished (Inr \<lparr>ro_changed = True, ro_persistence_error = persistence_error\<rparr>),
          restore_health_after_refresh health_before s'))"

section \<open>Concurrent refreshes of one account\<close>

record refresh_system =
  sy_state :: account_state
  sy_lock :: "nat option"
  sy_phase :: "nat \<Rightarrow> refresh_phase"
  sy_sent :: "(nat \<times> refresh_post) list"

fun in_flight :: "refresh_phase \<Rightarrow> bool" where
  "in_flight (Requesting _ _ _) = True"
| "in_flight (Reloading _ _ _) = True"
| "in_flight (Persisting _ _) = True"
| "in_flight _ = False"

text \<open>Entering a phase: a request goes out, and the lock is kept while the refresh is in flight.\<close>

definition posts_of :: "string option \<Rightarrow> nat \<Rightarrow> refresh_phase \<Rightarrow> (nat \<times> refresh_post) list" where
  "posts_of endpoint_override i ph =
     (case ph of Requesting snap _ _ \<Rightarrow>
        (case refresh_post_of endpoint_override snap of Inr post \<Rightarrow> [(i, post)] | Inl _ \<Rightarrow> []) | _ \<Rightarrow> [])"

definition enter :: "string option \<Rightarrow> nat \<Rightarrow> refresh_phase \<times> account_state \<Rightarrow> refresh_system \<Rightarrow> refresh_system" where
  "enter endpoint_override i = (\<lambda>(ph, s) sys.
     sys\<lparr>sy_state := s, sy_phase := (sy_phase sys)(i := ph),
       sy_lock := (if in_flight ph then Some i else None),
       sy_sent := sy_sent sys @ posts_of endpoint_override i ph\<rparr>)"

text \<open>
  The steps. Other tasks may change the account's health meanwhile, but only a refresh sets
  \<open>Refreshing\<close>. They may also edit or replace the account, its credentials included, without the lock, as a
  reload of the accounts does; \<open>edit\<close> says which edits are made. A task that is dropped while it waits releases the lock and does nothing else.
\<close>

inductive refresh_step ::
  "string option \<Rightarrow> int \<Rightarrow> (nat \<Rightarrow> refresh_call) \<Rightarrow> (account \<Rightarrow> account \<Rightarrow> bool) \<Rightarrow> bool \<Rightarrow> refresh_system \<Rightarrow> refresh_system \<Rightarrow> bool"
  for ep :: "string option" and before_expiry :: int and calls :: "nat \<Rightarrow> refresh_call"
    and edit :: "account \<Rightarrow> account \<Rightarrow> bool" and droppable :: bool where
  step_begin: "sy_lock sys = None \<Longrightarrow> sy_phase sys i = Idle \<Longrightarrow>
    refresh_step ep before_expiry calls edit droppable sys (enter ep i (refresh_begin before_expiry now (calls i) (sy_state sys)) sys)"
| step_answered: "sy_phase sys i = Requesting snap health retried \<Longrightarrow>
    refresh_step ep before_expiry calls edit droppable sys
      (enter ep i (refresh_answered ep now (calls i) reply snap health retried (sy_state sys)) sys)"
| step_reloaded: "sy_phase sys i = Reloading snap health failure \<Longrightarrow>
    refresh_step ep before_expiry calls edit droppable sys
      (enter ep i (refresh_reloaded now (calls i) reloaded snap health failure (sy_state sys)) sys)"
| step_persisted: "sy_phase sys i = Persisting health refreshed \<Longrightarrow>
    refresh_step ep before_expiry calls edit droppable sys (enter ep i (refresh_persisted reasserted error health refreshed (sy_state sys)) sys)"
| step_other_health: "h \<noteq> Refreshing \<Longrightarrow>
    refresh_step ep before_expiry calls edit droppable sys (sys\<lparr>sy_state := set_health h (sy_state sys)\<rparr>)"
| step_edited: "edit (as_account (sy_state sys)) a \<Longrightarrow>
    refresh_step ep before_expiry calls edit droppable sys (sys\<lparr>sy_state := (sy_state sys)\<lparr>as_account := a\<rparr>\<rparr>)"
| step_dropped: "droppable \<Longrightarrow> sy_phase sys i = Idle \<or> in_flight (sy_phase sys i) \<Longrightarrow>
    refresh_step ep before_expiry calls edit droppable sys
      (sys\<lparr>sy_phase := (sy_phase sys)(i := Cancelled), sy_lock := (if in_flight (sy_phase sys i) then None else sy_lock sys)\<rparr>)"

inductive_simps refresh_step_iff: "refresh_step ep before_expiry calls edit droppable sys sys'"

definition refresh_start :: "account_state \<Rightarrow> refresh_system" where
  "refresh_start s = \<lparr>sy_state = s, sy_lock = None, sy_phase = (\<lambda>_. Idle), sy_sent = []\<rparr>"

end
