(* ===== verification/RefreshCorrect.thy ===== *)
theory RefreshCorrect
  imports Refresh
begin

text \<open>
  Refreshes of one account under every interleaving: one at a time, an account is not left in the
  refreshing state, and a rejected token is replaced once.
\<close>

section \<open>One refresh at a time\<close>

lemma restore_not_refreshing [simp]: "as_health (restore_health_after_refresh h s) \<noteq> Refreshing"
  by (cases h) (auto simp: restore_health_after_refresh_def set_health_def Let_def)

lemma refresh_failed_health: "as_health (snd (refresh_failed now call snap h f s)) \<noteq> Refreshing"
  by (simp add: refresh_failed_def set_health_def)

lemma settle_health: "in_flight (fst (refresh_settle now call snap h r s)) \<or> as_health (snd (refresh_settle now call snap h r s)) \<noteq> Refreshing"
  by (simp add: refresh_settle_def Let_def refresh_failed_health split: sum.split)

lemma begin_health:
  "as_health s \<noteq> Refreshing \<Longrightarrow> in_flight (fst (refresh_begin b now call s)) \<or> as_health (snd (refresh_begin b now call s)) \<noteq> Refreshing"
  by (simp add: refresh_begin_def Let_def split: sum.split option.split)

lemma answered_health:
  "in_flight (fst (refresh_answered ep now call reply snap h retried s)) \<or> as_health (snd (refresh_answered ep now call reply snap h retried s)) \<noteq> Refreshing"
  by (simp add: refresh_answered_def settle_health split: sum.split)

lemma reloaded_health:
  "in_flight (fst (refresh_reloaded now call reloaded snap h f s)) \<or> as_health (snd (refresh_reloaded now call reloaded snap h f s)) \<noteq> Refreshing"
  by (simp add: refresh_reloaded_def settle_health Let_def set_health_def split: sum.split option.split)

lemma persisted_health: "as_health (snd (refresh_persisted re err h r s)) \<noteq> Refreshing"
  by (simp add: refresh_persisted_def Let_def)

definition lock_inv :: "bool \<Rightarrow> refresh_system \<Rightarrow> bool" where
  "lock_inv droppable sys \<longleftrightarrow> (\<forall>i. in_flight (sy_phase sys i) \<longleftrightarrow> sy_lock sys = Some i) \<and>
     (\<not> droppable \<longrightarrow> as_health (sy_state sys) = Refreshing \<longrightarrow> sy_lock sys \<noteq> None)"

lemma in_flight_lock: "lock_inv d sys \<Longrightarrow> in_flight (sy_phase sys i) \<Longrightarrow> sy_lock sys = Some i"
  by (simp add: lock_inv_def)

lemma enter_lock_inv:
  assumes "lock_inv d sys" "sy_lock sys = None \<or> sy_lock sys = Some i" "d \<or> in_flight (fst x) \<or> as_health (snd x) \<noteq> Refreshing"
  shows "lock_inv d (enter ep i x sys)"
  using assms by (auto simp: lock_inv_def enter_def split: prod.splits)

lemma lock_inv_step: "refresh_step ep b calls edit d sys sys' \<Longrightarrow> lock_inv d sys \<Longrightarrow> lock_inv d sys'"
proof (induction rule: refresh_step.induct)
  case (step_begin sys i now)
  then have "d \<or> as_health (sy_state sys) \<noteq> Refreshing" by (auto simp: lock_inv_def)
  then have "d \<or> in_flight (fst (refresh_begin b now (calls i) (sy_state sys))) \<or>
      as_health (snd (refresh_begin b now (calls i) (sy_state sys))) \<noteq> Refreshing" using begin_health by blast
  with step_begin show ?case by (intro enter_lock_inv) simp_all
next
  case (step_answered sys i snap health retried now reply)
  then have "sy_lock sys = Some i" using in_flight_lock [of d sys i] by simp
  with step_answered answered_health show ?case by (intro enter_lock_inv disjI2 [of d]) simp_all
next
  case (step_reloaded sys i snap health failure now reloaded)
  then have "sy_lock sys = Some i" using in_flight_lock [of d sys i] by simp
  with step_reloaded reloaded_health show ?case by (intro enter_lock_inv disjI2 [of d]) simp_all
next
  case (step_persisted sys i health refreshed reasserted error)
  then have "sy_lock sys = Some i" using in_flight_lock [of d sys i] by simp
  with step_persisted persisted_health show ?case by (intro enter_lock_inv disjI2 [of d]) simp_all
next
  case (step_other_health h sys)
  then show ?case by (auto simp: lock_inv_def set_health_def)
next
  case (step_edited sys a)
  then show ?case by (simp add: lock_inv_def)
next
  case (step_dropped sys i)
  then show ?case by (auto simp: lock_inv_def)
qed

lemma lock_inv_reachable:
  assumes "(refresh_step ep b calls edit d)\<^sup>*\<^sup>* (refresh_start s) sys" "as_health s \<noteq> Refreshing"
  shows "lock_inv d sys"
  using assms
proof (induction rule: rtranclp_induct)
  case base
  then show ?case by (simp add: lock_inv_def refresh_start_def)
qed (blast intro: lock_inv_step)

section \<open>One refresh for a rejected token\<close>

abbreviation token_of :: "account_state \<Rightarrow> string" where
  "token_of s \<equiv> cr_access_token (ac_credentials (as_account s))"

fun replaced :: "refresh_phase \<Rightarrow> bool" where
  "replaced (Persisting _ _) = True"
| "replaced (Finished (Inr outcome)) = ro_changed outcome"
| "replaced _ = False"

fun phase_token :: "string \<Rightarrow> refresh_phase \<Rightarrow> bool" where
  "phase_token t (Requesting snap _ _) \<longleftrightarrow> cr_access_token (ac_credentials snap) = t"
| "phase_token t (Reloading snap _ _) \<longleftrightarrow> cr_access_token (ac_credentials snap) = t"
| "phase_token t (Persisting _ r) \<longleftrightarrow> cr_access_token (rd_credentials r) \<noteq> t"
| "phase_token t _ \<longleftrightarrow> True"

definition once_inv :: "string \<Rightarrow> refresh_system \<Rightarrow> bool" where
  "once_inv t sys \<longleftrightarrow> lock_inv True sys \<and> (\<forall>i. phase_token t (sy_phase sys i)) \<and>
     (\<forall>i. replaced (sy_phase sys i) \<longrightarrow> token_of (sy_state sys) \<noteq> t) \<and>
     (\<forall>i j. in_flight (sy_phase sys i) \<and> replaced (sy_phase sys j) \<longrightarrow> i = j) \<and>
     (\<forall>i j. replaced (sy_phase sys i) \<and> replaced (sy_phase sys j) \<longrightarrow> i = j)"

text \<open>The upstream does not hand out the rejected token again, and no other task puts it back.\<close>

definition never_back :: "string \<Rightarrow> (account \<Rightarrow> account \<Rightarrow> bool) \<Rightarrow> bool" where
  "never_back t edit \<longleftrightarrow> (\<forall>a b. edit a b \<and> cr_access_token (ac_credentials a) \<noteq> t \<longrightarrow> cr_access_token (ac_credentials b) \<noteq> t)"

definition fresh_tokens :: "string \<Rightarrow> refresh_system \<Rightarrow> bool" where
  "fresh_tokens t sys \<longleftrightarrow> (\<forall>i h r. sy_phase sys i = Persisting h r \<longrightarrow> cr_access_token (rd_credentials r) \<noteq> t)"

lemma enter_once:
  assumes inv: "once_inv t sys" and lock: "sy_lock sys = None \<or> in_flight (sy_phase sys i)"
    and x: "phase_token t (fst x)" "replaced (fst x) \<longrightarrow> token_of (snd x) \<noteq> t"
    and others: "replaced (fst x) \<or> in_flight (fst x) \<longrightarrow> (\<forall>j. j \<noteq> i \<longrightarrow> \<not> replaced (sy_phase sys j))"
      "(\<exists>j. j \<noteq> i \<and> replaced (sy_phase sys j)) \<longrightarrow> token_of (snd x) \<noteq> t"
  shows "once_inv t (enter ep i x sys)"
proof -
  have lk: "sy_lock sys = None \<or> sy_lock sys = Some i" using inv lock by (auto simp: once_inv_def lock_inv_def)
  have idle: "\<not> in_flight (sy_phase sys j)" if "j \<noteq> i" for j
    using inv lk that by (auto simp: once_inv_def lock_inv_def)
  have lock': "lock_inv True (enter ep i x sys)"
    using inv lk by (intro enter_lock_inv) (auto simp: once_inv_def)
  have ph: "sy_phase (enter ep i x sys) = (sy_phase sys)(i := fst x)" and st: "sy_state (enter ep i x sys) = snd x"
    by (simp_all add: enter_def split_beta)
  have old: "phase_token t (sy_phase sys j)" "replaced (sy_phase sys j) \<and> replaced (sy_phase sys k) \<longrightarrow> j = k" for j k
    using inv by (simp_all add: once_inv_def)
  have 1: "phase_token t (((sy_phase sys)(i := fst x)) j)" for j using old x(1) by simp
  have 2: "token_of (snd x) \<noteq> t" if "replaced (((sy_phase sys)(i := fst x)) j)" for j
    using that x(2) others(2) by (cases "j = i") auto
  have 3: "j = k" if "in_flight (((sy_phase sys)(i := fst x)) j)" "replaced (((sy_phase sys)(i := fst x)) k)" for j k
    using that others(1) idle by (cases "j = i"; cases "k = i") auto
  have 4: "j = k" if "replaced (((sy_phase sys)(i := fst x)) j)" "replaced (((sy_phase sys)(i := fst x)) k)" for j k
    using that others(1) old(2) by (metis fun_upd_apply)
  show ?thesis unfolding once_inv_def ph st using lock' 1 2 3 4 by blast
qed

lemma in_flight_no_other: "once_inv t sys \<Longrightarrow> in_flight (sy_phase sys i) \<Longrightarrow> j \<noteq> i \<Longrightarrow> \<not> replaced (sy_phase sys j)"
  unfolding once_inv_def by blast

lemma begin_once:
  assumes "rc_rejected call = Some t"
  shows "token_of (snd (refresh_begin b now call s)) = token_of s \<and> phase_token t (fst (refresh_begin b now call s)) \<and>
    \<not> replaced (fst (refresh_begin b now call s)) \<and> (in_flight (fst (refresh_begin b now call s)) \<longrightarrow> token_of s = t)"
  using assms by (auto simp: refresh_begin_def Let_def set_health_def outcome_unchanged_def split: sum.split)

lemma failed_once:
  "token_of (snd (refresh_failed now call snap h f s)) = token_of s \<and> phase_token t (fst (refresh_failed now call snap h f s)) \<and>
   \<not> replaced (fst (refresh_failed now call snap h f s)) \<and> \<not> in_flight (fst (refresh_failed now call snap h f s))"
  by (simp add: refresh_failed_def set_health_def restore_health_after_refresh_def Let_def)

lemma settle_once:
  assumes "\<And>h r. fst (refresh_settle now call snap g res s) = Persisting h r \<Longrightarrow> cr_access_token (rd_credentials r) \<noteq> t"
  shows "phase_token t (fst (refresh_settle now call snap g res s)) \<and>
    (replaced (fst (refresh_settle now call snap g res s)) \<longrightarrow> token_of (snd (refresh_settle now call snap g res s)) \<noteq> t)"
  using assms by (cases res) (auto simp: refresh_settle_def failed_once Let_def)

lemma answered_once:
  assumes "cr_access_token (ac_credentials snap) = t"
    and "\<And>h r. fst (refresh_answered ep now call reply snap g retried s) = Persisting h r \<Longrightarrow> cr_access_token (rd_credentials r) \<noteq> t"
  shows "phase_token t (fst (refresh_answered ep now call reply snap g retried s)) \<and>
    (replaced (fst (refresh_answered ep now call reply snap g retried s)) \<longrightarrow> token_of (snd (refresh_answered ep now call reply snap g retried s)) \<noteq> t)"
proof (cases "request_tokens ep reply snap")
  case (Inl f)
  then show ?thesis using assms(1) failed_once by (auto simp: refresh_answered_def refresh_settle_def)
next
  case (Inr tokens)
  then show ?thesis using settle_once [of now call snap g "Inr tokens" s t] assms(2) by (simp add: refresh_answered_def)
qed

lemma reloaded_once:
  assumes "cr_access_token (ac_credentials snap) = t"
  shows "phase_token t (fst (refresh_reloaded now call reloaded snap g f s)) \<and>
    (replaced (fst (refresh_reloaded now call reloaded snap g f s)) \<longrightarrow> token_of (snd (refresh_reloaded now call reloaded snap g f s)) \<noteq> t)"
  using assms failed_once
  by (auto simp: refresh_reloaded_def refresh_settle_def Let_def set_credentials_def set_health_def restore_health_after_refresh_def
      split: sum.split option.split)

lemma persisted_once:
  assumes "cr_access_token (rd_credentials r) \<noteq> t" "token_of s \<noteq> t"
  shows "phase_token t (fst (refresh_persisted re err h r s)) \<and> token_of (snd (refresh_persisted re err h r s)) \<noteq> t"
  using assms by (auto simp: refresh_persisted_def Let_def set_credentials_def set_health_def restore_health_after_refresh_def)

lemma once_inv_step:
  assumes step: "refresh_step ep b calls edit True sys sys'" and inv: "once_inv t sys" and fresh: "fresh_tokens t sys'"
    and calls: "\<And>i. rc_rejected (calls i) = Some t" and edits: "never_back t edit"
  shows "once_inv t sys'"
  using step
proof (cases rule: refresh_step.cases)
  case (step_begin i now)
  note b = begin_once [OF calls [of i], of b now "sy_state sys"]
  have "\<not> replaced (sy_phase sys j)" if "token_of (sy_state sys) = t" for j using inv that by (auto simp: once_inv_def)
  then show ?thesis unfolding step_begin(1)
    by (intro enter_once inv) (use b step_begin inv in \<open>auto simp: once_inv_def\<close>)
next
  case (step_answered i snap health retried now reply)
  have t: "cr_access_token (ac_credentials snap) = t" using inv step_answered(2) unfolding once_inv_def by (metis phase_token.simps(1))
  let ?x = "refresh_answered ep now (calls i) reply snap health retried (sy_state sys)"
  have "cr_access_token (rd_credentials r) \<noteq> t" if "fst ?x = Persisting h r" for h r
    using fresh that unfolding fresh_tokens_def step_answered(1) by (simp add: enter_def split_beta) (metis)
  then have "phase_token t (fst ?x) \<and> (replaced (fst ?x) \<longrightarrow> token_of (snd ?x) \<noteq> t)" by (intro answered_once t)
  moreover have no: "\<not> replaced (sy_phase sys j)" if "j \<noteq> i" for j using in_flight_no_other [OF inv, of i j] step_answered that by simp
  ultimately show ?thesis unfolding step_answered(1)
    by (intro enter_once inv) (use step_answered no in auto)
next
  case (step_reloaded i snap health failure now reloaded)
  have t: "cr_access_token (ac_credentials snap) = t" using inv step_reloaded(2) unfolding once_inv_def by (metis phase_token.simps(2))
  have no: "\<not> replaced (sy_phase sys j)" if "j \<noteq> i" for j using in_flight_no_other [OF inv, of i j] step_reloaded that by simp
  from reloaded_once [OF t, of now "calls i" reloaded health failure "sy_state sys"] show ?thesis unfolding step_reloaded(1)
    by (intro enter_once inv) (use step_reloaded no in auto)
next
  case (step_persisted i health refreshed reasserted error)
  have "cr_access_token (rd_credentials refreshed) \<noteq> t" "token_of (sy_state sys) \<noteq> t"
    using inv step_persisted(2) unfolding once_inv_def by (metis phase_token.simps(3), metis replaced.simps(1))
  then have "phase_token t (fst (refresh_persisted reasserted error health refreshed (sy_state sys))) \<and>
      token_of (snd (refresh_persisted reasserted error health refreshed (sy_state sys))) \<noteq> t" by (rule persisted_once)
  moreover have no: "\<not> replaced (sy_phase sys j)" if "j \<noteq> i" for j using in_flight_no_other [OF inv, of i j] step_persisted that by simp
  ultimately show ?thesis unfolding step_persisted(1)
    by (intro enter_once inv) (use step_persisted no in auto)
next
  case (step_other_health h)
  then show ?thesis using inv by (auto simp: once_inv_def lock_inv_def set_health_def)
next
  case (step_edited a)
  then show ?thesis using inv edits by (simp add: once_inv_def lock_inv_def never_back_def) blast
next
  case (step_dropped i)
  then show ?thesis using inv by (auto simp: once_inv_def lock_inv_def)
qed

lemma once_inv_reachable:
  assumes "(\<lambda>x y. refresh_step ep b calls edit True x y \<and> fresh_tokens t y)\<^sup>*\<^sup>* (refresh_start s) sys"
    and "\<And>i. rc_rejected (calls i) = Some t" "as_health s \<noteq> Refreshing" "never_back t edit"
  shows "once_inv t sys"
  using assms(1)
proof (induction rule: rtranclp_induct)
  case base
  then show ?case using assms(3) by (simp add: once_inv_def lock_inv_def refresh_start_def)
next
  case (step y z)
  then show ?case using once_inv_step [of ep b calls edit y z t] assms(2,4) by blast
qed

section \<open>Properties\<close>

text \<open>C13: Refreshes of an account run one at a time and end. Under every interleaving of any number of
  refreshes with other tasks that change the account's health or edit the account, and as long as no task is dropped while it
  waits, at most one refresh is in flight, and the account is marked as refreshing only while one is: whatever the upstream
  and the store answer, a refresh that ends leaves the mark to nobody.\<close>

theorem refresh_exclusive_and_ends:
  assumes "(refresh_step ep before_expiry calls edit False)\<^sup>*\<^sup>* (refresh_start s) sys" and "as_health s \<noteq> Refreshing"
  shows "(in_flight (sy_phase sys i) \<and> in_flight (sy_phase sys j) \<longrightarrow> i = j) \<and>
    (as_health (sy_state sys) = Refreshing \<longrightarrow> (\<exists>i. in_flight (sy_phase sys i)))"
proof -
  have "lock_inv False sys" using lock_inv_reachable [OF assms] .
  then show ?thesis unfolding lock_inv_def by (metis option.collapse option.inject)
qed


text \<open>What a successful refresh leaves: the new tokens in the account and in what is committed, the
  refresh token kept when the upstream does not rotate it, nothing else of the account touched, and the
  result stands even if writing it to disk fails.\<close>

theorem refresh_success_exact:
  assumes "refresh_answered ep now call reply snap h retried s = (Persisting h' r, s1)"
    and "refresh_persisted reasserted error h' r (s1\<lparr>as_health := g\<rparr>) = (ph, s2)"
  shows "\<exists>tokens. request_tokens ep reply snap = Inr tokens \<and>
    ac_credentials (as_account s2) = (ac_credentials (as_account s))\<lparr>cr_access_token := rr_access_token tokens,
      cr_refresh_token := or_else (rr_refresh_token tokens) (cr_refresh_token (ac_credentials (as_account s))),
      cr_expires_at := i64_wrapping_add now (rr_expires_in tokens)\<rparr> \<and>
    rd_credentials r = ac_credentials (as_account s2) \<and>
    as_account s2 = (as_account s)\<lparr>ac_credentials := ac_credentials (as_account s2), ac_profile_arn := ac_profile_arn (as_account s2)\<rparr> \<and>
    ac_profile_arn (as_account s2) = or_else (rr_profile_arn tokens) (ac_profile_arn (as_account s)) \<and>
    ph = Finished (Inr \<lparr>ro_changed = True, ro_persistence_error = error\<rparr>) \<and>
    (g \<noteq> Refreshing \<longrightarrow> as_health s2 = g)"
proof (cases "request_tokens ep reply snap")
  case (Inl f)
  then show ?thesis using assms(1) by (simp add: refresh_answered_def refresh_settle_def refresh_failed_def split: if_splits)
next
  case (Inr tokens)
  then have "h' = h" "s1 = install_tokens now tokens s" "rd_credentials r = ac_credentials (as_account s1)" "rd_profile_arn r = rr_profile_arn tokens"
    using assms(1) by (auto simp: refresh_answered_def refresh_settle_def Let_def)
  with Inr assms(2) show ?thesis
    by (auto simp: refresh_persisted_def Let_def install_tokens_def set_credentials_def restore_health_after_refresh_def set_health_def or_else_def
        split: if_splits option.splits)
qed

text \<open>A refresh that is dropped while the upstream works leaves the account marked as refreshing with
  nobody at work, so it is not scheduled again until another refresh of it succeeds.\<close>

theorem dropped_refresh_leaves_mark:
  assumes "refresh_begin before_expiry now (calls i) s = (Requesting snap h False, s')"
  shows "\<exists>sys. (refresh_step ep before_expiry calls edit True)\<^sup>*\<^sup>* (refresh_start s) sys \<and> sy_lock sys = None \<and>
    (\<forall>j. \<not> in_flight (sy_phase sys j)) \<and> as_health (sy_state sys) = Refreshing"
proof -
  let ?s0 = "refresh_start s"
  let ?s1 = "enter ep i (refresh_begin before_expiry now (calls i) (sy_state ?s0)) ?s0"
  let ?s2 = "?s1\<lparr>sy_phase := (sy_phase ?s1)(i := Cancelled), sy_lock := (if in_flight (sy_phase ?s1 i) then None else sy_lock ?s1)\<rparr>"
  have s1: "sy_phase ?s1 = (\<lambda>_. Idle)(i := Requesting snap h False)" "sy_state ?s1 = s'"
    using assms by (simp_all add: enter_def refresh_start_def)
  have "refresh_step ep before_expiry calls edit True ?s0 ?s1" by (rule step_begin) (simp_all add: refresh_start_def)
  moreover have "refresh_step ep before_expiry calls edit True ?s1 ?s2" by (rule step_dropped) (simp_all add: s1)
  ultimately have "(refresh_step ep before_expiry calls edit True)\<^sup>*\<^sup>* ?s0 ?s2" by (meson rtranclp.rtrancl_into_rtrancl rtranclp.rtrancl_refl)
  moreover have "as_health s' = Refreshing"
    using assms by (auto simp: refresh_begin_def Let_def set_health_def split: sum.splits if_splits)
  ultimately show ?thesis by (intro exI [of _ ?s2]) (simp add: s1)
qed

section \<open>Witnesses\<close>

definition demo_account :: account where
  "demo_account = \<lparr>ac_id = ''acc'', ac_email = ''a'', ac_label = None, ac_enabled = True, ac_machine_id = ''m'', ac_profile_arn = None,
     ac_upstream_user_id = None, ac_credentials = \<lparr>cr_access_token = ''old'', cr_refresh_token = Some ''r'', cr_client_id = None,
       cr_client_secret = None, cr_region = ''us-east-1'', cr_expires_at = 0, cr_auth_method = Social\<rparr>,
     ac_usage = None, ac_subscription = None, ac_tags = [], ac_created_at = 0, ac_credit_exhausted = False\<rparr>"

definition demo_calls :: "nat \<Rightarrow> refresh_call" where
  "demo_calls i = \<lparr>rc_force = True, rc_rejected = Some ''old''\<rparr>"

definition demo_reply :: refresh_reply where
  "demo_reply = ReplyOk 200 (Inr \<lparr>rr_access_token = ''new'', rr_refresh_token = None, rr_expires_in = 3600, rr_profile_arn = None\<rparr>)"

text \<open>Other tasks may relabel the account.\<close>

definition demo_edit :: "account \<Rightarrow> account \<Rightarrow> bool" where
  "demo_edit a b \<longleftrightarrow> b = a\<lparr>ac_label := ac_label b\<rparr>"

lemma demo_edit_back: "never_back t demo_edit"
  unfolding never_back_def demo_edit_def by (metis account.select_convs(8) account.surjective account.update_convs(3))

abbreviation demo_sys0 :: refresh_system where
  "demo_sys0 \<equiv> refresh_start (account_state_new demo_account)"

abbreviation demo_sys1 :: refresh_system where
  "demo_sys1 \<equiv> enter None 0 (refresh_begin 60 0 (demo_calls 0) (sy_state demo_sys0)) demo_sys0"

lemma demo_begin: "sy_phase demo_sys1 = (\<lambda>_. Idle)(0 := Requesting demo_account Available False)"
  by (simp add: enter_def refresh_start_def refresh_begin_def demo_calls_def demo_account_def account_state_new_def validate_refreshable_def
      set_health_def Let_def)

lemma demo_step1: "refresh_step None 60 demo_calls demo_edit d demo_sys0 demo_sys1"
  by (rule step_begin) (simp_all add: refresh_start_def)

theorem refresh_exclusive_and_ends_witness:
  "as_health (sy_state demo_sys1) = Refreshing \<and> (\<exists>i. in_flight (sy_phase demo_sys1 i))"
proof -
  have mark: "as_health (sy_state demo_sys1) = Refreshing"
    by (simp add: enter_def refresh_start_def refresh_begin_def demo_calls_def demo_account_def account_state_new_def validate_refreshable_def
        set_health_def Let_def)
  moreover have "as_health (account_state_new demo_account) \<noteq> Refreshing" by (simp add: account_state_new_def)
  moreover have "(refresh_step None 60 demo_calls demo_edit False)\<^sup>*\<^sup>* demo_sys0 demo_sys1" using demo_step1 by (rule r_into_rtranclp)
  ultimately show ?thesis using refresh_exclusive_and_ends [of None 60 demo_calls demo_edit "account_state_new demo_account" demo_sys1] by blast
qed

abbreviation demo_sys2 :: refresh_system where
  "demo_sys2 \<equiv> enter None 0 (refresh_answered None 0 (demo_calls 0) demo_reply demo_account Available False (sy_state demo_sys1)) demo_sys1"


end
