(* ===== verification/ErrorText.thy ===== *)
theory ErrorText
  imports StopFilter Model
begin

text \<open>
  \<open>crates/kproxy-translate/src/error.rs\<close>: the normalisation of error messages before a client sees them.
  A message is the list of its characters, each in UTF-8. The two patterns of the \<open>regex\<close> crate are
  written out as leftmost greedy matchers: with \<open>(?i)\<close> an ASCII letter also matches its other case
  and, for \<open>k\<close> and \<open>s\<close>, the Kelvin sign and the long s; \<open>\s\<close> is the property \<open>White_Space\<close>.
\<close>

section \<open>Characters\<close>

type_synonym text_chars = "string list"

definition is_cont :: "char \<Rightarrow> bool" where
  "is_cont c \<longleftrightarrow> 128 \<le> byte c \<and> byte c \<le> 191"

function chars :: "string \<Rightarrow> text_chars" where
  "chars [] = []"
| "chars (c # cs) = (c # takeWhile is_cont cs) # chars (dropWhile is_cont cs)"
  by pat_completeness auto
termination
  by (relation "measure length") (auto simp: le_imp_less_Suc length_dropWhile_le)

definition lit :: "string \<Rightarrow> text_chars" where
  "lit s = map (\<lambda>c. [c]) s"

definition lower_char :: "string \<Rightarrow> string" where
  "lower_char ch = map ascii_lower ch"

abbreviation lower_chars :: "text_chars \<Rightarrow> text_chars" where
  "lower_chars cs \<equiv> map lower_char cs"

text \<open>\<open>lower.contains(p)\<close> for an ASCII pattern.\<close>

definition mentions :: "string \<Rightarrow> text_chars \<Rightarrow> bool" where
  "mentions p cs \<longleftrightarrow> sublist (lit p) (lower_chars cs)"

text \<open>The Unicode category \<open>Cc\<close>.\<close>

definition is_control :: "string \<Rightarrow> bool" where
  "is_control ch \<longleftrightarrow> (case ch of
       [c] \<Rightarrow> byte c < 32 \<or> byte c = 127
     | [c, d] \<Rightarrow> byte c = 0xC2 \<and> 0x80 \<le> byte d \<and> byte d \<le> 0x9F
     | _ \<Rightarrow> False)"

text \<open>Decimal digits, as \<open>{}\<close> formats an unsigned integer.\<close>

fun decimal :: "nat \<Rightarrow> string" where
  "decimal n = (if n < 10 then [char_of (48 + n)] else decimal (n div 10) @ [char_of (48 + n mod 10)])"

declare decimal.simps [simp del]

section \<open>Replacement\<close>

text \<open>Replacing every match, from the left; a matcher returns what follows its match.\<close>

function rewrite :: "('a list \<Rightarrow> 'a list option) \<Rightarrow> 'a list \<Rightarrow> 'a list \<Rightarrow> 'a list" where
  "rewrite matcher r cs =
     (case matcher cs of
        Some rest \<Rightarrow> if length rest < length cs then r @ rewrite matcher r rest else cs
      | None \<Rightarrow> (case cs of [] \<Rightarrow> [] | c # cs' \<Rightarrow> c # rewrite matcher r cs'))"
  by pat_completeness auto
termination
  by (relation "measure (\<lambda>(_, _, cs). length cs)") auto

declare rewrite.simps [simp del]

definition folds_to :: "char \<Rightarrow> string \<Rightarrow> bool" where
  "folds_to c ch \<longleftrightarrow> lower_char ch = [c] \<or> c = CHR ''k'' \<and> ch = [CHR 0xE2, CHR 0x84, CHR 0xAA]
     \<or> c = CHR ''s'' \<and> ch = [CHR 0xC5, CHR 0xBF]"

fun match_fold :: "string \<Rightarrow> text_chars \<Rightarrow> text_chars option" where
  "match_fold [] cs = Some cs"
| "match_fold (p # ps) [] = None"
| "match_fold (p # ps) (c # cs) = (if folds_to p c then match_fold ps cs else None)"

definition key_char :: "string \<Rightarrow> bool" where
  "key_char ch \<longleftrightarrow> ch \<notin> set white_space \<and> ch \<notin> set (lit (CHR 0x22 # CHR 0x27 # CHR 0x60 # ''<>,;()[]{}''))"

definition match_key :: "text_chars \<Rightarrow> text_chars option" where
  "match_key cs = (case match_fold ''ksk_'' cs of
       Some (c # rest) \<Rightarrow> if key_char c then Some (dropWhile key_char rest) else None
     | _ \<Rightarrow> None)"

definition redact_kiro_keys :: "text_chars \<Rightarrow> text_chars" where
  "redact_kiro_keys message = rewrite match_key (lit ''[REDACTED]'') message"

definition label_char :: "string \<Rightarrow> bool" where
  "label_char ch \<longleftrightarrow> ch = ''-'' \<or> (case ch of [c] \<Rightarrow> is_ascii_alphanumeric c | _ \<Rightarrow> False) \<or> folds_to (CHR ''k'') ch \<or> folds_to (CHR ''s'') ch"

definition match_host :: "string \<Rightarrow> string \<Rightarrow> text_chars \<Rightarrow> text_chars option" where
  "match_host name domain cs =
     Option.bind (match_fold (name @ ''.'') cs) (\<lambda>rest.
       if takeWhile label_char rest = [] then None
       else map_option (dropWhile (\<lambda>ch. ch \<notin> set white_space))
         (match_fold (CHR ''.'' # domain) (dropWhile label_char rest)))"

definition match_endpoint :: "text_chars \<Rightarrow> text_chars option" where
  "match_endpoint cs =
     or_else (match_host ''codewhisperer'' ''amazonaws.com'' cs)
       (or_else (match_host ''q'' ''amazonaws.com'' cs)
         (or_else (match_host ''runtime'' ''kiro.dev'' cs) (match_host ''management'' ''kiro.dev'' cs)))"

definition match_name :: "string \<Rightarrow> text_chars \<Rightarrow> text_chars option" where
  "match_name needle cs =
     (if prefix (lit (to_ascii_lowercase needle)) (lower_chars cs) then Some (drop (length needle) cs) else None)"

definition replace_ascii_case_insensitive :: "text_chars \<Rightarrow> string \<Rightarrow> string \<Rightarrow> text_chars" where
  "replace_ascii_case_insensitive message needle replacement = rewrite (match_name needle) (lit replacement) message"

definition redact_endpoint_names :: "text_chars \<Rightarrow> text_chars" where
  "redact_endpoint_names message =
     replace_ascii_case_insensitive
       (replace_ascii_case_insensitive (rewrite match_endpoint (lit ''upstream'') message) ''CodeWhisperer'' ''endpoint'')
       ''AmazonQ'' ''endpoint''"

section \<open>Normalisation\<close>

definition BAN_TRIGGER_PHRASES :: "string list" where
  "BAN_TRIGGER_PHRASES = [''this organization has been disabled'', ''oauth authentication is currently not allowed'',
     ''account disabled'', ''account is disabled'', ''invalid account'', ''too many active sessions'']"

definition is_quota_error :: "text_chars \<Rightarrow> bool" where
  "is_quota_error message = list_ex (\<lambda>word. mentions word message)
     [''402'', ''429'', ''quota'', ''credit'', ''throttlingexception'', ''reached the limit'', ''payment required'']"

definition is_network_error :: "text_chars \<Rightarrow> bool" where
  "is_network_error message = list_ex (\<lambda>word. mentions word message)
     [''network'', ''fetch failed'', ''socket'', ''econnreset'', ''econnrefused'', ''etimedout'', ''timeout'', ''connection reset'',
      ''premature close'', ''other side closed'', ''terminated'', ''operation was aborted'']"

definition is_server_error :: "text_chars \<Rightarrow> bool" where
  "is_server_error message = list_ex (\<lambda>word. mentions word message)
     [''internal server error'', ''bad gateway'', ''502'', ''500'', ''503'', ''504'', ''service unavailable'', ''gateway timeout'']"

definition is_context_error :: "text_chars \<Rightarrow> bool" where
  "is_context_error message \<longleftrightarrow> mentions ''prompt is too long'' message \<or> mentions ''context length exceeded'' message
     \<or> mentions ''input is too long'' message \<or> mentions ''context window'' message \<and> mentions ''exceed'' message"

definition context_token_counts :: "text_chars \<Rightarrow> (nat \<times> nat) option" where
  "context_token_counts message =
     (if \<not> (mentions ''tokens >'' message \<or> mentions ''tokens exceeds'' message \<or> mentions ''input tokens exceed'' message) then None
      else
        (let numbers = List.map_filter (parse_uint (2 ^ 64 - 1))
               (filter (\<lambda>part. part \<noteq> []) (split_where (\<lambda>c. \<not> is_ascii_digit c) (concat message)))
         in if length numbers < 2 then None else Some (numbers ! (length numbers - 2), last numbers)))"

definition model_name_char :: "string \<Rightarrow> bool" where
  "model_name_char ch \<longleftrightarrow> (case ch of [c] \<Rightarrow> is_ascii_alphanumeric c \<or> c \<in> set ''._-'' | _ \<Rightarrow> False)"

fun context_model_loop :: "string list \<Rightarrow> text_chars \<Rightarrow> text_chars option" where
  "context_model_loop [] message = None"
| "context_model_loop (marker # markers) message =
     (case str_find (lit marker) (lower_chars message) of
        None \<Rightarrow> context_model_loop markers message
      | Some offset \<Rightarrow>
          (let rest = drop (offset + length marker) message in
           case str_find (lit [CHR 0x27]) rest of
             None \<Rightarrow> None
           | Some end \<Rightarrow>
               (let model = take end rest in
                if model \<noteq> [] \<and> length (concat model) \<le> 128 \<and> list_all model_name_char model then Some model
                else context_model_loop markers message)))"

definition context_model_name :: "text_chars \<Rightarrow> text_chars option" where
  "context_model_name message = context_model_loop
     [''prompt is too long for resolved model '' @ [CHR 0x27], ''prompt is too long for model '' @ [CHR 0x27]] message"

definition counts_text :: "nat \<Rightarrow> nat \<Rightarrow> string" where
  "counts_text actual maximum = '': '' @ decimal actual @ '' tokens > '' @ decimal maximum"

definition context_message :: "text_chars \<Rightarrow> text_chars" where
  "context_message message =
     (case context_token_counts message of
        None \<Rightarrow> lit ''prompt is too long: context length exceeded''
      | Some (actual, maximum) \<Rightarrow>
          (let counts = lit (counts_text actual maximum);
               plain = lit ''prompt is too long'' @ counts
           in case context_model_name message of
                Some model \<Rightarrow>
                  if redact_endpoint_names model = model
                  then lit (''prompt is too long for model '' @ [CHR 0x27]) @ model @ lit [CHR 0x27] @ counts
                  else plain
              | None \<Rightarrow> plain))"

definition quota_message :: "text_chars \<Rightarrow> text_chars" where
  "quota_message message =
     (if mentions ''throttlingexception'' message
      then redact_endpoint_names (lit ''ThrottlingException'' @
        (case str_find (lit ''ThrottlingException'') message of
           Some i \<Rightarrow> drop (i + length ''ThrottlingException'') message | None \<Rightarrow> []))
      else redact_endpoint_names message)"

definition normalize_error_message :: "text_chars \<Rightarrow> text_chars" where
  "normalize_error_message raw =
     (let message = redact_kiro_keys raw in
      if list_ex (\<lambda>phrase. mentions phrase message) BAN_TRIGGER_PHRASES then lit ''service unavailable''
      else if is_context_error message then context_message message
      else if is_quota_error message then quota_message message
      else if mentions ''401'' message \<or> mentions ''403'' message \<or> mentions ''auth'' message
      then lit ''Service temporarily unavailable, please retry''
      else if is_server_error message then lit ''Upstream service error, please retry later''
      else if is_network_error message then lit ''Service temporarily unavailable, please retry''
      else redact_endpoint_names message)"

definition ellipsis :: string where
  "ellipsis = [CHR 0xE2, CHR 0x80, CHR 0xA6]"

definition bounded_chars :: "text_chars \<Rightarrow> text_chars" where
  "bounded_chars cs = map (\<lambda>ch. if is_control ch then '' '' else ch) (take 1024 cs)"

definition sanitize_error_message :: "string \<Rightarrow> string" where
  "sanitize_error_message message =
     (let normalized = normalize_error_message (chars message)
      in concat (bounded_chars normalized) @ (if length normalized \<le> 1024 then [] else ellipsis))"

section \<open>Envelopes\<close>

datatype error_format = ClaudeFormat | OpenAiFormat

definition claude_error_type :: "nat \<Rightarrow> string" where
  "claude_error_type status =
     (if status \<in> {400, 405, 422} then ''invalid_request_error''
      else if status \<in> {401, 403} then ''authentication_error''
      else if status = 404 then ''not_found_error''
      else if status \<in> {408, 504} then ''timeout_error''
      else if status = 413 then ''request_too_large''
      else if status = 429 then ''rate_limit_error''
      else if status \<in> {500, 502} then ''api_error''
      else ''overloaded_error'')"

definition openai_error_type :: "nat \<Rightarrow> string" where
  "openai_error_type status =
     (if status \<in> {400, 405, 413, 422} then ''invalid_request_error''
      else if status \<in> {401, 403} then ''authentication_error''
      else if status = 404 then ''not_found_error''
      else if status = 429 then ''rate_limit_error''
      else ''server_error'')"

definition error_envelope :: "error_format \<Rightarrow> nat \<Rightarrow> string \<Rightarrow> string option \<Rightarrow> json" where
  "error_envelope format status message request_id =
     (let safe = JString (sanitize_error_message message);
          entries = (case format of
            ClaudeFormat \<Rightarrow> [(''type'', JString ''error''),
              (''error'', JObject [(''type'', JString (claude_error_type status)), (''message'', safe)])]
          | OpenAiFormat \<Rightarrow> [(''error'', JObject [(''message'', safe), (''type'', JString (openai_error_type status)), (''code'', JNull)])])
      in JObject (entries @ (case request_id of
           Some i \<Rightarrow> if i = [] then [] else [(''request_id'', JString i)] | None \<Rightarrow> [])))"

end
