(* ===== verification/ErrorTextCorrect.thy ===== *)
theory ErrorTextCorrect
  imports ErrorText
begin

text \<open>
  What a client can see of an error: a bounded text without control characters, without a headless key and
  without endpoint names, and no phrase that its risk system takes for a ban.
\<close>

section \<open>Characters\<close>

lemma concat_chars [simp]: "concat (chars s) = s"
  by (induction s rule: chars.induct) simp_all

definition wf_char :: "string \<Rightarrow> bool" where
  "wf_char ch \<longleftrightarrow> ch \<noteq> [] \<and> \<not> is_cont (hd ch) \<and> list_all is_cont (tl ch)"

lemma takeWhile_cont: "list_all wf_char cs \<Longrightarrow> list_all is_cont bs \<Longrightarrow>
    takeWhile is_cont (bs @ concat cs) = bs \<and> dropWhile is_cont (bs @ concat cs) = concat cs"
proof (induction bs)
  case Nil
  then show ?case by (cases cs) (auto simp: wf_char_def neq_Nil_conv)
qed simp

lemma chars_concat: "list_all wf_char cs \<Longrightarrow> chars (concat cs) = cs"
proof (induction cs)
  case (Cons ch cs)
  then obtain c bs where "ch = c # bs" "list_all is_cont bs" by (auto simp: wf_char_def neq_Nil_conv)
  with Cons show ?case using takeWhile_cont [of cs bs] by simp
qed simp

lemma starts_char_cont: "starts_char s \<Longrightarrow> s \<noteq> [] \<Longrightarrow> \<not> is_cont (hd s)"
  by (cases s) (auto simp: starts_char_def is_cont_def)

lemma wf_chars: "starts_char s \<Longrightarrow> list_all wf_char (chars s)"
proof (induction s rule: chars.induct)
  case (2 c cs)
  have "starts_char (dropWhile is_cont cs)"
    by (induction cs) (auto simp: starts_char_def is_cont_def)
  with 2 show ?case
    using starts_char_cont [of "c # cs"] by (auto simp: wf_char_def list_all_iff dest: set_takeWhileD)
qed simp

lemma wf_lit: "list_all (\<lambda>c. byte c < 128) s \<Longrightarrow> list_all wf_char (lit s)"
  by (auto simp: lit_def list_all_iff wf_char_def is_cont_def)

lemma lit_append [simp]: "lit (a @ b) = lit a @ lit b"
  by (simp add: lit_def)

lemma length_lit [simp]: "length (lit s) = length s"
  by (simp add: lit_def)

section \<open>Replacement\<close>

definition sound_matcher :: "('a list \<Rightarrow> 'a list option) \<Rightarrow> bool" where
  "sound_matcher f \<longleftrightarrow> (\<forall>cs rest. f cs = Some rest \<longrightarrow> suffix rest cs \<and> length rest < length cs)"

lemma rewrite_cases:
  assumes "sound_matcher f"
  obtains "cs = []" "rewrite f r cs = []" "f cs = None"
  | rest where "f cs = Some rest" "suffix rest cs" "length rest < length cs" "rewrite f r cs = r @ rewrite f r rest"
  | c cs' where "cs = c # cs'" "f cs = None" "rewrite f r cs = c # rewrite f r cs'"
proof (cases "f cs")
  case None
  then show ?thesis using that(1,3) rewrite.simps [of f r cs] by (cases cs) auto
next
  case (Some rest)
  then show ?thesis using that(2) assms by (simp add: rewrite.simps [of f r cs] sound_matcher_def)
qed

lemma rewrite_id: "(\<And>xs. suffix xs cs \<Longrightarrow> f xs = None) \<Longrightarrow> rewrite f r cs = cs"
proof (induction cs)
  case Nil
  then show ?case by (simp add: rewrite.simps)
next
  case (Cons c cs)
  then have "rewrite f r cs = cs" by (meson suffix_ConsI)
  with Cons.prems show ?case by (simp add: rewrite.simps [of f r "c # cs"])
qed

lemma rewrite_set: "sound_matcher f \<Longrightarrow> set (rewrite f r cs) \<subseteq> set r \<union> set cs"
proof (induction "length cs" arbitrary: cs rule: less_induct)
  case less
  show ?case
  proof (rule rewrite_cases [OF less.prems, of cs r])
    fix rest assume a: "suffix rest cs" "length rest < length cs" "rewrite f r cs = r @ rewrite f r rest"
    with less.hyps [OF a(2) less.prems] set_mono_suffix [OF a(1)] show ?thesis by auto
  next
    fix c cs' assume a: "cs = c # cs'" "rewrite f r cs = c # rewrite f r cs'"
    then show ?thesis using less.hyps [of cs', OF _ less.prems] by auto
  qed simp
qed

text \<open>No text that begins in the replacement or ends in it can be the pattern.\<close>

definition apart :: "'a list \<Rightarrow> 'a list \<Rightarrow> bool" where
  "apart p r \<longleftrightarrow> list_all (\<lambda>q. q = [] \<or> \<not> prefix q r \<and> \<not> prefix r q) (suffixes p)"

lemma apartD: "apart p r \<Longrightarrow> suffix q p \<Longrightarrow> q \<noteq> [] \<Longrightarrow> prefix q (r @ x) \<Longrightarrow> False"
  using prefix_same_cases [of q "r @ x" r] by (auto simp: apart_def list_all_iff)

lemma apart_append_prefix: "apart r p \<Longrightarrow> suffix t r \<Longrightarrow> prefix p (t @ x) \<Longrightarrow> t \<noteq> [] \<Longrightarrow> False"
  using prefix_same_cases [of p "t @ x" t] by (auto simp: apart_def list_all_iff)

lemma sublist_append_apart: "apart r p \<Longrightarrow> sublist p (r @ x) \<Longrightarrow> sublist p x"
proof -
  assume a: "apart r p"
  have "suffix t r \<Longrightarrow> sublist p (t @ x) \<Longrightarrow> sublist p x" for t
  proof (induction t)
    case (Cons c t)
    then have "\<not> prefix p ((c # t) @ x)" using apart_append_prefix [OF a Cons.prems(1)] by blast
    then have "sublist p (t @ x)" using Cons.prems(2) by (simp add: sublist_Cons_right)
    then show ?case using Cons.IH Cons.prems(1) by (meson suffix_ConsD)
  qed simp
  then show "sublist p (r @ x) \<Longrightarrow> sublist p x" by blast
qed

lemma rewrite_prefix:
  assumes "sound_matcher f" "apart p (map g r)"
  shows "suffix q p \<Longrightarrow> prefix q (map g (rewrite f r cs)) \<Longrightarrow> prefix q (map g cs)"
proof (induction q arbitrary: cs)
  case (Cons x q)
  show ?case
  proof (rule rewrite_cases [OF assms(1), of cs r])
    fix rest assume "rewrite f r cs = r @ rewrite f r rest"
    with Cons.prems show ?thesis using apartD [OF assms(2) Cons.prems(1)] by (metis list.distinct(1) map_append)
  next
    fix c cs' assume "cs = c # cs'" "rewrite f r cs = c # rewrite f r cs'"
    with Cons show ?thesis by (auto dest: suffix_ConsD)
  qed (use Cons.prems in simp)
qed simp

lemma rewrite_sublist:
  assumes "sound_matcher f" "apart p (map g r)" "apart (map g r) p"
  shows "sublist p (map g (rewrite f r cs)) \<Longrightarrow> sublist p (map g cs)"
proof (induction "length cs" arbitrary: cs rule: less_induct)
  case less
  show ?case
  proof (rule rewrite_cases [OF assms(1), of cs r])
    fix rest assume a: "suffix rest cs" "length rest < length cs" "rewrite f r cs = r @ rewrite f r rest"
    then have "sublist p (map g rest)"
      using less.hyps less.prems sublist_append_apart [OF assms(3)] by (metis map_append)
    with a(1) show ?thesis by (meson map_mono_suffix suffix_imp_sublist sublist_order.order_trans)
  next
    fix c cs' assume a: "cs = c # cs'" "rewrite f r cs = c # rewrite f r cs'"
    show ?thesis
    proof (cases "prefix p (map g (rewrite f r cs))")
      case True
      then show ?thesis using rewrite_prefix [OF assms(1,2)] by blast
    next
      case False
      then have "sublist p (map g (rewrite f r cs'))" using less.prems a by (simp add: sublist_Cons_right)
      then show ?thesis using less.hyps [of cs'] a(1) by (simp add: sublist_Cons_right)
    qed
  qed (use less.prems in simp)
qed

text \<open>Replacing a literal name leaves no occurrence of it.\<close>

lemma rewrite_removes:
  assumes "sound_matcher f" "apart p (map g r)" "apart (map g r) p" "p \<noteq> []"
    and "\<And>cs. f cs = None \<Longrightarrow> \<not> prefix p (map g cs)"
  shows "\<not> sublist p (map g (rewrite f r cs))"
proof (induction "length cs" arbitrary: cs rule: less_induct)
  case less
  show ?case
  proof (rule rewrite_cases [OF assms(1), of cs r])
    fix rest assume a: "length rest < length cs" "rewrite f r cs = r @ rewrite f r rest"
    with less.hyps show ?thesis using sublist_append_apart [OF assms(3)] by (metis map_append)
  next
    fix c cs' assume a: "cs = c # cs'" "f cs = None" "rewrite f r cs = c # rewrite f r cs'"
    then have "\<not> prefix p (map g (rewrite f r cs))" using rewrite_prefix [OF assms(1,2)] assms(5) by blast
    with a less.hyps [of cs'] show ?thesis by (simp add: sublist_Cons_right)
  qed (use assms(4) in simp)
qed

section \<open>Matchers\<close>

lemma match_fold_split: "match_fold p cs = Some rest \<Longrightarrow>
    \<exists>m. cs = m @ rest \<and> length m = length p \<and> (\<forall>i < length p. folds_to (p ! i) (m ! i))"
proof (induction p cs rule: match_fold.induct)
  case (3 p ps c cs)
  then obtain m where "cs = m @ rest" "length m = length ps" "\<forall>i < length ps. folds_to (ps ! i) (m ! i)" "folds_to p c"
    by (auto split: if_splits)
  then show ?case by (intro exI [of _ "c # m"]) (auto simp: nth_Cons split: nat.split)
qed auto

lemma match_fold_suffix: "match_fold p cs = Some rest \<Longrightarrow> suffix rest cs \<and> length cs = length p + length rest"
  using match_fold_split by (fastforce simp: suffix_def)

lemma match_fold_Cons: "match_fold (p # ps) cs = Some r \<longleftrightarrow>
    (\<exists>c cs'. cs = c # cs' \<and> folds_to p c \<and> match_fold ps cs' = Some r)"
  by (cases cs) auto

lemma dropWhile_suffix: "suffix (c # rest) cs \<Longrightarrow> suffix (dropWhile P rest) cs \<and> length (dropWhile P rest) < length cs"
proof -
  assume a: "suffix (c # rest) cs"
  then have "length rest < length cs" using suffix_length_le [OF a] by simp
  moreover have "length (dropWhile P rest) \<le> length rest" by (rule length_dropWhile_le)
  ultimately show ?thesis using a by (meson le_less_trans suffix_ConsD suffix_dropWhile suffix_order.trans)
qed

lemma match_key_cases:
  assumes "match_key cs = Some rest"
  obtains a b c d ch more where "cs = a # b # c # d # ch # more" "rest = dropWhile key_char more"
    "folds_to (CHR ''k'') a" "folds_to (CHR ''s'') b" "folds_to (CHR ''k'') c" "folds_to (CHR ''_'') d" "key_char ch"
  using assms unfolding match_key_def
  by (auto simp: match_fold_Cons split: if_splits option.splits list.splits)

lemma match_key_sound: "sound_matcher match_key"
  unfolding sound_matcher_def
proof (intro allI impI)
  fix cs rest assume "match_key cs = Some rest"
  then obtain a b c d ch more where "cs = a # b # c # d # ch # more" "rest = dropWhile key_char more"
    by (rule match_key_cases)
  then show "suffix rest cs \<and> length rest < length cs" using dropWhile_suffix [of ch more cs key_char]
    by (simp add: suffix_ConsI)
qed

lemma match_host_sound:
  assumes "match_host name domain cs = Some rest"
  shows "suffix rest cs \<and> length rest < length cs \<and> folds_to (hd (name @ ''.'')) (hd cs)"
proof -
  let ?p = "name @ ''.''"
  obtain r1 r2 where r: "match_fold ?p cs = Some r1" "match_fold (CHR ''.'' # domain) (dropWhile label_char r1) = Some r2"
      "rest = dropWhile (\<lambda>ch. ch \<notin> set white_space) r2"
    using assms by (auto simp: match_host_def bind_eq_Some_conv split: if_splits)
  obtain m where m: "cs = m @ r1" "length m = length ?p" "\<forall>i < length ?p. folds_to (?p ! i) (m ! i)"
    using match_fold_split [OF r(1)] by blast
  have "suffix r2 (dropWhile label_char r1)" using match_fold_suffix [OF r(2)] by blast
  then have "suffix rest r1" unfolding r(3) by (meson suffix_dropWhile suffix_order.trans)
  moreover have "m \<noteq> []" "hd cs = m ! 0" using m by (auto simp: hd_append hd_conv_nth)
  moreover have "hd ?p = ?p ! 0" by (simp add: hd_conv_nth)
  ultimately show ?thesis using m suffix_length_le [of rest r1]
    by (auto simp: suffix_append intro: suffix_appendI)
qed

lemma match_endpoint_cases:
  assumes "match_endpoint cs = Some rest"
  shows "suffix rest cs \<and> length rest < length cs \<and> (\<exists>p \<in> set ''cqrm''. folds_to p (hd cs))"
  using assms match_host_sound by (fastforce simp: match_endpoint_def or_else_def split: option.splits)

lemma match_endpoint_sound: "sound_matcher match_endpoint"
  using match_endpoint_cases by (simp add: sound_matcher_def)

lemma match_name_sound: "needle \<noteq> [] \<Longrightarrow> sound_matcher (match_name needle)"
  by (cases needle) (auto simp: sound_matcher_def match_name_def suffix_drop to_ascii_lowercase_def split: if_splits dest!: prefix_length_le)

section \<open>Headless keys\<close>

definition no_key :: "text_chars \<Rightarrow> bool" where
  "no_key cs \<longleftrightarrow> list_all (\<lambda>xs. match_key xs = None) (suffixes cs)"

lemma no_key_iff: "no_key cs \<longleftrightarrow> (\<forall>xs. suffix xs cs \<longrightarrow> match_key xs = None)"
  by (auto simp: no_key_def list_all_iff)

lemma match_key_Cons: "match_key xs \<noteq> None \<longleftrightarrow> (\<exists>a b c d ch more. xs = a # b # c # d # ch # more \<and>
    folds_to (CHR ''k'') a \<and> folds_to (CHR ''s'') b \<and> folds_to (CHR ''k'') c \<and> folds_to (CHR ''_'') d \<and> key_char ch)"
  by (auto simp: match_key_def match_fold_Cons split: if_splits option.splits list.splits)

lemma delimiters_fold: "list_all (\<lambda>ch. list_all (\<lambda>p. \<not> folds_to p ch) ''ks_cqrma'')
    (white_space @ lit (CHR 0x22 # CHR 0x27 # CHR 0x60 # ''<>,;()[]{}''))"
  by code_simp

lemma folds_not: "folds_to p ch \<Longrightarrow> p \<in> set ''ks_cqrma'' \<Longrightarrow> key_char ch"
  using delimiters_fold unfolding key_char_def list_all_iff by auto

lemma ascii_lower_eq: "ascii_lower z = c \<Longrightarrow> \<not> is_ascii_lowercase c \<Longrightarrow> z = c"
  by (auto simp: ascii_lower_def is_ascii_lowercase_def is_ascii_uppercase_def byte_def split: if_splits)

lemma no_key_no_k: "(\<And>ch. ch \<in> set cs \<Longrightarrow> \<not> folds_to (CHR ''k'') ch) \<Longrightarrow> no_key ys \<Longrightarrow> no_key (cs @ ys)"
proof -
  assume a: "\<And>ch. ch \<in> set cs \<Longrightarrow> \<not> folds_to (CHR ''k'') ch" "no_key ys"
  have "match_key xs = None" if "suffix xs (cs @ ys)" for xs
  proof (rule ccontr)
    assume "match_key xs \<noteq> None"
    then obtain c t where t: "xs = c # t" "folds_to (CHR ''k'') c" unfolding match_key_Cons by blast
    consider "suffix xs ys" | xs' where "xs = xs' @ ys" "suffix xs' cs" using \<open>suffix xs (cs @ ys)\<close> by (auto simp: suffix_append)
    then have "suffix xs ys"
    proof cases
      case 2
      with t a(1) show ?thesis by (cases xs') (auto dest!: set_mono_suffix)
    qed
    with a(2) \<open>match_key xs \<noteq> None\<close> show False by (auto simp: no_key_iff)
  qed
  then show ?thesis by (simp add: no_key_iff)
qed

lemma no_key_no_underscore: "''_'' \<notin> set cs \<Longrightarrow> no_key cs"
proof -
  have "folds_to (CHR ''_'') ch \<Longrightarrow> ch = ''_''" for ch
    by (auto simp: folds_to_def lower_char_def dest!: ascii_lower_eq) (simp add: is_ascii_lowercase_def byte_def)
  then have "match_key xs \<noteq> None \<Longrightarrow> ''_'' \<in> set xs" for xs unfolding match_key_Cons by fastforce
  then show "''_'' \<notin> set cs \<Longrightarrow> no_key cs"
    unfolding no_key_iff using set_mono_suffix by blast
qed

lemma rewrite_no_key:
  assumes f: "sound_matcher f" and r: "r \<noteq> []" "\<And>ch. ch \<in> set r \<Longrightarrow> \<not> folds_to (CHR ''k'') ch"
      "\<not> folds_to (CHR ''s'') (hd r)" "\<not> folds_to (CHR ''_'') (hd r)"
    and key: "\<And>cs rest. f cs = Some rest \<Longrightarrow> key_char (hd cs)"
  shows "(\<And>xs. suffix xs cs \<Longrightarrow> f xs = None \<Longrightarrow> match_key xs = None) \<Longrightarrow> no_key (rewrite f r cs)"
proof (induction "length cs" arbitrary: cs rule: less_induct)
  case less
  have same: "\<exists>ys. cs = x # ys \<and> xs = rewrite f r ys"
    if "rewrite f r cs = x # xs" "p \<in> set ''ks_''" "folds_to p x" for cs x xs p
    by (rule rewrite_cases [OF f, of cs r]) (use that r in \<open>auto simp: neq_Nil_conv\<close>)
  have fifth: "\<exists>y ys. cs = y # ys \<and> key_char y" if "rewrite f r cs = x # xs" "key_char x" for cs x xs
    by (rule rewrite_cases [OF f, of cs r]; cases cs) (use that key in \<open>fastforce+\<close>)
  have orig: "match_key cs \<noteq> None" if hit: "match_key (rewrite f r cs) \<noteq> None" for cs
  proof -
    obtain a b c d ch m1 m2 m3 m4 more where m: "rewrite f r cs = a # m1" "m1 = b # m2" "m2 = c # m3" "m3 = d # m4" "m4 = ch # more"
        and fold: "folds_to (CHR ''k'') a" "folds_to (CHR ''s'') b" "folds_to (CHR ''k'') c" "folds_to (CHR ''_'') d" "key_char ch"
      using hit unfolding match_key_Cons by blast
    obtain c1 where c1: "cs = a # c1" "m1 = rewrite f r c1" using same [OF m(1) _ fold(1)] by auto
    obtain c2 where c2: "c1 = b # c2" "m2 = rewrite f r c2" using same [of c1 b m2 "CHR ''s''"] m(2) c1(2) fold(2) by auto
    obtain c3 where c3: "c2 = c # c3" "m3 = rewrite f r c3" using same [of c2 c m3 "CHR ''k''"] m(3) c2(2) fold(3) by auto
    obtain c4 where c4: "c3 = d # c4" "m4 = rewrite f r c4" using same [of c3 d m4 "CHR ''_''"] m(4) c3(2) fold(4) by auto
    obtain y ys where "c4 = y # ys" "key_char y" using fifth [of c4 ch more] m(5) c4(2) fold(5) by auto
    with c1 c2 c3 c4 fold show ?thesis unfolding match_key_Cons by blast
  qed
  show ?case
  proof (rule rewrite_cases [OF f, of cs r])
    fix rest assume a: "f cs = Some rest" "suffix rest cs" "length rest < length cs" "rewrite f r cs = r @ rewrite f r rest"
    have "no_key (rewrite f r rest)" using less a(2,3) by (meson suffix_order.trans)
    with a(4) show ?thesis using r(2) by (simp add: no_key_no_k)
  next
    fix c cs' assume a: "cs = c # cs'" "f cs = None" "rewrite f r cs = c # rewrite f r cs'"
    have "no_key (rewrite f r cs')" using less a(1) by (auto intro: suffix_ConsI)
    moreover have "match_key (c # rewrite f r cs') = None"
      using orig [of cs] a(2,3) less.prems [of cs] by force
    ultimately show ?thesis using a(3) by (auto simp: no_key_iff suffix_Cons)
  qed (simp add: no_key_iff match_key_def)
qed

lemma redacted_folds: "list_all (\<lambda>ch. \<not> folds_to (CHR ''k'') ch) (lit ''[REDACTED]'')"
  "\<not> folds_to (CHR ''s'') (hd (lit ''[REDACTED]''))" "\<not> folds_to (CHR ''_'') (hd (lit ''[REDACTED]''))" "lit ''[REDACTED]'' \<noteq> []"
  by code_simp+

lemma no_key_redact: "no_key (redact_kiro_keys cs)"
  unfolding redact_kiro_keys_def
proof (rule rewrite_no_key [OF match_key_sound])
  show "key_char (hd cs)" if "match_key cs = Some rest" for cs rest
    using that match_key_Cons [of cs] folds_not by fastforce
qed (use redacted_folds in \<open>auto simp: list_all_iff\<close>)

lemma replacement_folds: "list_all (\<lambda>r. r \<noteq> [] \<and> list_all (\<lambda>ch. \<not> folds_to (CHR ''k'') ch) r \<and> \<not> folds_to (CHR ''s'') (hd r) \<and>
    \<not> folds_to (CHR ''_'') (hd r)) [lit ''upstream'', lit ''endpoint'']"
  by code_simp

lemma match_name_key: "match_name needle cs = Some rest \<Longrightarrow> to_ascii_lowercase needle = p # ps \<Longrightarrow> p \<in> set ''ks_cqrma'' \<Longrightarrow> key_char (hd cs)"
  by (rule folds_not [of p]) (cases cs; auto simp: match_name_def lit_def folds_to_def split: if_splits)+

lemma names_lower: "to_ascii_lowercase ''CodeWhisperer'' = ''codewhisperer''" "to_ascii_lowercase ''AmazonQ'' = ''amazonq''"
  by code_simp+

lemma no_key_endpoint_names: "no_key cs \<Longrightarrow> no_key (redact_endpoint_names cs)"
proof -
  assume a: "no_key cs"
  have step: "no_key (rewrite f (lit r) xs)" if "sound_matcher f" "no_key xs" "r = ''upstream'' \<or> r = ''endpoint''"
      "\<And>cs rest. f cs = Some rest \<Longrightarrow> key_char (hd cs)" for f r xs
    using replacement_folds that by (intro rewrite_no_key) (auto simp: list_all_iff no_key_iff)
  have "no_key (rewrite match_endpoint (lit ''upstream'') cs)"
    by (rule step [OF match_endpoint_sound a]) (auto dest!: match_endpoint_cases intro: folds_not)
  then show ?thesis
    unfolding redact_endpoint_names_def replace_ascii_case_insensitive_def
    by (intro step [OF match_name_sound]) (auto intro: match_name_key simp: names_lower)
qed

lemma no_key_separated:
  assumes "no_key xs" "no_key ys" "sep = [CHR 0x27]"
  shows "no_key (xs @ sep # ys)"
proof -
  have sep: "\<not> key_char sep" "\<not> folds_to (CHR ''k'') sep" "\<not> folds_to (CHR ''s'') sep" "\<not> folds_to (CHR ''_'') sep"
    unfolding assms(3) by code_simp+
  have one: "match_key t \<noteq> None" if "match_key (t @ sep # ys) \<noteq> None" "t \<noteq> []" for t
    using that sep unfolding match_key_Cons by (auto simp: append_eq_Cons_conv)
  have "match_key (sep # ys) = None" using match_key_Cons [of "sep # ys"] sep by auto
  then show ?thesis
    using assms(1,2) one unfolding no_key_iff by (auto simp: suffix_append suffix_Cons) (metis append_Nil not_None_eq)
qed

lemma no_key_prefix: "no_key cs \<Longrightarrow> prefix xs cs \<Longrightarrow> no_key xs"
proof -
  assume a: "no_key cs" "prefix xs cs"
  then obtain ys where ys: "cs = xs @ ys" by (auto simp: prefix_def)
  have "match_key t \<noteq> None \<Longrightarrow> match_key (t @ ys) \<noteq> None" for t unfolding match_key_Cons by auto
  with a(1) show ?thesis unfolding no_key_iff ys by (metis suffix_append)
qed

lemma no_key_suffix: "no_key cs \<Longrightarrow> suffix xs cs \<Longrightarrow> no_key xs"
  unfolding no_key_iff by (meson suffix_order.trans)

lemma no_key_blanked: "no_key cs \<Longrightarrow> no_key (map (\<lambda>ch. if P ch then '' '' else ch) cs)"
proof -
  define g where "g = (\<lambda>ch. if P ch then '' '' else ch)"
  have "\<not> key_char '' ''" "\<not> folds_to (CHR ''k'') '' ''" "\<not> folds_to (CHR ''s'') '' ''" "\<not> folds_to (CHR ''_'') '' ''"
    by code_simp+
  then have g: "folds_to p (g ch) \<Longrightarrow> p \<in> set ''ks_'' \<Longrightarrow> folds_to p ch" "key_char (g ch) \<Longrightarrow> key_char ch" for p ch
    unfolding g_def by (auto split: if_splits)
  have "match_key (map g xs) \<noteq> None \<Longrightarrow> match_key xs \<noteq> None" for xs
    unfolding match_key_Cons map_eq_Cons_conv by (elim exE conjE) (use g in fastforce)
  then have "match_key (map g xs) = None" if "match_key xs = None" for xs using that by blast
  moreover have "\<exists>ys. suffix ys cs \<and> xs = map g ys" if "suffix xs (map g cs)" for xs
    using that by (auto simp: suffix_def map_eq_append_conv)
  ultimately show "no_key cs \<Longrightarrow> no_key (map (\<lambda>ch. if P ch then '' '' else ch) cs)"
    unfolding no_key_iff g_def [symmetric] by metis
qed

section \<open>Every branch\<close>

lemma decimal_digits: "c \<in> set (decimal n) \<Longrightarrow> is_ascii_digit c"
proof (induction n rule: decimal.induct)
  case (1 n)
  then show ?case
    by (subst (asm) (2) decimal.simps) (auto simp: is_ascii_digit_def byte_def split: if_splits)
qed

lemma str_find_suffix: "str_find p s = Some i \<Longrightarrow> suffix (p @ drop (i + length p) s) s"
proof -
  assume "str_find p s = Some i"
  then obtain t where t: "drop i s = p @ t" using str_find_prefix by (blast elim: prefixE)
  then have "drop (i + length p) s = t" by (metis append_eq_conv_conj add.commute drop_drop)
  with t show ?thesis by (metis suffix_drop)
qed

lemma context_model_part:
  assumes "context_model_loop markers message = Some model"
  shows "list_all model_name_char model \<and> sublist model message"
  using assms
proof (induction markers)
  case (Cons marker markers)
  have "sublist (take n (drop k message)) message" for n k
    by (meson prefix_imp_sublist sublist_order.order_trans suffix_drop suffix_imp_sublist take_is_prefix)
  with Cons show ?case by (auto simp: Let_def split: option.splits if_splits)
qed simp

lemma model_name_printable: "model_name_char ch \<Longrightarrow> \<exists>c. ch = [c] \<and> 32 < byte c \<and> byte c < 127 \<and> c \<noteq> CHR 0x27"
  by (auto simp: model_name_char_def is_ascii_alphanumeric_def is_ascii_alphabetic_def is_ascii_lowercase_def is_ascii_uppercase_def
      is_ascii_digit_def byte_def split: list.splits)

text \<open>What holds of printable ASCII and of the characters of the message holds of the result.\<close>

lemma rewrite_all: "sound_matcher f \<Longrightarrow> list_all P r \<Longrightarrow> list_all P cs \<Longrightarrow> list_all P (rewrite f r cs)"
  using rewrite_set [of f r cs] by (auto simp: list_all_iff)

definition printable :: "string \<Rightarrow> bool" where
  "printable s \<longleftrightarrow> list_all (\<lambda>c. 32 \<le> byte c \<and> byte c < 127) s"

lemma printable_append [simp]: "printable (a @ b) \<longleftrightarrow> printable a \<and> printable b"
  by (simp add: printable_def)

lemma printable_decimal [simp]: "printable (decimal n)"
  using decimal_digits by (fastforce simp: printable_def list_all_iff is_ascii_digit_def)

lemma normalize_all:
  assumes P: "\<And>c. 32 \<le> byte c \<Longrightarrow> byte c < 127 \<Longrightarrow> P [c]" and cs: "list_all P cs"
  shows "list_all P (normalize_error_message cs)"
proof -
  have lits: "list_all P (lit s)" if "printable s" for s
    using that P by (auto simp: lit_def list_all_iff printable_def)
  have lit_ok [simp]: "list_all P (lit ''[REDACTED]'')" "list_all P (lit ''upstream'')" "list_all P (lit ''endpoint'')"
      "list_all P (lit ''service unavailable'')" "list_all P (lit ''Service temporarily unavailable, please retry'')"
      "list_all P (lit ''Upstream service error, please retry later'')" "list_all P (lit ''ThrottlingException'')"
    by (rule lits, code_simp)+
  have names: "list_all P (redact_endpoint_names xs)" if "list_all P xs" for xs
    unfolding redact_endpoint_names_def replace_ascii_case_insensitive_def
    using that by (intro rewrite_all match_name_sound match_endpoint_sound) simp_all
  have red: "list_all P (redact_kiro_keys cs)"
    unfolding redact_kiro_keys_def using cs by (intro rewrite_all match_key_sound) simp_all
  have dropped: "list_all P (drop n xs)" if "list_all P xs" for n xs using that by (auto simp: list_all_iff dest: in_set_dropD)
  have ctx: "list_all P (context_message xs)" if "list_all P xs" for xs
  proof -
    have "printable '': ''" "printable '' tokens > ''" by code_simp+
    then have "printable (counts_text i j)" for i j unfolding counts_text_def by (simp only: printable_append printable_decimal)
    moreover have "printable ''prompt is too long''" "printable (''prompt is too long for model '' @ [CHR 0x27])"
      "printable [CHR 0x27]" "printable ''prompt is too long: context length exceeded''" by code_simp+
    moreover have "list_all P model" if "context_model_name xs = Some model" for model
      using context_model_part [OF that [unfolded context_model_name_def]] P model_name_printable
      by (fastforce simp: list_all_iff)
    ultimately show ?thesis by (auto simp: context_message_def Let_def lits split: option.split)
  qed
  show ?thesis
    using names [OF red] ctx [OF red] names [of "lit ''ThrottlingException'' @ xs" for xs] dropped [OF red]
    by (auto simp: normalize_error_message_def Let_def quota_message_def split: option.split)
qed

lemma model_no_key:
  assumes "no_key message" "context_model_name message = Some model"
  shows "no_key model"
proof -
  have "sublist model message" using context_model_part [OF assms(2) [unfolded context_model_name_def]] by blast
  then obtain a b where "message = a @ model @ b" by (auto simp: sublist_def)
  then show ?thesis using assms(1) by (metis no_key_prefix no_key_suffix prefixI suffixI)
qed

lemma no_key_normalized: "no_key (normalize_error_message cs)"
proof -
  let ?m = "redact_kiro_keys cs"
  have plain: "no_key (lit s)" if "CHR ''_'' \<notin> set s" for s
    using that by (intro no_key_no_underscore) (auto simp: lit_def)
  have digits: "CHR ''_'' \<notin> set (decimal n)" for n
    using decimal_digits [of "CHR ''_''" n] by (auto simp: is_ascii_digit_def byte_def)
  have counts: "CHR ''_'' \<notin> set (counts_text i j)" for i j using digits by (simp add: counts_text_def)
  have model: "no_key (lit (''prompt is too long for model '' @ [CHR 0x27]) @ model @ lit [CHR 0x27] @ lit (counts_text i j))"
    if "context_model_name ?m = Some model" for model i j
    using no_key_separated [OF plain [of "''prompt is too long for model ''"] no_key_separated [OF model_no_key [OF no_key_redact that] plain [OF counts]] refl]
    by (simp add: lit_def)
  have ctx: "no_key (context_message ?m)"
    using model plain counts by (auto simp: context_message_def Let_def lit_append [symmetric] simp del: lit_append split: option.split)
  have throttling: "no_key (lit ''ThrottlingException'' @ xs)" if "no_key xs" for xs
  proof (rule no_key_no_k [OF _ that])
    have "list_all (\<lambda>ch. \<not> folds_to (CHR ''k'') ch) (lit ''ThrottlingException'')" by code_simp
    then show "ch \<in> set (lit ''ThrottlingException'') \<Longrightarrow> \<not> folds_to (CHR ''k'') ch" for ch by (simp add: list_all_iff)
  qed
  have "no_key (drop n ?m)" for n using no_key_suffix [OF no_key_redact suffix_drop] .
  moreover have "no_key []" by (simp add: no_key_iff match_key_def)
  moreover have "no_key (lit ''ThrottlingException'')" using throttling [of "[]"] \<open>no_key []\<close> by simp
  ultimately have "no_key (quota_message ?m)"
    by (auto simp: quota_message_def intro!: no_key_endpoint_names throttling no_key_redact split: option.split)
  then show ?thesis
    using ctx no_key_endpoint_names [OF no_key_redact [of cs]] plain by (auto simp: normalize_error_message_def Let_def)
qed

section \<open>Endpoint names\<close>

definition endpoint_names :: "string list" where
  "endpoint_names = [''codewhisperer'', ''amazonq'']"

lemma names_apart: "list_all (\<lambda>p. list_all (\<lambda>r. apart (lit p) (lower_chars (lit r)) \<and> apart (lower_chars (lit r)) (lit p))
    [''endpoint'']) endpoint_names"
  by code_simp

lemma replace_removes: "to_ascii_lowercase needle = p \<Longrightarrow> p \<in> set endpoint_names \<Longrightarrow>
    \<not> mentions p (replace_ascii_case_insensitive cs needle ''endpoint'')"
  unfolding mentions_def replace_ascii_case_insensitive_def
  using names_apart
  by (intro rewrite_removes match_name_sound)
     (auto simp: list_all_iff endpoint_names_def lit_def match_name_def to_ascii_lowercase_def split: if_splits)

lemma replace_keeps: "needle \<noteq> [] \<Longrightarrow> p \<in> set endpoint_names \<Longrightarrow> \<not> mentions p cs \<Longrightarrow>
    \<not> mentions p (replace_ascii_case_insensitive cs needle ''endpoint'')"
proof
  assume a: "needle \<noteq> []" "p \<in> set endpoint_names" "\<not> mentions p cs" "mentions p (replace_ascii_case_insensitive cs needle ''endpoint'')"
  have "apart (lit p) (lower_chars (lit ''endpoint''))" "apart (lower_chars (lit ''endpoint'')) (lit p)"
    using names_apart a(2) by (auto simp: list_all_iff)
  from rewrite_sublist [OF match_name_sound [OF a(1)] this, of cs] a(3,4) show False
    by (simp add: mentions_def replace_ascii_case_insensitive_def)
qed

lemma redact_removes: "p \<in> set endpoint_names \<Longrightarrow> \<not> mentions p (redact_endpoint_names cs)"
proof -
  assume "p \<in> set endpoint_names"
  then consider "p = ''codewhisperer''" | "p = ''amazonq''" by (auto simp: endpoint_names_def)
  then show ?thesis
  proof cases
    case 1
    then show ?thesis unfolding redact_endpoint_names_def
      by (intro replace_keeps replace_removes) (simp_all add: endpoint_names_def names_lower)
  next
    case 2
    then show ?thesis unfolding redact_endpoint_names_def
      by (intro replace_removes) (simp_all add: endpoint_names_def names_lower)
  qed
qed

lemma mentions_hd: "mentions p cs \<Longrightarrow> c \<in> set p \<Longrightarrow> [c] \<in> set (lower_chars cs)"
proof -
  assume "mentions p cs" "c \<in> set p"
  then have "[c] \<in> set (lit p)" "set (lit p) \<subseteq> set (lower_chars cs)"
    using set_mono_sublist [of "lit p" "lower_chars cs"] by (auto simp: mentions_def lit_def)
  then show ?thesis by blast
qed

lemma mentions_append: "mentions p (xs @ sep # ys) \<Longrightarrow> lower_char sep \<notin> set (lit p) \<Longrightarrow> mentions p xs \<or> mentions p ys"
  unfolding mentions_def
  by (auto simp: sublist_append sublist_Cons_right prefix_Cons)

lemma mentions_blanked: "mentions p (map (\<lambda>ch. if P ch then '' '' else ch) cs) \<Longrightarrow> CHR '' '' \<notin> set p \<Longrightarrow> mentions p cs"
proof -
  let ?g = "\<lambda>ch. if P ch then '' '' else ch"
  assume "mentions p (map ?g cs)" and p: "CHR '' '' \<notin> set p"
  then obtain a b c where abc: "cs = a @ b @ c" "lit p = map (lower_char \<circ> ?g) b"
    unfolding mentions_def sublist_def by (auto simp: map_eq_append_conv append_eq_map_conv)
  have sp: "lower_char '' '' = '' ''" by code_simp
  have "\<not> P ch" if "ch \<in> set b" for ch
  proof
    assume "P ch"
    then have "'' '' \<in> set (lit p)" using abc(2) that sp by (auto simp: image_iff intro!: bexI [of _ ch])
    with p show False by (auto simp: lit_def)
  qed
  then have "lit p = lower_chars b" unfolding abc(2) by simp
  then show ?thesis unfolding mentions_def abc(1) by (auto simp: sublist_def)
qed

lemma mentions_take: "mentions p (take n cs) \<Longrightarrow> mentions p cs"
  unfolding mentions_def by (metis prefix_imp_sublist sublist_order.order_trans take_is_prefix take_map)

lemma lit_counts: "lit (counts_text i j) = lit '': '' @ lit (decimal i) @ lit '' tokens > '' @ lit (decimal j)"
  by (simp only: counts_text_def lit_append)

lemma no_letter: "list_all (\<lambda>s. list_all (\<lambda>ch. ch \<noteq> ''w'' \<and> ch \<noteq> ''q'') (lower_chars (lit s)))
    [''service unavailable'', ''Service temporarily unavailable, please retry'', ''Upstream service error, please retry later'',
     ''prompt is too long: context length exceeded'', ''prompt is too long for model '', ''prompt is too long'', '': '', '' tokens > '']"
  by code_simp

lemma names_normalized: "p \<in> set endpoint_names \<Longrightarrow> \<not> mentions p (normalize_error_message cs)"
proof -
  assume p: "p \<in> set endpoint_names"
  have no: "\<not> mentions p xs" if "''w'' \<notin> set (lower_chars xs)" "''q'' \<notin> set (lower_chars xs)" for xs
    using p that mentions_hd [of p xs "CHR ''w''"] mentions_hd [of p xs "CHR ''q''"] by (auto simp: endpoint_names_def)
  have quote: "lower_char [CHR 0x27] \<notin> set (lit p)"
    using p by (auto simp: endpoint_names_def lit_def lower_char_def ascii_lower_def is_ascii_uppercase_def byte_def)
  have "ascii_lower c \<noteq> d" if "c \<in> set (decimal n)" "d \<in> set ''wq''" for c d n
    using decimal_digits [OF that(1)] that(2) by (auto simp: ascii_lower_def is_ascii_digit_def is_ascii_uppercase_def byte_def)
  then have digit: "''w'' \<notin> set (lower_chars (lit (decimal n)))" "''q'' \<notin> set (lower_chars (lit (decimal n)))" for n
    by (fastforce simp: lit_def lower_char_def)+
  have counts: "''w'' \<notin> set (lower_chars (lit (counts_text i j)))" "''q'' \<notin> set (lower_chars (lit (counts_text i j)))" for i j
    using no_letter digit unfolding lit_counts by (auto simp: list_all_iff)
  have fixed: "\<not> mentions p (lit s)" if "s \<in> set [''service unavailable'', ''Service temporarily unavailable, please retry'',
      ''Upstream service error, please retry later'', ''prompt is too long: context length exceeded'', ''prompt is too long for model '']" for s
    by (rule no) (use no_letter that in \<open>auto simp: list_all_iff\<close>)
  have plain: "\<not> mentions p (lit ''prompt is too long'' @ lit (counts_text i j))" for i j
    by (rule no) (use no_letter counts in \<open>auto simp: list_all_iff\<close>)
  have model: "\<not> mentions p (lit (''prompt is too long for model '' @ [CHR 0x27]) @ model @ lit [CHR 0x27] @ lit (counts_text i j))"
    if "redact_endpoint_names model = model" for model i j
  proof
    assume "mentions p (lit (''prompt is too long for model '' @ [CHR 0x27]) @ model @ lit [CHR 0x27] @ lit (counts_text i j))"
    then have "mentions p (lit ''prompt is too long for model '' @ [CHR 0x27] # (model @ [CHR 0x27] # lit (counts_text i j)))"
      by (simp add: lit_def)
    then consider "mentions p (lit ''prompt is too long for model '')" | "mentions p model" | "mentions p (lit (counts_text i j))"
      using mentions_append quote by blast
    then show False
      using fixed redact_removes [OF p, of model] that no [OF counts] by cases auto
  qed
  have "\<not> mentions p (context_message message)" for message
    using model plain fixed by (auto simp: context_message_def Let_def split: option.split)
  then show ?thesis
    using fixed redact_removes [OF p] by (auto simp: normalize_error_message_def quota_message_def Let_def)
qed

section \<open>Phrases\<close>

definition no_endpoint :: "text_chars \<Rightarrow> bool" where
  "no_endpoint cs \<longleftrightarrow> list_all (\<lambda>xs. match_endpoint xs = None \<and> match_name ''CodeWhisperer'' xs = None \<and> match_name ''AmazonQ'' xs = None)
     (suffixes cs)"

lemma no_endpoint_suffix: "no_endpoint cs \<Longrightarrow> suffix xs cs \<Longrightarrow> no_endpoint xs"
  by (auto simp: no_endpoint_def list_all_iff intro: suffix_order.trans)

lemma no_endpoint_id: "no_endpoint cs \<Longrightarrow> redact_endpoint_names cs = cs"
  unfolding redact_endpoint_names_def replace_ascii_case_insensitive_def
  by (auto simp: no_endpoint_def list_all_iff rewrite_id)

lemma phrases_apart: "list_all (\<lambda>p. hd p = CHR ''t'' \<or> list_all (\<lambda>r. apart (lit p) (lower_chars (lit r)) \<and> apart (lower_chars (lit r)) (lit p))
    [''endpoint'', ''upstream'']) BAN_TRIGGER_PHRASES"
  by code_simp

lemma rewrite_mentions:
  assumes "sound_matcher f" "r \<in> set [''endpoint'', ''upstream'']" "p \<in> set BAN_TRIGGER_PHRASES" "hd p \<noteq> CHR ''t''"
  shows "mentions p (rewrite f (lit r) cs) \<Longrightarrow> mentions p cs"
proof -
  have "apart (lit p) (lower_chars (lit r))" "apart (lower_chars (lit r)) (lit p)"
    using phrases_apart assms(2-4) unfolding list_all_iff by blast+
  then show "mentions p (rewrite f (lit r) cs) \<Longrightarrow> mentions p cs"
    unfolding mentions_def using rewrite_sublist [OF assms(1)] by blast
qed

lemma redact_mentions:
  assumes "p \<in> set BAN_TRIGGER_PHRASES" "hd p = CHR ''t'' \<longrightarrow> no_endpoint cs" "mentions p (redact_endpoint_names cs)"
  shows "mentions p cs"
proof (cases "hd p = CHR ''t''")
  case True
  with assms show ?thesis by (simp add: no_endpoint_id)
next
  case False
  have name: "mentions p (rewrite (match_name n) (lit ''endpoint'') xs) \<Longrightarrow> mentions p xs" if "n \<noteq> []" for n xs
    by (rule rewrite_mentions [OF match_name_sound [OF that] _ assms(1) False]) (rule list.set_intros)
  have host: "mentions p (rewrite match_endpoint (lit ''upstream'') xs) \<Longrightarrow> mentions p xs" for xs
    by (rule rewrite_mentions [OF match_endpoint_sound _ assms(1) False]) (rule list.set_intros(2), rule list.set_intros(1))
  note m = assms(3) [unfolded redact_endpoint_names_def replace_ascii_case_insensitive_def]
  show ?thesis by (rule host, rule name [of "''CodeWhisperer''"], simp, rule name [OF _ m], simp)
qed

lemma mentions_suffix: "mentions p cs \<Longrightarrow> suffix cs ds \<Longrightarrow> mentions p ds"
  unfolding mentions_def by (meson map_mono_suffix sublist_order.order_trans suffix_imp_sublist)

lemma no_a: "list_all (\<lambda>s. ''a'' \<notin> set (lower_chars (lit s)))
    [''prompt is too long: context length exceeded'', ''prompt is too long for model '', ''prompt is too long'', '': '', '' tokens > '']"
  by code_simp

lemma phrase_letters: "list_all (\<lambda>p. CHR ''a'' \<in> set p \<and> CHR '' '' \<in> set p \<and> CHR 0x27 \<notin> set p \<and> CHR 0xE2 \<notin> set p) BAN_TRIGGER_PHRASES"
  by code_simp

lemma context_no_phrase:
  assumes "p \<in> set BAN_TRIGGER_PHRASES"
  shows "\<not> mentions p (context_message message)"
proof -
  have p: "CHR ''a'' \<in> set p" "CHR '' '' \<in> set p" "CHR 0x27 \<notin> set p" using phrase_letters assms by (auto simp: list_all_iff)
  have no: "\<not> mentions p xs" if "''a'' \<notin> set (lower_chars xs)" for xs using that mentions_hd [OF _ p(1)] by blast
  have "ascii_lower c \<noteq> CHR ''a''" if "c \<in> set (decimal n)" for c n
    using decimal_digits [OF that] by (auto simp: ascii_lower_def is_ascii_digit_def is_ascii_uppercase_def byte_def)
  then have "''a'' \<notin> set (lower_chars (lit (decimal n)))" for n by (fastforce simp: lit_def lower_char_def)
  then have counts: "''a'' \<notin> set (lower_chars (lit (counts_text i j)))" for i j
    using no_a unfolding lit_counts by (auto simp: list_all_iff)
  have plain: "\<not> mentions p (lit ''prompt is too long'' @ lit (counts_text i j))" for i j
    by (rule no) (use no_a counts in \<open>auto simp: list_all_iff\<close>)
  have fixed: "\<not> mentions p (lit ''prompt is too long: context length exceeded'')" "\<not> mentions p (lit ''prompt is too long for model '')"
    by (rule no, use no_a in \<open>simp add: list_all_iff\<close>)+
  have model: "\<not> mentions p (lit (''prompt is too long for model '' @ [CHR 0x27]) @ model @ lit [CHR 0x27] @ lit (counts_text i j))"
    if "list_all model_name_char model" for model i j
  proof
    have quote: "lower_char [CHR 0x27] \<notin> set (lit p)"
      using p(3) by (auto simp: lit_def lower_char_def ascii_lower_def is_ascii_uppercase_def byte_def)
    have "'' '' \<notin> set (lower_chars model)"
    proof
      assume "'' '' \<in> set (lower_chars model)"
      then obtain ch where "ch \<in> set model" "'' '' = lower_char ch" by auto
      moreover then obtain c where "ch = [c]" "32 < byte c" using model_name_printable \<open>list_all model_name_char model\<close> by (fastforce simp: list_all_iff)
      ultimately have "ascii_lower c = CHR '' ''" by (simp add: lower_char_def)
      then have "c = CHR '' ''" by (rule ascii_lower_eq) (simp add: is_ascii_lowercase_def byte_def)
      with \<open>32 < byte c\<close> show False by (simp add: byte_def)
    qed
    then have "\<not> mentions p model" using mentions_hd [OF _ p(2)] by blast
    moreover assume "mentions p (lit (''prompt is too long for model '' @ [CHR 0x27]) @ model @ lit [CHR 0x27] @ lit (counts_text i j))"
    then have "mentions p (lit ''prompt is too long for model '' @ [CHR 0x27] # (model @ [CHR 0x27] # lit (counts_text i j)))"
      by (simp add: lit_def)
    ultimately show False using mentions_append quote fixed(2) no [OF counts] by blast
  qed
  show ?thesis
    using model plain fixed(1) context_model_part by (auto simp: context_message_def context_model_name_def Let_def split: option.split)
qed

definition fixed_texts :: "string list" where
  "fixed_texts = [''service unavailable'', ''Service temporarily unavailable, please retry'', ''Upstream service error, please retry later'']"

lemma fixed_no_phrase:
  assumes "p \<in> set BAN_TRIGGER_PHRASES" "s \<in> set fixed_texts"
  shows "\<not> mentions p (lit s)"
proof
  have texts: "list_all (\<lambda>s. ''d'' \<notin> set (lower_chars (lit s)) \<and> \<not> mentions ''ma'' (lit s)) fixed_texts" by code_simp
  have phrases: "list_all (\<lambda>p. CHR ''d'' \<in> set p \<or> sublist (lit ''ma'') (lit p)) BAN_TRIGGER_PHRASES" by code_simp
  assume "mentions p (lit s)"
  then have "''d'' \<in> set (lower_chars (lit s)) \<or> mentions ''ma'' (lit s)"
    using phrases assms(1) mentions_hd unfolding list_all_iff mentions_def by (meson sublist_order.order_trans)
  with texts assms(2) show False by (auto simp: list_all_iff)
qed

lemma normalize_no_phrase:
  assumes "p \<in> set BAN_TRIGGER_PHRASES" "hd p = CHR ''t'' \<longrightarrow> no_endpoint (redact_kiro_keys cs)"
  shows "\<not> mentions p (normalize_error_message cs)"
proof (cases "list_ex (\<lambda>phrase. mentions phrase (redact_kiro_keys cs)) BAN_TRIGGER_PHRASES")
  case True
  then show ?thesis using fixed_no_phrase [OF assms(1)] by (simp add: normalize_error_message_def fixed_texts_def)
next
  case False
  let ?m = "redact_kiro_keys cs"
  have m: "\<not> mentions p ?m" using False assms(1) by (auto simp: list_ex_iff)
  have whole: "\<not> mentions p (redact_endpoint_names xs)" if "suffix xs ?m" for xs
    using that m assms redact_mentions [OF assms(1), of xs] no_endpoint_suffix mentions_suffix by blast
  have "\<not> mentions p (quota_message ?m)"
  proof (cases "str_find (lit ''ThrottlingException'') ?m")
    case None
    have "\<not> mentions p (redact_endpoint_names (lit ''ThrottlingException''))"
    proof -
      have "'' '' \<notin> set (lower_chars (redact_endpoint_names (lit ''ThrottlingException'')))" by code_simp
      then show ?thesis using mentions_hd [of p _ "CHR '' ''"] phrase_letters assms(1) by (auto simp: list_all_iff)
    qed
    with None whole show ?thesis by (simp add: quota_message_def)
  next
    case (Some i)
    have "suffix (lit ''ThrottlingException'' @ drop (i + length ''ThrottlingException'') ?m) ?m"
      using str_find_suffix [OF Some] unfolding length_lit .
    with Some whole show ?thesis by (simp add: quota_message_def)
  qed
  then show ?thesis
    using False whole context_no_phrase [OF assms(1)] fixed_no_phrase [OF assms(1)]
    by (auto simp: normalize_error_message_def Let_def fixed_texts_def)
qed

section \<open>Properties\<close>

lemma wf_sanitized:
  assumes "starts_char m"
  shows "list_all wf_char (bounded_chars (normalize_error_message (chars m)))"
proof -
  have ascii: "wf_char [c]" if "byte c < 127" for c using that by (simp add: wf_char_def is_cont_def)
  have "list_all wf_char (normalize_error_message (chars m))"
    by (rule normalize_all [OF _ wf_chars [OF assms]]) (rule ascii)
  then show ?thesis using ascii [of "CHR '' ''"] by (auto simp: bounded_chars_def list_all_iff byte_def dest: in_set_takeD)
qed

text \<open>C23: What a client sees of an error leaks nothing. Whatever the upstream wrote, the message is at most 1024
  characters and an ellipsis, without control characters; no headless key is in it, in no spelling the
  pattern knows, although keys are removed first and the text is edited afterwards; and the names of the
  upstream services are gone from it, in any case.\<close>

theorem sanitized_error_leaks_nothing:
  assumes "starts_char m"
  shows "\<exists>body. sanitize_error_message m = concat body @ (if length (normalize_error_message (chars m)) \<le> 1024 then [] else ellipsis) \<and>
    chars (concat body) = body \<and> length body \<le> 1024 \<and> list_all (\<lambda>ch. \<not> is_control ch) body \<and> no_key body \<and>
    \<not> mentions ''codewhisperer'' body \<and> \<not> mentions ''amazonq'' body"
proof -
  let ?n = "normalize_error_message (chars m)"
  let ?body = "bounded_chars ?n"
  have "\<not> is_control '' ''" by code_simp
  then have "list_all (\<lambda>ch. \<not> is_control ch) ?body" by (auto simp: bounded_chars_def list_all_iff)
  moreover have "no_key ?body" unfolding bounded_chars_def
    by (intro no_key_blanked no_key_prefix [OF no_key_normalized]) (rule take_is_prefix)
  moreover have "\<not> mentions p ?body" if "p \<in> set endpoint_names" for p
  proof
    assume "mentions p ?body"
    then have "mentions p (take 1024 ?n)" unfolding bounded_chars_def
      by (rule mentions_blanked) (use that in \<open>auto simp: endpoint_names_def\<close>)
    then show False using mentions_take names_normalized [OF that] by blast
  qed
  ultimately show ?thesis
    using chars_concat [OF wf_sanitized [OF assms]]
    by (intro exI [of _ ?body]) (simp add: sanitize_error_message_def Let_def bounded_chars_def endpoint_names_def)
qed

text \<open>C24: The phrases that a client's risk system takes for a ban never reach it, in any case and in any branch,
  if the upstream's message has no control characters; for the two phrases that begin with the last letter
  of the substitute \<open>endpoint\<close>, if it names no endpoint.\<close>

theorem ban_phrases_never_shown:
  assumes "starts_char m" "list_all (\<lambda>ch. \<not> is_control ch) (chars m)" "p \<in> set BAN_TRIGGER_PHRASES"
    and "hd p = CHR ''t'' \<longrightarrow> no_endpoint (redact_kiro_keys (chars m))"
  shows "\<not> mentions p (chars (sanitize_error_message m))"
proof
  let ?n = "normalize_error_message (chars m)"
  let ?tail = "if length ?n \<le> 1024 then [] else [ellipsis]"
  have clean: "list_all (\<lambda>ch. \<not> is_control ch) ?n"
    by (rule normalize_all [OF _ assms(2)]) (simp add: is_control_def)
  then have body: "bounded_chars ?n = take 1024 ?n"
    by (auto simp: bounded_chars_def list_all_iff intro!: map_idI dest: in_set_takeD)
  have "wf_char ellipsis" by code_simp
  then have "list_all wf_char (take 1024 ?n @ ?tail)" using wf_sanitized [OF assms(1)] body by simp
  then have "chars (sanitize_error_message m) = take 1024 ?n @ ?tail"
    using chars_concat body by (fastforce simp: sanitize_error_message_def Let_def)
  moreover assume "mentions p (chars (sanitize_error_message m))"
  moreover have "lower_char ellipsis \<notin> set (lit p)"
    using phrase_letters assms(3) by (auto simp: lit_def ellipsis_def lower_char_def)
  ultimately have "mentions p (take 1024 ?n) \<or> mentions p []"
    using mentions_append [of p "take 1024 ?n" ellipsis "[]"] by (auto split: if_splits)
  moreover have "\<not> mentions p []" using assms(3) by (auto simp: mentions_def lit_def BAN_TRIGGER_PHRASES_def)
  ultimately show False using mentions_take normalize_no_phrase [OF assms(3,4)] by blast
qed

text \<open>The check comes before control characters become blanks, so a phrase broken over two lines is shown.\<close>

theorem control_character_restores_phrase:
  "sanitize_error_message (''Account'' @ [CHR 0x0A] @ ''disabled'') = ''Account disabled'' \<and>
   mentions ''account disabled'' (chars (sanitize_error_message (''Account'' @ [CHR 0x0A] @ ''disabled'')))"
  by code_simp

section \<open>Witnesses\<close>

theorem sanitized_error_leaks_nothing_witness:
  "starts_char ''a ksk_x'' \<and> (\<exists>body. sanitize_error_message ''a ksk_x'' = concat body @
      (if length (normalize_error_message (chars ''a ksk_x'')) \<le> 1024 then [] else ellipsis) \<and> no_key body)"
  using sanitized_error_leaks_nothing [of "''a ksk_x''"] by (auto simp: starts_char_def byte_def)

theorem ban_phrases_never_shown_witness:
  "\<not> mentions ''account disabled'' (chars (sanitize_error_message ''Account disabled''))"
  by (rule ban_phrases_never_shown; code_simp)

end
