(* ===== verification/KiroClient.thy ===== *)
theory KiroClient
  imports EndpointCorrect ToolHistoryCorrect Catalog ErrorText Decoded
begin

text \<open>
  \<open>crates/kproxy-kiro/src/client.rs\<close>: how upstream errors are classified, how usage and subscriptions are
  read, how a profile is found and how a generation request goes from endpoint to endpoint. HTTP is a
  parameter: the reply to each request is an argument, and so is what other tasks do to the endpoint cache
  while a reply is awaited. \<open>describe\<close> words a violation of the tool-history contract.
\<close>

section \<open>Classification of errors\<close>

definition any_marker :: "string list \<Rightarrow> string \<Rightarrow> bool" where
  "any_marker markers text_lower = list_ex (\<lambda>marker. str_contains text_lower marker) markers"

definition contains_status :: "string \<Rightarrow> nat \<Rightarrow> bool" where
  "contains_status text_lower status \<longleftrightarrow>
     decimal status \<in> set (split_where (\<lambda>c. \<not> is_ascii_alphanumeric c) text_lower)"

definition text_is_auth_error :: "string \<Rightarrow> bool" where
  "text_is_auth_error message =
     (let lower = to_ascii_lowercase message in
      any_marker [''unauthorized'', ''unauthenticated'', ''invalid token'', ''expired token'', ''token expired'', ''access denied'',
        ''authentication''] lower
      \<or> contains_status lower 401 \<or> contains_status lower 403)"

definition text_is_quota_error :: "string \<Rightarrow> bool" where
  "text_is_quota_error message =
     (let lower = to_ascii_lowercase message in
      any_marker [''quota'', ''credit exhausted'', ''credits exhausted'', ''insufficient credit'', ''usage limit''] lower
      \<or> contains_status lower 402)"

definition text_is_throttle_error :: "string \<Rightarrow> bool" where
  "text_is_throttle_error message =
     (let lower = to_ascii_lowercase message in
      any_marker [''throttl'', ''too many requests'', ''rate limit'', ''rate exceeded''] lower \<or> contains_status lower 429)"

definition text_is_model_temporarily_unavailable :: "string \<Rightarrow> bool" where
  "text_is_model_temporarily_unavailable message =
     any_marker [''model_temporarily_unavailable'', ''model temporarily unavailable'', ''unexpectedly high load''] (to_ascii_lowercase message)"

definition text_is_context_too_long :: "string \<Rightarrow> bool" where
  "text_is_context_too_long message =
     any_marker [''prompt is too long'', ''context length exceeded'', ''input is too long'', ''maximum context''] (to_ascii_lowercase message)"

definition text_is_request_rejection :: "string \<Rightarrow> bool" where
  "text_is_request_rejection message =
     (let lower = to_ascii_lowercase message in
      text_is_context_too_long lower
      \<or> any_marker [''too many tools'', ''tool definitions are too large'', ''tool schema'', ''payload too large'', ''request too large'',
          ''request entity too large'', ''validationexception''] lower
      \<or> contains_status lower 413 \<or> contains_status lower 422)"

definition server_status :: "nat option \<Rightarrow> bool" where
  "server_status status = (case status of Some n \<Rightarrow> 500 \<le> n \<and> n \<le> 599 | None \<Rightarrow> False)"

definition is_auth :: "kiro_error \<Rightarrow> bool" where
  "is_auth e \<longleftrightarrow> ke_status e \<in> {Some 401, Some 403} \<or> text_is_auth_error (ke_message e)"

definition is_quota :: "kiro_error \<Rightarrow> bool" where
  "is_quota e \<longleftrightarrow> ke_status e = Some 402 \<or> text_is_quota_error (ke_message e)"

definition is_throttle :: "kiro_error \<Rightarrow> bool" where
  "is_throttle e \<longleftrightarrow> ke_status e = Some 429 \<or> text_is_throttle_error (ke_message e)"

definition is_model_temporarily_unavailable :: "kiro_error \<Rightarrow> bool" where
  "is_model_temporarily_unavailable e \<longleftrightarrow>
     (ke_status e = None \<or> server_status (ke_status e)) \<and> text_is_model_temporarily_unavailable (ke_message e)"

definition is_model_capacity_error :: "kiro_error \<Rightarrow> bool" where
  "is_model_capacity_error e \<longleftrightarrow> is_throttle e \<or> is_model_temporarily_unavailable e"

definition is_retriable :: "kiro_error \<Rightarrow> bool" where
  "is_retriable e \<longleftrightarrow> ke_status e = None \<or> is_throttle e \<or> server_status (ke_status e)"

definition is_request_rejection :: "kiro_error \<Rightarrow> bool" where
  "is_request_rejection e \<longleftrightarrow> ke_status e \<in> {Some 400, Some 413, Some 422} \<or> text_is_request_rejection (ke_message e)"

section \<open>Usage and subscriptions\<close>

record usage_allowance =
  ua_current_usage :: "f64 option"
  ua_current_usage_with_precision :: "f64 option"
  ua_usage_limit :: "f64 option"
  ua_usage_limit_with_precision :: "f64 option"
  ua_free_trial_status :: "string option"
  ua_status :: "string option"

record usage_breakdown =
  ub_resource_type :: string
  ub_current_usage :: "f64 option"
  ub_current_usage_with_precision :: "f64 option"
  ub_usage_limit :: "f64 option"
  ub_usage_limit_with_precision :: "f64 option"
  ub_overage_cap :: "f64 option"
  ub_overage_cap_with_precision :: "f64 option"
  ub_free_trial_info :: "usage_allowance option"
  ub_free_trial_usage :: "usage_allowance option"
  ub_bonuses :: "usage_allowance list"

record usage_subscription =
  uu_subscription_title :: string
  uu_subscription_type :: string

record usage_limits =
  ul_usage_breakdown_list :: "usage_breakdown list"
  ul_overage_status :: "string option"
  ul_next_date_reset :: "json option"
  ul_days_until_reset :: "int option"
  ul_subscription_info :: "usage_subscription option"

definition precise :: "f64 option \<Rightarrow> f64 option \<Rightarrow> f64" where
  "precise exact fallback = unwrap_or (or_else exact fallback) (Fin 0)"

definition allowance_current :: "usage_allowance \<Rightarrow> f64" where
  "allowance_current a = precise (ua_current_usage_with_precision a) (ua_current_usage a)"

definition allowance_limit :: "usage_allowance \<Rightarrow> f64" where
  "allowance_limit a = precise (ua_usage_limit_with_precision a) (ua_usage_limit a)"

text \<open>The allowances that count beside the plan: an active trial, then the bonuses.\<close>

definition extra_allowances :: "usage_breakdown \<Rightarrow> usage_allowance list" where
  "extra_allowances credit =
     (case opt_filter (\<lambda>t. ua_free_trial_status t = Some ''ACTIVE'') (or_else (ub_free_trial_info credit) (ub_free_trial_usage credit)) of
        Some trial \<Rightarrow> [trial] | None \<Rightarrow> []) @ ub_bonuses credit"

definition display_reset :: "(json \<Rightarrow> string) \<Rightarrow> json \<Rightarrow> string" where
  "display_reset to_json value = unwrap_or (as_str value) (to_json value)"

definition normalized_usage :: "(json \<Rightarrow> string) \<Rightarrow> int \<Rightarrow> usage_limits \<Rightarrow> usage option" where
  "normalized_usage to_json now limits =
     map_option (\<lambda>credit.
       let current = fold (\<lambda>a c. f_add c (allowance_current a)) (extra_allowances credit)
             (precise (ub_current_usage_with_precision credit) (ub_current_usage credit));
           limit = fold (\<lambda>a l. f_add l (allowance_limit a)) (extra_allowances credit)
             (precise (ub_usage_limit_with_precision credit) (ub_usage_limit credit));
           cap = precise (ub_overage_cap_with_precision credit) (ub_overage_cap credit);
           overage = (case ul_overage_status limits of Some status \<Rightarrow> eq_ignore_ascii_case status ''ENABLED'' | None \<Rightarrow> False)
             \<and> is_finite cap \<and> f_gt cap (Fin 0);
           full = (if overage then f_add limit cap else limit)
       in \<lparr>us_current = current, us_limit = full, us_overage_cap = (if overage then Some cap else None),
           us_percent_used = (if f_gt full (Fin 0)
             then f_clamp (f_mul (f_div current full) (Fin 100)) (Fin 0) (Fin 100) else Fin 0),
           us_next_reset_date = map_option (display_reset to_json) (ul_next_date_reset limits),
           us_updated_at = now\<rparr>)
       (find (\<lambda>item. ub_resource_type item \<in> {''CREDIT'', ''AGENTIC_REQUEST''}) (ul_usage_breakdown_list limits))"

definition ascii_upper :: "char \<Rightarrow> char" where
  "ascii_upper c = (if is_ascii_lowercase c then char_of (byte c - 32) else c)"

definition client_subscription_kind :: "string \<Rightarrow> string \<Rightarrow> subscription_kind" where
  "client_subscription_kind raw title =
     (let value = map ascii_upper (raw @ '' '' @ title) in
      if str_contains value ''PRO_PLUS'' \<or> str_contains value ''PRO+'' then ProPlus
      else if str_contains value ''POWER'' then Power
      else if str_contains value ''ENTERPRISE'' then Enterprise
      else if str_contains value ''TEAM'' then Teams
      else if str_contains value ''PRO'' then Pro
      else if str_contains value ''FREE'' then Free
      else UnknownKind)"

definition as_i64 :: "json \<Rightarrow> int option" where
  "as_i64 v = (case v of
       JNumber (PosInt n) \<Rightarrow> if uint n < 2 ^ 63 then Some (uint n) else None
     | JNumber (NegInt n) \<Rightarrow> Some (sint n)
     | _ \<Rightarrow> None)"

definition normalized_subscription :: "usage_limits \<Rightarrow> subscription option" where
  "normalized_subscription limits =
     map_option (\<lambda>source.
       let raw = (if uu_subscription_type source = [] then uu_subscription_title source else uu_subscription_type source)
       in \<lparr>sb_kind = client_subscription_kind raw (uu_subscription_title source),
           sb_title = (if uu_subscription_title source = [] then None else Some (uu_subscription_title source)),
           sb_raw_type = (if raw = [] then None else Some raw),
           sb_expires_at = Option.bind (ul_next_date_reset limits) as_i64,
           sb_days_remaining = ul_days_until_reset limits\<rparr>)
       (ul_subscription_info limits)"

section \<open>Profiles and regions\<close>

definition KIRO_BUILDER_ID_PROFILE_ARN :: string where
  "KIRO_BUILDER_ID_PROFILE_ARN = ''arn:aws:codewhisperer:us-east-1:638616132270:profile/AAAACCCCXXXX''"

definition KIRO_SOCIAL_PROFILE_ARN :: string where
  "KIRO_SOCIAL_PROFILE_ARN = ''arn:aws:codewhisperer:us-east-1:699475941385:profile/EHGA3GRVQMUK''"

definition GOV_ARN :: string where
  "GOV_ARN = ''arn:aws-us-gov:codewhisperer:us-gov-''"

definition canonical_api_region :: "string \<Rightarrow> string" where
  "canonical_api_region region = (if starts_with (trim region) ''eu-'' then ''eu-central-1'' else ''us-east-1'')"

definition profile_arn_region :: "string \<Rightarrow> string option" where
  "profile_arn_region arn =
     (let parts = split_char (CHR '':'') arn;
          valid_prefix = (take 1 parts = [''arn''] \<and> 2 \<le> length parts \<and> starts_with (parts ! 1) ''aws''
            \<and> 3 \<le> length parts \<and> parts ! 2 = ''codewhisperer'')
      in if length parts < 4 then None
         else let region = trim (parts ! 3) in
           if valid_prefix \<and> region_syntax region then Some region else None)"

definition usage_profile_arn :: "account \<Rightarrow> string option" where
  "usage_profile_arn a =
     (if cr_auth_method (ac_credentials a) = ApiKey then None
      else opt_filter (\<lambda>arn. cr_auth_method (ac_credentials a) \<noteq> Idc \<or> arn \<noteq> KIRO_BUILDER_ID_PROFILE_ARN)
        (opt_filter (\<lambda>arn. \<not> starts_with (trim (cr_region (ac_credentials a))) ''us-gov-'' \<or> starts_with arn GOV_ARN)
          (opt_filter (\<lambda>arn. arn \<noteq> []) (map_option trim (ac_profile_arn a)))))"

definition usage_api_regions :: "account \<Rightarrow> string list" where
  "usage_api_regions a =
     (let primary = unwrap_or (Option.bind (ac_profile_arn a) profile_arn_region) (canonical_api_region (cr_region (ac_credentials a)));
          own = trim (cr_region (ac_credentials a))
      in if starts_with own ''us-gov-'' then [own]
         else if starts_with primary ''us-gov-'' \<or> cr_auth_method (ac_credentials a) = ApiKey
         then [case account_api_region a of Inr region \<Rightarrow> region | Inl _ \<Rightarrow> primary]
         else let fallback = (if primary = ''us-east-1'' then ''eu-central-1'' else ''us-east-1'')
           in if primary \<noteq> fallback then [primary, fallback] else [primary])"

definition api_key_profile_error :: kiro_error where
  "api_key_profile_error = \<lparr>ke_status = Some 400, ke_endpoint = ''ListAvailableProfiles'',
     ke_message = ''Kiro API keys do not use profile ARNs''\<rparr>"

text \<open>\<open>discovered\<close> is the outcome of the discovery that is shared by all requests with the same token.\<close>

definition resolve_profile_arn :: "kiro_error + string \<Rightarrow> account \<Rightarrow> kiro_error + string" where
  "resolve_profile_arn discovered a =
     (if cr_auth_method (ac_credentials a) = ApiKey then Inl api_key_profile_error
      else case account_api_region a of
          Inl e \<Rightarrow> Inl e
        | Inr region \<Rightarrow>
            (let govcloud = starts_with region ''us-gov-'' in
             case opt_filter (\<lambda>arn. \<not> govcloud \<or> starts_with arn GOV_ARN)
                    (opt_filter (\<lambda>arn. arn \<noteq> []) (map_option trim (ac_profile_arn a))) of
               Some arn \<Rightarrow> Inr arn
             | None \<Rightarrow> if cr_auth_method (ac_credentials a) = Social \<and> \<not> govcloud then Inr KIRO_SOCIAL_PROFILE_ARN
                 else discovered))"

definition nonempty_error_body :: "nat \<Rightarrow> string \<Rightarrow> string" where
  "nonempty_error_body status body =
     (if trim body = [] then ''upstream returned HTTP '' @ decimal status @ '' without an error message'' else take_chars 2000 body)"

text \<open>The replies of the discovery: a failure before the body, the listed profiles, an unreadable list, or another status.\<close>

datatype profile_reply =
    ProfileFailed kiro_error
  | ProfileList "string option list"
  | ProfileUnreadable string
  | ProfileStatus nat string

definition profiles_error :: "nat option \<Rightarrow> string \<Rightarrow> kiro_error" where
  "profiles_error status message = \<lparr>ke_status = status, ke_endpoint = ''ListAvailableProfiles'', ke_message = message\<rparr>"

fun discover_loop :: "bool \<Rightarrow> bool \<Rightarrow> kiro_error option \<Rightarrow> profile_reply list \<Rightarrow> kiro_error + string" where
  "discover_loop govcloud fallback_allowed last_error [] =
     (if fallback_allowed \<and> \<not> govcloud then Inr KIRO_BUILDER_ID_PROFILE_ARN
      else Inl (unwrap_or last_error (profiles_error (Some 502) ''profile discovery returned no usable profile ARN'')))"
| "discover_loop govcloud fallback_allowed last_error (ProfileFailed e # replies) = Inl e"
| "discover_loop govcloud fallback_allowed last_error (ProfileUnreadable m # replies) =
     Inl (profiles_error (Some 502) (''invalid profile discovery response: '' @ m))"
| "discover_loop govcloud fallback_allowed last_error (ProfileList arns # replies) =
     (case find (\<lambda>arn. starts_with arn ''arn:'' \<and> length arn \<le> 2048 \<and> (\<not> govcloud \<or> starts_with arn GOV_ARN))
             (map trim (List.map_filter id arns)) of
        Some arn \<Rightarrow> Inr arn
      | None \<Rightarrow> discover_loop govcloud True last_error replies)"
| "discover_loop govcloud fallback_allowed last_error (ProfileStatus status body # replies) =
     (let e = profiles_error (Some status) (nonempty_error_body status body) in
      if status = 403 \<and> \<not> text_is_auth_error (ke_message e) then discover_loop govcloud True (Some e) replies
      else Inl e)"

definition fetch_profile_arn_once :: "profile_reply list \<Rightarrow> account \<Rightarrow> kiro_error + string" where
  "fetch_profile_arn_once replies a =
     (case account_api_region a of
        Inl e \<Rightarrow> Inl e
      | Inr region \<Rightarrow> discover_loop (starts_with region ''us-gov-'') False None replies)"

section \<open>One generation request\<close>

definition map_user :: "(kiro_user_input_message \<Rightarrow> kiro_user_input_message) \<Rightarrow> kiro_payload \<Rightarrow> kiro_payload" where
  "map_user f p =
     (let state = kp_conversation_state p in
      p\<lparr>kp_conversation_state := state\<lparr>cs_current_message := f (cs_current_message state),
        cs_history := map (\<lambda>m. m\<lparr>hx_user_input_message := map_option f (hx_user_input_message m)\<rparr>) (cs_history state)\<rparr>\<rparr>)"

definition set_payload_origin :: "string \<Rightarrow> kiro_payload \<Rightarrow> kiro_payload" where
  "set_payload_origin origin = map_user (\<lambda>u. u\<lparr>um_origin := origin\<rparr>)"

definition set_payload_model :: "string \<Rightarrow> kiro_payload \<Rightarrow> kiro_payload" where
  "set_payload_model model = map_user (\<lambda>u. u\<lparr>um_model_id := model\<rparr>)"

datatype http_reply = HttpOk | HttpStatus nat string | HttpTransport string

text \<open>The wait for one of the streaming connections, and the headers, whose values the HTTP library may refuse.\<close>

datatype slot_wait = SlotGranted | SlotTimedOut nat | SlotClosed string | HeaderRefused string

definition build_error :: "string \<Rightarrow> kiro_error" where
  "build_error message = \<lparr>ke_status = None, ke_endpoint = ''transport'', ke_message = message\<rparr>"

fun slot_error :: "endpoint_definition \<Rightarrow> slot_wait \<Rightarrow> kiro_error option" where
  "slot_error endpoint SlotGranted = None"
| "slot_error endpoint (SlotTimedOut ms) = Some \<lparr>ke_status = None, ke_endpoint = ed_name endpoint,
     ke_message = ''timed out after '' @ decimal ms @ '' ms waiting for an upstream stream slot''\<rparr>"
| "slot_error endpoint (SlotClosed message) = Some (build_error message)"
| "slot_error endpoint (HeaderRefused message) = Some (build_error message)"

text \<open>What goes over the wire: for the runtime endpoint the history is sent without model identifiers.\<close>

record wire_request =
  wr_endpoint :: endpoint_definition
  wr_payload :: kiro_payload
  wr_history_models :: bool

record kiro_response =
  kr_endpoint :: endpoint_definition
  kr_thinking_enabled :: bool

text \<open>The circumstances of one request: the discovered profile, the wait for a slot, the reply.\<close>

record send_env =
  sv_discovered :: "kiro_error + string"
  sv_slot :: slot_wait
  sv_reply :: http_reply

definition send_payload ::
  "kiro_error + string \<Rightarrow> endpoint_overrides \<Rightarrow> account \<Rightarrow> kiro_payload \<Rightarrow> endpoint_definition \<Rightarrow>
     kiro_error + kiro_payload \<times> endpoint_definition" where
  "send_payload discovered ov a payload endpoint =
     (let p1 = set_payload_origin (ed_origin endpoint) payload in
      if ed_key endpoint \<noteq> Runtime then Inr (p1, endpoint)
      else
        (let p2 = p1\<lparr>kp_conversation_state := (kp_conversation_state p1)\<lparr>cs_agent_continuation_id := None\<rparr>\<rparr>;
             arn = (if cr_auth_method (ac_credentials a) = ApiKey then Inr None
               else map_sum id Some (resolve_profile_arn discovered a))
         in case arn of
              Inl e \<Rightarrow> Inl e
            | Inr arn \<Rightarrow>
                (case for_account (ed_key endpoint) ov (a\<lparr>ac_profile_arn := arn\<rparr>) of
                   Inl e \<Rightarrow> Inl e
                 | Inr endpoint' \<Rightarrow> Inr (p2\<lparr>kp_profile_arn := arn\<rparr>, endpoint'))))"

definition response_error :: "nat \<Rightarrow> string \<Rightarrow> endpoint_definition \<Rightarrow> kiro_error" where
  "response_error status body endpoint = \<lparr>ke_status = Some status, ke_endpoint = ed_name endpoint,
     ke_message = take_chars 2000 (if trim body = []
       then ''upstream returned HTTP '' @ decimal status @ '' without an error message'' else body)\<rparr>"

definition send_generation ::
  "(history_error \<Rightarrow> string) \<Rightarrow> endpoint_overrides \<Rightarrow> send_env \<Rightarrow> account \<Rightarrow> kiro_payload \<Rightarrow> endpoint_definition \<Rightarrow>
     (kiro_error + kiro_response) \<times> wire_request list" where
  "send_generation describe ov env a payload endpoint =
     (case send_payload (sv_discovered env) ov a payload endpoint of
        Inl e \<Rightarrow> (Inl e, [])
      | Inr (p, endpoint) \<Rightarrow>
          (case validate_kiro_tool_history p of
             Inl violation \<Rightarrow> (Inl \<lparr>ke_status = Some 400, ke_endpoint = ed_name endpoint,
               ke_message = ''Kiro payload reached the transport without prepared tool history: '' @ describe violation\<rparr>, [])
           | Inr _ \<Rightarrow>
               (case slot_error endpoint (sv_slot env) of
                  Some e \<Rightarrow> (Inl e, [])
                | None \<Rightarrow>
                    (let wire = \<lparr>wr_endpoint = endpoint, wr_payload = p, wr_history_models = (ed_key endpoint \<noteq> Runtime)\<rparr>
                     in (case sv_reply env of
                           HttpOk \<Rightarrow> Inr \<lparr>kr_endpoint = endpoint, kr_thinking_enabled = thinking_enabled p\<rparr>
                         | HttpStatus status body \<Rightarrow> Inl (response_error status body endpoint)
                         | HttpTransport message \<Rightarrow> Inl \<lparr>ke_status = None, ke_endpoint = ed_name endpoint, ke_message = message\<rparr>,
                         [wire])))))"

section \<open>From endpoint to endpoint\<close>

text \<open>
  \<open>now\<close> and \<open>env\<close> give the time and the circumstances of the request to an endpoint, \<open>meanwhile\<close> what other
  tasks did to the cache until its reply. The counters of rejections decide the wording of the last error.
\<close>

definition all_error :: "string \<Rightarrow> kiro_error" where
  "all_error message = \<lparr>ke_status = Some 403, ke_endpoint = ''all'', ke_message = message\<rparr>"

definition exhausted_error :: "account \<Rightarrow> nat \<Rightarrow> nat \<Rightarrow> nat \<Rightarrow> kiro_error" where
  "exhausted_error a auth_rejections forbidden_rejections attempt_count =
     (if auth_rejections = attempt_count
      then all_error (if cr_auth_method (ac_credentials a) = ApiKey then ''Kiro rejected the API key; replace or reissue the key''
        else if forbidden_rejections = attempt_count then ''All Kiro endpoints returned 403; token refresh required''
        else ''All Kiro endpoints returned 401/403; token refresh required'')
      else \<lparr>ke_status = None, ke_endpoint = ''none'', ke_message = ''no usable upstream endpoint''\<rparr>)"

record generate_env =
  ge_now :: "endpoint_key \<Rightarrow> nat"
  ge_send :: "endpoint_key \<Rightarrow> send_env"
  ge_meanwhile :: "endpoint_key \<Rightarrow> endpoint_cache_state \<Rightarrow> endpoint_cache_state"

fun generate_loop ::
  "nat \<Rightarrow> (history_error \<Rightarrow> string) \<Rightarrow> endpoint_overrides \<Rightarrow> generate_env \<Rightarrow> account \<Rightarrow> kiro_payload \<Rightarrow> endpoint_key list \<Rightarrow>
     nat \<Rightarrow> nat \<Rightarrow> nat \<Rightarrow> endpoint_cache_state \<Rightarrow> (kiro_error + kiro_response) \<times> endpoint_cache_state \<times> (endpoint_key \<times> wire_request) list" where
  "generate_loop ttl describe ov env a payload [] auth_rejections forbidden_rejections attempt_count cache =
     (Inl (exhausted_error a auth_rejections forbidden_rejections attempt_count), cache, [])"
| "generate_loop ttl describe ov env a payload (key # keys) auth_rejections forbidden_rejections attempt_count cache =
     (case for_account key ov a of
        Inl e \<Rightarrow> (Inl e, cache, [])
      | Inr endpoint \<Rightarrow>
          (let (reply, wire) = send_generation describe ov (ge_send env key) a payload endpoint;
               sent = map (Pair key) wire;
               cache1 = ge_meanwhile env key cache
           in case reply of
                Inr response \<Rightarrow> (Inr response, mark_success_locked (ac_id a) Generation (ed_key endpoint) cache1, sent)
              | Inl e \<Rightarrow>
                  if ke_status e = Some 401
                  then (let (r, c, more_sent) = generate_loop ttl describe ov env a payload keys (Suc auth_rejections) forbidden_rejections attempt_count cache1
                        in (r, c, sent @ more_sent))
                  else if ke_status e = Some 403
                  then if is_quota e \<or> is_throttle e then (Inl (e\<lparr>ke_status := Some 429\<rparr>), cache1, sent)
                    else (let (r, c, more_sent) = generate_loop ttl describe ov env a payload keys (Suc auth_rejections) (Suc forbidden_rejections) attempt_count
                                (mark_disabled_locked (ge_now env key) ttl (ac_id a) Generation (ed_key endpoint) cache1)
                          in (r, c, sent @ more_sent))
                  else (Inl e, cache1, sent)))"

definition generate ::
  "nat \<Rightarrow> (history_error \<Rightarrow> string) \<Rightarrow> endpoint_overrides \<Rightarrow> nat \<Rightarrow> generate_env \<Rightarrow> account \<Rightarrow> kiro_payload \<Rightarrow> endpoint_key option \<Rightarrow> endpoint_key option \<Rightarrow>
     endpoint_cache_state \<Rightarrow> (kiro_error + kiro_response) \<times> endpoint_cache_state \<times> (endpoint_key \<times> wire_request) list" where
  "generate ttl describe ov start env a payload explicit configured cache =
     (let (keys, cache1) = order start a (or_else explicit configured) Generation cache in
      if keys = [] then (Inl (all_error ''All Kiro endpoints previously returned 403; token refresh required''), cache1, [])
      else generate_loop ttl describe ov env a payload keys 0 0 (length keys) cache1)"

end
