(* ===== verification/KiroClientCorrect.thy ===== *)
theory KiroClientCorrect
  imports KiroClient
begin

text \<open>
  A generation request takes the endpoints in the order of the cache until one of them decides, and nothing
  reaches the wire that breaks the tool-history contract.
\<close>

section \<open>Rejections\<close>

definition rejected :: "kiro_error + kiro_response \<Rightarrow> bool" where
  "rejected r = (case r of
       Inl e \<Rightarrow> ke_status e = Some 401 \<or> ke_status e = Some 403 \<and> \<not> is_quota e \<and> \<not> is_throttle e
     | Inr _ \<Rightarrow> False)"

text \<open>A throttled request that came as 403 is passed on as 429.\<close>

definition decided :: "kiro_error + kiro_response \<Rightarrow> kiro_error + kiro_response" where
  "decided r = (case r of Inl e \<Rightarrow> Inl (if ke_status e = Some 403 then e\<lparr>ke_status := Some 429\<rparr> else e) | Inr x \<Rightarrow> Inr x)"

definition answer ::
  "(history_error \<Rightarrow> string) \<Rightarrow> endpoint_overrides \<Rightarrow> generate_env \<Rightarrow> account \<Rightarrow> kiro_payload \<Rightarrow> endpoint_key \<Rightarrow> kiro_error + kiro_response" where
  "answer describe ov env a payload key =
     (case for_account key ov a of Inl e \<Rightarrow> Inl e
      | Inr endpoint \<Rightarrow> fst (send_generation describe ov (ge_send env key) a payload endpoint))"

definition all_rejected :: "kiro_error + kiro_response \<Rightarrow> bool" where
  "all_rejected r = (case r of Inl e \<Rightarrow> ke_status e = Some 403 \<and> ke_endpoint e = ''all'' | Inr _ \<Rightarrow> False)"

lemma account_api_region_error: "account_api_region a = Inl e \<Longrightarrow> e = invalid_region"
  by (auto simp: account_api_region_def Let_def split: if_splits)

lemma for_account_status: "for_account key ov a = Inl e \<Longrightarrow> ke_status e = Some 400"
  using account_api_region_error by (fastforce simp: for_account_def Let_def invalid_region_def split: sum.splits)

lemma for_account_key: "for_account key ov a = Inr d \<Longrightarrow> ed_key d = key"
  by (cases key) (auto simp: for_account_def Let_def split: sum.splits)

lemma send_payload_parts:
  assumes "send_payload discovered ov a payload endpoint = Inr (p, e)"
  shows "ed_key e = ed_key endpoint"
    "ed_key endpoint = Runtime \<Longrightarrow> cr_auth_method (ac_credentials a) = ApiKey \<Longrightarrow> kp_profile_arn p = None"
  using assms for_account_key
  by (auto simp: send_payload_def Let_def set_payload_origin_def map_user_def split: if_splits sum.splits)

lemma send_generation_wire:
  assumes "send_generation describe ov env a payload endpoint = (r, wire)" "w \<in> set wire"
  shows "kiro_tool_contract (wr_payload w) \<and> ed_key (wr_endpoint w) = ed_key endpoint \<and> wire = [w] \<and>
    (cr_auth_method (ac_credentials a) = ApiKey \<longrightarrow> ed_key endpoint = Runtime \<longrightarrow> kp_profile_arn (wr_payload w) = None)"
  using assms send_payload_parts validate_iff_contract
  by (auto simp: send_generation_def Let_def split: sum.splits option.splits prod.splits)

lemma generate_loop_result:
  "fst (generate_loop ttl describe ov env a payload keys n f c0 cache) =
     (case find (\<lambda>k. \<not> rejected (answer describe ov env a payload k)) keys of
        Some k \<Rightarrow> decided (answer describe ov env a payload k)
      | None \<Rightarrow> Inl (exhausted_error a (n + length keys)
          (f + length (filter (\<lambda>k. \<exists>e. answer describe ov env a payload k = Inl e \<and> ke_status e = Some 403) keys)) c0))"
proof (induction keys arbitrary: n f cache)
  case (Cons k keys)
  show ?case
  proof (cases "for_account k ov a")
    case (Inl e)
    then show ?thesis using for_account_status [OF Inl] by (simp add: answer_def rejected_def decided_def)
  next
    case (Inr endpoint)
    obtain r wire where r: "send_generation describe ov (ge_send env k) a payload endpoint = (r, wire)" by fastforce
    then have a: "answer describe ov env a payload k = r" by (simp add: answer_def Inr)
    show ?thesis
    proof (cases r)
      case (Inl e)
      then show ?thesis using Inr r a Cons.IH by (auto simp: rejected_def decided_def split_beta Let_def split: option.split)
    qed (use Inr r a in \<open>simp add: rejected_def decided_def\<close>)
  qed
qed simp

text \<open>The endpoints that may be asked: the rejected ones before the first that decides, and that one.\<close>

definition asked ::
  "(history_error \<Rightarrow> string) \<Rightarrow> endpoint_overrides \<Rightarrow> generate_env \<Rightarrow> account \<Rightarrow> kiro_payload \<Rightarrow> endpoint_key list \<Rightarrow> endpoint_key list" where
  "asked describe ov env a payload keys =
     (let rej = (\<lambda>k. rejected (answer describe ov env a payload k)) in takeWhile rej keys @ take 1 (dropWhile rej keys))"

lemma distinct_subseq: "subseq xs ys \<Longrightarrow> distinct ys \<Longrightarrow> distinct xs"
  by (auto simp: subseq_conv_nths)

lemma generate_loop_sent:
  "subseq (map fst (snd (snd (generate_loop ttl describe ov env a payload keys n f c0 cache)))) (asked describe ov env a payload keys)"
proof (induction keys arbitrary: n f cache)
  case (Cons k keys)
  show ?case
  proof (cases "for_account k ov a")
    case (Inr endpoint)
    obtain r wire where r: "send_generation describe ov (ge_send env k) a payload endpoint = (r, wire)" by fastforce
    then have a: "answer describe ov env a payload k = r" by (simp add: answer_def Inr)
    have "wire = [] \<or> (\<exists>w. wire = [w])" using send_generation_wire [OF r] by (cases wire) auto
    then show ?thesis
      using Inr r a Cons.IH by (cases r) (auto simp: asked_def rejected_def split_beta Let_def)
  qed simp
qed simp

lemma generate_loop_wire:
  assumes "(k, w) \<in> set (snd (snd (generate_loop ttl describe ov env a payload keys n f c0 cache)))"
  shows "k \<in> set keys \<and> kiro_tool_contract (wr_payload w) \<and> ed_key (wr_endpoint w) = k \<and>
    (cr_auth_method (ac_credentials a) = ApiKey \<longrightarrow> k = Runtime \<longrightarrow> kp_profile_arn (wr_payload w) = None)"
  using assms
proof (induction keys arbitrary: n f cache)
  case (Cons k' keys)
  show ?case
  proof (cases "for_account k' ov a")
    case (Inr endpoint)
    obtain r wire where r: "send_generation describe ov (ge_send env k') a payload endpoint = (r, wire)" by fastforce
    note own = send_generation_wire [OF r] for_account_key [OF Inr]
    show ?thesis
      using Cons.prems Inr r own Cons.IH by (cases r) (auto simp: split_beta Let_def split: if_splits)
  qed (use Cons.prems in simp)
qed simp

lemma send_generation_endpoint:
  "send_generation describe ov env a payload endpoint = (Inr response, wire) \<Longrightarrow> ed_key (kr_endpoint response) = ed_key endpoint"
  using send_payload_parts(1) by (fastforce simp: send_generation_def Let_def split: sum.splits option.splits prod.splits http_reply.splits)

lemma generate_loop_success:
  assumes "generate_loop ttl describe ov env a payload keys n f c0 cache = (Inr response, cache', sent)"
  shows "preferred (ac_id a) Generation cache' = Some (ed_key (kr_endpoint response)) \<and> sent \<noteq> [] \<and> fst (last sent) = ed_key (kr_endpoint response)"
  using assms
proof (induction keys arbitrary: n f cache sent)
  case (Cons k keys)
  note IH = Cons.IH
  obtain endpoint where e: "for_account k ov a = Inr endpoint" using Cons.prems by (auto split: sum.splits)
  obtain r wire where r: "send_generation describe ov (ge_send env k) a payload endpoint = (r, wire)" by fastforce
  show ?case
  proof (cases r)
    case (Inl x)
    then obtain n' f' cache2 sent2 where "generate_loop ttl describe ov env a payload keys n' f' c0 cache2 = (Inr response, cache', sent2)"
        "sent = map (Pair k) wire @ sent2"
      using Cons.prems e r by (auto simp: Let_def split: if_splits prod.splits)
    then show ?thesis using IH by fastforce
  next
    case (Inr x)
    have "wire \<noteq> [] \<and> list_all (\<lambda>w. True) wire" using r Inr
      by (auto simp: send_generation_def Let_def split: sum.splits option.splits prod.splits http_reply.splits)
    then show ?thesis using Cons.prems e r Inr for_account_key [OF e] send_generation_endpoint [of describe ov "ge_send env k" a payload endpoint x wire]
      by (auto simp: preferred_def mark_success_preferred Let_def last_map)
  qed
qed (simp split: if_splits)

section \<open>Property\<close>

text \<open>C16: A generation request follows the cache's order. Whatever the upstream answers and whatever other tasks do to the
  cache meanwhile, the endpoints are asked in the order the cache offers, each at most once, and only while all before
  were rejected for lack of authorisation; the first other answer is the result, a throttled 403 as 429. If
  all are rejected the error is the 403 that asks for a new token. Every payload that
  reaches the wire meets the tool-history contract, an API key is only ever sent to the runtime endpoint and without a profile,
  and an endpoint that succeeds is remembered for the account.\<close>

theorem generation_follows_order:
  assumes "generate ttl describe ov start env a payload explicit configured cache = (res, cache', sent)"
    and "order start a (or_else explicit configured) Generation cache = (keys, cache1)"
  shows "(case find (\<lambda>k. \<not> rejected (answer describe ov env a payload k)) keys of
       Some k \<Rightarrow> res = decided (answer describe ov env a payload k)
     | None \<Rightarrow> all_rejected res) \<and>
    distinct (map fst sent) \<and> subseq (map fst sent) (asked describe ov env a payload keys) \<and>
    (\<forall>(k, w) \<in> set sent. kiro_tool_contract (wr_payload w) \<and> ed_key (wr_endpoint w) = k \<and>
      (cr_auth_method (ac_credentials a) = ApiKey \<longrightarrow> k = Runtime \<and> kp_profile_arn (wr_payload w) = None)) \<and>
    (\<forall>response. res = Inr response \<longrightarrow> preferred (ac_id a) Generation cache' = Some (ed_key (kr_endpoint response)))"
proof (cases "keys = []")
  case True
  then show ?thesis using assms by (auto simp: generate_def all_rejected_def all_error_def)
next
  case False
  then have g: "generate_loop ttl describe ov env a payload keys 0 0 (length keys) cache1 = (res, cache', sent)"
    using assms by (simp add: generate_def)
  have o: "distinct keys" "runtime_only a \<Longrightarrow> set keys \<subseteq> {Runtime}"
    using assms(2) [THEN arg_cong [where f = fst], symmetric] by (auto simp: order_spec Let_def distinct_dedup set_dedup split: if_splits)
  have "subseq (asked describe ov env a payload keys) keys"
    unfolding asked_def Let_def by (metis list_emb_append_mono prefix_imp_subseq subseq_order.order_refl take_is_prefix takeWhile_dropWhile_id)
  then have "distinct (map fst sent)" "subseq (map fst sent) (asked describe ov env a payload keys)"
    using generate_loop_sent [of ttl describe ov env a payload keys 0 0 "length keys" cache1] g o(1)
    by (auto intro: subseq_order.order_trans distinct_subseq)
  moreover have "case find (\<lambda>k. \<not> rejected (answer describe ov env a payload k)) keys of
       Some k \<Rightarrow> res = decided (answer describe ov env a payload k) | None \<Rightarrow> all_rejected res"
    using generate_loop_result [of ttl describe ov env a payload keys 0 0 "length keys" cache1] g
    by (auto simp: all_rejected_def exhausted_error_def all_error_def split: option.splits)
  moreover have "\<forall>(k, w) \<in> set sent. kiro_tool_contract (wr_payload w) \<and> ed_key (wr_endpoint w) = k \<and>
      (cr_auth_method (ac_credentials a) = ApiKey \<longrightarrow> k = Runtime \<and> kp_profile_arn (wr_payload w) = None)"
    using generate_loop_wire [of _ _ ttl describe ov env a payload keys 0 0 "length keys" cache1] g o(2)
    by (fastforce simp: runtime_only_def)
  moreover have "\<forall>response. res = Inr response \<longrightarrow> preferred (ac_id a) Generation cache' = Some (ed_key (kr_endpoint response))"
    using generate_loop_success g by blast
  ultimately show ?thesis by blast
qed

section \<open>Witness\<close>

definition demo_user :: kiro_user_input_message where
  "demo_user = \<lparr>um_content = ''hi'', um_model_id = ''auto'', um_origin = [], um_images = [], um_documents = [],
     um_cache_point = None, um_client_cache_config = None, um_context = None\<rparr>"

definition demo_request :: kiro_payload where
  "demo_request = \<lparr>kp_conversation_state = \<lparr>cs_agent_continuation_id = None, cs_agent_task_type = None, cs_chat_trigger_type = ''MANUAL'',
       cs_conversation_id = ''c'', cs_current_message = demo_user, cs_history = []\<rparr>,
     kp_profile_arn = None, kp_inference_config = None, kp_additional_model_request_fields = None,
     kp_model_request_intent = None, kp_protected_history_messages = 0\<rparr>"

definition demo_overrides :: endpoint_overrides where
  "demo_overrides = \<lparr>eo_codewhisperer_url = None, eo_amazonq_url = None, eo_mcp_url = None, eo_runtime_url = None, eo_management_url = None\<rparr>"

text \<open>The first endpoint does not know the token, the second answers.\<close>

definition demo_env :: generate_env where
  "demo_env = \<lparr>ge_now = (\<lambda>_. 0), ge_send = (\<lambda>k. \<lparr>sv_discovered = Inr [], sv_slot = SlotGranted,
     sv_reply = (if k = Amazonq then HttpStatus 401 ''who'' else HttpOk)\<rparr>), ge_meanwhile = (\<lambda>_. id)\<rparr>"

lemma demo_order: "order 0 (demo_account Idc ''us-east-1'') (or_else None None) Generation cache_default = ([Amazonq, Codewhisperer], cache_default)"
  using demo_not_runtime_only
  by (simp add: order_def or_else_def Let_def order_candidates_def map_filter_def cache_default_def is_disabled_def demo_account_def)

lemma demo_generate: "map fst (snd (snd (generate 60 (\<lambda>_. []) demo_overrides 0 demo_env (demo_account Idc ''us-east-1'') demo_request None None cache_default))) =
    [Amazonq, Codewhisperer]"
  unfolding generate_def demo_order by code_simp

theorem generation_follows_order_witness:
  "\<exists>res cache' sent. generate 60 (\<lambda>_. []) demo_overrides 0 demo_env (demo_account Idc ''us-east-1'') demo_request None None cache_default = (res, cache', sent) \<and>
     map fst sent = [Amazonq, Codewhisperer] \<and> list_all (\<lambda>(k, w). kiro_tool_contract (wr_payload w) \<and> ed_key (wr_endpoint w) = k) sent"
proof -
  obtain res cache' sent where g: "generate 60 (\<lambda>_. []) demo_overrides 0 demo_env (demo_account Idc ''us-east-1'') demo_request None None cache_default = (res, cache', sent)"
    by (metis prod_cases3)
  show ?thesis
    using generation_follows_order [OF g demo_order] g demo_generate by (auto simp: list_all_iff)
qed

end
