(* ===== verification/Tokens.thy ===== *)
theory Tokens
  imports ToolHistoryCorrect ErrorText Requests
begin

text \<open>
  Token estimation (\<open>crates/kproxy-translate/src/tokenizer.rs\<close>, \<open>tokenizer/context.rs\<close>) and the truncation of
  histories for \<open>truncation: auto\<close>. The tokenizer, the base64 decoder and JSON printing are parameters; a count
  fails when its blocking task was cancelled. The cache in front of the tokenizer keeps counts and changes none.
\<close>

record token_env =
  te_count :: "string \<Rightarrow> string + nat"
  te_encode :: "string \<Rightarrow> nat list"
  te_decode :: "nat list \<Rightarrow> string + string"
  te_base64 :: "string \<Rightarrow> u8 list option"
  te_json :: "json \<Rightarrow> string"
  te_pretty :: "json \<Rightarrow> string"

section \<open>What is counted\<close>

definition MESSAGE_OVERHEAD_TOKENS :: nat where "MESSAGE_OVERHEAD_TOKENS = 8"
definition CONVERSATION_OVERHEAD_TOKENS :: nat where "CONVERSATION_OVERHEAD_TOKENS = 12"
definition TOOL_SCHEMA_OVERHEAD_TOKENS :: nat where "TOOL_SCHEMA_OVERHEAD_TOKENS = 18"
definition TOOL_USE_OVERHEAD_TOKENS :: nat where "TOOL_USE_OVERHEAD_TOKENS = 10"
definition TOOL_RESULT_OVERHEAD_TOKENS :: nat where "TOOL_RESULT_OVERHEAD_TOKENS = 10"
definition IMAGE_BASE_TOKENS :: nat where "IMAGE_BASE_TOKENS = 85"
definition IMAGE_MAX_TOKENS :: nat where "IMAGE_MAX_TOKENS = 4096"
definition DOCUMENT_BASE_TOKENS :: nat where "DOCUMENT_BASE_TOKENS = 256"
definition DOCUMENT_BINARY_BYTES_PER_TOKEN :: nat where "DOCUMENT_BINARY_BYTES_PER_TOKEN = 4"

text \<open>The text segments to tokenize and the tokens of the framing, both only ever extended.\<close>

type_synonym collected = "string list \<times> nat"

definition encoded_part :: "string \<Rightarrow> string" where
  "encoded_part bytes = (case split_once (CHR '','') bytes of Some (_, encoded) \<Rightarrow> encoded | None \<Rightarrow> bytes)"

definition estimated_bytes :: "string \<Rightarrow> nat" where
  "estimated_bytes encoded = min (length encoded * 3) usize_max div 4"

text \<open>
  The least \<open>n\<close> with \<open>2.5 * sqrt b \<le> n\<close>, as far as it matters below the limit. The code computes it in \<open>f64\<close>: if
  \<open>2.5 * sqrt b\<close> is no integer it is at least \<open>1 / (8 * 4096)\<close> away from the next lower one, and if it is one the
  root is an integer and the product exact, so rounding cannot change the ceiling.
\<close>

definition ceil_root :: "nat \<Rightarrow> nat" where
  "ceil_root b = length (takeWhile (\<lambda>n. 4 * n * n < 25 * b) [0..<IMAGE_MAX_TOKENS])"

definition image_tokens :: "kiro_image \<Rightarrow> nat" where
  "image_tokens img =
     max IMAGE_BASE_TOKENS (min IMAGE_MAX_TOKENS
       (sat_add IMAGE_BASE_TOKENS (ceil_root (estimated_bytes (encoded_part (ki_bytes img))))))"

definition is_text_document_format :: "string \<Rightarrow> bool" where
  "is_text_document_format format \<longleftrightarrow> to_ascii_lowercase (trim format) \<in> set [''csv'', ''md'', ''html'', ''txt'']"

definition collect_document :: "token_env \<Rightarrow> kiro_document \<Rightarrow> collected \<Rightarrow> collected" where
  "collect_document env document acc =
     (let (segments, fixed) = acc;
          segments1 = segments @ [kd_name document, kd_format document];
          encoded = encoded_part (kd_bytes document);
          fixed1 = sat_add fixed DOCUMENT_BASE_TOKENS
      in case (if is_text_document_format (kd_format document)
               then Option.bind (te_base64 env encoded) from_utf8 else None) of
           Some t \<Rightarrow> (segments1 @ [t], fixed1)
         | None \<Rightarrow> (segments1, sat_add fixed1
             ((estimated_bytes encoded + DOCUMENT_BINARY_BYTES_PER_TOKEN - 1) div DOCUMENT_BINARY_BYTES_PER_TOKEN)))"

definition collect_tool :: "token_env \<Rightarrow> kiro_tool \<Rightarrow> collected \<Rightarrow> collected" where
  "collect_tool env tool acc =
     (let (segments, fixed) = acc in case tool_specification tool of
        Some specification \<Rightarrow> (segments @ [ts_name specification, ts_description specification,
            te_json env (ts_input_schema specification)], sat_add fixed TOOL_SCHEMA_OVERHEAD_TOKENS)
      | None \<Rightarrow> (segments, sat_add fixed MESSAGE_OVERHEAD_TOKENS))"

definition collect_tools :: "token_env \<Rightarrow> kiro_user_input_message \<Rightarrow> collected \<Rightarrow> collected" where
  "collect_tools env message acc = (case um_context message of
       None \<Rightarrow> acc | Some context \<Rightarrow> fold (collect_tool env) (mc_tools context) acc)"

definition collect_result :: "kiro_tool_result \<Rightarrow> collected \<Rightarrow> collected" where
  "collect_result r acc =
     (let (segments, fixed) = acc
      in (segments @ [tr_tool_use_id r, tr_status r, join [CHR 0x0A] (tr_content r)],
          sat_add fixed TOOL_RESULT_OVERHEAD_TOKENS))"

definition collect_user_message :: "token_env \<Rightarrow> kiro_user_input_message \<Rightarrow> collected \<Rightarrow> collected" where
  "collect_user_message env message acc =
     (let (segments, fixed) = acc;
          acc1 = (segments @ [um_content message], sat_add fixed MESSAGE_OVERHEAD_TOKENS);
          acc2 = fold (\<lambda>img (segments, fixed). (segments, sat_add fixed (image_tokens img))) (um_images message) acc1;
          acc3 = fold (collect_document env) (um_documents message) acc2
      in case um_context message of
           None \<Rightarrow> acc3
         | Some context \<Rightarrow> fold collect_result (mc_tool_results context) (collect_tools env message acc3))"

definition collect_use :: "token_env \<Rightarrow> kiro_tool_use \<Rightarrow> collected \<Rightarrow> collected" where
  "collect_use env tool acc =
     (let (segments, fixed) = acc
      in (segments @ [tu_tool_use_id tool, tu_name tool, te_json env (tu_input tool)],
          sat_add fixed TOOL_USE_OVERHEAD_TOKENS))"

definition collect_assistant_message :: "token_env \<Rightarrow> kiro_assistant_message \<Rightarrow> collected \<Rightarrow> collected" where
  "collect_assistant_message env message acc =
     (let (segments, fixed) = acc
      in fold (collect_use env) (am_tool_uses message)
           (segments @ [am_content message], sat_add fixed MESSAGE_OVERHEAD_TOKENS))"

definition collect_history_message :: "token_env \<Rightarrow> kiro_history_message \<Rightarrow> collected \<Rightarrow> collected" where
  "collect_history_message env message acc =
     (let acc1 = (case hx_user_input_message message of None \<Rightarrow> acc | Some user \<Rightarrow> collect_user_message env user acc)
      in case hx_assistant_response_message message of None \<Rightarrow> acc1
         | Some assistant \<Rightarrow> collect_assistant_message env assistant acc1)"

section \<open>Estimates\<close>

fun add_counts :: "(string \<Rightarrow> string + nat) \<Rightarrow> nat \<Rightarrow> string list \<Rightarrow> string + nat" where
  "add_counts count_of total_tokens [] = Inr total_tokens"
| "add_counts count_of total_tokens (segment # segments) = (case count_of segment of
       Inl e \<Rightarrow> Inl e | Inr n \<Rightarrow> add_counts count_of (sat_add total_tokens n) segments)"

definition section_tokens :: "token_env \<Rightarrow> collected \<Rightarrow> string + nat" where
  "section_tokens env acc = (let (segments, fixed) = acc in add_counts (te_count env) fixed segments)"

definition history_tokens :: "token_env \<Rightarrow> kiro_history_message list \<Rightarrow> string + nat" where
  "history_tokens env history = section_tokens env (fold (collect_history_message env) history ([], 0))"

definition estimate_kiro_payload :: "token_env \<Rightarrow> kiro_payload \<Rightarrow> string + nat" where
  "estimate_kiro_payload env payload =
     map_sum id (max 1) (section_tokens env
       (collect_user_message env (cs_current_message (kp_conversation_state payload))
         (fold (collect_history_message env) (kp_history payload) ([], CONVERSATION_OVERHEAD_TOKENS))))"

definition estimate_kiro_tools :: "token_env \<Rightarrow> kiro_payload \<Rightarrow> string + nat" where
  "estimate_kiro_tools env payload =
     section_tokens env (collect_tools env (cs_current_message (kp_conversation_state payload))
       (fold (collect_tools env) (List.map_filter hx_user_input_message (kp_history payload)) ([], 0)))"

fun claude_tool_segments :: "token_env \<Rightarrow> claude_tool list \<Rightarrow> string list" where
  "claude_tool_segments env [] = []"
| "claude_tool_segments env (tool # tools) =
     [ct_name tool, ct_description tool, te_json env (ct_input_schema tool)]
     @ (case ct_input_examples tool of None \<Rightarrow> [] | Some examples \<Rightarrow> [te_json env (JArray examples)])
     @ claude_tool_segments env tools"

definition estimate_claude_tools :: "token_env \<Rightarrow> claude_tool list \<Rightarrow> string + nat" where
  "estimate_claude_tools env tools =
     add_counts (te_count env) (min (length tools * TOOL_SCHEMA_OVERHEAD_TOKENS) usize_max) (claude_tool_segments env tools)"

record token_breakdown =
  tb_total_input_tokens :: nat
  tb_protected_prefix_tokens :: nat
  tb_tool_definition_tokens :: nat
  tb_current_message_tokens :: nat
  tb_history_tokens :: nat
  tb_overhead_tokens :: nat
  tb_minimum_input_tokens :: nat

definition context_token_breakdown :: "token_env \<Rightarrow> kiro_payload \<Rightarrow> string + token_breakdown" where
  "context_token_breakdown env payload =
     (let k = protected_history_len payload;
          current = cs_current_message (kp_conversation_state payload)
      in case history_tokens env (take k (kp_history payload)) of Inl e \<Rightarrow> Inl e | Inr protected_prefix_tokens \<Rightarrow>
         case history_tokens env (drop k (kp_history payload)) of Inl e \<Rightarrow> Inl e | Inr hist_tokens \<Rightarrow>
         case section_tokens env (collect_user_message env current ([], 0)) of Inl e \<Rightarrow> Inl e | Inr current_tokens \<Rightarrow>
         case section_tokens env (collect_tools env current ([], 0)) of Inl e \<Rightarrow> Inl e | Inr tool_definition_tokens \<Rightarrow>
         let minimum_input_tokens = sat_add (sat_add protected_prefix_tokens current_tokens) CONVERSATION_OVERHEAD_TOKENS
         in Inr \<lparr>tb_total_input_tokens = sat_add minimum_input_tokens hist_tokens,
              tb_protected_prefix_tokens = protected_prefix_tokens,
              tb_tool_definition_tokens = tool_definition_tokens,
              tb_current_message_tokens = current_tokens - tool_definition_tokens,
              tb_history_tokens = hist_tokens,
              tb_overhead_tokens = CONVERSATION_OVERHEAD_TOKENS,
              tb_minimum_input_tokens = minimum_input_tokens\<rparr>)"

section \<open>Turns\<close>

definition has_results :: "kiro_user_input_message \<Rightarrow> bool" where
  "has_results user \<longleftrightarrow> (case um_context user of None \<Rightarrow> False | Some context \<Rightarrow> mc_tool_results context \<noteq> [])"

definition starts_conversation_turn :: "kiro_history_message \<Rightarrow> bool" where
  "starts_conversation_turn message \<longleftrightarrow>
     (case hx_user_input_message message of None \<Rightarrow> False | Some user \<Rightarrow> \<not> has_results user)"

definition oldest_turn_len :: "kiro_history_message list \<Rightarrow> nat" where
  "oldest_turn_len history = (case history of
       [] \<Rightarrow> 0 | _ # rest \<Rightarrow> Suc (length (takeWhile (\<lambda>m. \<not> starts_conversation_turn m) rest)))"

lemma oldest_turn_len_bounds: "oldest_turn_len history \<le> length history" "oldest_turn_len history = 0 \<longleftrightarrow> history = []"
  by (auto simp: oldest_turn_len_def length_takeWhile_le split: list.split)

lemma drop_oldest_turn [simp]: "length history - oldest_turn_len history < length history \<longleftrightarrow> history \<noteq> []"
  by (auto simp: oldest_turn_len_def split: list.split)

definition recent_turn_start :: "kiro_history_message list \<Rightarrow> nat \<Rightarrow> nat" where
  "recent_turn_start history preserve_turns =
     (if preserve_turns = 0 then length history
      else let starts = filter (\<lambda>i. starts_conversation_turn (history ! i)) [0..<length history]
           in if preserve_turns \<le> length starts then starts ! (length starts - preserve_turns)
              else case starts of [] \<Rightarrow> length history | i # _ \<Rightarrow> i)"

section \<open>Truncation\<close>

text \<open>\<open>history\<close> is what is left behind the protected prefix.\<close>

function truncate_loop ::
  "token_env \<Rightarrow> bool \<Rightarrow> nat \<Rightarrow> nat \<Rightarrow> nat \<Rightarrow> kiro_history_message list \<Rightarrow> string + nat \<times> nat" where
  "truncate_loop env current_has_results maximum tokens removed history =
     (if tokens \<le> maximum then Inr (tokens, removed)
      else let remove = oldest_turn_len history in
        if remove = 0 \<or> current_has_results \<and> remove = length history then Inr (tokens, removed)
        else case history_tokens env (take remove history) of
            Inl e \<Rightarrow> Inl e
          | Inr turn_tokens \<Rightarrow> truncate_loop env current_has_results maximum (max 1 (tokens - turn_tokens))
              (removed + remove) (drop remove history))"
  by pat_completeness auto
termination
  by (relation "measure (\<lambda>(_, _, _, _, _, history). length history)") (simp_all add: oldest_turn_len_bounds)

declare truncate_loop.simps [simp del]

definition truncate_kiro_history :: "token_env \<Rightarrow> kiro_payload \<Rightarrow> nat \<Rightarrow> (string + nat) \<times> kiro_payload" where
  "truncate_kiro_history env payload maximum =
     (let k = protected_history_len payload in
      case estimate_kiro_payload env payload of
        Inl e \<Rightarrow> (Inl e, payload)
      | Inr tokens \<Rightarrow>
          (case truncate_loop env (has_results (cs_current_message (kp_conversation_state payload))) maximum tokens 0
                  (drop k (kp_history payload)) of
             Inl e \<Rightarrow> (Inl e, payload)
           | Inr (tokens', removed) \<Rightarrow>
               (Inr tokens', with_history (take k (kp_history payload) @ drop (k + removed) (kp_history payload)) payload)))"

end
