(* ===== verification/TokensCorrect.thy ===== *)
theory TokensCorrect
  imports Tokens
begin

text \<open>
  Estimates are additive over the messages, so the incremental count of the truncation is the estimate of what is
  left, and the breakdown of a rejected request adds up. Truncation removes the fewest turns that suffice.
\<close>

section \<open>Additivity\<close>

definition extends :: "(collected \<Rightarrow> collected) \<Rightarrow> string list \<Rightarrow> nat \<Rightarrow> bool" where
  "extends g S F \<longleftrightarrow> (\<forall>segments fixed. fixed \<le> usize_max \<longrightarrow>
     g (segments, fixed) = (segments @ S, min (fixed + F) usize_max))"

lemma extends_cong: "extends g S F \<Longrightarrow> (\<And>acc. h acc = g acc) \<Longrightarrow> extends h S F"
  by (simp add: extends_def)

lemma extends_id: "extends (\<lambda>acc. acc) [] 0"
  by (simp add: extends_def)

lemma extends_step: "extends (\<lambda>(segments, fixed). (segments @ S, sat_add fixed n)) S n"
  by (simp add: extends_def sat_add_def)

lemma extends_comp: "extends g S F \<Longrightarrow> extends h T G \<Longrightarrow> extends (\<lambda>acc. h (g acc)) (S @ T) (F + G)"
  by (auto simp: extends_def min_def)

lemma extends_fold:
  "(\<And>x. x \<in> set xs \<Longrightarrow> \<exists>S F. extends (g x) S F) \<Longrightarrow> \<exists>S F. extends (fold g xs) S F"
proof (induction xs)
  case Nil
  have "extends (fold g []) [] 0" by (simp add: extends_def)
  then show ?case by blast
next
  case (Cons x xs)
  then obtain S F T G where "extends (g x) S F" "extends (fold g xs) T G" by (metis list.set_intros)
  then show ?case using extends_comp [of "g x" S F "fold g xs" T G] by (auto simp: comp_def)
qed

lemma extends_start: "extends g S F \<Longrightarrow> extends g (fst (g ([], 0))) (snd (g ([], 0)))"
  by (auto simp: extends_def min_def)

lemma extends_document: "\<exists>S F. extends (collect_document env d) S F"
proof (cases "if is_text_document_format (kd_format d)
    then Option.bind (te_base64 env (encoded_part (kd_bytes d))) from_utf8 else None")
  case None
  let ?n = "(estimated_bytes (encoded_part (kd_bytes d)) + DOCUMENT_BINARY_BYTES_PER_TOKEN - 1) div DOCUMENT_BINARY_BYTES_PER_TOKEN"
  have "extends (collect_document env d) ([kd_name d, kd_format d] @ []) (DOCUMENT_BASE_TOKENS + ?n)"
    by (rule extends_cong [OF extends_comp [OF extends_step extends_step]])
       (auto simp: collect_document_def Let_def None split: prod.split)
  then show ?thesis by blast
next
  case (Some t)
  have "extends (collect_document env d) [kd_name d, kd_format d, t] DOCUMENT_BASE_TOKENS"
    by (rule extends_cong [OF extends_step]) (auto simp: collect_document_def Let_def Some)
  then show ?thesis by blast
qed

lemma extends_tool: "\<exists>S F. extends (collect_tool env tool) S F"
proof (cases tool)
  case (Specification s)
  show ?thesis
    by (rule exI, rule exI, rule extends_cong [OF extends_step]) (auto simp: collect_tool_def Let_def Specification)
next
  case (CachePoint c)
  show ?thesis
    by (rule exI [of _ "[]"], rule exI, rule extends_cong [OF extends_step]) (auto simp: collect_tool_def Let_def CachePoint)
qed

lemma extends_tools: "\<exists>S F. extends (collect_tools env m) S F"
proof (cases "um_context m")
  case None
  then show ?thesis using extends_id extends_cong [OF extends_id] by (metis collect_tools_def option.case(1))
next
  case (Some c)
  obtain S F where "extends (fold (collect_tool env) (mc_tools c)) S F" using extends_fold extends_tool by metis
  then show ?thesis using extends_cong Some by (metis collect_tools_def option.case(2))
qed

lemma extends_results: "\<exists>S F. extends (fold collect_result rs) S F"
proof (rule extends_fold)
  fix r show "\<exists>S F. extends (collect_result r) S F"
    by (rule exI, rule exI, rule extends_cong [OF extends_step]) (auto simp: collect_result_def Let_def)
qed

text \<open>What a message adds contains what its tool definitions add.\<close>

lemma extends_user:
  obtains S1 F1 S2 F2 S3 F3 where "extends (collect_user_message env m) (S1 @ S2 @ S3) (F1 + F2 + F3)"
    "extends (collect_tools env m) S2 F2"
proof -
  let ?start = "\<lambda>(segments, fixed). (segments @ [um_content m], sat_add fixed MESSAGE_OVERHEAD_TOKENS)"
  let ?image = "\<lambda>img (segments, fixed). (segments, sat_add fixed (image_tokens img))"
  have "\<exists>S F. extends (fold ?image (um_images m)) S F"
    by (rule extends_fold, rule exI [of _ "[]"], rule exI, rule extends_cong [OF extends_step]) auto
  then obtain S F where i: "extends (fold ?image (um_images m)) S F" by blast
  obtain T G where d: "extends (fold (collect_document env) (um_documents m)) T G"
    using extends_fold extends_document by metis
  obtain S2 F2 where t: "extends (collect_tools env m) S2 F2" using extends_tools by blast
  note front = extends_comp [OF extends_comp [OF extends_step i] d]
  show thesis
  proof (cases "um_context m")
    case None
    then have "collect_tools env m = (\<lambda>acc. acc)" by (simp add: collect_tools_def fun_eq_iff)
    then have e: "extends (collect_tools env m) [] 0" by (simp add: extends_id)
    show thesis
    proof (rule that [OF _ e])
      show "extends (collect_user_message env m) (([um_content m] @ S @ T) @ [] @ []) ((MESSAGE_OVERHEAD_TOKENS + (F + G)) + 0 + 0)"
        using front None by (auto simp: extends_def collect_user_message_def Let_def)
    qed
  next
    case (Some c)
    obtain S3 F3 where r: "extends (fold collect_result (mc_tool_results c)) S3 F3" using extends_results by blast
    show thesis
    proof (rule that [OF _ t])
      show "extends (collect_user_message env m) (([um_content m] @ S @ T) @ S2 @ S3) ((MESSAGE_OVERHEAD_TOKENS + (F + G)) + F2 + F3)"
        using extends_comp [OF extends_comp [OF front t] r] Some
        by (auto simp: extends_def collect_user_message_def Let_def add.assoc)
    qed
  qed
qed

lemma extends_assistant: "\<exists>S F. extends (collect_assistant_message env m) S F"
proof -
  have "\<exists>S F. extends (fold (collect_use env) (am_tool_uses m)) S F"
  proof (rule extends_fold)
    fix u show "\<exists>S F. extends (collect_use env u) S F"
      by (rule exI, rule exI, rule extends_cong [OF extends_step]) (auto simp: collect_use_def Let_def)
  qed
  then obtain S F where "extends (fold (collect_use env) (am_tool_uses m)) S F" by blast
  from extends_comp [OF extends_step [of "[am_content m]" MESSAGE_OVERHEAD_TOKENS] this]
  have "extends (collect_assistant_message env m) ([am_content m] @ S) (MESSAGE_OVERHEAD_TOKENS + F)"
    by (rule extends_cong) (auto simp: collect_assistant_message_def)
  then show ?thesis by blast
qed

lemma extends_message: "\<exists>S F. extends (collect_history_message env m) S F"
proof -
  have u: "\<exists>S F. extends (\<lambda>acc. case hx_user_input_message m of None \<Rightarrow> acc | Some u \<Rightarrow> collect_user_message env u acc) S F"
    by (cases "hx_user_input_message m") (auto intro: extends_id extends_user)
  have a: "\<exists>S F. extends (\<lambda>acc. case hx_assistant_response_message m of None \<Rightarrow> acc | Some u \<Rightarrow> collect_assistant_message env u acc) S F"
    using extends_id extends_assistant by (cases "hx_assistant_response_message m") auto
  then show ?thesis using u extends_comp unfolding collect_history_message_def Let_def by fast
qed

lemma extends_history: "\<exists>S F. extends (fold (collect_history_message env) h) S F"
  using extends_fold extends_message by metis

fun counts :: "(string \<Rightarrow> string + nat) \<Rightarrow> string list \<Rightarrow> string + nat" where
  "counts c [] = Inr 0"
| "counts c (s # ss) = (case c s of Inl e \<Rightarrow> Inl e | Inr n \<Rightarrow> map_sum id ((+) n) (counts c ss))"

lemma add_counts_eq: "t \<le> usize_max \<Longrightarrow> add_counts c t ss = map_sum id (\<lambda>n. min (t + n) usize_max) (counts c ss)"
proof (induction ss arbitrary: t)
  case (Cons s ss)
  show ?case
  proof (cases "c s")
    case (Inr n)
    have "add_counts c (sat_add t n) ss = map_sum id (\<lambda>k. min (sat_add t n + k) usize_max) (counts c ss)"
      by (rule Cons.IH) (rule sat_add_le_max)
    then show ?thesis using Inr by (cases "counts c ss") (auto simp: sat_add_def)
  qed simp
qed simp

lemma counts_append:
  "counts c (xs @ ys) = (case counts c xs of Inl e \<Rightarrow> Inl e | Inr a \<Rightarrow> map_sum id ((+) a) (counts c ys))"
  by (induction xs; cases "counts c ys") (auto split: sum.split)

lemma section_extends:
  assumes "extends g S F" and "fixed \<le> usize_max"
  shows "section_tokens env (g (segments, fixed)) =
    map_sum id (\<lambda>n. min (fixed + F + n) usize_max) (counts (te_count env) (segments @ S))"
proof -
  have "g (segments, fixed) = (segments @ S, min (fixed + F) usize_max)" using assms by (simp add: extends_def)
  then show ?thesis by (cases "counts (te_count env) (segments @ S)") (auto simp: section_tokens_def add_counts_eq)
qed

text \<open>The estimate of two sections is the sum of their estimates.\<close>

definition sat_sum :: "string + nat \<Rightarrow> string + nat \<Rightarrow> string + nat" where
  "sat_sum a b = (case a of Inl e \<Rightarrow> Inl e | Inr x \<Rightarrow> map_sum id (sat_add x) b)"

lemma sat_sum_Inr: "sat_sum a b = Inr z \<longleftrightarrow> (\<exists>x y. a = Inr x \<and> b = Inr y \<and> z = sat_add x y)"
  by (cases a; cases b) (auto simp: sat_sum_def)

lemma section_comp:
  assumes "extends g S F" "extends h T G"
  shows "section_tokens env (h (g ([], 0))) = sat_sum (section_tokens env (g ([], 0))) (section_tokens env (h ([], 0)))"
  using section_extends [OF extends_comp [OF assms], where fixed = 0 and segments = "[]"]
    section_extends [OF assms(1), where fixed = 0 and segments = "[]"] section_extends [OF assms(2), where fixed = 0 and segments = "[]"]
  by (cases "counts (te_count env) S"; cases "counts (te_count env) T") (auto simp: counts_append sat_sum_def sat_add_def)

lemma history_tokens_append: "history_tokens env (xs @ ys) = sat_sum (history_tokens env xs) (history_tokens env ys)"
proof -
  obtain S F T G where "extends (fold (collect_history_message env) xs) S F" "extends (fold (collect_history_message env) ys) T G"
    using extends_history by metis
  then show ?thesis using section_comp by (simp add: history_tokens_def)
qed

lemma history_tokens_split:
  assumes "history_tokens env h = Inr z"
  obtains a b where "history_tokens env (take n h) = Inr a" "history_tokens env (drop n h) = Inr b" "z = min (a + b) usize_max"
  using assms history_tokens_append [of env "take n h" "drop n h"] by (metis append_take_drop_id sat_sum_Inr sat_add_def)

lemma history_tokens_Nil [simp]: "history_tokens env [] = Inr 0"
  by (simp add: history_tokens_def section_tokens_def)

abbreviation current_of :: "kiro_payload \<Rightarrow> kiro_user_input_message" where
  "current_of payload \<equiv> cs_current_message (kp_conversation_state payload)"

lemma estimate_split:
  "estimate_kiro_payload env p =
     sat_sum (sat_sum (Inr CONVERSATION_OVERHEAD_TOKENS) (history_tokens env (kp_history p)))
       (section_tokens env (collect_user_message env (current_of p) ([], 0)))"
proof -
  obtain S F where h: "extends (fold (collect_history_message env) (kp_history p)) S F" using extends_history by blast
  obtain T G where u: "extends (collect_user_message env (current_of p)) T G" by (rule extends_user)
  have o: "CONVERSATION_OVERHEAD_TOKENS \<le> usize_max" "1 \<le> CONVERSATION_OVERHEAD_TOKENS"
    by (simp_all add: CONVERSATION_OVERHEAD_TOKENS_def usize_max_def)
  have "1 \<le> min (CONVERSATION_OVERHEAD_TOKENS + n) usize_max" for n using o(2) by (simp add: usize_max_def)
  then have one: "max 1 (min (CONVERSATION_OVERHEAD_TOKENS + n) usize_max) = min (CONVERSATION_OVERHEAD_TOKENS + n) usize_max" for n
    by (simp add: max_absorb2)
  show ?thesis
    using section_extends [OF extends_comp [OF h u] o(1), where env = env and segments = "[]"]
      section_extends [OF h, where env = env and fixed = 0 and segments = "[]"]
      section_extends [OF u, where env = env and fixed = 0 and segments = "[]"] o one
    by (cases "counts (te_count env) S"; cases "counts (te_count env) T")
       (auto simp: counts_append sat_sum_def sat_add_def estimate_kiro_payload_def history_tokens_def add.assoc)
qed

section \<open>Truncation\<close>

text \<open>Where the history behind the protected prefix may be cut: before a turn, and at its end unless the current
  message answers a call that would be lost.\<close>

definition removable :: "bool \<Rightarrow> kiro_history_message list \<Rightarrow> nat \<Rightarrow> bool" where
  "removable results h n \<longleftrightarrow> n = 0 \<or> n < length h \<and> starts_conversation_turn (h ! n) \<or> n = length h \<and> \<not> results"

lemma oldest_turn_next:
  assumes "h \<noteq> []" and "n = oldest_turn_len h"
  shows "0 < n" "n \<le> length h" "n < length h \<Longrightarrow> starts_conversation_turn (h ! n)"
    "0 < m \<Longrightarrow> m < n \<Longrightarrow> \<not> starts_conversation_turn (h ! m)"
proof -
  obtain x xs where h: "h = x # xs" using assms(1) by (cases h) auto
  have n: "n = Suc (length (takeWhile (\<lambda>m. \<not> starts_conversation_turn m) xs))" using assms(2) h by (simp add: oldest_turn_len_def)
  show "0 < n" "n \<le> length h" using n h by (simp_all add: length_takeWhile_le)
  show "starts_conversation_turn (h ! n)" if "n < length h"
    using that n h nth_length_takeWhile [of "\<lambda>m. \<not> starts_conversation_turn m" xs] by simp
  show "\<not> starts_conversation_turn (h ! m)" if "0 < m" "m < n"
  proof -
    obtain j where j: "m = Suc j" using \<open>0 < m\<close> by (cases m) auto
    then have "j < length (takeWhile (\<lambda>m. \<not> starts_conversation_turn m) xs)" using that n by simp
    then show ?thesis using j h nth_mem set_takeWhileD takeWhile_nth by fastforce
  qed
qed

lemma removable_shift:
  assumes "h \<noteq> []" "n = oldest_turn_len h" "\<not> (results \<and> n = length h)" "m \<ge> n"
  shows "removable results (drop n h) (m - n) \<longleftrightarrow> removable results h m"
proof -
  note o = oldest_turn_next [OF assms(1,2)]
  show ?thesis using o(1,2,3) assms(3,4) by (cases "m = n") (auto simp: removable_def)
qed

lemma removable_before:
  "h \<noteq> [] \<Longrightarrow> removable results h m \<Longrightarrow> m < oldest_turn_len h \<Longrightarrow> m = 0"
  using oldest_turn_next(2) [OF _ refl, of h] oldest_turn_next(4) [OF _ refl, of h m] by (auto simp: removable_def)

lemma truncate_loop_exact:
  assumes "history_tokens env h = Inr y" "1 \<le> c" "c + y < usize_max"
  shows "\<exists>n y'. truncate_loop env results maximum (c + y) removed h = Inr (c + y', removed + n) \<and>
    removable results h n \<and> history_tokens env (drop n h) = Inr y' \<and>
    (\<forall>m < n. removable results h m \<longrightarrow> (\<exists>x. history_tokens env (drop m h) = Inr x \<and> maximum < c + x)) \<and>
    (c + y' \<le> maximum \<or> (\<forall>m. removable results h m \<longrightarrow> m \<le> n))"
  using assms(1,3)
proof (induction h arbitrary: y removed rule: measure_induct_rule [of length])
  case (less h)
  let ?n = "oldest_turn_len h"
  show ?case
  proof (cases "c + y \<le> maximum \<or> h = [] \<or> results \<and> ?n = length h")
    case True
    have "removable results h m \<Longrightarrow> m = 0" if "h = [] \<or> results \<and> ?n = length h" for m
      using that removable_before [of h results m] by (cases "h = []") (auto simp: removable_def)
    moreover have "truncate_loop env results maximum (c + y) removed h = Inr (c + y, removed)"
      using True by (subst truncate_loop.simps) (auto simp: oldest_turn_len_bounds Let_def)
    moreover have "removable results h 0" by (simp add: removable_def)
    ultimately show ?thesis using True less.prems(1) by (intro exI [of _ 0] exI [of _ y]) auto
  next
    case False
    then have h: "h \<noteq> []" and big: "maximum < c + y" and more: "\<not> (results \<and> ?n = length h)" by auto
    obtain a b where ab: "history_tokens env (take ?n h) = Inr a" "history_tokens env (drop ?n h) = Inr b" "y = min (a + b) usize_max"
      using history_tokens_split [OF less.prems(1)] by blast
    then have y: "y = a + b" using less.prems(2) by (auto simp: min_def split: if_splits)
    obtain n y' where IH: "truncate_loop env results maximum (c + b) (removed + ?n) (drop ?n h) = Inr (c + y', removed + ?n + n)"
        "removable results (drop ?n h) n" "history_tokens env (drop n (drop ?n h)) = Inr y'"
        "\<forall>m < n. removable results (drop ?n h) m \<longrightarrow> (\<exists>x. history_tokens env (drop m (drop ?n h)) = Inr x \<and> maximum < c + x)"
        "c + y' \<le> maximum \<or> (\<forall>m. removable results (drop ?n h) m \<longrightarrow> m \<le> n)"
      using less.IH [of "drop ?n h" b "removed + ?n"] h ab(2) y less.prems(2) by auto
    have step: "truncate_loop env results maximum (c + y) removed h = truncate_loop env results maximum (c + b) (removed + ?n) (drop ?n h)"
      using False ab(1) y assms(2) by (subst truncate_loop.simps) (auto simp: Let_def oldest_turn_len_bounds max_absorb2)
    note shift = removable_shift [OF h refl more]
    have "\<exists>x. history_tokens env (drop m h) = Inr x \<and> maximum < c + x" if m: "m < ?n + n" "removable results h m" for m
    proof (cases "m < ?n")
      case True
      then show ?thesis using removable_before [OF h m(2)] less.prems(1) big by simp
    next
      case False
      then show ?thesis using IH(4) [rule_format, of "m - ?n"] shift [of m] m by (simp add: add.commute)
    qed
    moreover have "m \<le> ?n + n" if "removable results h m" "\<forall>m. removable results (drop ?n h) m \<longrightarrow> m \<le> n" for m
      using that shift [of m] by (cases "?n \<le> m") force+
    moreover have "removable results h (?n + n)" using IH(2) shift [of "?n + n"] by simp
    ultimately show ?thesis using IH(1,3,5) step
      by (intro exI [of _ "?n + n"] exI [of _ y']) (auto simp: add.assoc add.commute)
  qed
qed

definition cut_history :: "kiro_payload \<Rightarrow> nat \<Rightarrow> kiro_payload" where
  "cut_history p n = (let k = protected_history_len p
     in with_history (take k (kp_history p) @ drop (k + n) (kp_history p)) p)"

definition may_cut :: "kiro_payload \<Rightarrow> nat \<Rightarrow> bool" where
  "may_cut p = removable (has_results (current_of p)) (drop (protected_history_len p) (kp_history p))"

text \<open>C9: Automatic truncation removes the fewest whole turns that make the request fit. The payload loses a number of
  messages right behind the protected prefix and nothing else; the cut is before a turn of the conversation, and at the
  end only if the current message carries no tool result; every earlier such cut is too long for the model, and if the
  result is still too long no later one exists. The number that is returned, counted by subtraction, is the estimate of the payload that is left.\<close>

theorem truncation_is_minimal:
  assumes "estimate_kiro_payload env p = Inr t" "t < usize_max"
  shows "\<exists>n tokens. truncate_kiro_history env p maximum = (Inr tokens, cut_history p n) \<and> may_cut p n \<and>
    estimate_kiro_payload env (cut_history p n) = Inr tokens \<and>
    (\<forall>m < n. may_cut p m \<longrightarrow> (\<exists>x. estimate_kiro_payload env (cut_history p m) = Inr x \<and> maximum < x)) \<and>
    (tokens \<le> maximum \<or> (\<forall>m. may_cut p m \<longrightarrow> m \<le> n))"
proof -
  let ?h = "kp_history p" and ?k = "protected_history_len p"
  obtain x b where parts: "history_tokens env ?h = Inr x" "section_tokens env (collect_user_message env (current_of p) ([], 0)) = Inr b"
    "t = min (12 + x + b) usize_max"
    using assms(1) by (auto simp: estimate_split sat_sum_Inr sat_add_def CONVERSATION_OVERHEAD_TOKENS_def)
  then have t: "t = 12 + x + b" using assms(2) by (auto simp: min_def split: if_splits)
  obtain a y where ay: "history_tokens env (take ?k ?h) = Inr a" "history_tokens env (drop ?k ?h) = Inr y" "x = min (a + y) usize_max"
    using history_tokens_split [OF parts(1)] by blast
  then have x: "x = a + y" using t assms(2) by (auto simp: min_def split: if_splits)
  have est: "estimate_kiro_payload env (cut_history p m) = Inr (12 + a + b + z)"
    if "history_tokens env (drop m (drop ?k ?h)) = Inr z" "z \<le> y" for m z
    using that ay(1) parts(2) t x assms(2)
    by (simp add: cut_history_def Let_def estimate_split history_tokens_append sat_sum_def sat_add_def CONVERSATION_OVERHEAD_TOKENS_def add.commute)
  have less: "\<exists>z \<le> y. history_tokens env (drop m (drop ?k ?h)) = Inr z" for m
    by (rule history_tokens_split [OF ay(2), of m]) (use x t assms(2) in \<open>auto simp: min_def split: if_splits\<close>)
  obtain n y' where loop: "truncate_loop env (has_results (current_of p)) maximum t 0 (drop ?k ?h) = Inr (12 + a + b + y', n)"
      "may_cut p n" "history_tokens env (drop n (drop ?k ?h)) = Inr y'"
      "\<forall>m < n. may_cut p m \<longrightarrow> (\<exists>z. history_tokens env (drop m (drop ?k ?h)) = Inr z \<and> maximum < 12 + a + b + z)"
      "12 + a + b + y' \<le> maximum \<or> (\<forall>m. may_cut p m \<longrightarrow> m \<le> n)"
    using truncate_loop_exact [OF ay(2), of "12 + a + b" "has_results (current_of p)" maximum 0] t x assms(2)
    unfolding may_cut_def by (auto simp: algebra_simps)
  have "truncate_kiro_history env p maximum = (Inr (12 + a + b + y'), cut_history p n)"
    using loop(1) assms(1) by (simp add: truncate_kiro_history_def Let_def cut_history_def)
  moreover have "estimate_kiro_payload env (cut_history p n) = Inr (12 + a + b + y')" using est less [of n] loop(3) by fastforce
  moreover have "\<exists>z. estimate_kiro_payload env (cut_history p m) = Inr z \<and> maximum < z" if "m < n" "may_cut p m" for m
    using loop(4) that est [of m] less [of m] by fastforce
  ultimately show ?thesis using loop(2,5) by blast
qed

section \<open>The breakdown of a rejected request\<close>

lemma tools_within_message:
  assumes "section_tokens env (collect_user_message env m ([], 0)) = Inr x" "section_tokens env (collect_tools env m ([], 0)) = Inr y"
  shows "y \<le> x"
proof -
  obtain S1 F1 S2 F2 S3 F3 where e: "extends (collect_user_message env m) (S1 @ S2 @ S3) (F1 + F2 + F3)" "extends (collect_tools env m) S2 F2"
    by (rule extends_user)
  show ?thesis
    using assms section_extends [OF e(1), where env = env and fixed = 0 and segments = "[]"]
      section_extends [OF e(2), where env = env and fixed = 0 and segments = "[]"]
    by (cases "counts (te_count env) S1"; cases "counts (te_count env) S2"; cases "counts (te_count env) S3") (auto simp: counts_append)
qed

text \<open>The token breakdown that explains a rejection is exact. Its total is the estimate that rejected the request, its
  minimum the estimate of the request without the history that compaction may remove, and its five sections add up to the
  total, unless the counters saturate.\<close>

theorem context_breakdown_exact:
  assumes "context_token_breakdown env p = Inr b" "tb_total_input_tokens b < usize_max"
  shows "estimate_kiro_payload env p = Inr (tb_total_input_tokens b) \<and>
    estimate_kiro_payload env (retain_protected_history p) = Inr (tb_minimum_input_tokens b) \<and>
    tb_total_input_tokens b = tb_protected_prefix_tokens b + tb_tool_definition_tokens b + tb_current_message_tokens b
      + tb_history_tokens b + tb_overhead_tokens b"
proof -
  let ?k = "protected_history_len p" and ?h = "kp_history p"
  obtain a y x d where parts: "history_tokens env (take ?k ?h) = Inr a" "history_tokens env (drop ?k ?h) = Inr y"
      "section_tokens env (collect_user_message env (current_of p) ([], 0)) = Inr x"
      "section_tokens env (collect_tools env (current_of p) ([], 0)) = Inr d"
    and b: "b = \<lparr>tb_total_input_tokens = sat_add (sat_add (sat_add a x) 12) y, tb_protected_prefix_tokens = a,
      tb_tool_definition_tokens = d, tb_current_message_tokens = x - d, tb_history_tokens = y, tb_overhead_tokens = 12,
      tb_minimum_input_tokens = sat_add (sat_add a x) 12\<rparr>"
    using assms(1) by (auto simp: context_token_breakdown_def Let_def CONVERSATION_OVERHEAD_TOKENS_def split: sum.splits)
  have h: "history_tokens env ?h = Inr (sat_add a y)"
    using history_tokens_append [of env "take ?k ?h" "drop ?k ?h"] parts(1,2) by (simp add: sat_sum_def)
  have "d \<le> x" using tools_within_message parts(3,4) by blast
  then show ?thesis
    using h parts b assms(2)
    by (simp add: estimate_split retain_protected_history_def sat_sum_def sat_add_def CONVERSATION_OVERHEAD_TOKENS_def min_def split: if_splits)
qed

section \<open>Witnesses\<close>

definition byte_tokens :: token_env where
  "byte_tokens = \<lparr>te_count = (\<lambda>s. Inr (length s)), te_encode = map of_char, te_decode = (\<lambda>ts. Inr (map char_of ts)),
     te_base64 = (\<lambda>_. None), te_json = (\<lambda>_. ''{}''), te_pretty = (\<lambda>_. ''{}'')\<rparr>"

definition sample_user :: "string \<Rightarrow> kiro_user_input_message" where
  "sample_user t = \<lparr>um_content = t, um_model_id = ''m'', um_origin = ''o'', um_images = [], um_documents = [],
     um_cache_point = None, um_client_cache_config = None, um_context = None\<rparr>"

definition sample_turn :: "string \<Rightarrow> kiro_history_message" where
  "sample_turn t = \<lparr>hx_user_input_message = Some (sample_user t), hx_assistant_response_message = None\<rparr>"

definition sample_payload :: "string list \<Rightarrow> string \<Rightarrow> kiro_payload" where
  "sample_payload turns t = \<lparr>kp_conversation_state = \<lparr>cs_agent_continuation_id = None, cs_agent_task_type = None,
       cs_chat_trigger_type = ''MANUAL'', cs_conversation_id = ''c'', cs_current_message = sample_user t,
       cs_history = map sample_turn turns\<rparr>, kp_profile_arn = None, kp_inference_config = None,
     kp_additional_model_request_fields = None, kp_model_request_intent = None, kp_protected_history_messages = 1\<rparr>"

lemmas sample_defs = byte_tokens_def sample_payload_def sample_turn_def sample_user_def estimate_kiro_payload_def
  context_token_breakdown_def history_tokens_def section_tokens_def collect_history_message_def collect_user_message_def
  collect_tools_def protected_history_len_def sat_add_def usize_max_def MESSAGE_OVERHEAD_TOKENS_def CONVERSATION_OVERHEAD_TOKENS_def Let_def

lemma sample_estimate: "estimate_kiro_payload byte_tokens (sample_payload [''s'', ''first'', ''second''] ''now'') = Inr 59"
  by (simp add: sample_defs)

theorem truncation_is_minimal_witness:
  "\<exists>n tokens. truncate_kiro_history byte_tokens (sample_payload [''s'', ''first'', ''second''] ''now'') 50 =
     (Inr tokens, cut_history (sample_payload [''s'', ''first'', ''second''] ''now'') n)"
  using truncation_is_minimal [OF sample_estimate, of 50] by (auto simp: usize_max_def)

theorem context_breakdown_exact_witness:
  "\<exists>b. context_token_breakdown byte_tokens (sample_payload [''s'', ''first''] ''now'') = Inr b \<and>
     estimate_kiro_payload byte_tokens (sample_payload [''s'', ''first''] ''now'') = Inr (tb_total_input_tokens b)"
proof -
  have b: "context_token_breakdown byte_tokens (sample_payload [''s'', ''first''] ''now'') =
      Inr \<lparr>tb_total_input_tokens = 45, tb_protected_prefix_tokens = 9, tb_tool_definition_tokens = 0,
        tb_current_message_tokens = 11, tb_history_tokens = 13, tb_overhead_tokens = 12, tb_minimum_input_tokens = 32\<rparr>"
    by (simp add: sample_defs)
  show ?thesis using b context_breakdown_exact [OF b] by (auto simp: usize_max_def)
qed

end
