(* ===== verification/CompactionCorrect.thy ===== *)
theory CompactionCorrect
  imports Compaction TokensCorrect
begin

text \<open>
  Compaction ends, and what it returns fits: the estimate of the new payload is the reported one and not above the
  target, the protected prefix and the newest turns stay as they were, and the local fallback loses no document.
\<close>

section \<open>Documents\<close>

definition message_documents :: "kiro_history_message \<Rightarrow> kiro_document list" where
  "message_documents m = (case hx_user_input_message m of None \<Rightarrow> [] | Some u \<Rightarrow> um_documents u)"

abbreviation documents_of :: "kiro_history_message list \<Rightarrow> kiro_document list" where
  "documents_of h \<equiv> concat (map message_documents h)"

lemma documents_preserved: "documents_of (preserve_removed_documents env h) = documents_of h"
proof (induction h)
  case (Cons m h)
  have "documents_of (preserved_document_pair env u) = um_documents u" for u
    by (simp add: preserved_document_pair_def Let_def message_documents_def user_record_def assistant_record_def)
  then show ?case using Cons
    by (cases "hx_user_input_message m") (auto simp: preserve_removed_documents_def message_documents_def [of m] map_filter_simps)
qed (simp add: preserve_removed_documents_def map_filter_simps)

lemma documents_summary: "documents_of (compaction_summary_pair s model origin) = []"
  by (simp add: compaction_summary_pair_def message_documents_def user_record_def assistant_record_def plain_user_def)

section \<open>The loops\<close>

lemma shrink_retained_suffix: "shrink_retained env p kept target r = Inr r' \<Longrightarrow> \<exists>n \<le> length r. r' = drop n r"
proof (induction env p kept target r rule: shrink_retained.induct)
  case (1 env p kept target r)
  show ?case
  proof (cases "r = [] \<or> (\<exists>t. estimate_kiro_payload env (with_history (kept @ r) p) = Inr t \<and> \<not> target < t)")
    case True
    then have "r' = r" using "1.prems" by (subst (asm) shrink_retained.simps) (auto split: if_splits)
    then show ?thesis by (intro exI [of _ 0]) simp
  next
    case False
    then obtain t where t: "r \<noteq> []" "estimate_kiro_payload env (with_history (kept @ r) p) = Inr t" "target < t"
      using "1.prems" by (subst (asm) shrink_retained.simps) (auto split: sum.splits)
    then have "shrink_retained env p kept target (drop (oldest_turn_len r) r) = Inr r'"
      using "1.prems" by (subst (asm) shrink_retained.simps) simp
    then obtain n where "r' = drop (n + oldest_turn_len r) r" using "1.IH" t by fastforce
    then show ?thesis by (intro exI [of _ "min (length r) (n + oldest_turn_len r)"]) (auto simp: min_def)
  qed
qed

lemma plan_shape:
  assumes "plan_kiro_compaction env p target turns = Inr (Some plan)"
  shows "pn_protected_history plan = take (protected_history_len p) (kp_history p)"
    "\<exists>n. 0 < n \<and> n \<le> length (drop (protected_history_len p) (kp_history p)) \<and>
       pn_retained_history plan = drop n (drop (protected_history_len p) (kp_history p))"
    "pn_original_history_len plan = length (drop (protected_history_len p) (kp_history p))"
proof -
  let ?c = "drop (protected_history_len p) (kp_history p)"
  let ?t = "max target 1" and ?k = "take (protected_history_len p) (kp_history p)" and ?r0 = "recent_turn_start ?c turns"
  let ?s = "min (max 128 (min 8192 (?t div 8))) (max (?t - 1) 1)"
  have ne: "kp_history p \<noteq> []" using assms by (auto simp: plan_kiro_compaction_def)
  obtain t where est: "estimate_kiro_payload env p = Inr t"
    using assms ne by (cases "estimate_kiro_payload env p") (simp_all add: plan_kiro_compaction_def)
  have c: "?c \<noteq> []"
  proof
    assume "?c = []"
    then show False using assms ne est unfolding plan_kiro_compaction_def Let_def by (simp only: if_True if_False sum.case) simp
  qed
  have "(case shrink_retained env p ?k (?t - (?s + 64)) (drop ?r0 ?c) of Inl e \<Rightarrow> Inl e
      | Inr retained \<Rightarrow> Inr (Some \<lparr>pn_original_tokens = t, pn_original_history_len = length ?c, pn_summary_max_tokens = ?s,
          pn_protected_history = ?k, pn_retained_history = (if length retained = length ?c
            then drop (oldest_turn_len retained) retained else retained)\<rparr>)) = Inr (Some plan)"
    using assms ne est c unfolding plan_kiro_compaction_def Let_def by (simp only: if_False sum.case)
  then obtain r where plan: "shrink_retained env p ?k (?t - (?s + 64)) (drop ?r0 ?c) = Inr r"
      "plan = \<lparr>pn_original_tokens = t, pn_original_history_len = length ?c, pn_summary_max_tokens = ?s,
          pn_protected_history = ?k, pn_retained_history = (if length r = length ?c then drop (oldest_turn_len r) r else r)\<rparr>"
    by (cases "shrink_retained env p ?k (?t - (?s + 64)) (drop ?r0 ?c)") (simp_all only: sum.case sum.inject option.inject sum.distinct simp_thms)
  show "pn_protected_history plan = take (protected_history_len p) (kp_history p)" "pn_original_history_len plan = length ?c"
    by (simp_all only: plan(2) kiro_compaction_plan.select_convs)
  have kept: "pn_retained_history plan = (if length r = length ?c then drop (oldest_turn_len r) r else r)"
    by (simp only: plan(2) kiro_compaction_plan.select_convs)
  obtain n where r: "r = drop (n + ?r0) ?c" using shrink_retained_suffix [OF plan(1)] by (metis drop_drop)
  define m where "m = min (length ?c) (n + ?r0)"
  have m: "r = drop m ?c" "m \<le> length ?c" "length r = length ?c - m"
    unfolding r m_def by (simp_all only: length_drop) (auto simp: min_def)
  show "\<exists>n. 0 < n \<and> n \<le> length ?c \<and> pn_retained_history plan = drop n ?c"
  proof (cases "m = 0")
    case True
    then have "r = ?c" using m(1) by (simp only: drop_0)
    then show ?thesis using oldest_turn_next(1,2) [OF c refl] kept by metis
  next
    case False
    moreover from this have "length r \<noteq> length ?c" using m(3) c by (metis diff_less length_greater_0_conv neq0_conv less_irrefl)
    ultimately show ?thesis using m(1,2) kept by (metis neq0_conv)
  qed
qed

lemma fit_retained_exact:
  assumes "estimate_kiro_payload env (set_history r) = Inr tokens"
  shows "(\<exists>n tokens'. fit_retained env set_history target r tokens = Inr (tokens', drop n r) \<and> n \<le> length r \<and>
      estimate_kiro_payload env (set_history (drop n r)) = Inr tokens') \<or>
    (\<exists>e r'. fit_retained env set_history target r tokens = Inl (e, r'))"
  using assms
proof (induction r arbitrary: tokens rule: measure_induct_rule [of length])
  case (less r)
  let ?r = "drop (oldest_turn_len r) r"
  show ?case
  proof (cases "tokens \<le> target \<or> r = []")
    case True
    then have "fit_retained env set_history target r tokens = Inr (tokens, drop 0 r)" by (subst fit_retained.simps) auto
    then show ?thesis using less.prems by (metis drop0 le0)
  next
    case False
    then have step: "fit_retained env set_history target r tokens = (case estimate_kiro_payload env (set_history ?r) of
        Inl e \<Rightarrow> Inl (e, ?r) | Inr tokens' \<Rightarrow> fit_retained env set_history target ?r tokens')"
      by (subst fit_retained.simps) (simp add: Let_def)
    show ?thesis
    proof (cases "estimate_kiro_payload env (set_history ?r)")
      case (Inl e)
      then show ?thesis using step by auto
    next
      case (Inr t)
      from less.IH [of ?r, OF _ Inr] False
      consider (fits) n tokens' where "fit_retained env set_history target ?r t = Inr (tokens', drop n ?r)" "n \<le> length ?r"
          "estimate_kiro_payload env (set_history (drop n ?r)) = Inr tokens'"
        | (fails) e r' where "fit_retained env set_history target ?r t = Inl (e, r')" by auto
      then show ?thesis
      proof cases
        case fits
        then have "fit_retained env set_history target r tokens = Inr (tokens', drop (n + oldest_turn_len r) r)"
            "n + oldest_turn_len r \<le> length r"
            "estimate_kiro_payload env (set_history (drop (n + oldest_turn_len r) r)) = Inr tokens'"
          using step Inr oldest_turn_len_bounds(1) [of r] by auto
        then show ?thesis by blast
      qed (use step Inr in auto)
    qed
  qed
qed

lemma fit_retained_cases:
  assumes "estimate_kiro_payload env (set_history r) = Inr tokens"
  obtains (fails) e r' where "fit_retained env set_history target r tokens = Inl (e, r')"
  | (fits) n t where "fit_retained env set_history target r tokens = Inr (t, drop n r)" "n \<le> length r"
      "estimate_kiro_payload env (set_history (drop n r)) = Inr t"
  using fit_retained_exact [where set_history = set_history, OF assms] by blast

lemma shrink_summary_exact:
  assumes "shrink_summary env set_summary render target budget summary tokens = Inr (tokens', summary')"
    and "estimate_kiro_payload env (set_summary summary) = Inr tokens"
  shows "estimate_kiro_payload env (set_summary summary') = Inr tokens'"
  using assms
proof (induction env set_summary render target budget summary tokens rule: shrink_summary.induct)
  case (1 env set_summary render target budget summary tokens)
  show ?case
  proof (cases "tokens \<le> target \<or> budget \<le> 256")
    case True
    then show ?thesis using "1.prems" by (subst (asm) shrink_summary.simps) auto
  next
    case False
    then show ?thesis using "1.prems" "1.IH" [OF False refl refl]
      by (subst (asm) shrink_summary.simps) (auto simp: Let_def split: sum.splits)
  qed
qed

section \<open>Shortening\<close>

text \<open>What the code relies on: the empty text has no tokens, and no tokens decode to the empty text.\<close>

definition blank_tokens :: "token_env \<Rightarrow> bool" where
  "blank_tokens env \<longleftrightarrow> te_encode env [] = [] \<and> te_decode env [] = Inr []"

lemma decode_front_bound: "decode_front env ts n = Inr (t, n') \<Longrightarrow> n' \<le> n \<and> (blank_tokens env \<longrightarrow> n' = 0 \<longrightarrow> t = [])"
  by (induction n; cases "te_decode env []") (auto simp: blank_tokens_def le_SucI split: sum.splits)

lemma decode_back_bound: "decode_back env ts n = Inr (t, n') \<Longrightarrow> n' \<le> n \<and> (blank_tokens env \<longrightarrow> n' = 0 \<longrightarrow> t = [])"
  by (induction n; cases "te_decode env []") (auto simp: blank_tokens_def le_SucI split: sum.splits)

lemma cut_loop_ends:
  assumes "blank_tokens env" "length (te_encode env marker) \<le> maximum"
  shows "\<exists>r. cut_loop env ts marker maximum head0 tail0 = Some r \<and> (\<forall>out. r = Inr out \<longrightarrow> length (te_encode env out) \<le> maximum)"
proof (induction "head0 + tail0" arbitrary: head0 tail0 rule: less_induct)
  case less
  show ?case
  proof (cases "decode_front env ts head0")
    case (Inl e)
    then show ?thesis by (subst cut_loop.simps) simp
  next
    case (Inr x)
    obtain f h where x: "x = (f, h)" by fastforce
    have h: "h \<le> head0" "h = 0 \<longrightarrow> f = []" using decode_front_bound [OF Inr [unfolded x]] assms(1) by auto
    show ?thesis
    proof (cases "decode_back env ts tail0")
      case (Inl e)
      then show ?thesis using Inr x by (subst cut_loop.simps) simp
    next
      case (Inr y)
      obtain b t where y: "y = (b, t)" by fastforce
      have t: "t \<le> tail0" "t = 0 \<longrightarrow> b = []" using decode_back_bound [OF Inr [unfolded y]] assms(1) by auto
      have step: "cut_loop env ts marker maximum head0 tail0 =
          (let out = f @ marker @ b in
           if length (te_encode env out) \<le> maximum then Some (Inr out)
           else if t \<le> h \<and> 0 < h then cut_loop env ts marker maximum (h - 1) t
           else cut_loop env ts marker maximum h (t - 1))"
        using \<open>decode_front env ts head0 = Inr x\<close> Inr x y by (subst cut_loop.simps) simp
      show ?thesis
      proof (cases "length (te_encode env (f @ marker @ b)) \<le> maximum")
        case True
        then show ?thesis using step by simp
      next
        case False
        then have "0 < h \<or> 0 < t" using h(2) t(2) assms(2) by (metis append_Nil append_Nil2 gr0I)
        then show ?thesis using False step h(1) t(1) less [of "h - 1" t] less [of h "t - 1"] by (auto simp: Let_def)
      qed
    qed
  qed
qed

lemma compact_text_ends:
  assumes "blank_tokens env"
  shows "\<exists>r. compact_text_to_tokens env t maximum = Some r \<and> (\<forall>out. r = Inr out \<longrightarrow> length (te_encode env out) \<le> maximum)"
proof (cases "length (te_encode env t) \<le> maximum")
  case False
  have "length (te_encode env (if length (te_encode env shortened_marker) \<le> maximum then shortened_marker else [])) \<le> maximum"
    using assms by (simp add: blank_tokens_def)
  from cut_loop_ends [OF assms this] show ?thesis using False by (simp add: compact_text_to_tokens_def Let_def)
qed (simp add: compact_text_to_tokens_def)

lemma cut_checkpoint_exact:
  assumes "blank_tokens env" "estimate_kiro_payload env (set_summary checkpoint) = Inr tokens"
  shows "\<exists>r s. cut_checkpoint env set_summary least target checkpoint tokens = Some (r, set_summary s) \<and>
    (\<forall>tokens' s'. r = Inr (tokens', s') \<longrightarrow> s' = s \<and> estimate_kiro_payload env (set_summary s) = Inr tokens')"
proof (cases "tokens \<le> target")
  case True
  then show ?thesis using assms(2) by (auto simp: cut_checkpoint_def)
next
  case False
  show ?thesis
  proof (cases "te_count env checkpoint")
    case (Inl e)
    then show ?thesis using False by (auto simp: cut_checkpoint_def)
  next
    case (Inr n)
    obtain r where "compact_text_to_tokens env checkpoint (max least (n - (tokens - target + 16))) = Some r"
      using compact_text_ends [OF assms(1)] by blast
    then show ?thesis using False Inr
      by (cases r; cases "estimate_kiro_payload env (set_summary (projr r))") (auto simp: cut_checkpoint_def)
  qed
qed

section \<open>Both compactions\<close>

lemma set_compacted_fields:
  "kp_history (set_compacted_history kept s r model origin p) = kept @ compaction_summary_pair s model origin @ r"
  "kp_protected_history_messages (set_compacted_history kept s r model origin p) = length kept"
  "current_of (set_compacted_history kept s r model origin p) = current_of p"
  by (simp_all add: set_compacted_history_def with_history_def)

lemma length_protected: "length (take (protected_history_len p) (kp_history p)) = protected_history_len p"
  by (simp add: protected_history_len_def)

lemma cut_and_finish:
  assumes "blank_tokens env" "estimate_kiro_payload env (set_summary checkpoint) = Inr tokens"
  obtains r s where "map_option (finish_compaction kind target plan retained)
      (cut_checkpoint env set_summary least target checkpoint tokens) = Some (r, set_summary s)"
    "\<And>stats. r = Inr stats \<Longrightarrow> estimate_kiro_payload env (set_summary s) = Inr (cm_compacted_tokens stats) \<and>
       cm_compacted_tokens stats \<le> target \<and> cm_summary stats = Some s \<and>
       cm_removed_messages stats = pn_original_history_len plan - length retained"
proof -
  obtain r0 s where cut: "cut_checkpoint env set_summary least target checkpoint tokens = Some (r0, set_summary s)"
      "\<And>t' s'. r0 = Inr (t', s') \<Longrightarrow> s' = s \<and> estimate_kiro_payload env (set_summary s) = Inr t'"
    using cut_checkpoint_exact [where set_summary = set_summary, OF assms, of least target] by blast
  show thesis
    by (rule that [of "fst (finish_compaction kind target plan retained (r0, set_summary s))" s])
       (use cut in \<open>auto simp: finish_compaction_def split: sum.splits if_splits\<close>)
qed

text \<open>What a compaction leaves: \<open>kept\<close> verbatim, the checkpoint, what stands for the removed messages, and the rest verbatim.\<close>

definition compacted_to :: "kiro_payload \<Rightarrow> nat \<Rightarrow> string \<Rightarrow> kiro_history_message list \<Rightarrow> kiro_payload \<Rightarrow> bool" where
  "compacted_to p n s stand_in p' \<longleftrightarrow> (let k = protected_history_len p in
     0 < n \<and> k + n \<le> length (kp_history p) \<and> kp_protected_history_messages p' = k \<and> current_of p' = current_of p \<and>
     kp_history p' = take k (kp_history p) @ compaction_summary_pair s (um_model_id (current_of p)) (um_origin (current_of p))
       @ stand_in @ drop (k + n) (kp_history p))"

text \<open>C11: A semantic compaction that succeeds fits its target. It always ends; if it succeeds, the estimate of the new payload
  is the reported one and not above the target, and the history is the protected prefix, the checkpoint and the newest
  messages, verbatim and at least one fewer than before. The current message is untouched.\<close>

theorem semantic_compaction_fits:
  assumes "blank_tokens env" and "plan_kiro_compaction env p target0 turns = Inr (Some plan)"
  shows "\<exists>r p'. apply_semantic_compaction env p plan summary target = Some (r, p') \<and>
    (\<forall>stats. r = Inr stats \<longrightarrow> estimate_kiro_payload env p' = Inr (cm_compacted_tokens stats) \<and> cm_compacted_tokens stats \<le> target \<and>
      (\<exists>s. cm_summary stats = Some s \<and> compacted_to p (cm_removed_messages stats) s [] p'))"
proof (cases "trim summary = []")
  case True
  then show ?thesis by (simp add: apply_semantic_compaction_def)
next
  case False
  let ?k = "protected_history_len p" and ?c = "drop (protected_history_len p) (kp_history p)"
  let ?set = "\<lambda>s r. set_compacted_history (pn_protected_history plan) s r (um_model_id (current_of p)) (um_origin (current_of p)) p"
  let ?s = "wrap_semantic_summary (trim summary)"
  obtain n0 where n0: "0 < n0" "n0 \<le> length ?c" "pn_retained_history plan = drop n0 ?c" using plan_shape(2) [OF assms(2)] by blast
  show ?thesis
  proof (cases "estimate_kiro_payload env (?set ?s (pn_retained_history plan))")
    case (Inl e)
    then show ?thesis using False by (simp add: apply_semantic_compaction_def Let_def)
  next
    case (Inr t0)
    show ?thesis
    proof (cases rule: fit_retained_cases [where set_history = "?set ?s" and target = target, OF Inr])
      case (1 e r')
      then show ?thesis using False Inr by (simp add: apply_semantic_compaction_def Let_def)
    next
      case (2 n t)
      let ?r = "drop n (pn_retained_history plan)"
      obtain r s where fin: "map_option (finish_compaction ''semantic'' target plan ?r)
            (cut_checkpoint env (\<lambda>s. ?set s ?r) 64 target ?s t) = Some (r, ?set s ?r)"
          "\<And>stats. r = Inr stats \<Longrightarrow> estimate_kiro_payload env (?set s ?r) = Inr (cm_compacted_tokens stats) \<and>
             cm_compacted_tokens stats \<le> target \<and> cm_summary stats = Some s \<and>
             cm_removed_messages stats = pn_original_history_len plan - length ?r"
        using cut_and_finish [where set_summary = "\<lambda>s. ?set s ?r", OF assms(1) 2(3)] by blast
      have "apply_semantic_compaction env p plan summary target = Some (r, ?set s ?r)"
        using False Inr 2(1) fin(1) by (simp add: apply_semantic_compaction_def Let_def)
      moreover have "compacted_to p (length ?c - length ?r) s [] (?set s ?r)"
        using n0 2(2) plan_shape(1) [OF assms(2)] length_protected [of p]
        by (auto simp: compacted_to_def Let_def set_compacted_fields ac_simps)
      ultimately show ?thesis using fin(2) plan_shape(3) [OF assms(2)] by auto
    qed
  qed
qed

lemma fallback_history:
  assumes "pn_protected_history plan = take (protected_history_len p) (kp_history p)"
    and "n \<le> length (drop (protected_history_len p) (kp_history p))"
  shows "set_fallback_compacted_history env p plan s (drop n (drop (protected_history_len p) (kp_history p))) model origin p =
    set_compacted_history (take (protected_history_len p) (kp_history p)) s
      (preserve_removed_documents env (take n (drop (protected_history_len p) (kp_history p)))
        @ drop n (drop (protected_history_len p) (kp_history p))) model origin p"
proof -
  have "length c - length (drop n c) = n" if "n \<le> length c" for c :: "kiro_history_message list" using that by simp
  from this [OF assms(2)] show ?thesis unfolding set_fallback_compacted_history_def Let_def assms(1) length_protected by (simp only:)
qed

lemma compacted_documents:
  assumes "compacted_to p n s (preserve_removed_documents env (take n (drop (protected_history_len p) (kp_history p)))) p'"
  shows "documents_of (kp_history p') = documents_of (kp_history p)"
proof -
  let ?k = "protected_history_len p"
  have "kp_history p = take ?k (kp_history p) @ take n (drop ?k (kp_history p)) @ drop (?k + n) (kp_history p)"
    by (metis add.commute append_take_drop_id drop_drop)
  then have "documents_of (kp_history p) = documents_of (take ?k (kp_history p)) @ documents_of (take n (drop ?k (kp_history p)))
      @ documents_of (drop (?k + n) (kp_history p))"
    by (metis concat_append map_append)
  then show ?thesis using assms by (simp add: compacted_to_def Let_def documents_summary documents_preserved)
qed

text \<open>C12: The local compaction that stands in when no summary can be had ends, and if it succeeds the estimate of the new payload is
  the reported one; unless there was nothing to compact it is not above the target, and the history is the protected
  prefix, the extract, the documents of the removed messages and the newest messages verbatim. No document is lost.\<close>

theorem local_compaction_fits:
  assumes "blank_tokens env"
  shows "\<exists>r p'. compact_kiro_payload env p target turns = Some (r, p') \<and>
    (\<forall>stats. r = Inr stats \<longrightarrow> estimate_kiro_payload env p' = Inr (cm_compacted_tokens stats) \<and>
      documents_of (kp_history p') = documents_of (kp_history p) \<and>
      (case cm_summary stats of None \<Rightarrow> p' = p
       | Some s \<Rightarrow> cm_compacted_tokens stats \<le> target \<and> compacted_to p (cm_removed_messages stats) s
           (preserve_removed_documents env (take (cm_removed_messages stats) (drop (protected_history_len p) (kp_history p)))) p'))"
proof (cases "plan_kiro_compaction env p target turns")
  case (Inl e)
  then show ?thesis by (simp add: compact_kiro_payload_def)
next
  case (Inr plan0)
  show ?thesis
  proof (cases plan0)
    case None
    then show ?thesis using Inr by (cases "estimate_kiro_payload env p") (auto simp: compact_kiro_payload_def)
  next
    case (Some plan)
    note plan = Inr [unfolded Some]
    let ?k = "protected_history_len p" and ?c = "drop (protected_history_len p) (kp_history p)"
    let ?set = "\<lambda>s r. set_fallback_compacted_history env p plan s r (um_model_id (current_of p)) (um_origin (current_of p)) p"
    let ?render = "render_fallback_compaction_summary env p (length (pn_protected_history plan))"
    let ?b = "max (min (pn_summary_max_tokens plan * 3) usize_max) 256"
    obtain n0 where n0: "0 < n0" "n0 \<le> length ?c" "pn_retained_history plan = drop n0 ?c" using plan_shape(2) [OF plan] by blast
    show ?thesis
    proof (cases "estimate_kiro_payload env (?set (?render ?b) (pn_retained_history plan))")
      case (Inl e)
      then show ?thesis using plan by (simp add: compact_kiro_payload_def Let_def)
    next
      case (Inr t0)
      show ?thesis
      proof (cases rule: fit_retained_cases [where set_history = "?set (?render ?b)" and target = target, OF Inr])
        case (1 e r')
        then show ?thesis using plan Inr by (simp add: compact_kiro_payload_def Let_def)
      next
        case (2 n t)
        let ?r = "drop n (pn_retained_history plan)"
        show ?thesis
        proof (cases "shrink_summary env (\<lambda>s. ?set s ?r) ?render target ?b (?render ?b) t")
          case (Inl e)
          then show ?thesis using plan Inr \<open>estimate_kiro_payload env (?set (?render ?b) (pn_retained_history plan)) = Inr t0\<close> 2(1)
            by (cases e) (simp add: compact_kiro_payload_def Let_def)
        next
          case shrunk: (Inr x)
          have e1: "estimate_kiro_payload env (?set (snd x) ?r) = Inr (fst x)"
            using shrink_summary_exact [where set_summary = "\<lambda>s. ?set s ?r", OF _ 2(3), of ?render target ?b "fst x" "snd x"] shrunk by simp
          obtain r s where fin: "map_option (finish_compaction ''local'' target plan ?r)
                (cut_checkpoint env (\<lambda>s. ?set s ?r) 32 target (snd x) (fst x)) = Some (r, ?set s ?r)"
              "\<And>stats. r = Inr stats \<Longrightarrow> estimate_kiro_payload env (?set s ?r) = Inr (cm_compacted_tokens stats) \<and>
                 cm_compacted_tokens stats \<le> target \<and> cm_summary stats = Some s \<and>
                 cm_removed_messages stats = pn_original_history_len plan - length ?r"
            using cut_and_finish [where set_summary = "\<lambda>s. ?set s ?r", OF assms e1] by blast
          have run: "compact_kiro_payload env p target turns = Some (r, ?set s ?r)"
            using plan Inr 2(1) shrunk fin(1) by (simp add: compact_kiro_payload_def Let_def case_prod_beta)
          have m: "?r = drop (n0 + n) ?c" "n0 + n \<le> length ?c" "length ?c - length ?r = n0 + n"
            using n0 2(2) by (auto simp: ac_simps)
          have shape: "compacted_to p (n0 + n) s (preserve_removed_documents env (take (n0 + n) ?c)) (?set s ?r)"
            unfolding m(1) fallback_history [OF plan_shape(1) [OF plan] m(2)]
            using m(2) n0(1) length_protected [of p] by (auto simp: compacted_to_def Let_def set_compacted_fields ac_simps)
          show ?thesis using run fin(2) shape compacted_documents [OF shape] plan_shape(3) [OF plan] m(3) by auto
        qed
      qed
    qed
  qed
qed

section \<open>Witnesses\<close>

lemma blank_byte_tokens: "blank_tokens byte_tokens"
  by (simp add: blank_tokens_def byte_tokens_def)

lemma sample_plan:
  "plan_kiro_compaction byte_tokens (sample_payload [''s'', ''first'', ''second''] ''now'') 200 0 =
     Inr (Some \<lparr>pn_original_tokens = 59, pn_original_history_len = 2, pn_summary_max_tokens = 128,
       pn_protected_history = [sample_turn ''s''], pn_retained_history = []\<rparr>)"
proof -
  have "kp_history (sample_payload [''s'', ''first'', ''second''] ''now'') = map sample_turn [''s'', ''first'', ''second'']"
    "protected_history_len (sample_payload [''s'', ''first'', ''second''] ''now'') = 1"
    by (simp_all add: sample_payload_def protected_history_len_def)
  then show ?thesis
    by (simp add: plan_kiro_compaction_def sample_estimate recent_turn_start_def shrink_retained.simps)
qed

theorem semantic_compaction_fits_witness:
  "\<exists>plan r p'. plan_kiro_compaction byte_tokens (sample_payload [''s'', ''first'', ''second''] ''now'') 200 0 = Inr (Some plan) \<and>
     apply_semantic_compaction byte_tokens (sample_payload [''s'', ''first'', ''second''] ''now'') plan ''Done.'' 300 = Some (r, p')"
  using semantic_compaction_fits [OF blank_byte_tokens sample_plan, of "''Done.''" 300] sample_plan by blast

theorem local_compaction_fits_witness:
  "\<exists>r p'. compact_kiro_payload byte_tokens (sample_payload [''s'', ''first'', ''second''] ''now'') 300 0 = Some (r, p')"
  using local_compaction_fits [OF blank_byte_tokens] by blast

end
