(* ===== verification/Partition.thy ===== *)
theory Partition
  imports Compaction
begin

text \<open>
  Splitting a summary request that exceeds its model's window (\<open>crates/kproxy-translate/src/tokenizer/compaction.rs\<close>).
  \<open>pack_loop\<close> is the loop over the queue of records; it is a \<open>partial_function\<close>, because a record that does not
  fit is replaced by its fragments.
\<close>

definition MAX_SUMMARY_PARTS :: nat where "MAX_SUMMARY_PARTS = 16"

definition PART_INSTRUCTION :: string where
  "PART_INSTRUCTION = nl @ nl @ ''This is a contiguous part of a larger conversation, in chronological order. Preserve exact identifiers and decisions found in this part. Missing facts may occur in other parts: do not infer that they are absent, unknown, or null. Another model will receive all part summaries in order; later decisions supersede earlier ones.''"

section \<open>Fragments of a text\<close>

fun find_fragment :: "token_env \<Rightarrow> nat list \<Rightarrow> nat \<Rightarrow> nat \<Rightarrow> nat \<Rightarrow> (string \<times> nat) option" where
  "find_fragment env tokens maximum start 0 = None"
| "find_fragment env tokens maximum start (Suc n) = (case te_decode env (take (Suc n) (drop start tokens)) of
       Inr fragment \<Rightarrow> if length (te_encode env fragment) \<le> maximum then Some (fragment, start + Suc n)
         else find_fragment env tokens maximum start n
     | Inl _ \<Rightarrow> find_fragment env tokens maximum start n)"

lemma find_fragment_bounds: "find_fragment env tokens maximum start n = Some (fragment, stop) \<Longrightarrow> start < stop \<and> stop \<le> start + n"
  by (induction n) (fastforce split: sum.splits if_splits)+

function split_loop :: "token_env \<Rightarrow> nat list \<Rightarrow> nat \<Rightarrow> nat \<Rightarrow> string list \<Rightarrow> string + string list" where
  "split_loop env tokens maximum start parts =
     (if length tokens \<le> start then Inr parts
      else if MAX_SUMMARY_PARTS \<le> length parts then Inl ''summary text exceeds the 16-part limit''
      else case find_fragment env tokens maximum start (min (start + maximum) (length tokens) - start) of
          None \<Rightarrow> Inl ''summary token budget cannot hold one UTF-8 character''
        | Some (fragment, stop) \<Rightarrow> split_loop env tokens maximum stop (parts @ [fragment]))"
  by pat_completeness auto
termination
  by (relation "measure (\<lambda>(_, tokens, _, start, _). length tokens - start)") (auto dest!: find_fragment_bounds intro: diff_less_mono2)

declare split_loop.simps [simp del]

definition split_summary_text :: "token_env \<Rightarrow> string \<Rightarrow> nat \<Rightarrow> string + string list" where
  "split_summary_text env t maximum = split_loop env (te_encode env t) maximum 0 []"

section \<open>Records\<close>

definition history_text :: "kiro_history_message \<Rightarrow> string + string" where
  "history_text message = (case hx_user_input_message message of
       Some user \<Rightarrow> Inr (um_content user)
     | None \<Rightarrow> (case hx_assistant_response_message message of
           Some assistant \<Rightarrow> Inr (am_content assistant)
         | None \<Rightarrow> Inl ''summary history record has no text''))"

definition set_history_text :: "string \<Rightarrow> kiro_history_message \<Rightarrow> kiro_history_message" where
  "set_history_text t message = (case hx_user_input_message message of
       Some user \<Rightarrow> message\<lparr>hx_user_input_message := Some (user\<lparr>um_content := t\<rparr>)\<rparr>
     | None \<Rightarrow> message\<lparr>hx_assistant_response_message :=
         map_option (\<lambda>assistant. assistant\<lparr>am_content := t\<rparr>) (hx_assistant_response_message message)\<rparr>)"

definition clear_documents :: "kiro_history_message \<Rightarrow> kiro_history_message" where
  "clear_documents message = message\<lparr>hx_user_input_message :=
     map_option (\<lambda>user. user\<lparr>um_documents := []\<rparr>) (hx_user_input_message message)\<rparr>"

definition normalized_part :: "token_env \<Rightarrow> kiro_payload \<Rightarrow> kiro_history_message list \<Rightarrow> kiro_payload" where
  "normalized_part env payload records = fst (sanitize_kiro_tool_history (te_json env) (with_history records payload))"

definition fragment_records :: "kiro_history_message \<Rightarrow> string list \<Rightarrow> kiro_history_message list" where
  "fragment_records message fragments = (case fragments of
       [] \<Rightarrow> []
     | fragment # rest \<Rightarrow> set_history_text fragment message
         # map (\<lambda>f. clear_documents (set_history_text f message)) rest)"

definition split_record :: "token_env \<Rightarrow> kiro_payload \<Rightarrow> nat \<Rightarrow> kiro_history_message \<Rightarrow> string + kiro_history_message list" where
  "split_record env payload maximum message =
     (case history_text message of
        Inl e \<Rightarrow> Inl e
      | Inr content \<Rightarrow>
          (case estimate_kiro_payload env (normalized_part env payload [set_history_text [] message]) of
             Inl e \<Rightarrow> Inl e
           | Inr overhead \<Rightarrow>
               (let budget = maximum - overhead - 32 in
                if budget < 32 then Inl ''summary instructions or an indivisible document exceed its model window''
                else case split_summary_text env content budget of
                    Inl e \<Rightarrow> Inl e
                  | Inr fragments \<Rightarrow>
                      if length fragments < 2 then Inl ''summary message cannot fit its model window''
                      else Inr (fragment_records message fragments))))"

section \<open>Packing\<close>

partial_function (option) pack_loop ::
  "token_env \<Rightarrow> kiro_payload \<Rightarrow> nat \<Rightarrow> nat \<Rightarrow> kiro_history_message list \<Rightarrow> kiro_history_message list \<Rightarrow> nat \<Rightarrow> kiro_payload list \<Rightarrow>
     (string + kiro_history_message list \<times> kiro_payload list) option" where
  "pack_loop env payload maximum base_tokens pending part part_tokens parts =
     (case pending of
        [] \<Rightarrow> Some (Inr (part, parts))
      | message # rest \<Rightarrow>
          (case estimate_kiro_payload env (normalized_part env payload [message]) of
             Inl e \<Rightarrow> Some (Inl e)
           | Inr tokens \<Rightarrow>
               (let message_tokens = tokens - base_tokens in
                if sat_add part_tokens message_tokens \<le> maximum
                then pack_loop env payload maximum base_tokens rest (part @ [message]) (sat_add part_tokens message_tokens) parts
                else if part \<noteq> []
                then if MAX_SUMMARY_PARTS \<le> length parts + 1 then Some (Inl ''summary input exceeds the 16-part limit'')
                  else pack_loop env payload maximum base_tokens pending [] base_tokens (parts @ [normalized_part env payload part])
                else case split_record env payload maximum message of
                    Inl e \<Rightarrow> Some (Inl e)
                  | Inr records \<Rightarrow> pack_loop env payload maximum base_tokens (records @ rest) [] part_tokens parts)))"

text \<open>The bounds and names of the parts.\<close>

definition label_part :: "kiro_payload \<Rightarrow> nat \<Rightarrow> nat \<Rightarrow> kiro_payload \<Rightarrow> kiro_payload" where
  "label_part payload parts_count index part =
     (let output_budget = unwrap_or (max_output_tokens payload) 1024;
          state = kp_conversation_state part
      in part\<lparr>kp_conversation_state := state\<lparr>cs_conversation_id :=
             cs_conversation_id (kp_conversation_state payload) @ ''-part-'' @ decimal (index + 1)\<rparr>,
           kp_inference_config := map_option (\<lambda>config. config\<lparr>ic_max_tokens :=
             Some (max (output_budget div of_nat parts_count) 128)\<rparr>) (kp_inference_config part)\<rparr>)"

fun label_parts :: "token_env \<Rightarrow> kiro_payload \<Rightarrow> nat \<Rightarrow> nat \<Rightarrow> nat \<Rightarrow> kiro_payload list \<Rightarrow> string + kiro_payload list" where
  "label_parts env payload maximum parts_count index [] = Inr []"
| "label_parts env payload maximum parts_count index (part # parts) =
     (case estimate_kiro_payload env part of
        Inl e \<Rightarrow> Inl e
      | Inr tokens \<Rightarrow>
          if maximum < tokens then Inl ''normalized summary part exceeds its model window''
          else map_sum id ((#) (label_part payload parts_count index part))
            (label_parts env payload maximum parts_count (index + 1) parts))"

definition part_template :: "kiro_payload \<Rightarrow> kiro_payload" where
  "part_template payload =
     (let state = kp_conversation_state payload; current = cs_current_message state
      in payload\<lparr>kp_conversation_state := state\<lparr>cs_history := [],
           cs_current_message := current\<lparr>um_content := um_content current @ PART_INSTRUCTION\<rparr>\<rparr>\<rparr>)"

definition partition_compaction_summary :: "token_env \<Rightarrow> kiro_payload \<Rightarrow> nat \<Rightarrow> (string + kiro_payload list) option" where
  "partition_compaction_summary env payload0 maximum =
     (let normalized = fst (sanitize_kiro_tool_history (te_json env) payload0) in
      case estimate_kiro_payload env normalized of
        Inl e \<Rightarrow> Some (Inl e)
      | Inr tokens \<Rightarrow>
          if tokens \<le> maximum then Some (Inr [normalized])
          else
            (let payload = part_template payload0
             in case estimate_kiro_payload env payload of
                  Inl e \<Rightarrow> Some (Inl e)
                | Inr base_tokens \<Rightarrow>
                    map_option (\<lambda>r. case r of
                        Inl e \<Rightarrow> Inl e
                      | Inr (part, parts) \<Rightarrow>
                          (let all_parts = (if part \<noteq> [] then parts @ [normalized_part env payload part] else parts) in
                           if all_parts = [] then Inl ''summary instructions exceed its model window''
                           else label_parts env payload maximum (length all_parts) 0 all_parts))
                      (pack_loop env payload maximum base_tokens (kp_history payload0) [] base_tokens [])))"

end
