(* ===== verification/PartitionCorrect.thy ===== *)
theory PartitionCorrect
  imports Partition CompactionCorrect
begin

text \<open>
  A summary request that is split loses nothing: the loop ends, and the parts hold every character and every document
  of the history once and in order.
\<close>

section \<open>Fragments\<close>

text \<open>What is documented of the tokenizer: every token stands for some bytes, the tokens of a text for that text, and
  decoding gives back the bytes.\<close>

definition lossless_tokens :: "(nat \<Rightarrow> string) \<Rightarrow> token_env \<Rightarrow> bool" where
  "lossless_tokens piece env \<longleftrightarrow> (\<forall>n. piece n \<noteq> []) \<and> (\<forall>t. concat (map piece (te_encode env t)) = t) \<and>
     (\<forall>ts t. te_decode env ts = Inr t \<longrightarrow> t = concat (map piece ts))"

lemma find_fragment_text:
  assumes "lossless_tokens piece env" "find_fragment env ts maximum start n = Some (fragment, stop)"
  shows "fragment = concat (map piece (take (stop - start) (drop start ts)))"
  using assms(2) by (induction n) (use assms(1) in \<open>auto simp: lossless_tokens_def split: sum.splits if_splits\<close>)

lemma split_loop_text:
  assumes "lossless_tokens piece env" "split_loop env ts maximum start parts = Inr fs"
  shows "concat fs = concat parts @ concat (map piece (drop start ts)) \<and> ([] \<notin> set parts \<longrightarrow> [] \<notin> set fs)"
  using assms
proof (induction env ts maximum start parts rule: split_loop.induct)
  case (1 env ts maximum start parts)
  show ?case
  proof (cases "length ts \<le> start")
    case True
    then show ?thesis using "1.prems"(2) by (subst (asm) split_loop.simps) auto
  next
    case False
    then obtain f stop where f: "\<not> MAX_SUMMARY_PARTS \<le> length parts"
        "find_fragment env ts maximum start (min (start + maximum) (length ts) - start) = Some (f, stop)"
        "split_loop env ts maximum stop (parts @ [f]) = Inr fs"
      using "1.prems"(2) by (subst (asm) split_loop.simps) (auto split: if_splits option.splits)
    note l = "1.prems"(1)
    have b: "start < stop" "stop \<le> length ts" using find_fragment_bounds [OF f(2)] False by auto
    have t: "f = concat (map piece (take (stop - start) (drop start ts)))" using find_fragment_text [OF l f(2)] .
    have "take (stop - start) (drop start ts) \<noteq> []" using b by simp
    then obtain x xs where "take (stop - start) (drop start ts) = x # xs" by (cases "take (stop - start) (drop start ts)") auto
    then have "f \<noteq> []" using t l by (simp add: lossless_tokens_def)
    moreover have "drop start ts = take (stop - start) (drop start ts) @ drop stop ts"
      using b by (metis append_take_drop_id drop_drop le_add_diff_inverse2 less_imp_le_nat)
    then have "concat (map piece (drop start ts)) = f @ concat (map piece (drop stop ts))"
      using t by (metis concat_append map_append)
    moreover have "concat fs = concat (parts @ [f]) @ concat (map piece (drop stop ts)) \<and> ([] \<notin> set (parts @ [f]) \<longrightarrow> [] \<notin> set fs)"
      by (rule "1.IH" [OF False f(1,2) refl l f(3)])
    ultimately show ?thesis by auto
  qed
qed

lemma split_summary_text_lossless:
  assumes "lossless_tokens piece env" "split_summary_text env t maximum = Inr fs"
  shows "concat fs = t \<and> [] \<notin> set fs"
  using split_loop_text [OF assms(1) assms(2) [unfolded split_summary_text_def]] assms(1) by (simp add: lossless_tokens_def)

section \<open>Records\<close>

definition record_text :: "kiro_history_message \<Rightarrow> string" where
  "record_text m = (case history_text m of Inl _ \<Rightarrow> [] | Inr t \<Rightarrow> t)"

text \<open>A fragment is the message with another text, with or without its documents.\<close>

definition fragment_of :: "kiro_history_message \<Rightarrow> kiro_history_message \<Rightarrow> bool" where
  "fragment_of m r \<longleftrightarrow> (\<exists>t. r = set_history_text t m \<or> r = clear_documents (set_history_text t m))"

definition splits_into :: "kiro_history_message \<Rightarrow> kiro_history_message list \<Rightarrow> bool" where
  "splits_into m rs \<longleftrightarrow> rs \<noteq> [] \<and> concat (map record_text rs) = record_text m \<and>
     documents_of rs = message_documents m \<and> list_all (fragment_of m) rs"

lemma set_text_simps [simp]:
  "set_history_text t (set_history_text t' m) = set_history_text t m"
  "set_history_text t (clear_documents m) = clear_documents (set_history_text t m)"
  "clear_documents (clear_documents m) = clear_documents m"
  "set_history_text (record_text m) m = m"
  "message_documents (set_history_text t m) = message_documents m"
  "message_documents (clear_documents m) = []"
  by (cases m; cases "hx_user_input_message m"; cases "hx_assistant_response_message m";
      auto simp: set_history_text_def clear_documents_def record_text_def history_text_def message_documents_def)+

lemma record_text_fragment:
  "history_text m = Inr x \<Longrightarrow> record_text (set_history_text t m) = t"
  "record_text (clear_documents m) = record_text m"
  by (cases "hx_user_input_message m"; cases "hx_assistant_response_message m";
      auto simp: set_history_text_def clear_documents_def record_text_def history_text_def)+

lemma fragment_of_trans: "fragment_of m r \<Longrightarrow> fragment_of r s \<Longrightarrow> fragment_of m s"
  by (auto simp: fragment_of_def)

lemma splits_into_refl: "splits_into m [m]"
proof -
  have "fragment_of m m" unfolding fragment_of_def by (rule exI [of _ "record_text m"]) simp
  then show ?thesis by (simp add: splits_into_def)
qed

lemma splits_into_concat:
  assumes "splits_into m rs" "list_all2 splits_into rs groups"
  shows "splits_into m (concat groups)"
proof -
  have "concat (map record_text (concat groups)) = concat (map record_text rs) \<and>
      documents_of (concat groups) = documents_of rs \<and> (rs \<noteq> [] \<longrightarrow> concat groups \<noteq> [])" 
    using assms(2) by (induction rule: list_all2_induct) (auto simp: splits_into_def)
  moreover have "list_all (fragment_of m) rs \<longrightarrow> list_all (fragment_of m) (concat groups)"
    using assms(2) by (induction rule: list_all2_induct) (auto simp: splits_into_def list_all_iff intro: fragment_of_trans)
  ultimately show ?thesis using assms(1) by (simp add: splits_into_def)
qed

lemma split_record_splits:
  assumes "lossless_tokens piece env" "split_record env payload maximum m = Inr rs"
  shows "splits_into m rs \<and> 2 \<le> length rs \<and> list_all (\<lambda>r. record_text r \<noteq> []) rs"
proof -
  obtain t fs budget where h: "history_text m = Inr t" "split_summary_text env t budget = Inr fs" "2 \<le> length fs"
      "rs = fragment_records m fs"
    using assms(2) by (auto simp: split_record_def Let_def split: sum.splits if_splits)
  obtain f g where fs: "fs = f # g" using h(3) by (cases fs) auto
  have "concat fs = t" "[] \<notin> set fs" using split_summary_text_lossless [OF assms(1) h(2)] by auto
  moreover have "record_text m = t" using h(1) by (simp add: record_text_def)
  moreover have "documents_of (map (\<lambda>f. clear_documents (set_history_text f m)) g) = []" by (induction g) auto
  moreover have "map (record_text \<circ> (\<lambda>f. clear_documents (set_history_text f m))) g = g"
    by (rule map_idI) (simp add: record_text_fragment(1) [OF h(1)] record_text_fragment(2))
  ultimately show ?thesis
    using h fs by (auto simp: splits_into_def fragment_records_def record_text_fragment(1) [OF h(1)] record_text_fragment(2) fragment_of_def list_all_iff)
qed

section \<open>Packing\<close>

text \<open>The loop's measure: fragments weigh less than the message they come from.\<close>

definition weight :: "kiro_history_message \<Rightarrow> nat" where
  "weight m = max 1 (2 * length (record_text m) - 1)"

lemma weight_text: "record_text m \<noteq> [] \<Longrightarrow> Suc (weight m) = 2 * length (record_text m)"
  by (cases "record_text m") (simp_all add: weight_def)

lemma fragments_weigh_less:
  assumes "splits_into m rs" "2 \<le> length rs" "list_all (\<lambda>r. record_text r \<noteq> []) rs"
  shows "sum_list (map weight rs) < weight m"
proof -
  have sum: "sum_list (map weight qs) + length qs = 2 * length (concat (map record_text qs))"
    if "list_all (\<lambda>r. record_text r \<noteq> []) qs" for qs
    using that by (induction qs) (auto dest!: weight_text)
  then have "sum_list (map weight rs) + length rs = 2 * length (record_text m)"
    using assms(1,3) by (simp add: splits_into_def)
  then show ?thesis using assms(2) by (simp add: weight_def)
qed

text \<open>The records of the parts and of the open part, in order, are fragments of the messages, in order.\<close>

definition packed ::
  "token_env \<Rightarrow> kiro_payload \<Rightarrow> kiro_history_message list \<Rightarrow> kiro_history_message list \<Rightarrow> kiro_payload list \<Rightarrow>
     kiro_history_message list \<Rightarrow> kiro_payload list \<Rightarrow> bool" where
  "packed env payload pending part parts part' parts' \<longleftrightarrow>
     (\<exists>raws groups. list_all2 splits_into pending groups \<and> part @ concat groups = concat raws @ part' \<and>
        parts' = parts @ map (normalized_part env payload) raws \<and> [] \<notin> set raws)"

lemma packed_done: "packed env payload [] part parts part parts"
  unfolding packed_def by (rule exI [of _ "[]"], rule exI [of _ "[]"]) simp

lemma packed_push:
  assumes "packed env payload rest (part @ [m]) parts part' parts'"
  shows "packed env payload (m # rest) part parts part' parts'"
proof -
  obtain raws groups where "list_all2 splits_into rest groups" "(part @ [m]) @ concat groups = concat raws @ part'"
      "parts' = parts @ map (normalized_part env payload) raws" "[] \<notin> set raws"
    using assms by (auto simp: packed_def)
  then show ?thesis unfolding packed_def
    by (intro exI [of _ raws] exI [of _ "[m] # groups"]) (simp add: splits_into_refl)
qed

lemma packed_flush:
  assumes "packed env payload pending [] (parts @ [normalized_part env payload part]) part' parts'" "part \<noteq> []"
  shows "packed env payload pending part parts part' parts'"
proof -
  obtain raws groups where "list_all2 splits_into pending groups" "concat groups = concat raws @ part'"
      "parts' = (parts @ [normalized_part env payload part]) @ map (normalized_part env payload) raws" "[] \<notin> set raws"
    using assms(1) by (auto simp: packed_def)
  then show ?thesis unfolding packed_def using assms(2)
    by (intro exI [of _ "part # raws"] exI [of _ groups]) simp
qed

lemma packed_split:
  assumes "packed env payload (rs @ rest) part parts part' parts'" "splits_into m rs"
  shows "packed env payload (m # rest) part parts part' parts'"
proof -
  obtain raws groups where g: "list_all2 splits_into (rs @ rest) groups" "part @ concat groups = concat raws @ part'"
      "parts' = parts @ map (normalized_part env payload) raws" "[] \<notin> set raws"
    using assms(1) by (auto simp: packed_def)
  obtain g1 g2 where "groups = g1 @ g2" "list_all2 splits_into rs g1" "list_all2 splits_into rest g2"
    using g(1) by (auto simp: list_all2_append1)
  then show ?thesis unfolding packed_def using g(2,3,4) splits_into_concat [OF assms(2)]
    by (intro exI [of _ raws] exI [of _ "concat g1 # g2"]) simp
qed

lemma pack_loop_ends:
  assumes "lossless_tokens piece env"
  shows "length parts < MAX_SUMMARY_PARTS \<Longrightarrow> \<exists>r. pack_loop env payload maximum base pending part part_tokens parts = Some r \<and>
    (\<forall>part' parts'. r = Inr (part', parts') \<longrightarrow> packed env payload pending part parts part' parts' \<and> length parts' < MAX_SUMMARY_PARTS)"
proof (induction "2 * sum_list (map weight pending) + (if part = [] then 0 else 1)" arbitrary: pending part part_tokens parts rule: less_induct)
  case less
  show ?case
  proof (cases pending)
    case Nil
    then show ?thesis using less.prems packed_done by (subst pack_loop.simps) auto
  next
    case (Cons m rest)
    have w: "1 \<le> weight m" by (simp add: weight_def)
    show ?thesis
    proof (cases "estimate_kiro_payload env (normalized_part env payload [m])")
      case (Inl e)
      then show ?thesis using Cons by (subst pack_loop.simps) simp
    next
      case (Inr t)
      let ?n = "sat_add part_tokens (t - base)"
      have step: "pack_loop env payload maximum base pending part part_tokens parts =
          (if ?n \<le> maximum then pack_loop env payload maximum base rest (part @ [m]) ?n parts
           else if part \<noteq> [] then if MAX_SUMMARY_PARTS \<le> length parts + 1 then Some (Inl ''summary input exceeds the 16-part limit'')
             else pack_loop env payload maximum base pending [] base (parts @ [normalized_part env payload part])
           else case split_record env payload maximum m of Inl e \<Rightarrow> Some (Inl e)
             | Inr rs \<Rightarrow> pack_loop env payload maximum base (rs @ rest) [] part_tokens parts)"
        using Cons Inr by (subst pack_loop.simps) (simp add: Let_def)
      consider (push) "?n \<le> maximum" | (flush) "\<not> ?n \<le> maximum" "part \<noteq> []" | (split) "\<not> ?n \<le> maximum" "part = []" by blast
      then show ?thesis
      proof cases
        case push
        obtain r where "pack_loop env payload maximum base rest (part @ [m]) ?n parts = Some r"
            "\<forall>part' parts'. r = Inr (part', parts') \<longrightarrow> packed env payload rest (part @ [m]) parts part' parts' \<and> length parts' < MAX_SUMMARY_PARTS"
          using less.hyps [of rest "part @ [m]" parts ?n] less.prems Cons w by auto
        then show ?thesis using step push Cons packed_push by auto
      next
        case flush
        show ?thesis
        proof (cases "MAX_SUMMARY_PARTS \<le> length parts + 1")
          case False
          then obtain r where "pack_loop env payload maximum base pending [] base (parts @ [normalized_part env payload part]) = Some r"
              "\<forall>part' parts'. r = Inr (part', parts') \<longrightarrow>
                 packed env payload pending [] (parts @ [normalized_part env payload part]) part' parts' \<and> length parts' < MAX_SUMMARY_PARTS"
            using less.hyps [of pending "[]" "parts @ [normalized_part env payload part]" base] flush by auto
          then show ?thesis using step flush False packed_flush by auto
        qed (use step flush in auto)
      next
        case split
        show ?thesis
        proof (cases "split_record env payload maximum m")
          case (Inr rs)
          note s = split_record_splits [OF assms Inr]
          then obtain r where "pack_loop env payload maximum base (rs @ rest) [] part_tokens parts = Some r"
              "\<forall>part' parts'. r = Inr (part', parts') \<longrightarrow> packed env payload (rs @ rest) [] parts part' parts' \<and> length parts' < MAX_SUMMARY_PARTS"
            using less.hyps [of "rs @ rest" "[]" parts part_tokens] less.prems Cons split fragments_weigh_less [of m rs] by auto
          then show ?thesis using step split Inr Cons s packed_split by auto
        qed (use step split in auto)
      qed
    qed
  qed
qed

section \<open>The parts\<close>

lemma estimate_label: "estimate_kiro_payload env (label_part payload n i q) = estimate_kiro_payload env q"
  by (simp add: estimate_split label_part_def Let_def)

lemma label_parts_fit:
  "label_parts env payload maximum n i ps = Inr qs \<Longrightarrow> length qs = length ps \<and>
     (\<forall>j < length ps. qs ! j = label_part payload n (i + j) (ps ! j)) \<and>
     (\<forall>q \<in> set qs. \<exists>t \<le> maximum. estimate_kiro_payload env q = Inr t)"
proof (induction ps arbitrary: i qs)
  case (Cons p ps)
  then obtain t rs where q: "estimate_kiro_payload env p = Inr t" "t \<le> maximum"
      "label_parts env payload maximum n (i + 1) ps = Inr rs" "qs = label_part payload n i p # rs"
    by (cases "label_parts env payload maximum n (i + 1) ps") (auto split: sum.splits if_splits)
  show ?case using Cons.IH [OF q(3)] q(1,2,4) by (auto simp: estimate_label nth_Cons split: nat.split)
qed simp

lemma kp_history_template [simp]: "kp_history (part_template p) = []"
  by (simp add: part_template_def Let_def)

text \<open>C10: Splitting a summary request loses nothing and ends. If the tokens of a text stand for its bytes, the loop over
  the queue terminates; if it succeeds there are at most sixteen parts, each within the model's window, and either the
  request fits as it is, or the parts are built from records that are, in order, the messages of the history or fragments of
  them: the texts of the fragments of a message put together are its text, and its documents are attached once.\<close>

theorem partition_loses_nothing:
  assumes "lossless_tokens piece env"
  shows "\<exists>r. partition_compaction_summary env p maximum = Some r \<and> (\<forall>parts. r = Inr parts \<longrightarrow>
    parts \<noteq> [] \<and> length parts \<le> MAX_SUMMARY_PARTS \<and>
    (\<forall>q \<in> set parts. \<exists>t \<le> maximum. estimate_kiro_payload env q = Inr t) \<and>
    (parts = [fst (sanitize_kiro_tool_history (te_json env) p)] \<or>
     (\<exists>raws groups. list_all2 splits_into (kp_history p) groups \<and> concat raws = concat groups \<and> length raws = length parts \<and>
        (\<forall>i < length parts. parts ! i = label_part (part_template p) (length parts) i (normalized_part env (part_template p) (raws ! i))))))"
proof -
  let ?norm = "fst (sanitize_kiro_tool_history (te_json env) p)" and ?p = "part_template p"
  show ?thesis
  proof (cases "\<exists>t base. estimate_kiro_payload env ?norm = Inr t \<and> maximum < t \<and> estimate_kiro_payload env ?p = Inr base")
    case False
    then show ?thesis
      by (cases "estimate_kiro_payload env ?norm"; cases "estimate_kiro_payload env ?p")
         (auto simp: partition_compaction_summary_def Let_def not_less MAX_SUMMARY_PARTS_def)
  next
    case True
    then obtain t base where e: "estimate_kiro_payload env ?norm = Inr t" "maximum < t" "estimate_kiro_payload env ?p = Inr base" by blast
    obtain r where r: "pack_loop env ?p maximum base (kp_history p) [] base [] = Some r"
        "\<And>part' parts'. r = Inr (part', parts') \<Longrightarrow> packed env ?p (kp_history p) [] [] part' parts' \<and> length parts' < MAX_SUMMARY_PARTS"
      using pack_loop_ends [OF assms, of "[]" ?p maximum base "kp_history p" "[]" base] by (auto simp: MAX_SUMMARY_PARTS_def)
    show ?thesis
    proof (cases r)
      case (Inl e')
      then show ?thesis using e r(1) by (simp add: partition_compaction_summary_def Let_def)
    next
      case (Inr x)
      obtain part parts where x: "x = (part, parts)" by fastforce
      obtain raws groups where k: "list_all2 splits_into (kp_history p) groups" "concat groups = concat raws @ part"
          "parts = map (normalized_part env ?p) raws" "length parts < MAX_SUMMARY_PARTS"
        using r(2) Inr x by (auto simp: packed_def)
      define all_raws where "all_raws = (if part \<noteq> [] then raws @ [part] else raws)"
      have a: "(if part \<noteq> [] then parts @ [normalized_part env ?p part] else parts) = map (normalized_part env ?p) all_raws"
          "concat all_raws = concat groups" "length all_raws \<le> MAX_SUMMARY_PARTS"
        using k by (auto simp: all_raws_def)
      have run: "partition_compaction_summary env p maximum = Some (if all_raws = [] then Inl ''summary instructions exceed its model window''
          else label_parts env ?p maximum (length all_raws) 0 (map (normalized_part env ?p) all_raws))"
        using e r(1) Inr x a(1) by (simp add: partition_compaction_summary_def Let_def)
      have "qs \<noteq> [] \<and> length qs \<le> MAX_SUMMARY_PARTS \<and> (\<forall>q \<in> set qs. \<exists>t \<le> maximum. estimate_kiro_payload env q = Inr t) \<and>
          length all_raws = length qs \<and>
          (\<forall>i < length qs. qs ! i = label_part ?p (length qs) i (normalized_part env ?p (all_raws ! i)))"
        if "all_raws \<noteq> []" "label_parts env ?p maximum (length all_raws) 0 (map (normalized_part env ?p) all_raws) = Inr qs" for qs
        using label_parts_fit [OF that(2)] that(1) a(3) by auto
      then show ?thesis using run k(1) a(2) by (cases "all_raws = []") auto
    qed
  qed
qed

lemma lossless_byte_tokens: "lossless_tokens (\<lambda>n. [char_of n]) byte_tokens"
  by (simp add: lossless_tokens_def byte_tokens_def comp_def concat_map_singleton)

theorem partition_loses_nothing_witness:
  "\<exists>r. partition_compaction_summary byte_tokens (sample_payload [''s'', ''first'', ''second''] ''now'') 40 = Some r"
  using partition_loses_nothing [OF lossless_byte_tokens] by blast

end
