(* ===== verification/ValidateContent.thy ===== *)
theory ValidateContent
  imports ErrorText ContextEdits
begin

text \<open>
  \<open>crates/kproxy-translate/src/validate.rs\<close>, first half: errors, attachments, content blocks and, from \<open>validate/cache.rs\<close>, cache markers.
  A check is \<^const>\<open>None\<close> if it passes. Base64, URL parsing and JSON are arguments.
\<close>

section \<open>Errors and checks\<close>

datatype validation_error =
    MissingModel
  | MissingMessages
  | TooManyTools
  | TooManyDeferredTools
  | LoadedToolDefinitionsTooLarge
  | DeferredToolDefinitionsTooLarge
  | ToolDefinitionTooLarge
  | ToolNameTooLong
  | ToolDocumentationTooLarge
  | SchemaTooDeep
  | SchemaTooLarge
  | InvalidRole string
  | InvalidField string string

definition MAX_SCHEMA_DEPTH :: nat where "MAX_SCHEMA_DEPTH = 64"
definition MAX_SCHEMA_NODES :: nat where "MAX_SCHEMA_NODES = 50000"
definition MAX_TOOL_DOC_CHARS :: nat where "MAX_TOOL_DOC_CHARS = 512000"
definition MAX_TOOLS :: nat where "MAX_TOOLS = 512"
definition MAX_DEFERRED_TOOLS :: nat where "MAX_DEFERRED_TOOLS = 10000"
definition MAX_LOADED_TOOL_BYTES :: nat where "MAX_LOADED_TOOL_BYTES = 4 * 1024 * 1024"
definition MAX_DEFERRED_TOOL_BYTES :: nat where "MAX_DEFERRED_TOOL_BYTES = 32 * 1024 * 1024"
definition MAX_TOOL_BYTES :: nat where "MAX_TOOL_BYTES = 256 * 1024"
definition MAX_TOOL_NAME_CHARS :: nat where "MAX_TOOL_NAME_CHARS = 128"
definition MAX_STOP_SEQUENCES :: nat where "MAX_STOP_SEQUENCES = 64"
definition MAX_STOP_SEQUENCE_BYTES :: nat where "MAX_STOP_SEQUENCE_BYTES = 4 * 1024"
definition MAX_STOP_SEQUENCE_TOTAL_BYTES :: nat where "MAX_STOP_SEQUENCE_TOTAL_BYTES = 64 * 1024"
definition MAX_DOCUMENTS_PER_MESSAGE :: nat where "MAX_DOCUMENTS_PER_MESSAGE = 5"
definition MAX_DOCUMENT_BYTES :: nat where "MAX_DOCUMENT_BYTES = 4500000"
definition MAX_IMAGE_BYTES :: nat where "MAX_IMAGE_BYTES = 5 * 1024 * 1024"
definition MAX_IMAGES_PER_REQUEST :: nat where "MAX_IMAGES_PER_REQUEST = 100"
definition MAX_DOCUMENTS_PER_REQUEST :: nat where "MAX_DOCUMENTS_PER_REQUEST = 5"
definition MAX_CACHE_BREAKPOINTS :: nat where "MAX_CACHE_BREAKPOINTS = 4"
definition MAX_MODEL_BYTES :: nat where "MAX_MODEL_BYTES = 256"

fun error_text :: "validation_error \<Rightarrow> string" where
  "error_text MissingModel = ''model is required''"
| "error_text MissingMessages = ''messages must not be empty''"
| "error_text TooManyTools = ''too many tools: maximum is '' @ decimal MAX_TOOLS"
| "error_text TooManyDeferredTools = ''too many deferred tools: maximum is '' @ decimal MAX_DEFERRED_TOOLS"
| "error_text LoadedToolDefinitionsTooLarge = ''loaded tool definitions exceed the '' @ decimal MAX_LOADED_TOOL_BYTES
     @ '' byte limit; enable Anthropic Tool Search and defer MCP tools''"
| "error_text DeferredToolDefinitionsTooLarge = ''deferred tool catalog exceeds the '' @ decimal MAX_DEFERRED_TOOL_BYTES @ '' byte limit''"
| "error_text ToolDefinitionTooLarge = ''a single tool definition exceeds the '' @ decimal MAX_TOOL_BYTES @ '' byte limit''"
| "error_text ToolNameTooLong = ''tool name exceeds '' @ decimal MAX_TOOL_NAME_CHARS @ '' characters''"
| "error_text ToolDocumentationTooLarge = ''tool documentation exceeds '' @ decimal MAX_TOOL_DOC_CHARS @ '' characters''"
| "error_text SchemaTooDeep = ''tool schema exceeds maximum depth '' @ decimal MAX_SCHEMA_DEPTH"
| "error_text SchemaTooLarge = ''tool schema exceeds maximum node count '' @ decimal MAX_SCHEMA_NODES"
| "error_text (InvalidRole role) = ''message role is not supported: '' @ role"
| "error_text (InvalidField field message) = ''invalid value for '' @ field @ '': '' @ message"

abbreviation invalid :: "string \<Rightarrow> string \<Rightarrow> validation_error option" where
  "invalid field message \<equiv> Some (InvalidField field message)"

definition refuse :: "bool \<Rightarrow> string \<Rightarrow> string \<Rightarrow> validation_error option" where
  "refuse condition field message = (if condition then invalid field message else None)"

text \<open>Checks one after the other, and the loop over a list with its index.\<close>

fun first_error :: "validation_error option list \<Rightarrow> validation_error option" where
  "first_error [] = None"
| "first_error (check # checks) = (case check of Some e \<Rightarrow> Some e | None \<Rightarrow> first_error checks)"

definition each_index :: "(nat \<Rightarrow> 'a \<Rightarrow> validation_error option) \<Rightarrow> 'a list \<Rightarrow> validation_error option" where
  "each_index f xs = first_error (map (\<lambda>(i, x). f i x) (List.enumerate 0 xs))"

lemma refuse_None [simp]: "refuse c f m = None \<longleftrightarrow> \<not> c"
  by (simp add: refuse_def)

lemma first_error_None [simp]: "first_error checks = None \<longleftrightarrow> (\<forall>c \<in> set checks. c = None)"
  by (induction checks) (auto split: option.split)

declare first_error.simps [simp del]

lemma each_index_None: "each_index f xs = None \<longleftrightarrow> (\<forall>i < length xs. f i (xs ! i) = None)"
proof -
  have "(\<forall>p \<in> set (List.enumerate n xs). (case p of (i, x) \<Rightarrow> f i x) = None) \<longleftrightarrow> (\<forall>i < length xs. f (n + i) (xs ! i) = None)" for n
    by (induction xs arbitrary: n) (simp_all add: All_less_Suc2)
  from this [of 0] show ?thesis by (simp add: each_index_def)
qed

definition sub :: "string \<Rightarrow> string \<Rightarrow> string" where
  "sub field name = field @ ''.'' @ name"

definition sub_at :: "string \<Rightarrow> nat \<Rightarrow> string" where
  "sub_at field index = field @ ''.'' @ decimal index"

text \<open>A string that is missing or empty, one that is present, a key that is not expected.\<close>

definition lacks :: "json \<Rightarrow> string \<Rightarrow> bool" where
  "lacks block name \<longleftrightarrow> (case get_str block name of None \<Rightarrow> True | Some s \<Rightarrow> s = [])"

definition unknown_key :: "string list \<Rightarrow> json \<Rightarrow> string option" where
  "unknown_key allowed v = (case v of JObject m \<Rightarrow> find (\<lambda>key. key \<notin> set allowed) (map fst m) | _ \<Rightarrow> None)"

definition wrong_type :: "(json \<Rightarrow> bool) \<Rightarrow> json option \<Rightarrow> bool" where
  "wrong_type expected v \<longleftrightarrow> (case v of None \<Rightarrow> False | Some x \<Rightarrow> \<not> expected x)"

fun is_str :: "json \<Rightarrow> bool" where
  "is_str (JString _) = True"
| "is_str _ = False"

fun is_boolean :: "json \<Rightarrow> bool" where
  "is_boolean (JBool _) = True"
| "is_boolean _ = False"

definition quote :: "string \<Rightarrow> string" where
  "quote s = CHR 0x27 # s @ [CHR 0x27]"

record parsed_url =
  pu_scheme :: string
  pu_host :: "string option"
  pu_username :: string
  pu_password :: "string option"

record validate_env =
  ve_base64 :: "string \<Rightarrow> string option"
  ve_url :: "string \<Rightarrow> parsed_url option"
  ve_to_json :: "json \<Rightarrow> string"
  ve_from_json :: "string \<Rightarrow> json option"

section \<open>Models and schemas\<close>

definition validate_model :: "string \<Rightarrow> validation_error option" where
  "validate_model model =
     (if trim model = [] then Some MissingModel
      else first_error
        [refuse (MAX_MODEL_BYTES < length model) ''model'' (''must be at most '' @ decimal MAX_MODEL_BYTES @ '' bytes''),
         refuse (list_ex (\<lambda>ch. ch \<in> set white_space \<or> is_control ch) (chars model)) ''model''
           ''must not contain whitespace or control characters''])"

definition validate_common :: "string \<Rightarrow> bool \<Rightarrow> validation_error option" where
  "validate_common model messages_empty =
     first_error [validate_model model, if messages_empty then Some MissingMessages else None]"

text \<open>The values below a value, and the number of all values in it, which bounds the loop.\<close>

fun children :: "json \<Rightarrow> json list" where
  "children (JArray values) = values"
| "children (JObject values) = map snd values"
| "children _ = []"

fun json_nodes :: "json \<Rightarrow> nat" where
  "json_nodes (JArray values) = Suc (sum_list (map json_nodes values))"
| "json_nodes (JObject values) = Suc (sum_list (map (\<lambda>(_, v). json_nodes v) values))"
| "json_nodes _ = 1"

lemma json_nodes_children: "json_nodes v = Suc (sum_list (map json_nodes (children v)))"
  by (cases v) (simp_all add: comp_def split_def)

lemma json_nodes_below: "sum_list (map json_nodes (children v)) < json_nodes v"
  by (simp add: json_nodes_children [of v])

function schema_loop :: "nat \<Rightarrow> (json \<times> nat) list \<Rightarrow> validation_error option" where
  "schema_loop nodes [] = None"
| "schema_loop nodes ((v, depth) # stack) =
     (if MAX_SCHEMA_NODES < Suc nodes then Some SchemaTooLarge
      else if MAX_SCHEMA_DEPTH < depth then Some SchemaTooDeep
      else schema_loop (Suc nodes) (rev (map (\<lambda>child. (child, Suc depth)) (children v)) @ stack))"
  by pat_completeness auto
termination
  by (relation "measure (\<lambda>(_, stack). sum_list (map (json_nodes \<circ> fst) stack))")
     (simp_all add: json_nodes_below comp_def rev_map [symmetric] sum_list_rev)

definition validate_tool :: "string \<Rightarrow> json \<Rightarrow> validation_error option" where
  "validate_tool name schema =
     (if MAX_TOOL_NAME_CHARS < length (chars name) then Some ToolNameTooLong else schema_loop 0 [(schema, 1)])"

section \<open>Attachments\<close>

definition validate_http_attachment_url :: "validate_env \<Rightarrow> string \<Rightarrow> string \<Rightarrow> validation_error option" where
  "validate_http_attachment_url env value field = (case ve_url env value of
       None \<Rightarrow> invalid field ''expected a valid HTTP(S) URL''
     | Some url \<Rightarrow> refuse (pu_scheme url \<notin> {''http'', ''https''} \<or> pu_host url = None \<or> pu_username url \<noteq> [] \<or> pu_password url \<noteq> None)
         field ''expected an HTTP(S) URL with a host and without credentials'')"

definition detected_image_media_type :: "string \<Rightarrow> string option" where
  "detected_image_media_type bytes =
     (if starts_with bytes [CHR 0xFF, CHR 0xD8, CHR 0xFF] then Some ''image/jpeg''
      else if starts_with bytes ([CHR 0x89] @ ''PNG'' @ [CHR 0x0D, CHR 0x0A, CHR 0x1A, CHR 0x0A]) then Some ''image/png''
      else if starts_with bytes ''GIF87a'' \<or> starts_with bytes ''GIF89a'' then Some ''image/gif''
      else if 12 \<le> length bytes \<and> starts_with bytes ''RIFF'' \<and> take 4 (drop 8 bytes) = ''WEBP'' then Some ''image/webp''
      else None)"

definition validate_openai_image_url :: "validate_env \<Rightarrow> string \<Rightarrow> string \<Rightarrow> validation_error option" where
  "validate_openai_image_url env value field =
     (if (case ve_url env value of None \<Rightarrow> False | Some url \<Rightarrow> pu_scheme url \<in> {''http'', ''https''})
      then validate_http_attachment_url env value field
      else case strip_prefix value ''data:image/'' of
          None \<Rightarrow> invalid field ''expected an HTTP(S) URL or base64 image data URL''
        | Some encoded \<Rightarrow> (case str_find '';base64,'' encoded of
            None \<Rightarrow> invalid field ''expected a base64 image data URL''
          | Some i \<Rightarrow>
              (let format = to_ascii_lowercase (take i encoded); data = drop (i + 8) encoded in
               if format \<notin> {''jpeg'', ''jpg'', ''png'', ''gif'', ''webp''} then invalid field ''expected a JPEG, PNG, GIF, or WebP image''
               else case ve_base64 env data of
                   None \<Rightarrow> invalid field ''invalid base64 image data''
                 | Some decoded \<Rightarrow> first_error
                     [refuse (decoded = []) field ''image data must not be empty'',
                      refuse (MAX_IMAGE_BYTES < length decoded) field (''decoded image must be at most '' @ decimal MAX_IMAGE_BYTES @ '' bytes''),
                      refuse (detected_image_media_type decoded \<noteq> Some (''image/'' @ (if format = ''jpg'' then ''jpeg'' else format)))
                        field ''image bytes do not match the data URL media type''])))"

definition image_media_types :: "string list" where
  "image_media_types = [''image/jpeg'', ''image/png'', ''image/gif'', ''image/webp'']"

definition validate_claude_image :: "validate_env \<Rightarrow> json \<Rightarrow> string \<Rightarrow> validation_error option" where
  "validate_claude_image env block field =
     (let source = unwrap_or (v_get block ''source'') JNull; at_source = sub field ''source'' in
      if get_str source ''type'' = Some ''url''
      then (case unknown_key [''type'', ''url''] source of
          Some unknown \<Rightarrow> invalid (sub at_source unknown) ''is not valid for a URL image source''
        | None \<Rightarrow> (case get_str source ''url'' of
            None \<Rightarrow> invalid (sub at_source ''url'') ''expected a string''
          | Some url \<Rightarrow> validate_http_attachment_url env url (sub at_source ''url'')))
      else if get_str source ''type'' \<noteq> Some ''base64'' then invalid (sub at_source ''type'') ''expected base64 or url''
      else case unknown_key [''type'', ''media_type'', ''data''] source of
          Some unknown \<Rightarrow> invalid (sub at_source unknown) ''is not valid for a base64 image source''
        | None \<Rightarrow> (case opt_filter (\<lambda>media. media \<in> set image_media_types) (get_str source ''media_type'') of
            None \<Rightarrow> invalid (sub at_source ''media_type'') ''expected image/jpeg, image/png, image/gif, or image/webp''
          | Some media_type \<Rightarrow> (case get_str source ''data'' of
              None \<Rightarrow> invalid (sub at_source ''data'') ''expected a string''
            | Some data \<Rightarrow> (case ve_base64 env data of
                None \<Rightarrow> invalid (sub at_source ''data'') ''invalid base64 image data''
              | Some decoded \<Rightarrow> first_error
                  [refuse (MAX_IMAGE_BYTES < length decoded) (sub at_source ''data'')
                     (''decoded image must be at most '' @ decimal MAX_IMAGE_BYTES @ '' bytes''),
                   refuse (detected_image_media_type decoded \<noteq> Some media_type) (sub at_source ''data'')
                     ''image bytes do not match the declared media_type'']))))"

definition validate_image_transformations :: "json option \<Rightarrow> string \<Rightarrow> validation_error option" where
  "validate_image_transformations transformations field = (case transformations of
       None \<Rightarrow> None
     | Some JNull \<Rightarrow> None
     | Some (JObject m) \<Rightarrow> refuse (m \<noteq> []) (sub field ''transformations'') ''image transformations are not supported by the Kiro upstream''
     | Some _ \<Rightarrow> invalid (sub field ''transformations'') ''expected an object or null'')"

subsection \<open>Documents\<close>

definition document_format_from_media_type :: "string \<Rightarrow> string option" where
  "document_format_from_media_type media =
     (let m = to_ascii_lowercase (trim (takeWhile (\<lambda>c. c \<noteq> CHR '';'') media)) in
      if m = ''application/pdf'' then Some ''pdf''
      else if m = ''text/csv'' \<or> m = ''application/csv'' then Some ''csv''
      else if m = ''text/markdown'' \<or> m = ''text/x-markdown'' then Some ''md''
      else if m = ''text/html'' then Some ''html''
      else if m = ''application/msword'' then Some ''doc''
      else if m = ''application/vnd.openxmlformats-officedocument.wordprocessingml.document'' then Some ''docx''
      else if m = ''application/vnd.ms-excel'' then Some ''xls''
      else if m = ''application/vnd.openxmlformats-officedocument.spreadsheetml.sheet'' then Some ''xlsx''
      else if starts_with m ''text/'' then Some ''txt''
      else None)"

definition document_format_from_name :: "string \<Rightarrow> string option" where
  "document_format_from_name name = (case split_once (CHR ''.'') (rev name) of
       None \<Rightarrow> None
     | Some (reversed, _) \<Rightarrow>
         (let extension = to_ascii_lowercase (trim (rev reversed)) in
          if extension = ''markdown'' then Some ''md''
          else if extension = ''htm'' then Some ''html''
          else if extension \<in> {''pdf'', ''csv'', ''md'', ''html'', ''txt'', ''doc'', ''docx'', ''xls'', ''xlsx''} then Some extension
          else None))"

definition claude_document_format :: "json \<Rightarrow> string option" where
  "claude_document_format block = Option.bind (v_get block ''source'') (\<lambda>source.
     if get_str source ''type'' = Some ''content'' then Some ''txt''
     else or_else (Option.bind (get_str source ''media_type'') document_format_from_media_type)
       (find_map document_format_from_name (List.map_filter (get_str block) [''name'', ''title''])))"

definition document_bytes_match_format :: "string \<Rightarrow> string \<Rightarrow> bool" where
  "document_bytes_match_format format bytes =
     (if format = ''pdf'' then str_contains (take 1024 bytes) ''%PDF-''
      else if format \<in> {''doc'', ''xls''}
      then starts_with bytes [CHR 0xD0, CHR 0xCF, CHR 0x11, CHR 0xE0, CHR 0xA1, CHR 0xB1, CHR 0x1A, CHR 0xE1]
      else if format \<in> {''docx'', ''xlsx''}
      then starts_with bytes (''PK'' @ [CHR 0x03, CHR 0x04]) \<or> starts_with bytes (''PK'' @ [CHR 0x05, CHR 0x06])
        \<or> starts_with bytes (''PK'' @ [CHR 0x07, CHR 0x08])
      else if format \<in> {''csv'', ''md'', ''html'', ''txt''} then utf8_valid (map byte bytes) \<and> CHR 0x00 \<notin> set bytes
      else False)"

text \<open>A document given as content: the blocks one after the other with the bytes of their flattened text. The result is the
  number of bytes and whether anything was there.\<close>

definition content_text_block :: "json \<Rightarrow> string \<Rightarrow> validation_error + string" where
  "content_text_block block field = (case unknown_key [''type'', ''text'', ''cache_control'', ''citations''] block of
       Some unknown \<Rightarrow> Inl (InvalidField (sub field unknown) ''is not valid for a text block in a content document'')
     | None \<Rightarrow> (case get_str block ''text'' of
         None \<Rightarrow> Inl (InvalidField (sub field ''text'') ''expected a string'')
       | Some text \<Rightarrow> if wrong_type is_null (v_get block ''citations'')
           then Inl (InvalidField (sub field ''citations'') ''nested citation history cannot be represented by the Kiro upstream'')
           else Inr text))"

definition content_image_block :: "validate_env \<Rightarrow> json \<Rightarrow> string \<Rightarrow> validation_error option" where
  "content_image_block env block field = (case unknown_key [''type'', ''source'', ''cache_control'', ''transformations''] block of
       Some unknown \<Rightarrow> invalid (sub field unknown) ''is not valid for an image block in a content document''
     | None \<Rightarrow> first_error [validate_image_transformations (v_get block ''transformations'') field, validate_claude_image env block field])"

definition content_block :: "validate_env \<Rightarrow> json \<Rightarrow> string \<Rightarrow> validation_error + nat \<times> bool" where
  "content_block env block field = (case get_str block ''type'' of
       None \<Rightarrow> Inl (InvalidField (sub field ''type'') ''is required'')
     | Some kind \<Rightarrow>
         if kind = ''text'' then map_sum id (\<lambda>text. (length text, text \<noteq> [])) (content_text_block block field)
         else if kind = ''image'' then (case content_image_block env block field of Some e \<Rightarrow> Inl e | None \<Rightarrow> Inr (32, True))
         else Inl (InvalidField (sub field ''type'') (''unsupported content document block '' @ quote kind)))"

fun content_blocks :: "validate_env \<Rightarrow> string \<Rightarrow> nat \<Rightarrow> nat \<Rightarrow> bool \<Rightarrow> json list \<Rightarrow> validation_error + bool" where
  "content_blocks env field index flattened_bytes has_content [] = Inr has_content"
| "content_blocks env field index flattened_bytes has_content (block # blocks) =
     (case content_block env block (sub_at field index) of
        Inl e \<Rightarrow> Inl e
      | Inr (bytes, present) \<Rightarrow>
          (let flattened = sat_add (if 0 < index then sat_add flattened_bytes 2 else flattened_bytes) bytes in
           if MAX_DOCUMENT_BYTES < flattened
           then Inl (InvalidField field (''flattened document must be at most '' @ decimal MAX_DOCUMENT_BYTES @ '' bytes''))
           else content_blocks env field (Suc index) flattened (has_content \<or> present) blocks))"

definition validate_claude_content_document_source :: "validate_env \<Rightarrow> json \<Rightarrow> string \<Rightarrow> validation_error option" where
  "validate_claude_content_document_source env source field =
     (let at_content = sub (sub field ''source'') ''content'' in
      case unknown_key [''type'', ''content''] source of
        Some unknown \<Rightarrow> invalid (sub (sub field ''source'') unknown) ''is not valid for a content document source''
      | None \<Rightarrow> (case v_get source ''content'' of
          None \<Rightarrow> invalid at_content ''is required''
        | Some (JString text) \<Rightarrow> first_error
            [refuse (text = []) at_content ''must not be empty'',
             refuse (MAX_DOCUMENT_BYTES < length text) at_content (''document content must be at most '' @ decimal MAX_DOCUMENT_BYTES @ '' bytes'')]
        | Some (JArray blocks) \<Rightarrow>
            if blocks = [] then invalid at_content ''must not be empty''
            else (case content_blocks env at_content 0 0 False blocks of
                Inl e \<Rightarrow> Some e
              | Inr has_content \<Rightarrow> refuse (\<not> has_content) at_content ''must not be empty'')
        | Some _ \<Rightarrow> invalid at_content ''expected a string or an array of text/image blocks''))"

definition nullable_string :: "json \<Rightarrow> bool" where
  "nullable_string v \<longleftrightarrow> is_null v \<or> is_str v"

definition document_citations :: "json \<Rightarrow> string \<Rightarrow> validation_error option" where
  "document_citations block field = (case opt_filter (\<lambda>v. \<not> is_null v) (v_get block ''citations'') of
       None \<Rightarrow> None
     | Some citations \<Rightarrow>
         if \<not> is_object citations then invalid (sub field ''citations'') ''expected an object''
         else first_error
           [refuse (wrong_type is_boolean (v_get citations ''enabled'')) (sub (sub field ''citations'') ''enabled'') ''expected a boolean'',
            (case unknown_key [''enabled''] citations of None \<Rightarrow> None
             | Some unknown \<Rightarrow> invalid (sub field ''citations'') (''unsupported citation configuration field '' @ quote unknown))])"

text \<open>The data of a base64 or text document.\<close>

definition document_data :: "validate_env \<Rightarrow> string \<Rightarrow> string \<Rightarrow> json \<Rightarrow> string \<Rightarrow> validation_error option" where
  "document_data env source_type format source at_data = (case get_str source ''data'' of
       None \<Rightarrow> invalid at_data ''expected a string''
     | Some data \<Rightarrow>
         if data = [] then invalid at_data ''must not be empty''
         else case (if source_type = ''base64'' then ve_base64 env data else Some data) of
             None \<Rightarrow> invalid at_data ''invalid base64 document data''
           | Some decoded \<Rightarrow> first_error
               [refuse (MAX_DOCUMENT_BYTES < length decoded) at_data
                  (''decoded document must be at most '' @ decimal MAX_DOCUMENT_BYTES @ '' bytes''),
                refuse (\<not> document_bytes_match_format format decoded) at_data ''document bytes do not match the declared media_type''])"

definition document_source :: "validate_env \<Rightarrow> json \<Rightarrow> json \<Rightarrow> string \<Rightarrow> string \<Rightarrow> validation_error option" where
  "document_source env block source source_type field =
     (let at_source = sub field ''source'';
          format = claude_document_format block
      in case unknown_key (if source_type = ''url'' then [''type'', ''url''] else [''type'', ''media_type'', ''data'']) source of
           Some unknown \<Rightarrow> invalid (sub at_source unknown) (''is not valid for a '' @ source_type @ '' document source'')
         | None \<Rightarrow> first_error
             [refuse (wrong_type is_str (v_get source ''media_type'')) (sub at_source ''media_type'') ''expected a string'',
              refuse (source_type \<noteq> ''url'' \<and> format = None) (sub at_source ''media_type'')
                ''expected PDF, CSV, DOC, DOCX, XLS, XLSX, HTML, TXT, or Markdown'',
              refuse (source_type = ''text'' \<and> format \<notin> Some ` {''csv'', ''md'', ''html'', ''txt''}) (sub at_source ''media_type'')
                ''text sources require CSV, HTML, TXT, or Markdown content'',
              if source_type = ''url''
              then (case get_str source ''url'' of
                  None \<Rightarrow> invalid (sub at_source ''url'') ''expected a string''
                | Some url \<Rightarrow> validate_http_attachment_url env url (sub at_source ''url''))
              else document_data env source_type (unwrap_or format []) source (sub at_source ''data'')])"

definition validate_claude_document :: "validate_env \<Rightarrow> json \<Rightarrow> string \<Rightarrow> validation_error option" where
  "validate_claude_document env block field =
     first_error
       [refuse (wrong_type nullable_string (v_get block ''name'')) (sub field ''name'') ''expected a string or null'',
        refuse (wrong_type nullable_string (v_get block ''title'')) (sub field ''title'') ''expected a string or null'',
        refuse (wrong_type nullable_string (v_get block ''context'')) (sub field ''context'') ''expected a string or null'',
        document_citations block field,
        (case opt_filter is_object (v_get block ''source'') of
           None \<Rightarrow> invalid (sub field ''source'') ''expected an object''
         | Some source \<Rightarrow> (case get_str source ''type'' of
             None \<Rightarrow> invalid (sub (sub field ''source'') ''type'') ''expected base64, text, url, or content''
           | Some source_type \<Rightarrow>
               if source_type \<notin> {''base64'', ''text'', ''url'', ''content''}
               then invalid (sub (sub field ''source'') ''type'') ''expected base64, text, url, or content''
               else if source_type = ''content'' then validate_claude_content_document_source env source field
               else document_source env block source source_type field))]"

section \<open>Results of server tools\<close>

definition web_search_entry :: "string \<Rightarrow> nat \<Rightarrow> json \<Rightarrow> validation_error option" where
  "web_search_entry field index result =
     (let at_entry = sub_at field index in
      first_error
        [refuse (get_str result ''type'' \<noteq> Some ''web_search_result'') (sub at_entry ''type'') ''expected web_search_result'',
         refuse (lacks result ''url'') (sub at_entry ''url'') ''is required'',
         refuse (lacks result ''title'') (sub at_entry ''title'') ''is required'',
         refuse (lacks result ''encrypted_content'') (sub at_entry ''encrypted_content'')
           ''is required so web search results can be replayed on later turns'',
         refuse (wrong_type nullable_string (v_get result ''page_age'')) (sub at_entry ''page_age'') ''expected a string or null''])"

definition validate_web_search_result :: "json option \<Rightarrow> string \<Rightarrow> validation_error option" where
  "validate_web_search_result value field = (case value of
       Some (JArray results) \<Rightarrow> each_index (web_search_entry field) results
     | Some (JObject m) \<Rightarrow>
         if get_str (JObject m) ''type'' = Some ''web_search_tool_result_error''
         then refuse (lacks (JObject m) ''error_code'') (sub field ''error_code'') ''is required''
         else invalid field ''expected web search result blocks or a web_search_tool_result_error object''
     | _ \<Rightarrow> invalid field ''expected web search result blocks or a web_search_tool_result_error object'')"

definition validate_tool_search_result :: "json option \<Rightarrow> string \<Rightarrow> validation_error option" where
  "validate_tool_search_result value field = (case value of
       None \<Rightarrow> invalid field ''is required''
     | Some v \<Rightarrow>
         if get_str v ''type'' = Some ''tool_search_tool_search_result''
         then (case Option.bind (v_get v ''tool_references'') as_array of
             None \<Rightarrow> invalid (sub field ''tool_references'') ''expected an array''
           | Some references \<Rightarrow> each_index (\<lambda>index reference.
               refuse (get_str reference ''type'' \<noteq> Some ''tool_reference'' \<or> lacks reference ''tool_name'')
                 (sub_at (sub field ''tool_references'') index) ''expected a tool_reference with tool_name'') references)
         else if get_str v ''type'' = Some ''tool_search_tool_result_error''
         then first_error
           [refuse (get_str v ''error_code'' = None) (sub field ''error_code'') ''is required'',
            refuse (wrong_type nullable_string (v_get v ''error_message'')) (sub field ''error_message'') ''expected a string or null'']
         else invalid field ''expected a Tool Search result or error'')"

section \<open>Content blocks\<close>

definition search_result_block :: "json \<Rightarrow> string \<Rightarrow> validation_error option" where
  "search_result_block block field =
     first_error
       [refuse (get_str block ''source'' = None) (sub field ''source'') ''expected a string'',
        refuse (get_str block ''title'' = None) (sub field ''title'') ''expected a string'',
        (case Option.bind (v_get block ''content'') as_array of
           None \<Rightarrow> invalid (sub field ''content'') ''expected an array of text blocks''
         | Some parts \<Rightarrow> each_index (\<lambda>index part. refuse (get_str part ''type'' \<noteq> Some ''text'' \<or> get_str part ''text'' = None)
             (sub_at (sub field ''content'') index) ''expected a text block'') parts),
        (case opt_filter (\<lambda>v. \<not> is_null v) (v_get block ''citations'') of
           None \<Rightarrow> None
         | Some citations \<Rightarrow> refuse (\<not> is_object citations \<or> wrong_type is_boolean (v_get citations ''enabled''))
             (sub field ''citations'') ''expected citation options with a boolean enabled field'')]"

text \<open>\<open>nested\<close> checks the blocks of a tool result; inside one there is no further tool result.\<close>

definition tool_result_block :: "(json \<Rightarrow> string \<Rightarrow> validation_error option) \<Rightarrow> json \<Rightarrow> string \<Rightarrow> string \<Rightarrow> validation_error option" where
  "tool_result_block nested block role field =
     first_error
       [refuse (role \<noteq> ''user'') (sub field ''type'') ''tool_result blocks require a user role'',
        refuse (lacks block ''tool_use_id'') (sub field ''tool_use_id'') ''is required'',
        refuse (wrong_type is_boolean (v_get block ''is_error'')) (sub field ''is_error'') ''expected a boolean'',
        (case v_get block ''content'' of
           None \<Rightarrow> None
         | Some (JString _) \<Rightarrow> None
         | Some (JArray blocks) \<Rightarrow> each_index (\<lambda>index b. nested b (sub_at (sub field ''content'') index)) blocks
         | Some _ \<Rightarrow> invalid (sub field ''content'') ''expected a string or an array of text/image/document blocks'')]"

definition tool_use_check :: "string \<Rightarrow> json \<Rightarrow> string \<Rightarrow> string \<Rightarrow> validation_error option" where
  "tool_use_check kind block role field =
     first_error
       [refuse (role \<noteq> ''assistant'') (sub field ''type'') (kind @ '' blocks require an assistant role''),
        refuse (lacks block ''id'') (sub field ''id'') ''is required'',
        refuse (lacks block ''name'') (sub field ''name'') ''is required'',
        refuse (\<not> (case v_get block ''input'' of None \<Rightarrow> False | Some v \<Rightarrow> is_object v)) (sub field ''input'') ''expected an object'']"

definition tool_search_block :: "json \<Rightarrow> string \<Rightarrow> string \<Rightarrow> validation_error option" where
  "tool_search_block block role field =
     first_error
       [refuse (role \<noteq> ''assistant'') (sub field ''type'') ''tool_search_tool_result blocks require an assistant role'',
        refuse (lacks block ''tool_use_id'') (sub field ''tool_use_id'') ''is required'',
        validate_tool_search_result (v_get block ''content'') (sub field ''content'')]"

definition web_search_block :: "json \<Rightarrow> string \<Rightarrow> string \<Rightarrow> validation_error option" where
  "web_search_block block role field =
     first_error
       [refuse (role \<noteq> ''assistant'') (sub field ''type'') ''web_search_tool_result blocks require an assistant role'',
        refuse (lacks block ''tool_use_id'') (sub field ''tool_use_id'') ''is required'',
        refuse (wrong_type (\<lambda>caller. get_str caller ''type'' = Some ''direct'') (v_get block ''caller''))
          (sub field ''caller'') ''only direct Web Search callers are supported'',
        validate_web_search_result (v_get block ''content'') (sub field ''content'')]"

definition thinking_block :: "json \<Rightarrow> string \<Rightarrow> string \<Rightarrow> validation_error option" where
  "thinking_block block role field =
     first_error
       [refuse (role \<noteq> ''assistant'' \<or> get_str block ''thinking'' = None) (sub field ''thinking'')
          ''thinking blocks require an assistant role and string content'',
        refuse (lacks block ''signature'') (sub field ''signature'')
          ''signed thinking history requires the opaque signature returned by Claude'']"

definition compaction_block :: "json \<Rightarrow> string \<Rightarrow> string \<Rightarrow> validation_error option" where
  "compaction_block block role field =
     first_error
       [refuse (role \<noteq> ''assistant'') (sub field ''type'') ''compaction blocks require an assistant role'',
        (case v_get block ''content'' of
           None \<Rightarrow> None
         | Some JNull \<Rightarrow> None
         | Some (JString content) \<Rightarrow> refuse (content = []) (sub field ''content'') ''must not be empty''
         | Some _ \<Rightarrow> invalid (sub field ''content'') ''expected a string or null'')]"

definition validate_block_with ::
  "validate_env \<Rightarrow> (json \<Rightarrow> string \<Rightarrow> validation_error option) \<Rightarrow> json \<Rightarrow> string \<Rightarrow> string \<Rightarrow> bool \<Rightarrow> validation_error option" where
  "validate_block_with env nested block role field tool_result_content = (case get_str block ''type'' of
       None \<Rightarrow> invalid (sub field ''type'') ''is required''
     | Some kind \<Rightarrow>
         if kind = ''text'' then refuse (get_str block ''text'' = None) (sub field ''text'') ''expected a string''
         else if kind = ''search_result'' \<and> role = ''user'' then search_result_block block field
         else if kind = ''image''
         then first_error
           [refuse (role \<noteq> ''user'') (sub field ''type'') ''image blocks require a user role'',
            validate_image_transformations (v_get block ''transformations'') field,
            validate_claude_image env block field]
         else if kind = ''tool_result'' \<and> \<not> tool_result_content then tool_result_block nested block role field
         else if kind = ''tool_use'' \<and> \<not> tool_result_content then tool_use_check ''tool_use'' block role field
         else if kind = ''server_tool_use'' \<and> \<not> tool_result_content then tool_use_check ''server_tool_use'' block role field
         else if kind = ''tool_search_tool_result'' \<and> \<not> tool_result_content then tool_search_block block role field
         else if kind = ''web_search_tool_result'' \<and> \<not> tool_result_content then web_search_block block role field
         else if kind = ''tool_reference'' \<and> tool_result_content then refuse (lacks block ''tool_name'') (sub field ''tool_name'') ''is required''
         else if kind = ''thinking'' \<and> \<not> tool_result_content then thinking_block block role field
         else if kind = ''redacted_thinking'' \<and> \<not> tool_result_content
         then refuse (role \<noteq> ''assistant'' \<or> lacks block ''data'') (sub field ''data'')
           ''redacted_thinking blocks require an assistant role and non-empty opaque data''
         else if kind = ''compaction'' \<and> \<not> tool_result_content then compaction_block block role field
         else if kind = ''document''
         then first_error
           [refuse (role \<noteq> ''user'') (sub field ''type'') ''document blocks require a user role'',
            validate_claude_document env block field]
         else invalid (sub field ''type'') (''unsupported Claude content block '' @ quote kind))"

definition validate_claude_block :: "validate_env \<Rightarrow> json \<Rightarrow> string \<Rightarrow> string \<Rightarrow> bool \<Rightarrow> validation_error option" where
  "validate_claude_block env =
     validate_block_with env (\<lambda>b f. validate_block_with env (\<lambda>_ _. None) b ''user'' f True)"

text \<open>The recursion of the source: the nested check is the check itself, with the flag set.\<close>

lemma validate_claude_block_rec:
  "validate_claude_block env block role field inner =
     validate_block_with env (\<lambda>b f. validate_claude_block env b ''user'' f True) block role field inner"
proof -
  have "validate_block_with env n b ''user'' f True = validate_block_with env n' b ''user'' f True" for n n' b f
    by (simp add: validate_block_with_def split: option.split)
  then show ?thesis unfolding validate_claude_block_def by metis
qed

section \<open>Counting\<close>

lemma v_get_size: "v_get v k = Some w \<Longrightarrow> size w < size v"
proof (cases v)
  case (JObject m)
  assume "v_get v k = Some w"
  then have "(k, w) \<in> set m" using JObject by (auto dest: map_of_SomeD)
  then have "Suc (size w) \<le> size_list (size_prod (\<lambda>_. 0) size) m"
    by (induction m) auto
  then show ?thesis using JObject by simp
qed auto

lemma v_pointer_size: "v_pointer (k # ks) v = Some w \<Longrightarrow> size w < size v"
proof (induction ks arbitrary: k v)
  case Nil
  then show ?case by (cases "v_get v k") (auto dest: v_get_size)
next
  case (Cons k' ks)
  then obtain u where "v_get v k = Some u" "v_pointer (k' # ks) u = Some w" by (cases "v_get v k") auto
  with Cons.IH v_get_size show ?case by (meson less_trans)
qed

lemma v_pointer_size': "Option.bind (v_get v k) (v_pointer ks) = Some w \<Longrightarrow> size w < size v"
  using v_pointer_size [of k ks] by simp

text \<open>The content below a block that is counted with it: of a tool result, of a document given as content.\<close>

definition result_content :: "json \<Rightarrow> json list" where
  "result_content block = (if get_str block ''type'' = Some ''tool_result''
     then unwrap_or (Option.bind (v_get block ''content'') as_array) [] else [])"

definition attached_content :: "json \<Rightarrow> json list" where
  "attached_content block =
     (if get_str block ''type'' = Some ''tool_result'' then unwrap_or (Option.bind (v_get block ''content'') as_array) []
      else if get_str block ''type'' = Some ''document'' \<and> Option.bind (v_pointer [''source'', ''type''] block) as_str = Some ''content''
      then unwrap_or (Option.bind (v_pointer [''source'', ''content''] block) as_array) []
      else [])"

lemma size_list_elem: "x \<in> set xs \<Longrightarrow> size x < size (JArray xs)"
  by (induction xs) auto

lemma array_of: "b \<in> set (unwrap_or (Option.bind w as_array) []) \<Longrightarrow> \<exists>xs. w = Some (JArray xs) \<and> b \<in> set xs"
proof (cases w)
  case (Some v)
  then show "b \<in> set (unwrap_or (Option.bind w as_array) []) \<Longrightarrow> ?thesis" by (cases v) auto
qed simp

lemma attached_content_size:
  assumes "b \<in> set (attached_content block)"
  shows "size b < size block"
proof -
  obtain xs where "v_get block ''content'' = Some (JArray xs) \<or> v_pointer [''source'', ''content''] block = Some (JArray xs)" "b \<in> set xs"
    using assms array_of [of b "v_get block ''content''"] array_of [of b "v_pointer [''source'', ''content''] block"]
    unfolding attached_content_def by (auto simp del: v_pointer.simps split: if_splits)
  then have "size (JArray xs) < size block" "size b < size (JArray xs)" using v_get_size v_pointer_size size_list_elem by blast+
  then show ?thesis by (rule less_trans [rotated])
qed

lemma result_content_size: "b \<in> set (result_content block) \<Longrightarrow> size b < size block"
  using attached_content_size by (simp add: result_content_def attached_content_def split: if_splits)

function count_claude_documents :: "json \<Rightarrow> nat" where
  "count_claude_documents block =
     (if get_str block ''type'' = Some ''document'' then 1 else 0) + sum_list (map count_claude_documents (result_content block))"
  by pat_completeness auto
termination
  by (relation "measure size") (simp_all add: result_content_size)

declare count_claude_documents.simps [simp del]

function count_block_images :: "json \<Rightarrow> nat" where
  "count_block_images block =
     (if get_str block ''type'' = Some ''image'' then 1 else 0) + sum_list (map count_block_images (attached_content block))"
  by pat_completeness auto
termination
  by (relation "measure size") (simp_all add: attached_content_size)

declare count_block_images.simps [simp del]

definition blocks_of :: "json \<Rightarrow> json list" where
  "blocks_of content = unwrap_or (as_array content) []"

definition count_claude_images :: "json \<Rightarrow> nat" where
  "count_claude_images content = sum_list (map count_block_images (blocks_of content))"

definition count_claude_documents_in_content :: "json \<Rightarrow> nat" where
  "count_claude_documents_in_content content = sum_list (map count_claude_documents (blocks_of content))"

definition validate_claude_content :: "validate_env \<Rightarrow> json \<Rightarrow> string \<Rightarrow> string \<Rightarrow> validation_error option" where
  "validate_claude_content env content role field = (case content of
       JString _ \<Rightarrow> None
     | JArray blocks \<Rightarrow> first_error
         [each_index (\<lambda>index block. validate_claude_block env block role (sub_at field index) False) blocks,
          refuse (MAX_DOCUMENTS_PER_MESSAGE < sum_list (map count_claude_documents blocks)) field
            (''must contain at most '' @ decimal MAX_DOCUMENTS_PER_MESSAGE @ '' document blocks'')]
     | _ \<Rightarrow> invalid field ''expected a string or content array'')"

section \<open>Cache markers\<close>

datatype breakpoint_ttl = FiveMinutes | OneHour

definition cache_control_ttl :: "json option \<Rightarrow> string \<Rightarrow> validation_error + breakpoint_ttl option" where
  "cache_control_ttl value field = (case opt_filter (\<lambda>v. \<not> is_null v) value of
       None \<Rightarrow> Inr None
     | Some control \<Rightarrow>
         if \<not> is_object control then Inl (InvalidField field ''expected an object'')
         else case opt_filter (\<lambda>kind. trim kind \<noteq> []) (get_str control ''type'') of
             None \<Rightarrow> Inl (InvalidField (sub field ''type'') ''expected a non-empty string'')
           | Some kind \<Rightarrow>
               if kind \<noteq> ''ephemeral'' then Inl (InvalidField (sub field ''type'') ''expected ephemeral'')
               else case v_get control ''ttl'' of
                   None \<Rightarrow> Inr (Some FiveMinutes)
                 | Some ttl \<Rightarrow> if ttl = JString ''5m'' then Inr (Some FiveMinutes)
                     else if ttl = JString ''1h'' then Inr (Some OneHour)
                     else Inl (InvalidField (sub field ''ttl'') ''expected 5m or 1h''))"

definition validate_cache_control :: "json option \<Rightarrow> string \<Rightarrow> validation_error + nat" where
  "validate_cache_control value field = map_sum id (\<lambda>ttl. if ttl = None then 0 else 1) (cache_control_ttl value field)"

function validate_content_cache_controls :: "json \<Rightarrow> string \<Rightarrow> validation_error + nat"
  and block_cache_controls :: "json list \<Rightarrow> nat \<Rightarrow> string \<Rightarrow> nat \<Rightarrow> validation_error + nat" where
  "validate_content_cache_controls content field = (case content of
       JArray blocks \<Rightarrow> block_cache_controls blocks 0 field 0
     | _ \<Rightarrow> Inr 0)"
| "block_cache_controls [] index field n = Inr n"
| "block_cache_controls (block # blocks) index field n =
     (case validate_cache_control (v_get block ''cache_control'') (sub (sub_at field index) ''cache_control'') of
        Inl e \<Rightarrow> Inl e
      | Inr k \<Rightarrow>
          (case (if get_str block ''type'' = Some ''tool_result''
                 then (case v_get block ''content'' of None \<Rightarrow> Inr 0
                   | Some content \<Rightarrow> validate_content_cache_controls content (sub (sub_at field index) ''content''))
                 else if get_str block ''type'' = Some ''document'' \<and> Option.bind (v_pointer [''source'', ''type''] block) as_str = Some ''content''
                 then (case v_pointer [''source'', ''content''] block of None \<Rightarrow> Inr 0
                   | Some content \<Rightarrow> validate_content_cache_controls content (sub (sub (sub_at field index) ''source'') ''content''))
                 else Inr 0) of
             Inl e \<Rightarrow> Inl e
           | Inr nested \<Rightarrow> block_cache_controls blocks (Suc index) field (sat_add (sat_add n k) nested)))"
  by pat_completeness auto
termination
  by (relation "measure (\<lambda>x. case x of Inl (content, _) \<Rightarrow> size content | Inr (blocks, _) \<Rightarrow> size_list size blocks)")
     (auto dest!: v_get_size v_pointer_size')

record breakpoint =
  bp_ttl :: breakpoint_ttl
  bp_field :: string

record automatic_target =
  at_position :: nat
  at_explicit_ttl :: "breakpoint_ttl option"
  at_field :: string

record cache_controls =
  kc_breakpoints :: "breakpoint list"
  kc_last_target :: "automatic_target option"

definition cache_visit :: "json option \<Rightarrow> string \<Rightarrow> bool \<Rightarrow> cache_controls \<Rightarrow> validation_error + cache_controls" where
  "cache_visit value field eligible_target cc = (case cache_control_ttl value field of
       Inl e \<Rightarrow> Inl e
     | Inr ttl \<Rightarrow>
         (let cc1 = (case ttl of None \<Rightarrow> cc | Some t \<Rightarrow> cc\<lparr>kc_breakpoints := kc_breakpoints cc @ [\<lparr>bp_ttl = t, bp_field = field\<rparr>]\<rparr>)
          in Inr (if eligible_target
            then cc1\<lparr>kc_last_target := Some \<lparr>at_position = length (kc_breakpoints cc), at_explicit_ttl = ttl, at_field = field\<rparr>\<rparr>
            else cc1)))"

definition cache_nested :: "json \<Rightarrow> string \<Rightarrow> (json \<times> string) option" where
  "cache_nested block field =
     (let kind = get_str block ''type'' in
      if kind = Some ''tool_result'' \<or> kind = Some ''search_result''
      then map_option (\<lambda>c. (c, sub field ''content'')) (v_get block ''content'')
      else if kind = Some ''document'' \<and> Option.bind (v_pointer [''source'', ''type''] block) as_str = Some ''content''
      then map_option (\<lambda>c. (c, sub (sub field ''source'') ''content'')) (v_pointer [''source'', ''content''] block)
      else None)"

lemma cache_nested_size: "cache_nested block field = Some (c, f) \<Longrightarrow> size c < size block"
  by (auto simp: cache_nested_def Let_def dest: v_get_size v_pointer_size' split: if_splits)

definition cannot_cache :: "json \<Rightarrow> bool" where
  "cannot_cache block \<longleftrightarrow> get_str block ''type'' \<in> {Some ''thinking'', Some ''redacted_thinking''}
     \<or> get_str block ''type'' = Some ''text'' \<and> get_str block ''text'' = Some []"

definition cacheable_kinds :: "string list" where
  "cacheable_kinds = [''text'', ''image'', ''document'', ''tool_use'', ''tool_result'', ''server_tool_use'', ''web_search_tool_result'',
     ''tool_search_tool_result'', ''search_result'']"

definition can_cache :: "json \<Rightarrow> bool" where
  "can_cache block \<longleftrightarrow> \<not> cannot_cache block \<and>
     ((case get_str block ''type'' of None \<Rightarrow> False | Some kind \<Rightarrow> kind \<in> set cacheable_kinds)
      \<or> get_str block ''type'' = Some ''compaction'' \<and> \<not> lacks block ''content'')"

definition cache_block_control :: "json \<Rightarrow> string \<Rightarrow> bool \<Rightarrow> cache_controls \<Rightarrow> validation_error + cache_controls" where
  "cache_block_control block field top_level cc =
     (let control = v_get block ''cache_control'';
          cache_field = sub field ''cache_control''
      in if cannot_cache block \<and> wrong_type is_null control
         then (case cache_control_ttl control cache_field of
             Inl e \<Rightarrow> Inl e
           | Inr _ \<Rightarrow> Inl (InvalidField cache_field ''thinking and empty text blocks cannot define cache_control''))
         else cache_visit control cache_field (top_level \<and> can_cache block) cc)"

text \<open>The operator \<open>?\<close>.\<close>

definition and_then :: "'e + 'a \<Rightarrow> ('a \<Rightarrow> 'e + 'b) \<Rightarrow> 'e + 'b" where
  "and_then r f = (case r of Inl e \<Rightarrow> Inl e | Inr x \<Rightarrow> f x)"

lemma and_then_cong [fundef_cong]: "r = r' \<Longrightarrow> (\<And>x. r' = Inr x \<Longrightarrow> f x = g x) \<Longrightarrow> and_then r f = and_then r' g"
  by (auto simp: and_then_def split: sum.split)

lemma and_then_simps [simp]: "and_then (Inl e) f = Inl e" "and_then (Inr x) f = f x"
  by (simp_all add: and_then_def)

function cache_content :: "json \<Rightarrow> string \<Rightarrow> bool \<Rightarrow> cache_controls \<Rightarrow> validation_error + cache_controls"
  and cache_blocks :: "json list \<Rightarrow> nat \<Rightarrow> string \<Rightarrow> bool \<Rightarrow> cache_controls \<Rightarrow> validation_error + cache_controls" where
  "cache_content content field top_level cc = (case content of
       JString text \<Rightarrow> if top_level \<and> text \<noteq> [] then cache_visit None (sub field ''cache_control'') True cc else Inr cc
     | JArray blocks \<Rightarrow> cache_blocks blocks 0 field top_level cc
     | _ \<Rightarrow> Inr cc)"
| "cache_blocks [] index field top_level cc = Inr cc"
| "cache_blocks (block # blocks) index field top_level cc =
     and_then (case cache_nested block (sub_at field index) of
         None \<Rightarrow> Inr cc
       | Some nested \<Rightarrow> cache_content (fst nested) (snd nested) False cc)
       (\<lambda>cc1. and_then (cache_block_control block (sub_at field index) top_level cc1)
         (cache_blocks blocks (Suc index) field top_level))"
  by pat_completeness auto
termination
  by (relation "measure (\<lambda>x. case x of Inl (content, _) \<Rightarrow> size content | Inr (blocks, _) \<Rightarrow> size_list size blocks)")
     (auto dest!: cache_nested_size)

fun ordered_breakpoints :: "bool \<Rightarrow> breakpoint list \<Rightarrow> validation_error option" where
  "ordered_breakpoints saw_five_minutes [] = None"
| "ordered_breakpoints saw_five_minutes (point # points) =
     (if bp_ttl point = OneHour \<and> saw_five_minutes
      then invalid (sub (bp_field point) ''ttl'') ''1h cache breakpoints must precede all 5m cache breakpoints''
      else ordered_breakpoints (saw_five_minutes \<or> bp_ttl point = FiveMinutes) points)"

definition bounded_breakpoints :: "breakpoint list \<Rightarrow> validation_error option" where
  "bounded_breakpoints points = first_error
     [refuse (MAX_CACHE_BREAKPOINTS < length points) ''cache_control''
        (''must define at most '' @ decimal MAX_CACHE_BREAKPOINTS @ '' cache breakpoints''),
      ordered_breakpoints False points]"

definition cache_finish :: "breakpoint_ttl option \<Rightarrow> cache_controls \<Rightarrow> validation_error option" where
  "cache_finish automatic cc = (case (automatic, kc_last_target cc) of
       (Some ttl, Some target) \<Rightarrow>
         if MAX_CACHE_BREAKPOINTS \<le> length (kc_breakpoints cc)
         then invalid ''cache_control'' (''must define at most '' @ decimal MAX_CACHE_BREAKPOINTS @ '' cache breakpoints including automatic caching'')
         else (case at_explicit_ttl target of
             Some explicit \<Rightarrow>
               if ttl \<noteq> explicit then invalid (sub (at_field target) ''ttl'') ''must match the top-level cache_control TTL''
               else bounded_breakpoints (kc_breakpoints cc)
           | None \<Rightarrow> bounded_breakpoints (take (at_position target) (kc_breakpoints cc)
               @ \<lparr>bp_ttl = ttl, bp_field = ''cache_control''\<rparr> # drop (at_position target) (kc_breakpoints cc)))
     | _ \<Rightarrow> bounded_breakpoints (kc_breakpoints cc))"

fun cache_tools :: "claude_tool list \<Rightarrow> nat \<Rightarrow> cache_controls \<Rightarrow> validation_error + cache_controls" where
  "cache_tools [] index cc = Inr cc"
| "cache_tools (tool # tools) index cc =
     (case cache_visit (ct_cache_control tool) (sub (sub_at ''tools'' index) ''cache_control'') (\<not> ct_defer_loading tool) cc of
        Inl e \<Rightarrow> Inl e | Inr cc' \<Rightarrow> cache_tools tools (Suc index) cc')"

fun cache_messages :: "claude_message list \<Rightarrow> nat \<Rightarrow> cache_controls \<Rightarrow> validation_error + cache_controls" where
  "cache_messages [] index cc = Inr cc"
| "cache_messages (message # messages) index cc =
     (case cache_content (cm_content message) (sub (sub_at ''messages'' index) ''content'') True cc of
        Inl e \<Rightarrow> Inl e
      | Inr cc1 \<Rightarrow> (case cache_visit (cm_cache_control message) (sub (sub_at ''messages'' index) ''cache_control'') False cc1 of
          Inl e \<Rightarrow> Inl e | Inr cc2 \<Rightarrow> cache_messages messages (Suc index) cc2))"

definition validate_claude_cache_controls :: "claude_request \<Rightarrow> validation_error option" where
  "validate_claude_cache_controls request =
     (case cache_control_ttl (cq_cache_control request) ''cache_control'' of Inl e \<Rightarrow> Some e | Inr automatic \<Rightarrow>
      case cache_tools (cq_tools request) 0 \<lparr>kc_breakpoints = [], kc_last_target = None\<rparr> of Inl e \<Rightarrow> Some e | Inr cc1 \<Rightarrow>
      case (case cq_system request of None \<Rightarrow> Inr cc1 | Some system \<Rightarrow> cache_content system ''system'' True cc1) of Inl e \<Rightarrow> Some e | Inr cc2 \<Rightarrow>
      case cache_messages (cq_messages request) 0 cc2 of Inl e \<Rightarrow> Some e | Inr cc3 \<Rightarrow> cache_finish automatic cc3)"

end
