(* ===== verification/Dispatch.thy ===== *)
theory Dispatch
  imports PoolSelection KiroClientCorrect TokensCorrect Meter ValidateContent
begin

text \<open>
  The request loop of \<open>crates/kproxyd/src/http/handlers/execution/dispatch.rs\<close>: an attempt takes an account from the pool,
  resolves the model for it, checks the key's scope and the context window, sends the payload and decides from the answer
  whether to stop or to go on with another account. What other tasks do to the pool while the request awaits something is
  an argument, as are the answers of the upstream, the clock and the configuration and model list read in an attempt.
  A request that is never woken from the queue does not return.
\<close>

section \<open>Helpers\<close>

definition log_model :: "string \<Rightarrow> string" where
  "log_model model = (if model = [] then [] else if validate_model model \<noteq> None then ''[invalid-model]''
     else concat (redact_kiro_keys (chars model)))"

definition retry_attempt_count :: "nat \<Rightarrow> nat \<Rightarrow> nat" where
  "retry_attempt_count max_retries account_count = max (min (min (max_retries + 1) (2 ^ 32 - 1)) account_count) 1"

definition push_model_path :: "string list \<Rightarrow> string \<Rightarrow> string list" where
  "push_model_path path model =
     (if model \<noteq> [] \<and> (path = [] \<or> last path \<noteq> model) then path @ [model] else path)"

definition build_model_path :: "string \<Rightarrow> string \<Rightarrow> string \<Rightarrow> string list" where
  "build_model_path original mapped kiro = push_model_path (push_model_path (push_model_path [] original) mapped) kiro"

record upstream_attempt_entry =
  ul_attempt :: nat
  ul_account_id :: string
  ul_account_name :: string
  ul_model :: string
  ul_available_models :: "string list"
  ul_endpoint :: string
  ul_status :: "nat option"
  ul_error :: string

definition upstream_attempt_log :: "nat \<Rightarrow> account \<Rightarrow> string \<Rightarrow> kiro_error \<Rightarrow> upstream_attempt_entry" where
  "upstream_attempt_log attempt_number account model e =
     \<lparr>ul_attempt = attempt_number, ul_account_id = ac_id account, ul_account_name = display_name account,
      ul_model = model, ul_available_models = [], ul_endpoint = ke_endpoint e, ul_status = ke_status e,
      ul_error = sanitize_error_message (ke_message e)\<rparr>"

record request_log_context =
  rl_provider_id :: string
  rl_account_id :: string
  rl_account_name :: string
  rl_endpoint :: string
  rl_mapped_model :: string
  rl_kiro_model :: string
  rl_model_path :: "string list"
  rl_model_mapping_rule :: "string option"
  rl_attempts :: "upstream_attempt_entry list"

datatype execute_error =
    PoolFailure pool_error
  | UpstreamFailure kiro_error
  | DispatchFailure kiro_error request_log_context
  | MeterFailure meter_error
  | ContextLimit string nat nat
  | ModelNotAllowed string string
  | CrossProviderRoute string string string

definition dispatch_error ::
  "kiro_error \<Rightarrow> string \<Rightarrow> string \<Rightarrow> string list \<Rightarrow> string option \<Rightarrow> upstream_attempt_entry list \<Rightarrow> execute_error" where
  "dispatch_error e mapped_model kiro_model model_path rule logs =
     (let (account_id, account_name) = (if logs = [] then ([], []) else (ul_account_id (last logs), ul_account_name (last logs)))
      in DispatchFailure e \<lparr>rl_provider_id = ''kiro'', rl_account_id = account_id, rl_account_name = account_name,
           rl_endpoint = ke_endpoint e, rl_mapped_model = mapped_model, rl_kiro_model = kiro_model,
           rl_model_path = model_path, rl_model_mapping_rule = rule, rl_attempts = logs\<rparr>)"

definition resolve_static_model :: "account \<Rightarrow> string \<Rightarrow> string option option" where
  "resolve_static_model account model =
     map_option (\<lambda>available. resolve_dynamic_model model (map mo_model_id available)) (static_models_for_account account)"

text \<open>\<open>model_family\<close> of \<open>execution.rs\<close>, and the order of version vectors.\<close>

fun family_parts :: "bool \<Rightarrow> string list \<Rightarrow> string list \<times> nat list" where
  "family_parts found [] = ([], [])"
| "family_parts found (part # parts) = (case parse_uint u32_max part of
       Some number \<Rightarrow> (let (family, version) = family_parts True parts in (family, number # version))
     | None \<Rightarrow> (let (family, version) = family_parts found parts in (if found then family else part # family, version)))"

definition fallback_family :: "string \<Rightarrow> (string \<times> nat list) option" where
  "fallback_family model =
     (let lower = map (\<lambda>c. if c = CHR ''.'' then CHR ''-'' else c) (to_ascii_lowercase model);
          (family, version) = family_parts False (filter (\<lambda>part. part \<noteq> []) (split_char (CHR ''-'') lower))
      in if family \<noteq> [] \<and> version \<noteq> [] then Some (join ''-'' family, version) else None)"

fun vec_cmp :: "nat list \<Rightarrow> nat list \<Rightarrow> ordering" where
  "vec_cmp [] [] = Equal"
| "vec_cmp [] (_ # _) = Less"
| "vec_cmp (_ # _) [] = Greater"
| "vec_cmp (x # xs) (y # ys) = then_cmp (cmp_nat x y) (vec_cmp xs ys)"

definition find_model_fallback :: "string \<Rightarrow> model_info list \<Rightarrow> string option" where
  "find_model_fallback model models = (case fallback_family model of
       None \<Rightarrow> None
     | Some (family, version) \<Rightarrow> map_option snd (max_by (\<lambda>l r. vec_cmp (fst l) (fst r))
         (List.map_filter (\<lambda>candidate. case fallback_family (mo_model_id candidate) of
             Some (f, v) \<Rightarrow> if f = family \<and> vec_cmp v version = Less then Some (v, mo_model_id candidate) else None
           | None \<Rightarrow> None) models)))"

definition configured_cross_provider_target :: "string list \<Rightarrow> string \<Rightarrow> string \<Rightarrow> (string \<times> string) option" where
  "configured_cross_provider_target provider_ids source_provider mapped_model =
     opt_filter (\<lambda>(target_provider, _). target_provider \<noteq> source_provider \<and> target_provider \<in> set provider_ids)
       (split_once (CHR ''/'') mapped_model)"

definition model_is_allowed :: "string list \<Rightarrow> string \<Rightarrow> string \<Rightarrow> bool" where
  "model_is_allowed allowed_models provider_id model \<longleftrightarrow> allowed_models = []
     \<or> list_ex (\<lambda>pattern. model_glob_matches pattern model \<or> model_glob_matches pattern (provider_id @ ''/'' @ model)) allowed_models"

section \<open>The model list and the context window\<close>

text \<open>The parts of the configuration that are read anew, with the discovered models.\<close>

record live_state =
  lv_models :: "model_info list"
  lv_thinking_mode :: "(string \<times> bool) list"
  lv_max_input_tokens :: u32
  lv_safe_input_ratio :: f64
  lv_compact_safe_input_ratio :: f64

definition resolved_model_info :: "live_state \<Rightarrow> string \<Rightarrow> model_info option" where
  "resolved_model_info lv model =
     Option.bind (resolve_dynamic_model model (map mo_model_id (lv_models lv)))
       (\<lambda>resolved. find (\<lambda>candidate. eq_ignore_ascii_case (mo_model_id candidate) resolved) (lv_models lv))"

definition model_token_limit :: "live_state \<Rightarrow> string \<Rightarrow> bool \<Rightarrow> u32 option" where
  "model_token_limit lv model input =
     Option.bind (Option.bind (resolved_model_info lv model) mo_token_limits)
       (\<lambda>limits. if input then tl_max_input_tokens limits else tl_max_output_tokens limits)"

definition context_maximum :: "live_state \<Rightarrow> bool \<Rightarrow> string \<Rightarrow> nat" where
  "context_maximum lv compacting model =
     (let ratio = (if compacting then lv_compact_safe_input_ratio lv else lv_safe_input_ratio lv);
          model_maximum = unwrap_or (model_token_limit lv model True) (lv_max_input_tokens lv)
      in f64_as_u64 (f_mul (Fin (of_nat (unat model_maximum))) ratio))"

definition check_context_limit :: "live_state \<Rightarrow> nat \<Rightarrow> bool \<Rightarrow> string \<Rightarrow> execute_error option" where
  "check_context_limit lv input_tokens compacting model =
     (let maximum = context_maximum lv compacting model
      in if maximum < input_tokens then Some (ContextLimit model input_tokens maximum) else None)"

definition truncate_context_if_requested ::
  "token_env \<Rightarrow> live_state \<Rightarrow> kiro_payload \<Rightarrow> nat \<Rightarrow> bool \<Rightarrow> string \<Rightarrow> (string + nat) \<times> kiro_payload" where
  "truncate_context_if_requested tokenizer lv payload input_tokens compacting model =
     (let maximum = context_maximum lv compacting model in
      if input_tokens \<le> maximum
         \<or> \<not> (case kp_model_request_intent payload of None \<Rightarrow> False | Some intent \<Rightarrow> mi_automatic_history_truncation intent)
      then (Inr input_tokens, payload)
      else case truncate_kiro_history tokenizer payload maximum of
          (Inl e, _) \<Rightarrow> (Inl e, payload)
        | (Inr tokens, candidate) \<Rightarrow> (Inr tokens, if tokens \<le> maximum then candidate else payload))"

abbreviation payload_model :: "kiro_payload \<Rightarrow> string" where
  "payload_model p \<equiv> um_model_id (cs_current_message (kp_conversation_state p))"

definition prepare_model_request :: "live_state \<Rightarrow> kiro_payload \<Rightarrow> kiro_payload" where
  "prepare_model_request lv payload =
     (let model = payload_model payload;
          requested_model = (case kp_model_request_intent payload of None \<Rightarrow> model | Some intent \<Rightarrow> mi_requested_model intent);
          enabled = (thinking_enabled_for_model model (lv_thinking_mode lv)
            \<and> thinking_enabled_for_model requested_model (lv_thinking_mode lv));
          schema = Option.bind (opt_filter (\<lambda>info. eq_ignore_ascii_case (mo_model_id info) model) (resolved_model_info lv model))
            mo_additional_schema
      in snd (apply_adaptive_thinking payload schema enabled))"

section \<open>State\<close>

record dispatch_config =
  dc_max_retries :: nat
  dc_model_mapping :: "model_mapping_rule list"
  dc_provider_ids :: "string list"
  dc_pool :: pool_config
  dc_enable_model_fallback :: bool

record dispatch_request =
  rq_account_ids :: "string list"
  rq_model :: string
  rq_requested_model :: string
  rq_key_id :: "string option"
  rq_allowed_models :: "string list"
  rq_service_id :: "string option"
  rq_default_model :: string
  rq_locked_mapping_rule :: "string option"
  rq_compact :: bool
  rq_preflight_only :: bool

text \<open>The variables of the loop, and in \<open>ds_sent\<close> every request that went to the upstream: its account and payload.\<close>

record dispatch_state =
  ds_actual_model :: string
  ds_mapped_model :: string
  ds_payload :: kiro_payload
  ds_mapping_rule :: "string option"
  ds_model_path :: "string list"
  ds_logs :: "upstream_attempt_entry list"
  ds_prepared_lease :: "nat option"
  ds_fallback_model :: "string option"
  ds_attempted :: "string set"
  ds_last_error :: "kiro_error option"
  ds_input_tokens :: nat
  ds_sent :: "(string \<times> kiro_payload) list"

text \<open>One turn of the queue: what happened before it, the jitter and the two clocks.\<close>

type_synonym queue_turn = "(pool \<Rightarrow> pool) \<times> (nat \<Rightarrow> f64) \<times> nat \<times> nat"

text \<open>
  The circumstances of an attempt. The three acquisitions have their clocks and turns. \<open>ae_meanwhile\<close> is what other tasks did at
  the awaits: 0 before an exhausted pool is examined, 1 before the account is looked up, 2 until the payload is sent, with
  the refresh of an expiring token, 3 until the answer, 4 during the refresh after an authentication failure, 5 until the answer to the repetition,
  6 before a fallback model is resolved, 7 until the fallback's answer.
\<close>

record attempt_env =
  ae_acquire :: "nat \<Rightarrow> (nat \<Rightarrow> f64) \<times> nat \<times> nat \<times> queue_turn list"
  ae_meanwhile :: "nat \<Rightarrow> pool \<Rightarrow> pool"
  ae_route :: "(nat \<Rightarrow> nat list \<Rightarrow> nat option) \<times> (int \<Rightarrow> (int \<times> int \<times> int) option) \<times> int"
  ae_live :: live_state
  ae_fallback_live :: live_state
  ae_now :: nat
  ae_now_ms :: nat
  ae_answer :: "kiro_error + kiro_response"
  ae_token_refreshed :: bool
  ae_retry_answer :: "kiro_error + kiro_response"
  ae_fallback_answer :: "kiro_error + kiro_response"

datatype dispatch_end =
    Generated nat kiro_response
  | Prepared nat
  | Refused execute_error
  | NotReturned
  | Crashed

text \<open>A step gives a value, ends the request, or leaves the loop.\<close>

datatype 'a step_result = Go 'a | Leave | End dispatch_end

section \<open>Taking an account\<close>

fun wait_loop :: "waiter \<Rightarrow> queue_turn list \<Rightarrow> pool \<Rightarrow> acquire_outcome \<times> pool" where
  "wait_loop w [] p = (Waiting w, p)"
| "wait_loop w ((meanwhile, jitter, now, now_ms) # turns) p =
     (case acquire_wake jitter now now_ms w (meanwhile p) of
        (Waiting w', p') \<Rightarrow> wait_loop w' turns p'
      | outcome \<Rightarrow> outcome)"

definition acquire_stage :: "attempt_env \<Rightarrow> nat \<Rightarrow> dispatch_request \<Rightarrow> string \<Rightarrow> dispatch_state \<Rightarrow> pool \<Rightarrow> acquire_outcome \<times> pool" where
  "acquire_stage env stage rq model st p =
     (let (jitter, now, now_ms, turns) = ae_acquire env stage in
      case acquire_scoped_excluding jitter now now_ms model (rq_account_ids rq) (ds_attempted st) p of
        (Waiting w, p') \<Rightarrow> wait_loop w turns p'
      | outcome \<Rightarrow> outcome)"

text \<open>The arms that follow each of the three acquisitions; \<open>next\<close> is what remains to be tried.\<close>

definition settle_stage ::
  "attempt_env \<Rightarrow> dispatch_request \<Rightarrow> string \<Rightarrow> dispatch_state \<Rightarrow> (pool \<Rightarrow> (nat \<times> dispatch_state) step_result \<times> pool) option \<Rightarrow>
     acquire_outcome \<times> pool \<Rightarrow> (nat \<times> dispatch_state) step_result \<times> pool" where
  "settle_stage env rq model st next_try outcome = (case outcome of
       (Acquired r, p) \<Rightarrow> (Go (r, st), p)
     | (Waiting _, p) \<Rightarrow> (End NotReturned, p)
     | (Panicked, p) \<Rightarrow> (End Crashed, p)
     | (Failed e, p0) \<Rightarrow> (case e of
           NoAvailableAccount _ \<Rightarrow>
             if ds_last_error st \<noteq> None then (Leave, p0)
             else (let p = ae_meanwhile env 0 p0 in
               case all_matching_credit_exhausted_in model (Some (set (rq_account_ids rq))) p of
                 None \<Rightarrow> (End Crashed, p)
               | Some True \<Rightarrow> (End (Refused (PoolFailure CreditsExhausted)), p)
               | Some False \<Rightarrow> (case next_try of
                     Some try_next \<Rightarrow> try_next p
                   | None \<Rightarrow> (End (Refused (PoolFailure e)), p)))
         | _ \<Rightarrow> (End (Refused (PoolFailure e)), p0)))"

definition choose_account ::
  "attempt_env \<Rightarrow> dispatch_request \<Rightarrow> dispatch_state \<Rightarrow> pool \<Rightarrow> (nat \<times> dispatch_state) step_result \<times> pool" where
  "choose_account env rq st p =
     (let default_model = rq_default_model rq;
          next_try = (if trim default_model \<noteq> [] \<and> ds_actual_model st \<noteq> default_model
            then (\<lambda>p. let st' = st\<lparr>ds_actual_model := default_model, ds_payload := set_payload_model default_model (ds_payload st)\<rparr>
                in settle_stage env rq default_model st' None (acquire_stage env 1 rq default_model st' p))
            else (\<lambda>p. settle_stage env rq [] st None (acquire_stage env 2 rq [] st p)))
      in settle_stage env rq (ds_actual_model st) st (Some next_try) (acquire_stage env 0 rq (ds_actual_model st) st p))"

section \<open>Resolving the model for the account\<close>

definition route_model :: "attempt_env \<Rightarrow> dispatch_config \<Rightarrow> dispatch_request \<Rightarrow> account \<Rightarrow> dispatch_state \<Rightarrow> dispatch_state" where
  "route_model env cfg rq account st = (case ds_fallback_model st of
       Some fallback \<Rightarrow> st\<lparr>ds_mapped_model := fallback\<rparr>
     | None \<Rightarrow> (case rq_locked_mapping_rule rq of
         Some rule \<Rightarrow> st\<lparr>ds_mapped_model := rq_model rq, ds_mapping_rule := Some rule\<rparr>
       | None \<Rightarrow>
           (let (sample, localtime, now) = ae_route env;
                route = map_model_for_provider sample localtime now (rq_requested_model rq) (dc_model_mapping cfg)
                  \<lparr>cx_provider_id = ''kiro'', cx_service_id = rq_service_id rq, cx_api_key_id = rq_key_id rq,
                   cx_remaining_percent = Option.bind (ac_usage account) (\<lambda>u. remaining_credit_percent u (dc_pool cfg))\<rparr> []
            in st\<lparr>ds_mapped_model := mr_mapped route, ds_mapping_rule := mr_rule route\<rparr>)))"

definition use_model :: "string list \<Rightarrow> string \<Rightarrow> dispatch_state \<Rightarrow> dispatch_state" where
  "use_model through model st = st\<lparr>ds_actual_model := model,
     ds_model_path := push_model_path (foldl push_model_path (ds_model_path st) through) model,
     ds_payload := set_payload_model model (ds_payload st)\<rparr>"

text \<open>The account's own models decide, then the default model, then the static catalog; \<^const>\<open>Inl\<close> is an account that
  cannot serve, with its models. An account that left the pool meanwhile is used as it is.\<close>

definition resolve_for_account ::
  "attempt_env \<Rightarrow> dispatch_config \<Rightarrow> dispatch_request \<Rightarrow> account \<Rightarrow> dispatch_state \<Rightarrow> pool \<Rightarrow>
     (string list \<times> dispatch_state + dispatch_state) step_result" where
  "resolve_for_account env cfg rq account st p = (case pool_get (ac_id account) p of
       None \<Rightarrow> Go (Inr st)
     | Some r \<Rightarrow>
         (let runtime = pl_states p ! r;
              st1 = route_model env cfg rq account st;
              mapped = ds_mapped_model st1
          in case configured_cross_provider_target (dc_provider_ids cfg) ''kiro'' mapped of
               Some (target_provider, target_model) \<Rightarrow> End (Refused (CrossProviderRoute ''kiro'' target_provider target_model))
             | None \<Rightarrow>
                 (let st2 = st1\<lparr>ds_model_path := build_model_path (rq_requested_model rq) mapped [], ds_actual_model := mapped\<rparr>
                  in case resolve_model mapped runtime of
                       Some resolved \<Rightarrow> Go (Inr (use_model [] resolved st2))
                     | None \<Rightarrow>
                         if has_model_cache runtime
                         then if trim (rq_default_model rq) \<noteq> []
                           then (case resolve_model (rq_default_model rq) runtime of
                               Some resolved \<Rightarrow> Go (Inr (use_model [rq_default_model rq] resolved st2))
                             | None \<Rightarrow> Go (Inl (supported_models runtime, st2)))
                           else Go (Inl (supported_models runtime, st2))
                         else (case resolve_static_model account mapped of
                             None \<Rightarrow> End Crashed
                           | Some (Some resolved) \<Rightarrow> Go (Inr (use_model [] resolved st2))
                           | Some None \<Rightarrow> Go (Inr (st2\<lparr>ds_payload := set_payload_model mapped (ds_payload st2)\<rparr>))))))"

definition incompatible_reason :: "dispatch_request \<Rightarrow> string \<Rightarrow> string" where
  "incompatible_reason rq model =
     (if trim (rq_default_model rq) = []
      then ''model '' @ [CHR 0x27] @ log_model model @ [CHR 0x27]
        @ '' is not present in this account'' @ [CHR 0x27] @ ''s model cache and no default model is configured''
      else ''model '' @ [CHR 0x27] @ log_model model @ [CHR 0x27] @ '' and default model '' @ [CHR 0x27] @ log_model (rq_default_model rq)
        @ [CHR 0x27] @ '' are not present in this account'' @ [CHR 0x27] @ ''s model cache'')"

definition note_incompatible :: "dispatch_request \<Rightarrow> nat \<Rightarrow> account \<Rightarrow> string list \<Rightarrow> dispatch_state \<Rightarrow> dispatch_state" where
  "note_incompatible rq i account available_models st =
     st\<lparr>ds_logs := ds_logs st @ [\<lparr>ul_attempt = i + 1, ul_account_id = ac_id account, ul_account_name = display_name account,
          ul_model = log_model (ds_actual_model st), ul_available_models = available_models,
          ul_endpoint = ''model-resolution'', ul_status = None, ul_error = incompatible_reason rq (ds_actual_model st)\<rparr>],
        ds_attempted := insert (ac_id account) (ds_attempted st)\<rparr>"

section \<open>Answers\<close>

abbreviation lease_account :: "nat \<Rightarrow> pool \<Rightarrow> account" where
  "lease_account r p \<equiv> as_account (pl_states p ! r)"

definition log_error :: "nat \<Rightarrow> account \<Rightarrow> kiro_error \<Rightarrow> dispatch_state \<Rightarrow> dispatch_state" where
  "log_error i account e st = st\<lparr>ds_logs := ds_logs st @ [upstream_attempt_log (i + 1) account (ds_actual_model st) e]\<rparr>"

definition give_up :: "kiro_error \<Rightarrow> dispatch_state \<Rightarrow> execute_error" where
  "give_up e st = dispatch_error e (ds_mapped_model st) (ds_actual_model st) (ds_model_path st) (ds_mapping_rule st) (ds_logs st)"

text \<open>\<open>AppState::generate\<close> prepares a copy of the payload and sends it.\<close>

definition send :: "live_state \<Rightarrow> account \<Rightarrow> dispatch_state \<Rightarrow> dispatch_state" where
  "send lv account st = st\<lparr>ds_sent := ds_sent st @ [(ac_id account, prepare_model_request lv (ds_payload st))]\<rparr>"

definition end_with :: "nat \<Rightarrow> nat \<Rightarrow> execute_error \<Rightarrow> dispatch_state \<Rightarrow> pool \<Rightarrow> (bool \<times> dispatch_state) step_result \<times> dispatch_state \<times> pool" where
  "end_with now_ms r e st p = (End (Refused e), st, drop_lease now_ms r p)"

text \<open>After an authentication failure: the refresh, the repetition with the new token, and the ban.\<close>

definition recover_auth ::
  "attempt_env \<Rightarrow> nat \<Rightarrow> nat \<Rightarrow> account \<Rightarrow> kiro_error \<Rightarrow> dispatch_state \<Rightarrow> pool \<Rightarrow>
     (bool \<times> dispatch_state) step_result \<times> dispatch_state \<times> pool" where
  "recover_auth env i r account e st p0 =
     (let p = ae_meanwhile env 4 p0 in
      if \<not> ae_token_refreshed env
      then (Go (True, st\<lparr>ds_last_error := Some e\<rparr>), st, mark_banned (ac_id account) p)
      else
        (let refreshed = lease_account r p;
             st1 = send (ae_live env) refreshed (st\<lparr>ds_payload := (ds_payload st)\<lparr>kp_profile_arn := ac_profile_arn refreshed\<rparr>\<rparr>);
             p1 = ae_meanwhile env 5 p
         in case ae_retry_answer env of
              Inr response \<Rightarrow> (End (Generated r response), st1, record_success (ac_id refreshed) p1)
            | Inl retry_error \<Rightarrow>
                (let st2 = (log_error i refreshed retry_error st1)\<lparr>ds_last_error := Some retry_error\<rparr>
                 in (Go (True, st2), st2, if is_auth retry_error then mark_banned (ac_id account) p1
                     else record_error (ae_now env) (ac_id account) p1))))"

text \<open>After a capacity error: a model of the same family, if the account, the key and the window allow it. \<^const>\<open>False\<close> goes on
  without noting the account.\<close>

definition try_fallback ::
  "token_env \<Rightarrow> attempt_env \<Rightarrow> dispatch_request \<Rightarrow> nat \<Rightarrow> nat \<Rightarrow> account \<Rightarrow> string \<Rightarrow> dispatch_state \<Rightarrow> pool \<Rightarrow>
     (bool \<times> dispatch_state) step_result \<times> dispatch_state \<times> pool" where
  "try_fallback tokenizer env rq i r account fallback st p =
     (let lv = ae_fallback_live env;
          resolved = (case pool_get (ac_id account) p of
              None \<Rightarrow> Some fallback
            | Some k \<Rightarrow> (case resolve_model fallback (pl_states p ! k) of
                  Some m \<Rightarrow> Some m
                | None \<Rightarrow> if has_model_cache (pl_states p ! k) then None else Some fallback))
      in case resolved of
           None \<Rightarrow> (Go (True, st), st, p)
         | Some model \<Rightarrow>
             if \<not> model_is_allowed (rq_allowed_models rq) ''kiro'' model then (Go (False, st), st, p)
             else case truncate_context_if_requested tokenizer lv (ds_payload st) (ds_input_tokens st) (rq_compact rq) model of
                 (Inl e, payload) \<Rightarrow> end_with (ae_now_ms env) r
                   (UpstreamFailure \<lparr>ke_status = None, ke_endpoint = ''context-preparation'', ke_message = e\<rparr>) (st\<lparr>ds_payload := payload\<rparr>) p
               | (Inr tokens, payload) \<Rightarrow>
                   (let st1 = st\<lparr>ds_payload := payload\<rparr> in
                    if check_context_limit lv tokens (rq_compact rq) model \<noteq> None then (Go (True, st1), st1, p)
                    else
                      (let st2 = st1\<lparr>ds_input_tokens := tokens, ds_fallback_model := Some fallback, ds_mapped_model := fallback\<rparr>;
                           st3 = use_model [fallback] model st2;
                           st4 = send lv account (st3\<lparr>ds_payload := prepare_model_request lv (ds_payload st3)\<rparr>);
                           p1 = ae_meanwhile env 7 p
                       in case ae_fallback_answer env of
                            Inr response \<Rightarrow> (End (Generated r response), st4, record_success (ac_id account) p1)
                          | Inl e \<Rightarrow>
                              (let st5 = log_error i account e st4 in
                               if is_request_rejection e then end_with (ae_now_ms env) r (give_up e st5) st5 p1
                               else (Go (True, st5\<lparr>ds_last_error := Some e\<rparr>), st5, p1)))))"

definition capacity_error ::
  "token_env \<Rightarrow> attempt_env \<Rightarrow> dispatch_config \<Rightarrow> dispatch_request \<Rightarrow> nat \<Rightarrow> nat \<Rightarrow> account \<Rightarrow> kiro_error \<Rightarrow> dispatch_state \<Rightarrow> pool \<Rightarrow>
     (bool \<times> dispatch_state) step_result \<times> dispatch_state \<times> pool" where
  "capacity_error tokenizer env cfg rq i r account e st p0 =
     (let p1 = (if \<not> is_model_temporarily_unavailable e then record_error (ae_now env) (ac_id account) p0 else p0);
          st1 = st\<lparr>ds_last_error := Some e\<rparr>
      in if dc_enable_model_fallback cfg \<and> ds_fallback_model st1 = None
         then case find_model_fallback (ds_actual_model st1) (lv_models (ae_fallback_live env)) of
             Some fallback \<Rightarrow> try_fallback tokenizer env rq i r account fallback st1 (ae_meanwhile env 6 p1)
           | None \<Rightarrow> (Go (True, st1), st1, p1)
         else (Go (True, st1), st1, p1))"

definition handle_error ::
  "token_env \<Rightarrow> attempt_env \<Rightarrow> dispatch_config \<Rightarrow> dispatch_request \<Rightarrow> nat \<Rightarrow> nat \<Rightarrow> account \<Rightarrow> kiro_error \<Rightarrow> dispatch_state \<Rightarrow> pool \<Rightarrow>
     (bool \<times> dispatch_state) step_result \<times> dispatch_state \<times> pool" where
  "handle_error tokenizer env cfg rq i r account e st0 p =
     (let st = log_error i account e st0 in
      if is_auth e then recover_auth env i r account e st p
      else if is_quota e \<and> \<not> is_throttle e
      then (let p1 = record_quota_error (ae_now env) (ac_id account) p in
            if pc_auto_switch_on_quota_exhausted (dc_pool cfg) then (Go (True, st\<lparr>ds_last_error := Some e\<rparr>), st, p1)
            else end_with (ae_now_ms env) r (give_up e st) st p1)
      else if is_model_capacity_error e then capacity_error tokenizer env cfg rq i r account e st p
      else if is_request_rejection e then end_with (ae_now_ms env) r (give_up e st) st p
      else if is_retriable e
      then (Go (True, st\<lparr>ds_last_error := Some e\<rparr>), st, record_error (ae_now env) (ac_id account) p)
      else end_with (ae_now_ms env) r (give_up e st) st p)"

section \<open>Attempts\<close>

text \<open>From the lease to the next attempt.\<close>

definition use_lease ::
  "token_env \<Rightarrow> attempt_env \<Rightarrow> dispatch_config \<Rightarrow> dispatch_request \<Rightarrow> nat \<Rightarrow> nat \<Rightarrow> dispatch_state \<Rightarrow> pool \<Rightarrow>
     (bool \<times> dispatch_state) step_result \<times> dispatch_state \<times> pool" where
  "use_lease tokenizer env cfg rq i r st p =
     (let lv = ae_live env; model = ds_actual_model st in
      if \<not> model_is_allowed (rq_allowed_models rq) ''kiro'' model then end_with (ae_now_ms env) r (ModelNotAllowed ''kiro'' model) st p
      else
        (let account0 = lease_account r p;
             st1 = st\<lparr>ds_payload := prepare_model_request lv (ds_payload st)\<rparr>
         in if rq_preflight_only rq then (End (Prepared r), st1, p)
            else case truncate_context_if_requested tokenizer lv (ds_payload st1) (ds_input_tokens st1) (rq_compact rq) model of
                (Inl e, payload) \<Rightarrow> end_with (ae_now_ms env) r
                  (UpstreamFailure \<lparr>ke_status = None, ke_endpoint = ''context-preparation'', ke_message = e\<rparr>) (st1\<lparr>ds_payload := payload\<rparr>) p
              | (Inr tokens, payload) \<Rightarrow>
                  (let st2 = st1\<lparr>ds_payload := payload, ds_input_tokens := tokens\<rparr> in
                   case check_context_limit lv tokens (rq_compact rq) model of
                     Some limit \<Rightarrow> end_with (ae_now_ms env) r limit st2 p
                   | None \<Rightarrow>
                       (let st3 = st2\<lparr>ds_payload := (ds_payload st2)\<lparr>kp_profile_arn := ac_profile_arn account0\<rparr>\<rparr>;
                            p1 = ae_meanwhile env 2 p;
                            account = lease_account r p1;
                            st4 = send lv account st3;
                            p2 = ae_meanwhile env 3 p1
                        in case ae_answer env of
                             Inr response \<Rightarrow> (End (Generated r response), st4, record_success (ac_id account) p2)
                           | Inl e \<Rightarrow> handle_error tokenizer env cfg rq i r account e st4 p2))))"

text \<open>After an answer that goes on: the account is noted, unless the fallback model was outside the key's scope, and given back.\<close>

definition finish_attempt ::
  "attempt_env \<Rightarrow> string \<Rightarrow> nat \<Rightarrow> (bool \<times> dispatch_state) step_result \<times> dispatch_state \<times> pool \<Rightarrow>
     dispatch_state step_result \<times> dispatch_state \<times> pool" where
  "finish_attempt env account_id r res = (case res of
       (Go (noted, st), _, p) \<Rightarrow>
         (let st' = (if noted then st\<lparr>ds_attempted := insert account_id (ds_attempted st)\<rparr> else st)
          in (Go st', st', drop_lease (ae_now_ms env) r p))
     | (Leave, st, p) \<Rightarrow> (Leave, st, p)
     | (End e, st, p) \<Rightarrow> (End e, st, p))"

definition dispatch_attempt ::
  "token_env \<Rightarrow> attempt_env \<Rightarrow> dispatch_config \<Rightarrow> dispatch_request \<Rightarrow> nat \<Rightarrow> dispatch_state \<Rightarrow> pool \<Rightarrow>
     dispatch_state step_result \<times> dispatch_state \<times> pool" where
  "dispatch_attempt tokenizer env cfg rq i st p = (case ds_prepared_lease st of
       Some r \<Rightarrow> finish_attempt env (ac_id (lease_account r p)) r
         (use_lease tokenizer env cfg rq i r (st\<lparr>ds_prepared_lease := None\<rparr>) p)
     | None \<Rightarrow> (case choose_account env rq st p of
           (Leave, p1) \<Rightarrow> (Leave, st, p1)
         | (End e, p1) \<Rightarrow> (End e, st, p1)
         | (Go (r, st1), p1) \<Rightarrow>
             (let account = lease_account r p1; p2 = ae_meanwhile env 1 p1 in
              case resolve_for_account env cfg rq account st1 p2 of
                Leave \<Rightarrow> (Leave, st1, p2)
              | End e \<Rightarrow> (End e, st1, drop_lease (ae_now_ms env) r p2)
              | Go (Inl (available_models, st2)) \<Rightarrow>
                  (let st3 = note_incompatible rq i account available_models st2
                   in (Go st3, st3, drop_lease (ae_now_ms env) r p2))
              | Go (Inr st2) \<Rightarrow> finish_attempt env (ac_id account) r (use_lease tokenizer env cfg rq i r st2 p2))))"

definition exhausted :: "dispatch_state \<Rightarrow> execute_error" where
  "exhausted st =
     (let model_resolution_failed = (ds_last_error st = None \<and> ds_logs st \<noteq> []
            \<and> list_all (\<lambda>l. ul_endpoint l = ''model-resolution'') (ds_logs st));
          e = unwrap_or (ds_last_error st) \<lparr>ke_status = None,
            ke_endpoint = (if model_resolution_failed then ''model-resolution'' else ''none''),
            ke_message = (if model_resolution_failed
              then ''no selected account can serve resolved model '' @ [CHR 0x27] @ log_model (ds_actual_model st) @ [CHR 0x27] @ '' (''
                @ decimal (length (remdups (concat (map ul_available_models (ds_logs st)))))
                @ '' distinct models are available); inspect routing with '' @ [CHR 0x27] @ ''kproxy models resolve <model-id>'' @ [CHR 0x27]
              else ''all upstream attempts failed'')\<rparr>
      in give_up e st)"

fun dispatch_loop ::
  "token_env \<Rightarrow> (nat \<Rightarrow> attempt_env) \<Rightarrow> dispatch_config \<Rightarrow> dispatch_request \<Rightarrow> nat list \<Rightarrow> dispatch_state \<Rightarrow> pool \<Rightarrow>
     dispatch_end \<times> dispatch_state \<times> pool" where
  "dispatch_loop tokenizer env cfg rq [] st p = (Refused (exhausted st), st, p)"
| "dispatch_loop tokenizer env cfg rq (i # is) st p = (case dispatch_attempt tokenizer (env i) cfg rq i st p of
       (Go st', _, p') \<Rightarrow> dispatch_loop tokenizer env cfg rq is st' p'
     | (Leave, st', p') \<Rightarrow> (Refused (exhausted st'), st', p')
     | (End e, st', p') \<Rightarrow> (e, st', p'))"

text \<open>The variables at the start, without or with the result of a preflight.\<close>

definition dispatch_start :: "(nat \<Rightarrow> nat list \<Rightarrow> nat option) \<times> (int \<Rightarrow> (int \<times> int \<times> int) option) \<times> int \<Rightarrow>
  dispatch_config \<Rightarrow> dispatch_request \<Rightarrow> nat \<Rightarrow> kiro_payload \<Rightarrow> dispatch_state" where
  "dispatch_start route cfg rq input_tokens payload =
     (let (sample, localtime, now) = route in
      \<lparr>ds_actual_model = rq_model rq, ds_mapped_model = rq_model rq, ds_payload = payload,
       ds_mapping_rule = (case rq_locked_mapping_rule rq of Some rule \<Rightarrow> Some rule
         | None \<Rightarrow> mr_rule (map_model_for_provider sample localtime now (rq_requested_model rq) (dc_model_mapping cfg)
             \<lparr>cx_provider_id = ''kiro'', cx_service_id = rq_service_id rq, cx_api_key_id = rq_key_id rq,
              cx_remaining_percent = None\<rparr> [])),
       ds_model_path = build_model_path (rq_requested_model rq) (rq_model rq) [], ds_logs = [], ds_prepared_lease = None,
       ds_fallback_model = None, ds_attempted = {}, ds_last_error = None, ds_input_tokens = input_tokens, ds_sent = []\<rparr>)"

definition dispatch_resume :: "nat \<Rightarrow> nat \<Rightarrow> dispatch_state \<Rightarrow> dispatch_state" where
  "dispatch_resume r input_tokens prepared = prepared\<lparr>ds_prepared_lease := Some r, ds_fallback_model := None,
     ds_attempted := set (map ul_account_id (ds_logs prepared)), ds_last_error := None, ds_input_tokens := input_tokens, ds_sent := []\<rparr>"

definition dispatch_upstream ::
  "token_env \<Rightarrow> (nat \<Rightarrow> attempt_env) \<Rightarrow> dispatch_config \<Rightarrow> dispatch_request \<Rightarrow> dispatch_state \<Rightarrow> pool \<Rightarrow>
     dispatch_end \<times> dispatch_state \<times> pool" where
  "dispatch_upstream tokenizer env cfg rq st p =
     (let attempts = retry_attempt_count (dc_max_retries cfg) (length (rq_account_ids rq))
      in dispatch_loop tokenizer env cfg rq [length (ds_logs st)..<attempts] st p)"

text \<open>The two entries: a preflight that stops once an account and a model are settled, and the request itself, which may
  continue from a preflight. The arms marked unreachable panic.\<close>

definition prepare_upstream ::
  "token_env \<Rightarrow> (nat \<Rightarrow> nat list \<Rightarrow> nat option) \<times> (int \<Rightarrow> (int \<times> int \<times> int) option) \<times> int \<Rightarrow> (nat \<Rightarrow> attempt_env) \<Rightarrow>
     dispatch_config \<Rightarrow> dispatch_request \<Rightarrow> kiro_payload \<Rightarrow> pool \<Rightarrow> dispatch_end \<times> dispatch_state \<times> pool" where
  "prepare_upstream tokenizer route env cfg rq payload p =
     (let rq' = rq\<lparr>rq_compact := False, rq_preflight_only := True\<rparr> in
      case dispatch_upstream tokenizer env cfg rq' (dispatch_start route cfg rq' 0 payload) p of
        (Generated _ _, st, p') \<Rightarrow> (Crashed, st, p')
      | outcome \<Rightarrow> outcome)"

definition execute_upstream ::
  "token_env \<Rightarrow> (nat \<Rightarrow> nat list \<Rightarrow> nat option) \<times> (int \<Rightarrow> (int \<times> int \<times> int) option) \<times> int \<Rightarrow> (nat \<Rightarrow> attempt_env) \<Rightarrow>
     dispatch_config \<Rightarrow> dispatch_request \<Rightarrow> nat \<Rightarrow> kiro_payload \<Rightarrow> (nat \<times> dispatch_state) option \<Rightarrow> pool \<Rightarrow>
     dispatch_end \<times> dispatch_state \<times> pool" where
  "execute_upstream tokenizer route env cfg rq input_tokens payload prepared p =
     (let rq' = rq\<lparr>rq_preflight_only := False\<rparr>;
          st0 = (case prepared of None \<Rightarrow> dispatch_start route cfg rq' input_tokens payload
            | Some (r, st) \<Rightarrow> dispatch_resume r input_tokens st)
      in case dispatch_upstream tokenizer env cfg rq' st0 p of
           (Prepared _, st, p') \<Rightarrow> (Crashed, st, p')
         | outcome \<Rightarrow> outcome)"

end
