(* ===== verification/DispatchCorrect.thy ===== *)
theory DispatchCorrect
  imports Dispatch
begin

text \<open>
  The request loop: whatever the upstream answers and whatever operations of the pool the other tasks perform, a request is sent only
  with accounts of its scope and a bounded number of times; its models are in the key's scope as long as no reload removes an account
  between its lease and the lookup of its models.
\<close>

section \<open>The pool keeps its accounts\<close>

abbreviation good :: "pool \<Rightarrow> bool" where
  "good p \<equiv> map_ok (pl_accounts p) (pl_states p)"

abbreviation state_id :: "pool \<Rightarrow> nat \<Rightarrow> string" where
  "state_id p r \<equiv> ac_id (as_account (pl_states p ! r))"

text \<open>Every operation keeps the identity of the account behind a lease; none but a reload removes an account.\<close>

definition steady :: "pool \<Rightarrow> pool \<Rightarrow> bool" where
  "steady p q \<longleftrightarrow> good q \<and> length (pl_states p) \<le> length (pl_states q) \<and>
     (\<forall>r < length (pl_states p). state_id q r = state_id p r)"

definition lasting :: "pool \<Rightarrow> pool \<Rightarrow> bool" where
  "lasting p q \<longleftrightarrow> steady p q \<and> (\<forall>i. pool_get i p \<noteq> None \<longrightarrow> pool_get i q \<noteq> None)"

lemma steady_refl: "good p \<Longrightarrow> steady p p"
  by (simp add: steady_def)

lemma steady_trans: "steady p q \<Longrightarrow> steady q t \<Longrightarrow> steady p t"
  unfolding steady_def by (metis (no_types, lifting) le_trans less_le_trans)

lemma steady_good: "steady p q \<Longrightarrow> good q"
  by (simp add: steady_def)

lemma lasting_steady: "lasting p q \<Longrightarrow> steady p q"
  by (simp add: lasting_def)

lemma lasting_refl: "good p \<Longrightarrow> lasting p p"
  by (simp add: lasting_def steady_refl)

lemma lasting_trans: "lasting p q \<Longrightarrow> lasting q t \<Longrightarrow> lasting p t"
  unfolding lasting_def using steady_trans by blast

lemma lasting_good: "lasting p q \<Longrightarrow> good q"
  by (simp add: lasting_def steady_def)

lemma lasting_same_map:
  assumes "good p" "pl_accounts q = pl_accounts p" "length (pl_states q) = length (pl_states p)"
    and "\<And>r. r < length (pl_states p) \<Longrightarrow> state_id q r = state_id p r"
  shows "lasting p q"
  using assms by (fastforce simp: lasting_def steady_def map_ok_def pool_get_def)

lemma lasting_update:
  assumes "good p" "ac_id (as_account (f (pl_states p ! r))) = state_id p r"
  shows "lasting p (update_state r f p)"
  by (rule lasting_same_map [OF assms(1)]) (use assms(2) in \<open>simp_all add: update_state_nth\<close>)

lemma lasting_with_account: "good p \<Longrightarrow> quiet f \<Longrightarrow> lasting p (with_account i f p)"
  by (auto simp: with_account_def quiet_def lasting_refl intro!: lasting_update split: option.split)

lemma lasting_records:
  "good p \<Longrightarrow> lasting p (record_success i p)" "good p \<Longrightarrow> lasting p (record_error now i p)"
  "good p \<Longrightarrow> lasting p (record_quota_error now i p)" "good p \<Longrightarrow> lasting p (mark_banned i p)"
  by (simp_all add: record_success_def record_error_def record_quota_error_def mark_banned_def lasting_with_account quiet_ops)

lemma steady_records:
  "good p \<Longrightarrow> steady p (record_success i p)" "good p \<Longrightarrow> steady p (record_error now i p)"
  "good p \<Longrightarrow> steady p (record_quota_error now i p)" "good p \<Longrightarrow> steady p (mark_banned i p)"
  by (simp_all add: lasting_records lasting_steady)

lemma lasting_drop: "good p \<Longrightarrow> lasting p (drop_lease now_ms r p)"
  by (rule lasting_same_map) (auto simp: drop_lease_def update_state_nth mark_used_now_def release_slot_def Let_def split: if_splits)

lemma steady_drop: "good p \<Longrightarrow> steady p (drop_lease now_ms r p)"
  by (rule lasting_steady [OF lasting_drop])

lemma lasting_woken:
  assumes "good p" "woken now p q"
  shows "lasting p q"
proof (rule lasting_same_map [OF assms(1)])
  have "as_account (wake now s) = as_account s" for s by (simp add: wake_def set_health_def)
  then show "state_id q r = state_id p r" if "r < length (pl_states p)" for r
    using assms(2) that unfolding woken_def by metis
qed (use assms(2) in \<open>simp_all add: woken_def\<close>)

section \<open>Acquiring\<close>

lemma scan_in:
  "scan_candidates j now now_ms model ids rs out p = (Some out', p') \<Longrightarrow> x \<in> set out' \<Longrightarrow>
     x \<in> set out \<or> snd x \<in> set rs \<and> (ids = [] \<or> state_id p (snd x) \<in> set ids)"
proof (induction rs arbitrary: out p)
  case (Cons r rs)
  obtain b where b: "eligible now (pl_config p) model (pl_states p ! r) = (b, wake now (pl_states p ! r))"
    by (rule eligible_cases)
  have same: "state_id (update_state r (\<lambda>_. wake now (pl_states p ! r)) p) k = state_id p k" for k
    by (cases "r < length (pl_states p)"; cases "k = r")
       (auto simp: update_state_def wake_def set_health_def list_update_beyond)
  show ?case
  proof (cases "ids \<noteq> [] \<and> state_id p r \<notin> set ids")
    case True
    then show ?thesis using Cons by auto
  next
    case False
    then obtain ok out1 where "scan_candidates j now now_ms model ids rs out1 (update_state r (\<lambda>_. wake now (pl_states p ! r)) p) = (Some out', p')"
        "set out1 \<subseteq> set out \<union> {x. snd x = r}"
      using Cons.prems(1) b by (cases b) (auto simp: Let_def split: if_splits)
    from Cons.IH [OF this(1) Cons.prems(2)] this(2) False same show ?thesis by auto
  qed
qed simp

lemma take_first_slot_in: "take_first_slot now_ms m rs p = (Some r, p') \<Longrightarrow> r \<in> set rs"
  by (induction rs arbitrary: p) (auto split: option.splits)

lemma lasting_take: "good p \<Longrightarrow> take_first_slot now_ms m rs p = (res, p') \<Longrightarrow> lasting p p'"
proof (induction rs arbitrary: p)
  case (Cons r rs)
  show ?case
  proof (cases "try_acquire_slot m (pl_states p ! r)")
    case (Some s)
    then have "p' = (update_state r (\<lambda>_. mark_used_now now_ms s) p)\<lparr>pl_leases := r # pl_leases p\<rparr>" using Cons.prems by simp
    moreover have "ac_id (as_account (mark_used_now now_ms s)) = state_id p r"
      using Some by (auto simp: try_acquire_slot_def mark_used_now_def Let_def split: if_splits)
    ultimately show ?thesis
      by (intro lasting_same_map [OF Cons.prems(1)]) (simp_all add: update_state_nth)
  qed (use Cons in simp)
qed (simp add: lasting_refl)

text \<open>A lease is of one of the accounts asked for; at the moment it is taken, its account is in the pool.\<close>

definition leased :: "string list \<Rightarrow> pool \<Rightarrow> nat \<Rightarrow> bool" where
  "leased ids p r \<longleftrightarrow> r < length (pl_states p) \<and> state_id p r \<in> set ids"

definition taken :: "string list \<Rightarrow> pool \<Rightarrow> nat \<Rightarrow> bool" where
  "taken ids p r \<longleftrightarrow> leased ids p r \<and> pool_get (state_id p r) p \<noteq> None"

lemma leased_steady: "leased ids p r \<Longrightarrow> steady p q \<Longrightarrow> leased ids q r"
  by (auto simp: leased_def steady_def)

lemma taken_lasting: "taken ids p r \<Longrightarrow> lasting p q \<Longrightarrow> taken ids q r"
  by (auto simp: taken_def leased_def lasting_def steady_def)

lemma try_acquire_taken:
  assumes "good p" "try_acquire j now now_ms model ids p = (res, p')"
  shows "lasting p p' \<and> (\<forall>r. res = Some (Some r) \<and> ids \<noteq> [] \<longrightarrow> taken ids p' r)"
proof -
  obtain cs q where c: "candidates j now now_ms model ids p = (cs, q)" by (cases "candidates j now now_ms model ids p")
  have w: "lasting p q" by (rule lasting_woken [OF assms(1) candidates_woken [OF c]])
  show ?thesis
  proof (cases cs)
    case None
    then show ?thesis using c w assms(2) by (auto simp: try_acquire_def)
  next
    case (Some l)
    let ?rs = "map snd (sort_by (\<lambda>l r. score_cmp (fst l) (fst r)) l)"
    obtain lease t where t: "take_first_slot now_ms (pc_max_concurrent_per_account (pl_config q)) ?rs q = (lease, t)"
      by (cases "take_first_slot now_ms (pc_max_concurrent_per_account (pl_config q)) ?rs q")
    have res: "res = Some lease" "p' = t" using assms(2) c Some t by (simp_all add: try_acquire_def Let_def)
    have st: "lasting p t" using lasting_trans [OF w lasting_take [OF lasting_good [OF w] t]] .
    have "taken ids t r" if "lease = Some r" "ids \<noteq> []" for r
    proof -
      have "r \<in> snd ` set l" using take_first_slot_in t that(1) by (fastforce simp: set_sort_by)
      then obtain x where x: "x \<in> set l" "snd x = r" by auto
      from scan_in [OF c [unfolded candidates_def Some] x(1)] x(2) that(2)
      have r: "r \<in> snd ` set (pl_accounts p)" "state_id p r \<in> set ids" by auto
      then have "r < length (pl_states p)" "pool_get (state_id p r) p \<noteq> None"
        using assms(1) by (fastforce simp: map_ok_def pool_get_def hm_wf_def)+
      then show ?thesis using taken_lasting [OF _ st] r(2) by (simp add: taken_def leased_def)
    qed
    then show ?thesis using st res by simp
  qed
qed

lemma acquire_taken:
  assumes "good p" "acquire j now now_ms model ids p = (out, p')"
  shows "lasting p p' \<and> (\<forall>r. out = Acquired r \<and> ids \<noteq> [] \<longrightarrow> taken ids p' r) \<and> (\<forall>w. out = Waiting w \<longrightarrow> wt_prefer_ids w = ids)"
proof -
  obtain cs q where c: "candidates j now now_ms model ids p = (cs, q)" by (cases "candidates j now now_ms model ids p")
  have w: "lasting p q" by (rule lasting_woken [OF assms(1) candidates_woken [OF c]])
  obtain res t where t: "try_acquire j now now_ms model ids q = (res, t)" by (cases "try_acquire j now now_ms model ids q")
  note a = try_acquire_taken [OF lasting_good [OF w] t]
  have "lasting p t" using lasting_trans [OF w] a by blast
  moreover have "lasting p (t\<lparr>pl_queued := x, pl_waiters := y\<rparr>)" for x y using calculation by (simp add: lasting_def steady_def pool_get_def)
  ultimately show ?thesis using assms(2) c t a w
    by (auto simp: acquire_def enter_queue_def Let_def split: option.splits list.splits if_splits)
qed

lemma acquire_wake_taken:
  assumes "good p" "acquire_wake j now now_ms w p = (out, p')"
  shows "lasting p p' \<and> (\<forall>r. out = Acquired r \<and> wt_prefer_ids w \<noteq> [] \<longrightarrow> taken (wt_prefer_ids w) p' r) \<and> (\<forall>w'. out = Waiting w' \<longrightarrow> w' = w)"
proof -
  obtain res t where t: "try_acquire j now now_ms (wt_model w) (wt_prefer_ids w) p = (res, t)"
    by (cases "try_acquire j now now_ms (wt_model w) (wt_prefer_ids w) p")
  note a = try_acquire_taken [OF assms(1) t]
  have leave: "lasting p q \<Longrightarrow> lasting p (leave_queue w q)" "taken ids q r \<Longrightarrow> taken ids (leave_queue w q) r" for q ids r
    by (simp_all add: lasting_def steady_def pool_get_def leave_queue_def taken_def leased_def)
  show ?thesis using assms(2) t a leave lasting_refl [OF assms(1)]
    by (auto simp: acquire_wake_def split: option.splits if_splits)
qed

text \<open>What is assumed of the other tasks: they work through the operations of the pool, a reload of the accounts included.\<close>

definition calm :: "attempt_env \<Rightarrow> bool" where
  "calm env \<longleftrightarrow> (\<forall>k p. good p \<longrightarrow> steady p (ae_meanwhile env k p)) \<and>
     (\<forall>stage. \<forall>turn \<in> set (snd (snd (snd (ae_acquire env stage)))). \<forall>p. good p \<longrightarrow> steady p (fst turn p))"

text \<open>An attempt in which no reload takes the account away between its lease and the lookup of its models.\<close>

definition undisplaced :: "attempt_env \<Rightarrow> bool" where
  "undisplaced env \<longleftrightarrow> (\<forall>p i. good p \<and> pool_get i p \<noteq> None \<longrightarrow> pool_get i (ae_meanwhile env 1 p) \<noteq> None)"

lemma calm_meanwhile: "calm env \<Longrightarrow> good p \<Longrightarrow> steady p (ae_meanwhile env k p)"
  by (simp add: calm_def)

lemma wait_loop_taken:
  assumes "\<forall>turn \<in> set turns. \<forall>p. good p \<longrightarrow> steady p (fst turn p)" "wt_prefer_ids w \<noteq> []" "good p"
    and "wait_loop w turns p = (out, p')"
  shows "steady p p' \<and> (\<forall>r. out = Acquired r \<longrightarrow> taken (wt_prefer_ids w) p' r)"
  using assms
proof (induction turns arbitrary: p)
  case Nil
  then show ?case by (auto intro: steady_refl)
next
  case (Cons turn turns)
  obtain m j now now_ms where turn: "turn = (m, j, now, now_ms)" by (cases turn) auto
  have m: "steady p (m p)" using Cons.prems(1,3) turn by simp
  obtain o1 p1 where w: "acquire_wake j now now_ms w (m p) = (o1, p1)" by fastforce
  note a = acquire_wake_taken [OF steady_good [OF m] w]
  have p1: "steady p p1" using steady_trans [OF m] a lasting_steady by blast
  show ?case
  proof (cases "\<exists>w'. o1 = Waiting w'")
    case True
    then have "wait_loop w turns p1 = (out, p')" using Cons.prems(4) turn w a by auto
    from Cons.IH [OF _ Cons.prems(2) steady_good [OF p1] this] Cons.prems(1) steady_trans [OF p1] show ?thesis by auto
  next
    case False
    then have "(o1, p1) = (out, p')" using Cons.prems(4) turn w by (cases o1) auto
    then show ?thesis using a p1 Cons.prems(2) by auto
  qed
qed

lemma acquire_stage_taken:
  assumes "calm env" "good p" "acquire_stage env stage rq model st p = (out, p')"
  shows "steady p p' \<and> (\<forall>r. out = Acquired r \<longrightarrow> taken (rq_account_ids rq) p' r \<and> state_id p' r \<notin> ds_attempted st)"
proof -
  obtain j now now_ms turns where e: "ae_acquire env stage = (j, now, now_ms, turns)" by (metis prod_cases4)
  let ?ids = "filter (\<lambda>i. i \<notin> ds_attempted st) (rq_account_ids rq)"
  show ?thesis
  proof (cases "?ids = []")
    case True
    then show ?thesis using assms(2,3) e by (auto simp: acquire_stage_def acquire_scoped_excluding_def steady_refl)
  next
    case False
    obtain o1 p1 where o: "acquire j now now_ms model ?ids p = (o1, p1)" by fastforce
    note a = acquire_taken [OF assms(2) o]
    have sub: "taken ?ids q r \<Longrightarrow> taken (rq_account_ids rq) q r \<and> state_id q r \<notin> ds_attempted st" for q r by (auto simp: taken_def leased_def)
    have t: "\<forall>turn \<in> set turns. \<forall>p. good p \<longrightarrow> steady p (fst turn p)" using assms(1) e by (metis calm_def snd_conv)
    show ?thesis
    proof (cases "\<exists>w. o1 = Waiting w")
      case True
      then obtain w where w: "o1 = Waiting w" "wt_prefer_ids w = ?ids" using a by auto
      then have "wait_loop w turns p1 = (out, p')" using assms(3) e o False by (auto simp: acquire_stage_def acquire_scoped_excluding_def Let_def)
      from wait_loop_taken [OF t _ lasting_good this] w(2) False a sub show ?thesis by (auto intro: steady_trans lasting_steady)
    next
      case False
      then have "(o1, p1) = (out, p')" using assms(3) e o \<open>?ids \<noteq> []\<close>
        by (cases o1) (auto simp: acquire_stage_def acquire_scoped_excluding_def Let_def)
      then show ?thesis using a sub \<open>?ids \<noteq> []\<close> by (auto intro: lasting_steady)
    qed
  qed
qed

lemma settle_stage_taken:
  assumes "calm env" "good p" "acquire_stage env stage rq model st p = outcome"
    and "settle_stage env rq model st next_try outcome = (res, p')"
    and "\<And>f q r2 q'. next_try = Some f \<Longrightarrow> good q \<Longrightarrow> f q = (r2, q') \<Longrightarrow> steady q q' \<and> (\<forall>r st'. r2 = Go (r, st') \<longrightarrow> P r st' q')"
    and "\<And>r q. taken (rq_account_ids rq) q r \<Longrightarrow> state_id q r \<notin> ds_attempted st \<Longrightarrow> P r st q"
  shows "steady p p' \<and> (\<forall>r st'. res = Go (r, st') \<longrightarrow> P r st' p')"
proof -
  obtain out p1 where o: "outcome = (out, p1)" by fastforce
  note a = acquire_stage_taken [OF assms(1,2), of stage rq model st out p1]
  have p1: "steady p p1" using a assms(3) o by blast
  show ?thesis
  proof (cases out)
    case (Failed e)
    let ?q = "ae_meanwhile env 0 p1"
    have q: "steady p ?q" using steady_trans [OF p1 calm_meanwhile [OF assms(1) steady_good [OF p1]]] .
    show ?thesis
      using assms(4) o Failed p1 q assms(5) [OF _ steady_good [OF q]]
      by (auto simp: settle_stage_def Let_def intro: steady_trans split: pool_error.splits if_splits option.splits bool.splits)
  qed (use assms(3,4,6) o a p1 in \<open>auto simp: settle_stage_def\<close>)
qed

text \<open>The account that is chosen is in the request's scope and was not tried before.\<close>

lemma choose_account_taken:
  assumes "calm env" "good p" "choose_account env rq st p = (res, p')"
  shows "steady p p' \<and> (\<forall>r st'. res = Go (r, st') \<longrightarrow> taken (rq_account_ids rq) p' r \<and> state_id p' r \<notin> ds_attempted st \<and>
    ds_sent st' = ds_sent st \<and> ds_attempted st' = ds_attempted st \<and> ds_prepared_lease st' = ds_prepared_lease st \<and> ds_logs st' = ds_logs st)"
proof -
  let ?P = "\<lambda>r st' q. taken (rq_account_ids rq) q r \<and> state_id q r \<notin> ds_attempted st \<and>
    ds_sent st' = ds_sent st \<and> ds_attempted st' = ds_attempted st \<and> ds_prepared_lease st' = ds_prepared_lease st \<and> ds_logs st' = ds_logs st"
  have last: "steady q q' \<and> (\<forall>r st'. r2 = Go (r, st') \<longrightarrow> ?P r st' q')"
    if "good q" "settle_stage env rq model st1 None (acquire_stage env stage rq model st1 q) = (r2, q')"
      "ds_sent st1 = ds_sent st" "ds_attempted st1 = ds_attempted st" "ds_prepared_lease st1 = ds_prepared_lease st" "ds_logs st1 = ds_logs st"
    for q model st1 stage r2 q'
    by (rule settle_stage_taken [OF assms(1) that(1) refl that(2), of ?P]) (use that(3-6) in simp_all)
  show ?thesis
  proof (rule settle_stage_taken [OF assms(1,2) refl assms(3) [unfolded choose_account_def Let_def], of ?P])
    fix f q r2 q'
    assume f: "Some (if trim (rq_default_model rq) \<noteq> [] \<and> ds_actual_model st \<noteq> rq_default_model rq
        then (\<lambda>p. settle_stage env rq (rq_default_model rq) (st\<lparr>ds_actual_model := rq_default_model rq,
               ds_payload := set_payload_model (rq_default_model rq) (ds_payload st)\<rparr>) None
             (acquire_stage env 1 rq (rq_default_model rq) (st\<lparr>ds_actual_model := rq_default_model rq,
               ds_payload := set_payload_model (rq_default_model rq) (ds_payload st)\<rparr>) p))
        else (\<lambda>p. settle_stage env rq [] st None (acquire_stage env 2 rq [] st p))) = Some f"
      and q: "good q" "f q = (r2, q')"
    show "steady q q' \<and> (\<forall>r st'. r2 = Go (r, st') \<longrightarrow> ?P r st' q')"
    proof (cases "trim (rq_default_model rq) \<noteq> [] \<and> ds_actual_model st \<noteq> rq_default_model rq")
      case True
      let ?st = "st\<lparr>ds_actual_model := rq_default_model rq, ds_payload := set_payload_model (rq_default_model rq) (ds_payload st)\<rparr>"
      have "settle_stage env rq (rq_default_model rq) ?st None (acquire_stage env 1 rq (rq_default_model rq) ?st q) = (r2, q')"
        using q(2) f True by auto
      from last [OF q(1) this] show ?thesis by simp
    next
      case False
      then have "settle_stage env rq [] st None (acquire_stage env 2 rq [] st q) = (r2, q')" using q(2) f by auto
      from last [OF q(1) this] show ?thesis by simp
    qed
  qed simp
qed

text \<open>The request does not end with an answer before there is one.\<close>

fun is_answer :: "dispatch_end \<Rightarrow> bool" where
  "is_answer (Generated _ _) = True"
| "is_answer (Prepared _) = True"
| "is_answer _ = False"

lemma settle_stage_ends:
  "settle_stage env rq model st next_try outcome = (End e, p') \<Longrightarrow>
     (\<And>f q q'. next_try = Some f \<Longrightarrow> f q = (End e, q') \<Longrightarrow> \<not> is_answer e) \<Longrightarrow> \<not> is_answer e"
  by (auto simp: settle_stage_def Let_def split: prod.splits acquire_outcome.splits pool_error.splits if_splits option.splits bool.splits)

lemma choose_account_ends: "choose_account env rq st p = (End e, p') \<Longrightarrow> \<not> is_answer e"
  unfolding choose_account_def Let_def by (erule settle_stage_ends) (auto dest: settle_stage_ends [where next_try = None] split: if_splits)

lemma resolve_for_account_ends: "resolve_for_account env cfg rq a st p = End e \<Longrightarrow> \<not> is_answer e"
  by (auto simp: resolve_for_account_def Let_def split: option.splits if_splits)

section \<open>Models\<close>

lemma payload_model_simps [simp]:
  "payload_model (set_payload_model m p) = m"
  "payload_model (prepare_model_request lv p) = payload_model p"
  "payload_model (p\<lparr>kp_profile_arn := arn\<rparr>) = payload_model p"
  by (simp_all add: set_payload_model_def map_user_def prepare_model_request_def apply_adaptive_thinking_def Let_def
      split: prod.splits option.splits)

lemma truncate_keeps_model: "truncate_context_if_requested tk lv p n c m = (res, p') \<Longrightarrow> payload_model p' = payload_model p"
  by (auto simp: truncate_context_if_requested_def truncate_kiro_history_def Let_def split: prod.splits sum.splits if_splits)

lemma use_model_fields [simp]:
  "ds_actual_model (use_model through m st) = m" "payload_model (ds_payload (use_model through m st)) = m"
  "ds_sent (use_model through m st) = ds_sent st" "ds_attempted (use_model through m st) = ds_attempted st"
  "ds_prepared_lease (use_model through m st) = ds_prepared_lease st" "ds_logs (use_model through m st) = ds_logs st"
  "ds_last_error (use_model through m st) = ds_last_error st"
  by (simp_all add: use_model_def)

lemma route_model_fields [simp]:
  "ds_sent (route_model env cfg rq a st) = ds_sent st" "ds_attempted (route_model env cfg rq a st) = ds_attempted st"
  "ds_prepared_lease (route_model env cfg rq a st) = ds_prepared_lease st" "ds_logs (route_model env cfg rq a st) = ds_logs st"
  by (simp_all add: route_model_def Let_def split: option.split prod.split)

text \<open>Model and payload agree. An account that is in the pool gets a payload for the model that was resolved; one that left it
  is used with the model and the payload of the attempt before.\<close>

abbreviation tuned :: "dispatch_state \<Rightarrow> bool" where
  "tuned st \<equiv> payload_model (ds_payload st) = ds_actual_model st"

lemma resolve_for_account_model:
  assumes "resolve_for_account env cfg rq a st p = Go res"
  shows "case res of Inl (_, st') \<Rightarrow> ds_sent st' = ds_sent st \<and> ds_attempted st' = ds_attempted st \<and> ds_prepared_lease st' = ds_prepared_lease st \<and> ds_logs st' = ds_logs st
    | Inr st' \<Rightarrow> (pool_get (ac_id a) p \<noteq> None \<longrightarrow> tuned st') \<and> ds_sent st' = ds_sent st \<and> ds_attempted st' = ds_attempted st \<and>
        ds_prepared_lease st' = ds_prepared_lease st \<and> ds_logs st' = ds_logs st"
  using assms by (auto simp: resolve_for_account_def Let_def split: option.splits if_splits)

section \<open>What is sent\<close>

text \<open>One attempt sends at most two requests, all from the lease's account and, where \<open>b\<close>, for models in scope.\<close>

definition sends :: "bool \<Rightarrow> dispatch_request \<Rightarrow> string \<Rightarrow> dispatch_state \<Rightarrow> dispatch_state \<Rightarrow> nat \<Rightarrow> bool" where
  "sends b rq a st st' n \<longleftrightarrow> (\<exists>qs. ds_sent st' = ds_sent st @ map (Pair a) qs \<and> length qs \<le> n \<and>
     (b \<longrightarrow> (\<forall>q \<in> set qs. model_is_allowed (rq_allowed_models rq) ''kiro'' (payload_model q))))"

lemma sends_none: "ds_sent st' = ds_sent st \<Longrightarrow> sends b rq a st st' n"
  by (simp add: sends_def)

lemma sends_mono: "sends b rq a st st' n \<Longrightarrow> n \<le> m \<Longrightarrow> sends b rq a st st' m"
  unfolding sends_def using order_trans by blast

lemma sends_send:
  assumes "sends b rq a st st' n" "ds_sent st'' = ds_sent st' @ [(a, q)]" "b \<Longrightarrow> model_is_allowed (rq_allowed_models rq) ''kiro'' (payload_model q)"
  shows "sends b rq a st st'' (Suc n)"
proof -
  obtain qs where "ds_sent st' = ds_sent st @ map (Pair a) qs" "length qs \<le> n"
      "b \<longrightarrow> (\<forall>q \<in> set qs. model_is_allowed (rq_allowed_models rq) ''kiro'' (payload_model q))"
    using assms(1) by (auto simp: sends_def)
  then show ?thesis unfolding sends_def using assms(2,3) by (intro exI [of _ "qs @ [q]"]) auto
qed

text \<open>The result of the part of an attempt that follows the first request.\<close>

definition proceeds ::
  "bool \<Rightarrow> dispatch_config \<Rightarrow> dispatch_request \<Rightarrow> string \<Rightarrow> dispatch_state \<Rightarrow> pool \<Rightarrow>
     (bool \<times> dispatch_state) step_result \<times> dispatch_state \<times> pool \<Rightarrow> nat \<Rightarrow> bool" where
  "proceeds b cfg rq a st p res n \<longleftrightarrow> (case res of (out, st', p') \<Rightarrow>
     steady p p' \<and> sends b rq a st st' n \<and> out \<noteq> Leave \<and>
     (\<forall>noted st''. out = Go (noted, st'') \<longrightarrow> ds_sent st'' = ds_sent st' \<and> ds_attempted st'' = ds_attempted st \<and>
        ds_prepared_lease st'' = ds_prepared_lease st \<and> ds_last_error st'' \<noteq> None \<and>
        (noted \<or> rq_allowed_models rq \<noteq> [] \<and> dc_enable_model_fallback cfg)))"

lemma end_with_proceeds: "good p \<Longrightarrow> sends b rq a st st' n \<Longrightarrow> steady q p \<Longrightarrow> proceeds b cfg rq a st q (end_with now_ms r e st' p) n"
  by (auto simp: proceeds_def end_with_def intro: steady_trans steady_drop)

lemma log_error_fields [simp]:
  "ds_sent (log_error i a e st) = ds_sent st" "ds_attempted (log_error i a e st) = ds_attempted st"
  "ds_prepared_lease (log_error i a e st) = ds_prepared_lease st" "ds_payload (log_error i a e st) = ds_payload st"
  "ds_actual_model (log_error i a e st) = ds_actual_model st" "ds_fallback_model (log_error i a e st) = ds_fallback_model st"
  by (simp_all add: log_error_def)

lemma send_fields [simp]:
  "ds_attempted (send lv a st) = ds_attempted st" "ds_prepared_lease (send lv a st) = ds_prepared_lease st"
  "ds_payload (send lv a st) = ds_payload st" "ds_actual_model (send lv a st) = ds_actual_model st"
  "ds_sent (send lv a st) = ds_sent st @ [(ac_id a, prepare_model_request lv (ds_payload st))]"
  by (simp_all add: send_def)

lemma recover_auth_proceeds:
  assumes "calm env" "good p" "r < length (pl_states p)" "state_id p r = ac_id a"
    and "b \<Longrightarrow> model_is_allowed (rq_allowed_models rq) ''kiro'' (payload_model (ds_payload st))"
  shows "proceeds b cfg rq (ac_id a) st p (recover_auth env i r a e st p) 1"
proof -
  let ?p = "ae_meanwhile env 4 p"
  have p: "steady p ?p" by (rule calm_meanwhile [OF assms(1,2)])
  then have id: "state_id ?p r = ac_id a" using assms(3,4) by (simp add: steady_def)
  have q: "steady p (ae_meanwhile env 5 ?p)" using steady_trans [OF p calm_meanwhile [OF assms(1) steady_good [OF p]]] .
  note s = steady_trans [OF p steady_records(4) [OF steady_good [OF p]]] steady_trans [OF q steady_records(1) [OF steady_good [OF q]]]
    steady_trans [OF q steady_records(2) [OF steady_good [OF q]]] steady_trans [OF q steady_records(4) [OF steady_good [OF q]]]
  have one: "sends b rq (ac_id a) st st' 1" if "ds_sent st' = ds_sent st @ [(ac_id a, prepare_model_request lv ((ds_payload st)\<lparr>kp_profile_arn := x\<rparr>))]" for st' lv x
    using sends_send [OF sends_none [OF refl], of st' st "ac_id a" _ b rq 0] that assms(5) by simp
  show ?thesis
    using s id one by (auto simp: proceeds_def recover_auth_def Let_def sends_none split: sum.splits)
qed

lemma not_allowed_scoped: "\<not> model_is_allowed models provider m \<Longrightarrow> models \<noteq> []"
  by (auto simp: model_is_allowed_def)

text \<open>The state at the fallback's request, and what may follow it.\<close>

lemma proceeds_go:
  "steady p p' \<Longrightarrow> sends b rq a st st' n \<Longrightarrow> ds_sent st'' = ds_sent st' \<Longrightarrow> ds_attempted st'' = ds_attempted st \<Longrightarrow>
     ds_prepared_lease st'' = ds_prepared_lease st \<Longrightarrow> ds_last_error st'' \<noteq> None \<Longrightarrow> proceeds b cfg rq a st p (Go (True, st''), st', p') n"
  by (simp add: proceeds_def)

lemma proceeds_end: "steady p p' \<Longrightarrow> sends b rq a st st' n \<Longrightarrow> proceeds b cfg rq a st p (End x, st', p') n"
  by (simp add: proceeds_def)

lemma sends_append:
  assumes "sends b rq a st st1 m" "sends b rq a st1 st2 n"
  shows "sends b rq a st st2 (m + n)"
proof -
  obtain qs rs where "ds_sent st1 = ds_sent st @ map (Pair a) qs" "length qs \<le> m" "ds_sent st2 = ds_sent st1 @ map (Pair a) rs" "length rs \<le> n"
      "b \<longrightarrow> (\<forall>q \<in> set (qs @ rs). model_is_allowed (rq_allowed_models rq) ''kiro'' (payload_model q))"
    using assms unfolding sends_def by fastforce
  then show ?thesis unfolding sends_def by (intro exI [of _ "qs @ rs"]) simp
qed

lemma proceeds_after:
  assumes "proceeds b cfg rq a st1 q res n" "steady p q" "sends b rq a st st1 m"
    and "ds_attempted st1 = ds_attempted st" "ds_prepared_lease st1 = ds_prepared_lease st"
  shows "proceeds b cfg rq a st p res (m + n)"
proof -
  obtain out st' p' where res: "res = (out, st', p')" by (cases res)
  then have "steady p p'" "sends b rq a st st' (m + n)"
    using assms(1) steady_trans [OF assms(2)] sends_append [OF assms(3)] by (simp_all add: proceeds_def)
  then show ?thesis using assms(1,4,5) res by (simp add: proceeds_def)
qed

lemma proceeds_same:
  "proceeds b cfg rq a st1 q res n \<Longrightarrow> steady p q \<Longrightarrow> ds_sent st1 = ds_sent st \<Longrightarrow> ds_attempted st1 = ds_attempted st \<Longrightarrow>
     ds_prepared_lease st1 = ds_prepared_lease st \<Longrightarrow> proceeds b cfg rq a st p res n"
  using proceeds_after [of b cfg rq a st1 q res n p st 0] by (simp add: sends_none)

lemma fallback_answer_proceeds:
  assumes "calm env" "good p" "sends b rq (ac_id a) st st4 1" "ds_attempted st4 = ds_attempted st" "ds_prepared_lease st4 = ds_prepared_lease st"
  shows "proceeds b cfg rq (ac_id a) st p
    (case ans of Inr response \<Rightarrow> (End (Generated r response), st4, record_success (ac_id a) (ae_meanwhile env 7 p))
     | Inl e \<Rightarrow> (let st5 = log_error i a e st4 in
         if is_request_rejection e then end_with now_ms r (give_up e st5) st5 (ae_meanwhile env 7 p)
         else (Go (True, st5\<lparr>ds_last_error := Some e\<rparr>), st5, ae_meanwhile env 7 p))) 1"
proof -
  have p: "steady p (ae_meanwhile env 7 p)" by (rule calm_meanwhile [OF assms(1,2)])
  note s = steady_trans [OF p steady_records(1) [OF steady_good [OF p]]]
  have logged: "sends b rq (ac_id a) st (log_error i a e st4) 1" for e using assms(3) by (simp add: sends_def)
  show ?thesis
    by (cases ans) (simp_all add: Let_def proceeds_end s assms proceeds_go [OF p logged] end_with_proceeds [OF steady_good [OF p] logged p]
        del: One_nat_def)
qed

lemma try_fallback_proceeds:
  assumes "calm env" "good p" "ds_last_error st \<noteq> None" "dc_enable_model_fallback cfg"
  shows "proceeds b cfg rq (ac_id a) st p (try_fallback tk env rq i r a f st p) 1"
proof -
  define resolved where "resolved = (case pool_get (ac_id a) p of None \<Rightarrow> Some f
    | Some k \<Rightarrow> (case resolve_model f (pl_states p ! k) of Some m \<Rightarrow> Some m
        | None \<Rightarrow> if has_model_cache (pl_states p ! k) then None else Some f))"
  note d = try_fallback_def Let_def [where s = "ae_fallback_live env"] resolved_def [symmetric]
  note p = steady_refl [OF assms(2)]
  show ?thesis
  proof (cases resolved)
    case None
    then show ?thesis by (simp add: d Let_def proceeds_go p sends_none assms(3))
  next
    case (Some m)
    show ?thesis
    proof (cases "model_is_allowed (rq_allowed_models rq) ''kiro'' m")
      case False
      then show ?thesis using Some assms(3,4) not_allowed_scoped [OF False] by (simp add: d Let_def proceeds_def p sends_none)
    next
      case True
      obtain res q where t: "truncate_context_if_requested tk (ae_fallback_live env) (ds_payload st) (ds_input_tokens st) (rq_compact rq) m = (res, q)"
        by fastforce
      show ?thesis
      proof (cases res)
        case (Inl e)
        then show ?thesis using Some True t by (simp add: d Let_def end_with_proceeds assms(2) p sends_none)
      next
        case (Inr n)
        have one: "sends b rq (ac_id a) st st' 1"
          if "ds_sent st' = ds_sent st @ [(ac_id a, x)]" "payload_model x = m" for st' x
          using sends_send [OF sends_none [OF refl], of st' st "ac_id a" x b rq 0] that True by simp
        show ?thesis
          using Some True t Inr
          by (simp add: d Let_def proceeds_go p sends_none assms(3) del: One_nat_def)
             (rule impI, rule fallback_answer_proceeds [OF assms(1,2)]; simp add: one del: One_nat_def)
      qed
    qed
  qed
qed

lemma capacity_error_proceeds:
  assumes "calm env" "good p"
  shows "proceeds b cfg rq (ac_id a) st p (capacity_error tk env cfg rq i r a e st p) 1"
proof -
  define p1 where "p1 = (if \<not> is_model_temporarily_unavailable e then record_error (ae_now env) (ac_id a) p else p)"
  define st1 where "st1 = st\<lparr>ds_last_error := Some e\<rparr>"
  have p1: "steady p p1" by (simp add: p1_def steady_refl steady_records assms(2))
  have p2: "steady p (ae_meanwhile env 6 p1)" using steady_trans [OF p1 calm_meanwhile [OF assms(1) steady_good [OF p1]]] .
  have go: "proceeds b cfg rq (ac_id a) st p (Go (True, st1), st1, p1) 1" by (simp add: proceeds_go p1 sends_none st1_def)
  have "proceeds b cfg rq (ac_id a) st1 (ae_meanwhile env 6 p1) (try_fallback tk env rq i r a f st1 (ae_meanwhile env 6 p1)) 1"
    if "dc_enable_model_fallback cfg" for f
    by (rule try_fallback_proceeds [OF assms(1) steady_good [OF p2] _ that]) (simp add: st1_def)
  then have "proceeds b cfg rq (ac_id a) st p (try_fallback tk env rq i r a f st1 (ae_meanwhile env 6 p1)) 1"
    if "dc_enable_model_fallback cfg" for f
    using proceeds_same [OF _ p2, of b cfg rq "ac_id a" st1 _ _ st] that by (simp add: st1_def)
  then show ?thesis using go
    by (simp add: capacity_error_def Let_def p1_def [symmetric] st1_def [symmetric] del: One_nat_def split: option.split)
qed

lemma handle_error_proceeds:
  assumes "calm env" "good p" "r < length (pl_states p)" "state_id p r = ac_id a"
    and "b \<Longrightarrow> model_is_allowed (rq_allowed_models rq) ''kiro'' (payload_model (ds_payload st))"
  shows "proceeds b cfg rq (ac_id a) st p (handle_error tk env cfg rq i r a e st p) 1"
proof -
  let ?st = "log_error i a e st"
  note p = steady_refl [OF assms(2)]
  have logged: "sends b rq (ac_id a) st ?st 1" by (simp add: sends_none)
  have shift: "proceeds b cfg rq (ac_id a) ?st p x 1 \<Longrightarrow> proceeds b cfg rq (ac_id a) st p x 1" for x
    by (erule proceeds_same [OF _ p]) simp_all
  have auth: "proceeds b cfg rq (ac_id a) ?st p (recover_auth env i r a e ?st p) 1"
    by (rule recover_auth_proceeds [OF assms(1-4)]) (simp add: assms(5))
  note q = steady_records(3) [OF assms(2)]
  show ?thesis
    by (simp add: handle_error_def Let_def shift auth capacity_error_proceeds [OF assms(1,2)] proceeds_go logged
        steady_records assms(2) p end_with_proceeds steady_good [OF q] del: One_nat_def)
qed

text \<open>The whole of an attempt after the model was resolved.\<close>

lemma use_lease_proceeds:
  assumes "calm env" "good p" "r < length (pl_states p)" "state_id p r = a" "b \<Longrightarrow> tuned st"
  shows "proceeds b cfg rq a st p (use_lease tk env cfg rq i r st p) 2"
proof (cases "model_is_allowed (rq_allowed_models rq) ''kiro'' (ds_actual_model st) \<and> \<not> rq_preflight_only rq")
  case False
  then show ?thesis
    by (auto simp: use_lease_def Let_def end_with_proceeds assms(2) steady_refl sends_none intro: proceeds_end)
next
  case True
  note p = steady_refl [OF assms(2)]
  let ?lv = "ae_live env" and ?q = "prepare_model_request (ae_live env) (ds_payload st)"
  obtain res q where t: "truncate_context_if_requested tk ?lv ?q (ds_input_tokens st) (rq_compact rq) (ds_actual_model st) = (res, q)"
    by fastforce
  have q: "b \<Longrightarrow> payload_model q = ds_actual_model st" using truncate_keeps_model [OF t] assms(5) by simp
  show ?thesis
  proof (cases res)
    case (Inl e)
    then show ?thesis using True t by (simp add: use_lease_def Let_def end_with_proceeds assms(2) p sends_none)
  next
    case (Inr n)
    let ?p1 = "ae_meanwhile env 2 p"
    have p1: "steady p ?p1" by (rule calm_meanwhile [OF assms(1,2)])
    have p2: "steady p (ae_meanwhile env 3 ?p1)" using steady_trans [OF p1 calm_meanwhile [OF assms(1) steady_good [OF p1]]] .
    have id: "state_id ?p1 r = a" "state_id (ae_meanwhile env 3 ?p1) r = a" "r < length (pl_states (ae_meanwhile env 3 ?p1))"
      using p1 p2 assms(3,4) by (auto simp: steady_def)
    define st4 where "st4 = send ?lv (lease_account r ?p1)
      (st\<lparr>ds_input_tokens := n, ds_payload := q\<lparr>kp_profile_arn := ac_profile_arn (lease_account r p)\<rparr>\<rparr>)"
    have st4: "sends b rq a st st4 1" "ds_attempted st4 = ds_attempted st" "ds_prepared_lease st4 = ds_prepared_lease st"
        "b \<Longrightarrow> payload_model (ds_payload st4) = ds_actual_model st"
      using sends_send [OF sends_none [OF refl], of st4 st a _ b rq 0] True id q by (simp_all add: st4_def)
    have err: "proceeds b cfg rq a st p (handle_error tk env cfg rq i r (lease_account r ?p1) e st4 (ae_meanwhile env 3 ?p1)) 2" for e
    proof -
      have "proceeds b cfg rq a st4 (ae_meanwhile env 3 ?p1) (handle_error tk env cfg rq i r (lease_account r ?p1) e st4 (ae_meanwhile env 3 ?p1)) 1"
        using handle_error_proceeds [OF assms(1) steady_good [OF p2] id(3), of "lease_account r ?p1" b rq st4] id st4(4) True by simp
      from proceeds_after [OF this p2 st4(1-3)] show ?thesis by (simp add: numeral_2_eq_2)
    qed
    have ok: "proceeds b cfg rq a st p (End (Generated r x), st4, record_success a (ae_meanwhile env 3 ?p1)) 2" for x
      by (rule proceeds_end [OF steady_trans [OF p2 steady_records(1) [OF steady_good [OF p2]]] sends_mono [OF st4(1)]]) simp
    show ?thesis using True t Inr ok err id(1)
      by (simp add: use_lease_def Let_def end_with_proceeds assms(2) p sends_none st4_def [symmetric] split: option.split sum.split)
  qed
qed

section \<open>The loop\<close>

text \<open>A request may begin with an account that a preflight took for it.\<close>

definition launched :: "bool \<Rightarrow> dispatch_request \<Rightarrow> dispatch_state \<Rightarrow> pool \<Rightarrow> bool" where
  "launched b rq st p \<longleftrightarrow> good p \<and> (\<forall>r. ds_prepared_lease st = Some r \<longrightarrow> leased (rq_account_ids rq) p r \<and>
     state_id p r \<notin> ds_attempted st \<and> (b \<longrightarrow> tuned st))"

text \<open>The fallback may leave an account unnoted.\<close>

abbreviation may_repeat :: "dispatch_config \<Rightarrow> dispatch_request \<Rightarrow> bool" where
  "may_repeat cfg rq \<equiv> rq_allowed_models rq \<noteq> [] \<and> dc_enable_model_fallback cfg"

definition attempted_once ::
  "bool \<Rightarrow> dispatch_config \<Rightarrow> dispatch_request \<Rightarrow> dispatch_state \<Rightarrow> pool \<Rightarrow> dispatch_state step_result \<times> dispatch_state \<times> pool \<Rightarrow> bool" where
  "attempted_once b cfg rq st p res \<longleftrightarrow> (case res of (out, st', p') \<Rightarrow>
     \<exists>a. sends b rq a st st' 2 \<and> (ds_sent st' \<noteq> ds_sent st \<longrightarrow> a \<in> set (rq_account_ids rq) \<and> a \<notin> ds_attempted st) \<and>
       (\<forall>st''. out = Go st'' \<longrightarrow> st'' = st' \<and> launched b rq st' p' \<and> ds_prepared_lease st' = None \<and>
          ds_attempted st \<subseteq> ds_attempted st' \<and> (a \<in> ds_attempted st' \<or> may_repeat cfg rq)))"

lemma finish_attempt_once:
  assumes "calm env" "good p" "leased (rq_account_ids rq) p r" "state_id p r \<notin> ds_attempted st"
    and "b \<Longrightarrow> tuned st" "ds_prepared_lease st = None"
  shows "attempted_once b cfg rq st p (finish_attempt env (state_id p r) r (use_lease tk env cfg rq i r st p))"
proof -
  obtain out st' p' where u: "use_lease tk env cfg rq i r st p = (out, st', p')" by (metis prod_cases3)
  have "proceeds b cfg rq (state_id p r) st p (out, st', p') 2"
    unfolding u [symmetric] by (rule use_lease_proceeds) (use assms in \<open>auto simp: leased_def\<close>)
  then have s: "steady p p'" "sends b rq (state_id p r) st st' 2" "out \<noteq> Leave"
      "\<And>noted st''. out = Go (noted, st'') \<Longrightarrow> ds_sent st'' = ds_sent st' \<and> ds_attempted st'' = ds_attempted st \<and>
        ds_prepared_lease st'' = None \<and> (noted \<or> may_repeat cfg rq)"
    using assms(6) by (auto simp: proceeds_def)
  have id: "state_id p r \<in> set (rq_account_ids rq)" using assms(3) by (simp add: leased_def)
  show ?thesis
  proof (cases out)
    case (Go x)
    obtain noted st'' where x: "x = (noted, st'')" by (cases x)
    note g = s(4) [OF Go [unfolded x]]
    have good': "good (drop_lease (ae_now_ms env) r p')" using steady_good [OF steady_drop [OF steady_good [OF s(1)]]] .
    show ?thesis unfolding u attempted_once_def finish_attempt_def Go x Let_def
      using g good' assms(4) id s(2) by (auto simp: launched_def sends_def intro!: exI [of _ "state_id p r"])
  next
    case (End e)
    then show ?thesis unfolding u attempted_once_def finish_attempt_def using s(2) id assms(4) by auto
  qed (use s(3) in simp)
qed

lemma note_incompatible_fields [simp]:
  "ds_sent (note_incompatible rq i a ms st) = ds_sent st" "ds_prepared_lease (note_incompatible rq i a ms st) = ds_prepared_lease st"
  "ds_attempted (note_incompatible rq i a ms st) = insert (ac_id a) (ds_attempted st)"
  by (simp_all add: note_incompatible_def)

lemma attempted_nothing: "out = Leave \<or> (\<exists>e. out = End e) \<Longrightarrow> ds_sent st' = ds_sent st \<Longrightarrow> attempted_once b cfg rq st p (out, st', p')"
  by (auto simp: attempted_once_def sends_none)

lemma dispatch_attempt_once:
  assumes "calm env" "b \<Longrightarrow> undisplaced env" "launched b rq st p"
  shows "attempted_once b cfg rq st p (dispatch_attempt tk env cfg rq i st p)"
proof (cases "ds_prepared_lease st")
  case (Some r)
  then have "attempted_once b cfg rq (st\<lparr>ds_prepared_lease := None\<rparr>) p (dispatch_attempt tk env cfg rq i st p)"
    using finish_attempt_once [OF assms(1), of p rq r "st\<lparr>ds_prepared_lease := None\<rparr>"] assms(3)
    by (simp add: launched_def dispatch_attempt_def)
  then show ?thesis by (simp add: attempted_once_def sends_def)
next
  case None
  have p: "good p" using assms(3) by (simp add: launched_def)
  obtain res p1 where c: "choose_account env rq st p = (res, p1)" by fastforce
  note ch = choose_account_taken [OF assms(1) p c]
  show ?thesis
  proof (cases res)
    case (Go x)
    obtain r st1 where x: "x = (r, st1)" by (cases x)
    let ?a = "lease_account r p1" and ?p2 = "ae_meanwhile env 1 p1"
    have st1: "taken (rq_account_ids rq) p1 r" "ac_id ?a \<notin> ds_attempted st" "ds_sent st1 = ds_sent st"
        "ds_attempted st1 = ds_attempted st" "ds_prepared_lease st1 = None"
      using ch Go x None by auto
    have p2: "steady p1 ?p2" using calm_meanwhile [OF assms(1)] ch steady_good by blast
    have t2: "leased (rq_account_ids rq) ?p2 r" "state_id ?p2 r = ac_id ?a" "b \<Longrightarrow> pool_get (ac_id ?a) ?p2 \<noteq> None"
      using leased_steady [OF _ p2] p2 st1(1) assms(2) ch steady_good by (auto simp: taken_def leased_def steady_def undisplaced_def)
    have d: "dispatch_attempt tk env cfg rq i st p = (case resolve_for_account env cfg rq ?a st1 ?p2 of
          Leave \<Rightarrow> (Leave, st1, ?p2) | End e \<Rightarrow> (End e, st1, drop_lease (ae_now_ms env) r ?p2)
        | Go (Inl (ms, st2)) \<Rightarrow> (Go (note_incompatible rq i ?a ms st2), note_incompatible rq i ?a ms st2, drop_lease (ae_now_ms env) r ?p2)
        | Go (Inr st2) \<Rightarrow> finish_attempt env (ac_id ?a) r (use_lease tk env cfg rq i r st2 ?p2))"
      unfolding dispatch_attempt_def None c Go x Let_def option.case prod.case step_result.case by (rule refl)
    show ?thesis
    proof (cases "resolve_for_account env cfg rq ?a st1 ?p2")
      case (Go y)
      note rs = resolve_for_account_model [OF Go]
      show ?thesis
      proof (cases y)
        case (Inl z)
        then show ?thesis using d Go rs st1 steady_good [OF steady_drop [OF steady_good [OF p2]]]
          by (cases z) (auto simp: attempted_once_def sends_none launched_def intro!: exI [of _ "ac_id ?a"])
      next
        case (Inr st2)
        have "attempted_once b cfg rq st2 ?p2 (finish_attempt env (state_id ?p2 r) r (use_lease tk env cfg rq i r st2 ?p2))"
          by (rule finish_attempt_once [OF assms(1) steady_good [OF p2] t2(1)]) (use rs Inr st1 t2(2,3) in simp_all)
        then show ?thesis using d Go Inr rs st1 t2(2) by (simp add: attempted_once_def sends_def)
      qed
    qed (use d st1 in \<open>auto intro: attempted_nothing\<close>)
  qed (use c None in \<open>auto simp: dispatch_attempt_def intro: attempted_nothing\<close>)
qed

text \<open>The requests of a run, and how often an account occurs in them.\<close>

definition in_scope :: "bool \<Rightarrow> dispatch_request \<Rightarrow> (string \<times> kiro_payload) list \<Rightarrow> bool" where
  "in_scope b rq sent \<longleftrightarrow> list_all (\<lambda>(a, q). a \<in> set (rq_account_ids rq) \<and>
     (b \<longrightarrow> model_is_allowed (rq_allowed_models rq) ''kiro'' (payload_model q))) sent"

definition times_asked :: "string \<Rightarrow> (string \<times> kiro_payload) list \<Rightarrow> nat" where
  "times_asked a sent = length (filter (\<lambda>(b, _). b = a) sent)"

lemma times_asked_simps [simp]:
  "times_asked a [] = 0" "times_asked a (xs @ ys) = times_asked a xs + times_asked a ys"
  "times_asked a (map (Pair b) qs) = (if a = b then length qs else 0)"
  by (auto simp: times_asked_def filter_map comp_def)

lemma dispatch_loop_run:
  assumes "\<And>i. calm (env i)" "\<And>i. b \<Longrightarrow> undisplaced (env i)" "launched b rq st p" "dispatch_loop tk env cfg rq is st p = (out, st', p')"
  shows "\<exists>new. ds_sent st' = ds_sent st @ new \<and> in_scope b rq new \<and> length new \<le> 2 * length is \<and>
    (\<not> may_repeat cfg rq \<longrightarrow> (\<forall>a. times_asked a new \<le> (if a \<in> ds_attempted st then 0 else 2)))"
  using assms(3,4)
proof (induction "is" arbitrary: st p)
  case Nil
  then show ?case by (simp add: in_scope_def)
next
  case (Cons i "is")
  obtain o1 st1 p1 where d: "dispatch_attempt tk (env i) cfg rq i st p = (o1, st1, p1)" by (metis prod_cases3)
  from dispatch_attempt_once [of "env i" b rq st p cfg tk i, OF assms(1,2) Cons.prems(1)] obtain a where
    once: "sends b rq a st st1 2" "ds_sent st1 \<noteq> ds_sent st \<longrightarrow> a \<in> set (rq_account_ids rq) \<and> a \<notin> ds_attempted st"
      "\<forall>st''. o1 = Go st'' \<longrightarrow> st'' = st1 \<and> launched b rq st1 p1 \<and> ds_prepared_lease st1 = None \<and>
         ds_attempted st \<subseteq> ds_attempted st1 \<and> (a \<in> ds_attempted st1 \<or> may_repeat cfg rq)"
    unfolding d attempted_once_def by blast
  from once(1) obtain qs where
    qs: "ds_sent st1 = ds_sent st @ map (Pair a) qs" "length qs \<le> 2"
      "b \<longrightarrow> (\<forall>q \<in> set qs. model_is_allowed (rq_allowed_models rq) ''kiro'' (payload_model q))"
    unfolding sends_def by blast
  have own: "qs \<noteq> [] \<longrightarrow> a \<in> set (rq_account_ids rq) \<and> a \<notin> ds_attempted st" using once(2) qs(1) by simp
  have go: "st2 = st1 \<and> launched b rq st1 p1 \<and> ds_attempted st \<subseteq> ds_attempted st1 \<and> (a \<in> ds_attempted st1 \<or> may_repeat cfg rq)"
    if "o1 = Go st2" for st2 using once(3) that by blast
  note a = qs own go
  have "in_scope b rq (map (Pair a) qs)" using a(3,4) by (cases "qs = []") (simp_all add: in_scope_def list_all_iff)
  moreover have "times_asked b (map (Pair a) qs) \<le> (if b \<in> ds_attempted st then 0 else 2)" for b
    using a(2,4) by (cases "qs = []") auto
  ultimately have first: "in_scope b rq (map (Pair a) qs)" "\<And>b. times_asked b (map (Pair a) qs) \<le> (if b \<in> ds_attempted st then 0 else 2)" .
  show ?case
  proof (cases o1)
    case (Go st2)
    note g = a(5) [OF Go]
    have "dispatch_loop tk env cfg rq is st1 p1 = (out, st', p')" using Cons.prems(2) d Go g by simp
    from Cons.IH [OF _ this] g obtain new where
      n: "ds_sent st' = ds_sent st1 @ new" "in_scope b rq new" "length new \<le> 2 * length is"
        "\<not> may_repeat cfg rq \<longrightarrow> (\<forall>b. times_asked b new \<le> (if b \<in> ds_attempted st1 then 0 else 2))" by blast
    have "times_asked b (map (Pair a) qs @ new) \<le> (if b \<in> ds_attempted st then 0 else 2)" if "\<not> may_repeat cfg rq" for b
    proof -
      from n(4) that have *: "times_asked b new \<le> (if b \<in> ds_attempted st1 then 0 else 2)" for b by blast
      from g that have "ds_attempted st \<subseteq> ds_attempted st1" "a \<in> ds_attempted st1" by auto
      with * [of b] first(2) [of b] show ?thesis by (auto split: if_splits)
    qed
    moreover have "in_scope b rq (map (Pair a) qs @ new)" using first(1) n(2) by (simp add: in_scope_def)
    ultimately show ?thesis using a(1,2) n(1,3) by (intro exI [of _ "map (Pair a) qs @ new"]) auto
  qed (use Cons.prems(2) d a(1,2) first in \<open>auto intro!: exI [of _ "map (Pair a) qs"]\<close>)
qed

section \<open>Properties\<close>

text \<open>What a request begins with: nothing, or the lease and the variables of a preflight.\<close>

definition ready :: "dispatch_request \<Rightarrow> (nat \<times> dispatch_state) option \<Rightarrow> pool \<Rightarrow> bool" where
  "ready rq prepared p \<longleftrightarrow> good p \<and> (case prepared of None \<Rightarrow> True
     | Some (r, st) \<Rightarrow> leased (rq_account_ids rq) p r \<and> state_id p r \<notin> set (map ul_account_id (ds_logs st)))"

definition prepared_tuned :: "(nat \<times> dispatch_state) option \<Rightarrow> bool" where
  "prepared_tuned prepared \<longleftrightarrow> (case prepared of None \<Rightarrow> True | Some (_, st) \<Rightarrow> tuned st)"

lemma dispatch_start_fields [simp]:
  "ds_sent (dispatch_start route cfg rq n q) = []" "ds_attempted (dispatch_start route cfg rq n q) = {}"
  "ds_prepared_lease (dispatch_start route cfg rq n q) = None" "ds_logs (dispatch_start route cfg rq n q) = []"
  by (cases route; simp add: dispatch_start_def)+

lemma execute_upstream_run:
  assumes "\<And>i. calm (env i)" "ready rq prepared p" "execute_upstream tk route env cfg rq n q prepared p = (out, st', p')"
  shows "in_scope ((\<forall>i. undisplaced (env i)) \<and> prepared_tuned prepared) rq (ds_sent st') \<and>
    length (ds_sent st') \<le> 2 * retry_attempt_count (dc_max_retries cfg) (length (rq_account_ids rq)) \<and>
    (\<not> may_repeat cfg rq \<longrightarrow> (\<forall>a. times_asked a (ds_sent st') \<le> 2))"
proof -
  let ?b = "(\<forall>i. undisplaced (env i)) \<and> prepared_tuned prepared"
  define st0 where "st0 = (case prepared of None \<Rightarrow> dispatch_start route cfg (rq\<lparr>rq_preflight_only := False\<rparr>) n q
    | Some (r, st) \<Rightarrow> dispatch_resume r n st)"
  have st0: "launched ?b (rq\<lparr>rq_preflight_only := False\<rparr>) st0 p" "ds_sent st0 = []"
    using assms(2) by (auto simp: st0_def ready_def launched_def dispatch_resume_def prepared_tuned_def split: option.splits)
  obtain o1 where run: "dispatch_upstream tk env cfg (rq\<lparr>rq_preflight_only := False\<rparr>) st0 p = (o1, st', p')"
    using assms(3) by (auto simp: execute_upstream_def st0_def Let_def split: prod.splits dispatch_end.splits)
  let ?is = "[length (ds_logs st0)..<retry_attempt_count (dc_max_retries cfg) (length (rq_account_ids rq))]"
  have loop: "dispatch_loop tk env cfg (rq\<lparr>rq_preflight_only := False\<rparr>) ?is st0 p = (o1, st', p')"
    using run by (simp add: dispatch_upstream_def)
  have u: "\<And>i. ?b \<Longrightarrow> undisplaced (env i)" by blast
  from dispatch_loop_run [OF assms(1) u st0(1) loop] st0(2)
  have "in_scope ?b rq (ds_sent st')" "length (ds_sent st') \<le> 2 * length ?is"
      "\<not> may_repeat cfg rq \<Longrightarrow> times_asked a (ds_sent st') \<le> (if a \<in> ds_attempted st0 then 0 else 2)" for a
    by (auto simp: in_scope_def)
  moreover have "2 * length ?is \<le> 2 * retry_attempt_count (dc_max_retries cfg) (length (rq_account_ids rq))" by simp
  moreover have "(if b then 0 else 2 :: nat) \<le> 2" for b by simp
  ultimately show ?thesis by (meson order_trans)
qed

text \<open>C3: Whatever the upstream answers and whatever operations of the pool the other tasks perform at the awaits, a reload of the accounts
  included, every payload that is sent goes to an account of the request's scope. If moreover no reload removes an account between
  its lease and the lookup of its models, and a preflight's payload, if there was one, names the model it resolved, every payload names
  a model the key may use, after a mapping, a default model, a repetition with a new token or a fallback too.\<close>

theorem dispatch_stays_in_scope:
  assumes "\<And>i. calm (env i)" and "ready rq prepared p"
    and "execute_upstream tk route env cfg rq n q prepared p = (out, st', p')"
    and "(a, x) \<in> set (ds_sent st')"
  shows "a \<in> set (rq_account_ids rq) \<and>
    ((\<forall>i. undisplaced (env i)) \<and> prepared_tuned prepared \<longrightarrow> model_is_allowed (rq_allowed_models rq) ''kiro'' (payload_model x))"
  using execute_upstream_run [OF assms(1-3)] assms(4) by (auto simp: in_scope_def list_all_iff)


section \<open>The preflight\<close>

text \<open>A preflight ends at its first usable account; the accounts it passed over are in its log.\<close>

definition searching :: "dispatch_state \<Rightarrow> bool" where
  "searching st \<longleftrightarrow> ds_prepared_lease st = None \<and> set (map ul_account_id (ds_logs st)) \<subseteq> ds_attempted st"

definition found :: "bool \<Rightarrow> dispatch_request \<Rightarrow> dispatch_end \<Rightarrow> dispatch_state \<Rightarrow> pool \<Rightarrow> bool" where
  "found b rq out st p \<longleftrightarrow> (case out of Generated _ _ \<Rightarrow> False
     | Prepared r \<Rightarrow> ready rq (Some (r, st)) p \<and> (b \<longrightarrow> prepared_tuned (Some (r, st))) | _ \<Rightarrow> True)"

lemma found_unanswered: "\<not> is_answer e \<Longrightarrow> found b rq e st p"
  by (cases e) (simp_all add: found_def)

lemma use_lease_preflight:
  assumes "rq_preflight_only rq" "use_lease tk env cfg rq i r st p = (out, st', p')"
  shows "ds_sent st' = ds_sent st \<and> (out = End (Prepared r) \<and> st' = st\<lparr>ds_payload := prepare_model_request (ae_live env) (ds_payload st)\<rparr> \<and> p' = p
    \<or> (\<exists>e. out = End (Refused e)))"
  using assms by (auto simp: use_lease_def end_with_def Let_def split: if_splits)

lemma preflight_attempt:
  assumes "calm env" "b \<Longrightarrow> undisplaced env" "good p" "rq_preflight_only rq" "searching st" "dispatch_attempt tk env cfg rq i st p = (out, st', p')"
  shows "ds_sent st' = ds_sent st \<and> (case out of Go st'' \<Rightarrow> st'' = st' \<and> searching st' \<and> good p' | Leave \<Rightarrow> True | End e \<Rightarrow> found b rq e st' p')"
proof -
  have none: "ds_prepared_lease st = None" using assms(5) by (simp add: searching_def)
  obtain res p1 where c: "choose_account env rq st p = (res, p1)" by fastforce
  note ch = choose_account_taken [OF assms(1,3) c]
  show ?thesis
  proof (cases res)
    case (Go x)
    obtain r st1 where x: "x = (r, st1)" by (cases x)
    let ?a = "lease_account r p1" and ?p2 = "ae_meanwhile env 1 p1"
    have st1: "taken (rq_account_ids rq) p1 r" "ac_id ?a \<notin> ds_attempted st" "ds_sent st1 = ds_sent st"
        "ds_attempted st1 = ds_attempted st" "ds_prepared_lease st1 = None" "ds_logs st1 = ds_logs st"
      using ch Go x none by auto
    have p2: "steady p1 ?p2" using calm_meanwhile [OF assms(1)] ch steady_good by blast
    have t2: "leased (rq_account_ids rq) ?p2 r" "state_id ?p2 r = ac_id ?a" "b \<Longrightarrow> pool_get (ac_id ?a) ?p2 \<noteq> None"
      using leased_steady [OF _ p2] p2 st1(1) assms(2) ch steady_good by (auto simp: taken_def leased_def steady_def undisplaced_def)
    have d: "(out, st', p') = (case resolve_for_account env cfg rq ?a st1 ?p2 of
          Leave \<Rightarrow> (Leave, st1, ?p2) | End e \<Rightarrow> (End e, st1, drop_lease (ae_now_ms env) r ?p2)
        | Go (Inl (ms, st2)) \<Rightarrow> (Go (note_incompatible rq i ?a ms st2), note_incompatible rq i ?a ms st2, drop_lease (ae_now_ms env) r ?p2)
        | Go (Inr st2) \<Rightarrow> finish_attempt env (ac_id ?a) r (use_lease tk env cfg rq i r st2 ?p2))"
      unfolding assms(6) [symmetric] dispatch_attempt_def none c Go x Let_def option.case prod.case step_result.case by (rule refl)
    show ?thesis
    proof (cases "resolve_for_account env cfg rq ?a st1 ?p2")
      case (Go y)
      note rs = resolve_for_account_model [OF Go]
      show ?thesis
      proof (cases y)
        case (Inl z)
        then show ?thesis using d Go rs st1 assms(5) steady_good [OF steady_drop [OF steady_good [OF p2]]]
          by (cases z) (auto simp: searching_def note_incompatible_def)
      next
        case (Inr st2)
        obtain o2 st3 p3 where u: "use_lease tk env cfg rq i r st2 ?p2 = (o2, st3, p3)" by (metis prod_cases3)
        have st2: "state_id ?p2 r \<notin> set (map ul_account_id (ds_logs st2))" using assms(5) rs Inr st1 t2(2) by (auto simp: searching_def)
        have f: "(out, st', p') = finish_attempt env (ac_id ?a) r (o2, st3, p3)" using d Go Inr u by simp
        from use_lease_preflight [OF assms(4) u] f rs Inr st1 st2 t2 steady_good [OF p2] show ?thesis
          by (auto simp: finish_attempt_def found_def ready_def prepared_tuned_def)
      qed
    qed (use d st1 in \<open>auto dest: resolve_for_account_ends intro: found_unanswered\<close>)
  next
    case (End e)
    then have "found b rq e st p1" using choose_account_ends [of env rq st p e p1] c by (simp add: found_unanswered)
    then show ?thesis using assms(6) c none End by (auto simp: dispatch_attempt_def)
  qed (use assms(6) c none in \<open>auto simp: dispatch_attempt_def\<close>)
qed

lemma preflight_loop:
  assumes "\<And>i. calm (env i)" "\<And>i. b \<Longrightarrow> undisplaced (env i)" "rq_preflight_only rq" "good p" "searching st" "dispatch_loop tk env cfg rq is st p = (out, st', p')"
  shows "ds_sent st' = ds_sent st \<and> found b rq out st' p'"
  using assms(4-)
proof (induction "is" arbitrary: st p)
  case Nil
  then show ?case by (auto intro: found_unanswered)
next
  case (Cons i "is")
  obtain o1 st1 p1 where d: "dispatch_attempt tk (env i) cfg rq i st p = (o1, st1, p1)" by (metis prod_cases3)
  note once = preflight_attempt [OF assms(1,2) Cons.prems(1) assms(3) Cons.prems(2) d]
  show ?case
  proof (cases o1)
    case (Go st2)
    then have "dispatch_loop tk env cfg rq is st1 p1 = (out, st', p')" using Cons.prems(3) d once by simp
    from Cons.IH [OF _ _ this] once Go show ?thesis by simp
  qed (use once Cons.prems(3) d in \<open>auto intro: found_unanswered\<close>)
qed

lemma ready_steady: "ready rq prepared p \<Longrightarrow> steady p q \<Longrightarrow> ready rq prepared q"
  by (auto simp: ready_def leased_def steady_def split: option.splits)

text \<open>C39: A preflight sends nothing and never takes the arm marked unreachable: it ends as the loop does. Once it has prepared an
  account, the request can start from it, whatever operations of the pool the other tasks perform before and meanwhile, a reload of the accounts
  included; and unless a reload removed an account between its lease and the lookup of its models, the prepared payload names the model
  that was resolved.\<close>

theorem preflight_sends_nothing:
  assumes "\<And>i. calm (env i)" and "good p" and "prepare_upstream tk route env cfg rq q p = (out, st', p')"
  shows "ds_sent st' = [] \<and> (\<forall>r y. out \<noteq> Generated r y) \<and>
    dispatch_upstream tk env cfg (rq\<lparr>rq_compact := False, rq_preflight_only := True\<rparr>)
      (dispatch_start route cfg (rq\<lparr>rq_compact := False, rq_preflight_only := True\<rparr>) 0 q) p = (out, st', p') \<and>
    (\<forall>r. out = Prepared r \<longrightarrow> ready rq (Some (r, st')) p' \<and> (\<forall>p''. steady p' p'' \<longrightarrow> ready rq (Some (r, st')) p'') \<and>
       ((\<forall>i. undisplaced (env i)) \<longrightarrow> prepared_tuned (Some (r, st'))))"
proof -
  let ?rq = "rq\<lparr>rq_compact := False, rq_preflight_only := True\<rparr>" and ?st = "dispatch_start route cfg (rq\<lparr>rq_compact := False, rq_preflight_only := True\<rparr>) 0 q"
  let ?b = "\<forall>i. undisplaced (env i)"
  obtain o1 st1 p1 where run: "dispatch_upstream tk env cfg ?rq ?st p = (o1, st1, p1)" by (metis prod_cases3)
  have s: "searching ?st" by (simp add: searching_def)
  have u: "\<And>i. ?b \<Longrightarrow> undisplaced (env i)" by blast
  have "ds_sent st1 = ds_sent ?st \<and> found ?b ?rq o1 st1 p1"
    using preflight_loop [OF assms(1) u _ assms(2) s run [unfolded dispatch_upstream_def Let_def]] by simp
  moreover have "ready rq (Some (r, st1)) p1" if "ready ?rq (Some (r, st1)) p1" for r using that by (simp add: ready_def)
  ultimately show ?thesis using run assms(3) ready_steady
    by (cases o1) (fastforce simp: prepare_upstream_def Let_def found_def)+
qed

section \<open>Other tasks and witnesses\<close>

text \<open>The operations of the pool keep its accounts, a reload aside, which still keeps those that are leased: what the other tasks do between
  two awaits is a sequence of them.\<close>

lemma pool_step_lasting:
  assumes "good p" "\<And>as. op \<noteq> OpReplace as"
  shows "lasting p (pool_step op p)"
proof (cases op)
  case (OpAcquire j now now_ms model ids)
  then show ?thesis using acquire_taken [OF assms(1)] by (metis pool_step.simps(1) prod.collapse)
next
  case (OpScan j now now_ms model ids)
  then show ?thesis using lasting_woken [OF assms(1) candidates_woken] by simp (metis prod.collapse)
next
  case (OpSlots now_ms rs)
  then show ?thesis using lasting_refl [OF assms(1)] lasting_take [OF assms(1)] by simp (metis prod.collapse)
next
  case (OpEnqueue now model ids)
  then show ?thesis using lasting_refl [OF assms(1)] by (auto simp: enter_queue_def lasting_def steady_def pool_get_def Let_def)
next
  case (OpWake j now now_ms w)
  then show ?thesis using acquire_wake_taken [OF assms(1)] lasting_refl [OF assms(1)] by simp (metis prod.collapse)
next
  case (OpCancel w)
  then show ?thesis using lasting_refl [OF assms(1)] by (auto simp: leave_queue_def lasting_def steady_def pool_get_def)
next
  case (OpSettle t r x)
  then show ?thesis by (auto simp: settle_credits_def lasting_refl assms(1) intro!: lasting_update)
next
  case (OpReset i)
  then show ?thesis using assms(1)
    by (auto simp: reset_health_def lasting_refl state_reset_health_def set_health_def intro!: lasting_update split: option.split)
next
  case (OpConfig c)
  then show ?thesis using assms(1) by (simp add: update_config_def lasting_def steady_def pool_get_def)
next
  case (OpCounts now ids)
  then show ?thesis using lasting_woken [OF assms(1) count_loop_woken] by (simp add: scheduling_counts_in_def) (metis prod.collapse)
next
  case (OpExplain now now_ms model)
  then show ?thesis using lasting_woken [OF assms(1) explain_loop_woken] by (simp add: explain_def split_beta) (metis prod.collapse)
qed (use assms in \<open>simp_all add: lasting_refl lasting_drop lasting_records lasting_with_account quiet_ops\<close>)

lemma replace_loop_steady:
  assumes "replace_loop current as next states = (next', states')" "map_ok next states" "map_ok current states"
  shows "map_ok next' states' \<and> length states \<le> length states' \<and>
    (\<forall>k < length states. ac_id (as_account (states' ! k)) = ac_id (as_account (states ! k)))"
  using assms
proof (induction as arbitrary: "next" states)
  case (Cons a as)
  show ?case
  proof (cases "hm_get current (ac_id a)")
    case (Some r)
    let ?st = "states[r := (states ! r)\<lparr>as_account := a\<rparr>]"
    have r: "r < length states" "ac_id (as_account (states ! r)) = ac_id a"
      using map_of_SomeD [OF Some] Cons.prems(3) by (auto simp: map_ok_def)
    have same: "ac_id (as_account (?st ! k)) = ac_id (as_account (states ! k))" if "k < length states" for k
      using that r by (cases "k = r") simp_all
    have "map_ok current ?st" by (rule map_ok_mono [OF Cons.prems(3)]) (simp_all add: same)
    moreover have "map_ok (hm_insert (ac_id a) r next) ?st"
      by (intro map_ok_insert map_ok_mono [OF Cons.prems(2)]) (simp_all add: same r)
    ultimately show ?thesis using Cons.IH [of "hm_insert (ac_id a) r next" ?st] Cons.prems(1) same by (simp add: Some)
  next
    case None
    let ?st = "states @ [account_state_new a]"
    have "map_ok current ?st" by (rule map_ok_mono [OF Cons.prems(3)]) (simp_all add: nth_append)
    moreover have "map_ok (hm_insert (ac_id a) (length states) next) ?st"
      by (intro map_ok_insert map_ok_mono [OF Cons.prems(2)]) (simp_all add: nth_append account_state_new_def)
    ultimately show ?thesis
      using Cons.IH [of "hm_insert (ac_id a) (length states) next" ?st] Cons.prems(1) by (auto simp: None nth_append)
  qed
qed simp

lemma pool_step_steady: "good p \<Longrightarrow> steady p (pool_step op p)"
proof (cases "\<exists>as. op = OpReplace as")
  case True
  assume p: "good p"
  obtain as where "op = OpReplace as" using True by blast
  moreover obtain nx st where l: "replace_loop (pl_accounts p) as [] (pl_states p) = (nx, st)" by fastforce
  moreover have "map_ok [] (pl_states p)" by (simp add: map_ok_def)
  ultimately show ?thesis using replace_loop_steady [OF l _ p] by (simp add: steady_def replace_accounts_def)
next
  case False
  assume "good p"
  then show ?thesis using False lasting_steady [OF pool_step_lasting] by blast
qed

definition idle_attempt :: "nat \<Rightarrow> attempt_env" where
  "idle_attempt _ = \<lparr>ae_acquire = (\<lambda>_. (\<lambda>_. Fin 0, 0, 0, [])), ae_meanwhile = (\<lambda>_ p. p), ae_route = (\<lambda>_ _. None, \<lambda>_. None, 0),
     ae_live = \<lparr>lv_models = [], lv_thinking_mode = [], lv_max_input_tokens = 1000, lv_safe_input_ratio = Fin 1,
       lv_compact_safe_input_ratio = Fin 1\<rparr>,
     ae_fallback_live = \<lparr>lv_models = [], lv_thinking_mode = [], lv_max_input_tokens = 1000, lv_safe_input_ratio = Fin 1,
       lv_compact_safe_input_ratio = Fin 1\<rparr>,
     ae_now = 0, ae_now_ms = 0, ae_answer = Inl \<lparr>ke_status = Some 401, ke_endpoint = [], ke_message = []\<rparr>, ae_token_refreshed = True,
     ae_retry_answer = Inr \<lparr>kr_endpoint = for_key Amazonq demo_overrides, kr_thinking_enabled = False\<rparr>,
     ae_fallback_answer = Inl \<lparr>ke_status = None, ke_endpoint = [], ke_message = []\<rparr>\<rparr>"

definition plain_config :: dispatch_config where
  "plain_config = \<lparr>dc_max_retries = 2, dc_model_mapping = [], dc_provider_ids = [''kiro''], dc_pool = demo_config 1, dc_enable_model_fallback = False\<rparr>"

definition scoped_request :: dispatch_request where
  "scoped_request = \<lparr>rq_account_ids = [''a''], rq_model = ''m'', rq_requested_model = ''m'', rq_key_id = None, rq_allowed_models = [''m''],
     rq_service_id = None, rq_default_model = [], rq_locked_mapping_rule = None, rq_compact = False, rq_preflight_only = False\<rparr>"

definition scoped_start :: dispatch_state where
  "scoped_start = \<lparr>ds_actual_model = ''m'', ds_mapped_model = ''m'', ds_payload = sample_payload [] ''now'', ds_mapping_rule = None,
     ds_model_path = [''m''], ds_logs = [], ds_prepared_lease = None, ds_fallback_model = None, ds_attempted = {}, ds_last_error = None,
     ds_input_tokens = 0, ds_sent = []\<rparr>"

abbreviation scoped_run :: "dispatch_end \<times> dispatch_state \<times> pool" where
  "scoped_run \<equiv> execute_upstream byte_tokens (\<lambda>_ _. None, \<lambda>_. None, 0) idle_attempt plain_config scoped_request 0 (sample_payload [] ''now'')
     (Some (0, scoped_start)) demo_pool"

lemma idle_calm: "calm (idle_attempt i)"
  by (simp add: calm_def idle_attempt_def steady_refl)

lemma idle_undisplaced: "undisplaced (idle_attempt i)"
  by (simp add: undisplaced_def idle_attempt_def)

lemma demo_good: "good demo_pool"
  using pool_new_inv [of "[demo_member ''a'', demo_member ''b'']" "demo_config 1"] by (simp add: demo_pool_def pool_inv_def)

lemma scoped_ready: "ready scoped_request (Some (0, scoped_start)) demo_pool"
  unfolding ready_def by (intro conjI, rule demo_good)
    (simp add: leased_def demo_pool_fields pool_get_def scoped_request_def scoped_start_def
      account_state_new_def demo_member_def sample_payload_def sample_user_def)

lemma idle_fields [simp]:
  "ae_meanwhile (idle_attempt i) k p = p" "ae_answer (idle_attempt i) = Inl \<lparr>ke_status = Some 401, ke_endpoint = [], ke_message = []\<rparr>"
  "ae_token_refreshed (idle_attempt i)" "ae_retry_answer (idle_attempt i) = Inr \<lparr>kr_endpoint = for_key Amazonq demo_overrides, kr_thinking_enabled = False\<rparr>"
  by (simp_all add: idle_attempt_def)

lemma scoped_allowed: "model_is_allowed [''m''] ''kiro'' ''m''"
  by code_simp

lemma idle_window:
  "truncate_context_if_requested byte_tokens (ae_live (idle_attempt i)) q 0 c ''m'' = (Inr 0, q)"
  "check_context_limit (ae_live (idle_attempt i)) 0 c ''m'' = None"
  by (simp_all add: truncate_context_if_requested_def check_context_limit_def Let_def)

lemma idle_auth: "is_auth \<lparr>ke_status = Some 401, ke_endpoint = [], ke_message = []\<rparr>"
  by (simp add: is_auth_def)

lemma scoped_sent: "map fst (ds_sent (fst (snd scoped_run))) = [''a'', ''a'']"
  by (simp add: execute_upstream_def dispatch_upstream_def dispatch_resume_def retry_attempt_count_def scoped_request_def scoped_start_def
     plain_config_def dispatch_attempt_def use_lease_def Let_def scoped_allowed idle_window handle_error_def idle_auth recover_auth_def
     finish_attempt_def demo_pool_fields account_state_new_def demo_member_def log_error_def)

theorem dispatch_stays_in_scope_witness:
  "\<exists>st' x. fst (snd scoped_run) = st' \<and> (''a'', x) \<in> set (ds_sent st') \<and> ''a'' \<in> set (rq_account_ids scoped_request) \<and>
     model_is_allowed (rq_allowed_models scoped_request) ''kiro'' (payload_model x)"
proof -
  obtain out st' p' where run: "scoped_run = (out, st', p')" by (metis prod_cases3)
  then have "map fst (ds_sent st') = [''a'', ''a'']" using scoped_sent by simp
  then obtain x where x: "(''a'', x) \<in> set (ds_sent st')" by fastforce
  have "prepared_tuned (Some (0, scoped_start))" by (simp add: prepared_tuned_def scoped_start_def sample_payload_def sample_user_def)
  then show ?thesis using dispatch_stays_in_scope [OF idle_calm scoped_ready run x] x run idle_undisplaced by auto
qed


text \<open>A preflight that prepares the first account, which knows the model.\<close>

definition stocked_pool :: pool where
  "stocked_pool = with_account ''a'' (set_supported_models [''m'']) demo_pool"

lemma stocked_good: "good stocked_pool"
  unfolding stocked_pool_def with_account_def by (rule lasting_good)
    (auto simp: set_supported_models_def lasting_refl demo_good intro!: lasting_update split: option.split)

lemma one_model: "can_resolve_dynamic_model ''m'' [''m'']" "resolve_dynamic_model ''m'' [''m''] = Some ''m''"
  "strip_discovery_prefix ''m'' = ''m''" "configured_cross_provider_target [''kiro''] ''kiro'' ''m'' = None"
  by code_simp+

lemma stocked_acquire:
  "fst (acquire (\<lambda>_. Fin 0) 0 0 ''m'' [''a''] stocked_pool) = Acquired 0"
  "as_supported_models (pl_states (snd (acquire (\<lambda>_. Fin 0) 0 0 ''m'' [''a''] stocked_pool)) ! 0) = Some [''m'']"
  "as_account (pl_states (snd (acquire (\<lambda>_. Fin 0) 0 0 ''m'' [''a''] stocked_pool)) ! 0) = demo_member ''a''"
  "pl_accounts (snd (acquire (\<lambda>_. Fin 0) 0 0 ''m'' [''a''] stocked_pool)) = [(''a'', 0), (''b'', 1)]"
  by (simp_all add: acquire_def enter_queue_def candidates_def stocked_pool_def with_account_def pool_get_def set_supported_models_def
      demo_pool_fields eligible_def wake_def cooling_expired_def account_state_new_def demo_member_def account_credit_state_def
      serves_model_def one_model demo_config_def update_state_def Let_def try_acquire_def sort_by_def score_def score_cmp_def f_of_nat_def
      try_acquire_slot_def mark_used_now_def)

abbreviation preflight_run :: "dispatch_end \<times> dispatch_state \<times> pool" where
  "preflight_run \<equiv> prepare_upstream byte_tokens (\<lambda>_ _. None, \<lambda>_. None, 0) idle_attempt plain_config scoped_request (sample_payload [] ''now'')
     stocked_pool"

lemma stocked_stage:
  "acquire_stage (idle_attempt i) 0 (scoped_request\<lparr>rq_compact := False, rq_preflight_only := True\<rparr>) ''m'' st stocked_pool
     = (Acquired 0, snd (acquire (\<lambda>_. Fin 0) 0 0 ''m'' [''a''] stocked_pool))" if "ds_attempted st = {}"
  using stocked_acquire(1) that
  by (simp add: acquire_stage_def acquire_scoped_excluding_def idle_attempt_def scoped_request_def split_beta Let_def
      split: prod.split acquire_outcome.split)

lemma preflight_prepares: "fst preflight_run = Prepared 0"
proof -
  let ?rq = "scoped_request\<lparr>rq_compact := False, rq_preflight_only := True\<rparr>"
  let ?st = "dispatch_start (\<lambda>_ _. None, \<lambda>_. None, 0) plain_config ?rq 0 (sample_payload [] ''now'')"
  let ?p = "snd (acquire (\<lambda>_. Fin 0) 0 0 ''m'' [''a''] stocked_pool)"
  have st: "ds_actual_model ?st = ''m''" "ds_fallback_model ?st = None" by (simp_all add: dispatch_start_def scoped_request_def)
  have c: "choose_account (idle_attempt 0) ?rq ?st stocked_pool = (Go (0, ?st), ?p)"
    unfolding choose_account_def Let_def st(1) using stocked_stage [of ?st 0] by (simp add: settle_stage_def)
  obtain st2 where r: "resolve_for_account (idle_attempt 0) plain_config ?rq (demo_member ''a'') ?st ?p = Go (Inr st2)" "ds_actual_model st2 = ''m''"
    using st(2) by (simp add: resolve_for_account_def pool_get_def stocked_acquire(2,4) demo_member_def route_model_def scoped_request_def
        idle_attempt_def map_model_for_provider_def ordered_rules_def plain_config_def one_model resolve_model_def use_model_def Let_def)
  have "dispatch_attempt byte_tokens (idle_attempt 0) plain_config ?rq 0 ?st stocked_pool
      = finish_attempt (idle_attempt 0) ''a'' 0 (use_lease byte_tokens (idle_attempt 0) plain_config ?rq 0 0 st2 ?p)"
    using c r(1) stocked_acquire(3) by (simp add: dispatch_attempt_def demo_member_def)
  moreover have "fst (use_lease byte_tokens (idle_attempt 0) plain_config ?rq 0 0 st2 ?p) = End (Prepared 0)"
    using r(2) scoped_allowed by (simp add: use_lease_def Let_def scoped_request_def)
  ultimately have "fst (dispatch_attempt byte_tokens (idle_attempt 0) plain_config ?rq 0 ?st stocked_pool) = End (Prepared 0)"
    by (simp add: finish_attempt_def split_beta)
  then obtain st' p' where "dispatch_attempt byte_tokens (idle_attempt 0) plain_config ?rq 0 ?st stocked_pool = (End (Prepared 0), st', p')"
    by (metis prod.collapse)
  moreover have "retry_attempt_count (dc_max_retries plain_config) (length (rq_account_ids ?rq)) = 1"
    by (simp add: retry_attempt_count_def plain_config_def scoped_request_def)
  ultimately show ?thesis by (simp add: prepare_upstream_def dispatch_upstream_def Let_def)
qed

theorem preflight_sends_nothing_witness:
  "\<exists>st' p'. preflight_run = (Prepared 0, st', p') \<and> ds_sent st' = [] \<and> ready scoped_request (Some (0, st')) p' \<and>
     prepared_tuned (Some (0, st'))"
proof -
  obtain st' p' where run: "preflight_run = (Prepared 0, st', p')" by (metis preflight_prepares prod.collapse)
  show ?thesis using preflight_sends_nothing [OF idle_calm stocked_good run] run idle_undisplaced by blast
qed

end
