(* ===== verification/Validate.thy ===== *)
theory Validate
  imports ValidateContent
begin

text \<open>
  \<open>crates/kproxy-translate/src/validate.rs\<close>, second half: the checks of whole Claude and OpenAI requests.
\<close>

section \<open>Server tools\<close>

datatype search_kind = SearchRegex | SearchBm25

definition search_kind_of :: "string \<Rightarrow> search_kind option" where
  "search_kind_of kind =
     (if matches_type_family kind ''tool_search_tool_regex'' then Some SearchRegex
      else if matches_type_family kind ''tool_search_tool_bm25'' then Some SearchBm25
      else None)"

definition is_tool_search_type :: "string \<Rightarrow> bool" where
  "is_tool_search_type kind \<longleftrightarrow> search_kind_of kind \<noteq> None"

datatype server_tool_kind = ToolSearch | WebSearch

definition server_tool_kind :: "string \<Rightarrow> server_tool_kind option" where
  "server_tool_kind name =
     (if name = ''web_search'' then Some WebSearch else if is_tool_search_type name then Some ToolSearch else None)"

text \<open>The blocks of a request with their places, in the order of the two nested loops.\<close>

definition placed_message :: "nat \<Rightarrow> claude_message \<Rightarrow> (string \<times> json) list" where
  "placed_message message_index message =
     map (\<lambda>(block_index, block). (sub_at (sub (sub_at ''messages'' message_index) ''content'') block_index, block))
       (List.enumerate 0 (blocks_of (cm_content message)))"

definition placed_blocks :: "claude_request \<Rightarrow> (string \<times> json) list" where
  "placed_blocks request = concat (map (\<lambda>(i, message). placed_message i message) (List.enumerate 0 (cq_messages request)))"

fun collect_uses ::
  "(string \<times> json) list \<Rightarrow> (string \<rightharpoonup> string) \<Rightarrow> (string \<rightharpoonup> server_tool_kind \<times> string) \<Rightarrow>
     validation_error + (string \<rightharpoonup> server_tool_kind \<times> string)" where
  "collect_uses [] all_tool_uses server_tool_uses = Inr server_tool_uses"
| "collect_uses ((field, block) # rest) all_tool_uses server_tool_uses =
     (let kind = get_str block ''type'' in
      if kind \<notin> {Some ''tool_use'', Some ''server_tool_use''} then collect_uses rest all_tool_uses server_tool_uses
      else case get_str block ''id'' of
          None \<Rightarrow> collect_uses rest all_tool_uses server_tool_uses
        | Some i \<Rightarrow> (case all_tool_uses i of
            Some previous \<Rightarrow> Inl (InvalidField (sub field ''id'') (''tool-use id '' @ quote i @ '' is already defined at '' @ previous))
          | None \<Rightarrow>
              if kind = Some ''server_tool_use''
              then (let name = unwrap_or (get_str block ''name'') [] in
                case server_tool_kind name of
                  None \<Rightarrow> Inl (InvalidField (sub field ''name'') (''unsupported server tool '' @ quote name))
                | Some server_kind \<Rightarrow> collect_uses rest (all_tool_uses(i \<mapsto> field)) (server_tool_uses(i \<mapsto> (server_kind, field))))
              else collect_uses rest (all_tool_uses(i \<mapsto> field)) server_tool_uses))"

definition result_kind :: "json \<Rightarrow> server_tool_kind option" where
  "result_kind block =
     (if get_str block ''type'' = Some ''tool_search_tool_result'' then Some ToolSearch
      else if get_str block ''type'' = Some ''web_search_tool_result'' then Some WebSearch
      else None)"

fun match_results ::
  "(string \<times> json) list \<Rightarrow> (string \<rightharpoonup> server_tool_kind \<times> string) \<Rightarrow> (string \<rightharpoonup> server_tool_kind \<times> string) \<Rightarrow> string set \<Rightarrow>
     validation_error option" where
  "match_results [] server_tool_uses pending completed = None"
| "match_results ((field, block) # rest) server_tool_uses pending completed =
     (if get_str block ''type'' = Some ''server_tool_use''
      then (case get_str block ''id'' of
          None \<Rightarrow> match_results rest server_tool_uses pending completed
        | Some i \<Rightarrow> (case server_tool_uses i of
            None \<Rightarrow> match_results rest server_tool_uses pending completed
          | Some use_entry \<Rightarrow> match_results rest server_tool_uses (pending(i \<mapsto> use_entry)) completed))
      else case result_kind block of
          None \<Rightarrow>
            if get_str block ''type'' = Some ''tool_result''
               \<and> (case get_str block ''tool_use_id'' of None \<Rightarrow> False | Some i \<Rightarrow> server_tool_uses i \<noteq> None)
            then invalid (sub field ''tool_use_id'') (''server-tool call '' @ quote (unwrap_or (get_str block ''tool_use_id'') [])
              @ '' must be completed by its server result block, not tool_result'')
            else match_results rest server_tool_uses pending completed
        | Some kind \<Rightarrow> (case get_str block ''tool_use_id'' of
            None \<Rightarrow> match_results rest server_tool_uses pending completed
          | Some i \<Rightarrow>
              if i \<in> completed
              then invalid (sub field ''tool_use_id'') (''server-tool call '' @ quote i @ '' has more than one result'')
              else case pending i of
                  None \<Rightarrow> invalid (sub field ''tool_use_id'') (''server-tool result '' @ quote i @
                    (if server_tool_uses i \<noteq> None then '' appears before its server_tool_use'' else '' has no matching server_tool_use''))
                | Some (expected_kind, use_field) \<Rightarrow>
                    if expected_kind \<noteq> kind
                    then invalid (sub field ''tool_use_id'') (''server-tool result '' @ quote i @ '' does not match the call at '' @ use_field)
                    else match_results rest server_tool_uses (pending(i := None)) (insert i completed)))"

definition validate_server_tool_history :: "claude_request \<Rightarrow> validation_error option" where
  "validate_server_tool_history request = (case collect_uses (placed_blocks request) Map.empty Map.empty of
       Inl e \<Rightarrow> Some e
     | Inr server_tool_uses \<Rightarrow> match_results (placed_blocks request) server_tool_uses Map.empty {})"

definition block_references :: "json \<Rightarrow> json list" where
  "block_references block =
     (if get_str block ''type'' = Some ''tool_search_tool_result''
      then unwrap_or (Option.bind (v_pointer [''content'', ''tool_references''] block) as_array) []
      else if get_str block ''type'' = Some ''tool_result'' then unwrap_or (Option.bind (v_get block ''content'') as_array) []
      else [])"

definition validate_tool_references :: "claude_request \<Rightarrow> string set \<Rightarrow> validation_error option" where
  "validate_tool_references request tool_names =
     first_error (map (\<lambda>(field, block). each_index (\<lambda>index reference.
         if get_str reference ''type'' \<noteq> Some ''tool_reference'' then None
         else case get_str reference ''tool_name'' of
             None \<Rightarrow> None
           | Some name \<Rightarrow> refuse (name \<notin> tool_names) (sub (sub_at (sub field ''tool_reference'') index) ''tool_name'')
               (''referenced tool '' @ quote name @ '' is not defined in the top-level tools array'')) (block_references block))
       (placed_blocks request))"

section \<open>Parts of a request\<close>

definition validate_claude_system :: "json option \<Rightarrow> validation_error option" where
  "validate_claude_system value = (case value of
       None \<Rightarrow> None
     | Some (JString _) \<Rightarrow> None
     | Some (JArray blocks) \<Rightarrow> each_index (\<lambda>index block. refuse (get_str block ''type'' \<noteq> Some ''text'' \<or> get_str block ''text'' = None)
         (sub_at ''system'' index) ''expected a text content block'') blocks
     | Some _ \<Rightarrow> invalid ''system'' ''expected a string or content array'')"

definition validate_claude_output_config :: "claude_output_config option \<Rightarrow> string \<Rightarrow> validation_error option" where
  "validate_claude_output_config config path = (case Option.bind config co_effort of
       None \<Rightarrow> None
     | Some effort \<Rightarrow> refuse (effort \<notin> {''low'', ''medium'', ''high'', ''xhigh'', ''max''}) (sub path ''effort'')
         ''expected low, medium, high, xhigh, or max'')"

definition in_range :: "rat \<Rightarrow> rat \<Rightarrow> f64 \<Rightarrow> bool" where
  "in_range lo hi x \<longleftrightarrow> f_le (Fin lo) x \<and> f_le x (Fin hi)"

definition outside :: "rat \<Rightarrow> rat \<Rightarrow> f64 option \<Rightarrow> bool" where
  "outside lo hi x \<longleftrightarrow> (case x of None \<Rightarrow> False | Some v \<Rightarrow> \<not> in_range lo hi v)"

definition bad_identifier :: "string option \<Rightarrow> bool" where
  "bad_identifier i \<longleftrightarrow> (case i of None \<Rightarrow> False | Some s \<Rightarrow> trim s = [] \<or> 256 < length s)"

definition validate_stop_sequences :: "string list \<Rightarrow> validation_error option" where
  "validate_stop_sequences sequences = first_error
     [refuse ([] \<in> set sequences) ''stop_sequences'' ''sequences must not be empty'',
      refuse (MAX_STOP_SEQUENCES < length sequences) ''stop_sequences'' (''must contain at most '' @ decimal MAX_STOP_SEQUENCES @ '' sequences''),
      refuse (list_ex (\<lambda>s. MAX_STOP_SEQUENCE_BYTES < length s) sequences) ''stop_sequences''
        (''each sequence must be at most '' @ decimal MAX_STOP_SEQUENCE_BYTES @ '' bytes''),
      refuse (MAX_STOP_SEQUENCE_TOTAL_BYTES < foldl sat_add 0 (map length sequences)) ''stop_sequences''
        (''sequences must total at most '' @ decimal MAX_STOP_SEQUENCE_TOTAL_BYTES @ '' bytes'')]"

definition validate_thinking :: "thinking_config option \<Rightarrow> u32 option \<Rightarrow> validation_error option" where
  "validate_thinking thinking max_tokens = (case thinking of
       None \<Rightarrow> None
     | Some t \<Rightarrow> first_error
         [refuse (tc_type t \<notin> {''enabled'', ''adaptive'', ''disabled''}) ''thinking.type'' ''expected enabled, adaptive, or disabled'',
          refuse (tc_type t = ''enabled'' \<and> unwrap_or (tc_budget_tokens t) 0 < 1024) ''thinking.budget_tokens''
            ''enabled thinking requires at least 1024 tokens'',
          refuse (tc_type t = ''enabled'' \<and> (case (tc_budget_tokens t, max_tokens) of (Some budget, Some maximum) \<Rightarrow> maximum \<le> budget | _ \<Rightarrow> False))
            ''thinking.budget_tokens'' ''must be less than max_tokens'',
          refuse (tc_type t \<noteq> ''enabled'' \<and> tc_budget_tokens t \<noteq> None) ''thinking.budget_tokens''
            ''budget_tokens is only valid for enabled thinking'',
          refuse (case tc_display t of None \<Rightarrow> False | Some d \<Rightarrow> d \<notin> {''summarized'', ''omitted''}) ''thinking.display'' ''expected summarized or omitted'',
          refuse (tc_type t = ''disabled'' \<and> tc_display t \<noteq> None) ''thinking.display'' ''display is not valid for disabled thinking''])"

section \<open>Context management\<close>

definition MIN_COMPACT_TRIGGER_TOKENS :: nat where "MIN_COMPACT_TRIGGER_TOKENS = 50000"

definition edit_at :: "nat \<Rightarrow> string" where
  "edit_at index = sub_at ''context_management.edits'' index"

definition below :: "nat \<Rightarrow> json option \<Rightarrow> bool" where
  "below minimum value \<longleftrightarrow> (case Option.bind value as_u64 of None \<Rightarrow> True | Some n \<Rightarrow> n < minimum)"

definition validate_typed_count :: "json \<Rightarrow> string \<Rightarrow> string list \<Rightarrow> nat \<Rightarrow> validation_error option" where
  "validate_typed_count value field allowed_types minimum =
     (if \<not> is_object value then invalid field ''expected an object''
      else first_error
        [refuse (case get_str value ''type'' of None \<Rightarrow> True | Some kind \<Rightarrow> kind \<notin> set allowed_types) (sub field ''type'')
           (''expected '' @ join '' or '' allowed_types),
         refuse (below minimum (v_get value ''value'')) (sub field ''value'') (''must be an integer of at least '' @ decimal minimum),
         refuse (unknown_key [''type'', ''value''] value \<noteq> None) field ''contains an unsupported field''])"

definition validate_clear_thinking_edit :: "json \<Rightarrow> nat \<Rightarrow> validation_error option" where
  "validate_clear_thinking_edit edit index =
     (if unknown_key [''type'', ''keep''] edit \<noteq> None then invalid (edit_at index) ''contains an unsupported field''
      else case v_get edit ''keep'' of
          None \<Rightarrow> None
        | Some keep \<Rightarrow>
            if keep = JString ''all'' then None
            else if get_str keep ''type'' = Some ''all''
            then refuse (unknown_key [''type''] keep \<noteq> None) (sub (edit_at index) ''keep'') ''contains an unsupported field''
            else validate_typed_count keep (sub (edit_at index) ''keep'') [''thinking_turns''] 1)"

definition check_some :: "(json \<Rightarrow> validation_error option) \<Rightarrow> json option \<Rightarrow> validation_error option" where
  "check_some check value = (case value of None \<Rightarrow> None | Some v \<Rightarrow> check v)"

definition tool_names_array :: "json \<Rightarrow> bool" where
  "tool_names_array v \<longleftrightarrow> (case v of
       JArray names \<Rightarrow> list_all (\<lambda>name. case as_str name of None \<Rightarrow> False | Some s \<Rightarrow> trim s \<noteq> []) names
     | _ \<Rightarrow> False)"

definition validate_clear_tool_uses_edit :: "json \<Rightarrow> nat \<Rightarrow> validation_error option" where
  "validate_clear_tool_uses_edit edit index = first_error
     [refuse (unknown_key [''type'', ''trigger'', ''keep'', ''clear_at_least'', ''exclude_tools'', ''clear_tool_inputs''] edit \<noteq> None)
        (edit_at index) ''contains an unsupported field'',
      check_some (\<lambda>v. validate_typed_count v (sub (edit_at index) ''trigger'') [''input_tokens'', ''tool_uses''] 1) (v_get edit ''trigger''),
      check_some (\<lambda>v. validate_typed_count v (sub (edit_at index) ''keep'') [''tool_uses''] 0) (v_get edit ''keep''),
      check_some (\<lambda>v. validate_typed_count v (sub (edit_at index) ''clear_at_least'') [''input_tokens''] 1)
        (opt_filter (\<lambda>v. \<not> is_null v) (v_get edit ''clear_at_least'')),
      refuse (wrong_type (\<lambda>v. is_boolean v \<or> tool_names_array v) (opt_filter (\<lambda>v. \<not> is_null v) (v_get edit ''clear_tool_inputs'')))
        (sub (edit_at index) ''clear_tool_inputs'') ''expected a boolean, null, or an array of non-empty tool names'',
      refuse (wrong_type tool_names_array (opt_filter (\<lambda>v. \<not> is_null v) (v_get edit ''exclude_tools'')))
        (sub (edit_at index) ''exclude_tools'') ''expected an array of non-empty strings'']"

definition compact_trigger :: "json \<Rightarrow> nat \<Rightarrow> validation_error option" where
  "compact_trigger trigger index =
     (let field = sub (edit_at index) ''trigger'' in
      if \<not> is_object trigger then invalid field ''expected an object''
      else first_error
        [refuse (get_str trigger ''type'' \<noteq> Some ''input_tokens'') (sub field ''type'') ''expected input_tokens'',
         refuse (below MIN_COMPACT_TRIGGER_TOKENS (v_get trigger ''value'')) (sub field ''value'')
           (''must be an integer of at least '' @ decimal MIN_COMPACT_TRIGGER_TOKENS),
         refuse (unknown_key [''type'', ''value''] trigger \<noteq> None) field ''contains an unsupported field''])"

definition validate_compact_edit :: "json \<Rightarrow> nat \<Rightarrow> validation_error option" where
  "validate_compact_edit edit index = first_error
     [refuse (unknown_key [''type'', ''trigger'', ''pause_after_compaction'', ''instructions''] edit \<noteq> None) (edit_at index)
        ''contains an unsupported field'',
      refuse (wrong_type is_boolean (v_get edit ''pause_after_compaction'')) (sub (edit_at index) ''pause_after_compaction'') ''expected a boolean'',
      refuse (Option.bind (v_get edit ''pause_after_compaction'') as_bool = Some True) (sub (edit_at index) ''pause_after_compaction'')
        ''pausing after compaction is not supported by the Kiro upstream'',
      refuse (wrong_type is_str (v_get edit ''instructions'')) (sub (edit_at index) ''instructions'') ''expected a string'',
      refuse (case get_str edit ''instructions'' of None \<Rightarrow> False | Some s \<Rightarrow> trim s \<noteq> []) (sub (edit_at index) ''instructions'')
        ''custom compaction instructions are not supported by the Kiro upstream'',
      check_some (\<lambda>trigger. compact_trigger trigger index) (v_get edit ''trigger'')]"

definition edit_family :: "string \<Rightarrow> string option" where
  "edit_family edit_type =
     (if is_compact_edit_type edit_type then Some ''compact''
      else if matches_type_family edit_type ''clear_thinking'' then Some ''clear_thinking''
      else if matches_type_family edit_type ''clear_tool_uses'' then Some ''clear_tool_uses''
      else None)"

definition validate_family :: "string \<Rightarrow> json \<Rightarrow> nat \<Rightarrow> validation_error option" where
  "validate_family family edit index =
     (if family = ''clear_thinking''
      then if index \<noteq> 0 then invalid (sub (edit_at index) ''type'') ''clear_thinking must be the first context edit''
        else validate_clear_thinking_edit edit index
      else if family = ''clear_tool_uses'' then validate_clear_tool_uses_edit edit index
      else validate_compact_edit edit index)"

fun validate_edits :: "nat \<Rightarrow> string set \<Rightarrow> json list \<Rightarrow> validation_error option" where
  "validate_edits index known_families [] = None"
| "validate_edits index known_families (edit # edits) =
     (if \<not> is_object edit then invalid (edit_at index) ''expected an object''
      else case get_str edit ''type'' of
          None \<Rightarrow> invalid (sub (edit_at index) ''type'') ''expected a string''
        | Some edit_type \<Rightarrow>
            if trim edit_type = [] then invalid (sub (edit_at index) ''type'') ''must not be empty''
            else case edit_family edit_type of
                None \<Rightarrow> validate_edits (Suc index) known_families edits
              | Some family \<Rightarrow>
                  if family \<in> known_families then invalid (sub (edit_at index) ''type'') (''duplicate '' @ family @ '' edit'')
                  else (case validate_family family edit index of
                      Some e \<Rightarrow> Some e
                    | None \<Rightarrow> validate_edits (Suc index) (insert family known_families) edits))"

definition validate_context_management :: "json option \<Rightarrow> validation_error option" where
  "validate_context_management value = (case value of
       None \<Rightarrow> None
     | Some v \<Rightarrow>
         if \<not> is_object v then invalid ''context_management'' ''expected an object''
         else case unknown_key [''edits''] v of
             Some unknown \<Rightarrow> invalid (sub ''context_management'' unknown) ''unsupported context management field''
           | None \<Rightarrow> (case v_get v ''edits'' of
               None \<Rightarrow> None
             | Some (JArray edits) \<Rightarrow> validate_edits 0 {} edits
             | Some _ \<Rightarrow> invalid ''context_management.edits'' ''expected an array''))"

section \<open>Claude requests\<close>

definition as_check :: "validation_error + 'a \<Rightarrow> validation_error option" where
  "as_check r = (case r of Inl e \<Rightarrow> Some e | Inr _ \<Rightarrow> None)"

definition tool_schema_error :: "string \<Rightarrow> string \<Rightarrow> json \<Rightarrow> validation_error option" where
  "tool_schema_error field name schema = map_option (\<lambda>e. if e = ToolNameTooLong then e else InvalidField field (error_text e))
     (validate_tool name schema)"

definition kind_matches :: "(string \<Rightarrow> bool) \<Rightarrow> claude_tool \<Rightarrow> bool" where
  "kind_matches P tool \<longleftrightarrow> (case ct_type tool of None \<Rightarrow> False | Some kind \<Rightarrow> P kind)"

abbreviation web_tool :: "claude_tool \<Rightarrow> bool" where
  "web_tool tool \<equiv> kind_matches (\<lambda>kind. matches_type_family kind ''web_search'') tool"

abbreviation search_tool :: "claude_tool \<Rightarrow> bool" where
  "search_tool tool \<equiv> kind_matches is_tool_search_type tool"

definition web_tool_error :: "string \<Rightarrow> claude_tool \<Rightarrow> validation_error option" where
  "web_tool_error field tool = first_error
     [refuse (ct_input_examples tool \<noteq> None) (sub field ''input_examples'') ''input_examples is not supported on Claude server tools'',
      refuse (unwrap_or (ct_allowed_domains tool) [] \<noteq> [] \<or> unwrap_or (ct_blocked_domains tool) [] \<noteq> []) field
        ''web search domain filters are not supported by the Kiro MCP search endpoint'',
      refuse (ct_user_location tool \<noteq> None) (sub field ''user_location'')
        ''web search localization is not supported by the Kiro MCP search endpoint'',
      refuse (case ct_response_inclusion tool of None \<Rightarrow> False | Some v \<Rightarrow> v \<notin> {''full'', ''excluded''}) (sub field ''response_inclusion'')
        ''expected \"full\" or \"excluded\"'',
      refuse (ct_response_inclusion tool = Some ''excluded'') (sub field ''response_inclusion'')
        ''response_inclusion=\"excluded\" cannot be emulated because Kiro needs the search results to synthesize the answer'',
      refuse (ct_max_uses tool = Some 0) (sub field ''max_uses'') ''must be at least 1'']"

definition tool_type_error :: "string \<Rightarrow> claude_tool \<Rightarrow> validation_error option" where
  "tool_type_error field tool = first_error
     [refuse (kind_matches (\<lambda>kind. starts_with kind ''tool_search_tool_'') tool \<and> \<not> search_tool tool) (sub field ''type'')
        (''unsupported Claude Tool Search version '' @ quote (unwrap_or (ct_type tool) [])),
      refuse (web_tool tool \<and> ct_name tool \<noteq> ''web_search'') (sub field ''name'') ''web_search server tools must use name=\"web_search\"'',
      refuse (kind_matches (\<lambda>kind. kind \<noteq> ''custom'') tool \<and> \<not> web_tool tool \<and> \<not> search_tool tool) (sub field ''type'')
        (''unsupported Claude server tool '' @ quote (unwrap_or (ct_type tool) [])),
      if \<not> web_tool tool \<and> \<not> search_tool tool
      then tool_schema_error (sub field ''input_schema'') (ct_name tool) (ct_input_schema tool) else None]"

definition tool_callers_error :: "string \<Rightarrow> claude_tool \<Rightarrow> validation_error option" where
  "tool_callers_error field tool = first_error
     [refuse (case ct_allowed_callers tool of None \<Rightarrow> False | Some callers \<Rightarrow> callers \<noteq> [''direct'']) (sub field ''allowed_callers'')
        ''only allowed_callers=[\"direct\"] is supported; code-execution callers cannot be emulated by Kiro'',
      refuse (web_tool tool \<and> \<not> kind_matches (\<lambda>kind. kind \<in> {''web_search'', ''web_search_20250305''}) tool \<and> ct_allowed_callers tool = None)
        (sub field ''allowed_callers'')
        ''this web search version defaults to code execution; set allowed_callers=[\"direct\"] for Kiro compatibility'']"

definition claude_tool_error :: "nat \<Rightarrow> string set \<Rightarrow> claude_tool \<Rightarrow> validation_error option" where
  "claude_tool_error index seen tool =
     (let field = sub_at ''tools'' index;
          breakpoints = validate_cache_control (ct_cache_control tool) (sub field ''cache_control'')
      in first_error
        [refuse (kind_matches (\<lambda>kind. matches_type_family kind ''web_fetch'') tool) (sub field ''type'')
           ''Claude Web Fetch is not implemented by this proxy; rejecting it avoids exposing a client tool with incompatible server-tool semantics'',
         refuse (ct_type tool = Some ''mcp_toolset'') (sub field ''type'')
           ''mcp_toolset is not supported; expand it into individual custom tools or use Tool Search with defer_loading'',
         refuse (trim (ct_name tool) = []) (sub field ''name'') ''must not be empty'',
         refuse (ct_name tool \<in> seen) (sub field ''name'') ''tool names must be unique'',
         tool_type_error field tool,
         as_check breakpoints,
         tool_callers_error field tool,
         if web_tool tool then web_tool_error field tool
         else refuse (ct_max_uses tool \<noteq> None \<or> ct_allowed_domains tool \<noteq> None \<or> ct_blocked_domains tool \<noteq> None \<or> ct_user_location tool \<noteq> None
             \<or> ct_response_inclusion tool \<noteq> None) field
           ''web search configuration fields are only valid on web_search server tools'',
         refuse (ct_defer_loading tool \<and> breakpoints = Inr 1) (sub field ''cache_control'') ''deferred tools cannot define cache_control'',
         refuse (search_tool tool \<and> ct_defer_loading tool) (sub field ''defer_loading'') ''the Tool Search tool must be loaded immediately'',
         refuse (search_tool tool \<and> ct_input_examples tool \<noteq> None) (sub field ''input_examples'')
           ''input_examples is not supported on Claude server tools'',
         refuse (list_ex (\<lambda>example. \<not> is_object example) (unwrap_or (ct_input_examples tool) [])) (sub field ''input_examples'')
           ''every input example must be an object''])"

fun claude_tool_errors :: "nat \<Rightarrow> string set \<Rightarrow> claude_tool list \<Rightarrow> validation_error option" where
  "claude_tool_errors index seen [] = None"
| "claude_tool_errors index seen (tool # tools) = (case claude_tool_error index seen tool of
       Some e \<Rightarrow> Some e
     | None \<Rightarrow> claude_tool_errors (Suc index) (insert (ct_name tool) seen) tools)"

definition tool_bytes :: "validate_env \<Rightarrow> claude_tool \<Rightarrow> nat" where
  "tool_bytes env tool = length (ve_to_json env (claude_tool_value tool))"

definition catalog_bytes :: "validate_env \<Rightarrow> claude_tool list \<Rightarrow> nat" where
  "catalog_bytes env tools = foldl (\<lambda>n tool. sat_add (sat_add n (tool_bytes env tool)) 1) 2 tools"

definition tool_doc_chars :: "validate_env \<Rightarrow> claude_tool \<Rightarrow> nat" where
  "tool_doc_chars env tool = length (chars (ct_description tool))
     + (case ct_input_examples tool of None \<Rightarrow> 0 | Some examples \<Rightarrow> length (chars (ve_to_json env (JArray examples))))"

definition tool_catalog_error :: "validate_env \<Rightarrow> claude_tool list \<Rightarrow> validation_error option" where
  "tool_catalog_error env tools =
     (let deferred = filter ct_defer_loading tools; loaded = filter (\<lambda>tool. \<not> ct_defer_loading tool) tools in
      first_error
        [if MAX_TOOLS < length loaded then Some TooManyTools else None,
         if MAX_DEFERRED_TOOLS < length deferred then Some TooManyDeferredTools else None,
         if list_ex (\<lambda>tool. MAX_TOOL_BYTES < tool_bytes env tool) tools then Some ToolDefinitionTooLarge else None,
         if MAX_LOADED_TOOL_BYTES < catalog_bytes env loaded then Some LoadedToolDefinitionsTooLarge else None,
         if MAX_DEFERRED_TOOL_BYTES < catalog_bytes env deferred then Some DeferredToolDefinitionsTooLarge else None,
         refuse (deferred \<noteq> [] \<and> loaded = []) ''tools'' ''at least one tool must have defer_loading=false'',
         if MAX_TOOL_DOC_CHARS < sum_list (map (tool_doc_chars env) loaded) then Some ToolDocumentationTooLarge else None])"

definition choice_found :: "claude_tool list \<Rightarrow> string \<Rightarrow> bool" where
  "choice_found tools name \<longleftrightarrow> list_ex (\<lambda>tool. ct_name tool = name \<or> ct_type tool = Some name
     \<or> name = ''web_search'' \<and> web_tool tool \<or> name = ''web_fetch'' \<and> kind_matches (\<lambda>kind. matches_type_family kind ''web_fetch'') tool) tools"

definition tool_choice_error :: "claude_request \<Rightarrow> validation_error option" where
  "tool_choice_error request = (case cq_tool_choice request of
       None \<Rightarrow> None
     | Some choice \<Rightarrow> first_error
         [refuse (cc_type choice \<notin> {''auto'', ''any'', ''tool'', ''none''}) ''tool_choice.type'' ''expected auto, any, tool, or none'',
          if cc_type choice = ''tool''
          then (case opt_filter (\<lambda>name. trim name \<noteq> []) (cc_name choice) of
              None \<Rightarrow> invalid ''tool_choice.name'' ''a tool name is required''
            | Some name \<Rightarrow> refuse (\<not> choice_found (cq_tools request) name) ''tool_choice.name'' (''tool '' @ quote name @ '' was not found''))
          else refuse (cc_name choice \<noteq> None) ''tool_choice.name'' ''name is only valid when tool_choice.type is tool'',
          refuse (cc_type choice = ''any'' \<and> cq_tools request = []) ''tool_choice.type'' ''any requires at least one tool'',
          refuse (cc_type choice \<in> {''any'', ''tool''} \<and> (case cq_thinking request of None \<Rightarrow> False | Some t \<Rightarrow> tc_type t = ''enabled''))
            ''tool_choice.type'' ''forced tool choice is incompatible with enabled thinking''])"

definition claude_message_error :: "validate_env \<Rightarrow> nat \<Rightarrow> claude_message \<Rightarrow> validation_error option" where
  "claude_message_error env index message =
     (let field = sub_at ''messages'' index in
      first_error
        [if cm_role message \<notin> {''user'', ''assistant'', ''system''} then Some (InvalidRole (cm_role message)) else None,
         refuse (cm_output_config message \<noteq> None \<and> cm_role message \<noteq> ''system'') (sub field ''output_config'')
           ''per-message output_config is only supported on system messages'',
         validate_claude_output_config (cm_output_config message) (sub field ''output_config''),
         validate_claude_content env (cm_content message) (cm_role message) (sub field ''content'')])"

definition validate_claude_request :: "validate_env \<Rightarrow> claude_request \<Rightarrow> bool \<Rightarrow> validation_error option" where
  "validate_claude_request env request counting = first_error
     [validate_common (cq_model request) (cq_messages request = []),
      refuse (\<not> counting \<and> cq_max_tokens request = 0) ''max_tokens''
        ''zero-token cache warming is not supported by Kiro; setting maxTokens to zero can still generate output'',
      refuse (outside 0 1 (cq_temperature request)) ''temperature'' ''must be in 0..=1'',
      refuse (outside 0 1 (cq_top_p request)) ''top_p'' ''must be in 0..=1'',
      validate_stop_sequences (cq_stop_sequences request),
      validate_claude_system (cq_system request),
      validate_claude_output_config (cq_output_config request) ''output_config'',
      refuse (wrong_type is_object (cq_metadata request)) ''metadata'' ''expected an object'',
      refuse (bad_identifier (cq_conversation_id request)) ''conversation_id'' ''must be a non-empty string of at most 256 bytes'',
      each_index (claude_message_error env) (cq_messages request),
      refuse (MAX_IMAGES_PER_REQUEST < foldl sat_add 0 (map (count_claude_images \<circ> cm_content) (cq_messages request))) ''messages''
        (''must contain at most '' @ decimal MAX_IMAGES_PER_REQUEST @ '' image blocks''),
      refuse (MAX_DOCUMENTS_PER_REQUEST < foldl sat_add 0 (map (count_claude_documents_in_content \<circ> cm_content) (cq_messages request))) ''messages''
        (''must contain at most '' @ decimal MAX_DOCUMENTS_PER_REQUEST @ '' document blocks''),
      validate_server_tool_history request,
      tool_catalog_error env (cq_tools request),
      claude_tool_errors 0 {} (cq_tools request),
      validate_claude_cache_controls request,
      validate_tool_references request (ct_name ` set (cq_tools request)),
      tool_choice_error request,
      validate_thinking (cq_thinking request) (if counting then None else Some (cq_max_tokens request)),
      validate_context_management (cq_context_management request)]"

definition validate_claude :: "validate_env \<Rightarrow> claude_request \<Rightarrow> validation_error option" where
  "validate_claude env request = validate_claude_request env request False"

definition validate_claude_count :: "validate_env \<Rightarrow> claude_request \<Rightarrow> validation_error option" where
  "validate_claude_count env request = validate_claude_request env request True"

definition validate_claude_generation :: "claude_request \<Rightarrow> validation_error option" where
  "validate_claude_generation request =
     (case find (\<lambda>(_, message). cm_role message \<noteq> ''system'') (rev (List.enumerate 0 (cq_messages request))) of
        None \<Rightarrow> None
      | Some (index, message) \<Rightarrow> refuse (cm_role message = ''assistant'') (sub (sub_at ''messages'' index) ''role'')
          ''assistant prefill is not supported by the Kiro upstream'')"

section \<open>OpenAI requests\<close>

definition openai_part :: "validate_env \<Rightarrow> string \<Rightarrow> string \<Rightarrow> json \<Rightarrow> validation_error option" where
  "openai_part env role field part =
     (let kind = get_str part ''type'' in
      if kind = Some ''text'' \<and> get_str part ''text'' \<noteq> None then None
      else if kind = Some ''refusal'' \<and> role = ''assistant'' \<and> get_str part ''refusal'' \<noteq> None then None
      else if kind = Some ''document'' \<and> role \<in> {''user'', ''tool''} then validate_claude_document env part field
      else if kind = Some ''image_url''
      then (case Option.bind (v_pointer [''image_url'', ''url''] part) as_str of
          None \<Rightarrow> invalid (sub (sub field ''image_url'') ''url'') ''expected a string''
        | Some url \<Rightarrow> validate_openai_image_url env url (sub (sub field ''image_url'') ''url''))
      else invalid field ''expected a text or image_url content part'')"

definition openai_call_check :: "validate_env \<Rightarrow> string \<Rightarrow> json \<Rightarrow> validation_error option" where
  "openai_call_check env field call =
     (let kind = get_str call ''type'' in
      if kind \<notin> {Some ''function'', Some ''custom''} \<or> lacks call ''id''
      then invalid field ''expected a named function or custom tool call with an id''
      else (let definition = unwrap_or (v_get call (unwrap_or kind [])) JNull in
        if (case get_str definition ''name'' of None \<Rightarrow> True | Some name \<Rightarrow> trim name = []) then invalid (sub field ''name'') ''tool name is required''
        else if kind = Some ''function''
        then (case get_str definition ''arguments'' of
            None \<Rightarrow> invalid (sub (sub field ''function'') ''arguments'') ''expected a JSON string''
          | Some arguments \<Rightarrow> refuse (ve_from_json env arguments = None) (sub (sub field ''function'') ''arguments'') ''contains invalid JSON'')
        else refuse (get_str definition ''input'' = None) (sub (sub field ''custom'') ''input'') ''expected a string''))"

definition validate_openai_message :: "validate_env \<Rightarrow> openai_message \<Rightarrow> nat \<Rightarrow> validation_error + nat" where
  "validate_openai_message env message index =
     (let field = sub_at ''messages'' index;
          parts = (case om_content message of Some (JArray parts) \<Rightarrow> parts | _ \<Rightarrow> [])
      in case first_error
        [refuse (om_role message = ''tool'' \<and> (case om_tool_call_id message of None \<Rightarrow> True | Some i \<Rightarrow> trim i = [])) (sub field ''tool_call_id'')
           ''is required for tool messages'',
         refuse (om_content message = None \<and> (om_role message \<noteq> ''assistant'' \<or> om_tool_calls message = [] \<and> om_refusal message = None))
           (sub field ''content'') ''is required'',
         (case om_content message of
            None \<Rightarrow> None
          | Some (JString _) \<Rightarrow> None
          | Some (JArray parts) \<Rightarrow> each_index (\<lambda>i. openai_part env (om_role message) (sub_at (sub field ''content'') i)) parts
          | Some _ \<Rightarrow> invalid (sub field ''content'') ''expected a string or content array''),
         each_index (\<lambda>i. openai_call_check env (sub_at (sub field ''tool_calls'') i)) (om_tool_calls message)] of
           Some e \<Rightarrow> Inl e
         | None \<Rightarrow> Inr (length (filter (\<lambda>part. get_str part ''type'' = Some ''image_url'') parts)))"

definition openai_roles :: "string set" where
  "openai_roles = {''system'', ''developer'', ''user'', ''assistant'', ''tool''}"

text \<open>The counters of the loop over the messages: images, documents and cache markers.\<close>

fun openai_messages :: "validate_env \<Rightarrow> nat \<Rightarrow> nat \<times> nat \<times> nat \<Rightarrow> openai_message list \<Rightarrow> validation_error + nat \<times> nat \<times> nat" where
  "openai_messages env index counters [] = Inr counters"
| "openai_messages env index (images, documents, breakpoints) (message # messages) =
     (if om_role message \<notin> openai_roles then Inl (InvalidRole (om_role message))
      else and_then (validate_openai_message env message index) (\<lambda>n.
        and_then (validate_cache_control (om_cache_control message) (sub (sub_at ''messages'' index) ''cache_control'')) (\<lambda>k.
        case om_content message of
          None \<Rightarrow> openai_messages env (Suc index) (sat_add images n, documents, sat_add breakpoints k) messages
        | Some content \<Rightarrow> and_then (validate_content_cache_controls content (sub (sub_at ''messages'' index) ''content'')) (\<lambda>m.
            openai_messages env (Suc index)
              (sat_add images n, documents + count_claude_documents_in_content content, sat_add (sat_add breakpoints k) m) messages))))"

definition validate_custom_format :: "json option \<Rightarrow> nat \<Rightarrow> validation_error option" where
  "validate_custom_format format index = (case format of
       None \<Rightarrow> None
     | Some f \<Rightarrow>
         (let field = sub (sub (sub_at ''tools'' index) ''custom'') ''format'' in
          if get_str f ''type'' = Some ''text'' then None
          else if get_str f ''type'' = Some ''grammar''
          then (let grammar = unwrap_or (v_get f ''grammar'') JNull in
            refuse (get_str grammar ''definition'' = None \<or> get_str grammar ''syntax'' \<notin> {Some ''lark'', Some ''regex''})
              (sub field ''grammar'') ''requires a definition and lark or regex syntax'')
          else invalid (sub field ''type'') ''expected text or grammar''))"

definition openai_definition :: "openai_tool_entry \<Rightarrow> json" where
  "openai_definition tool = unwrap_or (v_get (ot_body tool) (ot_type tool)) JNull"

definition openai_tool_error :: "nat \<Rightarrow> openai_tool_entry \<Rightarrow> validation_error option" where
  "openai_tool_error index tool =
     (let field = sub_at ''tools'' index;
          definition = openai_definition tool;
          at_definition = sub field (ot_type tool);
          name = unwrap_or (get_str definition ''name'') []
      in first_error
        [refuse (ot_type tool \<notin> {''function'', ''custom''}) (sub field ''type'') ''expected function or custom'',
         as_check (validate_cache_control (v_get (ot_body tool) ''cache_control'') (sub field ''cache_control'')),
         refuse (\<not> is_object definition) at_definition ''expected an object'',
         refuse (trim name = []) (sub at_definition ''name'') ''must not be empty'',
         refuse (wrong_type is_str (v_get definition ''description'')) (sub at_definition ''description'') ''expected a string'',
         tool_schema_error (sub at_definition ''parameters'') name (unwrap_or (v_get definition ''parameters'') (JObject [])),
         if ot_type tool = ''function''
         then first_error
           [refuse (wrong_type is_object (v_get definition ''parameters'')) (sub at_definition ''parameters'') ''expected an object'',
            refuse (wrong_type (\<lambda>v. is_null v \<or> is_boolean v) (v_get definition ''strict'')) (sub at_definition ''strict'') ''expected a boolean'']
         else validate_custom_format (v_get definition ''format'') index])"

definition openai_tool_docs :: "openai_tool_entry \<Rightarrow> nat" where
  "openai_tool_docs tool =
     length (chars (unwrap_or (get_str (openai_definition tool) ''description'') []))
     + (if ot_type tool = ''function'' then 0
        else length (chars (unwrap_or (Option.bind (v_pointer [''format'', ''grammar'', ''definition''] (openai_definition tool)) as_str) [])))"

definition openai_tool_breakpoints :: "nat \<Rightarrow> openai_tool_entry \<Rightarrow> nat" where
  "openai_tool_breakpoints index tool =
     (case validate_cache_control (v_get (ot_body tool) ''cache_control'') (sub (sub_at ''tools'' index) ''cache_control'') of Inl _ \<Rightarrow> 0 | Inr n \<Rightarrow> n)"

definition defines_tool :: "openai_request \<Rightarrow> string \<Rightarrow> string \<Rightarrow> bool" where
  "defines_tool request kind name \<longleftrightarrow> list_ex (\<lambda>tool. ot_type tool = kind
     \<and> Option.bind (v_get (ot_body tool) kind) (\<lambda>definition. get_str definition ''name'') = Some name) (oq_tools request)"

fun allowed_references :: "openai_request \<Rightarrow> nat \<Rightarrow> (string \<times> string) set \<Rightarrow> json list \<Rightarrow> validation_error option" where
  "allowed_references request index seen [] = None"
| "allowed_references request index seen (reference # references) =
     (let field = sub_at ''tool_choice.allowed_tools.tools'' index in
      case opt_filter (\<lambda>kind. kind \<in> {''function'', ''custom''}) (get_str reference ''type'') of
        None \<Rightarrow> invalid (sub field ''type'') ''expected function or custom''
      | Some kind \<Rightarrow>
          (case opt_filter (\<lambda>name. trim name \<noteq> []) (Option.bind (v_get reference kind) (\<lambda>definition. get_str definition ''name'')) of
             None \<Rightarrow> invalid (sub (sub field kind) ''name'') ''tool name is required''
           | Some name \<Rightarrow>
               if (kind, name) \<in> seen then invalid (sub (sub field kind) ''name'') ''duplicate allowed tool''
               else if \<not> defines_tool request kind name
               then invalid (sub (sub field kind) ''name'') (''tool '' @ quote name @ '' was not found'')
               else allowed_references request (Suc index) (insert (kind, name) seen) references))"

definition named_choice :: "openai_request \<Rightarrow> json \<Rightarrow> string \<Rightarrow> string \<Rightarrow> validation_error option" where
  "named_choice request choice kind name =
     (if get_str choice ''type'' \<noteq> Some kind
      then invalid ''tool_choice.type'' (''expected '' @ quote kind @ '' for a '' @ kind @ '' tool choice'')
      else refuse (\<not> defines_tool request kind name) (sub (sub ''tool_choice'' kind) ''name'') (''tool '' @ quote name @ '' was not found''))"

definition choice_name :: "json \<Rightarrow> string \<Rightarrow> string option" where
  "choice_name choice kind = Option.bind (v_get choice kind) (\<lambda>definition. get_str definition ''name'')"

definition validate_openai_tool_choice :: "openai_request \<Rightarrow> validation_error option" where
  "validate_openai_tool_choice request = (case oq_tool_choice request of
       None \<Rightarrow> None
     | Some choice \<Rightarrow>
         if as_str choice \<in> {Some ''none'', Some ''auto''} then None
         else if as_str choice = Some ''required'' then refuse (oq_tools request = []) ''tool_choice'' ''required requires at least one tool''
         else case choice_name choice ''function'' of
             Some name \<Rightarrow> named_choice request choice ''function'' name
           | None \<Rightarrow> (case choice_name choice ''custom'' of
               Some name \<Rightarrow> named_choice request choice ''custom'' name
             | None \<Rightarrow>
                 if get_str choice ''type'' = Some ''allowed_tools''
                 then (let allowed = unwrap_or (v_get choice ''allowed_tools'') JNull in
                   if get_str allowed ''mode'' \<notin> {Some ''auto'', Some ''required''}
                   then invalid ''tool_choice.allowed_tools.mode'' ''expected auto or required''
                   else case Option.bind (v_get allowed ''tools'') as_array of
                       None \<Rightarrow> invalid ''tool_choice.allowed_tools.tools'' ''expected a non-empty array''
                     | Some tools \<Rightarrow> if tools = [] then invalid ''tool_choice.allowed_tools.tools'' ''expected a non-empty array''
                         else allowed_references request 0 {} tools)
                 else invalid ''tool_choice'' ''unsupported tool choice''))"

definition openai_stop_error :: "json option \<Rightarrow> validation_error option" where
  "openai_stop_error stop =
     (let bounded = (\<lambda>sequences. refuse (list_ex (\<lambda>value. value = [] \<or> MAX_STOP_SEQUENCE_BYTES < length value) sequences) ''stop''
            (''each sequence must contain 1..='' @ decimal MAX_STOP_SEQUENCE_BYTES @ '' bytes''))
      in case stop of
           None \<Rightarrow> None
         | Some (JString value) \<Rightarrow> bounded [value]
         | Some (JArray values) \<Rightarrow> if length values \<le> 4 \<and> list_all is_str values then bounded (List.map_filter as_str values)
             else invalid ''stop'' ''expected a string or an array of at most 4 strings''
         | Some _ \<Rightarrow> invalid ''stop'' ''expected a string or an array of at most 4 strings'')"

definition openai_stream_options_error :: "json option \<Rightarrow> validation_error option" where
  "openai_stream_options_error options = (case options of
       None \<Rightarrow> None
     | Some v \<Rightarrow> if \<not> is_object v then invalid ''stream_options'' ''expected an object''
         else refuse (wrong_type (\<lambda>x. is_null x \<or> is_boolean x) (v_get v ''include_usage'')) ''stream_options'' ''include_usage must be a boolean'')"

definition reasoning_efforts :: "string set" where
  "reasoning_efforts = {''none'', ''minimal'', ''low'', ''medium'', ''high'', ''xhigh'', ''max''}"

definition openai_head_error :: "openai_request \<Rightarrow> validation_error option" where
  "openai_head_error request = first_error
     [validate_common (oq_model request) (oq_messages request = []),
      refuse (case oq_n request of None \<Rightarrow> False | Some n \<Rightarrow> n = 0 \<or> 128 < n) ''n'' ''must be in 1..=128'',
      openai_stop_error (oq_stop request),
      refuse (outside 0 2 (oq_temperature request)) ''temperature'' ''must be in 0..=2'',
      refuse (outside 0 1 (oq_top_p request)) ''top_p'' ''must be in 0..=1'',
      refuse (oq_max_tokens request = Some 0 \<or> oq_max_completion_tokens request = Some 0) ''max_tokens'' ''token limits must be positive'',
      openai_stream_options_error (oq_stream_options request)]"

definition openai_tail_error :: "openai_request \<Rightarrow> nat \<Rightarrow> nat \<Rightarrow> nat \<Rightarrow> validation_error option" where
  "openai_tail_error request images documents breakpoints = first_error
     [refuse (MAX_IMAGES_PER_REQUEST < images) ''messages'' (''must contain at most '' @ decimal MAX_IMAGES_PER_REQUEST @ '' image parts''),
      if MAX_TOOLS < length (oq_tools request) then Some TooManyTools else None,
      refuse (MAX_DOCUMENTS_PER_REQUEST < documents) ''messages'' (''must contain at most '' @ decimal MAX_DOCUMENTS_PER_REQUEST @ '' file parts''),
      each_index openai_tool_error (oq_tools request),
      if MAX_TOOL_DOC_CHARS < sum_list (map openai_tool_docs (oq_tools request)) then Some ToolDocumentationTooLarge else None,
      refuse (MAX_CACHE_BREAKPOINTS < foldl sat_add breakpoints (map (\<lambda>(i, tool). openai_tool_breakpoints i tool) (List.enumerate 0 (oq_tools request))))
        ''cache_control'' (''must define at most '' @ decimal MAX_CACHE_BREAKPOINTS @ '' cache breakpoints''),
      validate_openai_tool_choice request,
      refuse (case oq_reasoning_effort request of None \<Rightarrow> False | Some effort \<Rightarrow> effort \<notin> reasoning_efforts) ''reasoning_effort''
        ''expected none, minimal, low, medium, high, xhigh, or max'',
      refuse (bad_identifier (oq_conversation_id request)) ''conversation_id'' ''must be a non-empty string of at most 256 bytes'',
      refuse (wrong_type is_object (oq_metadata request)) ''metadata'' ''expected an object'',
      validate_thinking (oq_thinking request) (output_token_limit request)]"

definition validate_openai :: "validate_env \<Rightarrow> openai_request \<Rightarrow> validation_error option" where
  "validate_openai env request = (case openai_head_error request of
       Some e \<Rightarrow> Some e
     | None \<Rightarrow> (case openai_messages env 0 (0, 0, 0) (oq_messages request) of
         Inl e \<Rightarrow> Some e
       | Inr (images, documents, breakpoints) \<Rightarrow> openai_tail_error request images documents breakpoints))"

section \<open>Files of the OpenAI protocol\<close>

text \<open>\<open>openai_file_document\<close> of \<open>compatibility.rs\<close>. The fields of an object are in key order.\<close>

definition file_source :: "validate_env \<Rightarrow> string \<Rightarrow> (string \<times> json) list \<Rightarrow> string \<Rightarrow> validation_error + json" where
  "file_source env field title data =
     (case (case strip_prefix data ''data:'' of
              Some rest \<Rightarrow> (case str_find '';base64,'' rest of
                  None \<Rightarrow> Inl (InvalidField (sub field ''file_data'') ''expected a base64 data URL'')
                | Some i \<Rightarrow> Inr (Some (take i rest), drop (i + 8) rest))
            | None \<Rightarrow> Inr (None, data)) of
        Inl e \<Rightarrow> Inl e
      | Inr (media, encoded) \<Rightarrow>
          (let source = (\<lambda>media_type. JObject ([(''data'', JString encoded)] @ (case media_type of None \<Rightarrow> [] | Some m \<Rightarrow> [(''media_type'', JString m)])
                 @ [(''type'', JString ''base64'')]))
           in if claude_document_format (JObject ((''source'', source media) # title @ [(''type'', JString ''document'')])) \<noteq> None
              then Inr (source media)
              else case ve_base64 env encoded of
                  None \<Rightarrow> Inl (InvalidField (sub field ''file_data'') ''invalid base64 document data'')
                | Some bytes \<Rightarrow>
                    if starts_with bytes ''%PDF-'' then Inr (source (Some ''application/pdf''))
                    else if utf8_valid (map byte bytes) then Inr (source (Some ''text/plain''))
                    else Inl (InvalidField (sub field ''filename'') ''provide a filename or a data URL media type for binary documents'')))"

definition openai_file_document :: "validate_env \<Rightarrow> json \<Rightarrow> string \<Rightarrow> validation_error + json" where
  "openai_file_document env part field =
     (let file = unwrap_or (v_get part ''file'') part;
          present = (\<lambda>k. opt_filter (\<lambda>v. \<not> is_null v) (v_get file k));
          control = (case v_get part ''cache_control'' of None \<Rightarrow> [] | Some c \<Rightarrow> [(''cache_control'', c)]);
          document = (\<lambda>title source. JObject (control @ (''source'', source) # title @ [(''type'', JString ''document'')]))
      in if present ''file_id'' \<noteq> None
         then Inl (InvalidField (sub field ''file_id'') ''hosted file IDs cannot be resolved by Kiro; provide file_data or file_url'')
         else if wrong_type is_str (present ''filename'') then Inl (InvalidField (sub field ''filename'') ''expected a string'')
         else (let title = (case present ''filename'' of None \<Rightarrow> [] | Some f \<Rightarrow> [(''title'', f)]) in
           case present ''file_url'' of
             Some url \<Rightarrow> if \<not> is_str url then Inl (InvalidField (sub field ''file_url'') ''expected a string'')
               else Inr (document title (JObject [(''type'', JString ''url''), (''url'', url)]))
           | None \<Rightarrow> (case get_str file ''file_data'' of
               None \<Rightarrow> Inl (InvalidField (sub field ''file_data'') ''expected base64 data or a base64 data URL'')
             | Some data \<Rightarrow> map_sum id (document title) (file_source env field title data))))"

end
