(* ===== verification/ValidateCorrect.thy ===== *)
theory ValidateCorrect
  imports Validate
begin

text \<open>
  What an accepted request is known to satisfy: bounded tool schemas, the order of server-tool calls and results, well-formed
  attachments, and context edits that are read as they were written.
\<close>

section \<open>Tool schemas\<close>

fun json_depth :: "json \<Rightarrow> nat" where
  "json_depth (JArray values) = Suc (foldr max (map json_depth values) 0)"
| "json_depth (JObject values) = Suc (foldr max (map (\<lambda>(_, v). json_depth v) values) 0)"
| "json_depth _ = 1"

lemma foldr_max_le: "foldr max (map f xs) 0 \<le> n \<longleftrightarrow> (\<forall>x \<in> set xs. f x \<le> (n :: nat))"
  by (induction xs) auto

lemma json_depth_children: "json_depth v \<le> Suc n \<longleftrightarrow> (\<forall>c \<in> set (children v). json_depth c \<le> n)"
  by (cases v) (auto simp: foldr_max_le)

lemma json_depth_pos: "0 < json_depth v"
  by (cases v) simp_all

lemma json_nodes_pos: "0 < json_nodes v"
  by (cases v) simp_all

text \<open>The loop over the stack passes exactly if all values that are left fit; otherwise it names a limit that is exceeded.\<close>

definition fits_stack :: "nat \<Rightarrow> (json \<times> nat) list \<Rightarrow> bool" where
  "fits_stack n stack \<longleftrightarrow> n + sum_list (map (json_nodes \<circ> fst) stack) \<le> MAX_SCHEMA_NODES"

definition deep_stack :: "(json \<times> nat) list \<Rightarrow> bool" where
  "deep_stack stack \<longleftrightarrow> (\<exists>(v, d) \<in> set stack. Suc MAX_SCHEMA_DEPTH < d + json_depth v)"

lemma schema_loop_exact:
  "n \<le> MAX_SCHEMA_NODES \<Longrightarrow> (case schema_loop n stack of
       None \<Rightarrow> fits_stack n stack \<and> \<not> deep_stack stack
     | Some e \<Rightarrow> e = SchemaTooLarge \<and> \<not> fits_stack n stack \<or> e = SchemaTooDeep \<and> deep_stack stack)"
proof (induction n stack rule: schema_loop.induct)
  case (1 n)
  then show ?case by (simp add: fits_stack_def deep_stack_def)
next
  case (2 n v d stack)
  let ?next = "rev (map (\<lambda>c. (c, Suc d)) (children v)) @ stack"
  have fits: "fits_stack (Suc n) ?next \<longleftrightarrow> fits_stack n ((v, d) # stack)"
    by (simp add: fits_stack_def json_nodes_children [of v] rev_map [symmetric] sum_list_rev comp_def)
  have deep: "deep_stack ?next \<longleftrightarrow> deep_stack ((v, d) # stack)" if "d \<le> MAX_SCHEMA_DEPTH"
  proof -
    have "Suc MAX_SCHEMA_DEPTH < d + json_depth v \<longleftrightarrow> \<not> json_depth v \<le> Suc (MAX_SCHEMA_DEPTH - d)" using that by linarith
    also have "\<dots> \<longleftrightarrow> (\<exists>c \<in> set (children v). Suc MAX_SCHEMA_DEPTH < Suc d + json_depth c)"
    proof -
      have "\<not> json_depth c \<le> MAX_SCHEMA_DEPTH - d \<longleftrightarrow> Suc MAX_SCHEMA_DEPTH < Suc d + json_depth c" for c using that by linarith
      then show ?thesis by (simp add: json_depth_children)
    qed
    finally have v: "Suc MAX_SCHEMA_DEPTH < d + json_depth v \<longleftrightarrow> (\<exists>c \<in> set (children v). Suc MAX_SCHEMA_DEPTH < Suc d + json_depth c)" .
    have "deep_stack ?next \<longleftrightarrow> (\<exists>c \<in> set (children v). Suc MAX_SCHEMA_DEPTH < Suc d + json_depth c) \<or> deep_stack stack"
      unfolding deep_stack_def by (simp add: bex_Un image_iff Bex_def) fastforce
    moreover have "deep_stack ((v, d) # stack) \<longleftrightarrow> Suc MAX_SCHEMA_DEPTH < d + json_depth v \<or> deep_stack stack" by (simp add: deep_stack_def)
    ultimately show ?thesis using v by simp
  qed
  consider "MAX_SCHEMA_NODES < Suc n" | "Suc n \<le> MAX_SCHEMA_NODES" "MAX_SCHEMA_DEPTH < d" | "Suc n \<le> MAX_SCHEMA_NODES" "d \<le> MAX_SCHEMA_DEPTH"
    by linarith
  then show ?case
  proof cases
    case 1
    then show ?thesis using json_nodes_pos [of v] by (simp add: fits_stack_def)
  next
    case 2
    then show ?thesis using json_depth_pos [of v] by (auto simp: deep_stack_def)
  next
    case 3
    then show ?thesis using "2.IH" fits deep by (auto split: option.splits)
  qed
qed

text \<open>C34: The check of a tool definition is exact. It passes exactly if the name has at most 128 characters and the schema at
  most 50000 values and 64 levels, and the error it gives names a limit that is exceeded; the loop over the schema ends.\<close>

theorem tool_check_exact:
  "case validate_tool name schema of
     None \<Rightarrow> length (chars name) \<le> MAX_TOOL_NAME_CHARS \<and> json_nodes schema \<le> MAX_SCHEMA_NODES \<and> json_depth schema \<le> MAX_SCHEMA_DEPTH
   | Some e \<Rightarrow> e = ToolNameTooLong \<and> MAX_TOOL_NAME_CHARS < length (chars name)
       \<or> e = SchemaTooLarge \<and> MAX_SCHEMA_NODES < json_nodes schema \<or> e = SchemaTooDeep \<and> MAX_SCHEMA_DEPTH < json_depth schema"
  using schema_loop_exact [of 0 "[(schema, 1)]"]
  by (auto simp: validate_tool_def fits_stack_def deep_stack_def not_le not_less split: option.splits)

section \<open>Server tools\<close>

abbreviation some_of :: "('a \<Rightarrow> 'b option) \<Rightarrow> 'a list \<Rightarrow> 'b list" where
  "some_of f xs \<equiv> List.map_filter f xs"

definition use_id :: "json \<Rightarrow> string option" where
  "use_id b = (if get_str b ''type'' \<in> {Some ''tool_use'', Some ''server_tool_use''} then get_str b ''id'' else None)"

definition server_use :: "json \<Rightarrow> (string \<times> server_tool_kind option) option" where
  "server_use b = (if get_str b ''type'' = Some ''server_tool_use''
     then map_option (\<lambda>i. (i, server_tool_kind (unwrap_or (get_str b ''name'') []))) (get_str b ''id'') else None)"

definition server_result :: "json \<Rightarrow> (string \<times> server_tool_kind) option" where
  "server_result b = Option.bind (result_kind b) (\<lambda>k. map_option (\<lambda>i. (i, k)) (get_str b ''tool_use_id''))"

definition client_result :: "json \<Rightarrow> string option" where
  "client_result b = (if get_str b ''type'' = Some ''tool_result'' then get_str b ''tool_use_id'' else None)"

text \<open>The protocol: no identifier is used for two calls, every server call is of a known kind, every server result answers an earlier call
  of its kind, no call has two results, and a client never answers a server call.\<close>

definition server_protocol :: "json list \<Rightarrow> bool" where
  "server_protocol bs \<longleftrightarrow> distinct (some_of use_id bs) \<and> (\<forall>b \<in> set bs. \<forall>i. server_use b \<noteq> Some (i, None)) \<and>
     distinct (map fst (some_of server_result bs)) \<and>
     (\<forall>n < length bs. \<forall>i k. server_result (bs ! n) = Some (i, k) \<longrightarrow> (\<exists>m < n. server_use (bs ! m) = Some (i, Some k))) \<and>
     (\<forall>b \<in> set bs. \<forall>i. client_result b = Some i \<longrightarrow> i \<notin> fst ` set (some_of server_use bs))"

lemma some_of_simps [simp]: "some_of f [] = []" "some_of f (x # xs) = (case f x of None \<Rightarrow> some_of f xs | Some y \<Rightarrow> y # some_of f xs)"
  by (simp_all add: List.map_filter_def split: option.split)

lemma set_some_of [simp]: "set (some_of f xs) = {y. \<exists>x \<in> set xs. f x = Some y}"
  by (induction xs) (auto split: option.splits)

lemma server_use_id: "server_use b = Some (i, k) \<Longrightarrow> use_id b = Some i"
  by (auto simp: server_use_def use_id_def split: if_splits)

text \<open>The first pass.\<close>

lemma fresh_update: "m i = None \<Longrightarrow> (\<forall>j \<in> A. (m(i \<mapsto> x)) j = None) \<longleftrightarrow> i \<notin> A \<and> (\<forall>j \<in> A. m j = None)"
  by auto

definition known_uses :: "json list \<Rightarrow> bool" where
  "known_uses bs \<longleftrightarrow> (\<forall>b \<in> set bs. \<forall>i. server_use b \<noteq> Some (i, None))"

lemma collect_uses_step:
  "collect_uses ((f, b) # bs) all_uses s0 = (case use_id b of
       None \<Rightarrow> collect_uses bs all_uses s0
     | Some i \<Rightarrow> (case all_uses i of
         Some previous \<Rightarrow> Inl (InvalidField (sub f ''id'') (''tool-use id '' @ quote i @ '' is already defined at '' @ previous))
       | None \<Rightarrow> (case server_use b of
           None \<Rightarrow> collect_uses bs (all_uses(i \<mapsto> f)) s0
         | Some (_, None) \<Rightarrow> Inl (InvalidField (sub f ''name'') (''unsupported server tool '' @ quote (unwrap_or (get_str b ''name'') [])))
         | Some (_, Some k) \<Rightarrow> collect_uses bs (all_uses(i \<mapsto> f)) (s0(i \<mapsto> (k, f))))))"
  by (cases "get_str b ''id''"; cases "server_tool_kind (unwrap_or (get_str b ''name'') [])")
     (simp_all add: use_id_def server_use_def Let_def split: option.split)

lemma collect_uses_iff:
  "(\<exists>s. collect_uses bs all_uses s0 = Inr s) \<longleftrightarrow>
     distinct (some_of use_id (map snd bs)) \<and> (\<forall>i \<in> set (some_of use_id (map snd bs)). all_uses i = None) \<and> known_uses (map snd bs)"
proof (induction bs arbitrary: all_uses s0)
  case (Cons fb bs)
  obtain f b where fb: "fb = (f, b)" by (cases fb)
  let ?ids = "some_of use_id (map snd bs)"
  note step = collect_uses_step [of f b bs all_uses s0]
  show ?case
  proof (cases "use_id b")
    case None
    then have "server_use b = None" by (auto simp: server_use_def use_id_def split: if_splits)
    then show ?thesis unfolding fb step using Cons.IH None by (simp add: known_uses_def)
  next
    case (Some i)
    show ?thesis
    proof (cases "all_uses i")
      case None
      note fresh = fresh_update [of all_uses i "set ?ids" f, OF None]
      have ih: "(\<exists>s. collect_uses bs (all_uses(i \<mapsto> f)) t = Inr s) \<longleftrightarrow> distinct (i # ?ids) \<and> (\<forall>j \<in> set (i # ?ids). all_uses j = None) \<and> known_uses (map snd bs)" for t
        unfolding Cons.IH fresh using None by auto
      have ids: "some_of use_id (map snd (fb # bs)) = i # ?ids" using Some fb by simp
      have known: "known_uses (map snd (fb # bs)) \<longleftrightarrow> (\<forall>j. server_use b \<noteq> Some (j, None)) \<and> known_uses (map snd bs)"
        by (simp add: known_uses_def fb)
      consider "server_use b = None" | j where "server_use b = Some (j, None)" | j k where "server_use b = Some (j, Some k)"
        by (metis option.exhaust surj_pair)
      then show ?thesis unfolding ids known unfolding fb step Some option.case None
        by cases (simp_all only: option.case prod.case ih, auto)
    qed (use fb step Some in \<open>auto simp: known_uses_def\<close>)
  qed
qed (simp add: known_uses_def)

lemma collect_uses_map:
  "collect_uses bs all_uses s0 = Inr s \<Longrightarrow>
     map_option fst (s i) = (case map_of (rev (some_of server_use (map snd bs))) i of Some k \<Rightarrow> k | None \<Rightarrow> map_option fst (s0 i))"
proof (induction bs arbitrary: all_uses s0)
  case (Cons fb bs)
  obtain f b where fb: "fb = (f, b)" by (cases fb)
  have id: "server_use b = Some (j, k) \<Longrightarrow> use_id b = Some j" for j k by (rule server_use_id)
  from Cons show ?case unfolding fb collect_uses_step
    by (cases "server_use b") (auto simp: map_of_append map_add_def dest: id split: option.splits)
qed simp

text \<open>The second pass, after the blocks \<open>pre\<close>.\<close>

definition results_match :: "json list \<Rightarrow> json list \<Rightarrow> bool" where
  "results_match pre bs \<longleftrightarrow>
     (\<forall>n < length bs. \<forall>i k. server_result (bs ! n) = Some (i, k) \<longrightarrow> (\<exists>b \<in> set pre \<union> set (take n bs). server_use b = Some (i, Some k)))"

lemma results_match_Cons:
  "results_match pre (b # bs) \<longleftrightarrow>
     (\<forall>i k. server_result b = Some (i, k) \<longrightarrow> (\<exists>c \<in> set pre. server_use c = Some (i, Some k))) \<and> results_match (pre @ [b]) bs"
  unfolding results_match_def length_Cons All_less_Suc2 by simp

definition pass_state :: "json list \<Rightarrow> (string \<rightharpoonup> server_tool_kind \<times> string) \<Rightarrow> (string \<rightharpoonup> server_tool_kind \<times> string) \<Rightarrow> string set \<Rightarrow> bool" where
  "pass_state pre s pending completed \<longleftrightarrow> completed \<subseteq> fst ` set (some_of server_use pre) \<and>
     (\<forall>i. pending i = (if i \<in> completed \<or> i \<notin> fst ` set (some_of server_use pre) then None else s i))"

lemma server_kinds_disjoint:
  "server_use b \<noteq> None \<Longrightarrow> server_result b = None \<and> client_result b = None" "server_result b \<noteq> None \<Longrightarrow> client_result b = None"
  by (auto simp: server_use_def server_result_def client_result_def result_kind_def split: if_splits)

lemma match_results_step:
  "match_results ((f, b) # bs) s pending completed = (case server_use b of
       Some (i, _) \<Rightarrow> match_results bs s (case s i of None \<Rightarrow> pending | Some u \<Rightarrow> pending(i \<mapsto> u)) completed
     | None \<Rightarrow> (case server_result b of
         None \<Rightarrow> if (\<exists>i. client_result b = Some i \<and> s i \<noteq> None)
           then match_results [(f, b)] s pending completed else match_results bs s pending completed
       | Some (i, k) \<Rightarrow>
           if i \<in> completed \<or> map_option fst (pending i) \<noteq> Some k then match_results [(f, b)] s pending completed
           else match_results bs s (pending(i := None)) (insert i completed)))"
  by (auto simp: server_use_def server_result_def client_result_def result_kind_def split: option.split)

lemma match_results_refused:
  "server_use b = None \<Longrightarrow> server_result b = Some (i, k) \<Longrightarrow> i \<in> completed \<or> map_option fst (pending i) \<noteq> Some k \<Longrightarrow>
     match_results [(f, b)] s pending completed \<noteq> None"
  "server_use b = None \<Longrightarrow> server_result b = None \<Longrightarrow> client_result b = Some i \<Longrightarrow> s i \<noteq> None \<Longrightarrow>
     match_results [(f, b)] s pending completed \<noteq> None"
  by (auto simp: server_use_def server_result_def client_result_def result_kind_def split: option.split if_splits)

definition uses_known :: "(string \<rightharpoonup> server_tool_kind \<times> string) \<Rightarrow> json list \<Rightarrow> bool" where
  "uses_known s bs \<longleftrightarrow> distinct (some_of use_id bs) \<and> known_uses bs \<and>
     (\<forall>b \<in> set bs. \<forall>i k. server_use b = Some (i, Some k) \<longrightarrow> map_option fst (s i) = Some k)"

lemma some_of_append [simp]: "some_of f (xs @ ys) = some_of f xs @ some_of f ys"
  by (induction xs) (auto split: option.split)

lemma use_fresh:
  assumes "uses_known s (pre @ b # bs)" "server_use b = Some (i, k)"
  shows "i \<notin> fst ` set (some_of server_use pre)"
proof
  assume "i \<in> fst ` set (some_of server_use pre)"
  then obtain c k' where c: "c \<in> set pre" "server_use c = Some (i, k')" by auto
  have "use_id c = Some i" "use_id b = Some i" using c(2) assms(2) by (auto intro: server_use_id)
  then have "i \<in> set (some_of use_id pre)" "i \<in> set (some_of use_id (b # bs))" using c(1) by auto
  then show False using assms(1) by (auto simp del: some_of_simps set_some_of simp: uses_known_def)
qed

lemma pending_kind:
  assumes "uses_known s (pre @ bs)" "pass_state pre s pending completed" "i \<notin> completed"
  shows "map_option fst (pending i) = Some k \<longleftrightarrow> (\<exists>c \<in> set pre. server_use c = Some (i, Some k))"
proof
  assume k: "map_option fst (pending i) = Some k"
  then have "i \<in> fst ` set (some_of server_use pre)" and s: "map_option fst (s i) = Some k"
    using assms(2,3) by (auto simp: pass_state_def split: if_splits)
  then obtain c k' where c: "c \<in> set pre" "server_use c = Some (i, k')" by auto
  then obtain k'' where "k' = Some k''" using assms(1) by (cases k') (auto simp: uses_known_def known_uses_def)
  then show "\<exists>c \<in> set pre. server_use c = Some (i, Some k)" using c s assms(1) by (fastforce simp: uses_known_def)
next
  assume "\<exists>c \<in> set pre. server_use c = Some (i, Some k)"
  then obtain c where c: "c \<in> set pre" "server_use c = Some (i, Some k)" by blast
  then have "map_option fst (s i) = Some k" using assms(1) unfolding uses_known_def by (metis Un_iff set_append)
  moreover have "i \<in> fst ` set (some_of server_use pre)" using c by force
  ultimately show "map_option fst (pending i) = Some k" using assms(2,3) by (simp add: pass_state_def)
qed

lemma match_results_iff:
  "uses_known s (pre @ map snd bs) \<Longrightarrow> pass_state pre s pending completed \<Longrightarrow>
     match_results bs s pending completed = None \<longleftrightarrow>
       distinct (map fst (some_of server_result (map snd bs))) \<and> fst ` set (some_of server_result (map snd bs)) \<inter> completed = {} \<and>
       results_match pre (map snd bs) \<and> (\<forall>b \<in> set (map snd bs). \<forall>i. client_result b = Some i \<longrightarrow> s i = None)"
proof (induction bs arbitrary: pre pending completed)
  case Nil
  then show ?case by (simp add: results_match_def)
next
  case (Cons fb bs)
  obtain f b where fb: "fb = (f, b)" by (cases fb)
  have known: "uses_known s ((pre @ [b]) @ map snd bs)" "uses_known s (pre @ b # map snd bs)" using Cons.prems(1) fb by simp_all
  note ih = Cons.IH [OF known(1)]
  note step = match_results_step [of f b bs s pending completed]
  consider i ko where "server_use b = Some (i, ko)" | i k where "server_use b = None" "server_result b = Some (i, k)"
    | "server_use b = None" "server_result b = None"
    by (metis option.exhaust surj_pair)
  then show ?case
  proof cases
    case 1
    then obtain k where k: "server_use b = Some (i, Some k)" using known(2) by (cases ko) (auto simp: uses_known_def known_uses_def)
    then obtain u where u: "s i = Some u" using known(2) by (auto simp: uses_known_def)
    have "pass_state (pre @ [b]) s (pending(i \<mapsto> u)) completed"
      using Cons.prems(2) use_fresh [OF known(2) k] u k by (auto simp: pass_state_def image_Un)
    from ih [OF this] k u server_kinds_disjoint(1) [of b] show ?thesis
      by (simp add: fb step results_match_Cons del: set_some_of match_results.simps fun_upd_apply)
  next
    case 2
    have none: "client_result b = None" using server_kinds_disjoint(2) 2 by simp
    show ?thesis
    proof (cases "i \<in> completed \<or> map_option fst (pending i) \<noteq> Some k")
      case True
      have "match_results (fb # bs) s pending completed \<noteq> None"
        unfolding fb step 2 option.case prod.case using match_results_refused(1) [where completed = completed and pending = pending, OF 2 True] True by (simp del: match_results.simps)
      moreover have "i \<in> completed \<or> \<not> (\<exists>c \<in> set pre. server_use c = Some (i, Some k))"
        using True pending_kind [OF Cons.prems(1,2)] by blast
      ultimately show ?thesis using 2 fb by (auto simp: results_match_Cons simp del: match_results.simps set_some_of)
    next
      case False
      then have i: "i \<notin> completed" "\<exists>c \<in> set pre. server_use c = Some (i, Some k)" using pending_kind [OF Cons.prems(1,2)] by blast+
      have "pass_state (pre @ [b]) s (pending(i := None)) (insert i completed)"
        using Cons.prems(2) i 2 by (force simp: pass_state_def)
      note ih' = ih [OF this]
      have m: "match_results (fb # bs) s pending completed = match_results bs s (pending(i := None)) (insert i completed)"
        unfolding fb step 2 option.case prod.case using False by (rule if_not_P)
      have res: "some_of server_result (map snd (fb # bs)) = (i, k) # some_of server_result (map snd bs)" using 2 fb by simp
      have rm: "results_match pre (map snd (fb # bs)) \<longleftrightarrow> results_match (pre @ [b]) (map snd bs)"
        using i(2) 2 by (simp add: fb results_match_Cons)
      show ?thesis unfolding m ih' res rm using none i(1) fb by (auto simp del: set_some_of)
    qed
  next
    case 3
    have "pass_state (pre @ [b]) s pending completed" using Cons.prems(2) 3 by (simp add: pass_state_def)
    note ih' = ih [OF this]
    show ?thesis
    proof (cases "\<exists>i. client_result b = Some i \<and> s i \<noteq> None")
      case True
      then obtain i where i: "client_result b = Some i" "s i \<noteq> None" by blast
      then have "match_results (fb # bs) s pending completed \<noteq> None"
        unfolding fb step 3 option.case using match_results_refused(2) [where s = s, OF 3 i] True by (simp del: match_results.simps)
      then show ?thesis using i fb by (auto simp del: match_results.simps)
    next
      case False
      then have "match_results (fb # bs) s pending completed = match_results bs s pending completed"
        unfolding fb step 3 option.case by (rule if_not_P)
      then show ?thesis using ih' 3 fb False by (auto simp: results_match_Cons simp del: match_results.simps set_some_of)
    qed
  qed
qed

lemma distinct_uses: "distinct (some_of use_id bs) \<Longrightarrow> distinct (map fst (some_of server_use bs))"
proof (induction bs)
  case (Cons b bs)
  show ?case
  proof (cases "server_use b")
    case (Some x)
    obtain i k where x: "x = (i, k)" by (cases x)
    have "use_id b = Some i" using Some x server_use_id by simp
    moreover have "i \<in> set (some_of use_id bs)" if "i \<in> fst ` set (some_of server_use bs)"
      using that server_use_id by fastforce
    ultimately show ?thesis using Cons Some x by auto
  qed (use Cons in \<open>auto split: option.splits\<close>)
qed simp

text \<open>C28: The check of the server tools decides the protocol. A request passes exactly if no identifier is used for two
  calls, every server call is of a known kind, every server result answers an earlier call of its kind, no call has two results, and no
  client result answers a server call, over all blocks of all messages in order.\<close>

theorem server_tool_check_exact:
  "validate_server_tool_history request = None \<longleftrightarrow> server_protocol (map snd (placed_blocks request))"
proof -
  let ?bs = "placed_blocks request" and ?js = "map snd (placed_blocks request)"
  have proto: "server_protocol ?js \<longleftrightarrow> distinct (some_of use_id ?js) \<and> known_uses ?js \<and> distinct (map fst (some_of server_result ?js)) \<and>
      results_match [] ?js \<and> (\<forall>b \<in> set ?js. \<forall>i. client_result b = Some i \<longrightarrow> i \<notin> fst ` set (some_of server_use ?js))"
  proof -
    have "(\<exists>c \<in> set (take n xs). P c) \<longleftrightarrow> (\<exists>m < n. P (xs ! m))" if "n < length xs" for n P and xs :: "json list"
    proof
      show "\<exists>m < n. P (xs ! m) \<Longrightarrow> \<exists>c \<in> set (take n xs). P c" using that nth_mem [of _ "take n xs"] by fastforce
      assume "\<exists>c \<in> set (take n xs). P c"
      then obtain c where c: "c \<in> set (take n xs)" "P c" by blast
      then obtain m where "m < n" "xs ! m = c" using that by (auto simp: in_set_conv_nth)
      then show "\<exists>m < n. P (xs ! m)" using c(2) by blast
    qed
    then show ?thesis unfolding server_protocol_def known_uses_def results_match_def by simp
  qed
  show ?thesis
  proof (cases "collect_uses ?bs Map.empty Map.empty")
    case (Inl e)
    then have "\<not> (distinct (some_of use_id ?js) \<and> known_uses ?js)" using collect_uses_iff [of ?bs Map.empty Map.empty] by auto
    then show ?thesis using Inl proto by (auto simp: validate_server_tool_history_def)
  next
    case (Inr s)
    then have d: "distinct (some_of use_id ?js)" "known_uses ?js" using collect_uses_iff [of ?bs Map.empty Map.empty] by blast+
    have dist: "distinct (map fst (some_of server_use ?js))" by (rule distinct_uses [OF d(1)])
    have s: "map_option fst (s i) = (case map_of (rev (some_of server_use ?js)) i of Some k \<Rightarrow> k | None \<Rightarrow> None)" for i
      using collect_uses_map [OF Inr] by (simp split: option.split)
    have kind: "map_option fst (s i) = k" if "(i, k) \<in> set (some_of server_use ?js)" for i k
      using s [of i] that map_of_is_SomeI [of "rev (some_of server_use ?js)" i k] dist by (simp add: rev_map [symmetric])
    have none: "s i = None \<longleftrightarrow> i \<notin> fst ` set (some_of server_use ?js)" for i
    proof
      assume n: "s i = None"
      show "i \<notin> fst ` set (some_of server_use ?js)"
      proof
        assume "i \<in> fst ` set (some_of server_use ?js)"
        then obtain k where k: "(i, k) \<in> set (some_of server_use ?js)" by (auto simp del: set_some_of)
        then have "k = None" using kind [OF k] n by simp
        then show False using k d(2) by (auto simp: known_uses_def)
      qed
    next
      assume "i \<notin> fst ` set (some_of server_use ?js)"
      then have "map_of (rev (some_of server_use ?js)) i = None" by (simp add: map_of_eq_None_iff del: set_some_of)
      then show "s i = None" using s [of i] by simp
    qed
    have "uses_known s ([] @ ?js)" using d kind by (force simp: uses_known_def)
    then have "match_results ?bs s Map.empty {} = None \<longleftrightarrow> distinct (map fst (some_of server_result ?js)) \<and> results_match [] ?js \<and>
        (\<forall>b \<in> set ?js. \<forall>i. client_result b = Some i \<longrightarrow> s i = None)"
      using match_results_iff [of s "[]" ?bs Map.empty "{}"] by (simp add: pass_state_def del: set_some_of)
    then show ?thesis using Inr proto d none by (simp add: validate_server_tool_history_def del: set_some_of)
  qed
qed

section \<open>Context edits\<close>

text \<open>A count that was checked: its type is one of those expected, its value a number.\<close>

lemma typed_count_read:
  assumes "validate_typed_count v field allowed n = None"
  shows "\<exists>kind m. get_str v ''type'' = Some kind \<and> kind \<in> set allowed \<and> Option.bind (v_get v ''value'') as_u64 = Some m \<and> n \<le> m"
  using assms by (auto simp: validate_typed_count_def below_def split: if_splits option.splits)

text \<open>What a client wrote under a name: nothing, or a value.\<close>

definition written :: "json \<Rightarrow> string \<Rightarrow> (nat \<Rightarrow> bool) \<Rightarrow> nat \<Rightarrow> bool" where
  "written edit name P n \<longleftrightarrow> Option.bind (v_pointer [name, ''value''] edit) as_u64 = Some n \<and> P n"

definition names_written :: "json \<Rightarrow> string \<Rightarrow> string list \<Rightarrow> bool" where
  "names_written edit name names \<longleftrightarrow> v_get edit name = Some (JArray (map JString names)) \<and> (\<forall>s \<in> set names. trim s \<noteq> [])"

definition unset :: "json \<Rightarrow> string \<Rightarrow> bool" where
  "unset edit name \<longleftrightarrow> v_get edit name = None \<or> v_get edit name = Some JNull"

lemma as_str_eq: "as_str x = Some t \<longleftrightarrow> x = JString t"
  by (cases x) auto

lemma tool_names_read: "tool_names_array v \<Longrightarrow> \<exists>names. v = JArray (map JString names) \<and> (\<forall>s \<in> set names. trim s \<noteq> [])"
proof -
  assume a: "tool_names_array v"
  then obtain vs where v: "v = JArray vs" by (cases v) (simp_all add: tool_names_array_def)
  have "\<exists>t. x = JString t \<and> trim t \<noteq> []" if "x \<in> set vs" for x
    using a that unfolding v by (cases x) (auto simp: tool_names_array_def list_all_iff)
  then obtain f where "\<forall>x \<in> set vs. x = JString (f x) \<and> trim (f x) \<noteq> []" by metis
  then have "vs = map JString (map f vs)" "\<forall>s \<in> set (map f vs). trim s \<noteq> []" by (auto simp: map_idI)
  then show ?thesis using v by blast
qed

lemma map_filter_as_str [simp]: "List.map_filter as_str (map JString names) = names"
  by (induction names) simp_all

lemma pointer2: "v_pointer [k, k'] v = Option.bind (v_get v k) (\<lambda>w. v_get w k')"
  by (cases "v_get v k"; cases "v_get (the (v_get v k)) k'") simp_all

lemma pointer_get: "v_get v k = Some w \<Longrightarrow> Option.bind (v_pointer [k, k'] v) f = Option.bind (v_get w k') f"
  by (simp add: pointer2 del: v_pointer.simps)

text \<open>The plans of \<open>context.rs\<close> against the edits as they were written.\<close>

definition tool_uses_as_written :: "json \<Rightarrow> clear_tool_uses_plan \<Rightarrow> bool" where
  "tool_uses_as_written edit plan \<longleftrightarrow>
     (v_get edit ''trigger'' = None \<and> tu_trigger plan = InputTokens DEFAULT_TOOL_CLEAR_TRIGGER_TOKENS
      \<or> (\<exists>n. written edit ''trigger'' (\<lambda>n. 1 \<le> n) n \<and>
           (if Option.bind (v_pointer [''trigger'', ''type''] edit) as_str = Some ''tool_uses'' then tu_trigger plan = ToolUses n
            else Option.bind (v_pointer [''trigger'', ''type''] edit) as_str = Some ''input_tokens'' \<and> tu_trigger plan = InputTokens n))) \<and>
     (v_get edit ''keep'' = None \<and> tu_keep plan = DEFAULT_TOOL_USES_TO_KEEP \<or> written edit ''keep'' (\<lambda>_. True) (tu_keep plan)) \<and>
     (unset edit ''clear_at_least'' \<and> tu_clear_at_least plan = None
      \<or> (\<exists>n. written edit ''clear_at_least'' (\<lambda>n. 1 \<le> n) n \<and> tu_clear_at_least plan = Some n)) \<and>
     (unset edit ''exclude_tools'' \<and> tu_exclude_tools plan = [] \<or> names_written edit ''exclude_tools'' (tu_exclude_tools plan)) \<and>
     (unset edit ''clear_tool_inputs'' \<and> tu_clear_tool_inputs plan = ClearNone
      \<or> (\<exists>b. v_get edit ''clear_tool_inputs'' = Some (JBool b) \<and> tu_clear_tool_inputs plan = (if b then ClearAll else ClearNone))
      \<or> (\<exists>names. names_written edit ''clear_tool_inputs'' names \<and> tu_clear_tool_inputs plan = ClearSelected names))"

lemma trigger_read:
  assumes "check_some (\<lambda>v. validate_typed_count v f [''input_tokens'', ''tool_uses''] 1) (v_get edit ''trigger'') = None"
  shows "v_get edit ''trigger'' = None \<and> tool_trigger edit = InputTokens DEFAULT_TOOL_CLEAR_TRIGGER_TOKENS
      \<or> (\<exists>n. written edit ''trigger'' (\<lambda>n. 1 \<le> n) n \<and>
           (if Option.bind (v_pointer [''trigger'', ''type''] edit) as_str = Some ''tool_uses'' then tool_trigger edit = ToolUses n
            else Option.bind (v_pointer [''trigger'', ''type''] edit) as_str = Some ''input_tokens'' \<and> tool_trigger edit = InputTokens n))"
proof (cases "v_get edit ''trigger''")
  case None
  then show ?thesis by (simp add: tool_trigger_def pointer2 del: v_pointer.simps)
next
  case (Some v)
  from typed_count_read [of v f "[''input_tokens'', ''tool_uses'']" 1] assms Some obtain kind m where
    "get_str v ''type'' = Some kind" "kind = ''input_tokens'' \<or> kind = ''tool_uses''" "Option.bind (v_get v ''value'') as_u64 = Some m" "1 \<le> m"
    by (auto simp: check_some_def)
  then show ?thesis
    by (auto simp: tool_trigger_def written_def pointer_get [OF Some] get_str_def Let_def simp del: v_pointer.simps)
qed

lemma keep_read:
  assumes "check_some (\<lambda>v. validate_typed_count v f [''tool_uses''] 0) (v_get edit ''keep'') = None"
  shows "v_get edit ''keep'' = None \<and> tool_keep edit = DEFAULT_TOOL_USES_TO_KEEP \<or> written edit ''keep'' (\<lambda>_. True) (tool_keep edit)"
proof (cases "v_get edit ''keep''")
  case None
  then show ?thesis by (simp add: tool_keep_def pointer2 del: v_pointer.simps)
next
  case (Some v)
  from typed_count_read [of v f "[''tool_uses'']" 0] assms Some obtain m where
    "get_str v ''type'' = Some ''tool_uses''" "Option.bind (v_get v ''value'') as_u64 = Some m"
    by (auto simp: check_some_def)
  then show ?thesis
    by (auto simp: tool_keep_def written_def pointer_get [OF Some] get_str_def simp del: v_pointer.simps)
qed

lemma clear_at_least_read:
  assumes "check_some (\<lambda>v. validate_typed_count v f [''input_tokens''] 1) (opt_filter (\<lambda>v. \<not> is_null v) (v_get edit ''clear_at_least'')) = None"
  shows "unset edit ''clear_at_least'' \<and> Option.bind (v_pointer [''clear_at_least'', ''value''] edit) as_u64 = None
    \<or> (\<exists>n. written edit ''clear_at_least'' (\<lambda>n. 1 \<le> n) n)"
proof (cases "v_get edit ''clear_at_least''")
  case (Some v)
  show ?thesis
  proof (cases "is_null v")
    case False
    from typed_count_read [of v f "[''input_tokens'']" 1] assms Some False show ?thesis
      by (auto simp: check_some_def written_def pointer_get [OF Some] simp del: v_pointer.simps)
  qed (use Some in \<open>auto simp: unset_def pointer2 elim: is_null.elims simp del: v_pointer.simps\<close>)
qed (simp add: unset_def)

lemma names_read:
  assumes "\<not> wrong_type tool_names_array (opt_filter (\<lambda>v. \<not> is_null v) (v_get edit name))"
  shows "unset edit name \<and> List.map_filter as_str (unwrap_or (Option.bind (v_get edit name) as_array) []) = []
    \<or> names_written edit name (List.map_filter as_str (unwrap_or (Option.bind (v_get edit name) as_array) []))"
proof (cases "v_get edit name")
  case (Some v)
  show ?thesis
  proof (cases "is_null v")
    case False
    then show ?thesis using tool_names_read [of v] assms Some by (auto simp: wrong_type_def names_written_def)
  qed (use Some in \<open>auto simp: unset_def elim: is_null.elims\<close>)
qed (simp add: unset_def)

lemma inputs_read:
  assumes "\<not> wrong_type (\<lambda>v. is_boolean v \<or> tool_names_array v) (opt_filter (\<lambda>v. \<not> is_null v) (v_get edit ''clear_tool_inputs''))"
    and "c = (case v_get edit ''clear_tool_inputs'' of Some (JBool True) \<Rightarrow> ClearAll
      | Some (JArray names) \<Rightarrow> ClearSelected (List.map_filter as_str names) | _ \<Rightarrow> ClearNone)"
  shows "unset edit ''clear_tool_inputs'' \<and> c = ClearNone
    \<or> (\<exists>b. v_get edit ''clear_tool_inputs'' = Some (JBool b) \<and> c = (if b then ClearAll else ClearNone))
    \<or> (\<exists>names. names_written edit ''clear_tool_inputs'' names \<and> c = ClearSelected names)"
proof (cases "v_get edit ''clear_tool_inputs''")
  case (Some v)
  consider "is_null v" | b where "v = JBool b" | "tool_names_array v"
    using assms(1) Some by (cases v) (auto simp: wrong_type_def tool_names_array_def)
  then show ?thesis
  proof cases
    case 1
    then show ?thesis using Some assms(2) by (cases v) (simp_all add: unset_def)
  next
    case 3
    then show ?thesis using Some assms(2) tool_names_read [of v] by (auto simp: names_written_def)
  qed (use Some assms(2) in \<open>auto split: bool.splits\<close>)
qed (use assms(2) in \<open>simp add: unset_def\<close>)

text \<open>The families are disjoint, and every edit of one was checked.\<close>

lemma family_starts: "matches_type_family kind base \<Longrightarrow> starts_with kind base"
  by (auto simp: matches_type_family_def strip_prefix_def starts_with_def split: if_splits)

lemma starts_with_nth: "starts_with s p \<Longrightarrow> i < length p \<Longrightarrow> s ! i = p ! i"
  unfolding starts_with_def by (metis nth_take)

lemma family_of_type:
  "is_compact_edit_type kind \<Longrightarrow> edit_family kind = Some ''compact''"
  "matches_type_family kind ''clear_thinking'' \<Longrightarrow> edit_family kind = Some ''clear_thinking''"
  "matches_type_family kind ''clear_tool_uses'' \<Longrightarrow> edit_family kind = Some ''clear_tool_uses''"
proof -
  have l: "starts_with kind ''compact_'' \<Longrightarrow> kind ! 1 = CHR ''o''" using starts_with_nth [of kind "''compact_''" 1] by simp
  have c: "starts_with kind ''clear_thinking'' \<Longrightarrow> kind ! 1 = CHR ''l'' \<and> kind ! 7 = CHR ''h''"
    using starts_with_nth [of kind "''clear_thinking''" 1] starts_with_nth [of kind "''clear_thinking''" 7] by simp
  have t: "starts_with kind ''clear_tool_uses'' \<Longrightarrow> kind ! 1 = CHR ''l'' \<and> kind ! 7 = CHR ''o''"
    using starts_with_nth [of kind "''clear_tool_uses''" 1] starts_with_nth [of kind "''clear_tool_uses''" 7] by simp
  show "is_compact_edit_type kind \<Longrightarrow> edit_family kind = Some ''compact''" by (simp add: edit_family_def)
  show "edit_family kind = Some ''clear_thinking''" if m: "matches_type_family kind ''clear_thinking''"
    using m c [OF family_starts [OF m]] l by (auto simp: edit_family_def is_compact_edit_type_def)
  show "edit_family kind = Some ''clear_tool_uses''" if m: "matches_type_family kind ''clear_tool_uses''"
  proof -
    have "\<not> matches_type_family kind ''clear_thinking''" using t [OF family_starts [OF m]] c family_starts by fastforce
    then show ?thesis using m t [OF family_starts [OF m]] l by (auto simp: edit_family_def is_compact_edit_type_def)
  qed
qed

definition family_of :: "json \<Rightarrow> string option" where
  "family_of edit = Option.bind (get_str edit ''type'') edit_family"

lemma validate_edits_spec:
  "validate_edits index known edits = None \<Longrightarrow>
     (\<forall>edit \<in> set edits. \<forall>family. family_of edit = Some family \<longrightarrow> (\<exists>i. validate_family family edit i = None)) \<and>
     (\<forall>family. length (filter (\<lambda>edit. family_of edit = Some family) edits) \<le> (if family \<in> known then 0 else 1))"
proof (induction edits arbitrary: index known)
  case (Cons edit edits)
  from Cons.prems obtain kind where kind: "get_str edit ''type'' = Some kind" by (auto split: if_splits option.splits)
  show ?case
  proof (cases "edit_family kind")
    case None
    then have "validate_edits (Suc index) known edits = None" using Cons.prems kind by (auto split: if_splits)
    from Cons.IH [OF this] None kind show ?thesis by (simp add: family_of_def)
  next
    case (Some family)
    then have f: "validate_family family edit index = None" "family \<notin> known" "validate_edits (Suc index) (insert family known) edits = None"
      using Cons.prems kind by (auto split: if_splits option.splits)
    have of: "family_of edit = Some family" using kind Some by (simp add: family_of_def)
    note ih = Cons.IH [OF f(3)]
    have "length (filter (\<lambda>e. family_of e = Some g) (edit # edits)) \<le> (if g \<in> known then 0 else 1)" for g
      using conjunct2 [OF ih, THEN spec, of g] of f(2) by (auto split: if_splits)
    moreover have "\<exists>i. validate_family g e i = None" if "e \<in> set (edit # edits)" "family_of e = Some g" for e g
      using that ih of f(1) by auto
    ultimately show ?thesis by blast
  qed
qed simp

lemma find_edit_checked:
  assumes "validate_context_management cm = None" "find_edit P cm = Some edit" "\<And>kind. P kind \<Longrightarrow> edit_family kind = Some family"
  shows "(\<exists>i. validate_family family edit i = None) \<and> filter (\<lambda>e. family_of e = Some family) (unwrap_or (edits_of cm) []) = [edit]"
proof -
  obtain v where v: "cm = Some v" using assms(2) by (cases cm) (auto simp: find_edit_def edits_of_def)
  obtain edits where e: "v_get v ''edits'' = Some (JArray edits)" "find (\<lambda>e. case block_type e of Some kind \<Rightarrow> P kind | None \<Rightarrow> False) edits = Some edit"
  proof -
    obtain w where w: "v_get v ''edits'' = Some w" using assms(2) v by (cases "v_get v ''edits''") (auto simp: find_edit_def edits_of_def)
    show ?thesis using assms(2) v w that by (cases w) (simp_all add: find_edit_def edits_of_def)
  qed
  have "validate_edits 0 {} edits = None"
    using assms(1) v e(1) by (auto simp: validate_context_management_def split: if_splits option.splits)
  note checked = validate_edits_spec [OF this]
  have "edit \<in> set edits" "case block_type edit of Some kind \<Rightarrow> P kind | None \<Rightarrow> False"
    using e(2) by (auto simp: find_Some_iff)
  then have f: "edit \<in> set edits" "family_of edit = Some family"
    using assms(3) by (auto simp: family_of_def block_type_def split: option.splits)
  have "filter (\<lambda>e. family_of e = Some family) edits = [edit]"
  proof (cases "filter (\<lambda>e. family_of e = Some family) edits")
    case Nil
    then show ?thesis using f by (auto simp: filter_empty_conv)
  next
    case (Cons x xs)
    then have "xs = []" using conjunct2 [OF checked, THEN spec, of family] by simp
    moreover have "edit \<in> set (filter (\<lambda>e. family_of e = Some family) edits)" using f by simp
    ultimately show ?thesis using Cons by simp
  qed
  moreover have "edits_of cm = Some edits" using v e(1) by (simp add: edits_of_def)
  ultimately show ?thesis using checked f by simp
qed

definition thinking_as_written :: "claude_request \<Rightarrow> json \<Rightarrow> clear_thinking_plan \<Rightarrow> bool" where
  "thinking_as_written request edit plan \<longleftrightarrow>
     v_get edit ''keep'' = None \<and> th_keep plan = default_thinking_turns_to_keep (cq_model request)
     \<or> (v_get edit ''keep'' = Some (JString ''all'') \<or> Option.bind (v_pointer [''keep'', ''type''] edit) as_str = Some ''all'') \<and> th_keep plan = None
     \<or> (\<exists>n. written edit ''keep'' (\<lambda>n. 1 \<le> n) n \<and> th_keep plan = Some n)"

lemma tool_uses_read:
  assumes "validate_clear_tool_uses_edit edit i = None" "plan_clear_tool_uses cm = Some plan"
    and "find_edit (\<lambda>kind. matches_type_family kind ''clear_tool_uses'') cm = Some edit"
  shows "tool_uses_as_written edit plan"
proof -
  obtain kind where plan: "plan = \<lparr>tu_edit_type = kind, tu_trigger = tool_trigger edit, tu_keep = tool_keep edit,
      tu_clear_at_least = Option.bind (v_pointer [''clear_at_least'', ''value''] edit) as_u64,
      tu_exclude_tools = List.map_filter as_str (unwrap_or (Option.bind (v_get edit ''exclude_tools'') as_array) []),
      tu_clear_tool_inputs = (case v_get edit ''clear_tool_inputs'' of Some (JBool True) \<Rightarrow> ClearAll
        | Some (JArray names) \<Rightarrow> ClearSelected (List.map_filter as_str names) | _ \<Rightarrow> ClearNone)\<rparr>"
    using assms(2,3) unfolding plan_clear_tool_uses_def by (cases "block_type edit") (auto simp del: v_pointer.simps)
  note c = assms(1) [unfolded validate_clear_tool_uses_edit_def first_error_None, simplified]
  have r: "check_some (\<lambda>v. validate_typed_count v (sub (edit_at i) ''trigger'') [''input_tokens'', ''tool_uses''] 1) (v_get edit ''trigger'') = None"
      "check_some (\<lambda>v. validate_typed_count v (sub (edit_at i) ''keep'') [''tool_uses''] 0) (v_get edit ''keep'') = None"
      "check_some (\<lambda>v. validate_typed_count v (sub (edit_at i) ''clear_at_least'') [''input_tokens''] 1)
        (opt_filter (\<lambda>v. \<not> is_null v) (v_get edit ''clear_at_least'')) = None"
      "\<not> wrong_type (\<lambda>v. is_boolean v \<or> tool_names_array v) (opt_filter (\<lambda>v. \<not> is_null v) (v_get edit ''clear_tool_inputs''))"
      "\<not> wrong_type tool_names_array (opt_filter (\<lambda>v. \<not> is_null v) (v_get edit ''exclude_tools''))"
    using c by simp_all
  have least: "unset edit ''clear_at_least'' \<and> tu_clear_at_least plan = None
      \<or> (\<exists>n. written edit ''clear_at_least'' (\<lambda>n. 1 \<le> n) n \<and> tu_clear_at_least plan = Some n)"
    using clear_at_least_read [OF r(3)] unfolding plan by (auto simp: written_def simp del: v_pointer.simps)
  show ?thesis unfolding tool_uses_as_written_def
    using trigger_read [OF r(1)] keep_read [OF r(2)] least names_read [OF r(5)] inputs_read [OF r(4) refl]
    unfolding plan clear_tool_uses_plan.simps by blast
qed

lemma thinking_read:
  assumes "validate_clear_thinking_edit edit i = None" "plan_clear_thinking request = Some plan"
    and "find_edit (\<lambda>kind. matches_type_family kind ''clear_thinking'') (cq_context_management request) = Some edit"
  shows "thinking_as_written request edit plan"
proof (cases "v_get edit ''keep''")
  case None
  then show ?thesis using assms(2,3) by (auto simp: plan_clear_thinking_def thinking_as_written_def thinking_keep_def split: bind_splits)
next
  case (Some keep)
  have plan: "th_keep plan = thinking_keep (cq_model request) (Some keep)"
    using assms(2,3) Some by (auto simp: plan_clear_thinking_def split: bind_splits)
  show ?thesis
  proof (cases "keep = JString ''all'' \<or> get_str keep ''type'' = Some ''all''")
    case True
    then show ?thesis using plan Some
      by (auto simp: thinking_as_written_def thinking_keep_def pointer_get [OF Some] get_str_def simp del: v_pointer.simps)
  next
    case False
    then have "validate_typed_count keep (sub (edit_at i) ''keep'') [''thinking_turns''] 1 = None"
      using assms(1) Some by (auto simp: validate_clear_thinking_edit_def split: if_splits)
    from typed_count_read [OF this] False plan show ?thesis
      by (auto simp: thinking_as_written_def thinking_keep_def written_def pointer_get [OF Some] simp del: v_pointer.simps)
  qed
qed

lemma compact_read:
  assumes "validate_compact_edit edit i = None"
  shows "v_get edit ''trigger'' = None \<or> (\<exists>n. written edit ''trigger'' (\<lambda>n. MIN_COMPACT_TRIGGER_TOKENS \<le> n) n)"
proof (cases "v_get edit ''trigger''")
  case (Some t)
  then have "compact_trigger t i = None" using assms by (simp add: validate_compact_edit_def check_some_def)
  then show ?thesis
    by (auto simp: compact_trigger_def below_def written_def pointer_get [OF Some] Let_def simp del: v_pointer.simps split: if_splits option.splits)
qed simp

text \<open>C29: A malformed context edit never becomes another edit than the client wrote. Once a request's context management has
  passed, each family of edits occurs at most once, the plans to clear tool uses and thinking hold exactly the numbers and names
  that were written, and a default only where nothing was, and a compaction starts no earlier than at 50000 tokens.\<close>

theorem validated_edits_read_as_written:
  assumes "validate_context_management (cq_context_management request) = None"
  shows "(\<forall>plan. plan_clear_tool_uses (cq_context_management request) = Some plan \<longrightarrow>
      (\<exists>edit. filter (\<lambda>e. family_of e = Some ''clear_tool_uses'') (unwrap_or (edits_of (cq_context_management request)) []) = [edit] \<and>
         tool_uses_as_written edit plan)) \<and>
    (\<forall>plan. plan_clear_thinking request = Some plan \<longrightarrow>
      (\<exists>edit. filter (\<lambda>e. family_of e = Some ''clear_thinking'') (unwrap_or (edits_of (cq_context_management request)) []) = [edit] \<and>
         thinking_as_written request edit plan)) \<and>
    (\<forall>n. compact_trigger_tokens (cq_context_management request) = Some n \<longrightarrow>
      (\<exists>edit. filter (\<lambda>e. family_of e = Some ''compact'') (unwrap_or (edits_of (cq_context_management request)) []) = [edit] \<and>
         (v_get edit ''trigger'' = None \<and> n = DEFAULT_COMPACT_TRIGGER_TOKENS \<or> written edit ''trigger'' (\<lambda>n. MIN_COMPACT_TRIGGER_TOKENS \<le> n) n)))"
proof (intro conjI allI impI)
  let ?cm = "cq_context_management request"
  let ?only = "\<lambda>family edit. filter (\<lambda>e. family_of e = Some family) (unwrap_or (edits_of ?cm) []) = [edit]"
  fix plan
  assume p: "plan_clear_tool_uses ?cm = Some plan"
  then obtain edit where e: "find_edit (\<lambda>kind. matches_type_family kind ''clear_tool_uses'') ?cm = Some edit"
    unfolding plan_clear_tool_uses_def by (auto simp: bind_eq_Some_conv)
  from find_edit_checked [OF assms e family_of_type(3)] obtain i where "validate_clear_tool_uses_edit edit i = None" "?only ''clear_tool_uses'' edit"
    by (auto simp: validate_family_def)
  then show "\<exists>edit. ?only ''clear_tool_uses'' edit \<and> tool_uses_as_written edit plan" using tool_uses_read [OF _ p e] by blast
next
  let ?cm = "cq_context_management request"
  let ?only = "\<lambda>family edit. filter (\<lambda>e. family_of e = Some family) (unwrap_or (edits_of ?cm) []) = [edit]"
  fix plan
  assume p: "plan_clear_thinking request = Some plan"
  then obtain edit where e: "find_edit (\<lambda>kind. matches_type_family kind ''clear_thinking'') ?cm = Some edit"
    unfolding plan_clear_thinking_def by (auto simp: bind_eq_Some_conv)
  from find_edit_checked [OF assms e family_of_type(2)] obtain i where "validate_clear_thinking_edit edit i = None" "?only ''clear_thinking'' edit"
    by (auto simp: validate_family_def split: if_splits)
  then show "\<exists>edit. ?only ''clear_thinking'' edit \<and> thinking_as_written request edit plan" using thinking_read [OF _ p e] by blast
next
  let ?cm = "cq_context_management request"
  let ?only = "\<lambda>family edit. filter (\<lambda>e. family_of e = Some family) (unwrap_or (edits_of ?cm) []) = [edit]"
  fix n
  assume n: "compact_trigger_tokens ?cm = Some n"
  then obtain edit where e: "find_edit is_compact_edit_type ?cm = Some edit"
      "n = unwrap_or (Option.bind (v_pointer [''trigger'', ''value''] edit) as_u64) DEFAULT_COMPACT_TRIGGER_TOKENS"
    unfolding compact_trigger_tokens_def by (auto simp del: v_pointer.simps)
  from find_edit_checked [OF assms e(1) family_of_type(1)] obtain i where i: "validate_compact_edit edit i = None" "?only ''compact'' edit"
    by (auto simp: validate_family_def)
  have "v_get edit ''trigger'' = None \<Longrightarrow> n = DEFAULT_COMPACT_TRIGGER_TOKENS"
    using e(2) by (simp add: pointer2 del: v_pointer.simps)
  then show "\<exists>edit. ?only ''compact'' edit \<and> (v_get edit ''trigger'' = None \<and> n = DEFAULT_COMPACT_TRIGGER_TOKENS
      \<or> written edit ''trigger'' (\<lambda>n. MIN_COMPACT_TRIGGER_TOKENS \<le> n) n)"
    using i(2) compact_read [OF i(1)] e(2) by (auto simp: written_def simp del: v_pointer.simps)
qed

section \<open>Attachments\<close>

definition good_url :: "validate_env \<Rightarrow> string \<Rightarrow> bool" where
  "good_url env u \<longleftrightarrow> (\<exists>url. ve_url env u = Some url \<and> pu_scheme url \<in> {''http'', ''https''} \<and> pu_host url \<noteq> None \<and>
     pu_username url = [] \<and> pu_password url = None)"

definition good_image :: "validate_env \<Rightarrow> json \<Rightarrow> bool" where
  "good_image env block \<longleftrightarrow> (\<exists>source. v_get block ''source'' = Some source \<and>
     (get_str source ''type'' = Some ''url'' \<and> (\<exists>u. get_str source ''url'' = Some u \<and> good_url env u)
      \<or> get_str source ''type'' = Some ''base64'' \<and> (\<exists>media data bytes. get_str source ''media_type'' = Some media \<and> media \<in> set image_media_types \<and>
          get_str source ''data'' = Some data \<and> ve_base64 env data = Some bytes \<and> length bytes \<le> MAX_IMAGE_BYTES \<and>
          detected_image_media_type bytes = Some media)))"

definition content_length :: "json \<Rightarrow> nat" where
  "content_length content = (case content of
       JString text \<Rightarrow> length text
     | JArray blocks \<Rightarrow> sum_list (map (\<lambda>b. length (unwrap_or (get_str b ''text'') [])) (filter (\<lambda>b. get_str b ''type'' = Some ''text'') blocks))
     | _ \<Rightarrow> 0)"

definition good_document :: "validate_env \<Rightarrow> json \<Rightarrow> bool" where
  "good_document env block \<longleftrightarrow> (\<exists>source kind. v_get block ''source'' = Some source \<and> get_str source ''type'' = Some kind \<and>
     (kind = ''url'' \<and> (\<exists>u. get_str source ''url'' = Some u \<and> good_url env u)
      \<or> kind = ''content'' \<and> (\<exists>content. v_get source ''content'' = Some content \<and> content_length content \<le> MAX_DOCUMENT_BYTES)
      \<or> kind \<in> {''base64'', ''text''} \<and> (\<exists>format data bytes. claude_document_format block = Some format \<and> get_str source ''data'' = Some data \<and>
          (if kind = ''base64'' then ve_base64 env data else Some data) = Some bytes \<and> length bytes \<le> MAX_DOCUMENT_BYTES \<and>
          document_bytes_match_format format bytes)))"

lemma url_good: "validate_http_attachment_url env u field = None \<Longrightarrow> good_url env u"
  by (auto simp: validate_http_attachment_url_def good_url_def split: option.splits)

lemma image_good:
  assumes "validate_claude_image env block field = None"
  shows "good_image env block"
proof -
  obtain source where s: "v_get block ''source'' = Some source"
    using assms by (cases "v_get block ''source''") (simp_all add: validate_claude_image_def get_str_def)
  show ?thesis
  proof (cases "get_str source ''type'' = Some ''url''")
    case True
    then show ?thesis using assms s
      by (auto simp: validate_claude_image_def good_image_def Let_def dest: url_good split: option.splits)
  next
    case False
    then show ?thesis using assms s
      by (auto simp: validate_claude_image_def good_image_def Let_def opt_filter_def split: option.splits if_splits)
  qed
qed

lemma content_blocks_bound:
  "content_blocks env field index n present blocks = Inr q \<Longrightarrow> n \<le> MAX_DOCUMENT_BYTES \<Longrightarrow>
     n + content_length (JArray blocks) \<le> MAX_DOCUMENT_BYTES \<and>
     (\<forall>b \<in> set blocks. get_str b ''type'' = Some ''text'' \<or> get_str b ''type'' = Some ''image'' \<and> good_image env b)"
proof (induction blocks arbitrary: index n present)
  case Nil
  then show ?case by (simp add: content_length_def)
next
  case (Cons b blocks)
  obtain k p where c: "content_block env b (sub_at field index) = Inr (k, p)"
    using Cons.prems(1) by (cases "content_block env b (sub_at field index)") auto
  let ?n = "sat_add (if 0 < index then sat_add n 2 else n) k"
  have le: "?n \<le> MAX_DOCUMENT_BYTES" and rest: "content_blocks env field (Suc index) ?n (present \<or> p) blocks = Inr q"
    using Cons.prems(1) c by (auto simp: Let_def split: if_splits)
  note ih = Cons.IH [OF rest le]
  have n: "n + k \<le> ?n" using le by (auto simp: sat_add_def MAX_DOCUMENT_BYTES_def usize_max_def split: if_splits)
  consider "get_str b ''type'' = Some ''text''" "k = length (unwrap_or (get_str b ''text'') [])"
    | "get_str b ''type'' = Some ''image''" "good_image env b"
    using c by (auto simp: content_block_def content_text_block_def content_image_block_def dest: image_good split: option.splits if_splits)
  then show ?case using ih n by cases (auto simp: content_length_def)
qed

lemma content_source_good:
  assumes "validate_claude_content_document_source env source field = None"
  shows "\<exists>content. v_get source ''content'' = Some content \<and> content_length content \<le> MAX_DOCUMENT_BYTES \<and>
    (\<forall>b \<in> set (blocks_of content). get_str b ''type'' = Some ''text'' \<or> get_str b ''type'' = Some ''image'' \<and> good_image env b)"
proof -
  obtain content where c: "v_get source ''content'' = Some content"
    using assms by (auto simp: validate_claude_content_document_source_def Let_def split: option.splits)
  note a = assms [unfolded validate_claude_content_document_source_def Let_def c]
  show ?thesis
  proof (cases content)
    case (JString t)
    then show ?thesis using a c by (auto simp: content_length_def blocks_of_def first_error_None split: option.splits)
  next
    case (JArray blocks)
    then obtain q where "content_blocks env (sub (sub field ''source'') ''content'') 0 0 False blocks = Inr q"
      using a by (auto split: option.splits if_splits sum.splits)
    from content_blocks_bound [OF this] c JArray show ?thesis by (simp add: blocks_of_def)
  qed (use a in \<open>auto split: option.splits\<close>)
qed

lemma document_good:
  assumes "validate_claude_document env block field = None"
  shows "good_document env block \<and> (\<forall>b \<in> set (attached_content block). get_str b ''type'' = Some ''text'' \<or>
    get_str b ''type'' = Some ''image'' \<and> good_image env b \<or> get_str block ''type'' \<noteq> Some ''document'')"
proof -
  have a: "(case opt_filter is_object (v_get block ''source'') of
           None \<Rightarrow> invalid (sub field ''source'') ''expected an object''
         | Some source \<Rightarrow> (case get_str source ''type'' of
             None \<Rightarrow> invalid (sub (sub field ''source'') ''type'') ''expected base64, text, url, or content''
           | Some source_type \<Rightarrow>
               if source_type \<notin> {''base64'', ''text'', ''url'', ''content''}
               then invalid (sub (sub field ''source'') ''type'') ''expected base64, text, url, or content''
               else if source_type = ''content'' then validate_claude_content_document_source env source field
               else document_source env block source source_type field)) = None"
    using assms unfolding validate_claude_document_def first_error_None by simp
  then obtain source where s: "v_get block ''source'' = Some source" by (cases "v_get block ''source''") auto
  note b = a [unfolded s]
  then obtain kind where k: "get_str source ''type'' = Some kind" by (cases "get_str source ''type''") (auto split: if_splits)
  have kinds: "kind \<in> {''base64'', ''text'', ''url'', ''content''}" using b k by (auto split: if_splits)
  show ?thesis
  proof (cases "kind = ''content''")
    case True
    then have "validate_claude_content_document_source env source field = None" using b k by (auto split: if_splits)
    from content_source_good [OF this] obtain content where c: "v_get source ''content'' = Some content" "content_length content \<le> MAX_DOCUMENT_BYTES"
        "\<forall>b \<in> set (blocks_of content). get_str b ''type'' = Some ''text'' \<or> get_str b ''type'' = Some ''image'' \<and> good_image env b"
      by blast
    have "attached_content block = blocks_of content" if "get_str block ''type'' = Some ''document''"
      using that s k True c(1) by (simp add: attached_content_def blocks_of_def get_str_def)
    then show ?thesis using s k True c by (auto simp: good_document_def)
  next
    case False
    then have d: "document_source env block source kind field = None" using b k by (auto split: if_splits)
    have none: "attached_content block = []" if "get_str block ''type'' = Some ''document''"
      using that s k False by (simp add: attached_content_def get_str_def)
    show ?thesis
    proof (cases "kind = ''url''")
      case True
      then show ?thesis using d s k none by (auto simp: document_source_def good_document_def Let_def dest: url_good split: option.splits)
    next
      case url: False
      then obtain format where f: "claude_document_format block = Some format" and data: "document_data env kind format source (sub (sub field ''source'') ''data'') = None"
        using d by (cases "claude_document_format block") (auto simp: document_source_def Let_def split: option.splits)
      have "\<exists>data bytes. get_str source ''data'' = Some data \<and> (if kind = ''base64'' then ve_base64 env data else Some data) = Some bytes \<and>
          length bytes \<le> MAX_DOCUMENT_BYTES \<and> document_bytes_match_format format bytes"
        using data by (auto simp: document_data_def split: option.splits if_splits)
      then obtain data bytes where "get_str source ''data'' = Some data"
          "(if kind = ''base64'' then ve_base64 env data else Some data) = Some bytes"
          "length bytes \<le> MAX_DOCUMENT_BYTES" "document_bytes_match_format format bytes" by blast
      moreover have "kind \<in> {''base64'', ''text''}" using kinds False url by blast
      ultimately have "good_document env block" unfolding good_document_def using s k f by blast
      then show ?thesis using none by (cases "get_str block ''type'' = Some ''document''") simp_all
    qed
  qed
qed

text \<open>All images and documents of a block, those of nested content too.\<close>

function block_images :: "json \<Rightarrow> json list" where
  "block_images block = (if get_str block ''type'' = Some ''image'' then [block] else []) @ concat (map block_images (attached_content block))"
  by pat_completeness auto
termination
  by (relation "measure size") (simp_all add: attached_content_size)

function block_documents :: "json \<Rightarrow> json list" where
  "block_documents block = (if get_str block ''type'' = Some ''document'' then [block] else []) @ concat (map block_documents (result_content block))"
  by pat_completeness auto
termination
  by (relation "measure size") (simp_all add: result_content_size)

declare block_images.simps [simp del] block_documents.simps [simp del]

lemma count_images: "count_block_images b = length (block_images b)"
proof (induction b rule: count_block_images.induct)
  case (1 b)
  then have "map count_block_images (attached_content b) = map length (map block_images (attached_content b))" by simp
  then show ?case by (simp only: count_block_images.simps [of b] block_images.simps [of b] length_append length_concat) simp
qed

lemma count_documents: "count_claude_documents b = length (block_documents b)"
proof (induction b rule: count_claude_documents.induct)
  case (1 b)
  then have "map count_claude_documents (result_content b) = map length (map block_documents (result_content b))" by simp
  then show ?case by (simp only: count_claude_documents.simps [of b] block_documents.simps [of b] length_append length_concat) simp
qed

definition sound_block :: "validate_env \<Rightarrow> json \<Rightarrow> bool" where
  "sound_block env b \<longleftrightarrow> list_all (good_image env) (block_images b) \<and> list_all (good_document env) (block_documents b)"

lemma sound_plain: "attached_content b = [] \<Longrightarrow> get_str b ''type'' \<noteq> Some ''document'' \<Longrightarrow>
    (get_str b ''type'' = Some ''image'' \<Longrightarrow> good_image env b) \<Longrightarrow> sound_block env b"
  by (auto simp: sound_block_def block_images.simps [of b] block_documents.simps [of b] attached_content_def result_content_def)

lemma attached_other: "get_str b ''type'' \<noteq> Some ''tool_result'' \<Longrightarrow> get_str b ''type'' \<noteq> Some ''document'' \<Longrightarrow> attached_content b = []"
  by (simp add: attached_content_def)

lemma sound_document:
  assumes "validate_claude_document env b f = None" "get_str b ''type'' = Some ''document''"
  shows "sound_block env b"
proof -
  note d = document_good [OF assms(1)]
  have "sound_block env c" if "c \<in> set (attached_content b)" for c
    using d that assms(2) by (intro sound_plain attached_other) auto
  moreover have "result_content b = []" using assms(2) by (simp add: result_content_def)
  ultimately show ?thesis using d assms(2)
    by (auto simp: sound_block_def block_images.simps [of b] block_documents.simps [of b] list_all_iff)
qed

lemma block_checked:
  assumes "validate_block_with env nested b role f inner = None"
  shows "get_str b ''type'' = Some ''image'' \<Longrightarrow> good_image env b"
    and "get_str b ''type'' = Some ''document'' \<Longrightarrow> validate_claude_document env b f = None"
    and "get_str b ''type'' = Some ''tool_result'' \<Longrightarrow> \<not> inner \<and> tool_result_block nested b role f = None"
proof -
  show "good_image env b" if "get_str b ''type'' = Some ''image''"
    using assms that by (intro image_good [of env b f]) (simp add: validate_block_with_def first_error_None)
  show "validate_claude_document env b f = None" if "get_str b ''type'' = Some ''document''"
    using assms that by (simp add: validate_block_with_def first_error_None)
  show "\<not> inner \<and> tool_result_block nested b role f = None" if "get_str b ''type'' = Some ''tool_result''"
    using assms that by (cases inner) (simp_all add: validate_block_with_def)
qed

lemma sound_unless_result:
  assumes "validate_block_with env nested b role f inner = None" "get_str b ''type'' \<noteq> Some ''tool_result''"
  shows "sound_block env b"
proof (cases "get_str b ''type'' = Some ''document''")
  case True
  then show ?thesis using block_checked(2) [OF assms(1)] by (intro sound_document)
next
  case False
  then show ?thesis using block_checked(1) [OF assms(1)] assms(2) by (intro sound_plain attached_other)
qed

lemma inner_sound: "validate_claude_block env b ''user'' f True = None \<Longrightarrow> sound_block env b"
  unfolding validate_claude_block_def using sound_unless_result block_checked(3) by blast

lemma block_sound:
  assumes "validate_claude_block env b role f False = None"
  shows "sound_block env b"
proof (cases "get_str b ''type'' = Some ''tool_result''")
  case True
  then have r: "tool_result_block (\<lambda>c g. validate_claude_block env c ''user'' g True) b role f = None"
    using block_checked(3) [OF assms [unfolded validate_claude_block_rec [of env b role f False]]] by blast
  have content: "attached_content b = result_content b" "result_content b = unwrap_or (Option.bind (v_get b ''content'') as_array) []"
    using True by (simp_all add: attached_content_def result_content_def)
  have "sound_block env c" if c: "c \<in> set (result_content b)" for c
  proof -
    obtain xs where xs: "v_get b ''content'' = Some (JArray xs)" "c \<in> set xs"
      using array_of [OF c [unfolded content(2)]] by blast
    then show ?thesis using r inner_sound by (auto simp: tool_result_block_def first_error_None each_index_None in_set_conv_nth)
  qed
  then show ?thesis using True content(1)
    by (auto simp: sound_block_def block_images.simps [of b] block_documents.simps [of b] list_all_iff)
next
  case False
  with assms show ?thesis unfolding validate_claude_block_def by (rule sound_unless_result)
qed

definition request_images :: "claude_request \<Rightarrow> json list" where
  "request_images request = concat (map (\<lambda>m. concat (map block_images (blocks_of (cm_content m)))) (cq_messages request))"

definition request_documents :: "claude_request \<Rightarrow> json list" where
  "request_documents request = concat (map (\<lambda>m. concat (map block_documents (blocks_of (cm_content m)))) (cq_messages request))"

lemma content_sound:
  assumes "validate_claude_content env content role f = None" "b \<in> set (blocks_of content)"
  shows "sound_block env b"
proof -
  from assms(2) obtain bs where bs: "content = JArray bs" "b \<in> set bs" by (cases content) (auto simp: blocks_of_def)
  then obtain i where "i < length bs" "bs ! i = b" by (auto simp: in_set_conv_nth)
  then have "validate_claude_block env b role (sub_at f i) False = None"
    using assms(1) bs(1) by (auto simp: validate_claude_content_def first_error_None each_index_None)
  then show ?thesis by (rule block_sound)
qed

lemma foldl_sat_add: "foldl sat_add a xs = (if xs = [] then a else min usize_max (a + sum_list xs))"
  by (induction xs arbitrary: a) (auto simp: sat_add_def)

lemma bounded_sum: "\<not> bound < foldl sat_add 0 xs \<Longrightarrow> bound < usize_max \<Longrightarrow> sum_list xs \<le> bound"
  by (cases "xs = []") (auto simp: foldl_sat_add min_def split: if_splits)

lemma image_total: "sum_list (map (count_claude_images \<circ> cm_content) (cq_messages request)) = length (request_images request)"
  unfolding request_images_def count_claude_images_def count_images [THEN ext] by (simp add: length_concat comp_def)

lemma document_total: "sum_list (map (count_claude_documents_in_content \<circ> cm_content) (cq_messages request)) = length (request_documents request)"
  unfolding request_documents_def count_claude_documents_in_content_def count_documents [THEN ext] by (simp add: length_concat comp_def)

text \<open>C14: An accepted Claude request carries only attachments the upstream can take. Every image and every document in it, at any depth the
  content can nest, is either an HTTP address without credentials or data that decodes, is small enough and has the format it
  declares; and there are at most 100 images and 5 documents.\<close>

theorem accepted_attachments_good:
  assumes "validate_claude_request env request counting = None"
  shows "list_all (good_image env) (request_images request) \<and> length (request_images request) \<le> 100 \<and>
    list_all (good_document env) (request_documents request) \<and> length (request_documents request) \<le> 5"
proof -
  note a = assms [unfolded validate_claude_request_def]
  have m: "each_index (claude_message_error env) (cq_messages request) = None"
    and i: "\<not> MAX_IMAGES_PER_REQUEST < foldl sat_add 0 (map (count_claude_images \<circ> cm_content) (cq_messages request))"
    and d: "\<not> MAX_DOCUMENTS_PER_REQUEST < foldl sat_add 0 (map (count_claude_documents_in_content \<circ> cm_content) (cq_messages request))"
    using a by (simp_all add: first_error_None)
  have "sound_block env b" if message: "message \<in> set (cq_messages request)" and b: "b \<in> set (blocks_of (cm_content message))" for message b
  proof -
    obtain j where j: "j < length (cq_messages request)" "cq_messages request ! j = message"
      using message by (auto simp: in_set_conv_nth)
    then have "claude_message_error env j message = None" using m by (auto simp: each_index_None)
    then have "validate_claude_content env (cm_content message) (cm_role message) (sub (sub_at ''messages'' j) ''content'') = None"
      unfolding claude_message_error_def Let_def first_error_None by simp
    then show ?thesis using b by (rule content_sound)
  qed
  then have "list_all (good_image env) (request_images request)" "list_all (good_document env) (request_documents request)"
    by (auto simp: sound_block_def request_images_def request_documents_def list_all_iff)
  moreover have "length (request_images request) \<le> MAX_IMAGES_PER_REQUEST"
    using bounded_sum [OF i] unfolding image_total by (simp add: MAX_IMAGES_PER_REQUEST_def usize_max_def)
  moreover have "length (request_documents request) \<le> MAX_DOCUMENTS_PER_REQUEST"
    using bounded_sum [OF d] unfolding document_total by (simp add: MAX_DOCUMENTS_PER_REQUEST_def usize_max_def)
  ultimately show ?thesis unfolding MAX_IMAGES_PER_REQUEST_def MAX_DOCUMENTS_PER_REQUEST_def by blast
qed

definition sample_env :: validate_env where
  "sample_env = \<lparr>ve_base64 = Some,
     ve_url = (\<lambda>u. if u = ''https://h/p'' then Some \<lparr>pu_scheme = ''https'', pu_host = Some ''h'', pu_username = [], pu_password = None\<rparr> else None),
     ve_to_json = (\<lambda>_. []), ve_from_json = (\<lambda>_. None)\<rparr>"

definition url_block :: "string \<Rightarrow> json" where
  "url_block kind = JObject [(''type'', JString kind),
     (''source'', JObject [(''type'', JString ''url''), (''url'', JString ''https://h/p'')])]"

definition sample_request :: claude_request where
  "sample_request = \<lparr>cq_model = ''m'',
     cq_messages = [\<lparr>cm_role = ''user'', cm_content = JArray [url_block ''image'', url_block ''document''],
       cm_cache_control = None, cm_output_config = None, cm_extra = []\<rparr>],
     cq_max_tokens = 1, cq_temperature = None, cq_top_p = None, cq_top_k = None, cq_stop_sequences = [], cq_stream = False,
     cq_system = None, cq_tools = [], cq_tool_choice = None, cq_thinking = None, cq_output_config = None, cq_cache_control = None,
     cq_service_tier = None, cq_metadata = None, cq_conversation_id = None, cq_context_management = None, cq_extra = []\<rparr>"

lemma sample_content:
  "cm_content (hd (cq_messages sample_request)) = JArray [url_block ''image'', url_block ''document'']"
  "get_str (url_block kind) ''type'' = Some kind"
  "v_get (url_block kind) ''transformations'' = None" "attached_content (url_block kind) = []" "result_content (url_block kind) = []"
  by (simp_all add: sample_request_def url_block_def get_str_def attached_content_def result_content_def)

lemma sample_message_passes: "claude_message_error sample_env 0 (hd (cq_messages sample_request)) = None"
proof -
  have url: "validate_http_attachment_url sample_env ''https://h/p'' f = None" for f
    by (simp add: validate_http_attachment_url_def sample_env_def)
  have i: "validate_claude_image sample_env (url_block ''image'') f = None" for f
    by (simp add: validate_claude_image_def url_block_def get_str_def url Let_def unknown_key_def)
  have d: "validate_claude_document sample_env (url_block ''document'') f = None" for f
    by (simp add: validate_claude_document_def document_citations_def document_source_def url_block_def get_str_def url unknown_key_def
      wrong_type_def Let_def)
  have "validate_claude_block sample_env (url_block ''image'') ''user'' f False = None" for f
    unfolding validate_claude_block_def validate_block_with_def using i by (simp add: sample_content validate_image_transformations_def)
  moreover have "validate_claude_block sample_env (url_block ''document'') ''user'' f False = None" for f
    unfolding validate_claude_block_def validate_block_with_def using d by (simp add: sample_content)
  ultimately have "validate_claude_content sample_env (cm_content (hd (cq_messages sample_request))) ''user'' f = None" for f
    unfolding sample_content(1)
    by (simp add: validate_claude_content_def each_index_None count_claude_documents.simps sample_content MAX_DOCUMENTS_PER_MESSAGE_def less_Suc_eq)
  then show ?thesis by (simp add: claude_message_error_def sample_request_def validate_claude_output_config_def)
qed

lemma sample_totals:
  "count_claude_images (cm_content (hd (cq_messages sample_request))) = 1"
  "count_claude_documents_in_content (cm_content (hd (cq_messages sample_request))) = 1"
  by (simp_all add: sample_content count_claude_images_def count_claude_documents_in_content_def blocks_of_def
    count_block_images.simps count_claude_documents.simps)

lemma sample_blocks:
  "placed_blocks sample_request = [(sub_at (sub (sub_at ''messages'' 0) ''content'') 0, url_block ''image''), (sub_at (sub (sub_at ''messages'' 0) ''content'') (Suc 0), url_block ''document'')]"
  by (simp add: placed_blocks_def placed_message_def sample_request_def blocks_of_def)

lemma sample_history_passes:
  "validate_server_tool_history sample_request = None" "validate_tool_references sample_request names = None"
  by (simp_all add: validate_server_tool_history_def validate_tool_references_def sample_blocks sample_content result_kind_def
    block_references_def each_index_def)

lemma sample_fields:
  "cq_model sample_request = ''m''" "cq_messages sample_request \<noteq> []" "cq_max_tokens sample_request = 1" "cq_temperature sample_request = None"
  "cq_top_p sample_request = None" "cq_stop_sequences sample_request = []" "cq_system sample_request = None" "cq_tools sample_request = []"
  "cq_tool_choice sample_request = None" "cq_thinking sample_request = None" "cq_output_config sample_request = None"
  "cq_metadata sample_request = None" "cq_conversation_id sample_request = None" "cq_context_management sample_request = None"
  by (simp_all add: sample_request_def)

lemma sample_cache_passes: "validate_claude_cache_controls sample_request = None"
proof -
  have nested: "cache_nested (url_block kind) f = None" for kind f
    by (simp add: cache_nested_def url_block_def get_str_def)
  have visit: "cache_visit None f e cc = Inr (if e then cc\<lparr>kc_last_target := Some \<lparr>at_position = length (kc_breakpoints cc),
      at_explicit_ttl = None, at_field = f\<rparr>\<rparr> else cc)" for f e cc
    by (simp add: cache_visit_def cache_control_ttl_def opt_filter_def)
  have control: "v_get (url_block kind) ''cache_control'' = None" for kind by (simp add: url_block_def)
  have ttl: "cache_control_ttl None f = Inr None" for f by (simp add: cache_control_ttl_def opt_filter_def)
  show ?thesis
    by (simp add: validate_claude_cache_controls_def sample_request_def ttl nested cache_block_control_def control visit Let_def
      cache_finish_def bounded_breakpoints_def wrong_type_def MAX_CACHE_BREAKPOINTS_def)
qed

text \<open>An image and a document, both given by their address.\<close>

theorem accepted_attachments_good_witness:
  "validate_claude_request sample_env sample_request False = None \<and> length (request_images sample_request) = 1 \<and>
   list_all (good_image sample_env) (request_images sample_request) \<and> list_all (good_document sample_env) (request_documents sample_request)"
proof -
  have messages: "cq_messages sample_request = [hd (cq_messages sample_request)]" by (simp add: sample_request_def)
  have "each_index (claude_message_error sample_env) (cq_messages sample_request) = None"
    using sample_message_passes by (subst messages) (simp add: each_index_None)
  moreover have "foldl sat_add 0 (map (count_claude_images \<circ> cm_content) (cq_messages sample_request)) = 1"
      "foldl sat_add 0 (map (count_claude_documents_in_content \<circ> cm_content) (cq_messages sample_request)) = 1"
    by (subst messages; simp add: sample_totals sat_add_def usize_max_def)+
  moreover have "validate_model ''m'' = None" by code_simp
  ultimately have passes: "validate_claude_request sample_env sample_request False = None"
    unfolding validate_claude_request_def first_error_None using sample_history_passes sample_cache_passes
    by (simp add: sample_fields validate_common_def outside_def catalog_bytes_def
      MAX_LOADED_TOOL_BYTES_def MAX_DEFERRED_TOOL_BYTES_def validate_stop_sequences_def
      validate_claude_system_def validate_claude_output_config_def wrong_type_def bad_identifier_def MAX_IMAGES_PER_REQUEST_def
      MAX_DOCUMENTS_PER_REQUEST_def tool_catalog_error_def tool_choice_error_def validate_thinking_def validate_context_management_def)
  have "length (request_images sample_request) = 1"
    unfolding image_total [symmetric] by (subst messages) (simp add: sample_totals)
  then show ?thesis using passes accepted_attachments_good [OF passes] by blast
qed

definition edit_request :: claude_request where
  "edit_request = sample_request\<lparr>cq_context_management := Some (JObject [(''edits'', JArray [JObject
     [(''type'', JString ''clear_tool_uses_20250919''),
      (''keep'', JObject [(''type'', JString ''tool_uses''), (''value'', JNumber (PosInt 2))])]])])\<rparr>"

text \<open>An edit that clears tool uses and keeps two.\<close>

theorem validated_edits_read_as_written_witness:
  "validate_context_management (cq_context_management edit_request) = None \<and>
   (\<exists>plan edit. plan_clear_tool_uses (cq_context_management edit_request) = Some plan \<and> tool_uses_as_written edit plan)"
proof -
  have passes: "validate_context_management (cq_context_management edit_request) = None"
    unfolding edit_request_def sample_request_def by code_simp
  have "matches_type_family ''clear_tool_uses_20250919'' ''clear_tool_uses''" by code_simp
  then have "plan_clear_tool_uses (cq_context_management edit_request) \<noteq> None"
    by (simp add: edit_request_def plan_clear_tool_uses_def find_edit_def edits_of_def block_type_def get_str_def)
  then show ?thesis using validated_edits_read_as_written [OF passes] passes by blast
qed

end
