(* ===== verification/Spec2Isabelle.thy ===== *)
theory Spec2Isabelle
  imports ToolHistoryCorrect EventStreamCorrect Catalog EndpointCorrect ModelCorrect PoolSelection
    MeterBudget MeterWriter ClaudeStreamRefines ThinkingFilterCorrect PromptCacheCorrect
    ContextEditsCorrect Continuation RefreshCorrect ErrorTextCorrect KiroClientCorrect
    CompactionCorrect PartitionCorrect DispatchCorrect ValidateCorrect
begin

text \<open>
  \<^bold>\<open>kiro-proxy\<close> is a local proxy, written in Rust, that serves the Claude and OpenAI HTTP protocols from
  Kiro accounts. A request is validated (\<open>kproxy-translate/src/validate.rs\<close>) and authenticated and its credits are reserved
  (\<open>kproxyd/src/meter.rs\<close>); its model name is mapped and resolved (\<open>kproxy-translate/src/model.rs\<close>); an account is taken from the
  pool (\<open>kproxy-pool\<close>), whose token is refreshed when it expires; its history is repaired
  (\<open>kproxy-translate/src/tool_history.rs\<close>) and cut or compacted to the model's window (\<open>tokenizer.rs\<close>); the payload
  goes to the endpoints the cache offers (\<open>kproxy-kiro/src/endpoint.rs\<close>, \<open>client.rs\<close>), and after a failure to another account
  (\<open>kproxyd/src/http/handlers/execution/dispatch.rs\<close>); the answer comes back as AWS
  event-stream frames (\<open>kproxy-kiro/src/event_stream.rs\<close>), is cut at the client's stop sequences and is
  sent on as server-sent events or as one JSON value (\<open>kproxyd/src/http/response.rs\<close>, \<open>stream.rs\<close>);
  the credits are settled and the account is given back.

  \<^bold>\<open>Conventions.\<close> A \<open>String\<close> is its UTF-8 byte sequence, a \<^typ>\<open>string\<close>. A \<open>HashMap\<close> is an association list
  with distinct keys, a \<open>BTreeMap\<close> its entries in key order, a \<open>HashSet\<close> a set. Fallible code returns an
  option or a sum; a panic (a slice that is not at a character boundary, an index out of range) is
  \<^const>\<open>None\<close>. A mutex-protected block is one step; methods that take two locks are two steps and other
  requests run between them. Integers keep their width where a cast, a saturation or a wrap-around
  can be reached; counters that no operation can bring to their bound are \<^typ>\<open>nat\<close>, with saturation
  written out. \<open>f64\<close> is a rational, an infinity or NaN: sums and differences round to the nearest
  binary64 number, ties to even, as the hardware does; products and quotients, which only weigh and
  scale, are exact, and a constant such as 0.85 is its decimal value; a comparison with NaN is
  false, as in Rust. Every operation reads the clock once; the code reads it once or at once again.

  \<^bold>\<open>Parameters.\<close> Code outside the repository is an argument: \<open>crc32\<close>, JSON parsing and printing, SHA-256,
  \<open>f64\<close> parsing, the tokenizer, base64, URL parsing, the replay codec's encryption, the clock and the local time, random choices,
  the outcome of writing a file and the replies of the upstream. So is what other tasks do to shared state while a
  request awaits something. What a theorem needs of one is a named hypothesis with a witness.

  \<^bold>\<open>Library.\<close> \<open>Prelude\<close> (integers, strings, orderings, maps, the locales \<open>machine\<close>, \<open>guarded_machine\<close> and \<open>counted_machine\<close> for
  invariants of operation sequences, the last for those that loosen with every step, and \<open>finite_kv\<close> for map interfaces),
  \<open>Rounding\<close> (the binary64 format, rounding to nearest even and its error) and \<open>Values\<close> (\<open>f64\<close>, JSON).

  \<^bold>\<open>Components.\<close> For each, the theories, the code and what is proved.

  \<^item> Request payload and tool history: \<open>Requests\<close> and \<open>KiroProtocol\<close> (\<open>protocol.rs\<close>), \<open>ToolHistory\<close> (\<open>tool_history.rs\<close>, one
    definition per pass), \<open>ToolHistoryCorrect\<close>: the checker decides a declarative contract, and the
    sanitizer's result satisfies the checker for every payload; truncation keeps the protected prefix
    and the newest messages.
  \<^item> Event stream: \<open>EventStream\<close> (\<open>event_stream.rs\<close> and the loop of \<open>client.rs\<close>), \<open>EventStreamCorrect\<close>:
    the locale \<open>frame_decoder\<close>, interpreted on the decoder, gives independence of chunking; encoded
    frames are decoded again; an error frame ends the collection with its message.
  \<^item> Accounts and catalog: \<open>Account\<close> (\<open>account.rs\<close>, \<open>provider.rs\<close>), \<open>Catalog\<close> (\<open>catalog.rs\<close>): the tier matrix.
  \<^item> Endpoints: \<open>OrderedCache\<close>, \<open>Endpoint\<close> (\<open>endpoint.rs\<close>), \<open>EndpointCorrect\<close>: the cache's invariant under
    every operation, the order it offers, and the rejection of stale writes.
  \<^item> Models: \<open>Model\<close> (\<open>model.rs\<close>), \<open>ModelCorrect\<close>: which rule, which version and which thinking controls
    are chosen; the locale \<open>comparator\<close> is interpreted on the version order.
  \<^item> Account pool: \<open>Pool\<close> (\<open>state.rs\<close>, \<open>pool.rs\<close>), \<open>PoolCorrect\<close>, \<open>PoolSelection\<close>: exact accounting of slots,
    leases and queue entries under every sequence of operations, in which the scan, the taking of a slot and the
    entry into the queue of an acquisition are also steps of their own, between which others run; the concurrency limit, eligibility
    and lowest score of the account taken, when a request waits, and the scheduling counts.
  \<^item> Credit meter: \<open>Calendar\<close> (\<open>civil_from_days\<close> is the Gregorian calendar), \<open>UsageLedger\<close>,
    \<open>UsageLedgerCorrect\<close> (bounded maps, balanced books), \<open>Meter\<close>, \<open>MeterCorrect\<close> (concurrent requests
    whose operations are two atomic blocks each: what is reserved is what the requests hold, up to a drift that is bounded by the
    rounding of each block), \<open>MeterBudget\<close> (the daily and the key limit hold at every moment, up to the same
    drift), \<open>MeterWriter\<close> (the background writer as a step relation, with writes that fail: no change is forgotten by the
    handshake, and it comes to rest); all of \<open>meter.rs\<close>.
  \<^item> Stop sequences: \<open>StopFilter\<close> (\<open>StopSequenceFilter\<close> of \<open>response.rs\<close>): the Knuth-Morris-Pratt automata
    refine a specification that reads the whole text; the inner loop is a \<open>partial_function\<close>, and
    its termination is part of the theorem.
  \<^item> Buffered answer: \<open>Decoded\<close> (\<open>DecodedResponse\<close> of \<open>response.rs\<close>), \<open>DecodedCorrect\<close>: what the buffer
    holds, its limit, and that finished tool inputs are not repaired.
  \<^item> Streamed answer: \<open>ClaudeStream\<close> (\<open>ClaudeState\<close> and both encoders of \<open>stream.rs\<close>), \<open>ClaudeStreamCorrect\<close>
    (the client as specification, the simulation of every operation, the locale \<open>stream_refinement\<close>),
    \<open>ClaudeStreamRefines\<close> (its two interpretations: the protocol, and the agreement of the streamed
    with the buffered answer).
  \<^item> Thinking filter: \<open>ThinkingFilter\<close> (\<open>ThinkingContentFilter\<close> and \<open>MarkdownPosition\<close> of \<open>response.rs\<close>),
    \<open>ThinkingFilterCorrect\<close>: it agrees with a specification that reads the whole text.
  \<^item> Compaction replay: \<open>ReplayCache\<close> (\<open>compaction_replay.rs\<close>): its bounds, and that a replayed
    checkpoint was made for the messages the request starts with, under interleaved critical sections and where the digest does not collide.
  \<^item> Prompt cache: \<open>PromptCache\<close> (\<open>prompt_cache.rs\<close>), \<open>PromptCacheCorrect\<close>: when a cache read may be expected, the bounds of the
    store, and what a fingerprint identifies.
  \<^item> Context management: \<open>ContextEdits\<close> (\<open>context.rs\<close>), \<open>ContextEditsCorrect\<close>: which tool
    results and thinking blocks are cleared, and the shape of a history after its compaction block.
  \<^item> Internal continuation: \<open>Continuation\<close> (\<open>translate/auto_continue.rs\<close>): the payload of the next round satisfies the tool-history contract.
  \<^item> Token refresh: \<open>Refresh\<close> (\<open>refresh.rs\<close>), \<open>RefreshCorrect\<close>: a step relation over the awaits of concurrent refreshes and of
    tasks that edit the account meanwhile; one at a time runs, the mark of a refresh does not outlive it, and a rejected token is replaced once
    unless somebody brings it back.
  \<^item> Error texts: \<open>ErrorText\<close> (\<open>error.rs\<close>), \<open>ErrorTextCorrect\<close>: what a client never sees of an upstream's message.
  \<^item> Upstream client: \<open>KiroClient\<close> (the generation request of \<open>client.rs\<close>, usage and profiles), \<open>KiroClientCorrect\<close>: the endpoints
    that are asked, in which order, with which payload, and what is remembered.
  \<^item> Tokens and compaction: \<open>Tokens\<close> and \<open>Compaction\<close> (\<open>tokenizer.rs\<close>, \<open>tokenizer/context.rs\<close>), \<open>Partition\<close> (\<open>tokenizer/compaction.rs\<close>),
    with \<open>TokensCorrect\<close> (the turns that are removed are the fewest that reach the limit; the breakdown of an estimate adds up),
    \<open>CompactionCorrect\<close> (both compactions return; a result fits its target, and the local one keeps all documents) and
    \<open>PartitionCorrect\<close> (the parts of a summary request hold the whole history, in order, each within the window).
  \<^item> Request loop: \<open>Dispatch\<close> (\<open>dispatch.rs\<close>, and what it uses of \<open>execution.rs\<close>, \<open>handlers.rs\<close> and \<open>state.rs\<close>) over the pool, the models and
    the token estimate, \<open>DispatchCorrect\<close>: with any answers, and any operations of other tasks on the pool, a
    request is sent only with accounts of its scope and a bounded number of times, and only for models of its key's scope unless a reload removes an
    account between its lease and the lookup of its models; a preflight sends nothing.
  \<^item> Request validation: \<open>ValidateContent\<close> and \<open>Validate\<close> (\<open>validate.rs\<close>, \<open>validate/cache.rs\<close>, \<open>openai_file_document\<close> of \<open>compatibility.rs\<close>): a
    check gives the first error the code would return. \<open>ValidateCorrect\<close>: the limits of tool schemas and the protocol of server tools
    are decided exactly, every attachment of an accepted Claude request is usable, and its context edits are read as they were written.
  \<^item> This theory composes the stop filter with the encoder.

  \<^bold>\<open>Bounds and fuel.\<close> No definition uses fuel. Loops are structural recursions or recursions with a
  termination proof; the automaton's inner loop, the search for a text that fits and the loop that divides a history are
  \<open>partial_function\<close>s whose result is shown to be \<^const>\<open>Some\<close>. A request in the queue of the pool is woken by a list
  of turns; a list that ends while it waits is a request that has not returned. The limits of the code (500 cache entries,
  16 MiB of tool input, 50 MiB frames, ...) are definitions with the source's names.

  \<^bold>\<open>Not modelled.\<close> The translation of client requests (\<open>translate/\<close>, \<open>parse_openai_request\<close>), which rearranges JSON values; the Responses API and the filter for leaked tool text; the HTTP handlers around the request loop, the collection of an
  answer over several rounds, web search; login (network); the Copilot provider; statistics, alerts, logging and periodic
  tasks; configuration files, the admin API and the command line. Of the modelled parts: the count cache in front of the
  tokenizer, HTTP headers, log lines and the delays between attempts.
\<close>

section \<open>The stop filter in front of the encoder\<close>

fun filtered_events :: "string list \<Rightarrow> stop_filter \<Rightarrow> (kiro_event list \<times> stop_filter) option" where
  "filtered_events [] f = Some ([], f)"
| "filtered_events (c # cs) f = (case client_visible_event (AssistantResponse c) f of
       None \<Rightarrow> None
     | Some (visible, f') \<Rightarrow> map_option (\<lambda>(events, g). (case visible of None \<Rightarrow> events | Some e \<Rightarrow> e # events, g))
         (filtered_events cs f'))"

definition trailing_events :: "stop_filter \<Rightarrow> kiro_event list" where
  "trailing_events f = (let trailing = fst (stop_finish f)
     in if trailing = [] then [] else [AssistantResponse trailing])"

lemma filtered_events_push_all:
  "push_all cs f = Some (x, g) \<Longrightarrow>
     \<exists>ts. filtered_events cs f = Some (map AssistantResponse ts, g) \<and> concat ts = x"
proof (induction cs arbitrary: f x)
  case (Cons c cs)
  then obtain v f' xs where p: "stop_push c f = Some (v, f')" "push_all cs f' = Some (xs, g)" "x = v @ xs"
    by (auto split: option.splits)
  obtain ts where ts: "filtered_events cs f' = Some (map AssistantResponse ts, g)" "concat ts = xs"
    using Cons.IH [OF p(2)] by blast
  show ?case using p ts
    by (intro exI [where x = "if v = [] then ts else v # ts"]) (simp add: client_visible_event_def)
qed simp

lemma text_events_sim:
  "synced s c \<Longrightarrow> \<exists>out s' c'. run_ops (claude_op_step to_json) (map (Event \<circ> AssistantResponse) ts) s = (Inr out, s') \<and>
     client_run out c = Some c' \<and> synced s' c' \<and> gather text_of c' = gather text_of c @ concat ts"
proof (induction ts arbitrary: s c)
  case (Cons t ts)
  obtain o1 s1 where e: "emit_text t s = (o1, s1)" by fastforce
  obtain c1 where c1: "client_run o1 c = Some c1" "synced s1 c1"
      "filled ''text'' (text_block []) [text_delta t] c c1"
    using emit_text_sim [OF Cons.prems e] by blast
  have g1: "gather text_of c1 = gather text_of c @ t"
    using filled_gather [OF c1(3) adds_text(1)] by (simp add: text_of_def)
  obtain o2 s2 c2 where c2: "run_ops (claude_op_step to_json) (map (Event \<circ> AssistantResponse) ts) s1 = (Inr o2, s2)"
      "client_run o2 c1 = Some c2" "synced s2 c2" "gather text_of c2 = gather text_of c1 @ concat ts"
    using Cons.IH [OF c1(2)] by blast
  show ?case using e c1(1) c2 g1
    by (intro exI [where x = "o1 @ o2"] exI [where x = s2] exI [where x = c2])
       (simp add: claude_event_def client_run_append comp_def)
qed simp

text \<open>C19: A client that streams sees exactly the text before the stop. For every list of stop sequences
  and every split of the upstream text, the chunks go through the stop filter and the encoder
  without a panic, and the text the client puts together is the upstream text up to the earliest
  stop sequence, which is the one the filter reports.\<close>

theorem streamed_text_stops_exactly:
  assumes "\<forall>q \<in> set sequences. starts_char q"
  shows "\<exists>f visible g out s c. stop_filter_new sequences = Some f \<and> filtered_events chunks f = Some (visible, g) \<and>
    run_ops (claude_op_step to_json) (map Event (visible @ trailing_events g)) (build_claude_state cx) = (Inr out, s) \<and>
    client_run out client_init = Some c \<and>
    (gather text_of c, sf_matched g) = stop_spec (filter (\<lambda>q. q \<noteq> []) sequences) (concat chunks)"
proof -
  obtain f x g where f: "stop_filter_new sequences = Some f" "push_all chunks f = Some (x, g)"
    "(x @ fst (stop_finish g), sf_matched (snd (stop_finish g))) =
       stop_spec (filter (\<lambda>q. q \<noteq> []) sequences) (concat chunks)"
    by (rule stop_run_finish [OF assms])
  obtain ts where ts: "filtered_events chunks f = Some (map AssistantResponse ts, g)" "concat ts = x"
    using filtered_events_push_all [OF f(2)] by blast
  let ?ts = "ts @ (if fst (stop_finish g) = [] then [] else [fst (stop_finish g)])"
  have ops: "map Event (map AssistantResponse ts @ trailing_events g) = map (Event \<circ> AssistantResponse) ?ts"
    by (simp add: trailing_events_def Let_def)
  obtain out s c where run: "run_ops (claude_op_step to_json) (map (Event \<circ> AssistantResponse) ?ts)
      (build_claude_state cx) = (Inr out, s)" "client_run out client_init = Some c"
      "gather text_of c = gather text_of client_init @ concat ?ts"
    using text_events_sim [OF synced_init] by blast
  have "gather text_of c = x @ fst (stop_finish g)" using run(3) ts(2) by (simp add: gather_def client_init_def)
  moreover have "sf_matched (snd (stop_finish g)) = sf_matched g" by (simp add: stop_finish_def Let_def)
  ultimately show ?thesis using f(1,3) ts(1) run(1,2) ops by metis
qed

theorem streamed_text_stops_exactly_witness:
  "\<exists>f visible g out s c. stop_filter_new [''STOP''] = Some f \<and> filtered_events [''a S'', ''TOP b''] f = Some (visible, g) \<and>
    run_ops (claude_op_step (\<lambda>_. [])) (map Event (visible @ trailing_events g)) (build_claude_state demo_settings) = (Inr out, s) \<and>
    client_run out client_init = Some c \<and> (gather text_of c, sf_matched g) = (''a '', Some ''STOP'')"
proof -
  have "stop_spec [''STOP''] ''a STOP b'' = (''a '', Some ''STOP'')" by code_simp
  moreover have "\<forall>q \<in> set [''STOP'']. starts_char q" by (simp add: starts_char_def byte_def)
  ultimately show ?thesis
    using streamed_text_stops_exactly [of "[''STOP'']" "[''a S'', ''TOP b'']" "\<lambda>_. []" demo_settings] by simp
qed

end
